(* ===== verification/Prelude.thy ===== *)
theory Prelude
  imports Main "HOL-Library.Word"
begin

unbundle bit_operations_syntax

text \<open>
  Names shared by every component: the machine integers of the C sources as words of their
  width, the C casts that the sources apply to them, and the lemmas on words the component
  proofs share.

  \<^item> \<open>uint8_t\<close>, \<open>uint16_t\<close>, \<open>uint32_t\<close>, \<open>uint64_t\<close> are \<open>u8\<close>, \<open>u16\<close>, \<open>u32\<close>, \<open>u64\<close>; a host
    pointer or \<open>uintptr_t\<close> is a \<open>u64\<close> (64-bit host), with \<open>NULL\<close> as \<open>0\<close>;
  \<^item> a shift \<open>x << n\<close> is \<^term>\<open>push_bit n x\<close>, an unsigned \<open>x >> n\<close> is \<^term>\<open>drop_bit n x\<close> and
    a signed \<open>x >> n\<close> is \<^term>\<open>signed_drop_bit n x\<close>;
  \<^item> a cast \<open>(int32_t)v\<close> that is then widened back is \<^term>\<open>signed_take_bit 31 v\<close>, a cast
    \<open>(uint32_t)v\<close> is \<^term>\<open>take_bit 32 v\<close>.
\<close>

section \<open>Types\<close>

type_synonym u8 = "8 word"
type_synonym u16 = "16 word"
type_synonym u32 = "32 word"
type_synonym u64 = "64 word"
type_synonym u128 = "128 word"

text \<open>C truth values: a nonzero integer is true.\<close>

abbreviation c_true :: "'a::len word \<Rightarrow> bool" where
  "c_true w \<equiv> w \<noteq> 0"

text \<open>The C result of a comparison or of \<open>!!x\<close>: \<open>0\<close> or \<open>1\<close>.\<close>

abbreviation c_bool :: "bool \<Rightarrow> 'a::len word" where
  "c_bool b \<equiv> of_bool b"

section \<open>Collections\<close>

named_theorems frame_simps \<open>what an operation leaves unchanged\<close>
named_theorems inv_intros \<open>operations that keep an invariant\<close>

section \<open>Words\<close>

lemma bit_exp_minus_1_iff:
  "bit (2 ^ n - 1 :: 'a::len word) i \<longleftrightarrow> i < LENGTH('a) \<and> i < n"
  by (metis bit_mask_iff mask_eq_exp_minus_1 possible_bit_word)

lemma and_mask_take_bit: "w AND mask n = take_bit n w"
  for w :: "'a::len word"
  by (simp add: take_bit_eq_mask)

lemma word_eq_maskI: "2 ^ n - 1 = (mask n :: 'a::len word)"
  by (simp add: mask_eq_exp_minus_1)

lemma push_bit_1_eq: "push_bit n (1 :: 'a::len word) = 2 ^ n"
  by simp

lemma unat_take_bit: "unat (take_bit n w) = unat w mod 2 ^ n"
  for w :: "'a::len word"
  by (simp add: unsigned_take_bit_eq flip: take_bit_eq_mod)

lemma unat_drop_bit: "unat (drop_bit n w) = unat w div 2 ^ n"
  for w :: "'a::len word"
  using take_bit_nat_eq_self [of "unat w" "LENGTH('a)"]
  by (simp add: unsigned_drop_bit_eq flip: drop_bit_eq_div)

lemma unat_push_bit_small:
  fixes w :: "'a::len word"
  assumes "unat w * 2 ^ n < 2 ^ LENGTH('a)"
  shows "unat (push_bit n w) = unat w * 2 ^ n"
proof -
  have "unat (push_bit n w) = take_bit LENGTH('a) (push_bit n (unat w))"
    by (rule unsigned_push_bit_eq)
  then show ?thesis
    using assms by (simp add: push_bit_eq_mult take_bit_eq_mod)
qed

lemma nat_or_add: "push_bit n x OR y = x * 2 ^ n + y" if "y < 2 ^ n" for x y :: nat
proof -
  have y: "take_bit n y = y" using that by (simp add: take_bit_nat_eq_self)
  have "push_bit n x AND y = 0"
    by (rule bit_eqI) (subst y [symmetric], auto simp: bit_simps)
  then have "push_bit n x OR y = push_bit n x + y"
    by (simp add: disjunctive_add_eq_or)
  then show ?thesis by (simp add: push_bit_eq_mult)
qed

text \<open>Two halves joined by a shift and an \<open>or\<close>.\<close>

lemma unat_join:
  fixes x y :: "'a::len word"
  assumes "unat y < 2 ^ n" "unat x * 2 ^ n < 2 ^ LENGTH('a)"
  shows "unat (push_bit n x OR y) = unat x * 2 ^ n + unat y"
proof -
  have "unat (push_bit n x OR y) = unat (push_bit n x) OR unat y"
    by (rule unsigned_or_eq)
  also have "unat (push_bit n x) = push_bit n (unat x)"
    by (subst unat_push_bit_small [OF assms(2)]) (simp add: push_bit_eq_mult)
  also have "push_bit n (unat x) OR unat y = unat x * 2 ^ n + unat y"
    by (rule nat_or_add [OF assms(1)])
  finally show ?thesis .
qed

lemma unat_add_small: "unat (x + y) = unat x + unat y"
  if "unat x + unat y < 2 ^ LENGTH('a)" for x y :: "'a::len word"
  using that by (simp add: unat_word_ariths)

lemma unat_mult_small: "unat (x * y) = unat x * unat y"
  if "unat x * unat y < 2 ^ LENGTH('a)" for x y :: "'a::len word"
  using that by (simp add: unat_word_ariths)

lemma unat_diff_small: "unat (x - y) = unat x - unat y"
  if "unat y \<le> unat x" for x y :: "'a::len word"
  using that by (simp add: unat_sub word_le_nat_alt)

end
