(* ===== verification/Cutils.thy ===== *)
theory Cutils
  imports Prelude
begin

text \<open>
  \<open>cutils.h\<close> and \<open>cutils.c\<close>: the byte-order accessors, \<open>ctz32\<close>, the bounded string copies and
  the growing byte buffer \<open>DynBuf\<close>.

  A pointer into memory is an address of a byte memory \<^typ>\<open>u64 \<Rightarrow> u8\<close>. A \<open>char\<close> buffer of a
  known size is the list of its bytes, and a C string argument is the list of the bytes before
  its terminating \<open>NUL\<close>.
\<close>

section \<open>Integers\<close>

definition max_int :: "int \<Rightarrow> int \<Rightarrow> int" where
  "max_int a b = (if a > b then a else b)"

definition min_int :: "int \<Rightarrow> int \<Rightarrow> int" where
  "min_int a b = (if a < b then a else b)"

text \<open>\<open>ctz32\<close>: the loop over \<open>i\<close> from \<open>0\<close>, with the number of iterations left.\<close>

fun ctz32_loop :: "u32 \<Rightarrow> nat \<Rightarrow> nat \<Rightarrow> nat" where
  "ctz32_loop a i 0 = 32"
| "ctz32_loop a i (Suc n) =
     (if c_true (drop_bit i a AND 1) then i else ctz32_loop a (Suc i) n)"

definition ctz32 :: "u32 \<Rightarrow> nat" where
  "ctz32 a = (if a = 0 then 32 else ctz32_loop a 0 32)"

lemma and_1_bit: "c_true (drop_bit i a AND 1) \<longleftrightarrow> bit a i"
  for a :: "'a::len word"
  by (simp add: and_one_eq bit_iff_odd_drop_bit odd_iff_mod_2_eq_one)

lemma ctz32_loop_first:
  assumes "\<exists>k. i \<le> k \<and> k < i + n \<and> bit a k"
  shows "bit a (ctz32_loop a i n) \<and> i \<le> ctz32_loop a i n \<and> ctz32_loop a i n < i + n
    \<and> (\<forall>j. i \<le> j \<longrightarrow> j < ctz32_loop a i n \<longrightarrow> \<not> bit a j)"
  using assms
proof (induction a i n rule: ctz32_loop.induct)
  case (1 a i)
  then show ?case by auto
next
  case (2 a i n)
  show ?case
  proof (cases "bit a i")
    case True
    then show ?thesis by (simp add: and_1_bit)
  next
    case False
    from "2.prems" obtain k where k: "i \<le> k" "k < i + Suc n" "bit a k" by blast
    with False have "Suc i \<le> k" by (metis le_antisym not_less_eq_eq)
    with k have "\<exists>k. Suc i \<le> k \<and> k < Suc i + n \<and> bit a k" by auto
    with "2.IH" False have "bit a (ctz32_loop a (Suc i) n) \<and> Suc i \<le> ctz32_loop a (Suc i) n
        \<and> ctz32_loop a (Suc i) n < Suc i + n
        \<and> (\<forall>j. Suc i \<le> j \<longrightarrow> j < ctz32_loop a (Suc i) n \<longrightarrow> \<not> bit a j)"
      by (simp add: and_1_bit)
    with False show ?thesis
      by (auto simp: and_1_bit) (metis le_antisym not_less_eq_eq)
  qed
qed

lemma ctz32_correct:
  assumes "a \<noteq> 0"
  shows "bit a (ctz32 a) \<and> ctz32 a < 32 \<and> (\<forall>j < ctz32 a. \<not> bit a j)"
proof -
  from assms obtain k where "bit a k"
    using bit_word_eqI [of a 0] by auto
  moreover from this have "k < 32" using bit_imp_le_length by fastforce
  ultimately show ?thesis
    using ctz32_loop_first [of 0 32 a] assms by (auto simp: ctz32_def)
qed

lemma ctz32_zero: "ctz32 0 = 32"
  by (simp add: ctz32_def)

section \<open>Byte order\<close>

definition get_le16 :: "(u64 \<Rightarrow> u8) \<Rightarrow> u64 \<Rightarrow> u16" where
  "get_le16 m p = ucast (m p) OR push_bit 8 (ucast (m (p + 1)))"

definition get_le32 :: "(u64 \<Rightarrow> u8) \<Rightarrow> u64 \<Rightarrow> u32" where
  "get_le32 m p = ucast (m p) OR push_bit 8 (ucast (m (p + 1)))
     OR push_bit 16 (ucast (m (p + 2))) OR push_bit 24 (ucast (m (p + 3)))"

definition get_le64 :: "(u64 \<Rightarrow> u8) \<Rightarrow> u64 \<Rightarrow> u64" where
  "get_le64 m p = ucast (get_le32 m p) OR push_bit 32 (ucast (get_le32 m (p + 4)))"

definition put_le16 :: "(u64 \<Rightarrow> u8) \<Rightarrow> u64 \<Rightarrow> u16 \<Rightarrow> (u64 \<Rightarrow> u8)" where
  "put_le16 m p v = m(p := ucast v, p + 1 := ucast (drop_bit 8 v))"

definition put_le32 :: "(u64 \<Rightarrow> u8) \<Rightarrow> u64 \<Rightarrow> u32 \<Rightarrow> (u64 \<Rightarrow> u8)" where
  "put_le32 m p v = m(p := ucast v, p + 1 := ucast (drop_bit 8 v),
     p + 2 := ucast (drop_bit 16 v), p + 3 := ucast (drop_bit 24 v))"

definition put_le64 :: "(u64 \<Rightarrow> u8) \<Rightarrow> u64 \<Rightarrow> u64 \<Rightarrow> (u64 \<Rightarrow> u8)" where
  "put_le64 m p v = put_le32 (put_le32 m p (ucast v)) (p + 4) (ucast (drop_bit 32 v))"

definition get_be32 :: "(u64 \<Rightarrow> u8) \<Rightarrow> u64 \<Rightarrow> u32" where
  "get_be32 m d = push_bit 24 (ucast (m d)) OR push_bit 16 (ucast (m (d + 1)))
     OR push_bit 8 (ucast (m (d + 2))) OR ucast (m (d + 3))"

definition put_be32 :: "(u64 \<Rightarrow> u8) \<Rightarrow> u64 \<Rightarrow> u32 \<Rightarrow> (u64 \<Rightarrow> u8)" where
  "put_be32 m d v = m(d := ucast (drop_bit 24 v), d + 1 := ucast (drop_bit 16 v),
     d + 2 := ucast (drop_bit 8 v), d + 3 := ucast (drop_bit 0 v))"

definition put_be64 :: "(u64 \<Rightarrow> u8) \<Rightarrow> u64 \<Rightarrow> u64 \<Rightarrow> (u64 \<Rightarrow> u8)" where
  "put_be64 m d v = put_be32 (put_be32 m d (ucast (drop_bit 32 v))) (d + 4) (ucast v)"

definition bswap_32 :: "u32 \<Rightarrow> u32" where
  "bswap_32 v = drop_bit 24 (v AND 0xff000000) OR drop_bit 8 (v AND 0x00ff0000)
     OR push_bit 8 (v AND 0x0000ff00) OR push_bit 24 (v AND 0x000000ff)"

text \<open>The host is little-endian (\<open>WORDS_BIGENDIAN\<close> is not defined).\<close>

definition cpu_to_be32 :: "u32 \<Rightarrow> u32" where
  "cpu_to_be32 v = bswap_32 v"

lemma add_neq_small:
  fixes p :: u64
  assumes "a \<noteq> b"
  shows "p + a \<noteq> p + b"
  using assms by simp

lemma byte_lane:
  fixes n :: nat
  assumes "n < 32"
  obtains "n < 8" | "8 \<le> n" "n < 16" | "16 \<le> n" "n < 24" | "24 \<le> n" "n < 32"
  using assms by linarith

lemma bit_split4:
  fixes v :: u32
  shows "(ucast (ucast v :: u8) :: u32) OR push_bit 8 (ucast (ucast (drop_bit 8 v) :: u8))
    OR push_bit 16 (ucast (ucast (drop_bit 16 v) :: u8))
    OR push_bit 24 (ucast (ucast (drop_bit 24 v) :: u8)) = v"
proof (rule bit_word_eqI)
  fix n assume "n < LENGTH(32)"
  then have "n < 32" by simp
  then show "bit ((ucast (ucast v :: u8) :: u32) OR push_bit 8 (ucast (ucast (drop_bit 8 v) :: u8))
      OR push_bit 16 (ucast (ucast (drop_bit 16 v) :: u8))
      OR push_bit 24 (ucast (ucast (drop_bit 24 v) :: u8))) n \<longleftrightarrow> bit v n"
    by (cases rule: byte_lane) (auto simp: bit_simps)
qed

lemma get_put_le16: "get_le16 (put_le16 m p v) p = v"
  by (rule bit_word_eqI) (auto simp: get_le16_def put_le16_def bit_simps)

lemma get_put_le32: "get_le32 (put_le32 m p v) p = v"
  by (simp add: get_le32_def put_le32_def add_neq_small bit_split4)

lemma get_le32_put_le32_above:
  "get_le32 (put_le32 m (p + 4) w) p = get_le32 m p"
  by (simp add: get_le32_def put_le32_def add.assoc)

lemma get_put_le64: "get_le64 (put_le64 m p v) p = v"
  by (rule bit_word_eqI)
     (auto simp: get_le64_def put_le64_def get_put_le32 get_le32_put_le32_above bit_simps)

lemma get_put_be32: "get_be32 (put_be32 m p v) p = v"
  using bit_split4 [of v]
  by (simp add: get_be32_def put_be32_def or.commute or.left_commute)

lemma byte_masks:
  "(0xff000000 :: u32) = push_bit 24 (mask 8)"
  "(0x00ff0000 :: u32) = push_bit 16 (mask 8)"
  "(0x0000ff00 :: u32) = push_bit 8 (mask 8)"
  "(0x000000ff :: u32) = mask 8"
  by (simp_all add: mask_eq_exp_minus_1)

lemma bit_bswap_32:
  assumes "n < 32"
  shows "bit (bswap_32 v) n \<longleftrightarrow> bit v (24 - 8 * (n div 8) + n mod 8)"
  using assms
  by (cases rule: byte_lane)
     (auto simp: bswap_32_def byte_masks bit_simps div_if mod_if intro!: arg_cong [where f = "bit v"])

lemma bswap_32_involutive: "bswap_32 (bswap_32 v) = v"
proof (rule bit_word_eqI)
  fix n assume "n < LENGTH(32)"
  then have n: "n < 32" by simp
  let ?k = "24 - 8 * (n div 8) + n mod 8"
  from n have "n div 8 \<le> 3" by simp
  then have eq: "?k = n mod 8 + 8 * (3 - n div 8)" by simp
  then have "?k < 32" and "?k div 8 = 3 - n div 8" and "?k mod 8 = n mod 8"
    using \<open>n div 8 \<le> 3\<close> by (simp_all only: eq) simp_all
  moreover have "24 - 8 * (3 - n div 8) + n mod 8 = n"
    using \<open>n div 8 \<le> 3\<close> mult_div_mod_eq [of 8 n] by linarith
  ultimately show "bit (bswap_32 (bswap_32 v)) n \<longleftrightarrow> bit v n"
    using n by (simp only: bit_bswap_32)
qed

section \<open>Bounded string copies\<close>

text \<open>
  \<open>pstrcpy(buf + off, buf_size, str)\<close>: the loop with \<open>q\<close> the position in \<open>buf\<close> and \<open>lim\<close> the
  position \<open>buf_size - 1\<close> past \<open>buf + off\<close>. Reaching the end of the list \<open>str\<close> is reading its
  \<open>NUL\<close>.
\<close>

fun pstrcpy_loop :: "u8 list \<Rightarrow> nat \<Rightarrow> nat \<Rightarrow> u8 list \<Rightarrow> u8 list" where
  "pstrcpy_loop buf q lim [] = buf[q := 0]"
| "pstrcpy_loop buf q lim (c # str) =
     (if c = 0 \<or> q \<ge> lim then buf[q := 0]
      else pstrcpy_loop (buf[q := c]) (Suc q) lim str)"

definition pstrcpy :: "u8 list \<Rightarrow> nat \<Rightarrow> int \<Rightarrow> u8 list \<Rightarrow> u8 list" where
  "pstrcpy buf off buf_size str =
     (if buf_size \<le> 0 then buf
      else pstrcpy_loop buf off (off + nat (buf_size - 1)) str)"

definition c_strlen :: "u8 list \<Rightarrow> nat" where
  "c_strlen buf = length (takeWhile (\<lambda>c. c \<noteq> 0) buf)"

definition c_string :: "u8 list \<Rightarrow> u8 list" where
  "c_string buf = takeWhile (\<lambda>c. c \<noteq> 0) buf"

definition pstrcat :: "u8 list \<Rightarrow> int \<Rightarrow> u8 list \<Rightarrow> u8 list" where
  "pstrcat buf buf_size s =
     (let len = int (c_strlen buf)
      in if len < buf_size then pstrcpy buf (nat len) (buf_size - len) s else buf)"

text \<open>\<open>strstart\<close>: the rest of \<open>str\<close> (the value of \<open>*ptr\<close>) when \<open>val\<close> is a prefix.\<close>

fun strstart :: "u8 list \<Rightarrow> u8 list \<Rightarrow> u8 list option" where
  "strstart p [] = Some p"
| "strstart [] (q # qs) = None"
| "strstart (p # ps) (q # qs) = (if p \<noteq> q then None else strstart ps qs)"

lemma strstart_iff: "strstart str val = Some rest \<longleftrightarrow> str = val @ rest"
  by (induction str val rule: strstart.induct) auto

lemma pstrcpy_loop_result:
  assumes "0 \<notin> set str" and "q \<le> lim" and "lim < length buf"
  shows "pstrcpy_loop buf q lim str =
    take q buf @ take (lim - q) str @ [0] @ drop (Suc (q + length (take (lim - q) str))) buf"
  using assms
proof (induction buf q lim str rule: pstrcpy_loop.induct)
  case (1 buf q lim)
  then show ?case by (simp add: upd_conv_take_nth_drop)
next
  case (2 buf q lim c str)
  show ?case
  proof (cases "q \<ge> lim")
    case True
    with "2.prems" show ?thesis by (simp add: upd_conv_take_nth_drop)
  next
    case False
    with "2.prems" have "c \<noteq> 0" and "lim - q = Suc (lim - Suc q)" and "q < length buf"
      by auto
    with False "2.prems" "2.IH" show ?thesis
      by (simp add: take_Suc_conv_app_nth)
  qed
qed

lemma pstrcpy_result:
  assumes "0 \<notin> set str" and "0 < n" and "off + n \<le> length buf"
  shows "pstrcpy buf off (int n) str =
    take off buf @ take (n - 1) str @ [0] @ drop (Suc (off + min (length str) (n - 1))) buf"
  using assms pstrcpy_loop_result [of str off "off + (n - 1)" buf]
  by (simp add: pstrcpy_def nat_diff_distrib min.commute)

lemma c_string_append: "0 \<notin> set s \<Longrightarrow> c_string (s @ 0 # rest) = s"
  by (induction s) (auto simp: c_string_def)

section \<open>The growing buffer\<close>

text \<open>
  \<open>buf\<close> lists the \<open>allocated_size\<close> bytes of the allocation. \<open>realloc\<close> keeps the old bytes and
  leaves the new ones indeterminate: \<open>junk\<close> gives them. \<open>max_int\<close> takes and returns \<open>int\<close>, so
  both sizes pass through a 32-bit signed integer.
\<close>

record dynbuf =
  buf :: "u8 list"
  size_of :: nat
  allocated_size :: nat

definition c_int :: "nat \<Rightarrow> int" where
  "c_int n = sint (word_of_nat n :: u32)"

definition dbuf_init :: dynbuf where
  "dbuf_init = \<lparr>buf = [], size_of = 0, allocated_size = 0\<rparr>"

definition realloc_bytes :: "(nat \<Rightarrow> u8) \<Rightarrow> u8 list \<Rightarrow> nat \<Rightarrow> u8 list" where
  "realloc_bytes junk bs n = take n bs @ map junk [length bs..<n]"

definition write_bytes :: "u8 list \<Rightarrow> nat \<Rightarrow> u8 list \<Rightarrow> u8 list" where
  "write_bytes bs offset data = take offset bs @ data @ drop (offset + length data) bs"

definition dbuf_write :: "(nat \<Rightarrow> u8) \<Rightarrow> dynbuf \<Rightarrow> nat \<Rightarrow> u8 list \<Rightarrow> dynbuf" where
  "dbuf_write junk s offset data =
     (let fin = offset + length data;
          s1 = (if fin > allocated_size s
                then let new_size = unat (word_of_int
                           (max_int (c_int fin) (c_int (allocated_size s * 3 div 2))) :: u64)
                     in s\<lparr>buf := realloc_bytes junk (buf s) new_size, allocated_size := new_size\<rparr>
                else s);
          s2 = s1\<lparr>buf := write_bytes (buf s1) offset data\<rparr>
      in if fin > size_of s2 then s2\<lparr>size_of := fin\<rparr> else s2)"

definition dbuf_putc :: "(nat \<Rightarrow> u8) \<Rightarrow> dynbuf \<Rightarrow> u8 \<Rightarrow> dynbuf" where
  "dbuf_putc junk s c = dbuf_write junk s (size_of s) [c]"

definition dbuf_putstr :: "(nat \<Rightarrow> u8) \<Rightarrow> dynbuf \<Rightarrow> u8 list \<Rightarrow> dynbuf" where
  "dbuf_putstr junk s str = dbuf_write junk s (size_of s) str"

definition dbuf_ok :: "dynbuf \<Rightarrow> bool" where
  "dbuf_ok s \<longleftrightarrow> length (buf s) = allocated_size s \<and> size_of s \<le> allocated_size s"

text \<open>What the buffer holds, as its users read it.\<close>

definition dbuf_content :: "dynbuf \<Rightarrow> u8 list" where
  "dbuf_content s = take (size_of s) (buf s)"

lemma c_int_small: "n < 2 ^ 31 \<Longrightarrow> c_int n = int n"
  by (simp add: c_int_def signed_of_nat signed_take_bit_int_eq_self)

lemma dbuf_grow:
  assumes "allocated_size s * 3 < 2 ^ 32" and "fin < 2 ^ 31"
  shows "unat (word_of_int (max_int (c_int fin) (c_int (allocated_size s * 3 div 2))) :: u64)
    = max fin (allocated_size s * 3 div 2)"
proof -
  let ?n = "max fin (allocated_size s * 3 div 2)"
  have "max_int (c_int fin) (c_int (allocated_size s * 3 div 2)) = int ?n"
    using assms by (simp add: max_int_def c_int_small max_def)
  moreover have "?n < 2 ^ 31" using assms by simp
  ultimately show ?thesis
    by (simp add: unat_of_nat)
qed

lemma length_write_bytes:
  "offset + length data \<le> length bs \<Longrightarrow> length (write_bytes bs offset data) = length bs"
  by (simp add: write_bytes_def)

lemma take_write_bytes:
  assumes "offset \<le> n" and "n \<le> length bs" and "offset + length data \<le> length bs"
  shows "take (max n (offset + length data)) (write_bytes bs offset data) =
    take offset (take n bs) @ data @ drop (offset + length data) (take n bs)"
proof (cases "n \<le> offset + length data")
  case True
  with assms show ?thesis by (cases data) (simp_all add: write_bytes_def max_def min_def)
next
  case False
  with assms show ?thesis by (simp add: write_bytes_def max_def min_def drop_take)
qed

lemma realloc_bytes_grow:
  "length bs \<le> n \<Longrightarrow> realloc_bytes junk bs n = bs @ map junk [length bs..<n]"
  by (simp add: realloc_bytes_def)

text \<open>The buffer after the growth step of \<open>dbuf_write\<close>.\<close>

definition dbuf_grown :: "(nat \<Rightarrow> u8) \<Rightarrow> dynbuf \<Rightarrow> nat \<Rightarrow> u8 list" where
  "dbuf_grown junk s fin =
     (if fin > allocated_size s
      then realloc_bytes junk (buf s) (max fin (allocated_size s * 3 div 2)) else buf s)"

lemma dbuf_grown_ok:
  assumes "dbuf_ok s"
  shows "fin \<le> length (dbuf_grown junk s fin)"
    and "size_of s \<le> length (dbuf_grown junk s fin)"
    and "take (size_of s) (dbuf_grown junk s fin) = dbuf_content s"
  using assms
  by (auto simp: dbuf_grown_def dbuf_ok_def dbuf_content_def realloc_bytes_grow)

lemma dbuf_write_eq:
  assumes "dbuf_ok s" and "allocated_size s * 3 < 2 ^ 32" and "offset + length data < 2 ^ 31"
  shows "buf (dbuf_write junk s offset data) =
      write_bytes (dbuf_grown junk s (offset + length data)) offset data"
    and "size_of (dbuf_write junk s offset data) = max (size_of s) (offset + length data)"
    and "allocated_size (dbuf_write junk s offset data) =
      length (dbuf_grown junk s (offset + length data))"
  using assms dbuf_grow [of s "offset + length data"]
  by (auto simp: dbuf_write_def Let_def dbuf_grown_def dbuf_ok_def realloc_bytes_def)

lemma dbuf_write_spec:
  assumes "dbuf_ok s" and "allocated_size s * 3 < 2 ^ 32" and "offset + length data < 2 ^ 31"
    and "offset \<le> size_of s"
  shows "dbuf_ok (dbuf_write junk s offset data)
    \<and> dbuf_content (dbuf_write junk s offset data) =
        take offset (dbuf_content s) @ data @ drop (offset + length data) (dbuf_content s)"
proof -
  let ?g = "dbuf_grown junk s (offset + length data)"
  note grown = dbuf_grown_ok [OF assms(1), where fin = "offset + length data" and junk = junk]
  have "dbuf_ok (dbuf_write junk s offset data)"
    using grown by (simp add: dbuf_ok_def dbuf_write_eq [OF assms(1-3)] length_write_bytes)
  moreover have "dbuf_content (dbuf_write junk s offset data) =
      take (max (size_of s) (offset + length data)) (write_bytes ?g offset data)"
    by (simp add: dbuf_content_def dbuf_write_eq [OF assms(1-3)])
  ultimately show ?thesis
    using grown take_write_bytes [OF assms(4) grown(2,1)] by simp
qed

end
