(* ===== verification/Host.thy ===== *)
theory Host
  imports Prelude
begin

text \<open>
  The host memory behind the pointers of the emulator (RAM allocated by \<open>mallocz\<close>): a byte
  memory over 64-bit host addresses, with the loads and stores \<open>*(uintN_t *)ptr\<close> of a
  little-endian host. \<open>n\<close> is the width in bytes; a value is kept in a \<open>u64\<close>.
\<close>

type_synonym host_mem = "u64 \<Rightarrow> u8"

primrec host_ld :: "host_mem \<Rightarrow> u64 \<Rightarrow> nat \<Rightarrow> u64" where
  "host_ld m p 0 = 0"
| "host_ld m p (Suc n) = ucast (m p) OR push_bit 8 (host_ld m (p + 1) n)"

primrec host_st :: "host_mem \<Rightarrow> u64 \<Rightarrow> nat \<Rightarrow> u64 \<Rightarrow> host_mem" where
  "host_st m p 0 v = m"
| "host_st m p (Suc n) v = host_st (m(p := ucast v)) (p + 1) n (drop_bit 8 v)"

text \<open>\<open>memset(p, 0, n)\<close>\<close>

definition host_zero :: "host_mem \<Rightarrow> u64 \<Rightarrow> u64 \<Rightarrow> host_mem" where
  "host_zero m p n = (\<lambda>a. if a - p < n then 0 else m a)"

lemma host_st_other:
  assumes "\<And>i. i < n \<Longrightarrow> a \<noteq> p + of_nat i"
  shows "host_st m p n v a = m a"
  using assms
proof (induction n arbitrary: m p v)
  case 0
  then show ?case by simp
next
  case (Suc n)
  from Suc.prems [of 0] have "a \<noteq> p" by simp
  moreover have "a \<noteq> p + 1 + of_nat i" if "i < n" for i
    using Suc.prems [of "Suc i"] that by (simp add: add.assoc)
  ultimately show ?case by (simp add: Suc.IH)
qed

lemma of_nat_u64_neq:
  assumes "i < n" and "n < 2 ^ 64"
  shows "(1 :: u64) + of_nat i \<noteq> 0"
proof -
  have "unat (of_nat (Suc i) :: u64) = Suc i"
    using assms by (simp add: unat_of_nat del: of_nat_Suc)
  then show ?thesis by (metis nat.distinct(1) of_nat_Suc unsigned_0)
qed

lemma host_st_at:
  assumes "i < n" and "n < 2 ^ 64"
  shows "host_st m p n v (p + of_nat i) = ucast (drop_bit (8 * i) v)"
  using assms
proof (induction n arbitrary: m p v i)
  case 0
  then show ?case by simp
next
  case (Suc n)
  show ?case
  proof (cases i)
    case 0
    have "p \<noteq> p + 1 + of_nat j" if "j < n" for j
      using of_nat_u64_neq [OF that] Suc.prems(2)
      by (metis add.assoc add_cancel_left_right Suc_lessD)
    then have "host_st (m(p := ucast v)) (p + 1) n (drop_bit 8 v) p = ucast v"
      by (subst host_st_other) auto
    with 0 show ?thesis by simp
  next
    case (Suc j)
    then have "p + of_nat i = p + 1 + of_nat j" and "drop_bit (8 * i) v = drop_bit (8 * j) (drop_bit 8 v)"
      by (simp_all add: drop_bit_drop_bit add.commute)
    moreover have "host_st (m(p := ucast v)) (p + 1) n (drop_bit 8 v) (p + 1 + of_nat j) =
        ucast (drop_bit (8 * j) (drop_bit 8 v))"
      using Suc Suc.prems by (intro Suc.IH) simp_all
    ultimately show ?thesis by (simp only: host_st.simps)
  qed
qed

lemma bit_host_ld:
  "n \<le> 8 \<Longrightarrow> bit (host_ld m p n) i \<longleftrightarrow> i < 8 * n \<and> bit (m (p + of_nat (i div 8))) (i mod 8)"
proof (induction n arbitrary: p i)
  case 0
  then show ?case by simp
next
  case (Suc n)
  show ?case
  proof (cases "i < 8")
    case True
    then show ?thesis by (simp add: bit_simps)
  next
    case False
    define j where "j = i - 8"
    with False have i: "i = j + 8" by simp
    have "bit (host_ld m p (Suc n)) i \<longleftrightarrow> j + 8 < 64 \<and> bit (host_ld m (p + 1) n) j"
      by (auto simp: i bit_simps dest: bit_imp_le_length)
    also have "\<dots> \<longleftrightarrow> j < 8 * n \<and> bit (m (p + 1 + of_nat (j div 8))) (j mod 8)"
      using Suc by auto
    also have "p + 1 + of_nat (j div 8) = p + of_nat (i div 8)"
    proof -
      have "(j + 8) div 8 = Suc (j div 8)" by simp
      then show ?thesis by (simp only: i of_nat_Suc) simp
    qed
    finally show ?thesis by (simp add: i)
  qed
qed

lemma host_ld_st:
  assumes "n \<le> 8"
  shows "host_ld (host_st m p n v) p n = take_bit (8 * n) v"
proof (rule bit_word_eqI)
  fix i assume i: "i < LENGTH(64)"
  show "bit (host_ld (host_st m p n v) p n) i \<longleftrightarrow> bit (take_bit (8 * n) v) i"
  proof (cases "i < 8 * n")
    case True
    then have "i div 8 < n" by simp
    then have "host_st m p n v (p + of_nat (i div 8)) = ucast (drop_bit (8 * (i div 8)) v)"
      using assms by (simp add: host_st_at)
    then show ?thesis
      using True assms by (simp add: bit_host_ld bit_simps)
  next
    case False
    then show ?thesis using assms by (simp add: bit_host_ld bit_simps)
  qed
qed

lemma host_ld_cong:
  assumes "\<And>i. i < n \<Longrightarrow> m (p + of_nat i) = m' (p + of_nat i)"
  shows "host_ld m p n = host_ld m' p n"
  using assms
proof (induction n arbitrary: p)
  case (Suc n)
  have "m (p + 1 + of_nat i) = m' (p + 1 + of_nat i)" if "i < n" for i
    using Suc.prems [of "Suc i"] that by (simp add: add.assoc)
  with Suc.IH [of "p + 1"] Suc.prems [of 0] show ?case by simp
qed simp

lemma take_bit_host_ld: "n \<le> 8 \<Longrightarrow> take_bit (8 * n) (host_ld m p n) = host_ld m p n"
  by (rule bit_word_eqI) (auto simp: bit_host_ld bit_simps)

text \<open>\<open>memcpy\<close> of a block of bytes into the host memory.\<close>

fun host_put :: "host_mem \<Rightarrow> u64 \<Rightarrow> u8 list \<Rightarrow> host_mem" where
  "host_put m p [] = m"
| "host_put m p (b # bs) = host_put (m(p := b)) (p + 1) bs"

lemma host_put_at:
  "length bs \<le> 2 ^ 64 \<Longrightarrow> host_put m p bs a = (if unat (a - p) < length bs then bs ! unat (a - p) else m a)"
proof (induction bs arbitrary: m p)
  case (Cons b bs)
  show ?case
  proof (cases "a = p")
    case True
    have "p - (p + 1) = -1" by simp
    then have "unat (p - (p + 1)) = 2 ^ 64 - 1" by (simp only: unsigned_minus_1_eq_mask) (simp add: mask_eq_exp_minus_1)
    then have "\<not> unat (p - (p + 1)) < length bs" using Cons.prems by simp
    then show ?thesis using True Cons by simp
  next
    case False
    then have "a - p \<noteq> 0" by simp
    have e: "a - (p + 1) = (a - p) - 1" by simp
    have u: "unat (a - p) = Suc (unat (a - (p + 1)))"
      unfolding e using unat_minus_one [OF \<open>a - p \<noteq> 0\<close>] \<open>a - p \<noteq> 0\<close> by (simp add: unat_gt_0)
    then show ?thesis using False Cons by simp
  qed
qed simp

end
