(* ===== verification/Iomem.thy ===== *)
theory Iomem
  imports Host
begin

text \<open>
  \<open>iomem.h\<close> and \<open>iomem.c\<close>: the table of physical memory ranges (RAM and device I/O), its lookup,
  the registration of ranges, their remapping, the dirty-page bitmaps and the IRQ signals.

  A \<open>PhysMemoryRange *\<close> is an index into the map's table. \<open>phys_mem\<close> is a host address;
  \<open>dirty_bits\<close> is whether the pointer of that name is set (it then is the entry
  \<open>dirty_bits_index\<close> of \<open>dirty_bits_tab\<close>). \<open>opaque\<close> names the device whose \<open>read_func\<close> and
  \<open>write_func\<close> the range calls. An \<open>assert\<close> that fails, and the \<open>exit(1)\<close> on a failed
  allocation, are \<open>None\<close>. The callback \<open>flush_tlb_write_range\<close> of the map and the state it
  works on are arguments of the operations that call it.
\<close>

section \<open>Ranges\<close>

record phys_mem_range =
  pr_addr :: u64
  pr_org_size :: u64
  pr_size :: u64
  pr_is_ram :: bool
  pr_devram_flags :: u32
  pr_phys_mem :: u64
  pr_dirty_bits_size :: nat
  pr_dirty_bits :: bool
  pr_dirty_bits_tab :: "nat \<Rightarrow> u32 list"
  pr_dirty_bits_index :: nat
  pr_opaque :: nat
  pr_devio_flags :: u32

type_synonym phys_mem_map = "phys_mem_range list"

definition PHYS_MEM_RANGE_MAX :: nat where "PHYS_MEM_RANGE_MAX = 32"

definition DEVIO_SIZE8 :: u32 where "DEVIO_SIZE8 = push_bit 0 1"
definition DEVIO_SIZE16 :: u32 where "DEVIO_SIZE16 = push_bit 1 1"
definition DEVIO_SIZE32 :: u32 where "DEVIO_SIZE32 = push_bit 2 1"
definition DEVIO_DISABLED :: u32 where "DEVIO_DISABLED = push_bit 4 1"
definition DEVRAM_FLAG_ROM :: u32 where "DEVRAM_FLAG_ROM = push_bit 0 1"
definition DEVRAM_FLAG_DIRTY_BITS :: u32 where "DEVRAM_FLAG_DIRTY_BITS = push_bit 1 1"
definition DEVRAM_FLAG_DISABLED :: u32 where "DEVRAM_FLAG_DISABLED = push_bit 2 1"
definition DEVRAM_PAGE_SIZE_LOG2 :: nat where "DEVRAM_PAGE_SIZE_LOG2 = 12"
definition DEVRAM_PAGE_SIZE :: u64 where "DEVRAM_PAGE_SIZE = push_bit DEVRAM_PAGE_SIZE_LOG2 1"

lemmas iomem_consts = PHYS_MEM_RANGE_MAX_def DEVIO_SIZE8_def DEVIO_SIZE16_def DEVIO_SIZE32_def
  DEVIO_DISABLED_def DEVRAM_FLAG_ROM_def DEVRAM_FLAG_DIRTY_BITS_def DEVRAM_FLAG_DISABLED_def
  DEVRAM_PAGE_SIZE_LOG2_def DEVRAM_PAGE_SIZE_def

text \<open>A slot of the zeroed map, before it is registered.\<close>

definition zero_range :: phys_mem_range where
  "zero_range = \<lparr>pr_addr = 0, pr_org_size = 0, pr_size = 0, pr_is_ram = False,
     pr_devram_flags = 0, pr_phys_mem = 0, pr_dirty_bits_size = 0, pr_dirty_bits = False,
     pr_dirty_bits_tab = (\<lambda>_. []), pr_dirty_bits_index = 0, pr_opaque = 0, pr_devio_flags = 0\<rparr>"

definition phys_mem_map_init :: phys_mem_map where
  "phys_mem_map_init = []"

definition in_range :: "phys_mem_range \<Rightarrow> u64 \<Rightarrow> bool" where
  "in_range pr paddr \<longleftrightarrow> paddr \<ge> pr_addr pr \<and> paddr < pr_addr pr + pr_size pr"

fun get_range_from :: "phys_mem_map \<Rightarrow> u64 \<Rightarrow> nat \<Rightarrow> nat option" where
  "get_range_from [] paddr i = None"
| "get_range_from (pr # prs) paddr i =
     (if in_range pr paddr then Some i else get_range_from prs paddr (Suc i))"

definition get_phys_mem_range :: "phys_mem_map \<Rightarrow> u64 \<Rightarrow> nat option" where
  "get_phys_mem_range s paddr = get_range_from s paddr 0"

section \<open>Registration\<close>

definition register_ram_entry ::
  "phys_mem_map \<Rightarrow> u64 \<Rightarrow> u64 \<Rightarrow> u32 \<Rightarrow> (phys_mem_map \<times> nat) option" where
  "register_ram_entry s addr sz devram_flags =
     (if \<not> length s < PHYS_MEM_RANGE_MAX then None
      else if \<not> (sz AND (DEVRAM_PAGE_SIZE - 1) = 0 \<and> sz \<noteq> 0) then None
      else Some (s @ [zero_range\<lparr>pr_is_ram := True,
             pr_devram_flags := devram_flags AND NOT DEVRAM_FLAG_DISABLED,
             pr_addr := addr, pr_org_size := sz,
             pr_size := (if c_true (devram_flags AND DEVRAM_FLAG_DISABLED) then 0 else sz),
             pr_phys_mem := 0, pr_dirty_bits := False\<rparr>], length s))"

text \<open>\<open>ptr\<close> is what \<open>malloc\<close> returned for the RAM.\<close>

definition default_register_ram ::
  "phys_mem_map \<Rightarrow> host_mem \<Rightarrow> u64 \<Rightarrow> u64 \<Rightarrow> u64 \<Rightarrow> u32 \<Rightarrow> (phys_mem_map \<times> host_mem \<times> nat) option" where
  "default_register_ram s m ptr addr sz devram_flags =
     (case register_ram_entry s addr sz devram_flags of
        None \<Rightarrow> None
      | Some (s1, i) \<Rightarrow>
          if ptr = 0 then None
          else
            let pr = (s1 ! i)\<lparr>pr_phys_mem := ptr\<rparr>;
                pr' = (if c_true (devram_flags AND DEVRAM_FLAG_DIRTY_BITS) then
                         let nb_pages = unat (drop_bit DEVRAM_PAGE_SIZE_LOG2 sz);
                             words = (nb_pages + 31) div 32
                         in pr\<lparr>pr_dirty_bits_size := words * 4, pr_dirty_bits_index := 0,
                               pr_dirty_bits_tab := (\<lambda>_. replicate words 0),
                               pr_dirty_bits := True\<rparr>
                       else pr)
            in Some (s1[i := pr'], host_zero m ptr sz, i))"

definition cpu_register_device ::
  "phys_mem_map \<Rightarrow> u64 \<Rightarrow> u64 \<Rightarrow> nat \<Rightarrow> u32 \<Rightarrow> (phys_mem_map \<times> nat) option" where
  "cpu_register_device s addr sz opaque devio_flags =
     (if \<not> length s < PHYS_MEM_RANGE_MAX then None
      else if \<not> sz \<le> 0xffffffff then None
      else Some (s @ [zero_range\<lparr>pr_addr := addr, pr_org_size := sz,
             pr_size := (if c_true (devio_flags AND DEVIO_DISABLED) then 0 else sz),
             pr_is_ram := False, pr_opaque := opaque, pr_devio_flags := devio_flags\<rparr>], length s))"

section \<open>Dirty bits\<close>

definition page_index :: "u64 \<Rightarrow> u64" where
  "page_index offset = drop_bit DEVRAM_PAGE_SIZE_LOG2 offset"

definition dirty_bitmap :: "phys_mem_range \<Rightarrow> u32 list" where
  "dirty_bitmap pr = pr_dirty_bits_tab pr (pr_dirty_bits_index pr)"

definition set_bitmap :: "phys_mem_range \<Rightarrow> u32 list \<Rightarrow> phys_mem_range" where
  "set_bitmap pr bs =
     pr\<lparr>pr_dirty_bits_tab := (pr_dirty_bits_tab pr)(pr_dirty_bits_index pr := bs)\<rparr>"

definition phys_mem_set_dirty_bit :: "phys_mem_range \<Rightarrow> u64 \<Rightarrow> phys_mem_range" where
  "phys_mem_set_dirty_bit pr offset =
     (if pr_dirty_bits pr then
        let msk = push_bit (unat (page_index offset AND 0x1f)) 1;
            k = unat (drop_bit 5 (page_index offset))
        in set_bitmap pr ((dirty_bitmap pr)[k := dirty_bitmap pr ! k OR msk])
      else pr)"

definition phys_mem_is_dirty_bit :: "phys_mem_range \<Rightarrow> u64 \<Rightarrow> bool" where
  "phys_mem_is_dirty_bit pr offset =
     (if \<not> pr_dirty_bits pr then True
      else c_true (drop_bit (unat (page_index offset AND 0x1f))
             (dirty_bitmap pr ! unat (drop_bit 5 (page_index offset))) AND 1))"

definition phys_mem_reset_dirty_bit ::
  "(u64 \<Rightarrow> u64 \<Rightarrow> 'o \<Rightarrow> 'o) \<Rightarrow> phys_mem_range \<Rightarrow> u64 \<Rightarrow> 'o \<Rightarrow> phys_mem_range \<times> 'o" where
  "phys_mem_reset_dirty_bit flush pr offset st =
     (if pr_dirty_bits pr then
        let msk = push_bit (unat (page_index offset AND 0x1f)) 1;
            k = unat (drop_bit 5 (page_index offset))
        in if c_true (dirty_bitmap pr ! k AND msk) then
             (set_bitmap pr ((dirty_bitmap pr)[k := dirty_bitmap pr ! k AND NOT msk]),
              flush (pr_phys_mem pr + (offset AND NOT (DEVRAM_PAGE_SIZE - 1))) DEVRAM_PAGE_SIZE st)
           else (pr, st)
      else (pr, st))"

text \<open>\<open>get_dirty_bits\<close> returns the bitmap in use and switches to the other one, zeroed.\<close>

definition default_get_dirty_bits ::
  "(u64 \<Rightarrow> u64 \<Rightarrow> 'o \<Rightarrow> 'o) \<Rightarrow> phys_mem_range \<Rightarrow> 'o \<Rightarrow> u32 list \<times> phys_mem_range \<times> 'o" where
  "default_get_dirty_bits flush pr st =
     (let dirty_bits = dirty_bitmap pr;
          n = pr_dirty_bits_size pr div 4;
          has_dirty_bits = list_ex c_true (take n dirty_bits);
          st1 = (if has_dirty_bits \<and> pr_size pr \<noteq> 0
                 then flush (pr_phys_mem pr) (pr_org_size pr) st else st);
          pr1 = pr\<lparr>pr_dirty_bits_index := (if pr_dirty_bits_index pr = 0 then 1 else 0)\<rparr>
      in (dirty_bits, set_bitmap pr1 (replicate n 0), st1))"

section \<open>Remapping\<close>

definition default_set_addr ::
  "(u64 \<Rightarrow> u64 \<Rightarrow> 'o \<Rightarrow> 'o) \<Rightarrow> phys_mem_range \<Rightarrow> u64 \<Rightarrow> bool \<Rightarrow> 'o \<Rightarrow> phys_mem_range \<times> 'o" where
  "default_set_addr flush pr addr enabled st =
     (if enabled then
        if pr_size pr = 0 \<or> pr_addr pr \<noteq> addr then
          (pr\<lparr>pr_addr := addr, pr_size := pr_org_size pr\<rparr>,
           if pr_is_ram pr then flush (pr_phys_mem pr) (pr_org_size pr) st else st)
        else (pr, st)
      else
        if pr_size pr \<noteq> 0 then
          (pr\<lparr>pr_addr := 0, pr_size := 0\<rparr>,
           if pr_is_ram pr then flush (pr_phys_mem pr) (pr_org_size pr) st else st)
        else (pr, st))"

text \<open>\<open>phys_mem_set_addr\<close> calls the map's \<open>set_ram_addr\<close>, which \<open>phys_mem_map_init\<close> sets to
  \<^const>\<open>default_set_addr\<close>, or that function itself for a device.\<close>

definition phys_mem_set_addr ::
  "(u64 \<Rightarrow> u64 \<Rightarrow> 'o \<Rightarrow> 'o) \<Rightarrow> phys_mem_map \<Rightarrow> nat \<Rightarrow> u64 \<Rightarrow> bool \<Rightarrow> 'o \<Rightarrow> phys_mem_map \<times> 'o" where
  "phys_mem_set_addr flush s i addr enabled st =
     (let (pr, st') = default_set_addr flush (s ! i) addr enabled st in (s[i := pr], st'))"

definition phys_mem_get_ram_ptr :: "phys_mem_map \<Rightarrow> u64 \<Rightarrow> bool \<Rightarrow> u64 \<times> phys_mem_map" where
  "phys_mem_get_ram_ptr s paddr is_rw =
     (case get_phys_mem_range s paddr of
        None \<Rightarrow> (0, s)
      | Some i \<Rightarrow>
          if \<not> pr_is_ram (s ! i) then (0, s)
          else
            let offset = paddr - pr_addr (s ! i);
                s' = (if is_rw then s[i := phys_mem_set_dirty_bit (s ! i) offset] else s)
            in (pr_phys_mem (s' ! i) + offset, s'))"

section \<open>IRQ signals\<close>

record 's irq_signal =
  irq_set :: "int \<Rightarrow> int \<Rightarrow> 's \<Rightarrow> 's"
  irq_num :: int

definition irq_init :: "(int \<Rightarrow> int \<Rightarrow> 's \<Rightarrow> 's) \<Rightarrow> int \<Rightarrow> 's irq_signal" where
  "irq_init f n = \<lparr>irq_set = f, irq_num = n\<rparr>"

definition set_irq :: "'s irq_signal \<Rightarrow> int \<Rightarrow> 's \<Rightarrow> 's" where
  "set_irq irq level s = irq_set irq (irq_num irq) level s"

section \<open>The lookup\<close>

lemma get_range_from_Some:
  "get_range_from s paddr i = Some k \<Longrightarrow>
     i \<le> k \<and> k < i + length s \<and> in_range (s ! (k - i)) paddr
     \<and> (\<forall>j < k - i. \<not> in_range (s ! j) paddr)"
proof (induction s paddr i rule: get_range_from.induct)
  case (1 paddr i)
  then show ?case by simp
next
  case (2 pr prs paddr i)
  show ?case
  proof (cases "in_range pr paddr")
    case True
    with "2.prems" show ?thesis by simp
  next
    case False
    with 2 have ih: "Suc i \<le> k" "k < Suc i + length prs" "in_range (prs ! (k - Suc i)) paddr"
      "\<forall>j < k - Suc i. \<not> in_range (prs ! j) paddr"
      by auto
    then have "k - i = Suc (k - Suc i)" by simp
    with ih False show ?thesis by (auto simp: less_Suc_eq_0_disj)
  qed
qed

lemma get_range_from_None:
  "get_range_from s paddr i = None \<longleftrightarrow> (\<forall>pr \<in> set s. \<not> in_range pr paddr)"
  by (induction s paddr i rule: get_range_from.induct) auto

lemma get_phys_mem_range_Some:
  assumes "get_phys_mem_range s paddr = Some i"
  shows "i < length s" and "in_range (s ! i) paddr" and "\<forall>j < i. \<not> in_range (s ! j) paddr"
  using assms get_range_from_Some [of s paddr 0 i] by (auto simp: get_phys_mem_range_def)

lemma get_phys_mem_range_None:
  "get_phys_mem_range s paddr = None \<longleftrightarrow> (\<forall>pr \<in> set s. \<not> in_range pr paddr)"
  by (simp add: get_phys_mem_range_def get_range_from_None)

lemma get_phys_mem_range_iff:
  "get_phys_mem_range s paddr = Some i \<longleftrightarrow>
     i < length s \<and> in_range (s ! i) paddr \<and> (\<forall>j < i. \<not> in_range (s ! j) paddr)"
proof
  assume r: "i < length s \<and> in_range (s ! i) paddr \<and> (\<forall>j < i. \<not> in_range (s ! j) paddr)"
  then have "get_phys_mem_range s paddr \<noteq> None"
    by (auto simp: get_phys_mem_range_None)
  then obtain k where k: "get_phys_mem_range s paddr = Some k" by blast
  with r have "k = i"
    using get_phys_mem_range_Some [OF k] by (metis linorder_neqE_nat)
  with k show "get_phys_mem_range s paddr = Some i" by simp
qed (use get_phys_mem_range_Some in blast)

lemma get_phys_mem_range_update:
  assumes "i < length s" and "pr_addr pr = pr_addr (s ! i)" and "pr_size pr = pr_size (s ! i)"
  shows "get_phys_mem_range (s[i := pr]) paddr = get_phys_mem_range s paddr"
proof -
  have "in_range (s[i := pr] ! j) paddr = in_range (s ! j) paddr" if "j < length s" for j
    using assms that by (cases "j = i") (auto simp: in_range_def)
  then have same: "in_range (s[i := pr] ! j) paddr = in_range (s ! j) paddr" if "j < length s" for j
    using that by blast
  show ?thesis
  proof (cases "get_phys_mem_range s paddr")
    case None
    then have "get_phys_mem_range (s[i := pr]) paddr = None"
      by (simp add: get_phys_mem_range_None all_set_conv_all_nth same)
    with None show ?thesis by simp
  next
    case (Some k)
    then have "get_phys_mem_range (s[i := pr]) paddr = Some k"
      by (auto simp: get_phys_mem_range_iff same)
    with Some show ?thesis by simp
  qed
qed

lemma disabled_not_in_range: "pr_size pr = 0 \<Longrightarrow> \<not> in_range pr paddr"
  by (auto simp: in_range_def)

section \<open>Dirty bits by page number\<close>

definition page_no :: "u64 \<Rightarrow> nat" where
  "page_no offset = unat offset div 4096"

lemma page_no_conv:
  "unat (drop_bit 5 (page_index offset)) = page_no offset div 32"
  "unat (page_index offset AND 0x1f) = page_no offset mod 32"
proof -
  have m: "(0x1f :: u64) = mask 5" by (simp add: mask_eq_exp_minus_1)
  show "unat (drop_bit 5 (page_index offset)) = page_no offset div 32"
    by (simp add: page_index_def page_no_def iomem_consts unat_drop_bit)
  show "unat (page_index offset AND 0x1f) = page_no offset mod 32"
    by (simp add: m and_mask_take_bit unat_take_bit page_index_def page_no_def iomem_consts
        unat_drop_bit)
qed

lemma dirty_bitmap_set_bitmap [simp]: "dirty_bitmap (set_bitmap pr bs) = bs"
  by (simp add: dirty_bitmap_def set_bitmap_def)

lemma set_bitmap_fields [simp]:
  "pr_addr (set_bitmap pr bs) = pr_addr pr" "pr_size (set_bitmap pr bs) = pr_size pr"
  "pr_org_size (set_bitmap pr bs) = pr_org_size pr" "pr_is_ram (set_bitmap pr bs) = pr_is_ram pr"
  "pr_phys_mem (set_bitmap pr bs) = pr_phys_mem pr"
  "pr_dirty_bits (set_bitmap pr bs) = pr_dirty_bits pr"
  "pr_dirty_bits_size (set_bitmap pr bs) = pr_dirty_bits_size pr"
  "pr_dirty_bits_index (set_bitmap pr bs) = pr_dirty_bits_index pr"
  "pr_opaque (set_bitmap pr bs) = pr_opaque pr"
  "pr_devio_flags (set_bitmap pr bs) = pr_devio_flags pr"
  by (simp_all add: set_bitmap_def)

lemma set_dirty_bit_fields [simp]:
  "pr_addr (phys_mem_set_dirty_bit pr off) = pr_addr pr"
  "pr_size (phys_mem_set_dirty_bit pr off) = pr_size pr"
  "pr_org_size (phys_mem_set_dirty_bit pr off) = pr_org_size pr"
  "pr_is_ram (phys_mem_set_dirty_bit pr off) = pr_is_ram pr"
  "pr_phys_mem (phys_mem_set_dirty_bit pr off) = pr_phys_mem pr"
  "pr_dirty_bits (phys_mem_set_dirty_bit pr off) = pr_dirty_bits pr"
  "pr_opaque (phys_mem_set_dirty_bit pr off) = pr_opaque pr"
  "pr_devio_flags (phys_mem_set_dirty_bit pr off) = pr_devio_flags pr"
  by (simp_all add: phys_mem_set_dirty_bit_def Let_def)

text \<open>The bitmap has a bit for every page of the range, in both of its copies.\<close>

definition bitmap_ok :: "phys_mem_range \<Rightarrow> bool" where
  "bitmap_ok pr \<longleftrightarrow> (pr_dirty_bits pr \<longrightarrow>
     (\<forall>off. off < pr_org_size pr \<longrightarrow> page_no off div 32 < pr_dirty_bits_size pr div 4)
     \<and> length (dirty_bitmap pr) = pr_dirty_bits_size pr div 4)"

lemma is_dirty_bit_iff:
  assumes "pr_dirty_bits pr"
  shows "phys_mem_is_dirty_bit pr off \<longleftrightarrow>
    bit (dirty_bitmap pr ! (page_no off div 32)) (page_no off mod 32)"
  using assms
  by (simp add: phys_mem_is_dirty_bit_def page_no_conv and_one_eq bit_iff_odd_drop_bit
      odd_iff_mod_2_eq_one)

lemma bit_single: "bit (2 ^ k :: u32) j \<longleftrightarrow> j = k \<and> k < 32"
  by (auto simp: bit_simps)

lemma same_page_conv:
  "page_no a div 32 = page_no b div 32 \<and> page_no a mod 32 = page_no b mod 32 \<longleftrightarrow> page_no a = page_no b"
  by (metis div_mult_mod_eq)

lemma bit_set_in_bitmap:
  fixes bs :: "u32 list"
  assumes "k < length bs" and "j < 32"
  shows "bit (bs[k := bs ! k OR push_bit j 1] ! k') j' \<longleftrightarrow> bit (bs ! k') j' \<or> k' = k \<and> j' = j"
  using assms by (auto simp: nth_list_update bit_or_iff bit_single)

lemma bit_clear_in_bitmap:
  fixes bs :: "u32 list"
  assumes "k < length bs" and "j < 32"
  shows "bit (bs[k := bs ! k AND NOT (push_bit j 1)] ! k') j' \<longleftrightarrow>
    bit (bs ! k') j' \<and> \<not> (k' = k \<and> j' = j)"
  using assms
  by (cases "k' = k") (auto simp: nth_list_update bit_and_iff bit_not_iff bit_single dest: bit_imp_le_length)

lemma is_dirty_set_dirty_bit:
  assumes "bitmap_ok pr" and "off < pr_org_size pr"
  shows "phys_mem_is_dirty_bit (phys_mem_set_dirty_bit pr off) off' \<longleftrightarrow>
    phys_mem_is_dirty_bit pr off' \<or> page_no off' = page_no off"
proof (cases "pr_dirty_bits pr")
  case True
  with assms have "page_no off div 32 < length (dirty_bitmap pr)"
    by (simp add: bitmap_ok_def)
  with True have "phys_mem_is_dirty_bit (phys_mem_set_dirty_bit pr off) off' \<longleftrightarrow>
      phys_mem_is_dirty_bit pr off' \<or>
      (page_no off' div 32 = page_no off div 32 \<and> page_no off' mod 32 = page_no off mod 32)"
    by (simp add: is_dirty_bit_iff phys_mem_set_dirty_bit_def Let_def page_no_conv bit_set_in_bitmap
        del: push_bit_of_1)
  then show ?thesis by (simp only: same_page_conv)
next
  case False
  then show ?thesis by (simp add: phys_mem_is_dirty_bit_def phys_mem_set_dirty_bit_def)
qed

lemma bitmap_ok_set_dirty_bit: "bitmap_ok pr \<Longrightarrow> bitmap_ok (phys_mem_set_dirty_bit pr off)"
  by (auto simp: bitmap_ok_def phys_mem_set_dirty_bit_def Let_def)

lemma is_dirty_reset_dirty_bit:
  assumes "bitmap_ok pr" and "off < pr_org_size pr" and "pr_dirty_bits pr"
  shows "phys_mem_is_dirty_bit (fst (phys_mem_reset_dirty_bit flush pr off st)) off' \<longleftrightarrow>
    phys_mem_is_dirty_bit pr off' \<and> page_no off' \<noteq> page_no off"
proof -
  let ?k = "page_no off div 32" and ?j = "page_no off mod 32"
  from assms have k: "?k < length (dirty_bitmap pr)"
    by (simp add: bitmap_ok_def)
  have hit: "c_true (dirty_bitmap pr ! ?k AND push_bit ?j 1) \<longleftrightarrow> bit (dirty_bitmap pr ! ?k) ?j"
    by (simp add: and_exp_eq_0_iff_not_bit)
  have "phys_mem_is_dirty_bit (fst (phys_mem_reset_dirty_bit flush pr off st)) off' \<longleftrightarrow>
      phys_mem_is_dirty_bit pr off' \<and>
      \<not> (page_no off' div 32 = ?k \<and> page_no off' mod 32 = ?j)"
  proof (cases "bit (dirty_bitmap pr ! ?k) ?j")
    case True
    with hit assms(3) k show ?thesis
      by (simp add: is_dirty_bit_iff phys_mem_reset_dirty_bit_def Let_def page_no_conv
          bit_clear_in_bitmap del: push_bit_of_1)
  next
    case False
    with hit assms(3) have "fst (phys_mem_reset_dirty_bit flush pr off st) = pr"
      by (simp add: phys_mem_reset_dirty_bit_def Let_def page_no_conv del: push_bit_of_1)
    with False assms(3) show ?thesis by (auto simp: is_dirty_bit_iff)
  qed
  then show ?thesis by (simp only: same_page_conv)
qed

lemma unat_page_start: "unat (off AND NOT (DEVRAM_PAGE_SIZE - 1)) = page_no off * 4096"
proof -
  have m: "DEVRAM_PAGE_SIZE - 1 = (mask 12 :: u64)" by (simp add: iomem_consts mask_eq_exp_minus_1)
  have "off AND NOT (mask 12) = push_bit 12 (drop_bit 12 off)"
    by (rule bit_word_eqI) (auto simp: bit_simps)
  moreover have "unat off < 2 ^ 64" using unsigned_less [of off] by simp
  then have "unat off div 4096 * 4096 < 2 ^ 64" by (rule order_le_less_trans [OF div_times_less_eq_dividend])
  then have "unat (push_bit 12 (drop_bit 12 off)) = page_no off * 4096"
    by (subst unat_push_bit_small) (simp_all add: unat_drop_bit page_no_def)
  ultimately show ?thesis by (simp only: m)
qed

section \<open>Dirty tracking and the cached write translations\<close>

text \<open>
  A cached write translation lets a store bypass the dirty bits. The contract of the callback
  \<open>flush_tlb_write_range\<close>, against which the dirty-bit operations are correct: after it, no
  cached translation starts in the flushed host range, and no other is lost. \<open>mapped st\<close> is the
  set of host page addresses that have a cached write translation.
\<close>

text \<open>Every page of the range that stores may reach through a cached translation is dirty; \<open>hs\<close> is
  the set of host page addresses with a cached translation.\<close>

definition tracked :: "u64 set \<Rightarrow> phys_mem_range \<Rightarrow> bool" where
  "tracked hs pr \<longleftrightarrow> (\<forall>h \<in> hs. pr_phys_mem pr \<le> h \<and> h < pr_phys_mem pr + pr_org_size pr
     \<longrightarrow> pr_size pr \<noteq> 0 \<and> phys_mem_is_dirty_bit pr (h - pr_phys_mem pr))"

locale write_tlb_flusher =
  fixes flush :: "u64 \<Rightarrow> u64 \<Rightarrow> 'o \<Rightarrow> 'o"
    and mapped :: "'o \<Rightarrow> u64 set"
  assumes mapped_flush: "mapped (flush p n st) = mapped st - {h. p \<le> h \<and> h < p + n}"
begin

lemma tracked_get_dirty_bits:
  assumes "tracked (mapped st) pr" and "pr_dirty_bits pr" and "bitmap_ok pr"
  shows "tracked (mapped (snd (snd (default_get_dirty_bits flush pr st))))
    (fst (snd (default_get_dirty_bits flush pr st)))"
proof (cases "list_ex c_true (take (pr_dirty_bits_size pr div 4) (dirty_bitmap pr)) \<and> pr_size pr \<noteq> 0")
  case True
  then show ?thesis
    by (auto simp: tracked_def default_get_dirty_bits_def Let_def mapped_flush)
next
  case False
  have "\<not> (pr_phys_mem pr \<le> h \<and> h < pr_phys_mem pr + pr_org_size pr)" if h: "h \<in> mapped st" for h
  proof
    assume r: "pr_phys_mem pr \<le> h \<and> h < pr_phys_mem pr + pr_org_size pr"
    let ?off = "h - pr_phys_mem pr"
    from r have off: "?off < pr_org_size pr"
      by unat_arith
    from assms h r have "pr_size pr \<noteq> 0" and d: "phys_mem_is_dirty_bit pr ?off"
      by (auto simp: tracked_def)
    with False have clean: "\<forall>w \<in> set (take (pr_dirty_bits_size pr div 4) (dirty_bitmap pr)). w = 0"
      by (simp add: list_ex_iff)
    from assms off have k: "page_no ?off div 32 < pr_dirty_bits_size pr div 4"
      and l: "length (dirty_bitmap pr) = pr_dirty_bits_size pr div 4"
      by (auto simp: bitmap_ok_def)
    then have "dirty_bitmap pr ! (page_no ?off div 32) \<in> set (take (pr_dirty_bits_size pr div 4) (dirty_bitmap pr))"
      by simp
    with clean have "dirty_bitmap pr ! (page_no ?off div 32) = 0" by blast
    with d assms(2) show False by (simp add: is_dirty_bit_iff)
  qed
  with False show ?thesis
    by (auto simp: tracked_def default_get_dirty_bits_def Let_def)
qed

text \<open>Clearing the bit of one page.\<close>

lemma tracked_reset_dirty_bit:
  assumes "tracked (mapped st) pr" "bitmap_ok pr" "off < pr_org_size pr" "pr_dirty_bits pr"
    and "unat (pr_phys_mem pr) + unat (pr_org_size pr) < 2 ^ 64" "4096 dvd unat (pr_org_size pr)"
  shows "tracked (mapped (snd (phys_mem_reset_dirty_bit flush pr off st))) (fst (phys_mem_reset_dirty_bit flush pr off st))"
proof -
  let ?r = "phys_mem_reset_dirty_bit flush pr off st"
  have f: "pr_phys_mem (fst ?r) = pr_phys_mem pr" "pr_org_size (fst ?r) = pr_org_size pr" "pr_size (fst ?r) = pr_size pr"
    by (simp_all add: phys_mem_reset_dirty_bit_def Let_def)
  have "pr_size pr \<noteq> 0 \<and> phys_mem_is_dirty_bit (fst ?r) (h - pr_phys_mem pr)"
    if h: "h \<in> mapped (snd ?r)" and r: "pr_phys_mem pr \<le> h" "h < pr_phys_mem pr + pr_org_size pr" for h
  proof -
    have sub: "mapped (snd ?r) \<subseteq> mapped st" by (auto simp: phys_mem_reset_dirty_bit_def Let_def mapped_flush)
    with assms(1) h r have d: "pr_size pr \<noteq> 0" "phys_mem_is_dirty_bit pr (h - pr_phys_mem pr)" by (auto simp: tracked_def)
    have "page_no (h - pr_phys_mem pr) \<noteq> page_no off"
    proof
      assume same: "page_no (h - pr_phys_mem pr) = page_no off"
      then have "phys_mem_is_dirty_bit pr off" using d(2) assms(4) by (simp add: is_dirty_bit_iff)
      then have m: "mapped (snd ?r) = mapped st - {h. pr_phys_mem pr + (off AND NOT (DEVRAM_PAGE_SIZE - 1)) \<le> h
          \<and> h < pr_phys_mem pr + (off AND NOT (DEVRAM_PAGE_SIZE - 1)) + DEVRAM_PAGE_SIZE}"
        using assms(4) by (simp add: phys_mem_reset_dirty_bit_def Let_def mapped_flush page_no_conv is_dirty_bit_iff
            and_exp_eq_0_iff_not_bit)
      define q where "q = off AND NOT (DEVRAM_PAGE_SIZE - 1)"
      have q: "unat q = page_no off * 4096" unfolding q_def by (rule unat_page_start)
      have "unat (h - pr_phys_mem pr) = unat h - unat (pr_phys_mem pr)"
        using r(1) by (intro unat_diff_small) (simp add: word_le_nat_alt)
      then have x: "page_no off * 4096 \<le> unat h - unat (pr_phys_mem pr)" "unat h - unat (pr_phys_mem pr) < page_no off * 4096 + 4096"
        using same unfolding page_no_def by linarith+
      have o: "page_no off * 4096 + 4096 \<le> unat (pr_org_size pr)"
      proof -
        have "unat off < unat (pr_org_size pr)" using assms(3) by (simp add: word_less_nat_alt)
        moreover obtain k where k: "unat (pr_org_size pr) = 4096 * k" using assms(6) by (elim dvdE)
        ultimately have "unat off div 4096 < k" by (simp add: div_less_iff_less_mult)
        then show ?thesis unfolding page_no_def k by linarith
      qed
      have n1: "unat (pr_phys_mem pr + q) = unat (pr_phys_mem pr) + page_no off * 4096"
        using assms(5) o q by (subst unat_add_small) simp_all
      have n2: "unat (pr_phys_mem pr + q + DEVRAM_PAGE_SIZE) = unat (pr_phys_mem pr) + page_no off * 4096 + 4096"
        using assms(5) o n1 by (subst unat_add_small) (simp_all add: iomem_consts)
      have "pr_phys_mem pr + q \<le> h" "h < pr_phys_mem pr + q + DEVRAM_PAGE_SIZE"
        using x r(1) by (simp_all add: word_le_nat_alt word_less_nat_alt n1 n2)
      then show False using h m by (simp add: q_def)
    qed
    then show ?thesis using d is_dirty_reset_dirty_bit [OF assms(2,3,4), of flush st] by simp
  qed
  then show ?thesis by (simp add: tracked_def f)
qed

lemma tracked_set_addr_disable:
  assumes "tracked (mapped st) pr" and "pr_is_ram pr"
  shows "tracked (mapped (snd (default_set_addr flush pr addr False st)))
    (fst (default_set_addr flush pr addr False st))"
  using assms by (auto simp: tracked_def default_set_addr_def mapped_flush)

end

end
