(* ===== verification/CpuState.thy ===== *)
theory CpuState
  imports Iomem Cutils
begin

text \<open>
  \<open>riscv_cpu_priv.h\<close> and \<open>riscv_cpu.h\<close>: the state of the RISC-V CPU and its constants, in the
  64-bit build of the sources (\<open>riscv_cpu64.o\<close>: \<open>MAX_XLEN\<close>, \<open>FLEN\<close> and \<open>MLEN\<close> are 64, so that
  \<open>target_ulong\<close>, \<open>fp_uint\<close> and \<open>mem_uint_t\<close> are \<open>u64\<close>; \<open>CONFIG_EXT_C\<close> is defined,
  \<open>EMSCRIPTEN\<close> is not). The template \<open>riscv_cpu_template.h\<close> is instantiated in it for \<open>XLEN\<close> 32
  and 64: \<open>xlen\<close> is an argument of the definitions that translate it.

  The arrays \<open>reg\<close>, \<open>fp_reg\<close> (32 entries) and the TLBs (\<open>TLB_SIZE\<close> entries) are functions of the
  index; every index of the sources is masked to the size of its array. \<open>dev\<close> is the state of
  the devices behind the I/O ranges of the memory map and \<open>ram\<close> the host memory that the RAM
  ranges point to. The callbacks \<open>read_func\<close>, \<open>write_func\<close> of the ranges are the fields of
  \<open>bus\<close>, selected by the range's \<open>opaque\<close>; they may change the whole machine. \<open>junk\<close> is the
  indeterminate value of a local variable that is read without having been assigned.
\<close>

section \<open>State\<close>

record tlb_entry =
  vaddr :: u64
  mem_addend :: u64

record 'd cpu =
  pc :: u64
  reg :: "nat \<Rightarrow> u64"
  fp_reg :: "nat \<Rightarrow> u64"
  fflags :: u32
  frm :: nat
  cur_xlen :: nat
  priv :: nat
  fs :: nat
  mxl :: nat
  insn_counter :: u64
  power_down_flag :: bool
  pending_exception :: int
  pending_tval :: u64
  mstatus :: u64
  mtvec :: u64
  mscratch :: u64
  mepc :: u64
  mcause :: u64
  mtval :: u64
  mhartid :: u64
  misa :: u32
  mie :: u32
  mip :: u32
  medeleg :: u32
  mideleg :: u32
  mcounteren :: u32
  stvec :: u64
  sscratch :: u64
  sepc :: u64
  scause :: u64
  stval :: u64
  satp :: u64
  scounteren :: u32
  load_res :: u64
  mem_map :: phys_mem_map
  tlb_read :: "nat \<Rightarrow> tlb_entry"
  tlb_write :: "nat \<Rightarrow> tlb_entry"
  tlb_code :: "nat \<Rightarrow> tlb_entry"
  ram :: host_mem
  dev :: 'd

record 'd bus =
  dev_read :: "nat \<Rightarrow> u32 \<Rightarrow> nat \<Rightarrow> 'd cpu \<Rightarrow> u32 \<times> 'd cpu"
  dev_write :: "nat \<Rightarrow> u32 \<Rightarrow> u32 \<Rightarrow> nat \<Rightarrow> 'd cpu \<Rightarrow> 'd cpu"
  junk :: u64

text \<open>A bus without devices.\<close>

definition silent_bus :: "unit bus" where
  "silent_bus = \<lparr>dev_read = (\<lambda>_ _ _ s. (0, s)), dev_write = (\<lambda>_ _ _ _ s. s), junk = 0\<rparr>"

section \<open>Constants\<close>

definition MAX_XLEN :: nat where "MAX_XLEN = 64"
definition TLB_SIZE :: nat where "TLB_SIZE = 256"
definition PG_SHIFT :: nat where "PG_SHIFT = 12"
definition PG_MASK :: u64 where "PG_MASK = push_bit PG_SHIFT 1 - 1"

definition CAUSE_FAULT_FETCH :: int where "CAUSE_FAULT_FETCH = 1"
definition CAUSE_ILLEGAL_INSTRUCTION :: int where "CAUSE_ILLEGAL_INSTRUCTION = 2"
definition CAUSE_BREAKPOINT :: int where "CAUSE_BREAKPOINT = 3"
definition CAUSE_USER_ECALL :: int where "CAUSE_USER_ECALL = 8"
definition CAUSE_FETCH_PAGE_FAULT :: int where "CAUSE_FETCH_PAGE_FAULT = 12"
definition CAUSE_LOAD_PAGE_FAULT :: int where "CAUSE_LOAD_PAGE_FAULT = 13"
definition CAUSE_STORE_PAGE_FAULT :: int where "CAUSE_STORE_PAGE_FAULT = 15"
definition CAUSE_INTERRUPT :: u32 where "CAUSE_INTERRUPT = push_bit 31 1"

definition PRV_U :: nat where "PRV_U = 0"
definition PRV_S :: nat where "PRV_S = 1"
definition PRV_H :: nat where "PRV_H = 2"
definition PRV_M :: nat where "PRV_M = 3"

lemmas cpu_consts [simp] = MAX_XLEN_def TLB_SIZE_def PG_SHIFT_def PG_MASK_def
  CAUSE_FAULT_FETCH_def CAUSE_ILLEGAL_INSTRUCTION_def CAUSE_BREAKPOINT_def CAUSE_USER_ECALL_def
  CAUSE_FETCH_PAGE_FAULT_def CAUSE_LOAD_PAGE_FAULT_def CAUSE_STORE_PAGE_FAULT_def
  CAUSE_INTERRUPT_def PRV_U_def PRV_S_def PRV_H_def PRV_M_def

definition MCPUID_SUPER :: u32 where "MCPUID_SUPER = push_bit 18 1"
definition MCPUID_USER :: u32 where "MCPUID_USER = push_bit 20 1"
definition MCPUID_I :: u32 where "MCPUID_I = push_bit 8 1"
definition MCPUID_M :: u32 where "MCPUID_M = push_bit 12 1"
definition MCPUID_A :: u32 where "MCPUID_A = push_bit 0 1"
definition MCPUID_F :: u32 where "MCPUID_F = push_bit 5 1"
definition MCPUID_D :: u32 where "MCPUID_D = push_bit 3 1"
definition MCPUID_C :: u32 where "MCPUID_C = push_bit 2 1"

definition MSTATUS_SPIE_SHIFT :: nat where "MSTATUS_SPIE_SHIFT = 5"
definition MSTATUS_MPIE_SHIFT :: nat where "MSTATUS_MPIE_SHIFT = 7"
definition MSTATUS_SPP_SHIFT :: nat where "MSTATUS_SPP_SHIFT = 8"
definition MSTATUS_MPP_SHIFT :: nat where "MSTATUS_MPP_SHIFT = 11"
definition MSTATUS_FS_SHIFT :: nat where "MSTATUS_FS_SHIFT = 13"
definition MSTATUS_UXL_SHIFT :: nat where "MSTATUS_UXL_SHIFT = 32"
definition MSTATUS_SXL_SHIFT :: nat where "MSTATUS_SXL_SHIFT = 34"

definition MSTATUS_UIE :: u64 where "MSTATUS_UIE = push_bit 0 1"
definition MSTATUS_SIE :: u64 where "MSTATUS_SIE = push_bit 1 1"
definition MSTATUS_MIE :: u64 where "MSTATUS_MIE = push_bit 3 1"
definition MSTATUS_UPIE :: u64 where "MSTATUS_UPIE = push_bit 4 1"
definition MSTATUS_SPIE :: u64 where "MSTATUS_SPIE = push_bit MSTATUS_SPIE_SHIFT 1"
definition MSTATUS_MPIE :: u64 where "MSTATUS_MPIE = push_bit MSTATUS_MPIE_SHIFT 1"
definition MSTATUS_SPP :: u64 where "MSTATUS_SPP = push_bit MSTATUS_SPP_SHIFT 1"
definition MSTATUS_MPP :: u64 where "MSTATUS_MPP = push_bit MSTATUS_MPP_SHIFT 3"
definition MSTATUS_FS :: u64 where "MSTATUS_FS = push_bit MSTATUS_FS_SHIFT 3"
definition MSTATUS_XS :: u64 where "MSTATUS_XS = push_bit 15 3"
definition MSTATUS_MPRV :: u64 where "MSTATUS_MPRV = push_bit 17 1"
definition MSTATUS_SUM :: u64 where "MSTATUS_SUM = push_bit 18 1"
definition MSTATUS_MXR :: u64 where "MSTATUS_MXR = push_bit 19 1"
definition MSTATUS_UXL_MASK :: u64 where "MSTATUS_UXL_MASK = push_bit MSTATUS_UXL_SHIFT 3"
definition MSTATUS_SXL_MASK :: u64 where "MSTATUS_SXL_MASK = push_bit MSTATUS_SXL_SHIFT 3"

lemmas mstatus_shifts = MSTATUS_SPIE_SHIFT_def MSTATUS_MPIE_SHIFT_def MSTATUS_SPP_SHIFT_def
  MSTATUS_MPP_SHIFT_def MSTATUS_FS_SHIFT_def MSTATUS_UXL_SHIFT_def MSTATUS_SXL_SHIFT_def

lemmas mstatus_consts = mstatus_shifts MSTATUS_UIE_def MSTATUS_SIE_def MSTATUS_MIE_def
  MSTATUS_UPIE_def MSTATUS_SPIE_def MSTATUS_MPIE_def MSTATUS_SPP_def MSTATUS_MPP_def
  MSTATUS_FS_def MSTATUS_XS_def MSTATUS_MPRV_def MSTATUS_SUM_def MSTATUS_MXR_def
  MSTATUS_UXL_MASK_def MSTATUS_SXL_MASK_def

definition MIP_USIP :: u32 where "MIP_USIP = push_bit 0 1"
definition MIP_SSIP :: u32 where "MIP_SSIP = push_bit 1 1"
definition MIP_MSIP :: u32 where "MIP_MSIP = push_bit 3 1"
definition MIP_STIP :: u32 where "MIP_STIP = push_bit 5 1"
definition MIP_MTIP :: u32 where "MIP_MTIP = push_bit 7 1"
definition MIP_SEIP :: u32 where "MIP_SEIP = push_bit 9 1"
definition MIP_MEIP :: u32 where "MIP_MEIP = push_bit 11 1"

lemmas mip_consts = MIP_USIP_def MIP_SSIP_def MIP_MSIP_def MIP_STIP_def MIP_MTIP_def
  MIP_SEIP_def MIP_MEIP_def

section \<open>Casts of the template\<close>

text \<open>\<open>(intx_t)v\<close> and \<open>(uintx_t)v\<close>, widened to \<open>target_ulong\<close>.\<close>

definition intx :: "nat \<Rightarrow> u64 \<Rightarrow> u64" where
  "intx xlen v = signed_take_bit (xlen - 1) v"

definition uintx :: "nat \<Rightarrow> u64 \<Rightarrow> u64" where
  "uintx xlen v = take_bit xlen v"

text \<open>\<open>(int32_t)v\<close> and an \<open>int32_t\<close> used as a \<open>target_ulong\<close>.\<close>

definition int32 :: "u64 \<Rightarrow> u64" where
  "int32 v = signed_take_bit 31 v"

definition sx32 :: "u32 \<Rightarrow> u64" where
  "sx32 v = scast v"

lemma intx_64 [simp]: "intx 64 v = v"
proof -
  have "signed_take_bit (LENGTH(64) - 1) v = v"
    by (rule bit_word_eqI) (auto simp: bit_signed_take_bit_iff min.absorb2)
  then show ?thesis by (simp add: intx_def)
qed

lemma intx_32: "intx 32 v = int32 v"
  by (simp add: intx_def int32_def)

lemma uintx_64 [simp]: "uintx 64 v = v"
  using take_bit_length_eq [of v] by (simp add: uintx_def)

lemma int32_idem [simp]: "int32 (int32 v) = int32 v"
  by (simp add: int32_def)

lemma int32_sx32 [simp]: "int32 (sx32 v) = sx32 v"
  by (rule bit_word_eqI) (auto simp: int32_def sx32_def bit_signed_take_bit_iff bit_simps min_def)

lemma int32_eq_sx32: "int32 v = sx32 (ucast v)"
  by (rule bit_word_eqI) (auto simp: int32_def sx32_def bit_signed_take_bit_iff bit_simps min_def)

lemma intx_idem [simp]: "intx xlen (intx xlen v) = intx xlen v"
  by (simp add: intx_def)

end
