(* ===== verification/Mmu.thy ===== *)
theory Mmu
  imports CpuState
begin

text \<open>
  The memory system of \<open>riscv_cpu.c\<close>: physical accesses, the page-table walk, the slow paths of
  loads, stores and instruction fetches with their TLB fills, the TLB fast paths (macro
  \<open>TARGET_READ_WRITE\<close> of \<open>riscv_cpu_priv.h\<close>), and the TLB flushes.

  A load returns \<open>Some\<close> of the value or \<open>None\<close> for the error return, a store returns a truth
  value; both return the state. \<open>k\<close> is \<open>size_log2\<close>, so \<open>2 ^ k\<close> is the width in bytes.
\<close>

section \<open>Physical accesses\<close>

text \<open>\<open>phys_write_u8/32/64\<close> and \<open>phys_read_u8/32/64\<close>; \<open>n\<close> is the width in bytes.\<close>

definition phys_write_u :: "nat \<Rightarrow> 'd cpu \<Rightarrow> u64 \<Rightarrow> u64 \<Rightarrow> 'd cpu" where
  "phys_write_u n s addr val =
     (case get_phys_mem_range (mem_map s) addr of
        None \<Rightarrow> s
      | Some i \<Rightarrow>
          let pr = mem_map s ! i in
          if \<not> pr_is_ram pr then s
          else s\<lparr>ram := host_st (ram s) (pr_phys_mem pr + (addr - pr_addr pr)) n val\<rparr>)"

definition phys_read_u :: "nat \<Rightarrow> 'd cpu \<Rightarrow> u64 \<Rightarrow> u64" where
  "phys_read_u n s addr =
     (case get_phys_mem_range (mem_map s) addr of
        None \<Rightarrow> 0
      | Some i \<Rightarrow>
          let pr = mem_map s ! i in
          if \<not> pr_is_ram pr then 0
          else host_ld (ram s) (pr_phys_mem pr + (addr - pr_addr pr)) n)"

section \<open>Address translation\<close>

definition PTE_V_MASK :: u64 where "PTE_V_MASK = push_bit 0 1"
definition PTE_U_MASK :: u64 where "PTE_U_MASK = push_bit 4 1"
definition PTE_A_MASK :: u64 where "PTE_A_MASK = push_bit 6 1"
definition PTE_D_MASK :: u64 where "PTE_D_MASK = push_bit 7 1"
definition ACCESS_READ :: nat where "ACCESS_READ = 0"
definition ACCESS_WRITE :: nat where "ACCESS_WRITE = 1"
definition ACCESS_CODE :: nat where "ACCESS_CODE = 2"

lemmas pte_consts = PTE_V_MASK_def PTE_U_MASK_def PTE_A_MASK_def PTE_D_MASK_def
lemmas access_consts [simp] = ACCESS_READ_def ACCESS_WRITE_def ACCESS_CODE_def

text \<open>The checks on a leaf entry, in the order of the source: \<open>True\<close> when none of them fails.\<close>

definition pte_permitted :: "'d cpu \<Rightarrow> nat \<Rightarrow> nat \<Rightarrow> u64 \<Rightarrow> bool" where
  "pte_permitted s prv access pte =
     (let xwr = drop_bit 1 pte AND 7 in
      if xwr = 2 \<or> xwr = 6 then False
      else if prv = PRV_S \<and> c_true (pte AND PTE_U_MASK) \<and> \<not> c_true (mstatus s AND MSTATUS_SUM)
      then False
      else if prv \<noteq> PRV_S \<and> \<not> c_true (pte AND PTE_U_MASK) then False
      else
        let xwr' = (if c_true (mstatus s AND MSTATUS_MXR) then xwr OR drop_bit 2 xwr else xwr)
        in drop_bit access xwr' AND 1 \<noteq> 0)"

definition pte_set_ad :: "nat \<Rightarrow> u64 \<Rightarrow> u64" where
  "pte_set_ad access pte =
     (let pte' = pte OR PTE_A_MASK
      in if access = ACCESS_WRITE then pte' OR PTE_D_MASK else pte')"

definition pte_need_write :: "nat \<Rightarrow> u64 \<Rightarrow> bool" where
  "pte_need_write access pte =
     (\<not> c_true (pte AND PTE_A_MASK) \<or> (\<not> c_true (pte AND PTE_D_MASK) \<and> access = ACCESS_WRITE))"

text \<open>
  The loop over the levels; the last argument is the number of levels left, \<open>levels - i\<close>, so
  that \<open>vaddr_shift\<close> is \<open>PG_SHIFT + pte_bits * (levels - 1 - i)\<close> with \<open>pte_bits = 9\<close> and
  \<open>pte_size_log2 = 3\<close>.
\<close>

fun pte_walk :: "'d cpu \<Rightarrow> u64 \<Rightarrow> nat \<Rightarrow> nat \<Rightarrow> u64 \<Rightarrow> nat \<Rightarrow> u64 option \<times> 'd cpu" where
  "pte_walk s va access prv pte_base 0 = (None, s)"
| "pte_walk s va access prv pte_base (Suc n) =
     (let vaddr_shift = PG_SHIFT + 9 * n;
          pte_idx = drop_bit vaddr_shift va AND 0x1ff;
          pte_addr = pte_base + push_bit 3 pte_idx;
          pte = phys_read_u 8 s pte_addr
      in if \<not> c_true (pte AND PTE_V_MASK) then (None, s)
         else
           let paddr = push_bit PG_SHIFT (drop_bit 10 pte);
               xwr = drop_bit 1 pte AND 7
           in if xwr \<noteq> 0 then
                if \<not> pte_permitted s prv access pte then (None, s)
                else
                  let s' = (if pte_need_write access pte
                            then phys_write_u 8 s pte_addr (pte_set_ad access pte) else s);
                      vaddr_mask = push_bit vaddr_shift 1 - 1
                  in (Some ((va AND vaddr_mask) OR (paddr AND NOT vaddr_mask)), s')
              else pte_walk s va access prv paddr n)"

definition effective_priv :: "'d cpu \<Rightarrow> nat \<Rightarrow> nat" where
  "effective_priv s access =
     (if c_true (mstatus s AND MSTATUS_MPRV) \<and> access \<noteq> ACCESS_CODE
      then unat (drop_bit MSTATUS_MPP_SHIFT (mstatus s) AND 3)
      else priv s)"

definition satp_mode :: "'d cpu \<Rightarrow> nat" where
  "satp_mode s = unat (drop_bit 60 (satp s) AND 0xf)"

definition get_phys_addr :: "'d cpu \<Rightarrow> u64 \<Rightarrow> nat \<Rightarrow> u64 option \<times> 'd cpu" where
  "get_phys_addr s va access =
     (let prv = effective_priv s access in
      if prv = PRV_M then
        (Some (if cur_xlen s < MAX_XLEN then va AND (push_bit (cur_xlen s) 1 - 1) else va), s)
      else
        let mode = satp_mode s in
        if mode = 0 then (Some va, s)
        else
          let levels = int mode - 8 + 3;
              vaddr_shift = nat (int MAX_XLEN - (int PG_SHIFT + levels * 9))
          in if signed_drop_bit vaddr_shift (push_bit vaddr_shift va) \<noteq> va then (None, s)
             else
               let pte_addr_bits = 44;
                   pte_addr = push_bit PG_SHIFT (satp s AND (push_bit pte_addr_bits 1 - 1))
               in pte_walk s va access prv pte_addr (nat levels))"

section \<open>Loads\<close>

definition tlb_index :: "u64 \<Rightarrow> nat" where
  "tlb_index addr = unat (drop_bit PG_SHIFT addr AND (of_nat TLB_SIZE - 1))"

text \<open>The value a TLB entry's \<open>vaddr\<close> is compared with in the fast path of an access.\<close>

definition tlb_tag :: "nat \<Rightarrow> u64 \<Rightarrow> u64" where
  "tlb_tag k addr = addr AND NOT (PG_MASK AND NOT (2 ^ k - 1))"

definition page_of :: "u64 \<Rightarrow> u64" where
  "page_of addr = addr AND NOT PG_MASK"

text \<open>\<open>target_read_slow\<close>, the branch of an aligned access.\<close>

definition read_slow_aligned :: "'d bus \<Rightarrow> nat \<Rightarrow> 'd cpu \<Rightarrow> u64 \<Rightarrow> u64 option \<times> 'd cpu" where
  "read_slow_aligned E k s addr =
     (case get_phys_addr s addr ACCESS_READ of
        (None, s1) \<Rightarrow>
          (None, s1\<lparr>pending_tval := addr, pending_exception := CAUSE_LOAD_PAGE_FAULT\<rparr>)
      | (Some paddr, s1) \<Rightarrow>
          (case get_phys_mem_range (mem_map s1) paddr of
             None \<Rightarrow> (Some (junk E), s1)
           | Some i \<Rightarrow>
               let pr = mem_map s1 ! i in
               if pr_is_ram pr then
                 let ptr = pr_phys_mem pr + (paddr - pr_addr pr)
                 in (Some (host_ld (ram s1) ptr (2 ^ k)),
                     s1\<lparr>tlb_read := (tlb_read s1)(tlb_index addr :=
                        \<lparr>vaddr = page_of addr, mem_addend = ptr - addr\<rparr>)\<rparr>)
               else
                 let offset = paddr - pr_addr pr in
                 if c_true (drop_bit k (pr_devio_flags pr) AND 1) then
                   let (v, s2) = dev_read E (pr_opaque pr) (ucast offset) k s1
                   in (Some (ucast v), s2)
                 else if c_true (pr_devio_flags pr AND DEVIO_SIZE32) \<and> k = 3 then
                   let (v0, s2) = dev_read E (pr_opaque pr) (ucast offset) 2 s1;
                       (v1, s3) = dev_read E (pr_opaque pr) (ucast (offset + 4)) 2 s2
                   in (Some (ucast v0 OR push_bit 32 (ucast v1)), s3)
                 else (Some 0, s1)))"

text \<open>The fast path in front of a slow path \<open>slow\<close>; the result is converted to \<open>uintN_t\<close>.\<close>

definition tlb_read_fast ::
  "('d cpu \<Rightarrow> u64 \<Rightarrow> u64 option \<times> 'd cpu) \<Rightarrow> nat \<Rightarrow> 'd cpu \<Rightarrow> u64 \<Rightarrow> u64 option \<times> 'd cpu" where
  "tlb_read_fast slow k s addr =
     (if vaddr (tlb_read s (tlb_index addr)) = tlb_tag k addr then
        (Some (host_ld (ram s) (mem_addend (tlb_read s (tlb_index addr)) + addr) (2 ^ k)), s)
      else
        (case slow s addr of
           (None, s') \<Rightarrow> (None, s')
         | (Some val, s') \<Rightarrow> (Some (take_bit (8 * 2 ^ k) val), s')))"

text \<open>\<open>target_read_uN\<close> at an address known to be aligned, as called by the unaligned branch.\<close>

definition target_read_aligned :: "'d bus \<Rightarrow> nat \<Rightarrow> 'd cpu \<Rightarrow> u64 \<Rightarrow> u64 option \<times> 'd cpu" where
  "target_read_aligned E k = tlb_read_fast (read_slow_aligned E k) k"

text \<open>Two loads one after the other, the second only when the first succeeds.\<close>

definition read_pair ::
  "('d cpu \<Rightarrow> u64 \<Rightarrow> u64 option \<times> 'd cpu) \<Rightarrow> 'd cpu \<Rightarrow> u64 \<Rightarrow> u64 \<Rightarrow> (u64 \<times> u64) option \<times> 'd cpu" where
  "read_pair rd s a0 a1 =
     (case rd s a0 of
        (None, s1) \<Rightarrow> (None, s1)
      | (Some v0, s1) \<Rightarrow>
          (case rd s1 a1 of
             (None, s2) \<Rightarrow> (None, s2)
           | (Some v1, s2) \<Rightarrow> (Some (v0, v1), s2)))"

definition read_slow_unaligned :: "'d bus \<Rightarrow> nat \<Rightarrow> 'd cpu \<Rightarrow> u64 \<Rightarrow> u64 option \<times> 'd cpu" where
  "read_slow_unaligned E k s addr =
     (let al = addr AND (2 ^ k - 1) in
      if k = 1 then
        (case read_pair (target_read_aligned E 0) s addr (addr + 1) of
           (None, s') \<Rightarrow> (None, s')
         | (Some (v0, v1), s') \<Rightarrow> (Some (v0 OR push_bit 8 v1), s'))
      else if k = 2 then
        (case read_pair (target_read_aligned E 2) s (addr - al) (addr - al + 4) of
           (None, s') \<Rightarrow> (None, s')
         | (Some (v0, v1), s') \<Rightarrow>
             (Some (drop_bit (unat al * 8) v0 OR take_bit 32 (push_bit (32 - unat al * 8) v1)), s'))
      else if k = 3 then
        (case read_pair (target_read_aligned E 3) s (addr - al) (addr - al + 8) of
           (None, s') \<Rightarrow> (None, s')
         | (Some (v0, v1), s') \<Rightarrow>
             (Some (drop_bit (unat al * 8) v0 OR push_bit (64 - unat al * 8) v1), s'))
      else (None, s))"

definition target_read_slow :: "'d bus \<Rightarrow> nat \<Rightarrow> 'd cpu \<Rightarrow> u64 \<Rightarrow> u64 option \<times> 'd cpu" where
  "target_read_slow E k s addr =
     (if addr AND (2 ^ k - 1) \<noteq> 0 then read_slow_unaligned E k s addr
      else read_slow_aligned E k s addr)"

definition target_read_u :: "'d bus \<Rightarrow> nat \<Rightarrow> 'd cpu \<Rightarrow> u64 \<Rightarrow> u64 option \<times> 'd cpu" where
  "target_read_u E k = tlb_read_fast (target_read_slow E k) k"

section \<open>Stores\<close>

text \<open>\<open>target_write_slow\<close>, the branch of an aligned access.\<close>

definition write_slow_aligned :: "'d bus \<Rightarrow> nat \<Rightarrow> 'd cpu \<Rightarrow> u64 \<Rightarrow> u64 \<Rightarrow> bool \<times> 'd cpu" where
  "write_slow_aligned E k s addr val =
     (case get_phys_addr s addr ACCESS_WRITE of
        (None, s1) \<Rightarrow>
          (False, s1\<lparr>pending_tval := addr, pending_exception := CAUSE_STORE_PAGE_FAULT\<rparr>)
      | (Some paddr, s1) \<Rightarrow>
          (case get_phys_mem_range (mem_map s1) paddr of
             None \<Rightarrow> (True, s1)
           | Some i \<Rightarrow>
               let pr = mem_map s1 ! i in
               if pr_is_ram pr then
                 let ptr = pr_phys_mem pr + (paddr - pr_addr pr)
                 in (True, s1\<lparr>
                     mem_map := (mem_map s1)[i := phys_mem_set_dirty_bit pr (paddr - pr_addr pr)],
                     tlb_write := (tlb_write s1)(tlb_index addr :=
                        \<lparr>vaddr = page_of addr, mem_addend = ptr - addr\<rparr>),
                     ram := host_st (ram s1) ptr (2 ^ k) val\<rparr>)
               else
                 let offset = paddr - pr_addr pr in
                 if c_true (drop_bit k (pr_devio_flags pr) AND 1) then
                   (True, dev_write E (pr_opaque pr) (ucast offset) (ucast val) k s1)
                 else if c_true (pr_devio_flags pr AND DEVIO_SIZE32) \<and> k = 3 then
                   let s2 = dev_write E (pr_opaque pr) (ucast offset) (ucast (val AND 0xffffffff)) 2 s1
                   in (True, dev_write E (pr_opaque pr) (ucast (offset + 4))
                         (ucast (drop_bit 32 val AND 0xffffffff)) 2 s2)
                 else (True, s1)))"

definition tlb_write_fast ::
  "('d cpu \<Rightarrow> u64 \<Rightarrow> u64 \<Rightarrow> bool \<times> 'd cpu) \<Rightarrow> nat \<Rightarrow> 'd cpu \<Rightarrow> u64 \<Rightarrow> u64 \<Rightarrow> bool \<times> 'd cpu" where
  "tlb_write_fast slow k s addr val =
     (if vaddr (tlb_write s (tlb_index addr)) = tlb_tag k addr then
        (True, s\<lparr>ram := host_st (ram s) (mem_addend (tlb_write s (tlb_index addr)) + addr) (2 ^ k) val\<rparr>)
      else slow s addr (take_bit (8 * 2 ^ k) val))"

definition target_write_aligned :: "'d bus \<Rightarrow> nat \<Rightarrow> 'd cpu \<Rightarrow> u64 \<Rightarrow> u64 \<Rightarrow> bool \<times> 'd cpu" where
  "target_write_aligned E k = tlb_write_fast (write_slow_aligned E k) k"

text \<open>The byte loop of an unaligned store, with the number of bytes left.\<close>

fun write_slow_bytes :: "'d bus \<Rightarrow> 'd cpu \<Rightarrow> u64 \<Rightarrow> u64 \<Rightarrow> nat \<Rightarrow> nat \<Rightarrow> bool \<times> 'd cpu" where
  "write_slow_bytes E s addr val i 0 = (True, s)"
| "write_slow_bytes E s addr val i (Suc n) =
     (case target_write_aligned E 0 s (addr + of_nat i) (drop_bit (8 * i) val AND 0xff) of
        (False, s') \<Rightarrow> (False, s')
      | (True, s') \<Rightarrow> write_slow_bytes E s' addr val (Suc i) n)"

definition target_write_slow :: "'d bus \<Rightarrow> nat \<Rightarrow> 'd cpu \<Rightarrow> u64 \<Rightarrow> u64 \<Rightarrow> bool \<times> 'd cpu" where
  "target_write_slow E k s addr val =
     (if addr AND (2 ^ k - 1) \<noteq> 0 then write_slow_bytes E s addr val 0 (2 ^ k)
      else write_slow_aligned E k s addr val)"

definition target_write_u :: "'d bus \<Rightarrow> nat \<Rightarrow> 'd cpu \<Rightarrow> u64 \<Rightarrow> u64 \<Rightarrow> bool \<times> 'd cpu" where
  "target_write_u E k = tlb_write_fast (target_write_slow E k) k"

section \<open>Instruction fetch\<close>

definition get_insn32 :: "'d cpu \<Rightarrow> u64 \<Rightarrow> u32" where
  "get_insn32 s ptr = ucast (host_ld (ram s) ptr 4)"

definition target_read_insn_slow :: "'d cpu \<Rightarrow> u64 \<Rightarrow> u64 option \<times> 'd cpu" where
  "target_read_insn_slow s addr =
     (case get_phys_addr s addr ACCESS_CODE of
        (None, s1) \<Rightarrow>
          (None, s1\<lparr>pending_tval := addr, pending_exception := CAUSE_FETCH_PAGE_FAULT\<rparr>)
      | (Some paddr, s1) \<Rightarrow>
          (case get_phys_mem_range (mem_map s1) paddr of
             None \<Rightarrow> (None, s1\<lparr>pending_tval := addr, pending_exception := CAUSE_FAULT_FETCH\<rparr>)
           | Some i \<Rightarrow>
               let pr = mem_map s1 ! i in
               if \<not> pr_is_ram pr then
                 (None, s1\<lparr>pending_tval := addr, pending_exception := CAUSE_FAULT_FETCH\<rparr>)
               else
                 let ptr = pr_phys_mem pr + (paddr - pr_addr pr)
                 in (Some ptr, s1\<lparr>tlb_code := (tlb_code s1)(tlb_index addr :=
                        \<lparr>vaddr = page_of addr, mem_addend = ptr - addr\<rparr>)\<rparr>)))"

text \<open>The TLB lookup in front of it, shared by \<open>target_read_insn_u16\<close> and the main loop.\<close>

definition code_ptr_of :: "'d cpu \<Rightarrow> u64 \<Rightarrow> u64 option \<times> 'd cpu" where
  "code_ptr_of s addr =
     (if vaddr (tlb_code s (tlb_index addr)) = page_of addr
      then (Some (mem_addend (tlb_code s (tlb_index addr)) + addr), s)
      else target_read_insn_slow s addr)"

definition target_read_insn_u16 :: "'d cpu \<Rightarrow> u64 \<Rightarrow> u16 option \<times> 'd cpu" where
  "target_read_insn_u16 s addr =
     (case code_ptr_of s addr of
        (None, s') \<Rightarrow> (None, s')
      | (Some ptr, s') \<Rightarrow> (Some (ucast (host_ld (ram s') ptr 2)), s'))"

section \<open>Flushes\<close>

definition invalid_entry :: "tlb_entry \<Rightarrow> tlb_entry" where
  "invalid_entry t = t\<lparr>vaddr := -1\<rparr>"

definition tlb_init :: "'d cpu \<Rightarrow> 'd cpu" where
  "tlb_init s = s\<lparr>
     tlb_read := (\<lambda>i. if i < TLB_SIZE then invalid_entry (tlb_read s i) else tlb_read s i),
     tlb_write := (\<lambda>i. if i < TLB_SIZE then invalid_entry (tlb_write s i) else tlb_write s i),
     tlb_code := (\<lambda>i. if i < TLB_SIZE then invalid_entry (tlb_code s i) else tlb_code s i)\<rparr>"

definition tlb_flush_all :: "'d cpu \<Rightarrow> 'd cpu" where
  "tlb_flush_all s = tlb_init s"

definition tlb_flush_vaddr :: "'d cpu \<Rightarrow> u64 \<Rightarrow> 'd cpu" where
  "tlb_flush_vaddr s va = tlb_flush_all s"

definition riscv_cpu_flush_tlb_write_range_ram :: "u64 \<Rightarrow> u64 \<Rightarrow> 'd cpu \<Rightarrow> 'd cpu" where
  "riscv_cpu_flush_tlb_write_range_ram ram_ptr ram_size s =
     (let ram_end = ram_ptr + ram_size in
      s\<lparr>tlb_write := (\<lambda>i.
         let t = tlb_write s i; ptr = mem_addend t + vaddr t in
         if i < TLB_SIZE \<and> vaddr t \<noteq> -1 \<and> ptr \<ge> ram_ptr \<and> ptr < ram_end
         then invalid_entry t else t)\<rparr>)"

end
