(* ===== verification/Csr.thy ===== *)
theory Csr
  imports Mmu
begin

text \<open>
  The control and status registers of \<open>riscv_cpu.c\<close>: \<open>get_mstatus\<close>, \<open>set_mstatus\<close>, \<open>csr_read\<close>,
  \<open>csr_write\<close> and the privilege switch \<open>set_priv\<close>. \<open>csr_read\<close> returns \<open>None\<close> for its error
  return \<open>-1\<close>; \<open>csr_write\<close> returns its integer code.
\<close>

section \<open>mstatus\<close>

definition SSTATUS_MASK0 :: u64 where
  "SSTATUS_MASK0 = MSTATUS_UIE OR MSTATUS_SIE OR MSTATUS_UPIE OR MSTATUS_SPIE OR MSTATUS_SPP
     OR MSTATUS_FS OR MSTATUS_XS OR MSTATUS_SUM OR MSTATUS_MXR"

definition SSTATUS_MASK :: u64 where
  "SSTATUS_MASK = SSTATUS_MASK0 OR MSTATUS_UXL_MASK"

definition MSTATUS_MASK :: u64 where
  "MSTATUS_MASK = MSTATUS_UIE OR MSTATUS_SIE OR MSTATUS_MIE OR MSTATUS_UPIE OR MSTATUS_SPIE
     OR MSTATUS_MPIE OR MSTATUS_SPP OR MSTATUS_MPP OR MSTATUS_FS OR MSTATUS_MPRV OR MSTATUS_SUM
     OR MSTATUS_MXR"

definition COUNTEREN_MASK :: u64 where
  "COUNTEREN_MASK = push_bit 0 1 OR push_bit 2 1"

definition get_mstatus :: "'d cpu \<Rightarrow> u64 \<Rightarrow> u64" where
  "get_mstatus s msk =
     (let val = (mstatus s OR push_bit MSTATUS_FS_SHIFT (of_nat (fs s))) AND msk;
          sd = (val AND MSTATUS_FS = MSTATUS_FS \<or> val AND MSTATUS_XS = MSTATUS_XS)
      in if sd then val OR push_bit (cur_xlen s - 1) 1 else val)"

definition get_base_from_xlen :: "nat \<Rightarrow> nat" where
  "get_base_from_xlen xlen = (if xlen = 32 then 1 else if xlen = 64 then 2 else 3)"

text \<open>The writable bits of \<open>mstatus\<close> for a given new value. \<open>sxl\<close> is read at
  \<open>MSTATUS_UXL_SHIFT\<close>, as the source has it.\<close>

definition mstatus_write_mask :: "u64 \<Rightarrow> u64" where
  "mstatus_write_mask val =
     (let mask0 = MSTATUS_MASK AND NOT MSTATUS_FS;
          uxl = unat (drop_bit MSTATUS_UXL_SHIFT val AND 3);
          mask1 = (if uxl \<ge> 1 \<and> uxl \<le> get_base_from_xlen MAX_XLEN
                   then mask0 OR MSTATUS_UXL_MASK else mask0);
          sxl = unat (drop_bit MSTATUS_UXL_SHIFT val AND 3)
      in if sxl \<ge> 1 \<and> sxl \<le> get_base_from_xlen MAX_XLEN
         then mask1 OR MSTATUS_SXL_MASK else mask1)"

definition set_mstatus :: "'d cpu \<Rightarrow> u64 \<Rightarrow> 'd cpu" where
  "set_mstatus s val =
     (let md = mstatus s XOR val;
          s1 = (if md AND (MSTATUS_MPRV OR MSTATUS_SUM OR MSTATUS_MXR) \<noteq> 0
                   \<or> (c_true (mstatus s AND MSTATUS_MPRV) \<and> md AND MSTATUS_MPP \<noteq> 0)
                then tlb_flush_all s else s);
          s2 = s1\<lparr>fs := unat (drop_bit MSTATUS_FS_SHIFT val AND 3)\<rparr>;
          msk = mstatus_write_mask val
      in s2\<lparr>mstatus := (mstatus s2 AND NOT msk) OR (val AND msk)\<rparr>)"

section \<open>Reading a CSR\<close>

text \<open>The counter-enable test of the user counters.\<close>

definition counter_enabled :: "'d cpu \<Rightarrow> u32 \<Rightarrow> bool" where
  "counter_enabled s csr =
     (if priv s < PRV_M then
        let counteren = (if priv s < PRV_S then scounteren s else mcounteren s)
        in c_true (drop_bit (unat (csr AND 0x1f)) counteren AND 1)
      else True)"

definition csr_read_value :: "'d cpu \<Rightarrow> u32 \<Rightarrow> u64 option" where
  "csr_read_value s csr =
     (if csr = 0x001 then (if fs s = 0 then None else Some (ucast (fflags s)))
      else if csr = 0x002 then (if fs s = 0 then None else Some (of_nat (frm s)))
      else if csr = 0x003 then
        (if fs s = 0 then None else Some (ucast (fflags s) OR push_bit 5 (of_nat (frm s))))
      else if csr = 0xc00 \<or> csr = 0xc02 then
        (if \<not> counter_enabled s csr then None else Some (insn_counter s))
      else if csr = 0xc80 \<or> csr = 0xc82 then
        (if cur_xlen s \<noteq> 32 then None
         else if \<not> counter_enabled s csr then None
         else Some (drop_bit 32 (insn_counter s)))
      else if csr = 0x100 then Some (get_mstatus s SSTATUS_MASK)
      else if csr = 0x104 then Some (ucast (mie s AND mideleg s))
      else if csr = 0x105 then Some (stvec s)
      else if csr = 0x106 then Some (ucast (scounteren s))
      else if csr = 0x140 then Some (sscratch s)
      else if csr = 0x141 then Some (sepc s)
      else if csr = 0x142 then Some (scause s)
      else if csr = 0x143 then Some (stval s)
      else if csr = 0x144 then Some (ucast (mip s AND mideleg s))
      else if csr = 0x180 then Some (satp s)
      else if csr = 0x300 then Some (get_mstatus s (-1))
      else if csr = 0x301 then Some (ucast (misa s) OR push_bit (cur_xlen s - 2) (of_nat (mxl s)))
      else if csr = 0x302 then Some (ucast (medeleg s))
      else if csr = 0x303 then Some (ucast (mideleg s))
      else if csr = 0x304 then Some (ucast (mie s))
      else if csr = 0x305 then Some (mtvec s)
      else if csr = 0x306 then Some (ucast (mcounteren s))
      else if csr = 0x340 then Some (mscratch s)
      else if csr = 0x341 then Some (mepc s)
      else if csr = 0x342 then Some (mcause s)
      else if csr = 0x343 then Some (mtval s)
      else if csr = 0x344 then Some (ucast (mip s))
      else if csr = 0xb00 \<or> csr = 0xb02 then Some (insn_counter s)
      else if csr = 0xb80 \<or> csr = 0xb82 then
        (if cur_xlen s \<noteq> 32 then None else Some (drop_bit 32 (insn_counter s)))
      else if csr = 0xf14 then Some (mhartid s)
      else None)"

definition csr_read :: "'d cpu \<Rightarrow> u32 \<Rightarrow> bool \<Rightarrow> u64 option" where
  "csr_read s csr will_write =
     (if csr AND 0xc00 = 0xc00 \<and> will_write then None
      else if priv s < unat (drop_bit 8 csr AND 3) then None
      else csr_read_value s csr)"

section \<open>Writing a CSR\<close>

definition set_frm :: "'d cpu \<Rightarrow> nat \<Rightarrow> 'd cpu" where
  "set_frm s val = s\<lparr>frm := (if val \<ge> 5 then 0 else val)\<rparr>"

text \<open>\<open>-1\<close> (invalid rounding mode) is \<open>None\<close>.\<close>

definition get_insn_rm :: "'d cpu \<Rightarrow> nat \<Rightarrow> nat option" where
  "get_insn_rm s rm = (if rm = 7 then Some (frm s) else if rm \<ge> 5 then None else Some rm)"

text \<open>The masked update of a register: \<open>(old & ~mask) | (val & mask)\<close>.\<close>

definition masked_write :: "u64 \<Rightarrow> u64 \<Rightarrow> u64 \<Rightarrow> u64" where
  "masked_write old msk val = (old AND NOT msk) OR (val AND msk)"

definition write_satp :: "'d cpu \<Rightarrow> u64 \<Rightarrow> 'd cpu" where
  "write_satp s val =
     (let md = unat (drop_bit 60 (satp s));
          new_mode = unat (drop_bit 60 val AND 0xf);
          md' = (if new_mode = 0 \<or> (new_mode \<ge> 8 \<and> new_mode \<le> 9) then new_mode else md)
      in tlb_flush_all (s\<lparr>satp := (val AND (push_bit 44 1 - 1)) OR push_bit 60 (of_nat md')\<rparr>))"

definition write_misa :: "'d cpu \<Rightarrow> u64 \<Rightarrow> int \<times> 'd cpu" where
  "write_misa s val =
     (let new_mxl = unat (drop_bit (cur_xlen s - 2) val AND 3) in
      if new_mxl \<ge> 1 \<and> new_mxl \<le> get_base_from_xlen MAX_XLEN \<and> mxl s \<noteq> new_mxl
      then (1, s\<lparr>mxl := new_mxl, cur_xlen := push_bit (new_mxl + 4) 1\<rparr>)
      else (0, s))"

definition csr_write :: "'d cpu \<Rightarrow> u32 \<Rightarrow> u64 \<Rightarrow> int \<times> 'd cpu" where
  "csr_write s csr val =
     (if csr = 0x001 then (0, s\<lparr>fflags := ucast (val AND 0x1f), fs := 3\<rparr>)
      else if csr = 0x002 then (0, (set_frm s (unat (val AND 7)))\<lparr>fs := 3\<rparr>)
      else if csr = 0x003 then
        (0, (set_frm s (unat (drop_bit 5 val AND 7)))\<lparr>fflags := ucast (val AND 0x1f), fs := 3\<rparr>)
      else if csr = 0x100 then
        (0, set_mstatus s ((mstatus s AND NOT SSTATUS_MASK) OR (val AND SSTATUS_MASK)))
      else if csr = 0x104 then
        (0, s\<lparr>mie := ucast (masked_write (ucast (mie s)) (ucast (mideleg s)) val)\<rparr>)
      else if csr = 0x105 then (0, s\<lparr>stvec := val AND NOT 3\<rparr>)
      else if csr = 0x106 then (0, s\<lparr>scounteren := ucast (val AND COUNTEREN_MASK)\<rparr>)
      else if csr = 0x140 then (0, s\<lparr>sscratch := val\<rparr>)
      else if csr = 0x141 then (0, s\<lparr>sepc := val AND NOT 1\<rparr>)
      else if csr = 0x142 then (0, s\<lparr>scause := val\<rparr>)
      else if csr = 0x143 then (0, s\<lparr>stval := val\<rparr>)
      else if csr = 0x144 then
        (0, s\<lparr>mip := ucast (masked_write (ucast (mip s)) (ucast (mideleg s)) val)\<rparr>)
      else if csr = 0x180 then (2, write_satp s val)
      else if csr = 0x300 then (0, set_mstatus s val)
      else if csr = 0x301 then write_misa s val
      else if csr = 0x302 then
        (0, s\<lparr>medeleg := ucast (masked_write (ucast (medeleg s)) (push_bit 16 1 - 1) val)\<rparr>)
      else if csr = 0x303 then
        (0, s\<lparr>mideleg := ucast (masked_write (ucast (mideleg s))
               (ucast (MIP_SSIP OR MIP_STIP OR MIP_SEIP)) val)\<rparr>)
      else if csr = 0x304 then
        (0, s\<lparr>mie := ucast (masked_write (ucast (mie s))
               (ucast (MIP_MSIP OR MIP_MTIP OR MIP_SSIP OR MIP_STIP OR MIP_SEIP)) val)\<rparr>)
      else if csr = 0x305 then (0, s\<lparr>mtvec := val AND NOT 3\<rparr>)
      else if csr = 0x306 then (0, s\<lparr>mcounteren := ucast (val AND COUNTEREN_MASK)\<rparr>)
      else if csr = 0x340 then (0, s\<lparr>mscratch := val\<rparr>)
      else if csr = 0x341 then (0, s\<lparr>mepc := val AND NOT 1\<rparr>)
      else if csr = 0x342 then (0, s\<lparr>mcause := val\<rparr>)
      else if csr = 0x343 then (0, s\<lparr>mtval := val\<rparr>)
      else if csr = 0x344 then
        (0, s\<lparr>mip := ucast (masked_write (ucast (mip s)) (ucast (MIP_SSIP OR MIP_STIP)) val)\<rparr>)
      else (-1, s))"

section \<open>Switching the privilege\<close>

definition set_priv :: "'d cpu \<Rightarrow> nat \<Rightarrow> 'd cpu" where
  "set_priv s prv =
     (if priv s \<noteq> prv then
        let s1 = tlb_flush_all s;
            ml = (if prv = PRV_S then unat (drop_bit MSTATUS_SXL_SHIFT (mstatus s1) AND 3)
                  else if prv = PRV_U then unat (drop_bit MSTATUS_UXL_SHIFT (mstatus s1) AND 3)
                  else mxl s1)
        in s1\<lparr>cur_xlen := push_bit (4 + ml) 1, priv := prv\<rparr>
      else s)"

end
