(* ===== verification/Trap.thy ===== *)
theory Trap
  imports Csr
begin

text \<open>
  Traps of \<open>riscv_cpu.c\<close>: taking an exception or interrupt (\<open>raise_exception2\<close>), returning from
  one (\<open>handle_sret\<close>, \<open>handle_mret\<close>), selecting the pending interrupt (\<open>raise_interrupt\<close>), and
  the interrupt lines and the reset state that the machine sees (\<open>riscv_cpu_set_mip\<close>,
  \<open>riscv_cpu_reset_mip\<close>, \<open>riscv_cpu_init\<close>).
\<close>

section \<open>Taking a trap\<close>

definition trap_delegated :: "'d cpu \<Rightarrow> u32 \<Rightarrow> bool" where
  "trap_delegated s cause =
     (if priv s \<le> PRV_S then
        if c_true (cause AND CAUSE_INTERRUPT)
        then c_true (drop_bit (unat (cause AND (of_nat MAX_XLEN - 1))) (mideleg s) AND 1)
        else c_true (drop_bit (unat cause) (medeleg s) AND 1)
      else False)"

definition trap_cause :: "'d cpu \<Rightarrow> u32 \<Rightarrow> u64" where
  "trap_cause s cause =
     (let causel = ucast (cause AND 0x7fffffff)
      in if c_true (cause AND CAUSE_INTERRUPT) then causel OR push_bit (cur_xlen s - 1) 1 else causel)"

text \<open>The stacking of the interrupt enable and of the privilege: \<open>mstatus\<close> after the three
  assignments of one branch, for the bit \<open>pie\<close> at \<open>pie_shift\<close>, the field \<open>pp\<close> at \<open>pp_shift\<close>
  and the enable \<open>ie\<close>.\<close>

definition stack_ie :: "'d cpu \<Rightarrow> u64 \<Rightarrow> nat \<Rightarrow> u64 \<Rightarrow> nat \<Rightarrow> u64 \<Rightarrow> u64" where
  "stack_ie s pie pie_shift pp pp_shift ie =
     (let m1 = (mstatus s AND NOT pie) OR push_bit pie_shift (drop_bit (priv s) (mstatus s) AND 1);
          m2 = (m1 AND NOT pp) OR push_bit pp_shift (of_nat (priv s))
      in m2 AND NOT ie)"

definition raise_exception2 :: "'d cpu \<Rightarrow> u32 \<Rightarrow> u64 \<Rightarrow> 'd cpu" where
  "raise_exception2 s cause tval =
     (let deleg = trap_delegated s cause;
          causel = trap_cause s cause
      in if deleg then
           let s1 = s\<lparr>scause := causel, sepc := pc s, stval := tval,
                 mstatus := stack_ie s MSTATUS_SPIE MSTATUS_SPIE_SHIFT MSTATUS_SPP MSTATUS_SPP_SHIFT
                   MSTATUS_SIE\<rparr>;
               s2 = set_priv s1 PRV_S
           in s2\<lparr>pc := stvec s2\<rparr>
         else
           let s1 = s\<lparr>mcause := causel, mepc := pc s, mtval := tval,
                 mstatus := stack_ie s MSTATUS_MPIE MSTATUS_MPIE_SHIFT MSTATUS_MPP MSTATUS_MPP_SHIFT
                   MSTATUS_MIE\<rparr>;
               s2 = set_priv s1 PRV_M
           in s2\<lparr>pc := mtvec s2\<rparr>)"

definition raise_exception :: "'d cpu \<Rightarrow> u32 \<Rightarrow> 'd cpu" where
  "raise_exception s cause = raise_exception2 s cause 0"

section \<open>Returning\<close>

definition handle_sret :: "'d cpu \<Rightarrow> 'd cpu" where
  "handle_sret s =
     (let spp = unat (drop_bit MSTATUS_SPP_SHIFT (mstatus s) AND 1);
          spie = drop_bit MSTATUS_SPIE_SHIFT (mstatus s) AND 1;
          m1 = (mstatus s AND NOT (push_bit spp 1)) OR push_bit spp spie;
          m2 = m1 OR MSTATUS_SPIE;
          m3 = m2 AND NOT MSTATUS_SPP;
          s1 = set_priv (s\<lparr>mstatus := m3\<rparr>) spp
      in s1\<lparr>pc := sepc s1\<rparr>)"

definition handle_mret :: "'d cpu \<Rightarrow> 'd cpu" where
  "handle_mret s =
     (let mpp = unat (drop_bit MSTATUS_MPP_SHIFT (mstatus s) AND 3);
          mpie = drop_bit MSTATUS_MPIE_SHIFT (mstatus s) AND 1;
          m1 = (mstatus s AND NOT (push_bit mpp 1)) OR push_bit mpp mpie;
          m2 = m1 OR MSTATUS_MPIE;
          m3 = m2 AND NOT MSTATUS_MPP;
          s1 = set_priv (s\<lparr>mstatus := m3\<rparr>) mpp
      in s1\<lparr>pc := mepc s1\<rparr>)"

section \<open>Interrupts\<close>

definition get_pending_irq_mask :: "'d cpu \<Rightarrow> u32" where
  "get_pending_irq_mask s =
     (let pending_ints = mip s AND mie s in
      if pending_ints = 0 then 0
      else
        let enabled_ints =
          (if priv s = PRV_M then
             (if c_true (mstatus s AND MSTATUS_MIE) then NOT (mideleg s) else 0)
           else if priv s = PRV_S then
             (if c_true (mstatus s AND MSTATUS_SIE) then NOT (mideleg s) OR mideleg s
              else NOT (mideleg s))
           else - 1)
        in pending_ints AND enabled_ints)"

text \<open>\<open>True\<close> is the return value \<open>-1\<close>: an interrupt was taken.\<close>

definition raise_interrupt :: "'d cpu \<Rightarrow> bool \<times> 'd cpu" where
  "raise_interrupt s =
     (let msk = get_pending_irq_mask s in
      if msk = 0 then (False, s)
      else (True, raise_exception s (of_nat (ctz32 msk) OR CAUSE_INTERRUPT)))"

section \<open>The interface to the machine\<close>

definition riscv_cpu_get_cycles :: "'d cpu \<Rightarrow> u64" where
  "riscv_cpu_get_cycles s = insn_counter s"

definition riscv_cpu_set_mip :: "u32 \<Rightarrow> 'd cpu \<Rightarrow> 'd cpu" where
  "riscv_cpu_set_mip msk s =
     (let s1 = s\<lparr>mip := mip s OR msk\<rparr> in
      if power_down_flag s1 \<and> mip s1 AND mie s1 \<noteq> 0 then s1\<lparr>power_down_flag := False\<rparr> else s1)"

definition riscv_cpu_reset_mip :: "u32 \<Rightarrow> 'd cpu \<Rightarrow> 'd cpu" where
  "riscv_cpu_reset_mip msk s = s\<lparr>mip := mip s AND NOT msk\<rparr>"

definition riscv_cpu_get_mip :: "'d cpu \<Rightarrow> u32" where
  "riscv_cpu_get_mip s = mip s"

definition riscv_cpu_get_power_down :: "'d cpu \<Rightarrow> bool" where
  "riscv_cpu_get_power_down s = power_down_flag s"

definition riscv_cpu_get_misa :: "'d cpu \<Rightarrow> u32" where
  "riscv_cpu_get_misa s = misa s"

definition zero_entry :: tlb_entry where
  "zero_entry = \<lparr>vaddr = 0, mem_addend = 0\<rparr>"

text \<open>The zeroed state of \<open>mallocz\<close>.\<close>

definition zero_cpu :: "phys_mem_map \<Rightarrow> host_mem \<Rightarrow> 'd \<Rightarrow> 'd cpu" where
  "zero_cpu mm m d = \<lparr>pc = 0, reg = (\<lambda>_. 0), fp_reg = (\<lambda>_. 0), fflags = 0, frm = 0, cur_xlen = 0,
     priv = 0, fs = 0, mxl = 0, insn_counter = 0, power_down_flag = False, pending_exception = 0,
     pending_tval = 0, mstatus = 0, mtvec = 0, mscratch = 0, mepc = 0, mcause = 0, mtval = 0,
     mhartid = 0, misa = 0, mie = 0, mip = 0, medeleg = 0, mideleg = 0, mcounteren = 0, stvec = 0,
     sscratch = 0, sepc = 0, scause = 0, stval = 0, satp = 0, scounteren = 0, load_res = 0,
     mem_map = mm, tlb_read = (\<lambda>_. zero_entry), tlb_write = (\<lambda>_. zero_entry),
     tlb_code = (\<lambda>_. zero_entry), ram = m, dev = d\<rparr>"

definition riscv_cpu_init :: "phys_mem_map \<Rightarrow> host_mem \<Rightarrow> 'd \<Rightarrow> 'd cpu" where
  "riscv_cpu_init mm m d =
     (let s = zero_cpu mm m d;
          ml = get_base_from_xlen MAX_XLEN
      in tlb_init (s\<lparr>pc := 0x1000, priv := PRV_M, cur_xlen := MAX_XLEN, mxl := ml,
           mstatus := push_bit MSTATUS_UXL_SHIFT (of_nat ml) OR push_bit MSTATUS_SXL_SHIFT (of_nat ml),
           misa := MCPUID_SUPER OR MCPUID_USER OR MCPUID_I OR MCPUID_M OR MCPUID_A
             OR MCPUID_F OR MCPUID_D OR MCPUID_C\<rparr>))"

end
