(* ===== verification/Decode.thy ===== *)
theory Decode
  imports CpuState
begin

text \<open>
  Instruction fields of \<open>riscv_cpu_template.h\<close>: the register numbers, \<open>funct3\<close> and the
  immediates, as the switch of the interpreter computes them. A local of type \<open>int32_t\<close> or
  \<open>uint32_t\<close> is a \<open>u32\<close>; where an \<open>int32_t\<close> is used as a \<open>target_ulong\<close> it is extended by
  \<^const>\<open>sx32\<close>.
\<close>

section \<open>Fields\<close>

definition sext :: "u32 \<Rightarrow> nat \<Rightarrow> u32" where
  "sext val n = signed_drop_bit (32 - n) (push_bit (32 - n) val)"

definition get_field1 :: "u32 \<Rightarrow> nat \<Rightarrow> nat \<Rightarrow> nat \<Rightarrow> u32" where
  "get_field1 val src_pos dst_pos dst_pos_max =
     (let msk = push_bit dst_pos (push_bit (dst_pos_max - dst_pos + 1) 1 - 1)
      in if dst_pos \<ge> src_pos then push_bit (dst_pos - src_pos) val AND msk
         else drop_bit (src_pos - dst_pos) val AND msk)"

definition rd_of :: "u32 \<Rightarrow> nat" where
  "rd_of insn = unat (drop_bit 7 insn AND 0x1f)"

definition rs1_of :: "u32 \<Rightarrow> nat" where
  "rs1_of insn = unat (drop_bit 15 insn AND 0x1f)"

definition rs2_of :: "u32 \<Rightarrow> nat" where
  "rs2_of insn = unat (drop_bit 20 insn AND 0x1f)"

definition rs3_of :: "u32 \<Rightarrow> nat" where
  "rs3_of insn = unat (drop_bit 27 insn)"

definition opcode_of :: "u32 \<Rightarrow> u32" where
  "opcode_of insn = insn AND 0x7f"

definition funct3_of :: "u32 \<Rightarrow> u32" where
  "funct3_of insn = drop_bit 12 insn AND 7"

text \<open>The compressed formats: \<open>funct3\<close>, the register \<open>((insn >> pos) & 7) | 8\<close> and the
  five-bit \<open>rs2\<close>.\<close>

definition c_funct3_of :: "u32 \<Rightarrow> u32" where
  "c_funct3_of insn = drop_bit 13 insn AND 7"

definition c_reg :: "u32 \<Rightarrow> nat \<Rightarrow> nat" where
  "c_reg insn pos = unat ((drop_bit pos insn AND 7) OR 8)"

definition c_rs2 :: "u32 \<Rightarrow> u32" where
  "c_rs2 insn = drop_bit 2 insn AND 0x1f"

section \<open>Immediates\<close>

definition imm_i :: "u32 \<Rightarrow> u32" where
  "imm_i insn = signed_drop_bit 20 insn"

definition imm_s :: "u32 \<Rightarrow> u32" where
  "imm_s insn =
     (let imm = of_nat (rd_of insn) OR (drop_bit (25 - 5) insn AND 0xfe0)
      in signed_drop_bit 20 (push_bit 20 imm))"

definition imm_b :: "u32 \<Rightarrow> u32" where
  "imm_b insn =
     (let imm = (drop_bit (31 - 12) insn AND push_bit 12 1) OR (drop_bit (25 - 5) insn AND 0x7e0)
        OR (drop_bit (8 - 1) insn AND 0x1e) OR (push_bit (11 - 7) insn AND push_bit 11 1)
      in signed_drop_bit 19 (push_bit 19 imm))"

definition imm_j :: "u32 \<Rightarrow> u32" where
  "imm_j insn =
     (let imm = (drop_bit (31 - 20) insn AND push_bit 20 1) OR (drop_bit (21 - 1) insn AND 0x7fe)
        OR (drop_bit (20 - 11) insn AND push_bit 11 1) OR (insn AND 0xff000)
      in signed_drop_bit 11 (push_bit 11 imm))"

definition imm_c_addi4spn :: "u32 \<Rightarrow> u32" where
  "imm_c_addi4spn insn = get_field1 insn 11 4 5 OR get_field1 insn 7 6 9
     OR get_field1 insn 6 2 2 OR get_field1 insn 5 3 3"

text \<open>Offset of \<open>c.lw\<close>, \<open>c.sw\<close>, \<open>c.flw\<close>, \<open>c.fsw\<close>, and of the doubleword accesses.\<close>

definition imm_c_w :: "u32 \<Rightarrow> u32" where
  "imm_c_w insn = get_field1 insn 10 3 5 OR get_field1 insn 6 2 2 OR get_field1 insn 5 6 6"

definition imm_c_d :: "u32 \<Rightarrow> u32" where
  "imm_c_d insn = get_field1 insn 10 3 5 OR get_field1 insn 5 6 7"

definition imm_c_i_raw :: "u32 \<Rightarrow> u32" where
  "imm_c_i_raw insn = get_field1 insn 12 5 5 OR get_field1 insn 2 0 4"

definition imm_c_i :: "u32 \<Rightarrow> u32" where
  "imm_c_i insn = sext (imm_c_i_raw insn) 6"

definition imm_c_j :: "u32 \<Rightarrow> u32" where
  "imm_c_j insn = sext (get_field1 insn 12 11 11 OR get_field1 insn 11 4 4
     OR get_field1 insn 9 8 9 OR get_field1 insn 8 10 10 OR get_field1 insn 7 6 6
     OR get_field1 insn 6 7 7 OR get_field1 insn 3 1 3 OR get_field1 insn 2 5 5) 12"

definition imm_c_addi16sp :: "u32 \<Rightarrow> u32" where
  "imm_c_addi16sp insn = sext (get_field1 insn 12 9 9 OR get_field1 insn 6 4 4
     OR get_field1 insn 5 6 6 OR get_field1 insn 3 7 8 OR get_field1 insn 2 5 5) 10"

definition imm_c_lui :: "u32 \<Rightarrow> u32" where
  "imm_c_lui insn = sext (get_field1 insn 12 17 17 OR get_field1 insn 2 12 16) 18"

definition imm_c_b :: "u32 \<Rightarrow> u32" where
  "imm_c_b insn = sext (get_field1 insn 12 8 8 OR get_field1 insn 10 3 4
     OR get_field1 insn 5 6 7 OR get_field1 insn 3 1 2 OR get_field1 insn 2 5 5) 9"

text \<open>The stack-pointer relative loads and stores, words and doublewords.\<close>

definition imm_c_lwsp :: "u32 \<Rightarrow> u32" where
  "imm_c_lwsp insn = get_field1 insn 12 5 5 OR (c_rs2 insn AND push_bit 2 7) OR get_field1 insn 2 6 7"

definition imm_c_ldsp :: "u32 \<Rightarrow> u32" where
  "imm_c_ldsp insn = get_field1 insn 12 5 5 OR (c_rs2 insn AND push_bit 3 3) OR get_field1 insn 2 6 8"

definition imm_c_swsp :: "u32 \<Rightarrow> u32" where
  "imm_c_swsp insn = get_field1 insn 9 2 5 OR get_field1 insn 7 6 7"

definition imm_c_sdsp :: "u32 \<Rightarrow> u32" where
  "imm_c_sdsp insn = get_field1 insn 10 3 5 OR get_field1 insn 7 6 8"

end
