(* ===== verification/Alu.thy ===== *)
theory Alu
  imports CpuState "HOL-Library.Signed_Division"
begin

text \<open>
  The arithmetic helpers at the head of \<open>riscv_cpu_template.h\<close>: division and remainder of the M
  extension (\<open>div32/64\<close> \<dots> are one polymorphic definition over the register word), the high
  halves of products for \<open>XLEN\<close> 32 and for \<open>XLEN\<close> 64 with \<open>HAVE_INT128\<close>, and the portable
  \<open>mulhu\<close>, \<open>mulh\<close>, \<open>mulhsu\<close> built from half words. C's signed division truncates: it is
  \<open>sdiv\<close> and \<open>smod\<close> on the signed values.
\<close>

section \<open>Division and remainder\<close>

definition div_x :: "'a::len word \<Rightarrow> 'a word \<Rightarrow> 'a word" where
  "div_x a b =
     (if b = 0 then -1
      else if a = push_bit (LENGTH('a) - 1) 1 \<and> b = -1 then a
      else word_of_int (sint a sdiv sint b))"

definition divu_x :: "'a::len word \<Rightarrow> 'a word \<Rightarrow> 'a word" where
  "divu_x a b = (if b = 0 then -1 else a div b)"

definition rem_x :: "'a::len word \<Rightarrow> 'a word \<Rightarrow> 'a word" where
  "rem_x a b =
     (if b = 0 then a
      else if a = push_bit (LENGTH('a) - 1) 1 \<and> b = -1 then 0
      else word_of_int (sint a smod sint b))"

definition remu_x :: "'a::len word \<Rightarrow> 'a word \<Rightarrow> 'a word" where
  "remu_x a b = (if b = 0 then a else a mod b)"

section \<open>High halves of products\<close>

definition mulh32 :: "u32 \<Rightarrow> u32 \<Rightarrow> u32" where
  "mulh32 a b = ucast (signed_drop_bit 32 (scast a * scast b :: u64))"

definition mulhsu32 :: "u32 \<Rightarrow> u32 \<Rightarrow> u32" where
  "mulhsu32 a b = ucast (signed_drop_bit 32 (scast a * ucast b :: u64))"

definition mulhu32 :: "u32 \<Rightarrow> u32 \<Rightarrow> u32" where
  "mulhu32 a b = ucast (signed_drop_bit 32 (ucast a * ucast b :: u64))"

definition mulh64 :: "u64 \<Rightarrow> u64 \<Rightarrow> u64" where
  "mulh64 a b = ucast (signed_drop_bit 64 (scast a * scast b :: u128))"

definition mulhsu64 :: "u64 \<Rightarrow> u64 \<Rightarrow> u64" where
  "mulhsu64 a b = ucast (signed_drop_bit 64 (scast a * ucast b :: u128))"

definition mulhu64 :: "u64 \<Rightarrow> u64 \<Rightarrow> u64" where
  "mulhu64 a b = ucast (signed_drop_bit 64 (ucast a * ucast b :: u128))"

text \<open>The portable version. \<open>h\<close> is \<open>UHALF_LEN\<close>; a conversion to \<open>UHALF\<close> is \<open>take_bit h\<close>.\<close>

definition mulhu_portable :: "'a::len word \<Rightarrow> 'a word \<Rightarrow> 'a word" where
  "mulhu_portable a b =
     (let h = LENGTH('a) div 2;
          a0 = take_bit h a; a1 = take_bit h (drop_bit h a);
          b0 = take_bit h b; b1 = take_bit h (drop_bit h b);
          r00 = a0 * b0; r01 = a0 * b1; r10 = a1 * b0; r11 = a1 * b1;
          c = drop_bit h r00 + take_bit h r01 + take_bit h r10;
          c' = drop_bit h c + drop_bit h r01 + drop_bit h r10 + take_bit h r11;
          r2 = take_bit h c';
          r3 = take_bit h (drop_bit h c' + drop_bit h r11)
      in push_bit h r3 OR r2)"

definition mulh_portable :: "'a::len word \<Rightarrow> 'a word \<Rightarrow> 'a word" where
  "mulh_portable a b =
     (let r1 = mulhu_portable a b;
          r1' = (if sint a < 0 then r1 - a else r1)
      in if sint b < 0 then r1' - b else r1')"

definition mulhsu_portable :: "'a::len word \<Rightarrow> 'a word \<Rightarrow> 'a word" where
  "mulhsu_portable a b =
     (let r1 = mulhu_portable a b
      in if sint a < 0 then r1 - a else r1)"

section \<open>Division and remainder satisfy the specification of the M extension\<close>

lemma sint_ge_min: "- (2 ^ (LENGTH('a) - 1)) \<le> sint w" and sint_lt_max: "sint w < 2 ^ (LENGTH('a) - 1)"
  for w :: "'a::len word"
  using sint_range_size [of w] by (simp_all add: word_size)

lemma sint_word_of_int_id:
  assumes "- (2 ^ (LENGTH('a) - 1)) \<le> i" "i < 2 ^ (LENGTH('a) - 1)"
  shows "sint (word_of_int i :: 'a::len word) = i"
proof -
  have "signed_take_bit (LENGTH('a) - 1) i = i"
    by (rule signed_take_bit_int_eq_self) (use assms in auto)
  then show ?thesis by (simp only: sint_sbintrunc')
qed

lemma double_min_int: "2 ^ (LENGTH('a) - 1) + 2 ^ (LENGTH('a) - 1) = (0 :: 'a::len word)"
proof -
  have "2 ^ (LENGTH('a) - 1) + 2 ^ (LENGTH('a) - 1) = (2 ^ Suc (LENGTH('a) - 1) :: 'a word)"
    by (simp only: power_Suc mult_2)
  also have "Suc (LENGTH('a) - 1) = LENGTH('a)" by simp
  finally show ?thesis by simp
qed

lemma min_int_word: "word_of_int (- (2 ^ (LENGTH('a) - 1))) = (push_bit (LENGTH('a) - 1) 1 :: 'a::len word)"
proof -
  have "- (2 ^ (LENGTH('a) - 1)) = (2 ^ (LENGTH('a) - 1) :: 'a word)"
    using double_min_int [where 'a = 'a] by (metis add.inverse_unique)
  then show ?thesis by simp
qed

lemma sint_min_int: "sint (push_bit (LENGTH('a) - 1) 1 :: 'a::len word) = - (2 ^ (LENGTH('a) - 1))"
  by (subst min_int_word [symmetric], rule sint_word_of_int_id) simp_all

lemma sint_minus_1 [simp]: "sint (-1 :: 'a::len word) = -1"
  by simp

text \<open>Outside the two special cases of the source, the quotient fits the register.\<close>

lemma sint_div_x:
  fixes a b :: "'a::len word"
  assumes "b \<noteq> 0" and nov: "\<not> (a = push_bit (LENGTH('a) - 1) 1 \<and> b = -1)"
  shows "sint (div_x a b) = sint a sdiv sint b"
proof -
  let ?q = "sint a sdiv sint b"
  have q: "?q \<in> {- \<bar>sint a\<bar>..\<bar>sint a\<bar>}" by (rule sdiv_int_range)
  have "?q \<noteq> 2 ^ (LENGTH('a) - 1)"
  proof
    assume big: "?q = 2 ^ (LENGTH('a) - 1)"
    then have "2 ^ (LENGTH('a) - 1) \<le> \<bar>sint a\<bar>" using q by simp
    then have a: "sint a = - (2 ^ (LENGTH('a) - 1))"
      using sint_ge_min [of a] sint_lt_max [of a] by linarith
    then have "?q = - sint a" using big by simp
    moreover have "sint a \<noteq> 0" using a by simp
    ultimately have "sint b = -1" by simp
    then have "b = -1" by (metis sint_minus_1 signed_word_eqI)
    moreover have "a = push_bit (LENGTH('a) - 1) 1"
      by (metis a sint_min_int signed_word_eqI)
    ultimately show False using nov by blast
  qed
  moreover have "?q \<le> 2 ^ (LENGTH('a) - 1)" "- (2 ^ (LENGTH('a) - 1)) \<le> ?q"
    using q sint_ge_min [of a] sint_lt_max [of a] by auto
  ultimately show ?thesis
    unfolding div_x_def using assms by (simp only: if_False sint_word_of_int_id simp_thms order_less_le)
qed

lemma sint_rem_x:
  fixes a b :: "'a::len word"
  assumes "b \<noteq> 0"
  shows "sint (rem_x a b) = sint a smod sint b"
proof (cases "a = push_bit (LENGTH('a) - 1) 1 \<and> b = -1")
  case True
  then have "sint a smod sint b = 0" by (simp add: signed_modulo_int_def)
  with True show ?thesis by (simp add: rem_x_def)
next
  case False
  let ?r = "sint a smod sint b"
  have b: "sint b \<noteq> 0" using assms by (metis signed_0 signed_word_eqI)
  have "?r \<in> {- \<bar>sint b\<bar> + 1..\<bar>sint b\<bar> - 1}" by (rule smod_int_range [OF b])
  then have "- (2 ^ (LENGTH('a) - 1)) \<le> ?r" "?r < 2 ^ (LENGTH('a) - 1)"
    using sint_ge_min [of b] sint_lt_max [of b] by auto
  then show ?thesis
    unfolding rem_x_def using assms False by (simp only: if_False sint_word_of_int_id simp_thms)
qed

lemma word_eq_of_sint: "word_of_int (sint w) = w"
  by simp

lemma div_rem_identity:
  fixes a b :: "'a::len word"
  assumes "b \<noteq> 0"
  shows "div_x a b * b + rem_x a b = a"
proof (cases "a = push_bit (LENGTH('a) - 1) 1 \<and> b = -1")
  case True
  then have "a * b = - a" by simp
  also have "- a = a"
    using double_min_int [where 'a = 'a] True by (metis add.inverse_unique push_bit_1_eq)
  finally have "a * b = a" .
  with True assms show ?thesis by (simp only: div_x_def rem_x_def if_True if_False simp_thms add_0_right)
next
  case False
  have "div_x a b * b + rem_x a b = word_of_int (sint a sdiv sint b * sint b + sint a smod sint b)"
    unfolding div_x_def rem_x_def if_not_P [OF False] if_not_P [OF assms] by simp
  also have "\<dots> = a" by (simp only: sdiv_mult_smod_eq word_eq_of_sint)
  finally show ?thesis .
qed

lemma rem_sgn:
  fixes a b :: "'a::len word"
  assumes "b \<noteq> 0"
  shows "sint (rem_x a b) = 0 \<or> sgn (sint (rem_x a b)) = sgn (sint a)"
proof -
  have "0 \<le> \<bar>sint a\<bar> mod \<bar>sint b\<bar>"
    using assms by (metis abs_ge_zero mod_int_pos_iff nle_le signed_0 signed_word_eqI zero_less_abs_iff)
  then show ?thesis
    using assms by (auto simp: sint_rem_x signed_modulo_int_def sgn_mult sgn_if)
qed

lemma rem_bound:
  fixes a b :: "'a::len word"
  assumes "b \<noteq> 0"
  shows "\<bar>sint (rem_x a b)\<bar> < \<bar>sint b\<bar>"
proof -
  have b: "sint b \<noteq> 0" using assms by (metis signed_0 signed_word_eqI)
  show ?thesis using smod_int_range [OF b, of "sint a"] by (auto simp: sint_rem_x assms)
qed

section \<open>High halves\<close>

text \<open>The upper half of a double-width word holding \<open>p\<close>, by a signed or an unsigned shift.\<close>

lemma high_half_signed:
  assumes "LENGTH('b) = 2 * LENGTH('a)"
  shows "(ucast (signed_drop_bit LENGTH('a) (word_of_int p :: 'b::len word)) :: 'a::len word)
    = word_of_int (p div 2 ^ LENGTH('a))"
  by (rule bit_word_eqI)
    (auto simp: assms bit_simps bit_signed_drop_bit_iff min_def simp flip: drop_bit_eq_div)

lemma high_half_32: "ucast (signed_drop_bit 32 (word_of_int p :: u64)) = (word_of_int (p div 2 ^ 32) :: u32)"
  using high_half_signed [where 'a = 32 and 'b = 64, of p] by (simp only: len_of_numeral_defs) simp

lemma high_half_64: "ucast (signed_drop_bit 64 (word_of_int p :: u128)) = (word_of_int (p div 2 ^ 64) :: u64)"
  using high_half_signed [where 'a = 64 and 'b = 128, of p] by (simp only: len_of_numeral_defs) simp

lemma scast_times: "(scast a * scast b :: 'b::len word) = word_of_int (sint a * sint b)"
  by (simp only: scast_eq ucast_eq wi_hom_mult)

lemma ucast_times: "(ucast a * ucast b :: 'b::len word) = word_of_int (uint a * uint b)"
  by (simp only: scast_eq ucast_eq wi_hom_mult)

lemma scast_ucast_times: "(scast a * ucast b :: 'b::len word) = word_of_int (sint a * uint b)"
  by (simp only: scast_eq ucast_eq wi_hom_mult)

lemma mulh32_eq: "mulh32 a b = word_of_int (sint a * sint b div 2 ^ 32)"
  and mulhsu32_eq: "mulhsu32 a b = word_of_int (sint a * uint b div 2 ^ 32)"
  and mulhu32_eq: "mulhu32 a b = word_of_int (uint a * uint b div 2 ^ 32)"
  unfolding mulh32_def mulhsu32_def mulhu32_def scast_times ucast_times scast_ucast_times
  by (rule high_half_32)+

lemma mulh64_eq: "mulh64 a b = word_of_int (sint a * sint b div 2 ^ 64)"
  and mulhsu64_eq: "mulhsu64 a b = word_of_int (sint a * uint b div 2 ^ 64)"
  and mulhu64_eq: "mulhu64 a b = word_of_int (uint a * uint b div 2 ^ 64)"
  unfolding mulh64_def mulhsu64_def mulhu64_def scast_times ucast_times scast_ucast_times
  by (rule high_half_64)+

subsection \<open>The portable routine\<close>

text \<open>The schoolbook product of two two-digit numbers in base \<open>B\<close>: the carries of the source.\<close>

lemma schoolbook_high:
  fixes a0 a1 b0 b1 B :: nat
  assumes "0 < B"
  defines "c \<equiv> a0 * b0 div B + a0 * b1 mod B + a1 * b0 mod B"
  defines "c' \<equiv> c div B + a0 * b1 div B + a1 * b0 div B + a1 * b1 mod B"
  shows "(a0 + B * a1) * (b0 + B * b1) div (B * B) = (c' div B + a1 * b1 div B) * B + c' mod B"
    and "(a0 + B * a1) * (b0 + B * b1) mod (B * B) = (c mod B) * B + a0 * b0 mod B"
proof -
  obtain q00 m00 where d00: "a0 * b0 = m00 + B * q00" "q00 = a0 * b0 div B" "m00 = a0 * b0 mod B" by simp
  obtain q01 m01 where d01: "a0 * b1 = m01 + B * q01" "q01 = a0 * b1 div B" "m01 = a0 * b1 mod B" by simp
  obtain q10 m10 where d10: "a1 * b0 = m10 + B * q10" "q10 = a1 * b0 div B" "m10 = a1 * b0 mod B" by simp
  obtain q11 m11 where d11: "a1 * b1 = m11 + B * q11" "q11 = a1 * b1 div B" "m11 = a1 * b1 mod B" by simp
  obtain qc mc where dc: "c = mc + B * qc" "qc = c div B" "mc = c mod B" by simp
  obtain qc' mc' where dc': "c' = mc' + B * qc'" "qc' = c' div B" "mc' = c' mod B" by simp
  have c: "c = q00 + m01 + m10" and c': "c' = qc + q01 + q10 + m11"
    by (simp_all only: c_def c'_def d00(2) d01(2,3) d10(2,3) d11(3) dc(2))
  have "(a0 + B * a1) * (b0 + B * b1) = a0 * b0 + B * (a0 * b1) + B * (a1 * b0) + B * B * (a1 * b1)"
    by (simp add: algebra_simps)
  also have "\<dots> = m00 + B * c + B * B * (q01 + q10 + m11 + B * q11)"
    unfolding d00(1) d01(1) d10(1) d11(1) c by (simp add: algebra_simps)
  also have "\<dots> = (m00 + B * mc) + B * B * (c' + B * q11)"
    unfolding dc(1) c' by (simp add: algebra_simps)
  finally have eq: "(a0 + B * a1) * (b0 + B * b1) = (m00 + B * mc) + B * B * (c' + B * q11)" .
  have "m00 < B" "mc < B" using assms by (simp_all only: d00(3) dc(3) mod_less_divisor)
  then have small: "m00 + B * mc < B * B"
    by (metis add.commute add_less_mono1 less_eq_Suc_le mult_Suc_right mult_le_mono2 order_less_le_trans)
  have "(a0 + B * a1) * (b0 + B * b1) div (B * B) = c' + B * q11"
    unfolding eq using small assms(1) by simp
  also have "\<dots> = mc' + B * qc' + B * q11" using dc'(1) by simp
  also have "\<dots> = (qc' + q11) * B + mc'" by (simp add: algebra_simps)
  finally show "(a0 + B * a1) * (b0 + B * b1) div (B * B) = (c' div B + a1 * b1 div B) * B + c' mod B"
    unfolding d11(2) dc'(2,3) .
  show "(a0 + B * a1) * (b0 + B * b1) mod (B * B) = (c mod B) * B + a0 * b0 mod B"
    unfolding eq d00(3) [symmetric] dc(3) [symmetric] using small by simp
qed

text \<open>The same computation on words, where none of the sums and products of the source wraps.\<close>

lemma half_product_less:
  fixes x y B :: nat
  assumes "x < B" "y < B"
  shows "x * y \<le> (B - 1) * (B - 1)" "x * y div B < B" "x * y < B * B"
proof -
  show le: "x * y \<le> (B - 1) * (B - 1)" using assms by (intro mult_le_mono) simp_all
  show less: "x * y < B * B" using assms by (simp add: mult_strict_mono)
  then show "x * y div B < B" by (simp add: less_mult_imp_div_less)
qed

lemma unat_mulhu_portable:
  fixes a b :: "'a::len word"
  assumes len: "LENGTH('a) = 2 * h" and h: "2 \<le> h"
  shows "unat (mulhu_portable a b) = unat a * unat b div 2 ^ LENGTH('a)"
proof -
  define B :: nat where "B = 2 ^ h"
  have B4: "4 \<le> B" using h power_increasing [of 2 h "2::nat"] by (simp add: B_def)
  have BB: "B * B = 2 ^ LENGTH('a)" by (simp add: B_def len mult_2 power_add)
  have BB3: "3 * B < B * B" using B4 by simp
  have hh: "LENGTH('a) div 2 = h" by (simp add: len)
  define a0 a1 b0 b1 where "a0 = unat a mod B" "a1 = unat a div B" "b0 = unat b mod B" "b1 = unat b div B"
  have ua: "unat a = a0 + B * a1" and ub: "unat b = b0 + B * b1"
    by (simp_all add: a0_a1_b0_b1_def)
  have uBB: "unat a < B * B" "unat b < B * B"
    unfolding BB by (rule unsigned_less)+
  have lt: "a0 < B" "a1 < B" "b0 < B" "b1 < B"
    using B4 uBB unfolding a0_a1_b0_b1_def by (simp_all add: less_mult_imp_div_less)
  have w: "unat (take_bit h a) = a0" "unat (take_bit h (drop_bit h a)) = a1"
      "unat (take_bit h b) = b0" "unat (take_bit h (drop_bit h b)) = b1"
    using lt unfolding a0_a1_b0_b1_def by (simp_all add: unat_take_bit unat_drop_bit B_def)
  define c where "c = a0 * b0 div B + a0 * b1 mod B + a1 * b0 mod B"
  define c' where "c' = c div B + a0 * b1 div B + a1 * b0 div B + a1 * b1 mod B"
  note hp = half_product_less [OF lt(1,3)] half_product_less [OF lt(1,4)]
    half_product_less [OF lt(2,3)] half_product_less [OF lt(2,4)]
  have m: "x mod B < B" for x using B4 by simp
  have c3: "c < 3 * B" unfolding c_def using hp(2) m [of "a0 * b1"] m [of "a1 * b0"] by linarith
  then have "c div B < 3" by (simp add: less_mult_imp_div_less mult.commute)
  then have c'3: "c' < 3 * B + B" unfolding c'_def using hp(5,8) m [of "a1 * b1"] B4 by linarith
  define w00 w01 w10 w11 where "w00 = take_bit h a * take_bit h b"
    "w01 = take_bit h a * take_bit h (drop_bit h b)" "w10 = take_bit h (drop_bit h a) * take_bit h b"
    "w11 = take_bit h (drop_bit h a) * take_bit h (drop_bit h b)"
  have u: "unat w00 = a0 * b0" "unat w01 = a0 * b1" "unat w10 = a1 * b0" "unat w11 = a1 * b1"
    unfolding w00_w01_w10_w11_def using hp(3,6,9,12)
    by (simp_all add: unat_mult_small w flip: BB)
  define wc where "wc = drop_bit h w00 + take_bit h w01 + take_bit h w10"
  have uc: "unat wc = c"
    using order.strict_trans [OF c3 BB3] unfolding wc_def c_def
    by (simp add: unat_add_small unat_drop_bit unat_take_bit u flip: BB B_def)
  define wc' where "wc' = drop_bit h wc + drop_bit h w01 + drop_bit h w10 + take_bit h w11"
  have "c' < B * B" 
  proof -
    have "4 * B \<le> B * B" by (rule mult_le_mono1 [OF B4])
    then show ?thesis using c'3 by linarith
  qed
  then have uc': "unat wc' = c'"
    using B4 unfolding wc'_def c'_def
    by (simp add: unat_add_small unat_drop_bit unat_take_bit u uc flip: BB B_def)
  have hi: "(c' div B + a1 * b1 div B) * B + c' mod B = unat a * unat b div (B * B)"
    using schoolbook_high(1) [of B a0 a1 b0 b1] B4 by (simp add: ua ub c_def c'_def)
  have "unat a * unat b < (B * B) * (B * B)"
    using uBB B4 by (intro mult_strict_mono) simp_all
  then have "unat a * unat b div (B * B) < B * B" by (simp add: less_mult_imp_div_less)
  then have r3: "c' div B + a1 * b1 div B < B"
    unfolding hi [symmetric] using B4 by (metis add_lessD1 mult_less_cancel2)
  have ur3: "unat (take_bit h (drop_bit h wc' + drop_bit h w11)) = c' div B + a1 * b1 div B"
    using r3 order.strict_trans2 [OF r3, of "B * B"] B4
    by (simp add: unat_add_small unat_drop_bit unat_take_bit u uc' flip: BB B_def)
  have "unat (mulhu_portable a b)
      = unat (push_bit h (take_bit h (drop_bit h wc' + drop_bit h w11)) OR take_bit h wc')"
    by (simp add: mulhu_portable_def hh Let_def wc'_def wc_def w00_w01_w10_w11_def)
  also have "\<dots> = (c' div B + a1 * b1 div B) * 2 ^ h + unat (take_bit h wc')"
  proof (subst unat_join)
    show "unat (take_bit h wc') < 2 ^ h" by (simp add: unat_take_bit)
    show "unat (take_bit h (drop_bit h wc' + drop_bit h w11)) * 2 ^ h < 2 ^ LENGTH('a)"
      unfolding ur3 BB [symmetric] B_def [symmetric] using r3 B4 by (intro mult_strict_right_mono) simp_all
  qed (simp only: ur3)
  also have "\<dots> = unat a * unat b div 2 ^ LENGTH('a)"
    using hi unfolding unat_take_bit uc' B_def [symmetric] BB [symmetric] .
  finally show ?thesis .

qed

text \<open>For \<open>XLEN\<close> 64 it computes what the 128-bit product computes.\<close>

lemma mulhu_portable_64: "mulhu_portable a b = mulhu64 a b"
proof -
  have "uint (mulhu_portable a b) = uint a * uint b div 2 ^ 64"
    using arg_cong [OF unat_mulhu_portable [where 'a = 64 and h = 32, of a b], of int]
    by (simp add: zdiv_int)
  then show ?thesis by (metis mulhu64_eq word_of_int_uint)
qed

text \<open>The exact signed product corrects the unsigned one by the \<^emph>\<open>other\<close> operand of each
  negative factor; the portable signed variant subtracts the negative factor itself.\<close>

lemma sint_uint_64: "sint w = uint w - (if sint w < 0 then 2 ^ 64 else 0)" for w :: u64
proof (cases "sint w < 0")
  case True
  then have "take_bit 64 (sint w + 2 ^ 64) = sint w + 2 ^ 64"
    using sint_ge_min [of w] by (intro take_bit_int_eq_self) simp_all
  then show ?thesis using True by (simp add: uint_sint take_bit_eq_mod)
next
  case False
  then have "take_bit 64 (sint w) = sint w"
    using sint_lt_max [of w] by (intro take_bit_int_eq_self) simp_all
  then show ?thesis using False by (simp add: uint_sint)
qed

lemma mulh64_from_unsigned:
  "mulh64 a b = mulhu64 a b - (if sint a < 0 then b else 0) - (if sint b < 0 then a else 0)"
proof -
  define P where "P = uint a * uint b"
  define s where "s = (if sint a < 0 then 1 else (0::int))"
  define t where "t = (if sint b < 0 then 1 else (0::int))"
  have "sint a * sint b = P + (- s * uint b - t * uint a + s * t * 2 ^ 64) * 2 ^ 64"
    unfolding P_def s_def t_def by (subst (1 2) sint_uint_64) (simp add: algebra_simps)
  then have "sint a * sint b div 2 ^ 64 = P div 2 ^ 64 + (- s * uint b - t * uint a + s * t * 2 ^ 64)"
    by (simp only: div_mult_self1 ac_simps) simp
  moreover have "word_of_int (x + s * t * 2 ^ 64) = (word_of_int x :: u64)" for x
    by (rule word_of_int_eq_iff [THEN iffD2]) (simp add: take_bit_eq_mod)
  ultimately have "mulh64 a b = word_of_int (P div 2 ^ 64 + (- s * uint b - t * uint a))"
    unfolding mulh64_eq add.assoc [symmetric] by (simp only:)
  then have "mulh64 a b = mulhu64 a b - word_of_int s * b - word_of_int t * a"
    by (simp add: mulhu64_eq P_def)
  then show ?thesis by (simp add: s_def t_def)
qed

section \<open>The properties\<close>

lemma divu_remu_identity: "divu_x a b * b + remu_x a b = a"
  using word_mod_div_equality [of a b] by (auto simp: divu_x_def remu_x_def)

text \<open>Division and remainder satisfy the M extension, at every width: quotient times divisor plus
  remainder is the dividend (also for a zero divisor, and for the overflowing quotient of the
  smallest integer by \<open>-1\<close>), a quotient by zero is all ones, the remainder is smaller than the
  divisor and has the sign of the dividend.\<close>

theorem div_rem_spec:
  "div_x a b * b + rem_x a b = a \<and> divu_x a b * b + remu_x a b = a
   \<and> (b = 0 \<longrightarrow> div_x a b = -1 \<and> divu_x a b = -1)
   \<and> (b \<noteq> 0 \<longrightarrow> \<bar>sint (rem_x a b)\<bar> < \<bar>sint b\<bar> \<and> remu_x a b < b
        \<and> (sint (rem_x a b) = 0 \<or> sgn (sint (rem_x a b)) = sgn (sint a)))"
proof (cases "b = 0")
  case True
  then show ?thesis by (simp add: div_x_def rem_x_def divu_x_def remu_x_def)
next
  case False
  then show ?thesis
    using div_rem_identity [OF False] rem_bound [OF False] rem_sgn [OF False]
    by (simp add: divu_remu_identity) (simp add: remu_x_def word_mod_less_divisor word_gt_0)
qed

theorem div_rem_spec_witness:
  "div_x (- 7 :: u32) 2 * 2 + rem_x (- 7) 2 = - 7 \<and> \<bar>sint (rem_x (- 7 :: u32) 2)\<bar> < \<bar>sint (2 :: u32)\<bar>"
  using div_rem_spec [of "- 7 :: u32" 2] by simp

text \<open>The high-half multiplications of both instances compute the upper half of the exact
  product of their operands, read as signed or unsigned numbers.\<close>

theorem mulh_spec:
  "mulh32 a b = word_of_int (sint a * sint b div 2 ^ 32)
   \<and> mulhsu32 a b = word_of_int (sint a * uint b div 2 ^ 32)
   \<and> mulhu32 a b = word_of_int (uint a * uint b div 2 ^ 32)
   \<and> mulh64 c d = word_of_int (sint c * sint d div 2 ^ 64)
   \<and> mulhsu64 c d = word_of_int (sint c * uint d div 2 ^ 64)
   \<and> mulhu64 c d = word_of_int (uint c * uint d div 2 ^ 64)"
  by (simp only: mulh32_eq mulhsu32_eq mulhu32_eq mulh64_eq mulhsu64_eq mulhu64_eq simp_thms)

text \<open>The portable unsigned high-half multiplication, built from 32-bit halves, agrees with the
  one that uses a 128-bit product: none of its intermediate sums overflows.\<close>

theorem mulhu_portable_equiv: "mulhu_portable (a :: u64) b = mulhu64 a b"
  by (rule mulhu_portable_64)

text \<open>C27: The portable signed high-half multiplication returns the high half of the signed product
  exactly when its operands have the same sign: for operands of opposite signs it subtracts the
  wrong one from the unsigned result.\<close>

theorem mulh_portable_correct_iff:
  "mulh_portable (a :: u64) b = mulh64 a b \<longleftrightarrow> (sint a < 0 \<longleftrightarrow> sint b < 0)"
proof -
  have ne: "a \<noteq> b" if "(sint a < 0) \<noteq> (sint b < 0)" using that by auto
  show ?thesis
    using ne by (auto simp: mulh_portable_def mulhu_portable_64 mulh64_from_unsigned)
qed

end
