(* ===== verification/ExecInt.thy ===== *)
theory ExecInt
  imports Decode Alu Trap
begin

text \<open>
  The integer instructions of the interpreter switch (\<open>riscv_cpu_template.h\<close>), one definition
  per opcode. Each takes the callbacks, the \<open>XLEN\<close> of the template instance, the instruction,
  the value of \<open>GET_PC()\<close> (and of \<open>GET_INSN_COUNTER()\<close> where it is read) and the state, and
  returns how the switch is left, as a \<open>ctl\<close> value, with the new state:

  \<^item> \<open>C_NEXT\<close>, \<open>NEXT\<close>: \<open>C_NEXT_INSN\<close> and \<open>NEXT_INSN\<close>, the program counter advances by 2 or 4;
  \<^item> \<open>JUMP\<close>: \<open>JUMP_INSN\<close>, execution goes on at \<open>s->pc\<close>;
  \<^item> \<open>ILLEGAL\<close>, \<open>MMU_EXC\<close>, \<open>EXC\<close>, \<open>DONE\<close>: \<open>goto illegal_insn\<close>, \<open>mmu_exception\<close>, \<open>exception\<close>,
    \<open>done_interp\<close>.
\<close>

datatype ctl = C_NEXT | NEXT | JUMP | ILLEGAL | MMU_EXC | EXC | DONE

type_synonym 'd result = "ctl \<times> 'd cpu"

section \<open>Registers and memory operands\<close>

definition set_reg :: "nat \<Rightarrow> u64 \<Rightarrow> 'd cpu \<Rightarrow> 'd cpu" where
  "set_reg rd v s = s\<lparr>reg := (reg s)(rd := v)\<rparr>"

text \<open>\<open>if (rd != 0) s->reg[rd] = v\<close>\<close>

definition wr_reg :: "nat \<Rightarrow> u64 \<Rightarrow> 'd cpu \<Rightarrow> 'd cpu" where
  "wr_reg rd v s = (if rd \<noteq> 0 then set_reg rd v s else s)"

definition set_fp_reg :: "nat \<Rightarrow> u64 \<Rightarrow> 'd cpu \<Rightarrow> 'd cpu" where
  "set_fp_reg rd v s = s\<lparr>fp_reg := (fp_reg s)(rd := v)\<rparr>"

text \<open>\<open>if (target_read_uN(s, &rval, addr)) goto mmu_exception;\<close> followed by \<open>f rval\<close>, and
  \<open>if (target_write_uN(s, addr, val)) goto mmu_exception;\<close> followed by \<open>g\<close>.\<close>

definition with_load :: "'d bus \<Rightarrow> nat \<Rightarrow> u64 \<Rightarrow> (u64 \<Rightarrow> 'd cpu \<Rightarrow> 'd result) \<Rightarrow> 'd cpu \<Rightarrow> 'd result" where
  "with_load E k addr f s =
     (case target_read_u E k s addr of
        (None, s') \<Rightarrow> (MMU_EXC, s')
      | (Some rval, s') \<Rightarrow> f rval s')"

definition with_store :: "'d bus \<Rightarrow> nat \<Rightarrow> u64 \<Rightarrow> u64 \<Rightarrow> ('d cpu \<Rightarrow> 'd result) \<Rightarrow> 'd cpu \<Rightarrow> 'd result" where
  "with_store E k addr val g s =
     (case target_write_u E k s addr val of
        (False, s') \<Rightarrow> (MMU_EXC, s')
      | (True, s') \<Rightarrow> g s')"

section \<open>Upper immediates, jumps and branches\<close>

definition exec_lui :: "u32 \<Rightarrow> 'd cpu \<Rightarrow> 'd result" where
  "exec_lui insn s = (NEXT, wr_reg (rd_of insn) (sx32 (insn AND 0xfffff000)) s)"

definition exec_auipc :: "nat \<Rightarrow> u32 \<Rightarrow> u64 \<Rightarrow> 'd cpu \<Rightarrow> 'd result" where
  "exec_auipc xlen insn PC s =
     (NEXT, wr_reg (rd_of insn) (intx xlen (PC + sx32 (insn AND 0xfffff000))) s)"

definition exec_jal :: "nat \<Rightarrow> u32 \<Rightarrow> u64 \<Rightarrow> 'd cpu \<Rightarrow> 'd result" where
  "exec_jal xlen insn PC s =
     (let s' = wr_reg (rd_of insn) (PC + 4) s
      in (JUMP, s'\<lparr>pc := intx xlen (PC + sx32 (imm_j insn))\<rparr>))"

definition exec_jalr :: "nat \<Rightarrow> u32 \<Rightarrow> u64 \<Rightarrow> 'd cpu \<Rightarrow> 'd result" where
  "exec_jalr xlen insn PC s =
     (let val = PC + 4;
          s' = s\<lparr>pc := intx xlen (reg s (rs1_of insn) + sx32 (imm_i insn)) AND NOT 1\<rparr>
      in (JUMP, wr_reg (rd_of insn) val s'))"

definition exec_branch :: "nat \<Rightarrow> u32 \<Rightarrow> u64 \<Rightarrow> 'd cpu \<Rightarrow> 'd result" where
  "exec_branch xlen insn PC s =
     (let funct3 = funct3_of insn;
          kind = drop_bit 1 funct3;
          a = reg s (rs1_of insn);
          b = reg s (rs2_of insn)
      in if kind = 1 then (ILLEGAL, s)
         else
           let cond = (if kind = 0 then a = b
                       else if kind = 2 then sint a < sint b
                       else a < b)
           in if cond \<noteq> c_true (funct3 AND 1)
              then (JUMP, s\<lparr>pc := intx xlen (PC + sx32 (imm_b insn))\<rparr>)
              else (NEXT, s))"

section \<open>Loads and stores\<close>

text \<open>A load of \<open>2 ^ k\<close> bytes into \<open>rd\<close>, extended by \<open>ext\<close>.\<close>

definition load_into :: "'d bus \<Rightarrow> nat \<Rightarrow> nat \<Rightarrow> u64 \<Rightarrow> (u64 \<Rightarrow> u64) \<Rightarrow> 'd cpu \<Rightarrow> 'd result" where
  "load_into E rd k addr ext =
     with_load E k addr (\<lambda>rval s'. (NEXT, wr_reg rd (ext rval) s'))"

definition exec_load :: "'d bus \<Rightarrow> nat \<Rightarrow> u32 \<Rightarrow> 'd cpu \<Rightarrow> 'd result" where
  "exec_load E xlen insn s =
     (let funct3 = funct3_of insn;
          rd = rd_of insn;
          addr = reg s (rs1_of insn) + sx32 (imm_i insn)
      in if funct3 = 0 then load_into E rd 0 addr (signed_take_bit 7) s
         else if funct3 = 1 then load_into E rd 1 addr (signed_take_bit 15) s
         else if funct3 = 2 then load_into E rd 2 addr int32 s
         else if funct3 = 4 then load_into E rd 0 addr (\<lambda>v. v) s
         else if funct3 = 5 then load_into E rd 1 addr (\<lambda>v. v) s
         else if funct3 = 3 \<and> xlen \<ge> 64 then load_into E rd 3 addr (\<lambda>v. v) s
         else if funct3 = 6 \<and> xlen \<ge> 64 then load_into E rd 2 addr (\<lambda>v. v) s
         else (ILLEGAL, s))"

definition exec_store :: "'d bus \<Rightarrow> nat \<Rightarrow> u32 \<Rightarrow> 'd cpu \<Rightarrow> 'd result" where
  "exec_store E xlen insn s =
     (let funct3 = funct3_of insn;
          addr = reg s (rs1_of insn) + sx32 (imm_s insn);
          val = reg s (rs2_of insn)
      in if funct3 \<le> 2 \<or> (funct3 = 3 \<and> xlen \<ge> 64)
         then with_store E (unat funct3) addr val (Pair NEXT) s
         else (ILLEGAL, s))"

section \<open>Arithmetic with an immediate\<close>

text \<open>The result of an operation, or \<open>None\<close> for \<open>goto illegal_insn\<close>, stored in \<open>rd\<close>.\<close>

definition put_result :: "nat \<Rightarrow> u64 option \<Rightarrow> 'd cpu \<Rightarrow> 'd result" where
  "put_result rd r s = (case r of None \<Rightarrow> (ILLEGAL, s) | Some val \<Rightarrow> (NEXT, wr_reg rd val s))"

text \<open>\<open>x >> n\<close> for the casts \<open>(intx_t)x\<close> and \<open>(uintx_t)x\<close>.\<close>

definition sra_x :: "nat \<Rightarrow> u64 \<Rightarrow> nat \<Rightarrow> u64" where
  "sra_x xlen x n = signed_drop_bit n (intx xlen x)"

definition srl_x :: "nat \<Rightarrow> u64 \<Rightarrow> nat \<Rightarrow> u64" where
  "srl_x xlen x n = intx xlen (drop_bit n (uintx xlen x))"

definition op_imm :: "nat \<Rightarrow> u32 \<Rightarrow> u32 \<Rightarrow> u64 \<Rightarrow> u64 option" where
  "op_imm xlen funct3 imm a =
     (let xm = of_nat xlen - 1 :: u32; sh = unat (imm AND xm) in
      if funct3 = 0 then Some (intx xlen (a + sx32 imm))
      else if funct3 = 1 then
        (if imm AND NOT xm \<noteq> 0 then None else Some (intx xlen (push_bit sh a)))
      else if funct3 = 2 then Some (c_bool (sint a < sint (sx32 imm)))
      else if funct3 = 3 then Some (c_bool (a < sx32 imm))
      else if funct3 = 4 then Some (a XOR sx32 imm)
      else if funct3 = 5 then
        (if imm AND NOT (xm OR 0x400) \<noteq> 0 then None
         else if c_true (imm AND 0x400) then Some (sra_x xlen a sh)
         else Some (srl_x xlen a sh))
      else if funct3 = 6 then Some (a OR sx32 imm)
      else Some (a AND sx32 imm))"

definition exec_op_imm :: "nat \<Rightarrow> u32 \<Rightarrow> 'd cpu \<Rightarrow> 'd result" where
  "exec_op_imm xlen insn s =
     put_result (rd_of insn) (op_imm xlen (funct3_of insn) (imm_i insn) (reg s (rs1_of insn))) s"

definition op_imm_32 :: "u32 \<Rightarrow> u32 \<Rightarrow> u64 \<Rightarrow> u64 option" where
  "op_imm_32 funct3 imm a =
     (let sh = unat (imm AND 31) in
      if funct3 = 0 then Some (int32 (a + sx32 imm))
      else if funct3 = 1 then
        (if imm AND NOT 31 \<noteq> 0 then None else Some (int32 (push_bit sh a)))
      else if funct3 = 5 then
        (if imm AND NOT (31 OR 0x400) \<noteq> 0 then None
         else if c_true (imm AND 0x400) then Some (sra_x 32 a sh)
         else Some (srl_x 32 a sh))
      else None)"

definition exec_op_imm_32 :: "nat \<Rightarrow> u32 \<Rightarrow> 'd cpu \<Rightarrow> 'd result" where
  "exec_op_imm_32 xlen insn s =
     (if xlen \<ge> 64
      then put_result (rd_of insn) (op_imm_32 (funct3_of insn) (imm_i insn) (reg s (rs1_of insn))) s
      else (ILLEGAL, s))"

section \<open>Register arithmetic\<close>

text \<open>The M extension. In the instance for \<open>XLEN\<close> 32 the helpers take 32-bit arguments.\<close>

definition op_mul :: "nat \<Rightarrow> u32 \<Rightarrow> u64 \<Rightarrow> u64 \<Rightarrow> u64" where
  "op_mul xlen funct3 a b =
     (if funct3 = 0 then intx xlen (intx xlen a * intx xlen b)
      else if xlen = 32 then
        let a32 = ucast a :: u32; b32 = ucast b :: u32
        in sx32 (if funct3 = 1 then mulh32 a32 b32
                 else if funct3 = 2 then mulhsu32 a32 b32
                 else if funct3 = 3 then mulhu32 a32 b32
                 else if funct3 = 4 then div_x a32 b32
                 else if funct3 = 5 then divu_x a32 b32
                 else if funct3 = 6 then rem_x a32 b32
                 else remu_x a32 b32)
      else
        (if funct3 = 1 then mulh64 a b
         else if funct3 = 2 then mulhsu64 a b
         else if funct3 = 3 then mulhu64 a b
         else if funct3 = 4 then div_x a b
         else if funct3 = 5 then divu_x a b
         else if funct3 = 6 then rem_x a b
         else remu_x a b))"

definition op_alu :: "nat \<Rightarrow> u32 \<Rightarrow> u64 \<Rightarrow> u64 \<Rightarrow> u64 option" where
  "op_alu xlen funct3 a b =
     (let sh = unat (b AND (of_nat xlen - 1)) in
      if funct3 = 0 then Some (intx xlen (a + b))
      else if funct3 = 8 then Some (intx xlen (a - b))
      else if funct3 = 1 then Some (intx xlen (push_bit sh a))
      else if funct3 = 2 then Some (c_bool (sint a < sint b))
      else if funct3 = 3 then Some (c_bool (a < b))
      else if funct3 = 4 then Some (a XOR b)
      else if funct3 = 5 then Some (srl_x xlen a sh)
      else if funct3 = 5 OR 8 then Some (sra_x xlen a sh)
      else if funct3 = 6 then Some (a OR b)
      else if funct3 = 7 then Some (a AND b)
      else None)"

text \<open>\<open>((insn >> 12) & 7) | ((insn >> (30 - 3)) & (1 << 3))\<close>\<close>

definition funct3_alu :: "u32 \<Rightarrow> u32" where
  "funct3_alu insn = funct3_of insn OR (drop_bit (30 - 3) insn AND push_bit 3 1)"

definition op_reg :: "nat \<Rightarrow> u32 \<Rightarrow> u64 \<Rightarrow> u64 \<Rightarrow> u64 option" where
  "op_reg xlen insn a b =
     (let imm = drop_bit 25 insn in
      if imm = 1 then Some (op_mul xlen (funct3_of insn) a b)
      else if imm AND NOT 0x20 \<noteq> 0 then None
      else op_alu xlen (funct3_alu insn) a b)"

definition exec_op :: "nat \<Rightarrow> u32 \<Rightarrow> 'd cpu \<Rightarrow> 'd result" where
  "exec_op xlen insn s =
     put_result (rd_of insn) (op_reg xlen insn (reg s (rs1_of insn)) (reg s (rs2_of insn))) s"

definition op_mul_32 :: "u32 \<Rightarrow> u64 \<Rightarrow> u64 \<Rightarrow> u64 option" where
  "op_mul_32 funct3 a b =
     (let a32 = ucast a :: u32; b32 = ucast b :: u32 in
      if funct3 = 0 then Some (sx32 (a32 * b32))
      else if funct3 = 4 then Some (sx32 (div_x a32 b32))
      else if funct3 = 5 then Some (sx32 (divu_x a32 b32))
      else if funct3 = 6 then Some (sx32 (rem_x a32 b32))
      else if funct3 = 7 then Some (sx32 (remu_x a32 b32))
      else None)"

definition op_alu_32 :: "u32 \<Rightarrow> u64 \<Rightarrow> u64 \<Rightarrow> u64 option" where
  "op_alu_32 funct3 a b =
     (let sh = unat (b AND 31) in
      if funct3 = 0 then Some (int32 (a + b))
      else if funct3 = 8 then Some (int32 (a - b))
      else if funct3 = 1 then Some (sx32 (push_bit sh (ucast a)))
      else if funct3 = 5 then Some (srl_x 32 a sh)
      else if funct3 = 5 OR 8 then Some (sra_x 32 a sh)
      else None)"

definition op_reg_32 :: "u32 \<Rightarrow> u64 \<Rightarrow> u64 \<Rightarrow> u64 option" where
  "op_reg_32 insn a b =
     (let imm = drop_bit 25 insn in
      if imm = 1 then op_mul_32 (funct3_of insn) a b
      else if imm AND NOT 0x20 \<noteq> 0 then None
      else op_alu_32 (funct3_alu insn) a b)"

definition exec_op_32 :: "nat \<Rightarrow> u32 \<Rightarrow> 'd cpu \<Rightarrow> 'd result" where
  "exec_op_32 xlen insn s =
     (if xlen \<ge> 64
      then put_result (rd_of insn) (op_reg_32 insn (reg s (rs1_of insn)) (reg s (rs2_of insn))) s
      else (ILLEGAL, s))"

section \<open>Fences\<close>

definition exec_misc_mem :: "u32 \<Rightarrow> 'd cpu \<Rightarrow> 'd result" where
  "exec_misc_mem insn s =
     (let funct3 = funct3_of insn in
      if funct3 = 0 then (if insn AND 0xf00fff80 \<noteq> 0 then (ILLEGAL, s) else (NEXT, s))
      else if funct3 = 1 then (if insn \<noteq> 0x0000100f then (ILLEGAL, s) else (NEXT, s))
      else (ILLEGAL, s))"

end
