(* ===== verification/ExecC.thy ===== *)
theory ExecC
  imports ExecInt
begin

text \<open>
  The compressed instructions of the interpreter switch: the three quadrants (\<open>C_QUADRANT(0)\<close>,
  \<open>(1)\<close>, \<open>(2)\<close> of \<open>riscv_cpu_template.h\<close>) for \<open>XLEN\<close> 32 and 64 with \<open>FLEN\<close> 64. In the
  instance for \<open>XLEN\<close> 32, \<open>c.flw\<close>, \<open>c.fsw\<close> and \<open>c.jal\<close> take the place of \<open>c.ld\<close>, \<open>c.sd\<close> and
  \<open>c.addiw\<close>.
\<close>

definition F32_HIGH :: u64 where "F32_HIGH = push_bit 32 (-1)"
definition F64_HIGH :: u64 where "F64_HIGH = 0"

section \<open>Loads and stores of the quadrants\<close>

text \<open>Integer load, floating-point load (illegal when the unit is off) and store.\<close>

definition c_load :: "'d bus \<Rightarrow> nat \<Rightarrow> nat \<Rightarrow> u64 \<Rightarrow> (u64 \<Rightarrow> u64) \<Rightarrow> 'd cpu \<Rightarrow> 'd result" where
  "c_load E rd k addr ext =
     with_load E k addr (\<lambda>rval s'. (C_NEXT, wr_reg rd (ext rval) s'))"

definition c_fload :: "'d bus \<Rightarrow> nat \<Rightarrow> nat \<Rightarrow> u64 \<Rightarrow> u64 \<Rightarrow> 'd cpu \<Rightarrow> 'd result" where
  "c_fload E rd k addr high s =
     (if fs s = 0 then (ILLEGAL, s)
      else with_load E k addr (\<lambda>rval s'. (C_NEXT, (set_fp_reg rd (rval OR high) s')\<lparr>fs := 3\<rparr>)) s)"

definition c_fstore :: "'d bus \<Rightarrow> nat \<Rightarrow> nat \<Rightarrow> u64 \<Rightarrow> 'd cpu \<Rightarrow> 'd result" where
  "c_fstore E rs k addr s =
     (if fs s = 0 then (ILLEGAL, s)
      else with_store E k addr (fp_reg s rs) (Pair C_NEXT) s)"

section \<open>Quadrant 0\<close>

definition exec_c0 :: "'d bus \<Rightarrow> nat \<Rightarrow> u32 \<Rightarrow> 'd cpu \<Rightarrow> 'd result" where
  "exec_c0 E xlen insn s =
     (let funct3 = c_funct3_of insn;
          rd = c_reg insn 2;
          base = reg s (c_reg insn 7);
          addr_w = intx xlen (base + sx32 (imm_c_w insn));
          addr_d = intx xlen (base + sx32 (imm_c_d insn))
      in if funct3 = 0 then
           (let imm = imm_c_addi4spn insn in
            if imm = 0 then (ILLEGAL, s)
            else (C_NEXT, set_reg rd (intx xlen (reg s 2 + sx32 imm)) s))
         else if funct3 = 1 then c_fload E rd 3 addr_d F64_HIGH s
         else if funct3 = 2 then c_load E rd 2 addr_w int32 s
         else if funct3 = 3 then
           (if xlen \<ge> 64 then c_load E rd 3 addr_d (\<lambda>v. v) s
            else c_fload E rd 2 addr_w F32_HIGH s)
         else if funct3 = 5 then c_fstore E rd 3 addr_d s
         else if funct3 = 6 then with_store E 2 addr_w (reg s rd) (Pair C_NEXT) s
         else if funct3 = 7 then
           (if xlen \<ge> 64 then with_store E 3 addr_d (reg s rd) (Pair C_NEXT) s
            else c_fstore E rd 2 addr_w s)
         else (ILLEGAL, s))"

section \<open>Quadrant 1\<close>

text \<open>\<open>case 4\<close>: shifts, \<open>c.andi\<close> and the register operations.\<close>

definition c_arith :: "nat \<Rightarrow> u32 \<Rightarrow> u64 \<Rightarrow> u64 \<Rightarrow> u64 option" where
  "c_arith xlen funct3 a b =
     (if funct3 = 0 then Some (intx xlen (a - b))
      else if funct3 = 1 then Some (a XOR b)
      else if funct3 = 2 then Some (a OR b)
      else if funct3 = 3 then Some (a AND b)
      else if funct3 = 4 \<and> xlen \<ge> 64 then Some (int32 (a - b))
      else if funct3 = 5 \<and> xlen \<ge> 64 then Some (int32 (a + b))
      else None)"

definition exec_c1_alu :: "nat \<Rightarrow> u32 \<Rightarrow> 'd cpu \<Rightarrow> 'd result" where
  "exec_c1_alu xlen insn s =
     (let funct3 = drop_bit 10 insn AND 3;
          rd = c_reg insn 7
      in if funct3 = 0 \<or> funct3 = 1 then
           (let imm = imm_c_i_raw insn in
            if xlen = 32 \<and> c_true (imm AND 0x20) then (ILLEGAL, s)
            else if funct3 = 0 then (C_NEXT, set_reg rd (srl_x xlen (reg s rd) (unat imm)) s)
            else (C_NEXT, set_reg rd (sra_x xlen (reg s rd) (unat imm)) s))
         else if funct3 = 2 then (C_NEXT, set_reg rd (reg s rd AND sx32 (imm_c_i insn)) s)
         else
           (let rs2 = c_reg insn 2;
                f = (drop_bit 5 insn AND 3) OR (drop_bit (12 - 2) insn AND 4)
            in case c_arith xlen f (reg s rd) (reg s rs2) of
                 None \<Rightarrow> (ILLEGAL, s)
               | Some val \<Rightarrow> (C_NEXT, set_reg rd val s)))"

definition exec_c1 :: "nat \<Rightarrow> u32 \<Rightarrow> u64 \<Rightarrow> 'd cpu \<Rightarrow> 'd result" where
  "exec_c1 xlen insn PC s =
     (let funct3 = c_funct3_of insn;
          rd = rd_of insn
      in if funct3 = 0 then
           (C_NEXT, wr_reg rd (intx xlen (reg s rd + sx32 (imm_c_i insn))) s)
         else if funct3 = 1 then
           (if xlen = 32 then
              let s' = set_reg 1 (PC + 2) s
              in (JUMP, s'\<lparr>pc := intx xlen (PC + sx32 (imm_c_j insn))\<rparr>)
            else (C_NEXT, wr_reg rd (int32 (reg s rd + sx32 (imm_c_i insn))) s))
         else if funct3 = 2 then (C_NEXT, wr_reg rd (sx32 (imm_c_i insn)) s)
         else if funct3 = 3 then
           (if rd = 2 then
              let imm = imm_c_addi16sp insn
              in if imm = 0 then (ILLEGAL, s)
                 else (C_NEXT, set_reg 2 (intx xlen (reg s 2 + sx32 imm)) s)
            else (C_NEXT, wr_reg rd (sx32 (imm_c_lui insn)) s))
         else if funct3 = 4 then exec_c1_alu xlen insn s
         else if funct3 = 5 then (JUMP, s\<lparr>pc := intx xlen (PC + sx32 (imm_c_j insn))\<rparr>)
         else
           let taken = (if funct3 = 6 then reg s (c_reg insn 7) = 0 else reg s (c_reg insn 7) \<noteq> 0)
           in if taken then (JUMP, s\<lparr>pc := intx xlen (PC + sx32 (imm_c_b insn))\<rparr>)
              else (C_NEXT, s))"

section \<open>Quadrant 2\<close>

text \<open>\<open>case 4\<close>: \<open>c.jr\<close>, \<open>c.mv\<close>, \<open>c.ebreak\<close>, \<open>c.jalr\<close> and \<open>c.add\<close>.\<close>

definition exec_c2_jump :: "nat \<Rightarrow> u32 \<Rightarrow> u64 \<Rightarrow> 'd cpu \<Rightarrow> 'd result" where
  "exec_c2_jump xlen insn PC s =
     (let rd = rd_of insn;
          rs2 = unat (c_rs2 insn)
      in if drop_bit 12 insn AND 1 = 0 then
           (if rs2 = 0 then
              (if rd = 0 then (ILLEGAL, s) else (JUMP, s\<lparr>pc := reg s rd AND NOT 1\<rparr>))
            else (C_NEXT, wr_reg rd (reg s rs2) s))
         else
           (if rs2 = 0 then
              (if rd = 0 then (EXC, s\<lparr>pending_exception := CAUSE_BREAKPOINT\<rparr>)
               else
                 let val = PC + 2
                 in (JUMP, set_reg 1 val (s\<lparr>pc := reg s rd AND NOT 1\<rparr>)))
            else (C_NEXT, wr_reg rd (intx xlen (reg s rd + reg s rs2)) s)))"

definition exec_c2 :: "'d bus \<Rightarrow> nat \<Rightarrow> u32 \<Rightarrow> u64 \<Rightarrow> 'd cpu \<Rightarrow> 'd result" where
  "exec_c2 E xlen insn PC s =
     (let funct3 = c_funct3_of insn;
          rd = rd_of insn;
          rs2 = unat (c_rs2 insn);
          sp_rel = (\<lambda>imm. intx xlen (reg s 2 + sx32 imm))
      in if funct3 = 0 then
           (let imm = get_field1 insn 12 5 5 OR c_rs2 insn in
            if xlen = 32 \<and> c_true (imm AND 0x20) then (ILLEGAL, s)
            else (C_NEXT, wr_reg rd (intx xlen (push_bit (unat imm) (reg s rd))) s))
         else if funct3 = 1 then c_fload E rd 3 (sp_rel (imm_c_ldsp insn)) F64_HIGH s
         else if funct3 = 2 then c_load E rd 2 (sp_rel (imm_c_lwsp insn)) int32 s
         else if funct3 = 3 then
           (if xlen \<ge> 64 then c_load E rd 3 (sp_rel (imm_c_ldsp insn)) (\<lambda>v. v) s
            else c_fload E rd 2 (sp_rel (imm_c_lwsp insn)) F32_HIGH s)
         else if funct3 = 4 then exec_c2_jump xlen insn PC s
         else if funct3 = 5 then c_fstore E rs2 3 (sp_rel (imm_c_sdsp insn)) s
         else if funct3 = 6 then
           with_store E 2 (sp_rel (imm_c_swsp insn)) (reg s rs2) (Pair C_NEXT) s
         else
           (if xlen \<ge> 64 then with_store E 3 (sp_rel (imm_c_sdsp insn)) (reg s rs2) (Pair C_NEXT) s
            else c_fstore E rs2 2 (sp_rel (imm_c_swsp insn)) s))"

end
