(* ===== verification/ExecSys.thy ===== *)
theory ExecSys
  imports ExecInt
begin

text \<open>
  The system instructions (opcode \<open>0x73\<close>) and the atomic instructions (opcode \<open>0x2f\<close>, macro
  \<open>OP_A\<close>) of the interpreter switch in \<open>riscv_cpu_template.h\<close>.
\<close>

section \<open>CSR instructions\<close>

text \<open>What follows a successful \<open>csr_write\<close> with the code \<open>err\<close>.\<close>

definition csr_finish :: "nat \<Rightarrow> u64 \<Rightarrow> u64 \<Rightarrow> int \<Rightarrow> 'd cpu \<Rightarrow> 'd result" where
  "csr_finish rd old PC err s =
     (let s' = wr_reg rd old s in
      if err > 0 then
        let s'' = s'\<lparr>pc := PC + 4\<rparr>
        in if err = 2 then (JUMP, s'') else (DONE, s'')
      else (NEXT, s'))"

text \<open>\<open>csrrw\<close> (\<open>f3 = 1\<close>), \<open>csrrs\<close> (\<open>f3 = 2\<close>), \<open>csrrc\<close> (\<open>f3 = 3\<close>) and their immediate forms.\<close>

definition exec_csr :: "nat \<Rightarrow> u32 \<Rightarrow> u64 \<Rightarrow> u64 \<Rightarrow> 'd cpu \<Rightarrow> 'd result" where
  "exec_csr xlen insn PC cnt s =
     (let funct3 = funct3_of insn;
          csr = drop_bit 20 insn;
          rs1 = rs1_of insn;
          rd = rd_of insn;
          val = (if c_true (funct3 AND 4) then of_nat rs1 else reg s rs1);
          f3 = funct3 AND 3;
          s1 = s\<lparr>insn_counter := cnt\<rparr>;
          will_write = (f3 = 1 \<or> rs1 \<noteq> 0)
      in case csr_read s1 csr will_write of
           None \<Rightarrow> (ILLEGAL, s1)
         | Some v \<Rightarrow>
             let old = intx xlen v in
             if will_write then
               let new = (if f3 = 1 then val else if f3 = 2 then old OR val else old AND NOT val);
                   (err, s2) = csr_write s1 csr new
               in if err < 0 then (ILLEGAL, s2) else csr_finish rd old PC err s2
             else csr_finish rd old PC 0 s1)"

section \<open>Privileged instructions\<close>

definition exec_priv :: "u32 \<Rightarrow> u64 \<Rightarrow> 'd cpu \<Rightarrow> 'd result" where
  "exec_priv insn PC s =
     (let imm = drop_bit 20 insn;
          rs1 = rs1_of insn
      in if imm = 0x000 then
           (if insn AND 0x000fff80 \<noteq> 0 then (ILLEGAL, s)
            else (EXC, s\<lparr>pending_exception := CAUSE_USER_ECALL + int (priv s)\<rparr>))
         else if imm = 0x001 then
           (if insn AND 0x000fff80 \<noteq> 0 then (ILLEGAL, s)
            else (EXC, s\<lparr>pending_exception := CAUSE_BREAKPOINT\<rparr>))
         else if imm = 0x102 then
           (if insn AND 0x000fff80 \<noteq> 0 \<or> priv s < PRV_S then (ILLEGAL, s)
            else (DONE, handle_sret (s\<lparr>pc := PC\<rparr>)))
         else if imm = 0x302 then
           (if insn AND 0x000fff80 \<noteq> 0 \<or> priv s < PRV_M then (ILLEGAL, s)
            else (DONE, handle_mret (s\<lparr>pc := PC\<rparr>)))
         else if imm = 0x105 then
           (if insn AND 0x00007f80 \<noteq> 0 \<or> priv s = PRV_U then (ILLEGAL, s)
            else if mip s AND mie s = 0
            then (DONE, s\<lparr>power_down_flag := True, pc := PC + 4\<rparr>)
            else (NEXT, s))
         else if drop_bit 5 imm = 0x09 then
           (if insn AND 0x00007f80 \<noteq> 0 \<or> priv s = PRV_U then (ILLEGAL, s)
            else
              let s' = (if rs1 = 0 then tlb_flush_all s else tlb_flush_vaddr s (reg s rs1))
              in (JUMP, s'\<lparr>pc := PC + 4\<rparr>))
         else (ILLEGAL, s))"

definition exec_system :: "nat \<Rightarrow> u32 \<Rightarrow> u64 \<Rightarrow> u64 \<Rightarrow> 'd cpu \<Rightarrow> 'd result" where
  "exec_system xlen insn PC cnt s =
     (if funct3_of insn AND 3 = 0 then exec_priv insn PC s else exec_csr xlen insn PC cnt s)"

section \<open>Atomics\<close>

text \<open>\<open>(int##size##_t)v\<close> and \<open>(uint##size##_t)v\<close> for \<open>size = 8 * 2 ^ k\<close>.\<close>

definition int_sz :: "nat \<Rightarrow> u64 \<Rightarrow> u64" where
  "int_sz k v = signed_take_bit (8 * 2 ^ k - 1) v"

definition uint_sz :: "nat \<Rightarrow> u64 \<Rightarrow> u64" where
  "uint_sz k v = take_bit (8 * 2 ^ k) v"

text \<open>The nine read-modify-write functions; \<open>val\<close> is the loaded value, \<open>val2\<close> the operand.\<close>

definition amo_fun :: "nat \<Rightarrow> u32 \<Rightarrow> u64 \<Rightarrow> u64 \<Rightarrow> u64 option" where
  "amo_fun k f val val2 =
     (if f = 1 then Some val2
      else if f = 0 then Some (int_sz k (val + val2))
      else if f = 4 then Some (int_sz k (val XOR val2))
      else if f = 0xc then Some (int_sz k (val AND val2))
      else if f = 0x8 then Some (int_sz k (val OR val2))
      else if f = 0x10 then
        Some (if sint (int_sz k val) < sint (int_sz k val2) then int_sz k val else val2)
      else if f = 0x14 then
        Some (if sint (int_sz k val) > sint (int_sz k val2) then int_sz k val else val2)
      else if f = 0x18 then
        Some (if uint_sz k val < uint_sz k val2 then int_sz k val else val2)
      else if f = 0x1c then
        Some (if uint_sz k val > uint_sz k val2 then int_sz k val else val2)
      else None)"

definition is_amo :: "u32 \<Rightarrow> bool" where
  "is_amo f = (f = 1 \<or> f = 0 \<or> f = 4 \<or> f = 0xc \<or> f = 0x8 \<or> f = 0x10 \<or> f = 0x14 \<or> f = 0x18
     \<or> f = 0x1c)"

definition op_a :: "'d bus \<Rightarrow> nat \<Rightarrow> u32 \<Rightarrow> 'd cpu \<Rightarrow> 'd result" where
  "op_a E k insn s =
     (let addr = reg s (rs1_of insn);
          f = drop_bit 27 insn;
          rd = rd_of insn;
          rs2 = rs2_of insn
      in if f = 2 then
           (if rs2 \<noteq> 0 then (ILLEGAL, s)
            else with_load E k addr
              (\<lambda>rval s'. (NEXT, wr_reg rd (int_sz k rval) (s'\<lparr>load_res := addr\<rparr>))) s)
         else if f = 3 then
           (if load_res s = addr then
              with_store E k addr (reg s rs2) (\<lambda>s'. (NEXT, wr_reg rd 0 s')) s
            else (NEXT, wr_reg rd 1 s))
         else if is_amo f then
           with_load E k addr
             (\<lambda>rval s'.
                let val = int_sz k rval; val2 = reg s' rs2 in
                case amo_fun k f val val2 of
                  None \<Rightarrow> (ILLEGAL, s')
                | Some new \<Rightarrow> with_store E k addr new (\<lambda>s''. (NEXT, wr_reg rd val s'')) s') s
         else (ILLEGAL, s))"

definition exec_amo :: "'d bus \<Rightarrow> nat \<Rightarrow> u32 \<Rightarrow> 'd cpu \<Rightarrow> 'd result" where
  "exec_amo E xlen insn s =
     (let funct3 = funct3_of insn in
      if funct3 = 2 then op_a E 2 insn s
      else if funct3 = 3 \<and> xlen \<ge> 64 then op_a E 3 insn s
      else (ILLEGAL, s))"

end
