(* ===== verification/SoftFP.thy ===== *)
theory SoftFP
  imports Prelude
begin

text \<open>
  The software floating point of \<open>softfp.c\<close>, \<open>softfp.h\<close> and \<open>softfp_template.h\<close>. The template is
  instantiated for \<open>F_SIZE\<close> 32, 64 and 128; here it is polymorphic in the word \<open>F_UINT\<close>, with
  \<open>F_SIZE\<close> its length. \<open>MANT_SIZE\<close> and \<open>EXP_SIZE\<close> are functions of \<open>F_SIZE\<close>.

  An exponent local (\<open>int\<close>) is an \<open>int\<close>, its values stay far from the bounds of \<open>int32_t\<close>; a sign
  is \<open>0\<close> or \<open>1\<close> as a \<open>nat\<close>; a rounding mode is its enumeration number. Every function that
  takes \<open>pfflags\<close> takes the flags and returns them after its result. \<open>clz\<close> counts leading zeros.
\<close>

section \<open>Formats, modes, flags and classes\<close>

definition mant_size :: "nat \<Rightarrow> nat" where
  "mant_size F = (if F = 32 then 23 else if F = 64 then 52 else 112)"

definition exp_size :: "nat \<Rightarrow> nat" where
  "exp_size F = (if F = 32 then 8 else if F = 64 then 11 else 15)"

definition exp_mask :: "nat \<Rightarrow> nat" where
  "exp_mask F = 2 ^ exp_size F - 1"

definition imant_size :: "nat \<Rightarrow> nat" where
  "imant_size F = F - 2"

definition rnd_size :: "nat \<Rightarrow> nat" where
  "rnd_size F = imant_size F - mant_size F"

definition mant_mask :: "'a::len word" where
  "mant_mask = push_bit (mant_size LENGTH('a)) 1 - 1"

definition sign_mask :: "'a::len word" where
  "sign_mask = push_bit (LENGTH('a) - 1) 1"

definition qnan_mask :: "'a::len word" where
  "qnan_mask = push_bit (mant_size LENGTH('a) - 1) 1"

definition F_QNAN :: "'a::len word" where
  "F_QNAN = push_bit (mant_size LENGTH('a)) (of_nat (exp_mask LENGTH('a)))
     OR push_bit (mant_size LENGTH('a) - 1) 1"

definition RM_RNE :: nat where "RM_RNE = 0"
definition RM_RTZ :: nat where "RM_RTZ = 1"
definition RM_RDN :: nat where "RM_RDN = 2"
definition RM_RUP :: nat where "RM_RUP = 3"
definition RM_RMM :: nat where "RM_RMM = 4"

lemmas rm_consts [simp] = RM_RNE_def RM_RTZ_def RM_RDN_def RM_RUP_def RM_RMM_def

definition FFLAG_INVALID_OP :: u32 where "FFLAG_INVALID_OP = push_bit 4 1"
definition FFLAG_DIVIDE_ZERO :: u32 where "FFLAG_DIVIDE_ZERO = push_bit 3 1"
definition FFLAG_OVERFLOW :: u32 where "FFLAG_OVERFLOW = push_bit 2 1"
definition FFLAG_UNDERFLOW :: u32 where "FFLAG_UNDERFLOW = push_bit 1 1"
definition FFLAG_INEXACT :: u32 where "FFLAG_INEXACT = push_bit 0 1"

lemmas fflag_consts = FFLAG_INVALID_OP_def FFLAG_DIVIDE_ZERO_def FFLAG_OVERFLOW_def
  FFLAG_UNDERFLOW_def FFLAG_INEXACT_def

definition FCLASS_NINF :: u32 where "FCLASS_NINF = push_bit 0 1"
definition FCLASS_NNORMAL :: u32 where "FCLASS_NNORMAL = push_bit 1 1"
definition FCLASS_NSUBNORMAL :: u32 where "FCLASS_NSUBNORMAL = push_bit 2 1"
definition FCLASS_NZERO :: u32 where "FCLASS_NZERO = push_bit 3 1"
definition FCLASS_PZERO :: u32 where "FCLASS_PZERO = push_bit 4 1"
definition FCLASS_PSUBNORMAL :: u32 where "FCLASS_PSUBNORMAL = push_bit 5 1"
definition FCLASS_PNORMAL :: u32 where "FCLASS_PNORMAL = push_bit 6 1"
definition FCLASS_PINF :: u32 where "FCLASS_PINF = push_bit 7 1"
definition FCLASS_SNAN :: u32 where "FCLASS_SNAN = push_bit 8 1"
definition FCLASS_QNAN :: u32 where "FCLASS_QNAN = push_bit 9 1"

lemmas fclass_consts = FCLASS_NINF_def FCLASS_NNORMAL_def FCLASS_NSUBNORMAL_def FCLASS_NZERO_def
  FCLASS_PZERO_def FCLASS_PSUBNORMAL_def FCLASS_PNORMAL_def FCLASS_PINF_def FCLASS_SNAN_def
  FCLASS_QNAN_def

section \<open>Fields\<close>

text \<open>\<open>clz32\<close>, \<open>clz64\<close>, \<open>clz128\<close>: the number of leading zeros, the whole length for zero.\<close>

fun clz_from :: "'a::len word \<Rightarrow> nat \<Rightarrow> nat" where
  "clz_from a 0 = 0"
| "clz_from a (Suc i) = (if bit a i then 0 else Suc (clz_from a i))"

definition clz :: "'a::len word \<Rightarrow> nat" where
  "clz a = clz_from a LENGTH('a)"

definition sign_of :: "'a::len word \<Rightarrow> nat" where
  "sign_of a = unat (drop_bit (LENGTH('a) - 1) a)"

definition exp_of :: "'a::len word \<Rightarrow> nat" where
  "exp_of a = unat (drop_bit (mant_size LENGTH('a)) a AND of_nat (exp_mask LENGTH('a)))"

definition mant_of :: "'a::len word \<Rightarrow> 'a word" where
  "mant_of a = a AND mant_mask"

definition pack_sf :: "nat \<Rightarrow> int \<Rightarrow> 'a::len word \<Rightarrow> 'a word" where
  "pack_sf a_sign a_exp a_mant =
     push_bit (LENGTH('a) - 1) (of_nat a_sign)
     OR push_bit (mant_size LENGTH('a)) (word_of_int a_exp) OR (a_mant AND mant_mask)"

definition unpack_sf :: "'a::len word \<Rightarrow> nat \<times> nat \<times> 'a word" where
  "unpack_sf a = (sign_of a, exp_of a, mant_of a)"

definition issignan_sf :: "'a::len word \<Rightarrow> bool" where
  "issignan_sf a =
     (let F = LENGTH('a);
          a_exp1 = unat (drop_bit (mant_size F - 1) a AND (push_bit (exp_size F + 1) 1 - 1))
      in a_exp1 = 2 * exp_mask F \<and> mant_of a \<noteq> 0)"

definition isnan_sf :: "'a::len word \<Rightarrow> bool" where
  "isnan_sf a = (exp_of a = exp_mask LENGTH('a) \<and> mant_of a \<noteq> 0)"

section \<open>Rounding\<close>

text \<open>Shift right by \<open>d\<close>, keeping in the lowest bit whether a bit was lost.\<close>

definition rshift_rnd :: "'a::len word \<Rightarrow> nat \<Rightarrow> 'a word" where
  "rshift_rnd a d =
     (if d \<noteq> 0 then
        (if d \<ge> LENGTH('a) then c_bool (a \<noteq> 0)
         else
           let msk = push_bit d 1 - 1
           in drop_bit d a OR c_bool (a AND msk \<noteq> 0))
      else a)"

text \<open>What is added to the mantissa before its low \<open>RND_SIZE\<close> bits are dropped.\<close>

definition rnd_addend :: "nat \<Rightarrow> nat \<Rightarrow> nat \<Rightarrow> nat" where
  "rnd_addend F a_sign rm =
     (if rm = RM_RNE \<or> rm = RM_RMM then 2 ^ (rnd_size F - 1)
      else if rm = RM_RTZ then 0
      else if a_sign \<noteq> rm mod 2 then 2 ^ rnd_size F - 1 else 0)"

definition round_pack_sf :: "nat \<Rightarrow> int \<Rightarrow> 'a::len word \<Rightarrow> nat \<Rightarrow> u32 \<Rightarrow> 'a word \<times> u32" where
  "round_pack_sf a_sign a_exp a_mant rm fl =
     (let F = LENGTH('a);
          addend = of_nat (rnd_addend F a_sign rm) :: 'a word;
          rnd_mask = push_bit (rnd_size F) 1 - 1;
          is_subnormal = (a_exp < 0 \<or> a_mant + addend < push_bit (F - 1) 1);
          m1 = (if a_exp \<le> 0 then rshift_rnd a_mant (nat (1 - a_exp)) else a_mant);
          rnd_bits = m1 AND rnd_mask;
          fl1 = (if a_exp \<le> 0 \<and> is_subnormal \<and> rnd_bits \<noteq> 0 then fl OR FFLAG_UNDERFLOW else fl);
          e1 = (if a_exp \<le> 0 then 1 else a_exp);
          fl2 = (if rnd_bits \<noteq> 0 then fl1 OR FFLAG_INEXACT else fl1);
          m2 = drop_bit (rnd_size F) (m1 + addend);
          m3 = (if rm = RM_RNE \<and> rnd_bits = push_bit (rnd_size F - 1) 1 then m2 AND NOT 1 else m2);
          e2 = e1 + uint (drop_bit (mant_size F + 1) m3)
      in if m3 \<le> mant_mask then (pack_sf a_sign 0 m3, fl2)
         else if e2 \<ge> int (exp_mask F) then
           (if addend = 0 then pack_sf a_sign (int (exp_mask F) - 1) mant_mask
            else pack_sf a_sign (int (exp_mask F)) 0,
            fl2 OR (FFLAG_OVERFLOW OR FFLAG_INEXACT))
         else (pack_sf a_sign e2 m3, fl2))"

definition normalize_sf :: "nat \<Rightarrow> int \<Rightarrow> 'a::len word \<Rightarrow> nat \<Rightarrow> u32 \<Rightarrow> 'a word \<times> u32" where
  "normalize_sf a_sign a_exp a_mant rm fl =
     (let F = LENGTH('a);
          shift = clz a_mant - (F - 1 - imant_size F)
      in round_pack_sf a_sign (a_exp - int shift) (push_bit shift a_mant) rm fl)"

definition normalize2_sf ::
  "nat \<Rightarrow> int \<Rightarrow> 'a::len word \<Rightarrow> 'a word \<Rightarrow> nat \<Rightarrow> u32 \<Rightarrow> 'a word \<times> u32" where
  "normalize2_sf a_sign a_exp a_mant1 a_mant0 rm fl =
     (let F = LENGTH('a);
          l = (if a_mant1 = 0 then F + clz a_mant0 else clz a_mant1);
          shift = l - (F - 1 - imant_size F);
          m = (if shift = 0 then a_mant1 OR c_bool (a_mant0 \<noteq> 0)
               else if shift < F then
                 push_bit shift a_mant1 OR drop_bit (F - shift) a_mant0
                 OR c_bool (push_bit shift a_mant0 \<noteq> 0)
               else push_bit (shift - F) a_mant0)
      in round_pack_sf a_sign (a_exp - int shift) m rm fl)"

text \<open>The exponent and the mantissa of a subnormal number, normalised.\<close>

definition normalize_subnormal_sf :: "'a::len word \<Rightarrow> int \<times> 'a word" where
  "normalize_subnormal_sf a_mant =
     (let F = LENGTH('a);
          shift = mant_size F - (F - 1 - clz a_mant)
      in (1 - int shift, push_bit shift a_mant))"

section \<open>Addition\<close>

text \<open>The sign of an exact zero difference.\<close>

definition zero_sign :: "nat \<Rightarrow> nat" where
  "zero_sign rm = (if rm = RM_RDN then 1 else 0)"

definition add_sf :: "'a::len word \<Rightarrow> 'a word \<Rightarrow> nat \<Rightarrow> u32 \<Rightarrow> 'a word \<times> u32" where
  "add_sf a0 b0 rm fl =
     (let F = LENGTH('a);
          M = mant_size F;
          (a, b) = (if a0 AND NOT sign_mask < b0 AND NOT sign_mask then (b0, a0) else (a0, b0));
          a_mant0 = push_bit 3 (mant_of a);
          b_mant0 = push_bit 3 (mant_of b)
      in if exp_of a = exp_mask F then
           (if a_mant0 \<noteq> 0 then
              (F_QNAN,
               if a_mant0 AND push_bit 3 qnan_mask = 0 \<or> issignan_sf b
               then fl OR FFLAG_INVALID_OP else fl)
            else if exp_of b = exp_mask F \<and> sign_of a \<noteq> sign_of b
            then (F_QNAN, fl OR FFLAG_INVALID_OP)
            else (a, fl))
         else
           let a_exp = (if exp_of a = 0 then 1 else exp_of a);
               a_mant = (if exp_of a = 0 then a_mant0 else a_mant0 OR push_bit (M + 3) 1);
               b_exp = (if exp_of b = 0 then 1 else exp_of b);
               b_mant1 = (if exp_of b = 0 then b_mant0 else b_mant0 OR push_bit (M + 3) 1);
               b_mant = rshift_rnd b_mant1 (a_exp - b_exp);
               r_mant = (if sign_of a = sign_of b then a_mant + b_mant else a_mant - b_mant);
               r_sign = (if sign_of a \<noteq> sign_of b \<and> r_mant = 0 then zero_sign rm else sign_of a)
           in normalize_sf r_sign (int a_exp + (int (rnd_size F) - 3)) r_mant rm fl)"

definition sub_sf :: "'a::len word \<Rightarrow> 'a word \<Rightarrow> nat \<Rightarrow> u32 \<Rightarrow> 'a word \<times> u32" where
  "sub_sf a b rm fl = add_sf a (b XOR sign_mask) rm fl"

section \<open>Multiplication\<close>

text \<open>\<open>mul_u\<close> with \<open>F_ULONG\<close>: the low and the high word of the product.\<close>

definition mul_u :: "'a::len word \<Rightarrow> 'a word \<Rightarrow> 'a word \<times> 'a word" where
  "mul_u a b =
     (let r = unat a * unat b
      in (of_nat r, of_nat (r div 2 ^ LENGTH('a))))"

text \<open>\<open>mul_u\<close> with half words (\<open>F_UHALF\<close>), for a size without a double-width type.\<close>

definition mul_u_half :: "'a::len word \<Rightarrow> 'a word \<Rightarrow> 'a word \<times> 'a word" where
  "mul_u_half a b =
     (let h = LENGTH('a) div 2;
          a0 = take_bit h a; a1 = take_bit h (drop_bit h a);
          b0 = take_bit h b; b1 = take_bit h (drop_bit h b);
          r00 = a0 * b0; r01 = a0 * b1; r10 = a1 * b0; r11 = a1 * b1;
          r0 = take_bit h r00;
          c = drop_bit h r00 + take_bit h r01 + take_bit h r10;
          r1 = take_bit h c;
          c' = drop_bit h c + drop_bit h r01 + drop_bit h r10 + take_bit h r11;
          r2 = take_bit h c';
          r3 = take_bit h (drop_bit h c' + drop_bit h r11)
      in (push_bit h r1 OR r0, push_bit h r3 OR r2))"

text \<open>The significand of a finite nonzero operand: the exponent and the mantissa with its leading
  bit; the caller has excluded zero.\<close>

definition norm_operand :: "'a::len word \<Rightarrow> int \<times> 'a word" where
  "norm_operand a =
     (if exp_of a = 0 then normalize_subnormal_sf (mant_of a)
      else (int (exp_of a), mant_of a OR push_bit (mant_size LENGTH('a)) 1))"

definition iszero_sf :: "'a::len word \<Rightarrow> bool" where
  "iszero_sf a = (exp_of a = 0 \<and> mant_of a = 0)"

definition nan_flags :: "bool \<Rightarrow> u32 \<Rightarrow> u32" where
  "nan_flags signaling fl = (if signaling then fl OR FFLAG_INVALID_OP else fl)"

definition mul_sf :: "'a::len word \<Rightarrow> 'a word \<Rightarrow> nat \<Rightarrow> u32 \<Rightarrow> 'a word \<times> u32" where
  "mul_sf a b rm fl =
     (let F = LENGTH('a);
          r_sign = (if sign_of a = sign_of b then 0 else 1)
      in if exp_of a = exp_mask F \<or> exp_of b = exp_mask F then
           (if isnan_sf a \<or> isnan_sf b then
              (F_QNAN, nan_flags (issignan_sf a \<or> issignan_sf b) fl)
            else if (exp_of a = exp_mask F \<and> iszero_sf b) \<or> (exp_of b = exp_mask F \<and> iszero_sf a)
            then (F_QNAN, fl OR FFLAG_INVALID_OP)
            else (pack_sf r_sign (int (exp_mask F)) 0, fl))
         else if iszero_sf a \<or> iszero_sf b then (pack_sf r_sign 0 0, fl)
         else
           let (a_exp, a_mant) = norm_operand a;
               (b_exp, b_mant) = norm_operand b;
               r_exp = a_exp + b_exp - 2 ^ (exp_size F - 1) + 2;
               (low, high) = mul_u (push_bit (rnd_size F) a_mant) (push_bit (rnd_size F + 1) b_mant);
               r_mant = high OR c_bool (low \<noteq> 0)
           in normalize_sf r_sign r_exp r_mant rm fl)"

section \<open>Fused multiply and add\<close>

text \<open>The right shift of the smaller operand, as a double word \<open>(high, low)\<close>.\<close>

definition fma_shift :: "int \<Rightarrow> 'a::len word \<Rightarrow> 'a word \<Rightarrow> 'a word \<times> 'a word" where
  "fma_shift shift c1 c0 =
     (let F = LENGTH('a) in
      if shift \<ge> 2 * int F then (0, c_bool (c0 OR c1 \<noteq> 0))
      else if shift \<ge> int F + 1 then (0, rshift_rnd c1 (nat (shift - int F)))
      else if shift = int F then (0, c1 OR c_bool (c0 \<noteq> 0))
      else if shift \<noteq> 0 then
        let n = nat shift;
            msk = push_bit n 1 - 1
        in (drop_bit n c1,
            push_bit (F - n) c1 OR drop_bit n c0 OR c_bool (c0 AND msk \<noteq> 0))
      else (c1, c0))"

text \<open>The addition of the product \<open>(r_sign, r_exp, r1, r0)\<close> and the addend.\<close>

definition fma_add ::
  "nat \<Rightarrow> int \<Rightarrow> 'a::len word \<Rightarrow> 'a word \<Rightarrow> nat \<Rightarrow> int \<Rightarrow> 'a word \<Rightarrow> 'a word \<Rightarrow> nat \<Rightarrow> u32 \<Rightarrow> 'a word \<times> u32" where
  "fma_add rs re r1 r0 cs ce c1 c0 rm fl =
     (let keep = (re > ce \<or> (re = ce \<and> r1 \<ge> c1));
          (r_sign, r_exp, r_mant1, r_mant0) = (if keep then (rs, re, r1, r0) else (cs, ce, c1, c0));
          (c_sign, c_exp, c_m1, c_m0) = (if keep then (cs, ce, c1, c0) else (rs, re, r1, r0));
          (c_mant1, c_mant0) = fma_shift (r_exp - c_exp) c_m1 c_m0
      in if r_sign = c_sign then
           let s0 = r_mant0 + c_mant0;
               s1 = r_mant1 + (c_mant1 + c_bool (s0 < c_mant0))
           in normalize2_sf r_sign r_exp s1 s0 rm fl
         else
           let s0 = r_mant0 - c_mant0;
               s1 = r_mant1 - c_mant1 - c_bool (s0 > r_mant0);
               sgn' = (if s0 OR s1 = 0 then zero_sign rm else r_sign)
           in normalize2_sf sgn' r_exp s1 s0 rm fl)"

definition fma_sf :: "'a::len word \<Rightarrow> 'a word \<Rightarrow> 'a word \<Rightarrow> nat \<Rightarrow> u32 \<Rightarrow> 'a word \<times> u32" where
  "fma_sf a b c rm fl =
     (let F = LENGTH('a);
          E = exp_mask F;
          r_sign = (if sign_of a = sign_of b then 0 else 1)
      in if exp_of a = E \<or> exp_of b = E \<or> exp_of c = E then
           (if isnan_sf a \<or> isnan_sf b \<or> isnan_sf c then
              (F_QNAN, nan_flags (issignan_sf a \<or> issignan_sf b \<or> issignan_sf c) fl)
            else if (exp_of a = E \<and> iszero_sf b) \<or> (exp_of b = E \<and> iszero_sf a)
                 \<or> ((exp_of a = E \<or> exp_of b = E) \<and> exp_of c = E \<and> r_sign \<noteq> sign_of c)
            then (F_QNAN, fl OR FFLAG_INVALID_OP)
            else if exp_of c = E then (pack_sf (sign_of c) (int E) 0, fl)
            else (pack_sf r_sign (int E) 0, fl))
         else if iszero_sf a \<or> iszero_sf b then
           (if iszero_sf c then
              (pack_sf (if sign_of c \<noteq> r_sign then zero_sign rm else r_sign) 0 0, fl)
            else (c, fl))
         else
           let (a_exp, a_mant) = norm_operand a;
               (b_exp, b_mant) = norm_operand b;
               e0 = a_exp + b_exp - 2 ^ (exp_size F - 1) + 3;
               (l0, h0) = mul_u (push_bit (rnd_size F) a_mant) (push_bit (rnd_size F) b_mant);
               (r_exp, r_mant1, r_mant0) =
                 (if h0 < push_bit (F - 3) 1
                  then (e0 - 1, push_bit 1 h0 OR drop_bit (F - 1) l0, push_bit 1 l0)
                  else (e0, h0, l0))
           in if iszero_sf c then
                normalize_sf r_sign r_exp (r_mant1 OR c_bool (r_mant0 \<noteq> 0)) rm fl
              else
                let (c_exp, c_mant) = norm_operand c
                in fma_add r_sign r_exp r_mant1 r_mant0
                     (sign_of c) (c_exp + 1) (push_bit (rnd_size F - 1) c_mant) 0 rm fl)"

section \<open>Division\<close>

text \<open>\<open>divrem_u\<close> with \<open>F_ULONG\<close>: remainder and quotient of the double word \<open>ah, al\<close> by \<open>b\<close>.\<close>

definition divrem_u :: "'a::len word \<Rightarrow> 'a word \<Rightarrow> 'a word \<Rightarrow> 'a word \<times> 'a word" where
  "divrem_u ah al b =
     (let a = unat ah * 2 ^ LENGTH('a) + unat al
      in (of_nat (a mod unat b), of_nat (a div unat b)))"

text \<open>\<open>divrem_u\<close> by long division, one quotient bit per round; the last argument is the number of
  rounds left.\<close>

fun divrem_loop :: "'a::len word \<Rightarrow> 'a word \<Rightarrow> 'a word \<Rightarrow> nat \<Rightarrow> 'a word \<times> 'a word" where
  "divrem_loop a1 a0 b 0 = (a1, a0)"
| "divrem_loop a1 a0 b (Suc n) =
     (let ab = drop_bit (LENGTH('a) - 1) a1;
          a1' = push_bit 1 a1 OR drop_bit (LENGTH('a) - 1) a0;
          qb = (c_true ab \<or> a1' \<ge> b)
      in divrem_loop (if qb then a1' - b else a1') (push_bit 1 a0 OR c_bool qb) b n)"

definition divrem_u_long :: "'a::len word \<Rightarrow> 'a word \<Rightarrow> 'a word \<Rightarrow> 'a word \<times> 'a word" where
  "divrem_u_long a1 a0 b = divrem_loop a1 a0 b LENGTH('a)"

definition div_sf :: "'a::len word \<Rightarrow> 'a word \<Rightarrow> nat \<Rightarrow> u32 \<Rightarrow> 'a word \<times> u32" where
  "div_sf a b rm fl =
     (let F = LENGTH('a);
          E = exp_mask F;
          r_sign = (if sign_of a = sign_of b then 0 else 1)
      in if exp_of a = E then
           (if mant_of a \<noteq> 0 \<or> isnan_sf b then
              (F_QNAN, nan_flags (issignan_sf a \<or> issignan_sf b) fl)
            else if exp_of b = E then (F_QNAN, fl OR FFLAG_INVALID_OP)
            else (pack_sf r_sign (int E) 0, fl))
         else if exp_of b = E then
           (if mant_of b \<noteq> 0 then
              (F_QNAN, nan_flags (issignan_sf a \<or> issignan_sf b) fl)
            else (pack_sf r_sign 0 0, fl))
         else if iszero_sf b then
           (if iszero_sf a then (F_QNAN, fl OR FFLAG_INVALID_OP)
            else (pack_sf r_sign (int E) 0, fl OR FFLAG_DIVIDE_ZERO))
         else if iszero_sf a then (pack_sf r_sign 0 0, fl)
         else
           let (b_exp, b_mant) = norm_operand b;
               (a_exp, a_mant) = norm_operand a;
               r_exp = a_exp - b_exp + 2 ^ (exp_size F - 1) - 1;
               (r, q) = divrem_u a_mant 0 (push_bit 2 b_mant);
               r_mant = (if r \<noteq> 0 then q OR 1 else q)
           in normalize_sf r_sign r_exp r_mant rm fl)"

section \<open>Square root\<close>

text \<open>The Newton iteration of \<open>sqrtrem_u\<close>, in the arithmetic of \<open>F_ULONG\<close> (\<open>w\<close> bits).\<close>

function sqrt_loop :: "nat \<Rightarrow> nat \<Rightarrow> nat \<Rightarrow> nat" where
  "sqrt_loop w a s =
     (let u = ((a div s + s) mod 2 ^ w) div 2
      in if u \<ge> s then s else sqrt_loop w a u)"
  by pat_completeness auto
termination by (relation "measure (\<lambda>(w, a, s). s)") auto

definition sqrtrem_u :: "'a::len word \<Rightarrow> 'a word \<Rightarrow> 'a word \<times> bool" where
  "sqrtrem_u ah al =
     (let F = LENGTH('a) in
      if ah = 0 \<and> al = 0 then (0, False)
      else
        let l = (if ah \<noteq> 0 then 2 * F - clz (ah - 1) else F - clz (al - 1));
            a = unat ah * 2 ^ F + unat al;
            r = sqrt_loop (2 * F) a (2 ^ ((l + 1) div 2))
        in (of_nat r, a \<noteq> r * r))"

definition sqrt_sf :: "'a::len word \<Rightarrow> nat \<Rightarrow> u32 \<Rightarrow> 'a word \<times> u32" where
  "sqrt_sf a rm fl =
     (let F = LENGTH('a);
          E = exp_mask F
      in if exp_of a = E then
           (if mant_of a \<noteq> 0 then (F_QNAN, nan_flags (issignan_sf a) fl)
            else if sign_of a \<noteq> 0 then (F_QNAN, fl OR FFLAG_INVALID_OP)
            else (a, fl))
         else if sign_of a \<noteq> 0 then
           (if iszero_sf a then (a, fl) else (F_QNAN, fl OR FFLAG_INVALID_OP))
         else if iszero_sf a then (pack_sf 0 0 0, fl)
         else
           let (e0, m0) = norm_operand a;
               e1 = e0 - int (E div 2);
               (e2, m1) = (if odd e1 then (e1 - 1, push_bit 1 m0) else (e1, m0));
               a_exp = e2 div 2 + int (E div 2);
               m2 = push_bit (F - 4 - mant_size F) m1;
               (r, inexact) = sqrtrem_u m2 0;
               r_mant = (if inexact then r OR 1 else r)
           in normalize_sf (sign_of a) a_exp r_mant rm fl)"

section \<open>Comparisons and classification\<close>

text \<open>The result of \<open>min_sf\<close> or \<open>max_sf\<close> when an operand is a NaN.\<close>

definition minmax_nan :: "'a::len word \<Rightarrow> 'a word \<Rightarrow> u32 \<Rightarrow> 'a word \<times> u32" where
  "minmax_nan a b fl =
     (if issignan_sf a \<or> issignan_sf b then (F_QNAN, fl OR FFLAG_INVALID_OP)
      else if isnan_sf a then (if isnan_sf b then (F_QNAN, fl) else (b, fl))
      else (a, fl))"

definition min_sf :: "'a::len word \<Rightarrow> 'a word \<Rightarrow> u32 \<Rightarrow> 'a word \<times> u32" where
  "min_sf a b fl =
     (if isnan_sf a \<or> isnan_sf b then minmax_nan a b fl
      else if sign_of a \<noteq> sign_of b then (if sign_of a \<noteq> 0 then (a, fl) else (b, fl))
      else if (a < b) \<noteq> (sign_of a \<noteq> 0) then (a, fl) else (b, fl))"

definition max_sf :: "'a::len word \<Rightarrow> 'a word \<Rightarrow> u32 \<Rightarrow> 'a word \<times> u32" where
  "max_sf a b fl =
     (if isnan_sf a \<or> isnan_sf b then minmax_nan a b fl
      else if sign_of a \<noteq> sign_of b then (if sign_of a \<noteq> 0 then (b, fl) else (a, fl))
      else if (a < b) \<noteq> (sign_of a \<noteq> 0) then (b, fl) else (a, fl))"

definition eq_quiet_sf :: "'a::len word \<Rightarrow> 'a word \<Rightarrow> u32 \<Rightarrow> bool \<times> u32" where
  "eq_quiet_sf a b fl =
     (if isnan_sf a \<or> isnan_sf b then (False, nan_flags (issignan_sf a \<or> issignan_sf b) fl)
      else if push_bit 1 (a OR b) = 0 then (True, fl)
      else (a = b, fl))"

definition le_sf :: "'a::len word \<Rightarrow> 'a word \<Rightarrow> u32 \<Rightarrow> bool \<times> u32" where
  "le_sf a b fl =
     (if isnan_sf a \<or> isnan_sf b then (False, fl OR FFLAG_INVALID_OP)
      else if sign_of a \<noteq> sign_of b then (sign_of a \<noteq> 0 \<or> push_bit 1 (a OR b) = 0, fl)
      else if sign_of a \<noteq> 0 then (a \<ge> b, fl)
      else (a \<le> b, fl))"

definition lt_sf :: "'a::len word \<Rightarrow> 'a word \<Rightarrow> u32 \<Rightarrow> bool \<times> u32" where
  "lt_sf a b fl =
     (if isnan_sf a \<or> isnan_sf b then (False, fl OR FFLAG_INVALID_OP)
      else if sign_of a \<noteq> sign_of b then (sign_of a \<noteq> 0 \<and> push_bit 1 (a OR b) \<noteq> 0, fl)
      else if sign_of a \<noteq> 0 then (a > b, fl)
      else (a < b, fl))"

definition fclass_sf :: "'a::len word \<Rightarrow> u32" where
  "fclass_sf a =
     (let neg = (sign_of a \<noteq> 0) in
      if exp_of a = exp_mask LENGTH('a) then
        (if mant_of a \<noteq> 0 then (if mant_of a AND qnan_mask \<noteq> 0 then FCLASS_QNAN else FCLASS_SNAN)
         else if neg then FCLASS_NINF else FCLASS_PINF)
      else if exp_of a = 0 then
        (if mant_of a = 0 then (if neg then FCLASS_NZERO else FCLASS_PZERO)
         else if neg then FCLASS_NSUBNORMAL else FCLASS_PSUBNORMAL)
      else if neg then FCLASS_NNORMAL else FCLASS_PNORMAL)"

section \<open>Conversions between formats\<close>

text \<open>\<open>cvt_sf32_sf64\<close> and the other conversions to a wider format, \<open>'b\<close> the wider one. The
  source's code for \<open>cvt_sf32_sfN\<close> and \<open>cvt_sf64_sfN\<close> is the same.\<close>

definition cvt_widen :: "'a::len word \<Rightarrow> u32 \<Rightarrow> 'b::len word \<times> u32" where
  "cvt_widen a fl =
     (let F = LENGTH('a); G = LENGTH('b) in
      if exp_of a = exp_mask F then
        (if mant_of a \<noteq> 0 then (F_QNAN, nan_flags (issignan_sf a) fl)
         else (pack_sf (sign_of a) (int (exp_mask G)) 0, fl))
      else if iszero_sf a then (pack_sf (sign_of a) 0 0, fl)
      else
        let (a_exp, a_mant) = (if exp_of a = 0 then normalize_subnormal_sf (mant_of a)
                               else (int (exp_of a), mant_of a))
        in (pack_sf (sign_of a) (a_exp - int (exp_mask F div 2) + int (exp_mask G div 2))
              (push_bit (mant_size G - mant_size F) (ucast a_mant)), fl))"

text \<open>\<open>cvt_sf64_sf32\<close> and the other conversions to a narrower format \<open>'b\<close>. The normalised mantissa
  of a subnormal operand is computed and dropped, as in the source.\<close>

definition cvt_narrow :: "'a::len word \<Rightarrow> nat \<Rightarrow> u32 \<Rightarrow> 'b::len word \<times> u32" where
  "cvt_narrow a rm fl =
     (let F = LENGTH('a); G = LENGTH('b) in
      if exp_of a = exp_mask F then
        (if mant_of a \<noteq> 0 then (F_QNAN, nan_flags (issignan_sf a) fl)
         else (pack_sf (sign_of a) (int (exp_mask G)) 0, fl))
      else if iszero_sf a then (pack_sf (sign_of a) 0 0, fl)
      else
        let (a_exp, a_mant) =
              (if exp_of a = 0 then (fst (normalize_subnormal_sf (mant_of a)), mant_of a)
               else (int (exp_of a), mant_of a OR push_bit (mant_size F) 1));
            e = a_exp - int (exp_mask F div 2) + int (exp_mask G div 2);
            m = rshift_rnd a_mant (mant_size F - (G - 2))
        in normalize_sf (sign_of a) e (ucast m) rm fl)"

section \<open>Conversions between floats and integers\<close>

text \<open>\<open>internal_cvt_sfN_iM\<close> of \<open>softfp_template_icvt.h\<close>; \<open>'b\<close> is \<open>ICVT_UINT\<close>.\<close>

definition icvt_max :: "nat \<Rightarrow> bool \<Rightarrow> 'b::len word" where
  "icvt_max a_sign is_unsigned =
     (if is_unsigned then of_nat a_sign - 1
      else push_bit (LENGTH('b) - 1) 1 - of_nat (1 - a_sign))"

definition internal_cvt_sf_i :: "'a::len word \<Rightarrow> nat \<Rightarrow> u32 \<Rightarrow> bool \<Rightarrow> 'b::len word \<times> u32" where
  "internal_cvt_sf_i a rm fl is_unsigned =
     (let F = LENGTH('a);
          I = LENGTH('b);
          a_sign = (if isnan_sf a then 0 else sign_of a);
          e0 = (if exp_of a = 0 then 1 else exp_of a);
          m0 = (if exp_of a = 0 then mant_of a else mant_of a OR push_bit (mant_size F) 1);
          a_mant = push_bit (rnd_size F) m0;
          a_exp = int e0 - int (exp_mask F div 2) - int (mant_size F);
          r_max = icvt_max a_sign is_unsigned;
          overflow = (r_max, fl OR FFLAG_INVALID_OP);
          neg = (\<lambda>r. if a_sign \<noteq> 0 then - r else r)
      in if a_exp \<ge> 0 then
           (if a_exp \<le> int I - 1 - int (mant_size F) then
              let r = push_bit (nat a_exp) (ucast (drop_bit (rnd_size F) a_mant))
              in if r > r_max then overflow else (neg r, fl)
            else overflow)
         else
           let m1 = rshift_rnd a_mant (nat (- a_exp));
               addend = of_nat (rnd_addend F a_sign rm);
               rnd_bits = m1 AND (push_bit (rnd_size F) 1 - 1);
               m2 = drop_bit (rnd_size F) (m1 + addend);
               m3 = (if rm = RM_RNE \<and> rnd_bits = push_bit (rnd_size F - 1) 1 then m2 AND NOT 1 else m2)
           in if unat m3 > unat r_max then overflow
              else (neg (ucast m3), if rnd_bits \<noteq> 0 then fl OR FFLAG_INEXACT else fl))"

definition cvt_sf_i :: "'a::len word \<Rightarrow> nat \<Rightarrow> u32 \<Rightarrow> 'b::len word \<times> u32" where
  "cvt_sf_i a rm fl = internal_cvt_sf_i a rm fl False"

definition cvt_sf_u :: "'a::len word \<Rightarrow> nat \<Rightarrow> u32 \<Rightarrow> 'b::len word \<times> u32" where
  "cvt_sf_u a rm fl = internal_cvt_sf_i a rm fl True"

text \<open>\<open>internal_cvt_iM_sfN\<close>; \<open>'b\<close> is \<open>ICVT_UINT\<close>.\<close>

definition internal_cvt_i_sf :: "'b::len word \<Rightarrow> nat \<Rightarrow> u32 \<Rightarrow> bool \<Rightarrow> 'a::len word \<times> u32" where
  "internal_cvt_i_sf a rm fl is_unsigned =
     (let F = LENGTH('a);
          I = LENGTH('b);
          neg = (\<not> is_unsigned \<and> sint a < 0);
          r = (if neg then - a else a);
          e0 = int (exp_mask F div 2) + int F - 2;
          l = int I - int (clz r) - (int F - 1);
          (r', a_exp) =
            (if l > 0 then
               (drop_bit (nat l) r OR c_bool (r AND (push_bit (nat l) 1 - 1) \<noteq> 0), e0 + l)
             else (r, e0))
      in normalize_sf (if neg then 1 else 0) a_exp (ucast r') rm fl)"

definition cvt_i_sf :: "'b::len word \<Rightarrow> nat \<Rightarrow> u32 \<Rightarrow> 'a::len word \<times> u32" where
  "cvt_i_sf a rm fl = internal_cvt_i_sf a rm fl False"

definition cvt_u_sf :: "'b::len word \<Rightarrow> nat \<Rightarrow> u32 \<Rightarrow> 'a::len word \<times> u32" where
  "cvt_u_sf a rm fl = internal_cvt_i_sf a rm fl True"

end
