(* ===== verification/ExecFp.thy ===== *)
theory ExecFp
  imports ExecC SoftFP
begin

text \<open>
  The floating-point instructions of the interpreter switch: loads and stores, the fused
  multiply-adds, and \<open>riscv_cpu_fp_template.h\<close> for \<open>F_SIZE\<close> 32 and 64. The result of an operation
  on a narrower format is boxed: its upper half is set by \<open>F_HIGH\<close>. \<open>FSIGN_MASK32\<close> is the
  \<open>int\<close> value \<open>1 << 31\<close>, so it becomes sign-extended where it meets a 64-bit register.
\<close>

definition FSIGN_MASK32 :: u32 where "FSIGN_MASK32 = push_bit 31 1"
definition FSIGN_MASK64 :: u64 where "FSIGN_MASK64 = push_bit 63 1"

section \<open>Loads and stores\<close>

definition exec_fp_load :: "'d bus \<Rightarrow> u32 \<Rightarrow> 'd cpu \<Rightarrow> 'd result" where
  "exec_fp_load E insn s =
     (let funct3 = funct3_of insn;
          rd = rd_of insn;
          addr = reg s (rs1_of insn) + sx32 (imm_i insn);
          put = (\<lambda>high rval s'. (NEXT, (set_fp_reg rd (rval OR high) s')\<lparr>fs := 3\<rparr>))
      in if fs s = 0 then (ILLEGAL, s)
         else if funct3 = 2 then with_load E 2 addr (put F32_HIGH) s
         else if funct3 = 3 then with_load E 3 addr (put F64_HIGH) s
         else (ILLEGAL, s))"

definition exec_fp_store :: "'d bus \<Rightarrow> u32 \<Rightarrow> 'd cpu \<Rightarrow> 'd result" where
  "exec_fp_store E insn s =
     (let funct3 = funct3_of insn;
          addr = reg s (rs1_of insn) + sx32 (imm_s insn)
      in if fs s = 0 then (ILLEGAL, s)
         else if funct3 = 2 then with_store E 2 addr (fp_reg s (rs2_of insn)) (Pair NEXT) s
         else if funct3 = 3 then with_store E 3 addr (fp_reg s (rs2_of insn)) (Pair NEXT) s
         else (ILLEGAL, s))"

section \<open>Results\<close>

text \<open>\<open>s->fp_reg[rd] = f(..., &s->fflags) | F_HIGH; s->fs = 3;\<close> for a result of 32 or 64 bits.\<close>

definition put_f32 :: "nat \<Rightarrow> u32 \<times> u32 \<Rightarrow> 'd cpu \<Rightarrow> 'd result" where
  "put_f32 rd r s =
     (NEXT, (set_fp_reg rd (ucast (fst r) OR F32_HIGH) s)\<lparr>fflags := snd r, fs := 3\<rparr>)"

definition put_f64 :: "nat \<Rightarrow> u64 \<times> u32 \<Rightarrow> 'd cpu \<Rightarrow> 'd result" where
  "put_f64 rd r s =
     (NEXT, (set_fp_reg rd (fst r OR F64_HIGH) s)\<lparr>fflags := snd r, fs := 3\<rparr>)"

text \<open>An integer result: \<open>if (rd != 0) s->reg[rd] = val;\<close>\<close>

definition put_int :: "nat \<Rightarrow> u64 \<times> u32 \<Rightarrow> 'd cpu \<Rightarrow> 'd result" where
  "put_int rd r s = (NEXT, wr_reg rd (fst r) (s\<lparr>fflags := snd r\<rparr>))"

section \<open>Fused multiply-add\<close>

text \<open>\<open>fmadd\<close>, \<open>fmsub\<close>, \<open>fnmsub\<close>, \<open>fnmadd\<close>: \<open>neg_a\<close> and \<open>neg_c\<close> tell whether the sign of the
  first operand and of the addend is flipped.\<close>

definition exec_fma :: "bool \<Rightarrow> bool \<Rightarrow> u32 \<Rightarrow> 'd cpu \<Rightarrow> 'd result" where
  "exec_fma neg_a neg_c insn s =
     (let fmt = drop_bit 25 insn AND 3;
          a = fp_reg s (rs1_of insn); b = fp_reg s (rs2_of insn); c = fp_reg s (rs3_of insn);
          rd = rd_of insn
      in if fs s = 0 then (ILLEGAL, s)
         else case get_insn_rm s (unat (funct3_of insn)) of
           None \<Rightarrow> (ILLEGAL, s)
         | Some rm \<Rightarrow>
             if fmt = 0 then
               put_f32 rd
                 (fma_sf (ucast a XOR (if neg_a then FSIGN_MASK32 else 0)) (ucast b)
                    (ucast c XOR (if neg_c then FSIGN_MASK32 else 0)) rm (fflags s)) s
             else if fmt = 1 then
               put_f64 rd
                 (fma_sf (a XOR (if neg_a then FSIGN_MASK64 else 0)) b
                    (c XOR (if neg_c then FSIGN_MASK64 else 0)) rm (fflags s)) s
             else (ILLEGAL, s))"

section \<open>The operations of \<open>riscv_cpu_fp_template.h\<close>\<close>

text \<open>Arithmetic with a rounding mode: \<open>add\<close>, \<open>sub\<close>, \<open>mul\<close>, \<open>div\<close> on either format.\<close>

definition fp_arith :: "u32 \<Rightarrow> 'a::len word \<Rightarrow> 'a word \<Rightarrow> nat \<Rightarrow> u32 \<Rightarrow> 'a word \<times> u32" where
  "fp_arith f a b rm fl =
     (if f = 0x00 then add_sf a b rm fl
      else if f = 0x01 then sub_sf a b rm fl
      else if f = 0x02 then mul_sf a b rm fl
      else div_sf a b rm fl)"

definition exec_fp_arith :: "bool \<Rightarrow> u32 \<Rightarrow> nat \<Rightarrow> nat \<Rightarrow> u64 \<Rightarrow> u64 \<Rightarrow> 'd cpu \<Rightarrow> 'd result" where
  "exec_fp_arith dbl f rm rd a b s =
     (case get_insn_rm s rm of
        None \<Rightarrow> (ILLEGAL, s)
      | Some rm' \<Rightarrow>
          if dbl then put_f64 rd (fp_arith f a b rm' (fflags s)) s
          else put_f32 rd (fp_arith f (ucast a) (ucast b) rm' (fflags s)) s)"

definition exec_fp_sqrt :: "bool \<Rightarrow> nat \<Rightarrow> nat \<Rightarrow> nat \<Rightarrow> u64 \<Rightarrow> 'd cpu \<Rightarrow> 'd result" where
  "exec_fp_sqrt dbl rm rs2 rd a s =
     (case get_insn_rm s rm of
        None \<Rightarrow> (ILLEGAL, s)
      | Some rm' \<Rightarrow>
          if rs2 \<noteq> 0 then (ILLEGAL, s)
          else if dbl then put_f64 rd (sqrt_sf a rm' (fflags s)) s
          else put_f32 rd (sqrt_sf (ucast a) rm' (fflags s)) s)"

text \<open>Sign injection works on the whole register, without boxing; the mask of the 32-bit
  instance is sign-extended.\<close>

definition fsign_mask :: "bool \<Rightarrow> u64" where
  "fsign_mask dbl = (if dbl then FSIGN_MASK64 else sx32 FSIGN_MASK32)"

definition exec_fp_sgnj :: "bool \<Rightarrow> nat \<Rightarrow> nat \<Rightarrow> u64 \<Rightarrow> u64 \<Rightarrow> 'd cpu \<Rightarrow> 'd result" where
  "exec_fp_sgnj dbl rm rd a b s =
     (let msk = fsign_mask dbl;
          put = (\<lambda>v. (NEXT, (set_fp_reg rd v s)\<lparr>fs := 3\<rparr>))
      in if rm = 0 then put ((a AND NOT msk) OR (b AND msk))
         else if rm = 1 then put ((a AND NOT msk) OR ((b AND msk) XOR msk))
         else if rm = 2 then put (a XOR (b AND msk))
         else (ILLEGAL, s))"

definition exec_fp_minmax :: "bool \<Rightarrow> nat \<Rightarrow> nat \<Rightarrow> u64 \<Rightarrow> u64 \<Rightarrow> 'd cpu \<Rightarrow> 'd result" where
  "exec_fp_minmax dbl rm rd a b s =
     (if rm = 0 then
        (if dbl then put_f64 rd (min_sf a b (fflags s)) s
         else put_f32 rd (min_sf (ucast a) (ucast b) (fflags s)) s)
      else if rm = 1 then
        (if dbl then put_f64 rd (max_sf a b (fflags s)) s
         else put_f32 rd (max_sf (ucast a) (ucast b) (fflags s)) s)
      else (ILLEGAL, s))"

text \<open>Conversion to an integer register; the 32-bit results are sign-extended.\<close>

definition fp_to_int :: "nat \<Rightarrow> 'a::len word \<Rightarrow> nat \<Rightarrow> nat \<Rightarrow> u32 \<Rightarrow> (u64 \<times> u32) option" where
  "fp_to_int xlen a rs2 rm fl =
     (if rs2 = 0 then (let (v, fl') = cvt_sf_i a rm fl in Some (sx32 v, fl'))
      else if rs2 = 1 then (let (v, fl') = cvt_sf_u a rm fl in Some (sx32 v, fl'))
      else if rs2 = 2 \<and> xlen \<ge> 64 then Some (cvt_sf_i a rm fl)
      else if rs2 = 3 \<and> xlen \<ge> 64 then Some (cvt_sf_u a rm fl)
      else None)"

definition exec_fp_to_int :: "bool \<Rightarrow> nat \<Rightarrow> nat \<Rightarrow> nat \<Rightarrow> nat \<Rightarrow> u64 \<Rightarrow> 'd cpu \<Rightarrow> 'd result" where
  "exec_fp_to_int dbl xlen rm rs2 rd a s =
     (case get_insn_rm s rm of
        None \<Rightarrow> (ILLEGAL, s)
      | Some rm' \<Rightarrow>
          (case (if dbl then fp_to_int xlen a rs2 rm' (fflags s)
                 else fp_to_int xlen (ucast a :: u32) rs2 rm' (fflags s)) of
             None \<Rightarrow> (ILLEGAL, s)
           | Some r \<Rightarrow> put_int rd r s))"

definition fp_compare :: "nat \<Rightarrow> 'a::len word \<Rightarrow> 'a word \<Rightarrow> u32 \<Rightarrow> (bool \<times> u32) option" where
  "fp_compare rm a b fl =
     (if rm = 0 then Some (le_sf a b fl)
      else if rm = 1 then Some (lt_sf a b fl)
      else if rm = 2 then Some (eq_quiet_sf a b fl)
      else None)"

definition exec_fp_compare :: "bool \<Rightarrow> nat \<Rightarrow> nat \<Rightarrow> u64 \<Rightarrow> u64 \<Rightarrow> 'd cpu \<Rightarrow> 'd result" where
  "exec_fp_compare dbl rm rd a b s =
     (case (if dbl then fp_compare rm a b (fflags s)
            else fp_compare rm (ucast a :: u32) (ucast b) (fflags s)) of
        None \<Rightarrow> (ILLEGAL, s)
      | Some (v, fl) \<Rightarrow> put_int rd (c_bool v, fl) s)"

text \<open>Conversion from an integer register.\<close>

definition int_to_fp :: "nat \<Rightarrow> u64 \<Rightarrow> nat \<Rightarrow> nat \<Rightarrow> u32 \<Rightarrow> ('a::len word \<times> u32) option" where
  "int_to_fp xlen x rs2 rm fl =
     (if rs2 = 0 then Some (cvt_i_sf (ucast x :: u32) rm fl)
      else if rs2 = 1 then Some (cvt_u_sf (ucast x :: u32) rm fl)
      else if rs2 = 2 \<and> xlen \<ge> 64 then Some (cvt_i_sf x rm fl)
      else if rs2 = 3 \<and> xlen \<ge> 64 then Some (cvt_u_sf x rm fl)
      else None)"

definition exec_int_to_fp :: "bool \<Rightarrow> nat \<Rightarrow> nat \<Rightarrow> nat \<Rightarrow> nat \<Rightarrow> u64 \<Rightarrow> 'd cpu \<Rightarrow> 'd result" where
  "exec_int_to_fp dbl xlen rm rs2 rd x s =
     (case get_insn_rm s rm of
        None \<Rightarrow> (ILLEGAL, s)
      | Some rm' \<Rightarrow>
          if dbl then
            (case int_to_fp xlen x rs2 rm' (fflags s) of
               None \<Rightarrow> (ILLEGAL, s) | Some r \<Rightarrow> put_f64 rd r s)
          else
            (case int_to_fp xlen x rs2 rm' (fflags s) of
               None \<Rightarrow> (ILLEGAL, s) | Some r \<Rightarrow> put_f32 rd r s))"

text \<open>\<open>cvt.s.d\<close> (in the 32-bit instance) and \<open>cvt.d.s\<close> (in the 64-bit instance).\<close>

definition exec_fp_cvt :: "bool \<Rightarrow> nat \<Rightarrow> nat \<Rightarrow> nat \<Rightarrow> u64 \<Rightarrow> 'd cpu \<Rightarrow> 'd result" where
  "exec_fp_cvt dbl rm rs2 rd a s =
     (case get_insn_rm s rm of
        None \<Rightarrow> (ILLEGAL, s)
      | Some rm' \<Rightarrow>
          if \<not> dbl \<and> rs2 = 1 then put_f32 rd (cvt_narrow a rm' (fflags s)) s
          else if dbl \<and> rs2 = 0 then put_f64 rd (cvt_widen (ucast a :: u32) (fflags s)) s
          else (ILLEGAL, s))"

text \<open>\<open>fmv.x.[sd]\<close>, \<open>fclass\<close> and \<open>fmv.[sd].x\<close>.\<close>

definition exec_fp_mv_x :: "bool \<Rightarrow> nat \<Rightarrow> nat \<Rightarrow> nat \<Rightarrow> nat \<Rightarrow> u64 \<Rightarrow> 'd cpu \<Rightarrow> 'd result" where
  "exec_fp_mv_x dbl xlen rm rs2 rd a s =
     (if rs2 \<noteq> 0 then (ILLEGAL, s)
      else if rm = 0 \<and> (dbl \<longrightarrow> xlen \<ge> 64) then (NEXT, wr_reg rd (if dbl then a else int32 a) s)
      else if rm = 1 then
        (NEXT, wr_reg rd (ucast (if dbl then fclass_sf a else fclass_sf (ucast a :: u32))) s)
      else (ILLEGAL, s))"

definition exec_fp_mv_f :: "bool \<Rightarrow> nat \<Rightarrow> nat \<Rightarrow> nat \<Rightarrow> nat \<Rightarrow> u64 \<Rightarrow> 'd cpu \<Rightarrow> 'd result" where
  "exec_fp_mv_f dbl xlen rm rs2 rd x s =
     (if dbl \<and> xlen < 64 \<or> rs2 \<noteq> 0 \<or> rm \<noteq> 0 then (ILLEGAL, s)
      else (NEXT, (set_fp_reg rd (if dbl then x else int32 x) s)\<lparr>fs := 3\<rparr>))"

text \<open>Opcode \<open>0x53\<close>: the switch on \<open>imm = insn >> 25\<close>, whose cases are \<open>(f << 2) | OPID\<close>.\<close>

definition exec_fp :: "nat \<Rightarrow> u32 \<Rightarrow> 'd cpu \<Rightarrow> 'd result" where
  "exec_fp xlen insn s =
     (let imm = drop_bit 25 insn;
          f = drop_bit 2 imm;
          opid = imm AND 3;
          dbl = (opid = 1);
          rm = unat (funct3_of insn);
          rd = rd_of insn; rs2 = rs2_of insn;
          a = fp_reg s (rs1_of insn); b = fp_reg s rs2; x = reg s (rs1_of insn)
      in if fs s = 0 then (ILLEGAL, s)
         else if opid \<noteq> 0 \<and> opid \<noteq> 1 then (ILLEGAL, s)
         else if f \<le> 0x03 then exec_fp_arith dbl f rm rd a b s
         else if f = 0x0b then exec_fp_sqrt dbl rm rs2 rd a s
         else if f = 0x04 then exec_fp_sgnj dbl rm rd a b s
         else if f = 0x05 then exec_fp_minmax dbl rm rd a b s
         else if f = 0x18 then exec_fp_to_int dbl xlen rm rs2 rd a s
         else if f = 0x14 then exec_fp_compare dbl rm rd a b s
         else if f = 0x1a then exec_int_to_fp dbl xlen rm rs2 rd x s
         else if f = 0x08 then exec_fp_cvt dbl rm rs2 rd a s
         else if f = 0x1c then exec_fp_mv_x dbl xlen rm rs2 rd a s
         else if f = 0x1e then exec_fp_mv_f dbl xlen rm rs2 rd x s
         else (ILLEGAL, s))"

end
