(* ===== verification/Interp.thy ===== *)
theory Interp
  imports ExecC ExecSys ExecFp
begin

text \<open>
  The main loop of \<open>riscv_cpu_template.h\<close> (\<open>riscv_cpu_interp_x32\<close> and \<open>riscv_cpu_interp_x64\<close>) and
  \<open>riscv_cpu_interp64\<close> of \<open>riscv_cpu.c\<close>.

  The locals that live across iterations are a record. \<open>code_ptr\<close> and \<open>code_end\<close> are host pointers
  inside one page of guest memory; they are integers, because C's pointer arithmetic does not
  wrap (a 64-bit distance is added as the signed value it stands for). \<open>n_cycles\<close> is an \<open>int\<close>.
  One iteration of the \<open>for\<close> is \<open>interp_step\<close>; it either continues with new locals or
  stops with the final \<open>n_cycles\<close>.
\<close>

section \<open>The switch\<close>

definition exec_insn :: "'d bus \<Rightarrow> nat \<Rightarrow> u32 \<Rightarrow> u64 \<Rightarrow> u64 \<Rightarrow> 'd cpu \<Rightarrow> 'd result" where
  "exec_insn E xlen insn PC cnt s =
     (let opcode = opcode_of insn in
      if opcode AND 3 = 0 then exec_c0 E xlen insn s
      else if opcode AND 3 = 1 then exec_c1 xlen insn PC s
      else if opcode AND 3 = 2 then exec_c2 E xlen insn PC s
      else if opcode = 0x37 then exec_lui insn s
      else if opcode = 0x17 then exec_auipc xlen insn PC s
      else if opcode = 0x6f then exec_jal xlen insn PC s
      else if opcode = 0x67 then exec_jalr xlen insn PC s
      else if opcode = 0x63 then exec_branch xlen insn PC s
      else if opcode = 0x03 then exec_load E xlen insn s
      else if opcode = 0x23 then exec_store E xlen insn s
      else if opcode = 0x13 then exec_op_imm xlen insn s
      else if opcode = 0x1b then exec_op_imm_32 xlen insn s
      else if opcode = 0x33 then exec_op xlen insn s
      else if opcode = 0x3b then exec_op_32 xlen insn s
      else if opcode = 0x73 then exec_system xlen insn PC cnt s
      else if opcode = 0x0f then exec_misc_mem insn s
      else if opcode = 0x2f then exec_amo E xlen insn s
      else if opcode = 0x07 then exec_fp_load E insn s
      else if opcode = 0x27 then exec_fp_store E insn s
      else if opcode = 0x43 then exec_fma False False insn s
      else if opcode = 0x47 then exec_fma False True insn s
      else if opcode = 0x4b then exec_fma True False insn s
      else if opcode = 0x4f then exec_fma True True insn s
      else if opcode = 0x53 then exec_fp xlen insn s
      else (ILLEGAL, s))"

section \<open>One iteration\<close>

record interp_locals =
  n_cycles :: int
  code_ptr :: int
  code_end :: int
  code_to_pc_addend :: u64
  insn_counter_addend :: u64

definition GET_PC :: "interp_locals \<Rightarrow> u64" where
  "GET_PC l = word_of_int (code_ptr l) + code_to_pc_addend l"

definition GET_INSN_COUNTER :: "interp_locals \<Rightarrow> u64" where
  "GET_INSN_COUNTER l = insn_counter_addend l - word_of_int (n_cycles l)"

datatype 'd step = Continue interp_locals "'d cpu" | Stop int "'d cpu"

text \<open>The labels at the end: \<open>exception\<close> falls through to \<open>done_interp\<close>, which ends the loop with
  one cycle less. The store to \<open>insn_counter\<close> at \<open>the_end\<close> is in \<open>riscv_cpu_interp_x\<close>.\<close>

definition done_interp :: "interp_locals \<Rightarrow> 'd cpu \<Rightarrow> 'd step" where
  "done_interp l s = Stop (n_cycles l - 1) s"

definition exception :: "interp_locals \<Rightarrow> 'd cpu \<Rightarrow> 'd step" where
  "exception l s =
     (let s1 = s\<lparr>pc := GET_PC l\<rparr> in
      done_interp l
        (if pending_exception s1 \<ge> 0
         then raise_exception2 s1 (word_of_int (pending_exception s1)) (pending_tval s1)
         else s1))"

definition illegal_insn :: "interp_locals \<Rightarrow> u32 \<Rightarrow> 'd cpu \<Rightarrow> 'd step" where
  "illegal_insn l insn s =
     exception l (s\<lparr>pending_exception := CAUSE_ILLEGAL_INSTRUCTION, pending_tval := ucast insn\<rparr>)"

text \<open>After the switch.\<close>

definition after_insn :: "interp_locals \<Rightarrow> u32 \<Rightarrow> 'd result \<Rightarrow> 'd step" where
  "after_insn l insn r =
     (case r of (c, s) \<Rightarrow>
        case c of
          C_NEXT \<Rightarrow> Continue (l\<lparr>code_ptr := code_ptr l + 2\<rparr>) s
        | NEXT \<Rightarrow> Continue (l\<lparr>code_ptr := code_ptr l + 4\<rparr>) s
        | JUMP \<Rightarrow> Continue (l\<lparr>code_ptr := 0, code_end := 0, code_to_pc_addend := pc s\<rparr>) s
        | ILLEGAL \<Rightarrow> illegal_insn l insn s
        | MMU_EXC \<Rightarrow> exception l s
        | EXC \<Rightarrow> exception l s
        | DONE \<Rightarrow> done_interp l s)"

text \<open>The entry of a block: the new locals and the first instruction, or the reason to stop.\<close>

definition fetch_block :: "interp_locals \<Rightarrow> 'd cpu \<Rightarrow> (interp_locals \<times> u32) option \<times> 'd cpu" where
  "fetch_block l s =
     (let addr = pc s in
      case code_ptr_of s addr of
        (None, s1) \<Rightarrow> (None, s1)
      | (Some ptr, s1) \<Rightarrow>
          let l' = l\<lparr>code_ptr := uint ptr,
                code_end := uint ptr + sint (PG_MASK - 1 - (addr AND PG_MASK)),
                code_to_pc_addend := addr - ptr\<rparr>
          in if code_ptr l' \<ge> code_end l' then
               let lo = ucast (host_ld (ram s1) ptr 2) :: u32
               in if lo AND 3 = 3 then
                    (case target_read_insn_u16 s1 (addr + 2) of
                       (None, s2) \<Rightarrow> (None, s2)
                     | (Some hi, s2) \<Rightarrow> (Some (l', lo OR push_bit 16 (ucast hi)), s2))
                  else (Some (l', lo), s1)
             else (Some (l', get_insn32 s1 ptr), s1))"

definition run_insn :: "'d bus \<Rightarrow> nat \<Rightarrow> interp_locals \<Rightarrow> u32 \<Rightarrow> 'd cpu \<Rightarrow> 'd step" where
  "run_insn E xlen l insn s =
     after_insn l insn (exec_insn E xlen insn (GET_PC l) (GET_INSN_COUNTER l) s)"

definition interp_step :: "'d bus \<Rightarrow> nat \<Rightarrow> interp_locals \<Rightarrow> 'd cpu \<Rightarrow> 'd step" where
  "interp_step E xlen l0 s =
     (let l = l0\<lparr>n_cycles := n_cycles l0 - 1\<rparr> in
      if code_ptr l \<ge> code_end l then
        let s1 = s\<lparr>pc := GET_PC l\<rparr> in
        if n_cycles l \<le> 0 then Stop (n_cycles l) s1
        else
          let (taken, s2) = (if mip s1 AND mie s1 \<noteq> 0 then raise_interrupt s1 else (False, s1)) in
          if taken then Stop (n_cycles l) s2
          else
            (case fetch_block l s2 of
               (None, s3) \<Rightarrow> exception l s3
             | (Some (l', insn), s3) \<Rightarrow> run_insn E xlen l' insn s3)
      else run_insn E xlen l (get_insn32 s (word_of_int (code_ptr l))) s)"

section \<open>The loop terminates\<close>

text \<open>The distance to the end of the block.\<close>

definition block_left :: "interp_locals \<Rightarrow> int" where
  "block_left l = code_end l - code_ptr l"

lemma after_insn_Continue:
  assumes "after_insn l insn r = Continue l' s'"
  shows "n_cycles l' = n_cycles l" "insn_counter_addend l' = insn_counter_addend l"
    "block_left l' = 0 \<or> block_left l' \<le> block_left l - 2"
  using assms
  by (auto simp: after_insn_def illegal_insn_def exception_def done_interp_def block_left_def Let_def
      split: prod.splits ctl.splits)

lemma fetch_block_Some:
  assumes "fetch_block l s = (Some (l', insn), s')"
  shows "n_cycles l' = n_cycles l" "insn_counter_addend l' = insn_counter_addend l"
    "block_left l' = sint (PG_MASK - 1 - (pc s AND PG_MASK))"
  using assms
  by (auto simp: fetch_block_def block_left_def Let_def split: prod.splits option.splits if_splits)

lemma interp_step_Continue:
  assumes "interp_step E xlen l s = Continue l' s'"
  shows "n_cycles l' = n_cycles l - 1" "insn_counter_addend l' = insn_counter_addend l"
    "(block_left l > 0 \<and> (block_left l' = 0 \<or> block_left l' \<le> block_left l - 2))
     \<or> (block_left l \<le> 0 \<and> n_cycles l > 1
         \<and> (\<exists>w :: u64. block_left l' = 0 \<or> block_left l' \<le> sint (PG_MASK - 1 - (w AND PG_MASK)) - 2))"
proof -
  let ?l = "l\<lparr>n_cycles := n_cycles l - 1\<rparr>"
  have run: "n_cycles l' = n_cycles l1 \<and> insn_counter_addend l' = insn_counter_addend l1
      \<and> (block_left l' = 0 \<or> block_left l' \<le> block_left l1 - 2)"
    if "run_insn E xlen l1 insn s1 = Continue l' s'" for l1 insn s1
    using after_insn_Continue that unfolding run_insn_def by blast
  have stop: "exception a b \<noteq> Continue l' s'" for a and b :: "'a cpu"
    by (simp add: exception_def done_interp_def Let_def)
  have "n_cycles l' = n_cycles l - 1 \<and> insn_counter_addend l' = insn_counter_addend l
    \<and> ((block_left l > 0 \<and> (block_left l' = 0 \<or> block_left l' \<le> block_left l - 2))
     \<or> (block_left l \<le> 0 \<and> n_cycles l > 1
         \<and> (\<exists>w :: u64. block_left l' = 0 \<or> block_left l' \<le> sint (PG_MASK - 1 - (w AND PG_MASK)) - 2)))"
  proof (cases "code_ptr l \<ge> code_end l")
    case False
    then have "run_insn E xlen ?l (get_insn32 s (word_of_int (code_ptr l))) s = Continue l' s'"
      using assms by (simp add: interp_step_def Let_def)
    from run [OF this] False show ?thesis
      by (auto simp: block_left_def)
  next
    case True
    define s1 where "s1 = s\<lparr>pc := GET_PC ?l\<rparr>"
    define r where "r = (if mip s1 AND mie s1 \<noteq> 0 then raise_interrupt s1 else (False, s1))"
    from assms True have n: "n_cycles l > 1" and nt: "\<not> fst r"
      by (auto simp: interp_step_def Let_def s1_def r_def split: prod.splits if_splits)
    have "(case fetch_block ?l (snd r) of
             (None, s3) \<Rightarrow> exception ?l s3
           | (Some (l', insn), s3) \<Rightarrow> run_insn E xlen l' insn s3) = Continue l' s'"
      using assms True n nt
      by (simp add: interp_step_def Let_def split_beta flip: s1_def r_def)
    then obtain l1 insn s3 where f: "fetch_block ?l (snd r) = (Some (l1, insn), s3)"
      and c: "run_insn E xlen l1 insn s3 = Continue l' s'"
      using stop by (auto split: prod.splits option.splits)
    from run [OF c] fetch_block_Some [OF f] True n show ?thesis
      by (auto simp: block_left_def)
  qed
  then show "n_cycles l' = n_cycles l - 1" "insn_counter_addend l' = insn_counter_addend l"
    "(block_left l > 0 \<and> (block_left l' = 0 \<or> block_left l' \<le> block_left l - 2))
     \<or> (block_left l \<le> 0 \<and> n_cycles l > 1
         \<and> (\<exists>w :: u64. block_left l' = 0 \<or> block_left l' \<le> sint (PG_MASK - 1 - (w AND PG_MASK)) - 2))"
    by blast+
qed

text \<open>The cycles left decrease while they are positive; after that only the rest of the block runs.\<close>

function interp_loop :: "'d bus \<Rightarrow> nat \<Rightarrow> interp_locals \<Rightarrow> 'd cpu \<Rightarrow> int \<times> 'd cpu" where
  "interp_loop E xlen l s =
     (case interp_step E xlen l s of
        Stop n s' \<Rightarrow> (n, s')
      | Continue l' s' \<Rightarrow> interp_loop E xlen l' s')"
  by pat_completeness auto
termination
proof (relation "measures [\<lambda>(E, xlen, l, s). nat (n_cycles l), \<lambda>(E, xlen, l, s). nat (block_left l)]")
  fix E :: "'d bus" and xlen l s l' s'
  assume "interp_step E xlen l s = Continue l' s'"
  note c = interp_step_Continue [OF this]
  show "((E, xlen, l', s'), (E, xlen, l, s))
      \<in> measures [\<lambda>(E, xlen, l, s). nat (n_cycles l), \<lambda>(E, xlen, l, s). nat (block_left l)]"
    using c by auto
qed simp

declare interp_loop.simps [simp del]

section \<open>The interpreter functions\<close>

definition riscv_cpu_interp_x :: "'d bus \<Rightarrow> nat \<Rightarrow> int \<Rightarrow> 'd cpu \<Rightarrow> 'd cpu" where
  "riscv_cpu_interp_x E xlen n s =
     (if n = 0 then s
      else
        let addend = insn_counter s + word_of_int n;
            (taken, s1) = (if mip s AND mie s \<noteq> 0 then raise_interrupt s else (False, s));
            (k, s2) =
              (if taken then (n - 1, s1)
               else interp_loop E xlen
                 \<lparr>n_cycles = n + 1, code_ptr = 0, code_end = 0, code_to_pc_addend = pc s1,
                  insn_counter_addend = addend\<rparr> (s1\<lparr>pending_exception := -1\<rparr>))
        in s2\<lparr>insn_counter := addend - word_of_int k\<rparr>)"

text \<open>A \<open>uint64_t\<close> converted to \<open>int\<close>.\<close>

definition u64_to_int :: "u64 \<Rightarrow> int" where
  "u64_to_int w = sint (ucast w :: u32)"

lemma sint_u32_bounds: "- 2147483648 \<le> sint w" "sint w \<le> 2147483647" for w :: u32
  using sint_ge_min [of w] sint_lt_max [of w] by simp_all

lemma sint_u32_id: "- 2147483648 \<le> k \<Longrightarrow> k \<le> 2147483647 \<Longrightarrow> sint (word_of_int k :: u32) = k"
  by (rule sint_word_of_int_id) simp_all

text \<open>Charging \<open>n - k\<close> cycles leaves \<open>k\<close>.\<close>

lemma u64_to_int_charge:
  assumes "u64_to_int w = n" "- 2147483648 \<le> k" "k \<le> n"
  shows "u64_to_int (w - word_of_int (n - k)) = k"
proof -
  have low: "(ucast (word_of_int i :: u64) :: u32) = word_of_int i" for i
    by (rule bit_word_eqI) (simp add: bit_simps)
  have "(word_of_int (uint w) :: u32) = word_of_int n"
    using low [of "uint w"] by (simp add: u64_to_int_def flip: assms(1))
  then have "(word_of_int (uint w - (n - k)) :: u32) = word_of_int k"
    by (simp only: wi_hom_sub [symmetric]) simp
  moreover have "w - word_of_int (n - k) = word_of_int (uint w - (n - k))"
    by (simp only: wi_hom_sub [symmetric] word_of_int_uint)
  ultimately have "(ucast (w - word_of_int (n - k)) :: u32) = word_of_int k"
    by (simp only: low)
  moreover have "k \<le> 2147483647"
    using assms(1,3) sint_u32_bounds(2) unfolding u64_to_int_def by (metis order_trans)
  ultimately show ?thesis
    using assms(2) by (simp only: u64_to_int_def sint_u32_id)
qed

lemma sint_4094_minus:
  fixes x :: u64
  assumes "unat x \<le> 4095"
  shows "sint (4094 - x) = 4094 - uint x"
proof -
  have "int (unat x) \<le> 4095" using assms by linarith
  then have x: "0 \<le> uint x" "uint x \<le> 4095" by simp_all
  have "4094 - x = word_of_int (4094 - uint x)"
    by (simp only: wi_hom_sub [symmetric] word_of_int_uint) simp
  also have "sint \<dots> = 4094 - uint x"
    by (rule sint_word_of_int_id) (use x in \<open>auto intro: order.strict_trans1 [of _ 0]\<close>)
  finally show ?thesis .
qed

lemma block_length_le: "sint (PG_MASK - 1 - (w AND PG_MASK)) \<le> 4094" for w :: u64
proof -
  have m: "PG_MASK = (mask 12 :: u64)" by (simp add: mask_eq_exp_minus_1)
  have "unat (w AND PG_MASK) < 4096"
    unfolding m and_mask_take_bit unat_take_bit by simp
  then have "sint (4094 - (w AND PG_MASK)) = 4094 - uint (w AND PG_MASK)"
    by (intro sint_4094_minus) linarith
  moreover have "PG_MASK - 1 = (4094 :: u64)" by simp
  ultimately show ?thesis by (simp only:) (simp only: diff_le_eq add_increasing2 le_add_same_cancel1 uint_ge_0)
qed

lemma interp_step_Stop:
  assumes "interp_step E xlen l s = Stop n s'"
  shows "n_cycles l - 2 \<le> n" "n \<le> n_cycles l - 1"
  using assms
  by (auto simp: interp_step_def run_insn_def after_insn_def illegal_insn_def exception_def
      done_interp_def Let_def dest!: fetch_block_Some(1) split: prod.splits option.splits if_splits ctl.splits)

text \<open>The overshoot of a block is bounded by its length: two bytes per instruction.\<close>

lemma interp_loop_bounds:
  assumes "interp_loop E xlen l s = (k, s')"
  shows "k < n_cycles l"
    and "block_left l \<le> 4096 + 2 * n_cycles l \<Longrightarrow> - 2048 \<le> n_cycles l \<Longrightarrow> - 2050 \<le> k"
proof -
  have "k < n_cycles l
      \<and> (block_left l \<le> 4096 + 2 * n_cycles l \<longrightarrow> - 2048 \<le> n_cycles l \<longrightarrow> - 2050 \<le> k)"
    using assms
  proof (induction E xlen l s arbitrary: k s' rule: interp_loop.induct)
    case (1 E xlen l s)
    show ?case
    proof (cases "interp_step E xlen l s")
      case (Stop n s1)
      with "1.prems" interp_step_Stop [OF Stop] show ?thesis
        by (simp add: interp_loop.simps [of E xlen l s])
    next
      case (Continue l' s1)
      with "1.prems" have "interp_loop E xlen l' s1 = (k, s')"
        by (simp add: interp_loop.simps [of E xlen l s])
      from "1.IH" [OF Continue this] interp_step_Continue [OF Continue] block_length_le
      show ?thesis by (smt (verit))
    qed
  qed
  then show "k < n_cycles l"
    and "block_left l \<le> 4096 + 2 * n_cycles l \<Longrightarrow> - 2048 \<le> n_cycles l \<Longrightarrow> - 2050 \<le> k" by blast+
qed

text \<open>Taking an interrupt does not depend on what the loop sets before it tests again.\<close>

lemma raise_interrupt_taken_cong:
  "fst (raise_interrupt (s\<lparr>pc := a, pending_exception := b\<rparr>)) = fst (raise_interrupt s)"
  "fst (raise_interrupt (s\<lparr>pending_exception := b, pc := a\<rparr>)) = fst (raise_interrupt s)"
  by (simp_all add: raise_interrupt_def get_pending_irq_mask_def Let_def)

text \<open>Each call makes progress: it charges at least one cycle, and the overshoot is bounded.\<close>

lemma riscv_cpu_interp_x_progress:
  assumes "1 \<le> n"
  obtains k where "insn_counter (riscv_cpu_interp_x E xlen n s) = insn_counter s + word_of_int (n - k)"
    "- 2050 \<le> k" "k < n"
proof -
  define r where "r = (if mip s AND mie s \<noteq> 0 then raise_interrupt s else (False, s))"
  define l where "l = \<lparr>n_cycles = n + 1, code_ptr = 0, code_end = 0, code_to_pc_addend = pc (snd r),
    insn_counter_addend = insn_counter s + word_of_int n\<rparr>"
  define s1 where "s1 = (snd r)\<lparr>pending_exception := -1\<rparr>"
  define q where "q = (if fst r then (n - 1, snd r) else interp_loop E xlen l s1)"
  have eq: "insn_counter (riscv_cpu_interp_x E xlen n s)
      = insn_counter s + word_of_int (n - fst q)"
    using assms
    by (simp add: riscv_cpu_interp_x_def Let_def split_beta l_def s1_def q_def r_def)
  have "- 2050 \<le> fst q \<and> fst q < n"
  proof (cases "fst r")
    case True
    then show ?thesis using assms by (simp add: q_def)
  next
    case False
    have snd_r: "snd r = s" using False
      by (auto simp: r_def raise_interrupt_def Let_def split: if_splits)
    have nt: "mip s AND mie s \<noteq> 0 \<longrightarrow> \<not> fst (raise_interrupt s)"
      using False by (auto simp: r_def split: if_splits)
    show ?thesis
    proof (cases "interp_step E xlen l s1")
      case (Stop k s')
      from interp_step_Stop [OF Stop] have "- 2050 \<le> k" "k \<le> n"
        using assms by (simp_all add: l_def)
      moreover have "k \<noteq> n"
      proof
        assume "k = n"
        with Stop assms nt show False
          by (auto simp: interp_step_def l_def s1_def snd_r raise_interrupt_taken_cong run_insn_def
              after_insn_def illegal_insn_def exception_def done_interp_def Let_def split_beta
              dest!: fetch_block_Some(1) split: prod.splits option.splits if_splits ctl.splits)
      qed
      ultimately show ?thesis using False Stop by (simp add: q_def interp_loop.simps)
    next
      case (Continue l' s')
      obtain k s'' where k: "interp_loop E xlen l' s' = (k, s'')" by force
      then have q: "fst q = k" using False Continue by (simp add: q_def interp_loop.simps)
      have n': "n_cycles l' = n" using interp_step_Continue(1) [OF Continue] by (simp add: l_def)
      have "block_left l' \<le> 4096 + 2 * n_cycles l'"
        using interp_step_Continue(3) [OF Continue] n' assms block_length_le
        by (auto simp: l_def block_left_def) (smt (verit))
      with interp_loop_bounds [OF k] show ?thesis unfolding q n' using assms by simp
    qed
  qed
  with eq show ?thesis using that by blast
qed

text \<open>The loop of \<open>riscv_cpu_interp64\<close>; \<open>None\<close> is \<open>abort()\<close>.\<close>

lemma interp_progress_measure:
  assumes "u64_to_int (timeout - insn_counter s) = n" "0 < n"
  shows "u64_to_int (timeout - insn_counter (riscv_cpu_interp_x E xlen n s)) < n"
proof -
  obtain k where k: "insn_counter (riscv_cpu_interp_x E xlen n s) = insn_counter s + word_of_int (n - k)"
      "- 2050 \<le> k" "k < n"
    using assms(2) by (auto intro: riscv_cpu_interp_x_progress [of n E xlen s])
  have "timeout - insn_counter (riscv_cpu_interp_x E xlen n s)
      = (timeout - insn_counter s) - word_of_int (n - k)"
    by (simp only: k(1) diff_diff_add)
  moreover have "u64_to_int ((timeout - insn_counter s) - word_of_int (n - k)) = k"
    by (rule u64_to_int_charge [OF assms(1)]) (use k(2,3) in linarith)+
  ultimately have "u64_to_int (timeout - insn_counter (riscv_cpu_interp_x E xlen n s)) = k"
    by (simp only:)
  then show ?thesis using k(3) by simp
qed

function interp_outer :: "'d bus \<Rightarrow> u64 \<Rightarrow> 'd cpu \<Rightarrow> 'd cpu option" where
  "interp_outer E timeout s =
     (let n = u64_to_int (timeout - insn_counter s) in
      if \<not> power_down_flag s \<and> n > 0 then
        (if cur_xlen s = 32 then interp_outer E timeout (riscv_cpu_interp_x E 32 n s)
         else if cur_xlen s = 64 then interp_outer E timeout (riscv_cpu_interp_x E 64 n s)
         else None)
      else Some s)"
  by pat_completeness auto
termination
  by (relation "measure (\<lambda>(E, timeout, s). nat (u64_to_int (timeout - insn_counter s)))")
    (auto simp: interp_progress_measure)

declare interp_outer.simps [simp del]

definition riscv_cpu_interp :: "'d bus \<Rightarrow> int \<Rightarrow> 'd cpu \<Rightarrow> 'd cpu option" where
  "riscv_cpu_interp E n s = interp_outer E (insn_counter s + word_of_int n) s"

text \<open>When it returns, the requested cycles have been charged or the CPU is powered down.\<close>

lemma interp_outer_result:
  assumes "interp_outer E timeout s = Some s'"
  shows "power_down_flag s' \<or> u64_to_int (timeout - insn_counter s') \<le> 0"
  using assms
proof (induction E timeout s rule: interp_outer.induct)
  case (1 E timeout s)
  show ?case
    using "1.prems" "1.IH" [OF refl] interp_outer.simps [of E timeout s]
    by (simp add: Let_def not_less split: if_splits)
qed

section \<open>Properties of the loop\<close>

text \<open>C18: A call of the interpreter with \<open>n >= 1\<close> cycles always returns, having charged at least one
  cycle and at most 2050 more than it was given: the cycle budget is only tested between blocks,
  and a block holds at most a page of instructions.\<close>

theorem interp_x_charges:
  assumes "1 \<le> n"
  shows "\<exists>k. insn_counter (riscv_cpu_interp_x E xlen n s) = insn_counter s + word_of_int k
    \<and> 1 \<le> k \<and> k \<le> n + 2050"
proof -
  obtain k where "insn_counter (riscv_cpu_interp_x E xlen n s) = insn_counter s + word_of_int (n - k)"
    "- 2050 \<le> k" "k < n"
    by (rule riscv_cpu_interp_x_progress [OF assms])
  then show ?thesis by (intro exI [of _ "n - k"]) simp
qed

text \<open>A CPU with no memory, whose first fetch fails.\<close>

definition bare_cpu :: "unit cpu" where
  "bare_cpu = riscv_cpu_init [] (\<lambda>_. 0) ()"


theorem interp_x_charges_witness:
  "\<exists>k. insn_counter (riscv_cpu_interp_x silent_bus 64 100 bare_cpu)
      = insn_counter bare_cpu + word_of_int k \<and> 1 \<le> k \<and> k \<le> 100 + 2050"
  by (rule interp_x_charges) simp

text \<open>When the outer loop returns, the CPU is powered down or the requested number of cycles has
  been charged.\<close>

theorem interp_runs_the_budget:
  assumes "riscv_cpu_interp E n s = Some s'"
  shows "power_down_flag s' \<or> u64_to_int (insn_counter s + word_of_int n - insn_counter s') \<le> 0"
  using assms unfolding riscv_cpu_interp_def by (rule interp_outer_result)

lemmas interp_eval = riscv_cpu_interp_def interp_outer.simps Let_def riscv_cpu_init_def zero_cpu_def
  tlb_init_def u64_to_int_def riscv_cpu_interp_x_def interp_loop.simps interp_step_def GET_PC_def
  fetch_block_def code_ptr_of_def tlb_index_def page_of_def invalid_entry_def zero_entry_def
  get_base_from_xlen_def mstatus_consts target_read_insn_slow_def get_phys_addr_def
  effective_priv_def get_phys_mem_range_def exception_def done_interp_def raise_exception2_def
  trap_delegated_def trap_cause_def stack_ie_def set_priv_def

lemma bare_cpu_run:
  "\<exists>s'. riscv_cpu_interp (E :: unit bus) 1 bare_cpu = Some s'"
  by (simp add: bare_cpu_def interp_eval)

theorem interp_runs_the_budget_witness:
  "\<exists>s'. riscv_cpu_interp silent_bus 1 bare_cpu = Some s'
    \<and> (power_down_flag s' \<or> u64_to_int (insn_counter bare_cpu + word_of_int 1 - insn_counter s') \<le> 0)"
  using bare_cpu_run [of silent_bus] interp_runs_the_budget [of silent_bus 1 bare_cpu] by blast

end
