(* ===== verification/Invariant.thy ===== *)
theory Invariant
  imports Interp
begin

text \<open>
  Invariants of the CPU state, proved once for the whole interpreter. The locale \<open>insn_invariant\<close>
  is the contract between a state predicate and the instructions: the predicate is kept by each
  elementary update the instructions make, under the checks they make before it (the privilege
  test of a CSR access, of \<open>sret\<close> and of \<open>mret\<close>), and by the callbacks of the bus. Inside it, every
  layer is shown to keep the predicate: the page walk, the memory accesses, each group of
  instructions, and \<open>exec_insn\<close>. The locale \<open>cpu_invariant\<close> adds that traps keep it, and with
  that one iteration, the loop, and \<open>riscv_cpu_interp\<close> do.
\<close>

locale insn_invariant =
  fixes I :: "'d cpu \<Rightarrow> bool" and E :: "'d bus"
  assumes I_set_reg: "I s \<Longrightarrow> rd \<noteq> 0 \<Longrightarrow> I (set_reg rd v s)"
    and I_fp_reg: "I s \<Longrightarrow> I (s\<lparr>fp_reg := f\<rparr>)"
    and I_fflags: "I s \<Longrightarrow> I (s\<lparr>fflags := fl\<rparr>)"
    and I_fs: "I s \<Longrightarrow> I (s\<lparr>fs := 3\<rparr>)"
    and I_pc: "I s \<Longrightarrow> I (s\<lparr>pc := a\<rparr>)"
    and I_pending_exception: "I s \<Longrightarrow> I (s\<lparr>pending_exception := c\<rparr>)"
    and I_pending_tval: "I s \<Longrightarrow> I (s\<lparr>pending_tval := a\<rparr>)"
    and I_insn_counter: "I s \<Longrightarrow> I (s\<lparr>insn_counter := a\<rparr>)"
    and I_power_down: "I s \<Longrightarrow> I (s\<lparr>power_down_flag := b\<rparr>)"
    and I_load_res: "I s \<Longrightarrow> I (s\<lparr>load_res := a\<rparr>)"
    and I_tlb_read: "I s \<Longrightarrow> I (s\<lparr>tlb_read := t\<rparr>)"
    and I_tlb_write: "I s \<Longrightarrow> I (s\<lparr>tlb_write := t\<rparr>)"
    and I_tlb_code: "I s \<Longrightarrow> I (s\<lparr>tlb_code := t\<rparr>)"
    and I_ram: "I s \<Longrightarrow> I (s\<lparr>ram := m\<rparr>)"
    and I_dirty: "I s \<Longrightarrow> I (s\<lparr>mem_map := (mem_map s)[i := phys_mem_set_dirty_bit (mem_map s ! i) off]\<rparr>)"
    and I_csr_write: "I s \<Longrightarrow> csr_read s csr True \<noteq> None \<Longrightarrow> I (snd (csr_write s csr val))"
    and I_sret: "I s \<Longrightarrow> PRV_S \<le> priv s \<Longrightarrow> I (handle_sret s)"
    and I_mret: "I s \<Longrightarrow> PRV_M \<le> priv s \<Longrightarrow> I (handle_mret s)"
    and I_dev_read: "I s \<Longrightarrow> I (snd (dev_read E op o32 k s))"
    and I_dev_write: "I s \<Longrightarrow> I (dev_write E op o32 v32 k s)"
begin

lemmas I_updates = I_set_reg I_fp_reg I_fflags I_fs I_pc I_pending_exception I_pending_tval
  I_insn_counter I_power_down I_load_res I_tlb_read I_tlb_write I_tlb_code I_ram

lemma I_wr_reg: "I s \<Longrightarrow> I (wr_reg rd v s)"
  by (simp add: wr_reg_def I_set_reg)

lemma I_set_fp_reg: "I s \<Longrightarrow> I (set_fp_reg rd v s)"
  by (simp add: set_fp_reg_def I_fp_reg)

lemma I_tlb_flush_all: "I s \<Longrightarrow> I (tlb_flush_all s)"
  using I_tlb_code [OF I_tlb_write [OF I_tlb_read]] by (simp add: tlb_flush_all_def tlb_init_def)

section \<open>Memory\<close>

lemma I_phys_write: "I s \<Longrightarrow> I (phys_write_u n s addr v)"
  by (simp add: phys_write_u_def Let_def I_ram split: option.split)

lemma I_pte_walk: "I s \<Longrightarrow> I (snd (pte_walk s va access prv base n))"
  by (induction s va access prv base n rule: pte_walk.induct) (simp_all add: Let_def I_phys_write)

lemma I_get_phys_addr: "I s \<Longrightarrow> I (snd (get_phys_addr s va access))"
  by (simp add: get_phys_addr_def Let_def I_pte_walk)

lemma I_read_slow_aligned: "I s \<Longrightarrow> I (snd (read_slow_aligned E k s addr))"
  using I_get_phys_addr [of s addr ACCESS_READ]
  by (auto simp: read_slow_aligned_def Let_def I_updates I_dev_read split_beta
      split: prod.split option.split)

lemma I_tlb_read_fast:
  "(\<And>s. I s \<Longrightarrow> I (snd (slow s addr))) \<Longrightarrow> I s \<Longrightarrow> I (snd (tlb_read_fast slow k s addr))"
  by (auto simp: tlb_read_fast_def split: prod.split option.split) (metis snd_conv)+

lemma I_target_read_aligned: "I s \<Longrightarrow> I (snd (target_read_aligned E k s addr))"
  by (simp add: target_read_aligned_def I_tlb_read_fast I_read_slow_aligned)

lemma I_read_pair:
  assumes "\<And>s a. I s \<Longrightarrow> I (snd (rd s a))"
  shows "I s \<Longrightarrow> I (snd (read_pair rd s a0 a1))"
  using assms [of s a0] assms [of "snd (rd s a0)" a1]
  by (auto simp: read_pair_def split: prod.split option.split)

lemma I_target_read_slow: "I s \<Longrightarrow> I (snd (target_read_slow E k s addr))"
  using I_read_pair [of "target_read_aligned E 0"] I_read_pair [of "target_read_aligned E 2"]
    I_read_pair [of "target_read_aligned E 3"]
  by (auto simp: target_read_slow_def read_slow_unaligned_def Let_def I_read_slow_aligned
      I_target_read_aligned split: prod.split option.split) (metis I_target_read_aligned snd_conv)+

lemma I_target_read_u: "I s \<Longrightarrow> I (snd (target_read_u E k s addr))"
  by (simp add: target_read_u_def I_tlb_read_fast I_target_read_slow)

lemma I_write_slow_aligned: "I s \<Longrightarrow> I (snd (write_slow_aligned E k s addr v))"
proof -
  assume "I s"
  then have 1: "I (snd (get_phys_addr s addr ACCESS_WRITE))" by (rule I_get_phys_addr)
  have 2: "I (s1\<lparr>mem_map := (mem_map s1)[i := phys_mem_set_dirty_bit (mem_map s1 ! i) off],
      tlb_write := t, ram := m\<rparr>)" if "I s1" for s1 i off t m
    using I_ram [OF I_tlb_write [OF I_dirty [OF that]]] by simp
  show ?thesis
    using 1 by (auto simp: write_slow_aligned_def Let_def I_updates I_dev_write 2 split_beta
        split: prod.split option.split)
qed

lemma I_tlb_write_fast:
  "(\<And>s w. I s \<Longrightarrow> I (snd (slow s addr w))) \<Longrightarrow> I s \<Longrightarrow> I (snd (tlb_write_fast slow k s addr v))"
  by (simp add: tlb_write_fast_def I_ram)

lemma I_target_write_aligned: "I s \<Longrightarrow> I (snd (target_write_aligned E k s addr v))"
  by (simp add: target_write_aligned_def I_tlb_write_fast I_write_slow_aligned)

lemma I_write_slow_bytes: "I s \<Longrightarrow> I (snd (write_slow_bytes E s addr v i n))"
proof (induction n arbitrary: s i)
  case (Suc n)
  then have "I (snd (target_write_aligned E 0 s (addr + of_nat i) (drop_bit (8 * i) v AND 0xff)))"
    by (simp add: I_target_write_aligned)
  with Suc.IH show ?case by (auto split: prod.split bool.split)
qed simp

lemma I_target_write_u: "I s \<Longrightarrow> I (snd (target_write_u E k s addr v))"
  by (simp add: target_write_u_def target_write_slow_def I_tlb_write_fast I_write_slow_aligned
      I_write_slow_bytes)

lemma I_with_load:
  "(\<And>v s'. I s' \<Longrightarrow> I (snd (f v s'))) \<Longrightarrow> I s \<Longrightarrow> I (snd (with_load E k addr f s))"
  using I_target_read_u [of s k addr] by (auto simp: with_load_def split: prod.split option.split)

lemma I_with_store:
  "(\<And>s'. I s' \<Longrightarrow> I (snd (g s'))) \<Longrightarrow> I s \<Longrightarrow> I (snd (with_store E k addr v g s))"
  using I_target_write_u [of s k addr v] by (auto simp: with_store_def split: prod.split bool.split)

lemma I_target_read_insn_slow: "I s \<Longrightarrow> I (snd (target_read_insn_slow s addr))"
  using I_get_phys_addr [of s addr ACCESS_CODE]
  by (auto simp: target_read_insn_slow_def Let_def I_updates split: prod.split option.split)

lemma I_code_ptr_of: "I s \<Longrightarrow> I (snd (code_ptr_of s addr))"
  by (simp add: code_ptr_of_def I_target_read_insn_slow)

lemma I_target_read_insn_u16: "I s \<Longrightarrow> I (snd (target_read_insn_u16 s addr))"
  using I_code_ptr_of [of s addr]
  by (auto simp: target_read_insn_u16_def split: prod.split option.split)

section \<open>Instructions\<close>

lemmas I_intros = I_updates I_wr_reg I_set_fp_reg I_tlb_flush_all I_with_load I_with_store

lemma I_put_result: "I s \<Longrightarrow> I (snd (put_result rd r s))"
  by (simp add: put_result_def I_wr_reg split: option.split)

lemma I_exec_int:
  assumes "I s"
  shows "I (snd (exec_lui insn s))" "I (snd (exec_auipc xlen insn PC s))"
    "I (snd (exec_jal xlen insn PC s))" "I (snd (exec_jalr xlen insn PC s))"
    "I (snd (exec_branch xlen insn PC s))" "I (snd (exec_load E xlen insn s))"
    "I (snd (exec_store E xlen insn s))" "I (snd (exec_op_imm xlen insn s))"
    "I (snd (exec_op_imm_32 xlen insn s))" "I (snd (exec_op xlen insn s))"
    "I (snd (exec_op_32 xlen insn s))" "I (snd (exec_misc_mem insn s))"
  using assms
  by (simp_all add: exec_lui_def exec_auipc_def exec_jal_def exec_jalr_def exec_branch_def
      exec_load_def load_into_def exec_store_def exec_op_imm_def exec_op_imm_32_def exec_op_def
      exec_op_32_def exec_misc_mem_def Let_def I_intros I_put_result)

lemma c_reg_neq_0: "c_reg insn pos \<noteq> 0"
proof
  assume "c_reg insn pos = 0"
  then have "(drop_bit pos insn AND 7) OR 8 = 0"
    by (simp add: c_reg_def unsigned_eq_0_iff)
  then have "bit ((drop_bit pos insn AND 7) OR 8) 3 = bit (0 :: u32) 3" by (rule arg_cong)
  then show False by (simp add: bit_simps)
qed

lemma I_if: "I (snd x) \<Longrightarrow> I (snd y) \<Longrightarrow> I (snd (if b then x else y))"
  by simp

lemma I_c_mem:
  assumes "I s"
  shows "I (snd (c_load E rd k addr ext s))" "I (snd (c_fload E rd k addr high s))"
    "I (snd (c_fstore E rs k addr s))" "I (snd (with_store E k addr v (Pair c) s))"
  using assms by (simp_all add: c_load_def c_fload_def c_fstore_def I_intros)

lemma I_exec_c0: "I s \<Longrightarrow> I (snd (exec_c0 E xlen insn s))"
  unfolding exec_c0_def Let_def by (intro I_if I_c_mem) (simp_all add: I_set_reg c_reg_neq_0)

lemma I_exec_c1: "I s \<Longrightarrow> I (snd (exec_c1 xlen insn PC s))"
  by (simp add: exec_c1_def exec_c1_alu_def Let_def I_intros c_reg_neq_0 split: option.split)

lemma I_exec_c2_jump: "I s \<Longrightarrow> I (snd (exec_c2_jump xlen insn PC s))"
  unfolding exec_c2_jump_def Let_def
  by (intro I_if; simp only: snd_conv; intro I_intros; simp)

lemma I_exec_c2: "I s \<Longrightarrow> I (snd (exec_c2 E xlen insn PC s))"
  unfolding exec_c2_def Let_def
  apply (intro I_if)
  apply (simp_all only: snd_conv)
  apply (rule I_wr_reg)
  apply (rule I_c_mem I_exec_c2_jump I_wr_reg | assumption)+
  done

lemma I_csr_finish: "I s \<Longrightarrow> I (snd (csr_finish rd old PC err s))"
  by (simp add: csr_finish_def Let_def I_intros)

lemma I_case_option:
  "I (snd n) \<Longrightarrow> (\<And>v. I (snd (f v))) \<Longrightarrow> I (snd (case x of None \<Rightarrow> n | Some v \<Rightarrow> f v))"
  by (simp split: option.split)

lemma I_exec_csr: "I s \<Longrightarrow> I (snd (exec_csr xlen insn PC cnt s))"
proof -
  assume I: "I s"
  let ?s1 = "s\<lparr>insn_counter := cnt\<rparr>" and ?csr = "drop_bit 20 insn"
  let ?w = "funct3_of insn AND 3 = 1 \<or> rs1_of insn \<noteq> 0"
  have I1: "I ?s1" using I by (rule I_insn_counter)
  show ?thesis
  proof (cases "csr_read ?s1 ?csr ?w")
    case None
    then show ?thesis using I1 by (simp add: exec_csr_def Let_def)
  next
    case (Some v)
    then have "?w \<Longrightarrow> csr_read ?s1 ?csr True \<noteq> None" by simp
    then have w: "?w \<Longrightarrow> I (snd (csr_write ?s1 ?csr val))" for val by (rule I_csr_write [OF I1])
    show ?thesis
      unfolding exec_csr_def Let_def split_beta Some option.case
      by (cases ?w) (simp_all only: if_True if_False, auto intro!: I_if I_csr_finish w I1)
  qed
qed

lemma I_exec_priv: "I s \<Longrightarrow> I (snd (exec_priv insn PC s))"
proof -
  assume I: "I s"
  have ret: "PRV_S \<le> priv s \<Longrightarrow> I (handle_sret (s\<lparr>pc := PC\<rparr>))"
    "PRV_M \<le> priv s \<Longrightarrow> I (handle_mret (s\<lparr>pc := PC\<rparr>))"
    using I_sret [OF I_pc [OF I]] I_mret [OF I_pc [OF I]] by simp_all
  have fl: "I (if b then tlb_flush_all s else tlb_flush_vaddr s a)" for b a
    by (simp add: tlb_flush_vaddr_def I_tlb_flush_all I)
  show ?thesis
    unfolding exec_priv_def Let_def
    by (auto simp: not_less I_updates I fl ret)
qed

lemma I_exec_system: "I s \<Longrightarrow> I (snd (exec_system xlen insn PC cnt s))"
  by (simp add: exec_system_def I_exec_csr I_exec_priv)

lemma I_exec_amo: "I s \<Longrightarrow> I (snd (exec_amo E xlen insn s))"
  by (simp add: exec_amo_def op_a_def Let_def I_intros split: option.split)

lemma I_put_f: "I s \<Longrightarrow> I (snd (put_f32 rd r s))" "I s \<Longrightarrow> I (snd (put_f64 rd q s))"
  "I s \<Longrightarrow> I (snd (put_int rd w s))"
  by (simp_all add: put_f32_def put_f64_def put_int_def I_intros)

lemma I_exec_fp_mem:
  assumes "I s"
  shows "I (snd (exec_fp_load E insn s))" "I (snd (exec_fp_store E insn s))"
    "I (snd (exec_fma na nc insn s))"
  using assms
  by (simp_all add: exec_fp_load_def exec_fp_store_def exec_fma_def Let_def I_intros I_put_f
      split: option.split)

lemma I_exec_fp_op:
  assumes "I s"
  shows "I (snd (exec_fp_arith dbl f rm rd a b s))" "I (snd (exec_fp_sqrt dbl rm rs2 rd a s))"
    "I (snd (exec_fp_sgnj dbl rm rd a b s))" "I (snd (exec_fp_minmax dbl rm rd a b s))"
    "I (snd (exec_fp_to_int dbl xlen rm rs2 rd a s))" "I (snd (exec_fp_compare dbl rm rd a b s))"
    "I (snd (exec_int_to_fp dbl xlen rm rs2 rd a s))" "I (snd (exec_fp_cvt dbl rm rs2 rd a s))"
    "I (snd (exec_fp_mv_x dbl xlen rm rs2 rd a s))" "I (snd (exec_fp_mv_f dbl xlen rm rs2 rd a s))"
  using assms
  by (simp_all add: exec_fp_arith_def exec_fp_sqrt_def exec_fp_sgnj_def exec_fp_minmax_def
      exec_fp_to_int_def exec_fp_compare_def exec_int_to_fp_def exec_fp_cvt_def exec_fp_mv_x_def
      exec_fp_mv_f_def Let_def I_intros I_put_f split_beta split: option.split)

lemma I_exec_fp: "I s \<Longrightarrow> I (snd (exec_fp xlen insn s))"
  unfolding exec_fp_def Let_def by (intro I_if I_exec_fp_op) simp_all

lemma I_exec_insn: "I s \<Longrightarrow> I (snd (exec_insn E xlen insn PC cnt s))"
  unfolding exec_insn_def Let_def
  by (intro I_if I_exec_c0 I_exec_c1 I_exec_c2 I_exec_int I_exec_system I_exec_amo I_exec_fp_mem
      I_exec_fp) simp_all

lemma I_fetch_block: "I s \<Longrightarrow> I (snd (fetch_block l s))"
  using I_code_ptr_of [of s "pc s"]
  by (auto simp: fetch_block_def Let_def split: prod.split option.split)
    (metis I_target_read_insn_u16 snd_conv)+

end

section \<open>The loop\<close>

locale cpu_invariant = insn_invariant +
  assumes I_raise: "I s \<Longrightarrow> I (raise_exception2 s cause tval)"
begin

text \<open>The state of either outcome of an iteration.\<close>

lemma I_exception: "I s \<Longrightarrow> exception l s = Stop n s' \<Longrightarrow> I s'"
  by (auto simp: exception_def done_interp_def Let_def I_pc I_raise)

lemma I_after_insn:
  assumes "I (snd r)"
  shows "after_insn l insn r = Stop n s' \<Longrightarrow> I s'" "after_insn l insn r = Continue l' s' \<Longrightarrow> I s'"
proof -
  obtain c s where r: "r = (c, s)" by force
  with assms have I: "I s" by simp
  have exc: "exception l0 s0 = Stop n s' \<Longrightarrow> I s'" "exception l0 s0 \<noteq> Continue l' s'" if "I s0" for l0 s0
    using I_exception [OF that] by (auto simp: exception_def done_interp_def Let_def)
  have ill: "I (s\<lparr>pending_exception := CAUSE_ILLEGAL_INSTRUCTION, pending_tval := ucast insn\<rparr>)"
    using I_pending_tval [OF I_pending_exception [OF I]] by simp
  show "after_insn l insn r = Stop n s' \<Longrightarrow> I s'"
    using exc(1) [OF I] exc(1) [OF ill] I
    by (cases c) (simp_all add: r after_insn_def illegal_insn_def done_interp_def)
  show "after_insn l insn r = Continue l' s' \<Longrightarrow> I s'"
    using exc(2) [OF I] exc(2) [OF ill] I
    by (cases c) (simp_all add: r after_insn_def illegal_insn_def done_interp_def)
qed

lemma I_raise_interrupt: "I s \<Longrightarrow> I (snd (raise_interrupt s))"
  by (simp add: raise_interrupt_def raise_exception_def Let_def I_raise)

lemma I_run_insn:
  assumes "I s"
  shows "run_insn E xlen l insn s = Stop n s' \<Longrightarrow> I s'"
    "run_insn E xlen l insn s = Continue l' s' \<Longrightarrow> I s'"
  using I_after_insn I_exec_insn assms unfolding run_insn_def by blast+

text \<open>What an iteration does once it has an instruction, or has failed to fetch one.\<close>

lemma I_interp_step:
  assumes "I s"
  shows "interp_step E xlen l s = Stop n s' \<Longrightarrow> I s'"
    "interp_step E xlen l s = Continue l' s' \<Longrightarrow> I s'"
proof -
  let ?l = "l\<lparr>n_cycles := n_cycles l - 1\<rparr>"
  define s1 where "s1 = s\<lparr>pc := GET_PC ?l\<rparr>"
  define r where "r = (if mip s1 AND mie s1 \<noteq> 0 then raise_interrupt s1 else (False, s1))"
  have s1: "I s1" using assms by (simp add: s1_def I_pc)
  have r: "I (snd r)" using s1 by (simp add: r_def I_raise_interrupt)
  note step = interp_step_def [of E xlen l s, unfolded Let_def, folded s1_def, folded r_def]
  have f: "I (snd (fetch_block ?l (snd r)))" using r by (rule I_fetch_block)
  show "interp_step E xlen l s = Stop n s' \<Longrightarrow> I s'"
    using s1 r f I_run_insn(1) [OF assms]
    by (auto simp: step split_beta split: prod.splits option.splits if_splits
        intro: I_run_insn(1) I_exception)
  show "interp_step E xlen l s = Continue l' s' \<Longrightarrow> I s'"
    using s1 r f I_run_insn(2) [OF assms]
    by (auto simp: step split_beta exception_def done_interp_def Let_def
        split: prod.splits option.splits if_splits intro: I_run_insn(2))
qed

lemma I_interp_loop:
  assumes "E' = E"
  shows "I s \<Longrightarrow> I (snd (interp_loop E' xlen l s))"
  using assms
proof (induction E' xlen l s rule: interp_loop.induct)
  case (1 E' xlen l s)
  show ?case
  proof (cases "interp_step E' xlen l s")
    case (Continue l' s')
    moreover have "I s'" using Continue "1.prems" I_interp_step(2) by blast
    ultimately show ?thesis using "1.IH" "1.prems" by (subst interp_loop.simps) simp
  next
    case (Stop n s')
    moreover have "I s'" using Stop "1.prems" I_interp_step(1) by blast
    ultimately show ?thesis by (subst interp_loop.simps) simp
  qed
qed

lemma I_riscv_cpu_interp_x: "I s \<Longrightarrow> I (riscv_cpu_interp_x E xlen n s)"
proof -
  assume "I s"
  define r where "r = (if mip s AND mie s \<noteq> 0 then raise_interrupt s else (False, s))"
  have "I (snd r)" using \<open>I s\<close> by (simp add: r_def I_raise_interrupt)
  then have "I ((snd r)\<lparr>pending_exception := -1\<rparr>)" by (rule I_pending_exception)
  then show ?thesis
    using \<open>I (snd r)\<close> \<open>I s\<close> I_interp_loop [OF refl]
    by (auto simp: riscv_cpu_interp_x_def Let_def split_beta r_def intro!: I_insn_counter)
qed

lemma I_interp_outer:
  assumes "E' = E"
  shows "interp_outer E' timeout s = Some s' \<Longrightarrow> I s \<Longrightarrow> I s'"
  using assms
proof (induction E' timeout s rule: interp_outer.induct)
  case (1 E' timeout s)
  show ?case
    using "1.IH" [OF refl] "1.prems" interp_outer.simps [of E' timeout s]
    by (simp add: Let_def I_riscv_cpu_interp_x split: if_splits)
qed

lemma I_riscv_cpu_interp: "riscv_cpu_interp E n s = Some s' \<Longrightarrow> I s \<Longrightarrow> I s'"
  unfolding riscv_cpu_interp_def by (rule I_interp_outer [OF refl])

end

end
