(* ===== verification/Machine.thy ===== *)
theory Machine
  imports Invariant
begin

text \<open>
  The devices of \<open>riscv_machine.c\<close>: the host-target interface (HTIF), the timer (CLINT) and the
  interrupt controller (PLIC), with the bus that connects them to the CPU. The fields of
  \<open>RISCVMachine\<close> that they use are the device state \<open>dev\<close> of the CPU model, so that a callback
  may change the machine and, through \<open>riscv_cpu_set_mip\<close>, the CPU.

  The arguments of the callbacks are \<open>offset\<close>, \<open>val\<close> and \<open>size_log2\<close>. The devices are registered
  with \<open>DEVIO_SIZE32\<close> alone, so their \<open>assert(size_log2 == 2)\<close> holds at every call. The host clock
  (\<open>clock_gettime\<close>) is a stream of readings: \<open>clock n\<close> is the n-th reading, seconds and
  nanoseconds. \<open>console_out\<close> is what was written to the console, and \<open>exited\<close> that \<open>exit(0)\<close> was
  called.
\<close>

section \<open>State and constants\<close>

record machine =
  max_xlen :: nat
  ram_size :: u64
  rtc_real_time :: bool
  rtc_start_time :: u64
  timecmp :: u64
  plic_pending_irq :: u32
  plic_served_irq :: u32
  htif_tohost :: u64
  htif_fromhost :: u64
  console_out :: "u8 list"
  exited :: bool
  clock :: "nat \<Rightarrow> u64 \<times> u64"
  clock_calls :: nat

type_synonym mcpu = "machine cpu"

definition LOW_RAM_SIZE :: u64 where "LOW_RAM_SIZE = 0x00010000"
definition RAM_BASE_ADDR :: u64 where "RAM_BASE_ADDR = 0x80000000"
definition CLINT_BASE_ADDR :: u64 where "CLINT_BASE_ADDR = 0x02000000"
definition CLINT_SIZE :: u64 where "CLINT_SIZE = 0x000c0000"
definition HTIF_BASE_ADDR :: u64 where "HTIF_BASE_ADDR = 0x40008000"
definition VIRTIO_BASE_ADDR :: u64 where "VIRTIO_BASE_ADDR = 0x40010000"
definition VIRTIO_SIZE :: u64 where "VIRTIO_SIZE = 0x1000"
definition VIRTIO_IRQ :: nat where "VIRTIO_IRQ = 1"
definition PLIC_BASE_ADDR :: u64 where "PLIC_BASE_ADDR = 0x40100000"
definition PLIC_SIZE :: u64 where "PLIC_SIZE = 0x00400000"
definition RTC_FREQ :: u64 where "RTC_FREQ = 10000000"
definition RTC_FREQ_DIV :: u64 where "RTC_FREQ_DIV = 16"
definition PLIC_HART_BASE :: u32 where "PLIC_HART_BASE = 0x200000"

lemmas machine_consts = LOW_RAM_SIZE_def RAM_BASE_ADDR_def CLINT_BASE_ADDR_def CLINT_SIZE_def
  HTIF_BASE_ADDR_def VIRTIO_BASE_ADDR_def VIRTIO_SIZE_def VIRTIO_IRQ_def PLIC_BASE_ADDR_def
  PLIC_SIZE_def RTC_FREQ_def RTC_FREQ_DIV_def PLIC_HART_BASE_def

section \<open>Time\<close>

definition rtc_get_real_time :: "mcpu \<Rightarrow> u64 \<times> mcpu" where
  "rtc_get_real_time s =
     (let m = dev s;
          (tv_sec, tv_nsec) = clock m (clock_calls m)
      in (tv_sec * RTC_FREQ + tv_nsec div (1000000000 div RTC_FREQ),
          s\<lparr>dev := m\<lparr>clock_calls := clock_calls m + 1\<rparr>\<rparr>))"

definition rtc_get_time :: "mcpu \<Rightarrow> u64 \<times> mcpu" where
  "rtc_get_time s =
     (if rtc_real_time (dev s) then
        let (t, s') = rtc_get_real_time s in (t - rtc_start_time (dev s'), s')
      else (riscv_cpu_get_cycles s div RTC_FREQ_DIV, s))"

section \<open>HTIF\<close>

definition htif_read :: "u32 \<Rightarrow> nat \<Rightarrow> mcpu \<Rightarrow> u32 \<times> mcpu" where
  "htif_read offset size_log2 s =
     (let m = dev s in
      (if offset = 0 then ucast (htif_tohost m)
       else if offset = 4 then ucast (drop_bit 32 (htif_tohost m))
       else if offset = 8 then ucast (htif_fromhost m)
       else if offset = 12 then ucast (drop_bit 32 (htif_fromhost m))
       else 0, s))"

definition htif_handle_cmd :: "machine \<Rightarrow> machine" where
  "htif_handle_cmd m =
     (let device = drop_bit 56 (htif_tohost m);
          cmd = drop_bit 48 (htif_tohost m) AND 0xff
      in if htif_tohost m = 1 then m\<lparr>exited := True\<rparr>
         else if device = 1 \<and> cmd = 1 then
           m\<lparr>console_out := console_out m @ [ucast (htif_tohost m AND 0xff)],
             htif_tohost := 0,
             htif_fromhost := push_bit 56 device OR push_bit 48 cmd\<rparr>
         else if device = 1 \<and> cmd = 0 then m\<lparr>htif_tohost := 0\<rparr>
         else m)"

text \<open>\<open>~0xffffffff\<close> is the complement of an \<open>unsigned int\<close>, that is \<open>0\<close>: writing a low half
  clears the high half.\<close>

definition not_ffffffff :: u64 where
  "not_ffffffff = ucast (NOT (0xffffffff :: u32))"

definition htif_write :: "u32 \<Rightarrow> u32 \<Rightarrow> nat \<Rightarrow> mcpu \<Rightarrow> mcpu" where
  "htif_write offset val size_log2 s =
     (let m = dev s in
      if offset = 0 then s\<lparr>dev := m\<lparr>htif_tohost := (htif_tohost m AND not_ffffffff) OR ucast val\<rparr>\<rparr>
      else if offset = 4 then
        s\<lparr>dev := htif_handle_cmd
             (m\<lparr>htif_tohost := (htif_tohost m AND 0xffffffff) OR push_bit 32 (ucast val)\<rparr>)\<rparr>
      else if offset = 8 then
        s\<lparr>dev := m\<lparr>htif_fromhost := (htif_fromhost m AND not_ffffffff) OR ucast val\<rparr>\<rparr>
      else if offset = 12 then
        s\<lparr>dev := m\<lparr>htif_fromhost := (htif_fromhost m AND 0xffffffff) OR push_bit 32 (ucast val)\<rparr>\<rparr>
      else s)"

section \<open>CLINT\<close>

definition clint_read :: "u32 \<Rightarrow> nat \<Rightarrow> mcpu \<Rightarrow> u32 \<times> mcpu" where
  "clint_read offset size_log2 s =
     (if offset = 0xbff8 then (let (t, s') = rtc_get_time s in (ucast t, s'))
      else if offset = 0xbffc then (let (t, s') = rtc_get_time s in (ucast (drop_bit 32 t), s'))
      else if offset = 0x4000 then (ucast (timecmp (dev s)), s)
      else if offset = 0x4004 then (ucast (drop_bit 32 (timecmp (dev s))), s)
      else (0, s))"

definition clint_write :: "u32 \<Rightarrow> u32 \<Rightarrow> nat \<Rightarrow> mcpu \<Rightarrow> mcpu" where
  "clint_write offset val size_log2 s =
     (let m = dev s in
      if offset = 0x4000 then
        riscv_cpu_reset_mip MIP_MTIP
          (s\<lparr>dev := m\<lparr>timecmp := (timecmp m AND not_ffffffff) OR ucast val\<rparr>\<rparr>)
      else if offset = 0x4004 then
        riscv_cpu_reset_mip MIP_MTIP
          (s\<lparr>dev := m\<lparr>timecmp := (timecmp m AND 0xffffffff) OR push_bit 32 (ucast val)\<rparr>\<rparr>)
      else s)"

section \<open>PLIC\<close>

text \<open>The sources that are pending and not being served.\<close>

definition plic_mask :: "machine \<Rightarrow> u32" where
  "plic_mask m = plic_pending_irq m AND NOT (plic_served_irq m)"

definition plic_update_mip :: "mcpu \<Rightarrow> mcpu" where
  "plic_update_mip s =
     (if c_true (plic_mask (dev s)) then riscv_cpu_set_mip (MIP_MEIP OR MIP_SEIP) s
      else riscv_cpu_reset_mip (MIP_MEIP OR MIP_SEIP) s)"

definition plic_read :: "u32 \<Rightarrow> nat \<Rightarrow> mcpu \<Rightarrow> u32 \<times> mcpu" where
  "plic_read offset size_log2 s =
     (if offset = PLIC_HART_BASE then (0, s)
      else if offset = PLIC_HART_BASE + 4 then
        let m = dev s; msk = plic_mask m in
        if msk \<noteq> 0 then
          let i = ctz32 msk
          in (of_nat i + 1,
              plic_update_mip
                (s\<lparr>dev := m\<lparr>plic_served_irq := plic_served_irq m OR push_bit i 1\<rparr>\<rparr>))
        else (0, s)
      else (0, s))"

definition plic_write :: "u32 \<Rightarrow> u32 \<Rightarrow> nat \<Rightarrow> mcpu \<Rightarrow> mcpu" where
  "plic_write offset val size_log2 s =
     (if offset = PLIC_HART_BASE + 4 then
        let v = val - 1; m = dev s in
        if v < 32 then
          plic_update_mip
            (s\<lparr>dev := m\<lparr>plic_served_irq := plic_served_irq m AND NOT (push_bit (unat v) 1)\<rparr>\<rparr>)
        else s
      else s)"

definition plic_set_irq :: "int \<Rightarrow> int \<Rightarrow> mcpu \<Rightarrow> mcpu" where
  "plic_set_irq irq state s =
     (let m = dev s;
          msk = push_bit (nat (irq - 1)) 1
      in plic_update_mip
           (s\<lparr>dev := m\<lparr>plic_pending_irq :=
                (if state \<noteq> 0 then plic_pending_irq m OR msk
                 else plic_pending_irq m AND NOT msk)\<rparr>\<rparr>))"

section \<open>The bus\<close>

text \<open>The \<open>opaque\<close> value of a range names its device; the ranges of the machine are registered in
  \<open>riscv_machine_init\<close>.\<close>

definition CLINT_ID :: nat where "CLINT_ID = 0"
definition PLIC_ID :: nat where "PLIC_ID = 1"
definition HTIF_ID :: nat where "HTIF_ID = 2"

definition machine_read :: "nat \<Rightarrow> u32 \<Rightarrow> nat \<Rightarrow> mcpu \<Rightarrow> u32 \<times> mcpu" where
  "machine_read op offset size_log2 s =
     (if op = CLINT_ID then clint_read offset size_log2 s
      else if op = PLIC_ID then plic_read offset size_log2 s
      else if op = HTIF_ID then htif_read offset size_log2 s
      else (0, s))"

definition machine_write :: "nat \<Rightarrow> u32 \<Rightarrow> u32 \<Rightarrow> nat \<Rightarrow> mcpu \<Rightarrow> mcpu" where
  "machine_write op offset val size_log2 s =
     (if op = CLINT_ID then clint_write offset val size_log2 s
      else if op = PLIC_ID then plic_write offset val size_log2 s
      else if op = HTIF_ID then htif_write offset val size_log2 s
      else s)"

definition machine_bus :: "u64 \<Rightarrow> machine bus" where
  "machine_bus j = \<lparr>dev_read = machine_read, dev_write = machine_write, junk = j\<rparr>"

section \<open>Waiting and running\<close>

text \<open>The delay in milliseconds before the next event, at most \<open>delay\<close>. The division of the
  \<open>int64_t\<close> is exact truncation of a positive number.\<close>

definition riscv_machine_get_sleep_duration :: "int \<Rightarrow> mcpu \<Rightarrow> int \<times> mcpu" where
  "riscv_machine_get_sleep_duration delay s =
     (let (delay', s') =
        (if riscv_cpu_get_mip s AND MIP_MTIP = 0 then
           let (t, s1) = rtc_get_time s;
               delay1 = sint (timecmp (dev s1) - t)
           in if delay1 \<le> 0 then (0, riscv_cpu_set_mip MIP_MTIP s1)
              else
                let ms = delay1 div (uint RTC_FREQ div 1000)
                in (if ms < delay then ms else delay, s1)
         else (delay, s))
      in (if \<not> riscv_cpu_get_power_down s' then 0 else delay', s'))"

definition riscv_machine_interp :: "u64 \<Rightarrow> int \<Rightarrow> mcpu \<Rightarrow> mcpu option" where
  "riscv_machine_interp j max_exec_cycle s = riscv_cpu_interp (machine_bus j) max_exec_cycle s"

definition riscv_flush_tlb_write_range :: "u64 \<Rightarrow> u64 \<Rightarrow> mcpu \<Rightarrow> mcpu" where
  "riscv_flush_tlb_write_range ram_addr ram_sz s =
     riscv_cpu_flush_tlb_write_range_ram ram_addr ram_sz s"

end
