(* ===== verification/MachineInv.thy ===== *)
theory MachineInv
  imports Machine
begin

text \<open>
  Invariants of the running machine: the interpretations of \<open>cpu_invariant\<close> on the bus of
  \<open>riscv_machine.c\<close>. The zero register, and the legal values of the control state: privilege,
  rounding mode and unit state in range, delegation masks, counter masks, trap vectors, satp mode.
\<close>

section \<open>Frames of the operations\<close>

text \<open>What leaves the integer registers alone.\<close>

lemma reg_frame [frame_simps]:
  "reg (tlb_flush_all s) = reg s" "reg (tlb_init s) = reg s"
  "reg (set_mstatus s v) = reg s" "reg (set_priv s p) = reg s" "reg (set_frm s n) = reg s"
  "reg (snd (csr_write s csr v)) = reg s"
  "reg (riscv_cpu_set_mip msk s) = reg s" "reg (riscv_cpu_reset_mip msk s) = reg s"
  by (simp_all add: tlb_flush_all_def tlb_init_def set_mstatus_def set_priv_def set_frm_def
      csr_write_def write_satp_def write_misa_def riscv_cpu_set_mip_def riscv_cpu_reset_mip_def Let_def)

lemma reg_frame_trap [frame_simps]:
  "reg (raise_exception2 s c t) = reg s" "reg (handle_sret s) = reg s" "reg (handle_mret s) = reg s"
  by (simp_all add: raise_exception2_def handle_sret_def handle_mret_def Let_def frame_simps)

lemma reg_frame_dev [frame_simps]:
  "reg (snd (machine_read op off k m)) = reg m" "reg (machine_write op off v k m) = reg m"
  by (simp_all add: machine_read_def machine_write_def clint_read_def clint_write_def plic_read_def
      plic_write_def htif_read_def htif_write_def plic_update_mip_def rtc_get_time_def
      rtc_get_real_time_def Let_def split_beta frame_simps)

interpretation x0: cpu_invariant "\<lambda>s. reg s 0 = 0" "machine_bus j" for j
  by unfold_locales (simp_all add: machine_bus_def set_reg_def frame_simps)

section \<open>Legal control state\<close>

text \<open>No bit outside a mask.\<close>

definition bits_in :: "'a::len word \<Rightarrow> 'a word \<Rightarrow> bool" where
  "bits_in a b \<longleftrightarrow> a AND NOT b = 0"

lemma bits_in_iff: "bits_in a b \<longleftrightarrow> (\<forall>i < LENGTH('a). bit a i \<longrightarrow> bit b i)"
  for a b :: "'a::len word"
  by (auto simp: bits_in_def bit_eq_iff bit_simps)

lemma bits_in_refl [simp]: "bits_in a a"
  by (simp add: bits_in_iff)

lemma bits_in_trans: "bits_in a b \<Longrightarrow> bits_in b c \<Longrightarrow> bits_in a c"
  by (simp add: bits_in_iff)

lemma bits_in_masked:
  fixes old msk b :: u32
  assumes "bits_in old b" "bits_in msk b"
  shows "bits_in (ucast (masked_write (ucast old) (ucast msk) val)) b"
  using assms by (auto simp: bits_in_iff masked_write_def bit_simps)

definition MIDELEG_MASK :: u32 where "MIDELEG_MASK = MIP_SSIP OR MIP_STIP OR MIP_SEIP"

definition MIE_MASK :: u32 where
  "MIE_MASK = MIP_MSIP OR MIP_MTIP OR MIP_SSIP OR MIP_STIP OR MIP_SEIP"

definition MEDELEG_MASK :: u32 where "MEDELEG_MASK = push_bit 16 1 - 1"

lemma MIDELEG_in_MIE: "bits_in MIDELEG_MASK MIE_MASK"
  by (simp add: bits_in_def MIDELEG_MASK_def MIE_MASK_def mip_consts)

text \<open>The values that the write-any-read-legal fields may hold.\<close>

definition valid_satp_mode :: "nat \<Rightarrow> bool" where
  "valid_satp_mode md \<longleftrightarrow> md = 0 \<or> md = 8 \<or> md = 9"

definition valid_mxl :: "nat \<Rightarrow> bool" where
  "valid_mxl m \<longleftrightarrow> m = 1 \<or> m = 2"

text \<open>The bits that \<open>mstatus\<close> may hold: its writable fields but for \<open>FS\<close>, which is kept apart in \<open>fs\<close>, and the interrupt
  enable of the reserved mode 2, which \<open>mret\<close> sets when it returns there. \<open>UXL\<close> is legal; the code keeps no such
  property of \<open>SXL\<close> and so of \<open>cur_xlen\<close>.\<close>

definition MSTATUS_KEPT :: u64 where
  "MSTATUS_KEPT = (MSTATUS_MASK AND NOT MSTATUS_FS) OR MSTATUS_UXL_MASK OR MSTATUS_SXL_MASK OR push_bit 2 1"

definition mstatus_legal :: "u64 \<Rightarrow> bool" where
  "mstatus_legal w \<longleftrightarrow> bits_in w MSTATUS_KEPT \<and> valid_mxl (unat (drop_bit MSTATUS_UXL_SHIFT w AND 3))"

text \<open>The bits that \<open>satp\<close> may hold: the root table's page number and the mode.\<close>

definition SATP_KEPT :: u64 where
  "SATP_KEPT = (push_bit 44 1 - 1) OR push_bit 60 0xf"

definition csr_legal :: "'d cpu \<Rightarrow> bool" where
  "csr_legal s \<longleftrightarrow>
     priv s \<le> 3 \<and> frm s < 5 \<and> fs s < 4 \<and> valid_mxl (mxl s)
     \<and> bits_in (mideleg s) MIDELEG_MASK \<and> bits_in (medeleg s) MEDELEG_MASK
     \<and> bits_in (mie s) MIE_MASK
     \<and> bits_in (mtvec s) (NOT 3) \<and> bits_in (stvec s) (NOT 3)
     \<and> bits_in (ucast (mcounteren s)) COUNTEREN_MASK
     \<and> bits_in (ucast (scounteren s)) COUNTEREN_MASK
     \<and> valid_satp_mode (satp_mode s) \<and> bits_in (satp s) SATP_KEPT
     \<and> mstatus_legal (mstatus s)"

lemma legal_other [simp]:
  "csr_legal (s\<lparr>reg := f\<rparr>) = csr_legal s" "csr_legal (s\<lparr>fp_reg := f\<rparr>) = csr_legal s"
  "csr_legal (s\<lparr>fflags := u\<rparr>) = csr_legal s" "csr_legal (s\<lparr>pc := w\<rparr>) = csr_legal s"
  "csr_legal (s\<lparr>pending_exception := i\<rparr>) = csr_legal s" "csr_legal (s\<lparr>pending_tval := w\<rparr>) = csr_legal s"
  "csr_legal (s\<lparr>insn_counter := w\<rparr>) = csr_legal s" "csr_legal (s\<lparr>power_down_flag := b\<rparr>) = csr_legal s"
  "csr_legal (s\<lparr>load_res := w\<rparr>) = csr_legal s" "csr_legal (s\<lparr>tlb_read := t\<rparr>) = csr_legal s"
  "csr_legal (s\<lparr>tlb_write := t\<rparr>) = csr_legal s" "csr_legal (s\<lparr>tlb_code := t\<rparr>) = csr_legal s"
  "csr_legal (s\<lparr>ram := m\<rparr>) = csr_legal s" "csr_legal (s\<lparr>mem_map := mm\<rparr>) = csr_legal s"
  "csr_legal (s\<lparr>cur_xlen := n\<rparr>) = csr_legal s"
  "csr_legal (s\<lparr>mip := u\<rparr>) = csr_legal s" "csr_legal (s\<lparr>dev := d\<rparr>) = csr_legal s"
  "csr_legal (s\<lparr>sscratch := w\<rparr>) = csr_legal s" "csr_legal (s\<lparr>mscratch := w\<rparr>) = csr_legal s"
  "csr_legal (s\<lparr>sepc := w\<rparr>) = csr_legal s" "csr_legal (s\<lparr>mepc := w\<rparr>) = csr_legal s"
  "csr_legal (s\<lparr>scause := w\<rparr>) = csr_legal s" "csr_legal (s\<lparr>mcause := w\<rparr>) = csr_legal s"
  "csr_legal (s\<lparr>stval := w\<rparr>) = csr_legal s" "csr_legal (s\<lparr>mtval := w\<rparr>) = csr_legal s"
  by (simp_all add: csr_legal_def satp_mode_def)

lemma unat_and_mask_le: "unat (w AND mask n) \<le> 2 ^ n - 1" for w :: "'a::len word"
  using mod_less_divisor [of "2 ^ n" "unat w"]
  by (simp add: and_mask_take_bit unat_take_bit less_Suc_eq_le [symmetric] del: mod_less_divisor)

lemma unat_and_3: "unat (w AND 3) < 4" for w :: "'a::len word"
proof -
  have "(3 :: 'a word) = mask 2" by (simp add: mask_eq_exp_minus_1)
  then show ?thesis using unat_and_mask_le [of w 2] by simp
qed

lemma legal_set:
  assumes "csr_legal s"
  shows "csr_legal (s\<lparr>fs := 3\<rparr>)" "n < 4 \<Longrightarrow> csr_legal (s\<lparr>fs := n\<rparr>)" "n \<le> 3 \<Longrightarrow> csr_legal (s\<lparr>priv := n\<rparr>)"
    "n < 5 \<Longrightarrow> csr_legal (s\<lparr>frm := n\<rparr>)" "valid_mxl n \<Longrightarrow> csr_legal (s\<lparr>mxl := n\<rparr>)"
    "bits_in w (NOT 3) \<Longrightarrow> csr_legal (s\<lparr>mtvec := w\<rparr>)" "bits_in w (NOT 3) \<Longrightarrow> csr_legal (s\<lparr>stvec := w\<rparr>)"
    "bits_in (ucast u) COUNTEREN_MASK \<Longrightarrow> csr_legal (s\<lparr>mcounteren := u\<rparr>)"
    "bits_in (ucast u) COUNTEREN_MASK \<Longrightarrow> csr_legal (s\<lparr>scounteren := u\<rparr>)"
    "bits_in u MEDELEG_MASK \<Longrightarrow> csr_legal (s\<lparr>medeleg := u\<rparr>)"
    "bits_in u MIDELEG_MASK \<Longrightarrow> csr_legal (s\<lparr>mideleg := u\<rparr>)"
    "bits_in u MIE_MASK \<Longrightarrow> csr_legal (s\<lparr>mie := u\<rparr>)"
    "valid_satp_mode (unat (drop_bit 60 w AND 0xf)) \<Longrightarrow> bits_in w SATP_KEPT \<Longrightarrow> csr_legal (s\<lparr>satp := w\<rparr>)"
    "mstatus_legal w \<Longrightarrow> csr_legal (s\<lparr>mstatus := w\<rparr>)"
  using assms by (simp_all add: csr_legal_def satp_mode_def)

lemma bits_in_and: "bits_in (w AND m) m"
  by (auto simp: bits_in_iff bit_simps)

lemma bits_in_counteren: "bits_in (ucast (ucast (w AND COUNTEREN_MASK) :: u32)) COUNTEREN_MASK"
  by (auto simp: bits_in_iff bit_simps)

lemma legal_writes:
  assumes "csr_legal s"
  shows "csr_legal (s\<lparr>medeleg := ucast (masked_write (ucast (medeleg s)) (push_bit 16 1 - 1) w)\<rparr>)"
    "csr_legal (s\<lparr>mideleg := ucast (masked_write (ucast (mideleg s))
       (ucast (MIP_SSIP OR MIP_STIP OR MIP_SEIP)) w)\<rparr>)"
    "csr_legal (s\<lparr>mie := ucast (masked_write (ucast (mie s)) (ucast (mideleg s)) w)\<rparr>)"
    "csr_legal (s\<lparr>mie := ucast (masked_write (ucast (mie s))
       (ucast (MIP_MSIP OR MIP_MTIP OR MIP_SSIP OR MIP_STIP OR MIP_SEIP)) w)\<rparr>)"
proof -
  have l: "bits_in (medeleg s) MEDELEG_MASK" "bits_in (mideleg s) MIDELEG_MASK" "bits_in (mie s) MIE_MASK"
    using assms by (simp_all add: csr_legal_def)
  have e: "(push_bit 16 1 - 1 :: u64) = ucast MEDELEG_MASK"
    by (simp add: MEDELEG_MASK_def)
  show "csr_legal (s\<lparr>medeleg := ucast (masked_write (ucast (medeleg s)) (push_bit 16 1 - 1) w)\<rparr>)"
    unfolding e by (intro legal_set assms bits_in_masked l bits_in_refl)
  show "csr_legal (s\<lparr>mideleg := ucast (masked_write (ucast (mideleg s))
       (ucast (MIP_SSIP OR MIP_STIP OR MIP_SEIP)) w)\<rparr>)"
    unfolding MIDELEG_MASK_def [symmetric] by (intro legal_set assms bits_in_masked l bits_in_refl)
  show "csr_legal (s\<lparr>mie := ucast (masked_write (ucast (mie s)) (ucast (mideleg s)) w)\<rparr>)"
    by (intro legal_set assms bits_in_masked l bits_in_trans [OF l(2) MIDELEG_in_MIE])
  show "csr_legal (s\<lparr>mie := ucast (masked_write (ucast (mie s))
       (ucast (MIP_MSIP OR MIP_MTIP OR MIP_SSIP OR MIP_STIP OR MIP_SEIP)) w)\<rparr>)"
    unfolding MIE_MASK_def [symmetric] by (intro legal_set assms bits_in_masked l bits_in_refl)
qed

lemma legal_tlb_flush_all [simp]: "csr_legal (tlb_flush_all s) = csr_legal s"
  by (simp add: tlb_flush_all_def tlb_init_def)

lemma mstatus_kept_literal: "MSTATUS_KEPT = 0xF000E19BF"
  by (simp add: MSTATUS_KEPT_def MSTATUS_MASK_def mstatus_consts mstatus_shifts)

lemma mstatus_of_legal: "csr_legal s \<Longrightarrow> mstatus_legal (mstatus s)"
  by (simp add: csr_legal_def)

lemma uxl_cong:
  assumes "bit v 32 = bit w 32" "bit v 33 = bit w 33"
  shows "drop_bit MSTATUS_UXL_SHIFT v AND 3 = drop_bit MSTATUS_UXL_SHIFT w AND (3 :: u64)"
proof (rule bit_word_eqI)
  fix n
  have three: "(3 :: u64) = mask 2" by (simp add: mask_eq_exp_minus_1)
  show "bit (drop_bit MSTATUS_UXL_SHIFT v AND 3) n = bit (drop_bit MSTATUS_UXL_SHIFT w AND 3) n"
    unfolding three using assms by (cases n) (auto simp: bit_simps mstatus_shifts less_Suc_eq)
qed

text \<open>Clearing low bits and setting implemented ones keeps a legal value.\<close>

lemma high_bits_clear: "bits_in x (mask 32) \<Longrightarrow> \<not> bit x 32" "bits_in x (mask 32) \<Longrightarrow> \<not> bit x 33" for x :: u64
  unfolding bits_in_iff by (auto simp: bit_mask_iff dest: spec [of _ 32] spec [of _ 33])

lemma mstatus_legal_and:
  assumes "mstatus_legal w" "bits_in x (mask 32)"
  shows "mstatus_legal (w AND NOT x)"
proof -
  have "drop_bit MSTATUS_UXL_SHIFT (w AND NOT x) AND 3 = drop_bit MSTATUS_UXL_SHIFT w AND 3"
    using high_bits_clear [OF assms(2)] by (intro uxl_cong) (simp_all add: bit_simps)
  moreover have "bits_in (w AND NOT x) MSTATUS_KEPT"
    using assms(1) by (auto simp: mstatus_legal_def bits_in_iff bit_simps)
  ultimately show ?thesis using assms(1) by (simp add: mstatus_legal_def)
qed

lemma mstatus_legal_or:
  assumes "mstatus_legal w" "bits_in y 0x19BF"
  shows "mstatus_legal (w OR y)"
proof -
  have "bits_in (0x19BF :: u64) MSTATUS_KEPT" "bits_in (0x19BF :: u64) (mask 32)"
    by (simp_all add: bits_in_def mstatus_kept_literal mask_eq_exp_minus_1)
  then have y: "bits_in y MSTATUS_KEPT" "bits_in y (mask 32)" using bits_in_trans [OF assms(2)] by blast+
  have "drop_bit MSTATUS_UXL_SHIFT (w OR y) AND 3 = drop_bit MSTATUS_UXL_SHIFT w AND 3"
    using high_bits_clear [OF y(2)] by (intro uxl_cong) (simp_all add: bit_simps)
  moreover have "bits_in (w OR y) MSTATUS_KEPT"
    using assms(1) y(1) by (auto simp: mstatus_legal_def bits_in_iff bit_simps)
  ultimately show ?thesis using assms(1) by (simp add: mstatus_legal_def)
qed

lemma bits_in_shifted_bit: "k < 64 \<Longrightarrow> bits_in (push_bit k (x AND 1)) (push_bit k 1 :: u64)"
  by (auto simp: bits_in_iff bit_simps)

text \<open>A write through the mask leaves a legal value: \<open>UXL\<close> changes to a legal base or not at all.\<close>

lemma mstatus_legal_write:
  assumes "mstatus_legal old"
  shows "mstatus_legal ((old AND NOT (mstatus_write_mask v)) OR (v AND mstatus_write_mask v))"
proof -
  let ?f = "\<lambda>w :: u64. drop_bit MSTATUS_UXL_SHIFT w AND 3"
  let ?w = "(old AND NOT (mstatus_write_mask v)) OR (v AND mstatus_write_mask v)"
  have "bits_in (mstatus_write_mask v) MSTATUS_KEPT"
    by (auto simp: mstatus_write_mask_def MSTATUS_KEPT_def bits_in_iff bit_simps Let_def)
  then have "bits_in ?w MSTATUS_KEPT"
    using assms by (auto simp: mstatus_legal_def bits_in_iff bit_simps)
  moreover have "valid_mxl (unat (?f ?w))"
  proof (cases "valid_mxl (unat (?f v))")
    case True
    then have "mstatus_write_mask v = 0xF000E19BB"
      by (auto simp: mstatus_write_mask_def get_base_from_xlen_def Let_def valid_mxl_def MSTATUS_MASK_def mstatus_consts)
    then have "?f ?w = ?f v" by (intro uxl_cong) (simp_all add: bit_simps bit_numeral_rec)
    then show ?thesis using True by simp
  next
    case False
    then have "mstatus_write_mask v = 0xE19BB"
      by (auto simp: mstatus_write_mask_def get_base_from_xlen_def Let_def valid_mxl_def MSTATUS_MASK_def mstatus_consts)
    then have "?f ?w = ?f old" by (intro uxl_cong) (simp_all add: bit_simps bit_numeral_rec)
    then show ?thesis using assms by (simp add: mstatus_legal_def)
  qed
  ultimately show ?thesis by (simp add: mstatus_legal_def)
qed

lemma legal_set_mstatus: "csr_legal s \<Longrightarrow> csr_legal (set_mstatus s v)"
  by (simp add: set_mstatus_def Let_def legal_set unat_and_3 tlb_flush_all_def tlb_init_def mstatus_legal_write mstatus_of_legal)

lemma legal_set_frm: "csr_legal s \<Longrightarrow> csr_legal (set_frm s n)"
  by (simp add: set_frm_def legal_set(4))

lemma legal_set_priv: "csr_legal s \<Longrightarrow> p \<le> 3 \<Longrightarrow> csr_legal (set_priv s p)"
  by (simp add: set_priv_def Let_def legal_set(3))

lemma mask_literals: "(0xf :: u64) = mask 4" "(push_bit 44 1 - 1 :: u64) = mask 44"
  by (simp_all add: mask_eq_exp_minus_1)

lemma satp_mode_field:
  fixes w :: u64
  assumes "md < 16"
  shows "unat (drop_bit 60 (w AND (push_bit 44 1 - 1) OR push_bit 60 (of_nat md)) AND 0xf) = md"
proof -
  have "drop_bit 60 (w AND mask 44 OR push_bit 60 (of_nat md)) AND mask 4
      = (take_bit 4 (of_nat md) :: u64)"
    by (rule bit_word_eqI)
      (simp only: bit_and_iff bit_or_iff bit_drop_bit_eq bit_push_bit_iff bit_mask_iff bit_take_bit_iff o_apply, auto)
  then show ?thesis
    unfolding mask_literals using assms by (simp add: unat_take_bit unat_of_nat)
qed

lemma satp_kept: "bits_in ((w AND (push_bit 44 1 - 1)) OR push_bit 60 v) SATP_KEPT"
  unfolding SATP_KEPT_def bits_in_iff mask_literals
  by (auto simp only: bit_simps) auto

lemma legal_write_satp: "csr_legal s \<Longrightarrow> csr_legal (write_satp s w)"
proof -
  assume l: "csr_legal s"
  define md where "md = unat (drop_bit 60 (satp s))"
  define new_mode where "new_mode = unat (drop_bit 60 w AND 0xf)"
  define md' where "md' = (if new_mode = 0 \<or> (new_mode \<ge> 8 \<and> new_mode \<le> 9) then new_mode else md)"
  have "drop_bit 60 (satp s) AND 0xf = drop_bit 60 (satp s)"
    unfolding mask_literals by (rule bit_word_eqI) (auto simp: bit_simps dest: bit_imp_le_length)
  then have "satp_mode s = md" by (simp add: satp_mode_def md_def)
  with l have "valid_satp_mode md" by (simp add: csr_legal_def)
  then have v: "valid_satp_mode md'"
    by (auto simp: md'_def valid_satp_mode_def)
  then have "md' < 16" by (auto simp: valid_satp_mode_def)
  then have "csr_legal (s\<lparr>satp := (w AND (push_bit 44 1 - 1)) OR push_bit 60 (of_nat md')\<rparr>)"
    by (intro legal_set l, simp only: satp_mode_field v) (rule satp_kept)
  then show ?thesis
    by (simp only: write_satp_def Let_def legal_tlb_flush_all md_def new_mode_def md'_def)
qed

lemma legal_write_misa: "csr_legal s \<Longrightarrow> csr_legal (snd (write_misa s w))"
  by (auto simp: write_misa_def Let_def get_base_from_xlen_def intro!: legal_set(5))
    (auto simp: valid_mxl_def)

lemma legal_csr_write: "csr_legal s \<Longrightarrow> csr_legal (snd (csr_write s csr w))"
proof -
  assume l: "csr_legal s"
  have fc: "csr_legal ((set_frm s n)\<lparr>fs := 3\<rparr>)" "csr_legal ((set_frm s n)\<lparr>fflags := u, fs := 3\<rparr>)"
    "csr_legal (s\<lparr>fflags := u, fs := 3\<rparr>)" for n u
    using legal_set(1) [OF legal_set_frm [OF l]] legal_set(1) [OF l]
      legal_set(1) [of "(set_frm s n)\<lparr>fflags := u\<rparr>"] legal_set(1) [of "s\<lparr>fflags := u\<rparr>"]
    by (simp_all add: legal_set_frm l)
  have legal_if: "csr_legal (snd x) \<Longrightarrow> csr_legal (snd y) \<Longrightarrow> csr_legal (snd (if b then x else y))"
    for x y :: "int \<times> 'a cpu" and b
    by simp
  show ?thesis
    unfolding csr_write_def
    apply (intro legal_if)
    apply (simp_all only: snd_conv legal_other l)
    apply (rule fc legal_set_mstatus legal_writes legal_write_satp legal_write_misa l
        | rule legal_set, rule l, rule bits_in_and bits_in_counteren)+
    done
qed

lemma legal_stack:
  assumes "mstatus_legal (mstatus s)" "bits_in (pie OR pp OR ie) (mask 32)" "bits_in (push_bit pie_shift 1 :: u64) 0x19BF"
    "pie_shift < 64" "bits_in (push_bit pp_shift (of_nat (priv s)) :: u64) 0x19BF"
  shows "mstatus_legal (stack_ie s pie pie_shift pp pp_shift ie)"
proof -
  have "bits_in pie (mask 32)" "bits_in pp (mask 32)" "bits_in ie (mask 32)"
    using assms(2) by (auto simp: bits_in_iff bit_simps)
  moreover have "bits_in (push_bit pie_shift (x AND 1)) 0x19BF" for x :: u64
    by (rule bits_in_trans [OF bits_in_shifted_bit assms(3)]) (rule assms(4))
  ultimately show ?thesis
    unfolding stack_ie_def Let_def by (intro mstatus_legal_and mstatus_legal_or assms)
qed

lemma legal_raise: "csr_legal s \<Longrightarrow> csr_legal (raise_exception2 s c t)"
proof -
  assume l: "csr_legal s"
  have p: "priv s = 0 \<or> priv s = 1 \<or> priv s = 2 \<or> priv s = 3" using l by (auto simp: csr_legal_def)
  have "bits_in (push_bit MSTATUS_MPP_SHIFT (of_nat (priv s))) (0x19BF :: u64)"
    using p by (elim disjE) (simp_all add: bits_in_def mstatus_consts)
  then have m: "mstatus_legal (stack_ie s MSTATUS_MPIE MSTATUS_MPIE_SHIFT MSTATUS_MPP MSTATUS_MPP_SHIFT MSTATUS_MIE)"
    by (intro legal_stack mstatus_of_legal l) (simp_all add: bits_in_def mstatus_consts mask_eq_exp_minus_1)
  have d: "mstatus_legal (stack_ie s MSTATUS_SPIE MSTATUS_SPIE_SHIFT MSTATUS_SPP MSTATUS_SPP_SHIFT MSTATUS_SIE)"
    if "trap_delegated s c"
  proof (intro legal_stack mstatus_of_legal l)
    have "priv s = 0 \<or> priv s = 1" using that by (auto simp: trap_delegated_def split: if_splits)
    then show "bits_in (push_bit MSTATUS_SPP_SHIFT (of_nat (priv s))) (0x19BF :: u64)"
      by (elim disjE) (simp_all add: bits_in_def mstatus_consts)
  qed (simp_all add: bits_in_def mstatus_consts mask_eq_exp_minus_1)
  show ?thesis
    using l d m by (auto simp: raise_exception2_def Let_def intro!: legal_set_priv legal_set)
qed

lemma unat_and_1: "unat (w AND 1) \<le> 3" for w :: "'a::len word"
  using unat_and_mask_le [of w 1] by simp

lemma legal_stacked_bit:
  assumes "p \<le> 3"
  shows "bits_in (push_bit p 1 :: u64) (mask 32)" "bits_in (push_bit p (x AND 1)) (0x19BF :: u64)"
proof -
  have "p = 0 \<or> p = 1 \<or> p = 2 \<or> p = 3" using assms by auto
  then have "bits_in (push_bit p 1 :: u64) (mask 32) \<and> bits_in (push_bit p 1 :: u64) 0x19BF"
    by (elim disjE) (simp_all add: bits_in_def mask_eq_exp_minus_1)
  moreover have "bits_in (push_bit p (x AND 1)) (push_bit p 1 :: u64)" by (rule bits_in_shifted_bit) (use assms in simp)
  ultimately show "bits_in (push_bit p 1 :: u64) (mask 32)" "bits_in (push_bit p (x AND 1)) (0x19BF :: u64)"
    using bits_in_trans by blast+
qed

lemma legal_ret:
  assumes l: "csr_legal s"
  shows "csr_legal (handle_sret s)" "csr_legal (handle_mret s)"
proof -
  have c: "bits_in MSTATUS_SPIE 0x19BF" "bits_in MSTATUS_MPIE 0x19BF" "bits_in MSTATUS_SPP (mask 32)" "bits_in MSTATUS_MPP (mask 32)"
    by (simp_all add: bits_in_def mstatus_consts mask_eq_exp_minus_1)
  have p: "unat (drop_bit MSTATUS_MPP_SHIFT (mstatus s) AND 3) \<le> 3" "unat (drop_bit MSTATUS_SPP_SHIFT (mstatus s) AND 1) \<le> 3"
    using unat_and_3 [of "drop_bit MSTATUS_MPP_SHIFT (mstatus s)"] by (simp_all add: unat_and_1)
  show "csr_legal (handle_sret s)" "csr_legal (handle_mret s)"
    unfolding handle_sret_def handle_mret_def Let_def legal_other
    by (intro legal_set_priv legal_set l mstatus_legal_and mstatus_legal_or mstatus_of_legal legal_stacked_bit c p)+
qed

lemma legal_set_mip [simp]: "csr_legal (riscv_cpu_set_mip m s) = csr_legal s"
  "csr_legal (riscv_cpu_reset_mip m s) = csr_legal s"
  by (simp_all add: riscv_cpu_set_mip_def riscv_cpu_reset_mip_def Let_def)

lemma legal_dev:
  "csr_legal s \<Longrightarrow> csr_legal (snd (machine_read op off k s))"
  "csr_legal s \<Longrightarrow> csr_legal (machine_write op off v k s)"
  by (simp_all add: machine_read_def machine_write_def clint_read_def clint_write_def plic_read_def
      plic_write_def htif_read_def htif_write_def plic_update_mip_def rtc_get_time_def
      rtc_get_real_time_def Let_def split_beta)

interpretation legal: cpu_invariant csr_legal "machine_bus j" for j
  by unfold_locales
    (simp_all add: machine_bus_def set_reg_def legal_set(1) legal_csr_write legal_raise legal_ret legal_dev)

lemma legal_init: "csr_legal (riscv_cpu_init mm m d)"
  by (simp add: riscv_cpu_init_def tlb_init_def zero_cpu_def csr_legal_def Let_def bits_in_def
      valid_mxl_def valid_satp_mode_def satp_mode_def get_base_from_xlen_def mstatus_legal_def mstatus_kept_literal
      mstatus_consts)

section \<open>Properties\<close>

definition idle_machine :: machine where
  "idle_machine = \<lparr>max_xlen = 64, ram_size = 0, rtc_real_time = False, rtc_start_time = 0,
     timecmp = 0, plic_pending_irq = 0, plic_served_irq = 0, htif_tohost = 0, htif_fromhost = 0,
     console_out = [], exited = False, clock = (\<lambda>_. (0, 0)), clock_calls = 0\<rparr>"

definition bare_machine :: mcpu where
  "bare_machine = riscv_cpu_init [] (\<lambda>_. 0) idle_machine"

lemma bare_machine_run: "\<exists>s'. riscv_machine_interp j 1 bare_machine = Some s'"
  by (simp add: bare_machine_def riscv_machine_interp_def interp_eval)

lemma bare_machine_reg: "reg bare_machine = (\<lambda>_. 0)"
  by (simp add: bare_machine_def riscv_cpu_init_def zero_cpu_def tlb_init_def Let_def)

text \<open>The zero register stays zero through any run of the machine: no instruction, trap or
  device callback changes it.\<close>

theorem zero_register:
  assumes "riscv_machine_interp j n s = Some s'" and "reg s 0 = 0"
  shows "reg s' 0 = 0"
  using assms unfolding riscv_machine_interp_def by (rule x0.I_riscv_cpu_interp)

theorem zero_register_witness:
  "\<exists>s'. riscv_machine_interp 0 1 bare_machine = Some s' \<and> reg s' 0 = 0"
proof -
  obtain s' where s': "riscv_machine_interp 0 1 bare_machine = Some s'" using bare_machine_run by auto
  have "reg bare_machine 0 = 0" by (simp add: bare_machine_reg)
  then have "reg s' 0 = 0" by (rule zero_register [OF s'])
  then show ?thesis using s' by auto
qed

text \<open>C13: Any run of the machine keeps these facts of the control state: the privilege is a two-bit value (2, the reserved
  mode, is not excluded: \<open>mret\<close> enters it), the rounding mode is below 5, the state of the floating-point unit is a two-bit
  value, the base width of the machine is 32 or 64 bits, \<open>mideleg\<close>, \<open>medeleg\<close>, \<open>mie\<close>, \<open>mcounteren\<close> and \<open>scounteren\<close>
  stay within their implemented bits, the trap vectors are aligned, \<open>satp\<close> has an implemented mode and only a root page number
  besides it, and \<open>mstatus\<close> holds nothing but its writable fields (and bit 2, which a return to mode 2 sets), \<open>UXL\<close> being
  32 or 64 bits. Of \<open>SXL\<close> and the current width no such fact holds.\<close>

theorem control_state_legal:
  assumes "riscv_machine_interp j n s = Some s'" and "csr_legal s"
  shows "csr_legal s'"
  using assms unfolding riscv_machine_interp_def by (rule legal.I_riscv_cpu_interp)

theorem control_state_legal_witness:
  "\<exists>s'. riscv_machine_interp 0 1 bare_machine = Some s' \<and> csr_legal s'"
proof -
  obtain s' where s': "riscv_machine_interp 0 1 bare_machine = Some s'" using bare_machine_run by auto
  have "csr_legal bare_machine" by (simp add: bare_machine_def legal_init)
  then have "csr_legal s'" by (rule control_state_legal [OF s'])
  then show ?thesis using s' by auto
qed

end
