(* ===== verification/Privilege.thy ===== *)
theory Privilege
  imports MachineInv
begin

text \<open>
  The privileged architecture as the code implements it: what code below M mode can change
  (an interpretation of \<open>insn_invariant\<close>), how a trap is entered and undone by \<open>mret\<close> and
  \<open>sret\<close>, which interrupt is taken, and what a CSR holds after a write.
\<close>

section \<open>Isolation of the machine mode\<close>

text \<open>The state that belongs to M mode: its trap registers, the delegation, the counter enables,
  the identification, and the fields of \<open>mstatus\<close> and \<open>mie\<close> that are not visible in S mode.\<close>

definition machine_config where
  "machine_config s = ((mtvec s, mscratch s, mepc s, mcause s, mtval s), (medeleg s, mideleg s, mcounteren s),
     (mhartid s, misa s, mxl s), mstatus s AND NOT SSTATUS_MASK, mie s AND NOT (mideleg s))"

lemma machine_config_other [simp]:
  "machine_config (s\<lparr>reg := f\<rparr>) = machine_config s" "machine_config (s\<lparr>fp_reg := f\<rparr>) = machine_config s"
  "machine_config (s\<lparr>fflags := u\<rparr>) = machine_config s" "machine_config (s\<lparr>frm := n\<rparr>) = machine_config s"
  "machine_config (s\<lparr>pc := w\<rparr>) = machine_config s" "machine_config (s\<lparr>fs := n\<rparr>) = machine_config s"
  "machine_config (s\<lparr>pending_exception := i\<rparr>) = machine_config s" "machine_config (s\<lparr>pending_tval := w\<rparr>) = machine_config s"
  "machine_config (s\<lparr>insn_counter := w\<rparr>) = machine_config s" "machine_config (s\<lparr>power_down_flag := b\<rparr>) = machine_config s"
  "machine_config (s\<lparr>load_res := w\<rparr>) = machine_config s" "machine_config (s\<lparr>tlb_read := t\<rparr>) = machine_config s"
  "machine_config (s\<lparr>tlb_write := t\<rparr>) = machine_config s" "machine_config (s\<lparr>tlb_code := t\<rparr>) = machine_config s"
  "machine_config (s\<lparr>ram := m\<rparr>) = machine_config s" "machine_config (s\<lparr>mem_map := mm\<rparr>) = machine_config s"
  "machine_config (s\<lparr>cur_xlen := n\<rparr>) = machine_config s" "machine_config (s\<lparr>priv := n\<rparr>) = machine_config s"
  "machine_config (s\<lparr>mip := u\<rparr>) = machine_config s" "machine_config (s\<lparr>dev := d\<rparr>) = machine_config s"
  "machine_config (s\<lparr>sscratch := w\<rparr>) = machine_config s" "machine_config (s\<lparr>sepc := w\<rparr>) = machine_config s"
  "machine_config (s\<lparr>scause := w\<rparr>) = machine_config s" "machine_config (s\<lparr>stval := w\<rparr>) = machine_config s"
  "machine_config (s\<lparr>stvec := w\<rparr>) = machine_config s" "machine_config (s\<lparr>satp := w\<rparr>) = machine_config s"
  "machine_config (s\<lparr>scounteren := u\<rparr>) = machine_config s"
  by (simp_all add: machine_config_def)

lemma machine_config_tlb [simp]:
  "machine_config (tlb_flush_all s) = machine_config s" "machine_config (set_priv s p) = machine_config s"
  "machine_config (set_frm s n) = machine_config s" "machine_config (riscv_cpu_set_mip m s) = machine_config s"
  "machine_config (riscv_cpu_reset_mip m s) = machine_config s" "machine_config (set_reg rd v s) = machine_config s"
  by (simp_all add: tlb_flush_all_def tlb_init_def set_priv_def set_frm_def riscv_cpu_set_mip_def
      riscv_cpu_reset_mip_def set_reg_def Let_def)

lemma priv_frame [frame_simps]:
  "priv (tlb_flush_all s) = priv s" "priv (set_priv s p) = p"
  "priv (set_frm s n) = priv s" "priv (riscv_cpu_set_mip m s) = priv s" "priv (set_mstatus s v) = priv s"
  "priv (riscv_cpu_reset_mip m s) = priv s" "priv (set_reg rd v s) = priv s"
  by (simp_all add: tlb_flush_all_def tlb_init_def set_priv_def set_frm_def riscv_cpu_set_mip_def
      riscv_cpu_reset_mip_def set_reg_def set_mstatus_def Let_def)

lemma priv_csr_write [frame_simps]: "priv (snd (csr_write s csr v)) = priv s"
  by (simp add: csr_write_def write_satp_def write_misa_def Let_def frame_simps)

text \<open>A write of \<open>sstatus\<close> keeps the fields it does not show.\<close>

lemma mstatus_set_mstatus:
  "mstatus (set_mstatus s v) = (mstatus s AND NOT (mstatus_write_mask v)) OR (v AND mstatus_write_mask v)"
  by (simp add: set_mstatus_def tlb_flush_all_def tlb_init_def Let_def)

lemma sstatus_write_keeps:
  "machine_config (set_mstatus s ((mstatus s AND NOT SSTATUS_MASK) OR (v AND SSTATUS_MASK))) = machine_config s"
    (is "machine_config (set_mstatus s ?w) = _")
proof -
  have "mstatus (set_mstatus s ?w) AND NOT SSTATUS_MASK = mstatus s AND NOT SSTATUS_MASK"
    unfolding mstatus_set_mstatus by (rule bit_word_eqI) (auto simp: bit_simps)
  then show ?thesis
    by (simp add: machine_config_def) (simp add: set_mstatus_def tlb_flush_all_def tlb_init_def Let_def)
qed

lemma masked_write_keeps:
  "(ucast (masked_write (ucast (x :: u32)) (ucast msk) v) :: u32) AND NOT msk = x AND NOT msk"
  by (rule bit_word_eqI) (auto simp: masked_write_def bit_simps)

lemma csr_read_priv: "csr_read s csr w = Some v \<Longrightarrow> unat (drop_bit 8 csr AND 3) \<le> priv s"
  by (auto simp: csr_read_def split: if_splits)

lemma config_if:
  "machine_config (snd x) = c \<Longrightarrow> machine_config (snd y) = c \<Longrightarrow> machine_config (snd (if b then x else y)) = c"
  by simp

lemma supervisor_csr_write:
  assumes "unat (drop_bit 8 csr AND 3) \<le> 1"
  shows "machine_config (snd (csr_write s csr v)) = machine_config s"
proof -
  have nm: "csr \<noteq> c" if "2 \<le> unat (drop_bit 8 c AND 3)" for c
    using assms that by auto
  have ne: "csr \<noteq> 0x300" "csr \<noteq> 0x301" "csr \<noteq> 0x302" "csr \<noteq> 0x303" "csr \<noteq> 0x304" "csr \<noteq> 0x305"
    "csr \<noteq> 0x306" "csr \<noteq> 0x340" "csr \<noteq> 0x341" "csr \<noteq> 0x342" "csr \<noteq> 0x343" "csr \<noteq> 0x344"
    by (rule nm; simp)+
  have mc: "machine_config (s\<lparr>mie := ucast (masked_write (ucast (mie s)) (ucast (mideleg s)) v)\<rparr>) = machine_config s"
    by (simp add: machine_config_def masked_write_keeps)
  show ?thesis
    unfolding csr_write_def if_not_P [OF ne(1)] if_not_P [OF ne(2)] if_not_P [OF ne(3)] if_not_P [OF ne(4)]
      if_not_P [OF ne(5)] if_not_P [OF ne(6)] if_not_P [OF ne(7)] if_not_P [OF ne(8)] if_not_P [OF ne(9)]
      if_not_P [OF ne(10)] if_not_P [OF ne(11)] if_not_P [OF ne(12)]
    by (intro config_if)
      (simp_all add: sstatus_write_keeps mc write_satp_def Let_def)
qed

lemma supervisor_dev:
  "machine_config (snd (machine_read op off k s)) = machine_config s"
  "machine_config (machine_write op off v k s) = machine_config s"
  "priv (snd (machine_read op off k s)) = priv s" "priv (machine_write op off v k s) = priv s"
  by (simp_all add: machine_read_def machine_write_def clint_read_def clint_write_def plic_read_def
      plic_write_def htif_read_def htif_write_def plic_update_mip_def rtc_get_time_def
      rtc_get_real_time_def Let_def split_beta frame_simps)

lemma and_1_cases: "w AND 1 = 0 \<or> w AND 1 = 1" for w :: "'a::len word"
  by (cases "bit w 0") (auto intro!: bit_word_eqI simp: bit_simps bit_1_iff)

text \<open>An update of bits inside a mask keeps what is outside it.\<close>

lemma outside_update:
  "bits_in a K \<Longrightarrow> (x AND NOT a) AND NOT K = x AND NOT K"
  "bits_in a K \<Longrightarrow> (x OR a) AND NOT K = x AND NOT K" for x :: "'a::len word"
  by (auto intro!: bit_word_eqI simp: bits_in_iff bit_simps)

lemma sstatus_bits:
  fixes w e :: u64
  assumes "w = 0 \<or> w = 1" "e = 0 \<or> e = 1"
  shows "bits_in (push_bit (unat w) 1) SSTATUS_MASK" "bits_in (push_bit (unat w) e) SSTATUS_MASK"
    "bits_in MSTATUS_SPIE SSTATUS_MASK" "bits_in MSTATUS_SPP SSTATUS_MASK"
  using assms by (auto simp: bits_in_def SSTATUS_MASK_def SSTATUS_MASK0_def mstatus_consts)

lemma supervisor_sret: "machine_config (handle_sret s) = machine_config s" "priv (handle_sret s) \<le> PRV_S"
proof -
  define w where "w = drop_bit MSTATUS_SPP_SHIFT (mstatus s) AND 1"
  define e where "e = drop_bit MSTATUS_SPIE_SHIFT (mstatus s) AND 1"
  define m where "m = (((mstatus s AND NOT (push_bit (unat w) 1)) OR push_bit (unat w) e) OR MSTATUS_SPIE)
    AND NOT MSTATUS_SPP"
  have we: "w = 0 \<or> w = 1" "e = 0 \<or> e = 1" using and_1_cases by (simp_all add: w_def e_def)
  have "m AND NOT SSTATUS_MASK = mstatus s AND NOT SSTATUS_MASK"
    unfolding m_def by (simp only: outside_update sstatus_bits [OF we])
  then have "machine_config (s\<lparr>mstatus := m\<rparr>) = machine_config s"
    by (simp add: machine_config_def)
  then show "machine_config (handle_sret s) = machine_config s"
    by (simp add: handle_sret_def Let_def m_def w_def e_def)
  show "priv (handle_sret s) \<le> PRV_S"
    using and_1_cases [of "drop_bit MSTATUS_SPP_SHIFT (mstatus s)"]
    by (auto simp: handle_sret_def Let_def frame_simps)
qed

text \<open>Below M mode, with a given machine configuration.\<close>

definition supervised where
  "supervised C s \<longleftrightarrow> priv s \<le> PRV_S \<and> machine_config s = C"

interpretation sup: insn_invariant "supervised C" "machine_bus j" for C j
proof unfold_locales
  fix s :: mcpu and csr val
  assume s: "supervised C s" and r: "csr_read s csr True \<noteq> None"
  then have "unat (drop_bit 8 csr AND 3) \<le> 1"
    using csr_read_priv by (auto simp: supervised_def dest!: csr_read_priv)
  then show "supervised C (snd (csr_write s csr val))"
    using s by (simp add: supervised_def supervisor_csr_write frame_simps)
next
  fix s :: mcpu
  assume "supervised C s"
  then show "supervised C (handle_sret s)"
    using supervisor_sret [of s] by (simp add: supervised_def)
next
  fix s :: mcpu
  assume "supervised C s" "PRV_M \<le> priv s"
  then show "supervised C (handle_mret s)" by (simp add: supervised_def)
qed (simp_all add: supervised_def machine_bus_def supervisor_dev frame_simps)

subsection \<open>The only way up\<close>

text \<open>The state an iteration ends with.\<close>

fun step_state where
  "step_state (Continue l s) = s"
| "step_state (Stop n s) = s"

text \<open>The part of the machine configuration that a trap into M mode does not record in.\<close>

definition trap_vector_config where
  "trap_vector_config s = (mtvec s, mscratch s, medeleg s, mideleg s, mcounteren s, mhartid s, misa s, mxl s,
     mie s AND NOT (mideleg s))"

lemma config_vector: "machine_config s = machine_config t \<Longrightarrow> trap_vector_config s = trap_vector_config t"
  by (auto simp: machine_config_def trap_vector_config_def)

lemma trap_vector_other [simp]:
  "trap_vector_config (s\<lparr>pc := w\<rparr>) = trap_vector_config s"
  "trap_vector_config (s\<lparr>mcause := a, mepc := b, mtval := c, mstatus := d\<rparr>) = trap_vector_config s"
  by (simp_all add: trap_vector_config_def)

lemma trap_frame [frame_simps]:
  "trap_vector_config (set_priv s p) = trap_vector_config s"
  "mtvec (set_priv s p) = mtvec s" "stvec (set_priv s p) = stvec s"
  by (simp_all add: set_priv_def tlb_flush_all_def tlb_init_def trap_vector_config_def Let_def)

lemma bits_in_sstatus_S: "bits_in MSTATUS_SIE SSTATUS_MASK"
  by (simp add: bits_in_def SSTATUS_MASK_def SSTATUS_MASK0_def mstatus_consts)

lemma stack_ie_S_outside:
  assumes "priv s \<le> PRV_S"
  shows "stack_ie s MSTATUS_SPIE MSTATUS_SPIE_SHIFT MSTATUS_SPP MSTATUS_SPP_SHIFT MSTATUS_SIE AND NOT SSTATUS_MASK
    = mstatus s AND NOT SSTATUS_MASK"
proof -
  define e where "e = drop_bit (priv s) (mstatus s) AND 1"
  have "e = 0 \<or> e = 1" unfolding e_def by (rule and_1_cases)
  then have e: "bits_in (push_bit MSTATUS_SPIE_SHIFT e) SSTATUS_MASK"
    by (auto simp: bits_in_def SSTATUS_MASK_def SSTATUS_MASK0_def mstatus_consts)
  have "priv s = 0 \<or> priv s = 1" using assms by auto
  then have p: "bits_in (push_bit MSTATUS_SPP_SHIFT (of_nat (priv s))) SSTATUS_MASK"
    by (auto simp: bits_in_def SSTATUS_MASK_def SSTATUS_MASK0_def mstatus_consts)
  show ?thesis
    unfolding stack_ie_def Let_def e_def [symmetric]
    by (simp only: outside_update e p sstatus_bits(3,4) [where w = 0 and e = 0] simp_thms bits_in_sstatus_S)
qed

lemma trap_escalation:
  assumes "priv s \<le> PRV_S"
  shows "supervised (machine_config s) (raise_exception2 s c t)
    \<or> (priv (raise_exception2 s c t) = PRV_M \<and> pc (raise_exception2 s c t) = mtvec s
       \<and> trap_vector_config (raise_exception2 s c t) = trap_vector_config s)"
proof (cases "trap_delegated s c")
  case True
  have "machine_config (s\<lparr>scause := c1, sepc := c2, stval := c3, mstatus := stack_ie s MSTATUS_SPIE MSTATUS_SPIE_SHIFT MSTATUS_SPP MSTATUS_SPP_SHIFT
      MSTATUS_SIE\<rparr>) = machine_config s" for c1 c2 c3
    using stack_ie_S_outside [OF assms] by (simp add: machine_config_def)
  then show ?thesis
    using True by (simp add: raise_exception2_def Let_def supervised_def frame_simps)
next
  case False
  then show ?thesis
    by (simp add: raise_exception2_def Let_def frame_simps)
qed

text \<open>What an iteration may do to a supervised state.\<close>

definition escalates where
  "escalates C tv V s \<longleftrightarrow> supervised C s \<or> (priv s = PRV_M \<and> pc s = tv \<and> trap_vector_config s = V)"

lemma raise_escalates:
  assumes "supervised (machine_config s0) s"
  shows "escalates (machine_config s0) (mtvec s0) (trap_vector_config s0) (raise_exception2 s c t)"
proof -
  have c: "machine_config s = machine_config s0" and p: "priv s \<le> PRV_S" using assms by (simp_all add: supervised_def)
  have "mtvec s = mtvec s0" using c by (simp add: machine_config_def)
  then show ?thesis using trap_escalation [OF p, of c t] config_vector [OF c] c by (simp add: escalates_def)
qed

lemma exception_escalates:
  assumes "supervised (machine_config s0) s"
  shows "escalates (machine_config s0) (mtvec s0) (trap_vector_config s0) (step_state (exception l s))"
proof -
  have "supervised (machine_config s0) (s\<lparr>pc := GET_PC l\<rparr>)" using assms by (simp add: supervised_def)
  from raise_escalates [OF this] this show ?thesis
    by (simp add: exception_def done_interp_def Let_def) (simp add: escalates_def)
qed

lemma run_insn_escalates:
  assumes "supervised (machine_config s0) s"
  shows "escalates (machine_config s0) (mtvec s0) (trap_vector_config s0)
    (step_state (run_insn (machine_bus j) xlen l insn s))"
proof -
  obtain c s' where r: "exec_insn (machine_bus j) xlen insn (GET_PC l) (GET_INSN_COUNTER l) s = (c, s')" by force
  have s': "supervised (machine_config s0) s'"
    using sup.I_exec_insn [OF assms] r by (metis snd_conv)
  then have ill: "supervised (machine_config s0) (s'\<lparr>pending_exception := e, pending_tval := v\<rparr>)" for e v
    by (simp add: supervised_def)
  show ?thesis
    using s' exception_escalates [OF s'] exception_escalates [OF ill]
    by (cases c) (simp_all add: run_insn_def r after_insn_def illegal_insn_def done_interp_def escalates_def)
qed

lemma step_escalates:
  assumes "supervised (machine_config s0) s"
  shows "escalates (machine_config s0) (mtvec s0) (trap_vector_config s0)
    (step_state (interp_step (machine_bus j) xlen l s))"
proof -
  let ?l = "l\<lparr>n_cycles := n_cycles l - 1\<rparr>"
  define s1 where "s1 = s\<lparr>pc := GET_PC ?l\<rparr>"
  define r where "r = (if mip s1 AND mie s1 \<noteq> 0 then raise_interrupt s1 else (False, s1))"
  have s1: "supervised (machine_config s0) s1" using assms by (simp add: s1_def supervised_def)
  have r: "fst r \<Longrightarrow> escalates (machine_config s0) (mtvec s0) (trap_vector_config s0) (snd r)"
    "\<not> fst r \<Longrightarrow> snd r = s1"
    using raise_escalates [OF s1] by (auto simp: r_def raise_interrupt_def raise_exception_def Let_def)
  obtain o' s3 where f: "fetch_block ?l s1 = (o', s3)" by force
  have s3: "supervised (machine_config s0) s3" using sup.I_fetch_block [OF s1, of ?l] f by simp
  have e1: "escalates (machine_config s0) (mtvec s0) (trap_vector_config s0) s1" using s1 by (simp add: escalates_def)
  show ?thesis
    using r e1 run_insn_escalates [OF assms] run_insn_escalates [OF s3] exception_escalates [OF s3] f
    by (auto simp: interp_step_def [of _ _ l s, unfolded Let_def, folded s1_def, folded r_def] split_beta
        split: option.split)
qed

section \<open>Properties\<close>

text \<open>C2: No instruction executed in S or U mode raises the privilege above S mode or changes the
  state that belongs to M mode: its trap registers, the delegation, the counter enables, the
  fields of \<open>mstatus\<close> outside \<open>sstatus\<close> and the interrupt enables that are not delegated.\<close>

theorem supervisor_isolation:
  assumes "priv s \<le> PRV_S"
  shows "priv (snd (exec_insn (machine_bus j) xlen insn PC cnt s)) \<le> PRV_S
    \<and> machine_config (snd (exec_insn (machine_bus j) xlen insn PC cnt s)) = machine_config s"
  using sup.I_exec_insn [of "machine_config s" s j xlen insn PC cnt] assms
  by (simp add: supervised_def)

text \<open>C1: The only way out of S and U mode into M mode is a trap: after an iteration of the
  interpreter the machine configuration is unchanged and the privilege at most S, or the CPU is in
  M mode at the trap vector that M mode had installed, with the trap vector, the delegation, the
  counter enables and the interrupt enables of M mode unchanged.\<close>

theorem escalation_only_by_trap:
  assumes "priv s \<le> PRV_S" and "s' = step_state (interp_step (machine_bus j) xlen l s)"
  shows "(priv s' \<le> PRV_S \<and> machine_config s' = machine_config s)
    \<or> (priv s' = PRV_M \<and> pc s' = mtvec s \<and> trap_vector_config s' = trap_vector_config s)"
  using step_escalates [of s s j xlen l] assms by (simp add: supervised_def escalates_def)

text \<open>The bare machine, brought to U mode.\<close>

definition user_machine :: mcpu where
  "user_machine = set_priv bare_machine PRV_U"

lemma user_machine_priv: "priv user_machine = PRV_U"
  by (simp add: user_machine_def frame_simps)

theorem supervisor_isolation_witness:
  "priv (snd (exec_insn (machine_bus 0) 64 0x30200073 0 0 user_machine)) \<le> PRV_S"
  using supervisor_isolation [of user_machine 0 64 "0x30200073" 0 0] by (simp add: user_machine_priv)

definition start_locals :: interp_locals where
  "start_locals = \<lparr>n_cycles = 1, code_ptr = 0, code_end = 0, code_to_pc_addend = 0, insn_counter_addend = 1\<rparr>"

theorem escalation_only_by_trap_witness:
  "priv (step_state (interp_step (machine_bus 0) 64 start_locals user_machine)) \<le> PRV_S
    \<or> pc (step_state (interp_step (machine_bus 0) 64 start_locals user_machine)) = mtvec user_machine"
  using escalation_only_by_trap [of user_machine, OF _ refl, of 0 64 start_locals] by (auto simp: user_machine_priv)

end
