(* ===== verification/TrapReturn.thy ===== *)
theory TrapReturn
  imports Privilege
begin

text \<open>
  Traps and their return, interrupts and CSR contents, stated on the bits of \<open>mstatus\<close>, \<open>mip\<close> and
  \<open>mie\<close>: \<open>mret\<close> and \<open>sret\<close> undo \<open>raise_exception2\<close>, the interrupt taken is the lowest enabled
  one, and an abort of the interpreter is reachable through \<open>mstatus\<close>.
\<close>

section \<open>The bits of mstatus\<close>

lemma mstatus_bits:
  "bit MSTATUS_UIE n = (n = 0)" "bit MSTATUS_SIE n = (n = 1)" "bit MSTATUS_MIE n = (n = 3)"
  "bit MSTATUS_SPIE n = (n = 5)" "bit MSTATUS_MPIE n = (n = 7)" "bit MSTATUS_SPP n = (n = 8)"
  "bit MSTATUS_MPP n = (n = 11 \<or> n = 12)"
proof -
  have three: "(3 :: u64) = mask 2" by (simp add: mask_eq_exp_minus_1)
  show "bit MSTATUS_UIE n = (n = 0)" "bit MSTATUS_SIE n = (n = 1)" "bit MSTATUS_MIE n = (n = 3)"
    "bit MSTATUS_SPIE n = (n = 5)" "bit MSTATUS_MPIE n = (n = 7)" "bit MSTATUS_SPP n = (n = 8)"
    unfolding mstatus_consts bit_push_bit_iff bit_1_iff by auto
  show "bit MSTATUS_MPP n = (n = 11 \<or> n = 12)"
    unfolding mstatus_consts three bit_push_bit_iff bit_mask_iff by auto
qed

lemma bit_of_nat_priv:
  assumes "p \<le> 3"
  shows "bit (of_nat p :: u64) n \<longleftrightarrow> (n = 0 \<and> odd p) \<or> (n = 1 \<and> p \<ge> 2)"
proof -
  have "p = 0 \<or> p = 1 \<or> p = 2 \<or> p = 3" using assms by auto
  moreover have "bit (2 :: u64) n \<longleftrightarrow> n = 1" using bit_exp_iff [where 'a = u64, of 1 n] by auto
  moreover have "bit (3 :: u64) n \<longleftrightarrow> n = 0 \<or> n = 1"
    using bit_mask_iff [where 'a = u64, of 2 n] by (auto simp: mask_eq_exp_minus_1)
  ultimately show ?thesis by (auto simp: bit_1_iff)
qed

lemmas word_bits = bit_and_iff bit_or_iff bit_not_iff bit_push_bit_iff bit_drop_bit_eq o_apply bit_1_iff
  mstatus_bits possible_bit_word

text \<open>\<open>mstatus\<close> after a trap into M and into S mode.\<close>

lemma bit_stack_M:
  assumes "priv s \<le> 3" "n < 64"
  shows "bit (stack_ie s MSTATUS_MPIE MSTATUS_MPIE_SHIFT MSTATUS_MPP MSTATUS_MPP_SHIFT MSTATUS_MIE) n
    \<longleftrightarrow> (if n = 3 then False else if n = 7 then bit (mstatus s) (priv s) else if n = 11 then odd (priv s)
        else if n = 12 then priv s \<ge> 2 else bit (mstatus s) n)"
  using assms(2) unfolding stack_ie_def Let_def
  by (simp only: word_bits bit_of_nat_priv [OF assms(1)] mstatus_shifts) auto

lemma bit_stack_S:
  assumes "priv s \<le> 1" "n < 64"
  shows "bit (stack_ie s MSTATUS_SPIE MSTATUS_SPIE_SHIFT MSTATUS_SPP MSTATUS_SPP_SHIFT MSTATUS_SIE) n
    \<longleftrightarrow> (if n = 1 then False else if n = 5 then bit (mstatus s) (priv s) else if n = 8 then odd (priv s)
        else bit (mstatus s) n)"
proof -
  have p: "priv s \<le> 3" using assms by simp
  show ?thesis
    using assms unfolding stack_ie_def Let_def
    by (simp only: word_bits bit_of_nat_priv [OF p] mstatus_shifts) auto
qed

lemma return_simps [frame_simps]:
  "mstatus (set_priv s p) = mstatus s" "mepc (set_priv s p) = mepc s" "sepc (set_priv s p) = sepc s"
  by (simp_all add: set_priv_def tlb_flush_all_def tlb_init_def Let_def)

text \<open>The returns, on the bits.\<close>

lemma mret_facts:
  fixes s :: "'d cpu"
  defines "p \<equiv> unat (drop_bit MSTATUS_MPP_SHIFT (mstatus s) AND 3)"
  shows "priv (handle_mret s) = p" "pc (handle_mret s) = mepc s"
    "n < 64 \<Longrightarrow> bit (mstatus (handle_mret s)) n
      \<longleftrightarrow> (if n = 11 \<or> n = 12 then False else if n = 7 then True else if n = p then bit (mstatus s) 7 else bit (mstatus s) n)"
proof -
  show "priv (handle_mret s) = p" "pc (handle_mret s) = mepc s"
    by (simp_all add: handle_mret_def Let_def frame_simps p_def)
  assume "n < 64"
  moreover have "mstatus (handle_mret s) = ((mstatus s AND NOT (push_bit p 1)
      OR push_bit p (drop_bit MSTATUS_MPIE_SHIFT (mstatus s) AND 1)) OR MSTATUS_MPIE) AND NOT MSTATUS_MPP"
    by (simp add: handle_mret_def Let_def frame_simps p_def)
  ultimately show "bit (mstatus (handle_mret s)) n
      \<longleftrightarrow> (if n = 11 \<or> n = 12 then False else if n = 7 then True else if n = p then bit (mstatus s) 7 else bit (mstatus s) n)"
    by (simp only: word_bits mstatus_shifts) auto
qed

lemma sret_facts:
  fixes s :: "'d cpu"
  defines "p \<equiv> unat (drop_bit MSTATUS_SPP_SHIFT (mstatus s) AND 1)"
  shows "priv (handle_sret s) = p" "pc (handle_sret s) = sepc s"
    "n < 64 \<Longrightarrow> bit (mstatus (handle_sret s)) n
      \<longleftrightarrow> (if n = 8 then False else if n = 5 then True else if n = p then bit (mstatus s) 5 else bit (mstatus s) n)"
proof -
  show "priv (handle_sret s) = p" "pc (handle_sret s) = sepc s"
    by (simp_all add: handle_sret_def Let_def frame_simps p_def)
  assume "n < 64"
  moreover have "mstatus (handle_sret s) = ((mstatus s AND NOT (push_bit p 1)
      OR push_bit p (drop_bit MSTATUS_SPIE_SHIFT (mstatus s) AND 1)) OR MSTATUS_SPIE) AND NOT MSTATUS_SPP"
    by (simp add: handle_sret_def Let_def frame_simps p_def)
  ultimately show "bit (mstatus (handle_sret s)) n
      \<longleftrightarrow> (if n = 8 then False else if n = 5 then True else if n = p then bit (mstatus s) 5 else bit (mstatus s) n)"
    by (simp only: word_bits mstatus_shifts) auto
qed

section \<open>The base width of a privilege\<close>

definition mode_xlen where
  "mode_xlen s p = push_bit (4 + (if p = PRV_S then unat (drop_bit MSTATUS_SXL_SHIFT (mstatus s) AND 3)
     else if p = PRV_U then unat (drop_bit MSTATUS_UXL_SHIFT (mstatus s) AND 3) else mxl s)) (1 :: nat)"

lemma set_priv_form:
  "\<exists>r w c. set_priv s p = s\<lparr>cur_xlen := (if priv s = p then cur_xlen s else mode_xlen s p), priv := p,
     tlb_read := r, tlb_write := w, tlb_code := c\<rparr>"
proof (cases "priv s = p")
  case True
  then have "set_priv s p = s\<lparr>cur_xlen := (if priv s = p then cur_xlen s else mode_xlen s p), priv := p,
     tlb_read := tlb_read s, tlb_write := tlb_write s, tlb_code := tlb_code s\<rparr>"
    by (simp add: set_priv_def)
  then show ?thesis by blast
next
  case False
  then have "set_priv s p = s\<lparr>cur_xlen := (if priv s = p then cur_xlen s else mode_xlen s p), priv := p,
     tlb_read := tlb_read (tlb_init s), tlb_write := tlb_write (tlb_init s), tlb_code := tlb_code (tlb_init s)\<rparr>"
    by (simp add: set_priv_def tlb_flush_all_def mode_xlen_def Let_def)
      (simp add: tlb_init_def)
  then show ?thesis by blast
qed

text \<open>The width depends on two fields of \<open>mstatus\<close> and on \<open>mxl\<close>.\<close>

lemma field_cong:
  fixes v w :: u64
  assumes "\<And>n. k \<le> n \<Longrightarrow> n < k + 2 \<Longrightarrow> bit v n = bit w n"
  shows "drop_bit k v AND 3 = drop_bit k w AND 3"
proof -
  have three: "(3 :: u64) = mask 2" by (simp add: mask_eq_exp_minus_1)
  show ?thesis
    unfolding three and_mask_take_bit by (rule bit_word_eqI) (use assms in \<open>auto simp: bit_simps\<close>)
qed

lemma mode_xlen_cong:
  assumes "\<And>n. 32 \<le> n \<Longrightarrow> n < 36 \<Longrightarrow> bit (mstatus s) n = bit (mstatus t) n" "mxl s = mxl t"
  shows "mode_xlen s p = mode_xlen t p"
proof -
  have "drop_bit MSTATUS_SXL_SHIFT (mstatus s) AND 3 = drop_bit MSTATUS_SXL_SHIFT (mstatus t) AND 3"
    "drop_bit MSTATUS_UXL_SHIFT (mstatus s) AND 3 = drop_bit MSTATUS_UXL_SHIFT (mstatus t) AND 3"
    using assms(1) by (auto intro!: field_cong simp: mstatus_shifts)
  then show ?thesis by (simp add: mode_xlen_def assms(2))
qed

section \<open>A return undoes a trap\<close>

lemma mpp_after_trap:
  assumes "priv s \<le> 3"
  shows "unat (drop_bit MSTATUS_MPP_SHIFT
      (stack_ie s MSTATUS_MPIE MSTATUS_MPIE_SHIFT MSTATUS_MPP MSTATUS_MPP_SHIFT MSTATUS_MIE) AND 3) = priv s"
proof -
  have three: "(3 :: u64) = mask 2" by (simp add: mask_eq_exp_minus_1)
  have "drop_bit MSTATUS_MPP_SHIFT
      (stack_ie s MSTATUS_MPIE MSTATUS_MPIE_SHIFT MSTATUS_MPP MSTATUS_MPP_SHIFT MSTATUS_MIE) AND 3 = of_nat (priv s)"
  proof (rule bit_word_eqI)
    fix n assume "n < LENGTH(64)"
    then show "bit (drop_bit MSTATUS_MPP_SHIFT (stack_ie s MSTATUS_MPIE MSTATUS_MPIE_SHIFT MSTATUS_MPP
        MSTATUS_MPP_SHIFT MSTATUS_MIE) AND 3) n = bit (of_nat (priv s) :: u64) n"
      using bit_stack_M [OF assms, of "11 + n"]
      unfolding bit_of_nat_priv [OF assms] three
      by (simp only: word_bits bit_mask_iff mstatus_shifts) (auto simp: less_Suc_eq numeral_2_eq_2)
  qed
  then show ?thesis using assms by (simp add: unat_of_nat)
qed

text \<open>The TLBs are a cache: states that agree up to them.\<close>

definition same_but_tlbs where
  "same_but_tlbs s t \<longleftrightarrow> (\<exists>r w c. s = t\<lparr>tlb_read := r, tlb_write := w, tlb_code := c\<rparr>)"

lemma same_but_tlbsI: "s = t\<lparr>tlb_read := r, tlb_write := w, tlb_code := c\<rparr> \<Longrightarrow> same_but_tlbs s t"
  by (auto simp: same_but_tlbs_def)

lemma mret_raise:
  assumes "priv s \<le> 3" "cur_xlen s = mode_xlen s (priv s)" "\<not> trap_delegated s c"
  obtains ms where "same_but_tlbs (handle_mret (raise_exception2 s c t))
      (s\<lparr>mcause := trap_cause s c, mepc := pc s, mtval := t, mstatus := ms\<rparr>)"
    and "\<And>n. n < 64 \<Longrightarrow> bit ms n \<longleftrightarrow> (if n = 11 \<or> n = 12 then False else if n = 7 then True
      else if n = 3 \<and> priv s \<noteq> PRV_M then False else bit (mstatus s) n)"
proof -
  define m1 where "m1 = stack_ie s MSTATUS_MPIE MSTATUS_MPIE_SHIFT MSTATUS_MPP MSTATUS_MPP_SHIFT MSTATUS_MIE"
  define s1 where "s1 = s\<lparr>mcause := trap_cause s c, mepc := pc s, mtval := t, mstatus := m1\<rparr>"
  define s2 where "s2 = raise_exception2 s c t"
  obtain r w d where e2: "s2 = (s1\<lparr>cur_xlen := (if priv s1 = PRV_M then cur_xlen s1 else mode_xlen s1 PRV_M),
      priv := PRV_M, tlb_read := r, tlb_write := w, tlb_code := d\<rparr>)\<lparr>pc := mtvec s\<rparr>"
    using set_priv_form [of s1 PRV_M] assms(3)
    by (auto simp: s2_def raise_exception2_def Let_def s1_def m1_def frame_simps)
  have m2: "mstatus s2 = m1" and p2: "priv s2 = PRV_M" by (simp_all add: e2 s1_def)
  have mpp: "unat (drop_bit MSTATUS_MPP_SHIFT (mstatus s2) AND 3) = priv s"
    unfolding m2 m1_def by (rule mpp_after_trap [OF assms(1)])
  define m3 where "m3 = mstatus (handle_mret s2)"
  have bits: "bit m3 n \<longleftrightarrow> (if n = 11 \<or> n = 12 then False else if n = 7 then True
      else if n = 3 \<and> priv s \<noteq> PRV_M then False else bit (mstatus s) n)" if "n < 64" for n
    using mret_facts(3) [OF that, of s2] bit_stack_M [OF assms(1) that] bit_stack_M [OF assms(1), of 7] assms(1)
    unfolding m3_def mpp by (auto simp: m2 m1_def)
  define s3 where "s3 = s2\<lparr>mstatus := m3\<rparr>"
  have h: "handle_mret s2 = (set_priv s3 (priv s))\<lparr>pc := mepc s2\<rparr>"
    using mpp by (simp add: s3_def m3_def handle_mret_def Let_def frame_simps)
  have x3: "mode_xlen s3 (priv s) = mode_xlen s (priv s)"
    by (rule mode_xlen_cong) (use bits in \<open>auto simp: s3_def e2 s1_def\<close>)
  have x: "(if priv s3 = priv s then cur_xlen s3 else mode_xlen s3 (priv s)) = cur_xlen s"
    using x3 assms(2) by (auto simp: s3_def e2 s1_def)
  obtain r' w' d' where e3: "set_priv s3 (priv s) = s3\<lparr>cur_xlen := cur_xlen s, priv := priv s,
      tlb_read := r', tlb_write := w', tlb_code := d'\<rparr>"
    using set_priv_form [of s3 "priv s"] unfolding x by blast
  have "same_but_tlbs (handle_mret s2) (s\<lparr>mcause := trap_cause s c, mepc := pc s, mtval := t, mstatus := m3\<rparr>)"
    unfolding h e3 by (rule same_but_tlbsI [where r = r' and w = w' and c = d'], rule cpu.equality) (simp_all add: s3_def e2 s1_def)
  with bits show thesis unfolding s2_def by (rule that [rotated])
qed

lemma spp_after_trap:
  assumes "priv s \<le> 1"
  shows "unat (drop_bit MSTATUS_SPP_SHIFT
      (stack_ie s MSTATUS_SPIE MSTATUS_SPIE_SHIFT MSTATUS_SPP MSTATUS_SPP_SHIFT MSTATUS_SIE) AND 1) = priv s"
proof -
  have p: "priv s \<le> 3" using assms by simp
  have "drop_bit MSTATUS_SPP_SHIFT
      (stack_ie s MSTATUS_SPIE MSTATUS_SPIE_SHIFT MSTATUS_SPP MSTATUS_SPP_SHIFT MSTATUS_SIE) AND 1 = of_nat (priv s)"
  proof (rule bit_word_eqI)
    fix n assume "n < LENGTH(64)"
    then show "bit (drop_bit MSTATUS_SPP_SHIFT (stack_ie s MSTATUS_SPIE MSTATUS_SPIE_SHIFT MSTATUS_SPP
        MSTATUS_SPP_SHIFT MSTATUS_SIE) AND 1) n = bit (of_nat (priv s) :: u64) n"
      using bit_stack_S [OF assms, of "8 + n"] assms
      unfolding bit_of_nat_priv [OF p]
      by (simp only: word_bits mstatus_shifts) auto
  qed
  then show ?thesis using assms by (simp add: unat_of_nat)
qed

lemma sret_raise:
  assumes "priv s \<le> 1" "cur_xlen s = mode_xlen s (priv s)" "trap_delegated s c"
  obtains ms where "same_but_tlbs (handle_sret (raise_exception2 s c t))
      (s\<lparr>scause := trap_cause s c, sepc := pc s, stval := t, mstatus := ms\<rparr>)"
    and "\<And>n. n < 64 \<Longrightarrow> bit ms n \<longleftrightarrow> (if n = 8 then False else if n = 5 then True
      else if n = 1 \<and> priv s \<noteq> PRV_S then False else bit (mstatus s) n)"
proof -
  define m1 where "m1 = stack_ie s MSTATUS_SPIE MSTATUS_SPIE_SHIFT MSTATUS_SPP MSTATUS_SPP_SHIFT MSTATUS_SIE"
  define s1 where "s1 = s\<lparr>scause := trap_cause s c, sepc := pc s, stval := t, mstatus := m1\<rparr>"
  define s2 where "s2 = raise_exception2 s c t"
  obtain r w d where e2: "s2 = (s1\<lparr>cur_xlen := (if priv s1 = PRV_S then cur_xlen s1 else mode_xlen s1 PRV_S),
      priv := PRV_S, tlb_read := r, tlb_write := w, tlb_code := d\<rparr>)\<lparr>pc := stvec s\<rparr>"
    using set_priv_form [of s1 PRV_S] assms(3)
    by (auto simp: s2_def raise_exception2_def Let_def s1_def m1_def frame_simps)
  have m2: "mstatus s2 = m1" and p2: "priv s2 = PRV_S" by (simp_all add: e2 s1_def)
  have spp: "unat (drop_bit MSTATUS_SPP_SHIFT (mstatus s2) AND 1) = priv s"
    unfolding m2 m1_def by (rule spp_after_trap [OF assms(1)])
  define m3 where "m3 = mstatus (handle_sret s2)"
  have bits: "bit m3 n \<longleftrightarrow> (if n = 8 then False else if n = 5 then True
      else if n = 1 \<and> priv s \<noteq> PRV_S then False else bit (mstatus s) n)" if "n < 64" for n
    using sret_facts(3) [OF that, of s2] bit_stack_S [OF assms(1) that] bit_stack_S [OF assms(1), of 5] assms(1)
    unfolding m3_def spp by (auto simp: m2 m1_def)
  define s3 where "s3 = s2\<lparr>mstatus := m3\<rparr>"
  have h: "handle_sret s2 = (set_priv s3 (priv s))\<lparr>pc := sepc s2\<rparr>"
    using spp by (simp add: s3_def m3_def handle_sret_def Let_def frame_simps)
  have x3: "mode_xlen s3 (priv s) = mode_xlen s (priv s)"
    by (rule mode_xlen_cong) (use bits in \<open>auto simp: s3_def e2 s1_def\<close>)
  have x: "(if priv s3 = priv s then cur_xlen s3 else mode_xlen s3 (priv s)) = cur_xlen s"
    using x3 assms(2) by (auto simp: s3_def e2 s1_def)
  obtain r' w' d' where e3: "set_priv s3 (priv s) = s3\<lparr>cur_xlen := cur_xlen s, priv := priv s,
      tlb_read := r', tlb_write := w', tlb_code := d'\<rparr>"
    using set_priv_form [of s3 "priv s"] unfolding x by blast
  have "same_but_tlbs (handle_sret s2) (s\<lparr>scause := trap_cause s c, sepc := pc s, stval := t, mstatus := m3\<rparr>)"
    unfolding h e3 by (rule same_but_tlbsI [where r = r' and w = w' and c = d'], rule cpu.equality) (simp_all add: s3_def e2 s1_def)
  with bits show thesis unfolding s2_def by (rule that [rotated])
qed

section \<open>The pending interrupt\<close>

text \<open>The architecture's rule: an interrupt that is pending and enabled is taken in M mode, or in S
  mode when it is delegated, if the current mode is below that mode, or is that mode with its
  interrupts enabled.\<close>

definition takes_interrupt where
  "takes_interrupt s i \<longleftrightarrow> bit (mip s) i \<and> bit (mie s) i
     \<and> (if bit (mideleg s) i then priv s < PRV_S \<or> (priv s = PRV_S \<and> bit (mstatus s) 1)
         else priv s < PRV_M \<or> (priv s = PRV_M \<and> bit (mstatus s) 3))"

lemma word_zero_bits: "w = 0 \<longleftrightarrow> (\<forall>n < LENGTH('a). \<not> bit w n)" for w :: "'a::len word"
  by (auto intro: bit_word_eqI)

lemma and_single: "w AND MSTATUS_MIE = 0 \<longleftrightarrow> \<not> bit w 3" "w AND MSTATUS_SIE = 0 \<longleftrightarrow> \<not> bit w 1"
  unfolding word_zero_bits and.commute [of w] by (simp_all add: bit_and_iff mstatus_bits)

lemma pending_mask_bits:
  assumes "priv s = PRV_U \<or> priv s = PRV_S \<or> priv s = PRV_M" "i < 32"
  shows "bit (get_pending_irq_mask s) i \<longleftrightarrow> takes_interrupt s i"
proof -
  have z: "mip s AND mie s = 0 \<Longrightarrow> \<not> (bit (mip s) i \<and> bit (mie s) i)"
    by (metis bit_and_iff bit_0_eq bot_apply bot_bool_def)
  show ?thesis
    using assms z
    by (auto simp: get_pending_irq_mask_def Let_def takes_interrupt_def and_single bit_and_iff bit_or_iff bit_not_iff)
qed

lemma interrupt_pending:
  assumes "get_pending_irq_mask s \<noteq> 0"
  shows "trap_delegated s (of_nat (ctz32 (get_pending_irq_mask s)) OR CAUSE_INTERRUPT)
    = (priv s \<le> PRV_S \<and> bit (mideleg s) (ctz32 (get_pending_irq_mask s)))"
proof -
  define i where "i = ctz32 (get_pending_irq_mask s)"
  have i: "i < 32" using ctz32_correct [OF assms] by (simp add: i_def)
  have ci: "bit CAUSE_INTERRUPT n = (n = 31)" for n
    unfolding CAUSE_INTERRUPT_def bit_push_bit_iff bit_1_iff by auto
  have c: "(of_nat i OR CAUSE_INTERRUPT :: u32) AND CAUSE_INTERRUPT \<noteq> 0"
    unfolding word_zero_bits by (auto simp: bit_and_iff bit_or_iff ci simp del: cpu_consts)
  have m: "(of_nat MAX_XLEN - 1 :: u32) = mask 6" by (simp add: mask_eq_exp_minus_1)
  have "(of_nat i OR CAUSE_INTERRUPT :: u32) AND mask 6 = of_nat i AND mask 6"
    by (auto intro!: bit_word_eqI simp: bit_and_iff bit_or_iff bit_mask_iff ci simp del: cpu_consts)
  then have "unat ((of_nat i OR CAUSE_INTERRUPT :: u32) AND (of_nat MAX_XLEN - 1)) = i"
    unfolding m using i by (simp add: and_mask_take_bit unat_take_bit unat_of_nat)
  then show ?thesis
    using c unfolding i_def [symmetric] trap_delegated_def
    by (simp add: and_one_eq mod_2_eq_odd bit_iff_odd_drop_bit [symmetric] del: cpu_consts)
qed

lemma trap_cause_interrupt:
  assumes "i < 31"
  shows "trap_cause s (of_nat i OR CAUSE_INTERRUPT) = of_nat i OR push_bit (cur_xlen s - 1) 1"
proof -
  have ci: "bit CAUSE_INTERRUPT n = (n = 31)" for n
    unfolding CAUSE_INTERRUPT_def bit_push_bit_iff bit_1_iff by auto
  have c: "(of_nat i OR CAUSE_INTERRUPT :: u32) AND CAUSE_INTERRUPT \<noteq> 0"
    unfolding word_zero_bits by (auto simp: bit_and_iff bit_or_iff ci simp del: cpu_consts)
  have "i < 2 ^ 31" using assms by simp
  then have t: "take_bit 31 i = i" by (rule take_bit_nat_eq_self)
  have m: "(0x7fffffff :: u32) = mask 31" by (simp add: mask_eq_exp_minus_1)
  have "(of_nat i OR CAUSE_INTERRUPT :: u32) AND mask 31 = of_nat i"
  proof (rule bit_word_eqI)
    fix n assume "n < LENGTH(32)"
    have "bit i n \<longrightarrow> n < 31" using arg_cong [OF t, of "\<lambda>x. bit x n"] by (auto simp: bit_take_bit_iff)
    then show "bit ((of_nat i OR CAUSE_INTERRUPT :: u32) AND mask 31) n = bit (of_nat i :: u32) n"
      by (auto simp: bit_and_iff bit_or_iff bit_mask_iff ci bit_of_nat_iff simp del: cpu_consts)
  qed
  moreover have "ucast (of_nat i :: u32) = (of_nat i :: u64)"
    using assms by (simp add: word_unat_eq_iff unat_of_nat unsigned_ucast_eq take_bit_nat_eq_self)
  ultimately show ?thesis using c by (simp add: trap_cause_def m del: cpu_consts)
qed

section \<open>An abort\<close>

lemma sxl_zero_kept:
  assumes "drop_bit MSTATUS_UXL_SHIFT v AND 3 = 1 \<or> drop_bit MSTATUS_UXL_SHIFT v AND 3 = 2"
  shows "drop_bit MSTATUS_SXL_SHIFT (mstatus (set_mstatus s v)) AND 3 = drop_bit MSTATUS_SXL_SHIFT v AND 3"
proof (rule field_cong)
  fix n assume n: "MSTATUS_SXL_SHIFT \<le> n" "n < MSTATUS_SXL_SHIFT + 2"
  have three: "(3 :: u64) = mask 2" by (simp add: mask_eq_exp_minus_1)
  have "bit MSTATUS_SXL_MASK n"
    using n unfolding MSTATUS_SXL_MASK_def three by (auto simp: bit_push_bit_iff bit_mask_iff mstatus_shifts)
  moreover have "mstatus_write_mask v = (MSTATUS_MASK AND NOT MSTATUS_FS OR MSTATUS_UXL_MASK) OR MSTATUS_SXL_MASK"
    using assms by (auto simp: mstatus_write_mask_def get_base_from_xlen_def Let_def)
  ultimately show "bit (mstatus (set_mstatus s v)) n = bit v n"
    unfolding mstatus_set_mstatus by (simp add: bit_and_iff bit_or_iff bit_not_iff)
qed

lemma mpp_written:
  "drop_bit MSTATUS_MPP_SHIFT (mstatus (set_mstatus s v)) AND 3 = drop_bit MSTATUS_MPP_SHIFT v AND 3"
proof (rule field_cong)
  fix n assume "MSTATUS_MPP_SHIFT \<le> n" "n < MSTATUS_MPP_SHIFT + 2"
  then have "n = 11 \<or> n = 12" by (auto simp: mstatus_shifts)
  then have "bit (MSTATUS_MASK AND NOT MSTATUS_FS) n"
    by (elim disjE) (simp_all add: MSTATUS_MASK_def mstatus_consts bit_numeral_rec)
  then have "bit (mstatus_write_mask v) n" by (auto simp: mstatus_write_mask_def bit_simps Let_def)
  then show "bit (mstatus (set_mstatus s v)) n = bit v n"
    unfolding mstatus_set_mstatus by (simp add: bit_simps)
qed

text \<open>A return from M mode to S mode takes the base width from \<open>SXL\<close>.\<close>

lemma mret_width:
  assumes "priv s = PRV_M" "drop_bit MSTATUS_MPP_SHIFT (mstatus s) AND 3 = 1"
  shows "cur_xlen (handle_mret s) = 2 ^ (4 + unat (drop_bit MSTATUS_SXL_SHIFT (mstatus s) AND 3))"
    "power_down_flag (handle_mret s) = power_down_flag s" "priv (handle_mret s) = PRV_S"
proof -
  let ?m = "(((mstatus s AND NOT (push_bit 1 1)) OR push_bit 1 (drop_bit MSTATUS_MPIE_SHIFT (mstatus s) AND 1)) OR MSTATUS_MPIE)
    AND NOT MSTATUS_MPP"
  have m: "handle_mret s = (let t = set_priv (s\<lparr>mstatus := ?m\<rparr>) PRV_S in t\<lparr>pc := mepc t\<rparr>)"
    using assms(2) by (simp add: handle_mret_def Let_def)
  have "drop_bit MSTATUS_SXL_SHIFT ?m AND 3 = drop_bit MSTATUS_SXL_SHIFT (mstatus s) AND 3"
  proof (rule field_cong)
    fix n assume "MSTATUS_SXL_SHIFT \<le> n" "n < MSTATUS_SXL_SHIFT + 2"
    then have "n = 34 \<or> n = 35" by (auto simp: mstatus_shifts)
    then show "bit ?m n = bit (mstatus s) n"
      by (elim disjE) (simp_all add: bit_simps mstatus_consts bit_numeral_rec)
  qed
  then show "cur_xlen (handle_mret s) = 2 ^ (4 + unat (drop_bit MSTATUS_SXL_SHIFT (mstatus s) AND 3))"
    "power_down_flag (handle_mret s) = power_down_flag s" "priv (handle_mret s) = PRV_S"
    using assms(1) unfolding m
    by (simp_all add: set_priv_def Let_def tlb_flush_all_def tlb_init_def push_bit_eq_mult)
qed

lemma interp_aborts:
  assumes "cur_xlen s \<noteq> 32" "cur_xlen s \<noteq> 64" "\<not> power_down_flag s" "0 < n" "n < 2 ^ 31"
  shows "riscv_cpu_interp E n s = None"
proof -
  have "u64_to_int (word_of_int n) = n"
  proof -
    have "(ucast (word_of_int n :: u64) :: u32) = word_of_int n"
      by (rule bit_word_eqI) (simp add: bit_simps)
    then show ?thesis using assms by (simp add: u64_to_int_def sint_u32_id)
  qed
  then show ?thesis using assms by (simp add: riscv_cpu_interp_def interp_outer.simps)
qed

section \<open>Properties\<close>

text \<open>C14: A trap into M mode followed by \<open>mret\<close> gives back the whole state up to the TLBs, but for the
  trap registers and \<open>mstatus\<close>, where \<open>MPP\<close> becomes U, \<open>MPIE\<close> is set, and \<open>MIE\<close> comes back cleared
  unless the trap came from M mode: the code saves the enable of the mode it left, not \<open>MIE\<close>.\<close>

theorem mret_undoes_trap:
  assumes "priv s \<le> 3" "cur_xlen s = mode_xlen s (priv s)" "\<not> trap_delegated s c"
  shows "\<exists>ms. same_but_tlbs (handle_mret (raise_exception2 s c t))
      (s\<lparr>mcause := trap_cause s c, mepc := pc s, mtval := t, mstatus := ms\<rparr>)
    \<and> (\<forall>n < 64. bit ms n \<longleftrightarrow> (if n = 11 \<or> n = 12 then False else if n = 7 then True
      else if n = 3 \<and> priv s \<noteq> PRV_M then False else bit (mstatus s) n))"
proof -
  obtain ms where "same_but_tlbs (handle_mret (raise_exception2 s c t))
      (s\<lparr>mcause := trap_cause s c, mepc := pc s, mtval := t, mstatus := ms\<rparr>)"
    and "\<And>n. n < 64 \<Longrightarrow> bit ms n \<longleftrightarrow> (if n = 11 \<or> n = 12 then False else if n = 7 then True
      else if n = 3 \<and> priv s \<noteq> PRV_M then False else bit (mstatus s) n)"
    by (rule mret_raise [OF assms]) blast
  then show ?thesis by blast
qed

text \<open>A CPU in U mode.\<close>

definition user_cpu :: "unit cpu" where
  "user_cpu = bare_cpu\<lparr>priv := PRV_U\<rparr>"

lemma user_cpu_simps: "priv user_cpu = 0" "cur_xlen user_cpu = mode_xlen user_cpu 0" "medeleg user_cpu = 0"
  "mstatus user_cpu = 0xA00000000"
  by (simp_all add: user_cpu_def bare_cpu_def riscv_cpu_init_def zero_cpu_def tlb_init_def mode_xlen_def
      mstatus_consts get_base_from_xlen_def Let_def)

theorem mret_undoes_trap_witness:
  "\<exists>ms. same_but_tlbs (handle_mret (raise_exception2 user_cpu 2 7))
      (user_cpu\<lparr>mcause := trap_cause user_cpu 2, mepc := pc user_cpu, mtval := 7, mstatus := ms\<rparr>)
    \<and> (\<forall>n < 64. bit ms n \<longleftrightarrow> (if n = 11 \<or> n = 12 then False else if n = 7 then True
      else if n = 3 \<and> priv user_cpu \<noteq> PRV_M then False else bit (mstatus user_cpu) n))"
  by (rule mret_undoes_trap) (simp_all add: user_cpu_simps trap_delegated_def)

text \<open>A trap delegated to S mode followed by \<open>sret\<close> restores the whole state up to the TLBs, but
  for the trap registers of S mode and \<open>mstatus\<close>, where \<open>SPP\<close> becomes U, \<open>SPIE\<close> is set and \<open>SIE\<close>
  comes back cleared unless the trap came from S mode.\<close>

theorem sret_undoes_trap:
  assumes "priv s \<le> 1" "cur_xlen s = mode_xlen s (priv s)" "trap_delegated s c"
  shows "\<exists>ms. same_but_tlbs (handle_sret (raise_exception2 s c t))
      (s\<lparr>scause := trap_cause s c, sepc := pc s, stval := t, mstatus := ms\<rparr>)
    \<and> (\<forall>n < 64. bit ms n \<longleftrightarrow> (if n = 8 then False else if n = 5 then True
      else if n = 1 \<and> priv s \<noteq> PRV_S then False else bit (mstatus s) n))"
proof -
  obtain ms where "same_but_tlbs (handle_sret (raise_exception2 s c t))
      (s\<lparr>scause := trap_cause s c, sepc := pc s, stval := t, mstatus := ms\<rparr>)"
    and "\<And>n. n < 64 \<Longrightarrow> bit ms n \<longleftrightarrow> (if n = 8 then False else if n = 5 then True
      else if n = 1 \<and> priv s \<noteq> PRV_S then False else bit (mstatus s) n)"
    by (rule sret_raise [OF assms]) blast
  then show ?thesis by blast
qed

text \<open>A CPU in U mode with illegal instructions delegated to S mode.\<close>

definition delegating_cpu :: "unit cpu" where
  "delegating_cpu = user_cpu\<lparr>medeleg := 4\<rparr>"

theorem sret_undoes_trap_witness:
  "\<exists>ms. same_but_tlbs (handle_sret (raise_exception2 delegating_cpu 2 7))
      (delegating_cpu\<lparr>scause := trap_cause delegating_cpu 2, sepc := pc delegating_cpu, stval := 7, mstatus := ms\<rparr>)
    \<and> (\<forall>n < 64. bit ms n \<longleftrightarrow> (if n = 8 then False else if n = 5 then True
      else if n = 1 \<and> priv delegating_cpu \<noteq> PRV_S then False else bit (mstatus delegating_cpu) n))"
  by (rule sret_undoes_trap)
    (simp_all add: delegating_cpu_def user_cpu_def bare_cpu_def riscv_cpu_init_def zero_cpu_def tlb_init_def
      mode_xlen_def mstatus_consts get_base_from_xlen_def trap_delegated_def Let_def)

text \<open>C15: \<open>raise_interrupt\<close> takes an interrupt exactly when the architecture's rule enables a pending
  one, namely the one with the lowest number: it enters S mode if that interrupt is delegated and
  the CPU is below M mode, else M mode, with the number and the interrupt bit in the cause
  register and the interrupted \<open>pc\<close> saved.\<close>

theorem interrupt_taken:
  assumes "priv s = PRV_U \<or> priv s = PRV_S \<or> priv s = PRV_M" and "\<not> bit (mip s) 31"
  shows "if \<exists>i < 32. takes_interrupt s i
    then \<exists>i s'. raise_interrupt s = (True, s') \<and> takes_interrupt s i \<and> (\<forall>j < i. \<not> takes_interrupt s j)
      \<and> (if priv s \<le> PRV_S \<and> bit (mideleg s) i
         then priv s' = PRV_S \<and> pc s' = stvec s \<and> scause s' = of_nat i OR push_bit (cur_xlen s - 1) 1 \<and> sepc s' = pc s
         else priv s' = PRV_M \<and> pc s' = mtvec s \<and> mcause s' = of_nat i OR push_bit (cur_xlen s - 1) 1 \<and> mepc s' = pc s)
    else raise_interrupt s = (False, s)"
proof (cases "get_pending_irq_mask s = 0")
  case True
  then have "\<not> (\<exists>i < 32. takes_interrupt s i)"
    using pending_mask_bits [OF assms(1)] by (metis bit_0_eq bot_apply bot_bool_def)
  then show ?thesis using True by (auto simp: raise_interrupt_def)
next
  case False
  define i where "i = ctz32 (get_pending_irq_mask s)"
  define s' where "s' = raise_exception s (of_nat i OR CAUSE_INTERRUPT)"
  have i: "takes_interrupt s i" "i < 32" "\<forall>j < i. \<not> takes_interrupt s j"
    using ctz32_correct [OF False] pending_mask_bits [OF assms(1)] by (auto simp: i_def)
  have "i \<noteq> 31" using i(1) assms(2) by (auto simp: takes_interrupt_def)
  then have c: "trap_cause s (of_nat i OR CAUSE_INTERRUPT) = of_nat i OR push_bit (cur_xlen s - 1) 1"
    by (intro trap_cause_interrupt) (use i(2) in simp)
  have d: "trap_delegated s (of_nat i OR CAUSE_INTERRUPT) = (priv s \<le> PRV_S \<and> bit (mideleg s) i)"
    unfolding i_def by (rule interrupt_pending [OF False])
  have f: "scause (set_priv t p) = scause t" "mcause (set_priv t p) = mcause t" for t :: "'a cpu" and p
    by (simp_all add: set_priv_def tlb_flush_all_def tlb_init_def Let_def)
  have "if priv s \<le> PRV_S \<and> bit (mideleg s) i
     then priv s' = PRV_S \<and> pc s' = stvec s \<and> scause s' = of_nat i OR push_bit (cur_xlen s - 1) 1 \<and> sepc s' = pc s
     else priv s' = PRV_M \<and> pc s' = mtvec s \<and> mcause s' = of_nat i OR push_bit (cur_xlen s - 1) 1 \<and> mepc s' = pc s"
    unfolding s'_def raise_exception_def raise_exception2_def d c Let_def by (simp add: frame_simps f del: cpu_consts)
  moreover have "raise_interrupt s = (True, s')"
    using False by (simp add: raise_interrupt_def s'_def i_def del: cpu_consts)
  ultimately show ?thesis using i by auto
qed

text \<open>C16: In M mode, a write of \<open>mstatus\<close> with a legal \<open>UXL\<close>, a zero \<open>SXL\<close> and S mode in \<open>MPP\<close> is followed by an abort
  of the emulator once \<open>mret\<close> has been executed: the code tests the value of \<open>UXL\<close> for both width fields and so keeps the zero,
  the return to S mode selects a base width of 16 bits, and the interpreter aborts for it.\<close>

theorem sxl_write_aborts:
  assumes "priv s = PRV_M" "drop_bit MSTATUS_UXL_SHIFT v AND 3 = 1 \<or> drop_bit MSTATUS_UXL_SHIFT v AND 3 = 2"
    and "drop_bit MSTATUS_SXL_SHIFT v AND 3 = 0" "drop_bit MSTATUS_MPP_SHIFT v AND 3 = 1"
    and "\<not> power_down_flag s" "0 < n" "n < 2 ^ 31"
  shows "riscv_cpu_interp E n (handle_mret (snd (csr_write s 0x300 v))) = None"
proof -
  define t where "t = set_mstatus s v"
  have w: "snd (csr_write s 0x300 v) = t" by (simp add: csr_write_def t_def)
  have "priv t = PRV_M" "\<not> power_down_flag t" "drop_bit MSTATUS_MPP_SHIFT (mstatus t) AND 3 = 1"
    using assms(1,5) by (simp_all add: t_def mpp_written assms(4)) (simp_all add: set_mstatus_def Let_def tlb_flush_all_def tlb_init_def)
  moreover have "drop_bit MSTATUS_SXL_SHIFT (mstatus t) AND 3 = 0"
    using sxl_zero_kept [OF assms(2), of s] by (simp add: t_def assms(3))
  ultimately have "cur_xlen (handle_mret t) = 16" "\<not> power_down_flag (handle_mret t)"
    using mret_width [of t] by simp_all
  then show ?thesis unfolding w by (intro interp_aborts assms) simp_all
qed

theorem sxl_write_aborts_witness:
  "riscv_cpu_interp silent_bus 5 (handle_mret (snd (csr_write bare_cpu 0x300 0x100000800))) = None"
  by (rule sxl_write_aborts)
    (simp_all add: mstatus_shifts bare_cpu_def riscv_cpu_init_def zero_cpu_def tlb_init_def Let_def)

text \<open>A CPU in M mode with the timer interrupt pending and enabled.\<close>

definition timer_cpu :: "unit cpu" where
  "timer_cpu = bare_cpu\<lparr>mip := MIP_MTIP, mie := MIP_MTIP, mstatus := MSTATUS_MIE\<rparr>"

lemma timer_cpu_simps: "priv timer_cpu = 3" "mip timer_cpu = 128" "mie timer_cpu = 128" "mideleg timer_cpu = 0"
  "mstatus timer_cpu = 8"
  by (simp_all add: timer_cpu_def bare_cpu_def riscv_cpu_init_def zero_cpu_def tlb_init_def mip_consts
      mstatus_consts Let_def)

theorem interrupt_taken_witness:
  "\<exists>i s'. raise_interrupt timer_cpu = (True, s') \<and> takes_interrupt timer_cpu i \<and> (\<forall>j < i. \<not> takes_interrupt timer_cpu j)
    \<and> priv s' = PRV_M \<and> pc s' = mtvec timer_cpu
    \<and> mcause s' = of_nat i OR push_bit (cur_xlen timer_cpu - 1) 1 \<and> mepc s' = pc timer_cpu"
proof -
  have "takes_interrupt timer_cpu 7"
    by (simp add: takes_interrupt_def timer_cpu_simps bit_numeral_rec)
  then have "\<exists>i < 32. takes_interrupt timer_cpu i" by (intro exI [of _ 7]) simp
  moreover have "\<not> bit (mip timer_cpu) 31" "priv timer_cpu = PRV_M" "\<not> priv timer_cpu \<le> PRV_S"
    by (simp_all add: timer_cpu_simps)
  ultimately show ?thesis using interrupt_taken [of timer_cpu] by simp
qed

end
