(* ===== verification/CsrSpec.thy ===== *)
theory CsrSpec
  imports TrapReturn
begin

text \<open>
  What the control and status registers hold after a write. \<open>csr_legal_value\<close> is the table of
  the write-any-read-legal rules; \<open>csr_write\<close> followed by \<open>csr_read\<close> is shown to follow it, and the
  access checks of \<open>csr_read\<close> are characterised.
\<close>

section \<open>The table of legal values\<close>

definition plain_csrs :: "u32 list" where
  "plain_csrs = [0x140, 0x142, 0x143, 0x340, 0x342, 0x343]"

text \<open>The value of \<open>csr\<close> after \<open>v\<close> has been written over \<open>old\<close>.\<close>

definition legal_frm :: "u64 \<Rightarrow> u64" where
  "legal_frm v = (if v AND 7 < 5 then v AND 7 else 0)"

text \<open>\<open>mstatus\<close>: the fields a write may change, the width fields \<open>UXL\<close> and \<open>SXL\<close> both under the condition on \<open>UXL\<close>,
  and what the floating-point unit's state shows in a read, with the summary bit \<open>SD\<close> at the top of the current width.\<close>

definition uxl_legal :: "u64 \<Rightarrow> bool" where
  "uxl_legal v \<longleftrightarrow> drop_bit 32 v AND 3 = 1 \<or> drop_bit 32 v AND 3 = 2"

definition status_write :: "u64 \<Rightarrow> u64 \<Rightarrow> u64" where
  "status_write old v = (let m = (if uxl_legal v then 0xF000E19BB else 0xE19BB) in (old AND NOT m) OR (v AND m))"

definition status_unit :: "nat \<Rightarrow> u64 \<Rightarrow> u64" where
  "status_unit xlen v = (v AND 0x6000) OR (if v AND 0x6000 = 0x6000 then push_bit (xlen - 1) 1 else 0)"

text \<open>\<open>satp\<close>: a mode that is not implemented leaves the old one, the rest is written all the same.\<close>

definition legal_satp :: "u64 \<Rightarrow> u64 \<Rightarrow> u64" where
  "legal_satp old v = (if drop_bit 60 v \<in> {0, 8, 9} then v AND 0xF0000FFFFFFFFFFF
     else (v AND 0xFFFFFFFFFFF) OR (old AND 0xF000000000000000))"

text \<open>\<open>misa\<close>: only the base width can change, which moves its field to the top of the new width.\<close>

definition misa_base :: "'d cpu \<Rightarrow> u64 \<Rightarrow> nat option" where
  "misa_base s v = (let b = unat (drop_bit (cur_xlen s - 2) v AND 3) in if b \<in> {1, 2} \<and> b \<noteq> mxl s then Some b else None)"

definition csr_legal_value :: "'d cpu \<Rightarrow> u32 \<Rightarrow> u64 \<Rightarrow> u64 \<Rightarrow> u64 option" where
  "csr_legal_value s csr old v =
     (if csr \<in> set plain_csrs then Some v
      else if csr = 0x001 then Some (v AND 0x1f)
      else if csr = 0x002 then Some (legal_frm v)
      else if csr = 0x003 then Some ((v AND 0x1f) OR push_bit 5 (legal_frm (drop_bit 5 v)))
      else if csr = 0x105 \<or> csr = 0x305 then Some (v AND NOT 3)
      else if csr = 0x141 \<or> csr = 0x341 then Some (v AND NOT 1)
      else if csr = 0x106 \<or> csr = 0x306 then Some (v AND 5)
      else if csr = 0x104 \<or> csr = 0x144 then Some (v AND ucast (mideleg s))
      else if csr = 0x302 then Some (v AND 0xffff)
      else if csr = 0x303 then Some (v AND 0x222)
      else if csr = 0x304 then Some (v AND 0x2aa)
      else if csr = 0x344 then Some ((old AND NOT 0x22) OR (v AND 0x22))
      else if csr = 0x300 then Some (status_write (mstatus s) v OR status_unit (cur_xlen s) v)
      else if csr = 0x100 then Some ((status_write (mstatus s) v AND 0x3000C0133) OR status_unit (cur_xlen s) v)
      else if csr = 0x180 then Some (legal_satp old v)
      else if csr = 0x301 then
        Some (case misa_base s v of None \<Rightarrow> old | Some b \<Rightarrow> ucast (misa s) OR push_bit (2 ^ (b + 4) - 2) (of_nat b))
      else None)"

text \<open>What the write reports to the interpreter: a change of the base width, a change of the address translation, or nothing.\<close>

definition csr_write_effect :: "'d cpu \<Rightarrow> u32 \<Rightarrow> u64 \<Rightarrow> int" where
  "csr_write_effect s csr v = (if csr = 0x180 then 2 else if csr = 0x301 \<and> misa_base s v \<noteq> None then 1 else 0)"

lemma ucast_u32_and: "ucast (ucast (v AND ucast (m :: u32)) :: u32) = (v AND ucast m :: u64)"
  by (rule bit_word_eqI) (auto simp: bit_simps dest: bit_imp_le_length)

lemma masked_write_all:
  assumes "bits_in (old :: u32) m"
  shows "ucast (ucast (masked_write (ucast old) (ucast m) v) :: u32) = (v AND ucast m :: u64)"
proof (rule bit_word_eqI)
  fix n assume "n < LENGTH(64)"
  have "bit old n \<Longrightarrow> bit m n"
    using assms bit_imp_le_length [of old n] unfolding bits_in_iff by simp
  then show "bit (ucast (ucast (masked_write (ucast old) (ucast m) v) :: u32) :: u64) n = bit (v AND ucast m) n"
    by (auto simp: masked_write_def bit_simps dest: bit_imp_le_length)
qed

lemma masked_write_and:
  "ucast (ucast (masked_write (ucast old) (ucast m) v) AND m :: u32) = (v AND ucast m :: u64)"
  for old m :: u32
  by (rule bit_word_eqI) (auto simp: masked_write_def bit_simps dest: bit_imp_le_length)

lemma masked_write_keep:
  "ucast (ucast (masked_write (ucast old) (ucast m) v) :: u32) = ((ucast old AND NOT (ucast m)) OR (v AND ucast m) :: u64)"
  for old m :: u32
  by (rule bit_word_eqI) (auto simp: masked_write_def bit_simps dest: bit_imp_le_length)

lemma frm_legal:
  "of_nat (frm (set_frm s (unat (v AND 7)))) = legal_frm v" for v :: u64
proof -
  have "unat (v AND 7) \<ge> 5 \<longleftrightarrow> \<not> v AND 7 < 5" by (simp add: word_less_nat_alt not_less)
  then show ?thesis by (simp add: set_frm_def legal_frm_def)
qed

lemma ucast_and_31: "ucast (ucast (v AND 0x1f) :: u32) = (v AND 0x1f :: u64)"
  using ucast_u32_and [of v "0x1f"] by simp

lemma csr_literals:
  "(0x1f :: u64) = mask 5" "(0xffff :: u64) = mask 16"
  "COUNTEREN_MASK = ucast (5 :: u32)" "(5 :: u64) = ucast (5 :: u32)"
  "(0x222 :: u64) = ucast MIDELEG_MASK" "(0x2aa :: u64) = ucast MIE_MASK" "(0x22 :: u64) = ucast (0x22 :: u32)"
  "MIP_SSIP OR MIP_STIP OR MIP_SEIP = MIDELEG_MASK" "MIP_SSIP OR MIP_STIP = (0x22 :: u32)"
  "MIP_MSIP OR MIP_MTIP OR MIP_SSIP OR MIP_STIP OR MIP_SEIP = MIE_MASK" "(push_bit 16 1 - 1 :: u64) = ucast MEDELEG_MASK"
  "(0xffff :: u64) = ucast MEDELEG_MASK"
  by (simp_all add: mask_eq_exp_minus_1 COUNTEREN_MASK_def MIDELEG_MASK_def MIE_MASK_def MEDELEG_MASK_def mip_consts)

text \<open>Each register of the table, by its number.\<close>

lemma write_read:
  assumes "csr_legal s"
  shows
    "csr_read_value (snd (csr_write s 0x001 v)) 0x001 = Some (v AND 0x1f)"
    "csr_read_value (snd (csr_write s 0x002 v)) 0x002 = Some (legal_frm v)"
    "csr_read_value (snd (csr_write s 0x003 v)) 0x003 = Some ((v AND 0x1f) OR push_bit 5 (legal_frm (drop_bit 5 v)))"
    "csr_read_value (snd (csr_write s 0x104 v)) 0x104 = Some (v AND ucast (mideleg s))"
    "csr_read_value (snd (csr_write s 0x144 v)) 0x144 = Some (v AND ucast (mideleg s))"
    "csr_read_value (snd (csr_write s 0x106 v)) 0x106 = Some (v AND 5)"
    "csr_read_value (snd (csr_write s 0x306 v)) 0x306 = Some (v AND 5)"
    "csr_read_value (snd (csr_write s 0x302 v)) 0x302 = Some (v AND 0xffff)"
    "csr_read_value (snd (csr_write s 0x303 v)) 0x303 = Some (v AND 0x222)"
    "csr_read_value (snd (csr_write s 0x304 v)) 0x304 = Some (v AND 0x2aa)"
    "csr_read_value (snd (csr_write s 0x344 v)) 0x344 = Some ((ucast (mip s) AND NOT 0x22) OR (v AND 0x22))"
proof -
  have l: "bits_in (medeleg s) MEDELEG_MASK" "bits_in (mideleg s) MIDELEG_MASK" "bits_in (mie s) MIE_MASK"
    using assms by (simp_all add: csr_legal_def)
  show "csr_read_value (snd (csr_write s 0x001 v)) 0x001 = Some (v AND 0x1f)"
    by (simp add: csr_write_def csr_read_value_def ucast_and_31)
  show "csr_read_value (snd (csr_write s 0x002 v)) 0x002 = Some (legal_frm v)"
    by (simp add: csr_write_def csr_read_value_def frm_legal)
  show "csr_read_value (snd (csr_write s 0x003 v)) 0x003 = Some ((v AND 0x1f) OR push_bit 5 (legal_frm (drop_bit 5 v)))"
    by (simp add: csr_write_def csr_read_value_def ucast_and_31 frm_legal)
  show "csr_read_value (snd (csr_write s 0x104 v)) 0x104 = Some (v AND ucast (mideleg s))"
    "csr_read_value (snd (csr_write s 0x144 v)) 0x144 = Some (v AND ucast (mideleg s))"
    by (simp_all add: csr_write_def csr_read_value_def masked_write_and)
  show "csr_read_value (snd (csr_write s 0x106 v)) 0x106 = Some (v AND 5)"
    "csr_read_value (snd (csr_write s 0x306 v)) 0x306 = Some (v AND 5)"
    using ucast_u32_and [of v 5] by (simp_all add: csr_write_def csr_read_value_def COUNTEREN_MASK_def)
  show "csr_read_value (snd (csr_write s 0x302 v)) 0x302 = Some (v AND 0xffff)"
    using masked_write_all [OF l(1), of v] unfolding csr_literals(12)
    by (simp add: csr_write_def csr_read_value_def csr_literals(11) del: push_bit_of_1)
  show "csr_read_value (snd (csr_write s 0x303 v)) 0x303 = Some (v AND 0x222)"
    using masked_write_all [OF l(2), of v] unfolding csr_literals(5)
    by (simp add: csr_write_def csr_read_value_def csr_literals(8))
  show "csr_read_value (snd (csr_write s 0x304 v)) 0x304 = Some (v AND 0x2aa)"
    using masked_write_all [OF l(3), of v] unfolding csr_literals(6)
    by (simp add: csr_write_def csr_read_value_def csr_literals(10))
  show "csr_read_value (snd (csr_write s 0x344 v)) 0x344 = Some ((ucast (mip s) AND NOT 0x22) OR (v AND 0x22))"
    using masked_write_keep [of "mip s" "0x22" v]
    by (simp add: csr_write_def csr_read_value_def csr_literals(9))
qed

lemma write_read_plain:
  "csr_read_value (snd (csr_write s 0x140 v)) 0x140 = Some v" "csr_read_value (snd (csr_write s 0x142 v)) 0x142 = Some v"
  "csr_read_value (snd (csr_write s 0x143 v)) 0x143 = Some v" "csr_read_value (snd (csr_write s 0x340 v)) 0x340 = Some v"
  "csr_read_value (snd (csr_write s 0x342 v)) 0x342 = Some v" "csr_read_value (snd (csr_write s 0x343 v)) 0x343 = Some v"
  "csr_read_value (snd (csr_write s 0x105 v)) 0x105 = Some (v AND NOT 3)"
  "csr_read_value (snd (csr_write s 0x305 v)) 0x305 = Some (v AND NOT 3)"
  "csr_read_value (snd (csr_write s 0x141 v)) 0x141 = Some (v AND NOT 1)"
  "csr_read_value (snd (csr_write s 0x341 v)) 0x341 = Some (v AND NOT 1)"
  by (simp_all add: csr_write_def csr_read_value_def)

lemma write_mask:
  assumes "drop_bit MSTATUS_UXL_SHIFT u AND 3 = drop_bit MSTATUS_UXL_SHIFT v AND 3"
  shows "mstatus_write_mask u = (if uxl_legal v then 0xF000E19BB else 0xE19BB)"
proof -
  define f where "f = drop_bit MSTATUS_UXL_SHIFT v AND 3"
  have l: "uxl_legal v \<longleftrightarrow> f = 1 \<or> f = 2" by (simp add: uxl_legal_def f_def mstatus_shifts)
  have "unat f < 4" unfolding f_def by (rule unat_and_3)
  then have "unat f = 0 \<or> unat f = 1 \<or> unat f = 2 \<or> unat f = 3" by auto
  then have "of_nat (unat f) = f \<longrightarrow> f = of_nat 0 \<or> f = of_nat 1 \<or> f = of_nat 2 \<or> f = of_nat 3" by metis
  then have f: "f = 0 \<or> f = 1 \<or> f = 2 \<or> f = 3" by simp
  show ?thesis
    unfolding mstatus_write_mask_def Let_def assms f_def [symmetric] l
    using f by (elim disjE) (simp_all add: get_base_from_xlen_def MSTATUS_MASK_def mstatus_consts)
qed

lemma bits_disjoint: "bits_in x b \<Longrightarrow> a AND b = 0 \<Longrightarrow> x AND a = 0" for x :: u64
proof -
  assume x: "bits_in x b" and d: "a AND b = 0"
  have "\<not> (bit a n \<and> bit b n)" for n
    using arg_cong [OF d, of "\<lambda>w. bit w n"] by (simp add: bit_and_iff)
  then show "x AND a = 0" using x by (intro bit_word_eqI) (auto simp: bits_in_iff bit_and_iff)
qed

lemma status_write_set:
  assumes "u = v \<or> u = (mstatus s AND NOT SSTATUS_MASK) OR (v AND SSTATUS_MASK)"
  shows "mstatus (set_mstatus s u) AND 0x3000C0133 = status_write (mstatus s) v AND 0x3000C0133"
    "u = v \<Longrightarrow> mstatus (set_mstatus s u) = status_write (mstatus s) v"
    "fs (set_mstatus s u) = unat (drop_bit 13 v AND 3)"
proof -
  have ss: "SSTATUS_MASK = 0x3000DE133" by (simp add: SSTATUS_MASK_def SSTATUS_MASK0_def mstatus_consts)
  have "bit u 32 = bit v 32" "bit u 33 = bit v 33"
    using assms by (auto simp: ss bit_simps bit_numeral_rec)
  then have "drop_bit MSTATUS_UXL_SHIFT u AND 3 = drop_bit MSTATUS_UXL_SHIFT v AND 3" by (rule uxl_cong)
  then have m: "mstatus_write_mask u = (if uxl_legal v then 0xF000E19BB else 0xE19BB)" by (rule write_mask)
  show "u = v \<Longrightarrow> mstatus (set_mstatus s u) = status_write (mstatus s) v"
    unfolding mstatus_set_mstatus m status_write_def Let_def by simp
  have "(u AND w) AND 0x3000C0133 = (v AND w) AND 0x3000C0133" for w
  proof (cases "u = v")
    case False
    then have "u AND 0x3000C0133 = (mstatus s AND NOT SSTATUS_MASK OR v AND SSTATUS_MASK) AND 0x3000C0133" using assms by simp
    also have "\<dots> = v AND (SSTATUS_MASK AND 0x3000C0133)"
    proof -
      have "NOT SSTATUS_MASK AND 0x3000C0133 = 0" by (simp add: ss)
      then show ?thesis by (simp add: bit.conj_disj_distrib2 and.assoc)
    qed
    also have "SSTATUS_MASK AND 0x3000C0133 = 0x3000C0133" by (simp add: ss)
    finally have "u AND 0x3000C0133 = v AND 0x3000C0133" .
    moreover have "(x AND w) AND 0x3000C0133 = (x AND 0x3000C0133) AND w" for x by (simp only: ac_simps)
    ultimately show ?thesis by (simp only:)
  qed simp
  then show "mstatus (set_mstatus s u) AND 0x3000C0133 = status_write (mstatus s) v AND 0x3000C0133"
    unfolding mstatus_set_mstatus m status_write_def Let_def by (simp add: bit.conj_disj_distrib2)
  have "drop_bit MSTATUS_FS_SHIFT u AND 3 = drop_bit MSTATUS_FS_SHIFT v AND 3"
  proof (rule field_cong)
    fix n assume "MSTATUS_FS_SHIFT \<le> n" "n < MSTATUS_FS_SHIFT + 2"
    then have "n = 13 \<or> n = 14" by (auto simp: mstatus_shifts)
    then show "bit u n = bit v n" using assms by (elim disjE) (auto simp: ss bit_simps bit_numeral_rec)
  qed
  then show "fs (set_mstatus s u) = unat (drop_bit 13 v AND 3)"
    by (simp add: set_mstatus_def Let_def mstatus_shifts)
qed

text \<open>A read of \<open>mstatus\<close>: no stored bit is one of \<open>FS\<close>, \<open>XS\<close> or \<open>SD\<close>.\<close>

lemma read_status:
  assumes "bits_in (mstatus t) MSTATUS_KEPT" "fs t = unat (drop_bit 13 v AND 3)" "m AND 0x1E000 = 0x1E000"
  shows "get_mstatus t m = (mstatus t AND m) OR status_unit (cur_xlen t) v"
proof -
  have x: "mstatus t AND 0x1E000 = 0" by (rule bits_disjoint [OF assms(1)]) (simp add: mstatus_kept_literal)
  have f: "push_bit MSTATUS_FS_SHIFT (of_nat (fs t) :: u64) = v AND 0x6000"
    unfolding assms(2)
  proof (rule bit_word_eqI)
    have m: "(3 :: u64) = mask 2" "(0x6000 :: u64) = push_bit 13 (mask 2)" by (simp_all add: mask_eq_exp_minus_1)
    fix n show "bit (push_bit MSTATUS_FS_SHIFT (of_nat (unat (drop_bit 13 v AND 3)) :: u64)) n = bit (v AND 0x6000) n"
      unfolding m by (auto simp: bit_simps mstatus_shifts)
  qed
  define val where "val = (mstatus t OR (v AND 0x6000)) AND m"
  have sd: "val AND MSTATUS_FS = v AND 0x6000" "val AND MSTATUS_XS = 0"
  proof -
    have k: "val AND w = (mstatus t AND (m AND w)) OR (v AND (0x6000 AND (m AND w)))" for w
      by (simp add: val_def bit.conj_disj_distrib2 and.assoc)
    have "m AND 0x6000 = 0x6000" "m AND 0x18000 = 0x18000"
      using arg_cong [OF assms(3), of "\<lambda>w. w AND 0x6000"] arg_cong [OF assms(3), of "\<lambda>w. w AND 0x18000"] by (simp_all add: and.assoc)
    moreover have "mstatus t AND 0x6000 = 0" "mstatus t AND 0x18000 = 0"
      using arg_cong [OF x, of "\<lambda>w. w AND 0x6000"] arg_cong [OF x, of "\<lambda>w. w AND 0x18000"] by (simp_all add: and.assoc)
    ultimately show "val AND MSTATUS_FS = v AND 0x6000" "val AND MSTATUS_XS = 0"
      unfolding k by (simp_all add: mstatus_consts)
  qed
  have "val = (mstatus t AND m) OR (v AND 0x6000)"
  proof -
    have "m AND 0x6000 = 0x6000" using arg_cong [OF assms(3), of "\<lambda>w. w AND 0x6000"] by (simp add: and.assoc)
    moreover have "(v AND 0x6000) AND m = v AND (m AND 0x6000)" by (simp only: ac_simps)
    ultimately show ?thesis by (simp only: val_def bit.conj_disj_distrib2)
  qed
  then show ?thesis
    using sd unfolding get_mstatus_def f val_def [symmetric] Let_def status_unit_def
    by (simp add: mstatus_consts or.assoc)
qed

lemma table_cases:
  assumes "csr_legal_value s csr old v = Some w"
  shows "csr \<in> {0x001, 0x002, 0x003, 0x104, 0x105, 0x106, 0x140, 0x141, 0x142, 0x143, 0x144, 0x302, 0x303,
    0x304, 0x305, 0x306, 0x340, 0x341, 0x342, 0x343, 0x344, 0x300, 0x100, 0x180, 0x301}"
  using assms by (auto simp: csr_legal_value_def plain_csrs_def split: if_splits)

lemma read_0x344: "csr_read s 0x344 w = Some old \<Longrightarrow> old = ucast (mip s)"
  "csr_read s 0x180 w = Some old \<Longrightarrow> old = satp s"
  "csr_read s 0x301 w = Some old \<Longrightarrow> old = ucast (misa s) OR push_bit (cur_xlen s - 2) (of_nat (mxl s))"
  by (simp_all add: csr_read_def csr_read_value_def split: if_splits)

lemma write_read_status:
  assumes "csr_legal s"
  shows "csr_read_value (snd (csr_write s 0x300 v)) 0x300 = Some (status_write (mstatus s) v OR status_unit (cur_xlen s) v)"
    "csr_read_value (snd (csr_write s 0x100 v)) 0x100
      = Some ((status_write (mstatus s) v AND 0x3000C0133) OR status_unit (cur_xlen s) v)"
proof -
  have k: "bits_in (mstatus (set_mstatus s u)) MSTATUS_KEPT" for u
    using legal_set_mstatus [OF assms] by (simp add: csr_legal_def mstatus_legal_def)
  have x: "cur_xlen (set_mstatus s u) = cur_xlen s" for u by (simp add: set_mstatus_def Let_def tlb_flush_all_def tlb_init_def)
  show "csr_read_value (snd (csr_write s 0x300 v)) 0x300 = Some (status_write (mstatus s) v OR status_unit (cur_xlen s) v)"
    using read_status [OF k status_write_set(3) [of v v s], of "-1"] status_write_set(2) [of v v s]
    by (simp add: csr_write_def csr_read_value_def x)
  let ?u = "(mstatus s AND NOT SSTATUS_MASK) OR (v AND SSTATUS_MASK)"
  have ss: "SSTATUS_MASK = 0x3000C0133 OR 0x1E000" by (simp add: SSTATUS_MASK_def SSTATUS_MASK0_def mstatus_consts)
  have "mstatus (set_mstatus s ?u) AND 0x1E000 = 0" by (rule bits_disjoint [OF k]) (simp add: mstatus_kept_literal)
  then have "mstatus (set_mstatus s ?u) AND SSTATUS_MASK = mstatus (set_mstatus s ?u) AND 0x3000C0133"
    unfolding ss by (simp only: bit.conj_disj_distrib) simp
  then have "get_mstatus (set_mstatus s ?u) SSTATUS_MASK = (status_write (mstatus s) v AND 0x3000C0133) OR status_unit (cur_xlen s) v"
    using read_status [OF k status_write_set(3) [of ?u v s], of SSTATUS_MASK] status_write_set(1) [of ?u v s] by (simp add: ss x)
  then show "csr_read_value (snd (csr_write s 0x100 v)) 0x100
      = Some ((status_write (mstatus s) v AND 0x3000C0133) OR status_unit (cur_xlen s) v)"
    by (simp add: csr_write_def csr_read_value_def)
qed

lemma satp_field: "(v AND (push_bit 44 1 - 1)) OR push_bit 60 (of_nat (unat (drop_bit 60 u))) = (v AND 0xFFFFFFFFFFF) OR (u AND 0xF000000000000000)"
  for u v :: u64
proof -
  have m: "(0xF000000000000000 :: u64) = push_bit 60 (mask 4)" by (simp add: mask_eq_exp_minus_1)
  have "push_bit 60 (drop_bit 60 u) = u AND 0xF000000000000000"
    unfolding m by (rule bit_word_eqI) (auto simp: bit_simps dest: bit_imp_le_length)
  then show ?thesis by simp
qed

lemma satp_modes: "(unat x = 0 \<or> 8 \<le> unat x \<and> unat x \<le> 9) \<longleftrightarrow> x \<in> {0, 8, 9}" for x :: u64
proof -
  have k: "x = of_nat k" if "unat x = k" for k using that by auto
  show ?thesis
  proof
    assume "unat x = 0 \<or> 8 \<le> unat x \<and> unat x \<le> 9"
    then have "unat x = 0 \<or> unat x = 8 \<or> unat x = 9" by auto
    then show "x \<in> {0, 8, 9}" using k by fastforce
  qed auto
qed

lemma write_read_satp: "csr_read_value (snd (csr_write s 0x180 v)) 0x180 = Some (legal_satp (satp s) v)"
proof -
  have f: "drop_bit 60 v AND 0xf = drop_bit 60 v"
    unfolding mask_literals by (rule bit_word_eqI) (auto simp: bit_simps dest: bit_imp_le_length)
  have c: "(unat (drop_bit 60 v) = 0 \<or> 8 \<le> unat (drop_bit 60 v) \<and> unat (drop_bit 60 v) \<le> 9) \<longleftrightarrow> drop_bit 60 v \<in> {0, 8, 9}"
    by (rule satp_modes)
  have s: "satp (write_satp s v) = (v AND (push_bit 44 1 - 1)) OR push_bit 60 (of_nat
    (if drop_bit 60 v \<in> {0, 8, 9} then unat (drop_bit 60 v) else unat (drop_bit 60 (satp s))))"
    unfolding write_satp_def Let_def f c by (simp add: tlb_flush_all_def tlb_init_def)
  have "(v AND 0xFFFFFFFFFFF) OR (v AND 0xF000000000000000) = v AND 0xF0000FFFFFFFFFFF"
    by (simp flip: bit.conj_disj_distrib)
  then have "satp (write_satp s v) = legal_satp (satp s) v"
    unfolding s legal_satp_def by (simp only: satp_field if_distrib split: if_split) simp
  then show ?thesis by (simp add: csr_write_def csr_read_value_def)
qed

lemma write_read_misa:
  "csr_read_value (snd (csr_write s 0x301 v)) 0x301 = Some (case misa_base s v of
      None \<Rightarrow> ucast (misa s) OR push_bit (cur_xlen s - 2) (of_nat (mxl s))
    | Some b \<Rightarrow> ucast (misa s) OR push_bit (2 ^ (b + 4) - 2) (of_nat b))"
  "fst (csr_write s 0x301 v) = csr_write_effect s 0x301 v"
proof -
  define b where "b = unat (drop_bit (cur_xlen s - 2) v AND 3)"
  have "(1 \<le> b \<and> b \<le> 2 \<and> mxl s \<noteq> b) \<longleftrightarrow> b \<in> {1, 2} \<and> b \<noteq> mxl s" by auto
  then have "write_misa s v = (case misa_base s v of None \<Rightarrow> (0, s) | Some b \<Rightarrow> (1, s\<lparr>mxl := b, cur_xlen := push_bit (b + 4) 1\<rparr>))"
    unfolding write_misa_def misa_base_def Let_def b_def [symmetric] by (simp add: get_base_from_xlen_def)
  then show "csr_read_value (snd (csr_write s 0x301 v)) 0x301 = Some (case misa_base s v of
      None \<Rightarrow> ucast (misa s) OR push_bit (cur_xlen s - 2) (of_nat (mxl s))
    | Some b \<Rightarrow> ucast (misa s) OR push_bit (2 ^ (b + 4) - 2) (of_nat b))"
    "fst (csr_write s 0x301 v) = csr_write_effect s 0x301 v"
    by (simp_all add: csr_write_def csr_read_value_def csr_write_effect_def push_bit_eq_mult split: option.split)
qed

lemma write_code:
  assumes "csr_legal_value s csr old v = Some w"
  shows "fst (csr_write s csr v) = csr_write_effect s csr v"
  using table_cases [OF assms] by (elim insertE emptyE; (simp only: write_read_misa)?)
    (simp_all add: csr_write_def csr_write_effect_def)

lemma write_refused:
  assumes "csr_legal_value s csr old v = None"
  shows "csr_write s csr v = (-1, s)"
proof -
  have "csr_legal_value s csr old v \<noteq> None"
    if "csr \<in> {0x001, 0x002, 0x003, 0x104, 0x105, 0x106, 0x140, 0x141, 0x142, 0x143, 0x144, 0x302, 0x303,
      0x304, 0x305, 0x306, 0x340, 0x341, 0x342, 0x343, 0x344, 0x300, 0x100, 0x180, 0x301}"
    using that by (elim insertE emptyE) (simp_all add: csr_legal_value_def plain_csrs_def)
  then have "csr \<notin> {0x001, 0x002, 0x003, 0x104, 0x105, 0x106, 0x140, 0x141, 0x142, 0x143, 0x144, 0x302, 0x303,
      0x304, 0x305, 0x306, 0x340, 0x341, 0x342, 0x343, 0x344, 0x300, 0x100, 0x180, 0x301}" using assms by blast
  then show ?thesis by (simp add: csr_write_def)
qed

text \<open>C17: Writing a CSR that may be read for writing either is refused and changes nothing (a register outside the table),
  or has the effect code of the table, and reading it back gives the legal value of the write: the implemented bits
  of the new value, the delegated bits for \<open>sie\<close> and \<open>sip\<close>, an aligned trap vector or exception
  address, a valid rounding mode, the unwritable bits of \<open>mip\<close> unchanged, the writable fields of \<open>mstatus\<close> and \<open>sstatus\<close> with
  the unit state and the summary bit, an implemented translation mode and the page number of \<open>satp\<close>, and a legal base of \<open>misa\<close>.\<close>

theorem csr_write_then_read:
  assumes "csr_legal s" "csr_read s csr True = Some old"
  shows "case csr_legal_value s csr old v of
      None \<Rightarrow> csr_write s csr v = (-1, s)
    | Some w \<Rightarrow> fst (csr_write s csr v) = csr_write_effect s csr v \<and> csr_read (snd (csr_write s csr v)) csr b = Some w"
proof (cases "csr_legal_value s csr old v")
  case None
  then show ?thesis by (simp add: write_refused)
next
  case (Some w)
  note r = write_read [OF assms(1)] write_read_plain write_read_status [OF assms(1)] write_read_satp write_read_misa(1)
  have "csr_read_value (snd (csr_write s csr v)) csr = csr_legal_value s csr old v"
    using table_cases [OF Some] assms(2)
    by (elim insertE emptyE; simp only: r) (auto simp: csr_legal_value_def plain_csrs_def dest!: read_0x344)
  then have "csr_read_value (snd (csr_write s csr v)) csr = Some w" by (simp only: Some)
  moreover have "\<not> priv (snd (csr_write s csr v)) < unat (drop_bit 8 csr AND 3)" "\<not> (csr AND 0xc00 = 0xc00)"
    using assms(2) by (auto simp: csr_read_def frame_simps split: if_splits)
  ultimately show ?thesis using write_code [OF Some] Some by (simp add: csr_read_def)
qed

theorem csr_write_then_read_witness:
  "csr_write_effect bare_machine 0x300 0x206088 = 0 \<and> csr_legal_value bare_machine 0x300 0xA00000000 0x206088 = Some 0x8000000A00006088
    \<and> csr_read (snd (csr_write bare_machine 0x300 0x206088)) 0x300 False = Some 0x8000000A00006088"
proof -
  have i: "csr_legal bare_machine" "csr_read bare_machine 0x300 True = Some 0xA00000000"
    by (simp add: bare_machine_def legal_init)
      (simp add: bare_machine_def riscv_cpu_init_def zero_cpu_def tlb_init_def Let_def csr_read_def csr_read_value_def
        get_mstatus_def mstatus_consts get_base_from_xlen_def)
  have "csr_legal_value bare_machine 0x300 0xA00000000 0x206088 = Some 0x8000000A00006088"
    by (simp add: csr_legal_value_def plain_csrs_def bare_machine_def riscv_cpu_init_def zero_cpu_def tlb_init_def Let_def
      status_write_def status_unit_def uxl_legal_def mstatus_consts get_base_from_xlen_def)
  then show ?thesis using csr_write_then_read [OF i, of "0x206088" False] by (simp add: csr_write_effect_def)
qed

end
