(* ===== verification/BaseWidth.thy ===== *)
theory BaseWidth
  imports TrapReturn
begin

text \<open>
  The base width of the current mode: \<open>cur_xlen\<close> always is the width that \<open>misa\<close> or the \<open>SXL\<close> and
  \<open>UXL\<close> fields of \<open>mstatus\<close> give for the current privilege, through every run of the machine.
\<close>

definition width_ok where
  "width_ok s \<longleftrightarrow> priv s \<le> 3 \<and> cur_xlen s = mode_xlen s (priv s)"

lemma width_ok_set_priv:
  assumes "width_ok s \<or> priv s \<noteq> p" "p \<le> 3"
  shows "width_ok (set_priv s p)"
proof -
  obtain r w c where e: "set_priv s p = s\<lparr>cur_xlen := (if priv s = p then cur_xlen s else mode_xlen s p), priv := p,
      tlb_read := r, tlb_write := w, tlb_code := c\<rparr>"
    using set_priv_form by blast
  have m: "mode_xlen (set_priv s p) q = mode_xlen s q" for q
    by (rule mode_xlen_cong) (simp_all add: e)
  show ?thesis unfolding width_ok_def m using assms by (auto simp: e width_ok_def)
qed

text \<open>An update that keeps privilege, width, \<open>mxl\<close> and the two fields keeps the invariant.\<close>

lemma width_ok_cong:
  assumes "width_ok s" "priv t = priv s" "cur_xlen t = cur_xlen s" "mxl t = mxl s"
    and "\<And>n. 32 \<le> n \<Longrightarrow> n < 36 \<Longrightarrow> bit (mstatus t) n = bit (mstatus s) n"
  shows "width_ok t"
  using assms mode_xlen_cong [of t s "priv s"] by (simp add: width_ok_def)

lemma width_ok_other [simp]:
  "width_ok (s\<lparr>reg := f\<rparr>) = width_ok s" "width_ok (s\<lparr>fp_reg := f\<rparr>) = width_ok s"
  "width_ok (s\<lparr>fflags := u\<rparr>) = width_ok s" "width_ok (s\<lparr>frm := n\<rparr>) = width_ok s" "width_ok (s\<lparr>fs := n\<rparr>) = width_ok s"
  "width_ok (s\<lparr>pc := w\<rparr>) = width_ok s" "width_ok (s\<lparr>pending_exception := i\<rparr>) = width_ok s"
  "width_ok (s\<lparr>pending_tval := w\<rparr>) = width_ok s" "width_ok (s\<lparr>insn_counter := w\<rparr>) = width_ok s"
  "width_ok (s\<lparr>power_down_flag := b\<rparr>) = width_ok s" "width_ok (s\<lparr>load_res := w\<rparr>) = width_ok s"
  "width_ok (s\<lparr>tlb_read := t\<rparr>) = width_ok s" "width_ok (s\<lparr>tlb_write := t\<rparr>) = width_ok s"
  "width_ok (s\<lparr>tlb_code := t\<rparr>) = width_ok s" "width_ok (s\<lparr>ram := m\<rparr>) = width_ok s"
  "width_ok (s\<lparr>mem_map := mm\<rparr>) = width_ok s" "width_ok (s\<lparr>dev := d\<rparr>) = width_ok s" "width_ok (s\<lparr>mip := u\<rparr>) = width_ok s"
  "width_ok (s\<lparr>mie := u\<rparr>) = width_ok s" "width_ok (s\<lparr>stvec := w\<rparr>) = width_ok s" "width_ok (s\<lparr>mtvec := w\<rparr>) = width_ok s"
  "width_ok (s\<lparr>scounteren := u\<rparr>) = width_ok s" "width_ok (s\<lparr>mcounteren := u\<rparr>) = width_ok s"
  "width_ok (s\<lparr>sscratch := w\<rparr>) = width_ok s" "width_ok (s\<lparr>mscratch := w\<rparr>) = width_ok s"
  "width_ok (s\<lparr>sepc := w\<rparr>) = width_ok s" "width_ok (s\<lparr>mepc := w\<rparr>) = width_ok s"
  "width_ok (s\<lparr>scause := w\<rparr>) = width_ok s" "width_ok (s\<lparr>mcause := w\<rparr>) = width_ok s"
  "width_ok (s\<lparr>stval := w\<rparr>) = width_ok s" "width_ok (s\<lparr>mtval := w\<rparr>) = width_ok s"
  "width_ok (s\<lparr>satp := w\<rparr>) = width_ok s" "width_ok (s\<lparr>medeleg := u\<rparr>) = width_ok s" "width_ok (s\<lparr>mideleg := u\<rparr>) = width_ok s"
  by (simp_all add: width_ok_def mode_xlen_def)

lemma width_ok_tlb [simp]:
  "width_ok (tlb_flush_all s) = width_ok s" "width_ok (set_frm s n) = width_ok s"
  "width_ok (riscv_cpu_set_mip m s) = width_ok s" "width_ok (riscv_cpu_reset_mip m s) = width_ok s"
  "width_ok (set_reg rd v s) = width_ok s"
  by (simp_all add: tlb_flush_all_def tlb_init_def set_frm_def riscv_cpu_set_mip_def riscv_cpu_reset_mip_def
      set_reg_def Let_def)

lemma sxl_hidden: "34 \<le> n \<Longrightarrow> n < 36 \<Longrightarrow> \<not> bit SSTATUS_MASK n"
proof -
  assume "34 \<le> n" "n < 36"
  then have "n = 34 \<or> n = 35" by auto
  then show ?thesis by (auto simp: SSTATUS_MASK_def SSTATUS_MASK0_def mstatus_consts bit_numeral_rec)
qed

lemma mode_xlen_other: "p \<noteq> PRV_S \<Longrightarrow> p \<noteq> PRV_U \<Longrightarrow> mode_xlen s p = push_bit (4 + mxl s) 1"
  by (simp add: mode_xlen_def)

lemma mxl_set_mstatus [simp]: "mxl (set_mstatus s v) = mxl s" "cur_xlen (set_mstatus s v) = cur_xlen s"
  by (simp_all add: set_mstatus_def tlb_flush_all_def tlb_init_def Let_def)

text \<open>\<open>mstatus\<close> can only be written in a mode whose width it does not give; \<open>sstatus\<close> does not
  show \<open>SXL\<close>.\<close>

lemma width_ok_write_mstatus:
  assumes "width_ok s" "2 \<le> priv s"
  shows "width_ok (set_mstatus s v)"
  using assms by (simp add: width_ok_def frame_simps mode_xlen_other)

lemma width_ok_write_sstatus:
  assumes "width_ok s" "1 \<le> priv s"
  shows "width_ok (set_mstatus s ((mstatus s AND NOT SSTATUS_MASK) OR (v AND SSTATUS_MASK)))"
    (is "width_ok (set_mstatus s ?w)")
proof (cases "priv s = 1")
  case True
  have "drop_bit MSTATUS_SXL_SHIFT (mstatus (set_mstatus s ?w)) AND 3 = drop_bit MSTATUS_SXL_SHIFT (mstatus s) AND 3"
  proof (rule field_cong)
    fix n assume "MSTATUS_SXL_SHIFT \<le> n" "n < MSTATUS_SXL_SHIFT + 2"
    then have "\<not> bit SSTATUS_MASK n" "n < 64" using sxl_hidden [of n] by (simp_all add: mstatus_shifts)
    then show "bit (mstatus (set_mstatus s ?w)) n = bit (mstatus s) n"
      unfolding mstatus_set_mstatus by (auto simp: bit_and_iff bit_or_iff bit_not_iff)
  qed
  then show ?thesis using assms True by (simp add: width_ok_def frame_simps mode_xlen_def)
next
  case False
  then show ?thesis using assms by (simp add: width_ok_write_mstatus)
qed

lemma width_ok_misa:
  assumes "width_ok s" "priv s = 3"
  shows "width_ok (snd (write_misa s v))"
  using assms by (simp add: write_misa_def Let_def width_ok_def mode_xlen_other add.commute)

lemma width_ok_guard: "(b \<Longrightarrow> width_ok (snd x)) \<Longrightarrow> width_ok (snd y) \<Longrightarrow> width_ok (snd (if b then x else y))"
  by simp

lemma width_ok_csr_write:
  assumes "width_ok s" "unat (drop_bit 8 csr AND 3) \<le> priv s"
  shows "width_ok (snd (csr_write s csr v))"
proof -
  have p: "csr = 0x100 \<Longrightarrow> 1 \<le> priv s" "csr = 0x300 \<Longrightarrow> 2 \<le> priv s" "csr = 0x301 \<Longrightarrow> priv s = 3"
    using assms by (auto simp: width_ok_def)
  note w = width_ok_write_sstatus [OF assms(1) p(1)] width_ok_write_mstatus [OF assms(1) p(2)]
    width_ok_misa [OF assms(1) p(3)]
  show ?thesis
    unfolding csr_write_def
    by (intro width_ok_guard)
      (simp_all add: assms(1) w write_satp_def Let_def)
qed

lemma width_ok_raise:
  assumes "width_ok s"
  shows "width_ok (raise_exception2 s c t)"
proof (cases "trap_delegated s c")
  case True
  then have p: "priv s \<le> 1" by (auto simp: trap_delegated_def split: if_splits)
  have "width_ok (s\<lparr>mstatus := stack_ie s MSTATUS_SPIE MSTATUS_SPIE_SHIFT MSTATUS_SPP MSTATUS_SPP_SHIFT MSTATUS_SIE\<rparr>)"
    by (rule width_ok_cong [OF assms]) (simp_all add: bit_stack_S [OF p])
  then have "width_ok (s\<lparr>scause := a, sepc := b, stval := d,
      mstatus := stack_ie s MSTATUS_SPIE MSTATUS_SPIE_SHIFT MSTATUS_SPP MSTATUS_SPP_SHIFT MSTATUS_SIE\<rparr>)" for a b d
    by (rule width_ok_cong) simp_all
  then show ?thesis
    using True by (simp add: raise_exception2_def Let_def width_ok_set_priv del: cpu_consts) (simp add: PRV_S_def width_ok_set_priv)
next
  case False
  have p: "priv s \<le> 3" using assms by (simp add: width_ok_def)
  have "width_ok (s\<lparr>mstatus := stack_ie s MSTATUS_MPIE MSTATUS_MPIE_SHIFT MSTATUS_MPP MSTATUS_MPP_SHIFT MSTATUS_MIE\<rparr>)"
    by (rule width_ok_cong [OF assms]) (simp_all add: bit_stack_M [OF p])
  then have "width_ok (s\<lparr>mcause := a, mepc := b, mtval := d,
      mstatus := stack_ie s MSTATUS_MPIE MSTATUS_MPIE_SHIFT MSTATUS_MPP MSTATUS_MPP_SHIFT MSTATUS_MIE\<rparr>)" for a b d
    by (rule width_ok_cong) simp_all
  then show ?thesis
    using False by (simp add: raise_exception2_def Let_def width_ok_set_priv)
qed

lemma width_ok_ret:
  assumes "width_ok s"
  shows "width_ok (handle_sret s)" "width_ok (handle_mret s)"
proof -
  define p where "p = unat (drop_bit MSTATUS_SPP_SHIFT (mstatus s) AND 1)"
  define q where "q = unat (drop_bit MSTATUS_MPP_SHIFT (mstatus s) AND 3)"
  have p3: "p \<le> 3" and q3: "q \<le> 3"
    using unat_and_1 unat_and_3 [of "drop_bit MSTATUS_MPP_SHIFT (mstatus s)"] by (auto simp: p_def q_def)
  have p1: "p \<le> 1" using unat_and_mask_le [of "drop_bit MSTATUS_SPP_SHIFT (mstatus s)" 1] by (simp add: p_def)
  have s1: "width_ok (s\<lparr>mstatus := mstatus (handle_sret s)\<rparr>)"
    by (rule width_ok_cong [OF assms]) (use sret_facts(3) [of _ s] p1 in \<open>simp_all flip: p_def\<close>)
  have s2: "width_ok (s\<lparr>mstatus := mstatus (handle_mret s)\<rparr>)"
    by (rule width_ok_cong [OF assms]) (use mret_facts(3) [of _ s] q3 in \<open>simp_all flip: q_def\<close>)
  have "handle_sret s = (set_priv (s\<lparr>mstatus := mstatus (handle_sret s)\<rparr>) p)\<lparr>pc := sepc s\<rparr>"
    by (simp add: handle_sret_def Let_def frame_simps p_def)
  then show "width_ok (handle_sret s)"
    using width_ok_set_priv [OF disjI1 [OF s1] p3] by (metis width_ok_other(6))
  have "handle_mret s = (set_priv (s\<lparr>mstatus := mstatus (handle_mret s)\<rparr>) q)\<lparr>pc := mepc s\<rparr>"
    by (simp add: handle_mret_def Let_def frame_simps q_def)
  then show "width_ok (handle_mret s)"
    using width_ok_set_priv [OF disjI1 [OF s2] q3] by (metis width_ok_other(6))
qed

lemma width_ok_dev:
  "width_ok s \<Longrightarrow> width_ok (snd (machine_read op off k s))" "width_ok s \<Longrightarrow> width_ok (machine_write op off v k s)"
  by (simp_all add: machine_read_def machine_write_def clint_read_def clint_write_def plic_read_def
      plic_write_def htif_read_def htif_write_def plic_update_mip_def rtc_get_time_def
      rtc_get_real_time_def Let_def split_beta)

interpretation width: cpu_invariant width_ok "machine_bus j" for j
proof unfold_locales
  fix s :: mcpu and csr val
  assume "width_ok s" "csr_read s csr True \<noteq> None"
  then show "width_ok (snd (csr_write s csr val))"
    by (auto intro!: width_ok_csr_write dest: csr_read_priv)
qed (simp_all add: machine_bus_def width_ok_dev width_ok_raise width_ok_ret)

section \<open>Property\<close>

text \<open>Through any run of the machine the base width of the CPU is the one its mode has: the width of
  \<open>misa\<close> in M mode, and those of the \<open>SXL\<close> and \<open>UXL\<close> fields of \<open>mstatus\<close> in S and U mode.\<close>

theorem base_width_follows_mode:
  assumes "riscv_machine_interp j n s = Some s'" and "priv s \<le> 3" "cur_xlen s = mode_xlen s (priv s)"
  shows "priv s' \<le> 3 \<and> cur_xlen s' = mode_xlen s' (priv s')"
  using width.I_riscv_cpu_interp [of j n s s'] assms
  by (simp add: riscv_machine_interp_def width_ok_def)

theorem base_width_follows_mode_witness:
  "\<exists>s'. riscv_machine_interp 0 1 bare_machine = Some s' \<and> priv s' \<le> 3 \<and> cur_xlen s' = mode_xlen s' (priv s')"
proof -
  obtain s' where s': "riscv_machine_interp 0 1 bare_machine = Some s'" using bare_machine_run by auto
  have "priv bare_machine \<le> 3" "cur_xlen bare_machine = mode_xlen bare_machine (priv bare_machine)"
    by (simp_all add: bare_machine_def riscv_cpu_init_def zero_cpu_def tlb_init_def Let_def mode_xlen_def
        get_base_from_xlen_def)
  from base_width_follows_mode [OF s' this] s' show ?thesis by blast
qed

end
