(* ===== verification/PhysMem.thy ===== *)
theory PhysMem
  imports Mmu
begin

text \<open>
  Physical memory as the CPU sees it: pages, well-formed memory maps, and the reads and writes of
  whole words in RAM through \<open>phys_read_u64\<close> and \<open>phys_write_u64\<close>.
\<close>

section \<open>Pages\<close>

lemma PG_MASK_mask: "PG_MASK = mask 12"
  by (simp add: mask_eq_exp_minus_1)

lemma page_of_bits: "bit (page_of a) n \<longleftrightarrow> 12 \<le> n \<and> bit a n"
  unfolding page_of_def PG_MASK_mask by (auto simp: bit_simps dest: bit_imp_le_length)

lemma page_of_shift: "page_of a = push_bit 12 (drop_bit 12 a)"
  by (rule bit_word_eqI) (auto simp: page_of_bits bit_simps)

lemma unat_page_of: "unat (page_of a) = unat a div 4096 * 4096"
proof -
  have "DEVRAM_PAGE_SIZE - 1 = PG_MASK" by (simp add: iomem_consts)
  then show ?thesis using unat_page_start [of a] by (simp only: page_of_def page_no_def)
qed

lemma page_of_mono: "a \<le> b \<Longrightarrow> page_of a \<le> page_of b"
  by (simp add: word_le_nat_alt unat_page_of div_le_mono)

lemma page_of_le: "page_of a \<le> a"
  by (simp add: word_le_nat_alt unat_page_of)

lemma page_of_idem [simp]: "page_of (page_of a) = page_of a"
  by (rule bit_word_eqI) (simp add: page_of_bits)

text \<open>An address is its page plus its offset.\<close>

lemma word_split: "(a AND NOT m) + (a AND m) = a" for a :: "'a::len word"
proof -
  have "(a AND NOT m) AND (a AND m) = 0" by (rule bit_word_eqI) (auto simp: bit_simps)
  then have "(a AND NOT m) + (a AND m) = (a AND NOT m) OR (a AND m)" by (rule disjunctive_add_eq_or)
  also have "\<dots> = a" by (rule bit_word_eqI) (auto simp: bit_simps)
  finally show ?thesis .
qed

lemma page_plus_offset: "page_of a + (a AND PG_MASK) = a"
  unfolding page_of_def by (rule word_split)

lemma aligned_plus:
  assumes "a AND mask k = (0 :: u64)" "i < 2 ^ k" "k < 64"
  shows "(a + of_nat i) AND NOT (mask k) = a" "(a + of_nat i) AND mask k = of_nat i"
proof -
  have t: "take_bit k (of_nat i :: u64) = of_nat i"
    using assms(2) by (simp add: take_bit_of_nat take_bit_nat_eq_self)
  have ib: "bit (of_nat i :: u64) n \<Longrightarrow> n < k" for n
    using arg_cong [OF t, of "\<lambda>w. bit w n"] by (auto simp: bit_take_bit_iff)
  have ab: "bit a n \<Longrightarrow> \<not> n < k" for n
    using arg_cong [OF assms(1), of "\<lambda>w. bit w n"] by (auto simp: bit_simps dest: bit_imp_le_length)
  have "a AND of_nat i = 0" by (rule bit_word_eqI) (use ib ab in \<open>auto simp: bit_and_iff\<close>)
  then have e: "a + of_nat i = a OR of_nat i" by (rule disjunctive_add_eq_or)
  show "(a + of_nat i) AND NOT (mask k) = a"
    unfolding e by (rule bit_word_eqI) (use ib ab in \<open>auto simp: bit_simps\<close>)
  show "(a + of_nat i) AND mask k = of_nat i"
    unfolding e by (rule bit_word_eqI) (use ib ab in \<open>auto simp: bit_simps\<close>)
qed

text \<open>Two words of the same size, at aligned addresses, are the same or disjoint.\<close>

lemma aligned_disjoint:
  fixes a b :: u64
  assumes "a AND mask k = 0" "b AND mask k = 0" "i < 2 ^ k" "j < 2 ^ k" "k < 64" "a \<noteq> b"
  shows "a + of_nat i \<noteq> b + of_nat j"
  using aligned_plus(1) [OF assms(1,3,5)] aligned_plus(1) [OF assms(2,4,5)] assms(6) by metis

lemma aligned_page: "a AND mask k = 0 \<Longrightarrow> i < 2 ^ k \<Longrightarrow> k \<le> 12 \<Longrightarrow> page_of (a + of_nat i) = page_of a"
  for a :: u64
proof -
  assume a: "a AND mask k = 0" "i < 2 ^ k" "k \<le> 12"
  have "page_of x = page_of (x AND NOT (mask k))" for x
    by (rule bit_word_eqI) (use a(3) in \<open>auto simp: page_of_bits bit_simps\<close>)
  moreover have "(a + of_nat i) AND NOT (mask k) = a AND NOT (mask k)"
    using aligned_plus(1) [of a k i] aligned_plus(1) [of a k 0] a by simp
  ultimately show ?thesis by metis
qed

section \<open>Well-formed memory maps\<close>

text \<open>The address that a range's pointer arithmetic gives for a physical address.\<close>

definition host_addr :: "phys_mem_range \<Rightarrow> u64 \<Rightarrow> u64" where
  "host_addr pr a = pr_phys_mem pr + (a - pr_addr pr)"

text \<open>RAM ranges are made of whole pages, ranges do not overlap, and different RAM ranges have
  different host memory.\<close>

definition range_ok :: "phys_mem_range \<Rightarrow> bool" where
  "range_ok pr \<longleftrightarrow> pr_addr pr \<le> pr_addr pr + pr_size pr
     \<and> (pr_is_ram pr \<longrightarrow> pr_addr pr AND PG_MASK = 0 \<and> pr_size pr AND PG_MASK = 0
          \<and> pr_phys_mem pr \<le> pr_phys_mem pr + pr_size pr)"

definition disjoint_ranges :: "phys_mem_range \<Rightarrow> phys_mem_range \<Rightarrow> bool" where
  "disjoint_ranges p q \<longleftrightarrow> pr_addr p + pr_size p \<le> pr_addr q \<or> pr_addr q + pr_size q \<le> pr_addr p"

definition disjoint_hosts :: "phys_mem_range \<Rightarrow> phys_mem_range \<Rightarrow> bool" where
  "disjoint_hosts p q \<longleftrightarrow> pr_phys_mem p + pr_size p \<le> pr_phys_mem q \<or> pr_phys_mem q + pr_size q \<le> pr_phys_mem p"

definition mem_map_ok :: "phys_mem_map \<Rightarrow> bool" where
  "mem_map_ok m \<longleftrightarrow> (\<forall>i < length m. range_ok (m ! i))
     \<and> (\<forall>i < length m. \<forall>j < length m. i \<noteq> j \<longrightarrow> disjoint_ranges (m ! i) (m ! j)
          \<and> (pr_is_ram (m ! i) \<and> pr_is_ram (m ! j) \<longrightarrow> disjoint_hosts (m ! i) (m ! j)))"

lemma unat_end: "b \<le> b + n \<Longrightarrow> unat (b + n) = unat b + unat n" for b n :: "'a::len word"
  by (simp add: no_olen_add_nat unat_add_small)

lemma in_range_offset:
  assumes "in_range pr a" "range_ok pr"
  shows "a - pr_addr pr < pr_size pr" "pr_addr pr \<le> a"
proof -
  have e: "unat (pr_addr pr + pr_size pr) = unat (pr_addr pr) + unat (pr_size pr)"
    using assms(2) by (intro unat_end) (simp add: range_ok_def)
  show le: "pr_addr pr \<le> a" using assms(1) by (simp add: in_range_def)
  then have "unat (a - pr_addr pr) = unat a - unat (pr_addr pr)"
    by (intro unat_diff_small) (simp add: word_le_nat_alt)
  moreover have "unat a < unat (pr_addr pr) + unat (pr_size pr)"
    using assms(1) by (simp add: in_range_def word_less_nat_alt flip: e)
  ultimately show "a - pr_addr pr < pr_size pr" using le by (simp add: word_less_nat_alt word_le_nat_alt)
qed

lemma host_addr_bounds:
  assumes "in_range pr a" "range_ok pr" "pr_is_ram pr"
  shows "pr_phys_mem pr \<le> host_addr pr a" "host_addr pr a < pr_phys_mem pr + pr_size pr"
proof -
  have o: "a - pr_addr pr < pr_size pr" using in_range_offset [OF assms(1,2)] by simp
  have "pr_phys_mem pr \<le> pr_phys_mem pr + pr_size pr" using assms by (simp add: range_ok_def)
  then have e: "unat (pr_phys_mem pr + pr_size pr) = unat (pr_phys_mem pr) + unat (pr_size pr)"
    "unat (pr_phys_mem pr) + unat (pr_size pr) < 2 ^ 64"
    by (rule unat_end) (use \<open>pr_phys_mem pr \<le> _\<close> in \<open>simp add: no_olen_add_nat\<close>)
  with o have "unat (host_addr pr a) = unat (pr_phys_mem pr) + unat (a - pr_addr pr)"
    unfolding host_addr_def by (intro unat_add_small) (simp add: word_less_nat_alt)
  then show "pr_phys_mem pr \<le> host_addr pr a" "host_addr pr a < pr_phys_mem pr + pr_size pr"
    using o by (simp_all add: word_le_nat_alt word_less_nat_alt e)
qed

lemma lookup_ok:
  assumes "mem_map_ok m" "get_phys_mem_range m a = Some i"
  shows "i < length m" "in_range (m ! i) a" "range_ok (m ! i)"
  using assms get_phys_mem_range_Some [OF assms(2)] by (auto simp: mem_map_ok_def)

text \<open>In a well-formed map the first range that holds an address is the only one.\<close>

lemma lookup_unique:
  assumes "mem_map_ok m" "i < length m" "in_range (m ! i) a"
  shows "get_phys_mem_range m a = Some i"
proof -
  have "\<not> in_range (m ! j) a" if "j < i" for j
  proof
    assume "in_range (m ! j) a"
    moreover have "disjoint_ranges (m ! j) (m ! i)" using assms that by (auto simp: mem_map_ok_def)
    ultimately show False using assms(3) unfolding in_range_def disjoint_ranges_def by auto
  qed
  then show ?thesis using assms by (auto simp: get_phys_mem_range_iff)
qed

text \<open>A RAM range holds an address with its whole page.\<close>

lemma in_range_page:
  assumes "in_range pr a" "range_ok pr" "pr_is_ram pr" "page_of b = page_of a"
  shows "in_range pr b"
proof -
  let ?e = "pr_addr pr + pr_size pr"
  have al: "page_of (pr_addr pr) = pr_addr pr"
    using assms page_plus_offset [of "pr_addr pr"] by (simp add: range_ok_def)
  have sz: "page_of (pr_size pr) = pr_size pr"
    using assms page_plus_offset [of "pr_size pr"] by (simp add: range_ok_def)
  have e: "page_of ?e = ?e"
  proof -
    have "?e = push_bit 12 (drop_bit 12 (pr_addr pr) + drop_bit 12 (pr_size pr))"
      using al sz by (simp add: page_of_shift push_bit_eq_mult distrib_left distrib_right)
    moreover have "page_of (push_bit 12 w) = push_bit 12 w" for w
      by (rule bit_word_eqI) (auto simp: page_of_bits bit_simps)
    ultimately show ?thesis by metis
  qed
  have "pr_addr pr \<le> page_of a" using assms(1) page_of_mono [of "pr_addr pr" a] by (simp add: al in_range_def)
  then have "pr_addr pr \<le> b" using page_of_le [of b] assms(4) by simp
  moreover have "b < ?e"
  proof (rule ccontr)
    assume "\<not> b < ?e"
    then have "page_of ?e \<le> page_of b" by (intro page_of_mono) simp
    then have "?e \<le> page_of a" using assms(4) e by simp
    then show False using assms(1) page_of_le [of a] by (simp add: in_range_def) (metis leD order_trans)
  qed
  ultimately show ?thesis by (simp add: in_range_def)
qed

lemma lookup_page:
  assumes "mem_map_ok m" "get_phys_mem_range m a = Some i" "pr_is_ram (m ! i)" "page_of b = page_of a"
  shows "get_phys_mem_range m b = Some i"
  using assms lookup_ok [OF assms(1,2)] in_range_page by (intro lookup_unique) auto

section \<open>Words in RAM\<close>

lemma take_bit_64 [simp]: "take_bit 64 v = v" for v :: u64
  using take_bit_length_eq [of v] by simp

lemma host_ld_st_disjoint:
  assumes "\<And>i j. i < n \<Longrightarrow> j < k \<Longrightarrow> p + of_nat i \<noteq> q + of_nat j"
  shows "host_ld (host_st m p n v) q k = host_ld m q k"
proof (rule host_ld_cong)
  fix j assume "j < k"
  then show "host_st m p n v (q + of_nat j) = m (q + of_nat j)"
    by (intro host_st_other) (metis assms)
qed

lemma host_addr_plus: "host_addr pr a + n = host_addr pr (a + n)"
  by (simp add: host_addr_def)

text \<open>Aligned words of the same size at different addresses have disjoint host memory.\<close>

lemma host_words_disjoint:
  assumes m: "mem_map_ok m" and a: "get_phys_mem_range m a = Some i" "pr_is_ram (m ! i)"
    and b: "get_phys_mem_range m b = Some j" "pr_is_ram (m ! j)"
    and al: "a AND mask k = 0" "b AND mask k = 0" "k \<le> 12" "a \<noteq> b" and x: "x < 2 ^ k" and y: "y < 2 ^ k"
  shows "host_addr (m ! i) a + of_nat x \<noteq> host_addr (m ! j) b + of_nat y"
proof (cases "i = j")
  case True
  have "a + of_nat x \<noteq> b + of_nat y" by (rule aligned_disjoint [OF al(1,2) x y _ al(4)]) (use al(3) in simp)
  then show ?thesis using True by (simp add: host_addr_def algebra_simps)
next
  case False
  have ra: "in_range (m ! i) (a + of_nat x)" and rb: "in_range (m ! j) (b + of_nat y)"
    using lookup_page [OF m a aligned_page [OF al(1) x al(3)]] lookup_page [OF m b aligned_page [OF al(2) y al(3)]]
      lookup_ok(2) [OF m] by blast+
  have "disjoint_hosts (m ! i) (m ! j)"
    using m a b False lookup_ok(1) [OF m a(1)] lookup_ok(1) [OF m b(1)] by (auto simp: mem_map_ok_def)
  then have "host_addr (m ! i) (a + of_nat x) \<noteq> host_addr (m ! j) (b + of_nat y)"
    using host_addr_bounds [OF ra lookup_ok(3) [OF m a(1)] a(2)] host_addr_bounds [OF rb lookup_ok(3) [OF m b(1)] b(2)]
    by (auto simp: disjoint_hosts_def)
  then show ?thesis by (simp add: host_addr_plus)
qed

text \<open>The physical address has a range, and it is RAM.\<close>

definition ram_at where
  "ram_at s a \<longleftrightarrow> (\<exists>i. get_phys_mem_range (mem_map s) a = Some i \<and> pr_is_ram (mem_map s ! i))"

lemma phys_write_frame [frame_simps]:
  "mem_map (phys_write_u n s a v) = mem_map s" "satp (phys_write_u n s a v) = satp s"
  "mstatus (phys_write_u n s a v) = mstatus s" "priv (phys_write_u n s a v) = priv s"
  "cur_xlen (phys_write_u n s a v) = cur_xlen s" "tlb_read (phys_write_u n s a v) = tlb_read s"
  "tlb_write (phys_write_u n s a v) = tlb_write s" "tlb_code (phys_write_u n s a v) = tlb_code s"
  by (simp_all add: phys_write_u_def Let_def split: option.split)

lemma phys_read_write:
  assumes "mem_map_ok (mem_map s)" "ram_at s a" "a AND 7 = 0" "b AND 7 = 0"
  shows "phys_read_u 8 (phys_write_u 8 s a v) b = (if b = a then v else phys_read_u 8 s b)"
proof -
  obtain i where i: "get_phys_mem_range (mem_map s) a = Some i" "pr_is_ram (mem_map s ! i)"
    using assms(2) by (auto simp: ram_at_def)
  have seven: "(7 :: u64) = mask 3" by (simp add: mask_eq_exp_minus_1)
  have w: "phys_write_u 8 s a v = s\<lparr>ram := host_st (ram s) (host_addr (mem_map s ! i) a) 8 v\<rparr>"
    using i by (simp add: phys_write_u_def host_addr_def Let_def)
  show ?thesis
  proof (cases "b = a")
    case True
    then show ?thesis using i host_ld_st [of 8] by (simp add: w phys_read_u_def host_addr_def Let_def)
  next
    case False
    show ?thesis
    proof (cases "ram_at s b")
      case True
      then obtain j where j: "get_phys_mem_range (mem_map s) b = Some j" "pr_is_ram (mem_map s ! j)"
        by (auto simp: ram_at_def)
      have "host_ld (host_st (ram s) (host_addr (mem_map s ! i) a) 8 v) (host_addr (mem_map s ! j) b) 8
          = host_ld (ram s) (host_addr (mem_map s ! j) b) 8"
        by (rule host_ld_st_disjoint, rule host_words_disjoint [OF assms(1) i j, where k = 3])
          (use assms(3,4) False in \<open>simp_all flip: seven\<close>)
      then show ?thesis using j False by (simp add: w phys_read_u_def host_addr_def Let_def)
    next
      case no: False
      then show ?thesis using False by (auto simp: w phys_read_u_def ram_at_def Let_def split: option.split)
    qed
  qed
qed

text \<open>Nothing can be read outside RAM.\<close>

lemma phys_read_ram: "phys_read_u n s a \<noteq> 0 \<Longrightarrow> ram_at s a"
  by (auto simp: phys_read_u_def ram_at_def Let_def split: option.splits if_splits)

section \<open>Maps that differ in their dirty bits only\<close>

definition map_same :: "phys_mem_map \<Rightarrow> phys_mem_map \<Rightarrow> bool" where
  "map_same m m' \<longleftrightarrow> length m' = length m \<and> (\<forall>i < length m. pr_addr (m' ! i) = pr_addr (m ! i)
     \<and> pr_size (m' ! i) = pr_size (m ! i) \<and> pr_is_ram (m' ! i) = pr_is_ram (m ! i)
     \<and> pr_phys_mem (m' ! i) = pr_phys_mem (m ! i))"

lemma map_same_refl: "map_same m m"
  by (simp add: map_same_def)

lemma map_same_trans: "map_same a b \<Longrightarrow> map_same b c \<Longrightarrow> map_same a c"
  by (simp add: map_same_def)

lemma map_same_dirty: "i < length m \<Longrightarrow> map_same m (m[i := phys_mem_set_dirty_bit (m ! i) off])"
  by (auto simp: map_same_def nth_list_update)

lemma map_same_lookup:
  assumes "map_same m m'"
  shows "get_phys_mem_range m' a = get_phys_mem_range m a"
proof -
  have "in_range (m' ! i) a = in_range (m ! i) a" if "i < length m" for i
    using assms that by (simp add: map_same_def in_range_def)
  then have "get_phys_mem_range m' a = Some i \<longleftrightarrow> get_phys_mem_range m a = Some i" for i
    using assms by (auto simp: get_phys_mem_range_iff map_same_def)
  then show ?thesis by (metis not_None_eq)
qed

lemma map_same_host:
  assumes "map_same m m'" "get_phys_mem_range m a = Some i"
  shows "host_addr (m' ! i) b = host_addr (m ! i) b" "pr_is_ram (m' ! i) = pr_is_ram (m ! i)"
  using assms get_phys_mem_range_Some(1) [OF assms(2)] by (simp_all add: map_same_def host_addr_def)

lemma map_same_ok:
  assumes "map_same m m'" "mem_map_ok m"
  shows "mem_map_ok m'"
  using assms by (simp add: mem_map_ok_def map_same_def range_ok_def disjoint_ranges_def disjoint_hosts_def)

lemma dirty_page_no:
  "page_no off = page_no off' \<Longrightarrow> phys_mem_is_dirty_bit pr off = phys_mem_is_dirty_bit pr off'"
  by (simp add: phys_mem_is_dirty_bit_def page_no_conv)

text \<open>Addresses of one page have one page number in their range.\<close>

lemma page_no_range:
  assumes "mem_map_ok m" "get_phys_mem_range m a = Some j" "pr_is_ram (m ! j)" "page_of b = page_of a"
  shows "page_no (b - pr_addr (m ! j)) = page_no (a - pr_addr (m ! j))"
proof -
  have r: "range_ok (m ! j)" using lookup_ok(3) [OF assms(1,2)] .
  have al: "page_of (pr_addr (m ! j)) = pr_addr (m ! j)"
    using r assms(3) page_plus_offset [of "pr_addr (m ! j)"] by (simp add: range_ok_def)
  have d: "unat (pr_addr (m ! j)) mod 4096 = 0"
    using arg_cong [OF al, of unat] unfolding unat_page_of by (metis mod_mult_self2_is_0)
  have "page_no (x - pr_addr (m ! j)) = unat x div 4096 - unat (pr_addr (m ! j)) div 4096"
    if x: "in_range (m ! j) x" for x
  proof -
    have le: "unat (pr_addr (m ! j)) \<le> unat x" using x by (simp add: in_range_def word_le_nat_alt)
    then have "unat (x - pr_addr (m ! j)) = unat x - unat (pr_addr (m ! j))" by (rule unat_diff_small)
    then show ?thesis using d le unfolding page_no_def by auto
  qed
  moreover have "in_range (m ! j) a" "in_range (m ! j) b"
    using lookup_ok(2) [OF assms(1,2)] lookup_ok(2) [OF assms(1) lookup_page [OF assms]] by simp_all
  moreover have "unat b div 4096 = unat a div 4096"
    using arg_cong [OF assms(4), of unat] unfolding unat_page_of by simp
  ultimately show ?thesis by simp
qed

end
