(* ===== verification/Translation.thy ===== *)
theory Translation
  imports PhysMem Trap
begin

text \<open>
  Address translation against the privileged architecture: an inductive definition of the page
  table walk and the rule for a leaf entry, stated on the bits of the entry; the routine
  \<open>get_phys_addr\<close> computes it, sets the accessed and dirty bits of the leaf and nothing else, and
  is stable: translating again, anywhere in the page, gives the same page and changes nothing.
\<close>

section \<open>The rule for a leaf entry\<close>

definition pte_V :: "u64 \<Rightarrow> bool" where "pte_V pte = bit pte 0"
definition pte_R :: "u64 \<Rightarrow> bool" where "pte_R pte = bit pte 1"
definition pte_W :: "u64 \<Rightarrow> bool" where "pte_W pte = bit pte 2"
definition pte_X :: "u64 \<Rightarrow> bool" where "pte_X pte = bit pte 3"
definition pte_U :: "u64 \<Rightarrow> bool" where "pte_U pte = bit pte 4"

text \<open>\<open>um\<close> and \<open>mxr\<close> are the bits \<open>SUM\<close> and \<open>MXR\<close> of \<open>mstatus\<close>; \<open>smode\<close> is whether the access is one of S mode.\<close>

definition leaf_permits :: "bool \<Rightarrow> bool \<Rightarrow> bool \<Rightarrow> nat \<Rightarrow> u64 \<Rightarrow> bool" where
  "leaf_permits um mxr smode access pte \<longleftrightarrow>
     (pte_W pte \<longrightarrow> pte_R pte) \<and> (if smode then pte_U pte \<longrightarrow> um else pte_U pte)
     \<and> (if access = ACCESS_READ then pte_R pte \<or> (mxr \<and> pte_X pte)
        else if access = ACCESS_WRITE then pte_W pte else pte_X pte)"

text \<open>The three bits of the field \<open>xwr\<close>.\<close>

definition xwr_of :: "bool \<Rightarrow> bool \<Rightarrow> bool \<Rightarrow> u64" where
  "xwr_of r w x = of_bool r OR push_bit 1 (of_bool w) OR push_bit 2 (of_bool x)"

lemma xwr_field: "drop_bit 1 pte AND 7 = xwr_of (pte_R pte) (pte_W pte) (pte_X pte)"
proof (rule bit_word_eqI)
  fix n assume "n < LENGTH(64)"
  have m: "(7 :: u64) = mask 3" by (simp add: mask_eq_exp_minus_1)
  consider "n = 0" | "n = 1" | "n = 2" | "3 \<le> n" by linarith
  then show "bit (drop_bit 1 pte AND 7) n = bit (xwr_of (pte_R pte) (pte_W pte) (pte_X pte)) n"
    unfolding m xwr_of_def pte_R_def pte_W_def pte_X_def
    by cases (simp_all only: bit_and_iff bit_or_iff bit_drop_bit_eq bit_push_bit_iff bit_mask_iff bit_of_bool_iff
      o_apply possible_bit_word, auto simp: numeral_2_eq_2 numeral_3_eq_3)
qed

lemma xwr_zero: "drop_bit 1 pte AND 7 = 0 \<longleftrightarrow> \<not> pte_R pte \<and> \<not> pte_W pte \<and> \<not> pte_X pte"
  unfolding xwr_field by (cases "pte_R pte"; cases "pte_W pte"; cases "pte_X pte") (simp_all add: xwr_of_def)

lemma and_flag_bit: "w AND push_bit k 1 \<noteq> 0 \<longleftrightarrow> bit w k" for w :: "'a::len word"
  by (simp add: and_exp_eq_0_iff_not_bit)

text \<open>The checks of the source are that rule, for the accesses of S and U mode.\<close>

lemma pte_permitted_iff:
  assumes "access \<le> 2"
  shows "pte_permitted s prv access pte \<longleftrightarrow>
    leaf_permits (bit (mstatus s) 18) (bit (mstatus s) 19) (prv = PRV_S) access pte"
proof -
  have f: "pte AND PTE_U_MASK \<noteq> 0 \<longleftrightarrow> pte_U pte" "mstatus s AND MSTATUS_SUM \<noteq> 0 \<longleftrightarrow> bit (mstatus s) 18"
    "mstatus s AND MSTATUS_MXR \<noteq> 0 \<longleftrightarrow> bit (mstatus s) 19"
    unfolding PTE_U_MASK_def MSTATUS_SUM_def MSTATUS_MXR_def and_flag_bit pte_U_def by (rule refl)+
  have a: "access = 0 \<or> access = 1 \<or> access = 2" using assms by auto
  show ?thesis
    unfolding pte_permitted_def Let_def f leaf_permits_def xwr_field
    by (cases "pte_R pte"; cases "pte_W pte"; cases "pte_X pte"; insert a; elim disjE; simp add: xwr_of_def)
qed

section \<open>The page-table walk\<close>

text \<open>\<open>walks s va base n lvl a pte\<close>: with \<open>n\<close> levels left and the table at \<open>base\<close>, the walk for \<open>va\<close>
  ends at the leaf \<open>pte\<close>, which is stored at \<open>a\<close>, with \<open>lvl\<close> levels below it.\<close>

definition vpn :: "u64 \<Rightarrow> nat \<Rightarrow> u64" where
  "vpn va lvl = take_bit 9 (drop_bit (12 + 9 * lvl) va)"

definition table_of :: "u64 \<Rightarrow> u64" where
  "table_of pte = push_bit 12 (drop_bit 10 pte)"

definition is_leaf :: "u64 \<Rightarrow> bool" where
  "is_leaf pte \<longleftrightarrow> pte_R pte \<or> pte_W pte \<or> pte_X pte"

inductive walks :: "'d cpu \<Rightarrow> u64 \<Rightarrow> u64 \<Rightarrow> nat \<Rightarrow> nat \<Rightarrow> u64 \<Rightarrow> u64 \<Rightarrow> bool" for s va where
  leaf: "phys_read_u 8 s (base + 8 * vpn va n) = pte \<Longrightarrow> pte_V pte \<Longrightarrow> is_leaf pte
    \<Longrightarrow> walks s va base (Suc n) n (base + 8 * vpn va n) pte"
| down: "phys_read_u 8 s (base + 8 * vpn va n) = p \<Longrightarrow> pte_V p \<Longrightarrow> \<not> is_leaf p
    \<Longrightarrow> walks s va (table_of p) n lvl a pte \<Longrightarrow> walks s va base (Suc n) lvl a pte"

inductive_simps walks_0 [simp]: "walks s va base 0 lvl a pte"
inductive_simps walks_Suc: "walks s va base (Suc n) lvl a pte"

text \<open>The address a leaf maps \<open>va\<close> to: the frame of the leaf, below it the bits of \<open>va\<close>.\<close>

definition leaf_addr :: "u64 \<Rightarrow> nat \<Rightarrow> u64 \<Rightarrow> u64" where
  "leaf_addr va lvl pte = (va AND mask (12 + 9 * lvl)) OR (table_of pte AND NOT (mask (12 + 9 * lvl)))"

lemma pte_V_flag: "pte AND PTE_V_MASK \<noteq> 0 \<longleftrightarrow> pte_V pte"
  unfolding PTE_V_MASK_def and_flag_bit pte_V_def ..

lemma vpn_code: "drop_bit (PG_SHIFT + 9 * n) va AND 0x1ff = vpn va n"
proof -
  have "(0x1ff :: u64) = mask 9" by (simp add: mask_eq_exp_minus_1)
  then show ?thesis by (simp only: vpn_def and_mask_take_bit PG_SHIFT_def)
qed

text \<open>One level of the routine in these terms.\<close>

definition update_leaf :: "nat \<Rightarrow> u64 \<Rightarrow> u64 \<Rightarrow> 'd cpu \<Rightarrow> 'd cpu" where
  "update_leaf access a pte s =
     (if pte_need_write access pte then phys_write_u 8 s a (pte_set_ad access pte) else s)"

lemma pte_walk_Suc:
  assumes "access \<le> 2"
  shows "pte_walk s va access prv base (Suc n) =
    (let a = base + 8 * vpn va n; pte = phys_read_u 8 s a in
     if \<not> pte_V pte then (None, s)
     else if is_leaf pte then
       if leaf_permits (bit (mstatus s) 18) (bit (mstatus s) 19) (prv = PRV_S) access pte
       then (Some (leaf_addr va n pte), update_leaf access a pte s)
       else (None, s)
     else pte_walk s va access prv (table_of pte) n)"
proof -
  have a: "base + push_bit 3 (vpn va n) = base + 8 * vpn va n" by (simp add: push_bit_eq_mult)
  have m: "push_bit (PG_SHIFT + 9 * n) 1 - 1 = (mask (12 + 9 * n) :: u64)" by (simp add: mask_eq_exp_minus_1)
  show ?thesis
    unfolding pte_walk.simps(2) vpn_code a Let_def m pte_permitted_iff [OF assms] xwr_zero leaf_addr_def
      update_leaf_def is_leaf_def table_of_def
    by (simp add: pte_V_flag)
qed

declare pte_walk.simps(2) [simp del]

text \<open>The walk finds the leaf, if there is one and it permits the access.\<close>

lemma walks_unique: "walks s va base n lvl a pte \<Longrightarrow> walks s va base n lvl' a' pte' \<Longrightarrow> lvl' = lvl \<and> a' = a \<and> pte' = pte"
  by (induction base n lvl a pte rule: walks.induct) (auto simp: walks_Suc)

lemma pte_walk_iff:
  assumes "access \<le> 2"
  shows "pte_walk s va access prv base n = (Some pa, s') \<longleftrightarrow>
    (\<exists>lvl a pte. walks s va base n lvl a pte
       \<and> leaf_permits (bit (mstatus s) 18) (bit (mstatus s) 19) (prv = PRV_S) access pte
       \<and> pa = leaf_addr va lvl pte \<and> s' = update_leaf access a pte s)"
proof (induction n arbitrary: base)
  case (Suc n)
  show ?case
    by (auto simp: pte_walk_Suc [OF assms] Let_def Suc.IH walks_Suc)
qed simp


section \<open>The accessed and dirty bits\<close>

definition marked :: "nat \<Rightarrow> u64 \<Rightarrow> u64" where
  "marked access pte = (if pte_need_write access pte then pte_set_ad access pte else pte)"

lemma flag_bits: "bit PTE_A_MASK n \<longleftrightarrow> n = 6" "bit PTE_D_MASK n \<longleftrightarrow> n = 7"
  unfolding PTE_A_MASK_def PTE_D_MASK_def bit_push_bit_iff bit_1_iff by auto

lemma need_write_iff: "pte_need_write access pte \<longleftrightarrow> \<not> bit pte 6 \<or> (\<not> bit pte 7 \<and> access = ACCESS_WRITE)"
  unfolding pte_need_write_def PTE_A_MASK_def PTE_D_MASK_def and_flag_bit by simp

lemma bit_marked: "bit (marked access pte) n \<longleftrightarrow> bit pte n \<or> n = 6 \<or> (n = 7 \<and> access = ACCESS_WRITE)"
  unfolding marked_def need_write_iff pte_set_ad_def Let_def by (auto simp: bit_or_iff flag_bits)

lemma marked_same [simp]:
  "pte_V (marked access pte) = pte_V pte" "pte_R (marked access pte) = pte_R pte" "pte_W (marked access pte) = pte_W pte"
  "pte_X (marked access pte) = pte_X pte" "pte_U (marked access pte) = pte_U pte" "is_leaf (marked access pte) = is_leaf pte"
  by (simp_all add: is_leaf_def pte_V_def pte_R_def pte_W_def pte_X_def pte_U_def bit_marked)

lemma table_of_marked [simp]: "table_of (marked access pte) = table_of pte"
  by (rule bit_word_eqI) (auto simp: table_of_def bit_push_bit_iff bit_drop_bit_eq bit_marked)

lemma leaf_permits_marked [simp]: "leaf_permits um mxr sm acc (marked access pte) = leaf_permits um mxr sm acc pte"
  by (simp add: leaf_permits_def)

lemma leaf_addr_marked [simp]: "leaf_addr va lvl (marked access pte) = leaf_addr va lvl pte"
  by (simp add: leaf_addr_def)

lemma marked_settled: "\<not> pte_need_write access (marked access pte)"
  by (auto simp: need_write_iff bit_marked)

lemma marked_idem: "marked access (marked access pte) = marked access pte"
  using marked_settled [of access pte] by (simp add: marked_def)

lemma update_leaf_alt: "phys_read_u 8 s a = pte \<Longrightarrow> update_leaf access a pte s = s \<or> update_leaf access a pte s = phys_write_u 8 s a (marked access pte)"
  by (auto simp: update_leaf_def marked_def)

lemma update_leaf_frame [frame_simps]:
  "mem_map (update_leaf access a pte s) = mem_map s" "satp (update_leaf access a pte s) = satp s"
  "mstatus (update_leaf access a pte s) = mstatus s" "priv (update_leaf access a pte s) = priv s"
  "cur_xlen (update_leaf access a pte s) = cur_xlen s" "tlb_read (update_leaf access a pte s) = tlb_read s"
  "tlb_write (update_leaf access a pte s) = tlb_write s" "tlb_code (update_leaf access a pte s) = tlb_code s"
  by (simp_all add: update_leaf_def frame_simps)

lemma read_after_update:
  assumes "mem_map_ok (mem_map s)" "ram_at s a" "a AND 7 = 0" "b AND 7 = 0" "phys_read_u 8 s a = pte"
  shows "phys_read_u 8 (update_leaf access a pte s) b = (if b = a then marked access pte else phys_read_u 8 s b)"
  using phys_read_write [OF assms(1-4)] assms(5) by (cases "b = a") (simp_all add: update_leaf_def marked_def)

subsection \<open>Where the leaf is\<close>

lemma seven_mask: "(7 :: u64) = mask 3"
  by (simp add: mask_eq_exp_minus_1)

lemma aligned_table: "table_of p AND 7 = 0"
  unfolding seven_mask by (auto intro!: bit_word_eqI simp: table_of_def bit_simps)

lemma aligned_entry: "base AND 7 = 0 \<Longrightarrow> (base + 8 * w) AND 7 = 0" for base w :: u64
proof -
  assume b: "base AND 7 = 0"
  have e: "x AND 7 = 0 \<longleftrightarrow> unat x mod 8 = 0" for x :: u64
  proof -
    have "take_bit 3 x = 0 \<longleftrightarrow> unat (take_bit 3 x) = 0" by (simp only: unsigned_eq_0_iff)
    then show ?thesis unfolding seven_mask and_mask_take_bit unat_take_bit by simp
  qed
  have "unat (base + 8 * w) mod 8 = (unat base + 8 * unat w) mod 8"
    by (simp add: unat_word_ariths mod_mod_cancel mod_simps)
  then show ?thesis using b unfolding e by simp
qed

lemma walks_leaf:
  assumes "walks s va base n lvl a pte" "base AND 7 = 0"
  shows "a AND 7 = 0" "phys_read_u 8 s a = pte" "ram_at s a" "is_leaf pte" "lvl < n"
  using assms
proof (induction base n lvl a pte rule: walks.induct)
  case (leaf base n pte)
  {
    case 1
    then show ?case by (simp add: aligned_entry)
  next
    case 2
    show ?case by (rule leaf(1))
  next
    case 3
    have "pte \<noteq> 0" using leaf(2) by (auto simp: pte_V_def)
    then show ?case using leaf(1) phys_read_ram by blast
  next
    case 4
    show ?case by (rule leaf(3))
  next
    case 5
    show ?case by simp
  }
qed (simp_all add: aligned_table)

text \<open>The walk is the same anywhere in the page, and after the update of its leaf.\<close>

lemma same_page_bits: "page_of va = page_of va' \<Longrightarrow> 12 \<le> n \<Longrightarrow> bit va n = bit va' n"
  using page_of_bits [of va n] page_of_bits [of va' n] by simp

lemma vpn_page: "page_of va = page_of va' \<Longrightarrow> vpn va n = vpn va' n"
  by (rule bit_word_eqI) (auto simp: vpn_def bit_take_bit_iff bit_drop_bit_eq same_page_bits [of va va'])

lemma walks_after_update:
  assumes "walks s va base n lvl a pte" "base AND 7 = 0" "mem_map_ok (mem_map s)" "page_of va = page_of va'"
  shows "walks (update_leaf access a pte s) va' base n lvl a (marked access pte)"
  using assms
proof (induction base n lvl a pte rule: walks.induct)
  case (leaf base n pte)
  note w = walks_leaf [OF walks.leaf [OF leaf.hyps] leaf.prems(1)]
  have "phys_read_u 8 (update_leaf access (base + 8 * vpn va n) pte s) (base + 8 * vpn va n) = marked access pte"
    using read_after_update [OF leaf.prems(2) w(3,1,1,2)] by simp
  then show ?case
    using leaf.hyps vpn_page [OF leaf.prems(3)] walks.leaf [of "update_leaf access (base + 8 * vpn va n) pte s" base va' n]
    by simp
next
  case (down base n p lvl a pte)
  note w = walks_leaf [OF down.hyps(4) aligned_table]
  have "base + 8 * vpn va n \<noteq> a" using w(2,4) down.hyps(1,3) by auto
  then have "phys_read_u 8 (update_leaf access a pte s) (base + 8 * vpn va n) = p"
    using read_after_update [OF down.prems(2) w(3,1) aligned_entry [OF down.prems(1)] w(2)] down.hyps(1) by auto
  with down.IH [OF aligned_table down.prems(2,3)] show ?case
    using down.hyps(2,3) vpn_page [OF down.prems(3)] walks.down [of "update_leaf access a pte s" base va' n p]
    by simp
qed

section \<open>get_phys_addr\<close>

text \<open>The page-table formats: Sv39 (mode 8) with three levels, Sv48 (mode 9) with four.\<close>

definition paged :: "'d cpu \<Rightarrow> nat \<Rightarrow> bool" where
  "paged s access \<longleftrightarrow> effective_priv s access \<noteq> PRV_M \<and> (satp_mode s = 8 \<or> satp_mode s = 9)"

definition pt_levels :: "'d cpu \<Rightarrow> nat" where
  "pt_levels s = satp_mode s - 5"

definition pt_root :: "'d cpu \<Rightarrow> u64" where
  "pt_root s = push_bit 12 (satp s AND mask 44)"

definition sign_extended :: "nat \<Rightarrow> u64 \<Rightarrow> bool" where
  "sign_extended levels va \<longleftrightarrow> signed_take_bit (11 + 9 * levels) va = va"

definition permits :: "'d cpu \<Rightarrow> nat \<Rightarrow> u64 \<Rightarrow> bool" where
  "permits s access pte =
     leaf_permits (bit (mstatus s) 18) (bit (mstatus s) 19) (effective_priv s access = PRV_S) access pte"

lemma shift_pair_bit:
  fixes va :: u64
  assumes "0 < k" "k < 64" "i < 64"
  shows "bit (signed_drop_bit k (push_bit k va)) i = bit va (min i (63 - k))"
  using assms by (auto simp: bit_signed_drop_bit_iff bit_push_bit_iff min_def)

lemma sign_extended_code:
  fixes va :: u64
  assumes "0 < k" "k < 64"
  shows "signed_drop_bit k (push_bit k va) = signed_take_bit (63 - k) va"
  by (rule bit_word_eqI) (use assms in \<open>auto simp: shift_pair_bit bit_signed_take_bit_iff min.commute\<close>)

lemma aligned_root: "pt_root s AND 7 = 0"
  unfolding pt_root_def seven_mask by (auto intro!: bit_word_eqI simp: bit_simps)

lemma get_phys_addr_paged:
  assumes "paged s access"
  shows "get_phys_addr s va access =
    (if sign_extended (pt_levels s) va
     then pte_walk s va access (effective_priv s access) (pt_root s) (pt_levels s) else (None, s))"
proof -
  have m: "push_bit 44 1 - 1 = (mask 44 :: u64)" by (simp add: mask_eq_exp_minus_1)
  consider "satp_mode s = 8" | "satp_mode s = 9" using assms by (auto simp: paged_def)
  then show ?thesis
  proof cases
    case 1
    then show ?thesis
      using assms sign_extended_code [of 25 va]
      by (simp add: get_phys_addr_def paged_def pt_levels_def pt_root_def sign_extended_def Let_def m del: push_bit_of_1)
  next
    case 2
    then show ?thesis
      using assms sign_extended_code [of 16 va]
      by (simp add: get_phys_addr_def paged_def pt_levels_def pt_root_def sign_extended_def Let_def m del: push_bit_of_1)
  qed
qed

lemma get_phys_addr_Some:
  assumes "paged s access" "access \<le> 2"
  shows "get_phys_addr s va access = (Some pa, s') \<longleftrightarrow> sign_extended (pt_levels s) va
    \<and> (\<exists>lvl a pte. walks s va (pt_root s) (pt_levels s) lvl a pte \<and> permits s access pte
         \<and> pa = leaf_addr va lvl pte \<and> s' = update_leaf access a pte s)"
  by (simp add: get_phys_addr_paged [OF assms(1)] permits_def pte_walk_iff [OF assms(2)])

lemma paged_update [simp]:
  "paged (update_leaf acc a pte s) access = paged s access" "pt_levels (update_leaf acc a pte s) = pt_levels s"
  "pt_root (update_leaf acc a pte s) = pt_root s" "permits (update_leaf acc a pte s) access p = permits s access p"
  by (simp_all add: paged_def pt_levels_def pt_root_def permits_def effective_priv_def satp_mode_def frame_simps)

lemma permits_marked [simp]: "permits s access (marked acc pte) = permits s access pte"
  by (simp add: permits_def)

lemma sign_extended_page:
  assumes "page_of va = page_of va'" "1 \<le> n"
  shows "sign_extended n va = sign_extended n va'"
proof -
  have "sign_extended n w \<longleftrightarrow> (\<forall>i < 64. bit w (min i (11 + 9 * n)) = bit w i)" for w :: u64
  proof -
    have b: "bit (signed_take_bit (11 + 9 * n) w) i = bit w (min i (11 + 9 * n))" if "i < 64" for i
      using that by (simp add: bit_signed_take_bit_iff min.commute)
    show ?thesis
    proof
      assume "sign_extended n w"
      then show "\<forall>i < 64. bit w (min i (11 + 9 * n)) = bit w i"
        using b unfolding sign_extended_def by (metis (no_types))
    next
      assume r: "\<forall>i < 64. bit w (min i (11 + 9 * n)) = bit w i"
      show "sign_extended n w"
        unfolding sign_extended_def by (rule bit_word_eqI) (use b r in simp)
    qed
  qed
  moreover have "(bit va (min i (11 + 9 * n)) = bit va i) = (bit va' (min i (11 + 9 * n)) = bit va' i)" for i
    using same_page_bits [OF assms(1)] assms(2) by (cases "i \<le> 11 + 9 * n") (simp_all add: min_def)
  ultimately show ?thesis by simp
qed

text \<open>Within a page the walk only changes the offset.\<close>

lemma leaf_addr_page:
  assumes "page_of va' = page_of va"
  shows "leaf_addr va' lvl pte = page_of (leaf_addr va lvl pte) + (va' AND PG_MASK)"
proof -
  have "page_of (leaf_addr va' lvl pte) = page_of (leaf_addr va lvl pte)"
    by (rule bit_word_eqI)
      (use same_page_bits [OF assms] in \<open>auto simp: page_of_bits leaf_addr_def bit_or_iff bit_and_iff\<close>)
  moreover have "leaf_addr va' lvl pte AND PG_MASK = va' AND PG_MASK"
    unfolding PG_MASK_mask
    by (rule bit_word_eqI) (auto simp: leaf_addr_def table_of_def bit_or_iff bit_and_iff bit_mask_iff bit_not_iff bit_push_bit_iff)
  ultimately show ?thesis using page_plus_offset [of "leaf_addr va' lvl pte"] by simp
qed

lemma paged_stable:
  assumes "paged s access" "access \<le> 2" "mem_map_ok (mem_map s)"
    and "get_phys_addr s va access = (Some pa, s')" "page_of va' = page_of va"
  shows "get_phys_addr s' va' access = (Some (page_of pa + (va' AND PG_MASK)), s')"
proof -
  obtain lvl a pte where w: "walks s va (pt_root s) (pt_levels s) lvl a pte" "permits s access pte"
    and se: "sign_extended (pt_levels s) va" and pa: "pa = leaf_addr va lvl pte" and s': "s' = update_leaf access a pte s"
    using assms(4) unfolding get_phys_addr_Some [OF assms(1,2)] by blast
  have l: "1 \<le> pt_levels s" using assms(1) by (auto simp: paged_def pt_levels_def)
  have "walks s' va' (pt_root s) (pt_levels s) lvl a (marked access pte)"
    unfolding s' by (rule walks_after_update [OF w(1) aligned_root assms(3) assms(5) [symmetric]])
  moreover have "update_leaf access a (marked access pte) s' = s'"
    using marked_settled by (simp add: update_leaf_def)
  moreover have "sign_extended (pt_levels s) va'" using se sign_extended_page [OF assms(5) l] by simp
  moreover have "paged s' access" "pt_levels s' = pt_levels s" "pt_root s' = pt_root s" "permits s' access (marked access pte)"
    using assms(1) w(2) by (simp_all add: s')
  ultimately have "sign_extended (pt_levels s') va' \<and> walks s' va' (pt_root s') (pt_levels s') lvl a (marked access pte)
      \<and> permits s' access (marked access pte) \<and> s' = update_leaf access a (marked access pte) s'"
    by simp
  then have "get_phys_addr s' va' access = (Some (leaf_addr va' lvl (marked access pte)), s')"
    using get_phys_addr_Some [OF \<open>paged s' access\<close> assms(2)] by metis
  then show ?thesis by (simp add: pa leaf_addr_page [OF assms(5)])
qed


lemma get_phys_addr_unpaged:
  assumes "\<not> paged s access" "satp_mode s = 0 \<or> satp_mode s = 8 \<or> satp_mode s = 9" "cur_xlen s = 32 \<or> cur_xlen s = 64"
  shows "get_phys_addr s va access =
    (Some (if effective_priv s access = PRV_M \<and> cur_xlen s = 32 then va AND mask 32 else va), s)"
proof -
  have m: "push_bit 32 1 - 1 = (mask 32 :: u64)" by (simp add: mask_eq_exp_minus_1)
  show ?thesis
  proof (cases "effective_priv s access = PRV_M")
    case True
    then show ?thesis using assms(3) unfolding get_phys_addr_def Let_def
      by (elim disjE) (simp_all only: m, simp_all)
  next
    case False
    then have "satp_mode s = 0" using assms(1,2) by (auto simp: paged_def)
    then show ?thesis using False by (simp add: get_phys_addr_def Let_def)
  qed
qed

lemma unpaged_stable:
  assumes "\<not> paged s access" "satp_mode s = 0 \<or> satp_mode s = 8 \<or> satp_mode s = 9" "cur_xlen s = 32 \<or> cur_xlen s = 64"
    and "get_phys_addr s va access = (Some pa, s')" "page_of va' = page_of va"
  shows "get_phys_addr s' va' access = (Some (page_of pa + (va' AND PG_MASK)), s')"
proof -
  have 1: "page_of va + (va' AND PG_MASK) = va'" using page_plus_offset [of va'] assms(5) by metis
  have "page_of (va AND mask 32) = page_of (va' AND mask 32)"
    by (rule bit_word_eqI) (use same_page_bits [OF assms(5)] in \<open>auto simp: page_of_bits bit_and_iff\<close>)
  moreover have "(va' AND mask 32) AND PG_MASK = va' AND PG_MASK"
    unfolding PG_MASK_mask by (rule bit_word_eqI) (auto simp: bit_and_iff bit_mask_iff)
  ultimately have 2: "page_of (va AND mask 32) + (va' AND PG_MASK) = va' AND mask 32"
    using page_plus_offset [of "va' AND mask 32"] by metis
  have s: "s' = s" and pa: "pa = (if effective_priv s access = PRV_M \<and> cur_xlen s = 32 then va AND mask 32 else va)"
    using assms(4) unfolding get_phys_addr_unpaged [OF assms(1-3)] by blast+
  show ?thesis unfolding s pa get_phys_addr_unpaged [OF assms(1-3)] by (simp only: 1 2 split: if_split) blast
qed

section \<open>Properties\<close>

text \<open>A CPU in S mode with a one-page RAM table that maps a gigabyte with a single leaf.\<close>

definition paged_cpu :: "unit cpu" where
  "paged_cpu = (riscv_cpu_init [zero_range\<lparr>pr_is_ram := True, pr_addr := 0x80000000, pr_org_size := 0x10000,
     pr_size := 0x10000, pr_phys_mem := 0x100000\<rparr>] (host_st (\<lambda>_. 0) 0x101010 8 0x2000000F) ())
     \<lparr>priv := PRV_S, satp := 0x8000000000080001\<rparr>"

lemma paged_cpu_simps:
  "mem_map paged_cpu = [zero_range\<lparr>pr_is_ram := True, pr_addr := 0x80000000, pr_org_size := 0x10000,
     pr_size := 0x10000, pr_phys_mem := 0x100000\<rparr>]"
  "ram paged_cpu = host_st (\<lambda>_. 0) 0x101010 8 0x2000000F" "priv paged_cpu = 1" "satp paged_cpu = 0x8000000000080001"
  "mstatus paged_cpu = 0xA00000000" "cur_xlen paged_cpu = 64"
  by (simp_all add: paged_cpu_def riscv_cpu_init_def zero_cpu_def tlb_init_def Let_def mstatus_consts get_base_from_xlen_def)

lemma paged_cpu_ok: "mem_map_ok (mem_map paged_cpu)" "paged paged_cpu access"
  by (simp_all add: mem_map_ok_def range_ok_def paged_cpu_simps paged_def effective_priv_def satp_mode_def mstatus_consts)

lemma paged_cpu_read: "phys_read_u 8 paged_cpu 0x80001010 = 0x2000000F"
  by (simp add: phys_read_u_def paged_cpu_simps get_phys_mem_range_def in_range_def host_ld_st Let_def)

lemma paged_cpu_pt: "pt_root paged_cpu = 0x80001000" "pt_levels paged_cpu = Suc 2" "vpn 0x80002345 2 = 2"
  by (simp_all add: pt_root_def pt_levels_def satp_mode_def paged_cpu_simps vpn_def mask_eq_exp_minus_1)

lemma paged_cpu_walks: "walks paged_cpu 0x80002345 (pt_root paged_cpu) (pt_levels paged_cpu) 2 0x80001010 0x2000000F"
  using walks.leaf [of paged_cpu "0x80001000" "0x80002345" 2 "0x2000000F"] paged_cpu_read
  by (simp add: paged_cpu_pt pte_V_def is_leaf_def pte_R_def bit_numeral_rec)

lemma paged_cpu_permits: "permits paged_cpu access 0x2000000F"
  by (simp add: permits_def leaf_permits_def paged_cpu_simps effective_priv_def mstatus_consts pte_R_def pte_W_def
      pte_X_def pte_U_def bit_numeral_rec)

lemma paged_cpu_translates:
  "get_phys_addr paged_cpu 0x80002345 ACCESS_WRITE
    = (Some 0x80002345, update_leaf ACCESS_WRITE 0x80001010 0x2000000F paged_cpu)"
proof -
  have "leaf_addr 0x80002345 2 0x2000000F = 0x80002345"
    by (simp add: leaf_addr_def table_of_def mask_eq_exp_minus_1)
  moreover have "sign_extended (pt_levels paged_cpu) 0x80002345"
    by (simp add: sign_extended_def paged_cpu_pt)
  ultimately show ?thesis
    using paged_cpu_walks paged_cpu_permits paged_cpu_ok(2) by (subst get_phys_addr_Some) (auto intro: exI)
qed



text \<open>C5: A successful translation sets the accessed bit of the leaf, and the dirty bit if the access is
  a store; no other word of RAM and nothing else in the CPU changes.\<close>

theorem translation_marks_leaf:
  assumes "paged s access" "access \<le> 2" "mem_map_ok (mem_map s)" "get_phys_addr s va access = (Some pa, s')"
  shows "\<exists>lvl a pte. walks s va (pt_root s) (pt_levels s) lvl a pte
    \<and> (\<forall>n. bit (phys_read_u 8 s' a) n \<longleftrightarrow> bit pte n \<or> n = 6 \<or> (n = 7 \<and> access = ACCESS_WRITE))
    \<and> (\<forall>b. b AND 7 = 0 \<longrightarrow> b \<noteq> a \<longrightarrow> phys_read_u 8 s' b = phys_read_u 8 s b)
    \<and> s' = s\<lparr>ram := ram s'\<rparr>"
proof -
  obtain lvl a pte where w: "walks s va (pt_root s) (pt_levels s) lvl a pte" and s': "s' = update_leaf access a pte s"
    using assms(4) unfolding get_phys_addr_Some [OF assms(1,2)] by blast
  note l = walks_leaf [OF w aligned_root]
  have r: "phys_read_u 8 s' b = (if b = a then marked access pte else phys_read_u 8 s b)" if "b AND 7 = 0" for b
    unfolding s' by (rule read_after_update [OF assms(3) l(3,1) that l(2)])
  have "s' = s\<lparr>ram := ram s'\<rparr>"
    unfolding s' update_leaf_def phys_write_u_def by (simp add: Let_def split: option.split)
  moreover have "bit (phys_read_u 8 s' a) n \<longleftrightarrow> bit pte n \<or> n = 6 \<or> (n = 7 \<and> access = ACCESS_WRITE)" for n
    using r [OF l(1)] by (simp only: bit_marked if_True simp_thms)
  moreover have "b AND 7 = 0 \<Longrightarrow> b \<noteq> a \<Longrightarrow> phys_read_u 8 s' b = phys_read_u 8 s b" for b using r by simp
  ultimately show ?thesis using w by blast
qed

theorem translation_marks_leaf_witness:
  "\<exists>lvl a pte s'. get_phys_addr paged_cpu 0x80002345 ACCESS_WRITE = (Some 0x80002345, s')
    \<and> walks paged_cpu 0x80002345 (pt_root paged_cpu) (pt_levels paged_cpu) lvl a pte \<and> bit (phys_read_u 8 s' a) 7"
  using translation_marks_leaf [OF paged_cpu_ok(2) _ paged_cpu_ok(1) paged_cpu_translates] paged_cpu_translates by auto

text \<open>C6: Translation is stable: once an address has been translated, translating any address of the
  same page for the same kind of access gives the same physical page with the new offset, and does
  not change the state again. This is what lets a TLB entry stand for a page.\<close>

theorem translation_stable:
  assumes "satp_mode s = 0 \<or> satp_mode s = 8 \<or> satp_mode s = 9" "cur_xlen s = 32 \<or> cur_xlen s = 64"
    and "access \<le> 2" "mem_map_ok (mem_map s)"
    and "get_phys_addr s va access = (Some pa, s')" "page_of va' = page_of va"
  shows "get_phys_addr s' va' access = (Some (page_of pa + (va' AND PG_MASK)), s')"
  using paged_stable [OF _ assms(3-6)] unpaged_stable [OF _ assms(1,2,5,6)] by blast

theorem translation_stable_witness:
  "\<exists>s'. get_phys_addr paged_cpu 0x80002345 ACCESS_WRITE = (Some 0x80002345, s')
    \<and> get_phys_addr s' 0x80002FFF ACCESS_WRITE = (Some 0x80002FFF, s')"
proof -
  have "satp_mode paged_cpu = 8" by (simp add: satp_mode_def paged_cpu_simps)
  then have "get_phys_addr (update_leaf ACCESS_WRITE 0x80001010 0x2000000F paged_cpu) 0x80002FFF ACCESS_WRITE
      = (Some (page_of 0x80002345 + (0x80002FFF AND PG_MASK)), update_leaf ACCESS_WRITE 0x80001010 0x2000000F paged_cpu)"
    by (intro translation_stable [OF _ _ _ paged_cpu_ok(1) paged_cpu_translates])
      (simp_all add: paged_cpu_simps page_of_def)
  then show ?thesis using paged_cpu_translates by (simp add: page_of_def)
qed

end
