(* ===== verification/RamAccess.thy ===== *)
theory RamAccess
  imports Translation
begin

text \<open>
  Loads and stores of RAM where addresses are not translated: through the TLBs and the slow paths, at
  any alignment, they read and write the bytes of guest memory, least significant byte first. The
  TLB invariant \<open>tlbs_ok\<close> says that a valid entry gives the host address of its page.
\<close>

section \<open>Guest memory\<close>

definition guest_byte :: "'d cpu \<Rightarrow> u64 \<Rightarrow> u8" where
  "guest_byte s a =
     (case get_phys_mem_range (mem_map s) a of None \<Rightarrow> 0 | Some i \<Rightarrow> ram s (host_addr (mem_map s ! i) a))"

primrec guest_ld :: "'d cpu \<Rightarrow> u64 \<Rightarrow> nat \<Rightarrow> u64" where
  "guest_ld s a 0 = 0"
| "guest_ld s a (Suc n) = ucast (guest_byte s a) OR push_bit 8 (guest_ld s (a + 1) n)"

lemma bit_guest_ld:
  "n \<le> 8 \<Longrightarrow> bit (guest_ld s p n) i \<longleftrightarrow> i < 8 * n \<and> bit (guest_byte s (p + of_nat (i div 8))) (i mod 8)"
proof -
  have "guest_ld s p n = host_ld (guest_byte s) p n" by (induction n arbitrary: p) simp_all
  then show "n \<le> 8 \<Longrightarrow> bit (guest_ld s p n) i \<longleftrightarrow> i < 8 * n \<and> bit (guest_byte s (p + of_nat (i div 8))) (i mod 8)"
    by (simp only: bit_host_ld)
qed

text \<open>An aligned word in RAM is contiguous in host memory.\<close>

lemma host_ld_guest:
  assumes "mem_map_ok (mem_map s)" "get_phys_mem_range (mem_map s) a = Some i" "pr_is_ram (mem_map s ! i)"
    and "a AND mask k = 0" "k \<le> 3"
  shows "host_ld (ram s) (host_addr (mem_map s ! i) a) (2 ^ k) = guest_ld s a (2 ^ k)"
proof -
  have n: "2 ^ k \<le> (8 :: nat)" using power_increasing [of k 3 "2::nat"] assms(5) by simp
  have "guest_byte s (a + of_nat j) = ram s (host_addr (mem_map s ! i) a + of_nat j)" if "j < 2 ^ k" for j
  proof -
    have "page_of (a + of_nat j) = page_of a" by (rule aligned_page [OF assms(4) that]) (use assms(5) in simp)
    then have "get_phys_mem_range (mem_map s) (a + of_nat j) = Some i" by (rule lookup_page [OF assms(1-3)])
    then show ?thesis by (simp add: guest_byte_def host_addr_plus)
  qed
  then show ?thesis
    using n by (intro bit_word_eqI) (auto simp: bit_guest_ld bit_host_ld)
qed

text \<open>Two aligned words joined by shifts give the word at the offset \<open>al\<close>.\<close>

lemma join_words:
  assumes "al < W" "0 < al" "W \<le> 8"
  shows "drop_bit (al * 8) (guest_ld s base W) OR take_bit (8 * W) (push_bit (8 * W - al * 8) (guest_ld s (base + of_nat W) W))
    = guest_ld s (base + of_nat al) W"
proof (rule bit_word_eqI)
  fix i assume i: "i < LENGTH(64)"
  have lo: "bit (guest_ld s base W) (i + al * 8) = bit (guest_ld s (base + of_nat al) W) i" if "i + al * 8 < 8 * W"
  proof -
    have "(i + al * 8) div 8 = al + i div 8" "(i + al * 8) mod 8 = i mod 8" by simp_all
    then show ?thesis using that assms by (simp add: bit_guest_ld add.assoc)
  qed
  have hi: "bit (guest_ld s (base + of_nat W) W) (i - (8 * W - al * 8)) = bit (guest_ld s (base + of_nat al) W) i"
    if "8 * W \<le> i + al * 8" "i < 8 * W"
  proof -
    define j where "j = i - (8 * W - al * 8)"
    have i': "i = j + 8 * (W - al)" using that assms(1) by (simp add: j_def algebra_simps)
    have "i div 8 = j div 8 + (W - al)" "i mod 8 = j mod 8" by (simp_all add: i')
    moreover have "base + of_nat al + of_nat (j div 8 + (W - al)) = base + of_nat W + (of_nat (j div 8) :: u64)"
      using assms(1) by (simp add: of_nat_diff)
    moreover have "j < 8 * W" using that by (simp add: j_def)
    ultimately show ?thesis using that(2) assms(3) by (simp only: bit_guest_ld j_def [symmetric])
  qed
  show "bit (drop_bit (al * 8) (guest_ld s base W) OR take_bit (8 * W) (push_bit (8 * W - al * 8) (guest_ld s (base + of_nat W) W))) i
      = bit (guest_ld s (base + of_nat al) W) i"
    using lo hi i assms
    by (cases "i + al * 8 < 8 * W")
      (auto simp: bit_or_iff bit_drop_bit_eq bit_take_bit_iff bit_push_bit_iff add.commute bit_guest_ld)
qed

section \<open>The TLB invariant\<close>

text \<open>Addresses are not translated, for loads and stores: M mode at the full width, or a lower mode with
  paging turned off.\<close>

definition flat :: "'d cpu \<Rightarrow> bool" where
  "flat s \<longleftrightarrow> (if effective_priv s ACCESS_READ = PRV_M then cur_xlen s = 64 else satp_mode s = 0)"

lemma flat_addr:
  assumes "flat s"
  shows "get_phys_addr s a ACCESS_READ = (Some a, s)" "get_phys_addr s a ACCESS_WRITE = (Some a, s)"
  using assms by (simp_all add: flat_def get_phys_addr_def effective_priv_def Let_def split: if_splits)

text \<open>An entry is invalid, or holds a page of its index together with the page's host address.\<close>

definition entry_ok :: "'d cpu \<Rightarrow> nat \<Rightarrow> tlb_entry \<Rightarrow> bool" where
  "entry_ok s i e \<longleftrightarrow> vaddr e = -1 \<or>
     (tlb_index (vaddr e) = i \<and> page_of (vaddr e) = vaddr e
      \<and> (\<exists>j. get_phys_mem_range (mem_map s) (vaddr e) = Some j \<and> pr_is_ram (mem_map s ! j)
             \<and> mem_addend e + vaddr e = host_addr (mem_map s ! j) (vaddr e)))"

definition tlbs_ok :: "'d cpu \<Rightarrow> bool" where
  "tlbs_ok s \<longleftrightarrow> (\<forall>i < TLB_SIZE. entry_ok s i (tlb_read s i) \<and> entry_ok s i (tlb_write s i))"

lemma tlb_index_less: "tlb_index a < TLB_SIZE"
proof -
  have "(of_nat TLB_SIZE - 1 :: u64) = mask 8" by (simp add: mask_eq_exp_minus_1)
  then show ?thesis unfolding tlb_index_def by (simp only: and_mask_take_bit unat_take_bit) simp
qed

lemma tlb_index_page: "tlb_index (page_of a) = tlb_index a"
proof -
  have "drop_bit 12 (page_of a) = drop_bit 12 a" by (rule bit_word_eqI) (simp add: bit_drop_bit_eq page_of_bits)
  then show ?thesis by (simp add: tlb_index_def)
qed

text \<open>The tag an access looks for: the page, for an aligned access; no tag of an unaligned one and no
  invalid entry matches a page.\<close>

lemma tlb_tag_aligned:
  assumes "a AND mask k = 0" "k \<le> 3"
  shows "tlb_tag k a = page_of a"
proof -
  have m: "(2 ^ k - 1 :: u64) = mask k" by (simp add: mask_eq_exp_minus_1)
  show ?thesis
    unfolding tlb_tag_def page_of_def PG_MASK_mask m
  proof (rule bit_word_eqI)
    fix n assume "n < LENGTH(64)"
    have "bit a n \<Longrightarrow> \<not> n < k"
      using arg_cong [OF assms(1), of "\<lambda>w. bit w n"] by (auto simp: bit_simps dest: bit_imp_le_length)
    then show "bit (a AND NOT (mask 12 AND NOT (mask k))) n = bit (a AND NOT (mask 12)) n"
      by (auto simp: bit_simps)
  qed
qed

lemma tlb_tag_unaligned:
  assumes "a AND mask k \<noteq> 0" "k \<le> 3"
  shows "page_of (tlb_tag k a) \<noteq> tlb_tag k a" "tlb_tag k a \<noteq> -1"
proof -
  have m: "(2 ^ k - 1 :: u64) = mask k" by (simp add: mask_eq_exp_minus_1)
  have t: "bit (tlb_tag k a) n \<longleftrightarrow> bit a n \<and> (12 \<le> n \<or> n < k)" for n
    unfolding tlb_tag_def PG_MASK_mask m by (auto simp: bit_simps dest: bit_imp_le_length)
  obtain n where n: "bit a n" "n < k" using assms(1) by (auto simp: bit_eq_iff bit_simps)
  then show "page_of (tlb_tag k a) \<noteq> tlb_tag k a"
    using assms(2) t [of n] page_of_bits [of "tlb_tag k a" n] by auto
  show "tlb_tag k a \<noteq> -1"
  proof
    assume "tlb_tag k a = -1"
    then have "bit (tlb_tag k a) 3" by simp
    then show False using t [of 3] assms(2) by auto
  qed
qed

lemma page_not_minus_1: "page_of a \<noteq> -1"
  using page_of_bits [of a 0] by auto

lemma tlb_miss_unaligned:
  assumes "a AND mask k \<noteq> 0" "k \<le> 3" "entry_ok s i e"
  shows "vaddr e \<noteq> tlb_tag k a"
  using tlb_tag_unaligned [OF assms(1,2)] assms(3) by (auto simp: entry_ok_def)

text \<open>A hit gives the host address.\<close>

lemma tlb_hit:
  assumes "mem_map_ok (mem_map s)" "entry_ok s i e" "vaddr e = page_of a"
  obtains j where "get_phys_mem_range (mem_map s) a = Some j" "pr_is_ram (mem_map s ! j)"
    "mem_addend e + a = host_addr (mem_map s ! j) a"
proof -
  obtain j where j: "get_phys_mem_range (mem_map s) (page_of a) = Some j" "pr_is_ram (mem_map s ! j)"
    and m: "mem_addend e + page_of a = host_addr (mem_map s ! j) (page_of a)"
    using assms(2,3) page_not_minus_1 [of a] by (auto simp: entry_ok_def)
  have "mem_addend e + a = (mem_addend e + page_of a) + (a - page_of a)" by simp
  also have "\<dots> = host_addr (mem_map s ! j) a" unfolding m by (simp add: host_addr_def)
  finally show thesis using that j lookup_page [OF assms(1) j] by simp
qed

lemma entry_fill:
  assumes "mem_map_ok (mem_map s)" "get_phys_mem_range (mem_map s) a = Some j" "pr_is_ram (mem_map s ! j)"
  shows "entry_ok s (tlb_index a) \<lparr>vaddr = page_of a, mem_addend = host_addr (mem_map s ! j) a - a\<rparr>"
  using lookup_page [OF assms, of "page_of a"] assms(3)
  by (auto simp: entry_ok_def tlb_index_page host_addr_def intro!: exI [of _ j])

section \<open>Loads\<close>

lemma entry_ok_map: "mem_map s = mem_map t \<Longrightarrow> entry_ok s i e = entry_ok t i e"
  by (simp add: entry_ok_def)

lemma guest_upd [simp]:
  "guest_byte (s\<lparr>tlb_read := t\<rparr>) = guest_byte s" "guest_byte (s\<lparr>tlb_write := t\<rparr>) = guest_byte s"
  "guest_ld (s\<lparr>tlb_read := t\<rparr>) a n = guest_ld s a n" "flat (s\<lparr>tlb_read := t\<rparr>) = flat s"
  "ram_at (s\<lparr>tlb_read := t\<rparr>) a = ram_at s a"
proof -
  show b: "guest_byte (s\<lparr>tlb_read := t\<rparr>) = guest_byte s" "guest_byte (s\<lparr>tlb_write := t\<rparr>) = guest_byte s"
    by (simp_all add: guest_byte_def fun_eq_iff split: option.split)
  show "guest_ld (s\<lparr>tlb_read := t\<rparr>) a n = guest_ld s a n"
    by (induction n arbitrary: a) (simp_all add: b)
  show "flat (s\<lparr>tlb_read := t\<rparr>) = flat s" "ram_at (s\<lparr>tlb_read := t\<rparr>) a = ram_at s a"
    by (simp_all add: flat_def effective_priv_def satp_mode_def ram_at_def)
qed

text \<open>A state in which RAM can be accessed, and what a load leaves of it.\<close>

definition ready :: "'d cpu \<Rightarrow> bool" where
  "ready s \<longleftrightarrow> mem_map_ok (mem_map s) \<and> flat s \<and> tlbs_ok s"

definition loaded :: "'d cpu \<Rightarrow> 'd cpu \<Rightarrow> bool" where
  "loaded s s' \<longleftrightarrow> ready s' \<and> (\<exists>t. s' = s\<lparr>tlb_read := t\<rparr>)"

lemma loaded_refl: "ready s \<Longrightarrow> loaded s s"
  by (auto simp: loaded_def intro: exI [of _ "tlb_read s"])

lemma loaded_trans: "loaded s t \<Longrightarrow> loaded t u \<Longrightarrow> loaded s u"
  by (auto simp: loaded_def)

lemma loaded_same:
  assumes "loaded s s'"
  shows "guest_byte s' = guest_byte s" "guest_ld s' a n = guest_ld s a n" "ram_at s' a = ram_at s a" "ready s'"
  using assms by (auto simp: loaded_def)

lemma ready_fill:
  assumes "ready s" "get_phys_mem_range (mem_map s) a = Some j" "pr_is_ram (mem_map s ! j)"
  shows "ready (s\<lparr>tlb_read := (tlb_read s)(tlb_index a := \<lparr>vaddr = page_of a, mem_addend = host_addr (mem_map s ! j) a - a\<rparr>)\<rparr>)"
    (is "ready ?s")
proof -
  have "entry_ok ?s i e = entry_ok s i e" for i e by (simp add: entry_ok_def)
  then show ?thesis
    using assms entry_fill [of s a j] by (auto simp: ready_def tlbs_ok_def)
qed

lemma load_slow_aligned:
  assumes "ready s" "ram_at s a" "a AND mask k = 0" "k \<le> 3"
  shows "\<exists>s'. read_slow_aligned E k s a = (Some (guest_ld s a (2 ^ k)), s') \<and> loaded s s'"
proof -
  obtain j where j: "get_phys_mem_range (mem_map s) a = Some j" "pr_is_ram (mem_map s ! j)"
    using assms(2) by (auto simp: ram_at_def)
  have m: "mem_map_ok (mem_map s)" "flat s" using assms(1) by (simp_all add: ready_def)
  have "read_slow_aligned E k s a = (Some (guest_ld s a (2 ^ k)),
      s\<lparr>tlb_read := (tlb_read s)(tlb_index a := \<lparr>vaddr = page_of a, mem_addend = host_addr (mem_map s ! j) a - a\<rparr>)\<rparr>)"
    using j host_ld_guest [OF m(1) j assms(3,4)]
    by (simp add: read_slow_aligned_def flat_addr(1) [OF m(2), simplified] host_addr_def Let_def)
  then show ?thesis using ready_fill [OF assms(1) j] by (auto simp: loaded_def)
qed

lemma take_bit_guest_ld: "k \<le> 3 \<Longrightarrow> take_bit (8 * 2 ^ k) (guest_ld s a (2 ^ k)) = guest_ld s a (2 ^ k)"
proof -
  assume "k \<le> 3"
  then have "2 ^ k \<le> (8 :: nat)" using power_increasing [of k 3 "2::nat"] by simp
  then show ?thesis by (intro bit_word_eqI) (auto simp: bit_take_bit_iff bit_guest_ld)
qed

text \<open>The fast path in front of any slow path that is right on a miss.\<close>

lemma load_fast:
  assumes r: "ready s" and k: "k \<le> 3" and ram: "ram_at s a"
    and slow: "\<exists>s'. slow s a = (Some (guest_ld s a (2 ^ k)), s') \<and> loaded s s'"
  shows "\<exists>s'. tlb_read_fast slow k s a = (Some (guest_ld s a (2 ^ k)), s') \<and> loaded s s'"
proof (cases "vaddr (tlb_read s (tlb_index a)) = tlb_tag k a")
  case True
  have e: "entry_ok s (tlb_index a) (tlb_read s (tlb_index a))"
    using r tlb_index_less [of a] by (simp add: ready_def tlbs_ok_def)
  have al: "a AND mask k = 0" using tlb_miss_unaligned [OF _ k e] True by blast
  have m: "mem_map_ok (mem_map s)" using r by (simp add: ready_def)
  obtain j where "get_phys_mem_range (mem_map s) a = Some j" "pr_is_ram (mem_map s ! j)"
    "mem_addend (tlb_read s (tlb_index a)) + a = host_addr (mem_map s ! j) a"
    using tlb_hit [OF m e] True tlb_tag_aligned [OF al k] by metis
  then have "tlb_read_fast slow k s a = (Some (guest_ld s a (2 ^ k)), s)"
    using True host_ld_guest [OF m _ _ al k] by (simp add: tlb_read_fast_def)
  then show ?thesis using loaded_refl [OF r] by blast
next
  case False
  then show ?thesis using slow take_bit_guest_ld [OF k, of s a] by (auto simp: tlb_read_fast_def)
qed

lemma load_aligned:
  assumes "ready s" "ram_at s a" "a AND mask k = 0" "k \<le> 3"
  shows "\<exists>s'. target_read_aligned E k s a = (Some (guest_ld s a (2 ^ k)), s') \<and> loaded s s'"
  unfolding target_read_aligned_def
  by (rule load_fast [OF assms(1,4,2)], rule load_slow_aligned [OF assms])

text \<open>Two aligned loads.\<close>

lemma load_pair:
  assumes "ready s" "k \<le> 3" "ram_at s a" "ram_at s b" "a AND mask k = 0" "b AND mask k = 0"
  shows "\<exists>s'. read_pair (target_read_aligned E k) s a b
    = (Some (guest_ld s a (2 ^ k), guest_ld s b (2 ^ k)), s') \<and> loaded s s'"
proof -
  obtain s1 where s1: "target_read_aligned E k s a = (Some (guest_ld s a (2 ^ k)), s1)" "loaded s s1"
    using load_aligned [OF assms(1,3,5,2)] by blast
  note l = loaded_same [OF s1(2)]
  obtain s2 where s2: "target_read_aligned E k s1 b = (Some (guest_ld s b (2 ^ k)), s2)" "loaded s1 s2"
    using load_aligned [OF l(4) _ assms(6,2), of E] assms(4) l by auto
  show ?thesis using s1 s2 loaded_trans [OF s1(2) s2(2)] by (auto simp: read_pair_def)
qed

text \<open>The unaligned branch: the two aligned words that hold the bytes.\<close>

lemma addr_split:
  fixes a :: u64
  assumes "a AND mask k \<noteq> 0" "k < 64"
  obtains base al where "a AND mask k = of_nat al" "a - of_nat al = base" "base AND mask k = 0" "a = base + of_nat al"
    "0 < al" "al < 2 ^ k"
proof -
  define al where "al = unat (a AND mask k)"
  have al: "a AND mask k = of_nat al" by (simp add: al_def)
  have less: "al < 2 ^ k" unfolding al_def and_mask_take_bit unat_take_bit by simp
  have pos: "0 < al" unfolding al_def unat_gt_0 by (rule assms(1))
  have s: "(a AND NOT (mask k)) + of_nat al = a" using word_split [of a "mask k"] by (simp add: al)
  have b: "a - of_nat al = a AND NOT (mask k)" using s by (simp add: algebra_simps)
  have "(a AND NOT (mask k)) AND mask k = 0" by (rule bit_word_eqI) (simp add: bit_simps)
  then show thesis using that [of al "a AND NOT (mask k)"] al b s pos less by simp
qed

text \<open>The words that hold the first and the last byte are in RAM.\<close>

lemma ram_at_page: "mem_map_ok (mem_map s) \<Longrightarrow> ram_at s a \<Longrightarrow> page_of b = page_of a \<Longrightarrow> ram_at s b"
  unfolding ram_at_def using lookup_page by blast

lemma load_unaligned:
  assumes "ready s" "a AND mask k \<noteq> 0" "k \<in> {1, 2, 3}" "\<forall>i < 2 ^ k. ram_at s (a + of_nat i)"
  shows "\<exists>s'. read_slow_unaligned E k s a = (Some (guest_ld s a (2 ^ k)), s') \<and> loaded s s'"
proof -
  have k64: "k < 64" and k12: "k \<le> 12" using assms(3) by auto
  obtain base al where al: "a AND mask k = of_nat al" "a - of_nat al = base" "base AND mask k = 0" "a = base + of_nat al"
    "0 < al" "al < 2 ^ k" by (rule addr_split [OF assms(2) k64])
  have m: "mem_map_ok (mem_map s)" using assms(1) by (simp add: ready_def)
  have kk: "(2 ^ k :: u64) = of_nat (2 ^ k)" by simp
  have b2: "(base + 2 ^ k) AND mask k = 0"
  proof -
    have "unat (base + 2 ^ k) mod 2 ^ k = 0"
    proof -
      have "unat base mod 2 ^ k = 0"
        using al(3) unat_take_bit [of k base] by (simp add: and_mask_take_bit)
      moreover have "unat (base + 2 ^ k) mod 2 ^ k = (unat base + 2 ^ k) mod 2 ^ k"
        using assms(3) by (auto simp: unat_word_ariths mod_mod_cancel)
      ultimately show ?thesis by simp
    qed
    then have "unat (take_bit k (base + 2 ^ k)) = 0" by (simp only: unat_take_bit)
    then show ?thesis unfolding and_mask_take_bit by (simp only: unsigned_eq_0_iff)
  qed
  have r1: "ram_at s base"
  proof (rule ram_at_page [OF m])
    show "ram_at s a" using spec [OF assms(4), of 0] by simp
    show "page_of base = page_of a" using aligned_page [OF al(3,6) k12] al(4) by simp
  qed
  have r2: "ram_at s (base + 2 ^ k)"
  proof (rule ram_at_page [OF m])
    show "ram_at s (a + of_nat (2 ^ k - 1))" by (rule assms(4) [rule_format]) simp
    have e: "a + of_nat (2 ^ k - 1) = base + 2 ^ k + of_nat (al - 1)"
      using al(4,5) by (simp add: of_nat_diff)
    have "al - 1 < 2 ^ k" using al(6) by simp
    then show "page_of (base + 2 ^ k) = page_of (a + of_nat (2 ^ k - 1))"
      unfolding e by (rule aligned_page [OF b2 _ k12, symmetric])
  qed
  have ua: "unat (a AND (2 ^ k - 1)) = al"
  proof -
    have "(2 :: nat) ^ k \<le> 2 ^ 3" using assms(3) by (intro power_increasing) auto
    then have "al < 2 ^ 64" using al(6) by simp
    then show ?thesis unfolding word_eq_maskI al(1) by (simp add: unat_of_nat)
  qed
  have al': "a - (a AND (2 ^ k - 1)) = base" unfolding word_eq_maskI al(1) by (rule al(2))
  consider "k = 1" | "k = 2" | "k = 3" using assms(3) by blast
  then show ?thesis
  proof cases
    case 1
    have r: "ram_at s a" "ram_at s (a + 1)"
      using spec [OF assms(4), of 0] spec [OF assms(4), of 1] 1 by simp_all
    have "guest_ld s a (2 ^ 1) = guest_ld s a 1 OR push_bit 8 (guest_ld s (a + 1) 1)"
      by (simp add: numeral_2_eq_2)
    then show ?thesis
      using load_pair [OF assms(1), of 0 a "a + 1" E] r 1 by (auto simp: read_slow_unaligned_def)
  next
    case 2
    have b4: "(base + 4) AND mask 2 = 0" "ram_at s (base + 4)" using b2 r2 by (simp_all add: 2)
    show ?thesis
      using load_pair [OF assms(1) _ r1 b4(2), of 2 E] al(3) b4(1) join_words [of al 4 s base] al(4-6) ua al'
      by (auto simp: read_slow_unaligned_def Let_def 2 mult.commute)
  next
    case 3
    have b8: "(base + 8) AND mask 3 = 0" "ram_at s (base + 8)" using b2 r2 by (simp_all add: 3)
    show ?thesis
      using load_pair [OF assms(1) _ r1 b8(2), of 3 E] al(3) b8(1) join_words [of al 8 s base] al(4-6) ua al'
      by (auto simp: read_slow_unaligned_def Let_def 3 mult.commute)
  qed
qed

lemma mask_test: "a AND (2 ^ k - 1) = a AND mask k" for a :: u64
  by (simp add: mask_eq_exp_minus_1)

lemma load_slow:
  assumes "ready s" "k \<le> 3" "\<forall>i < 2 ^ k. ram_at s (a + of_nat i)"
  shows "\<exists>s'. target_read_slow E k s a = (Some (guest_ld s a (2 ^ k)), s') \<and> loaded s s'"
proof (cases "a AND mask k = 0")
  case True
  have "ram_at s a" using spec [OF assms(3), of 0] by simp
  from load_slow_aligned [OF assms(1) this True assms(2)] True show ?thesis
    by (simp add: target_read_slow_def mask_test)
next
  case False
  then have "k \<noteq> 0" by (cases "k = 0") simp_all
  then have "k \<in> {1, 2, 3}" using assms(2) by auto
  from load_unaligned [OF assms(1) False this assms(3)] False show ?thesis
    by (simp add: target_read_slow_def mask_test)
qed

lemma load_correct:
  assumes "ready s" "k \<le> 3" "\<forall>i < 2 ^ k. ram_at s (a + of_nat i)"
  shows "\<exists>s'. target_read_u E k s a = (Some (guest_ld s a (2 ^ k)), s') \<and> loaded s s'"
proof -
  have "ram_at s a" using spec [OF assms(3), of 0] by simp
  then show ?thesis
    unfolding target_read_u_def
    by (rule load_fast [where slow = "target_read_slow E k", OF assms(1,2) _ load_slow [OF assms]])
qed

section \<open>Stores\<close>

lemma map_same_entry:
  assumes "map_same (mem_map s) (mem_map t)"
  shows "entry_ok t i e = entry_ok s i e"
proof -
  have "(get_phys_mem_range (mem_map s) v = Some j \<and> pr_is_ram (mem_map t ! j) \<and> w = host_addr (mem_map t ! j) v)
      = (get_phys_mem_range (mem_map s) v = Some j \<and> pr_is_ram (mem_map s ! j) \<and> w = host_addr (mem_map s ! j) v)"
    for v w j
    using map_same_host [OF assms, of v j] by auto
  then show ?thesis unfolding entry_ok_def map_same_lookup [OF assms] by simp
qed

text \<open>The bytes with the numbers \<open>i\<close> to \<open>i + n - 1\<close> of \<open>v\<close>, for a store at \<open>a\<close>.\<close>

definition slice :: "u64 \<Rightarrow> nat \<Rightarrow> nat \<Rightarrow> u64 \<Rightarrow> u64 \<Rightarrow> u8 option" where
  "slice a i n v = (\<lambda>b. if i \<le> unat (b - a) \<and> unat (b - a) < i + n
     then Some (ucast (drop_bit (8 * unat (b - a)) v)) else None)"

text \<open>What a store leaves: the bytes \<open>f\<close> have been written.\<close>

definition stored :: "'d cpu \<Rightarrow> 'd cpu \<Rightarrow> (u64 \<Rightarrow> u8 option) \<Rightarrow> bool" where
  "stored s s' f \<longleftrightarrow> ready s' \<and> map_same (mem_map s) (mem_map s')
     \<and> (\<forall>b. ram_at s b \<longrightarrow> guest_byte s' b = (case f b of None \<Rightarrow> guest_byte s b | Some x \<Rightarrow> x))
     \<and> (\<exists>m t r. s' = s\<lparr>mem_map := m, tlb_write := t, ram := r\<rparr>)"

lemma map_same_ram_at: "map_same (mem_map s) (mem_map t) \<Longrightarrow> ram_at t b = ram_at s b"
  unfolding ram_at_def using map_same_lookup map_same_host(2) by metis

lemma stored_trans:
  assumes "stored s t f" "stored t u g"
  shows "stored s u (f ++ g)"
proof -
  have m: "map_same (mem_map s) (mem_map t)" using assms(1) by (simp add: stored_def)
  have "guest_byte u b = (case (f ++ g) b of None \<Rightarrow> guest_byte s b | Some x \<Rightarrow> x)" if "ram_at s b" for b
    using assms that map_same_ram_at [OF m, of b] by (auto simp: stored_def map_add_def split: option.split)
  moreover have "\<exists>m' t' r. u = s\<lparr>mem_map := m', tlb_write := t', ram := r\<rparr>"
  proof -
    obtain m1 t1 r1 m2 t2 r2 where "t = s\<lparr>mem_map := m1, tlb_write := t1, ram := r1\<rparr>"
      "u = t\<lparr>mem_map := m2, tlb_write := t2, ram := r2\<rparr>"
      using assms unfolding stored_def by blast
    then have "u = s\<lparr>mem_map := m2, tlb_write := t2, ram := r2\<rparr>" by simp
    then show ?thesis by blast
  qed
  moreover have "ready u" "map_same (mem_map s) (mem_map u)"
    using assms map_same_trans by (auto simp: stored_def)
  ultimately show ?thesis unfolding stored_def by blast
qed

text \<open>Writing the bytes of an aligned word in the host memory.\<close>

lemma guest_byte_store:
  assumes m: "mem_map_ok (mem_map s)" and j: "get_phys_mem_range (mem_map s) a = Some j" "pr_is_ram (mem_map s ! j)"
    and al: "a AND mask k = 0" "k \<le> 3" and b: "ram_at s b"
    and s': "map_same (mem_map s) (mem_map s')" "ram s' = host_st (ram s) (host_addr (mem_map s ! j) a) (2 ^ k) v"
  shows "guest_byte s' b = (case slice a 0 (2 ^ k) v b of None \<Rightarrow> guest_byte s b | Some x \<Rightarrow> x)"
proof -
  obtain l where l: "get_phys_mem_range (mem_map s) b = Some l" "pr_is_ram (mem_map s ! l)"
    using b by (auto simp: ram_at_def)
  have gb: "guest_byte s' b = ram s' (host_addr (mem_map s ! l) b)"
    using l map_same_lookup [OF s'(1), of b] map_same_host(1) [OF s'(1) l(1)] by (simp add: guest_byte_def)
  have rng: "get_phys_mem_range (mem_map s) (a + of_nat x) = Some j" if "x < 2 ^ k" for x
    by (rule lookup_page [OF m j aligned_page [OF al(1) that]]) (use al(2) in simp)
  have n: "(2 :: nat) ^ k \<le> 8" using power_increasing [of k 3 "2::nat"] al(2) by simp
  define x where "x = unat (b - a)"
  have bx: "b = a + of_nat x" by (simp add: x_def)
  show ?thesis
  proof (cases "x < 2 ^ k")
    case True
    then have "l = j" using rng [OF True] l(1) bx by simp
    then have h: "host_addr (mem_map s ! l) b = host_addr (mem_map s ! j) a + of_nat x"
      using bx by (simp add: host_addr_plus)
    have "guest_byte s' b = ucast (drop_bit (8 * x) v)"
      unfolding gb s'(2) h by (rule host_st_at [OF True]) (use n in simp)
    then show ?thesis using True by (simp add: slice_def x_def)
  next
    case False
    have "host_addr (mem_map s ! l) b \<noteq> host_addr (mem_map s ! j) a + of_nat y" if y: "y < 2 ^ k" for y
    proof -
      have "of_nat y \<noteq> (of_nat x :: u64)"
      proof
        assume e: "of_nat y = (of_nat x :: u64)"
        have "unat (of_nat y :: u64) = y" using y n by (simp add: unat_of_nat)
        moreover have "unat (of_nat x :: u64) = x" by (simp add: x_def)
        ultimately show False using e y False by simp
      qed
      then have "a + of_nat y \<noteq> b" by (simp add: bx)
      then show ?thesis
        using host_words_disjoint [OF m rng [OF y] j(2) l, of 0 0 0] by (simp add: host_addr_plus)
    qed
    then have "guest_byte s' b = ram s (host_addr (mem_map s ! l) b)"
      unfolding gb s'(2) by (intro host_st_other)
    moreover have "guest_byte s b = ram s (host_addr (mem_map s ! l) b)" by (simp add: guest_byte_def l)
    ultimately show ?thesis using False by (simp add: slice_def x_def)
  qed
qed

lemma ready_stored:
  assumes "ready s" "map_same (mem_map s) m" "\<And>i. i < TLB_SIZE \<Longrightarrow> entry_ok s i (t i)"
  shows "ready (s\<lparr>mem_map := m, tlb_write := t, ram := r\<rparr>)" (is "ready ?s")
proof -
  have "entry_ok ?s i e = entry_ok s i e" for i e using assms(2) by (intro map_same_entry) simp
  then show ?thesis
    using assms map_same_ok [OF assms(2)] by (auto simp: ready_def tlbs_ok_def flat_def effective_priv_def satp_mode_def)
qed

lemma store_host:
  assumes "ready s" "get_phys_mem_range (mem_map s) a = Some j" "pr_is_ram (mem_map s ! j)" "a AND mask k = 0" "k \<le> 3"
    and "map_same (mem_map s) m" "\<And>i. i < TLB_SIZE \<Longrightarrow> entry_ok s i (t i)"
  shows "stored s (s\<lparr>mem_map := m, tlb_write := t, ram := host_st (ram s) (host_addr (mem_map s ! j) a) (2 ^ k) v\<rparr>)
    (slice a 0 (2 ^ k) v)" (is "stored s ?s _")
proof -
  have m: "mem_map_ok (mem_map s)" using assms(1) by (simp add: ready_def)
  have "guest_byte ?s b = (case slice a 0 (2 ^ k) v b of None \<Rightarrow> guest_byte s b | Some x \<Rightarrow> x)" if "ram_at s b" for b
    by (rule guest_byte_store [OF m assms(2-5) that]) (simp_all add: assms(6))
  moreover have "ready ?s" by (rule ready_stored [OF assms(1,6,7)])
  ultimately show ?thesis using assms(6) unfolding stored_def by auto
qed

lemma store_slow_aligned:
  assumes "ready s" "ram_at s a" "a AND mask k = 0" "k \<le> 3"
  shows "\<exists>s'. write_slow_aligned E k s a v = (True, s') \<and> stored s s' (slice a 0 (2 ^ k) v)"
proof -
  obtain j where j: "get_phys_mem_range (mem_map s) a = Some j" "pr_is_ram (mem_map s ! j)"
    using assms(2) by (auto simp: ram_at_def)
  have m: "mem_map_ok (mem_map s)" "flat s" "tlbs_ok s" using assms(1) by (simp_all add: ready_def)
  let ?m = "(mem_map s)[j := phys_mem_set_dirty_bit (mem_map s ! j) (a - pr_addr (mem_map s ! j))]"
  let ?t = "(tlb_write s)(tlb_index a := \<lparr>vaddr = page_of a, mem_addend = host_addr (mem_map s ! j) a - a\<rparr>)"
  have "write_slow_aligned E k s a v = (True, s\<lparr>mem_map := ?m, tlb_write := ?t,
      ram := host_st (ram s) (host_addr (mem_map s ! j) a) (2 ^ k) v\<rparr>)"
    using j by (simp add: write_slow_aligned_def flat_addr(2) [OF m(2), simplified] host_addr_def Let_def)
  moreover have "stored s (s\<lparr>mem_map := ?m, tlb_write := ?t,
      ram := host_st (ram s) (host_addr (mem_map s ! j) a) (2 ^ k) v\<rparr>) (slice a 0 (2 ^ k) v)"
  proof (rule store_host [OF assms(1) j assms(3,4)])
    show "map_same (mem_map s) ?m" using lookup_ok(1) [OF m(1) j(1)] by (rule map_same_dirty)
    show "entry_ok s i (?t i)" if "i < TLB_SIZE" for i
      using entry_fill [OF m(1) j] m(3) that by (auto simp: tlbs_ok_def)
  qed
  ultimately show ?thesis by blast
qed

lemma slice_take_bit: "n \<le> 2 ^ k \<Longrightarrow> slice a 0 n (take_bit (8 * 2 ^ k) v) = slice a 0 n v"
proof -
  assume n: "n \<le> 2 ^ k"
  have "(ucast (drop_bit (8 * x) (take_bit (8 * 2 ^ k) v)) :: u8) = ucast (drop_bit (8 * x) v)" if "x < n" for x
  proof (rule bit_word_eqI)
    fix i assume "i < LENGTH(8)"
    moreover have "8 * x + 8 \<le> 8 * 2 ^ k" using that n by simp
    ultimately show "bit (ucast (drop_bit (8 * x) (take_bit (8 * 2 ^ k) v)) :: u8) i = bit (ucast (drop_bit (8 * x) v) :: u8) i"
      by (simp add: bit_simps)
  qed
  then show ?thesis by (auto simp: slice_def fun_eq_iff)
qed

lemma store_fast:
  assumes r: "ready s" and k: "k \<le> 3" and ram: "ram_at s a"
    and slow: "\<exists>s'. slow s a (take_bit (8 * 2 ^ k) v) = (True, s') \<and> stored s s' (slice a 0 (2 ^ k) (take_bit (8 * 2 ^ k) v))"
  shows "\<exists>s'. tlb_write_fast slow k s a v = (True, s') \<and> stored s s' (slice a 0 (2 ^ k) v)"
proof (cases "vaddr (tlb_write s (tlb_index a)) = tlb_tag k a")
  case True
  have e: "entry_ok s (tlb_index a) (tlb_write s (tlb_index a))"
    using r tlb_index_less [of a] by (simp add: ready_def tlbs_ok_def)
  have al: "a AND mask k = 0" using tlb_miss_unaligned [OF _ k e] True by blast
  have m: "mem_map_ok (mem_map s)" "tlbs_ok s" using r by (simp_all add: ready_def)
  obtain j where j: "get_phys_mem_range (mem_map s) a = Some j" "pr_is_ram (mem_map s ! j)"
    and h: "mem_addend (tlb_write s (tlb_index a)) + a = host_addr (mem_map s ! j) a"
    using tlb_hit [OF m(1) e] True tlb_tag_aligned [OF al k] by metis
  have "tlb_write_fast slow k s a v = (True, s\<lparr>ram := host_st (ram s) (host_addr (mem_map s ! j) a) (2 ^ k) v\<rparr>)"
    using True by (simp add: tlb_write_fast_def h)
  moreover have "stored s (s\<lparr>mem_map := mem_map s, tlb_write := tlb_write s,
      ram := host_st (ram s) (host_addr (mem_map s ! j) a) (2 ^ k) v\<rparr>) (slice a 0 (2 ^ k) v)"
    by (rule store_host [OF r j al k map_same_refl]) (use m(2) in \<open>simp add: tlbs_ok_def\<close>)
  ultimately show ?thesis by auto
next
  case False
  then show ?thesis using slow by (simp add: tlb_write_fast_def slice_take_bit)
qed

lemma store_aligned:
  assumes "ready s" "ram_at s a" "a AND mask k = 0" "k \<le> 3"
  shows "\<exists>s'. target_write_aligned E k s a v = (True, s') \<and> stored s s' (slice a 0 (2 ^ k) v)"
  unfolding target_write_aligned_def
  by (rule store_fast [where slow = "write_slow_aligned E k", OF assms(1,4,2) store_slow_aligned [OF assms]])

subsection \<open>The byte loop\<close>

lemma slice_byte:
  assumes "i < 8"
  shows "slice (a + of_nat i) 0 (2 ^ 0) (drop_bit (8 * i) v AND 0xff) = slice a i 1 v"
proof
  fix b
  have e: "b - (a + of_nat i) = (b - a) - of_nat i" by simp
  have "unat (b - (a + of_nat i)) = 0 \<longleftrightarrow> unat (b - a) = i"
  proof
    assume "unat (b - (a + of_nat i)) = 0"
    then have "b - a = of_nat i" by (simp add: unsigned_eq_0_iff algebra_simps)
    then show "unat (b - a) = i" using assms by (simp add: unat_of_nat)
  next
    assume "unat (b - a) = i"
    then have "of_nat (unat (b - a)) = (of_nat i :: u64)" by (rule arg_cong)
    then have "b - a = of_nat i" by simp
    then show "unat (b - (a + of_nat i)) = 0" by (simp only: e) simp
  qed
  moreover have "(ucast (drop_bit (8 * i) v AND 0xff) :: u8) = ucast (drop_bit (8 * i) v)"
  proof -
    have "(0xff :: u64) = mask 8" by (simp add: mask_eq_exp_minus_1)
    then have f: "w AND 0xff = take_bit 8 w" for w :: u64 by (simp only: and_mask_take_bit)
    show ?thesis unfolding f by (rule bit_word_eqI) (simp add: bit_simps)
  qed
  ultimately show "slice (a + of_nat i) 0 (2 ^ 0) (drop_bit (8 * i) v AND 0xff) b = slice a i 1 v b"
    by (auto simp: slice_def)
qed

lemma slice_join: "slice a i 1 v ++ slice a (Suc i) n v = slice a i (Suc n) v"
  by (auto simp: slice_def map_add_def fun_eq_iff split: option.split)

lemma stored_ready: "stored s s' f \<Longrightarrow> ready s'" "stored s s' f \<Longrightarrow> ram_at s' b = ram_at s b"
  using map_same_ram_at by (auto simp: stored_def)

lemma stored_refl: "ready s \<Longrightarrow> stored s s (slice a i 0 v)"
proof -
  assume "ready s"
  moreover have "s = s\<lparr>mem_map := mem_map s, tlb_write := tlb_write s, ram := ram s\<rparr>" by simp
  then have "\<exists>m t r. s = s\<lparr>mem_map := m, tlb_write := t, ram := r\<rparr>" by blast
  ultimately show "stored s s (slice a i 0 v)" by (auto simp: stored_def slice_def map_same_refl)
qed

lemma store_bytes:
  assumes "ready s" "i + n \<le> 8" "\<forall>x < i + n. ram_at s (a + of_nat x)"
  shows "\<exists>s'. write_slow_bytes E s a v i n = (True, s') \<and> stored s s' (slice a i n v)"
  using assms
proof (induction n arbitrary: s i)
  case 0
  then show ?case by (simp add: stored_refl)
next
  case (Suc n)
  have "ram_at s (a + of_nat i)" using Suc.prems(3) by simp
  then obtain s1 where s1: "target_write_aligned E 0 s (a + of_nat i) (drop_bit (8 * i) v AND 0xff) = (True, s1)"
    and st: "stored s s1 (slice (a + of_nat i) 0 (2 ^ 0) (drop_bit (8 * i) v AND 0xff))"
    using store_aligned [OF Suc.prems(1), of "a + of_nat i" 0 E] by auto
  have st1: "stored s s1 (slice a i 1 v)"
    using st Suc.prems(2) by (simp only: slice_byte [of i])
  obtain s2 where s2: "write_slow_bytes E s1 a v (Suc i) n = (True, s2)" "stored s1 s2 (slice a (Suc i) n v)"
    using Suc.IH [of s1 "Suc i"] Suc.prems stored_ready [OF st1] by auto
  have "stored s s2 (slice a i (Suc n) v)"
    using stored_trans [OF st1 s2(2)] unfolding slice_join .
  then show ?case using s1 s2 by simp
qed

lemma store_correct:
  assumes "ready s" "k \<le> 3" "\<forall>i < 2 ^ k. ram_at s (a + of_nat i)"
  shows "\<exists>s'. target_write_u E k s a v = (True, s') \<and> stored s s' (slice a 0 (2 ^ k) v)"
proof -
  have a: "ram_at s a" using spec [OF assms(3), of 0] by simp
  have n: "0 + 2 ^ k \<le> (8 :: nat)" using power_increasing [of k 3 "2::nat"] assms(2) by simp
  have slow: "\<exists>s'. target_write_slow E k s a w = (True, s') \<and> stored s s' (slice a 0 (2 ^ k) w)" for w
  proof (cases "a AND mask k = 0")
    case True
    then show ?thesis using store_slow_aligned [OF assms(1) a True assms(2)] by (simp add: target_write_slow_def mask_test)
  next
    case False
    then show ?thesis using store_bytes [OF assms(1) n] assms(3) by (simp add: target_write_slow_def mask_test)
  qed
  show ?thesis
    unfolding target_write_u_def by (rule store_fast [where slow = "target_write_slow E k", OF assms(1,2) a slow])
qed

lemma guest_ld_stored:
  assumes "stored s s' (slice a 0 (2 ^ k) v)" "k \<le> 3" "\<forall>i < 2 ^ k. ram_at s (a + of_nat i)"
  shows "guest_ld s' a (2 ^ k) = take_bit (8 * 2 ^ k) v"
proof (rule bit_word_eqI)
  fix n assume n: "n < LENGTH(64)"
  have k: "2 ^ k \<le> (8 :: nat)" using power_increasing [of k 3 "2::nat"] assms(2) by simp
  have "bit (guest_byte s' (a + of_nat (n div 8))) (n mod 8) = bit v n" if "n < 8 * 2 ^ k"
  proof -
    have x: "n div 8 < 2 ^ k" using that by auto
    then have u: "unat (of_nat (n div 8) :: u64) = n div 8" using k by (simp add: unat_of_nat)
    have "guest_byte s' (a + of_nat (n div 8)) = ucast (drop_bit (8 * (n div 8)) v)"
      using assms(1,3) x u by (simp add: stored_def slice_def)
    then show ?thesis using n by (simp add: bit_simps)
  qed
  then show "bit (guest_ld s' a (2 ^ k)) n = bit (take_bit (8 * 2 ^ k) v) n"
    using k by (auto simp: bit_guest_ld bit_take_bit_iff)
qed

section \<open>Properties\<close>

text \<open>C7: Where addresses are not translated (M mode at the full width, or any lower mode with paging
  turned off), a store of 1, 2, 4 or 8 bytes to RAM, at any alignment, through
  the TLB or not, writes those bytes in little-endian order and no other byte of RAM, and a load
  then returns the stored value; loads return the bytes of memory and change no byte, and both keep
  the memory map well formed and the TLBs consistent with it.\<close>

theorem ram_read_after_write:
  assumes "ready s" "k \<le> 3" "\<forall>i < 2 ^ k. ram_at s (a + of_nat i)"
  shows "\<exists>s1 s2. target_write_u E k s a v = (True, s1) \<and> ready s1
      \<and> (\<forall>b. ram_at s b \<longrightarrow> guest_byte s1 b = (if unat (b - a) < 2 ^ k then ucast (drop_bit (8 * unat (b - a)) v) else guest_byte s b))
    \<and> target_read_u E k s1 a = (Some (take_bit (8 * 2 ^ k) v), s2) \<and> ready s2 \<and> guest_byte s2 = guest_byte s1"
proof -
  obtain s1 where s1: "target_write_u E k s a v = (True, s1)" "stored s s1 (slice a 0 (2 ^ k) v)"
    using store_correct [OF assms] by blast
  note r = stored_ready [OF s1(2)]
  obtain s2 where s2: "target_read_u E k s1 a = (Some (guest_ld s1 a (2 ^ k)), s2)" "loaded s1 s2"
    using load_correct [OF r(1) assms(2), of a E] assms(3) r(2) by auto
  have "guest_byte s1 b = (if unat (b - a) < 2 ^ k then ucast (drop_bit (8 * unat (b - a)) v) else guest_byte s b)"
    if "ram_at s b" for b
    using s1(2) that by (simp add: stored_def slice_def)
  then show ?thesis using s1(1) s2 r(1) guest_ld_stored [OF s1(2) assms(2,3)] loaded_same [OF s2(2)] by auto
qed

text \<open>A CPU in M mode with sixteen pages of RAM.\<close>

definition ram_cpu :: "unit cpu" where
  "ram_cpu = riscv_cpu_init [zero_range\<lparr>pr_is_ram := True, pr_addr := 0x80000000, pr_org_size := 0x10000,
     pr_size := 0x10000, pr_phys_mem := 0x100000\<rparr>] (\<lambda>_. 0) ()"

lemma ram_cpu_ready: "ready ram_cpu"
  by (simp add: ready_def ram_cpu_def mem_map_ok_def range_ok_def flat_def effective_priv_def tlbs_ok_def entry_ok_def
      riscv_cpu_init_def zero_cpu_def tlb_init_def invalid_entry_def mstatus_consts get_base_from_xlen_def Let_def)

lemma ram_cpu_ram: "0x80000000 \<le> a \<Longrightarrow> a < 0x80010000 \<Longrightarrow> ram_at ram_cpu a"
  by (simp add: ram_at_def ram_cpu_def riscv_cpu_init_def zero_cpu_def tlb_init_def get_phys_mem_range_def in_range_def Let_def)

theorem ram_read_after_write_witness:
  "\<exists>s1 s2. target_write_u silent_bus 2 ram_cpu 0x80000FFE 0x11223344 = (True, s1) \<and> guest_byte s1 0x80000FFE = 0x44
    \<and> guest_byte s1 0x80001001 = 0x11 \<and> target_read_u silent_bus 2 s1 0x80000FFE = (Some 0x11223344, s2)"
proof -
  have "\<forall>i < 2 ^ 2. ram_at ram_cpu (0x80000FFE + of_nat i)"
  proof (intro allI impI)
    fix i :: nat assume "i < 2 ^ 2"
    then have "i = 0 \<or> i = 1 \<or> i = 2 \<or> i = 3" by auto
    then show "ram_at ram_cpu (0x80000FFE + of_nat i)" by (elim disjE) (simp_all add: ram_cpu_ram)
  qed
  from ram_read_after_write [OF ram_cpu_ready _ this, of silent_bus "0x11223344"]
  show ?thesis using ram_cpu_ram [of "0x80000FFE"] ram_cpu_ram [of "0x80001001"] by auto
qed

end
