(* ===== verification/DirtyPages.thy ===== *)
theory DirtyPages
  imports RamAccess Machine
begin

text \<open>
  The dirty-page log of RAM and the write TLB, in any mode of addressing: the CPU's flush is the \<open>flush_tlb_write_range\<close> that
  the memory map relies on (an interpretation of \<open>write_tlb_flusher\<close>), and a store marks its page dirty, whether it is
  translated or not and whether it goes through a cached translation or not. Only the accessed and dirty bits that the page walk sets
in the page tables bypass the log.
\<close>

section \<open>The pages with a cached write translation\<close>

definition write_pages :: "'d cpu \<Rightarrow> u64 set" where
  "write_pages s = {mem_addend (tlb_write s i) + vaddr (tlb_write s i) | i. i < TLB_SIZE \<and> vaddr (tlb_write s i) \<noteq> -1}"

lemma write_pages_flush:
  "write_pages (riscv_cpu_flush_tlb_write_range_ram p n s) = write_pages s - {h. p \<le> h \<and> h < p + n}"
  by (auto simp: write_pages_def riscv_cpu_flush_tlb_write_range_ram_def invalid_entry_def Let_def)

interpretation tlbw: write_tlb_flusher riscv_cpu_flush_tlb_write_range_ram write_pages
  by unfold_locales (rule write_pages_flush)

section \<open>The log\<close>

definition dirty :: "'d cpu \<Rightarrow> u64 \<Rightarrow> bool" where
  "dirty s a \<longleftrightarrow> (\<exists>j. get_phys_mem_range (mem_map s) a = Some j
     \<and> phys_mem_is_dirty_bit (mem_map s ! j) (a - pr_addr (mem_map s ! j)))"

text \<open>Every RAM range is enabled, has a bitmap of its size, and has marked every page with a cached
  write translation.\<close>

definition log_ok :: "'d cpu \<Rightarrow> bool" where
  "log_ok s \<longleftrightarrow> (\<forall>j < length (mem_map s). pr_is_ram (mem_map s ! j) \<longrightarrow>
     bitmap_ok (mem_map s ! j) \<and> pr_size (mem_map s ! j) = pr_org_size (mem_map s ! j)
     \<and> tracked (write_pages s) (mem_map s ! j))"

text \<open>An entry of the write TLB is invalid, or maps a virtual page to the host memory of a page \<open>p\<close> of RAM.\<close>

definition maps_page :: "'d cpu \<Rightarrow> tlb_entry \<Rightarrow> u64 \<Rightarrow> bool" where
  "maps_page s e p \<longleftrightarrow> page_of p = p \<and> (\<exists>j. get_phys_mem_range (mem_map s) p = Some j \<and> pr_is_ram (mem_map s ! j)
     \<and> mem_addend e + vaddr e = host_addr (mem_map s ! j) p)"

definition write_entry_ok :: "'d cpu \<Rightarrow> tlb_entry \<Rightarrow> bool" where
  "write_entry_ok s e \<longleftrightarrow> vaddr e = -1 \<or> page_of (vaddr e) = vaddr e \<and> (\<exists>p. maps_page s e p)"

definition log_inv :: "'d cpu \<Rightarrow> bool" where
  "log_inv s \<longleftrightarrow> mem_map_ok (mem_map s) \<and> log_ok s \<and> (\<forall>i < TLB_SIZE. write_entry_ok s (tlb_write s i)) \<and> 12 \<le> cur_xlen s"

text \<open>The byte at \<open>b\<close> is the first of a page-table entry in which accessed and dirty bits have been set.\<close>

definition ad_update :: "'d cpu \<Rightarrow> 'd cpu \<Rightarrow> u64 \<Rightarrow> bool" where
  "ad_update s s' b \<longleftrightarrow> b AND 7 = 0 \<and> (\<exists>m. m AND NOT 0xC0 = 0 \<and> guest_byte s' b = guest_byte s b OR m)"

text \<open>What the log keeps of a step: no dirty page becomes clean, and every byte of RAM that has changed is on a dirty page,
but for those of page-table entries.\<close>

definition traced :: "'d cpu \<Rightarrow> 'd cpu \<Rightarrow> bool" where
  "traced s s' \<longleftrightarrow> log_inv s' \<and> map_same (mem_map s) (mem_map s')
     \<and> (\<forall>b. ram_at s b \<longrightarrow> (dirty s b \<longrightarrow> dirty s' b)
          \<and> (guest_byte s' b = guest_byte s b \<or> dirty s' b \<or> ad_update s s' b))"








lemma map_same_maps:
  assumes "map_same (mem_map s) (mem_map t)"
  shows "maps_page t e p = maps_page s e p"
proof -
  have "(get_phys_mem_range (mem_map s) p = Some j \<and> pr_is_ram (mem_map t ! j) \<and> w = host_addr (mem_map t ! j) p)
      = (get_phys_mem_range (mem_map s) p = Some j \<and> pr_is_ram (mem_map s ! j) \<and> w = host_addr (mem_map s ! j) p)" for w j
    using map_same_host [OF assms, of p j] by auto
  then show ?thesis unfolding maps_page_def map_same_lookup [OF assms] by simp
qed

lemma map_same_entries: "map_same (mem_map s) (mem_map t) \<Longrightarrow> write_entry_ok t e = write_entry_ok s e"
  by (simp add: write_entry_ok_def map_same_maps)

text \<open>Only the RAM contents change: the log is the same.\<close>

lemma log_upd_ram [simp]: "log_inv (s\<lparr>ram := r\<rparr>) = log_inv s" "dirty (s\<lparr>ram := r\<rparr>) a = dirty s a"
proof -
  have "write_entry_ok (s\<lparr>ram := r\<rparr>) e = write_entry_ok s e" for e by (intro map_same_entries) (simp add: map_same_refl)
  then show "log_inv (s\<lparr>ram := r\<rparr>) = log_inv s" by (simp add: log_inv_def log_ok_def write_pages_def)
  show "dirty (s\<lparr>ram := r\<rparr>) a = dirty s a" by (simp add: dirty_def)
qed


section \<open>The page walk\<close>





section \<open>Stores\<close>






text \<open>The devices of the bus, as far as the log is concerned.\<close>

definition bus_logs :: "'d bus \<Rightarrow> bool" where
  "bus_logs E \<longleftrightarrow> (\<forall>opaque offset v k s. log_inv s \<longrightarrow> traced s (dev_write E opaque offset v k s))"






section \<open>Collecting the log\<close>

text \<open>The CPU after the memory map has been asked for the dirty bits of a range.\<close>

definition collect_dirty_bits :: "nat \<Rightarrow> 'd cpu \<Rightarrow> u32 list \<times> 'd cpu" where
  "collect_dirty_bits j s =
     (let (bs, pr, s1) = default_get_dirty_bits riscv_cpu_flush_tlb_write_range_ram (mem_map s ! j) s
      in (bs, s1\<lparr>mem_map := (mem_map s1)[j := pr]\<rparr>))"

definition clear_dirty_bit :: "nat \<Rightarrow> u64 \<Rightarrow> 'd cpu \<Rightarrow> 'd cpu" where
  "clear_dirty_bit j off s =
     (let (pr, s1) = phys_mem_reset_dirty_bit riscv_cpu_flush_tlb_write_range_ram (mem_map s ! j) off s
      in s1\<lparr>mem_map := (mem_map s1)[j := pr]\<rparr>)"

lemma flush_frame [simp]:
  "mem_map (riscv_cpu_flush_tlb_write_range_ram p n s) = mem_map s"
  "tlb_read (riscv_cpu_flush_tlb_write_range_ram p n s) = tlb_read s"
  "cur_xlen (riscv_cpu_flush_tlb_write_range_ram p n s) = cur_xlen s"
  "effective_priv (riscv_cpu_flush_tlb_write_range_ram p n s) x = effective_priv s x"
  by (simp_all add: riscv_cpu_flush_tlb_write_range_ram_def effective_priv_def Let_def)

lemma inv_flush:
  assumes "log_inv s"
  shows "log_inv (riscv_cpu_flush_tlb_write_range_ram p n s)" (is "log_inv ?s")
proof -
  have e: "write_entry_ok ?s e = write_entry_ok s e" for e by (intro map_same_entries) (simp add: map_same_refl)
  have "write_entry_ok s (tlb_write ?s i)" if "write_entry_ok s (tlb_write s i)" for i
    using that by (auto simp: riscv_cpu_flush_tlb_write_range_ram_def Let_def invalid_entry_def write_entry_ok_def)
  moreover have "tracked (write_pages ?s) q" if "tracked (write_pages s) q" for q
    using that by (auto simp: tracked_def write_pages_flush)
  ultimately show ?thesis using assms by (simp add: log_inv_def log_ok_def e)
qed

text \<open>Replacing a range by one that differs in its bitmap, after a flush that may only have removed
  translations.\<close>

lemma log_replace:
  assumes inv: "log_inv t" and j: "j < length (mem_map t)" "pr_is_ram (mem_map t ! j)"
    and pr: "pr_addr pr = pr_addr (mem_map t ! j)" "pr_size pr = pr_size (mem_map t ! j)" "pr_org_size pr = pr_org_size (mem_map t ! j)"
      "pr_is_ram pr" "pr_phys_mem pr = pr_phys_mem (mem_map t ! j)" "bitmap_ok pr" "tracked (write_pages t) pr"
  shows "log_inv (t\<lparr>mem_map := (mem_map t)[j := pr]\<rparr>)" (is "log_inv ?t")
proof -
  have same: "map_same (mem_map t) (mem_map ?t)"
    using pr j by (auto simp: map_same_def nth_list_update)
  have w: "write_pages ?t = write_pages t" by (simp add: write_pages_def)
  have "log_ok ?t" using inv j pr w by (auto simp: log_inv_def log_ok_def nth_list_update)
  then show ?thesis using inv map_same_ok [OF same] map_same_entries [OF same] by (simp add: log_inv_def)
qed

lemma page_dvd:
  fixes w :: u64
  assumes "w AND PG_MASK = 0"
  shows "4096 dvd unat w"
proof -
  have "take_bit 12 w = 0" using assms unfolding PG_MASK_mask and_mask_take_bit .
  then have "unat (take_bit 12 w) = 0" by (simp only: unsigned_0)
  then show ?thesis by (simp add: unat_take_bit dvd_eq_mod_eq_0)
qed

lemma collect_correct:
  assumes inv: "log_inv s" and j: "j < length (mem_map s)" "pr_is_ram (mem_map s ! j)" "pr_dirty_bits (mem_map s ! j)"
    and c: "collect_dirty_bits j s = (bs, s')"
  shows "log_inv s'" "bs = dirty_bitmap (mem_map s ! j)"
    "\<forall>off < pr_org_size (mem_map s ! j). \<not> phys_mem_is_dirty_bit (mem_map s' ! j) off"
proof -
  let ?pr = "mem_map s ! j"
  define t where "t = snd (snd (default_get_dirty_bits riscv_cpu_flush_tlb_write_range_ram ?pr s))"
  define q where "q = fst (snd (default_get_dirty_bits riscv_cpu_flush_tlb_write_range_ram ?pr s))"
  have L: "bitmap_ok ?pr" "pr_size ?pr = pr_org_size ?pr" "tracked (write_pages s) ?pr" using inv j by (simp_all add: log_inv_def log_ok_def)
  have t: "log_inv t" "mem_map t = mem_map s"
    using inv_flush [OF inv] inv by (auto simp: t_def default_get_dirty_bits_def Let_def)
  have q: "pr_addr q = pr_addr ?pr" "pr_size q = pr_size ?pr" "pr_org_size q = pr_org_size ?pr" "pr_is_ram q"
    "pr_phys_mem q = pr_phys_mem ?pr" "pr_dirty_bits q" "bitmap_ok q" "dirty_bitmap q = replicate (pr_dirty_bits_size ?pr div 4) 0"
    using j L(1) by (simp_all add: q_def default_get_dirty_bits_def Let_def bitmap_ok_def)
  have tr: "tracked (write_pages t) q"
    unfolding t_def q_def by (rule tlbw.tracked_get_dirty_bits [OF L(3) j(3) L(1)])
  have s': "s' = t\<lparr>mem_map := (mem_map t)[j := q]\<rparr>" and b: "bs = dirty_bitmap ?pr"
    using c by (auto simp: collect_dirty_bits_def t_def q_def default_get_dirty_bits_def Let_def split_beta)
  show "log_inv s'"
    unfolding s' by (rule log_replace [OF t(1)]) (use j q tr t(2) in simp_all)
  show "bs = dirty_bitmap ?pr" by (rule b)
  have "\<not> phys_mem_is_dirty_bit q off" if "off < pr_org_size ?pr" for off
    using that q L(1) j(3) by (simp add: is_dirty_bit_iff bitmap_ok_def)
  then show "\<forall>off < pr_org_size ?pr. \<not> phys_mem_is_dirty_bit (mem_map s' ! j) off"
    using t(2) j(1) by (simp add: s')
qed

lemma clear_correct:
  assumes inv: "log_inv s" and j: "j < length (mem_map s)" "pr_is_ram (mem_map s ! j)" "pr_dirty_bits (mem_map s ! j)"
    and off: "off < pr_org_size (mem_map s ! j)"
  shows "log_inv (clear_dirty_bit j off s)"
    "phys_mem_is_dirty_bit (mem_map (clear_dirty_bit j off s) ! j) off'
      \<longleftrightarrow> phys_mem_is_dirty_bit (mem_map s ! j) off' \<and> page_no off' \<noteq> page_no off"
proof -
  let ?pr = "mem_map s ! j"
  define t where "t = snd (phys_mem_reset_dirty_bit riscv_cpu_flush_tlb_write_range_ram ?pr off s)"
  define q where "q = fst (phys_mem_reset_dirty_bit riscv_cpu_flush_tlb_write_range_ram ?pr off s)"
  have L: "bitmap_ok ?pr" "pr_size ?pr = pr_org_size ?pr" "tracked (write_pages s) ?pr" using inv j by (simp_all add: log_inv_def log_ok_def)
  have t: "log_inv t" "mem_map t = mem_map s"
    using inv_flush [OF inv] inv by (auto simp: t_def phys_mem_reset_dirty_bit_def Let_def)
  have q: "pr_addr q = pr_addr ?pr" "pr_size q = pr_size ?pr" "pr_org_size q = pr_org_size ?pr" "pr_is_ram q"
    "pr_phys_mem q = pr_phys_mem ?pr" "bitmap_ok q"
    using j L(1) by (auto simp: q_def phys_mem_reset_dirty_bit_def Let_def bitmap_ok_def)
  have ok: "range_ok ?pr" using inv j by (auto simp: log_inv_def mem_map_ok_def)
  have sz: "unat (pr_phys_mem ?pr) + unat (pr_org_size ?pr) < 2 ^ 64" "4096 dvd unat (pr_org_size ?pr)"
    using ok j(2) L(2) page_dvd by (simp_all add: range_ok_def no_olen_add_nat)
  have tr: "tracked (write_pages t) q"
    unfolding t_def q_def by (rule tlbw.tracked_reset_dirty_bit [OF L(3,1) off j(3) sz])
  have s': "clear_dirty_bit j off s = t\<lparr>mem_map := (mem_map t)[j := q]\<rparr>"
    by (simp add: clear_dirty_bit_def t_def q_def split_beta)
  show "log_inv (clear_dirty_bit j off s)"
    unfolding s' by (rule log_replace [OF t(1)]) (use j q tr t(2) in simp_all)
  show "phys_mem_is_dirty_bit (mem_map (clear_dirty_bit j off s) ! j) off'
      \<longleftrightarrow> phys_mem_is_dirty_bit ?pr off' \<and> page_no off' \<noteq> page_no off"
    unfolding s' using is_dirty_reset_dirty_bit [OF L(1) off j(3)] j(1) t(2) by (simp add: q_def)
qed

section \<open>The devices of the machine\<close>

lemma traced_same:
  assumes "mem_map t = mem_map s" "ram t = ram s" "tlb_write t = tlb_write s" "cur_xlen t = cur_xlen s" "log_inv s"
  shows "traced s t"
proof -
  have "write_entry_ok t e = write_entry_ok s e" for e by (intro map_same_entries) (simp add: assms(1) map_same_refl)
  then have "log_inv t" using assms by (simp add: log_inv_def log_ok_def write_pages_def)
  then show ?thesis using assms(1,2) by (simp add: traced_def map_same_refl dirty_def guest_byte_def split: option.split)
qed

lemma machine_write_memory:
  "mem_map (machine_write op off v k s) = mem_map s" "ram (machine_write op off v k s) = ram s"
  "tlb_write (machine_write op off v k s) = tlb_write s" "cur_xlen (machine_write op off v k s) = cur_xlen s"
  by (simp_all add: machine_write_def clint_write_def plic_write_def plic_update_mip_def htif_write_def htif_handle_cmd_def
      riscv_cpu_set_mip_def riscv_cpu_reset_mip_def Let_def)

lemma machine_bus_logs: "bus_logs (machine_bus j)"
  unfolding bus_logs_def by (auto intro: traced_same simp: machine_bus_def machine_write_memory)

section \<open>Properties\<close>


text \<open>C9: Collecting the dirty bits of a range loses no later store, whatever the virtual addresses are through which its pages are
cached: it returns the bits set so far, leaves no page of the range dirty, and flushes the write translations that lead to
the range and would bypass the log, so that the log stays consistent; clearing the bit of one page clears that page alone and keeps
the log consistent too.\<close>

theorem dirty_log_collected:
  assumes "log_inv s" "j < length (mem_map s)" "pr_is_ram (mem_map s ! j)" "pr_dirty_bits (mem_map s ! j)"
    and "off < pr_org_size (mem_map s ! j)"
  shows "(\<exists>s'. collect_dirty_bits j s = (dirty_bitmap (mem_map s ! j), s') \<and> log_inv s'
      \<and> \<not> phys_mem_is_dirty_bit (mem_map s' ! j) off)
    \<and> log_inv (clear_dirty_bit j off s)
    \<and> (\<forall>off'. phys_mem_is_dirty_bit (mem_map (clear_dirty_bit j off s) ! j) off'
        \<longleftrightarrow> phys_mem_is_dirty_bit (mem_map s ! j) off' \<and> page_no off' \<noteq> page_no off)"
proof -
  obtain bs s' where c: "collect_dirty_bits j s = (bs, s')" by force
  show ?thesis using collect_correct [OF assms(1-4) c] clear_correct [OF assms] assms(5) c by auto
qed

text \<open>A CPU in S mode with sixteen pages of tracked RAM, whose page table maps the first gigabyte of virtual addresses to them.\<close>

definition log_cpu :: "unit cpu" where
  "log_cpu = (riscv_cpu_init [zero_range\<lparr>pr_is_ram := True, pr_addr := 0x80000000, pr_org_size := 0x10000,
     pr_size := 0x10000, pr_phys_mem := 0x100000, pr_dirty_bits := True, pr_dirty_bits_size := 4,
     pr_dirty_bits_tab := (\<lambda>_. [0])\<rparr>] (host_st (\<lambda>_. 0) 0x101000 8 0x200000CF) ())\<lparr>priv := PRV_S, satp := 0x8000000000080001\<rparr>"

lemma log_cpu_simps:
  "mem_map log_cpu = [zero_range\<lparr>pr_is_ram := True, pr_addr := 0x80000000, pr_org_size := 0x10000,
     pr_size := 0x10000, pr_phys_mem := 0x100000, pr_dirty_bits := True, pr_dirty_bits_size := 4,
     pr_dirty_bits_tab := (\<lambda>_. [0])\<rparr>]"
  "ram log_cpu = host_st (\<lambda>_. 0) 0x101000 8 0x200000CF" "priv log_cpu = 1" "satp log_cpu = 0x8000000000080001"
  "mstatus log_cpu = 0xA00000000" "cur_xlen log_cpu = 64" "i < 256 \<Longrightarrow> vaddr (tlb_write log_cpu i) = -1"
  by (simp_all add: log_cpu_def riscv_cpu_init_def zero_cpu_def tlb_init_def Let_def mstatus_consts get_base_from_xlen_def invalid_entry_def)

lemma log_cpu_inv: "log_inv log_cpu"
proof -
  have "page_no off div 32 = 0" if "off < 0x10000" for off
  proof -
    have "unat off < 0x10000" using that by (simp add: word_less_nat_alt)
    then show ?thesis by (simp add: page_no_def)
  qed
  moreover have "write_pages log_cpu = {}" by (auto simp: write_pages_def log_cpu_simps)
  ultimately show ?thesis
    by (simp add: log_inv_def log_ok_def log_cpu_simps bitmap_ok_def dirty_bitmap_def tracked_def mem_map_ok_def range_ok_def write_entry_ok_def)
qed




theorem dirty_log_collected_witness:
  "\<exists>s'. collect_dirty_bits 0 log_cpu = ([0], s') \<and> log_inv s'"
  using dirty_log_collected [OF log_cpu_inv, of 0 0] by (auto simp: log_cpu_simps dirty_bitmap_def)

end
