(* ===== verification/Fdt.thy ===== *)
theory Fdt
  imports Cutils
begin

text \<open>
  The flattened device tree builder of \<open>riscv_machine.c\<close>: the structure block is a growing table of
  big-endian words, the strings block a table of \<open>NUL\<close>-terminated property names. A reader of the
  format is the specification: every operation of the builder appends one token to what is read,
  and the image that \<open>fdt_output\<close> writes is read back as those tokens.
\<close>

section \<open>The builder\<close>

text \<open>\<open>tab\<close> holds the \<open>tab_len\<close> words in use of the allocation of \<open>tab_size\<close> words (a word as the host
  stores it), \<open>string_table\<close> the \<open>string_table_len\<close> bytes in use.\<close>

record fdt_state =
  tab :: "u32 list"
  tab_size :: int
  open_node_count :: int
  string_table :: "u8 list"
  string_table_size :: int

definition FDT_MAGIC :: u32 where "FDT_MAGIC = 0xd00dfeed"
definition FDT_VERSION :: u32 where "FDT_VERSION = 17"
definition FDT_BEGIN_NODE :: u32 where "FDT_BEGIN_NODE = 1"
definition FDT_END_NODE :: u32 where "FDT_END_NODE = 2"
definition FDT_PROP :: u32 where "FDT_PROP = 3"
definition FDT_END :: u32 where "FDT_END = 9"

lemmas fdt_consts = FDT_MAGIC_def FDT_VERSION_def FDT_BEGIN_NODE_def FDT_END_NODE_def FDT_PROP_def FDT_END_def

text \<open>The bytes of words in the memory of the little-endian host, and back.\<close>

definition word_bytes :: "u32 \<Rightarrow> u8 list" where
  "word_bytes w = [ucast w, ucast (drop_bit 8 w), ucast (drop_bit 16 w), ucast (drop_bit 24 w)]"

definition bytes_of :: "u32 list \<Rightarrow> u8 list" where
  "bytes_of ws = concat (map word_bytes ws)"

fun words_of :: "u8 list \<Rightarrow> u32 list" where
  "words_of (a # b # c # d # r) =
     (ucast a OR push_bit 8 (ucast b) OR push_bit 16 (ucast c) OR push_bit 24 (ucast d)) # words_of r"
| "words_of _ = []"

definition fdt_init :: fdt_state where
  "fdt_init = \<lparr>tab = [], tab_size = 0, open_node_count = 0, string_table = [], string_table_size = 0\<rparr>"

definition fdt_alloc_len :: "fdt_state \<Rightarrow> int \<Rightarrow> fdt_state" where
  "fdt_alloc_len s len =
     (if len > tab_size s then s\<lparr>tab_size := max_int len (tab_size s * 3 div 2)\<rparr> else s)"

definition fdt_put32 :: "fdt_state \<Rightarrow> u32 \<Rightarrow> fdt_state" where
  "fdt_put32 s v =
     (let s1 = fdt_alloc_len s (int (length (tab s)) + 1)
      in s1\<lparr>tab := tab s1 @ [cpu_to_be32 v]\<rparr>)"

definition fdt_put_data :: "fdt_state \<Rightarrow> u8 list \<Rightarrow> fdt_state" where
  "fdt_put_data s data =
     (let len = int (length data);
          len1 = (len + 3) div 4;
          s1 = fdt_alloc_len s (int (length (tab s)) + len1)
      in s1\<lparr>tab := tab s1 @ words_of (data @ replicate (nat (- len AND 3)) 0)\<rparr>)"

text \<open>A C string argument is the list of its bytes without the \<open>NUL\<close>.\<close>

definition fdt_begin_node :: "fdt_state \<Rightarrow> u8 list \<Rightarrow> fdt_state" where
  "fdt_begin_node s name =
     (let s1 = fdt_put32 s FDT_BEGIN_NODE;
          s2 = fdt_put_data s1 (name @ [0])
      in s2\<lparr>open_node_count := open_node_count s2 + 1\<rparr>)"

text \<open>\<open>snprintf(buf, 256, "%s@%" PRIx64, name, n)\<close>: lower-case hexadecimal, cut at 255 characters.\<close>

definition hex_digit :: "nat \<Rightarrow> u8" where
  "hex_digit d = (if d < 10 then of_nat (48 + d) else of_nat (87 + d))"

fun hex_nat :: "nat \<Rightarrow> u8 list" where
  "hex_nat n = (if n < 16 then [hex_digit n] else hex_nat (n div 16) @ [hex_digit (n mod 16)])"

declare hex_nat.simps [simp del]

definition fdt_begin_node_num :: "fdt_state \<Rightarrow> u8 list \<Rightarrow> u64 \<Rightarrow> fdt_state" where
  "fdt_begin_node_num s name n = fdt_begin_node s (take 255 (name @ [64] @ hex_nat (unat n)))"

definition fdt_end_node :: "fdt_state \<Rightarrow> fdt_state" where
  "fdt_end_node s =
     (let s1 = fdt_put32 s FDT_END_NODE in s1\<lparr>open_node_count := open_node_count s1 - 1\<rparr>)"

text \<open>The search of \<open>fdt_get_string_offset\<close>, in the rest of the table after \<open>pos\<close>.\<close>

fun fdt_find_string :: "u8 list \<Rightarrow> nat \<Rightarrow> u8 list \<Rightarrow> nat option" where
  "fdt_find_string rest pos name =
     (if rest = [] then None
      else if c_string rest = name then Some pos
      else fdt_find_string (drop (c_strlen rest + 1) rest) (pos + c_strlen rest + 1) name)"

declare fdt_find_string.simps [simp del]

definition fdt_get_string_offset :: "fdt_state \<Rightarrow> u8 list \<Rightarrow> nat \<times> fdt_state" where
  "fdt_get_string_offset s name =
     (case fdt_find_string (string_table s) 0 name of
        Some pos \<Rightarrow> (pos, s)
      | None \<Rightarrow>
          let name_size = length name + 1;
              new_len = int (length (string_table s)) + int name_size;
              s1 = (if new_len > string_table_size s
                    then s\<lparr>string_table_size := max_int new_len (string_table_size s * 3 div 2)\<rparr> else s)
          in (length (string_table s), s1\<lparr>string_table := string_table s1 @ name @ [0]\<rparr>))"

definition fdt_prop :: "fdt_state \<Rightarrow> u8 list \<Rightarrow> u8 list \<Rightarrow> fdt_state" where
  "fdt_prop s prop_name data =
     (let s1 = fdt_put32 s FDT_PROP;
          s2 = fdt_put32 s1 (of_nat (length data));
          (off, s3) = fdt_get_string_offset s2 prop_name;
          s4 = fdt_put32 s3 (of_nat off)
      in fdt_put_data s4 data)"

definition fdt_prop_tab_u32 :: "fdt_state \<Rightarrow> u8 list \<Rightarrow> u32 list \<Rightarrow> fdt_state" where
  "fdt_prop_tab_u32 s prop_name vs =
     (let s1 = fdt_put32 s FDT_PROP;
          s2 = fdt_put32 s1 (of_nat (length vs * 4));
          (off, s3) = fdt_get_string_offset s2 prop_name;
          s4 = fdt_put32 s3 (of_nat off)
      in fold (\<lambda>v s. fdt_put32 s v) vs s4)"

definition fdt_prop_u32 :: "fdt_state \<Rightarrow> u8 list \<Rightarrow> u32 \<Rightarrow> fdt_state" where
  "fdt_prop_u32 s prop_name val = fdt_prop_tab_u32 s prop_name [val]"

definition fdt_prop_tab_u64 :: "fdt_state \<Rightarrow> u8 list \<Rightarrow> u64 \<Rightarrow> fdt_state" where
  "fdt_prop_tab_u64 s prop_name v0 = fdt_prop_tab_u32 s prop_name [ucast (drop_bit 32 v0), ucast v0]"

definition fdt_prop_tab_u64_2 :: "fdt_state \<Rightarrow> u8 list \<Rightarrow> u64 \<Rightarrow> u64 \<Rightarrow> fdt_state" where
  "fdt_prop_tab_u64_2 s prop_name v0 v1 =
     fdt_prop_tab_u32 s prop_name [ucast (drop_bit 32 v0), ucast v0, ucast (drop_bit 32 v1), ucast v1]"

definition fdt_prop_str :: "fdt_state \<Rightarrow> u8 list \<Rightarrow> u8 list \<Rightarrow> fdt_state" where
  "fdt_prop_str s prop_name str = fdt_prop s prop_name (str @ [0])"

definition fdt_prop_tab_str :: "fdt_state \<Rightarrow> u8 list \<Rightarrow> u8 list list \<Rightarrow> fdt_state" where
  "fdt_prop_tab_str s prop_name strs = fdt_prop s prop_name (concat (map (\<lambda>p. p @ [0]) strs))"

section \<open>The image\<close>

text \<open>The padding loop \<open>while ((pos & 7) != 0) dst[pos++] = 0\<close>.\<close>

definition pad8 :: "nat \<Rightarrow> u8 list" where
  "pad8 pos = replicate ((8 - pos mod 8) mod 8) 0"

text \<open>The bytes written from \<open>dst\<close> on; their number is the result of the function. A failed
  assertion is \<open>None\<close>.\<close>

definition fdt_output :: "fdt_state \<Rightarrow> u8 list option" where
  "fdt_output s =
     (if open_node_count s \<noteq> 0 then None
      else
        let s1 = fdt_put32 s FDT_END;
            structs = bytes_of (tab s1);
            strings = string_table s1;
            pos0 = 40;
            pos1 = pos0 + length structs;
            pad1 = pad8 pos1;
            pos2 = pos1 + length pad1;
            reserve = replicate 16 (0 :: u8);
            pos3 = pos2 + length reserve;
            pos4 = pos3 + length strings;
            pad2 = pad8 pos4;
            pos5 = pos4 + length pad2;
            header = map cpu_to_be32 [FDT_MAGIC, of_nat pos5, of_nat pos0, of_nat pos3, of_nat pos2,
              FDT_VERSION, 16, 0, of_nat (length strings), of_nat (length structs)]
        in Some (bytes_of header @ structs @ pad1 @ reserve @ strings @ pad2))"

end
