(* ===== verification/FdtSpec.thy ===== *)
theory FdtSpec
  imports Fdt
begin

text \<open>
  The reader of flattened device trees, and what the builder produces in terms of it: an invariant
  that relates a builder state to the tokens written so far, its preservation by every operation,
  and the round trip through the image.
\<close>

section \<open>Words and bytes\<close>

lemma length_word_bytes [simp]: "length (word_bytes w) = 4"
  by (simp add: word_bytes_def)

lemma bytes_of_simps [simp]: "bytes_of [] = []" "bytes_of (w # ws) = word_bytes w @ bytes_of ws"
  "bytes_of (ws @ ws') = bytes_of ws @ bytes_of ws'"
  by (simp_all add: bytes_of_def)

lemma length_bytes_of [simp]: "length (bytes_of ws) = 4 * length ws"
  by (induction ws) simp_all

lemma words_of_bytes [simp]: "words_of (bytes_of ws) = ws"
  by (induction ws) (simp_all add: word_bytes_def bit_split4)

lemma word_bytes_join:
  "word_bytes (ucast a OR push_bit 8 (ucast b) OR push_bit 16 (ucast c) OR push_bit 24 (ucast d)) = [a, b, c, d]"
  unfolding word_bytes_def
  by (intro list.inject [THEN iffD2] conjI bit_word_eqI refl) (auto simp: bit_simps dest: bit_imp_le_length)

lemma bytes_of_words: "4 dvd length bs \<Longrightarrow> bytes_of (words_of bs) = bs"
proof (induction bs rule: words_of.induct)
  case (1 a b c d r)
  then have "4 dvd length r" by (simp add: dvd_def) presburger
  then show ?case using 1 by (simp add: word_bytes_join)
qed (auto simp: dvd_def, presburger+)

lemma bytes_of_drop: "bytes_of (drop n ws) = drop (4 * n) (bytes_of ws)"
proof (induction ws arbitrary: n)
  case (Cons w ws)
  show ?case using Cons [of "n - 1"] by (cases n) simp_all
qed simp

text \<open>The padding of \<open>fdt_put_data\<close>.\<close>

lemma pad_len: "nat (- int n AND 3) = (4 - n mod 4) mod 4"
proof -
  have "- int n AND mask 2 = (- int n) mod 2 ^ 2" unfolding take_bit_eq_mask [symmetric] take_bit_eq_mod ..
  then have "- int n AND 3 = (- int n) mod 4" by (simp add: mask_eq_exp_minus_1)
  also have "\<dots> = int ((4 - n mod 4) mod 4)"
    by (simp add: zmod_zminus1_eq_if of_nat_mod of_nat_diff zmod_int)
  finally show ?thesis by simp
qed

definition padded :: "u8 list \<Rightarrow> u8 list" where
  "padded data = data @ replicate ((4 - length data mod 4) mod 4) 0"

lemma padded_len: "length (padded data) = 4 * ((length data + 3) div 4)"
proof -
  define q r where "q = length data div 4" and "r = length data mod 4"
  then have n: "length data = 4 * q + r" and "r < 4" by simp_all
  then have "r = 0 \<or> r = 1 \<or> r = 2 \<or> r = 3" by linarith
  then have "4 * q + r + (4 - r) mod 4 = 4 * ((4 * q + r + 3) div 4)"
    by (elim disjE) simp_all
  then have "length data + (4 - length data mod 4) mod 4 = 4 * ((length data + 3) div 4)"
    unfolding r_def [symmetric] by (simp add: n)
  then show ?thesis by (simp add: padded_def)
qed

lemma padded_bytes: "bytes_of (words_of (padded data)) = padded data"
  by (rule bytes_of_words) (simp add: padded_len)

lemma padded_words: "length (words_of (padded data)) = (length data + 3) div 4"
  using arg_cong [OF padded_bytes [of data], of length] unfolding length_bytes_of padded_len by simp

lemma take_padded [simp]: "take (length data) (padded data) = data"
  by (simp add: padded_def)

section \<open>The reader\<close>

datatype fdt_token = BeginNode "u8 list" | EndNode | Prop "u8 list" "u8 list" | EndTree

text \<open>One token of the structure block: with the strings block \<open>st\<close>, the token and the rest.\<close>

definition read_token :: "u8 list \<Rightarrow> u32 list \<Rightarrow> (fdt_token \<times> u32 list) option" where
  "read_token st ws =
     (case ws of
        [] \<Rightarrow> None
      | w # ws1 \<Rightarrow>
          let v = bswap_32 w in
          if v = FDT_BEGIN_NODE then
            let n = c_strlen (bytes_of ws1)
            in if n < 4 * length ws1
               then Some (BeginNode (c_string (bytes_of ws1)), drop ((n + 4) div 4) ws1) else None
          else if v = FDT_END_NODE then Some (EndNode, ws1)
          else if v = FDT_PROP then
            (case ws1 of
               l # p # ws2 \<Rightarrow>
                 let len = unat (bswap_32 l); off = unat (bswap_32 p)
                 in if len \<le> 4 * length ws2 \<and> off < length st
                    then Some (Prop (c_string (drop off st)) (take len (bytes_of ws2)), drop ((len + 3) div 4) ws2)
                    else None
             | _ \<Rightarrow> None)
          else if v = FDT_END then Some (EndTree, ws1)
          else None)"

lemma read_token_shorter: "read_token st ws = Some (t, r) \<Longrightarrow> length r < length ws"
  by (auto simp: read_token_def Let_def split: list.splits if_splits)

function read_tokens :: "u8 list \<Rightarrow> u32 list \<Rightarrow> fdt_token list option" where
  "read_tokens st ws =
     (if ws = [] then Some []
      else case read_token st ws of
             None \<Rightarrow> None
           | Some (t, r) \<Rightarrow> map_option ((#) t) (read_tokens st r))"
  by pat_completeness auto
termination
  by (relation "measure (\<lambda>(st, ws). length ws)") (auto dest: read_token_shorter)

declare read_tokens.simps [simp del]

lemma read_tokens_Nil [simp]: "read_tokens st [] = Some []"
  by (simp add: read_tokens.simps)

lemma read_tokens_Cons: "read_token st ws = Some (t, r) \<Longrightarrow> read_tokens st ws = map_option ((#) t) (read_tokens st r)"
  by (subst read_tokens.simps) (auto simp: read_token_def)

text \<open>The header, the reservation block and the two other blocks of an image.\<close>

definition read_fdt :: "u8 list \<Rightarrow> fdt_token list option" where
  "read_fdt img =
     (let h = (\<lambda>i. unat (bswap_32 (words_of (take 40 img) ! i)))
      in if 40 \<le> length img \<and> h 0 = unat FDT_MAGIC \<and> h 1 = length img \<and> h 5 = 17 \<and> h 6 \<le> 17
            \<and> h 2 mod 4 = 0 \<and> h 2 + h 9 \<le> length img \<and> h 3 + h 8 \<le> length img
            \<and> h 4 mod 8 = 0 \<and> take 16 (drop (h 4) img) = replicate 16 0
         then read_tokens (take (h 8) (drop (h 3) img)) (words_of (take (h 9) (drop (h 2) img)))
         else None)"

text \<open>Reading is not disturbed by what is appended to either block.\<close>

definition terminated :: "u8 list \<Rightarrow> bool" where
  "terminated st \<longleftrightarrow> st = [] \<or> last st = 0"

lemma c_strlen_less: "c_strlen a < length a \<longleftrightarrow> 0 \<in> set a"
  by (induction a) (auto simp: c_strlen_def)

lemma c_string_app:
  assumes "c_strlen a < length a"
  shows "c_string (a @ b) = c_string a" "c_strlen (a @ b) = c_strlen a"
  using assms unfolding c_strlen_less c_string_def c_strlen_def by (induction a) auto

lemma terminated_drop:
  assumes "terminated st" "off < length st"
  shows "c_strlen (drop off st) < length (drop off st)"
proof -
  have "last (drop off st) = 0" "drop off st \<noteq> []" using assms by (auto simp: terminated_def)
  then have "0 \<in> set (drop off st)" by (metis last_in_set)
  then show ?thesis by (simp only: c_strlen_less)
qed

lemma read_token_app:
  assumes "terminated st" "read_token st ws = Some (t, r)"
  shows "read_token (st @ st') (ws @ ws') = Some (t, r @ ws')"
proof -
  obtain w ws1 where ws: "ws = w # ws1" using assms(2) by (cases ws) (auto simp: read_token_def)
  consider "bswap_32 w = FDT_BEGIN_NODE" | "bswap_32 w = FDT_END_NODE" | "bswap_32 w = FDT_PROP"
    | "bswap_32 w = FDT_END"
    using assms(2) by (auto simp: read_token_def ws Let_def split: if_splits)
  then show ?thesis
  proof cases
    case 1
    have d: "drop ((n + 4) div 4) (ws1 @ ws') = drop ((n + 4) div 4) ws1 @ ws'" if "n < 4 * length ws1" for n
    proof -
      have "(n + 4) div 4 \<le> length ws1" using that by simp
      then show ?thesis by simp
    qed
    have n: "c_strlen (bytes_of ws1) < 4 * length ws1"
      and t: "t = BeginNode (c_string (bytes_of ws1))" "r = drop ((c_strlen (bytes_of ws1) + 4) div 4) ws1"
      using assms(2) 1 by (auto simp: read_token_def ws Let_def fdt_consts split: if_splits)
    then have "c_strlen (bytes_of ws1) < length (bytes_of ws1)" by simp
    note a = c_string_app [OF this, of "bytes_of ws'"]
    have "c_strlen (bytes_of ws1) < 4 * length (ws1 @ ws')" using n by simp
    then show ?thesis using 1 t d [OF n] by (simp add: read_token_def ws Let_def a)
  next
    case 3
    obtain l p ws2 where w2: "ws1 = l # p # ws2"
      using assms(2) 3 by (auto simp: read_token_def ws Let_def fdt_consts split: if_splits list.splits)
    have c: "unat (bswap_32 l) \<le> 4 * length ws2" "unat (bswap_32 p) < length st"
      and t: "t = Prop (c_string (drop (unat (bswap_32 p)) st)) (take (unat (bswap_32 l)) (bytes_of ws2))"
        "r = drop ((unat (bswap_32 l) + 3) div 4) ws2"
      using assms(2) 3 by (auto simp: read_token_def ws w2 Let_def fdt_consts split: if_splits)
    have "(unat (bswap_32 l) + 3) div 4 \<le> length ws2" using c(1) by simp
    then show ?thesis
      using 3 t c c_string_app(1) [OF terminated_drop [OF assms(1) c(2)], of st']
      by (simp add: read_token_def ws w2 Let_def fdt_consts)
  qed (use assms(2) in \<open>auto simp: read_token_def ws Let_def fdt_consts\<close>)
qed

lemma read_tokens_app:
  assumes "terminated st" "read_tokens st ws = Some ts"
  shows "read_tokens (st @ st') (ws @ ws') = map_option ((@) ts) (read_tokens (st @ st') ws')"
  using assms
proof (induction st ws arbitrary: ts rule: read_tokens.induct)
  case (1 st ws)
  show ?case
  proof (cases "ws = []")
    case True
    then show ?thesis using 1 by (cases "read_tokens (st @ st') ws'") simp_all
  next
    case False
    then obtain t r ts1 where t: "read_token st ws = Some (t, r)" "read_tokens st r = Some ts1" "ts = t # ts1"
      using 1(3) by (subst (asm) read_tokens.simps) (auto split: option.splits)
    have "read_tokens (st @ st') (ws @ ws') = map_option ((#) t) (read_tokens (st @ st') (r @ ws'))"
      by (rule read_tokens_Cons [OF read_token_app [OF 1(2) t(1)]])
    also have "\<dots> = map_option ((@) ts) (read_tokens (st @ st') ws')"
      using 1(1) [OF False t(1) refl 1(2) t(2)] by (cases "read_tokens (st @ st') ws'") (simp_all add: t(3))
    finally show ?thesis .
  qed
qed

section \<open>The builder against the reader\<close>

text \<open>The tokens \<open>ts\<close> have been written; at most \<open>B\<close> bytes of strings.\<close>

fun nesting :: "fdt_token list \<Rightarrow> int" where
  "nesting [] = 0"
| "nesting (BeginNode n # ts) = nesting ts + 1"
| "nesting (EndNode # ts) = nesting ts - 1"
| "nesting (Prop p d # ts) = nesting ts"
| "nesting (EndTree # ts) = nesting ts"

lemma nesting_app [simp]: "nesting (ts @ ts') = nesting ts + nesting ts'"
  by (induction ts rule: nesting.induct) simp_all

definition built :: "nat \<Rightarrow> fdt_token list \<Rightarrow> fdt_state \<Rightarrow> bool" where
  "built B ts s \<longleftrightarrow> read_tokens (string_table s) (tab s) = Some ts \<and> terminated (string_table s)
     \<and> length (string_table s) \<le> B \<and> open_node_count s = nesting ts
     \<and> int (length (tab s)) \<le> tab_size s \<and> int (length (string_table s)) \<le> string_table_size s"

lemma alloc_fields [simp]:
  "tab (fdt_alloc_len s n) = tab s" "string_table (fdt_alloc_len s n) = string_table s"
  "open_node_count (fdt_alloc_len s n) = open_node_count s" "string_table_size (fdt_alloc_len s n) = string_table_size s"
  by (simp_all add: fdt_alloc_len_def)

lemma alloc_size: "n \<le> tab_size (fdt_alloc_len s n)" "tab_size s \<le> tab_size (fdt_alloc_len s n)" if "0 \<le> tab_size s"
  using that by (auto simp: fdt_alloc_len_def max_int_def)

text \<open>What an operation adds to the two tables.\<close>

definition extends :: "fdt_state \<Rightarrow> u32 list \<Rightarrow> u8 list \<Rightarrow> fdt_state \<Rightarrow> bool" where
  "extends s ws st s' \<longleftrightarrow> tab s' = tab s @ ws \<and> string_table s' = string_table s @ st
     \<and> open_node_count s' = open_node_count s
     \<and> (int (length (tab s)) \<le> tab_size s \<longrightarrow> int (length (tab s')) \<le> tab_size s')
     \<and> (int (length (string_table s)) \<le> string_table_size s \<longrightarrow> int (length (string_table s')) \<le> string_table_size s')"

lemma extends_trans: "extends s ws st t \<Longrightarrow> extends t ws' st' u \<Longrightarrow> extends s (ws @ ws') (st @ st') u"
  by (auto simp: extends_def)

lemma extends_put32: "extends s [bswap_32 v] [] (fdt_put32 s v)"
  using alloc_size [of s "int (length (tab s)) + 1"] by (auto simp: extends_def fdt_put32_def cpu_to_be32_def Let_def)

lemma extends_put_data: "extends s (words_of (padded data)) [] (fdt_put_data s data)"
  using alloc_size [of s "int (length (tab s)) + (int (length data) + 3) div 4"]
  by (auto simp: extends_def fdt_put_data_def Let_def pad_len padded_def [symmetric] padded_words of_nat_div)

lemma extends_put32s: "extends s (map bswap_32 vs) [] (fold (\<lambda>v s. fdt_put32 s v) vs s)"
proof (induction vs arbitrary: s)
  case Nil
  then show ?case by (simp add: extends_def)
next
  case (Cons v vs)
  show ?case using extends_trans [OF extends_put32 Cons] by simp
qed

text \<open>The string table: the offset holds the name, in this table and in every later one.\<close>

lemma find_string:
  assumes "fdt_find_string rest pos name = Some off" "terminated rest"
  shows "pos \<le> off \<and> off - pos < length rest \<and> c_string (drop (off - pos) rest) = name"
  using assms
proof (induction rest pos name rule: fdt_find_string.induct)
  case (1 rest pos name)
  have ne: "rest \<noteq> []" using 1(2) by (subst (asm) fdt_find_string.simps) (simp split: if_splits)
  show ?case
  proof (cases "c_string rest = name")
    case True
    then have "off = pos" using 1(2) ne by (subst (asm) fdt_find_string.simps) simp
    then show ?thesis using True ne by simp
  next
    case False
    let ?n = "c_strlen rest + 1"
    have f: "fdt_find_string (drop ?n rest) (pos + c_strlen rest + 1) name = Some off"
      using 1(2) ne False by (subst (asm) fdt_find_string.simps) simp
    have t: "terminated (drop ?n rest)" using 1(3) by (cases "length rest \<le> ?n") (auto simp: terminated_def last_drop)
    have i: "pos + c_strlen rest + 1 \<le> off \<and> off - (pos + c_strlen rest + 1) < length (drop ?n rest)
      \<and> c_string (drop (off - (pos + c_strlen rest + 1)) (drop ?n rest)) = name"
      by (rule 1(1) [OF ne False f t])
    then have e: "off - pos = ?n + (off - (pos + c_strlen rest + 1))" by linarith
    have d: "drop (off - pos) rest = drop (off - (pos + c_strlen rest + 1)) (drop ?n rest)"
      unfolding e by (simp add: add.commute)
    from i have "c_string (drop (off - (pos + c_strlen rest + 1)) (drop ?n rest)) = name" by blast
    moreover have "off - pos < length rest" "pos \<le> off" using i unfolding length_drop by arith+
    ultimately show ?thesis by (simp only: d simp_thms)
  qed
qed

lemma string_offset:
  assumes "terminated (string_table s)" "0 \<notin> set name" "fdt_get_string_offset s name = (off, s')"
  shows "\<exists>st. extends s [] st s' \<and> terminated (string_table s') \<and> length st \<le> length name + 1
    \<and> off < length (string_table s') \<and> c_string (drop off (string_table s')) = name"
proof (cases "fdt_find_string (string_table s) 0 name")
  case None
  then have s': "off = length (string_table s)" "string_table s' = string_table s @ name @ [0]"
    "tab s' = tab s" "open_node_count s' = open_node_count s" "tab_size s' = tab_size s"
    "string_table_size s' = (if int (length (string_table s)) + int (length name + 1) > string_table_size s
       then max_int (int (length (string_table s)) + int (length name + 1)) (string_table_size s * 3 div 2) else string_table_size s)"
    using assms(3) by (auto simp: fdt_get_string_offset_def Let_def)
  then have "extends s [] (name @ [0]) s'" by (auto simp: extends_def max_int_def)
  then show ?thesis using s' c_string_append [OF assms(2), of "[]"] by (intro exI [of _ "name @ [0]"]) (simp add: terminated_def)
next
  case (Some pos)
  then have s': "s' = s" "off = pos" using assms(3) by (simp_all add: fdt_get_string_offset_def)
  have "extends s [] [] s'" using s' by (simp add: extends_def)
  then show ?thesis using find_string [OF Some assms(1)] s' assms(1) by (intro exI [of _ "[]"]) simp
qed

lemma built_extend:
  assumes "built B ts s" "extends s ws st s'" "terminated (string_table s')" "length st \<le> n"
    and "read_tokens (string_table s') ws = Some ts'" "c = nesting ts'"
  shows "built (B + n) (ts @ ts') (s'\<lparr>open_node_count := open_node_count s' + c\<rparr>)"
proof -
  have "read_tokens (string_table s @ st) (tab s @ ws) = Some (ts @ ts')"
    using assms(1,2,5) read_tokens_app [of "string_table s" "tab s" ts st ws] by (simp add: built_def extends_def)
  then show ?thesis using assms by (auto simp: built_def extends_def)
qed

lemma built_extend0:
  assumes "built B ts s" "extends s ws st s'" "terminated (string_table s')" "length st \<le> n"
    and "read_tokens (string_table s') ws = Some ts'" "nesting ts' = 0"
  shows "built (B + n) (ts @ ts') s'"
  using built_extend [OF assms(1-5) assms(6) [symmetric]] by simp

lemma fdt_const_neq:
  "FDT_END_NODE \<noteq> FDT_BEGIN_NODE" "FDT_PROP \<noteq> FDT_BEGIN_NODE" "FDT_PROP \<noteq> FDT_END_NODE" "FDT_END \<noteq> FDT_BEGIN_NODE"
  "FDT_END \<noteq> FDT_END_NODE" "FDT_END \<noteq> FDT_PROP"
  by (simp_all add: fdt_consts)

lemma built_init: "built 0 [] fdt_init"
  by (simp add: built_def fdt_init_def terminated_def)

lemma built_begin_node:
  assumes "built B ts s" "0 \<notin> set name"
  shows "built B (ts @ [BeginNode name]) (fdt_begin_node s name)"
proof -
  let ?ws = "bswap_32 FDT_BEGIN_NODE # words_of (padded (name @ [0]))"
  have p: "padded (name @ [0]) = name @ 0 # replicate ((4 - length (name @ [0]) mod 4) mod 4) 0" by (simp add: padded_def)
  then have c: "c_string (padded (name @ [0])) = name" using c_string_append [OF assms(2)] by simp
  then have n: "c_strlen (padded (name @ [0])) = length name" by (metis c_string_def c_strlen_def)
  have l: "length (words_of (padded (name @ [0]))) = (length name + 4) div 4" by (simp add: padded_words)
  have "length name < 4 * length (words_of (padded (name @ [0])))" unfolding l by presburger
  then have "read_token st ?ws = Some (BeginNode name, [])" for st
    by (simp add: read_token_def Let_def bswap_32_involutive padded_bytes c n l)
  then have r: "read_tokens st ?ws = Some [BeginNode name]" for st by (simp add: read_tokens_Cons)
  have "extends s ?ws [] (fdt_put_data (fdt_put32 s FDT_BEGIN_NODE) (name @ [0]))"
    using extends_trans [OF extends_put32 extends_put_data] by simp
  note x = this
  from built_extend [OF assms(1) x _ _ r, of 0 1] show ?thesis
    using assms(1) x by (simp add: fdt_begin_node_def Let_def built_def extends_def)
qed

lemma built_end_node:
  assumes "built B ts s"
  shows "built B (ts @ [EndNode]) (fdt_end_node s)"
proof -
  have "read_token st [bswap_32 FDT_END_NODE] = Some (EndNode, [])" for st
    by (simp add: read_token_def Let_def bswap_32_involutive fdt_const_neq)
  then have r: "read_tokens st [bswap_32 FDT_END_NODE] = Some [EndNode]" for st by (simp add: read_tokens_Cons)
  from built_extend [OF assms extends_put32 _ _ r, of 0 "-1"] show ?thesis
    using assms by (simp add: fdt_end_node_def Let_def built_def) (simp add: fdt_put32_def Let_def)
qed

text \<open>A property with the data \<open>data\<close>, written as the words \<open>ws\<close>.\<close>

lemma read_prop:
  assumes "terminated st" "off < length st" "c_string (drop off st) = name" "length st < 2 ^ 32" "length data < 2 ^ 32"
    and "bytes_of ws = padded data"
  shows "read_tokens st (bswap_32 FDT_PROP # bswap_32 (of_nat (length data)) # bswap_32 (of_nat off) # ws) = Some [Prop name data]"
proof -
  have u: "unat (of_nat (length data) :: u32) = length data" "unat (of_nat off :: u32) = off"
    using assms(2,4,5) by (simp_all add: unat_of_nat)
  have l: "length ws = (length data + 3) div 4" using arg_cong [OF assms(6), of length] by (simp add: padded_len)
  have le: "length data \<le> 4 * length ws" using l by presburger
  have "read_token st (bswap_32 FDT_PROP # bswap_32 (of_nat (length data)) # bswap_32 (of_nat off) # ws)
      = Some (Prop name data, [])"
    using le assms(2,3) by (simp add: read_token_def Let_def bswap_32_involutive fdt_const_neq u assms(6) l)
  then show ?thesis by (simp add: read_tokens_Cons)
qed

lemma built_prop_words:
  assumes b: "built B ts s" and name: "0 \<notin> set name" and size: "B + length name + 1 < 2 ^ 32" "length data < 2 ^ 32"
    and w: "bytes_of ws = padded data"
    and g: "fdt_get_string_offset (fdt_put32 (fdt_put32 s FDT_PROP) (of_nat (length data))) name = (off, s3)"
    and e: "extends (fdt_put32 s3 (of_nat off)) ws [] s'"
  shows "built (B + (length name + 1)) (ts @ [Prop name data]) s'"
proof -
  let ?s2 = "fdt_put32 (fdt_put32 s FDT_PROP) (of_nat (length data))"
  have e2: "extends s [bswap_32 FDT_PROP, bswap_32 (of_nat (length data))] [] ?s2"
    using extends_trans [OF extends_put32 extends_put32] by simp
  then have t: "terminated (string_table ?s2)" using b by (simp add: built_def extends_def)
  obtain st where st: "extends ?s2 [] st s3" "terminated (string_table s3)" "length st \<le> length name + 1"
    "off < length (string_table s3)" "c_string (drop off (string_table s3)) = name"
    using string_offset [OF t name g] by blast
  have x: "extends s (bswap_32 FDT_PROP # bswap_32 (of_nat (length data)) # bswap_32 (of_nat off) # ws) st s'"
    using extends_trans [OF extends_trans [OF extends_trans [OF e2 st(1)] extends_put32] e] by simp
  have s': "string_table s' = string_table s3" using e by (simp add: extends_def) (simp add: fdt_put32_def Let_def)
  have "length (string_table s3) < 2 ^ 32" using x b st(3) size(1) by (simp add: extends_def built_def flip: s')
  from read_prop [OF st(2,4,5) this size(2) w] built_extend0 [OF b x _ st(3)] st(2)
  show ?thesis by (simp add: s')
qed

lemma built_prop:
  assumes "built B ts s" "0 \<notin> set name" "B + length name + 1 < 2 ^ 32" "length data < 2 ^ 32"
  shows "built (B + (length name + 1)) (ts @ [Prop name data]) (fdt_prop s name data)"
proof -
  obtain off s3 where g: "fdt_get_string_offset (fdt_put32 (fdt_put32 s FDT_PROP) (of_nat (length data))) name = (off, s3)"
    by force
  show ?thesis
    using built_prop_words [OF assms padded_bytes g extends_put_data] g by (simp add: fdt_prop_def Let_def)
qed

text \<open>The cells of a property are big-endian words.\<close>

definition cells :: "u32 list \<Rightarrow> u8 list" where
  "cells vs = bytes_of (map bswap_32 vs)"

lemma built_prop_tab_u32:
  assumes "built B ts s" "0 \<notin> set name" "B + length name + 1 < 2 ^ 32" "length vs * 4 < 2 ^ 32"
  shows "built (B + (length name + 1)) (ts @ [Prop name (cells vs)]) (fdt_prop_tab_u32 s name vs)"
proof -
  have l: "length (cells vs) = length vs * 4" by (simp add: cells_def)
  have p: "bytes_of (map bswap_32 vs) = padded (cells vs)" by (simp add: padded_def l) (simp add: cells_def)
  obtain off s3 where g: "fdt_get_string_offset (fdt_put32 (fdt_put32 s FDT_PROP) (of_nat (length (cells vs)))) name = (off, s3)"
    by force
  have "length (cells vs) < 2 ^ 32" using assms(4) by (simp only: l)
  from built_prop_words [OF assms(1-3) this p g extends_put32s] g show ?thesis
    by (simp add: fdt_prop_tab_u32_def Let_def l)
qed

section \<open>The image\<close>

lemma length_pad8: "(n + length (pad8 n)) mod 8 = 0"
proof -
  have "n mod 8 < 8" by simp
  then have "n mod 8 = 0 \<or> n mod 8 = 1 \<or> n mod 8 = 2 \<or> n mod 8 = 3 \<or> n mod 8 = 4 \<or> n mod 8 = 5 \<or> n mod 8 = 6 \<or> n mod 8 = 7"
    by linarith
  then have "(n mod 8 + (8 - n mod 8) mod 8) mod 8 = 0" by (elim disjE) simp_all
  then have "(n + (8 - n mod 8) mod 8) mod 8 = 0" by (metis mod_add_left_eq)
  then show ?thesis by (simp only: pad8_def length_replicate)
qed

lemma read_image:
  fixes hs :: "u32 list"
  assumes img: "img = bytes_of (map bswap_32 hs) @ structs @ pad1 @ replicate 16 0 @ strings @ pad2"
    and hs: "hs = [FDT_MAGIC, of_nat (length img), 40, of_nat p3, of_nat p2, FDT_VERSION, 16, 0,
      of_nat (length strings), of_nat (length structs)]"
    and p: "p2 = 40 + length structs + length pad1" "p3 = p2 + 16" "p2 mod 8 = 0" and small: "length img < 2 ^ 32"
  shows "read_fdt img = read_tokens strings (words_of structs)"
proof -
  have l: "length (bytes_of (map bswap_32 hs)) = 40" by (simp add: hs)
  have t: "words_of (take 40 img) = map bswap_32 hs" using l by (simp add: img)
  have u: "unat (of_nat n :: u32) = n" if "n \<le> length img" for n using that small by (simp add: unat_of_nat)
  have len: "length img = 40 + length structs + length pad1 + 16 + length strings + length pad2"
    using l by (simp add: img)
  have h: "unat (of_nat (length img) :: u32) = length img" "unat (of_nat p3 :: u32) = p3" "unat (of_nat p2 :: u32) = p2"
    "unat (of_nat (length strings) :: u32) = length strings" "unat (of_nat (length structs) :: u32) = length structs"
    by (rule u; use p(1,2) len in linarith)+
  have d2: "drop p2 img = replicate 16 0 @ strings @ pad2" using l by (simp add: img p(1))
  have "drop p3 img = drop 16 (drop p2 img)" by (simp add: p(2) add.commute)
  then have d3: "drop p3 img = strings @ pad2" by (simp add: d2)
  have d1: "take (length structs) (drop 40 img) = structs" using l by (simp add: img)
  have "map bswap_32 hs ! i = bswap_32 (hs ! i)" if "i < 10" for i
    by (rule nth_map) (use that in \<open>simp add: hs\<close>)
  then have w: "unat (bswap_32 (words_of (take 40 img) ! i)) = unat (hs ! i)" if "i < 10" for i
    using that by (simp add: t bswap_32_involutive)
  have hh: "hs ! 0 = FDT_MAGIC" "hs ! 1 = of_nat (length img)" "hs ! 2 = 40" "hs ! 3 = of_nat p3" "hs ! 4 = of_nat p2"
    "hs ! 5 = FDT_VERSION" "hs ! 6 = 16" "hs ! 8 = of_nat (length strings)" "hs ! 9 = of_nat (length structs)"
    by (simp_all add: hs)
  have le: "40 \<le> length img" "40 + length structs \<le> length img" "p3 + length strings \<le> length img"
    using len p(1,2) by linarith+
  have c: "unat (40 :: u32) = 40" "unat FDT_VERSION = 17" "unat (16 :: u32) = 16" by (simp_all add: FDT_VERSION_def)
  show ?thesis
    using le p(3) by (simp add: read_fdt_def Let_def w hh h c d1 d2 d3 del: One_nat_def)
qed

lemma built_output:
  assumes b: "built B ts s" and n: "nesting ts = 0" and small: "4 * length (tab s) + B < 2 ^ 31"
  shows "\<exists>img. fdt_output s = Some img \<and> read_fdt img = Some (ts @ [EndTree]) \<and> length img mod 8 = 0
    \<and> length img \<le> 4 * length (tab s) + B + 74"
proof -
  define s1 where "s1 = fdt_put32 s FDT_END"
  have "read_token st [bswap_32 FDT_END] = Some (EndTree, [])" for st
    by (simp add: read_token_def Let_def bswap_32_involutive fdt_const_neq)
  then have r: "read_tokens st [bswap_32 FDT_END] = Some [EndTree]" for st by (simp add: read_tokens_Cons)
  have e: "extends s [bswap_32 FDT_END] [] s1" unfolding s1_def by (rule extends_put32)
  then have b1: "built (B + 0) (ts @ [EndTree]) s1"
    using b by (intro built_extend0 [OF b e _ _ r]) (simp_all add: extends_def built_def)
  define structs strings where "structs = bytes_of (tab s1)" and "strings = string_table s1"
  define pad1 where "pad1 = pad8 (40 + length structs)"
  define p2 where "p2 = 40 + length structs + length pad1"
  define p4 where "p4 = p2 + 16 + length strings"
  define hs where "hs = [FDT_MAGIC, of_nat (p4 + length (pad8 p4)), 40, of_nat (p2 + 16), of_nat p2, FDT_VERSION, 16, 0,
      of_nat (length strings), of_nat (length structs)]"
  define img where "img = bytes_of (map bswap_32 hs) @ structs @ pad1 @ replicate 16 0 @ strings @ pad8 p4"
  have "open_node_count s = 0" using b n by (simp add: built_def)
  then have o: "fdt_output s = Some img"
    by (simp add: fdt_output_def Let_def img_def hs_def p4_def p2_def pad1_def strings_def structs_def s1_def
        cpu_to_be32_def add.assoc)
  have li: "length img = p4 + length (pad8 p4)"
    by (simp add: img_def hs_def p4_def p2_def)
  have small': "length structs = 4 * length (tab s) + 4" "length strings \<le> B"
    using e b1 by (simp_all add: structs_def strings_def extends_def built_def)
  have "length (pad8 p4) \<le> 7" "length pad1 \<le> 7" by (simp_all add: pad8_def pad1_def)
  then have bound: "length img \<le> 4 * length (tab s) + B + 74" using small' by (simp add: li p4_def p2_def)
  have "read_fdt img = read_tokens strings (words_of structs)"
  proof (rule read_image [where ?pad1.0 = pad1 and ?p2.0 = p2 and ?p3.0 = "p2 + 16" and hs = hs and ?pad2.0 = "pad8 p4"])
    show "p2 mod 8 = 0" unfolding p2_def pad1_def by (rule length_pad8)
    show "length img < 2 ^ 32" using bound small by simp
    show "hs = [FDT_MAGIC, of_nat (length img), 40, of_nat (p2 + 16), of_nat p2, FDT_VERSION, 16, 0,
        of_nat (length strings), of_nat (length structs)]" by (simp add: hs_def li)
  qed (simp_all add: img_def p2_def)
  also have "\<dots> = Some (ts @ [EndTree])" using b1 by (simp add: strings_def structs_def built_def)
  finally show ?thesis using o bound length_pad8 [of p4] by (simp add: li)
qed

end
