(* ===== verification/Boot.thy ===== *)
theory Boot
  imports Fdt Machine
begin

text \<open>
  The construction of the machine (\<open>riscv_machine.c\<close>): the memory map with its devices, the device
  tree that describes it, and the boot code. The VIRTIO devices and the frame buffer enter with the
  ranges that \<open>virtio_init\<close> and \<open>simplefb_init\<close> register.
\<close>

section \<open>Parameters\<close>

text \<open>A C string literal.\<close>

definition str :: "string \<Rightarrow> u8 list" where
  "str s = map of_char s"

text \<open>\<open>VirtMachineParams\<close>: the fields that \<open>riscv_machine_init\<close> reads. A device is present or not;
  its host side is not part of the construction.\<close>

record machine_params =
  machine_name :: "u8 list"
  p_ram_size :: u64
  p_rtc_real_time :: bool
  p_console :: bool
  eth_count :: nat
  drive_count :: nat
  fs_count :: nat
  display_device :: "u8 list option"
  p_width :: u32
  p_height :: u32
  input_device :: "u8 list option"
  bios :: "u8 list"
  kernel :: "u8 list"
  cmdline :: "u8 list option"

record fb_device =
  fb_size :: u32
  fb_width :: u32
  fb_height :: u32
  fb_stride :: u32

definition FRAMEBUFFER_BASE_ADDR :: u64 where "FRAMEBUFFER_BASE_ADDR = 0x41000000"
definition FB_ALLOC_ALIGN :: u32 where "FB_ALLOC_ALIGN = 65536"
definition VIRTIO_PAGE_SIZE :: u64 where "VIRTIO_PAGE_SIZE = 4096"

text \<open>A run of statements \<open>f(s, \<dots>); g(s, \<dots>);\<close> on the tree under construction.\<close>

definition in_order :: "(fdt_state \<Rightarrow> fdt_state) list \<Rightarrow> fdt_state \<Rightarrow> fdt_state" where
  "in_order ops s = fold (\<lambda>op. op) ops s"

section \<open>The device tree\<close>

definition isa_string :: "nat \<Rightarrow> u32 \<Rightarrow> u8 list" where
  "isa_string xlen isa =
     str ''rv'' @ (if xlen = 32 then str ''32'' else if xlen = 64 then str ''64'' else str ''128'')
     @ map (\<lambda>i. of_nat (97 + i)) (filter (\<lambda>i. c_true (isa AND push_bit i 1)) [0..<26])"

definition fdt_cpus :: "nat \<Rightarrow> u32 \<Rightarrow> u32 \<Rightarrow> fdt_state \<Rightarrow> fdt_state" where
  "fdt_cpus xlen isa intc_phandle = in_order [
     \<lambda>s. fdt_begin_node s (str ''cpus''),
     \<lambda>s. fdt_prop_u32 s (str ''#address-cells'') 1,
     \<lambda>s. fdt_prop_u32 s (str ''#size-cells'') 0,
     \<lambda>s. fdt_prop_u32 s (str ''timebase-frequency'') (ucast RTC_FREQ),
     \<lambda>s. fdt_begin_node_num s (str ''cpu'') 0,
     \<lambda>s. fdt_prop_str s (str ''device_type'') (str ''cpu''),
     \<lambda>s. fdt_prop_u32 s (str ''reg'') 0,
     \<lambda>s. fdt_prop_str s (str ''status'') (str ''okay''),
     \<lambda>s. fdt_prop_str s (str ''compatible'') (str ''riscv''),
     \<lambda>s. fdt_prop_str s (str ''riscv,isa'') (isa_string xlen isa),
     \<lambda>s. fdt_prop_str s (str ''mmu-type'') (if xlen \<le> 32 then str ''riscv,sv32'' else str ''riscv,sv48''),
     \<lambda>s. fdt_prop_u32 s (str ''clock-frequency'') 2000000000,
     \<lambda>s. fdt_begin_node s (str ''interrupt-controller''),
     \<lambda>s. fdt_prop_u32 s (str ''#interrupt-cells'') 1,
     \<lambda>s. fdt_prop s (str ''interrupt-controller'') [],
     \<lambda>s. fdt_prop_str s (str ''compatible'') (str ''riscv,cpu-intc''),
     \<lambda>s. fdt_prop_u32 s (str ''phandle'') intc_phandle,
     \<lambda>s. fdt_end_node s,
     \<lambda>s. fdt_end_node s,
     \<lambda>s. fdt_end_node s]"

definition fdt_memory :: "u64 \<Rightarrow> fdt_state \<Rightarrow> fdt_state" where
  "fdt_memory ram_sz = in_order [
     \<lambda>s. fdt_begin_node_num s (str ''memory'') RAM_BASE_ADDR,
     \<lambda>s. fdt_prop_str s (str ''device_type'') (str ''memory''),
     \<lambda>s. fdt_prop_tab_u32 s (str ''reg'')
        [ucast (drop_bit 32 RAM_BASE_ADDR), ucast RAM_BASE_ADDR, ucast (drop_bit 32 ram_sz), ucast ram_sz],
     \<lambda>s. fdt_end_node s,
     \<lambda>s. fdt_begin_node s (str ''htif''),
     \<lambda>s. fdt_prop_str s (str ''compatible'') (str ''ucb,htif0''),
     \<lambda>s. fdt_end_node s]"

definition fdt_clint :: "u32 \<Rightarrow> fdt_state \<Rightarrow> fdt_state" where
  "fdt_clint intc_phandle = in_order [
     \<lambda>s. fdt_begin_node_num s (str ''clint'') CLINT_BASE_ADDR,
     \<lambda>s. fdt_prop_str s (str ''compatible'') (str ''riscv,clint0''),
     \<lambda>s. fdt_prop_tab_u32 s (str ''interrupts-extended'') [intc_phandle, 3, intc_phandle, 7],
     \<lambda>s. fdt_prop_tab_u64_2 s (str ''reg'') CLINT_BASE_ADDR CLINT_SIZE,
     \<lambda>s. fdt_end_node s]"

definition fdt_plic :: "u32 \<Rightarrow> u32 \<Rightarrow> fdt_state \<Rightarrow> fdt_state" where
  "fdt_plic intc_phandle plic_phandle = in_order [
     \<lambda>s. fdt_begin_node_num s (str ''plic'') PLIC_BASE_ADDR,
     \<lambda>s. fdt_prop_u32 s (str ''#interrupt-cells'') 1,
     \<lambda>s. fdt_prop s (str ''interrupt-controller'') [],
     \<lambda>s. fdt_prop_str s (str ''compatible'') (str ''riscv,plic0''),
     \<lambda>s. fdt_prop_u32 s (str ''riscv,ndev'') 31,
     \<lambda>s. fdt_prop_tab_u64_2 s (str ''reg'') PLIC_BASE_ADDR PLIC_SIZE,
     \<lambda>s. fdt_prop_tab_u32 s (str ''interrupts-extended'') [intc_phandle, 9, intc_phandle, 11],
     \<lambda>s. fdt_prop_u32 s (str ''phandle'') plic_phandle,
     \<lambda>s. fdt_end_node s]"

definition fdt_virtio :: "u32 \<Rightarrow> nat \<Rightarrow> fdt_state \<Rightarrow> fdt_state" where
  "fdt_virtio plic_phandle i = in_order [
     \<lambda>s. fdt_begin_node_num s (str ''virtio'') (VIRTIO_BASE_ADDR + of_nat i * VIRTIO_SIZE),
     \<lambda>s. fdt_prop_str s (str ''compatible'') (str ''virtio,mmio''),
     \<lambda>s. fdt_prop_tab_u64_2 s (str ''reg'') (VIRTIO_BASE_ADDR + of_nat i * VIRTIO_SIZE) VIRTIO_SIZE,
     \<lambda>s. fdt_prop_tab_u32 s (str ''interrupts-extended'') [plic_phandle, of_nat (VIRTIO_IRQ + i)],
     \<lambda>s. fdt_end_node s]"

definition fdt_framebuffer :: "fb_device \<Rightarrow> fdt_state \<Rightarrow> fdt_state" where
  "fdt_framebuffer fb = in_order [
     \<lambda>s. fdt_begin_node_num s (str ''framebuffer'') FRAMEBUFFER_BASE_ADDR,
     \<lambda>s. fdt_prop_str s (str ''compatible'') (str ''simple-framebuffer''),
     \<lambda>s. fdt_prop_tab_u64_2 s (str ''reg'') FRAMEBUFFER_BASE_ADDR (scast (fb_size fb)),
     \<lambda>s. fdt_prop_u32 s (str ''width'') (fb_width fb),
     \<lambda>s. fdt_prop_u32 s (str ''height'') (fb_height fb),
     \<lambda>s. fdt_prop_u32 s (str ''stride'') (fb_stride fb),
     \<lambda>s. fdt_prop_str s (str ''format'') (str ''a8r8g8b8''),
     \<lambda>s. fdt_end_node s]"

definition fdt_soc :: "u32 \<Rightarrow> u32 \<Rightarrow> nat \<Rightarrow> fb_device option \<Rightarrow> fdt_state \<Rightarrow> fdt_state" where
  "fdt_soc intc_phandle plic_phandle virtio_count fb = in_order ([
     \<lambda>s. fdt_begin_node s (str ''soc''),
     \<lambda>s. fdt_prop_u32 s (str ''#address-cells'') 2,
     \<lambda>s. fdt_prop_u32 s (str ''#size-cells'') 2,
     \<lambda>s. fdt_prop_tab_str s (str ''compatible'') [str ''ucbbar,riscvemu-bar-soc'', str ''simple-bus''],
     \<lambda>s. fdt_prop s (str ''ranges'') [],
     fdt_clint intc_phandle,
     fdt_plic intc_phandle plic_phandle]
     @ map (fdt_virtio plic_phandle) [0..<virtio_count]
     @ (case fb of None \<Rightarrow> [] | Some d \<Rightarrow> [fdt_framebuffer d])
     @ [\<lambda>s. fdt_end_node s])"

definition fdt_chosen :: "u64 \<Rightarrow> u64 \<Rightarrow> u8 list option \<Rightarrow> fdt_state \<Rightarrow> fdt_state" where
  "fdt_chosen kernel_start kernel_size cmd_line = in_order ([
     \<lambda>s. fdt_begin_node s (str ''chosen''),
     \<lambda>s. fdt_prop_str s (str ''bootargs'') (case cmd_line of None \<Rightarrow> [] | Some c \<Rightarrow> c)]
     @ (if kernel_size > 0 then [
          \<lambda>s. fdt_prop_tab_u64 s (str ''riscv,kernel-start'') kernel_start,
          \<lambda>s. fdt_prop_tab_u64 s (str ''riscv,kernel-end'') (kernel_start + kernel_size)] else [])
     @ [\<lambda>s. fdt_end_node s])"

definition riscv_build_fdt ::
  "nat \<Rightarrow> u32 \<Rightarrow> u64 \<Rightarrow> nat \<Rightarrow> fb_device option \<Rightarrow> u64 \<Rightarrow> u64 \<Rightarrow> u8 list option \<Rightarrow> u8 list option" where
  "riscv_build_fdt xlen isa ram_sz virtio_count fb kernel_start kernel_size cmd_line =
     fdt_output (in_order [
       \<lambda>s. fdt_begin_node s [],
       \<lambda>s. fdt_prop_u32 s (str ''#address-cells'') 2,
       \<lambda>s. fdt_prop_u32 s (str ''#size-cells'') 2,
       \<lambda>s. fdt_prop_str s (str ''compatible'') (str ''ucbbar,riscvemu-bar_dev''),
       \<lambda>s. fdt_prop_str s (str ''model'') (str ''ucbbar,riscvemu-bare''),
       fdt_cpus xlen isa 1,
       fdt_memory ram_sz,
       fdt_soc 1 2 virtio_count fb,
       fdt_chosen kernel_start kernel_size cmd_line,
       \<lambda>s. fdt_end_node s] fdt_init)"

section \<open>The contents of the RAM\<close>

text \<open>What ends the construction: an unknown machine name, a width the CPU is not built for, or a
  failed check (\<open>exit(1)\<close> or an assertion).\<close>

datatype init_error = Unsupported_machine | Unsupported_xlen | Stopped

definition fdt_addr :: u32 where "fdt_addr = 0x1000 + 8 * 8"

text \<open>The five instructions of the boot code.\<close>

definition boot_words :: "u32 list" where
  "boot_words = [0x297 + 0x80000000 - 0x1000, 0x597, 0x58593 + push_bit 20 (fdt_addr - 4), 0xf1402573, 0x00028067]"

definition kernel_base :: "nat \<Rightarrow> u8 list \<Rightarrow> u8 list \<Rightarrow> u32" where
  "kernel_base xlen bs ks =
     (if length ks > 0 then
        let kernel_align = (if xlen = 32 then push_bit 20 4 else push_bit 20 2)
        in (of_nat (length bs) + kernel_align - 1) AND NOT (kernel_align - 1)
      else 0)"

definition copy_bios :: "nat \<Rightarrow> fb_device option \<Rightarrow> u8 list \<Rightarrow> u8 list \<Rightarrow> u8 list option \<Rightarrow> mcpu \<Rightarrow> init_error + mcpu" where
  "copy_bios virtio_count fb bs ks cmd_line s =
     (if of_nat (length bs) > ram_size (dev s) then Inl Stopped
      else
        let (ram_ptr, mm1) = phys_mem_get_ram_ptr (mem_map s) RAM_BASE_ADDR True;
            m1 = host_put (ram s) ram_ptr bs;
            base = kernel_base (max_xlen (dev s)) bs ks;
            m2 = (if length ks > 0 then host_put m1 (ram_ptr + ucast base) ks else m1);
            (low_ptr, mm2) = phys_mem_get_ram_ptr mm1 0 True
        in case riscv_build_fdt (max_xlen (dev s)) (riscv_cpu_get_misa s) (ram_size (dev s)) virtio_count fb
                  (ucast ((0x80000000 :: u32) + base)) (of_nat (length ks)) cmd_line of
             None \<Rightarrow> Inl Stopped
           | Some img \<Rightarrow>
               let m3 = host_put m2 (low_ptr + ucast fdt_addr) img;
                   m4 = host_put m3 (low_ptr + 0x1000) (bytes_of boot_words)
               in Inr (s\<lparr>mem_map := mm2, ram := m4\<rparr>))"

section \<open>The construction\<close>

text \<open>The identities of the VIRTIO devices as values of \<open>opaque\<close>, in the order of their creation.\<close>

definition VIRTIO_ID :: nat where "VIRTIO_ID = 3"

definition cpu_register_ram ::
  "phys_mem_map \<times> host_mem \<Rightarrow> u64 \<Rightarrow> u64 \<Rightarrow> u64 \<Rightarrow> u32 \<Rightarrow> (phys_mem_map \<times> host_mem) option" where
  "cpu_register_ram mm ptr addr sz flags =
     map_option (\<lambda>(m, h, i). (m, h)) (default_register_ram (fst mm) (snd mm) ptr addr sz flags)"

definition register_device ::
  "phys_mem_map \<times> host_mem \<Rightarrow> u64 \<Rightarrow> u64 \<Rightarrow> nat \<Rightarrow> u32 \<Rightarrow> (phys_mem_map \<times> host_mem) option" where
  "register_device mm addr sz opaque flags =
     map_option (\<lambda>(m, i). (m, snd mm)) (cpu_register_device (fst mm) addr sz opaque flags)"

text \<open>\<open>virtio_init\<close> on the MMIO bus, for each of \<open>n\<close> devices from number \<open>i\<close> on.\<close>

fun register_virtio :: "phys_mem_map \<times> host_mem \<Rightarrow> nat \<Rightarrow> nat \<Rightarrow> (phys_mem_map \<times> host_mem) option" where
  "register_virtio mm i 0 = Some mm"
| "register_virtio mm i (Suc n) =
     (case register_device mm (VIRTIO_BASE_ADDR + of_nat i * VIRTIO_SIZE) VIRTIO_PAGE_SIZE (VIRTIO_ID + i)
             (DEVIO_SIZE8 OR DEVIO_SIZE16 OR DEVIO_SIZE32) of
        None \<Rightarrow> None
      | Some mm' \<Rightarrow> register_virtio mm' (Suc i) n)"

text \<open>The fields that \<open>simplefb_init\<close> computes.\<close>

definition simplefb_device :: "u32 \<Rightarrow> u32 \<Rightarrow> fb_device" where
  "simplefb_device w h =
     \<lparr>fb_size = (h * (w * 4) + FB_ALLOC_ALIGN - 1) AND NOT (FB_ALLOC_ALIGN - 1),
      fb_width = w, fb_height = h, fb_stride = w * 4\<rparr>"

text \<open>The devices before the display: console, network, block and file-system devices.\<close>

definition virtio_devices :: "machine_params \<Rightarrow> nat" where
  "virtio_devices p = (if p_console p then 1 else 0) + eth_count p + drive_count p + fs_count p"

text \<open>The memory map of the machine, with the frame buffer and the number of VIRTIO devices.
  \<open>alloc n\<close> is what \<open>malloc\<close> returns for the n-th RAM range.\<close>

definition init_memory_map ::
  "machine_params \<Rightarrow> (nat \<Rightarrow> u64) \<Rightarrow> host_mem \<Rightarrow> (phys_mem_map \<times> host_mem \<times> fb_device option \<times> nat) option" where
  "init_memory_map p alloc h0 =
     (case cpu_register_ram (phys_mem_map_init, h0) (alloc 0) RAM_BASE_ADDR (p_ram_size p) 0 of None \<Rightarrow> None | Some m1 \<Rightarrow>
      case cpu_register_ram m1 (alloc 1) 0x00000000 LOW_RAM_SIZE 0 of None \<Rightarrow> None | Some m2 \<Rightarrow>
      case register_device m2 CLINT_BASE_ADDR CLINT_SIZE CLINT_ID DEVIO_SIZE32 of None \<Rightarrow> None | Some m3 \<Rightarrow>
      case register_device m3 PLIC_BASE_ADDR PLIC_SIZE PLIC_ID DEVIO_SIZE32 of None \<Rightarrow> None | Some m4 \<Rightarrow>
      case register_device m4 HTIF_BASE_ADDR 16 HTIF_ID DEVIO_SIZE32 of None \<Rightarrow> None | Some m5 \<Rightarrow>
      case register_virtio m5 0 (virtio_devices p) of None \<Rightarrow> None | Some m6 \<Rightarrow>
      case (case display_device p of
              None \<Rightarrow> Some (m6, None)
            | Some d \<Rightarrow>
                if d = str ''simplefb'' then
                  let fb = simplefb_device (p_width p) (p_height p)
                  in map_option (\<lambda>m. (m, Some fb))
                       (cpu_register_ram m6 (alloc 2) FRAMEBUFFER_BASE_ADDR (scast (fb_size fb)) DEVRAM_FLAG_DIRTY_BITS)
                else None) of
        None \<Rightarrow> None
      | Some (m7, fb) \<Rightarrow>
      case (case input_device p of
              None \<Rightarrow> Some (m7, virtio_devices p)
            | Some d \<Rightarrow>
                if d = str ''virtio''
                then map_option (\<lambda>m. (m, virtio_devices p + 2)) (register_virtio m7 (virtio_devices p) 2)
                else None) of
        None \<Rightarrow> None
      | Some ((m8, h8), n) \<Rightarrow> Some (m8, h8, fb, n))"

text \<open>The CPU is the 64-bit instance; \<open>other_cpu xlen\<close> says what \<open>riscv_cpu_init\<close> returns for the
  other widths (\<open>NULL\<close> as \<open>None\<close>). \<open>clk\<close> is the host clock.\<close>

definition init_device_state :: "machine_params \<Rightarrow> nat \<Rightarrow> (nat \<Rightarrow> u64 \<times> u64) \<Rightarrow> machine" where
  "init_device_state p xlen clk =
     \<lparr>max_xlen = xlen, ram_size = p_ram_size p, rtc_real_time = p_rtc_real_time p, rtc_start_time = 0,
      timecmp = 0, plic_pending_irq = 0, plic_served_irq = 0, htif_tohost = 0, htif_fromhost = 0,
      console_out = [], exited = False, clock = clk, clock_calls = 0\<rparr>"

definition start_rtc :: "mcpu \<Rightarrow> mcpu" where
  "start_rtc s =
     (if rtc_real_time (dev s) then
        let (t, s') = rtc_get_real_time s in s'\<lparr>dev := (dev s')\<lparr>rtc_start_time := t\<rparr>\<rparr>
      else s)"

definition riscv_machine_init ::
  "machine_params \<Rightarrow> (nat \<Rightarrow> mcpu option) \<Rightarrow> (nat \<Rightarrow> u64) \<Rightarrow> host_mem \<Rightarrow> (nat \<Rightarrow> u64 \<times> u64) \<Rightarrow> init_error + mcpu" where
  "riscv_machine_init p other_cpu alloc h0 clk =
     (let xlen = (if machine_name p = str ''riscv32'' then Some 32
                  else if machine_name p = str ''riscv64'' then Some 64
                  else if machine_name p = str ''riscv128'' then Some 128 else None)
      in case xlen of
           None \<Rightarrow> Inl Unsupported_machine
         | Some w \<Rightarrow>
             (case (if w = 64 then Some (riscv_cpu_init phys_mem_map_init h0 (init_device_state p 64 clk)) else other_cpu w) of
                None \<Rightarrow> Inl Unsupported_xlen
              | Some s0 \<Rightarrow>
                  (case init_memory_map p alloc (ram s0) of
                     None \<Rightarrow> Inl Stopped
                   | Some (mm, h, fb, n) \<Rightarrow>
                       copy_bios n fb (bios p) (kernel p) (cmdline p) (start_rtc (s0\<lparr>mem_map := mm, ram := h\<rparr>)))))"

end
