(* ===== verification/DeviceTree.thy ===== *)
theory DeviceTree
  imports FdtSpec Boot
begin

text \<open>
  The device tree of the machine as a tree, and that the image which \<open>riscv_build_fdt\<close> writes is
  read back as that tree. The tree names every range of the memory map that the guest may use.
\<close>

section \<open>Trees\<close>

datatype fdt_node = Node "u8 list" "(u8 list \<times> u8 list) list" "fdt_node list"

fun flatten :: "fdt_node \<Rightarrow> fdt_token list" where
  "flatten (Node n ps cs) =
     BeginNode n # map (\<lambda>(p, d). Prop p d) ps @ concat (map flatten cs) @ [EndNode]"

section \<open>What a run of builder operations emits\<close>

text \<open>\<open>f\<close> appends the tokens \<open>ts\<close> and adds at most \<open>n\<close> bytes of strings and \<open>w\<close> words.\<close>

definition emits :: "(fdt_state \<Rightarrow> fdt_state) \<Rightarrow> nat \<Rightarrow> fdt_token list \<Rightarrow> bool" where
  "emits f n ts \<longleftrightarrow> (\<forall>B us s. built B us s \<longrightarrow> B + n < 2 ^ 32 \<longrightarrow> built (B + n) (us @ ts) (f s))"

lemma emits_Nil: "emits (in_order []) 0 []"
  by (simp add: emits_def in_order_def)

lemma emits_seq:
  assumes "emits f n ts" "emits g m us"
  shows "emits (\<lambda>s. g (f s)) (n + m) (ts @ us)"
  unfolding emits_def
proof (intro allI impI)
  fix B vs s assume b: "built B vs s" "B + (n + m) < 2 ^ 32"
  then have "built (B + n) (vs @ ts) (f s)" using assms(1) unfolding emits_def by simp
  moreover have "B + n + m < 2 ^ 32" using b(2) by (simp add: add.assoc)
  ultimately have "built (B + n + m) ((vs @ ts) @ us) (g (f s))" using assms(2) unfolding emits_def by blast
  then show "built (B + (n + m)) (vs @ ts @ us) (g (f s))" by (simp add: add.assoc)
qed

lemma emits_Cons: "emits f n ts \<Longrightarrow> emits (in_order fs) m us \<Longrightarrow> emits (in_order (f # fs)) (n + m) (ts @ us)" for fs
  using emits_seq [of f n ts "in_order fs" m us] by (simp add: in_order_def [abs_def] comp_def)

lemma emits_app: "emits (in_order fs) n ts \<Longrightarrow> emits (in_order gs) m us \<Longrightarrow> emits (in_order (fs @ gs)) (n + m) (ts @ us)" for fs gs
  using emits_seq [of "in_order fs" n ts "in_order gs" m us] by (simp add: in_order_def [abs_def] comp_def)

lemma emits_map: "(\<And>i. i \<in> set is \<Longrightarrow> emits (f i) n (t i)) \<Longrightarrow> emits (in_order (map f is)) (n * length is) (concat (map t is))"
proof (induction "is")
  case Nil
  then show ?case by (simp add: emits_Nil)
next
  case (Cons i "is")
  show ?case using emits_Cons [OF Cons(2) Cons(1)] Cons(2) by simp
qed

lemma built_mono: "built B ts s \<Longrightarrow> B \<le> B' \<Longrightarrow> built B' ts s"
  by (simp add: built_def)

lemma emits_cong:
  assumes "emits f n ts" "n \<le> m" "ts = us"
  shows "emits f m us"
  unfolding emits_def
proof (intro allI impI)
  fix B vs s assume b: "built B vs s" "B + m < 2 ^ 32"
  then have "built (B + n) (vs @ us) (f s)" using assms unfolding emits_def by simp
  then show "built (B + m) (vs @ us) (f s)" by (rule built_mono) (use assms(2) in simp)
qed

lemma emits_begin_node: "0 \<notin> set name \<Longrightarrow> emits (\<lambda>s. fdt_begin_node s name) 0 [BeginNode name]"
  by (simp add: emits_def built_begin_node)

lemma emits_end_node: "emits (\<lambda>s. fdt_end_node s) 0 [EndNode]"
  by (simp add: emits_def built_end_node)

lemma emits_prop:
  "0 \<notin> set name \<Longrightarrow> length data < 2 ^ 32 \<Longrightarrow> emits (\<lambda>s. fdt_prop s name data) (length name + 1) [Prop name data]"
  using built_prop by (simp add: emits_def)

lemma emits_prop_str:
  "0 \<notin> set name \<Longrightarrow> length d + 1 < 2 ^ 32 \<Longrightarrow> emits (\<lambda>s. fdt_prop_str s name d) (length name + 1) [Prop name (d @ [0])]"
  using emits_prop [of name "d @ [0]"] by (simp add: fdt_prop_str_def)

lemma emits_tab_u32:
  "0 \<notin> set name \<Longrightarrow> length vs * 4 < 2 ^ 32 \<Longrightarrow> emits (\<lambda>s. fdt_prop_tab_u32 s name vs) (length name + 1) [Prop name (cells vs)]"
  using built_prop_tab_u32 by (simp add: emits_def)

lemma emits_u32: "0 \<notin> set name \<Longrightarrow> emits (\<lambda>s. fdt_prop_u32 s name v) (length name + 1) [Prop name (cells [v])]"
  using emits_tab_u32 [of name "[v]"] by (simp add: fdt_prop_u32_def)

text \<open>The two cells of a 64-bit value.\<close>

definition cells64 :: "u64 list \<Rightarrow> u8 list" where
  "cells64 vs = cells (concat (map (\<lambda>v. [ucast (drop_bit 32 v), ucast v]) vs))"

lemma emits_u64: "0 \<notin> set name \<Longrightarrow> emits (\<lambda>s. fdt_prop_tab_u64 s name v) (length name + 1) [Prop name (cells64 [v])]"
  using emits_tab_u32 [of name "[ucast (drop_bit 32 v), ucast v]"] by (simp add: fdt_prop_tab_u64_def cells64_def)

lemma emits_u64_2:
  "0 \<notin> set name \<Longrightarrow> emits (\<lambda>s. fdt_prop_tab_u64_2 s name v w) (length name + 1) [Prop name (cells64 [v, w])]"
  using emits_tab_u32 [of name "[ucast (drop_bit 32 v), ucast v, ucast (drop_bit 32 w), ucast w]"]
  by (simp add: fdt_prop_tab_u64_2_def cells64_def)

lemma emits_tab_str:
  assumes "0 \<notin> set name" "length (concat (map (\<lambda>p. p @ [0]) ss)) < 2 ^ 32"
  shows "emits (\<lambda>s. fdt_prop_tab_str s name ss) (length name + 1) [Prop name (concat (map (\<lambda>p. p @ [0]) ss))]"
  using emits_prop [OF assms] by (simp add: fdt_prop_tab_str_def)

text \<open>Node names with an address.\<close>

definition unit_name :: "u8 list \<Rightarrow> u64 \<Rightarrow> u8 list" where
  "unit_name name a = name @ [64] @ hex_nat (unat a)"

lemma hex_digit_not_0: "d < 16 \<Longrightarrow> hex_digit d \<noteq> 0"
proof -
  assume "d < 16"
  then have "(48 + d) mod 256 \<noteq> 0" "(87 + d) mod 256 \<noteq> 0" by simp_all
  moreover have "(of_nat n :: u8) = 0 \<longleftrightarrow> n mod 256 = 0" for n
    by (simp add: word_of_nat_eq_0_iff dvd_eq_mod_eq_0)
  ultimately show ?thesis unfolding hex_digit_def by presburger
qed

lemma hex_nat_not_0: "0 \<notin> set (hex_nat n)"
proof (induction n rule: hex_nat.induct)
  case (1 n)
  then show ?case by (subst hex_nat.simps) (auto dest: hex_digit_not_0 [THEN notE] simp: hex_digit_not_0 [symmetric])
qed

lemma hex_nat_len: "n < 16 ^ Suc k \<Longrightarrow> length (hex_nat n) \<le> Suc k"
proof (induction n arbitrary: k rule: hex_nat.induct)
  case (1 n)
  show ?case
  proof (cases "n < 16")
    case True
    then show ?thesis by (subst hex_nat.simps) simp
  next
    case False
    then obtain j where k: "k = Suc j" using 1(2) by (cases k) auto
    have "n div 16 < 16 ^ Suc j" using 1(2) by (simp add: k less_mult_imp_div_less mult.commute)
    then show ?thesis using 1(1) [OF False] False k by (subst hex_nat.simps) simp
  qed
qed

lemma emits_begin_node_num:
  assumes "0 \<notin> set name" "length name \<le> 200"
  shows "emits (\<lambda>s. fdt_begin_node_num s name a) 0 [BeginNode (unit_name name a)]"
proof -
  have "unat a < 16 ^ Suc 15" using unsigned_less [of a] by simp
  then have "length (unit_name name a) \<le> 255" using hex_nat_len [of "unat a" 15] assms(2) by (simp add: unit_name_def)
  then have e: "take 255 (name @ [64] @ hex_nat (unat a)) = unit_name name a" by (simp add: unit_name_def)
  have "0 \<notin> set (unit_name name a)" using assms(1) hex_nat_not_0 by (simp add: unit_name_def)
  then show ?thesis using emits_begin_node by (simp add: fdt_begin_node_num_def e [simplified])
qed

section \<open>The tree of the machine\<close>

lemma length_str [simp]: "length (str s) = length s"
  by (simp add: str_def)

lemma zero_str: "0 \<in> set (str s) \<longleftrightarrow> CHR 0x00 \<in> set s"
proof -
  have "(of_char c :: u8) = 0 \<longleftrightarrow> c = CHR 0x00" for c
  proof
    assume z: "(of_char c :: u8) = 0"
    have "unat (of_char c :: u8) = of_char c" by (simp add: of_char_def unat_of_nat)
    with z have "(of_char c :: nat) = of_char (CHR 0x00)" by simp
    then show "c = CHR 0x00" by (simp only: of_char_eq_iff)
  qed simp
  then show ?thesis by (auto simp: str_def image_iff)
qed

definition prop_str :: "string \<Rightarrow> u8 list \<Rightarrow> u8 list \<times> u8 list" where
  "prop_str p v = (str p, v @ [0])"

definition prop_u32 :: "string \<Rightarrow> u32 list \<Rightarrow> u8 list \<times> u8 list" where
  "prop_u32 p vs = (str p, cells vs)"

definition prop_u64 :: "string \<Rightarrow> u64 list \<Rightarrow> u8 list \<times> u8 list" where
  "prop_u64 p vs = (str p, cells64 vs)"

definition cpu_tree :: "nat \<Rightarrow> u32 \<Rightarrow> fdt_node" where
  "cpu_tree xlen isa =
     Node (str ''cpus'') [prop_u32 ''#address-cells'' [1], prop_u32 ''#size-cells'' [0],
         prop_u32 ''timebase-frequency'' [10000000]]
       [Node (unit_name (str ''cpu'') 0) [prop_str ''device_type'' (str ''cpu''), prop_u32 ''reg'' [0],
           prop_str ''status'' (str ''okay''), prop_str ''compatible'' (str ''riscv''),
           prop_str ''riscv,isa'' (isa_string xlen isa),
           prop_str ''mmu-type'' (if xlen \<le> 32 then str ''riscv,sv32'' else str ''riscv,sv48''),
           prop_u32 ''clock-frequency'' [2000000000]]
         [Node (str ''interrupt-controller'') [prop_u32 ''#interrupt-cells'' [1], (str ''interrupt-controller'', []),
             prop_str ''compatible'' (str ''riscv,cpu-intc''), prop_u32 ''phandle'' [1]] []]]"

definition memory_tree :: "u64 \<Rightarrow> fdt_node" where
  "memory_tree ram_sz = Node (unit_name (str ''memory'') RAM_BASE_ADDR)
     [prop_str ''device_type'' (str ''memory''), prop_u64 ''reg'' [RAM_BASE_ADDR, ram_sz]] []"

definition clint_tree :: fdt_node where
  "clint_tree = Node (unit_name (str ''clint'') CLINT_BASE_ADDR)
     [prop_str ''compatible'' (str ''riscv,clint0''), prop_u32 ''interrupts-extended'' [1, 3, 1, 7],
      prop_u64 ''reg'' [CLINT_BASE_ADDR, CLINT_SIZE]] []"

definition plic_tree :: fdt_node where
  "plic_tree = Node (unit_name (str ''plic'') PLIC_BASE_ADDR)
     [prop_u32 ''#interrupt-cells'' [1], (str ''interrupt-controller'', []), prop_str ''compatible'' (str ''riscv,plic0''),
      prop_u32 ''riscv,ndev'' [31], prop_u64 ''reg'' [PLIC_BASE_ADDR, PLIC_SIZE],
      prop_u32 ''interrupts-extended'' [1, 9, 1, 11], prop_u32 ''phandle'' [2]] []"

definition virtio_tree :: "nat \<Rightarrow> fdt_node" where
  "virtio_tree i = Node (unit_name (str ''virtio'') (VIRTIO_BASE_ADDR + of_nat i * VIRTIO_SIZE))
     [prop_str ''compatible'' (str ''virtio,mmio''), prop_u64 ''reg'' [VIRTIO_BASE_ADDR + of_nat i * VIRTIO_SIZE, VIRTIO_SIZE],
      prop_u32 ''interrupts-extended'' [2, of_nat (VIRTIO_IRQ + i)]] []"

definition framebuffer_tree :: "fb_device \<Rightarrow> fdt_node" where
  "framebuffer_tree fb = Node (unit_name (str ''framebuffer'') FRAMEBUFFER_BASE_ADDR)
     [prop_str ''compatible'' (str ''simple-framebuffer''), prop_u64 ''reg'' [FRAMEBUFFER_BASE_ADDR, scast (fb_size fb)],
      prop_u32 ''width'' [fb_width fb], prop_u32 ''height'' [fb_height fb], prop_u32 ''stride'' [fb_stride fb],
      prop_str ''format'' (str ''a8r8g8b8'')] []"

definition soc_tree :: "nat \<Rightarrow> fb_device option \<Rightarrow> fdt_node" where
  "soc_tree n fb = Node (str ''soc'') [prop_u32 ''#address-cells'' [2], prop_u32 ''#size-cells'' [2],
       (str ''compatible'', str ''ucbbar,riscvemu-bar-soc'' @ [0] @ str ''simple-bus'' @ [0]), (str ''ranges'', [])]
     (clint_tree # plic_tree # map virtio_tree [0..<n] @ (case fb of None \<Rightarrow> [] | Some d \<Rightarrow> [framebuffer_tree d]))"

definition chosen_tree :: "u64 \<Rightarrow> u64 \<Rightarrow> u8 list option \<Rightarrow> fdt_node" where
  "chosen_tree kernel_start kernel_size cmd_line = Node (str ''chosen'')
     (prop_str ''bootargs'' (case cmd_line of None \<Rightarrow> [] | Some c \<Rightarrow> c)
      # (if kernel_size > 0 then [prop_u64 ''riscv,kernel-start'' [kernel_start],
           prop_u64 ''riscv,kernel-end'' [kernel_start + kernel_size]] else [])) []"

definition machine_tree ::
  "nat \<Rightarrow> u32 \<Rightarrow> u64 \<Rightarrow> nat \<Rightarrow> fb_device option \<Rightarrow> u64 \<Rightarrow> u64 \<Rightarrow> u8 list option \<Rightarrow> fdt_node" where
  "machine_tree xlen isa ram_sz n fb kernel_start kernel_size cmd_line =
     Node [] [prop_u32 ''#address-cells'' [2], prop_u32 ''#size-cells'' [2],
         prop_str ''compatible'' (str ''ucbbar,riscvemu-bar_dev''), prop_str ''model'' (str ''ucbbar,riscvemu-bare'')]
       [cpu_tree xlen isa, memory_tree ram_sz, Node (str ''htif'') [prop_str ''compatible'' (str ''ucb,htif0'')] [],
        soc_tree n fb, chosen_tree kernel_start kernel_size cmd_line]"

lemmas emit_rules = emits_Nil emits_Cons emits_begin_node emits_begin_node_num emits_end_node emits_prop
  emits_prop_str emits_tab_u32 emits_u32 emits_u64 emits_u64_2 emits_tab_str

lemmas tree_defs = prop_str_def prop_u32_def prop_u64_def

lemma emits_cpus: "emits (fdt_cpus xlen isa 1) 400 (flatten (cpu_tree xlen isa))"
proof -
  have "length (isa_string xlen isa) \<le> 5 + 26"
    by (auto simp: isa_string_def intro: order_trans [OF length_filter_le])
  then have l: "length (isa_string xlen isa) + 1 < 2 ^ 32" by simp
  show ?thesis
    unfolding fdt_cpus_def
    by (rule emits_cong) (rule emit_rules l | simp add: zero_str cpu_tree_def tree_defs RTC_FREQ_def)+
qed

lemma emits_memory: "emits (fdt_memory ram_sz) 400 (flatten (memory_tree ram_sz) @ flatten (Node (str ''htif'') [prop_str ''compatible'' (str ''ucb,htif0'')] []))"
  unfolding fdt_memory_def
  by (rule emits_cong) (rule emit_rules | simp add: zero_str memory_tree_def tree_defs cells64_def)+

lemma emits_clint: "emits (fdt_clint 1) 400 (flatten clint_tree)"
  unfolding fdt_clint_def
  by (rule emits_cong) (rule emit_rules | simp add: zero_str clint_tree_def tree_defs)+

lemma emits_plic: "emits (fdt_plic 1 2) 400 (flatten plic_tree)"
  unfolding fdt_plic_def
  by (rule emits_cong) (rule emit_rules | simp add: zero_str plic_tree_def tree_defs)+

lemma emits_virtio: "emits (fdt_virtio 2 i) 400 (flatten (virtio_tree i))"
  unfolding fdt_virtio_def
  by (rule emits_cong) (rule emit_rules | simp add: zero_str virtio_tree_def tree_defs)+

lemma emits_framebuffer: "emits (fdt_framebuffer fb) 400 (flatten (framebuffer_tree fb))"
  unfolding fdt_framebuffer_def
  by (rule emits_cong) (rule emit_rules | simp add: zero_str framebuffer_tree_def tree_defs)+

lemma emits_fb_option:
  "emits (in_order (case fb of None \<Rightarrow> [] | Some d \<Rightarrow> [fdt_framebuffer d])) 400
     (case fb of None \<Rightarrow> [] | Some d \<Rightarrow> flatten (framebuffer_tree d))"
  using emits_cong [OF emits_Nil] emits_Cons [OF emits_framebuffer emits_Nil] by (cases fb) simp_all

lemma emits_soc: "emits (fdt_soc 1 2 n fb) (2000 + 400 * n) (flatten (soc_tree n fb))"
  unfolding fdt_soc_def
proof (rule emits_cong)
  show "emits (in_order ([
       \<lambda>s. fdt_begin_node s (str ''soc''),
       \<lambda>s. fdt_prop_u32 s (str ''#address-cells'') 2,
       \<lambda>s. fdt_prop_u32 s (str ''#size-cells'') 2,
       \<lambda>s. fdt_prop_tab_str s (str ''compatible'') [str ''ucbbar,riscvemu-bar-soc'', str ''simple-bus''],
       \<lambda>s. fdt_prop s (str ''ranges'') [],
       fdt_clint 1, fdt_plic 1 2]
     @ map (fdt_virtio 2) [0..<n]
     @ (case fb of None \<Rightarrow> [] | Some d \<Rightarrow> [fdt_framebuffer d])
     @ [\<lambda>s. fdt_end_node s])) (1500 + (400 * length [0..<n] + (400 + 0)))
    (([BeginNode (str ''soc'')] @ [Prop (str ''#address-cells'') (cells [2])] @ [Prop (str ''#size-cells'') (cells [2])]
       @ [Prop (str ''compatible'') (concat (map (\<lambda>p. p @ [0]) [str ''ucbbar,riscvemu-bar-soc'', str ''simple-bus'']))]
       @ [Prop (str ''ranges'') []] @ flatten clint_tree @ flatten plic_tree @ [])
      @ concat (map (\<lambda>i. flatten (virtio_tree i)) [0..<n])
      @ (case fb of None \<Rightarrow> [] | Some d \<Rightarrow> flatten (framebuffer_tree d)) @ [EndNode])"
  proof (rule emits_app)
    show "emits (in_order (map (fdt_virtio 2) [0..<n]
       @ (case fb of None \<Rightarrow> [] | Some d \<Rightarrow> [fdt_framebuffer d]) @ [\<lambda>s. fdt_end_node s]))
      (400 * length [0..<n] + (400 + 0)) (concat (map (\<lambda>i. flatten (virtio_tree i)) [0..<n])
      @ (case fb of None \<Rightarrow> [] | Some d \<Rightarrow> flatten (framebuffer_tree d)) @ [EndNode])"
      using emits_app [OF emits_map [of "[0..<n]", OF emits_virtio] emits_app [OF emits_fb_option [of fb] emits_Cons [OF emits_end_node emits_Nil]]]
      by simp
  qed (rule emits_cong, (rule emit_rules emits_clint emits_plic | simp add: zero_str)+)
qed (cases fb; simp add: soc_tree_def tree_defs comp_def)+

lemma emits_chosen:
  assumes "length (case cmd_line of None \<Rightarrow> [] | Some c \<Rightarrow> c) < 2 ^ 31"
  shows "emits (fdt_chosen k n cmd_line) 400 (flatten (chosen_tree k n cmd_line))"
proof -
  have "length (case cmd_line of None \<Rightarrow> [] | Some c \<Rightarrow> c) + 1 < 2 ^ 32" using assms by simp
  note r = emits_prop_str [OF _ this]
  show ?thesis
    unfolding fdt_chosen_def
    by (cases "n > 0"; simp only: if_True if_False; rule emits_cong)
      (rule emits_app r emit_rules | simp add: zero_str chosen_tree_def tree_defs)+
qed

lemma emits_htif_memory:
  "emits (fdt_memory ram_sz) 400 (concat (map flatten [memory_tree ram_sz, Node (str ''htif'') [prop_str ''compatible'' (str ''ucb,htif0'')] []]))"
  using emits_memory by simp

lemma emits_machine:
  assumes "length (case cmd_line of None \<Rightarrow> [] | Some c \<Rightarrow> c) < 2 ^ 31"
  shows "emits (in_order [
       \<lambda>s. fdt_begin_node s [],
       \<lambda>s. fdt_prop_u32 s (str ''#address-cells'') 2,
       \<lambda>s. fdt_prop_u32 s (str ''#size-cells'') 2,
       \<lambda>s. fdt_prop_str s (str ''compatible'') (str ''ucbbar,riscvemu-bar_dev''),
       \<lambda>s. fdt_prop_str s (str ''model'') (str ''ucbbar,riscvemu-bare''),
       fdt_cpus xlen isa 1,
       fdt_memory ram_sz,
       fdt_soc 1 2 n fb,
       fdt_chosen k ks cmd_line,
       \<lambda>s. fdt_end_node s]) (4000 + 400 * n) (flatten (machine_tree xlen isa ram_sz n fb k ks cmd_line))"
  by (rule emits_cong) (rule emit_rules emits_cpus emits_htif_memory emits_soc emits_chosen assms
      | simp add: zero_str machine_tree_def tree_defs)+

section \<open>The size of the image\<close>

text \<open>An upper bound of the bytes that a token takes in the structure block.\<close>

fun weight :: "fdt_token \<Rightarrow> nat" where
  "weight (BeginNode n) = length n + 8"
| "weight (Prop p d) = length d + 15"
| "weight _ = 4"

lemma read_token_weight:
  assumes "read_token st ws = Some (t, r)"
  shows "4 * length ws \<le> weight t + 4 * length r"
proof -
  have d: "4 * ((n + 3) div 4) \<le> n + 3" "4 * ((n + 4) div 4) \<le> n + 4" for n :: nat by simp_all
  obtain w ws1 where ws: "ws = w # ws1" using assms by (cases ws) (auto simp: read_token_def)
  have "c_strlen bs = length (c_string bs)" for bs by (simp add: c_strlen_def c_string_def)
  then show ?thesis
    using assms d(2) [of "c_strlen (bytes_of ws1)"]
    by (auto simp: read_token_def ws Let_def split: if_splits list.splits)
qed

lemma read_tokens_weight: "read_tokens st ws = Some ts \<Longrightarrow> 4 * length ws \<le> sum_list (map weight ts)"
proof (induction st ws arbitrary: ts rule: read_tokens.induct)
  case (1 st ws)
  show ?case
  proof (cases "ws = []")
    case False
    then obtain t r ts1 where t: "read_token st ws = Some (t, r)" "read_tokens st r = Some ts1" "ts = t # ts1"
      using 1(2) by (subst (asm) read_tokens.simps) (auto split: option.splits)
    then show ?thesis using 1(1) [OF False t(1) refl t(2)] read_token_weight [OF t(1)] by simp
  qed (use 1 in simp)
qed

lemma unit_name_len: "length (unit_name name a) \<le> length name + 17"
  using hex_nat_len [of "unat a" 15] unsigned_less [of a] by (simp add: unit_name_def)

definition tree_weight :: "fdt_node \<Rightarrow> nat" where
  "tree_weight t = sum_list (map weight (flatten t))"

lemma tree_weight_Node:
  "tree_weight (Node n ps cs) = length n + 12 + sum_list (map (\<lambda>(p, d). length d + 15) ps) + sum_list (map tree_weight cs)"
proof -
  have "sum_list (map weight (concat (map flatten cs))) = sum_list (map tree_weight cs)"
    by (induction cs) (simp_all add: tree_weight_def)
  moreover have "weight \<circ> (\<lambda>(p, d). Prop p d) = (\<lambda>(p, d). length d + 15)" by auto
  ultimately show ?thesis by (simp add: tree_weight_def)
qed

lemma length_cells [simp]: "length (cells vs) = 4 * length vs" "length (cells64 us) = 8 * length us"
  by (simp_all add: cells_def cells64_def) (induction us; simp)

lemma isa_string_len: "length (isa_string xlen isa) \<le> 31"
  by (auto simp: isa_string_def intro: order_trans [OF length_filter_le])

lemmas weight_simps = tree_weight_Node tree_defs

lemma weight_cpus: "tree_weight (cpu_tree xlen isa) \<le> 1000"
  using isa_string_len [of xlen isa] unit_name_len [of "str ''cpu''" 0]
  by (auto simp: cpu_tree_def weight_simps)

lemma weight_memory: "tree_weight (memory_tree ram_sz) \<le> 200"
  using unit_name_len [of "str ''memory''" RAM_BASE_ADDR] by (simp add: memory_tree_def weight_simps)

lemma weight_virtio: "tree_weight (virtio_tree i) \<le> 200"
  using unit_name_len [of "str ''virtio''" "VIRTIO_BASE_ADDR + of_nat i * VIRTIO_SIZE"]
  by (simp add: virtio_tree_def weight_simps)

lemma weight_soc: "tree_weight (soc_tree n fb) \<le> 1500 + 200 * n"
proof -
  have "tree_weight (framebuffer_tree d) \<le> 300" for d
    using unit_name_len [of "str ''framebuffer''" FRAMEBUFFER_BASE_ADDR] by (simp add: framebuffer_tree_def weight_simps)
  then have f: "sum_list (map tree_weight (case fb of None \<Rightarrow> [] | Some d \<Rightarrow> [framebuffer_tree d])) \<le> 300"
    by (cases fb) simp_all
  have v: "sum_list (map (tree_weight \<circ> virtio_tree) [0..<n]) \<le> 200 * n"
    using sum_list_mono [of "[0..<n]" "tree_weight \<circ> virtio_tree" "\<lambda>_. 200"] weight_virtio
    by (simp add: sum_list_triv mult.commute comp_def)
  have "tree_weight clint_tree \<le> 200" "tree_weight plic_tree \<le> 300"
    using unit_name_len [of "str ''clint''" CLINT_BASE_ADDR] unit_name_len [of "str ''plic''" PLIC_BASE_ADDR]
    by (simp_all add: clint_tree_def plic_tree_def weight_simps)
  then show ?thesis using v f by (simp add: soc_tree_def weight_simps)
qed

lemma weight_machine:
  assumes "length (case cmd_line of None \<Rightarrow> [] | Some c \<Rightarrow> c) \<le> L"
  shows "tree_weight (machine_tree xlen isa ram_sz n fb k ks cmd_line) \<le> 4000 + 200 * n + L"
proof -
  have "tree_weight (chosen_tree k ks cmd_line) \<le> 300 + L"
    using assms by (simp add: chosen_tree_def weight_simps)
  then show ?thesis
    using weight_cpus [of xlen isa] weight_memory [of ram_sz] weight_soc [of n fb]
    by (simp add: machine_tree_def weight_simps)
qed

section \<open>The image of the machine's tree\<close>

lemma nesting_flatten: "nesting (flatten t) = 0"
proof (induction t rule: flatten.induct)
  case (1 n ps cs)
  have "nesting (map (\<lambda>(p, d). Prop p d) ps) = 0" by (induction ps) auto
  moreover have "nesting (concat (map flatten cs)) = 0" using 1 by (induction cs) auto
  ultimately show ?case by simp
qed

lemma build_fdt:
  assumes "length (case cmd_line of None \<Rightarrow> [] | Some c \<Rightarrow> c) \<le> 30000" "n \<le> 32"
  shows "\<exists>img. riscv_build_fdt xlen isa ram_sz n fb k ks cmd_line = Some img
    \<and> read_fdt img = Some (flatten (machine_tree xlen isa ram_sz n fb k ks cmd_line) @ [EndTree])
    \<and> length img \<le> 0xEFC0"
proof -
  let ?t = "machine_tree xlen isa ram_sz n fb k ks cmd_line"
  have c: "length (case cmd_line of None \<Rightarrow> [] | Some c \<Rightarrow> c) < 2 ^ 31" using assms(1) by simp
  define s where "s = in_order [
       \<lambda>s. fdt_begin_node s [],
       \<lambda>s. fdt_prop_u32 s (str ''#address-cells'') 2,
       \<lambda>s. fdt_prop_u32 s (str ''#size-cells'') 2,
       \<lambda>s. fdt_prop_str s (str ''compatible'') (str ''ucbbar,riscvemu-bar_dev''),
       \<lambda>s. fdt_prop_str s (str ''model'') (str ''ucbbar,riscvemu-bare''),
       fdt_cpus xlen isa 1,
       fdt_memory ram_sz,
       fdt_soc 1 2 n fb,
       fdt_chosen k ks cmd_line,
       \<lambda>s. fdt_end_node s] fdt_init"
  have b: "built (4000 + 400 * n) (flatten ?t) s"
    using emits_machine [OF c, of xlen isa ram_sz n fb k ks] built_init assms(2)
    unfolding emits_def s_def by fastforce
  then have "4 * length (tab s) \<le> tree_weight ?t"
    unfolding tree_weight_def built_def by (intro read_tokens_weight [of "string_table s"]) simp
  then have t: "4 * length (tab s) \<le> 4000 + 200 * n + 30000" using weight_machine [OF assms(1), of xlen isa ram_sz n fb k ks] by simp
  obtain img where "fdt_output s = Some img" "read_fdt img = Some (flatten ?t @ [EndTree])"
      "length img \<le> 4 * length (tab s) + (4000 + 400 * n) + 74"
    using built_output [OF b nesting_flatten] t assms(2) by auto
  then show ?thesis using t assms(2) by (auto simp: riscv_build_fdt_def s_def)
qed

section \<open>Any tree\<close>

text \<open>Building a tree with the operations, and the trees whose names and data the format can hold.\<close>

fun build_node :: "fdt_node \<Rightarrow> fdt_state \<Rightarrow> fdt_state" where
  "build_node (Node n ps cs) = in_order ([\<lambda>s. fdt_begin_node s n] @ map (\<lambda>(p, d) s. fdt_prop s p d) ps
     @ map build_node cs @ [\<lambda>s. fdt_end_node s])"

fun tree_ok :: "fdt_node \<Rightarrow> bool" where
  "tree_ok (Node n ps cs) \<longleftrightarrow> 0 \<notin> set n \<and> (\<forall>(p, d) \<in> set ps. 0 \<notin> set p \<and> length d < 2 ^ 32) \<and> (\<forall>c \<in> set cs. tree_ok c)"

fun name_bytes :: "fdt_node \<Rightarrow> nat" where
  "name_bytes (Node n ps cs) = sum_list (map (\<lambda>(p, d). length p + 1) ps) + sum_list (map name_bytes cs)"

lemma emits_list:
  "(\<And>x. x \<in> set xs \<Longrightarrow> emits (f x) (n x) (t x)) \<Longrightarrow> emits (in_order (map f xs)) (sum_list (map n xs)) (concat (map t xs))"
proof (induction xs)
  case (Cons x xs)
  show ?case using emits_Cons [OF Cons(2) Cons(1)] Cons(2) by simp
qed (simp add: emits_Nil)

lemma emits_build_node: "tree_ok t \<Longrightarrow> emits (build_node t) (name_bytes t) (flatten t)"
proof (induction t rule: build_node.induct)
  case (1 n ps cs)
  have n: "emits (in_order [\<lambda>s. fdt_begin_node s n]) (0 + 0) ([BeginNode n] @ [])"
    using 1(2) by (intro emits_Cons emits_begin_node emits_Nil) simp
  have p: "emits (in_order (map (\<lambda>(p, d) s. fdt_prop s p d) ps)) (sum_list (map (\<lambda>(p, d). length p + 1) ps))
      (concat (map (\<lambda>(p, d). [Prop p d]) ps))"
    using 1(2) emits_prop by (intro emits_list) (auto simp: split_beta)
  have c: "emits (in_order (map build_node cs)) (sum_list (map name_bytes cs)) (concat (map flatten cs))"
    using 1 by (intro emits_list) simp
  have "concat (map (\<lambda>(p, d). [Prop p d]) ps) = map (\<lambda>(p, d). Prop p d) ps"
    by (induction ps) auto
  then show ?case
    using emits_app [OF n emits_app [OF p emits_app [OF c emits_Cons [OF emits_end_node emits_Nil]]]]
    by (simp add: split_beta')
qed

text \<open>C20: Writing any device tree with the builder and reading the image gives the tree back: the image
  has the magic number, the version, the sizes and the aligned offsets of its blocks that the format
  asks for, and its structure block describes exactly the nodes and properties of the tree.\<close>

theorem fdt_roundtrip:
  assumes "tree_ok t" "tree_weight t + name_bytes t < 2 ^ 31"
  shows "\<exists>img. fdt_output (build_node t fdt_init) = Some img \<and> read_fdt img = Some (flatten t @ [EndTree]) \<and> length img mod 8 = 0"
proof -
  have "name_bytes t < 2 ^ 32" using assms(2) by simp
  then have b: "built (name_bytes t) (flatten t) (build_node t fdt_init)"
    using emits_build_node [OF assms(1)] built_init unfolding emits_def by fastforce
  then have "4 * length (tab (build_node t fdt_init)) \<le> tree_weight t"
    unfolding tree_weight_def built_def by (intro read_tokens_weight [of "string_table (build_node t fdt_init)"]) simp
  then show ?thesis using built_output [OF b nesting_flatten] assms(2) by auto
qed

theorem fdt_roundtrip_witness:
  "\<exists>img. fdt_output (build_node (Node [] [([97], [1, 2, 3])] [Node [98] [([97], [])] []]) fdt_init) = Some img
    \<and> read_fdt img = Some [BeginNode [], Prop [97] [1, 2, 3], BeginNode [98], Prop [97] [], EndNode, EndNode, EndTree]"
  using fdt_roundtrip [of "Node [] [([97], [1, 2, 3])] [Node [98] [([97], [])] []]"]
  by (auto simp: tree_weight_def)

end
