(* ===== verification/BootSpec.thy ===== *)
theory BootSpec
  imports DeviceTree RamAccess
begin

text \<open>
  The machine that \<open>riscv_machine_init\<close> builds: its memory map is well formed and is the one its
  device tree describes, the images are in RAM, and the boot code jumps to them with the hart
  number and the address of the device tree.
\<close>

section \<open>Registration\<close>

definition device_range :: "u64 \<Rightarrow> u64 \<Rightarrow> nat \<Rightarrow> u32 \<Rightarrow> phys_mem_range" where
  "device_range addr sz op flags = zero_range\<lparr>pr_addr := addr, pr_org_size := sz,
     pr_size := sz, pr_is_ram := False, pr_opaque := op, pr_devio_flags := flags\<rparr>"

definition ram_range :: "u64 \<Rightarrow> u64 \<Rightarrow> u64 \<Rightarrow> phys_mem_range" where
  "ram_range ptr addr sz = zero_range\<lparr>pr_is_ram := True, pr_addr := addr, pr_org_size := sz, pr_size := sz, pr_phys_mem := ptr\<rparr>"

definition tracked_range :: "u64 \<Rightarrow> u64 \<Rightarrow> u64 \<Rightarrow> phys_mem_range" where
  "tracked_range ptr addr sz = zero_range\<lparr>pr_is_ram := True, pr_devram_flags := DEVRAM_FLAG_DIRTY_BITS,
     pr_addr := addr, pr_org_size := sz, pr_size := sz, pr_phys_mem := ptr,
     pr_dirty_bits_size := (unat (drop_bit DEVRAM_PAGE_SIZE_LOG2 sz) + 31) div 32 * 4, pr_dirty_bits := True,
     pr_dirty_bits_tab := (\<lambda>_. replicate ((unat (drop_bit DEVRAM_PAGE_SIZE_LOG2 sz) + 31) div 32) 0)\<rparr>"

lemma register_device_eq:
  assumes "length m < 32" "sz \<le> 0xffffffff" "flags AND DEVIO_DISABLED = 0"
  shows "register_device (m, h) addr sz op flags = Some (m @ [device_range addr sz op flags], h)"
  using assms by (simp add: register_device_def cpu_register_device_def device_range_def PHYS_MEM_RANGE_MAX_def)

lemma register_ram_eq:
  assumes "length m < 32" "sz AND PG_MASK = 0" "sz \<noteq> 0" "ptr \<noteq> 0"
  shows "cpu_register_ram (m, h) ptr addr sz 0 = Some (m @ [ram_range ptr addr sz], host_zero h ptr sz)"
proof -
  have "DEVRAM_PAGE_SIZE - 1 = (PG_MASK :: u64)" by (simp add: iomem_consts)
  then show ?thesis
    using assms
    by (simp add: cpu_register_ram_def default_register_ram_def register_ram_entry_def ram_range_def iomem_consts Let_def zero_range_def)
qed

lemma register_tracked_eq:
  assumes "length m < 32" "sz AND PG_MASK = 0" "sz \<noteq> 0" "ptr \<noteq> 0"
  shows "cpu_register_ram (m, h) ptr addr sz DEVRAM_FLAG_DIRTY_BITS = Some (m @ [tracked_range ptr addr sz], host_zero h ptr sz)"
proof -
  have "DEVRAM_PAGE_SIZE - 1 = (PG_MASK :: u64)" by (simp add: iomem_consts)
  then show ?thesis
    using assms
    by (simp add: cpu_register_ram_def default_register_ram_def register_ram_entry_def tracked_range_def iomem_consts Let_def zero_range_def)
qed

definition virtio_range :: "nat \<Rightarrow> phys_mem_range" where
  "virtio_range i = device_range (VIRTIO_BASE_ADDR + of_nat i * VIRTIO_SIZE) VIRTIO_PAGE_SIZE (VIRTIO_ID + i)
     (DEVIO_SIZE8 OR DEVIO_SIZE16 OR DEVIO_SIZE32)"

lemma register_virtio_eq:
  "length m + n \<le> 32 \<Longrightarrow> register_virtio (m, h) i n = Some (m @ map virtio_range [i..<i + n], h)"
proof (induction n arbitrary: m i)
  case (Suc n)
  have "register_device (m, h) (VIRTIO_BASE_ADDR + of_nat i * VIRTIO_SIZE) VIRTIO_PAGE_SIZE (VIRTIO_ID + i)
      (DEVIO_SIZE8 OR DEVIO_SIZE16 OR DEVIO_SIZE32) = Some (m @ [virtio_range i], h)"
    using Suc.prems unfolding virtio_range_def
    by (intro register_device_eq) (simp_all add: VIRTIO_PAGE_SIZE_def iomem_consts)
  then show ?case using Suc by (simp add: upt_conv_Cons del: upt_Suc)
qed simp

section \<open>The memory map\<close>

definition base_ranges :: "machine_params \<Rightarrow> (nat \<Rightarrow> u64) \<Rightarrow> phys_mem_map" where
  "base_ranges p alloc = [ram_range (alloc 0) RAM_BASE_ADDR (p_ram_size p), ram_range (alloc 1) 0 LOW_RAM_SIZE,
     device_range CLINT_BASE_ADDR CLINT_SIZE CLINT_ID DEVIO_SIZE32, device_range PLIC_BASE_ADDR PLIC_SIZE PLIC_ID DEVIO_SIZE32,
     device_range HTIF_BASE_ADDR 16 HTIF_ID DEVIO_SIZE32]"

definition machine_fb :: "machine_params \<Rightarrow> fb_device option" where
  "machine_fb p = (if display_device p = None then None else Some (simplefb_device (p_width p) (p_height p)))"

definition all_virtio :: "machine_params \<Rightarrow> nat" where
  "all_virtio p = virtio_devices p + (if input_device p = None then 0 else 2)"

definition machine_map :: "machine_params \<Rightarrow> (nat \<Rightarrow> u64) \<Rightarrow> phys_mem_map" where
  "machine_map p alloc = base_ranges p alloc @ map virtio_range [0..<virtio_devices p]
     @ (case machine_fb p of None \<Rightarrow> [] | Some fb \<Rightarrow> [tracked_range (alloc 2) FRAMEBUFFER_BASE_ADDR (scast (fb_size fb))])
     @ map virtio_range [virtio_devices p..<all_virtio p]"

text \<open>What the construction needs: a RAM of whole pages, a frame buffer that fits below it, devices
  that exist and fit in the table, and host memory that does not overlap.\<close>

definition params_ok :: "machine_params \<Rightarrow> bool" where
  "params_ok p \<longleftrightarrow> machine_name p = str ''riscv64''
     \<and> p_ram_size p AND PG_MASK = 0 \<and> p_ram_size p \<noteq> 0 \<and> p_ram_size p \<le> 0x7fffffffffff
     \<and> all_virtio p \<le> 26
     \<and> (display_device p = None \<or> display_device p = Some (str ''simplefb'')
          \<and> 0 < fb_size (simplefb_device (p_width p) (p_height p)) \<and> fb_size (simplefb_device (p_width p) (p_height p)) \<le> 0x3f000000)
     \<and> (input_device p = None \<or> input_device p = Some (str ''virtio''))"

definition host_block :: "u64 \<Rightarrow> u64 \<Rightarrow> bool" where
  "host_block a n \<longleftrightarrow> a \<noteq> 0 \<and> a \<le> a + n"

definition apart :: "u64 \<Rightarrow> u64 \<Rightarrow> u64 \<Rightarrow> u64 \<Rightarrow> bool" where
  "apart a n b k \<longleftrightarrow> a + n \<le> b \<or> b + k \<le> a"

definition fb_bytes :: "machine_params \<Rightarrow> u64" where
  "fb_bytes p = scast (fb_size (simplefb_device (p_width p) (p_height p)))"

definition alloc_ok :: "machine_params \<Rightarrow> (nat \<Rightarrow> u64) \<Rightarrow> bool" where
  "alloc_ok p alloc \<longleftrightarrow> host_block (alloc 0) (p_ram_size p) \<and> host_block (alloc 1) LOW_RAM_SIZE \<and> host_block (alloc 2) (fb_bytes p)
     \<and> apart (alloc 0) (p_ram_size p) (alloc 1) LOW_RAM_SIZE \<and> apart (alloc 0) (p_ram_size p) (alloc 2) (fb_bytes p)
     \<and> apart (alloc 1) LOW_RAM_SIZE (alloc 2) (fb_bytes p)"

lemma fb_size_page: "(scast (fb_size (simplefb_device w h)) :: u64) AND PG_MASK = 0"
proof -
  have "FB_ALLOC_ALIGN - 1 = (mask 16 :: u32)" by (simp add: FB_ALLOC_ALIGN_def mask_eq_exp_minus_1)
  then have f: "fb_size (simplefb_device w h) = (h * (w * 4) + FB_ALLOC_ALIGN - 1) AND NOT (mask 16)"
    by (simp add: simplefb_device_def)
  show ?thesis
    unfolding f PG_MASK_mask by (rule bit_word_eqI) (auto simp: bit_simps)
qed

text \<open>The host memory behind the ranges is zeroed.\<close>

definition machine_host :: "machine_params \<Rightarrow> (nat \<Rightarrow> u64) \<Rightarrow> host_mem \<Rightarrow> host_mem" where
  "machine_host p alloc h =
     (let h1 = host_zero (host_zero h (alloc 0) (p_ram_size p)) (alloc 1) LOW_RAM_SIZE
      in if display_device p = None then h1 else host_zero h1 (alloc 2) (fb_bytes p))"

lemma init_memory_map_eq:
  assumes p: "params_ok p" and a: "alloc_ok p alloc"
  shows "init_memory_map p alloc h = Some (machine_map p alloc, machine_host p alloc h, machine_fb p, all_virtio p)"
proof -
  have n: "virtio_devices p \<le> 26" "all_virtio p \<le> 26" "all_virtio p \<ge> virtio_devices p"
    using p by (auto simp: params_ok_def all_virtio_def)
  have h: "alloc 0 \<noteq> 0" "alloc 1 \<noteq> 0" "alloc 2 \<noteq> 0" using a by (simp_all add: alloc_ok_def host_block_def)
  have z: "LOW_RAM_SIZE AND PG_MASK = 0" "LOW_RAM_SIZE \<noteq> 0" by (simp_all add: LOW_RAM_SIZE_def)
  have r: "p_ram_size p AND PG_MASK = 0" "p_ram_size p \<noteq> 0" using p by (simp_all add: params_ok_def)
  have s: "CLINT_SIZE \<le> 0xffffffff" "PLIC_SIZE \<le> 0xffffffff" "DEVIO_SIZE32 AND DEVIO_DISABLED = 0"
    by (simp_all add: machine_consts iomem_consts)
  let ?m6 = "base_ranges p alloc @ map virtio_range [0..<virtio_devices p]"
  let ?h2 = "host_zero (host_zero h (alloc 0) (p_ram_size p)) (alloc 1) LOW_RAM_SIZE"
  have m6: "register_virtio (base_ranges p alloc, ?h2) 0 (virtio_devices p) = Some (?m6, ?h2)"
    using n(1) register_virtio_eq [of "base_ranges p alloc" "virtio_devices p" ?h2 0] by (simp add: base_ranges_def)
  let ?m7 = "?m6 @ (case machine_fb p of None \<Rightarrow> [] | Some fb \<Rightarrow> [tracked_range (alloc 2) FRAMEBUFFER_BASE_ADDR (scast (fb_size fb))])"
  have m7: "(case display_device p of None \<Rightarrow> Some ((?m6, ?h2), None)
      | Some d \<Rightarrow> if d = str ''simplefb'' then
           let fb = simplefb_device (p_width p) (p_height p)
           in map_option (\<lambda>m. (m, Some fb)) (cpu_register_ram (?m6, ?h2) (alloc 2) FRAMEBUFFER_BASE_ADDR (scast (fb_size fb)) DEVRAM_FLAG_DIRTY_BITS)
         else None) = Some ((?m7, machine_host p alloc h), machine_fb p)"
  proof (cases "display_device p")
    case None
    then show ?thesis by (simp add: machine_fb_def machine_host_def Let_def)
  next
    case (Some d)
    have sz: "fb_size (simplefb_device (p_width p) (p_height p)) \<noteq> 0" using p Some by (auto simp: params_ok_def)
    have "(scast (fb_size (simplefb_device (p_width p) (p_height p))) :: u64) \<noteq> 0"
    proof -
      have "(ucast (scast w :: u64) :: u32) = w" for w :: u32 by (rule bit_word_eqI) (auto simp: bit_simps)
      then show ?thesis using sz by (metis unsigned_0)
    qed
    from register_tracked_eq [OF _ fb_size_page this h(3), of ?m6 ?h2 FRAMEBUFFER_BASE_ADDR] n p Some show ?thesis
      by (simp add: machine_fb_def machine_host_def Let_def fb_bytes_def params_ok_def base_ranges_def)
  qed
  have m8: "(case input_device p of None \<Rightarrow> Some ((?m7, machine_host p alloc h), virtio_devices p)
      | Some d \<Rightarrow> if d = str ''virtio'' then map_option (\<lambda>m. (m, virtio_devices p + 2)) (register_virtio (?m7, machine_host p alloc h) (virtio_devices p) 2)
         else None) = Some ((machine_map p alloc, machine_host p alloc h), all_virtio p)"
  proof (cases "input_device p")
    case None
    then show ?thesis by (simp add: machine_map_def all_virtio_def)
  next
    case (Some d)
    then have "length ?m7 + 2 \<le> 32" using n by (cases "machine_fb p") (simp_all add: base_ranges_def all_virtio_def)
    from register_virtio_eq [OF this, of "machine_host p alloc h" "virtio_devices p"] Some p show ?thesis
      by (simp add: machine_map_def all_virtio_def params_ok_def)
  qed
  let ?r0 = "ram_range (alloc 0) RAM_BASE_ADDR (p_ram_size p)" and ?r1 = "ram_range (alloc 1) 0 LOW_RAM_SIZE"
    and ?c = "device_range CLINT_BASE_ADDR CLINT_SIZE CLINT_ID DEVIO_SIZE32"
    and ?i = "device_range PLIC_BASE_ADDR PLIC_SIZE PLIC_ID DEVIO_SIZE32"
  have r0: "cpu_register_ram (phys_mem_map_init, h) (alloc 0) RAM_BASE_ADDR (p_ram_size p) 0 = Some ([?r0], host_zero h (alloc 0) (p_ram_size p))"
    using register_ram_eq [of "[]" "p_ram_size p" "alloc 0" h RAM_BASE_ADDR] r h by (simp add: phys_mem_map_init_def)
  have r1: "cpu_register_ram ([?r0], host_zero h (alloc 0) (p_ram_size p)) (alloc 1) 0x00000000 LOW_RAM_SIZE 0 = Some ([?r0, ?r1], ?h2)"
    using register_ram_eq [of "[?r0]" LOW_RAM_SIZE "alloc 1"] z h by simp
  have d2: "register_device ([?r0, ?r1], ?h2) CLINT_BASE_ADDR CLINT_SIZE CLINT_ID DEVIO_SIZE32 = Some ([?r0, ?r1, ?c], ?h2)"
    using s register_device_eq [of "[?r0, ?r1]"] by simp
  have d3: "register_device ([?r0, ?r1, ?c], ?h2) PLIC_BASE_ADDR PLIC_SIZE PLIC_ID DEVIO_SIZE32 = Some ([?r0, ?r1, ?c, ?i], ?h2)"
    using s register_device_eq [of "[?r0, ?r1, ?c]"] by simp
  have d4: "register_device ([?r0, ?r1, ?c, ?i], ?h2) HTIF_BASE_ADDR 16 HTIF_ID DEVIO_SIZE32 = Some (base_ranges p alloc, ?h2)"
    using s register_device_eq [of "[?r0, ?r1, ?c, ?i]"] by (simp add: base_ranges_def)
  show ?thesis
    by (simp only: init_memory_map_def r0 r1 d2 d3 d4 m6 m7 m8 option.case prod.case)
qed

section \<open>The map is well formed\<close>

definition separate :: "phys_mem_range \<Rightarrow> phys_mem_range \<Rightarrow> bool" where
  "separate p q \<longleftrightarrow> disjoint_ranges p q \<and> (pr_is_ram p \<and> pr_is_ram q \<longrightarrow> disjoint_hosts p q)"

lemma separate_sym: "separate p q \<Longrightarrow> separate q p"
  by (auto simp: separate_def disjoint_ranges_def disjoint_hosts_def)

lemma mem_map_okI:
  assumes "\<And>pr. pr \<in> set m \<Longrightarrow> range_ok pr" "sorted_wrt separate m"
  shows "mem_map_ok m"
proof -
  have "separate (m ! i) (m ! j)" if "i < length m" "j < length m" "i \<noteq> j" for i j
    using that assms(2) separate_sym by (cases "i < j") (auto simp: sorted_wrt_iff_nth_less)
  then show ?thesis using assms(1) by (simp add: mem_map_ok_def separate_def)
qed

text \<open>The first address of a range and the one after it, without wrap-around.\<close>

definition spans :: "phys_mem_range \<Rightarrow> nat \<Rightarrow> nat \<Rightarrow> bool" where
  "spans pr lo hi \<longleftrightarrow> unat (pr_addr pr) = lo \<and> unat (pr_addr pr) + unat (pr_size pr) = hi \<and> hi < 2 ^ 64"

lemma spans_disjoint: "spans p a b \<Longrightarrow> spans q c d \<Longrightarrow> b \<le> c \<or> d \<le> a \<Longrightarrow> disjoint_ranges p q"
  by (auto simp: spans_def disjoint_ranges_def word_le_nat_alt unat_add_small)

lemma spans_range: "spans p a b \<Longrightarrow> pr_addr p \<le> pr_addr p + pr_size p"
  by (simp add: spans_def word_le_nat_alt unat_add_small)

lemma device_range_fields [simp]:
  "pr_addr (device_range a n op fl) = a" "pr_size (device_range a n op fl) = n" "pr_org_size (device_range a n op fl) = n"
  "\<not> pr_is_ram (device_range a n op fl)" "pr_opaque (device_range a n op fl) = op" "pr_devio_flags (device_range a n op fl) = fl"
  by (simp_all add: device_range_def)

lemma ram_range_fields [simp]:
  "pr_addr (ram_range h a n) = a" "pr_size (ram_range h a n) = n" "pr_org_size (ram_range h a n) = n"
  "pr_is_ram (ram_range h a n)" "pr_phys_mem (ram_range h a n) = h" "\<not> pr_dirty_bits (ram_range h a n)"
  by (simp_all add: ram_range_def zero_range_def)

lemma tracked_range_fields [simp]:
  "pr_addr (tracked_range h a n) = a" "pr_size (tracked_range h a n) = n" "pr_org_size (tracked_range h a n) = n"
  "pr_is_ram (tracked_range h a n)" "pr_phys_mem (tracked_range h a n) = h" "pr_dirty_bits (tracked_range h a n)"
  by (simp_all add: tracked_range_def)

lemma spans_virtio:
  assumes "i \<le> 200"
  shows "spans (virtio_range i) (0x40010000 + i * 0x1000) (0x40011000 + i * 0x1000)"
proof -
  have "(VIRTIO_BASE_ADDR + of_nat i * VIRTIO_SIZE :: u64) = of_nat (0x40010000 + i * 0x1000)"
    by (simp add: machine_consts)
  then have "unat (VIRTIO_BASE_ADDR + of_nat i * VIRTIO_SIZE :: u64) = (0x40010000 + i * 0x1000)"
    using assms by (simp only: unat_of_nat) simp
  then show ?thesis using assms by (simp add: spans_def virtio_range_def VIRTIO_PAGE_SIZE_def)
qed

lemma spans_base:
  "spans (ram_range (alloc 0) RAM_BASE_ADDR sz) 0x80000000 (0x80000000 + unat sz) \<longleftrightarrow> 0x80000000 + unat sz < 2 ^ 64"
  "spans (ram_range (alloc 1) 0 LOW_RAM_SIZE) 0 0x10000"
  "spans (device_range CLINT_BASE_ADDR CLINT_SIZE CLINT_ID DEVIO_SIZE32) 0x02000000 0x020c0000"
  "spans (device_range PLIC_BASE_ADDR PLIC_SIZE PLIC_ID DEVIO_SIZE32) 0x40100000 0x40500000"
  "spans (device_range HTIF_BASE_ADDR 16 HTIF_ID DEVIO_SIZE32) 0x40008000 0x40008010"
  by (simp_all add: spans_def machine_consts)

lemma separate_spans: "spans p a b \<Longrightarrow> spans q c d \<Longrightarrow> b \<le> c \<or> d \<le> a \<Longrightarrow> \<not> (pr_is_ram p \<and> pr_is_ram q) \<Longrightarrow> separate p q"
  using spans_disjoint by (auto simp: separate_def)

lemma separate_ram:
  "spans p a b \<Longrightarrow> spans q c d \<Longrightarrow> b \<le> c \<or> d \<le> a \<Longrightarrow> disjoint_hosts p q \<Longrightarrow> separate p q"
  by (simp add: separate_def spans_disjoint)

lemma fb_bytes_nat:
  assumes "fb_size (simplefb_device (p_width p) (p_height p)) \<le> 0x3f000000"
  shows "unat (fb_bytes p) \<le> 0x3f000000" "fb_bytes p AND PG_MASK = 0"
proof -
  define w where "w = fb_size (simplefb_device (p_width p) (p_height p))"
  have u: "unat w \<le> 0x3f000000" using assms by (simp add: word_le_nat_alt w_def)
  have "\<not> bit w 31"
  proof -
    have "unat (drop_bit 31 w) = unat (0 :: u32)" using u by (simp add: unat_drop_bit)
    then have "drop_bit 31 w = 0" by (simp only: word_unat_eq_iff)
    then show ?thesis by (simp add: bit_iff_odd_drop_bit)
  qed
  then have "(scast w :: u64) = ucast w"
  proof (intro bit_word_eqI)
    fix n assume nb: "\<not> bit w 31" and "n < LENGTH(64)"
    have "\<not> bit w n" if "31 \<le> n" using nb that bit_imp_le_length [of w n] by (cases "n = 31") auto
    then show "bit (scast w :: u64) n = bit (ucast w :: u64) n" using nb by (auto simp: bit_simps min_def)
  qed
  then have "unat (scast w :: u64) = unat w" using u by (simp add: unsigned_ucast_eq take_bit_nat_eq_self)
  then show "unat (fb_bytes p) \<le> 0x3f000000" using u by (simp add: fb_bytes_def w_def)
qed (simp add: fb_bytes_def fb_size_page [simplified])

lemma machine_map_ok:
  assumes p: "params_ok p" and a: "alloc_ok p alloc"
  shows "mem_map_ok (machine_map p alloc)"
proof -
  define fbs where "fbs = (case machine_fb p of None \<Rightarrow> [] | Some fb \<Rightarrow> [tracked_range (alloc 2) FRAMEBUFFER_BASE_ADDR (scast (fb_size fb))])"
  have m: "machine_map p alloc = base_ranges p alloc @ map virtio_range [0..<virtio_devices p] @ fbs @ map virtio_range [virtio_devices p..<all_virtio p]"
    by (simp add: machine_map_def fbs_def)
  have n: "virtio_devices p \<le> 26" "all_virtio p \<le> 26" using p by (auto simp: params_ok_def all_virtio_def)
  have "unat (p_ram_size p) \<le> unat (0x7fffffffffff :: u64)" using p by (simp add: params_ok_def word_le_nat_alt)
  then have r0: "spans (ram_range (alloc 0) RAM_BASE_ADDR (p_ram_size p)) 0x80000000 (0x80000000 + unat (p_ram_size p))"
    by (simp add: spans_base)
  have f: "spans q 0x41000000 (0x41000000 + unat (fb_bytes p)) \<and> unat (fb_bytes p) \<le> 0x3f000000 \<and> pr_is_ram q
      \<and> pr_size q AND PG_MASK = 0 \<and> pr_phys_mem q = alloc 2 \<and> pr_size q = fb_bytes p"
    if "q \<in> set fbs" for q
  proof -
    from that have d: "machine_fb p = Some (simplefb_device (p_width p) (p_height p))" "q = tracked_range (alloc 2) FRAMEBUFFER_BASE_ADDR (fb_bytes p)"
      by (auto simp: fbs_def machine_fb_def fb_bytes_def split: option.splits if_splits)
    have "fb_size (simplefb_device (p_width p) (p_height p)) \<le> 0x3f000000"
      using d(1) p by (auto simp: params_ok_def machine_fb_def split: if_splits)
    note x = fb_bytes_nat [OF this]
    then show ?thesis by (simp add: d(2) spans_def FRAMEBUFFER_BASE_ADDR_def)
  qed
  have v: "spans (virtio_range i) (0x40010000 + i * 0x1000) (0x40011000 + i * 0x1000)" "\<not> pr_is_ram (virtio_range i)" if "i < 26" for i
    using that spans_virtio by (simp_all add: virtio_range_def)
  note host = a [unfolded alloc_ok_def host_block_def apart_def]
  have ok: "range_ok q" if "q \<in> set (machine_map p alloc)" for q
  proof -
    have "q \<in> set (base_ranges p alloc) \<or> q \<in> virtio_range ` {0..<26} \<or> q \<in> set fbs"
    proof -
      have "q \<in> virtio_range ` {0..<26}"
        if "q \<in> virtio_range ` {0..<virtio_devices p} \<or> q \<in> virtio_range ` {virtio_devices p..<all_virtio p}"
        using that n by auto
      then show ?thesis using that unfolding m by auto
    qed
    then consider "q \<in> set (base_ranges p alloc)" | i where "q = virtio_range i" "i < 26" | "q \<in> set fbs" by force
    then show ?thesis
    proof cases
      case 1
      have "range_ok (ram_range (alloc 0) RAM_BASE_ADDR (p_ram_size p))" "range_ok (ram_range (alloc 1) 0 LOW_RAM_SIZE)"
        using spans_range [OF r0] spans_range [OF spans_base(2)] host p
        by (simp_all add: range_ok_def params_ok_def machine_consts)
      moreover have "range_ok (device_range CLINT_BASE_ADDR CLINT_SIZE CLINT_ID DEVIO_SIZE32)"
        "range_ok (device_range PLIC_BASE_ADDR PLIC_SIZE PLIC_ID DEVIO_SIZE32)"
        "range_ok (device_range HTIF_BASE_ADDR 16 HTIF_ID DEVIO_SIZE32)"
        using spans_range [OF spans_base(3)] spans_range [OF spans_base(4)] spans_range [OF spans_base(5)]
        by (simp_all add: range_ok_def)
      ultimately show ?thesis using 1 by (auto simp: base_ranges_def)
    next
      case (2 i)
      then show ?thesis using spans_range [OF v(1)] v(2) by (simp add: range_ok_def)
    next
      case 3
      from f [OF this] have q: "spans q 0x41000000 (0x41000000 + unat (fb_bytes p))" "pr_size q AND PG_MASK = 0"
        "pr_phys_mem q = alloc 2" "pr_size q = fb_bytes p" by auto
      have "pr_addr q = 0x41000000"
        using 3 by (auto simp: fbs_def FRAMEBUFFER_BASE_ADDR_def split: option.splits)
      then show ?thesis using spans_range [OF q(1)] q host by (simp add: range_ok_def)
    qed
  qed
  let ?r0 = "ram_range (alloc 0) RAM_BASE_ADDR (p_ram_size p)" and ?r1 = "ram_range (alloc 1) 0 LOW_RAM_SIZE"
  have s1: "separate ?r0 ?r1"
    using host by (intro separate_ram [OF r0 spans_base(2)]) (auto simp: disjoint_hosts_def)
  have base: "sorted_wrt separate (base_ranges p alloc)"
    unfolding base_ranges_def
    by (simp add: s1 separate_spans [OF r0 spans_base(3)] separate_spans [OF r0 spans_base(4)] separate_spans [OF r0 spans_base(5)]
        separate_spans [OF spans_base(2) spans_base(3)] separate_spans [OF spans_base(2) spans_base(4)]
        separate_spans [OF spans_base(2) spans_base(5)] separate_spans [OF spans_base(3) spans_base(4)]
        separate_spans [OF spans_base(3) spans_base(5)] separate_spans [OF spans_base(4) spans_base(5)]
        del: One_nat_def)
  have bv: "separate q (virtio_range i)" if "q \<in> set (base_ranges p alloc)" "i < 26" for q i
  proof -
    have "0x40011000 + i * 0x1000 \<le> (0x40100000 :: nat)" using that(2) by simp
    then show ?thesis
      using that(1) v(2) [OF that(2)] separate_spans [OF r0 v(1) [OF that(2)]] separate_spans [OF spans_base(2) v(1) [OF that(2)]]
        separate_spans [OF spans_base(3) v(1) [OF that(2)]] separate_spans [OF spans_base(4) v(1) [OF that(2)]]
        separate_spans [OF spans_base(5) v(1) [OF that(2)]]
      by (auto simp: base_ranges_def simp del: One_nat_def)
  qed
  have bf: "separate q g" if "q \<in> set (base_ranges p alloc)" "g \<in> set fbs" for q g
  proof -
    note g = f [OF that(2)]
    have h: "disjoint_hosts ?r0 g" "disjoint_hosts ?r1 g" using g host by (auto simp: disjoint_hosts_def)
    show ?thesis
      using that(1) g separate_ram [OF r0 _ _ h(1)] separate_ram [OF spans_base(2) [of alloc] _ _ h(2)]
        separate_spans [OF spans_base(3)] separate_spans [OF spans_base(4)] separate_spans [OF spans_base(5)]
      by (auto simp: base_ranges_def simp del: One_nat_def)
  qed
  have fv: "separate g (virtio_range i)" if "g \<in> set fbs" "i < 26" for g i
    using separate_spans [OF conjunct1 [OF f [OF that(1)]] v(1) [OF that(2)]] v(2) [OF that(2)] that(2) by simp
  have vv: "sorted_wrt (\<lambda>i j. separate (virtio_range i) (virtio_range j)) [a..<b]" if "b \<le> 26" for a b
  proof (rule sorted_wrt_mono_rel [of _ "(<)"])
    fix i j assume "i \<in> set [a..<b]" "j \<in> set [a..<b]" "i < j"
    then show "separate (virtio_range i) (virtio_range j)"
      using that v(2) [of i] by (intro separate_spans [OF v(1) v(1)]) auto
  qed (rule sorted_wrt_upt)
  have ff: "sorted_wrt separate fbs" by (simp add: fbs_def split: option.split)
  have vf: "separate (virtio_range i) g" if "g \<in> set fbs" "i < 26" for g i
    using fv [OF that] by (rule separate_sym)
  have vw: "separate (virtio_range i) (virtio_range j)" if "i < j" "j < 26" for i j
    using that v(2) [of i] by (intro separate_spans [OF v(1) v(1)]) auto
  have "sorted_wrt separate (machine_map p alloc)"
    unfolding m using base bv bf fv vv n ff vf vw
    by (auto simp: sorted_wrt_append sorted_wrt_map)
  then show ?thesis by (intro mem_map_okI ok)
qed

section \<open>The contents of the RAM\<close>

text \<open>Distances: an address outside a block is outside every part of it.\<close>

lemma outside_part:
  fixes x q :: u64
  assumes "k \<le> unat (x - q)" "c + l \<le> k" "k < 2 ^ 64"
  shows "l \<le> unat (x - (q + of_nat c))"
proof (rule ccontr)
  assume "\<not> l \<le> unat (x - (q + of_nat c))"
  then have y: "unat (x - (q + of_nat c)) < l" by simp
  have c: "unat (of_nat c :: u64) = c" using assms(2,3) by (simp add: unat_of_nat)
  have "x - q = (x - (q + of_nat c)) + of_nat c" by simp
  moreover have "unat (x - (q + of_nat c)) + unat (of_nat c :: u64) < 2 ^ LENGTH(64)" using y c assms(2,3) by simp
  ultimately have "unat (x - q) = unat (x - (q + of_nat c)) + c" using unat_add_small c by metis
  then show False using y assms(1,2) by simp
qed

lemma block_apart:
  assumes "apart p n q k" "p \<le> p + n" "q \<le> q + k" "unat (x - p) < unat n"
  shows "unat k \<le> unat (x - q)"
proof -
  have e: "unat (p + n) = unat p + unat n" "unat (q + k) = unat q + unat k" using assms(2,3) by (simp_all add: unat_end)
  have n: "unat p + unat n < 2 ^ 64" using assms(2) by (simp add: no_olen_add_nat)
  have "unat x = unat p + unat (x - p)"
    using unat_add_small [of p "x - p"] n assms(4) by simp
  then have x: "unat p \<le> unat x" "unat x < unat p + unat n" using assms(4) by simp_all
  show ?thesis
  proof (cases "q + k \<le> p")
    case True
    then have "unat q + unat k \<le> unat x" using x e by (simp add: word_le_nat_alt)
    then show ?thesis using unat_diff_small [of q x] by simp
  next
    case False
    then have "p + n \<le> q" using assms(1) by (simp add: apart_def)
    then have "unat x < unat q" using x e by (simp add: word_le_nat_alt)
    then have "unat (x - q) = unat x + 2 ^ 64 - unat q" by (simp add: unat_sub_if')
    moreover have "unat q + unat k < 2 ^ 64" using assms(3) by (simp add: no_olen_add_nat)
    ultimately show ?thesis by linarith
  qed
qed

text \<open>The kernel starts at the first aligned address after the BIOS.\<close>

lemma kernel_base_bounds:
  assumes "length bs < 2 ^ 31" "ks \<noteq> []"
  shows "length bs \<le> unat (kernel_base 64 bs ks)" "unat (kernel_base 64 bs ks) < length bs + 2 ^ 21"
    "kernel_base 64 bs ks AND mask 21 = 0"
proof -
  define v :: u32 where "v = of_nat (length bs) + 2 ^ 21 - 1"
  have m: "(2 ^ 21 - 1 :: u32) = mask 21" by (simp add: mask_eq_exp_minus_1)
  have "kernel_base 64 bs ks = v AND NOT (mask 21)"
    using assms(2) by (simp add: kernel_base_def v_def flip: m)
  moreover have "v AND NOT (mask 21) = push_bit 21 (drop_bit 21 v)" by (rule bit_word_eqI) (auto simp: bit_simps)
  ultimately have k: "kernel_base 64 bs ks = push_bit 21 (drop_bit 21 v)" by simp
  have "of_nat (length bs) + 2 ^ 21 - 1 = (of_nat (length bs + 2 ^ 21 - 1) :: u32)" by (simp add: of_nat_diff)
  then have v: "unat v = length bs + 2 ^ 21 - 1" using assms(1) unfolding v_def by (simp only: unat_of_nat) simp
  then have "unat (drop_bit 21 v) * 2 ^ 21 < 2 ^ LENGTH(32)"
    using div_times_less_eq_dividend [of "unat v" "2 ^ 21"] assms(1) by (simp add: unat_drop_bit)
  then have u: "unat (kernel_base 64 bs ks) = (length bs + 2 ^ 21 - 1) div 2 ^ 21 * 2 ^ 21"
    unfolding k by (subst unat_push_bit_small) (simp_all add: unat_drop_bit v)
  have "(length bs + 2 ^ 21 - 1) div 2 ^ 21 * 2 ^ 21 = length bs + 2 ^ 21 - 1 - (length bs + 2 ^ 21 - 1) mod 2 ^ 21"
    by (simp add: minus_mod_eq_div_mult)
  moreover have "(length bs + 2 ^ 21 - 1) mod 2 ^ 21 < 2 ^ 21" by simp
  ultimately show "length bs \<le> unat (kernel_base 64 bs ks)" "unat (kernel_base 64 bs ks) < length bs + 2 ^ 21"
    unfolding u by linarith+
  show "kernel_base 64 bs ks AND mask 21 = 0" unfolding k by (rule bit_word_eqI) (auto simp: bit_simps)
qed

section \<open>The machine after its construction\<close>

definition images_ok :: "machine_params \<Rightarrow> bool" where
  "images_ok p \<longleftrightarrow> length (bios p) < 2 ^ 31 \<and> length (bios p) \<le> unat (p_ram_size p) \<and> length (kernel p) < 2 ^ 31
     \<and> (kernel p \<noteq> [] \<longrightarrow> unat (kernel_base 64 (bios p) (kernel p)) + length (kernel p) \<le> unat (p_ram_size p))
     \<and> length (case cmdline p of None \<Rightarrow> [] | Some c \<Rightarrow> c) \<le> 30000"

lemma machine_lookup:
  assumes "params_ok p" "alloc_ok p alloc"
  shows "unat (a - RAM_BASE_ADDR) < unat (p_ram_size p) \<Longrightarrow> get_phys_mem_range (machine_map p alloc) a = Some 0"
    "unat a < 0x10000 \<Longrightarrow> get_phys_mem_range (machine_map p alloc) a = Some 1"
proof -
  have sz: "unat (p_ram_size p) \<le> 0x7fffffffffff" using assms(1) by (simp add: params_ok_def word_le_nat_alt)
  have z: "machine_map p alloc ! 0 = ram_range (alloc 0) RAM_BASE_ADDR (p_ram_size p)"
    "machine_map p alloc ! 1 = ram_range (alloc 1) 0 LOW_RAM_SIZE" "1 < length (machine_map p alloc)"
    by (simp_all add: machine_map_def base_ranges_def)
  have e: "unat (RAM_BASE_ADDR + p_ram_size p) = 0x80000000 + unat (p_ram_size p)"
    using sz by (subst unat_add_small) (simp_all add: RAM_BASE_ADDR_def)
  show "get_phys_mem_range (machine_map p alloc) a = Some 0" if "unat (a - RAM_BASE_ADDR) < unat (p_ram_size p)"
  proof -
    have "unat (RAM_BASE_ADDR + (a - RAM_BASE_ADDR)) = unat (RAM_BASE_ADDR :: u64) + unat (a - RAM_BASE_ADDR)"
      using that sz by (intro unat_add_small) (simp add: RAM_BASE_ADDR_def)
    then have "unat a = 0x80000000 + unat (a - RAM_BASE_ADDR)" by (simp add: RAM_BASE_ADDR_def)
    then have "in_range (machine_map p alloc ! 0) a"
      using that e unfolding z(1) in_range_def by (simp add: word_le_nat_alt word_less_nat_alt) (simp add: RAM_BASE_ADDR_def)
    moreover have "0 < length (machine_map p alloc)" using z(3) by linarith
    ultimately show ?thesis by (simp add: get_phys_mem_range_iff)
  qed
  show "get_phys_mem_range (machine_map p alloc) a = Some 1" if "unat a < 0x10000"
  proof -
    have "\<not> in_range (machine_map p alloc ! 0) a"
      using that unfolding z(1) in_range_def by (simp add: word_le_nat_alt RAM_BASE_ADDR_def)
    moreover have "in_range (machine_map p alloc ! 1) a"
      using that unfolding z(2) in_range_def by (simp add: word_less_nat_alt LOW_RAM_SIZE_def)
    ultimately show ?thesis using z(3) by (simp add: get_phys_mem_range_iff less_Suc_eq)
  qed
qed

lemma machine_ram_ptr:
  assumes "params_ok p" "alloc_ok p alloc"
  shows "phys_mem_get_ram_ptr (machine_map p alloc) RAM_BASE_ADDR True = (alloc 0, machine_map p alloc)"
    "phys_mem_get_ram_ptr (machine_map p alloc) 0 True = (alloc 1, machine_map p alloc)"
proof -
  have z: "machine_map p alloc ! 0 = ram_range (alloc 0) RAM_BASE_ADDR (p_ram_size p)"
    "machine_map p alloc ! 1 = ram_range (alloc 1) 0 LOW_RAM_SIZE" "1 < length (machine_map p alloc)"
    by (simp_all add: machine_map_def base_ranges_def)
  have i: "m[i := phys_mem_set_dirty_bit (m ! i) off] = m" if "\<not> pr_dirty_bits (m ! i)" for m i off
    using that by (simp add: phys_mem_set_dirty_bit_def)
  have r: "0 < unat (p_ram_size p)" using assms(1) by (simp add: params_ok_def unat_gt_0)
  show "phys_mem_get_ram_ptr (machine_map p alloc) RAM_BASE_ADDR True = (alloc 0, machine_map p alloc)"
    using machine_lookup(1) [OF assms, of RAM_BASE_ADDR] r z i [of "machine_map p alloc" 0]
    by (simp add: phys_mem_get_ram_ptr_def Let_def)
  show "phys_mem_get_ram_ptr (machine_map p alloc) 0 True = (alloc 1, machine_map p alloc)"
    using machine_lookup(2) [OF assms, of 0] z i [of "machine_map p alloc" 1]
    by (simp add: phys_mem_get_ram_ptr_def Let_def)
qed

definition fdt_image_of :: "machine_params \<Rightarrow> u8 list option" where
  "fdt_image_of p = riscv_build_fdt 64 (misa (riscv_cpu_init [] (\<lambda>_. 0) ())) (p_ram_size p) (all_virtio p) (machine_fb p)
     (ucast ((0x80000000 :: u32) + kernel_base 64 (bios p) (kernel p))) (of_nat (length (kernel p))) (cmdline p)"

definition machine_ram :: "machine_params \<Rightarrow> (nat \<Rightarrow> u64) \<Rightarrow> host_mem \<Rightarrow> u8 list \<Rightarrow> host_mem" where
  "machine_ram p alloc h img =
     (let m1 = host_put (machine_host p alloc h) (alloc 0) (bios p);
          m2 = (if kernel p \<noteq> [] then host_put m1 (alloc 0 + ucast (kernel_base 64 (bios p) (kernel p))) (kernel p) else m1)
      in host_put (host_put m2 (alloc 1 + 0x1040) img) (alloc 1 + 0x1000) (bytes_of boot_words))"

lemma start_rtc_frame:
  "mem_map (start_rtc s) = mem_map s" "ram (start_rtc s) = ram s" "misa (start_rtc s) = misa s" "pc (start_rtc s) = pc s"
  "priv (start_rtc s) = priv s" "cur_xlen (start_rtc s) = cur_xlen s" "mstatus (start_rtc s) = mstatus s"
  "tlb_read (start_rtc s) = tlb_read s" "tlb_write (start_rtc s) = tlb_write s" "mhartid (start_rtc s) = mhartid s"
  "max_xlen (dev (start_rtc s)) = max_xlen (dev s)" "ram_size (dev (start_rtc s)) = ram_size (dev s)"
  by (simp_all add: start_rtc_def rtc_get_real_time_def Let_def split_beta)

lemma init_frame:
  "misa (riscv_cpu_init m h d) = misa (riscv_cpu_init [] (\<lambda>_. 0) ())" "pc (riscv_cpu_init m h d) = 0x1000"
  "priv (riscv_cpu_init m h d) = PRV_M" "cur_xlen (riscv_cpu_init m h d) = 64" "mhartid (riscv_cpu_init m h d) = 0"
  "dev (riscv_cpu_init m h d) = d" "ram (riscv_cpu_init m h d) = h" "i < TLB_SIZE \<Longrightarrow> vaddr (tlb_read (riscv_cpu_init m h d) i) = -1"
  "i < TLB_SIZE \<Longrightarrow> vaddr (tlb_write (riscv_cpu_init m h d) i) = -1" "mstatus (riscv_cpu_init m h d) AND MSTATUS_MPRV = 0"
  by (simp_all add: riscv_cpu_init_def zero_cpu_def tlb_init_def invalid_entry_def mstatus_consts get_base_from_xlen_def Let_def)

lemma machine_init_eq:
  fixes h :: host_mem and clk :: "nat \<Rightarrow> u64 \<times> u64"
  assumes p: "params_ok p" and a: "alloc_ok p alloc" and i: "images_ok p" and img: "fdt_image_of p = Some img"
  defines "s0 \<equiv> riscv_cpu_init phys_mem_map_init h (init_device_state p 64 clk)"
  shows "riscv_machine_init p other_cpu alloc h clk =
    Inr ((start_rtc (s0\<lparr>mem_map := machine_map p alloc, ram := machine_host p alloc h\<rparr>))\<lparr>ram := machine_ram p alloc h img\<rparr>)"
proof -
  have n: "machine_name p = str ''riscv64''" "str ''riscv64'' \<noteq> str ''riscv32''" using p by (simp_all add: params_ok_def str_def)
  have d: "max_xlen (dev s0) = 64" "ram_size (dev s0) = p_ram_size p" "ram s0 = h"
    by (simp_all add: s0_def init_frame init_device_state_def)
  have b: "\<not> of_nat (length (bios p)) > p_ram_size p"
    using i by (auto simp: images_ok_def word_less_nat_alt unat_of_nat)
  let ?s = "start_rtc (s0\<lparr>mem_map := machine_map p alloc, ram := machine_host p alloc h\<rparr>)"
  have f: "riscv_build_fdt 64 (riscv_cpu_get_misa ?s) (p_ram_size p) (all_virtio p) (machine_fb p)
      (ucast ((0x80000000 :: u32) + kernel_base 64 (bios p) (kernel p))) (of_nat (length (kernel p))) (cmdline p) = Some img"
    using img by (simp add: fdt_image_of_def riscv_cpu_get_misa_def start_rtc_frame s0_def init_frame(1) [of phys_mem_map_init])
  have "copy_bios (all_virtio p) (machine_fb p) (bios p) (kernel p) (cmdline p) ?s = Inr (?s\<lparr>ram := machine_ram p alloc h img\<rparr>)"
  proof -
    have "?s\<lparr>mem_map := machine_map p alloc, ram := x\<rparr> = ?s\<lparr>ram := x\<rparr>" for x
      using start_rtc_frame(1) [of "s0\<lparr>mem_map := machine_map p alloc, ram := machine_host p alloc h\<rparr>"]
      by (intro cpu.equality) simp_all
    then show ?thesis
      using b machine_ram_ptr [OF p a] f
      by (simp add: copy_bios_def start_rtc_frame d Let_def machine_ram_def fdt_addr_def)
  qed
  then show ?thesis
    using n init_memory_map_eq [OF p a, of h] by (simp add: riscv_machine_init_def Let_def d s0_def [symmetric])
qed

lemma machine_ready:
  assumes "params_ok p" "alloc_ok p alloc" "images_ok p" "fdt_image_of p = Some img"
  shows "\<exists>s. riscv_machine_init p other_cpu alloc h clk = Inr s \<and> mem_map s = machine_map p alloc
    \<and> ram s = machine_ram p alloc h img \<and> ready s \<and> pc s = 0x1000 \<and> priv s = PRV_M \<and> mhartid s = 0"
proof -
  define s where "s = (start_rtc ((riscv_cpu_init phys_mem_map_init h (init_device_state p 64 clk))
      \<lparr>mem_map := machine_map p alloc, ram := machine_host p alloc h\<rparr>))\<lparr>ram := machine_ram p alloc h img\<rparr>"
  have "ready s"
    using machine_map_ok [OF assms(1,2)]
    by (simp add: ready_def flat_def effective_priv_def tlbs_ok_def entry_ok_def s_def start_rtc_frame init_frame)
  moreover have "mem_map s = machine_map p alloc" "ram s = machine_ram p alloc h img" "pc s = 0x1000" "priv s = PRV_M" "mhartid s = 0"
    by (simp_all add: s_def start_rtc_frame init_frame)
  ultimately show ?thesis using machine_init_eq [OF assms, of other_cpu h clk] by (auto simp: s_def)
qed

lemma fdt_image:
  assumes "params_ok p" "images_ok p"
  shows "\<exists>img. fdt_image_of p = Some img \<and> length img \<le> 0xEFC0
    \<and> read_fdt img = Some (flatten (machine_tree 64 (misa (riscv_cpu_init [] (\<lambda>_. 0) ())) (p_ram_size p) (all_virtio p) (machine_fb p)
     (ucast ((0x80000000 :: u32) + kernel_base 64 (bios p) (kernel p))) (of_nat (length (kernel p))) (cmdline p)) @ [EndTree])"
proof -
  have "length (case cmdline p of None \<Rightarrow> [] | Some c \<Rightarrow> c) \<le> 30000" using assms(2) by (simp add: images_ok_def)
  moreover have "all_virtio p \<le> 32" using assms(1) by (simp add: params_ok_def)
  ultimately show ?thesis unfolding fdt_image_of_def using build_fdt by blast
qed

text \<open>What the guest reads in the low RAM and in the RAM.\<close>

lemma bytes_of_boot: "length (bytes_of boot_words) = 20"
  by (simp add: boot_words_def)

lemma host_put_boot: "host_put m p (bytes_of boot_words) a = (if unat (a - p) < 20 then bytes_of boot_words ! unat (a - p) else m a)"
  by (subst host_put_at) (simp_all only: bytes_of_boot, simp)

lemma low_ram_bytes:
  assumes p: "params_ok p" and a: "alloc_ok p alloc" and img: "length img \<le> 0xEFC0"
    and s: "mem_map s = machine_map p alloc" "ram s = machine_ram p alloc h img"
  shows "i < length img \<Longrightarrow> guest_byte s (0x1040 + of_nat i) = img ! i"
    "i < 20 \<Longrightarrow> guest_byte s (0x1000 + of_nat i) = bytes_of boot_words ! i"
proof -
  have z: "machine_map p alloc ! 1 = ram_range (alloc 1) 0 LOW_RAM_SIZE" by (simp add: machine_map_def base_ranges_def)
  have g: "guest_byte s x = ram s (alloc 1 + x)" if "unat x < 0x10000" for x
    using machine_lookup(2) [OF p a that] z by (simp add: guest_byte_def s host_addr_def)
  have u: "unat (of_nat x :: u64) = x" if "x < 2 ^ 32" for x using that by (simp add: unat_of_nat)
  have lw: "length img \<le> 2 ^ 64" using img by simp
  show "guest_byte s (0x1040 + of_nat i) = img ! i" if i: "i < length img"
  proof -
    have "unat (0x1040 + of_nat i :: u64) = 0x1040 + i"
      using u [of i] i img by (subst unat_add_small) simp_all
    then have r: "guest_byte s (0x1040 + of_nat i) = ram s (alloc 1 + (0x1040 + of_nat i))" using i img by (intro g) simp
    have d: "alloc 1 + (0x1040 + of_nat i) - (alloc 1 + 0x1000) = of_nat (0x40 + i)"
      "alloc 1 + (0x1040 + of_nat i) - (alloc 1 + 0x1040) = of_nat i" by simp_all
    have "unat (of_nat (0x40 + i) :: u64) = 0x40 + i" "unat (of_nat i :: u64) = i" using i img by (intro u; simp)+
    then show ?thesis
      unfolding r s(2) machine_ram_def Let_def
      by (simp only: host_put_boot host_put_at [OF lw] d) (use i in simp)
  qed
  show "guest_byte s (0x1000 + of_nat i) = bytes_of boot_words ! i" if i: "i < 20"
  proof -
    have "unat (0x1000 + of_nat i :: u64) = 0x1000 + i" using u [of i] i by (subst unat_add_small) simp_all
    then have r: "guest_byte s (0x1000 + of_nat i) = ram s (alloc 1 + (0x1000 + of_nat i))" using i by (intro g) simp
    have d: "alloc 1 + (0x1000 + of_nat i) - (alloc 1 + 0x1000) = of_nat i" by simp
    have "unat (of_nat i :: u64) = i" using i by (intro u) simp
    then show ?thesis
      unfolding r s(2) machine_ram_def Let_def
      by (simp only: host_put_boot d) (use i in simp)
  qed
qed

lemma ram_bytes:
  assumes p: "params_ok p" and a: "alloc_ok p alloc" and im: "images_ok p" and img: "length img \<le> 0xEFC0"
    and s: "mem_map s = machine_map p alloc" "ram s = machine_ram p alloc h img"
  shows "i < length (bios p) \<Longrightarrow> guest_byte s (RAM_BASE_ADDR + of_nat i) = bios p ! i"
    "i < length (kernel p) \<Longrightarrow> guest_byte s (RAM_BASE_ADDR + ucast (kernel_base 64 (bios p) (kernel p)) + of_nat i) = kernel p ! i"
proof -
  have z: "machine_map p alloc ! 0 = ram_range (alloc 0) RAM_BASE_ADDR (p_ram_size p)" by (simp add: machine_map_def base_ranges_def)
  have g: "guest_byte s (RAM_BASE_ADDR + x) = ram s (alloc 0 + x)" if "unat x < unat (p_ram_size p)" for x
    using machine_lookup(1) [OF p a, of "RAM_BASE_ADDR + x"] that z by (simp add: guest_byte_def s host_addr_def)
  have sz: "unat (p_ram_size p) \<le> 0x7fffffffffff" using p by (simp add: params_ok_def word_le_nat_alt)
  note host = a [unfolded alloc_ok_def host_block_def]
  define kb where "kb = (ucast (kernel_base 64 (bios p) (kernel p)) :: u64)"
  have kb: "unat kb = unat (kernel_base 64 (bios p) (kernel p))"
  proof -
    have "unat (kernel_base 64 (bios p) (kernel p)) < 2 ^ 32" using unsigned_less [of "kernel_base 64 (bios p) (kernel p)"] by simp
    then show ?thesis by (simp add: kb_def unsigned_ucast_eq take_bit_nat_eq_self)
  qed
  define m0 where "m0 = host_put (machine_host p alloc h) (alloc 0) (bios p)"
  define m where "m = (if kernel p \<noteq> [] then host_put m0 (alloc 0 + kb) (kernel p) else m0)"
  have out: "ram s (alloc 0 + x) = m (alloc 0 + x)" if "unat x < unat (p_ram_size p)" for x
  proof -
    have "unat (alloc 0 + x - alloc 0) < unat (p_ram_size p)" using that by simp
    then have "unat LOW_RAM_SIZE \<le> unat (alloc 0 + x - alloc 1)" using host by (intro block_apart) auto
    then have o: "0x10000 \<le> unat (alloc 0 + x - alloc 1)" by (simp add: LOW_RAM_SIZE_def)
    have "20 \<le> unat (alloc 0 + x - (alloc 1 + of_nat 0x1000))" "length img \<le> unat (alloc 0 + x - (alloc 1 + of_nat 0x1040))"
      using img by (intro outside_part [OF o]; simp)+
    then show ?thesis
      using img unfolding s(2) machine_ram_def Let_def
      by (simp add: host_put_boot host_put_at m_def m0_def kb_def del: One_nat_def)
  qed
  have u: "unat (of_nat x :: u64) = x" if "x < 2 ^ 31" for x using that by (simp add: unat_of_nat)
  have L: "length (bios p) < 2 ^ 31" "length (bios p) \<le> unat (p_ram_size p)" "length (kernel p) < 2 ^ 31"
    "kernel p \<noteq> [] \<Longrightarrow> unat kb + length (kernel p) \<le> unat (p_ram_size p)" using im by (simp_all add: images_ok_def kb)
  show "guest_byte s (RAM_BASE_ADDR + of_nat i) = bios p ! i" if i: "i < length (bios p)"
  proof -
    have ui: "unat (of_nat i :: u64) = i" using i L(1) by (intro u) simp
    have r: "guest_byte s (RAM_BASE_ADDR + of_nat i) = m (alloc 0 + of_nat i)"
      using g [of "of_nat i"] out [of "of_nat i"] ui i L(2) by simp
    have "length (kernel p) \<le> unat (alloc 0 + of_nat i - (alloc 0 + kb))" if "kernel p \<noteq> []"
    proof -
      have "i < unat kb" using kernel_base_bounds(1) [OF L(1) that] i by (simp add: kb)
      then have "unat (of_nat i - kb) = i + 2 ^ 64 - unat kb" using ui by (simp add: unat_sub_if')
      then show ?thesis using L(4) [OF that] sz by simp
    qed
    then show ?thesis using L i ui unfolding r m_def m0_def by (auto simp: host_put_at)
  qed
  show "guest_byte s (RAM_BASE_ADDR + kb + of_nat i) = kernel p ! i" if i: "i < length (kernel p)"
    unfolding kb_def [symmetric]
  proof -
    have k: "kernel p \<noteq> []" using i by auto
    have ui: "unat (of_nat i :: u64) = i" using i L(3) by (intro u) simp
    have "unat (kb + of_nat i) = unat kb + i" using ui L(4) [OF k] sz i by (subst unat_add_small) simp_all
    then have r: "guest_byte s (RAM_BASE_ADDR + kb + of_nat i) = m (alloc 0 + (kb + of_nat i))"
      using g [of "kb + of_nat i"] out [of "kb + of_nat i"] L(4) [OF k] i by (simp add: add.assoc)
    show ?thesis using k L(3) i ui unfolding r m_def by (simp add: host_put_at)
  qed
qed

section \<open>The boot code\<close>

text \<open>Executing instructions one after the other, up to the first jump.\<close>

fun run_words :: "'d bus \<Rightarrow> u32 list \<Rightarrow> 'd cpu \<Rightarrow> 'd cpu" where
  "run_words E [] s = s"
| "run_words E (w # ws) s =
     (case exec_insn E 64 w (pc s) (insn_counter s) s of
        (NEXT, s') \<Rightarrow> run_words E ws (s'\<lparr>pc := pc s + 4\<rparr>)
      | (_, s') \<Rightarrow> s')"

lemmas decode_simps = exec_insn_def opcode_of_def rd_of_def rs1_of_def funct3_of_def Let_def

lemma boot_words_eval: "boot_words = [0x7FFFF297, 0x597, 0x03C58593, 0xF1402573, 0x28067]"
  by (simp add: boot_words_def fdt_addr_def)

lemma boot_auipc:
  "exec_insn E 64 0x7FFFF297 PC cnt s = (NEXT, set_reg 5 (PC + 0x7FFFF000) s)"
  "exec_insn E 64 0x597 PC cnt s = (NEXT, set_reg 11 PC s)"
  by (simp_all add: decode_simps exec_auipc_def wr_reg_def sx32_def)

lemma boot_addi: "exec_insn E 64 0x03C58593 PC cnt s = (NEXT, set_reg 11 (reg s 11 + 0x3c) s)"
  by (simp add: decode_simps exec_op_imm_def op_imm_def put_result_def wr_reg_def imm_i_def sx32_def)

lemma boot_jalr: "exec_insn E 64 0x28067 PC cnt s = (JUMP, s\<lparr>pc := reg s 5 AND NOT 1\<rparr>)"
  by (simp add: decode_simps exec_jalr_def wr_reg_def imm_i_def sx32_def)

lemma boot_csrr:
  assumes "priv s = PRV_M"
  shows "exec_insn E 64 0xF1402573 PC cnt s = (NEXT, set_reg 10 (mhartid s) (s\<lparr>insn_counter := cnt\<rparr>))"
  using assms
  by (simp add: decode_simps exec_system_def exec_csr_def csr_finish_def csr_read_def csr_read_value_def wr_reg_def)

section \<open>The tree and the memory map\<close>

fun node_props :: "fdt_node \<Rightarrow> (u8 list \<times> u8 list) list" where
  "node_props (Node n ps cs) = ps @ concat (map node_props cs)"

text \<open>The address ranges that the \<open>reg\<close> properties of a tree give.\<close>

definition tree_ranges :: "fdt_node \<Rightarrow> (u64 \<times> u64) set" where
  "tree_ranges t = {(a, n). prop_u64 ''reg'' [a, n] \<in> set (node_props t)}"

lemma cells_inject: "cells vs = cells ws \<longleftrightarrow> vs = ws"
proof
  assume "cells vs = cells ws"
  then have "map bswap_32 vs = map bswap_32 ws" unfolding cells_def by (metis words_of_bytes)
  then have "map (bswap_32 \<circ> bswap_32) vs = map (bswap_32 \<circ> bswap_32) ws" by (metis map_map)
  then show "vs = ws" by (simp add: comp_def bswap_32_involutive)
qed simp

lemma halves_inject: "(ucast (drop_bit 32 a) :: u32) = ucast (drop_bit 32 b) \<Longrightarrow> (ucast a :: u32) = ucast b \<Longrightarrow> a = b"
  for a b :: u64
proof (rule bit_word_eqI)
  fix n assume h: "(ucast (drop_bit 32 a) :: u32) = ucast (drop_bit 32 b)" "(ucast a :: u32) = ucast b" and n: "n < LENGTH(64)"
  show "bit a n = bit b n"
  proof (cases "n < 32")
    case True
    then show ?thesis using arg_cong [OF h(2), of "\<lambda>w. bit w n"] by (simp add: bit_simps)
  next
    case False
    then have "n - 32 < 32" using n by simp
    then show ?thesis using False arg_cong [OF h(1), of "\<lambda>w. bit w (n - 32)"] n by (simp add: bit_simps)
  qed
qed

lemma cells64_inject: "cells64 [a, n] = cells64 [b, m] \<longleftrightarrow> a = b \<and> n = m"
  by (auto simp: cells64_def cells_inject intro: halves_inject)

lemma str_inject: "str a = str b \<longleftrightarrow> a = b"
proof -
  have "(of_char c :: u8) = of_char d \<longleftrightarrow> c = d" for c d
  proof
    assume e: "(of_char c :: u8) = of_char d"
    have "unat (of_char x :: u8) = of_char x" for x by (simp add: of_char_def unat_of_nat)
    with e have "(of_char c :: nat) = of_char d" by metis
    then show "c = d" by (simp only: of_char_eq_iff)
  qed simp
  then show ?thesis unfolding str_def by (metis inj_def inj_map_eq_map)
qed

lemma reg_simps:
  "prop_u64 ''reg'' [a, n] = prop_u64 ''reg'' [b, m] \<longleftrightarrow> a = b \<and> n = m"
  "prop_u64 ''reg'' [a, n] = prop_u32 p [v] \<longleftrightarrow> False"
  "p \<noteq> ''reg'' \<Longrightarrow> prop_u64 ''reg'' [a, n] = prop_u32 p vs \<longleftrightarrow> False"
  "p \<noteq> ''reg'' \<Longrightarrow> prop_u64 ''reg'' [a, n] = prop_u64 p us \<longleftrightarrow> False"
  "p \<noteq> ''reg'' \<Longrightarrow> prop_u64 ''reg'' [a, n] = prop_str p d \<longleftrightarrow> False"
  "p \<noteq> ''reg'' \<Longrightarrow> prop_u64 ''reg'' [a, n] = (str p, d) \<longleftrightarrow> False"
proof -
  show "prop_u64 ''reg'' [a, n] = prop_u32 p [v] \<longleftrightarrow> False"
    by (auto simp: prop_u64_def prop_u32_def dest: arg_cong [of _ _ length])
qed (auto simp: prop_u64_def prop_u32_def prop_str_def str_inject cells64_inject)

lemma tree_ranges_machine:
  "tree_ranges (machine_tree xlen isa ram_sz n fb k ks cmd_line) =
     {(RAM_BASE_ADDR, ram_sz), (CLINT_BASE_ADDR, CLINT_SIZE), (PLIC_BASE_ADDR, PLIC_SIZE)}
     \<union> (\<lambda>i. (VIRTIO_BASE_ADDR + of_nat i * VIRTIO_SIZE, VIRTIO_SIZE)) ` {0..<n}
     \<union> (case fb of None \<Rightarrow> {} | Some d \<Rightarrow> {(FRAMEBUFFER_BASE_ADDR, scast (fb_size d))})"
  by (cases fb)
    (auto simp: tree_ranges_def machine_tree_def cpu_tree_def memory_tree_def soc_tree_def clint_tree_def plic_tree_def
      virtio_tree_def framebuffer_tree_def chosen_tree_def reg_simps)

section \<open>Properties\<close>

text \<open>C19: A machine built by \<open>riscv_machine_init\<close> for well-formed parameters starts in M mode at
  address 0x1000 with a well-formed memory map, valid TLBs, the BIOS at the start of the RAM, the
  kernel at its aligned address after it, the boot code at 0x1000, and at 0x1040 a device tree
  image that is read back as the tree of the machine.\<close>

theorem machine_built:
  assumes "params_ok p" "alloc_ok p alloc" "images_ok p"
  shows "\<exists>s img. riscv_machine_init p other_cpu alloc h clk = Inr s \<and> ready s \<and> pc s = 0x1000 \<and> priv s = PRV_M
    \<and> (\<forall>i < length (bios p). guest_byte s (RAM_BASE_ADDR + of_nat i) = bios p ! i)
    \<and> (\<forall>i < length (kernel p). guest_byte s (RAM_BASE_ADDR + ucast (kernel_base 64 (bios p) (kernel p)) + of_nat i) = kernel p ! i)
    \<and> (\<forall>i < 20. guest_byte s (0x1000 + of_nat i) = bytes_of boot_words ! i)
    \<and> (\<forall>i < length img. guest_byte s (0x1040 + of_nat i) = img ! i)
    \<and> read_fdt img = Some (flatten (machine_tree 64 (misa (riscv_cpu_init [] (\<lambda>_. 0) ())) (p_ram_size p) (all_virtio p) (machine_fb p)
       (ucast ((0x80000000 :: u32) + kernel_base 64 (bios p) (kernel p))) (of_nat (length (kernel p))) (cmdline p)) @ [EndTree])"
proof -
  obtain img where i: "fdt_image_of p = Some img" "length img \<le> 0xEFC0"
    and t: "read_fdt img = Some (flatten (machine_tree 64 (misa (riscv_cpu_init [] (\<lambda>_. 0) ())) (p_ram_size p) (all_virtio p) (machine_fb p)
       (ucast ((0x80000000 :: u32) + kernel_base 64 (bios p) (kernel p))) (of_nat (length (kernel p))) (cmdline p)) @ [EndTree])"
    using fdt_image [OF assms(1,3)] by blast
  obtain s where s: "riscv_machine_init p other_cpu alloc h clk = Inr s" "mem_map s = machine_map p alloc"
    "ram s = machine_ram p alloc h img" "ready s" "pc s = 0x1000" "priv s = PRV_M"
    using machine_ready [OF assms i(1)] by blast
  show ?thesis
    using s t low_ram_bytes [OF assms(1,2) i(2) s(2,3)] ram_bytes [OF assms i(2) s(2,3)] by blast
qed

lemma tree_map_ranges:
  assumes "params_ok p"
  shows "tree_ranges (machine_tree 64 isa (p_ram_size p) (all_virtio p) (machine_fb p) k ks cmd_line)
    = (\<lambda>pr. (pr_addr pr, pr_size pr)) ` set (machine_map p alloc) - {(0, LOW_RAM_SIZE), (HTIF_BASE_ADDR, 16)}"
proof -
  have n: "virtio_devices p \<le> all_virtio p" by (simp add: all_virtio_def)
  have "VIRTIO_SIZE = VIRTIO_PAGE_SIZE" by (simp add: machine_consts VIRTIO_PAGE_SIZE_def)
  then have v: "(\<lambda>pr. (pr_addr pr, pr_size pr)) ` virtio_range ` A
      = (\<lambda>i. (VIRTIO_BASE_ADDR + of_nat i * VIRTIO_SIZE, VIRTIO_SIZE)) ` A" for A
    by (auto simp: virtio_range_def image_iff)
  have u: "{0..<virtio_devices p} \<union> {virtio_devices p..<all_virtio p} = {0..<all_virtio p}" using n by auto
  have ne: "VIRTIO_SIZE \<noteq> LOW_RAM_SIZE" "VIRTIO_SIZE \<noteq> 16" "RAM_BASE_ADDR \<noteq> 0" "RAM_BASE_ADDR \<noteq> HTIF_BASE_ADDR"
    "CLINT_BASE_ADDR \<noteq> 0" "CLINT_BASE_ADDR \<noteq> HTIF_BASE_ADDR" "PLIC_BASE_ADDR \<noteq> 0" "PLIC_BASE_ADDR \<noteq> HTIF_BASE_ADDR"
    "FRAMEBUFFER_BASE_ADDR \<noteq> 0" "FRAMEBUFFER_BASE_ADDR \<noteq> HTIF_BASE_ADDR"
    by (simp_all add: machine_consts FRAMEBUFFER_BASE_ADDR_def)
  define X where "X = {(RAM_BASE_ADDR, p_ram_size p), (CLINT_BASE_ADDR, CLINT_SIZE), (PLIC_BASE_ADDR, PLIC_SIZE)}
    \<union> (\<lambda>i. (VIRTIO_BASE_ADDR + of_nat i * VIRTIO_SIZE, VIRTIO_SIZE)) ` {0..<all_virtio p}
    \<union> (case machine_fb p of None \<Rightarrow> {} | Some d \<Rightarrow> {(FRAMEBUFFER_BASE_ADDR, scast (fb_size d))})"
  have m: "(\<lambda>pr. (pr_addr pr, pr_size pr)) ` set (machine_map p alloc) = X \<union> {(0, LOW_RAM_SIZE), (HTIF_BASE_ADDR, 16)}"
  proof -
    have "set (machine_map p alloc) = set (base_ranges p alloc) \<union> virtio_range ` {0..<all_virtio p}
        \<union> (case machine_fb p of None \<Rightarrow> {} | Some fb \<Rightarrow> {tracked_range (alloc 2) FRAMEBUFFER_BASE_ADDR (scast (fb_size fb))})"
      unfolding u [symmetric] machine_map_def by (auto split: option.split)
    then have "(\<lambda>pr. (pr_addr pr, pr_size pr)) ` set (machine_map p alloc)
      = (\<lambda>pr. (pr_addr pr, pr_size pr)) ` set (base_ranges p alloc)
        \<union> (\<lambda>i. (VIRTIO_BASE_ADDR + of_nat i * VIRTIO_SIZE, VIRTIO_SIZE)) ` {0..<all_virtio p}
        \<union> (case machine_fb p of None \<Rightarrow> {} | Some d \<Rightarrow> {(FRAMEBUFFER_BASE_ADDR, scast (fb_size d))})"
      by (simp add: image_Un v split: option.split)
    then show ?thesis unfolding base_ranges_def X_def by simp blast
  qed
  have "(0, LOW_RAM_SIZE) \<notin> X" "(HTIF_BASE_ADDR, 16) \<notin> X"
    unfolding X_def by (cases "machine_fb p"; simp add: image_iff ne ne [symmetric])+
  then show ?thesis unfolding m tree_ranges_machine X_def [symmetric] by blast
qed

text \<open>C21: The device tree describes the devices and the main memory of the machine: the image that is built for the devices of the memory
  map is read back as a tree whose address ranges are exactly the ranges of the map other than the
  low boot RAM and the HTIF, which it does not mention.\<close>

theorem tree_describes_map:
  assumes "params_ok p" "alloc_ok p alloc" "length (case cmd_line of None \<Rightarrow> [] | Some c \<Rightarrow> c) \<le> 30000"
  shows "\<exists>m h' fb n img t. init_memory_map p alloc h = Some (m, h', fb, n)
    \<and> riscv_build_fdt 64 isa (p_ram_size p) n fb k ks cmd_line = Some img \<and> read_fdt img = Some (flatten t @ [EndTree])
    \<and> tree_ranges t = (\<lambda>pr. (pr_addr pr, pr_size pr)) ` set m - {(0, LOW_RAM_SIZE), (HTIF_BASE_ADDR, 16)}"
proof -
  have n: "all_virtio p \<le> 32" using assms(1) by (simp add: params_ok_def)
  obtain img where i: "riscv_build_fdt 64 isa (p_ram_size p) (all_virtio p) (machine_fb p) k ks cmd_line = Some img"
    "read_fdt img = Some (flatten (machine_tree 64 isa (p_ram_size p) (all_virtio p) (machine_fb p) k ks cmd_line) @ [EndTree])"
    using build_fdt [OF assms(3) n] by blast
  show ?thesis
    using init_memory_map_eq [OF assms(1,2), of h] tree_map_ranges [OF assms(1)] i by blast
qed

text \<open>The boot code, executed from its start in M mode, jumps to the start of the RAM with the hart
  number in a0 and the address of the device tree in a1.\<close>

theorem boot_code_runs:
  assumes "priv s = PRV_M" "pc s = 0x1000"
  shows "pc (run_words E boot_words s) = RAM_BASE_ADDR \<and> reg (run_words E boot_words s) 10 = mhartid s
    \<and> reg (run_words E boot_words s) 11 = 0x1040 \<and> priv (run_words E boot_words s) = PRV_M
    \<and> ram (run_words E boot_words s) = ram s"
  using assms
  by (simp add: boot_words_eval boot_auipc boot_addi boot_csrr boot_jalr set_reg_def RAM_BASE_ADDR_def)

definition small_params :: machine_params where
  "small_params = \<lparr>machine_name = str ''riscv64'', p_ram_size = 0x10000, p_rtc_real_time = False, p_console = True,
     eth_count = 0, drive_count = 1, fs_count = 0, display_device = None, p_width = 0, p_height = 0,
     input_device = Some (str ''virtio''), bios = [0x13, 0, 0, 0], kernel = [], cmdline = Some (str ''console'')\<rparr>"

definition small_alloc :: "nat \<Rightarrow> u64" where
  "small_alloc n = 0x100000 * (of_nat n + 1)"

lemma small_ok: "params_ok small_params" "alloc_ok small_params small_alloc" "images_ok small_params"
  by (simp_all add: params_ok_def small_params_def all_virtio_def virtio_devices_def alloc_ok_def host_block_def apart_def
      small_alloc_def fb_bytes_def simplefb_device_def FB_ALLOC_ALIGN_def LOW_RAM_SIZE_def images_ok_def)

theorem machine_built_witness:
  "\<exists>s. riscv_machine_init small_params (\<lambda>_. None) small_alloc (\<lambda>_. 0) (\<lambda>_. (0, 0)) = Inr s \<and> guest_byte s RAM_BASE_ADDR = 0x13"
proof -
  obtain s where "riscv_machine_init small_params (\<lambda>_. None) small_alloc (\<lambda>_. 0) (\<lambda>_. (0, 0)) = Inr s"
    and b: "\<forall>i < length (bios small_params). guest_byte s (RAM_BASE_ADDR + of_nat i) = bios small_params ! i"
    using machine_built [OF small_ok, of "\<lambda>_. None" "\<lambda>_. 0" "\<lambda>_. (0, 0)"] by blast
  then show ?thesis using spec [OF b, of 0] by (auto simp: small_params_def)
qed

theorem tree_describes_map_witness:
  "\<exists>m h' fb n img t. init_memory_map small_params small_alloc (\<lambda>_. 0) = Some (m, h', fb, n)
    \<and> riscv_build_fdt 64 0 (p_ram_size small_params) n fb 0 0 None = Some img \<and> read_fdt img = Some (flatten t @ [EndTree])
    \<and> tree_ranges t = (\<lambda>pr. (pr_addr pr, pr_size pr)) ` set m - {(0, LOW_RAM_SIZE), (HTIF_BASE_ADDR, 16)}"
  by (rule tree_describes_map [OF small_ok(1,2)]) simp

theorem boot_code_runs_witness:
  "pc (run_words silent_bus boot_words ram_cpu) = 0x80000000"
  using boot_code_runs [of ram_cpu silent_bus]
  by (simp add: ram_cpu_def riscv_cpu_init_def tlb_init_def zero_cpu_def RAM_BASE_ADDR_def Let_def)

end
