(* ===== verification/Virtio.thy ===== *)
theory Virtio
  imports Cutils Iomem
begin

text \<open>
  \<open>virtio.c\<close>: the VIRTIO device behind its two transports (MMIO and PCI): registers, configuration
  space, and the queues in guest memory with their descriptor chains. What a device does with a
  request is the callback \<open>device_recv\<close>; the guest memory is the table of ranges and the host
  memory behind it.

  A chain of descriptors belongs to the guest and may be cyclic, so the loops that follow it are
  partial functions. \<open>None\<close> is a call without a result: it runs for ever, the emulator is
  aborted, or C leaves it undefined (it reads a descriptor that was never loaded, or it leaves its
  buffer). C integers of type \<open>int\<close> are \<^typ>\<open>int\<close>, with the conversions written out.
\<close>

section \<open>State\<close>

record queue_state =
  q_ready :: u32
  q_num :: u32
  last_avail_idx :: u16
  desc_addr :: u64
  avail_addr :: u64
  used_addr :: u64
  manual_recv :: bool

text \<open>\<open>VIRTIODevice\<close>: the memory it reaches (\<open>vmap\<close>, \<open>vram\<close>), the level of its interrupt line as
  the last call of \<open>set_irq\<close> left it, its registers, and in \<open>backend\<close> the fields of the structure
  that embeds it. The bytes after the configuration space are whatever follows it.\<close>

record 'b virtio =
  vmap :: phys_mem_map
  vram :: host_mem
  irq_level :: int
  int_status :: u32
  v_status :: u32
  device_features_sel :: u32
  queue_sel :: u32
  queue :: "nat \<Rightarrow> queue_state"
  device_id :: u32
  vendor_id :: u32
  device_features :: u32
  config_space_size :: u32
  config_space :: "nat \<Rightarrow> u8"
  backend :: 'b

text \<open>The two callbacks of a device; \<open>config_write\<close> is \<open>Some\<close> where a device has none.\<close>

record 'b device_class =
  device_recv :: "'b virtio \<Rightarrow> nat \<Rightarrow> int \<Rightarrow> int \<Rightarrow> int \<Rightarrow> (int \<times> 'b virtio) option"
  config_written :: "'b virtio \<Rightarrow> 'b virtio option"

definition MAX_QUEUE :: nat where "MAX_QUEUE = 8"
definition MAX_QUEUE_NUM :: u32 where "MAX_QUEUE_NUM = 16"
definition VIRTIO_PAGE :: u64 where "VIRTIO_PAGE = 4096"
definition VRING_DESC_F_NEXT :: u16 where "VRING_DESC_F_NEXT = 1"
definition VRING_DESC_F_WRITE :: u16 where "VRING_DESC_F_WRITE = 2"

lemmas virtio_consts = MAX_QUEUE_def MAX_QUEUE_NUM_def VIRTIO_PAGE_def VRING_DESC_F_NEXT_def VRING_DESC_F_WRITE_def

definition raise_irq :: "'b virtio \<Rightarrow> int \<Rightarrow> 'b virtio" where
  "raise_irq s level = s\<lparr>irq_level := level\<rparr>"

definition reset_queue :: "queue_state \<Rightarrow> queue_state" where
  "reset_queue q = q\<lparr>q_ready := 0, q_num := MAX_QUEUE_NUM, desc_addr := 0, avail_addr := 0, used_addr := 0,
     last_avail_idx := 0\<rparr>"

definition virtio_reset :: "'b virtio \<Rightarrow> 'b virtio" where
  "virtio_reset s = s\<lparr>v_status := 0, queue_sel := 0, device_features_sel := 0, int_status := 0,
     queue := (\<lambda>i. if i < MAX_QUEUE then reset_queue (queue s i) else queue s i)\<rparr>"

section \<open>Guest memory\<close>

text \<open>\<open>get_ram_ptr\<close> of either transport looks the address up in the memory map.\<close>

definition virtio_get_ram_ptr :: "'b virtio \<Rightarrow> u64 \<Rightarrow> bool \<Rightarrow> u64 \<times> 'b virtio" where
  "virtio_get_ram_ptr s paddr is_rw =
     (let (p, m) = phys_mem_get_ram_ptr (vmap s) paddr is_rw in (p, s\<lparr>vmap := m\<rparr>))"

definition virtio_read16 :: "'b virtio \<Rightarrow> u64 \<Rightarrow> u16" where
  "virtio_read16 s addr =
     (if addr AND 1 \<noteq> 0 then 0
      else
        let (p, _) = virtio_get_ram_ptr s addr False
        in if p = 0 then 0 else ucast (host_ld (vram s) p 2))"

definition virtio_write16 :: "'b virtio \<Rightarrow> u64 \<Rightarrow> u16 \<Rightarrow> 'b virtio" where
  "virtio_write16 s addr val =
     (if addr AND 1 \<noteq> 0 then s
      else
        let (p, s1) = virtio_get_ram_ptr s addr True
        in if p = 0 then s1 else s1\<lparr>vram := host_st (vram s1) p 2 (ucast val)\<rparr>)"

definition virtio_write32 :: "'b virtio \<Rightarrow> u64 \<Rightarrow> u32 \<Rightarrow> 'b virtio" where
  "virtio_write32 s addr val =
     (if addr AND 3 \<noteq> 0 then s
      else
        let (p, s1) = virtio_get_ram_ptr s addr True
        in if p = 0 then s1 else s1\<lparr>vram := host_st (vram s1) p 4 (ucast val)\<rparr>)"

text \<open>\<open>memcpy\<close> between a buffer and the host memory.\<close>

definition host_bytes :: "host_mem \<Rightarrow> u64 \<Rightarrow> nat \<Rightarrow> u8 list" where
  "host_bytes m p n = map (\<lambda>i. m (p + of_nat i)) [0..<n]"

text \<open>What is left of the page of an address.\<close>

definition page_rest :: "u64 \<Rightarrow> nat" where
  "page_rest addr = unat (VIRTIO_PAGE - (addr AND (VIRTIO_PAGE - 1)))"

lemma page_rest_eq: "page_rest addr = 4096 - unat (addr AND 0xfff)" "unat (addr AND 0xfff) < 4096"
proof -
  have "(0xfff :: u64) = mask 12" by (simp add: mask_eq_exp_minus_1)
  then show a: "unat (addr AND 0xfff) < 4096"
    by (simp only: and_mask_take_bit unat_take_bit) simp
  then have "unat (VIRTIO_PAGE - (addr AND 0xfff)) = 4096 - unat (addr AND 0xfff)"
    by (subst unat_diff_small) (simp_all add: VIRTIO_PAGE_def)
  then show "page_rest addr = 4096 - unat (addr AND 0xfff)" by (simp add: page_rest_def VIRTIO_PAGE_def)
qed

lemma page_rest_pos: "0 < page_rest addr"
  using page_rest_eq [of addr] by simp

text \<open>The buffer is \<open>data\<close> from position \<open>pos\<close> on; \<open>count\<close> bytes are left (a negative count of the
  C code is \<open>0\<close>: the loop is not entered). The result is \<open>0\<close> or \<open>-1\<close>.\<close>

function virtio_memcpy_from_ram :: "'b virtio \<Rightarrow> u8 list \<Rightarrow> nat \<Rightarrow> u64 \<Rightarrow> nat \<Rightarrow> int \<times> u8 list" where
  "virtio_memcpy_from_ram s data pos addr count =
     (if count = 0 then (0, data)
      else
        let l = min count (page_rest addr);
            (p, _) = virtio_get_ram_ptr s addr False
        in if p = 0 then (-1, data)
           else virtio_memcpy_from_ram s (write_bytes data pos (host_bytes (vram s) p l)) (pos + l)
                  (addr + of_nat l) (count - l))"
  by pat_completeness auto
termination
  by (relation "measure (\<lambda>(s, data, pos, addr, count). count)") (use page_rest_pos in auto)

function virtio_memcpy_to_ram :: "'b virtio \<Rightarrow> u64 \<Rightarrow> u8 list \<Rightarrow> int \<times> 'b virtio" where
  "virtio_memcpy_to_ram s addr data =
     (if data = [] then (0, s)
      else
        let l = min (length data) (page_rest addr);
            (p, s1) = virtio_get_ram_ptr s addr True
        in if p = 0 then (-1, s1)
           else virtio_memcpy_to_ram (s1\<lparr>vram := host_put (vram s1) p (take l data)\<rparr>) (addr + of_nat l)
                  (drop l data))"
  by pat_completeness auto
termination
  by (relation "measure (\<lambda>(s, addr, data). length data)") (use page_rest_pos in auto)

declare virtio_memcpy_from_ram.simps [simp del] virtio_memcpy_to_ram.simps [simp del]

section \<open>Descriptors\<close>

text \<open>A \<open>VIRTIODesc\<close> as the 16 bytes of its structure.\<close>

type_synonym desc = "u8 list"

fun le_bytes :: "u8 list \<Rightarrow> u64" where
  "le_bytes [] = 0"
| "le_bytes (b # bs) = ucast b OR push_bit 8 (le_bytes bs)"

definition d_addr :: "desc \<Rightarrow> u64" where "d_addr d = le_bytes (take 8 d)"
definition d_len :: "desc \<Rightarrow> u32" where "d_len d = ucast (le_bytes (take 4 (drop 8 d)))"
definition d_flags :: "desc \<Rightarrow> u16" where "d_flags d = ucast (le_bytes (take 2 (drop 12 d)))"
definition d_next :: "desc \<Rightarrow> u16" where "d_next d = ucast (le_bytes (take 2 (drop 14 d)))"

definition d_write :: "desc \<Rightarrow> bool" where
  "d_write d \<longleftrightarrow> c_true (d_flags d AND VRING_DESC_F_WRITE)"

definition d_has_next :: "desc \<Rightarrow> bool" where
  "d_has_next d \<longleftrightarrow> c_true (d_flags d AND VRING_DESC_F_NEXT)"

definition get_desc :: "'b virtio \<Rightarrow> desc \<Rightarrow> nat \<Rightarrow> int \<Rightarrow> int \<times> desc" where
  "get_desc s d q desc_idx =
     virtio_memcpy_from_ram s d 0 (desc_addr (queue s q) + word_of_int desc_idx * 16) 16"

text \<open>The callers of \<open>get_desc\<close> ignore its result. The first descriptor of a chain is loaded into
  an uninitialised variable; where a later one cannot be loaded, the previous one (with the bytes
  that were copied) stays.\<close>

definition first_desc :: "'b virtio \<Rightarrow> nat \<Rightarrow> int \<Rightarrow> desc option" where
  "first_desc s q desc_idx =
     (case get_desc s (replicate 16 0) q desc_idx of (ret, d) \<Rightarrow> if ret = 0 then Some d else None)"

definition next_desc :: "'b virtio \<Rightarrow> nat \<Rightarrow> desc \<Rightarrow> desc" where
  "next_desc s q d = snd (get_desc s d q (uint (d_next d)))"

section \<open>Copies from and to the buffers of a chain\<close>

text \<open>The three loops of \<open>memcpy_to_from_queue\<close>. The first finds the first writable descriptor.\<close>

partial_function (option) find_write_desc :: "'b virtio \<Rightarrow> nat \<Rightarrow> desc \<Rightarrow> (int \<times> desc) option" where
  "find_write_desc s q d =
     (if d_write d then Some (0, d)
      else if \<not> d_has_next d then Some (-1, d)
      else find_write_desc s q (next_desc s q d))"

text \<open>The second finds the descriptor at the offset (an \<open>int\<close> that is compared as unsigned).\<close>

partial_function (option) find_offset_desc ::
  "'b virtio \<Rightarrow> nat \<Rightarrow> bool \<Rightarrow> desc \<Rightarrow> u32 \<Rightarrow> (int \<times> desc \<times> u32) option" where
  "find_offset_desc s q wr d offset =
     (if d_write d \<noteq> wr then Some (-1, d, offset)
      else if offset < d_len d then Some (0, d, offset)
      else if \<not> d_has_next d then Some (-1, d, offset)
      else find_offset_desc s q wr (next_desc s q d) (offset - d_len d))"

text \<open>The part that one descriptor takes of the copy: of \<open>data\<close> at \<open>pos\<close>, \<open>l\<close> bytes. The results of
  the copies are ignored.\<close>

definition copy_part ::
  "'b virtio \<Rightarrow> bool \<Rightarrow> u8 list \<Rightarrow> nat \<Rightarrow> u64 \<Rightarrow> int \<Rightarrow> u8 list \<times> 'b virtio" where
  "copy_part s to_queue data pos addr l =
     (if to_queue then (data, snd (virtio_memcpy_to_ram s addr (take (nat l) (drop pos data))))
      else (snd (virtio_memcpy_from_ram s data pos addr (nat l)), s))"

text \<open>The third copies. \<open>l\<close> is negative where more than \<open>2 ^ 31\<close> bytes are left of a descriptor;
  the pointer then moves back, and it may leave the buffer.\<close>

partial_function (option) copy_loop ::
  "'b virtio \<Rightarrow> nat \<Rightarrow> bool \<Rightarrow> u8 list \<Rightarrow> nat \<Rightarrow> desc \<Rightarrow> u32 \<Rightarrow> int \<Rightarrow> (int \<times> u8 list \<times> 'b virtio) option" where
  "copy_loop s q to_queue data pos d offset count =
     (let l = min_int count (sint (d_len d - offset));
          (data1, s1) = copy_part s to_queue data pos (d_addr d + scast offset) l;
          offset1 = offset + word_of_int l
      in if count - l = 0 then Some (0, data1, s1)
         else if int pos + l < 0 then None
         else if offset1 = d_len d then
           (if \<not> d_has_next d then Some (-1, data1, s1)
            else
              let d1 = next_desc s1 q d
              in if d_write d1 \<noteq> to_queue then Some (-1, data1, s1)
                 else copy_loop s1 q to_queue data1 (nat (int pos + l)) d1 0 (count - l))
         else copy_loop s1 q to_queue data1 (nat (int pos + l)) d offset1 (count - l))"

definition memcpy_to_from_queue ::
  "'b virtio \<Rightarrow> u8 list \<Rightarrow> nat \<Rightarrow> int \<Rightarrow> int \<Rightarrow> int \<Rightarrow> bool \<Rightarrow> (int \<times> u8 list \<times> 'b virtio) option" where
  "memcpy_to_from_queue s data q desc_idx offset count to_queue =
     (if count = 0 then Some (0, data, s)
      else
        case first_desc s q desc_idx of
          None \<Rightarrow> None
        | Some d \<Rightarrow>
            (case (if to_queue then find_write_desc s q d else Some (0, d)) of
               None \<Rightarrow> None
             | Some (ret, d1) \<Rightarrow>
                 if ret < 0 then Some (-1, data, s)
                 else
                   (case find_offset_desc s q to_queue d1 (word_of_int offset) of
                      None \<Rightarrow> None
                    | Some (ret2, d2, offset2) \<Rightarrow>
                        if ret2 < 0 then Some (-1, data, s)
                        else copy_loop s q to_queue data 0 d2 offset2 count)))"

definition memcpy_from_queue ::
  "'b virtio \<Rightarrow> u8 list \<Rightarrow> nat \<Rightarrow> int \<Rightarrow> int \<Rightarrow> int \<Rightarrow> (int \<times> u8 list) option" where
  "memcpy_from_queue s data q desc_idx offset count =
     map_option (\<lambda>(ret, data1, _). (ret, data1)) (memcpy_to_from_queue s data q desc_idx offset count False)"

definition memcpy_to_queue ::
  "'b virtio \<Rightarrow> nat \<Rightarrow> int \<Rightarrow> int \<Rightarrow> u8 list \<Rightarrow> int \<Rightarrow> (int \<times> 'b virtio) option" where
  "memcpy_to_queue s q desc_idx offset data count =
     map_option (\<lambda>(ret, _, s1). (ret, s1)) (memcpy_to_from_queue s data q desc_idx offset count True)"

section \<open>The rings\<close>

definition virtio_consume_desc :: "'b virtio \<Rightarrow> nat \<Rightarrow> int \<Rightarrow> int \<Rightarrow> 'b virtio" where
  "virtio_consume_desc s q desc_idx desc_len =
     (let qs = queue s q;
          index = virtio_read16 s (used_addr qs + 2);
          s1 = virtio_write16 s (used_addr qs + 2) (index + 1);
          addr = used_addr qs + 4 + ucast ((ucast index AND (q_num qs - 1)) * 8 :: u32);
          s2 = virtio_write32 s1 addr (word_of_int desc_idx);
          s3 = virtio_write32 s2 (addr + 4) (word_of_int desc_len)
      in raise_irq (s3\<lparr>int_status := int_status s3 OR 1\<rparr>) 1)"

text \<open>The two loops of \<open>get_desc_rw_size\<close>; the sizes are \<open>int\<close> sums of unsigned lengths.\<close>

definition add_len :: "int \<Rightarrow> desc \<Rightarrow> int" where
  "add_len n d = sint (word_of_int n + d_len d)"

partial_function (option) read_size_loop ::
  "'b virtio \<Rightarrow> nat \<Rightarrow> desc \<Rightarrow> int \<Rightarrow> (bool \<times> int \<times> desc) option" where
  "read_size_loop s q d read_size =
     (if d_write d then Some (True, read_size, d)
      else if \<not> d_has_next d then Some (False, add_len read_size d, d)
      else read_size_loop s q (next_desc s q d) (add_len read_size d))"

partial_function (option) write_size_loop ::
  "'b virtio \<Rightarrow> nat \<Rightarrow> desc \<Rightarrow> int \<Rightarrow> (int \<times> int) option" where
  "write_size_loop s q d write_size =
     (if \<not> d_write d then Some (-1, write_size)
      else if \<not> d_has_next d then Some (0, add_len write_size d)
      else write_size_loop s q (next_desc s q d) (add_len write_size d))"

text \<open>The result and the two sizes.\<close>

definition get_desc_rw_size :: "'b virtio \<Rightarrow> nat \<Rightarrow> int \<Rightarrow> (int \<times> int \<times> int) option" where
  "get_desc_rw_size s q desc_idx =
     (case first_desc s q desc_idx of
        None \<Rightarrow> None
      | Some d \<Rightarrow>
          (case read_size_loop s q d 0 of
             None \<Rightarrow> None
           | Some (writable, read_size, d1) \<Rightarrow>
               if \<not> writable then Some (0, read_size, 0)
               else map_option (\<lambda>(ret, write_size). (ret, read_size, write_size)) (write_size_loop s q d1 0)))"

text \<open>The descriptor at an index of the available ring.\<close>

definition avail_desc :: "'b virtio \<Rightarrow> nat \<Rightarrow> u16 \<Rightarrow> int" where
  "avail_desc s q idx =
     (let qs = queue s q
      in uint (virtio_read16 s (avail_addr qs + 4 + ucast ((ucast idx AND (q_num qs - 1)) * 2 :: u32))))"

definition upd_queue :: "'b virtio \<Rightarrow> nat \<Rightarrow> (queue_state \<Rightarrow> queue_state) \<Rightarrow> 'b virtio" where
  "upd_queue s q f = s\<lparr>queue := (queue s)(q := f (queue s q))\<rparr>"

definition advance_avail :: "'b virtio \<Rightarrow> nat \<Rightarrow> 'b virtio" where
  "advance_avail s q = upd_queue s q (\<lambda>qs. qs\<lparr>last_avail_idx := last_avail_idx qs + 1\<rparr>)"

text \<open>One request: its sizes, and the device's answer where the chain has the right form.\<close>

definition notify_one :: "'b device_class \<Rightarrow> 'b virtio \<Rightarrow> nat \<Rightarrow> (int \<times> 'b virtio) option" where
  "notify_one c s q =
     (let desc_idx = avail_desc s q (last_avail_idx (queue s q))
      in case get_desc_rw_size s q desc_idx of
           None \<Rightarrow> None
         | Some (ret, read_size, write_size) \<Rightarrow>
             if ret = 0 then device_recv c s q desc_idx read_size write_size else Some (0, s))"

partial_function (option) notify_loop ::
  "'b device_class \<Rightarrow> 'b virtio \<Rightarrow> nat \<Rightarrow> u16 \<Rightarrow> 'b virtio option" where
  "notify_loop c s q avail_idx =
     (if last_avail_idx (queue s q) = avail_idx then Some s
      else
        case notify_one c s q of
          None \<Rightarrow> None
        | Some (ret, s1) \<Rightarrow> if ret < 0 then Some s1 else notify_loop c (advance_avail s1 q) q avail_idx)"

definition queue_notify :: "'b device_class \<Rightarrow> 'b virtio \<Rightarrow> nat \<Rightarrow> 'b virtio option" where
  "queue_notify c s q =
     (if manual_recv (queue s q) then Some s
      else notify_loop c s q (virtio_read16 s (avail_addr (queue s q) + 2)))"

section \<open>Configuration space\<close>

definition config_ld16 :: "(nat \<Rightarrow> u8) \<Rightarrow> nat \<Rightarrow> u32" where
  "config_ld16 cs k = ucast (cs k) OR push_bit 8 (ucast (cs (k + 1)))"

definition config_ld32 :: "(nat \<Rightarrow> u8) \<Rightarrow> nat \<Rightarrow> u32" where
  "config_ld32 cs k = ucast (cs k) OR push_bit 8 (ucast (cs (k + 1)))
     OR push_bit 16 (ucast (cs (k + 2))) OR push_bit 24 (ucast (cs (k + 3)))"

definition config_st16 :: "(nat \<Rightarrow> u8) \<Rightarrow> nat \<Rightarrow> u32 \<Rightarrow> (nat \<Rightarrow> u8)" where
  "config_st16 cs k v = cs(k := ucast v, k + 1 := ucast (drop_bit 8 v))"

definition config_st32 :: "(nat \<Rightarrow> u8) \<Rightarrow> nat \<Rightarrow> u32 \<Rightarrow> (nat \<Rightarrow> u8)" where
  "config_st32 cs k v = cs(k := ucast v, k + 1 := ucast (drop_bit 8 v),
     k + 2 := ucast (drop_bit 16 v), k + 3 := ucast (drop_bit 24 v))"

text \<open>\<open>abort()\<close> on another access size is \<open>None\<close>; the bounds are unsigned.\<close>

definition virtio_config_read :: "'b virtio \<Rightarrow> u32 \<Rightarrow> nat \<Rightarrow> u32 option" where
  "virtio_config_read s offset size_log2 =
     (if size_log2 = 0 then
        Some (if offset < config_space_size s then ucast (config_space s (unat offset)) else 0)
      else if size_log2 = 1 then
        Some (if offset < config_space_size s - 1 then config_ld16 (config_space s) (unat offset) else 0)
      else if size_log2 = 2 then
        Some (if offset < config_space_size s - 3 then config_ld32 (config_space s) (unat offset) else 0)
      else None)"

definition virtio_config_write :: "'b device_class \<Rightarrow> 'b virtio \<Rightarrow> u32 \<Rightarrow> u32 \<Rightarrow> nat \<Rightarrow> 'b virtio option" where
  "virtio_config_write c s offset val size_log2 =
     (if size_log2 = 0 \<and> offset < config_space_size s then
        config_written c (s\<lparr>config_space := (config_space s)(unat offset := ucast val)\<rparr>)
      else if size_log2 = 1 \<and> offset < config_space_size s - 1 then
        config_written c (s\<lparr>config_space := config_st16 (config_space s) (unat offset) val\<rparr>)
      else if size_log2 = 2 \<and> offset < config_space_size s - 3 then
        config_written c (s\<lparr>config_space := config_st32 (config_space s) (unat offset) val\<rparr>)
      else Some s)"

section \<open>The register operations of both transports\<close>

definition sel_queue :: "'b virtio \<Rightarrow> queue_state" where
  "sel_queue s = queue s (unat (queue_sel s))"

definition low32 :: "u64 \<Rightarrow> u32" where "low32 a = ucast a"
definition high32 :: "u64 \<Rightarrow> u32" where "high32 a = ucast (drop_bit 32 a)"

definition set_low32 :: "u64 \<Rightarrow> u32 \<Rightarrow> u64" where
  "set_low32 paddr val = (paddr AND NOT 0xffffffff) OR ucast val"

definition set_high32 :: "u64 \<Rightarrow> u32 \<Rightarrow> u64" where
  "set_high32 paddr val = (paddr AND 0xffffffff) OR push_bit 32 (ucast val)"

definition read_features :: "'b virtio \<Rightarrow> u32" where
  "read_features s =
     (if device_features_sel s = 0 then device_features s else if device_features_sel s = 1 then 1 else 0)"

definition write_queue_sel :: "'b virtio \<Rightarrow> u32 \<Rightarrow> 'b virtio" where
  "write_queue_sel s val = (if val < of_nat MAX_QUEUE then s\<lparr>queue_sel := val\<rparr> else s)"

definition upd_sel_queue :: "'b virtio \<Rightarrow> (queue_state \<Rightarrow> queue_state) \<Rightarrow> 'b virtio" where
  "upd_sel_queue s f = upd_queue s (unat (queue_sel s)) f"

definition write_queue_num :: "'b virtio \<Rightarrow> u32 \<Rightarrow> 'b virtio" where
  "write_queue_num s val =
     (if val AND (val - 1) = 0 \<and> val > 0 then upd_sel_queue s (\<lambda>qs. qs\<lparr>q_num := val\<rparr>) else s)"

definition write_status :: "'b virtio \<Rightarrow> u32 \<Rightarrow> 'b virtio" where
  "write_status s val =
     (let s1 = s\<lparr>v_status := val\<rparr> in if val = 0 then virtio_reset (raise_irq s1 0) else s1)"

definition notify_queue :: "'b device_class \<Rightarrow> 'b virtio \<Rightarrow> u32 \<Rightarrow> 'b virtio option" where
  "notify_queue c s val = (if val < of_nat MAX_QUEUE then queue_notify c s (unat val) else Some s)"

section \<open>MMIO transport\<close>

abbreviation (input) VIRTIO_MMIO_MAGIC_VALUE :: u32 where "VIRTIO_MMIO_MAGIC_VALUE \<equiv> 0x000"
abbreviation (input) VIRTIO_MMIO_VERSION :: u32 where "VIRTIO_MMIO_VERSION \<equiv> 0x004"
abbreviation (input) VIRTIO_MMIO_DEVICE_ID :: u32 where "VIRTIO_MMIO_DEVICE_ID \<equiv> 0x008"
abbreviation (input) VIRTIO_MMIO_VENDOR_ID :: u32 where "VIRTIO_MMIO_VENDOR_ID \<equiv> 0x00c"
abbreviation (input) VIRTIO_MMIO_DEVICE_FEATURES :: u32 where "VIRTIO_MMIO_DEVICE_FEATURES \<equiv> 0x010"
abbreviation (input) VIRTIO_MMIO_DEVICE_FEATURES_SEL :: u32 where "VIRTIO_MMIO_DEVICE_FEATURES_SEL \<equiv> 0x014"
abbreviation (input) VIRTIO_MMIO_QUEUE_SEL :: u32 where "VIRTIO_MMIO_QUEUE_SEL \<equiv> 0x030"
abbreviation (input) VIRTIO_MMIO_QUEUE_NUM_MAX :: u32 where "VIRTIO_MMIO_QUEUE_NUM_MAX \<equiv> 0x034"
abbreviation (input) VIRTIO_MMIO_QUEUE_NUM :: u32 where "VIRTIO_MMIO_QUEUE_NUM \<equiv> 0x038"
abbreviation (input) VIRTIO_MMIO_QUEUE_READY :: u32 where "VIRTIO_MMIO_QUEUE_READY \<equiv> 0x044"
abbreviation (input) VIRTIO_MMIO_QUEUE_NOTIFY :: u32 where "VIRTIO_MMIO_QUEUE_NOTIFY \<equiv> 0x050"
abbreviation (input) VIRTIO_MMIO_INTERRUPT_STATUS :: u32 where "VIRTIO_MMIO_INTERRUPT_STATUS \<equiv> 0x060"
abbreviation (input) VIRTIO_MMIO_INTERRUPT_ACK :: u32 where "VIRTIO_MMIO_INTERRUPT_ACK \<equiv> 0x064"
abbreviation (input) VIRTIO_MMIO_STATUS :: u32 where "VIRTIO_MMIO_STATUS \<equiv> 0x070"
abbreviation (input) VIRTIO_MMIO_QUEUE_DESC_LOW :: u32 where "VIRTIO_MMIO_QUEUE_DESC_LOW \<equiv> 0x080"
abbreviation (input) VIRTIO_MMIO_QUEUE_DESC_HIGH :: u32 where "VIRTIO_MMIO_QUEUE_DESC_HIGH \<equiv> 0x084"
abbreviation (input) VIRTIO_MMIO_QUEUE_AVAIL_LOW :: u32 where "VIRTIO_MMIO_QUEUE_AVAIL_LOW \<equiv> 0x090"
abbreviation (input) VIRTIO_MMIO_QUEUE_AVAIL_HIGH :: u32 where "VIRTIO_MMIO_QUEUE_AVAIL_HIGH \<equiv> 0x094"
abbreviation (input) VIRTIO_MMIO_QUEUE_USED_LOW :: u32 where "VIRTIO_MMIO_QUEUE_USED_LOW \<equiv> 0x0a0"
abbreviation (input) VIRTIO_MMIO_QUEUE_USED_HIGH :: u32 where "VIRTIO_MMIO_QUEUE_USED_HIGH \<equiv> 0x0a4"
abbreviation (input) VIRTIO_MMIO_CONFIG :: u32 where "VIRTIO_MMIO_CONFIG \<equiv> 0x100"

definition mmio_read_reg :: "'b virtio \<Rightarrow> u32 \<Rightarrow> u32" where
  "mmio_read_reg s offset =
     (if offset = VIRTIO_MMIO_MAGIC_VALUE then 0x74726976
      else if offset = VIRTIO_MMIO_VERSION then 2
      else if offset = VIRTIO_MMIO_DEVICE_ID then device_id s
      else if offset = VIRTIO_MMIO_VENDOR_ID then vendor_id s
      else if offset = VIRTIO_MMIO_DEVICE_FEATURES then read_features s
      else if offset = VIRTIO_MMIO_DEVICE_FEATURES_SEL then device_features_sel s
      else if offset = VIRTIO_MMIO_QUEUE_SEL then queue_sel s
      else if offset = VIRTIO_MMIO_QUEUE_NUM_MAX then MAX_QUEUE_NUM
      else if offset = VIRTIO_MMIO_QUEUE_NUM then q_num (sel_queue s)
      else if offset = VIRTIO_MMIO_QUEUE_DESC_LOW then low32 (desc_addr (sel_queue s))
      else if offset = VIRTIO_MMIO_QUEUE_AVAIL_LOW then low32 (avail_addr (sel_queue s))
      else if offset = VIRTIO_MMIO_QUEUE_USED_LOW then low32 (used_addr (sel_queue s))
      else if offset = VIRTIO_MMIO_QUEUE_DESC_HIGH then high32 (desc_addr (sel_queue s))
      else if offset = VIRTIO_MMIO_QUEUE_AVAIL_HIGH then high32 (avail_addr (sel_queue s))
      else if offset = VIRTIO_MMIO_QUEUE_USED_HIGH then high32 (used_addr (sel_queue s))
      else if offset = VIRTIO_MMIO_QUEUE_READY then q_ready (sel_queue s)
      else if offset = VIRTIO_MMIO_INTERRUPT_STATUS then int_status s
      else if offset = VIRTIO_MMIO_STATUS then v_status s
      else 0)"

definition virtio_mmio_read :: "'b virtio \<Rightarrow> u32 \<Rightarrow> nat \<Rightarrow> u32 option" where
  "virtio_mmio_read s offset size_log2 =
     (if offset \<ge> VIRTIO_MMIO_CONFIG then virtio_config_read s (offset - VIRTIO_MMIO_CONFIG) size_log2
      else Some (if size_log2 = 2 then mmio_read_reg s offset else 0))"

definition ack_interrupt :: "'b virtio \<Rightarrow> u32 \<Rightarrow> 'b virtio" where
  "ack_interrupt s val =
     (let s1 = s\<lparr>int_status := int_status s AND NOT val\<rparr>
      in if int_status s1 = 0 then raise_irq s1 0 else s1)"

definition mmio_write_reg :: "'b device_class \<Rightarrow> 'b virtio \<Rightarrow> u32 \<Rightarrow> u32 \<Rightarrow> 'b virtio option" where
  "mmio_write_reg c s offset val =
     (if offset = VIRTIO_MMIO_DEVICE_FEATURES_SEL then Some (s\<lparr>device_features_sel := val\<rparr>)
      else if offset = VIRTIO_MMIO_QUEUE_SEL then Some (write_queue_sel s val)
      else if offset = VIRTIO_MMIO_QUEUE_NUM then Some (write_queue_num s val)
      else if offset = VIRTIO_MMIO_QUEUE_DESC_LOW then
        Some (upd_sel_queue s (\<lambda>qs. qs\<lparr>desc_addr := set_low32 (desc_addr qs) val\<rparr>))
      else if offset = VIRTIO_MMIO_QUEUE_AVAIL_LOW then
        Some (upd_sel_queue s (\<lambda>qs. qs\<lparr>avail_addr := set_low32 (avail_addr qs) val\<rparr>))
      else if offset = VIRTIO_MMIO_QUEUE_USED_LOW then
        Some (upd_sel_queue s (\<lambda>qs. qs\<lparr>used_addr := set_low32 (used_addr qs) val\<rparr>))
      else if offset = VIRTIO_MMIO_QUEUE_DESC_HIGH then
        Some (upd_sel_queue s (\<lambda>qs. qs\<lparr>desc_addr := set_high32 (desc_addr qs) val\<rparr>))
      else if offset = VIRTIO_MMIO_QUEUE_AVAIL_HIGH then
        Some (upd_sel_queue s (\<lambda>qs. qs\<lparr>avail_addr := set_high32 (avail_addr qs) val\<rparr>))
      else if offset = VIRTIO_MMIO_QUEUE_USED_HIGH then
        Some (upd_sel_queue s (\<lambda>qs. qs\<lparr>used_addr := set_high32 (used_addr qs) val\<rparr>))
      else if offset = VIRTIO_MMIO_STATUS then Some (write_status s val)
      else if offset = VIRTIO_MMIO_QUEUE_READY then Some (upd_sel_queue s (\<lambda>qs. qs\<lparr>q_ready := val AND 1\<rparr>))
      else if offset = VIRTIO_MMIO_QUEUE_NOTIFY then notify_queue c s val
      else if offset = VIRTIO_MMIO_INTERRUPT_ACK then Some (ack_interrupt s val)
      else Some s)"

definition virtio_mmio_write :: "'b device_class \<Rightarrow> 'b virtio \<Rightarrow> u32 \<Rightarrow> u32 \<Rightarrow> nat \<Rightarrow> 'b virtio option" where
  "virtio_mmio_write c s offset val size_log2 =
     (if offset \<ge> VIRTIO_MMIO_CONFIG then virtio_config_write c s (offset - VIRTIO_MMIO_CONFIG) val size_log2
      else if size_log2 = 2 then mmio_write_reg c s offset val
      else Some s)"

section \<open>PCI transport\<close>

abbreviation (input) VIRTIO_PCI_DEVICE_FEATURE_SEL :: u32 where "VIRTIO_PCI_DEVICE_FEATURE_SEL \<equiv> 0x000"
abbreviation (input) VIRTIO_PCI_DEVICE_FEATURE :: u32 where "VIRTIO_PCI_DEVICE_FEATURE \<equiv> 0x004"
abbreviation (input) VIRTIO_PCI_NUM_QUEUES :: u32 where "VIRTIO_PCI_NUM_QUEUES \<equiv> 0x012"
abbreviation (input) VIRTIO_PCI_DEVICE_STATUS :: u32 where "VIRTIO_PCI_DEVICE_STATUS \<equiv> 0x014"
abbreviation (input) VIRTIO_PCI_QUEUE_SEL :: u32 where "VIRTIO_PCI_QUEUE_SEL \<equiv> 0x016"
abbreviation (input) VIRTIO_PCI_QUEUE_SIZE :: u32 where "VIRTIO_PCI_QUEUE_SIZE \<equiv> 0x018"
abbreviation (input) VIRTIO_PCI_QUEUE_ENABLE :: u32 where "VIRTIO_PCI_QUEUE_ENABLE \<equiv> 0x01c"
abbreviation (input) VIRTIO_PCI_QUEUE_NOTIFY_OFF :: u32 where "VIRTIO_PCI_QUEUE_NOTIFY_OFF \<equiv> 0x01e"
abbreviation (input) VIRTIO_PCI_QUEUE_DESC_LOW :: u32 where "VIRTIO_PCI_QUEUE_DESC_LOW \<equiv> 0x020"
abbreviation (input) VIRTIO_PCI_QUEUE_DESC_HIGH :: u32 where "VIRTIO_PCI_QUEUE_DESC_HIGH \<equiv> 0x024"
abbreviation (input) VIRTIO_PCI_QUEUE_AVAIL_LOW :: u32 where "VIRTIO_PCI_QUEUE_AVAIL_LOW \<equiv> 0x028"
abbreviation (input) VIRTIO_PCI_QUEUE_AVAIL_HIGH :: u32 where "VIRTIO_PCI_QUEUE_AVAIL_HIGH \<equiv> 0x02c"
abbreviation (input) VIRTIO_PCI_QUEUE_USED_LOW :: u32 where "VIRTIO_PCI_QUEUE_USED_LOW \<equiv> 0x030"
abbreviation (input) VIRTIO_PCI_QUEUE_USED_HIGH :: u32 where "VIRTIO_PCI_QUEUE_USED_HIGH \<equiv> 0x034"

text \<open>The 4 KB regions of the window.\<close>

abbreviation (input) VIRTIO_PCI_CFG_OFFSET :: u32 where "VIRTIO_PCI_CFG_OFFSET \<equiv> 0x0000"
abbreviation (input) VIRTIO_PCI_ISR_OFFSET :: u32 where "VIRTIO_PCI_ISR_OFFSET \<equiv> 0x1000"
abbreviation (input) VIRTIO_PCI_CONFIG_OFFSET :: u32 where "VIRTIO_PCI_CONFIG_OFFSET \<equiv> 0x2000"
abbreviation (input) VIRTIO_PCI_NOTIFY_OFFSET :: u32 where "VIRTIO_PCI_NOTIFY_OFFSET \<equiv> 0x3000"

definition pci_read_cfg :: "'b virtio \<Rightarrow> u32 \<Rightarrow> nat \<Rightarrow> u32" where
  "pci_read_cfg s offset size_log2 =
     (if size_log2 = 2 then
        if offset = VIRTIO_PCI_DEVICE_FEATURE then read_features s
        else if offset = VIRTIO_PCI_DEVICE_FEATURE_SEL then device_features_sel s
        else if offset = VIRTIO_PCI_QUEUE_DESC_LOW then low32 (desc_addr (sel_queue s))
        else if offset = VIRTIO_PCI_QUEUE_AVAIL_LOW then low32 (avail_addr (sel_queue s))
        else if offset = VIRTIO_PCI_QUEUE_USED_LOW then low32 (used_addr (sel_queue s))
        else if offset = VIRTIO_PCI_QUEUE_DESC_HIGH then high32 (desc_addr (sel_queue s))
        else if offset = VIRTIO_PCI_QUEUE_AVAIL_HIGH then high32 (avail_addr (sel_queue s))
        else if offset = VIRTIO_PCI_QUEUE_USED_HIGH then high32 (used_addr (sel_queue s))
        else 0
      else if size_log2 = 1 then
        if offset = VIRTIO_PCI_NUM_QUEUES then MAX_QUEUE_NUM
        else if offset = VIRTIO_PCI_QUEUE_SEL then queue_sel s
        else if offset = VIRTIO_PCI_QUEUE_SIZE then q_num (sel_queue s)
        else if offset = VIRTIO_PCI_QUEUE_ENABLE then q_ready (sel_queue s)
        else if offset = VIRTIO_PCI_QUEUE_NOTIFY_OFF then 0
        else 0
      else if size_log2 = 0 then
        if offset = VIRTIO_PCI_DEVICE_STATUS then v_status s else 0
      else 0)"

definition virtio_pci_read :: "'b virtio \<Rightarrow> u32 \<Rightarrow> nat \<Rightarrow> (u32 \<times> 'b virtio) option" where
  "virtio_pci_read s offset1 size_log2 =
     (let offset = offset1 AND 0xfff; region = drop_bit 12 offset1
      in if region = drop_bit 12 VIRTIO_PCI_CFG_OFFSET then Some (pci_read_cfg s offset size_log2, s)
         else if region = drop_bit 12 VIRTIO_PCI_ISR_OFFSET then
           Some (if offset = 0 \<and> size_log2 = 0 then (int_status s, raise_irq (s\<lparr>int_status := 0\<rparr>) 0) else (0, s))
         else if region = drop_bit 12 VIRTIO_PCI_CONFIG_OFFSET then
           map_option (\<lambda>v. (v, s)) (virtio_config_read s offset size_log2)
         else Some (0, s))"

definition pci_write_cfg :: "'b virtio \<Rightarrow> u32 \<Rightarrow> u32 \<Rightarrow> nat \<Rightarrow> 'b virtio" where
  "pci_write_cfg s offset val size_log2 =
     (if size_log2 = 2 then
        if offset = VIRTIO_PCI_DEVICE_FEATURE_SEL then s\<lparr>device_features_sel := val\<rparr>
        else if offset = VIRTIO_PCI_QUEUE_DESC_LOW then
          upd_sel_queue s (\<lambda>qs. qs\<lparr>desc_addr := set_low32 (desc_addr qs) val\<rparr>)
        else if offset = VIRTIO_PCI_QUEUE_AVAIL_LOW then
          upd_sel_queue s (\<lambda>qs. qs\<lparr>avail_addr := set_low32 (avail_addr qs) val\<rparr>)
        else if offset = VIRTIO_PCI_QUEUE_USED_LOW then
          upd_sel_queue s (\<lambda>qs. qs\<lparr>used_addr := set_low32 (used_addr qs) val\<rparr>)
        else if offset = VIRTIO_PCI_QUEUE_DESC_HIGH then
          upd_sel_queue s (\<lambda>qs. qs\<lparr>desc_addr := set_high32 (desc_addr qs) val\<rparr>)
        else if offset = VIRTIO_PCI_QUEUE_AVAIL_HIGH then
          upd_sel_queue s (\<lambda>qs. qs\<lparr>avail_addr := set_high32 (avail_addr qs) val\<rparr>)
        else if offset = VIRTIO_PCI_QUEUE_USED_HIGH then
          upd_sel_queue s (\<lambda>qs. qs\<lparr>used_addr := set_high32 (used_addr qs) val\<rparr>)
        else s
      else if size_log2 = 1 then
        if offset = VIRTIO_PCI_QUEUE_SEL then write_queue_sel s val
        else if offset = VIRTIO_PCI_QUEUE_SIZE then write_queue_num s val
        else if offset = VIRTIO_PCI_QUEUE_ENABLE then upd_sel_queue s (\<lambda>qs. qs\<lparr>q_ready := val AND 1\<rparr>)
        else s
      else if size_log2 = 0 then
        if offset = VIRTIO_PCI_DEVICE_STATUS then write_status s val else s
      else s)"

definition virtio_pci_write :: "'b device_class \<Rightarrow> 'b virtio \<Rightarrow> u32 \<Rightarrow> u32 \<Rightarrow> nat \<Rightarrow> 'b virtio option" where
  "virtio_pci_write c s offset1 val size_log2 =
     (let offset = offset1 AND 0xfff; region = drop_bit 12 offset1
      in if region = drop_bit 12 VIRTIO_PCI_CFG_OFFSET then Some (pci_write_cfg s offset val size_log2)
         else if region = drop_bit 12 VIRTIO_PCI_CONFIG_OFFSET then virtio_config_write c s offset val size_log2
         else if region = drop_bit 12 VIRTIO_PCI_NOTIFY_OFFSET then notify_queue c s val
         else Some s)"

definition virtio_config_change_notify :: "'b virtio \<Rightarrow> 'b virtio" where
  "virtio_config_change_notify s = raise_irq (s\<lparr>int_status := int_status s OR 2\<rparr>) 1"

section \<open>Initialisation\<close>

definition zero_queue :: queue_state where
  "zero_queue = \<lparr>q_ready = 0, q_num = 0, last_avail_idx = 0, desc_addr = 0, avail_addr = 0, used_addr = 0,
     manual_recv = False\<rparr>"

text \<open>\<open>virtio_init\<close> on an MMIO bus: \<open>m\<close> and \<open>mem\<close> are the machine's memory map and memory, \<open>opaque\<close>
  the name of the device in the map, \<open>b\<close> the zeroed rest of its structure. A configuration size that
  is not an \<open>int\<close> cannot be given.\<close>

definition virtio_init ::
  "phys_mem_map \<Rightarrow> host_mem \<Rightarrow> u64 \<Rightarrow> nat \<Rightarrow> u32 \<Rightarrow> u32 \<Rightarrow> 'b \<Rightarrow> 'b virtio option" where
  "virtio_init m mem addr opaque dev_id config_size b =
     (case cpu_register_device m addr VIRTIO_PAGE opaque (DEVIO_SIZE8 OR DEVIO_SIZE16 OR DEVIO_SIZE32) of
        None \<Rightarrow> None
      | Some (m1, _) \<Rightarrow>
          Some (virtio_reset \<lparr>vmap = m1, vram = mem, irq_level = 0, int_status = 0, v_status = 0,
            device_features_sel = 0, queue_sel = 0, queue = (\<lambda>_. zero_queue), device_id = dev_id,
            vendor_id = 0xffff, device_features = 0, config_space_size = config_size,
            config_space = (\<lambda>_. 0), backend = b\<rparr>))"

end
