(* ===== verification/VirtioDev.thy ===== *)
theory VirtioDev
  imports Virtio "HOL-Library.Signed_Division"
begin

text \<open>
  \<open>virtio.c\<close>: the block, network, console and input devices, each as the \<open>device_recv\<close> callback of
  \<^theory_text>\<open>Virtio\<close> with the operations its host side calls.

  The host sides enter through the interfaces of \<open>virtio.h\<close>. The functions of a \<open>BlockDevice\<close> are
  the arguments \<^term>\<open>ops\<close>; an asynchronous request ends with \<^term>\<open>virtio_block_req_cb\<close>, which is
  given what the host has put into the buffer. What a device hands to \<open>write_packet\<close> or \<open>write_data\<close>
  is kept as the sequence of the calls. \<open>heap\<close> is what \<open>malloc\<close> leaves in a new buffer.
\<close>

definition malloc_bytes :: "(nat \<Rightarrow> u8) \<Rightarrow> int \<Rightarrow> u8 list" where
  "malloc_bytes heap n = map heap [0..<nat n]"

section \<open>Block device\<close>

record 'd block_ops =
  get_sector_count :: "'d \<Rightarrow> u64"
  read_async :: "'d \<Rightarrow> u64 \<Rightarrow> u8 list \<Rightarrow> int \<Rightarrow> (int \<times> u8 list \<times> 'd) option"
  write_async :: "'d \<Rightarrow> u64 \<Rightarrow> u8 list \<Rightarrow> int \<Rightarrow> (int \<times> 'd) option"

text \<open>\<open>VIRTIOBlockDevice\<close> and its \<open>BlockRequest\<close>.\<close>

record 'd block_dev =
  bs :: 'd
  req_in_progress :: bool
  req_type :: u32
  req_buf :: "u8 list"
  req_write_size :: int
  req_queue_idx :: nat
  req_desc_idx :: int

definition SECTOR_SIZE :: int where "SECTOR_SIZE = 512"
definition VIRTIO_BLK_T_IN :: u32 where "VIRTIO_BLK_T_IN = 0"
definition VIRTIO_BLK_T_OUT :: u32 where "VIRTIO_BLK_T_OUT = 1"
definition VIRTIO_BLK_S_OK :: u8 where "VIRTIO_BLK_S_OK = 0"
definition VIRTIO_BLK_S_IOERR :: u8 where "VIRTIO_BLK_S_IOERR = 1"

lemmas block_consts = SECTOR_SIZE_def VIRTIO_BLK_T_IN_def VIRTIO_BLK_T_OUT_def VIRTIO_BLK_S_OK_def VIRTIO_BLK_S_IOERR_def

text \<open>\<open>BlockRequestHeader\<close>: 16 bytes.\<close>

definition hdr_size :: int where "hdr_size = 16"
definition hdr_type :: "u8 list \<Rightarrow> u32" where "hdr_type h = ucast (le_bytes (take 4 h))"
definition hdr_sector_num :: "u8 list \<Rightarrow> u64" where "hdr_sector_num h = le_bytes (take 8 (drop 8 h))"

definition upd_req :: "'d block_dev virtio \<Rightarrow> ('d block_dev \<Rightarrow> 'd block_dev) \<Rightarrow> 'd block_dev virtio" where
  "upd_req s f = s\<lparr>backend := f (backend s)\<rparr>"

definition blk_status :: "int \<Rightarrow> u8" where
  "blk_status ret = (if ret < 0 then VIRTIO_BLK_S_IOERR else VIRTIO_BLK_S_OK)"

text \<open>The status byte must lie in the buffer; \<open>abort()\<close> on another type.\<close>

definition virtio_block_req_end :: "'d block_dev virtio \<Rightarrow> int \<Rightarrow> 'd block_dev virtio option" where
  "virtio_block_req_end s ret =
     (let b = backend s; queue_idx = req_queue_idx b; desc_idx = req_desc_idx b
      in if req_type b = VIRTIO_BLK_T_IN then
           let write_size = req_write_size b; data = req_buf b
           in if write_size \<le> 0 \<or> nat write_size > length data then None
              else
                (case memcpy_to_queue s queue_idx desc_idx 0 (data[nat write_size - 1 := blk_status ret]) write_size of
                   None \<Rightarrow> None
                 | Some (_, s1) \<Rightarrow> Some (virtio_consume_desc s1 queue_idx desc_idx write_size))
         else if req_type b = VIRTIO_BLK_T_OUT then
           (case memcpy_to_queue s queue_idx desc_idx 0 [blk_status ret] 1 of
              None \<Rightarrow> None
            | Some (_, s1) \<Rightarrow> Some (virtio_consume_desc s1 queue_idx desc_idx 1))
         else None)"

definition block_read_request ::
  "'d block_ops \<Rightarrow> (nat \<Rightarrow> u8) \<Rightarrow> 'd block_dev virtio \<Rightarrow> u64 \<Rightarrow> int \<Rightarrow> (int \<times> 'd block_dev virtio) option" where
  "block_read_request ops heap s sector_num write_size =
     (case read_async ops (bs (backend s)) sector_num (malloc_bytes heap write_size) ((write_size - 1) sdiv SECTOR_SIZE) of
        None \<Rightarrow> None
      | Some (ret, data, d) \<Rightarrow>
          let s1 = upd_req s (\<lambda>b. b\<lparr>bs := d, req_buf := data, req_write_size := write_size\<rparr>)
          in if ret > 0 then Some (0, upd_req s1 (\<lambda>b. b\<lparr>req_in_progress := True\<rparr>))
             else map_option (\<lambda>s2. (0, s2)) (virtio_block_req_end s1 ret))"

text \<open>\<open>assert(write_size >= 1)\<close>. The result of the copy of the data is ignored.\<close>

definition block_write_request ::
  "'d block_ops \<Rightarrow> (nat \<Rightarrow> u8) \<Rightarrow> 'd block_dev virtio \<Rightarrow> nat \<Rightarrow> int \<Rightarrow> u64 \<Rightarrow> int \<Rightarrow> int
     \<Rightarrow> (int \<times> 'd block_dev virtio) option" where
  "block_write_request ops heap s queue_idx desc_idx sector_num read_size write_size =
     (if write_size < 1 then None
      else
        let len = signed_take_bit 31 (read_size - hdr_size)
        in case memcpy_from_queue s (malloc_bytes heap len) queue_idx desc_idx hdr_size len of
             None \<Rightarrow> None
           | Some (_, data) \<Rightarrow>
               (case write_async ops (bs (backend s)) sector_num data (len sdiv SECTOR_SIZE) of
                  None \<Rightarrow> None
                | Some (ret, d) \<Rightarrow>
                    let s1 = upd_req s (\<lambda>b. b\<lparr>bs := d\<rparr>)
                    in if ret > 0 then Some (0, upd_req s1 (\<lambda>b. b\<lparr>req_in_progress := True\<rparr>))
                       else map_option (\<lambda>s2. (0, s2)) (virtio_block_req_end s1 ret)))"

definition virtio_block_recv_request ::
  "'d block_ops \<Rightarrow> (nat \<Rightarrow> u8) \<Rightarrow> 'd block_dev virtio \<Rightarrow> nat \<Rightarrow> int \<Rightarrow> int \<Rightarrow> int
     \<Rightarrow> (int \<times> 'd block_dev virtio) option" where
  "virtio_block_recv_request ops heap s queue_idx desc_idx read_size write_size =
     (if req_in_progress (backend s) then Some (-1, s)
      else
        case memcpy_from_queue s (malloc_bytes heap hdr_size) queue_idx desc_idx 0 hdr_size of
          None \<Rightarrow> None
        | Some (ret, h) \<Rightarrow>
            if ret < 0 then Some (0, s)
            else
              let s1 = upd_req s (\<lambda>b. b\<lparr>req_type := hdr_type h, req_queue_idx := queue_idx, req_desc_idx := desc_idx\<rparr>)
              in if hdr_type h = VIRTIO_BLK_T_IN then
                   block_read_request ops heap s1 (hdr_sector_num h) write_size
                 else if hdr_type h = VIRTIO_BLK_T_OUT then
                   block_write_request ops heap s1 queue_idx desc_idx (hdr_sector_num h) read_size write_size
                 else Some (0, s1))"

definition block_class :: "'d block_ops \<Rightarrow> (nat \<Rightarrow> u8) \<Rightarrow> 'd block_dev device_class" where
  "block_class ops heap = \<lparr>device_recv = virtio_block_recv_request ops heap, config_written = Some\<rparr>"

text \<open>\<open>data\<close> is what the host has left in the buffer of the request.\<close>

definition virtio_block_req_cb ::
  "'d block_ops \<Rightarrow> (nat \<Rightarrow> u8) \<Rightarrow> 'd block_dev virtio \<Rightarrow> u8 list \<Rightarrow> int \<Rightarrow> 'd block_dev virtio option" where
  "virtio_block_req_cb ops heap s data ret =
     (case virtio_block_req_end (upd_req s (\<lambda>b. b\<lparr>req_buf := data\<rparr>)) ret of
        None \<Rightarrow> None
      | Some s1 \<Rightarrow>
          queue_notify (block_class ops heap) (upd_req s1 (\<lambda>b. b\<lparr>req_in_progress := False\<rparr>))
            (req_queue_idx (backend s1)))"

definition virtio_block_init ::
  "'d block_ops \<Rightarrow> phys_mem_map \<Rightarrow> host_mem \<Rightarrow> u64 \<Rightarrow> nat \<Rightarrow> 'd \<Rightarrow> 'd block_dev virtio option" where
  "virtio_block_init ops m mem addr opaque d =
     map_option (\<lambda>s. let n = get_sector_count ops d
         in s\<lparr>config_space := config_st32 (config_st32 (config_space s) 0 (ucast n)) 4 (ucast (drop_bit 32 n))\<rparr>)
       (virtio_init m mem addr opaque 2 8
         \<lparr>bs = d, req_in_progress = False, req_type = 0, req_buf = [], req_write_size = 0, req_queue_idx = 0,
          req_desc_idx = 0\<rparr>)"

section \<open>Delivery of host data into a queue\<close>

text \<open>The three host-driven devices test the receive queue in the same way.\<close>

definition queue_filled :: "'b virtio \<Rightarrow> nat \<Rightarrow> bool" where
  "queue_filled s q \<longleftrightarrow> c_true (q_ready (queue s q))
     \<and> last_avail_idx (queue s q) \<noteq> virtio_read16 s (avail_addr (queue s q) + 2)"

definition next_avail :: "'b virtio \<Rightarrow> nat \<Rightarrow> int" where
  "next_avail s q = avail_desc s q (last_avail_idx (queue s q))"

text \<open>Fill the next available chain and consume it.\<close>

definition deliver :: "'b virtio \<Rightarrow> nat \<Rightarrow> u8 list \<Rightarrow> 'b virtio option" where
  "deliver s q data =
     (let desc_idx = next_avail s q
      in map_option (\<lambda>(_, s1). advance_avail (virtio_consume_desc s1 q desc_idx (int (length data))) q)
           (memcpy_to_queue s q desc_idx 0 data (int (length data))))"

section \<open>Network device\<close>

text \<open>\<open>packets\<close>: the calls of \<open>write_packet\<close>, the last one first.\<close>

record net_dev =
  packets :: "u8 list list"
  header_size :: int

definition virtio_net_recv_request ::
  "(nat \<Rightarrow> u8) \<Rightarrow> net_dev virtio \<Rightarrow> nat \<Rightarrow> int \<Rightarrow> int \<Rightarrow> int \<Rightarrow> (int \<times> net_dev virtio) option" where
  "virtio_net_recv_request heap s queue_idx desc_idx read_size write_size =
     (if queue_idx = 1 then
        let hs = header_size (backend s)
        in case memcpy_from_queue s (malloc_bytes heap hs) queue_idx desc_idx 0 hs of
             None \<Rightarrow> None
           | Some (ret, _) \<Rightarrow>
               if ret < 0 then Some (0, s)
               else
                 let len = read_size - hs
                 in case memcpy_from_queue s (malloc_bytes heap len) queue_idx desc_idx hs len of
                      None \<Rightarrow> None
                    | Some (_, data) \<Rightarrow>
                        Some (0, virtio_consume_desc
                          (s\<lparr>backend := (backend s)\<lparr>packets := data # packets (backend s)\<rparr>\<rparr>) queue_idx desc_idx 0)
      else Some (0, s))"

definition net_class :: "(nat \<Rightarrow> u8) \<Rightarrow> net_dev device_class" where
  "net_class heap = \<lparr>device_recv = virtio_net_recv_request heap, config_written = Some\<rparr>"

definition virtio_net_can_write_packet :: "net_dev virtio \<Rightarrow> bool" where
  "virtio_net_can_write_packet s = queue_filled s 0"

definition virtio_net_write_packet :: "net_dev virtio \<Rightarrow> u8 list \<Rightarrow> net_dev virtio option" where
  "virtio_net_write_packet s data =
     (if \<not> queue_filled s 0 then Some s
      else
        let desc_idx = next_avail s 0; hs = header_size (backend s); len = hs + int (length data)
        in case get_desc_rw_size s 0 desc_idx of
             None \<Rightarrow> None
           | Some (ret, _, write_size) \<Rightarrow>
               if ret \<noteq> 0 \<or> len > write_size then Some s
               else
                 (case memcpy_to_queue s 0 desc_idx 0 (replicate (nat hs) 0) hs of
                    None \<Rightarrow> None
                  | Some (_, s1) \<Rightarrow>
                      map_option (\<lambda>(_, s2). advance_avail (virtio_consume_desc s2 0 desc_idx len) 0)
                        (memcpy_to_queue s1 0 desc_idx hs data (int (length data)))))"

text \<open>\<open>sizeof(VIRTIONetHeader)\<close> is 12.\<close>

definition virtio_net_init ::
  "phys_mem_map \<Rightarrow> host_mem \<Rightarrow> u64 \<Rightarrow> nat \<Rightarrow> u8 list \<Rightarrow> net_dev virtio option" where
  "virtio_net_init m mem addr opaque mac_addr =
     map_option (\<lambda>s. upd_queue (s\<lparr>device_features := push_bit 5 1,
           config_space := (\<lambda>i. if i < 6 then mac_addr ! i else if i < 8 then 0 else config_space s i)\<rparr>)
         0 (\<lambda>qs. qs\<lparr>manual_recv := True\<rparr>))
       (virtio_init m mem addr opaque 1 8 \<lparr>packets = [], header_size = 12\<rparr>)"

section \<open>Console device\<close>

text \<open>\<open>console_out\<close>: the calls of \<open>write_data\<close>, the last one first.\<close>

record console_dev =
  console_out :: "u8 list list"

definition virtio_console_recv_request ::
  "(nat \<Rightarrow> u8) \<Rightarrow> console_dev virtio \<Rightarrow> nat \<Rightarrow> int \<Rightarrow> int \<Rightarrow> int \<Rightarrow> (int \<times> console_dev virtio) option" where
  "virtio_console_recv_request heap s queue_idx desc_idx read_size write_size =
     (if queue_idx = 1 then
        (case memcpy_from_queue s (malloc_bytes heap read_size) queue_idx desc_idx 0 read_size of
           None \<Rightarrow> None
         | Some (_, data) \<Rightarrow>
             Some (0, virtio_consume_desc
               (s\<lparr>backend := (backend s)\<lparr>console_out := data # console_out (backend s)\<rparr>\<rparr>) queue_idx desc_idx 0))
      else Some (0, s))"

definition console_class :: "(nat \<Rightarrow> u8) \<Rightarrow> console_dev device_class" where
  "console_class heap = \<lparr>device_recv = virtio_console_recv_request heap, config_written = Some\<rparr>"

definition virtio_console_can_write_data :: "console_dev virtio \<Rightarrow> bool" where
  "virtio_console_can_write_data s = queue_filled s 0"

definition virtio_console_get_write_len :: "console_dev virtio \<Rightarrow> int option" where
  "virtio_console_get_write_len s =
     (if \<not> queue_filled s 0 then Some 0
      else map_option (\<lambda>(ret, _, write_size). if ret \<noteq> 0 then 0 else write_size)
             (get_desc_rw_size s 0 (next_avail s 0)))"

definition virtio_console_write_data :: "console_dev virtio \<Rightarrow> u8 list \<Rightarrow> (int \<times> console_dev virtio) option" where
  "virtio_console_write_data s data =
     (if \<not> queue_filled s 0 then Some (0, s)
      else map_option (\<lambda>s1. (int (length data), s1)) (deliver s 0 data))"

definition virtio_console_resize_event :: "console_dev virtio \<Rightarrow> int \<Rightarrow> int \<Rightarrow> console_dev virtio" where
  "virtio_console_resize_event s width height =
     virtio_config_change_notify (s\<lparr>config_space :=
       config_st16 (config_st16 (config_space s) 0 (word_of_int width)) 2 (word_of_int height)\<rparr>)"

definition virtio_console_init ::
  "phys_mem_map \<Rightarrow> host_mem \<Rightarrow> u64 \<Rightarrow> nat \<Rightarrow> console_dev virtio option" where
  "virtio_console_init m mem addr opaque =
     map_option (\<lambda>s. upd_queue (s\<lparr>device_features := push_bit 0 1\<rparr>) 0 (\<lambda>qs. qs\<lparr>manual_recv := True\<rparr>))
       (virtio_init m mem addr opaque 3 4 \<lparr>console_out = []\<rparr>)"

section \<open>Input device\<close>

datatype input_type = INPUT_KEYBOARD | INPUT_MOUSE | INPUT_TABLET

record input_dev =
  in_type :: input_type
  buttons_state :: u32

definition virtio_input_recv_request ::
  "input_dev virtio \<Rightarrow> nat \<Rightarrow> int \<Rightarrow> int \<Rightarrow> int \<Rightarrow> (int \<times> input_dev virtio) option" where
  "virtio_input_recv_request s queue_idx desc_idx read_size write_size =
     Some (0, if queue_idx = 1 then virtio_consume_desc s queue_idx desc_idx 0 else s)"

text \<open>An event is \<open>type\<close>, \<open>code\<close> and \<open>value\<close> in 8 bytes.\<close>

definition event_bytes :: "u16 \<Rightarrow> u16 \<Rightarrow> u32 \<Rightarrow> u8 list" where
  "event_bytes ty code val =
     [ucast ty, ucast (drop_bit 8 ty), ucast code, ucast (drop_bit 8 code),
      ucast val, ucast (drop_bit 8 val), ucast (drop_bit 16 val), ucast (drop_bit 24 val)]"

definition virtio_input_queue_event ::
  "input_dev virtio \<Rightarrow> u16 \<Rightarrow> u16 \<Rightarrow> u32 \<Rightarrow> (int \<times> input_dev virtio) option" where
  "virtio_input_queue_event s ty code val =
     (if \<not> queue_filled s 0 then Some (-1, s)
      else map_option (\<lambda>s1. (0, s1)) (deliver s 0 (event_bytes ty code val)))"

text \<open>Events one after the other, up to the first that fails.\<close>

fun send_events :: "input_dev virtio \<Rightarrow> (u16 \<times> u16 \<times> u32) list \<Rightarrow> (int \<times> input_dev virtio) option" where
  "send_events s [] = Some (0, s)"
| "send_events s ((ty, code, val) # es) =
     (case virtio_input_queue_event s ty code val of
        None \<Rightarrow> None
      | Some (ret, s1) \<Rightarrow> if ret \<noteq> 0 then Some (ret, s1) else send_events s1 es)"

abbreviation (input) EV_SYN :: u16 where "EV_SYN \<equiv> 0x00"
abbreviation (input) EV_KEY :: u16 where "EV_KEY \<equiv> 0x01"
abbreviation (input) EV_REL :: u16 where "EV_REL \<equiv> 0x02"
abbreviation (input) EV_ABS :: u16 where "EV_ABS \<equiv> 0x03"
abbreviation (input) REL_WHEEL :: u16 where "REL_WHEEL \<equiv> 0x08"

definition virtio_input_send_key_event :: "input_dev virtio \<Rightarrow> bool \<Rightarrow> u16 \<Rightarrow> (int \<times> input_dev virtio) option" where
  "virtio_input_send_key_event s down key_code =
     (if in_type (backend s) \<noteq> INPUT_KEYBOARD then Some (-1, s)
      else send_events s [(EV_KEY, key_code, c_bool down), (EV_SYN, 0, 0)])"

definition buttons_list :: "u16 list" where "buttons_list = [0x110, 0x111, 0x112]"

definition button_events :: "u32 \<Rightarrow> u32 \<Rightarrow> (u16 \<times> u16 \<times> u32) list" where
  "button_events buttons prev =
     map (\<lambda>i. (EV_KEY, buttons_list ! i, drop_bit i buttons AND 1))
       (filter (\<lambda>i. drop_bit i buttons AND 1 \<noteq> drop_bit i prev AND 1) [0..<length buttons_list])"

definition virtio_input_send_mouse_event ::
  "input_dev virtio \<Rightarrow> int \<Rightarrow> int \<Rightarrow> int \<Rightarrow> u32 \<Rightarrow> (int \<times> input_dev virtio) option" where
  "virtio_input_send_mouse_event s dx dy dz buttons =
     (if in_type (backend s) = INPUT_KEYBOARD then Some (-1, s)
      else
        let ev = (if in_type (backend s) = INPUT_MOUSE then EV_REL else EV_ABS);
            moves = [(ev, 0, word_of_int dx), (ev, 1, word_of_int dy)];
            wheel = (if dz \<noteq> 0 then [(EV_REL, REL_WHEEL, word_of_int dz)] else [])
        in case send_events s (moves @ wheel) of
             None \<Rightarrow> None
           | Some (ret, s1) \<Rightarrow>
               if ret \<noteq> 0 then Some (ret, s1)
               else
                 (case send_events s1 (button_events buttons (buttons_state (backend s1))) of
                    None \<Rightarrow> None
                  | Some (ret2, s2) \<Rightarrow>
                      if ret2 \<noteq> 0 then Some (ret2, s2)
                      else virtio_input_queue_event (s2\<lparr>backend := (backend s2)\<lparr>buttons_state := buttons\<rparr>\<rparr>) EV_SYN 0 0))"

text \<open>The configuration space answers the query in its first two bytes.\<close>

definition fill_config :: "(nat \<Rightarrow> u8) \<Rightarrow> nat \<Rightarrow> u8 list \<Rightarrow> (nat \<Rightarrow> u8)" where
  "fill_config cs k bytes = (\<lambda>i. if k \<le> i \<and> i < k + length bytes then bytes ! (i - k) else cs i)"

definition set_bit_config :: "(nat \<Rightarrow> u8) \<Rightarrow> nat \<Rightarrow> nat \<Rightarrow> (nat \<Rightarrow> u8)" where
  "set_bit_config cs tab k = cs(tab + k div 8 := cs (tab + k div 8) OR push_bit (k mod 8) 1)"

definition set_bits_config :: "(nat \<Rightarrow> u8) \<Rightarrow> nat \<Rightarrow> nat list \<Rightarrow> (nat \<Rightarrow> u8)" where
  "set_bits_config cs tab ks = fold (\<lambda>k cs. set_bit_config cs tab k) ks cs"

fun input_name :: "input_type \<Rightarrow> u8 list" where
  "input_name INPUT_KEYBOARD = map of_char ''virtio_keyboard''"
| "input_name INPUT_MOUSE = map of_char ''virtio_mouse''"
| "input_name INPUT_TABLET = map of_char ''virtio_tablet''"

definition button_bits :: "(nat \<Rightarrow> u8) \<Rightarrow> (nat \<Rightarrow> u8)" where
  "button_bits cs = set_bits_config (fill_config (cs(2 := 64)) 8 (replicate 64 0)) 8 (map unat buttons_list)"

text \<open>\<open>VIRTIO_INPUT_CFG_EV_BITS\<close>, by the event type asked for.\<close>

fun input_ev_bits :: "input_type \<Rightarrow> u8 \<Rightarrow> (nat \<Rightarrow> u8) \<Rightarrow> (nat \<Rightarrow> u8)" where
  "input_ev_bits INPUT_KEYBOARD sub cs =
     (if sub = 0x01 then fill_config (cs(2 := 16)) 8 (replicate 16 0xff)
      else if sub = 0x14 then cs(2 := 1) else cs)"
| "input_ev_bits INPUT_MOUSE sub cs =
     (if sub = 0x01 then button_bits cs
      else if sub = 0x02 then set_bits_config (cs(2 := 2, 8 := 0, 9 := 0)) 8 [0, 1, 8] else cs)"
| "input_ev_bits INPUT_TABLET sub cs =
     (if sub = 0x01 then button_bits cs
      else if sub = 0x02 then set_bits_config (cs(2 := 2, 8 := 0, 9 := 0)) 8 [8]
      else if sub = 0x03 then set_bits_config (cs(2 := 1, 8 := 0)) 8 [0, 1] else cs)"

definition input_abs_info :: "(nat \<Rightarrow> u8) \<Rightarrow> (nat \<Rightarrow> u8)" where
  "input_abs_info cs =
     config_st32 (config_st32 (config_st32 (config_st32 (config_st32 (cs(2 := 20)) 8 0) 12 32767) 16 0) 20 0) 24 0"

definition virtio_input_config_write :: "input_dev virtio \<Rightarrow> input_dev virtio" where
  "virtio_input_config_write s =
     (let cs = config_space s; ty = in_type (backend s)
      in s\<lparr>config_space :=
        (if cs 0 = 0x00 then cs
         else if cs 0 = 0x01 then fill_config (cs(2 := of_nat (length (input_name ty)))) 8 (input_name ty)
         else if cs 0 = 0x11 then input_ev_bits ty (cs 1) (cs(2 := 0))
         else if cs 0 = 0x12 then if ty = INPUT_TABLET \<and> cs 1 \<le> 1 then input_abs_info cs else cs
         else cs(2 := 0))\<rparr>)"

definition input_class :: "input_dev device_class" where
  "input_class = \<lparr>device_recv = virtio_input_recv_request, config_written = (\<lambda>s. Some (virtio_input_config_write s))\<rparr>"

definition virtio_input_init ::
  "phys_mem_map \<Rightarrow> host_mem \<Rightarrow> u64 \<Rightarrow> nat \<Rightarrow> input_type \<Rightarrow> input_dev virtio option" where
  "virtio_input_init m mem addr opaque ty =
     map_option (\<lambda>s. upd_queue s 0 (\<lambda>qs. qs\<lparr>manual_recv := True\<rparr>))
       (virtio_init m mem addr opaque 18 256 \<lparr>in_type = ty, buttons_state = 0\<rparr>)"

end
