(* ===== verification/GuestMem.thy ===== *)
theory GuestMem
  imports PhysMem
begin

text \<open>
  The guest's memory as a device sees it, on a memory map and the host memory behind it: the bytes
  at guest addresses, which pages are marked dirty, and what a block write through a RAM pointer
  changes. \<open>dma\<close> is the contract of every device access: only RAM changes, only at the named
  addresses, and the pages of what changed are dirty.
\<close>

section \<open>Bytes at guest addresses\<close>

definition is_ram :: "phys_mem_map \<Rightarrow> u64 \<Rightarrow> bool" where
  "is_ram m a \<longleftrightarrow> (\<exists>i. get_phys_mem_range m a = Some i \<and> pr_is_ram (m ! i))"

definition ram_host :: "phys_mem_map \<Rightarrow> u64 \<Rightarrow> u64" where
  "ram_host m a = host_addr (m ! the (get_phys_mem_range m a)) a"

definition mem_byte :: "phys_mem_map \<Rightarrow> host_mem \<Rightarrow> u64 \<Rightarrow> u8" where
  "mem_byte m h a = (if is_ram m a then h (ram_host m a) else 0)"

definition mem_bytes :: "phys_mem_map \<Rightarrow> host_mem \<Rightarrow> u64 \<Rightarrow> nat \<Rightarrow> u8 list" where
  "mem_bytes m h a n = map (\<lambda>i. mem_byte m h (a + of_nat i)) [0..<n]"

definition page_dirty :: "phys_mem_map \<Rightarrow> u64 \<Rightarrow> bool" where
  "page_dirty m a \<longleftrightarrow> (\<exists>i. get_phys_mem_range m a = Some i \<and> phys_mem_is_dirty_bit (m ! i) (a - pr_addr (m ! i)))"

text \<open>A well-formed map whose RAM has host memory and, where it is tracked, a bitmap of its size.\<close>

definition map_ok :: "phys_mem_map \<Rightarrow> bool" where
  "map_ok m \<longleftrightarrow> mem_map_ok m \<and> (\<forall>i < length m. pr_is_ram (m ! i) \<longrightarrow>
     pr_phys_mem (m ! i) \<noteq> 0 \<and> bitmap_ok (m ! i) \<and> pr_size (m ! i) \<le> pr_org_size (m ! i))"

definition ram_block :: "phys_mem_map \<Rightarrow> u64 \<Rightarrow> nat \<Rightarrow> bool" where
  "ram_block m a n \<longleftrightarrow> (\<forall>i < n. is_ram m (a + of_nat i))"

lemma is_ramE:
  assumes "is_ram m a" "map_ok m"
  obtains i where "get_phys_mem_range m a = Some i" "i < length m" "pr_is_ram (m ! i)" "range_ok (m ! i)"
    "in_range (m ! i) a" "bitmap_ok (m ! i)" "pr_phys_mem (m ! i) \<noteq> 0" "a - pr_addr (m ! i) < pr_org_size (m ! i)"
proof -
  obtain i where i: "get_phys_mem_range m a = Some i" "pr_is_ram (m ! i)" using assms(1) by (auto simp: is_ram_def)
  have m: "mem_map_ok m" using assms(2) by (simp add: map_ok_def)
  note l = lookup_ok [OF m i(1)]
  have "pr_phys_mem (m ! i) \<noteq> 0" "bitmap_ok (m ! i)" "pr_size (m ! i) \<le> pr_org_size (m ! i)"
    using assms(2) l(1) i(2) by (auto simp: map_ok_def)
  moreover have "a - pr_addr (m ! i) < pr_size (m ! i)" by (rule in_range_offset [OF l(2,3)])
  ultimately show thesis using i l by (intro that [of i]) auto
qed

lemma length_mem_bytes [simp]: "length (mem_bytes m h a n) = n"
  by (simp add: mem_bytes_def)

lemma nth_mem_bytes [simp]: "i < n \<Longrightarrow> mem_bytes m h a n ! i = mem_byte m h (a + of_nat i)"
  by (simp add: mem_bytes_def)

lemma mem_bytes_0 [simp]: "mem_bytes m h a 0 = []"
  by (simp add: mem_bytes_def)

lemma mem_bytes_append: "mem_bytes m h a (k + n) = mem_bytes m h a k @ mem_bytes m h (a + of_nat k) n"
  by (intro nth_equalityI) (auto simp: nth_append algebra_simps of_nat_diff)

lemma mem_bytes_cong:
  "(\<And>i. i < n \<Longrightarrow> mem_byte m h (a + of_nat i) = mem_byte m' h' (a + of_nat i)) \<Longrightarrow> mem_bytes m h a n = mem_bytes m' h' a n"
  by (simp add: mem_bytes_def)

lemma ram_block_append: "ram_block m a (k + n) \<longleftrightarrow> ram_block m a k \<and> ram_block m (a + of_nat k) n"
proof -
  have "is_ram m (a + of_nat i)" if "ram_block m a k" "ram_block m (a + of_nat k) n" "i < k + n" for i
    using that spec [of "\<lambda>j. j < n \<longrightarrow> is_ram m (a + of_nat k + of_nat j)" "i - k"]
    by (cases "i < k") (auto simp: ram_block_def algebra_simps of_nat_diff)
  moreover have "is_ram m (a + of_nat k + of_nat i)" if "ram_block m a (k + n)" "i < n" for i
    using that spec [of "\<lambda>j. j < k + n \<longrightarrow> is_ram m (a + of_nat j)" "k + i"] by (simp add: ram_block_def algebra_simps)
  ultimately show ?thesis by (auto simp: ram_block_def)
qed

section \<open>Pages\<close>

lemma page_of_plus:
  assumes "unat (a AND PG_MASK) + k < 4096"
  shows "page_of (a + of_nat k) = page_of a"
proof -
  have r: "unat (a AND PG_MASK) = unat a mod 4096" by (simp only: PG_MASK_mask and_mask_take_bit unat_take_bit) simp
  have "unat a < 4096 * 2 ^ 52" using unsigned_less [of a] by simp
  then have "unat a div 4096 < 4503599627370496" by (simp add: div_less_iff_less_mult)
  moreover have "q * 4096 + x + k < 18446744073709551616" if "q < 4503599627370496" "x + k < 4096" for q x :: nat
    using that by linarith
  ultimately have "unat a div 4096 * 4096 + unat a mod 4096 + k < 18446744073709551616" using assms unfolding r by blast
  then have "unat a + k < 18446744073709551616" by (simp only: div_mult_mod_eq)
  then have b: "unat a + k < 2 ^ 64" by simp
  have k: "unat (of_nat k :: u64) = k" using assms by (simp add: unsigned_of_nat take_bit_nat_eq_self)
  have "unat (a + of_nat k) = unat a + k" using b by (subst unat_add_small) (simp_all add: k)
  moreover have "(unat a + k) div 4096 = unat a div 4096"
  proof -
    have "unat a + k = 4096 * (unat a div 4096) + (unat a mod 4096 + k)" by simp
    then show ?thesis using assms unfolding r by (simp only: div_mult_self4 [where b = 4096])
  qed
  ultimately show ?thesis by (intro word_unat_eq_iff [THEN iffD2]) (simp only: unat_page_of)
qed

lemma ram_in_page:
  assumes "map_ok m" "is_ram m a" "unat (a AND PG_MASK) + k < 4096"
  shows "is_ram m (a + of_nat k)" "ram_host m (a + of_nat k) = ram_host m a + of_nat k"
proof -
  obtain i where i: "get_phys_mem_range m a = Some i" "pr_is_ram (m ! i)" using assms(1,2) by (auto elim: is_ramE)
  have "get_phys_mem_range m (a + of_nat k) = Some i"
    using assms(1) by (intro lookup_page [OF _ i page_of_plus [OF assms(3)]]) (simp add: map_ok_def)
  with i show "is_ram m (a + of_nat k)" "ram_host m (a + of_nat k) = ram_host m a + of_nat k"
    by (auto simp: is_ram_def ram_host_def host_addr_plus)
qed

lemma ram_host_inj:
  assumes "map_ok m" "is_ram m a" "is_ram m b" "ram_host m a = ram_host m b"
  shows "a = b"
proof -
  obtain i where i: "get_phys_mem_range m a = Some i" "i < length m" "pr_is_ram (m ! i)" "range_ok (m ! i)" "in_range (m ! i) a"
    using assms(1,2) by (auto elim: is_ramE)
  obtain j where j: "get_phys_mem_range m b = Some j" "j < length m" "pr_is_ram (m ! j)" "range_ok (m ! j)" "in_range (m ! j) b"
    using assms(1,3) by (auto elim: is_ramE)
  have "i = j"
  proof (rule ccontr)
    assume "i \<noteq> j"
    then have "disjoint_hosts (m ! i) (m ! j)" using assms(1) i j by (auto simp: map_ok_def mem_map_ok_def)
    then show False
      using host_addr_bounds [OF i(5,4,3)] host_addr_bounds [OF j(5,4,3)] assms(4) i(1) j(1)
      by (auto simp: disjoint_hosts_def ram_host_def)
  qed
  then show ?thesis using assms(4) i(1) j(1) by (simp add: ram_host_def host_addr_def)
qed

text \<open>The pointer that a device gets.\<close>

lemma ram_ptr:
  assumes "map_ok m"
  shows "fst (phys_mem_get_ram_ptr m a rw) = (if is_ram m a then ram_host m a else 0)"
    and "is_ram m a \<Longrightarrow> ram_host m a \<noteq> 0"
    and "\<not> is_ram m a \<or> \<not> rw \<Longrightarrow> snd (phys_mem_get_ram_ptr m a rw) = m"
proof -
  show "fst (phys_mem_get_ram_ptr m a rw) = (if is_ram m a then ram_host m a else 0)"
    using get_phys_mem_range_Some(1) [of m a]
    by (auto simp: phys_mem_get_ram_ptr_def is_ram_def ram_host_def host_addr_def Let_def split: option.split)
  show "ram_host m a \<noteq> 0" if r: "is_ram m a"
  proof -
    obtain i where "get_phys_mem_range m a = Some i" "in_range (m ! i) a" "range_ok (m ! i)" "pr_is_ram (m ! i)"
      "pr_phys_mem (m ! i) \<noteq> 0"
      using is_ramE [OF r assms] by blast
    then show ?thesis using host_addr_bounds(1) [of "m ! i" a] by (auto simp: ram_host_def)
  qed
  show "snd (phys_mem_get_ram_ptr m a rw) = m" if "\<not> is_ram m a \<or> \<not> rw"
    using that by (auto simp: phys_mem_get_ram_ptr_def is_ram_def Let_def split: option.split)
qed

section \<open>Maps that differ in their dirty bits\<close>

lemma map_same_ram: "map_same m m' \<Longrightarrow> is_ram m' a = is_ram m a"
  using map_same_lookup [of m m' a] map_same_host(2) [of m m' a] by (auto simp: is_ram_def)

lemma map_same_ram_host:
  assumes "map_same m m'" "is_ram m a"
  shows "ram_host m' a = ram_host m a"
proof -
  obtain i where i: "get_phys_mem_range m a = Some i" using assms(2) by (auto simp: is_ram_def)
  then show ?thesis using map_same_host(1) [OF assms(1) i] map_same_lookup [OF assms(1), of a] by (simp add: ram_host_def)
qed

lemma map_same_block: "map_same m m' \<Longrightarrow> ram_block m' a n = ram_block m a n"
  by (simp add: ram_block_def map_same_ram)

lemma map_same_byte: "map_same m m' \<Longrightarrow> mem_byte m' h a = mem_byte m h a"
  by (simp add: mem_byte_def map_same_ram map_same_ram_host)

lemma page_dirty_page:
  assumes "map_ok m" "is_ram m a" "page_of b = page_of a"
  shows "page_dirty m b = page_dirty m a"
proof -
  obtain i where i: "get_phys_mem_range m a = Some i" "pr_is_ram (m ! i)" using assms(1,2) by (auto elim: is_ramE)
  have m: "mem_map_ok m" using assms(1) by (simp add: map_ok_def)
  show ?thesis
    using i lookup_page [OF m i assms(3)] dirty_page_no [OF page_no_range [OF m i assms(3)]] by (simp add: page_dirty_def)
qed

lemma ram_ptr_marks:
  assumes "map_ok m" "is_ram m a"
  defines "m' \<equiv> snd (phys_mem_get_ram_ptr m a True)"
  shows "map_same m m'" "map_ok m'" "page_dirty m b \<Longrightarrow> page_dirty m' b"
    "page_of b = page_of a \<Longrightarrow> page_dirty m' b"
proof -
  obtain i where i: "get_phys_mem_range m a = Some i" "i < length m" "pr_is_ram (m ! i)" "bitmap_ok (m ! i)"
    "a - pr_addr (m ! i) < pr_org_size (m ! i)"
    using assms(1,2) by (auto elim: is_ramE)
  let ?pr = "phys_mem_set_dirty_bit (m ! i) (a - pr_addr (m ! i))"
  have m': "m' = m[i := ?pr]" using i by (simp add: m'_def phys_mem_get_ram_ptr_def Let_def)
  show same: "map_same m m'" unfolding m' by (rule map_same_dirty [OF i(2)])
  have org: "pr_org_size ?pr = pr_org_size (m ! i)" by (simp add: phys_mem_set_dirty_bit_def set_bitmap_def Let_def)
  show ok: "map_ok m'"
    using assms(1) map_same_ok [OF same] i(2) bitmap_ok_set_dirty_bit [OF i(4)]
    by (auto simp: map_ok_def m' nth_list_update org)
  note d = is_dirty_set_dirty_bit [OF i(4,5)]
  show "page_dirty m' b" if "page_dirty m b"
    using that i(2) map_same_lookup [OF same, of b] by (auto simp: page_dirty_def m' nth_list_update d)
  have "page_dirty m' a" using i map_same_lookup [OF same, of a] by (auto simp: page_dirty_def m' nth_list_update d)
  moreover have "is_ram m' a" using assms(2) by (simp add: map_same_ram [OF same])
  ultimately show "page_dirty m' b" if "page_of b = page_of a" using page_dirty_page [OF ok _ that] by blast
qed

section \<open>What a device may change\<close>

definition dma :: "u64 set \<Rightarrow> phys_mem_map \<Rightarrow> host_mem \<Rightarrow> phys_mem_map \<Rightarrow> host_mem \<Rightarrow> bool" where
  "dma A m h m' h' \<longleftrightarrow> map_same m m' \<and> map_ok m'
     \<and> (\<forall>x. h' x \<noteq> h x \<longrightarrow> (\<exists>a \<in> A. is_ram m a \<and> x = ram_host m a \<and> page_dirty m' a))
     \<and> (\<forall>a. page_dirty m a \<longrightarrow> page_dirty m' a)"

lemma dma_refl: "map_ok m \<Longrightarrow> dma A m h m h"
  by (simp add: dma_def map_same_refl)

lemma dma_trans:
  assumes "dma A m h m1 h1" "dma B m1 h1 m2 h2"
  shows "dma (A \<union> B) m h m2 h2"
proof -
  have same: "map_same m m1" using assms(1) by (simp add: dma_def)
  have "\<exists>a \<in> A \<union> B. is_ram m a \<and> x = ram_host m a \<and> page_dirty m2 a" if x: "h2 x \<noteq> h x" for x
  proof (cases "h2 x = h1 x")
    case True
    with x obtain a where "a \<in> A" "is_ram m a" "x = ram_host m a" "page_dirty m1 a" using assms(1) by (auto simp: dma_def)
    then show ?thesis using assms(2) by (auto simp: dma_def)
  next
    case False
    then obtain a where "a \<in> B" "is_ram m1 a" "x = ram_host m1 a" "page_dirty m2 a" using assms(2) by (auto simp: dma_def)
    then show ?thesis using map_same_ram [OF same] map_same_ram_host [OF same] by auto
  qed
  then show ?thesis using assms map_same_trans [OF same] by (simp add: dma_def)
qed

lemma dma_mono: "dma A m h m' h' \<Longrightarrow> A \<subseteq> B \<Longrightarrow> dma B m h m' h'"
  by (simp add: dma_def) blast

lemma dma_byte:
  assumes "dma A m h m' h'" "a \<notin> A" "map_ok m"
  shows "mem_byte m' h' a = mem_byte m h a"
proof (cases "is_ram m a")
  case True
  have same: "map_same m m'" using assms(1) by (simp add: dma_def)
  have "h' (ram_host m a) = h (ram_host m a)"
  proof (rule ccontr)
    assume "h' (ram_host m a) \<noteq> h (ram_host m a)"
    then obtain b where "b \<in> A" "is_ram m b" "ram_host m a = ram_host m b" using assms(1) by (auto simp: dma_def)
    then show False using ram_host_inj [OF assms(3) True] assms(2) by blast
  qed
  then show ?thesis using True by (simp add: mem_byte_def map_same_ram [OF same] map_same_ram_host [OF same])
next
  case False
  then show ?thesis using assms(1) map_same_ram [of m m'] by (simp add: mem_byte_def dma_def)
qed

definition addrs :: "u64 \<Rightarrow> nat \<Rightarrow> u64 set" where
  "addrs a n = {x. unat (x - a) < n}"

lemma addrs_plus: "i < n \<Longrightarrow> n \<le> 2 ^ 64 \<Longrightarrow> a + of_nat i \<in> addrs a n"
  by (simp add: addrs_def unsigned_of_nat take_bit_nat_eq_self)

lemma addrsE:
  assumes "x \<in> addrs a n"
  obtains i where "i < n" "x = a + of_nat i"
  using assms by (intro that [of "unat (x - a)"]) (auto simp: addrs_def)

lemma addrs_sub: "addrs a k \<subseteq> addrs a (k + n)"
  by (auto simp: addrs_def)

lemma addrs_shift: "k + n \<le> 2 ^ 64 \<Longrightarrow> addrs (a + of_nat k) n \<subseteq> addrs a (k + n)"
proof
  fix x assume n: "k + n \<le> 2 ^ 64" and "x \<in> addrs (a + of_nat k) n"
  then obtain i where "i < n" "x = a + of_nat (k + i)" by (auto elim!: addrsE simp: algebra_simps)
  then show "x \<in> addrs a (k + n)" using n addrs_plus [of "k + i" "k + n" a] by simp
qed

text \<open>A block inside one page, written through the pointer to its start.\<close>

lemma write_page:
  fixes h :: host_mem
  assumes ok: "map_ok m" and a: "is_ram m a" and n: "unat (a AND PG_MASK) + length bs \<le> 4096"
  defines "m' \<equiv> snd (phys_mem_get_ram_ptr m a True)" and "h' \<equiv> host_put h (ram_host m a) bs"
  shows "dma (addrs a (length bs)) m h m' h'"
    and "is_ram m x \<Longrightarrow> mem_byte m' h' x = (if x \<in> addrs a (length bs) then bs ! unat (x - a) else mem_byte m h x)"
proof -
  note marks = ram_ptr_marks [OF ok a, folded m'_def]
  have l: "length bs \<le> 2 ^ 64" using n by simp
  have h': "h' y = (if unat (y - ram_host m a) < length bs then bs ! unat (y - ram_host m a) else h y)" for y
    unfolding h'_def by (rule host_put_at [OF l])
  have in_blk: "is_ram m (a + of_nat k)" "ram_host m (a + of_nat k) = ram_host m a + of_nat k" "page_dirty m' (a + of_nat k)"
    if "k < length bs" for k
  proof -
    have k: "unat (a AND PG_MASK) + k < 4096" using that n by simp
    show "is_ram m (a + of_nat k)" "ram_host m (a + of_nat k) = ram_host m a + of_nat k" by (rule ram_in_page [OF ok a k])+
    show "page_dirty m' (a + of_nat k)" by (rule marks(4) [OF page_of_plus [OF k]])
  qed
  have "\<exists>b \<in> addrs a (length bs). is_ram m b \<and> y = ram_host m b \<and> page_dirty m' b" if "h' y \<noteq> h y" for y
  proof -
    define k where "k = unat (y - ram_host m a)"
    have k: "k < length bs" using that unfolding h' k_def by (metis)
    have y: "y = ram_host m a + of_nat k" by (simp add: k_def)
    show ?thesis using in_blk [OF k] addrs_plus [OF k l, of a] y by auto
  qed
  then show "dma (addrs a (length bs)) m h m' h'" using marks(1,2,3) by (simp add: dma_def)
  assume x: "is_ram m x"
  have mb: "mem_byte m' h' x = h' (ram_host m x)"
    using x by (simp add: mem_byte_def map_same_ram [OF marks(1)] map_same_ram_host [OF marks(1)])
  show "mem_byte m' h' x = (if x \<in> addrs a (length bs) then bs ! unat (x - a) else mem_byte m h x)"
  proof (cases "x \<in> addrs a (length bs)")
    case True
    then have k: "unat (x - a) < length bs" by (simp add: addrs_def)
    then have "ram_host m x = ram_host m a + of_nat (unat (x - a))" using in_blk(2) [OF k] by simp
    then have "unat (ram_host m x - ram_host m a) = unat (x - a)" by simp
    then show ?thesis using True k by (simp add: mb h')
  next
    case False
    have "\<not> unat (ram_host m x - ram_host m a) < length bs"
    proof
      assume k: "unat (ram_host m x - ram_host m a) < length bs"
      then have "ram_host m x = ram_host m (a + of_nat (unat (ram_host m x - ram_host m a)))" using in_blk(2) [OF k] by simp
      then have "x = a + of_nat (unat (ram_host m x - ram_host m a))" by (rule ram_host_inj [OF ok x in_blk(1) [OF k]])
      then show False using False addrs_plus [OF k l] by metis
    qed
    moreover have "mem_byte m h x = h (ram_host m x)" using x by (simp add: mem_byte_def)
    ultimately show ?thesis using False by (simp add: mb h')
  qed
qed

end
