(* ===== verification/VirtioMem.thy ===== *)
theory VirtioMem
  imports Virtio GuestMem
begin

text \<open>
  The guest memory accesses of the VIRTIO devices: what they read and write, with \<open>vdma A s s'\<close> for
  an access that changes RAM at the addresses \<open>A\<close> only.
\<close>

definition vbyte :: "'b virtio \<Rightarrow> u64 \<Rightarrow> u8" where
  "vbyte s a = mem_byte (vmap s) (vram s) a"

definition vbytes :: "'b virtio \<Rightarrow> u64 \<Rightarrow> nat \<Rightarrow> u8 list" where
  "vbytes s a n = mem_bytes (vmap s) (vram s) a n"

definition vdma :: "u64 set \<Rightarrow> 'b virtio \<Rightarrow> 'b virtio \<Rightarrow> bool" where
  "vdma A s s' \<longleftrightarrow> dma A (vmap s) (vram s) (vmap s') (vram s') \<and> s' = s\<lparr>vmap := vmap s', vram := vram s'\<rparr>"

text \<open>The bytes of \<open>data\<close> are at \<open>a\<close>, and all others are as before.\<close>

definition vput :: "'b virtio \<Rightarrow> u64 \<Rightarrow> u8 list \<Rightarrow> 'b virtio \<Rightarrow> bool" where
  "vput s a data s' \<longleftrightarrow> vdma (addrs a (length data)) s s'
     \<and> (\<forall>x. is_ram (vmap s) x \<longrightarrow> vbyte s' x = (if x \<in> addrs a (length data) then data ! unat (x - a) else vbyte s x))"

lemma vdma_refl: "map_ok (vmap s) \<Longrightarrow> vdma A s s"
  by (simp add: vdma_def dma_refl)

lemma vdma_trans:
  assumes "vdma A s t" "vdma B t u"
  shows "vdma (A \<union> B) s u"
proof -
  have "u = s\<lparr>vmap := vmap u, vram := vram u\<rparr>"
  proof -
    have t: "t = s\<lparr>vmap := vmap t, vram := vram t\<rparr>" and u: "u = t\<lparr>vmap := vmap u, vram := vram u\<rparr>"
      using assms by (simp_all add: vdma_def)
    show ?thesis by (subst u, subst t) simp
  qed
  then show ?thesis using assms dma_trans unfolding vdma_def by blast
qed

lemma vdma_mono: "vdma A s t \<Longrightarrow> A \<subseteq> B \<Longrightarrow> vdma B s t"
  using dma_mono by (auto simp: vdma_def)

lemma vdma_trans_sub: "vdma A s t \<Longrightarrow> vdma B t u \<Longrightarrow> A \<union> B \<subseteq> C \<Longrightarrow> vdma C s u"
  using vdma_trans vdma_mono by blast

lemma vdma_map:
  assumes "vdma A s t"
  shows "map_ok (vmap t)" "map_same (vmap s) (vmap t)" "is_ram (vmap t) a = is_ram (vmap s) a"
    "ram_block (vmap t) a n = ram_block (vmap s) a n"
  using assms map_same_ram map_same_block by (auto simp: vdma_def dma_def)

lemma vdma_frame:
  assumes "vdma A s t"
  shows "queue t = queue s" "int_status t = int_status s" "irq_level t = irq_level s" "queue_sel t = queue_sel s"
    "v_status t = v_status s" "backend t = backend s" "device_features_sel t = device_features_sel s"
    "config_space t = config_space s" "config_space_size t = config_space_size s" "device_features t = device_features s"
    "device_id t = device_id s" "vendor_id t = vendor_id s"
proof -
  have "t = s\<lparr>vmap := vmap t, vram := vram t\<rparr>" using assms by (simp add: vdma_def)
  then obtain m r where "t = s\<lparr>vmap := m, vram := r\<rparr>" by blast
  then show "queue t = queue s" "int_status t = int_status s" "irq_level t = irq_level s" "queue_sel t = queue_sel s"
    "v_status t = v_status s" "backend t = backend s" "device_features_sel t = device_features_sel s"
    "config_space t = config_space s" "config_space_size t = config_space_size s" "device_features t = device_features s"
    "device_id t = device_id s" "vendor_id t = vendor_id s"
    by simp_all
qed

lemma vdma_byte: "vdma A s t \<Longrightarrow> a \<notin> A \<Longrightarrow> map_ok (vmap s) \<Longrightarrow> vbyte t a = vbyte s a"
  using dma_byte [of A "vmap s" "vram s" "vmap t" "vram t" a] by (simp add: vdma_def vbyte_def)

lemma vdma_bytes:
  assumes "vdma A s t" "map_ok (vmap s)" "addrs a n \<inter> A = {}" "n \<le> 2 ^ 64"
  shows "vbytes t a n = vbytes s a n"
  unfolding vbytes_def
proof (rule mem_bytes_cong)
  fix i assume "i < n"
  then have "a + of_nat i \<notin> A" using addrs_plus [of i n a] assms(3,4) by blast
  then show "mem_byte (vmap t) (vram t) (a + of_nat i) = mem_byte (vmap s) (vram s) (a + of_nat i)"
    using vdma_byte [OF assms(1) _ assms(2)] by (simp add: vbyte_def)
qed

text \<open>Bytes that lie in what was written.\<close>

lemma vput_bytes:
  assumes "vput s a data t" "ram_block (vmap s) a (length data)" "length data \<le> 2 ^ 64"
  shows "vbytes t a (length data) = data"
proof (rule nth_equalityI)
  fix i assume "i < length (vbytes t a (length data))"
  then have i: "i < length data" by (simp add: vbytes_def)
  then have "vbyte t (a + of_nat i) = data ! unat (of_nat i :: u64)"
    using assms addrs_plus [OF i assms(3), of a] by (simp add: vput_def ram_block_def)
  then show "vbytes t a (length data) ! i = data ! i"
    using i assms(3) by (simp add: vbytes_def vbyte_def unsigned_of_nat take_bit_nat_eq_self)
qed (simp add: vbytes_def)

section \<open>Copies\<close>

lemma get_ram_ptr_eq: "virtio_get_ram_ptr s a rw = (fst (phys_mem_get_ram_ptr (vmap s) a rw), s\<lparr>vmap := snd (phys_mem_get_ram_ptr (vmap s) a rw)\<rparr>)"
  by (simp add: virtio_get_ram_ptr_def case_prod_unfold Let_def)

lemma put_page:
  assumes ok: "map_ok (vmap s)" and a: "is_ram (vmap s) a" and n: "unat (a AND 0xfff) + length bs \<le> 4096"
  shows "vput s a bs (s\<lparr>vmap := snd (phys_mem_get_ram_ptr (vmap s) a True), vram := host_put (vram s) (ram_host (vmap s) a) bs\<rparr>)"
  using write_page [where h = "vram s" and bs = bs, OF ok a] n by (simp add: vput_def vdma_def vbyte_def)

text \<open>Two blocks, one after the other.\<close>

lemma addrs_next: "x \<in> addrs a l \<Longrightarrow> l + n \<le> 2 ^ 64 \<Longrightarrow> x \<notin> addrs (a + of_nat l) n"
proof
  assume "x \<in> addrs a l" "l + n \<le> 2 ^ 64" "x \<in> addrs (a + of_nat l) n"
  then obtain i j where ij: "i < l" "j < n" "x = a + of_nat i" "x = a + of_nat (l + j)" by (auto elim!: addrsE simp: algebra_simps)
  have "(of_nat i :: u64) = of_nat (l + j)" using ij(3,4) by simp
  then have "unat (of_nat i :: u64) = unat (of_nat (l + j) :: u64)" by simp
  moreover have "i < 2 ^ 64" "l + j < 2 ^ 64" using ij \<open>l + n \<le> 2 ^ 64\<close> by simp_all
  ultimately have "i = l + j" by (simp add: unsigned_of_nat take_bit_nat_eq_self del: of_nat_add)
  then show False using ij by simp
qed

lemma vput_append:
  assumes w: "vput s a xs t" and w2: "vput t (a + of_nat (length xs)) ys u" and n: "length xs + length ys \<le> 2 ^ 64"
  shows "vput s a (xs @ ys) u"
proof -
  let ?l = "length xs"
  have v: "vdma (addrs a ?l) s t" "vdma (addrs (a + of_nat ?l) (length ys)) t u" using w w2 by (simp_all add: vput_def)
  have dma: "vdma (addrs a (length (xs @ ys))) s u"
    using addrs_sub [of a ?l "length ys"] addrs_shift [OF n, of a] by (intro vdma_trans_sub [OF v]) simp
  have "vbyte u x = (if x \<in> addrs a (length (xs @ ys)) then (xs @ ys) ! unat (x - a) else vbyte s x)" if x: "is_ram (vmap s) x" for x
  proof -
    have r2: "vbyte u x = (if x \<in> addrs (a + of_nat ?l) (length ys) then ys ! unat (x - (a + of_nat ?l)) else vbyte t x)"
      using w2 x vdma_map(3) [OF v(1)] by (simp add: vput_def)
    have r1: "vbyte t x = (if x \<in> addrs a ?l then xs ! unat (x - a) else vbyte s x)"
      using w x by (simp add: vput_def)
    have split: "unat (x - (a + of_nat ?l)) = unat (x - a) - ?l" if "?l \<le> unat (x - a)"
    proof -
      have "unat (x - a) < 2 ^ 64" using unsigned_less [of "x - a"] by simp
      then have "unat (of_nat ?l :: u64) = ?l"
        using that by (simp add: unsigned_of_nat take_bit_nat_eq_self)
      then show ?thesis using unat_diff_small [of "of_nat ?l" "x - a"] that by (simp add: algebra_simps)
    qed
    show ?thesis
    proof (cases "unat (x - a) < ?l")
      case True
      then have "x \<in> addrs a ?l" by (simp add: addrs_def)
      then show ?thesis using addrs_next [OF _ n] True r1 r2 by (simp add: addrs_def nth_append)
    next
      case False
      then show ?thesis using r1 r2 split by (auto simp: addrs_def nth_append)
    qed
  qed
  then show ?thesis using dma by (simp add: vput_def)
qed

lemma vput_Nil: "map_ok (vmap s) \<Longrightarrow> vput s a [] s"
  by (simp add: vput_def addrs_def vdma_refl)

lemma to_ram_result:
  assumes "map_ok (vmap s)" "length data \<le> 2 ^ 64"
  shows "vdma (addrs a (length data)) s (snd (virtio_memcpy_to_ram s a data))
    \<and> (ram_block (vmap s) a (length data) \<longrightarrow> fst (virtio_memcpy_to_ram s a data) = 0 \<and> vput s a data (snd (virtio_memcpy_to_ram s a data)))"
  using assms
proof (induction s a data rule: virtio_memcpy_to_ram.induct)
  case (1 s a data)
  note same = vdma_refl [OF "1.prems"(1)]
  show ?case
  proof (cases "data = [] \<or> \<not> is_ram (vmap s) a")
    case True
    have "\<not> ram_block (vmap s) a (length data)" if "\<not> is_ram (vmap s) a" "data \<noteq> []"
      using that by (auto simp: ram_block_def intro!: exI [of _ 0])
    moreover have "snd (virtio_memcpy_to_ram s a data) = s" "data = [] \<Longrightarrow> virtio_memcpy_to_ram s a data = (0, s)"
      using True ram_ptr(1,3) [OF "1.prems"(1), of a True] by (auto simp: virtio_memcpy_to_ram.simps [of s a] get_ram_ptr_eq)
    ultimately show ?thesis using True same vput_Nil [OF "1.prems"(1)] by (cases "data = []") auto
  next
    case False
    then have d: "data \<noteq> []" and a: "is_ram (vmap s) a" by auto
    define l where "l = min (length data) (page_rest a)"
    have l: "unat (a AND 0xfff) + l \<le> 4096" "l \<le> length data" "length (take l data) = l"
      using page_rest_eq [of a] by (auto simp: l_def)
    define s1 where "s1 = s\<lparr>vmap := snd (phys_mem_get_ram_ptr (vmap s) a True), vram := host_put (vram s) (ram_host (vmap s) a) (take l data)\<rparr>"
    have w: "vput s a (take l data) s1"
      unfolding s1_def by (rule put_page [OF "1.prems"(1) a]) (use l in simp)
    then have v1: "vdma (addrs a l) s s1" by (simp add: vput_def l)
    have p: "fst (phys_mem_get_ram_ptr (vmap s) a True) = ram_host (vmap s) a" "ram_host (vmap s) a \<noteq> 0"
      using a ram_ptr(1,2) [OF "1.prems"(1), of a] by simp_all
    have eq: "virtio_memcpy_to_ram s a data = virtio_memcpy_to_ram s1 (a + of_nat l) (drop l data)"
      unfolding virtio_memcpy_to_ram.simps [of s a data] using d p by (simp add: get_ram_ptr_eq Let_def s1_def l_def)
    have get: "(ram_host (vmap s) a, s\<lparr>vmap := snd (phys_mem_get_ram_ptr (vmap s) a True)\<rparr>) = virtio_get_ram_ptr s a True"
      using p by (simp add: get_ram_ptr_eq)
    let ?s' = "snd (virtio_memcpy_to_ram s a data)"
    have ih: "vdma (addrs (a + of_nat l) (length data - l)) s1 ?s'"
      "ram_block (vmap s1) (a + of_nat l) (length data - l) \<longrightarrow>
         fst (virtio_memcpy_to_ram s a data) = 0 \<and> vput s1 (a + of_nat l) (drop l data) ?s'"
      using "1.IH" [OF d l_def refl get p(2)] vdma_map(1) [OF v1] "1.prems"(2) by (simp_all add: s1_def eq)
    have n: "l + (length data - l) = length data" using l by simp
    have sub: "addrs a l \<union> addrs (a + of_nat l) (length data - l) \<subseteq> addrs a (length data)"
      using addrs_sub [of a l "length data - l"] addrs_shift [of l "length data - l" a] "1.prems"(2) unfolding n by blast
    have "fst (virtio_memcpy_to_ram s a data) = 0 \<and> vput s a data ?s'" if blk: "ram_block (vmap s) a (length data)"
    proof -
      have "ram_block (vmap s) (a + of_nat l) (length data - l)"
        using blk ram_block_append [of "vmap s" a l "length data - l"] unfolding n by auto
      then have "fst (virtio_memcpy_to_ram s a data) = 0" "vput s1 (a + of_nat (length (take l data))) (drop l data) ?s'"
        using ih(2) vdma_map(4) [OF v1] l(3) by simp_all
      then show ?thesis using vput_append [OF w] "1.prems"(2) l(2,3) by force
    qed
    then show ?thesis using vdma_trans_sub [OF v1 ih(1) sub] by blast
  qed
qed

lemma length_write_bytes_ge: "length (write_bytes bs k data) \<ge> length data"
  by (simp add: write_bytes_def)

lemma write_bytes_twice:
  assumes "pos + length xs + length ys \<le> length data"
  shows "write_bytes (write_bytes data pos xs) (pos + length xs) ys = write_bytes data pos (xs @ ys)"
  using assms by (simp add: write_bytes_def ac_simps)

lemma host_bytes_page:
  assumes "map_ok (vmap s)" "is_ram (vmap s) a" "unat (a AND 0xfff) + l \<le> 4096"
  shows "host_bytes (vram s) (ram_host (vmap s) a) l = vbytes s a l" "ram_block (vmap s) a l"
proof -
  have "is_ram (vmap s) (a + of_nat i)" "ram_host (vmap s) (a + of_nat i) = ram_host (vmap s) a + of_nat i" if "i < l" for i
    using ram_in_page [OF assms(1,2), of i] assms(3) that by simp_all
  then show "host_bytes (vram s) (ram_host (vmap s) a) l = vbytes s a l" "ram_block (vmap s) a l"
    by (auto simp: host_bytes_def vbytes_def mem_bytes_def mem_byte_def ram_block_def)
qed

lemma from_ram_result:
  assumes "map_ok (vmap s)" "pos + n \<le> length data"
  shows "length (snd (virtio_memcpy_from_ram s data pos a n)) = length data
    \<and> (ram_block (vmap s) a n \<longrightarrow> virtio_memcpy_from_ram s data pos a n = (0, write_bytes data pos (vbytes s a n)))"
  using assms
proof (induction s data pos a n rule: virtio_memcpy_from_ram.induct)
  case (1 s data pos a n)
  show ?case
  proof (cases "n = 0 \<or> \<not> is_ram (vmap s) a")
    case True
    have "\<not> ram_block (vmap s) a n" if "\<not> is_ram (vmap s) a" "n \<noteq> 0"
      using that by (auto simp: ram_block_def intro!: exI [of _ 0])
    moreover have "snd (virtio_memcpy_from_ram s data pos a n) = data" "n = 0 \<Longrightarrow> virtio_memcpy_from_ram s data pos a n = (0, data)"
      using True ram_ptr(1,3) [OF "1.prems"(1), of a False] by (auto simp: virtio_memcpy_from_ram.simps [of s data] get_ram_ptr_eq)
    ultimately show ?thesis using True by (cases "n = 0") (auto simp: vbytes_def write_bytes_def)
  next
    case False
    then have d: "n \<noteq> 0" and a: "is_ram (vmap s) a" by auto
    define l where "l = min n (page_rest a)"
    have l: "unat (a AND 0xfff) + l \<le> 4096" "l \<le> n" using page_rest_eq [of a] by (auto simp: l_def)
    have p: "fst (phys_mem_get_ram_ptr (vmap s) a False) = ram_host (vmap s) a" "ram_host (vmap s) a \<noteq> 0"
      using a ram_ptr(1,2) [OF "1.prems"(1), of a] by simp_all
    define data1 where "data1 = write_bytes data pos (vbytes s a l)"
    have len1: "length data1 = length data" unfolding data1_def
      by (rule length_write_bytes) (use "1.prems"(2) l(2) in \<open>simp add: vbytes_def\<close>)
    have eq: "virtio_memcpy_from_ram s data pos a n = virtio_memcpy_from_ram s data1 (pos + l) (a + of_nat l) (n - l)"
      unfolding virtio_memcpy_from_ram.simps [of s data] using d p host_bytes_page(1) [OF "1.prems"(1) a l(1)]
      by (simp add: get_ram_ptr_eq Let_def data1_def l_def)
    have get: "(ram_host (vmap s) a, s\<lparr>vmap := snd (phys_mem_get_ram_ptr (vmap s) a False)\<rparr>) = virtio_get_ram_ptr s a False"
      using p by (simp add: get_ram_ptr_eq)
    have ih: "length (snd (virtio_memcpy_from_ram s data pos a n)) = length data1"
      "ram_block (vmap s) (a + of_nat l) (n - l) \<longrightarrow> virtio_memcpy_from_ram s data pos a n =
        (0, write_bytes data1 (pos + l) (vbytes s (a + of_nat l) (n - l)))"
      using "1.IH" [OF d l_def refl get p(2) "1.prems"(1)] "1.prems"(2) l(2) len1
      by (simp_all add: host_bytes_page(1) [OF "1.prems"(1) a l(1)] eq flip: data1_def)
    have n: "l + (n - l) = n" using l by simp
    have "write_bytes data1 (pos + l) (vbytes s (a + of_nat l) (n - l)) = write_bytes data pos (vbytes s a n)"
      using write_bytes_twice [of pos "vbytes s a l" "vbytes s (a + of_nat l) (n - l)" data] "1.prems"(2) l(2)
        mem_bytes_append [of "vmap s" "vram s" a l "n - l"] unfolding n by (simp add: data1_def vbytes_def)
    then show ?thesis using ih len1 ram_block_append [of "vmap s" a l "n - l"] unfolding n by simp
  qed
qed

section \<open>Ring entries\<close>

text \<open>The bytes of a value, least significant first.\<close>

definition val_bytes :: "nat \<Rightarrow> u64 \<Rightarrow> u8 list" where
  "val_bytes n v = map (\<lambda>i. ucast (drop_bit (8 * i) v)) [0..<n]"

lemma length_val_bytes [simp]: "length (val_bytes n v) = n"
  by (simp add: val_bytes_def)

lemma val_bytes_Suc: "val_bytes (Suc n) v = ucast v # val_bytes n (drop_bit 8 v)"
proof -
  have "map (\<lambda>i. ucast (drop_bit (8 * i) v) :: u8) [0..<Suc n] = ucast v # map (\<lambda>i. ucast (drop_bit (8 * Suc i) v)) [0..<n]"
    by (subst upt_conv_Cons) (simp_all add: map_Suc_upt [symmetric] del: upt_Suc)
  then show ?thesis by (simp add: val_bytes_def drop_bit_drop_bit add.commute)
qed

lemma host_st_put: "host_st m p n v = host_put m p (val_bytes n v)"
proof (induction n arbitrary: m p v)
  case 0
  then show ?case by (simp add: val_bytes_def)
next
  case (Suc n)
  show ?case by (simp only: host_st.simps val_bytes_Suc host_put.simps Suc)
qed

lemma host_ld_bytes: "host_ld m p n = le_bytes (host_bytes m p n)"
proof (induction n arbitrary: p)
  case 0
  then show ?case by (simp add: host_bytes_def)
next
  case (Suc n)
  have "host_bytes m p (Suc n) = m p # host_bytes m (p + 1) n"
    unfolding host_bytes_def
    by (subst upt_conv_Cons) (simp_all add: map_Suc_upt [symmetric] algebra_simps del: upt_Suc)
  then show ?case using Suc by simp
qed

lemma le_val_bytes: "le_bytes (val_bytes n v) = take_bit (8 * n) v"
proof (induction n arbitrary: v)
  case 0
  then show ?case by (simp add: val_bytes_def)
next
  case (Suc n)
  have "ucast (ucast v :: u8) OR push_bit 8 (take_bit (8 * n) (drop_bit 8 v)) = take_bit (8 * Suc n) v"
    by (rule bit_word_eqI) (auto simp: bit_simps)
  then show ?case using Suc by (simp add: val_bytes_Suc)
qed

lemma aligned_in_page:
  "a AND 1 = 0 \<Longrightarrow> unat (a AND 0xfff) + 2 \<le> 4096" "a AND 3 = 0 \<Longrightarrow> unat (a AND 0xfff) + 4 \<le> 4096" for a :: u64
proof -
  have "unat (a AND mask k) = unat a mod 2 ^ k" for k by (simp only: and_mask_take_bit unat_take_bit)
  from this [of 12] this [of 1] this [of 2]
  have r: "unat (a AND 0xfff) = unat a mod 4096" "unat (a AND 1) = unat a mod 2" "unat (a AND 3) = unat a mod 4"
    by (simp_all add: mask_eq_exp_minus_1)
  have "x mod 2 = 0 \<Longrightarrow> x + 2 \<le> 4096" "x mod 4 = 0 \<Longrightarrow> x + 4 \<le> 4096" if "x < 4096" for x :: nat
    using that by presburger+
  from this [of "unat a mod 4096"]
  have "unat a mod 2 = 0 \<Longrightarrow> unat a mod 4096 + 2 \<le> 4096" "unat a mod 4 = 0 \<Longrightarrow> unat a mod 4096 + 4 \<le> 4096"
    by (simp_all add: mod_mod_cancel)
  then show "a AND 1 = 0 \<Longrightarrow> unat (a AND 0xfff) + 2 \<le> 4096" "a AND 3 = 0 \<Longrightarrow> unat (a AND 0xfff) + 4 \<le> 4096"
    using r by simp_all
qed

lemma read16_ram:
  assumes "map_ok (vmap s)" "is_ram (vmap s) a" "a AND 1 = 0"
  shows "virtio_read16 s a = ucast (le_bytes (vbytes s a 2))"
  using host_bytes_page(1) [OF assms(1,2) aligned_in_page(1) [OF assms(3)]] ram_ptr(1,2) [OF assms(1), of a] assms(2,3)
  by (simp add: virtio_read16_def get_ram_ptr_eq host_ld_bytes)

lemma write_word_result:
  fixes v :: u64
  assumes "map_ok (vmap s)" "unat (a AND 0xfff) + n \<le> 4096"
  defines "s' \<equiv> (if fst (virtio_get_ram_ptr s a True) = 0 then snd (virtio_get_ram_ptr s a True)
      else (snd (virtio_get_ram_ptr s a True))\<lparr>vram := host_st (vram s) (fst (virtio_get_ram_ptr s a True)) n v\<rparr>)"
  shows "vdma (addrs a n) s s' \<and> (is_ram (vmap s) a \<longrightarrow> vput s a (val_bytes n v) s')"
proof (cases "is_ram (vmap s) a")
  case True
  then have "s' = s\<lparr>vmap := snd (phys_mem_get_ram_ptr (vmap s) a True), vram := host_put (vram s) (ram_host (vmap s) a) (val_bytes n v)\<rparr>"
    using ram_ptr(1,2) [OF assms(1), of a] by (simp add: s'_def get_ram_ptr_eq host_st_put)
  then have "vput s a (val_bytes n v) s'" using put_page [OF assms(1) True, of "val_bytes n v"] assms(2) by simp
  then show ?thesis by (simp add: vput_def)
next
  case False
  then have "s' = s" using ram_ptr(1,3) [OF assms(1), of a] by (simp add: s'_def get_ram_ptr_eq)
  then show ?thesis using False vdma_refl [OF assms(1)] by simp
qed

lemma write16_result:
  assumes "map_ok (vmap s)"
  shows "vdma (addrs a 2) s (virtio_write16 s a v)"
    and "is_ram (vmap s) a \<Longrightarrow> a AND 1 = 0 \<Longrightarrow> vput s a (val_bytes 2 (ucast v)) (virtio_write16 s a v)"
proof -
  have e: "virtio_write16 s a v = (if a AND 1 \<noteq> 0 then s else if fst (virtio_get_ram_ptr s a True) = 0 then snd (virtio_get_ram_ptr s a True)
      else (snd (virtio_get_ram_ptr s a True))\<lparr>vram := host_st (vram s) (fst (virtio_get_ram_ptr s a True)) 2 (ucast v)\<rparr>)"
    by (simp add: virtio_write16_def get_ram_ptr_eq)
  note w = write_word_result [OF assms aligned_in_page(1) [of a], where v = "ucast v"]
  show "vdma (addrs a 2) s (virtio_write16 s a v)"
    using w vdma_refl [OF assms] by (cases "a AND 1 = 0") (simp_all add: e)
  show "vput s a (val_bytes 2 (ucast v)) (virtio_write16 s a v)" if "is_ram (vmap s) a" "a AND 1 = 0"
    using w that by (simp add: e)
qed

lemma write32_result:
  assumes "map_ok (vmap s)"
  shows "vdma (addrs a 4) s (virtio_write32 s a v)"
    and "is_ram (vmap s) a \<Longrightarrow> a AND 3 = 0 \<Longrightarrow> vput s a (val_bytes 4 (ucast v)) (virtio_write32 s a v)"
proof -
  have e: "virtio_write32 s a v = (if a AND 3 \<noteq> 0 then s else if fst (virtio_get_ram_ptr s a True) = 0 then snd (virtio_get_ram_ptr s a True)
      else (snd (virtio_get_ram_ptr s a True))\<lparr>vram := host_st (vram s) (fst (virtio_get_ram_ptr s a True)) 4 (ucast v)\<rparr>)"
    by (simp add: virtio_write32_def get_ram_ptr_eq)
  note w = write_word_result [OF assms aligned_in_page(2) [of a], where v = "ucast v"]
  show "vdma (addrs a 4) s (virtio_write32 s a v)"
    using w vdma_refl [OF assms] by (cases "a AND 3 = 0") (simp_all add: e)
  show "vput s a (val_bytes 4 (ucast v)) (virtio_write32 s a v)" if "is_ram (vmap s) a" "a AND 3 = 0"
    using w that by (simp add: e)
qed

end
