(* ===== verification/VirtioSafe.thy ===== *)
theory VirtioSafe
  imports VirtioDev VirtioMem
begin

text \<open>
  What holds of a VIRTIO device whatever the guest does: its registers stay in their ranges, its
  interrupt line follows its interrupt status, and its memory accesses change bytes of the guest's
  RAM only and leave their pages dirty. The guest's writes, descriptors and rings are arbitrary
  (cyclic chains included); \<open>safe\<close> is the contract of every operation.
\<close>

section \<open>The contract\<close>

definition regs_ok :: "'b virtio \<Rightarrow> bool" where
  "regs_ok s \<longleftrightarrow> unat (queue_sel s) < MAX_QUEUE
     \<and> (\<forall>q < MAX_QUEUE. (\<exists>k < 32. q_num (queue s q) = 2 ^ k) \<and> q_ready (queue s q) \<le> 1)
     \<and> irq_level s = (if int_status s = 0 then 0 else 1)"

definition safe :: "'b virtio \<Rightarrow> 'b virtio \<Rightarrow> bool" where
  "safe s s' \<longleftrightarrow> (map_ok (vmap s) \<and> regs_ok s \<longrightarrow>
     dma UNIV (vmap s) (vram s) (vmap s') (vram s') \<and> regs_ok s')"

lemma safe_refl [inv_intros]: "safe s s"
  by (simp add: safe_def dma_refl)

lemma safe_trans:
  assumes "safe s t" "safe t u"
  shows "safe s u"
proof -
  have "dma UNIV (vmap s) (vram s) (vmap u) (vram u) \<and> regs_ok u" if s: "map_ok (vmap s)" "regs_ok s"
  proof -
    have t: "dma UNIV (vmap s) (vram s) (vmap t) (vram t)" "regs_ok t" using assms(1) s by (simp_all add: safe_def)
    then have "map_ok (vmap t)" by (simp add: dma_def)
    then have u: "dma UNIV (vmap t) (vram t) (vmap u) (vram u)" "regs_ok u" using assms(2) t(2) by (simp_all add: safe_def)
    then show ?thesis using dma_trans [OF t(1) u(1)] by simp
  qed
  then show ?thesis by (simp add: safe_def)
qed

lemma safe_vdma: "map_ok (vmap s) \<Longrightarrow> vdma A s t \<Longrightarrow> safe s t"
  using vdma_frame [of A s t] vdma_mono [of A s t UNIV] by (auto simp: safe_def regs_ok_def vdma_def)

text \<open>Changes outside the memory, and of the fields the invariant does not mention.\<close>

lemma safe_regs:
  assumes "vmap t = vmap s" "vram t = vram s" "regs_ok s \<Longrightarrow> regs_ok t"
  shows "safe s t"
  using assms dma_refl by (simp add: safe_def)

lemma safe_fields [inv_intros]:
  "safe s (s\<lparr>backend := b\<rparr>)" "safe s (s\<lparr>config_space := cs\<rparr>)" "safe s (s\<lparr>device_features_sel := v\<rparr>)"
  by (rule safe_regs; simp add: regs_ok_def)+

lemma safe_upd_req [inv_intros]: "safe s (upd_req s f)"
  unfolding upd_req_def by (rule safe_fields)

lemma safe_upd_queue [inv_intros]:
  assumes "\<And>k. q_num qs = 2 ^ k \<Longrightarrow> k < 32 \<Longrightarrow> \<exists>k' < 32. q_num (f qs) = 2 ^ k'" "q_ready qs \<le> 1 \<Longrightarrow> q_ready (f qs) \<le> 1"
    and "qs = queue s q"
  shows "safe s (upd_queue s q f)"
  using assms by (intro safe_regs) (auto simp: upd_queue_def regs_ok_def)

lemma safe_advance [inv_intros]: "safe s (advance_avail s q)"
  unfolding advance_avail_def by (rule safe_upd_queue [OF _ _ refl]) auto

section \<open>Queue operations\<close>

lemma copy_part_safe:
  assumes "map_ok (vmap s)" "l \<le> 2 ^ 31"
  shows "vdma UNIV s (snd (copy_part s to_queue data pos a l))" "\<not> to_queue \<Longrightarrow> snd (copy_part s to_queue data pos a l) = s"
proof -
  let ?x = "take (nat l) (drop pos data)"
  have "length ?x \<le> nat l" by simp
  also have "\<dots> \<le> 2 ^ 31" using assms(2) by simp
  finally have "length ?x \<le> 2 ^ 64" by simp
  then have "vdma UNIV s (snd (virtio_memcpy_to_ram s a ?x))"
    using to_ram_result [OF assms(1)] vdma_mono by blast
  then show "vdma UNIV s (snd (copy_part s to_queue data pos a l))"
    using vdma_refl [OF assms(1)] by (simp add: copy_part_def)
qed (simp add: copy_part_def)

lemma min_sint_le: "min_int n (sint (w :: u32)) \<le> 2 ^ 31"
  using sint_less [of w] by (simp add: min_int_def)

lemma copy_loop_safe:
  fixes s :: "'b virtio"
  assumes "copy_loop s q to_queue data pos d offset count = Some y"
  shows "map_ok (vmap s) \<longrightarrow> vdma UNIV s (snd (snd y)) \<and> (\<not> to_queue \<longrightarrow> snd (snd y) = s)"
proof (rule copy_loop.raw_induct [OF _ assms, where P = "\<lambda>s q to_queue data pos d offset count y.
    map_ok (vmap s) \<longrightarrow> vdma UNIV s (snd (snd y)) \<and> (\<not> to_queue \<longrightarrow> snd (snd y) = s)"])
  fix rec :: "'b virtio \<Rightarrow> nat \<Rightarrow> bool \<Rightarrow> u8 list \<Rightarrow> nat \<Rightarrow> desc \<Rightarrow> u32 \<Rightarrow> int \<Rightarrow> (int \<times> u8 list \<times> 'b virtio) option"
    and s :: "'b virtio" and q to_queue data pos d offset count y
  assume ih: "\<And>s q to_queue data pos d offset count y. rec s q to_queue data pos d offset count = Some y \<Longrightarrow>
      map_ok (vmap s) \<longrightarrow> vdma UNIV s (snd (snd y)) \<and> (\<not> to_queue \<longrightarrow> snd (snd y) = s)"
  define l where "l = min_int count (sint (d_len d - offset))"
  obtain data1 s1 where c: "copy_part s to_queue data pos (d_addr d + scast offset) l = (data1, s1)" by fastforce
  have "l \<le> 2 ^ 31" unfolding l_def by (rule min_sint_le)
  have s1: "vdma UNIV s s1 \<and> (\<not> to_queue \<longrightarrow> s1 = s)" if "map_ok (vmap s)"
    using copy_part_safe [OF that \<open>l \<le> 2 ^ 31\<close>, of to_queue data pos "d_addr d + scast offset"] c by auto
  assume "(let l = min_int count (sint (d_len d - offset));
          (data1, s1) = copy_part s to_queue data pos (d_addr d + scast offset) l;
          offset1 = offset + word_of_int l
      in if count - l = 0 then Some (0, data1, s1)
         else if int pos + l < 0 then None
         else if offset1 = d_len d then
           if \<not> d_has_next d then Some (-1, data1, s1)
           else let d1 = next_desc s1 q d
             in if d_write d1 \<noteq> to_queue then Some (-1, data1, s1)
                else rec s1 q to_queue data1 (nat (int pos + l)) d1 0 (count - l)
         else rec s1 q to_queue data1 (nat (int pos + l)) d offset1 (count - l)) = Some y"
  then have "snd (snd y) = s1 \<or> (\<exists>data pos d offset count. rec s1 q to_queue data pos d offset count = Some y)"
    by (auto simp: Let_def c simp flip: l_def split: if_splits)
  then have "map_ok (vmap s1) \<longrightarrow> vdma UNIV s1 (snd (snd y)) \<and> (\<not> to_queue \<longrightarrow> snd (snd y) = s1)"
    using ih vdma_refl by metis
  then show "map_ok (vmap s) \<longrightarrow> vdma UNIV s (snd (snd y)) \<and> (\<not> to_queue \<longrightarrow> snd (snd y) = s)"
    using s1 vdma_map(1) vdma_trans_sub [of UNIV s s1 UNIV "snd (snd y)" UNIV] by auto
qed

lemma queue_copy_safe:
  assumes "memcpy_to_from_queue s data q desc_idx offset count to_queue = Some (ret, data', s')" "map_ok (vmap s)"
  shows "vdma UNIV s s' \<and> (\<not> to_queue \<longrightarrow> s' = s)"
  using assms vdma_refl [OF assms(2)]
  by (auto simp: memcpy_to_from_queue_def split: if_splits option.splits prod.splits dest!: copy_loop_safe)

lemma safe_vdmaI: "(map_ok (vmap s) \<Longrightarrow> vdma UNIV s t) \<Longrightarrow> safe s t"
  using safe_vdma [of s UNIV t] by (auto simp: safe_def)

lemma memcpy_to_queue_safe:
  assumes "memcpy_to_queue s q desc_idx offset data count = Some (ret, s')"
  shows "safe s s'"
proof (rule safe_vdmaI)
  assume ok: "map_ok (vmap s)"
  obtain data' where "memcpy_to_from_queue s data q desc_idx offset count True = Some (ret, data', s')"
    using assms by (auto simp: memcpy_to_queue_def)
  then show "vdma UNIV s s'" using queue_copy_safe [OF _ ok] by blast
qed

lemma write_safe [inv_intros]: "safe s (virtio_write16 s a v16)" "safe s (virtio_write32 s a v32)"
  by (rule safe_vdmaI, erule vdma_mono [OF write16_result(1)], simp)
    (rule safe_vdmaI, erule vdma_mono [OF write32_result(1)], simp)

lemma raise_1_safe: "safe t (raise_irq (t\<lparr>int_status := int_status t OR push_bit k 1\<rparr>) 1)" if "k < 32"
proof (rule safe_regs)
  have "bit (int_status t OR push_bit k 1) k" using that by (simp add: bit_simps)
  then have "int_status t OR push_bit k 1 \<noteq> 0" by auto
  then show "regs_ok t \<Longrightarrow> regs_ok (raise_irq (t\<lparr>int_status := int_status t OR push_bit k 1\<rparr>) 1)"
    by (simp add: regs_ok_def raise_irq_def)
qed (simp_all add: raise_irq_def)

lemma consume_safe [inv_intros]: "safe s (virtio_consume_desc s q desc_idx len)"
  unfolding virtio_consume_desc_def Let_def
  by (rule safe_trans [OF write_safe(1)], rule safe_trans [OF write_safe(2)], rule safe_trans [OF write_safe(2)])
    (use raise_1_safe [of 0] in simp)

section \<open>Register accesses of a device that keeps the contract\<close>

lemma reset_safe [inv_intros]: "safe s (virtio_reset (raise_irq s 0))"
proof (rule safe_regs)
  show "regs_ok (virtio_reset (raise_irq s 0))"
    by (auto simp: regs_ok_def virtio_reset_def raise_irq_def reset_queue_def virtio_consts intro!: exI [of _ 4])
qed (simp_all add: virtio_reset_def raise_irq_def)

lemma upd_sel_safe [inv_intros]:
  assumes "\<And>qs. q_num (f qs) = q_num qs" "\<And>qs. q_ready qs \<le> 1 \<Longrightarrow> q_ready (f qs) \<le> 1"
  shows "safe s (upd_sel_queue s f)"
  unfolding upd_sel_queue_def by (rule safe_upd_queue [OF _ _ refl]) (auto simp: assms)

text \<open>A number with \<open>x & (x - 1)\<close> zero is a power of two.\<close>

lemma power_of_two:
  fixes v :: "'a::len word"
  assumes "v AND (v - 1) = 0" "v \<noteq> 0"
  shows "\<exists>k < LENGTH('a). v = 2 ^ k"
proof -
  define k where "k = (LEAST n. bit v n)"
  obtain n where "bit v n" using assms(2) bit_word_eqI [of v 0] by auto
  then have k: "bit v k" "\<And>n. n < k \<Longrightarrow> \<not> bit v n"
    unfolding k_def by (auto intro: LeastI dest: not_less_Least)
  have kl: "k < LENGTH('a)" using k(1) by (rule bit_imp_le_length)
  define r where "r = push_bit (Suc k) (drop_bit (Suc k) v)"
  have rb: "bit r n \<longleftrightarrow> k < n \<and> bit v n" for n
    by (auto simp: r_def bit_simps simp del: push_bit_Suc dest: bit_imp_le_length)
  have v: "v = r + 2 ^ k"
  proof -
    have "r AND 2 ^ k = 0" by (rule bit_word_eqI) (auto simp: rb bit_simps)
    then have "r + 2 ^ k = r OR 2 ^ k" by (rule disjunctive_add_eq_or)
    also have "\<dots> = v"
    proof (rule bit_word_eqI)
      fix n assume "n < LENGTH('a)"
      then show "bit (r OR 2 ^ k) n = bit v n"
        using k by (cases n k rule: linorder_cases) (auto simp: rb bit_simps)
    qed
    finally show ?thesis by simp
  qed
  have "v - 1 = r + mask k" unfolding v by (simp add: mask_eq_exp_minus_1)
  also have "\<dots> = r OR mask k"
    by (rule disjunctive_add_eq_or, rule bit_word_eqI) (auto simp: rb bit_simps)
  finally have v1: "v - 1 = r OR mask k" .
  have "r = 0"
  proof (rule bit_word_eqI)
    fix n assume "n < LENGTH('a)"
    have "bit v n" if "bit r n" using that by (simp add: rb)
    moreover have "bit (v - 1) n" if "bit r n" using that by (simp add: v1 bit_simps)
    ultimately show "bit r n = bit 0 n" using arg_cong [OF assms(1), of "\<lambda>w. bit w n"] by (auto simp: bit_simps)
  qed
  then show ?thesis using v kl by auto
qed

lemma write_num_safe [inv_intros]: "safe s (write_queue_num s val)"
proof (cases "val AND (val - 1) = 0 \<and> val > 0")
  case True
  then obtain k where "k < 32" "val = 2 ^ k" using power_of_two [of val] by auto
  then show ?thesis
    unfolding write_queue_num_def upd_sel_queue_def by (auto intro!: safe_upd_queue [OF _ _ refl] safe_refl)
qed (auto simp: write_queue_num_def safe_refl)

lemma write_sel_safe [inv_intros]: "safe s (write_queue_sel s val)"
  unfolding write_queue_sel_def by (auto intro!: safe_regs simp: regs_ok_def virtio_consts word_less_nat_alt)

lemma write_status_safe [inv_intros]: "safe s (write_status s val)"
proof -
  have "safe s (s\<lparr>v_status := val\<rparr>)" by (rule safe_regs) (simp_all add: regs_ok_def)
  then show ?thesis using safe_trans reset_safe by (auto simp: write_status_def Let_def)
qed

lemma ack_safe [inv_intros]: "safe s (ack_interrupt s val)"
  by (rule safe_regs) (auto simp: ack_interrupt_def raise_irq_def regs_ok_def Let_def)

lemma isr_safe [inv_intros]: "safe s (raise_irq (s\<lparr>int_status := 0\<rparr>) 0)"
  by (rule safe_regs) (auto simp: raise_irq_def regs_ok_def)

lemma config_change_safe [inv_intros]: "safe s (virtio_config_change_notify s)"
  using raise_1_safe [of 1 s] by (simp add: virtio_config_change_notify_def)

lemma and_1_le: "v AND 1 \<le> 1" for v :: u32
  by (simp add: word_and_le1)

text \<open>The contract of a device: its two callbacks are safe.\<close>

locale virtio_device =
  fixes c :: "'b device_class"
  assumes recv_safe: "device_recv c s q desc_idx read_size write_size = Some (ret, s') \<Longrightarrow> safe s s'"
    and config_safe: "config_written c s = Some s' \<Longrightarrow> safe s s'"
begin

lemma notify_one_safe: "notify_one c s q = Some (ret, s') \<Longrightarrow> safe s s'"
  by (auto simp: notify_one_def Let_def safe_refl split: option.splits if_splits prod.splits intro: recv_safe)

lemma notify_loop_safe:
  assumes "notify_loop c s q avail_idx = Some s'"
  shows "safe s s'"
proof (rule notify_loop.raw_induct [OF _ assms, where P = "\<lambda>c' s q avail_idx s'. c' = c \<longrightarrow> safe s s'", THEN mp, OF _ refl], rule impI)
  fix rec :: "'b device_class \<Rightarrow> 'b virtio \<Rightarrow> nat \<Rightarrow> u16 \<Rightarrow> 'b virtio option" and c' s q avail_idx s'
  assume ih: "\<And>c' s q avail_idx s'. rec c' s q avail_idx = Some s' \<Longrightarrow> c' = c \<longrightarrow> safe s s'" and c: "c' = c"
    and r: "(if last_avail_idx (queue s q) = avail_idx then Some s
      else case notify_one c' s q of None \<Rightarrow> None
        | Some (ret, s1) \<Rightarrow> if ret < 0 then Some s1 else rec c' (advance_avail s1 q) q avail_idx) = Some s'"
  show "safe s s'"
  proof (cases "last_avail_idx (queue s q) = avail_idx")
    case True
    then show ?thesis using r safe_refl by simp
  next
    case False
    then obtain ret s1 where o: "notify_one c s q = Some (ret, s1)" "s' = s1 \<or> rec c (advance_avail s1 q) q avail_idx = Some s'"
      using r c by (auto split: option.splits prod.splits if_splits)
    then have "safe s1 s'" using ih safe_trans [OF safe_advance] safe_refl by blast
    then show ?thesis using safe_trans [OF notify_one_safe [OF o(1)]] by blast
  qed
qed

lemma notify_queue_safe: "notify_queue c s val = Some s' \<Longrightarrow> safe s s'"
  using notify_loop_safe safe_refl by (auto simp: notify_queue_def queue_notify_def split: if_splits)

lemma config_write_safe: "virtio_config_write c s offset val size_log2 = Some s' \<Longrightarrow> safe s s'"
  using safe_trans [OF safe_fields(2) config_safe] safe_refl
  by (auto simp: virtio_config_write_def split: if_splits)

lemma mmio_write_safe: "virtio_mmio_write c s offset val size_log2 = Some s' \<Longrightarrow> safe s s'"
  unfolding virtio_mmio_write_def mmio_write_reg_def
  by (auto split: if_splits intro: config_write_safe notify_queue_safe inv_intros simp: and_1_le)

lemma pci_write_cfg_safe: "safe s (pci_write_cfg s offset val size_log2)"
  unfolding pci_write_cfg_def by (auto intro: inv_intros simp: and_1_le)

lemma pci_write_safe: "virtio_pci_write c s offset val size_log2 = Some s' \<Longrightarrow> safe s s'"
  unfolding virtio_pci_write_def Let_def
  by (auto split: if_splits intro: config_write_safe notify_queue_safe pci_write_cfg_safe safe_refl)

end

lemma pci_read_safe: "virtio_pci_read s offset size_log2 = Some (v, s') \<Longrightarrow> safe s s'"
  unfolding virtio_pci_read_def Let_def by (auto split: if_splits intro: inv_intros)

end
