(* ===== verification/VirtioConfined.thy ===== *)
theory VirtioConfined
  imports VirtioSafe
begin

text \<open>
  The four devices keep the contract of \<^theory_text>\<open>VirtioSafe\<close>; so whatever the guest and the host do, a
  device changes RAM only, marks what it changes as dirty, and its registers and its interrupt line
  stay consistent.
\<close>

section \<open>The devices\<close>

lemma block_end_safe: "virtio_block_req_end s ret = Some s' \<Longrightarrow> safe s s'"
  using safe_trans [OF memcpy_to_queue_safe consume_safe]
  by (auto simp: virtio_block_req_end_def Let_def split: if_splits option.splits prod.splits)

lemma block_read_safe: "block_read_request ops heap s sector_num write_size = Some (ret, s') \<Longrightarrow> safe s s'"
  using safe_trans [OF safe_upd_req safe_upd_req] safe_trans [OF safe_upd_req block_end_safe]
  by (auto simp: block_read_request_def Let_def split: if_splits option.splits prod.splits)

lemma block_write_safe:
  "block_write_request ops heap s q desc_idx sector_num read_size write_size = Some (ret, s') \<Longrightarrow> safe s s'"
  using safe_trans [OF safe_upd_req safe_upd_req] safe_trans [OF safe_upd_req block_end_safe]
  by (auto simp: block_write_request_def Let_def split: if_splits option.splits prod.splits)

lemma block_recv_safe:
  "virtio_block_recv_request ops heap s q desc_idx read_size write_size = Some (ret, s') \<Longrightarrow> safe s s'"
  using safe_trans [OF safe_upd_req block_read_safe] safe_trans [OF safe_upd_req block_write_safe] safe_upd_req safe_refl
  by (auto simp: virtio_block_recv_request_def Let_def split: if_splits option.splits prod.splits)

interpretation block: virtio_device "block_class ops heap" for ops :: "'d block_ops" and heap
  by unfold_locales (auto simp: block_class_def safe_refl intro: block_recv_safe)

lemma net_recv_safe: "virtio_net_recv_request heap s q desc_idx read_size write_size = Some (ret, s') \<Longrightarrow> safe s s'"
  using safe_trans [OF safe_fields(1) consume_safe] safe_refl
  by (auto simp: virtio_net_recv_request_def Let_def split: if_splits option.splits prod.splits)

interpretation net: virtio_device "net_class heap" for heap
  by unfold_locales (auto simp: net_class_def safe_refl intro: net_recv_safe)

lemma console_recv_safe: "virtio_console_recv_request heap s q desc_idx read_size write_size = Some (ret, s') \<Longrightarrow> safe s s'"
  using safe_trans [OF safe_fields(1) consume_safe] safe_refl
  by (auto simp: virtio_console_recv_request_def Let_def split: if_splits option.splits prod.splits)

interpretation console: virtio_device "console_class heap" for heap
  by unfold_locales (auto simp: console_class_def safe_refl intro: console_recv_safe)

lemma input_config_safe: "safe s (virtio_input_config_write s)"
  unfolding virtio_input_config_write_def Let_def by (rule safe_fields)

interpretation input: virtio_device input_class
  by unfold_locales
    (auto simp: input_class_def virtio_input_recv_request_def intro: input_config_safe inv_intros split: if_splits)

section \<open>The host's operations\<close>

lemma deliver_safe: "deliver s q data = Some s' \<Longrightarrow> safe s s'"
  using safe_trans [OF memcpy_to_queue_safe safe_trans [OF consume_safe safe_advance]]
  by (auto simp: deliver_def Let_def)

lemma block_cb_safe: "virtio_block_req_cb ops heap s data ret = Some s' \<Longrightarrow> safe s s'"
  using safe_trans [OF safe_upd_req safe_trans [OF block_end_safe safe_trans [OF safe_upd_req]]] block.notify_loop_safe safe_refl
  by (auto simp: virtio_block_req_cb_def queue_notify_def split: option.splits if_splits) blast+

lemma net_write_safe: "virtio_net_write_packet s data = Some s' \<Longrightarrow> safe s s'"
  using safe_trans [OF memcpy_to_queue_safe safe_trans [OF memcpy_to_queue_safe safe_trans [OF consume_safe safe_advance]]] safe_refl
  by (auto simp: virtio_net_write_packet_def Let_def split: option.splits if_splits prod.splits)

lemma console_write_safe: "virtio_console_write_data s data = Some (ret, s') \<Longrightarrow> safe s s'"
  using deliver_safe safe_refl by (auto simp: virtio_console_write_data_def split: if_splits)

lemma resize_safe: "safe s (virtio_console_resize_event s w h)"
  unfolding virtio_console_resize_event_def by (rule safe_trans [OF safe_fields(2) config_change_safe])

lemma queue_event_safe: "virtio_input_queue_event s ty code val = Some (ret, s') \<Longrightarrow> safe s s'"
  using deliver_safe safe_refl by (auto simp: virtio_input_queue_event_def split: if_splits)

lemma send_events_safe: "send_events s es = Some (ret, s') \<Longrightarrow> safe s s'"
proof (induction s es rule: send_events.induct)
  case (1 s)
  then show ?case by (simp add: safe_refl)
next
  case (2 s ty code val es)
  then obtain r1 s1 where e: "virtio_input_queue_event s ty code val = Some (r1, s1)" by (auto split: option.splits)
  show ?case
  proof (cases "r1 = 0")
    case True
    then show ?thesis using 2 e safe_trans [OF queue_event_safe [OF e]] by simp
  next
    case False
    then show ?thesis using "2.prems" e queue_event_safe [OF e] by simp
  qed
qed

lemma key_event_safe: "virtio_input_send_key_event s down key = Some (ret, s') \<Longrightarrow> safe s s'"
  using send_events_safe safe_refl unfolding virtio_input_send_key_event_def
  by (auto split: if_splits simp del: send_events.simps)

lemma mouse_event_safe:
  assumes "virtio_input_send_mouse_event s dx dy dz buttons = Some (ret, s')"
  shows "safe s s'"
proof (cases "in_type (backend s) = INPUT_KEYBOARD")
  case True
  then show ?thesis using assms safe_refl by (simp add: virtio_input_send_mouse_event_def)
next
  case False
  then obtain es r1 s1 where 1: "send_events s es = Some (r1, s1)"
    and r: "r1 \<noteq> 0 \<Longrightarrow> s' = s1"
      "r1 = 0 \<Longrightarrow> (case send_events s1 (button_events buttons (buttons_state (backend s1))) of
            None \<Rightarrow> None
          | Some (ret2, s2) \<Rightarrow>
              if ret2 \<noteq> 0 then Some (ret2, s2)
              else virtio_input_queue_event (s2\<lparr>backend := (backend s2)\<lparr>buttons_state := buttons\<rparr>\<rparr>) 0 0 0) = Some (ret, s')"
    using assms unfolding virtio_input_send_mouse_event_def Let_def
    by (auto split: option.splits prod.splits if_splits simp del: send_events.simps)
  have "safe s1 s'"
  proof (cases "r1 = 0")
    case True
    then obtain r2 s2 where 2: "send_events s1 (button_events buttons (buttons_state (backend s1))) = Some (r2, s2)"
      "s' = s2 \<or> virtio_input_queue_event (s2\<lparr>backend := (backend s2)\<lparr>buttons_state := buttons\<rparr>\<rparr>) 0 0 0 = Some (ret, s')"
      using r(2) by (auto split: option.splits prod.splits if_splits)
    then have "safe s2 s'" using safe_trans [OF safe_fields(1) queue_event_safe] safe_refl by auto
    then show ?thesis by (rule safe_trans [OF send_events_safe [OF 2(1)]])
  qed (use r safe_refl in simp)
  then show ?thesis by (rule safe_trans [OF send_events_safe [OF 1]])
qed

section \<open>Runs\<close>

text \<open>
  A step of the device \<open>c\<close>: a register access through one of the transports, or an operation of the
  host. Between the steps the rest of the machine may change the RAM and the dirty bits.
\<close>

inductive virtio_step :: "'b device_class \<Rightarrow> ('b virtio \<Rightarrow> 'b virtio \<Rightarrow> bool) \<Rightarrow> 'b virtio \<Rightarrow> 'b virtio \<Rightarrow> bool"
  for c :: "'b device_class" and host :: "'b virtio \<Rightarrow> 'b virtio \<Rightarrow> bool" where
  mmio_write: "virtio_mmio_write c s offset val size_log2 = Some s' \<Longrightarrow> virtio_step c host s s'"
| pci_write: "virtio_pci_write c s offset val size_log2 = Some s' \<Longrightarrow> virtio_step c host s s'"
| pci_read: "virtio_pci_read s offset size_log2 = Some (val, s') \<Longrightarrow> virtio_step c host s s'"
| host_op: "host s s' \<Longrightarrow> virtio_step c host s s'"

inductive_cases virtio_stepE: "virtio_step c host s s'"

inductive virtio_run :: "'b device_class \<Rightarrow> ('b virtio \<Rightarrow> 'b virtio \<Rightarrow> bool) \<Rightarrow> 'b virtio \<Rightarrow> 'b virtio \<Rightarrow> bool"
  for c :: "'b device_class" and host :: "'b virtio \<Rightarrow> 'b virtio \<Rightarrow> bool" and s0 :: "'b virtio" where
  start: "virtio_run c host s0 s0"
| device: "virtio_run c host s0 t \<Longrightarrow> virtio_step c host t u \<Longrightarrow> virtio_run c host s0 u"
| machine: "virtio_run c host s0 t \<Longrightarrow> map_same (vmap t) m \<Longrightarrow> map_ok m \<Longrightarrow> virtio_run c host s0 (t\<lparr>vmap := m, vram := mem\<rparr>)"

definition block_host :: "'d block_ops \<Rightarrow> (nat \<Rightarrow> u8) \<Rightarrow> 'd block_dev virtio \<Rightarrow> 'd block_dev virtio \<Rightarrow> bool" where
  "block_host ops heap s s' \<longleftrightarrow> req_in_progress (backend s) \<and> (\<exists>data ret. virtio_block_req_cb ops heap s data ret = Some s')"

definition net_host :: "net_dev virtio \<Rightarrow> net_dev virtio \<Rightarrow> bool" where
  "net_host s s' \<longleftrightarrow> (\<exists>data. virtio_net_write_packet s data = Some s')"

definition console_host :: "console_dev virtio \<Rightarrow> console_dev virtio \<Rightarrow> bool" where
  "console_host s s' \<longleftrightarrow> (\<exists>data ret. virtio_console_write_data s data = Some (ret, s'))
     \<or> (\<exists>w h. s' = virtio_console_resize_event s w h)"

definition input_host :: "input_dev virtio \<Rightarrow> input_dev virtio \<Rightarrow> bool" where
  "input_host s s' \<longleftrightarrow> (\<exists>down key ret. virtio_input_send_key_event s down key = Some (ret, s'))
     \<or> (\<exists>dx dy dz buttons ret. virtio_input_send_mouse_event s dx dy dz buttons = Some (ret, s'))"

text \<open>What every run of the device keeps, and what its next step may change.\<close>

definition confined :: "'b device_class \<Rightarrow> ('b virtio \<Rightarrow> 'b virtio \<Rightarrow> bool) \<Rightarrow> 'b virtio \<Rightarrow> bool" where
  "confined c host s0 \<longleftrightarrow> (\<forall>s. virtio_run c host s0 s \<longrightarrow> regs_ok s
     \<and> (\<forall>s'. virtio_step c host s s' \<longrightarrow> dma UNIV (vmap s) (vram s) (vmap s') (vram s')))"

context virtio_device
begin

lemma step_safe:
  assumes "virtio_step c host s s'" "\<And>s s'. host s s' \<Longrightarrow> safe s s'"
  shows "safe s s'"
  using assms(1) by (cases rule: virtio_step.cases) (auto intro: mmio_write_safe pci_write_safe pci_read_safe assms(2))

lemma run_ok:
  assumes "virtio_run c host s0 s" "\<And>s s'. host s s' \<Longrightarrow> safe s s'" "map_ok (vmap s0)" "regs_ok s0"
  shows "map_ok (vmap s) \<and> regs_ok s"
  using assms(1)
proof (induction rule: virtio_run.induct)
  case start
  then show ?case using assms by simp
next
  case (device t u)
  then show ?case using step_safe [OF device.hyps(2) assms(2)] by (auto simp: safe_def dma_def)
next
  case (machine t m mem)
  then show ?case by (simp add: regs_ok_def)
qed

lemma run_confined:
  assumes "\<And>s s'. host s s' \<Longrightarrow> safe s s'" "map_ok (vmap s0)" "regs_ok s0"
  shows "confined c host s0"
  unfolding confined_def
proof (intro allI impI conjI)
  fix s assume r: "virtio_run c host s0 s"
  then show "regs_ok s" using run_ok [OF r assms] by simp
  fix s' assume "virtio_step c host s s'"
  then show "dma UNIV (vmap s) (vram s) (vmap s') (vram s')"
    using run_ok [OF r assms] step_safe [OF _ assms(1)] by (auto simp: safe_def)
qed

end

lemma init_regs:
  assumes "virtio_init m mem addr opaque dev_id config_size b = Some s"
  shows "regs_ok s"
  using assms
  by (auto simp: virtio_init_def virtio_reset_def regs_ok_def reset_queue_def virtio_consts
      split: option.splits intro!: exI [of _ 4])

lemma regs_ok_fields [simp]:
  "regs_ok (s\<lparr>config_space := cs\<rparr>) = regs_ok s" "regs_ok (s\<lparr>device_features := v\<rparr>) = regs_ok s"
  "regs_ok s \<Longrightarrow> regs_ok (upd_queue s q (\<lambda>qs. qs\<lparr>manual_recv := b\<rparr>))"
  by (simp_all add: regs_ok_def upd_queue_def)

lemma device_init_regs:
  "virtio_block_init ops m mem addr opaque d = Some sb \<Longrightarrow> regs_ok sb"
  "virtio_net_init m mem addr opaque mac = Some sn \<Longrightarrow> regs_ok sn"
  "virtio_console_init m mem addr opaque = Some sc \<Longrightarrow> regs_ok sc"
  "virtio_input_init m mem addr opaque ty = Some si \<Longrightarrow> regs_ok si"
  using init_regs
  by (fastforce simp: virtio_block_init_def virtio_net_init_def virtio_console_init_def virtio_input_init_def Let_def)+

text \<open>C10: After its initialisation, and in every run of the block, network, console or input device of which each operation
  returns in the model, whatever registers the guest writes, whatever descriptor chains and rings it builds and whatever
  the host delivers, a device changes bytes of the guest's RAM only and marks the pages it changes
  as dirty; its selected queue exists, every queue size is a power of two, and its interrupt line is
  raised exactly while its interrupt status is not zero. An operation in which the C code walks a cyclic chain for ever or leaves its
  own buffers (the uninitialised descriptor of a table outside the RAM, an index beyond the disk's sector table) has no result in
  the model, so that nothing is said of what follows it.
\<close>

theorem virtio_devices_confined:
  assumes "virtio_block_init ops m1 mem1 addr1 op1 d = Some sb" "map_ok (vmap sb)"
    and "virtio_net_init m2 mem2 addr2 op2 mac = Some sn" "map_ok (vmap sn)"
    and "virtio_console_init m3 mem3 addr3 op3 = Some sc" "map_ok (vmap sc)"
    and "virtio_input_init m4 mem4 addr4 op4 ty = Some si" "map_ok (vmap si)"
  shows "confined (block_class ops heap) (block_host ops heap) sb \<and> confined (net_class heap) net_host sn
    \<and> confined (console_class heap) console_host sc \<and> confined input_class input_host si"
proof (intro conjI)
  show "confined (block_class ops heap) (block_host ops heap) sb"
    by (rule block.run_confined [OF _ assms(2) device_init_regs(1) [OF assms(1)]]) (auto simp: block_host_def block_cb_safe)
  show "confined (net_class heap) net_host sn"
    by (rule net.run_confined [OF _ assms(4) device_init_regs(2) [OF assms(3)]]) (auto simp: net_host_def net_write_safe)
  show "confined (console_class heap) console_host sc"
    by (rule console.run_confined [OF _ assms(6) device_init_regs(3) [OF assms(5)]])
      (auto simp: console_host_def intro: console_write_safe resize_safe)
  show "confined input_class input_host si"
    by (rule input.run_confined [OF _ assms(8) device_init_regs(4) [OF assms(7)]])
      (auto simp: input_host_def intro: key_event_safe mouse_event_safe)
qed

text \<open>A machine with 64 KB of RAM.\<close>

definition demo_map :: phys_mem_map where
  "demo_map = [zero_range\<lparr>pr_is_ram := True, pr_addr := 0x80000000, pr_org_size := 0x10000,
     pr_size := 0x10000, pr_phys_mem := 0x100000\<rparr>]"

definition demo_ops :: "unit block_ops" where
  "demo_ops = \<lparr>get_sector_count = (\<lambda>_. 8), read_async = (\<lambda>d sec data n. Some (0, data, d)),
     write_async = (\<lambda>d sec data n. Some (0, d))\<rparr>"

lemma demo_init:
  "\<exists>s. virtio_init demo_map mem 0x40010000 0 dev_id n b = Some s
    \<and> vmap s = demo_map @ [zero_range\<lparr>pr_addr := 0x40010000, pr_org_size := 4096, pr_size := 4096, pr_devio_flags := 7\<rparr>]"
  by (simp add: virtio_init_def virtio_reset_def cpu_register_device_def demo_map_def virtio_consts iomem_consts zero_range_def)

lemma demo_map_ok:
  "map_ok (demo_map @ [zero_range\<lparr>pr_addr := 0x40010000, pr_org_size := 4096, pr_size := 4096, pr_devio_flags := 7\<rparr>])"
  by (simp add: map_ok_def mem_map_ok_def demo_map_def zero_range_def range_ok_def disjoint_ranges_def bitmap_ok_def
      less_Suc_eq all_conj_distrib nth_append)

lemma virtio_devices_confined_witness:
  "\<exists>sb sn sc si. virtio_console_init demo_map (\<lambda>_. 0) 0x40010000 0 = Some sc
    \<and> confined (block_class demo_ops (\<lambda>_. 0)) (block_host demo_ops (\<lambda>_. 0)) sb \<and> confined (net_class (\<lambda>_. 0)) net_host sn
    \<and> confined (console_class (\<lambda>_. 0)) console_host sc \<and> confined input_class input_host si"
proof -
  have b: "\<exists>s. virtio_block_init demo_ops demo_map (\<lambda>_. 0) 0x40010000 0 () = Some s \<and> map_ok (vmap s)"
    using demo_init demo_map_ok by (fastforce simp: virtio_block_init_def Let_def)
  have n: "\<exists>s. virtio_net_init demo_map (\<lambda>_. 0) 0x40010000 0 (replicate 6 0) = Some s \<and> map_ok (vmap s)"
    using demo_init demo_map_ok by (fastforce simp: virtio_net_init_def upd_queue_def)
  have c: "\<exists>s. virtio_console_init demo_map (\<lambda>_. 0) 0x40010000 0 = Some s \<and> map_ok (vmap s)"
    using demo_init demo_map_ok by (fastforce simp: virtio_console_init_def upd_queue_def)
  have i: "\<exists>s. virtio_input_init demo_map (\<lambda>_. 0) 0x40010000 0 INPUT_MOUSE = Some s \<and> map_ok (vmap s)"
    using demo_init demo_map_ok by (fastforce simp: virtio_input_init_def upd_queue_def)
  obtain sb sn sc si where
    "virtio_block_init demo_ops demo_map (\<lambda>_. 0) 0x40010000 0 () = Some sb" "map_ok (vmap sb)"
    "virtio_net_init demo_map (\<lambda>_. 0) 0x40010000 0 (replicate 6 0) = Some sn" "map_ok (vmap sn)"
    and sc: "virtio_console_init demo_map (\<lambda>_. 0) 0x40010000 0 = Some sc" "map_ok (vmap sc)"
    and "virtio_input_init demo_map (\<lambda>_. 0) 0x40010000 0 INPUT_MOUSE = Some si" "map_ok (vmap si)"
    using b n c i by blast
  then show ?thesis
    using virtio_devices_confined [of demo_ops demo_map "\<lambda>_. 0" "0x40010000" 0 "()" sb demo_map "\<lambda>_. 0" "0x40010000" 0
        "replicate 6 0" sn demo_map "\<lambda>_. 0" "0x40010000" 0 sc demo_map "\<lambda>_. 0" "0x40010000" 0 INPUT_MOUSE si "\<lambda>_. 0"]
    by blast
qed

end
