(* ===== verification/VirtioChain.thy ===== *)
theory VirtioChain
  imports VirtioMem
begin

text \<open>
  Well-formed descriptor chains: readable descriptors, then writable ones, as a finite list. On such a
  chain the copies of the queues read and write the concatenation of its buffers, the sizes are those
  of its two halves, and all the loops return; on a cyclic chain they do not.
\<close>

section \<open>Chains\<close>

text \<open>A descriptor of the table that lies in RAM.\<close>

definition load_desc :: "'b virtio \<Rightarrow> nat \<Rightarrow> nat \<Rightarrow> desc option" where
  "load_desc s q k =
     (let a = desc_addr (queue s q) + of_nat k * 16
      in if k < unat (q_num (queue s q)) \<and> ram_block (vmap s) a 16 then Some (vbytes s a 16) else None)"

fun linked :: "'b virtio \<Rightarrow> nat \<Rightarrow> desc list \<Rightarrow> bool" where
  "linked s q [] \<longleftrightarrow> False"
| "linked s q [d] \<longleftrightarrow> \<not> d_has_next d"
| "linked s q (d # d' # ds) \<longleftrightarrow> d_has_next d \<and> load_desc s q (unat (d_next d)) = Some d' \<and> linked s q (d' # ds)"

definition dsize :: "desc \<Rightarrow> nat" where
  "dsize d = unat (d_len d)"

definition dsizes :: "desc list \<Rightarrow> nat" where
  "dsizes ds = sum_list (map dsize ds)"

definition buffer :: "'b virtio \<Rightarrow> desc \<Rightarrow> u8 list" where
  "buffer s d = vbytes s (d_addr d) (dsize d)"

definition buffers :: "'b virtio \<Rightarrow> desc list \<Rightarrow> u8 list" where
  "buffers s ds = concat (map (buffer s) ds)"

text \<open>\<open>rs\<close> are the readable and \<open>ws\<close> the writable descriptors of the chain that starts at \<open>k\<close>.\<close>

definition chain :: "'b virtio \<Rightarrow> nat \<Rightarrow> nat \<Rightarrow> desc list \<Rightarrow> desc list \<Rightarrow> bool" where
  "chain s q k rs ws \<longleftrightarrow> map_ok (vmap s) \<and> linked s q (rs @ ws) \<and> load_desc s q k = Some (hd (rs @ ws))
     \<and> (\<forall>d \<in> set rs. \<not> d_write d) \<and> (\<forall>d \<in> set ws. d_write d)
     \<and> (\<forall>d \<in> set (rs @ ws). ram_block (vmap s) (d_addr d) (dsize d))
     \<and> dsizes rs < 2 ^ 31 \<and> dsizes ws < 2 ^ 31"

lemma dsizes_simps [simp]: "dsizes [] = 0" "dsizes (d # ds) = dsize d + dsizes ds" "dsizes (xs @ ys) = dsizes xs + dsizes ys"
  by (simp_all add: dsizes_def)

lemma length_buffer [simp]: "length (buffer s d) = dsize d"
  by (simp add: buffer_def vbytes_def)

lemma buffers_simps [simp]: "buffers s [] = []" "buffers s (d # ds) = buffer s d @ buffers s ds"
  "buffers s (xs @ ys) = buffers s xs @ buffers s ys"
  by (simp_all add: buffers_def)

lemma length_buffers [simp]: "length (buffers s ds) = dsizes ds"
  by (induction ds) simp_all

lemma get_desc_load:
  assumes "map_ok (vmap s)" "load_desc s q k = Some d" "length d0 = 16"
  shows "get_desc s d0 q (int k) = (0, d)"
  using assms from_ram_result [OF assms(1), of 0 16 d0 "desc_addr (queue s q) + of_nat k * 16"]
  by (auto simp: get_desc_def load_desc_def Let_def write_bytes_def vbytes_def split: if_splits)

lemma length_loaded: "load_desc s q k = Some d \<Longrightarrow> length d = 16"
  by (auto simp: load_desc_def Let_def vbytes_def split: if_splits)

lemma first_desc_load:
  assumes "map_ok (vmap s)" "load_desc s q k = Some d"
  shows "first_desc s q (int k) = Some d"
  using get_desc_load [OF assms, of "replicate 16 0"] by (simp add: first_desc_def)

lemma next_desc_load:
  assumes "map_ok (vmap s)" "load_desc s q (unat (d_next d)) = Some d'" "length d = 16"
  shows "next_desc s q d = d'"
proof -
  have "uint (d_next d) = int (unat (d_next d))" by simp
  then show ?thesis using get_desc_load [OF assms] by (simp only: next_desc_def) simp
qed

lemma sint_small: "unat w < 2 ^ 31 \<Longrightarrow> sint w = int (unat w)" for w :: u32
proof -
  assume "unat w < 2 ^ 31"
  moreover define n where "n = unat w"
  ultimately have n: "n < 2 ^ 31" by simp
  have "sint w = signed_take_bit 31 (int n)" by (simp add: n_def sint_uint)
  also have "\<dots> = int n" using n by (intro signed_take_bit_int_eq_self) simp_all
  finally show ?thesis by (simp add: n_def)
qed

lemma sint_size: "dsize d < 2 ^ 31 \<Longrightarrow> sint (d_len d) = int (dsize d)"
  by (simp add: dsize_def sint_small)

lemma unat_of_nat_u32: "n < 2 ^ 32 \<Longrightarrow> unat (of_nat n :: u32) = n"
  by (simp add: unsigned_of_nat take_bit_nat_eq_self)

lemma add_len_size:
  assumes "n + dsize d < 2 ^ 31"
  shows "add_len (int n) d = int (n + dsize d)"
proof -
  have "unat (of_nat n + d_len d) = n + dsize d"
    using assms by (subst unat_add_small) (simp_all add: dsize_def unat_of_nat_u32)
  then show ?thesis using assms by (simp add: add_len_def sint_small)
qed

text \<open>The rest of a chain is a chain.\<close>

lemma linked_rest: "linked s q (xs @ ds) \<Longrightarrow> ds \<noteq> [] \<Longrightarrow> linked s q ds"
proof (induction xs)
  case (Cons x xs)
  then show ?case by (cases "xs @ ds") auto
qed simp

lemma linked_length: "linked s q (d # xs @ e # ds) \<Longrightarrow> length e = 16"
proof (induction xs arbitrary: d)
  case Nil
  then show ?case by (auto dest: length_loaded)
qed auto

section \<open>Sizes\<close>

lemma write_size_chain:
  assumes "map_ok (vmap s)" "linked s q (d # ds)" "\<forall>d \<in> set (d # ds). d_write d" "n + dsizes (d # ds) < 2 ^ 31" "length d = 16"
  shows "write_size_loop s q d (int n) = Some (0, int (n + dsizes (d # ds)))"
  using assms
proof (induction ds arbitrary: d n)
  case Nil
  then show ?case by (subst write_size_loop.simps) (simp add: add_len_size)
next
  case (Cons d' ds)
  have l: "load_desc s q (unat (d_next d)) = Some d'" "d_has_next d" using Cons.prems(2) by simp_all
  have "write_size_loop s q d (int n) = write_size_loop s q d' (int (n + dsize d))"
    using Cons.prems l next_desc_load [OF Cons.prems(1) l(1) Cons.prems(5)] add_len_size [of n d]
    by (subst write_size_loop.simps) simp
  then show ?case using Cons.IH [of d' "n + dsize d"] Cons.prems length_loaded [OF l(1)] by (simp add: add.assoc)
qed

lemma read_size_chain:
  assumes "map_ok (vmap s)" "linked s q ((d # rs) @ ws)" "\<forall>d \<in> set (d # rs). \<not> d_write d" "\<forall>d \<in> set ws. d_write d"
    and "n + dsizes (d # rs) < 2 ^ 31" "length d = 16"
  shows "\<exists>d1. read_size_loop s q d (int n) = Some (ws \<noteq> [], int (n + dsizes (d # rs)), d1) \<and> (ws \<noteq> [] \<longrightarrow> d1 = hd ws)"
  using assms
proof (induction rs arbitrary: d n)
  case Nil
  show ?case
  proof (cases ws)
    case Nil
    then show ?thesis using Nil.prems by (subst read_size_loop.simps) (simp add: add_len_size)
  next
    case (Cons d' ds)
    then have l: "load_desc s q (unat (d_next d)) = Some d'" "d_has_next d" using Nil.prems(2) by simp_all
    then have "read_size_loop s q d (int n) = read_size_loop s q d' (int (n + dsize d))"
      using Nil.prems next_desc_load [OF Nil.prems(1) l(1) Nil.prems(6)] add_len_size [of n d]
      by (subst read_size_loop.simps) simp
    also have "\<dots> = Some (True, int (n + dsize d), d')"
      using Nil.prems(4) Cons by (subst read_size_loop.simps) simp
    finally show ?thesis using Cons by simp
  qed
next
  case (Cons d' rs)
  have l: "load_desc s q (unat (d_next d)) = Some d'" "d_has_next d" using Cons.prems(2) by simp_all
  have "read_size_loop s q d (int n) = read_size_loop s q d' (int (n + dsize d))"
    using Cons.prems l next_desc_load [OF Cons.prems(1) l(1) Cons.prems(6)] add_len_size [of n d]
    by (subst read_size_loop.simps) simp
  then show ?case using Cons.IH [of d' "n + dsize d"] Cons.prems length_loaded [OF l(1)] by (simp add: add.assoc)
qed

lemma rw_size_chain:
  assumes "chain s q k rs ws"
  shows "get_desc_rw_size s q (int k) = Some (0, int (dsizes rs), int (dsizes ws))"
proof -
  note c = assms [unfolded chain_def]
  have ok: "map_ok (vmap s)" and ld: "load_desc s q k = Some (hd (rs @ ws))" using c by auto
  note first = first_desc_load [OF ok ld]
  note len = length_loaded [OF ld]
  show ?thesis
  proof (cases rs)
    case Nil
    then obtain d ds where ws: "ws = d # ds" using c by (cases ws) auto
    have "read_size_loop s q d 0 = Some (True, 0, d)"
      using c ws by (subst read_size_loop.simps) simp
    moreover have "write_size_loop s q d (int 0) = Some (0, int (0 + dsizes (d # ds)))"
      using c ws Nil len by (intro write_size_chain [OF ok]) auto
    ultimately show ?thesis using first Nil ws by (simp add: get_desc_rw_size_def)
  next
    case (Cons d rs')
    obtain d1 where r: "read_size_loop s q d (int 0) = Some (ws \<noteq> [], int (0 + dsizes (d # rs')), d1)" "ws \<noteq> [] \<longrightarrow> d1 = hd ws"
      using read_size_chain [OF ok, of q d rs' ws 0] c Cons len by auto
    show ?thesis
    proof (cases ws)
      case Nil
      then show ?thesis using first r Cons by (simp add: get_desc_rw_size_def)
    next
      case w: (Cons e es)
        have e: "linked s q (e # es)" "length e = 16"
        using c w Cons linked_rest [of s q rs "e # es"] linked_length [of s q d rs' e es] by auto
      have "write_size_loop s q e (int 0) = Some (0, int (0 + dsizes (e # es)))"
        using c w e by (intro write_size_chain [OF ok]) auto
      then show ?thesis using first r Cons w by (simp add: get_desc_rw_size_def)
    qed
  qed
qed

section \<open>Offsets\<close>

lemma len_word: "d_len d = of_nat (dsize d)"
  by (simp add: dsize_def)

lemma dsize_u32: "dsize d < 2 ^ 32"
  using unsigned_less [of "d_len d"] by (simp add: dsize_def)

lemma of_nat_less_len: "off < 2 ^ 32 \<Longrightarrow> of_nat off < d_len d \<longleftrightarrow> off < dsize d"
  by (simp add: word_less_nat_alt unat_of_nat_u32 dsize_def)

lemma of_nat_eq_len: "off < 2 ^ 32 \<Longrightarrow> of_nat off = d_len d \<longleftrightarrow> off = dsize d"
  by (metis len_word unat_of_nat_u32 dsize_u32)

lemma scast_u32: "off < 2 ^ 31 \<Longrightarrow> scast (of_nat off :: u32) = (of_nat off :: u64)"
proof -
  assume "off < 2 ^ 31"
  then have "sint (of_nat off :: u32) = int off" by (subst sint_small) (simp_all add: unat_of_nat_u32)
  then show ?thesis by (simp add: scast_eq)
qed

text \<open>The descriptor that holds an offset of the chain's buffers.\<close>

lemma find_offset_chain:
  assumes "map_ok (vmap s)" "linked s q (d # ds @ rest)" "length d = 16" "\<forall>x \<in> set (d # ds). d_write x = wr"
    and "off < dsizes (d # ds)" "dsizes (d # ds) < 2 ^ 31"
  shows "\<exists>pre e post. d # ds = pre @ e # post \<and> dsizes pre \<le> off \<and> off - dsizes pre < dsize e
    \<and> find_offset_desc s q wr d (of_nat off) = Some (0, e, of_nat (off - dsizes pre))"
  using assms
proof (induction ds arbitrary: d off)
  case Nil
  then have "find_offset_desc s q wr d (of_nat off) = Some (0, d, of_nat off)"
    by (subst find_offset_desc.simps) (simp add: of_nat_less_len)
  then show ?case using Nil.prems by (rule_tac x = "[]" in exI, rule_tac x = d in exI) simp
next
  case (Cons d' ds)
  show ?case
  proof (cases "off < dsize d")
    case True
    then have "find_offset_desc s q wr d (of_nat off) = Some (0, d, of_nat off)"
      using Cons.prems by (subst find_offset_desc.simps) (simp add: of_nat_less_len)
    then show ?thesis using True by (rule_tac x = "[]" in exI, rule_tac x = d in exI) simp
  next
    case False
    have l: "load_desc s q (unat (d_next d)) = Some d'" "d_has_next d" using Cons.prems(2) by simp_all
    have "find_offset_desc s q wr d (of_nat off) = find_offset_desc s q wr d' (of_nat off - d_len d)"
      using Cons.prems False l next_desc_load [OF Cons.prems(1) l(1) Cons.prems(3)]
      by (subst find_offset_desc.simps) (simp add: of_nat_less_len)
    moreover have "(of_nat off - d_len d :: u32) = of_nat (off - dsize d)" using False by (simp add: len_word of_nat_diff)
    ultimately have e: "find_offset_desc s q wr d (of_nat off) = find_offset_desc s q wr d' (of_nat (off - dsize d))" by simp
    have "\<exists>pre e post. d' # ds = pre @ e # post \<and> dsizes pre \<le> off - dsize d \<and> off - dsize d - dsizes pre < dsize e
      \<and> find_offset_desc s q wr d' (of_nat (off - dsize d)) = Some (0, e, of_nat (off - dsize d - dsizes pre))"
      using Cons.prems False length_loaded [OF l(1)] by (intro Cons.IH) auto
    then obtain pre e post where "d' # ds = pre @ e # post" "dsizes pre \<le> off - dsize d" "off - dsize d - dsizes pre < dsize e"
      "find_offset_desc s q wr d' (of_nat (off - dsize d)) = Some (0, e, of_nat (off - dsize d - dsizes pre))"
      by blast
    then show ?thesis using e False by (rule_tac x = "d # pre" in exI, rule_tac x = e in exI, rule_tac x = post in exI) (simp add: diff_diff_add)
  qed
qed

lemma find_write_chain:
  assumes "map_ok (vmap s)" "linked s q (rs @ ws)" "length (hd (rs @ ws)) = 16" "\<forall>d \<in> set rs. \<not> d_write d" "\<forall>d \<in> set ws. d_write d"
    and "ws \<noteq> []"
  shows "find_write_desc s q (hd (rs @ ws)) = Some (0, hd ws)"
  using assms
proof (induction rs)
  case Nil
  then show ?case by (subst find_write_desc.simps) (cases ws; simp)
next
  case (Cons d rs)
  obtain d' ds where n: "rs @ ws = d' # ds" using Cons.prems(6) by (cases "rs @ ws") auto
  then have l: "load_desc s q (unat (d_next d)) = Some d'" "d_has_next d" "linked s q (rs @ ws)" using Cons.prems(2) by simp_all
  have "find_write_desc s q d = find_write_desc s q d'"
    using Cons.prems l next_desc_load [OF Cons.prems(1) l(1)] by (subst find_write_desc.simps) simp
  then show ?case using Cons.IH [OF Cons.prems(1) l(3)] Cons.prems n length_loaded [OF l(1)] by simp
qed

section \<open>Reading a chain\<close>

lemma vbytes_take: "k \<le> n \<Longrightarrow> take k (vbytes s a n) = vbytes s a k"
  by (rule nth_equalityI) (simp_all add: vbytes_def)

lemma vbytes_drop: "drop k (vbytes s a n) = vbytes s (a + of_nat k) (n - k)"
  by (rule nth_equalityI) (simp_all add: vbytes_def add.assoc)

lemma ram_block_sub: "ram_block m a n \<Longrightarrow> off + k \<le> n \<Longrightarrow> ram_block m (a + of_nat off) k"
  unfolding ram_block_def by (metis (no_types, lifting) add.assoc add_less_le_mono add.commute nat_add_left_cancel_less of_nat_add order_less_le_trans)

lemma copy_length:
  assumes "off \<le> dsize d" "dsize d < 2 ^ 31"
  shows "min_int (int n) (sint (d_len d - of_nat off)) = int (min n (dsize d - off))"
proof -
  have "(d_len d - of_nat off :: u32) = of_nat (dsize d - off)" using assms(1) by (simp add: len_word of_nat_diff)
  then have "sint (d_len d - of_nat off) = int (dsize d - off)"
    using assms(2) by (simp add: sint_small unat_of_nat_u32)
  then show ?thesis by (simp add: min_int_def)
qed

lemma copy_from_chain:
  assumes "map_ok (vmap s)" "linked s q (d # ds @ rest)" "length d = 16" "\<forall>x \<in> set (d # ds). \<not> d_write x"
    and "\<forall>x \<in> set (d # ds). ram_block (vmap s) (d_addr x) (dsize x)" "dsizes (d # ds) < 2 ^ 31"
    and "off \<le> dsize d" "0 < n" "off + n \<le> dsizes (d # ds)" "pos + n \<le> length data"
  shows "copy_loop s q False data pos d (of_nat off) (int n) =
    Some (0, write_bytes data pos (take n (drop off (buffers s (d # ds)))), s)"
  using assms
proof (induction ds arbitrary: d off n pos data)
  case Nil
  have l: "min_int (int n) (sint (d_len d - of_nat off)) = int n"
    using copy_length [of off d n] Nil.prems by (simp add: min_def)
  have "ram_block (vmap s) (d_addr d + of_nat off) n" by (rule ram_block_sub) (use Nil.prems in auto)
  then have "virtio_memcpy_from_ram s data pos (d_addr d + of_nat off) n = (0, write_bytes data pos (vbytes s (d_addr d + of_nat off) n))"
    using from_ram_result [OF Nil.prems(1)] Nil.prems by simp
  then show ?case
    using Nil.prems by (subst copy_loop.simps) (simp add: l copy_part_def scast_u32 buffer_def vbytes_drop vbytes_take Let_def)
next
  case (Cons d' ds)
  define l where "l = min n (dsize d - off)"
  have ml: "min_int (int n) (sint (d_len d - of_nat off)) = int l"
    using copy_length [of off d n] Cons.prems by (simp add: l_def)
  define data1 where "data1 = write_bytes data pos (vbytes s (d_addr d + of_nat off) l)"
  have "ram_block (vmap s) (d_addr d + of_nat off) l" by (rule ram_block_sub) (use Cons.prems in \<open>auto simp: l_def\<close>)
  then have "virtio_memcpy_from_ram s data pos (d_addr d + of_nat off) l = (0, data1)"
    using from_ram_result [OF Cons.prems(1), of pos l data "d_addr d + of_nat off"] Cons.prems by (simp add: data1_def l_def)
  then have part: "copy_part s False data pos (d_addr d + scast (of_nat off :: u32)) (int l) = (data1, s)"
    using Cons.prems by (simp add: copy_part_def scast_u32)
  have first: "vbytes s (d_addr d + of_nat off) l = take l (drop off (buffer s d))"
    by (simp add: buffer_def vbytes_drop vbytes_take l_def)
  show ?case
  proof (cases "n \<le> dsize d - off")
    case True
    then have ln: "l = n" by (simp add: l_def)
    show ?thesis using part ml Cons.prems True first [unfolded ln]
      by (subst copy_loop.simps) (simp add: Let_def data1_def ln)
  next
    case False
    then have l: "l = dsize d - off" "l < n" by (simp_all add: l_def)
    have ld: "load_desc s q (unat (d_next d)) = Some d'" "d_has_next d" using Cons.prems(2) by simp_all
    have len1: "length data1 = length data" unfolding data1_def
      by (rule length_write_bytes) (use Cons.prems l in \<open>simp add: vbytes_def\<close>)
    have "(of_nat off + word_of_int (int l) :: u32) = d_len d" using l Cons.prems by (simp add: len_word flip: of_nat_add)
    then have "copy_loop s q False data pos d (of_nat off) (int n) = copy_loop s q False data1 (pos + l) d' (of_nat 0) (int (n - l))"
      using part ml l ld next_desc_load [OF Cons.prems(1) ld(1) Cons.prems(3)] Cons.prems(4)
      by (subst copy_loop.simps) (simp add: Let_def of_nat_diff nat_int_add)
    also have "\<dots> = Some (0, write_bytes data1 (pos + l) (take (n - l) (drop 0 (buffers s (d' # ds)))), s)"
      using Cons.prems l len1 length_loaded [OF ld(1)] by (intro Cons.IH) auto
    also have "write_bytes data1 (pos + l) (take (n - l) (drop 0 (buffers s (d' # ds)))) = write_bytes data pos (take n (drop off (buffers s (d # d' # ds))))"
    proof -
      have "drop off (buffer s d) = vbytes s (d_addr d + of_nat off) l" using l by (simp add: buffer_def vbytes_drop)
      then have "drop off (buffers s (d # d' # ds)) = vbytes s (d_addr d + of_nat off) l @ buffers s (d' # ds)"
        using Cons.prems(7) by simp
      moreover have "length (vbytes s (d_addr d + of_nat off) l) = l" by (simp add: vbytes_def)
      ultimately have "take n (drop off (buffers s (d # d' # ds))) = vbytes s (d_addr d + of_nat off) l @ take (n - l) (buffers s (d' # ds))"
        using l(2) by (simp only: take_append) simp
      then show ?thesis
        using write_bytes_twice [of pos "vbytes s (d_addr d + of_nat off) l" "take (n - l) (buffers s (d' # ds))" data] Cons.prems l
        by (simp add: data1_def vbytes_def)
    qed
    finally show ?thesis .
  qed
qed

end
