(* ===== verification/VirtioWrite.thy ===== *)
theory VirtioWrite
  imports VirtioChain
begin

text \<open>
  Writing to the writable buffers of a chain, where they overlap neither each other nor the
  descriptor table: the bytes land in their concatenation at the offset, and nothing else changes.
\<close>

definition baddrs :: "desc \<Rightarrow> u64 set" where
  "baddrs d = addrs (d_addr d) (dsize d)"

definition table_addrs :: "'b virtio \<Rightarrow> nat \<Rightarrow> u64 set" where
  "table_addrs s q = addrs (desc_addr (queue s q)) (16 * unat (q_num (queue s q)))"

definition apart :: "'b virtio \<Rightarrow> nat \<Rightarrow> desc list \<Rightarrow> bool" where
  "apart s q ws \<longleftrightarrow> (\<forall>d \<in> set ws. baddrs d \<inter> table_addrs s q = {}) \<and> sorted_wrt (\<lambda>d e. baddrs d \<inter> baddrs e = {}) ws"

text \<open>An access outside the descriptor table leaves the chains.\<close>

lemma load_desc_vdma:
  assumes "vdma A s t" "map_ok (vmap s)" "A \<inter> table_addrs s q = {}"
  shows "load_desc t q k = load_desc s q k"
proof (cases "k < unat (q_num (queue s q))")
  case True
  let ?n = "unat (q_num (queue s q))" and ?b = "desc_addr (queue s q)"
  have "?n < 2 ^ 32" using unsigned_less [of "q_num (queue s q)"] by simp
  then have "addrs (?b + of_nat (16 * k)) 16 \<subseteq> addrs ?b (16 * k + 16)" using True by (intro addrs_shift) simp
  also have "16 * ?n = (16 * k + 16) + (16 * ?n - (16 * k + 16))" using True by simp
  then have "addrs ?b (16 * k + 16) \<subseteq> table_addrs s q" unfolding table_addrs_def by (metis addrs_sub)
  finally have "addrs (?b + of_nat k * 16) 16 \<inter> A = {}" using assms(3) by (auto simp: mult.commute)
  then have "vbytes t (?b + of_nat k * 16) 16 = vbytes s (?b + of_nat k * 16) 16"
    using vdma_bytes [OF assms(1,2)] by simp
  then show ?thesis by (simp add: load_desc_def Let_def vdma_frame(1) [OF assms(1)] vdma_map(4) [OF assms(1)])
next
  case False
  then show ?thesis by (simp add: load_desc_def Let_def vdma_frame(1) [OF assms(1)])
qed

lemma linked_vdma:
  assumes "vdma A s t" "map_ok (vmap s)" "A \<inter> table_addrs s q = {}"
  shows "linked t q ds = linked s q ds"
  by (induction ds rule: induct_list012) (simp_all add: load_desc_vdma [OF assms])

lemma buffer_vdma:
  assumes "vdma A s t" "map_ok (vmap s)" "A \<inter> baddrs d = {}"
  shows "buffer t d = buffer s d"
proof -
  have "dsize d \<le> 2 ^ 64" using dsize_u32 [of d] by simp
  then show ?thesis using vdma_bytes [OF assms(1,2), of "d_addr d" "dsize d"] assms(3) by (auto simp: buffer_def baddrs_def)
qed

lemma buffers_vdma:
  assumes "vdma A s t" "map_ok (vmap s)" "\<forall>d \<in> set ds. A \<inter> baddrs d = {}"
  shows "buffers t ds = buffers s ds"
  using assms(3) by (induction ds) (simp_all add: buffer_vdma [OF assms(1,2)])

text \<open>Bytes written inside one buffer.\<close>

lemma buffer_put:
  assumes "vput s (d_addr d + of_nat off) xs t" "off + length xs \<le> dsize d" "ram_block (vmap s) (d_addr d) (dsize d)"
  shows "buffer t d = write_bytes (buffer s d) off xs" "vdma (baddrs d) s t"
proof -
  have n: "dsize d < 2 ^ 32" by (rule dsize_u32)
  have "vbyte t (d_addr d + of_nat i) = write_bytes (buffer s d) off xs ! i" if i: "i < dsize d" for i
  proof -
    have "is_ram (vmap s) (d_addr d + of_nat i)" using assms(3) i by (simp add: ram_block_def)
    then have b: "vbyte t (d_addr d + of_nat i) = (if d_addr d + of_nat i \<in> addrs (d_addr d + of_nat off) (length xs)
        then xs ! unat (d_addr d + of_nat i - (d_addr d + of_nat off)) else vbyte s (d_addr d + of_nat i))"
      using assms(1) by (simp add: vput_def)
    have "d_addr d + of_nat i - (d_addr d + of_nat off) = (of_nat i - of_nat off :: u64)" by simp
    moreover have "unat (of_nat i - of_nat off :: u64) = (if off \<le> i then i - off else 2 ^ 64 - (off - i))"
    proof -
      have "unat (of_nat i :: u64) = i" "unat (of_nat off :: u64) = off"
        using i n assms(2) by (simp_all add: unsigned_of_nat take_bit_nat_eq_self)
      then show ?thesis using unat_sub_if' [of "of_nat i :: u64" "of_nat off"] by (simp add: add.commute [of i])
    qed
    ultimately have "d_addr d + of_nat i \<in> addrs (d_addr d + of_nat off) (length xs) \<longleftrightarrow> off \<le> i \<and> i < off + length xs"
      "off \<le> i \<Longrightarrow> unat (d_addr d + of_nat i - (d_addr d + of_nat off)) = i - off"
      using i n assms(2) by (auto simp: addrs_def)
    then show ?thesis
      using b i assms(2) by (auto simp: write_bytes_def nth_append buffer_def vbytes_def vbyte_def)
  qed
  moreover have "length (write_bytes (buffer s d) off xs) = dsize d" using assms(2) by (subst length_write_bytes) simp_all
  ultimately show "buffer t d = write_bytes (buffer s d) off xs"
    by (intro nth_equalityI) (auto simp: buffer_def vbytes_def vbyte_def)
  have "addrs (d_addr d + of_nat off) (length xs) \<subseteq> addrs (d_addr d) (off + length xs)" using assms(2) n by (intro addrs_shift) simp
  also have "\<dots> \<subseteq> baddrs d" using addrs_sub [of "d_addr d" "off + length xs" "dsize d - (off + length xs)"] assms(2) by (simp add: baddrs_def)
  finally show "vdma (baddrs d) s t" using assms(1) vdma_mono by (auto simp: vput_def)
qed

section \<open>Lists\<close>

lemma write_bytes_app: "off + length xs \<le> length B \<Longrightarrow> write_bytes (B @ R) off xs = write_bytes B off xs @ R"
  by (simp add: write_bytes_def)

lemma write_bytes_across:
  assumes "off + length xs = length B" "length ys \<le> length R"
  shows "write_bytes B off xs @ write_bytes R 0 ys = write_bytes (B @ R) off (xs @ ys)"
proof -
  have "off + (length xs + length ys) - length B = length ys" using assms by simp
  then show ?thesis using assms by (simp add: write_bytes_def)
qed

section \<open>Writing a chain\<close>

abbreviation all_baddrs :: "desc list \<Rightarrow> u64 set" where
  "all_baddrs ds \<equiv> \<Union> (baddrs ` set ds)"

text \<open>The part of a copy that one buffer takes.\<close>

lemma put_part:
  assumes "map_ok (vmap s)" "ram_block (vmap s) (d_addr d) (dsize d)" "off + length xs \<le> dsize d" "dsize d < 2 ^ 31"
    and "apart s q (d # ds)"
  defines "t \<equiv> snd (virtio_memcpy_to_ram s (d_addr d + scast (of_nat off :: u32)) xs)"
  shows "vdma (baddrs d) s t" "buffer t d = write_bytes (buffer s d) off xs" "buffers t ds = buffers s ds" "apart t q ds"
    "linked t q es = linked s q es"
proof -
  have "ram_block (vmap s) (d_addr d + of_nat off) (length xs)" by (rule ram_block_sub [OF assms(2,3)])
  then have put: "vput s (d_addr d + of_nat off) xs t"
    using to_ram_result [OF assms(1), of xs "d_addr d + of_nat off"] assms(3,4) by (simp add: t_def scast_u32)
  show v: "vdma (baddrs d) s t" and "buffer t d = write_bytes (buffer s d) off xs"
    by (rule buffer_put(2,1) [OF put assms(3,2)])+
  show "buffers t ds = buffers s ds" by (rule buffers_vdma [OF v assms(1)]) (use assms(5) in \<open>simp add: apart_def\<close>)
  show "apart t q ds" using assms(5) by (simp add: apart_def table_addrs_def vdma_frame(1) [OF v])
  show "linked t q es = linked s q es" by (rule linked_vdma [OF v assms(1)]) (use assms(5) in \<open>simp add: apart_def\<close>)
qed

lemma copy_to_chain:
  assumes "map_ok (vmap s)" "linked s q (d # ds)" "length d = 16" "\<forall>x \<in> set (d # ds). d_write x"
    and "\<forall>x \<in> set (d # ds). ram_block (vmap s) (d_addr x) (dsize x)" "dsizes (d # ds) < 2 ^ 31" "apart s q (d # ds)"
    and "off \<le> dsize d" "0 < n" "off + n \<le> dsizes (d # ds)" "pos + n \<le> length data"
  shows "\<exists>s'. copy_loop s q True data pos d (of_nat off) (int n) = Some (0, data, s')
    \<and> vdma (all_baddrs (d # ds)) s s' \<and> buffers s' (d # ds) = write_bytes (buffers s (d # ds)) off (take n (drop pos data))"
  using assms
proof (induction ds arbitrary: s d off n pos)
  case Nil
  define xs where "xs = take n (drop pos data)"
  have xs: "length xs = n" using Nil.prems by (simp add: xs_def)
  define t where "t = snd (virtio_memcpy_to_ram s (d_addr d + scast (of_nat off :: u32)) xs)"
  have p: "vdma (baddrs d) s t" "buffer t d = write_bytes (buffer s d) off xs"
    unfolding t_def by (rule put_part [OF Nil.prems(1) _ _ _ Nil.prems(7)]; use Nil.prems xs in simp)+
  have "min_int (int n) (sint (d_len d - of_nat off)) = int n" using copy_length [of off d n] Nil.prems by (simp add: min_def)
  then have "copy_loop s q True data pos d (of_nat off) (int n) = Some (0, data, t)"
    using Nil.prems by (subst copy_loop.simps) (simp add: copy_part_def Let_def t_def xs_def)
  then show ?case using p by (intro exI [of _ t]) (simp add: xs_def)
next
  case (Cons d' ds)
  define l where "l = min n (dsize d - off)"
  have ml: "min_int (int n) (sint (d_len d - of_nat off)) = int l" using copy_length [of off d n] Cons.prems by (simp add: l_def)
  define xs where "xs = take l (drop pos data)"
  have xs: "length xs = l" "off + l \<le> dsize d" using Cons.prems by (auto simp: xs_def l_def)
  define t where "t = snd (virtio_memcpy_to_ram s (d_addr d + scast (of_nat off :: u32)) xs)"
  have p: "vdma (baddrs d) s t" "buffer t d = write_bytes (buffer s d) off xs" "buffers t (d' # ds) = buffers s (d' # ds)" "apart t q (d' # ds)"
    "linked t q (d' # ds) = linked s q (d' # ds)"
    unfolding t_def by (rule put_part [OF Cons.prems(1) _ _ _ Cons.prems(7)]; use Cons.prems xs in simp)+
  have part: "copy_part s True data pos (d_addr d + scast (of_nat off :: u32)) (int l) = (data, t)"
    by (simp add: copy_part_def t_def xs_def)
  show ?case
  proof (cases "n \<le> dsize d - off")
    case True
    then have ln: "l = n" by (simp add: l_def)
    have "copy_loop s q True data pos d (of_nat off) (int n) = Some (0, data, t)"
      using part ml by (subst copy_loop.simps) (simp add: Let_def ln)
    moreover have "vdma (all_baddrs (d # d' # ds)) s t" using p(1) by (rule vdma_mono) simp
    moreover have "buffers t (d # d' # ds) = write_bytes (buffers s (d # d' # ds)) off xs"
      using p(2,3) xs by (simp add: write_bytes_app)
    ultimately show ?thesis by (intro exI [of _ t]) (simp add: xs_def ln)
  next
    case False
    then have l: "l = dsize d - off" "l < n" by (simp_all add: l_def)
    have ok: "map_ok (vmap t)" by (rule vdma_map(1) [OF p(1)])
    have ld: "load_desc s q (unat (d_next d)) = Some d'" "d_has_next d" using Cons.prems(2) by simp_all
    then have ldt: "load_desc t q (unat (d_next d)) = Some d'"
      using load_desc_vdma [OF p(1) Cons.prems(1)] Cons.prems(7) by (simp add: apart_def)
    have "(of_nat off + word_of_int (int l) :: u32) = d_len d" using l Cons.prems by (simp add: len_word flip: of_nat_add)
    then have step: "copy_loop s q True data pos d (of_nat off) (int n) = copy_loop t q True data (pos + l) d' (of_nat 0) (int (n - l))"
      using part ml l ld(2) next_desc_load [OF ok ldt Cons.prems(3)] Cons.prems(4)
      by (subst copy_loop.simps) (simp add: Let_def of_nat_diff nat_int_add)
    have "\<exists>s'. copy_loop t q True data (pos + l) d' (of_nat 0) (int (n - l)) = Some (0, data, s')
        \<and> vdma (all_baddrs (d' # ds)) t s'
        \<and> buffers s' (d' # ds) = write_bytes (buffers t (d' # ds)) 0 (take (n - l) (drop (pos + l) data))"
      by (rule Cons.IH [OF ok]) (use Cons.prems l p length_loaded [OF ld(1)] vdma_map(4) [OF p(1)] in auto)
    then obtain s' where s': "copy_loop t q True data (pos + l) d' (of_nat 0) (int (n - l)) = Some (0, data, s')"
      "vdma (all_baddrs (d' # ds)) t s'" "buffers s' (d' # ds) = write_bytes (buffers t (d' # ds)) 0 (take (n - l) (drop (pos + l) data))"
      by blast
    have "buffer s' d = buffer t d" by (rule buffer_vdma [OF s'(2) ok]) (use Cons.prems(7) in \<open>auto simp: apart_def\<close>)
    moreover have "take n (drop pos data) = xs @ take (n - l) (drop (pos + l) data)"
      using take_add [of l "n - l" "drop pos data"] l(2) by (simp add: xs_def add.commute)
    ultimately have "buffers s' (d # d' # ds) = write_bytes (buffers s (d # d' # ds)) off (take n (drop pos data))"
      using s'(3) p(2,3) write_bytes_across [of off xs "buffer s d" "take (n - l) (drop (pos + l) data)" "buffers s (d' # ds)"] xs l Cons.prems
      by simp
    moreover have "vdma (all_baddrs (d # d' # ds)) s s'" by (rule vdma_trans_sub [OF p(1) s'(2)]) auto
    ultimately show ?thesis using step s'(1) by (intro exI [of _ s']) simp
  qed
qed

section \<open>The queue copies on a chain\<close>

lemma chain_parts:
  assumes "chain s q k rs ws"
  shows "map_ok (vmap s)" "linked s q (rs @ ws)" "load_desc s q k = Some (hd (rs @ ws))" "length (hd (rs @ ws)) = 16"
    "rs @ ws \<noteq> []" "first_desc s q (int k) = Some (hd (rs @ ws))"
proof -
  show ok: "map_ok (vmap s)" and l: "linked s q (rs @ ws)" and ld: "load_desc s q k = Some (hd (rs @ ws))"
    using assms by (simp_all add: chain_def)
  then show "length (hd (rs @ ws)) = 16" "first_desc s q (int k) = Some (hd (rs @ ws))"
    using length_loaded first_desc_load by blast+
  show "rs @ ws \<noteq> []" using l by (cases "rs @ ws") auto
qed

lemma length_in_chain:
  assumes "linked s q (d # ds)" "length d = 16" "d # ds = pre @ e # post"
  shows "length e = 16"
  using assms linked_length [of s q d "tl pre" e post] by (cases pre) auto

lemma memcpy_from_chain:
  assumes c: "chain s q k rs ws" and n: "off + n \<le> dsizes rs" "n \<le> length data"
  shows "memcpy_from_queue s data q (int k) (int off) (int n) = Some (0, write_bytes data 0 (take n (drop off (buffers s rs))))"
proof (cases "n = 0")
  case True
  then show ?thesis by (simp add: memcpy_from_queue_def memcpy_to_from_queue_def write_bytes_def)
next
  case False
  note p = chain_parts [OF c]
  obtain d ds where rs: "rs = d # ds" using False n by (cases rs) auto
  then have len: "length d = 16" and lk: "linked s q (d # ds @ ws)" using p(2,4) by simp_all
  have all: "\<forall>x \<in> set (d # ds). d_write x = False" "\<forall>x \<in> set rs. ram_block (vmap s) (d_addr x) (dsize x)" "dsizes (d # ds) < 2 ^ 31"
    using c rs by (auto simp: chain_def)
  obtain pre e post where e: "d # ds = pre @ e # post" "dsizes pre \<le> off" "off - dsizes pre < dsize e"
    "find_offset_desc s q False d (of_nat off) = Some (0, e, of_nat (off - dsizes pre))"
    using find_offset_chain [OF p(1) _ _ all(1) _ all(3), of q ws off] p(2,4) n False rs by auto
  have tot: "dsizes (d # ds) = dsizes pre + dsizes (e # post)" unfolding e(1) by simp
  have l: "linked s q (e # post @ ws)" using linked_rest [of s q pre "e # post @ ws"] p(2) rs e(1) by simp
  have "copy_loop s q False data 0 e (of_nat (off - dsizes pre)) (int n)
      = Some (0, write_bytes data 0 (take n (drop (off - dsizes pre) (buffers s (e # post)))), s)"
  proof (rule copy_from_chain [OF p(1) l])
    show "length e = 16"
      by (rule length_in_chain [OF lk len, of pre e "post @ ws"]) (use arg_cong [OF e(1), of "\<lambda>x. x @ ws"] in simp)
    show "\<forall>x \<in> set (e # post). \<not> d_write x" "\<forall>x \<in> set (e # post). ram_block (vmap s) (d_addr x) (dsize x)"
      using all rs e(1) by auto
    show "dsizes (e # post) < 2 ^ 31" "off - dsizes pre + n \<le> dsizes (e # post)" using all(3) tot e(2) n rs by simp_all
  qed (use e False n in auto)
  moreover have "drop (off - dsizes pre) (buffers s (e # post)) = drop off (buffers s rs)"
    using e(2) unfolding rs e(1) by simp
  ultimately have "copy_loop s q False data 0 e (of_nat (off - dsizes pre)) (int n)
      = Some (0, write_bytes data 0 (take n (drop off (buffers s rs))), s)"
    by (simp only:)
  then show ?thesis
    using False p(6) rs e(4) by (simp add: memcpy_from_queue_def memcpy_to_from_queue_def del: buffers_simps)
qed

lemma memcpy_to_chain:
  assumes c: "chain s q k rs ws" and a: "apart s q ws" and n: "off + length data \<le> dsizes ws"
  shows "\<exists>s'. memcpy_to_queue s q (int k) (int off) data (int (length data)) = Some (0, s')
    \<and> vdma (all_baddrs ws) s s' \<and> buffers s' ws = write_bytes (buffers s ws) off data"
proof (cases "data = []")
  case True
  then show ?thesis using vdma_refl chain_parts(1) [OF c] n
    by (intro exI [of _ s]) (simp add: memcpy_to_queue_def memcpy_to_from_queue_def write_bytes_def)
next
  case False
  note p = chain_parts [OF c]
  obtain d ds where ws: "ws = d # ds" using False n by (cases ws) auto
  have all: "\<forall>x \<in> set (d # ds). d_write x = True" "\<forall>x \<in> set ws. ram_block (vmap s) (d_addr x) (dsize x)" "dsizes (d # ds) < 2 ^ 31"
    using c ws by (auto simp: chain_def)
  have f: "find_write_desc s q (hd (rs @ ws)) = Some (0, d)"
    using find_write_chain [OF p(1,2,4)] c ws by (auto simp: chain_def)
  have lw: "linked s q (d # ds)" using linked_rest [OF p(2)] ws by simp
  have len: "length d = 16"
    using length_in_chain [of s q "hd (rs @ ws)" "tl (rs @ ws)" rs d ds] p(2,4,5) ws by simp
  have "off < dsizes (d # ds)" using n False ws by (cases data) auto
  then obtain pre e post where e: "d # ds = pre @ e # post" "dsizes pre \<le> off" "off - dsizes pre < dsize e"
    "find_offset_desc s q True d (of_nat off) = Some (0, e, of_nat (off - dsizes pre))"
    using find_offset_chain [OF p(1) _ len all(1) _ all(3), of q "[]" off] lw by auto
  have tot: "dsizes (d # ds) = dsizes pre + dsizes (e # post)" unfolding e(1) by simp
  have l: "linked s q (e # post)" using linked_rest [of s q pre "e # post"] lw e(1) by simp
  have ap: "apart s q (e # post)" "all_baddrs (e # post) \<inter> all_baddrs pre = {}"
  proof -
    have b: "\<forall>x \<in> set pre. \<forall>y \<in> set (e # post). baddrs x \<inter> baddrs y = {}"
      using a unfolding ws e(1) apart_def sorted_wrt_append by simp
    show "apart s q (e # post)" using a unfolding ws e(1) apart_def sorted_wrt_append by simp
    show "all_baddrs (e # post) \<inter> all_baddrs pre = {}" using b by blast
  qed
  have "\<exists>s'. copy_loop s q True data 0 e (of_nat (off - dsizes pre)) (int (length data)) = Some (0, data, s')
    \<and> vdma (all_baddrs (e # post)) s s'
    \<and> buffers s' (e # post) = write_bytes (buffers s (e # post)) (off - dsizes pre) (take (length data) (drop 0 data))"
  proof (rule copy_to_chain [OF p(1) l _ _ _ _ ap(1)])
    show "length e = 16" by (rule length_in_chain [OF lw len e(1)])
    show "\<forall>x \<in> set (e # post). d_write x" "\<forall>x \<in> set (e # post). ram_block (vmap s) (d_addr x) (dsize x)"
      using all ws e(1) by auto
    show "dsizes (e # post) < 2 ^ 31" "off - dsizes pre + length data \<le> dsizes (e # post)" using all(3) tot e(2) n ws by simp_all
  qed (use e False in auto)
  then obtain s' where s': "copy_loop s q True data 0 e (of_nat (off - dsizes pre)) (int (length data)) = Some (0, data, s')"
    "vdma (all_baddrs (e # post)) s s'" "buffers s' (e # post) = write_bytes (buffers s (e # post)) (off - dsizes pre) data"
    by auto
  have "buffers s' pre = buffers s pre" by (rule buffers_vdma [OF s'(2) p(1)]) (use ap(2) in auto)
  then have "buffers s' ws = buffers s pre @ write_bytes (buffers s (e # post)) (off - dsizes pre) data"
    using s'(3) unfolding ws e(1) by simp
  also have "\<dots> = write_bytes (buffers s pre @ buffers s (e # post)) off data"
    using e(2) by (simp add: write_bytes_def)
  also have "buffers s pre @ buffers s (e # post) = buffers s ws" unfolding ws e(1) by simp
  finally have "buffers s' ws = write_bytes (buffers s ws) off data" .
  moreover have "vdma (all_baddrs ws) s s'" by (rule vdma_mono [OF s'(2)]) (auto simp: ws e(1))
  ultimately show ?thesis
    using False p(6) f e(4) s'(1) ws by (intro exI [of _ s']) (simp add: memcpy_to_queue_def memcpy_to_from_queue_def)
qed

end
