(* ===== verification/VirtioQueue.thy ===== *)
theory VirtioQueue
  imports VirtioWrite
begin

text \<open>
  The rings: what \<open>virtio_consume_desc\<close> leaves in the used ring, and \<open>queue_notify\<close> as the service
  of the entries of the available ring, in their order and once each. A chain that is cyclic is
  never left.
\<close>

section \<open>The used ring\<close>

definition ring_size :: "'b virtio \<Rightarrow> nat \<Rightarrow> nat" where
  "ring_size s q = unat (q_num (queue s q))"

definition used_addrs :: "'b virtio \<Rightarrow> nat \<Rightarrow> u64 set" where
  "used_addrs s q = addrs (used_addr (queue s q)) (4 + 8 * ring_size s q)"

text \<open>The ring lies in RAM, is aligned, and its size is a power of two.\<close>

definition used_ok :: "'b virtio \<Rightarrow> nat \<Rightarrow> bool" where
  "used_ok s q \<longleftrightarrow> map_ok (vmap s) \<and> used_addr (queue s q) AND 3 = 0
     \<and> ram_block (vmap s) (used_addr (queue s q)) (4 + 8 * ring_size s q) \<and> (\<exists>n < 32. q_num (queue s q) = 2 ^ n)"

definition used_idx :: "'b virtio \<Rightarrow> nat \<Rightarrow> u16" where
  "used_idx s q = virtio_read16 s (used_addr (queue s q) + 2)"

definition used_elem :: "'b virtio \<Rightarrow> nat \<Rightarrow> nat \<Rightarrow> u8 list" where
  "used_elem s q i = vbytes s (used_addr (queue s q) + of_nat (4 + 8 * i)) 8"

definition used_slot :: "'b virtio \<Rightarrow> nat \<Rightarrow> nat" where
  "used_slot s q = unat (used_idx s q) mod ring_size s q"

lemma mask_index:
  assumes "m = 2 ^ n" "n < 32"
  shows "(ucast (i :: u16) AND (m - 1) :: u32) = of_nat (unat i mod unat m)" "unat m = 2 ^ n"
proof -
  show um: "unat m = 2 ^ n" using assms unat_of_nat_u32 [of "2 ^ n"] power_strict_increasing [of n 32 "2 :: nat"] by simp
  have "unat (ucast i AND (m - 1) :: u32) = unat i mod 2 ^ n"
  proof -
    have "m - 1 = (mask n :: u32)" using assms(1) by (simp add: mask_eq_exp_minus_1)
    then have "unat (ucast i AND (m - 1) :: u32) = unat (take_bit n (ucast i :: u32))" by (simp add: and_mask_take_bit)
    also have "\<dots> = unat i mod 2 ^ n"
    proof -
      have "unat i < 65536" using unsigned_less [of i] by simp
      then show ?thesis by (simp add: unat_take_bit unsigned_ucast_eq take_bit_nat_eq_self)
    qed
    finally show ?thesis .
  qed
  then show "(ucast i AND (m - 1) :: u32) = of_nat (unat i mod unat m)" unfolding um by (metis of_nat_unat ucast_id)
qed

lemma ring_offset:
  assumes "j < 65536" "c \<le> 8"
  shows "ucast (of_nat j * of_nat c :: u32) = (of_nat (c * j) :: u64)"
proof -
  have "j * c \<le> 65535 * 8" using assms by (intro mult_mono) simp_all
  then have n: "c * j < 2 ^ 32" by (simp add: mult.commute)
  have e: "(of_nat j * of_nat c :: u32) = of_nat (c * j)" by simp
  have "unat (ucast (of_nat (c * j) :: u32) :: u64) = unat (of_nat (c * j) :: u64)"
    using n by (simp only: unsigned_ucast_eq unat_of_nat_u32) (simp add: unsigned_of_nat take_bit_nat_eq_self del: of_nat_mult)
  then show ?thesis unfolding e by (simp add: word_unat_eq_iff)
qed

lemma aligned_add: "a AND 3 = 0 \<Longrightarrow> (a + of_nat (4 * k)) AND 3 = 0" "a AND 3 = 0 \<Longrightarrow> (a + 2) AND 1 = 0" for a :: u64
proof -
  assume a: "a AND 3 = 0"
  have "unat (x AND mask k) = unat x mod 2 ^ k" for x :: u64 and k by (simp only: and_mask_take_bit unat_take_bit)
  from this [of _ 1] this [of _ 2]
  have m: "x AND 3 = 0 \<longleftrightarrow> 4 dvd unat x" "x AND 1 = 0 \<longleftrightarrow> 2 dvd unat x" for x :: u64
    by (simp_all add: mask_eq_exp_minus_1 word_unat_eq_iff dvd_eq_mod_eq_0)
  have d: "unat (a + b) mod 4 = (unat a + unat b) mod 4" "unat (a + b) mod 2 = (unat a + unat b) mod 2" for b
    by (simp_all add: unat_word_ariths mod_mod_cancel)
  have u: "unat (of_nat (4 * k) :: u64) mod 4 = 0" by (simp add: unsigned_of_nat take_bit_eq_mod mod_mod_cancel del: of_nat_mult)
  have "unat a mod 4 = 0" using a m by (simp add: dvd_eq_mod_eq_0)
  then have "(unat a + unat (of_nat (4 * k) :: u64)) mod 4 = 0" using u by (metis add.right_neutral mod_add_eq mod_0)
  then show "(a + of_nat (4 * k)) AND 3 = 0" unfolding m using d(1) by (simp add: dvd_eq_mod_eq_0)
  have "unat a mod 2 = 0" using \<open>unat a mod 4 = 0\<close> by presburger
  then have "(unat a + 2) mod 2 = 0" by simp
  then show "(a + 2) AND 1 = 0" unfolding m using d(2) [of 2] by (simp add: dvd_eq_mod_eq_0)
qed

lemma ring_addr:
  assumes "q_num (queue s q) = 2 ^ n" "n < 32" "c \<le> 8"
  shows "(a :: u64) + ucast ((ucast (i :: u16) AND (q_num (queue s q) - 1)) * of_nat c :: u32) = a + of_nat (c * (unat i mod ring_size s q))"
proof -
  have "unat i mod ring_size s q \<le> unat i" by simp
  also have "unat i < 65536" using unsigned_less [of i] by simp
  finally have "ucast (of_nat (unat i mod ring_size s q) * of_nat c :: u32) = (of_nat (c * (unat i mod ring_size s q)) :: u64)"
    by (rule ring_offset [OF _ assms(3)])
  then show ?thesis unfolding mask_index(1) [OF assms(1,2)] ring_size_def by simp
qed

text \<open>Bytes that are not written.\<close>

lemma vbytes_other:
  assumes "vdma (addrs b k) s t" "map_ok (vmap s)" "addrs a n \<inter> addrs b k = {}" "n \<le> 2 ^ 64"
  shows "vbytes t a n = vbytes s a n"
  using vdma_bytes [OF assms(1,2) _ assms(4), of a] assms(3) by simp

lemma addrs_disjoint:
  assumes "x + n \<le> y \<or> y + k \<le> x" "x + n \<le> 2 ^ 64" "y + k \<le> 2 ^ 64"
  shows "addrs (b + of_nat x) n \<inter> addrs (b + of_nat y) k = {}"
proof -
  have "False" if ij: "i < n" "j < k" "b + of_nat x + of_nat i = b + of_nat y + of_nat j" for i j
  proof -
    have "(of_nat (x + i) :: u64) = of_nat (y + j)" using ij(3) by (simp add: algebra_simps)
    then have "unat (of_nat (x + i) :: u64) = unat (of_nat (y + j) :: u64)" by simp
    then have "x + i = y + j" using ij assms(2,3) by (simp add: unsigned_of_nat take_bit_nat_eq_self del: of_nat_add)
    then show False using assms(1) ij by linarith
  qed
  then show ?thesis by (auto elim!: addrsE)
qed

text \<open>The two blocks that are written: the index, and the entry in the slot of the old index.\<close>

definition used_entry :: "int \<Rightarrow> int \<Rightarrow> u8 list" where
  "used_entry desc_idx len = val_bytes 4 (ucast (word_of_int desc_idx :: u32)) @ val_bytes 4 (ucast (word_of_int len :: u32))"

lemma length_used_entry [simp]: "length (used_entry desc_idx len) = 8"
  by (simp add: used_entry_def)

definition slot_addr :: "'b virtio \<Rightarrow> nat \<Rightarrow> u64" where
  "slot_addr s q = used_addr (queue s q) + of_nat (4 + 8 * used_slot s q)"

lemma used_ok_facts:
  assumes "used_ok s q"
  shows "map_ok (vmap s)" "used_addr (queue s q) AND 3 = 0" "ring_size s q < 2 ^ 32" "used_slot s q < ring_size s q"
    "x + k \<le> 4 + 8 * ring_size s q \<Longrightarrow> ram_block (vmap s) (used_addr (queue s q) + of_nat x) k"
proof -
  obtain n where n: "n < 32" "q_num (queue s q) = 2 ^ n" using assms by (auto simp: used_ok_def)
  show "map_ok (vmap s)" "used_addr (queue s q) AND 3 = 0" using assms by (simp_all add: used_ok_def)
  show "ring_size s q < 2 ^ 32" using unsigned_less [of "q_num (queue s q)"] by (simp add: ring_size_def)
  have "0 < ring_size s q" using mask_index(2) [OF n(2,1)] by (simp add: ring_size_def)
  then show "used_slot s q < ring_size s q" by (simp add: used_slot_def)
  show "ram_block (vmap s) (used_addr (queue s q) + of_nat x) k" if "x + k \<le> 4 + 8 * ring_size s q"
    by (rule ram_block_sub [OF _ that]) (use assms in \<open>simp add: used_ok_def\<close>)
qed

lemma consume_writes:
  fixes desc_idx len :: int
  assumes u: "used_ok s q"
  obtains s1 s3 where "virtio_consume_desc s q desc_idx len = raise_irq (s3\<lparr>int_status := int_status s3 OR 1\<rparr>) 1"
    "vput s (used_addr (queue s q) + 2) (val_bytes 2 (ucast (used_idx s q + 1))) s1"
    "vput s1 (slot_addr s q) (used_entry desc_idx len) s3"
proof -
  let ?b = "used_addr (queue s q)" and ?j = "used_slot s q" and ?a = "slot_addr s q"
  obtain n where n: "n < 32" "q_num (queue s q) = 2 ^ n" using u by (auto simp: used_ok_def)
  note f = used_ok_facts [OF u]
  have addr: "?b + 4 + ucast ((ucast (used_idx s q) AND (q_num (queue s q) - 1)) * 8 :: u32) = ?a"
    using ring_addr [OF n(2,1), of 8 "?b + 4" "used_idx s q"] by (simp add: slot_addr_def used_slot_def add.assoc)
  define s1 where "s1 = virtio_write16 s (?b + 2) (used_idx s q + 1)"
  define s2 where "s2 = virtio_write32 s1 ?a (word_of_int desc_idx)"
  define s3 where "s3 = virtio_write32 s2 (?a + 4) (word_of_int len)"
  have s': "virtio_consume_desc s q desc_idx len = raise_irq (s3\<lparr>int_status := int_status s3 OR 1\<rparr>) 1"
    unfolding virtio_consume_desc_def Let_def s3_def s2_def s1_def addr [symmetric] by (simp add: used_idx_def)
  have "is_ram (vmap s) (?b + 2)" "is_ram (vmap s) ?a" "is_ram (vmap s) (?a + 4)"
    using f(5) [of 2 1] f(5) [of "4 + 8 * ?j" 1] f(5) [of "8 + 8 * ?j" 1] f(4) by (simp_all add: ram_block_def slot_addr_def algebra_simps)
  note r = this
  have al: "?a AND 3 = 0" "(?a + 4) AND 3 = 0"
    using aligned_add(1) [OF f(2), of "1 + 2 * ?j"] aligned_add(1) [OF f(2), of "2 + 2 * ?j"] by (simp_all add: slot_addr_def algebra_simps)
  have w1: "vput s (?b + 2) (val_bytes 2 (ucast (used_idx s q + 1))) s1"
    unfolding s1_def by (rule write16_result(2) [OF f(1) r(1) aligned_add(2) [OF f(2)]])
  then have v1: "vdma (addrs (?b + 2) 2) s s1" by (simp add: vput_def)
  have w2: "vput s1 ?a (val_bytes 4 (ucast (word_of_int desc_idx :: u32))) s2"
    unfolding s2_def by (rule write32_result(2) [OF vdma_map(1) [OF v1] _ al(1)]) (use r vdma_map(3) [OF v1] in simp)
  then have v2: "vdma (addrs ?a 4) s1 s2" by (simp add: vput_def)
  have "vput s2 (?a + of_nat (length (val_bytes 4 (ucast (word_of_int desc_idx :: u32))))) (val_bytes 4 (ucast (word_of_int len :: u32))) s3"
    using write32_result(2) [OF vdma_map(1) [OF v2], of "?a + 4" "word_of_int len"] r vdma_map(3) [OF v2] vdma_map(3) [OF v1] al(2)
    by (simp add: s3_def)
  then have "vput s1 ?a (used_entry desc_idx len) s3" unfolding used_entry_def by (rule vput_append [OF w2]) simp
  then show thesis using that s' w1 by blast
qed

text \<open>The entry is put into its slot and the index is incremented; nothing else of the RAM changes,
  and the interrupt is raised.\<close>

lemma consume_result:
  fixes desc_idx len :: int
  assumes u: "used_ok s q"
  defines "s' \<equiv> virtio_consume_desc s q desc_idx len"
  shows "vdma (used_addrs s q) s (s'\<lparr>int_status := int_status s, irq_level := irq_level s\<rparr>)"
    and "used_idx s' q = used_idx s q + 1" and "used_elem s' q (used_slot s q) = used_entry desc_idx len"
    and "i < ring_size s q \<Longrightarrow> i \<noteq> used_slot s q \<Longrightarrow> used_elem s' q i = used_elem s q i"
    and "int_status s' = int_status s OR 1" "irq_level s' = 1"
proof -
  let ?b = "used_addr (queue s q)" and ?N = "ring_size s q" and ?j = "used_slot s q"
  note f = used_ok_facts [OF u]
  obtain s1 s3 where s': "s' = raise_irq (s3\<lparr>int_status := int_status s3 OR 1\<rparr>) 1"
    and w1: "vput s (?b + 2) (val_bytes 2 (ucast (used_idx s q + 1))) s1" and w3: "vput s1 (slot_addr s q) (used_entry desc_idx len) s3"
    unfolding s'_def by (rule consume_writes [OF u])
  have v1: "vdma (addrs (?b + of_nat 2) 2) s s1" and v3: "vdma (addrs (?b + of_nat (4 + 8 * ?j)) 8) s1 s3"
    using w1 w3 by (simp_all add: vput_def slot_addr_def)
  have mem: "vbytes s' x k = vbytes s3 x k" for x k by (simp add: s' raise_irq_def vbytes_def)
  have "addrs (?b + of_nat 2) 2 \<subseteq> used_addrs s q" "addrs (?b + of_nat (4 + 8 * ?j)) 8 \<subseteq> used_addrs s q"
    using addrs_shift [of 2 2 ?b] addrs_sub [of ?b 4 "8 * ?N"] addrs_shift [of "4 + 8 * ?j" 8 ?b]
      addrs_sub [of ?b "4 + 8 * ?j + 8" "8 * ?N - 8 * ?j - 8"] f(3,4) by (auto simp: used_addrs_def)
  then have v: "vdma (used_addrs s q) s s3" by (intro vdma_trans_sub [OF v1 v3]) blast
  note q3 = vdma_frame(1-3) [OF v]
  have "s'\<lparr>int_status := int_status s, irq_level := irq_level s\<rparr> = s3" unfolding s' by (simp add: raise_irq_def flip: q3(2,3))
  then show "vdma (used_addrs s q) s (s'\<lparr>int_status := int_status s, irq_level := irq_level s\<rparr>)" using v by simp
  have qs: "queue s' = queue s" using q3 by (simp add: s' raise_irq_def)
  show "int_status s' = int_status s OR 1" "irq_level s' = 1" using q3 by (simp_all add: s' raise_irq_def)
  show "used_elem s' q ?j = used_entry desc_idx len"
    using vput_bytes [OF w3] f(5) [of "4 + 8 * ?j" 8] f(4) vdma_map(4) [OF v1] by (simp add: used_elem_def qs mem slot_addr_def)
  show "used_elem s' q i = used_elem s q i" if i: "i < ?N" "i \<noteq> ?j"
  proof -
    have "vbytes s3 (?b + of_nat (4 + 8 * i)) 8 = vbytes s1 (?b + of_nat (4 + 8 * i)) 8"
      by (rule vbytes_other [OF v3 vdma_map(1) [OF v1] addrs_disjoint]) (use i f(3,4) in auto)
    also have "\<dots> = vbytes s (?b + of_nat (4 + 8 * i)) 8"
      by (rule vbytes_other [OF v1 f(1) addrs_disjoint]) (use i f(3) in auto)
    finally show ?thesis by (simp add: used_elem_def qs mem)
  qed
  have "vbytes s3 (?b + of_nat 2) 2 = vbytes s1 (?b + of_nat 2) 2"
    by (rule vbytes_other [OF v3 vdma_map(1) [OF v1] addrs_disjoint]) (use f(3,4) in auto)
  also have "\<dots> = val_bytes 2 (ucast (used_idx s q + 1))" using vput_bytes [OF w1] f(5) [of 2 2] f(4) by simp
  finally have b: "vbytes s' (?b + 2) 2 = val_bytes 2 (ucast (used_idx s q + 1))" by (simp add: mem)
  have "is_ram (vmap s) (?b + 2)" using f(5) [of 2 1] f(4) by (simp add: ram_block_def)
  then have ok': "map_ok (vmap s')" "is_ram (vmap s') (?b + 2)" using vdma_map(1,3) [OF v] by (simp_all add: s' raise_irq_def)
  have "used_idx s' q = ucast (take_bit 16 (ucast (used_idx s q + 1) :: u64))"
    using read16_ram [OF ok' aligned_add(2) [OF f(2)]] le_val_bytes [of 2] b by (simp add: used_idx_def qs)
  also have "\<dots> = used_idx s q + 1" by (rule bit_word_eqI) (simp add: bit_simps)
  finally show "used_idx s' q = used_idx s q + 1" .
qed

end
