(* ===== verification/VirtioServe.thy ===== *)
theory VirtioServe
  imports VirtioQueue VirtioConfined
begin

text \<open>
  \<open>queue_notify\<close> serves the available entries in their order, once each, and ends; it leaves an entry
  behind only when the device is busy. The contract it needs of a device is that a request keeps the
  queues. A cyclic chain of descriptors hangs it.
\<close>

section \<open>Service in order\<close>

fun serve :: "'b device_class \<Rightarrow> nat \<Rightarrow> nat \<Rightarrow> 'b virtio \<Rightarrow> 'b virtio option" where
  "serve c q 0 s = Some s"
| "serve c q (Suc n) s =
     (case notify_one c s q of
        None \<Rightarrow> None
      | Some (ret, s1) \<Rightarrow> if ret < 0 then Some s1 else serve c q n (advance_avail s1 q))"

definition avail_idx :: "'b virtio \<Rightarrow> nat \<Rightarrow> u16" where
  "avail_idx s q = virtio_read16 s (avail_addr (queue s q) + 2)"

definition pending :: "'b virtio \<Rightarrow> nat \<Rightarrow> nat" where
  "pending s q = unat (avail_idx s q - last_avail_idx (queue s q))"

text \<open>The queues and the memory map after a request.\<close>

definition keeps :: "'b virtio \<Rightarrow> 'b virtio \<Rightarrow> bool" where
  "keeps s s' \<longleftrightarrow> (map_ok (vmap s) \<longrightarrow> map_ok (vmap s') \<and> queue s' = queue s)"

lemma keeps_refl: "keeps s s"
  by (simp add: keeps_def)

lemma keeps_trans: "keeps s t \<Longrightarrow> keeps t u \<Longrightarrow> keeps s u"
  by (simp add: keeps_def)

lemma keeps_vdma: "(map_ok (vmap s) \<Longrightarrow> vdma A s t) \<Longrightarrow> keeps s t"
  using vdma_map(1) [of A s t] vdma_frame(1) [of A s t] by (auto simp: keeps_def)

definition serves_in_order :: "'b device_class \<Rightarrow> ('b virtio \<Rightarrow> bool) \<Rightarrow> 'b virtio \<Rightarrow> nat \<Rightarrow> bool" where
  "serves_in_order c busy s q \<longleftrightarrow> queue_notify c s q = serve c q (pending s q) s
     \<and> (\<forall>s'. queue_notify c s q = Some s' \<longrightarrow> last_avail_idx (queue s' q) = avail_idx s q \<or> busy s')"

locale queue_device =
  fixes c :: "'b device_class" and busy :: "'b virtio \<Rightarrow> bool"
  assumes recv_keeps: "device_recv c s q desc_idx read_size write_size = Some (ret, s') \<Longrightarrow> keeps s s'"
    and recv_busy: "device_recv c s q desc_idx read_size write_size = Some (ret, s') \<Longrightarrow> ret < 0 \<Longrightarrow> busy s'"
begin

lemma one_keeps: "notify_one c s q = Some (ret, s') \<Longrightarrow> keeps s s'"
  by (auto simp: notify_one_def Let_def keeps_refl split: option.splits if_splits prod.splits intro: recv_keeps)

lemma one_busy: "notify_one c s q = Some (ret, s') \<Longrightarrow> ret < 0 \<Longrightarrow> busy s'"
  by (auto simp: notify_one_def Let_def split: option.splits if_splits prod.splits intro: recv_busy)

lemma loop_serves:
  assumes "map_ok (vmap s)"
  shows "notify_loop c s q a = serve c q (unat (a - last_avail_idx (queue s q))) s"
  using assms
proof (induction "unat (a - last_avail_idx (queue s q))" arbitrary: s)
  case 0
  then have "a = last_avail_idx (queue s q)" by (simp add: unat_eq_0)
  then show ?case by (subst notify_loop.simps) simp
next
  case (Suc n)
  let ?l = "last_avail_idx (queue s q)"
  have ne: "?l \<noteq> a" using Suc.hyps(2) by auto
  have n: "unat (a - (?l + 1)) = n"
  proof -
    have e: "a - (?l + 1) = (a - ?l) - 1" and nz: "a - ?l \<noteq> 0" using ne by simp_all
    show ?thesis unfolding e using unat_minus_one [OF nz] Suc.hyps(2) by simp
  qed
  show ?case
  proof (cases "notify_one c s q")
    case None
    then show ?thesis using ne by (subst notify_loop.simps) (simp flip: Suc.hyps(2))
  next
    case (Some r)
    obtain ret s1 where r: "r = (ret, s1)" by fastforce
    have k: "map_ok (vmap s1)" "queue s1 = queue s" using one_keeps [of s q ret s1] Some r Suc.prems by (simp_all add: keeps_def)
    have "notify_loop c (advance_avail s1 q) q a = serve c q n (advance_avail s1 q)"
      using Suc.hyps(1) [of "advance_avail s1 q"] k n by (simp add: advance_avail_def upd_queue_def)
    then show ?thesis using ne Some r by (subst notify_loop.simps) (simp flip: Suc.hyps(2))
  qed
qed

lemma notify_serves:
  "map_ok (vmap s) \<Longrightarrow> queue_notify c s q = (if manual_recv (queue s q) then Some s else serve c q (pending s q) s)"
  using loop_serves [of s q "avail_idx s q"] by (simp add: queue_notify_def pending_def avail_idx_def)

lemma serve_drains:
  assumes "serve c q n s = Some s'" "map_ok (vmap s)"
  shows "last_avail_idx (queue s' q) = last_avail_idx (queue s q) + of_nat n \<or> busy s'"
  using assms
proof (induction n arbitrary: s)
  case (Suc n)
  then obtain ret s1 where o: "notify_one c s q = Some (ret, s1)" by (auto split: option.splits)
  have k: "map_ok (vmap s1)" "queue s1 = queue s" using one_keeps [OF o] Suc.prems(2) by (simp_all add: keeps_def)
  show ?case
  proof (cases "ret < 0")
    case True
    then show ?thesis using Suc.prems o one_busy by simp
  next
    case False
    then have "serve c q n (advance_avail s1 q) = Some s'" using Suc.prems o by simp
    then have "last_avail_idx (queue s' q) = last_avail_idx (queue (advance_avail s1 q) q) + of_nat n \<or> busy s'"
      by (rule Suc.IH) (use k in \<open>simp add: advance_avail_def upd_queue_def\<close>)
    then show ?thesis using k by (auto simp: advance_avail_def upd_queue_def algebra_simps)
  qed
qed simp

lemma notify_drains:
  assumes "queue_notify c s q = Some s'" "map_ok (vmap s)" "\<not> manual_recv (queue s q)"
  shows "last_avail_idx (queue s' q) = avail_idx s q \<or> busy s'"
  using serve_drains [of q "pending s q" s s'] notify_serves [of s q] assms by (simp add: pending_def)

lemma in_order: "map_ok (vmap s) \<Longrightarrow> \<not> manual_recv (queue s q) \<Longrightarrow> serves_in_order c busy s q"
  using notify_serves notify_drains by (auto simp: serves_in_order_def)

end

section \<open>The devices\<close>

lemma consume_keeps: "keeps s (virtio_consume_desc s q desc_idx len)"
proof -
  have "keeps t (virtio_write16 t a v)" "keeps t (virtio_write32 t a w)" for t :: "'a virtio" and a v w
    by (rule keeps_vdma, rule write16_result(1), assumption) (rule keeps_vdma, rule write32_result(1), assumption)
  then have "keeps s (virtio_write32 (virtio_write32 (virtio_write16 s a1 v1) a2 v2) a3 v3)" for a1 v1 a2 v2 a3 v3
    using keeps_trans by metis
  then show ?thesis by (simp add: virtio_consume_desc_def Let_def raise_irq_def keeps_def)
qed

lemma to_queue_keeps: "memcpy_to_queue s q desc_idx offset data count = Some (ret, s') \<Longrightarrow> keeps s s'"
  using queue_copy_safe [of s data q desc_idx offset count True ret _ s']
  by (intro keeps_vdma [of _ UNIV]) (auto simp: memcpy_to_queue_def)

lemma keeps_backend: "keeps s (s\<lparr>backend := b\<rparr>)"
  by (simp add: keeps_def)

lemma keeps_fields: "keeps s (upd_req t f) = keeps s t" "keeps (upd_req t f) u = keeps t u"
  by (simp_all add: keeps_def upd_req_def)

lemma block_end_keeps: "virtio_block_req_end s ret = Some s' \<Longrightarrow> keeps s s'"
  using keeps_trans [OF to_queue_keeps consume_keeps]
  by (auto simp: virtio_block_req_end_def Let_def split: if_splits option.splits prod.splits)

lemma block_recv_keeps:
  assumes "virtio_block_recv_request ops heap s q desc_idx read_size write_size = Some (ret, s')"
  shows "keeps s s'" "ret < 0 \<Longrightarrow> req_in_progress (backend s')"
  using assms
  by (auto simp: virtio_block_recv_request_def block_read_request_def block_write_request_def Let_def keeps_fields keeps_refl
      split: if_splits option.splits prod.splits dest!: block_end_keeps)

interpretation bq: queue_device "block_class ops heap" "\<lambda>s. req_in_progress (backend s)" for ops :: "'d block_ops" and heap
  by unfold_locales (auto simp: block_class_def block_recv_keeps)

lemma net_recv_keeps:
  assumes "virtio_net_recv_request heap s q desc_idx read_size write_size = Some (ret, s')"
  shows "keeps s s'" "\<not> ret < 0"
  using assms keeps_trans [OF keeps_backend consume_keeps] keeps_refl
  by (auto simp: virtio_net_recv_request_def Let_def split: if_splits option.splits prod.splits)

interpretation nq: queue_device "net_class heap" "\<lambda>_. False" for heap
  by unfold_locales (use net_recv_keeps in \<open>auto simp: net_class_def\<close>)

lemma console_recv_keeps:
  assumes "virtio_console_recv_request heap s q desc_idx read_size write_size = Some (ret, s')"
  shows "keeps s s'" "\<not> ret < 0"
  using assms keeps_trans [OF keeps_backend consume_keeps] keeps_refl
  by (auto simp: virtio_console_recv_request_def Let_def split: if_splits option.splits prod.splits)

interpretation cq: queue_device "console_class heap" "\<lambda>_. False" for heap
  by unfold_locales (use console_recv_keeps in \<open>auto simp: console_class_def\<close>)

interpretation iq: queue_device input_class "\<lambda>_. False"
  by unfold_locales (auto simp: input_class_def virtio_input_recv_request_def keeps_refl consume_keeps split: if_splits)

text \<open>A notification of a queue that the device serves handles exactly the requests between the last
  one taken and the guest's available index, at most 65535 of them, each from its slot of the ring,
  in their order and once; so it ends when every request does. When it ends, no request is left,
  unless the block device is busy with an asynchronous one.
\<close>

theorem notify_serves_in_order:
  assumes "map_ok (vmap sb)" "map_ok (vmap sn)" "map_ok (vmap sc)" "map_ok (vmap si)"
    and "\<not> manual_recv (queue sb q)" "\<not> manual_recv (queue sn q)" "\<not> manual_recv (queue sc q)" "\<not> manual_recv (queue si q)"
  shows "serves_in_order (block_class ops heap) (\<lambda>s. req_in_progress (backend s)) sb q
    \<and> serves_in_order (net_class heap) (\<lambda>_. False) sn q \<and> serves_in_order (console_class heap) (\<lambda>_. False) sc q
    \<and> serves_in_order input_class (\<lambda>_. False) si q"
  using assms bq.in_order nq.in_order cq.in_order iq.in_order by blast

section \<open>Cyclic chains\<close>

text \<open>A readable descriptor whose successor is itself: the sizes of its chain are never found.\<close>

lemma read_loop_stuck:
  assumes "next_desc s q d = d" "\<not> d_write d" "d_has_next d"
  shows "read_size_loop s q d n = None"
proof (rule ccontr)
  assume "read_size_loop s q d n \<noteq> None"
  then obtain y where "read_size_loop s q d n = Some y" by blast
  then have "\<not> (next_desc s q d = d \<and> \<not> d_write d \<and> d_has_next d)"
    by (rule read_size_loop.raw_induct [rotated, where P = "\<lambda>s q d n y. \<not> (next_desc s q d = d \<and> \<not> d_write d \<and> d_has_next d)"])
      (fastforce split: if_splits)
  then show False using assms by blast
qed

text \<open>C22: A guest can hang the emulator: where the next available entry names a readable descriptor whose
  successor is that descriptor, the notification of the queue does not return, whatever the device.
\<close>

theorem cyclic_chain_hangs:
  assumes "map_ok (vmap s)" "load_desc s q k = Some d" "d_has_next d" "unat (d_next d) = k" "\<not> d_write d"
    and "\<not> manual_recv (queue s q)" "avail_idx s q \<noteq> last_avail_idx (queue s q)"
    and "avail_desc s q (last_avail_idx (queue s q)) = int k"
  shows "queue_notify c s q = None"
proof -
  have "next_desc s q d = d" using next_desc_load [OF assms(1) _ length_loaded [OF assms(2)]] assms(2,4) by simp
  then have "read_size_loop s q d 0 = None" using read_loop_stuck assms by blast
  then have "notify_one c s q = None"
    using assms(8) first_desc_load [OF assms(1,2)] by (simp add: notify_one_def get_desc_rw_size_def Let_def)
  then show ?thesis
    using assms(6,7) by (subst queue_notify_def) (subst notify_loop.simps, simp add: avail_idx_def)
qed

end
