(* ===== verification/BlockFile.thy ===== *)
theory BlockFile
  imports VirtioDev VirtioMem
begin

text \<open>
  \<open>temu.c\<close>: the block device on a disk image, in its three modes: read-only, read-write, and the
  snapshot mode that keeps written sectors in memory. A C \<open>FILE\<close> opened for reading or updating is
  its contents and its position; a seek to a negative offset fails and leaves the position, and a
  write beyond the end fills the gap with zeros.
\<close>

section \<open>C streams\<close>

record c_file =
  f_data :: "u8 list"
  f_pos :: nat

definition fseek_set :: "c_file \<Rightarrow> int \<Rightarrow> c_file" where
  "fseek_set f off = (if off < 0 then f else f\<lparr>f_pos := nat off\<rparr>)"

text \<open>\<open>fread(buf, 1, n, f)\<close> into a buffer at a position.\<close>

definition fread :: "c_file \<Rightarrow> u8 list \<Rightarrow> nat \<Rightarrow> nat \<Rightarrow> u8 list \<times> c_file" where
  "fread f data pos n =
     (let bytes = take n (drop (f_pos f) (f_data f))
      in (write_bytes data pos bytes, f\<lparr>f_pos := f_pos f + length bytes\<rparr>))"

definition fwrite :: "c_file \<Rightarrow> u8 list \<Rightarrow> c_file" where
  "fwrite f bytes =
     (if bytes = [] then f
      else f\<lparr>f_data := write_bytes (f_data f @ replicate (f_pos f - length (f_data f)) 0) (f_pos f) bytes,
             f_pos := f_pos f + length bytes\<rparr>)"

section \<open>The device\<close>

datatype bf_mode = BF_MODE_RO | BF_MODE_RW | BF_MODE_SNAPSHOT

text \<open>\<open>sector_table\<close> has an entry per sector; \<open>None\<close> is its null pointer.\<close>

record block_file =
  bf_f :: c_file
  nb_sectors :: nat
  bf_mode :: bf_mode
  sector_table :: "u8 list option list"

definition bf_get_sector_count :: "block_file \<Rightarrow> u64" where
  "bf_get_sector_count bf = of_nat (nb_sectors bf)"

definition sector_offset :: "u64 \<Rightarrow> int" where
  "sector_offset sector_num = sint (sector_num * 512)"

text \<open>The loop of the snapshot mode over \<open>n\<close> sectors; an access outside the table is undefined.\<close>

fun bf_read_snapshot :: "block_file \<Rightarrow> u64 \<Rightarrow> u8 list \<Rightarrow> nat \<Rightarrow> nat \<Rightarrow> (u8 list \<times> block_file) option" where
  "bf_read_snapshot bf sector_num data pos 0 = Some (data, bf)"
| "bf_read_snapshot bf sector_num data pos (Suc n) =
     (if unat sector_num \<ge> length (sector_table bf) then None
      else
        case sector_table bf ! unat sector_num of
          None \<Rightarrow>
            let (data1, f1) = fread (fseek_set (bf_f bf) (sector_offset sector_num)) data pos 512
            in bf_read_snapshot (bf\<lparr>bf_f := f1\<rparr>) (sector_num + 1) data1 (pos + 512) n
        | Some sec \<Rightarrow> bf_read_snapshot bf (sector_num + 1) (write_bytes data pos sec) (pos + 512) n)"

text \<open>\<open>n * SECTOR_SIZE\<close> is an \<open>int\<close> that becomes a \<open>size_t\<close>: a negative one is a size no buffer has.\<close>

definition bf_read_async :: "block_file \<Rightarrow> u64 \<Rightarrow> u8 list \<Rightarrow> int \<Rightarrow> (int \<times> u8 list \<times> block_file) option" where
  "bf_read_async bf sector_num data n =
     (if bf_mode bf = BF_MODE_SNAPSHOT then
        map_option (\<lambda>(data1, bf1). (0, data1, bf1)) (bf_read_snapshot bf sector_num data 0 (nat n))
      else if n < 0 then None
      else
        let (data1, f1) = fread (fseek_set (bf_f bf) (sector_offset sector_num)) data 0 (nat (n * SECTOR_SIZE))
        in Some (0, data1, bf\<lparr>bf_f := f1\<rparr>))"

fun bf_write_snapshot :: "block_file \<Rightarrow> u64 \<Rightarrow> u8 list \<Rightarrow> nat \<Rightarrow> block_file option" where
  "bf_write_snapshot bf sector_num data 0 = Some bf"
| "bf_write_snapshot bf sector_num data (Suc n) =
     (if unat sector_num \<ge> length (sector_table bf) then None
      else bf_write_snapshot (bf\<lparr>sector_table := (sector_table bf)[unat sector_num := Some (take 512 data)]\<rparr>)
             (sector_num + 1) (drop 512 data) n)"

text \<open>The bound check compares unsigned values: \<open>sector_num + n\<close> may wrap.\<close>

definition bf_write_async :: "block_file \<Rightarrow> u64 \<Rightarrow> u8 list \<Rightarrow> int \<Rightarrow> (int \<times> block_file) option" where
  "bf_write_async bf sector_num data n =
     (case bf_mode bf of
        BF_MODE_RO \<Rightarrow> Some (-1, bf)
      | BF_MODE_RW \<Rightarrow>
          if n < 0 then None
          else Some (0, bf\<lparr>bf_f := fwrite (fseek_set (bf_f bf) (sector_offset sector_num)) (take (nat (n * SECTOR_SIZE)) data)\<rparr>)
      | BF_MODE_SNAPSHOT \<Rightarrow>
          if sector_num + word_of_int n > of_nat (nb_sectors bf) then Some (-1, bf)
          else map_option (\<lambda>bf1. (0, bf1)) (bf_write_snapshot bf sector_num data (nat n)))"

definition bf_ops :: "block_file block_ops" where
  "bf_ops = \<lparr>get_sector_count = bf_get_sector_count, read_async = bf_read_async, write_async = bf_write_async\<rparr>"

text \<open>\<open>img\<close> is the file; its last incomplete sector is not part of the disk.\<close>

definition block_device_init :: "u8 list \<Rightarrow> bf_mode \<Rightarrow> block_file" where
  "block_device_init img mode =
     \<lparr>bf_f = \<lparr>f_data = img, f_pos = length img\<rparr>, nb_sectors = length img div 512, bf_mode = mode,
      sector_table = (if mode = BF_MODE_SNAPSHOT then replicate (length img div 512) None else [])\<rparr>"

section \<open>The contents of the disk\<close>

text \<open>The disk as the guest sees it: the img under the sectors kept in memory.\<close>

definition sector :: "block_file \<Rightarrow> nat \<Rightarrow> u8 list" where
  "sector bf i =
     (case (if i < length (sector_table bf) then sector_table bf ! i else None) of
        Some sec \<Rightarrow> sec
      | None \<Rightarrow> take 512 (drop (512 * i) (f_data (bf_f bf))))"

definition disk :: "block_file \<Rightarrow> u8 list" where
  "disk bf = concat (map (sector bf) [0..<nb_sectors bf])"

definition bf_ok :: "block_file \<Rightarrow> bool" where
  "bf_ok bf \<longleftrightarrow> 512 * nb_sectors bf \<le> length (f_data (bf_f bf)) \<and> 512 * nb_sectors bf < 2 ^ 63
     \<and> (if bf_mode bf = BF_MODE_SNAPSHOT
        then length (sector_table bf) = nb_sectors bf \<and> (\<forall>sec. Some sec \<in> set (sector_table bf) \<longrightarrow> length sec = 512)
        else sector_table bf = [])"

lemma pos_same [simp]:
  "sector (bf\<lparr>bf_f := (bf_f bf)\<lparr>f_pos := p\<rparr>\<rparr>) = sector bf" "disk (bf\<lparr>bf_f := (bf_f bf)\<lparr>f_pos := p\<rparr>\<rparr>) = disk bf"
  "bf_ok (bf\<lparr>bf_f := (bf_f bf)\<lparr>f_pos := p\<rparr>\<rparr>) = bf_ok bf"
proof -
  show s: "sector (bf\<lparr>bf_f := (bf_f bf)\<lparr>f_pos := p\<rparr>\<rparr>) = sector bf" by (rule ext) (auto simp: sector_def split: option.split)
  show "disk (bf\<lparr>bf_f := (bf_f bf)\<lparr>f_pos := p\<rparr>\<rparr>) = disk bf" by (simp add: disk_def s)
  show "bf_ok (bf\<lparr>bf_f := (bf_f bf)\<lparr>f_pos := p\<rparr>\<rparr>) = bf_ok bf" by (auto simp: bf_ok_def)
qed

lemma init_ok: "length img < 2 ^ 63 \<Longrightarrow> bf_ok (block_device_init img mode)"
  by (auto simp: bf_ok_def block_device_init_def)

lemma length_sector: "bf_ok bf \<Longrightarrow> i < nb_sectors bf \<Longrightarrow> length (sector bf i) = 512"
  by (auto simp: bf_ok_def sector_def split: option.splits if_splits) (metis nth_mem)

lemma length_concat_sectors:
  assumes "bf_ok bf" "i + n \<le> nb_sectors bf"
  shows "length (concat (map (sector bf) [i..<i + n])) = 512 * n"
  using assms(2) by (induction n) (simp_all add: length_sector [OF assms(1)])

lemma length_disk: "bf_ok bf \<Longrightarrow> length (disk bf) = 512 * nb_sectors bf"
  using length_concat_sectors [of bf 0 "nb_sectors bf"] by (simp add: disk_def)

text \<open>Whole sectors of the disk.\<close>

lemma disk_part:
  assumes "bf_ok bf" "i + n \<le> nb_sectors bf"
  shows "take (512 * n) (drop (512 * i) (disk bf)) = concat (map (sector bf) [i..<i + n])"
proof -
  have "[0..<nb_sectors bf] = [0..<i] @ [i..<i + n] @ [i + n..<nb_sectors bf]"
    using assms(2) upt_add_eq_append [of 0 i "nb_sectors bf - i"] upt_add_eq_append [of i "i + n" "nb_sectors bf - (i + n)"] by simp
  then have "disk bf = concat (map (sector bf) [0..<i]) @ concat (map (sector bf) [i..<i + n]) @ concat (map (sector bf) [i + n..<nb_sectors bf])"
    by (simp add: disk_def)
  moreover have "length (concat (map (sector bf) [0..<i])) = 512 * i"
    using length_concat_sectors [OF assms(1), of 0 i] assms(2) by simp
  moreover have "length (concat (map (sector bf) [i..<i + n])) = 512 * n" by (rule length_concat_sectors [OF assms])
  ultimately show ?thesis by simp
qed

section \<open>Reading\<close>

lemma sector_offset_small:
  assumes "512 * i < 2 ^ 63"
  shows "sector_offset (of_nat i) = int (512 * i)"
proof -
  have u: "unat (of_nat i * 512 :: u64) = 512 * i"
  proof -
    have "(of_nat i * 512 :: u64) = of_nat (512 * i)" by simp
    then show ?thesis using assms by (simp add: unsigned_of_nat take_bit_nat_eq_self del: of_nat_mult)
  qed
  have "sector_offset (of_nat i) = signed_take_bit 63 (int (unat (of_nat i * 512 :: u64)))"
    unfolding sector_offset_def by (simp add: sint_uint)
  also have "\<dots> = signed_take_bit 63 (int (512 * i))" by (simp only: u)
  also have "\<dots> = int (512 * i)" using assms by (intro signed_take_bit_int_eq_self) simp_all
  finally show ?thesis .
qed

lemma unat_sector: "i < 2 ^ 63 \<Longrightarrow> unat (of_nat i :: u64) = i"
  by (simp add: unsigned_of_nat take_bit_nat_eq_self)

text \<open>Where the file is read, its position is the only thing that changes.\<close>

lemma read_snapshot:
  assumes "bf_ok bf" "bf_mode bf = BF_MODE_SNAPSHOT" "i + n \<le> nb_sectors bf" "pos + 512 * n \<le> length data"
  shows "\<exists>p. bf_read_snapshot bf (of_nat i) data pos n =
    Some (write_bytes data pos (concat (map (sector bf) [i..<i + n])), bf\<lparr>bf_f := (bf_f bf)\<lparr>f_pos := p\<rparr>\<rparr>)"
  using assms
proof (induction n arbitrary: bf i data pos)
  case 0
  then show ?case by (intro exI [of _ "f_pos (bf_f bf)"]) (simp add: write_bytes_def)
next
  case (Suc n)
  have b: "512 * nb_sectors bf < 2 ^ 63" "length (sector_table bf) = nb_sectors bf" "512 * nb_sectors bf \<le> length (f_data (bf_f bf))"
    using Suc.prems(1,2) by (simp_all add: bf_ok_def)
  have i: "unat (of_nat i :: u64) = i" "i < nb_sectors bf" using unat_sector [of i] b Suc.prems(3) by simp_all
  have ls: "length (sector bf i) = 512" by (rule length_sector [OF Suc.prems(1) i(2)])
  obtain p1 where st: "bf_read_snapshot bf (of_nat i) data pos (Suc n) =
      bf_read_snapshot (bf\<lparr>bf_f := (bf_f bf)\<lparr>f_pos := p1\<rparr>\<rparr>) (of_nat (Suc i)) (write_bytes data pos (sector bf i)) (pos + 512) n"
  proof (cases "sector_table bf ! i")
    case None
    then have "sector bf i = take 512 (drop (512 * i) (f_data (bf_f bf)))" using i b by (simp add: sector_def)
    then show ?thesis
      using None i b that [of "512 * i + 512"] sector_offset_small [of i] ls nat_int [of "512 * i"]
      by (simp add: fread_def fseek_set_def Let_def add.commute)
  next
    case (Some sec)
    then have "sector bf i = sec" using i b by (simp add: sector_def)
    then show ?thesis using Some i b that [of "f_pos (bf_f bf)"] by (simp add: add.commute)
  qed
  let ?bf1 = "bf\<lparr>bf_f := (bf_f bf)\<lparr>f_pos := p1\<rparr>\<rparr>"
  have "\<exists>p. bf_read_snapshot ?bf1 (of_nat (Suc i)) (write_bytes data pos (sector bf i)) (pos + 512) n =
      Some (write_bytes (write_bytes data pos (sector bf i)) (pos + 512) (concat (map (sector ?bf1) [Suc i..<Suc i + n])),
        ?bf1\<lparr>bf_f := (bf_f ?bf1)\<lparr>f_pos := p\<rparr>\<rparr>)"
    by (rule Suc.IH) (use Suc.prems ls in \<open>simp_all add: length_write_bytes\<close>)
  then obtain p where r: "bf_read_snapshot bf (of_nat i) data pos (Suc n) =
      Some (write_bytes (write_bytes data pos (sector bf i)) (pos + 512) (concat (map (sector bf) [Suc i..<Suc i + n])),
        bf\<lparr>bf_f := (bf_f bf)\<lparr>f_pos := p\<rparr>\<rparr>)"
    unfolding st by auto
  have up: "[i..<i + Suc n] = i # [Suc i..<Suc i + n]" by (simp add: upt_conv_Cons del: upt_Suc)
  have "write_bytes (write_bytes data pos (sector bf i)) (pos + length (sector bf i)) (concat (map (sector bf) [Suc i..<Suc i + n]))
      = write_bytes data pos (concat (map (sector bf) [i..<i + Suc n]))"
    using write_bytes_twice [of pos "sector bf i" "concat (map (sector bf) [Suc i..<Suc i + n])" data]
      length_concat_sectors [OF Suc.prems(1), of "Suc i" n] Suc.prems(3,4) ls
    unfolding up by (simp del: upt_Suc)
  then show ?case using r ls by (auto simp del: upt_Suc)
qed

lemma disk_flat: "sector_table bf = [] \<Longrightarrow> disk bf = take (512 * nb_sectors bf) (f_data (bf_f bf))"
proof -
  assume t: "sector_table bf = []"
  have "concat (map (\<lambda>i. take 512 (drop (512 * i) xs)) [0..<k]) = take (512 * k) xs" for k and xs :: "u8 list"
  proof (induction k)
    case (Suc k)
    have "take (512 * Suc k) xs = take (512 * k + 512) xs" by (simp add: add.commute)
    then show ?case using Suc by (simp only: take_add) simp
  qed simp
  then show ?thesis by (simp add: disk_def sector_def [abs_def] t)
qed

lemma bf_read:
  assumes "bf_ok bf" "i + n \<le> nb_sectors bf" "512 * n \<le> length data"
  shows "\<exists>bf'. bf_read_async bf (of_nat i) data (int n) = Some (0, write_bytes data 0 (take (512 * n) (drop (512 * i) (disk bf))), bf')
    \<and> bf_ok bf' \<and> disk bf' = disk bf \<and> bf_mode bf' = bf_mode bf \<and> nb_sectors bf' = nb_sectors bf"
proof (cases "bf_mode bf = BF_MODE_SNAPSHOT")
  case True
  then obtain p where "bf_read_snapshot bf (of_nat i) data 0 n =
    Some (write_bytes data 0 (concat (map (sector bf) [i..<i + n])), bf\<lparr>bf_f := (bf_f bf)\<lparr>f_pos := p\<rparr>\<rparr>)"
    using read_snapshot [OF assms(1) True assms(2), of 0 data] assms(3) by auto
  then show ?thesis
    using True disk_part [OF assms(1,2)] assms(1)
    by (simp add: bf_read_async_def)
next
  case False
  have b: "512 * nb_sectors bf < 2 ^ 63" "sector_table bf = []" "512 * nb_sectors bf \<le> length (f_data (bf_f bf))"
    using False assms(1) by (simp_all add: bf_ok_def)
  note d = disk_flat [OF b(2)]
  have "take (512 * n) (drop (512 * i) (disk bf)) = take (512 * n) (drop (512 * i) (f_data (bf_f bf)))"
    using assms(2) by (simp add: d drop_take)
  moreover have "sector_offset (of_nat i) = int (512 * i)" using sector_offset_small [of i] b assms(2) by simp
  ultimately show ?thesis
    using False assms(1)
    by (simp add: bf_read_async_def fread_def fseek_set_def Let_def SECTOR_SIZE_def nat_mult_distrib mult.commute)
qed

section \<open>Writing\<close>

lemma write_middle: "length B = length xs \<Longrightarrow> write_bytes (A @ B @ C) (length A) xs = A @ xs @ C"
  by (simp add: write_bytes_def)

lemma disk_update:
  assumes "bf_ok bf" "bf_mode bf = BF_MODE_SNAPSHOT" "i < nb_sectors bf" "length sec = 512"
  defines "bf' \<equiv> bf\<lparr>sector_table := (sector_table bf)[i := Some sec]\<rparr>"
  shows "bf_ok bf'" "disk bf' = write_bytes (disk bf) (512 * i) sec"
proof -
  have len: "length (sector_table bf) = nb_sectors bf" using assms(1,2) by (simp add: bf_ok_def)
  show "bf_ok bf'" using assms by (auto simp: bf_ok_def bf'_def dest!: set_update_subset_insert [THEN subsetD])
  have sec: "sector bf' j = (if j = i then sec else sector bf j)" for j
    using assms(3) len by (auto simp: sector_def bf'_def nth_list_update split: option.split)
  have up: "[0..<nb_sectors bf] = [0..<i] @ [i] @ [Suc i..<nb_sectors bf]"
    using upt_add_eq_append [of 0 i "nb_sectors bf - i"] upt_conv_Cons [OF assms(3)] assms(3) by simp
  let ?A = "concat (map (sector bf) [0..<i])" and ?C = "concat (map (sector bf) [Suc i..<nb_sectors bf])"
  have "disk bf' = concat (map (sector bf') [0..<i]) @ sector bf' i @ concat (map (sector bf') [Suc i..<nb_sectors bf])"
    by (simp add: disk_def up bf'_def)
  also have "map (sector bf') [0..<i] = map (sector bf) [0..<i]" by (auto simp: sec)
  also have "map (sector bf') [Suc i..<nb_sectors bf] = map (sector bf) [Suc i..<nb_sectors bf]" by (auto simp: sec)
  also have "sector bf' i = sec" by (simp add: sec)
  finally have d': "disk bf' = ?A @ sec @ ?C" .
  have "disk bf = ?A @ sector bf i @ ?C" by (simp add: disk_def up)
  moreover have "length ?A = 512 * i" using length_concat_sectors [OF assms(1), of 0 i] assms(3) by simp
  ultimately show "disk bf' = write_bytes (disk bf) (512 * i) sec"
    using write_middle [of "sector bf i" sec ?A ?C] length_sector [OF assms(1,3)] assms(4) d' by simp
qed

lemma write_snapshot:
  assumes "bf_ok bf" "bf_mode bf = BF_MODE_SNAPSHOT" "i + n \<le> nb_sectors bf" "length data = 512 * n"
  shows "\<exists>tab. bf_write_snapshot bf (of_nat i) data n = Some (bf\<lparr>sector_table := tab\<rparr>)
    \<and> bf_ok (bf\<lparr>sector_table := tab\<rparr>) \<and> disk (bf\<lparr>sector_table := tab\<rparr>) = write_bytes (disk bf) (512 * i) data"
  using assms
proof (induction n arbitrary: bf i data)
  case 0
  then show ?case by (intro exI [of _ "sector_table bf"]) (simp add: write_bytes_def)
next
  case (Suc n)
  let ?sec = "take 512 data"
  define bf1 where "bf1 = bf\<lparr>sector_table := (sector_table bf)[i := Some ?sec]\<rparr>"
  have b: "512 * nb_sectors bf < 2 ^ 63" "length (sector_table bf) = nb_sectors bf" using Suc.prems(1,2) by (simp_all add: bf_ok_def)
  have i: "unat (of_nat i :: u64) = i" "i < nb_sectors bf" using unat_sector [of i] b Suc.prems(3) by simp_all
  have sec: "length ?sec = 512" using Suc.prems(4) by simp
  note u = disk_update [OF Suc.prems(1,2) i(2) sec, folded bf1_def]
  have step: "bf_write_snapshot bf (of_nat i) data (Suc n) = bf_write_snapshot bf1 (of_nat (Suc i)) (drop 512 data) n"
    using i b by (simp add: bf1_def add.commute)
  have "\<exists>tab. bf_write_snapshot bf1 (of_nat (Suc i)) (drop 512 data) n = Some (bf1\<lparr>sector_table := tab\<rparr>)
    \<and> bf_ok (bf1\<lparr>sector_table := tab\<rparr>) \<and> disk (bf1\<lparr>sector_table := tab\<rparr>) = write_bytes (disk bf1) (512 * Suc i) (drop 512 data)"
    by (rule Suc.IH [OF u(1)]) (use Suc.prems in \<open>simp_all add: bf1_def\<close>)
  then obtain tab where t: "bf_write_snapshot bf (of_nat i) data (Suc n) = Some (bf\<lparr>sector_table := tab\<rparr>)"
    "bf_ok (bf\<lparr>sector_table := tab\<rparr>)" "disk (bf\<lparr>sector_table := tab\<rparr>) = write_bytes (disk bf1) (512 * Suc i) (drop 512 data)"
    unfolding step by (auto simp: bf1_def)
  have "write_bytes (write_bytes (disk bf) (512 * i) ?sec) (512 * i + length ?sec) (drop 512 data) = write_bytes (disk bf) (512 * i) data"
    using write_bytes_twice [of "512 * i" ?sec "drop 512 data" "disk bf"] Suc.prems(3,4) length_disk [OF Suc.prems(1)] by simp
  then show ?case using t u(2) sec by (intro exI [of _ tab]) (simp add: add.commute)
qed

lemma bf_write:
  assumes "bf_ok bf" "bf_mode bf \<noteq> BF_MODE_RO" "i + n \<le> nb_sectors bf" "length data = 512 * n"
  shows "\<exists>bf'. bf_write_async bf (of_nat i) data (int n) = Some (0, bf')
    \<and> bf_ok bf' \<and> disk bf' = write_bytes (disk bf) (512 * i) data \<and> bf_mode bf' = bf_mode bf \<and> nb_sectors bf' = nb_sectors bf
    \<and> (bf_mode bf = BF_MODE_SNAPSHOT \<longrightarrow> bf_f bf' = bf_f bf)"
proof (cases "bf_mode bf = BF_MODE_SNAPSHOT")
  case True
  have "512 * nb_sectors bf < 2 ^ 63" using assms(1) by (simp add: bf_ok_def)
  then have "\<not> (of_nat i + word_of_int (int n) :: u64) > of_nat (nb_sectors bf)"
    using assms(3) unat_sector [of "i + n"] unat_sector [of "nb_sectors bf"] by (simp add: word_less_nat_alt flip: of_nat_add)
  then show ?thesis
    using write_snapshot [OF assms(1) True assms(3,4)] True by (auto simp: bf_write_async_def)
next
  case False
  then have m: "bf_mode bf = BF_MODE_RW" using assms(2) by (cases "bf_mode bf") auto
  have b: "512 * nb_sectors bf < 2 ^ 63" "sector_table bf = []" "512 * nb_sectors bf \<le> length (f_data (bf_f bf))"
    using m assms(1) by (simp_all add: bf_ok_def)
  define f1 where "f1 = fwrite (fseek_set (bf_f bf) (sector_offset (of_nat i))) data"
  have "sector_offset (of_nat i) = int (512 * i)" using sector_offset_small [of i] b assms(3) by simp
  then have f1: "f_data f1 = write_bytes (f_data (bf_f bf)) (512 * i) data"
    using b assms(3,4) nat_int [of "512 * i"] by (auto simp: f1_def fwrite_def fseek_set_def write_bytes_def)
  have len: "length (f_data f1) = length (f_data (bf_f bf))"
    unfolding f1 by (rule length_write_bytes) (use assms(3,4) b in simp)
  have ok: "bf_ok (bf\<lparr>bf_f := f1\<rparr>)" using assms(1) m len by (simp add: bf_ok_def)
  have "disk (bf\<lparr>bf_f := f1\<rparr>) = take (512 * nb_sectors bf) (f_data f1)" using disk_flat [of "bf\<lparr>bf_f := f1\<rparr>"] b by simp
  also have "\<dots> = write_bytes (disk bf) (512 * i) data"
    using assms(3,4) b by (simp add: f1 disk_flat write_bytes_def drop_take)
  finally show ?thesis
    using m ok assms(4) by (simp add: bf_write_async_def SECTOR_SIZE_def nat_mult_distrib mult.commute flip: f1_def)
qed

end
