(* ===== verification/BlockSpec.thy ===== *)
theory BlockSpec
  imports VirtioServe BlockFile
begin

text \<open>
  The block device as a specification: a request is a read or a write of sectors, and its reply is
  data and a status byte. A device on a backend that keeps the contract of \<open>BlockDevice\<close> implements
  it, request by request and for the whole queue; the disk images of \<open>temu.c\<close> keep that contract.
\<close>

section \<open>Requests and replies\<close>

datatype blk_request = BlkRead nat nat | BlkWrite nat "u8 list"

text \<open>The request in the readable bytes of a chain with \<open>n\<close> writable ones: whole sectors only.\<close>

definition decode_req :: "u8 list \<Rightarrow> nat \<Rightarrow> blk_request option" where
  "decode_req bytes n =
     (let i = unat (hdr_sector_num bytes)
      in if length bytes < 16 then None
         else if hdr_type bytes = VIRTIO_BLK_T_IN \<and> n mod 512 = 1 then Some (BlkRead i (n div 512))
         else if hdr_type bytes = VIRTIO_BLK_T_OUT \<and> 0 < n \<and> (length bytes - 16) mod 512 = 0 then Some (BlkWrite i (drop 16 bytes))
         else None)"

fun req_fits :: "blk_request \<Rightarrow> u8 list \<Rightarrow> bool" where
  "req_fits (BlkRead i n) d \<longleftrightarrow> 512 * (i + n) \<le> length d"
| "req_fits (BlkWrite i data) d \<longleftrightarrow> 512 * i + length data \<le> length d"

fun blk_reply :: "bool \<Rightarrow> u8 list \<Rightarrow> blk_request \<Rightarrow> u8 list" where
  "blk_reply rw d (BlkRead i n) = take (512 * n) (drop (512 * i) d) @ [VIRTIO_BLK_S_OK]"
| "blk_reply rw d (BlkWrite i data) = [if rw then VIRTIO_BLK_S_OK else VIRTIO_BLK_S_IOERR]"

fun blk_disk :: "bool \<Rightarrow> u8 list \<Rightarrow> blk_request \<Rightarrow> u8 list" where
  "blk_disk rw d (BlkRead i n) = d"
| "blk_disk rw d (BlkWrite i data) = (if rw then write_bytes d (512 * i) data else d)"

section \<open>A request that is answered\<close>

text \<open>The parts of the queue in guest memory do not overlap what the device writes.\<close>

definition separated :: "'b virtio \<Rightarrow> nat \<Rightarrow> desc list \<Rightarrow> bool" where
  "separated s q ws \<longleftrightarrow> apart s q ws \<and> used_ok s q \<and> all_baddrs ws \<inter> used_addrs s q = {}"

definition answered :: "'b virtio \<Rightarrow> nat \<Rightarrow> nat \<Rightarrow> desc list \<Rightarrow> u8 list \<Rightarrow> 'b virtio \<Rightarrow> bool" where
  "answered s q k ws reply s' \<longleftrightarrow> buffers s' ws = write_bytes (buffers s ws) 0 reply
     \<and> used_idx s' q = used_idx s q + 1 \<and> used_elem s' q (used_slot s q) = used_entry (int k) (int (length reply))
     \<and> (\<forall>i < ring_size s q. i \<noteq> used_slot s q \<longrightarrow> used_elem s' q i = used_elem s q i)
     \<and> int_status s' = int_status s OR 1 \<and> irq_level s' = 1
     \<and> vdma (all_baddrs ws \<union> used_addrs s q) s (s'\<lparr>int_status := int_status s, irq_level := irq_level s, backend := backend s\<rparr>)"

lemma backend_same [simp]:
  "vbytes (upd_req s f) = vbytes s" "load_desc (upd_req s f) q k = load_desc s q k" "linked (upd_req s f) q ds = linked s q ds"
  "buffers (upd_req s f) ds = buffers s ds" "chain (upd_req s f) q k rs ws = chain s q k rs ws"
  "separated (upd_req s f) q ws = separated s q ws" "used_idx (upd_req s f) q = used_idx s q"
  "used_elem (upd_req s f) q = used_elem s q" "used_slot (upd_req s f) q = used_slot s q" "used_addrs (upd_req s f) q = used_addrs s q"
  "ring_size (upd_req s f) q = ring_size s q"
proof -
  show v: "vbytes (upd_req s f) = vbytes s" by (intro ext) (simp add: vbytes_def upd_req_def)
  have q: "queue (upd_req s f) = queue s" and m: "vmap (upd_req s f) = vmap s" by (simp_all add: upd_req_def)
  show l: "load_desc (upd_req s f) q k = load_desc s q k" for k by (simp add: load_desc_def Let_def q m v)
  show lk: "linked (upd_req s f) q ds = linked s q ds" for ds
    by (induction ds rule: induct_list012) (simp_all add: l)
  show "buffers (upd_req s f) ds = buffers s ds" by (simp add: buffers_def buffer_def [abs_def] v)
  show "chain (upd_req s f) q k rs ws = chain s q k rs ws" by (simp add: chain_def lk l m)
  have "virtio_read16 (upd_req s f) a = virtio_read16 s a" for a
    by (simp add: virtio_read16_def upd_req_def virtio_get_ram_ptr_def Let_def split: prod.split)
  then show i: "used_idx (upd_req s f) q = used_idx s q" by (simp add: used_idx_def q)
  show "used_elem (upd_req s f) q = used_elem s q" by (intro ext) (simp add: used_elem_def q v)
  show "used_slot (upd_req s f) q = used_slot s q" by (simp add: used_slot_def i ring_size_def q)
  show u: "used_addrs (upd_req s f) q = used_addrs s q" by (simp add: used_addrs_def ring_size_def q)
  show "ring_size (upd_req s f) q = ring_size s q" by (simp add: ring_size_def q)
  show "separated (upd_req s f) q ws = separated s q ws"
    by (simp add: separated_def u apart_def table_addrs_def used_ok_def ring_size_def q m)
qed

text \<open>The request ends with \<open>reply\<close> in its writable buffers and its entry in the used ring.\<close>

lemma answer:
  assumes c: "chain s q k rs ws" and p: "separated s q ws" and l: "length reply \<le> dsizes ws"
  shows "\<exists>s1. memcpy_to_queue s q (int k) 0 reply (int (length reply)) = Some (0, s1)
    \<and> answered s q k ws reply (virtio_consume_desc s1 q (int k) (int (length reply)))
    \<and> backend (virtio_consume_desc s1 q (int k) (int (length reply))) = backend s"
proof -
  have ok: "map_ok (vmap s)" by (rule chain_parts(1) [OF c])
  have a: "apart s q ws" "used_ok s q" "all_baddrs ws \<inter> used_addrs s q = {}" using p by (simp_all add: separated_def)
  obtain s1 where s1: "memcpy_to_queue s q (int k) 0 reply (int (length reply)) = Some (0, s1)"
    and v1: "vdma (all_baddrs ws) s s1" and b1: "buffers s1 ws = write_bytes (buffers s ws) 0 reply"
    using memcpy_to_chain [OF c a(1), of 0 reply] l by auto
  note f = vdma_frame [OF v1]
  have u: "used_ok s1 q" "used_addrs s1 q = used_addrs s q" "ring_size s1 q = ring_size s q"
    using a(2) vdma_map(1,4) [OF v1] by (simp_all add: used_ok_def used_addrs_def ring_size_def f)
  have bytes: "vbytes s1 (used_addr (queue s q) + of_nat x) n = vbytes s (used_addr (queue s q) + of_nat x) n"
    if "x + n \<le> 4 + 8 * ring_size s q" for x n
  proof (rule vdma_bytes [OF v1 ok])
    have r: "ring_size s q < 2 ^ 32" using used_ok_facts(3) [OF a(2)] .
    have "addrs (used_addr (queue s q) + of_nat x) n \<subseteq> used_addrs s q"
      using addrs_shift [of x n "used_addr (queue s q)"] addrs_sub [of "used_addr (queue s q)" "x + n" "4 + 8 * ring_size s q - (x + n)"] that r
      by (auto simp: used_addrs_def)
    then show "addrs (used_addr (queue s q) + of_nat x) n \<inter> all_baddrs ws = {}" using a(3) by blast
    show "n \<le> 2 ^ 64" using that r by simp
  qed
  have idx: "used_idx s1 q = used_idx s q"
  proof -
    note g = used_ok_facts [OF a(2)]
    have "is_ram (vmap s) (used_addr (queue s q) + 2)" using g(5) [of 2 1] g(4) by (simp add: ram_block_def)
    then show ?thesis
      using read16_ram [OF ok _ aligned_add(2) [OF g(2)]] read16_ram [OF vdma_map(1) [OF v1] _ aligned_add(2) [OF g(2)]]
        bytes [of 2 2] g(4) by (simp add: used_idx_def f vdma_map(3) [OF v1])
  qed
  define s' where "s' = virtio_consume_desc s1 q (int k) (int (length reply))"
  note r = consume_result [OF u(1), where desc_idx = "int k" and len = "int (length reply)", folded s'_def]
  define s2 where "s2 = s'\<lparr>int_status := int_status s1, irq_level := irq_level s1\<rparr>"
  have v2: "vdma (used_addrs s q) s1 s2" using r(1) by (simp add: s2_def u)
  have "buffers s2 ws = buffers s1 ws"
    by (rule buffers_vdma [OF v2 vdma_map(1) [OF v1]]) (use a(3) in auto)
  moreover have "buffers s2 ws = buffers s' ws" by (simp add: s2_def buffers_def buffer_def [abs_def] vbytes_def)
  ultimately have "buffers s' ws = write_bytes (buffers s ws) 0 reply" using b1 by simp
  moreover have "vdma (all_baddrs ws \<union> used_addrs s q) s s2" by (rule vdma_trans [OF v1 v2])
  moreover have "s2 = s'\<lparr>int_status := int_status s, irq_level := irq_level s, backend := backend s\<rparr>"
    using vdma_frame(6) [OF v2] by (simp add: s2_def f)
  moreover have "used_elem s1 q i = used_elem s q i" if "i < ring_size s q" for i
    using bytes [of "4 + 8 * i" 8] that by (simp add: used_elem_def f)
  ultimately have "answered s q k ws reply s'"
    using r(2-6) idx by (simp add: answered_def used_slot_def u f)
  moreover have "backend s' = backend s" using vdma_frame(6) [OF v2] by (simp add: s2_def f)
  ultimately show ?thesis using s1 by (auto simp: s'_def)
qed

lemma answered_upd:
  "answered (upd_req s f) q k ws reply s' = answered s q k ws reply s'"
  "answered s q k ws reply (upd_req s' f) = answered s q k ws reply s'"
proof -
  have v: "vdma A (upd_req s f) (t\<lparr>backend := backend (upd_req s f)\<rparr>) = vdma A s (t\<lparr>backend := backend s\<rparr>)" for A t
  proof -
    have "(t\<lparr>backend := f (backend s)\<rparr> = s\<lparr>backend := f (backend s), vmap := vmap t, vram := vram t\<rparr>)
      = (t\<lparr>backend := backend s\<rparr> = s\<lparr>vmap := vmap t, vram := vram t\<rparr>)" by (cases s; cases t) auto
    then show ?thesis by (simp add: vdma_def upd_req_def)
  qed
  show "answered (upd_req s f) q k ws reply s' = answered s q k ws reply s'"
    using v [of _ "s'\<lparr>int_status := int_status s, irq_level := irq_level s\<rparr>"]
    by (simp add: answered_def) (simp add: upd_req_def)
  show "answered s q k ws reply (upd_req s' f) = answered s q k ws reply s'"
    by (simp add: answered_def) (simp add: upd_req_def)
qed

section \<open>Backends\<close>

text \<open>A synchronous \<open>BlockDevice\<close>: its contents, and whether it can be written.\<close>

locale block_backend =
  fixes ops :: "'d block_ops" and inv :: "'d \<Rightarrow> bool" and contents :: "'d \<Rightarrow> u8 list" and rw :: "'d \<Rightarrow> bool"
  assumes size_ok: "inv d \<Longrightarrow> length (contents d) < 2 ^ 63"
    and read_ok: "inv d \<Longrightarrow> 512 * (i + n) \<le> length (contents d) \<Longrightarrow> 512 * n \<le> length data \<Longrightarrow>
      \<exists>d'. read_async ops d (of_nat i) data (int n) = Some (0, write_bytes data 0 (take (512 * n) (drop (512 * i) (contents d))), d')
        \<and> inv d' \<and> contents d' = contents d \<and> rw d' = rw d"
    and write_ok: "inv d \<Longrightarrow> rw d \<Longrightarrow> 512 * i + length data \<le> length (contents d) \<Longrightarrow> length data = 512 * n \<Longrightarrow>
      \<exists>d'. write_async ops d (of_nat i) data (int n) = Some (0, d')
        \<and> inv d' \<and> contents d' = write_bytes (contents d) (512 * i) data \<and> rw d' = rw d"
    and write_fails: "inv d \<Longrightarrow> \<not> rw d \<Longrightarrow> write_async ops d sec data len = Some (-1, d)"
begin

definition req_done :: "'d \<Rightarrow> blk_request \<Rightarrow> 'd block_dev virtio \<Rightarrow> bool" where
  "req_done d r s' \<longleftrightarrow> inv (bs (backend s')) \<and> contents (bs (backend s')) = blk_disk (rw d) (contents d) r
     \<and> rw (bs (backend s')) = rw d \<and> \<not> req_in_progress (backend s')"

lemma read_answers:
  assumes i: "inv (bs (backend s))" "\<not> req_in_progress (backend s)" and c: "chain s q k rs ws" "separated s q ws"
    and b: "req_type (backend s) = VIRTIO_BLK_T_IN" "req_queue_idx (backend s) = q" "req_desc_idx (backend s) = int k"
    and n: "dsizes ws = 512 * n + 1" "512 * (unat sec + n) \<le> length (contents (bs (backend s)))"
  shows "\<exists>s'. block_read_request ops heap s sec (int (dsizes ws)) = Some (0, s')
    \<and> answered s q k ws (blk_reply (rw (bs (backend s))) (contents (bs (backend s))) (BlkRead (unat sec) n)) s'
    \<and> req_done (bs (backend s)) (BlkRead (unat sec) n) s'"
proof -
  let ?d = "bs (backend s)" and ?data = "malloc_bytes heap (int (dsizes ws))"
  let ?part = "take (512 * n) (drop (512 * unat sec) (contents ?d))"
  have ld: "length ?data = 512 * n + 1" by (simp add: malloc_bytes_def n)
  have lp: "length ?part = 512 * n" using n(2) by simp
  obtain d' where r: "read_async ops ?d sec ?data (int n) = Some (0, write_bytes ?data 0 ?part, d')"
    "inv d'" "contents d' = contents ?d" "rw d' = rw ?d"
    using read_ok [OF i(1) n(2), of ?data] ld by auto
  have sd: "(int (dsizes ws) - 1) sdiv SECTOR_SIZE = int n" unfolding n(1) by (simp add: SECTOR_SIZE_def signed_divide_int_def sgn_if)
  define buf where "buf = write_bytes ?data 0 ?part"
  have lb: "length buf = 512 * n + 1" using ld lp by (simp add: buf_def write_bytes_def)
  have reply: "buf[512 * n := VIRTIO_BLK_S_OK] = ?part @ [VIRTIO_BLK_S_OK]"
    using ld lp by (intro nth_equalityI) (auto simp: buf_def write_bytes_def nth_append nth_list_update)
  define s1 where "s1 = upd_req s (\<lambda>b. b\<lparr>bs := d', req_buf := buf, req_write_size := int (dsizes ws)\<rparr>)"
  have c1: "chain s1 q k rs ws" "separated s1 q ws" using c by (simp_all add: s1_def)
  obtain s2 where s2: "memcpy_to_queue s1 q (int k) 0 (?part @ [VIRTIO_BLK_S_OK]) (int (length (?part @ [VIRTIO_BLK_S_OK]))) = Some (0, s2)"
    "answered s1 q k ws (?part @ [VIRTIO_BLK_S_OK]) (virtio_consume_desc s2 q (int k) (int (length (?part @ [VIRTIO_BLK_S_OK]))))"
    "backend (virtio_consume_desc s2 q (int k) (int (length (?part @ [VIRTIO_BLK_S_OK])))) = backend s1"
    using answer [OF c1, of "?part @ [VIRTIO_BLK_S_OK]"] lp n(1) by auto
  define s' where "s' = virtio_consume_desc s2 q (int k) (int (dsizes ws))"
  have len: "length (?part @ [VIRTIO_BLK_S_OK]) = dsizes ws" using lp n(1) by simp
  have b1: "req_type (backend s1) = VIRTIO_BLK_T_IN" "req_queue_idx (backend s1) = q" "req_desc_idx (backend s1) = int k"
    "req_buf (backend s1) = buf" "req_write_size (backend s1) = int (dsizes ws)"
    using b by (simp_all add: s1_def upd_req_def)
  have "nat (int (dsizes ws)) - 1 = 512 * n" using n(1) by simp
  then have e: "virtio_block_req_end s1 0 = Some s'"
    using s2(1) lb reply n(1) unfolding len by (simp add: virtio_block_req_end_def Let_def b1 blk_status_def s'_def del: of_nat_add of_nat_mult)
  have st: "(int (dsizes ws) - 1) sdiv SECTOR_SIZE = int n" by (rule sd)
  have "block_read_request ops heap s sec (int (dsizes ws)) = Some (0, s')"
    using r(1) e by (simp add: block_read_request_def st buf_def s1_def upd_req_def)
  moreover have "answered s q k ws (?part @ [VIRTIO_BLK_S_OK]) s'"
    using s2(2) unfolding len by (simp add: s1_def answered_upd flip: s'_def)
  moreover have "req_done ?d (BlkRead (unat sec) n) s'"
    using s2(3) r i(2) unfolding len by (simp add: req_done_def s1_def upd_req_def flip: s'_def)
  ultimately show ?thesis by auto
qed

lemma write_answers:
  assumes i: "inv (bs (backend s))" "\<not> req_in_progress (backend s)" and c: "chain s q k rs ws" "separated s q ws"
    and b: "req_type (backend s) = VIRTIO_BLK_T_OUT" "req_queue_idx (backend s) = q" "req_desc_idx (backend s) = int k"
    and n: "0 < dsizes ws" "16 \<le> dsizes rs" "dsizes rs - 16 = 512 * n" "512 * unat sec + 512 * n \<le> length (contents (bs (backend s)))"
  shows "\<exists>s'. block_write_request ops heap s q (int k) sec (int (dsizes rs)) (int (dsizes ws)) = Some (0, s')
    \<and> answered s q k ws (blk_reply (rw (bs (backend s))) (contents (bs (backend s))) (BlkWrite (unat sec) (drop 16 (buffers s rs)))) s'
    \<and> req_done (bs (backend s)) (BlkWrite (unat sec) (drop 16 (buffers s rs))) s'"
proof -
  let ?d = "bs (backend s)" and ?data = "drop 16 (buffers s rs)"
  have rs: "dsizes rs = 16 + 512 * n" "length ?data = 512 * n" using n by simp_all
  have small: "dsizes rs < 2 ^ 31" using c(1) by (simp add: chain_def)
  have len: "signed_take_bit 31 (int (dsizes rs) - hdr_size) = int (512 * n)"
    using small unfolding rs hdr_size_def by (subst signed_take_bit_int_eq_self) simp_all
  have copy: "memcpy_from_queue s (malloc_bytes heap (int (512 * n))) q (int k) hdr_size (int (512 * n)) = Some (0, ?data)"
    using memcpy_from_chain [OF c(1), of 16 "512 * n" "malloc_bytes heap (int (512 * n))"] rs
    by (simp add: hdr_size_def malloc_bytes_def write_bytes_def)
  have sd: "int (512 * n) sdiv SECTOR_SIZE = int n" by (simp add: SECTOR_SIZE_def signed_divide_int_def sgn_if)
  obtain ret d' where w: "write_async ops ?d sec ?data (int n) = Some (ret, d')" "ret \<le> 0" "ret < 0 \<longleftrightarrow> \<not> rw ?d"
    and d': "inv d'" "contents d' = blk_disk (rw ?d) (contents ?d) (BlkWrite (unat sec) ?data)" "rw d' = rw ?d"
  proof (cases "rw ?d")
    case True
    then show ?thesis using write_ok [OF i(1) True, of "unat sec" ?data n] rs(2) n(4) that [of 0] by auto
  next
    case False
    then show ?thesis using write_fails [OF i(1) False] i(1) that [of "-1" ?d] by auto
  qed
  define s1 where "s1 = upd_req s (\<lambda>b. b\<lparr>bs := d'\<rparr>)"
  have c1: "chain s1 q k rs ws" "separated s1 q ws" using c by (simp_all add: s1_def)
  obtain s2 where s2: "memcpy_to_queue s1 q (int k) 0 [blk_status ret] (int (length [blk_status ret])) = Some (0, s2)"
    "answered s1 q k ws [blk_status ret] (virtio_consume_desc s2 q (int k) (int (length [blk_status ret])))"
    "backend (virtio_consume_desc s2 q (int k) (int (length [blk_status ret]))) = backend s1"
    using answer [OF c1, of "[blk_status ret]"] n(1) by auto
  define s' where "s' = virtio_consume_desc s2 q (int k) 1"
  have e: "virtio_block_req_end s1 ret = Some s'"
    using s2(1) b by (simp add: virtio_block_req_end_def s1_def upd_req_def s'_def block_consts)
  have "block_write_request ops heap s q (int k) sec (int (dsizes rs)) (int (dsizes ws)) = Some (0, s')"
    using copy w(1,2) e n(1) by (simp add: block_write_request_def len sd Let_def flip: s1_def del: of_nat_mult)
  moreover have "answered s q k ws [blk_status ret] s'" using s2(2) by (simp add: s1_def answered_upd flip: s'_def)
  moreover have "[blk_status ret] = blk_reply (rw ?d) (contents ?d) (BlkWrite (unat sec) ?data)" using w(3) by (simp add: blk_status_def)
  moreover have "req_done ?d (BlkWrite (unat sec) ?data) s'"
    using s2(3) d' i(2) by (simp add: req_done_def s1_def upd_req_def flip: s'_def)
  ultimately show ?thesis by auto
qed

lemma recv_answers:
  assumes i: "inv (bs (backend s))" "\<not> req_in_progress (backend s)" and c: "chain s q k rs ws" "separated s q ws"
    and r: "decode_req (buffers s rs) (dsizes ws) = Some r" "req_fits r (contents (bs (backend s)))"
  shows "\<exists>s'. virtio_block_recv_request ops heap s q (int k) (int (dsizes rs)) (int (dsizes ws)) = Some (0, s')
    \<and> answered s q k ws (blk_reply (rw (bs (backend s))) (contents (bs (backend s))) r) s' \<and> req_done (bs (backend s)) r s'"
proof -
  let ?b = "buffers s rs" and ?d = "bs (backend s)"
  have l: "16 \<le> dsizes rs" using r(1) by (auto simp: decode_req_def Let_def split: if_splits)
  have h: "memcpy_from_queue s (malloc_bytes heap hdr_size) q (int k) 0 hdr_size = Some (0, take 16 ?b)"
    using memcpy_from_chain [OF c(1), of 0 16 "malloc_bytes heap 16"] l by (simp add: hdr_size_def malloc_bytes_def write_bytes_def)
  have f: "hdr_type (take 16 ?b) = hdr_type ?b" "hdr_sector_num (take 16 ?b) = hdr_sector_num ?b"
    by (simp_all add: hdr_type_def hdr_sector_num_def drop_take min_def)
  define s1 where "s1 = upd_req s (\<lambda>b. b\<lparr>req_type := hdr_type ?b, req_queue_idx := q, req_desc_idx := int k\<rparr>)"
  have c1: "chain s1 q k rs ws" "separated s1 q ws" using c by (simp_all add: s1_def)
  have b1: "bs (backend s1) = ?d" "req_in_progress (backend s1) = req_in_progress (backend s)"
    "req_type (backend s1) = hdr_type ?b" "req_queue_idx (backend s1) = q" "req_desc_idx (backend s1) = int k" "buffers s1 rs = ?b"
    by (simp_all add: s1_def) (simp_all add: upd_req_def)
  have a1: "answered s1 q k ws reply t = answered s q k ws reply t" for reply t by (simp add: s1_def answered_upd)
  show ?thesis
  proof (cases r)
    case (BlkRead a n)
    then have t: "hdr_type ?b = VIRTIO_BLK_T_IN" "a = unat (hdr_sector_num ?b)" "dsizes ws = 512 * n + 1"
    proof -
      have m: "hdr_type ?b = VIRTIO_BLK_T_IN" "a = unat (hdr_sector_num ?b)" "dsizes ws mod 512 = 1" "n = dsizes ws div 512"
        using r(1) BlkRead unfolding decode_req_def Let_def by (simp_all split: if_split_asm)
      show "hdr_type ?b = VIRTIO_BLK_T_IN" "a = unat (hdr_sector_num ?b)" by (rule m)+
      show "dsizes ws = 512 * n + 1" using mult_div_mod_eq [of 512 "dsizes ws"] m(3,4) by simp
    qed
    have "virtio_block_recv_request ops heap s q (int k) (int (dsizes rs)) (int (dsizes ws))
        = block_read_request ops heap s1 (hdr_sector_num ?b) (int (dsizes ws))"
      using i(2) h t(1) by (simp add: virtio_block_recv_request_def Let_def f s1_def)
    then show ?thesis
      using read_answers [of s1 q k rs ws n "hdr_sector_num ?b" heap] i c1 t r(2) BlkRead by (simp add: b1 a1)
  next
    case (BlkWrite a data)
    then have t: "hdr_type ?b = VIRTIO_BLK_T_OUT" "a = unat (hdr_sector_num ?b)" "0 < dsizes ws" "data = drop 16 ?b" "(dsizes rs - 16) mod 512 = 0"
      using r(1) BlkWrite unfolding decode_req_def Let_def by (simp_all split: if_split_asm)
    have "virtio_block_recv_request ops heap s q (int k) (int (dsizes rs)) (int (dsizes ws))
        = block_write_request ops heap s1 q (int k) (hdr_sector_num ?b) (int (dsizes rs)) (int (dsizes ws))"
      using i(2) h t(1) by (simp add: virtio_block_recv_request_def Let_def f block_consts s1_def)
    moreover obtain n where "dsizes rs - 16 = 512 * n" using t(5) by (auto simp: mod_eq_0_iff_dvd)
    ultimately show ?thesis
      using write_answers [of s1 q k rs ws n "hdr_sector_num ?b" heap] i c1 t l r(2) BlkWrite by (simp add: b1 a1)
  qed
qed

end

section \<open>Disk images\<close>

interpretation images: block_backend bf_ops bf_ok disk "\<lambda>bf. bf_mode bf \<noteq> BF_MODE_RO"
proof unfold_locales
  fix d :: block_file and i n and data :: "u8 list" and sec :: u64 and len :: int
  assume ok: "bf_ok d"
  note l = length_disk [OF ok]
  show "length (disk d) < 2 ^ 63" using ok by (simp add: l) (simp add: bf_ok_def)
  show "\<exists>d'. read_async bf_ops d (of_nat i) data (int n) = Some (0, write_bytes data 0 (take (512 * n) (drop (512 * i) (disk d))), d')
      \<and> bf_ok d' \<and> disk d' = disk d \<and> (bf_mode d' \<noteq> BF_MODE_RO) = (bf_mode d \<noteq> BF_MODE_RO)"
    if "512 * (i + n) \<le> length (disk d)" "512 * n \<le> length data"
    using bf_read [OF ok, of i n data] that by (auto simp: l bf_ops_def)
  show "\<exists>d'. write_async bf_ops d (of_nat i) data (int n) = Some (0, d')
      \<and> bf_ok d' \<and> disk d' = write_bytes (disk d) (512 * i) data \<and> (bf_mode d' \<noteq> BF_MODE_RO) = (bf_mode d \<noteq> BF_MODE_RO)"
    if "bf_mode d \<noteq> BF_MODE_RO" "512 * i + length data \<le> length (disk d)" "length data = 512 * n"
    using bf_write [OF ok that(1), of i n data] that by (auto simp: l bf_ops_def)
  show "write_async bf_ops d sec data len = Some (-1, d)" if "\<not> bf_mode d \<noteq> BF_MODE_RO"
    using that by (simp add: bf_ops_def bf_write_async_def)
qed

end
