(* ===== verification/BlockQueue.thy ===== *)
theory BlockQueue
  imports BlockSpec
begin

text \<open>
  The block device on a whole queue: a notification answers all the requests of the available ring,
  in their order, as the specification of \<^theory_text>\<open>BlockSpec\<close> says, and puts an entry for each of them into
  the used ring.
\<close>

section \<open>What a device leaves as it is\<close>

definition same_outside :: "u64 set \<Rightarrow> nat \<Rightarrow> 'b virtio \<Rightarrow> 'b virtio \<Rightarrow> bool" where
  "same_outside A q s t \<longleftrightarrow> map_ok (vmap s) \<and> map_ok (vmap t) \<and> (\<forall>a. is_ram (vmap t) a = is_ram (vmap s) a)
     \<and> (\<forall>a. a \<notin> A \<longrightarrow> vbyte t a = vbyte s a)
     \<and> q_num (queue t q) = q_num (queue s q) \<and> desc_addr (queue t q) = desc_addr (queue s q)
     \<and> avail_addr (queue t q) = avail_addr (queue s q) \<and> used_addr (queue t q) = used_addr (queue s q)"

lemma same_refl: "map_ok (vmap s) \<Longrightarrow> same_outside A q s s"
  by (simp add: same_outside_def)

lemma same_trans: "same_outside A q s t \<Longrightarrow> same_outside B q t u \<Longrightarrow> A \<subseteq> C \<Longrightarrow> B \<subseteq> C \<Longrightarrow> same_outside C q s u"
  unfolding same_outside_def by (simp add: subset_iff) metis

lemma same_addrs:
  assumes "same_outside A q s t"
  shows "ring_size t q = ring_size s q" "used_addrs t q = used_addrs s q" "table_addrs t q = table_addrs s q"
    "ram_block (vmap t) a n = ram_block (vmap s) a n" "used_ok t q = used_ok s q" "apart t q ds = apart s q ds"
  using assms by (simp_all add: same_outside_def ring_size_def used_addrs_def table_addrs_def ram_block_def used_ok_def apart_def)

lemma same_bytes:
  assumes same: "same_outside A q s t"
  shows "addrs a n \<inter> A = {} \<Longrightarrow> n \<le> 2 ^ 64 \<Longrightarrow> vbytes t a n = vbytes s a n"
proof (unfold vbytes_def, rule mem_bytes_cong)
  fix i assume d: "addrs a n \<inter> A = {}" "n \<le> 2 ^ 64" and "i < n"
  then have "a + of_nat i \<notin> A" using addrs_plus [of i n a] by blast
  then show "mem_byte (vmap t) (vram t) (a + of_nat i) = mem_byte (vmap s) (vram s) (a + of_nat i)"
    using same by (simp add: same_outside_def vbyte_def)
qed

lemma same_read16:
  assumes same: "same_outside A q s t" and d: "addrs a 2 \<inter> A = {}"
  shows "virtio_read16 t a = virtio_read16 s a"
proof (cases "a AND 1 = 0 \<and> is_ram (vmap s) a")
  case True
  then have "is_ram (vmap t) a" "map_ok (vmap s)" "map_ok (vmap t)" using same by (auto simp: same_outside_def)
  then show ?thesis using True same_bytes [OF same d] by (simp add: read16_ram)
next
  case False
  moreover have "is_ram (vmap t) a = is_ram (vmap s) a" "map_ok (vmap s)" "map_ok (vmap t)" using same by (auto simp: same_outside_def)
  ultimately show ?thesis using ram_ptr(1) [of _ a False] by (auto simp: virtio_read16_def get_ram_ptr_eq)
qed

lemma same_load:
  assumes same: "same_outside A q s t" and d: "table_addrs s q \<inter> A = {}"
  shows "load_desc t q k = load_desc s q k"
proof (cases "k < unat (q_num (queue s q))")
  case True
  let ?b = "desc_addr (queue s q)"
  have "unat (q_num (queue s q)) < 2 ^ 32" using unsigned_less [of "q_num (queue s q)"] by simp
  then have "addrs (?b + of_nat (16 * k)) 16 \<subseteq> table_addrs s q"
    using addrs_shift [of "16 * k" 16 ?b] addrs_sub [of ?b "16 * k + 16" "16 * unat (q_num (queue s q)) - (16 * k + 16)"] True
    by (auto simp: table_addrs_def)
  then have "vbytes t (?b + of_nat k * 16) 16 = vbytes s (?b + of_nat k * 16) 16"
    using d by (intro same_bytes [OF same]) (auto simp: mult.commute)
  then show ?thesis using same same_addrs(4) [OF same] by (simp add: load_desc_def Let_def same_outside_def)
next
  case False
  then show ?thesis using same by (simp add: load_desc_def Let_def same_outside_def)
qed

lemma same_buffers:
  assumes same: "same_outside A q s t" and d: "all_baddrs ds \<inter> A = {}"
  shows "buffers t ds = buffers s ds"
proof -
  have "buffer t d = buffer s d" if "baddrs d \<inter> A = {}" for d
    using same_bytes [OF same, of "d_addr d" "dsize d"] that dsize_u32 [of d] by (simp add: buffer_def baddrs_def)
  then show ?thesis using d by (induction ds) auto
qed

lemma same_chain:
  assumes same: "same_outside A q s t" and d: "table_addrs s q \<inter> A = {}"
  shows "chain t q k rs ws = chain s q k rs ws"
proof -
  have "linked t q ds = linked s q ds" for ds
    by (induction ds rule: induct_list012) (simp_all add: same_load [OF same d])
  then show ?thesis
    using same same_addrs(4) [OF same] by (simp add: chain_def same_load [OF same d] same_outside_def)
qed

lemma answered_same:
  assumes "answered s q k ws reply s'" "map_ok (vmap s)"
  shows "same_outside (all_baddrs ws \<union> used_addrs s q) q s (advance_avail s' q)"
proof -
  let ?t = "s'\<lparr>int_status := int_status s, irq_level := irq_level s, backend := backend s\<rparr>"
  have v: "vdma (all_baddrs ws \<union> used_addrs s q) s ?t" using assms(1) by (simp add: answered_def)
  then show ?thesis
    using vdma_map(1,3) [OF v] vdma_byte [OF v _ assms(2)] vdma_frame(1) [OF v] assms(2)
    by (auto simp: same_outside_def advance_avail_def upd_queue_def vbyte_def)
qed

section \<open>Requests in the available ring\<close>

record queued_req =
  head_idx :: nat
  in_descs :: "desc list"
  out_descs :: "desc list"
  asked :: blk_request

definition avail_addrs :: "'b virtio \<Rightarrow> nat \<Rightarrow> u64 set" where
  "avail_addrs s q = addrs (avail_addr (queue s q)) (4 + 2 * ring_size s q)"

fun queued :: "'b virtio \<Rightarrow> nat \<Rightarrow> u16 \<Rightarrow> queued_req list \<Rightarrow> bool" where
  "queued s q idx [] \<longleftrightarrow> True"
| "queued s q idx (r # R) \<longleftrightarrow> avail_desc s q idx = int (head_idx r) \<and> chain s q (head_idx r) (in_descs r) (out_descs r)
     \<and> decode_req (buffers s (in_descs r)) (dsizes (out_descs r)) = Some (asked r) \<and> queued s q (idx + 1) R"

definition outs :: "queued_req list \<Rightarrow> desc list" where
  "outs R = concat (map out_descs R)"

definition ins :: "queued_req list \<Rightarrow> desc list" where
  "ins R = concat (map in_descs R)"

text \<open>What the device writes overlaps neither itself nor what the device reads.\<close>

definition isolated :: "'b virtio \<Rightarrow> nat \<Rightarrow> queued_req list \<Rightarrow> bool" where
  "isolated s q R \<longleftrightarrow> used_ok s q \<and> apart s q (outs R) \<and> all_baddrs (outs R) \<inter> used_addrs s q = {}
     \<and> (all_baddrs (outs R) \<union> used_addrs s q) \<inter> (table_addrs s q \<union> avail_addrs s q \<union> all_baddrs (ins R)) = {}"

lemma avail_desc_same:
  assumes same: "same_outside A q s t" and u: "used_ok s q" and d: "A \<inter> avail_addrs s q = {}"
  shows "avail_desc t q idx = avail_desc s q idx"
proof -
  obtain n where n: "n < 32" "q_num (queue s q) = 2 ^ n" using u by (auto simp: used_ok_def)
  let ?b = "avail_addr (queue s q)" and ?j = "unat idx mod ring_size s q"
  have r: "ring_size s q < 2 ^ 32" using used_ok_facts(3) [OF u] .
  have "0 < ring_size s q" using mask_index(2) [OF n(2,1)] by (simp add: ring_size_def)
  then have j: "?j < ring_size s q" by simp
  have a: "?b + 4 + ucast ((ucast idx AND (q_num (queue s q) - 1)) * 2 :: u32) = ?b + of_nat (4 + 2 * ?j)"
    using ring_addr [OF n(2,1), of 2 "?b + 4" idx] by (simp add: add.assoc)
  have "addrs (?b + of_nat (4 + 2 * ?j)) 2 \<subseteq> avail_addrs s q"
    using addrs_shift [of "4 + 2 * ?j" 2 ?b] addrs_sub [of ?b "4 + 2 * ?j + 2" "2 * ring_size s q - (2 * ?j + 2)"] j r
    by (auto simp: avail_addrs_def)
  then have "virtio_read16 t (?b + of_nat (4 + 2 * ?j)) = virtio_read16 s (?b + of_nat (4 + 2 * ?j))"
    using d by (intro same_read16 [OF same]) blast
  moreover have "q_num (queue t q) = q_num (queue s q)" "avail_addr (queue t q) = ?b" using same by (simp_all add: same_outside_def)
  ultimately show ?thesis by (simp only: avail_desc_def Let_def a)
qed

lemma queued_same:
  assumes same: "same_outside A q s t" and u: "used_ok s q"
    and d: "A \<inter> (table_addrs s q \<union> avail_addrs s q \<union> all_baddrs (ins R)) = {}"
  shows "queued t q idx R = queued s q idx R"
  using d
proof (induction R arbitrary: idx)
  case (Cons r R)
  have "queued t q (idx + 1) R = queued s q (idx + 1) R" by (rule Cons.IH) (use Cons.prems in \<open>auto simp: ins_def\<close>)
  moreover have "buffers t (in_descs r) = buffers s (in_descs r)"
    by (rule same_buffers [OF same]) (use Cons.prems in \<open>auto simp: ins_def\<close>)
  moreover have "avail_desc t q idx = avail_desc s q idx" by (rule avail_desc_same [OF same u]) (use Cons.prems in blast)
  moreover have "chain t q k rs ws = chain s q k rs ws" for k rs ws by (rule same_chain [OF same]) (use Cons.prems in blast)
  ultimately show ?case by simp
qed simp

lemma isolated_same:
  assumes "same_outside A q s t"
  shows "isolated t q R = isolated s q R"
  using assms same_addrs [OF assms] by (simp add: isolated_def avail_addrs_def same_outside_def)

lemma isolated_Cons:
  assumes "isolated s q (r # R)"
  shows "isolated s q R" "separated s q (out_descs r)" "all_baddrs (out_descs r) \<inter> all_baddrs (outs R) = {}"
    "(all_baddrs (out_descs r) \<union> used_addrs s q) \<inter> (table_addrs s q \<union> avail_addrs s q \<union> all_baddrs (ins R)) = {}"
    "all_baddrs (out_descs r) \<inter> (all_baddrs (outs R) \<union> used_addrs s q) = {}"
proof -
  have o: "outs (r # R) = out_descs r @ outs R" "ins (r # R) = in_descs r @ ins R" by (simp_all add: outs_def ins_def)
  have a: "apart s q (out_descs r)" "apart s q (outs R)" "\<forall>x \<in> set (out_descs r). \<forall>y \<in> set (outs R). baddrs x \<inter> baddrs y = {}"
    using assms by (simp_all add: isolated_def o apart_def sorted_wrt_append)
  show "isolated s q R" using assms a(2) by (auto simp: isolated_def o)
  show "separated s q (out_descs r)" using assms a(1) by (auto simp: isolated_def separated_def o)
  show "all_baddrs (out_descs r) \<inter> all_baddrs (outs R) = {}" using a(3) by blast
  show "(all_baddrs (out_descs r) \<union> used_addrs s q) \<inter> (table_addrs s q \<union> avail_addrs s q \<union> all_baddrs (ins R)) = {}"
    "all_baddrs (out_descs r) \<inter> (all_baddrs (outs R) \<union> used_addrs s q) = {}"
    using assms a(3) unfolding isolated_def o by auto
qed

section \<open>The queue as a specification\<close>

fun blk_replies :: "bool \<Rightarrow> u8 list \<Rightarrow> blk_request list \<Rightarrow> u8 list list" where
  "blk_replies rw d [] = []"
| "blk_replies rw d (r # R) = blk_reply rw d r # blk_replies rw (blk_disk rw d r) R"

definition blk_final :: "bool \<Rightarrow> u8 list \<Rightarrow> blk_request list \<Rightarrow> u8 list" where
  "blk_final rw d R = fold (\<lambda>r d. blk_disk rw d r) R d"

definition ring_slot :: "'b virtio \<Rightarrow> nat \<Rightarrow> u16 \<Rightarrow> nat" where
  "ring_slot s q idx = unat idx mod ring_size s q"

text \<open>Each request has its reply in its buffers and its entry in the used ring, in the order of the requests.\<close>

definition completed :: "'b virtio \<Rightarrow> nat \<Rightarrow> queued_req list \<Rightarrow> u8 list list \<Rightarrow> 'b virtio \<Rightarrow> bool" where
  "completed s q R replies s' \<longleftrightarrow> length replies = length R \<and> used_idx s' q = used_idx s q + of_nat (length R)
     \<and> (\<forall>j < length R. buffers s' (out_descs (R ! j)) = write_bytes (buffers s (out_descs (R ! j))) 0 (replies ! j)
         \<and> used_elem s' q (ring_slot s q (used_idx s q + of_nat j)) = used_entry (int (head_idx (R ! j))) (int (length (replies ! j))))
     \<and> (R \<noteq> [] \<longrightarrow> int_status s' AND 1 = 1 \<and> irq_level s' = 1)"

lemma length_blk_disk: "req_fits r d \<Longrightarrow> length (blk_disk rw d r) = length d"
  by (cases r) (auto intro: length_write_bytes)

lemma fits_blk_disk: "req_fits r d \<Longrightarrow> req_fits r' (blk_disk rw d r) = req_fits r' d"
  by (cases r') (simp_all add: length_blk_disk)

text \<open>The slots of consecutive indices, fewer than the size of the ring, are distinct.\<close>

lemma ring_slot_distinct:
  assumes "ring_size s q dvd 65536" "0 < j" "j < ring_size s q"
  shows "ring_slot s q (idx + of_nat j) \<noteq> ring_slot s q idx"
proof
  let ?N = "ring_size s q"
  assume e: "ring_slot s q (idx + of_nat j) = ring_slot s q idx"
  have "unat (idx + of_nat j) = (unat idx + j) mod 65536"
    by (simp add: unat_word_ariths unsigned_of_nat take_bit_eq_mod mod_add_right_eq)
  then have "(unat idx + j) mod ?N = unat idx mod ?N" using e assms(1) by (simp add: ring_slot_def mod_mod_cancel)
  then have "?N dvd j" by (simp add: mod_eq_dvd_iff_nat)
  then show False using assms(2,3) by (auto dest: dvd_imp_le)
qed

lemma ring_slot_lt: "used_ok s q \<Longrightarrow> ring_slot s q idx < ring_size s q"
  using used_ok_facts(4) [of s q] by (simp add: ring_slot_def)

text \<open>A first request and the requests after it.\<close>

lemma completed_Cons:
  assumes a: "answered s q (head_idx r) (out_descs r) reply t" and iso: "isolated s q (r # R)"
    and n: "length (r # R) \<le> ring_size s q" "ring_size s q dvd 65536" and ok: "map_ok (vmap s)"
  defines "s1 \<equiv> advance_avail t q"
  assumes c: "completed s1 q R replies s'" and nil: "R = [] \<Longrightarrow> s' = s1" and same: "same_outside (all_baddrs (outs R) \<union> used_addrs s1 q) q s1 s'"
    and other: "\<And>i. i < ring_size s q \<Longrightarrow> i \<notin> (\<lambda>j. ring_slot s q (used_idx s1 q + of_nat j)) ` {..<length R} \<Longrightarrow> used_elem s' q i = used_elem s1 q i"
  shows "completed s q (r # R) (reply # replies) s'"
    and "same_outside (all_baddrs (outs (r # R)) \<union> used_addrs s q) q s s'"
    and "i < ring_size s q \<Longrightarrow> i \<notin> (\<lambda>j. ring_slot s q (used_idx s q + of_nat j)) ` {..<length (r # R)} \<Longrightarrow> used_elem s' q i = used_elem s q i"
proof -
  note iso' = isolated_Cons [OF iso]
  have u: "used_ok s q" using iso by (simp add: isolated_def)
  have s1: "same_outside (all_baddrs (out_descs r) \<union> used_addrs s q) q s s1" unfolding s1_def by (rule answered_same [OF a ok])
  have ua: "used_addrs s1 q = used_addrs s q" "ring_size s1 q = ring_size s q" by (rule same_addrs [OF s1])+
  have mem: "vbytes s1 = vbytes t" "queue s1 q = (queue t q)\<lparr>last_avail_idx := last_avail_idx (queue t q) + 1\<rparr>"
    by (auto simp: s1_def advance_avail_def upd_queue_def vbytes_def fun_eq_iff)
  have rd: "virtio_read16 s1 x = virtio_read16 t x" for x
    by (simp add: s1_def advance_avail_def upd_queue_def virtio_read16_def virtio_get_ram_ptr_def Let_def split: prod.split)
  have t: "used_idx s1 q = used_idx s q + 1" "used_elem s1 q = used_elem t q" "buffers s1 ds = buffers t ds" for ds
    using a by (simp_all add: answered_def used_idx_def used_elem_def [abs_def] buffers_def buffer_def [abs_def] mem rd)
  have e0: "used_elem s1 q (ring_slot s q (used_idx s q)) = used_entry (int (head_idx r)) (int (length reply))"
    "\<And>i. i < ring_size s q \<Longrightarrow> i \<noteq> ring_slot s q (used_idx s q) \<Longrightarrow> used_elem s1 q i = used_elem s q i"
    "buffers s1 (out_descs r) = write_bytes (buffers s (out_descs r)) 0 reply"
    using a unfolding t by (simp_all add: answered_def ring_slot_def used_slot_def)
  have idx: "used_idx s1 q + of_nat j = used_idx s q + of_nat (Suc j)" for j by (simp add: t(1))
  have slot: "ring_slot s q (used_idx s q) \<notin> (\<lambda>j. ring_slot s q (used_idx s1 q + of_nat j)) ` {..<length R}"
    using ring_slot_distinct [OF n(2), of "Suc _" "used_idx s q"] n(1) unfolding idx by (auto simp del: of_nat_Suc dest: sym)
  show "same_outside (all_baddrs (outs (r # R)) \<union> used_addrs s q) q s s'"
    by (rule same_trans [OF s1 same]) (auto simp: outs_def ua)
  have b: "buffers s' (out_descs r) = buffers s1 (out_descs r)"
    by (rule same_buffers [OF same]) (use iso'(5) in \<open>simp add: ua\<close>)
  have later: "buffers s1 (out_descs x) = buffers s (out_descs x)" if "x \<in> set R" for x
  proof (rule same_buffers [OF s1])
    have "all_baddrs (out_descs x) \<subseteq> all_baddrs (outs R)" using that by (auto simp: outs_def)
    moreover have "all_baddrs (outs R) \<inter> used_addrs s q = {}" using iso'(1) by (simp add: isolated_def)
    ultimately show "all_baddrs (out_descs x) \<inter> (all_baddrs (out_descs r) \<union> used_addrs s q) = {}" using iso'(3) by blast
  qed
  have sl: "ring_slot s1 q idx = ring_slot s q idx" for idx by (simp add: ring_slot_def ua)
  have irq: "int_status s' AND 1 = 1 \<and> irq_level s' = 1"
  proof (cases "R = []")
    case True
    have "(x OR 1) AND 1 = 1" for x :: u32 by (rule bit_word_eqI) (auto simp: bit_simps)
    then show ?thesis using a nil [OF True] by (simp add: answered_def s1_def advance_avail_def upd_queue_def)
  next
    case False
    then show ?thesis using c by (simp add: completed_def)
  qed
  show "completed s q (r # R) (reply # replies) s'"
    unfolding completed_def
  proof (intro conjI impI allI)
    show "length (reply # replies) = length (r # R)" "used_idx s' q = used_idx s q + of_nat (length (r # R))"
      using c by (simp_all add: completed_def t(1))
    show "int_status s' AND 1 = 1" "irq_level s' = 1" using irq by simp_all
    fix j assume j: "j < length (r # R)"
    show "buffers s' (out_descs ((r # R) ! j)) = write_bytes (buffers s (out_descs ((r # R) ! j))) 0 ((reply # replies) ! j)"
      using c j b e0(3) later by (cases j) (simp_all add: completed_def)
    show "used_elem s' q (ring_slot s q (used_idx s q + of_nat j)) = used_entry (int (head_idx ((r # R) ! j))) (int (length ((reply # replies) ! j)))"
    proof (cases j)
      case 0
      have "used_elem s' q (ring_slot s q (used_idx s q)) = used_elem s1 q (ring_slot s q (used_idx s q))"
        by (rule other [OF ring_slot_lt [OF u] slot])
      then show ?thesis using e0(1) 0 by simp
    next
      case (Suc i)
      then show ?thesis using c j idx [of i] by (simp add: completed_def sl add.assoc)
    qed
  qed
  show "used_elem s' q i = used_elem s q i"
    if i: "i < ring_size s q" "i \<notin> (\<lambda>j. ring_slot s q (used_idx s q + of_nat j)) ` {..<length (r # R)}"
  proof -
    have "i \<noteq> ring_slot s q (used_idx s q + of_nat j)" if "j < length (r # R)" for j using i(2) that by blast
    from this [of 0] this [of "Suc _"] have "i \<noteq> ring_slot s q (used_idx s q)"
      "i \<notin> (\<lambda>j. ring_slot s q (used_idx s1 q + of_nat j)) ` {..<length R}" unfolding idx by auto
    then show ?thesis using other [OF i(1)] e0(2) [OF i(1)] by simp
  qed
qed

section \<open>Serving the queue\<close>

context block_backend
begin

lemma request_step:
  assumes i: "inv (bs (backend s))" "\<not> req_in_progress (backend s)" and q: "queued s q (last_avail_idx (queue s q)) (r # R)"
    and iso: "isolated s q (r # R)" and f: "req_fits (asked r) (contents (bs (backend s)))"
  shows "\<exists>t. notify_one (block_class ops heap) s q = Some (0, t)
    \<and> answered s q (head_idx r) (out_descs r) (blk_reply (rw (bs (backend s))) (contents (bs (backend s))) (asked r)) t
    \<and> req_done (bs (backend s)) (asked r) t"
  using recv_answers [OF i _ isolated_Cons(2) [OF iso], of "head_idx r" "in_descs r" "asked r" heap] q f
    rw_size_chain [of s q "head_idx r" "in_descs r" "out_descs r"]
  by (auto simp: notify_one_def block_class_def)

lemma serve_spec:
  assumes "inv (bs (backend s))" "\<not> req_in_progress (backend s)" "map_ok (vmap s)"
    and "queued s q (last_avail_idx (queue s q)) R" "isolated s q R" "length R \<le> ring_size s q" "ring_size s q dvd 65536"
    and "\<forall>r \<in> set R. req_fits (asked r) (contents (bs (backend s)))"
  shows "\<exists>s'. serve (block_class ops heap) q (length R) s = Some s'
    \<and> completed s q R (blk_replies (rw (bs (backend s))) (contents (bs (backend s))) (map asked R)) s'
    \<and> same_outside (all_baddrs (outs R) \<union> used_addrs s q) q s s'
    \<and> (\<forall>i < ring_size s q. i \<notin> (\<lambda>j. ring_slot s q (used_idx s q + of_nat j)) ` {..<length R} \<longrightarrow> used_elem s' q i = used_elem s q i)
    \<and> last_avail_idx (queue s' q) = last_avail_idx (queue s q) + of_nat (length R)
    \<and> inv (bs (backend s')) \<and> contents (bs (backend s')) = blk_final (rw (bs (backend s))) (contents (bs (backend s))) (map asked R)
    \<and> rw (bs (backend s')) = rw (bs (backend s)) \<and> \<not> req_in_progress (backend s') \<and> (R = [] \<longrightarrow> s' = s)"
  using assms
proof (induction R arbitrary: s)
  case Nil
  then show ?case by (simp add: completed_def blk_final_def same_refl)
next
  case (Cons r R)
  let ?d = "bs (backend s)" and ?reply = "blk_reply (rw (bs (backend s))) (contents (bs (backend s))) (asked r)"
  have f: "req_fits (asked r) (contents ?d)" using Cons.prems(8) by simp
  obtain t where t: "notify_one (block_class ops heap) s q = Some (0, t)" "answered s q (head_idx r) (out_descs r) ?reply t" "req_done ?d (asked r) t"
    using request_step [OF Cons.prems(1,2,4,5) f, where heap = heap] by blast
  define s1 where "s1 = advance_avail t q"
  have same: "same_outside (all_baddrs (out_descs r) \<union> used_addrs s q) q s s1"
    unfolding s1_def by (rule answered_same [OF t(2) Cons.prems(3)])
  have b1: "backend s1 = backend t" by (simp add: s1_def advance_avail_def upd_queue_def)
  have la: "last_avail_idx (queue s1 q) = last_avail_idx (queue s q) + 1"
  proof -
    have v: "vdma (all_baddrs (out_descs r) \<union> used_addrs s q) s (t\<lparr>int_status := int_status s, irq_level := irq_level s, backend := backend s\<rparr>)"
      using t(2) by (simp add: answered_def)
    show ?thesis using vdma_frame(1) [OF v] by (simp add: s1_def advance_avail_def upd_queue_def)
  qed
  have d1: "inv (bs (backend s1))" "\<not> req_in_progress (backend s1)" "rw (bs (backend s1)) = rw ?d"
    "contents (bs (backend s1)) = blk_disk (rw ?d) (contents ?d) (asked r)"
    using t(3) by (simp_all add: b1 req_done_def)
  have u: "used_ok s q" using Cons.prems(5) by (simp add: isolated_def)
  have "queued s1 q (last_avail_idx (queue s1 q)) R"
    using queued_same [OF same u isolated_Cons(4) [OF Cons.prems(5)]] Cons.prems(4) by (simp add: la)
  moreover have "isolated s1 q R" using isolated_same [OF same] isolated_Cons(1) [OF Cons.prems(5)] by simp
  moreover have "length R \<le> ring_size s1 q" "ring_size s1 q dvd 65536" "map_ok (vmap s1)"
    using Cons.prems(6,7) same_addrs(1) [OF same] same by (simp_all add: same_outside_def)
  moreover have "\<forall>r \<in> set R. req_fits (asked r) (contents (bs (backend s1)))"
    using Cons.prems(8) by (simp add: d1 fits_blk_disk [OF f])
  ultimately obtain s' where s': "serve (block_class ops heap) q (length R) s1 = Some s'"
    "completed s1 q R (blk_replies (rw ?d) (contents (bs (backend s1))) (map asked R)) s'"
    "same_outside (all_baddrs (outs R) \<union> used_addrs s1 q) q s1 s'"
    "\<forall>i < ring_size s1 q. i \<notin> (\<lambda>j. ring_slot s1 q (used_idx s1 q + of_nat j)) ` {..<length R} \<longrightarrow> used_elem s' q i = used_elem s1 q i"
    "last_avail_idx (queue s' q) = last_avail_idx (queue s1 q) + of_nat (length R)"
    "inv (bs (backend s'))" "contents (bs (backend s')) = blk_final (rw ?d) (contents (bs (backend s1))) (map asked R)"
    "rw (bs (backend s')) = rw ?d" "\<not> req_in_progress (backend s')" "R = [] \<longrightarrow> s' = s1"
    using Cons.IH [of s1] d1(1,2,3) by auto
  have sl: "ring_slot s1 q idx = ring_slot s q idx" for idx using same_addrs(1) [OF same] by (simp add: ring_slot_def)
  have e: "blk_replies (rw ?d) (contents ?d) (map asked (r # R)) = ?reply # blk_replies (rw ?d) (contents (bs (backend s1))) (map asked R)"
    by (simp add: d1)
  note comp = completed_Cons [OF t(2) Cons.prems(5-7,3), folded s1_def, OF s'(2) _ s'(3)]
  have o: "\<And>i. i < ring_size s q \<Longrightarrow> i \<notin> (\<lambda>j. ring_slot s q (used_idx s1 q + of_nat j)) ` {..<length R} \<Longrightarrow> used_elem s' q i = used_elem s1 q i"
    using s'(4) same_addrs(1) [OF same] unfolding sl by simp
  have "serve (block_class ops heap) q (length (r # R)) s = Some s'" using t(1) s'(1) by (simp flip: s1_def)
  moreover have "completed s q (r # R) (blk_replies (rw ?d) (contents ?d) (map asked (r # R))) s'"
    unfolding e by (rule comp(1)) (use s'(10) o in auto)
  moreover have "same_outside (all_baddrs (outs (r # R)) \<union> used_addrs s q) q s s'"
    by (rule comp(2)) (use s'(10) o in auto)
  moreover have "used_elem s' q i = used_elem s q i"
    if "i < ring_size s q" "i \<notin> (\<lambda>j. ring_slot s q (used_idx s q + of_nat j)) ` {..<length (r # R)}" for i
    by (rule comp(3) [OF _ _ that]) (use s'(10) o in auto)
  moreover have "contents (bs (backend s')) = blk_final (rw ?d) (contents ?d) (map asked (r # R))"
    using s'(7) by (simp add: d1 blk_final_def)
  ultimately show ?case using s'(5,6,8,9) la by (intro exI [of _ s']) auto
qed

end

text \<open>C4: The whole path of a disk: a notification of a queue of the block device on a disk image of
  \<open>temu.c\<close>, in any of its modes, ends and answers every request that the guest has made available,
  in order, as the specification says. Each read finds what the requests before it have written; its
  reply is the sectors of the disk and an OK status, in the writable buffers of its chain from their
  start; a write changes the disk at its sectors and nowhere else, and it fails without a change on a
  read-only image. The used ring has an entry per request in the following slots, with the head of the
  chain and the length of the reply, its index has advanced by their number, and the interrupt is
  raised. Nothing else in the memory of the guest changes.
\<close>

theorem disk_image_serves_queue:
  fixes s :: "block_file block_dev virtio"
  defines "img \<equiv> bs (backend s)"
  defines "rw \<equiv> bf_mode img \<noteq> BF_MODE_RO"
  assumes "map_ok (vmap s)" "bf_ok img" "\<not> req_in_progress (backend s)" "\<not> manual_recv (queue s q)"
    and "queued s q (last_avail_idx (queue s q)) R" "pending s q = length R" "isolated s q R"
    and "length R \<le> ring_size s q" "ring_size s q dvd 65536" "\<forall>r \<in> set R. req_fits (asked r) (disk img)"
  shows "\<exists>s'. queue_notify (block_class bf_ops heap) s q = Some s'
    \<and> completed s q R (blk_replies rw (disk img) (map asked R)) s'
    \<and> same_outside (all_baddrs (outs R) \<union> used_addrs s q) q s s'
    \<and> disk (bs (backend s')) = blk_final rw (disk img) (map asked R) \<and> bf_ok (bs (backend s'))
    \<and> last_avail_idx (queue s' q) = avail_idx s q \<and> \<not> req_in_progress (backend s')"
proof -
  have n: "queue_notify (block_class bf_ops heap) s q = serve (block_class bf_ops heap) q (length R) s"
    using bq.notify_serves [of s bf_ops heap q] assms(3,6,8) by simp
  have a: "avail_idx s q = last_avail_idx (queue s q) + of_nat (length R)"
    using assms(8) unfolding pending_def by (metis add.commute diff_add_cancel of_nat_unat ucast_id)
  show ?thesis
    using images.serve_spec [of s q R heap] assms(3-12) unfolding n a img_def rw_def by auto
qed

end
