(* ===== verification/BlockImage.thy ===== *)
theory BlockImage
  imports BlockQueue
begin

text \<open>
  The image file of a disk that is not opened for writing never changes, whatever the guest does. The
  interface for it is a relation on the private state of a device that its callbacks keep; then every
  access of the guest keeps it.
\<close>

definition kept :: "('b \<Rightarrow> 'b \<Rightarrow> bool) \<Rightarrow> 'b virtio \<Rightarrow> 'b virtio \<Rightarrow> bool" where
  "kept R s s' \<longleftrightarrow> (map_ok (vmap s) \<longrightarrow> map_ok (vmap s') \<and> R (backend s) (backend s'))"

locale backend_device =
  fixes c :: "'b device_class" and R :: "'b \<Rightarrow> 'b \<Rightarrow> bool"
  assumes R_refl: "R b b" and R_trans: "R b b1 \<Longrightarrow> R b1 b2 \<Longrightarrow> R b b2"
    and recv_kept: "device_recv c s q desc_idx read_size write_size = Some (ret, s') \<Longrightarrow> kept R s s'"
    and config_kept: "config_written c s = Some s' \<Longrightarrow> kept R s s'"
begin

lemma kept_same: "vmap s' = vmap s \<Longrightarrow> backend s' = backend s \<Longrightarrow> kept R s s'"
  by (simp add: kept_def R_refl)

lemma kept_trans: "kept R s t \<Longrightarrow> kept R t u \<Longrightarrow> kept R s u"
  using R_trans by (auto simp: kept_def)

lemma one_kept: "notify_one c s q = Some (ret, s') \<Longrightarrow> kept R s s'"
  by (auto simp: notify_one_def Let_def split: option.splits if_splits prod.splits intro: recv_kept kept_same)

lemma loop_kept:
  assumes "notify_loop c s q a = Some s'"
  shows "kept R s s'"
proof (rule notify_loop.raw_induct [OF _ assms, where P = "\<lambda>c' s q a s'. c' = c \<longrightarrow> kept R s s'", THEN mp, OF _ refl], rule impI)
  fix rec :: "'b device_class \<Rightarrow> 'b virtio \<Rightarrow> nat \<Rightarrow> u16 \<Rightarrow> 'b virtio option" and c' s q a s'
  assume ih: "\<And>c' s q a s'. rec c' s q a = Some s' \<Longrightarrow> c' = c \<longrightarrow> kept R s s'" and c: "c' = c"
    and r: "(if last_avail_idx (queue s q) = a then Some s
      else case notify_one c' s q of None \<Rightarrow> None
        | Some (ret, s1) \<Rightarrow> if ret < 0 then Some s1 else rec c' (advance_avail s1 q) q a) = Some s'"
  have adv: "kept R t (advance_avail t q)" for t by (rule kept_same) (simp_all add: advance_avail_def upd_queue_def)
  show "kept R s s'"
  proof (cases "last_avail_idx (queue s q) = a")
    case True
    then show ?thesis using r kept_same by simp
  next
    case False
    then obtain ret s1 where o: "notify_one c s q = Some (ret, s1)" "s' = s1 \<or> rec c (advance_avail s1 q) q a = Some s'"
      using r c by (auto split: option.splits prod.splits if_splits)
    then have "kept R s1 s'" using ih kept_trans [OF adv] kept_same by blast
    then show ?thesis using kept_trans [OF one_kept [OF o(1)]] by blast
  qed
qed

lemma notify_kept: "notify_queue c s val = Some s' \<Longrightarrow> kept R s s'"
  using loop_kept kept_same by (auto simp: notify_queue_def queue_notify_def split: if_splits)

lemma config_write_kept: "virtio_config_write c s offset val size_log2 = Some s' \<Longrightarrow> kept R s s'"
  using config_kept [of "s\<lparr>config_space := cs\<rparr>" for cs] kept_same
  by (auto simp: virtio_config_write_def kept_def split: if_splits)

lemma regs_kept:
  "kept R s (upd_sel_queue s f)" "kept R s (write_queue_sel s val)" "kept R s (write_queue_num s val)"
  "kept R s (write_status s val)" "kept R s (ack_interrupt s val)" "kept R s (s\<lparr>device_features_sel := val\<rparr>)"
  "kept R s (raise_irq (s\<lparr>int_status := 0\<rparr>) 0)"
  by (auto intro!: kept_same simp: upd_sel_queue_def upd_queue_def write_queue_sel_def write_queue_num_def write_status_def
      ack_interrupt_def virtio_reset_def raise_irq_def Let_def)

lemma step_kept:
  assumes "virtio_step c host s s'" "\<And>s s'. host s s' \<Longrightarrow> kept R s s'"
  shows "kept R s s'"
  using assms(1)
proof (cases rule: virtio_step.cases)
  case mmio_write
  then show ?thesis unfolding virtio_mmio_write_def mmio_write_reg_def
    by (auto split: if_splits intro: config_write_kept notify_kept regs_kept kept_same)
next
  case pci_write
  have "kept R s (pci_write_cfg s offset val size_log2)" for offset val size_log2
    unfolding pci_write_cfg_def by (auto intro: regs_kept kept_same)
  then show ?thesis using pci_write unfolding virtio_pci_write_def Let_def
    by (auto split: if_splits intro: config_write_kept notify_kept kept_same)
next
  case pci_read
  then show ?thesis unfolding virtio_pci_read_def Let_def by (auto split: if_splits intro: regs_kept kept_same)
qed (rule assms(2))

lemma run_kept:
  assumes "virtio_run c host s0 s" "\<And>s s'. host s s' \<Longrightarrow> kept R s s'"
  shows "kept R s0 s"
  using assms(1)
proof (induction rule: virtio_run.induct)
  case (device t u)
  then show ?case using kept_trans step_kept assms(2) by blast
qed (auto simp: kept_def R_refl)

end

section \<open>The image file\<close>

definition image_same :: "block_file block_dev \<Rightarrow> block_file block_dev \<Rightarrow> bool" where
  "image_same b b' \<longleftrightarrow> bf_mode (bs b') = bf_mode (bs b) \<and> (bf_mode (bs b) \<noteq> BF_MODE_RW \<longrightarrow> f_data (bf_f (bs b')) = f_data (bf_f (bs b)))"

lemma stream_data: "f_data (fseek_set f off) = f_data f" "fread f data pos n = (data', f') \<Longrightarrow> f_data f' = f_data f"
  by (auto simp: fseek_set_def fread_def Let_def)

lemma read_snapshot_data:
  "bf_read_snapshot bf sec data pos n = Some (data', bf') \<Longrightarrow> bf_mode bf' = bf_mode bf \<and> f_data (bf_f bf') = f_data (bf_f bf)"
  by (induction bf sec data pos n rule: bf_read_snapshot.induct)
    (auto simp: Let_def stream_data split: if_splits option.splits prod.splits)

lemma write_snapshot_data:
  "bf_write_snapshot bf sec data n = Some bf' \<Longrightarrow> bf_mode bf' = bf_mode bf \<and> f_data (bf_f bf') = f_data (bf_f bf)"
  by (induction bf sec data n rule: bf_write_snapshot.induct) (auto split: if_splits)

lemma ops_image:
  "read_async bf_ops (bs b) sec data n = Some (ret, data', d) \<Longrightarrow> image_same b (b\<lparr>bs := d\<rparr>)"
  "write_async bf_ops (bs b) sec data n = Some (ret, d) \<Longrightarrow> image_same b (b\<lparr>bs := d\<rparr>)"
  using read_snapshot_data write_snapshot_data
  by (fastforce simp: image_same_def bf_ops_def bf_read_async_def bf_write_async_def Let_def stream_data
      split: if_splits prod.splits bf_mode.splits)+

lemma kept_vdma: "(\<And>b. R b b) \<Longrightarrow> (map_ok (vmap s) \<Longrightarrow> vdma A s t) \<Longrightarrow> kept R s t"
  using vdma_map(1) [of A s t] vdma_frame(6) [of A s t] by (auto simp: kept_def)

lemma image_refl: "image_same b b"
  by (simp add: image_same_def)

lemma image_trans: "image_same b b1 \<Longrightarrow> image_same b1 b2 \<Longrightarrow> image_same b b2"
  by (simp add: image_same_def)

lemma image_kept_trans: "kept image_same s t \<Longrightarrow> kept image_same t u \<Longrightarrow> kept image_same s u"
  using image_trans by (auto simp: kept_def)

lemma consume_image: "kept image_same s (virtio_consume_desc s q desc_idx len)"
proof -
  have "kept image_same t (virtio_write16 t a v)" "kept image_same t (virtio_write32 t a w)" for t a v w
    by (rule kept_vdma, rule image_refl, rule write16_result(1), assumption) (rule kept_vdma, rule image_refl, rule write32_result(1), assumption)
  then have "kept image_same s (virtio_write32 (virtio_write32 (virtio_write16 s a1 v1) a2 v2) a3 v3)" for a1 v1 a2 v2 a3 v3
    using image_kept_trans by metis
  then show ?thesis by (simp add: virtio_consume_desc_def Let_def raise_irq_def kept_def)
qed

lemma to_queue_image: "memcpy_to_queue s q desc_idx offset data count = Some (ret, s') \<Longrightarrow> kept image_same s s'"
  using queue_copy_safe [of s data q desc_idx offset count True ret _ s']
  by (intro kept_vdma [of _ _ UNIV]) (auto simp: memcpy_to_queue_def image_refl)

lemma end_image: "virtio_block_req_end s ret = Some s' \<Longrightarrow> kept image_same s s'"
  using image_kept_trans [OF to_queue_image consume_image]
  by (auto simp: virtio_block_req_end_def Let_def split: if_splits option.splits prod.splits)

lemma upd_image: "(\<And>b. image_same b (f b)) \<Longrightarrow> kept image_same s (upd_req s f)"
  by (simp add: kept_def upd_req_def)

lemma read_keeps_image:
  assumes "block_read_request bf_ops heap s sec write_size = Some (ret, s')"
  shows "kept image_same s s'"
proof -
  obtain r data d where o: "read_async bf_ops (bs (backend s)) sec (malloc_bytes heap write_size) ((write_size - 1) sdiv SECTOR_SIZE) = Some (r, data, d)"
    using assms by (auto simp: block_read_request_def split: option.splits)
  let ?s1 = "upd_req s (\<lambda>b. b\<lparr>bs := d, req_buf := data, req_write_size := write_size\<rparr>)"
  have 1: "kept image_same s ?s1" using ops_image(1) [OF o] by (simp add: kept_def upd_req_def image_same_def)
  have "kept image_same ?s1 s'"
    using assms o end_image upd_image [of "\<lambda>b. b\<lparr>req_in_progress := True\<rparr>" ?s1]
    by (auto simp: block_read_request_def Let_def image_same_def split: if_splits)
  then show ?thesis by (rule image_kept_trans [OF 1])
qed

lemma write_keeps_image:
  assumes "block_write_request bf_ops heap s q desc_idx sec read_size write_size = Some (ret, s')"
  shows "kept image_same s s'"
proof -
  obtain r data len d where o: "write_async bf_ops (bs (backend s)) sec data len = Some (r, d)"
    and e: "r \<le> 0 \<Longrightarrow> virtio_block_req_end (upd_req s (\<lambda>b. b\<lparr>bs := d\<rparr>)) r = Some s'"
      "\<not> r \<le> 0 \<Longrightarrow> s' = upd_req (upd_req s (\<lambda>b. b\<lparr>bs := d\<rparr>)) (\<lambda>b. b\<lparr>req_in_progress := True\<rparr>)"
    using assms unfolding block_write_request_def Let_def
    by (auto split: if_split_asm option.split_asm prod.split_asm)
  let ?s1 = "upd_req s (\<lambda>b. b\<lparr>bs := d\<rparr>)"
  have 1: "kept image_same s ?s1" using ops_image(2) [OF o] by (simp add: kept_def upd_req_def)
  have "kept image_same ?s1 s'"
    using e end_image upd_image [of "\<lambda>b. b\<lparr>req_in_progress := True\<rparr>" ?s1] by (cases "r \<le> 0") (auto simp: image_same_def)
  then show ?thesis by (rule image_kept_trans [OF 1])
qed

lemma recv_image:
  assumes "virtio_block_recv_request bf_ops heap s q desc_idx read_size write_size = Some (ret, s')"
  shows "kept image_same s s'"
proof -
  have u: "kept image_same s (upd_req s (\<lambda>b. b\<lparr>req_type := ty, req_queue_idx := q, req_desc_idx := desc_idx\<rparr>))" for ty
    by (rule upd_image) (simp add: image_same_def)
  have r: "kept image_same s s" by (simp add: kept_def image_refl)
  show ?thesis
    using assms image_kept_trans [OF u read_keeps_image] image_kept_trans [OF u write_keeps_image] u r
    by (auto simp: virtio_block_recv_request_def Let_def split: if_split_asm option.split_asm prod.split_asm)
qed

interpretation image: backend_device "block_class bf_ops heap" image_same for heap
  by unfold_locales (auto simp: block_class_def image_refl kept_def intro: image_trans dest: recv_image [unfolded kept_def, rule_format])

text \<open>C12: The image file of a disk that is opened read-only or in snapshot mode holds the same bytes
  after every run of its block device, whatever registers the guest writes, whatever requests it
  builds and however the host answers; the mode never changes either.
\<close>

theorem image_file_unchanged:
  assumes "virtio_block_init bf_ops m mem addr opaque (block_device_init img mode) = Some s0" "map_ok (vmap s0)"
    and "mode \<noteq> BF_MODE_RW" "virtio_run (block_class bf_ops heap) (block_host bf_ops heap) s0 s"
  shows "f_data (bf_f (bs (backend s))) = img \<and> bf_mode (bs (backend s)) = mode"
proof -
  have host: "kept image_same t t'" if h: "block_host bf_ops heap t t'" for t t'
  proof -
    obtain data ret s1 where e: "virtio_block_req_end (upd_req t (\<lambda>b. b\<lparr>req_buf := data\<rparr>)) ret = Some s1"
      "queue_notify (block_class bf_ops heap) (upd_req s1 (\<lambda>b. b\<lparr>req_in_progress := False\<rparr>)) (req_queue_idx (backend s1)) = Some t'"
      using h unfolding block_host_def virtio_block_req_cb_def by (auto split: option.split_asm)
    have "kept image_same (upd_req s1 (\<lambda>b. b\<lparr>req_in_progress := False\<rparr>)) t'"
      using e(2) image.loop_kept image.kept_same by (auto simp: queue_notify_def split: if_splits)
    moreover have "kept image_same s1 (upd_req s1 (\<lambda>b. b\<lparr>req_in_progress := False\<rparr>))"
      by (rule upd_image) (simp add: image_same_def)
    ultimately have "kept image_same s1 t'" by (rule image_kept_trans [rotated])
    moreover have "kept image_same t (upd_req t (\<lambda>b. b\<lparr>req_buf := data\<rparr>))" by (rule upd_image) (simp add: image_same_def)
    ultimately show ?thesis using image_kept_trans end_image [OF e(1)] by blast
  qed
  have "bs (backend s0) = block_device_init img mode"
    using assms(1) by (auto simp: virtio_block_init_def virtio_init_def virtio_reset_def Let_def split: option.splits)
  then show ?thesis
    using image.run_kept [OF assms(4) host] assms(2,3) by (simp add: kept_def image_same_def block_device_init_def)
qed

lemma image_file_unchanged_witness:
  "\<exists>s0 s. virtio_block_init bf_ops demo_map (\<lambda>_. 0) 0x40010000 0 (block_device_init (replicate 512 7) BF_MODE_SNAPSHOT) = Some s0
    \<and> virtio_mmio_write (block_class bf_ops (\<lambda>_. 0)) s0 VIRTIO_MMIO_STATUS 1 2 = Some s
    \<and> f_data (bf_f (bs (backend s))) = replicate 512 7 \<and> bf_mode (bs (backend s)) = BF_MODE_SNAPSHOT"
proof -
  let ?img = "block_device_init (replicate 512 7) BF_MODE_SNAPSHOT" and ?c = "block_class bf_ops (\<lambda>_. 0)"
  obtain s0 where s0: "virtio_block_init bf_ops demo_map (\<lambda>_. 0) 0x40010000 0 ?img = Some s0" "map_ok (vmap s0)"
    using demo_init demo_map_ok by (fastforce simp: virtio_block_init_def Let_def)
  obtain s where s: "virtio_mmio_write ?c s0 VIRTIO_MMIO_STATUS 1 2 = Some s"
    by (simp add: virtio_mmio_write_def mmio_write_reg_def)
  have "virtio_run ?c (block_host bf_ops (\<lambda>_. 0)) s0 s"
    by (rule virtio_run.device [OF virtio_run.start]) (rule virtio_step.mmio_write [OF s])
  then show ?thesis using image_file_unchanged [OF s0] s0 s by blast
qed

end
