(* ===== verification/VirtioDemo.thy ===== *)
theory VirtioDemo
  imports BlockQueue
begin

text \<open>
  A concrete machine for the theorems on queues: 64 KB of RAM with a descriptor table, an available
  ring and a used ring, one chain of a request header and a buffer for a sector and its status, and a
  disk image of one sector.
\<close>

definition demo_byte :: "u8 list \<Rightarrow> nat \<Rightarrow> u8" where
  "demo_byte tab i = (if i < length tab then tab ! i else if i = 0x102 then 1 else 0)"

definition demo_ram :: "u8 list \<Rightarrow> host_mem" where
  "demo_ram tab a = demo_byte tab (unat (a - 0x100000))"

text \<open>A header of 16 bytes at 0x80001000, then 513 writable bytes at 0x80002000.\<close>

definition demo_table :: "u8 list" where
  "demo_table = [0, 0x10, 0, 0x80, 0, 0, 0, 0, 16, 0, 0, 0, 1, 0, 1, 0, 0, 0x20, 0, 0x80, 0, 0, 0, 0, 1, 2, 0, 0, 2, 0, 0, 0]"

definition demo_virtio :: "u8 list \<Rightarrow> 'b \<Rightarrow> 'b virtio" where
  "demo_virtio tab b =
     \<lparr>vmap = demo_map, vram = demo_ram tab, irq_level = 0, int_status = 0, v_status = 0, device_features_sel = 0, queue_sel = 0,
      queue = (\<lambda>_. \<lparr>q_ready = 1, q_num = 2, last_avail_idx = 0, desc_addr = 0x80000000, avail_addr = 0x80000100,
        used_addr = 0x80000200, manual_recv = False\<rparr>),
      device_id = 2, vendor_id = 0, device_features = 0, config_space_size = 8, config_space = (\<lambda>_. 0), backend = b\<rparr>"

lemma demo_parts [simp]:
  "vmap (demo_virtio tab b) = demo_map" "vram (demo_virtio tab b) = demo_ram tab" "backend (demo_virtio tab b) = b"
  "last_avail_idx (queue (demo_virtio tab b) q) = 0" "q_num (queue (demo_virtio tab b) q) = 2" "\<not> manual_recv (queue (demo_virtio tab b) q)"
  "desc_addr (queue (demo_virtio tab b) q) = 0x80000000" "avail_addr (queue (demo_virtio tab b) q) = 0x80000100"
  "used_addr (queue (demo_virtio tab b) q) = 0x80000200"
  by (simp_all add: demo_virtio_def)

lemma demo_map_well: "map_ok demo_map"
  by (simp add: map_ok_def mem_map_ok_def demo_map_def zero_range_def range_ok_def disjoint_ranges_def bitmap_ok_def)

lemma demo_lookup:
  assumes "k < 0x10000"
  shows "get_phys_mem_range demo_map (0x80000000 + of_nat k) = Some 0"
proof -
  have u: "unat (0x80000000 + of_nat k :: u64) = 0x80000000 + k"
    using assms by (subst unat_add_small) (simp_all add: unsigned_of_nat take_bit_nat_eq_self)
  have "(0x80000000 :: u64) \<le> 0x80000000 + of_nat k" "0x80000000 + of_nat k < (0x80010000 :: u64)"
    using assms by (simp_all only: word_le_nat_alt word_less_nat_alt u) simp_all
  then show ?thesis by (simp add: get_phys_mem_range_iff demo_map_def in_range_def)
qed

lemma demo_is_ram: "k < 0x10000 \<Longrightarrow> is_ram demo_map (0x80000000 + of_nat k)"
  using demo_lookup by (simp add: is_ram_def demo_map_def)

lemma demo_ram_block: "k + n \<le> 0x10000 \<Longrightarrow> ram_block demo_map (0x80000000 + of_nat k) n"
  using demo_is_ram [of "k + _"] by (simp add: ram_block_def add.assoc)

lemma demo_bytes:
  assumes "k + n \<le> 0x10000"
  shows "vbytes (demo_virtio tab b) (0x80000000 + of_nat k) n = map (demo_byte tab) [k..<k + n]"
proof (rule nth_equalityI)
  fix i assume "i < length (vbytes (demo_virtio tab b) (0x80000000 + of_nat k) n)"
  then have i: "i < n" by (simp add: vbytes_def)
  let ?a = "0x80000000 + of_nat k + of_nat i :: u64"
  have "get_phys_mem_range demo_map ?a = Some 0" "is_ram demo_map ?a"
    using demo_lookup [of "k + i"] demo_is_ram [of "k + i"] i assms by (simp_all add: add.assoc)
  then have "mem_byte demo_map (demo_ram tab) ?a = demo_byte tab (unat (of_nat k + of_nat i :: u64))"
    by (simp add: mem_byte_def ram_host_def host_addr_def demo_map_def demo_ram_def)
  moreover have "unat (of_nat k + of_nat i :: u64) = k + i"
    using i assms by (simp add: unsigned_of_nat take_bit_nat_eq_self flip: of_nat_add)
  ultimately show "vbytes (demo_virtio tab b) (0x80000000 + of_nat k) n ! i = map (demo_byte tab) [k..<k + n] ! i"
    using i by (simp add: vbytes_def)
qed (simp add: vbytes_def)

text \<open>The chain, the rings and the request.\<close>

definition demo_in :: desc where "demo_in = take 16 demo_table"
definition demo_out :: desc where "demo_out = drop 16 demo_table"

lemma demo_load:
  "load_desc (demo_virtio demo_table b) q 0 = Some demo_in" "load_desc (demo_virtio demo_table b) q 1 = Some demo_out"
proof -
  have "ram_block demo_map 0x80000000 16" "ram_block demo_map 0x80000010 16" using demo_ram_block [of 0 16] demo_ram_block [of 16 16] by simp_all
  moreover have "vbytes (demo_virtio demo_table b) 0x80000000 16 = demo_in" "vbytes (demo_virtio demo_table b) 0x80000010 16 = demo_out"
    using demo_bytes [of 0 16 demo_table b] demo_bytes [of 16 16 demo_table b]
    by (simp_all add: upt_conv_Cons demo_byte_def demo_in_def demo_out_def demo_table_def)
  ultimately show "load_desc (demo_virtio demo_table b) q 0 = Some demo_in" "load_desc (demo_virtio demo_table b) q 1 = Some demo_out"
    by (simp_all add: load_desc_def)
qed

lemma demo_descs:
  "d_addr demo_in = 0x80001000" "d_len demo_in = 16" "d_has_next demo_in" "\<not> d_write demo_in" "d_next demo_in = 1"
  "d_addr demo_out = 0x80002000" "d_len demo_out = 513" "\<not> d_has_next demo_out" "d_write demo_out"
  "dsize demo_in = 16" "dsize demo_out = 513"
  by (simp_all add: demo_in_def demo_out_def demo_table_def d_addr_def d_len_def d_has_next_def d_write_def d_next_def dsize_def d_flags_def
      VRING_DESC_F_NEXT_def VRING_DESC_F_WRITE_def)

lemma demo_read16:
  assumes "k + 2 \<le> 0x10000" "even k"
  shows "virtio_read16 (demo_virtio tab b) (0x80000000 + of_nat k) = ucast (le_bytes [demo_byte tab k, demo_byte tab (Suc k)])"
proof -
  obtain m where "k = 2 * m" using assms(2) by blast
  then have "even (0x80000000 + of_nat k :: u64)" by simp
  then have "(0x80000000 + of_nat k :: u64) AND 1 = 0" by (simp only: and_one_eq even_iff_mod_2_eq_zero)
  then show ?thesis
    using read16_ram [of "demo_virtio tab b" "0x80000000 + of_nat k"] demo_map_well demo_is_ram [of k] demo_bytes [of k 2 tab b] assms(1)
    by (simp add: upt_conv_Cons)
qed

definition demo_req :: queued_req where
  "demo_req = \<lparr>head_idx = 0, in_descs = [demo_in], out_descs = [demo_out], asked = BlkRead 0 1\<rparr>"

lemma demo_queued: "queued (demo_virtio demo_table b) q 0 [demo_req]"
proof -
  let ?s = "demo_virtio demo_table b"
  have "avail_desc ?s q 0 = 0"
    using demo_read16 [of "0x104" demo_table b] by (simp add: avail_desc_def demo_byte_def demo_table_def)
  moreover have "ram_block demo_map 0x80001000 16" "ram_block demo_map 0x80002000 513"
    using demo_ram_block [of "0x1000" 16] demo_ram_block [of "0x2000" 513] by simp_all
  then have "chain ?s q 0 [demo_in] [demo_out]"
    using demo_load [of b q] demo_map_well by (simp add: chain_def demo_descs)
  moreover have "map (demo_byte demo_table) [0x1000..<0x1000 + 16] = replicate 16 0"
  proof -
    have "replicate 16 0 = [0, 0, 0, 0, 0, 0, 0, 0, 0, 0, 0, 0, 0, 0, 0, 0 :: u8]" by (simp add: numeral_eq_Suc)
    then show ?thesis by (simp add: upt_conv_Cons demo_byte_def demo_table_def)
  qed
  then have "buffer ?s demo_in = replicate 16 0"
    using demo_bytes [of "0x1000" 16 demo_table b] by (simp add: buffer_def demo_descs)
  moreover have "le_bytes (replicate n 0) = 0" for n by (induction n) simp_all
  ultimately show ?thesis
    by (simp add: demo_req_def decode_req_def demo_descs hdr_type_def hdr_sector_num_def block_consts)
qed

lemma demo_pending: "pending (demo_virtio tab b) q = 1" if "length tab \<le> 32" for tab :: "u8 list"
  using demo_read16 [of "0x102" tab b] that by (simp add: pending_def avail_idx_def demo_byte_def)

lemma demo_isolated: "isolated (demo_virtio demo_table b) q [demo_req]"
proof -
  let ?s = "demo_virtio demo_table b"
  have r: "ring_size ?s q = 2" by (simp add: ring_size_def)
  have a: "all_baddrs (outs [demo_req]) = addrs (0x80000000 + of_nat 0x2000) 513" "all_baddrs (ins [demo_req]) = addrs (0x80000000 + of_nat 0x1000) 16"
    "used_addrs ?s q = addrs (0x80000000 + of_nat 0x200) 20" "avail_addrs ?s q = addrs (0x80000000 + of_nat 0x100) 8"
    "table_addrs ?s q = addrs (0x80000000 + of_nat 0) 32"
    by (simp_all add: outs_def ins_def demo_req_def baddrs_def demo_descs used_addrs_def avail_addrs_def table_addrs_def r)
  note d = addrs_disjoint [where b = "0x80000000"]
  have "used_ok ?s q"
    using demo_map_well demo_ram_block [of "0x200" 20] by (simp add: used_ok_def r) (auto intro: exI [of _ 1])
  moreover have "apart ?s q (outs [demo_req])"
    using d [of "0x2000" 513 0 32] a(5) by (simp add: apart_def outs_def demo_req_def baddrs_def demo_descs)
  ultimately show ?thesis
    unfolding isolated_def a Int_Un_distrib Int_Un_distrib2 by (intro conjI Un_empty [THEN iffD2] d) simp_all
qed

section \<open>The theorems at work\<close>

definition demo_block :: "block_file block_dev" where
  "demo_block = \<lparr>bs = block_device_init (replicate 512 7) BF_MODE_SNAPSHOT, req_in_progress = False, req_type = 0, req_buf = [],
     req_write_size = 0, req_queue_idx = 0, req_desc_idx = 0\<rparr>"

text \<open>The guest reads the only sector of the image, in which all bytes are 7.\<close>

lemma disk_image_serves_queue_witness:
  "\<exists>s'. queue_notify (block_class bf_ops (\<lambda>_. 0)) (demo_virtio demo_table demo_block) 0 = Some s'
    \<and> completed (demo_virtio demo_table demo_block) 0 [demo_req] [replicate 512 7 @ [0]] s'"
proof -
  let ?s = "demo_virtio demo_table demo_block" and ?img = "block_device_init (replicate 512 7) BF_MODE_SNAPSHOT"
  have b: "bs demo_block = ?img" "\<not> req_in_progress demo_block" by (simp_all add: demo_block_def)
  have d: "disk ?img = replicate 512 7"
    by (simp add: disk_def sector_def block_device_init_def)
  have f: "bf_ok (bs (backend ?s))" "\<forall>r \<in> set [demo_req]. req_fits (asked r) (disk (bs (backend ?s)))"
    "\<not> req_in_progress (backend ?s)" "\<not> manual_recv (queue ?s 0)" "map_ok (vmap ?s)"
    using init_ok [of "replicate 512 7"] by (simp_all add: b d demo_req_def demo_map_well)
  have g: "queued ?s 0 (last_avail_idx (queue ?s 0)) [demo_req]" "pending ?s 0 = length [demo_req]" "length [demo_req] \<le> ring_size ?s 0"
    "ring_size ?s 0 dvd 65536"
    using demo_queued [of demo_block 0] demo_pending [of demo_table] by (simp_all add: ring_size_def demo_table_def)
  have "blk_replies (bf_mode ?img \<noteq> BF_MODE_RO) (disk ?img) (map asked [demo_req]) = [replicate 512 7 @ [0]]"
    by (simp add: d demo_req_def VIRTIO_BLK_S_OK_def)
  then show ?thesis
    using disk_image_serves_queue [of ?s 0 "[demo_req]" "\<lambda>_. 0", OF f(5,1,3,4) g(1,2) demo_isolated g(3,4) f(2)]
    unfolding b demo_parts(3) by auto
qed

text \<open>The four devices, each with a request.\<close>

lemma notify_serves_in_order_witness:
  "\<exists>(sb :: block_file block_dev virtio) (sn :: net_dev virtio) sc si.
     serves_in_order (block_class bf_ops (\<lambda>_. 0)) (\<lambda>s. req_in_progress (backend s)) sb 1
     \<and> serves_in_order (net_class (\<lambda>_. 0)) (\<lambda>_. False) sn 1 \<and> serves_in_order (console_class (\<lambda>_. 0)) (\<lambda>_. False) sc 1
     \<and> serves_in_order input_class (\<lambda>_. False) si 1 \<and> pending sb 1 = 1 \<and> pending sn 1 = 1"
proof -
  have p: "pending (demo_virtio demo_table b) 1 = 1" for b :: 'b by (rule demo_pending) (simp add: demo_table_def)
  show ?thesis
    using notify_serves_in_order [of "demo_virtio demo_table demo_block" "demo_virtio demo_table b" "demo_virtio demo_table c"
        "demo_virtio demo_table d" 1 bf_ops "\<lambda>_. 0" for b c d] demo_map_well p
    by (metis demo_parts(1) demo_parts(6))
qed

text \<open>A descriptor table whose first descriptor is its own successor.\<close>

lemma cyclic_chain_hangs_witness:
  "queue_notify (block_class bf_ops (\<lambda>_. 0)) (demo_virtio [0, 0x10, 0, 0x80, 0, 0, 0, 0, 16, 0, 0, 0, 1, 0, 0, 0] demo_block) 0 = None"
proof -
  let ?tab = "[0, 0x10, 0, 0x80, 0, 0, 0, 0, 16, 0, 0, 0, 1, 0, 0, 0] :: u8 list" and ?s = "demo_virtio [0, 0x10, 0, 0x80, 0, 0, 0, 0, 16, 0, 0, 0, 1, 0, 0, 0] demo_block"
  have "load_desc ?s 0 0 = Some ?tab"
    using demo_ram_block [of 0 16] demo_bytes [of 0 16 ?tab demo_block]
    by (simp add: load_desc_def upt_conv_Cons demo_byte_def)
  moreover have "d_has_next ?tab" "unat (d_next ?tab) = 0" "\<not> d_write ?tab"
    by (simp_all add: d_has_next_def d_next_def d_write_def d_flags_def VRING_DESC_F_NEXT_def VRING_DESC_F_WRITE_def)
  moreover have "avail_idx ?s 0 = 1" "avail_desc ?s 0 0 = 0"
    using demo_read16 [of "0x102" ?tab demo_block] demo_read16 [of "0x104" ?tab demo_block]
    by (simp_all add: avail_idx_def avail_desc_def demo_byte_def)
  ultimately show ?thesis
    using cyclic_chain_hangs [of ?s 0 0 ?tab "block_class bf_ops (\<lambda>_. 0)"] demo_map_well by simp
qed

end
