(* ===== verification/Ps2.thy ===== *)
theory Ps2
  imports Cutils
begin

text \<open>
  \<open>ps2.c\<close>: the PS/2 keyboard and the PS/2 mouse, and their byte queue as a bounded first-in-first-out
  queue. The callback \<open>update_irq\<close> is the argument \<open>upd\<close>, which changes the state \<open>'c\<close> of the
  keyboard controller. An \<open>int\<close> keeps its range by wrapping around.
\<close>

definition PS2_QUEUE_SIZE :: nat where "PS2_QUEUE_SIZE = 256"

section \<open>The byte queue\<close>

text \<open>\<open>PS2State\<close> with its \<open>PS2Queue\<close>; the keyboard and the mouse extend it.\<close>

record ps2_state =
  q_data :: "u8 list"
  rptr :: nat
  wptr :: nat
  q_count :: nat
  write_cmd :: int

definition ps2_queue :: "('c \<Rightarrow> int \<Rightarrow> 'c) \<Rightarrow> 'z ps2_state_scheme \<times> 'c \<Rightarrow> int \<Rightarrow> 'z ps2_state_scheme \<times> 'c" where
  "ps2_queue upd sc b =
     (let (s, c) = sc
      in if q_count s \<ge> PS2_QUEUE_SIZE then (s, c)
         else (s\<lparr>q_data := (q_data s)[wptr s := word_of_int b],
                 wptr := (if Suc (wptr s) = PS2_QUEUE_SIZE then 0 else Suc (wptr s)), q_count := Suc (q_count s)\<rparr>, upd c 1))"

text \<open>Consecutive calls of \<open>ps2_queue\<close>.\<close>

definition ps2_queue_all :: "('c \<Rightarrow> int \<Rightarrow> 'c) \<Rightarrow> 'z ps2_state_scheme \<times> 'c \<Rightarrow> int list \<Rightarrow> 'z ps2_state_scheme \<times> 'c" where
  "ps2_queue_all upd sc bs = foldl (ps2_queue upd) sc bs"

definition ps2_read_data :: "('c \<Rightarrow> int \<Rightarrow> 'c) \<Rightarrow> 'z ps2_state_scheme \<times> 'c \<Rightarrow> u8 \<times> 'z ps2_state_scheme \<times> 'c" where
  "ps2_read_data upd sc =
     (let (s, c) = sc
      in if q_count s = 0 then
           (q_data s ! (if rptr s = 0 then PS2_QUEUE_SIZE - 1 else rptr s - 1), s, c)
         else
           let s1 = s\<lparr>rptr := (if Suc (rptr s) = PS2_QUEUE_SIZE then 0 else Suc (rptr s)), q_count := q_count s - 1\<rparr>
           in (q_data s ! rptr s, s1, upd (upd c 0) (if q_count s1 \<noteq> 0 then 1 else 0)))"

definition ps2_reset :: "'z ps2_state_scheme \<Rightarrow> 'z ps2_state_scheme" where
  "ps2_reset s = s\<lparr>write_cmd := -1, rptr := 0, wptr := 0, q_count := 0\<rparr>"

section \<open>Keyboard\<close>

record ps2_kbd = ps2_state +
  scan_enabled :: int
  translate :: int

definition linux_input_to_keycode_set1 :: "int list" where
  "linux_input_to_keycode_set1 =
    [0x1c, 0x1d, 0x35, 0x00, 0x38, 0x00, 0x47, 0x48,
     0x49, 0x4b, 0x4d, 0x4f, 0x50, 0x51, 0x52, 0x53,
     0x00, 0x00, 0x00, 0x00, 0x00, 0x00, 0x00, 0x00,
     0x00, 0x00, 0x00, 0x00, 0x00, 0x5b, 0x5c, 0x5d]"

definition ps2_put_keycode :: "('c \<Rightarrow> int \<Rightarrow> 'c) \<Rightarrow> ps2_kbd \<times> 'c \<Rightarrow> bool \<Rightarrow> int \<Rightarrow> ps2_kbd \<times> 'c" where
  "ps2_put_keycode upd sc pressed keycode =
     (let release = (if pressed then 0 else 0x80)
      in if keycode \<ge> 96 then
           if keycode > 127 then sc
           else
             let code = linux_input_to_keycode_set1 ! nat (keycode - 96)
             in if code = 0 then sc else ps2_queue upd (ps2_queue upd sc 0xe0) (code OR release)
         else ps2_queue upd sc (keycode OR release))"

definition ps2_reset_keyboard :: "ps2_kbd \<Rightarrow> ps2_kbd" where
  "ps2_reset_keyboard s = s\<lparr>scan_enabled := 1\<rparr>"

abbreviation (input) KBD_CMD_SET_LEDS :: int where "KBD_CMD_SET_LEDS \<equiv> 0xED"
abbreviation (input) KBD_CMD_ECHO :: int where "KBD_CMD_ECHO \<equiv> 0xEE"
abbreviation (input) KBD_CMD_GET_ID :: int where "KBD_CMD_GET_ID \<equiv> 0xF2"
abbreviation (input) KBD_CMD_SET_RATE :: int where "KBD_CMD_SET_RATE \<equiv> 0xF3"
abbreviation (input) KBD_CMD_ENABLE :: int where "KBD_CMD_ENABLE \<equiv> 0xF4"
abbreviation (input) KBD_CMD_RESET_DISABLE :: int where "KBD_CMD_RESET_DISABLE \<equiv> 0xF5"
abbreviation (input) KBD_CMD_RESET_ENABLE :: int where "KBD_CMD_RESET_ENABLE \<equiv> 0xF6"
abbreviation (input) KBD_CMD_RESET :: int where "KBD_CMD_RESET \<equiv> 0xFF"
abbreviation (input) KBD_REPLY_POR :: int where "KBD_REPLY_POR \<equiv> 0xAA"
abbreviation (input) KBD_REPLY_ACK :: int where "KBD_REPLY_ACK \<equiv> 0xFA"
abbreviation (input) KBD_REPLY_RESEND :: int where "KBD_REPLY_RESEND \<equiv> 0xFE"

definition ps2_write_keyboard :: "('c \<Rightarrow> int \<Rightarrow> 'c) \<Rightarrow> ps2_kbd \<times> 'c \<Rightarrow> int \<Rightarrow> ps2_kbd \<times> 'c" where
  "ps2_write_keyboard upd sc val =
     (let (s, c) = sc
      in if write_cmd s = KBD_CMD_SET_LEDS \<or> write_cmd s = KBD_CMD_SET_RATE then
           let (s1, c1) = ps2_queue upd (s, c) KBD_REPLY_ACK in (s1\<lparr>write_cmd := -1\<rparr>, c1)
         else if val = 0x05 then ps2_queue upd (s, c) KBD_REPLY_RESEND
         else if val = KBD_CMD_GET_ID then ps2_queue_all upd (s, c) [KBD_REPLY_ACK, 0xab, 0x83]
         else if val = KBD_CMD_ECHO then ps2_queue upd (s, c) KBD_CMD_ECHO
         else if val = KBD_CMD_ENABLE then ps2_queue upd (s\<lparr>scan_enabled := 1\<rparr>, c) KBD_REPLY_ACK
         else if val = KBD_CMD_SET_LEDS \<or> val = KBD_CMD_SET_RATE then
           ps2_queue upd (s\<lparr>write_cmd := val\<rparr>, c) KBD_REPLY_ACK
         else if val = KBD_CMD_RESET_DISABLE then
           ps2_queue upd ((ps2_reset_keyboard s)\<lparr>scan_enabled := 0\<rparr>, c) KBD_REPLY_ACK
         else if val = KBD_CMD_RESET_ENABLE then
           ps2_queue upd ((ps2_reset_keyboard s)\<lparr>scan_enabled := 1\<rparr>, c) KBD_REPLY_ACK
         else if val = KBD_CMD_RESET then
           ps2_queue_all upd (ps2_reset_keyboard s, c) [KBD_REPLY_ACK, KBD_REPLY_POR]
         else ps2_queue upd (s, c) KBD_REPLY_ACK)"

definition ps2_keyboard_set_translation :: "ps2_kbd \<Rightarrow> int \<Rightarrow> ps2_kbd" where
  "ps2_keyboard_set_translation s mode = s\<lparr>translate := mode\<rparr>"

definition ps2_kbd_init :: ps2_kbd where
  "ps2_kbd_init = ps2_reset
     \<lparr>q_data = replicate PS2_QUEUE_SIZE 0, rptr = 0, wptr = 0, q_count = 0, write_cmd = 0, scan_enabled = 0, translate = 0\<rparr>"

section \<open>Mouse\<close>

record ps2_mouse = ps2_state +
  mouse_status :: u8
  mouse_resolution :: u8
  mouse_sample_rate :: u8
  mouse_wrap :: u8
  mouse_type :: u8
  mouse_detect_state :: u8
  mouse_dx :: int
  mouse_dy :: int
  mouse_dz :: int
  mouse_buttons :: u8

abbreviation (input) MOUSE_STATUS_REMOTE :: u8 where "MOUSE_STATUS_REMOTE \<equiv> 0x40"
abbreviation (input) MOUSE_STATUS_ENABLED :: u8 where "MOUSE_STATUS_ENABLED \<equiv> 0x20"
abbreviation (input) MOUSE_STATUS_SCALE21 :: u8 where "MOUSE_STATUS_SCALE21 \<equiv> 0x10"

definition clamp :: "int \<Rightarrow> int \<Rightarrow> int" where
  "clamp lim x = (if x > lim then lim else if x < - lim then - lim else x)"

text \<open>The part of the wheel movement that a packet reports.\<close>

definition packet_dz :: "ps2_mouse \<Rightarrow> int" where
  "packet_dz s =
     (if mouse_type s = 3 then clamp 127 (mouse_dz s) else if mouse_type s = 4 then clamp 7 (mouse_dz s) else mouse_dz s)"

definition packet :: "ps2_mouse \<Rightarrow> int list" where
  "packet s =
     (let dx1 = clamp 127 (mouse_dx s); dy1 = clamp 127 (mouse_dy s); dz1 = packet_dz s
      in [0x08 OR (if dx1 < 0 then 0x10 else 0) OR (if dy1 < 0 then 0x20 else 0) OR uint (mouse_buttons s AND 0x07),
          dx1 AND 0xff, dy1 AND 0xff] @
         (if mouse_type s = 3 then [dz1 AND 0xff]
          else if mouse_type s = 4 then [(dz1 AND 0x0f) OR push_bit 1 (uint (mouse_buttons s AND 0x18))]
          else []))"

definition ps2_mouse_send_packet :: "('c \<Rightarrow> int \<Rightarrow> 'c) \<Rightarrow> ps2_mouse \<times> 'c \<Rightarrow> ps2_mouse \<times> 'c" where
  "ps2_mouse_send_packet upd sc =
     (let (s, c) = sc;
          (s1, c1) = ps2_queue_all upd (s, c) (packet s)
      in (s1\<lparr>mouse_dx := mouse_dx s1 - clamp 127 (mouse_dx s), mouse_dy := mouse_dy s1 - clamp 127 (mouse_dy s),
             mouse_dz := mouse_dz s1 - packet_dz s\<rparr>, c1))"

definition no_movement :: "ps2_mouse \<Rightarrow> bool" where
  "no_movement s \<longleftrightarrow> mouse_dx s = 0 \<and> mouse_dy s = 0 \<and> mouse_dz s = 0"

text \<open>The loop of \<open>ps2_mouse_event\<close>: packets until all the movement is reported.\<close>

lemma queue_all_mouse:
  "ps2_queue_all upd (s, c) bs = (s1, c1) \<Longrightarrow> mouse_dx s1 = mouse_dx s \<and> mouse_dy s1 = mouse_dy s \<and> mouse_dz s1 = mouse_dz s
     \<and> mouse_type s1 = mouse_type s \<and> mouse_buttons s1 = mouse_buttons s \<and> mouse_status s1 = mouse_status s"
proof (induction bs arbitrary: s c)
  case (Cons b bs)
  obtain s2 c2 where q: "ps2_queue upd (s, c) b = (s2, c2)" by fastforce
  then have "mouse_dx s2 = mouse_dx s \<and> mouse_dy s2 = mouse_dy s \<and> mouse_dz s2 = mouse_dz s
      \<and> mouse_type s2 = mouse_type s \<and> mouse_buttons s2 = mouse_buttons s \<and> mouse_status s2 = mouse_status s"
    by (auto simp: ps2_queue_def split: if_splits)
  moreover have "ps2_queue_all upd (s2, c2) bs = (s1, c1)" using Cons.prems q by (simp add: ps2_queue_all_def)
  ultimately show ?case using Cons.IH by metis
qed (simp add: ps2_queue_all_def)

lemma send_packet_movement:
  assumes "ps2_mouse_send_packet upd (s, c) = (s1, c1)"
  shows "mouse_dx s1 = mouse_dx s - clamp 127 (mouse_dx s)" "mouse_dy s1 = mouse_dy s - clamp 127 (mouse_dy s)"
    "mouse_dz s1 = mouse_dz s - packet_dz s"
    "mouse_type s1 = mouse_type s" "mouse_buttons s1 = mouse_buttons s" "mouse_status s1 = mouse_status s"
  using assms queue_all_mouse [of upd s c "packet s"]
  by (auto simp: ps2_mouse_send_packet_def split: prod.splits)

lemma clamp_abs: "0 < lim \<Longrightarrow> \<bar>x - clamp lim x\<bar> \<le> \<bar>x\<bar>" "0 < lim \<Longrightarrow> x - clamp lim x \<noteq> 0 \<Longrightarrow> \<bar>x - clamp lim x\<bar> < \<bar>x\<bar>"
  by (auto simp: clamp_def)

lemma packet_dz_abs: "\<bar>mouse_dz s - packet_dz s\<bar> \<le> \<bar>mouse_dz s\<bar>" "mouse_dz s - packet_dz s \<noteq> 0 \<Longrightarrow> \<bar>mouse_dz s - packet_dz s\<bar> < \<bar>mouse_dz s\<bar>"
  using clamp_abs [of 127 "mouse_dz s"] clamp_abs [of 7 "mouse_dz s"] by (auto simp: packet_dz_def)

function send_packets :: "('c \<Rightarrow> int \<Rightarrow> 'c) \<Rightarrow> ps2_mouse \<times> 'c \<Rightarrow> ps2_mouse \<times> 'c" where
  "send_packets upd sc =
     (let sc1 = ps2_mouse_send_packet upd sc
      in if no_movement (fst sc1) then sc1 else send_packets upd sc1)"
  by pat_completeness auto
termination
proof (relation "measure (\<lambda>(upd, s, c). nat (\<bar>mouse_dx s\<bar> + \<bar>mouse_dy s\<bar> + \<bar>mouse_dz s\<bar>))")
  fix upd :: "'c \<Rightarrow> int \<Rightarrow> 'c" and sc sc1
  assume e: "sc1 = ps2_mouse_send_packet upd sc" and m: "\<not> no_movement (fst sc1)"
  obtain s c s1 c1 where sc: "sc = (s, c)" "sc1 = (s1, c1)" by fastforce
  note p = send_packet_movement [OF e [unfolded sc, symmetric]]
  have sum3: "a1 + b1 + c1 < a + b + c" if "a1 \<le> a" "b1 \<le> b" "c1 \<le> c" "a1 < a \<or> b1 < b \<or> c1 < c" for a1 b1 c1 a b c :: int
    using that by linarith
  have "\<bar>mouse_dx s1\<bar> + \<bar>mouse_dy s1\<bar> + \<bar>mouse_dz s1\<bar> < \<bar>mouse_dx s\<bar> + \<bar>mouse_dy s\<bar> + \<bar>mouse_dz s\<bar>"
    unfolding p(1-3)
  proof (rule sum3)
    show "\<bar>mouse_dx s - clamp 127 (mouse_dx s)\<bar> < \<bar>mouse_dx s\<bar> \<or> \<bar>mouse_dy s - clamp 127 (mouse_dy s)\<bar> < \<bar>mouse_dy s\<bar>
        \<or> \<bar>mouse_dz s - packet_dz s\<bar> < \<bar>mouse_dz s\<bar>"
      using m clamp_abs(2) [of 127 "mouse_dx s"] clamp_abs(2) [of 127 "mouse_dy s"] packet_dz_abs(2) [of s]
      unfolding sc no_movement_def fst_conv p(1-3) by (simp only: zero_less_numeral) blast
  qed (rule clamp_abs packet_dz_abs, simp?)+
  then show "((upd, sc1), upd, sc) \<in> measure (\<lambda>(upd, s, c). nat (\<bar>mouse_dx s\<bar> + \<bar>mouse_dy s\<bar> + \<bar>mouse_dz s\<bar>))"
    by (simp add: sc)
qed simp

declare send_packets.simps [simp del]

definition wrap32 :: "int \<Rightarrow> int" where
  "wrap32 x = signed_take_bit 31 x"

definition ps2_mouse_event :: "('c \<Rightarrow> int \<Rightarrow> 'c) \<Rightarrow> ps2_mouse \<times> 'c \<Rightarrow> int \<Rightarrow> int \<Rightarrow> int \<Rightarrow> int \<Rightarrow> ps2_mouse \<times> 'c" where
  "ps2_mouse_event upd sc dx dy dz buttons_state =
     (let (s, c) = sc
      in if mouse_status s AND MOUSE_STATUS_ENABLED = 0 then (s, c)
         else
           let s1 = s\<lparr>mouse_dx := wrap32 (mouse_dx s + dx), mouse_dy := wrap32 (mouse_dy s - dy), mouse_dz := wrap32 (mouse_dz s + dz)\<rparr>
           in if no_movement s1 \<and> uint (mouse_buttons s1) = buttons_state then (s1, c)
              else
                let s2 = s1\<lparr>mouse_buttons := word_of_int buttons_state\<rparr>
                in if mouse_status s2 AND MOUSE_STATUS_REMOTE = 0 \<and> q_count s2 < PS2_QUEUE_SIZE - 16
                   then send_packets upd (s2, c) else (s2, c))"

abbreviation (input) AUX_SET_SCALE11 :: int where "AUX_SET_SCALE11 \<equiv> 0xE6"
abbreviation (input) AUX_SET_SCALE21 :: int where "AUX_SET_SCALE21 \<equiv> 0xE7"
abbreviation (input) AUX_SET_RES :: int where "AUX_SET_RES \<equiv> 0xE8"
abbreviation (input) AUX_GET_SCALE :: int where "AUX_GET_SCALE \<equiv> 0xE9"
abbreviation (input) AUX_SET_STREAM :: int where "AUX_SET_STREAM \<equiv> 0xEA"
abbreviation (input) AUX_POLL :: int where "AUX_POLL \<equiv> 0xEB"
abbreviation (input) AUX_RESET_WRAP :: int where "AUX_RESET_WRAP \<equiv> 0xEC"
abbreviation (input) AUX_SET_WRAP :: int where "AUX_SET_WRAP \<equiv> 0xEE"
abbreviation (input) AUX_SET_REMOTE :: int where "AUX_SET_REMOTE \<equiv> 0xF0"
abbreviation (input) AUX_GET_TYPE :: int where "AUX_GET_TYPE \<equiv> 0xF2"
abbreviation (input) AUX_SET_SAMPLE :: int where "AUX_SET_SAMPLE \<equiv> 0xF3"
abbreviation (input) AUX_ENABLE_DEV :: int where "AUX_ENABLE_DEV \<equiv> 0xF4"
abbreviation (input) AUX_DISABLE_DEV :: int where "AUX_DISABLE_DEV \<equiv> 0xF5"
abbreviation (input) AUX_SET_DEFAULT :: int where "AUX_SET_DEFAULT \<equiv> 0xF6"
abbreviation (input) AUX_RESET :: int where "AUX_RESET \<equiv> 0xFF"
abbreviation (input) AUX_ACK :: int where "AUX_ACK \<equiv> 0xFA"

definition aux_command :: "('c \<Rightarrow> int \<Rightarrow> 'c) \<Rightarrow> ps2_mouse \<times> 'c \<Rightarrow> int \<Rightarrow> ps2_mouse \<times> 'c" where
  "aux_command upd sc val =
     (let (s, c) = sc
      in if val = AUX_SET_SCALE11 then ps2_queue upd (s\<lparr>mouse_status := mouse_status s AND NOT MOUSE_STATUS_SCALE21\<rparr>, c) AUX_ACK
         else if val = AUX_SET_SCALE21 then ps2_queue upd (s\<lparr>mouse_status := mouse_status s OR MOUSE_STATUS_SCALE21\<rparr>, c) AUX_ACK
         else if val = AUX_SET_STREAM then ps2_queue upd (s\<lparr>mouse_status := mouse_status s AND NOT MOUSE_STATUS_REMOTE\<rparr>, c) AUX_ACK
         else if val = AUX_SET_WRAP then ps2_queue upd (s\<lparr>mouse_wrap := 1\<rparr>, c) AUX_ACK
         else if val = AUX_SET_REMOTE then ps2_queue upd (s\<lparr>mouse_status := mouse_status s OR MOUSE_STATUS_REMOTE\<rparr>, c) AUX_ACK
         else if val = AUX_GET_TYPE then ps2_queue_all upd (s, c) [AUX_ACK, uint (mouse_type s)]
         else if val = AUX_SET_RES \<or> val = AUX_SET_SAMPLE then ps2_queue upd (s\<lparr>write_cmd := val\<rparr>, c) AUX_ACK
         else if val = AUX_GET_SCALE then
           ps2_queue_all upd (s, c) [AUX_ACK, uint (mouse_status s), uint (mouse_resolution s), uint (mouse_sample_rate s)]
         else if val = AUX_POLL then ps2_mouse_send_packet upd (ps2_queue upd (s, c) AUX_ACK)
         else if val = AUX_ENABLE_DEV then ps2_queue upd (s\<lparr>mouse_status := mouse_status s OR MOUSE_STATUS_ENABLED\<rparr>, c) AUX_ACK
         else if val = AUX_DISABLE_DEV then ps2_queue upd (s\<lparr>mouse_status := mouse_status s AND NOT MOUSE_STATUS_ENABLED\<rparr>, c) AUX_ACK
         else if val = AUX_SET_DEFAULT then
           ps2_queue upd (s\<lparr>mouse_sample_rate := 100, mouse_resolution := 2, mouse_status := 0\<rparr>, c) AUX_ACK
         else if val = AUX_RESET then
           let s1 = s\<lparr>mouse_sample_rate := 100, mouse_resolution := 2, mouse_status := 0, mouse_type := 0\<rparr>
           in ps2_queue_all upd (s1, c) [AUX_ACK, 0xaa, uint (mouse_type s1)]
         else (s, c))"

text \<open>A new sample rate; certain sequences of rates enable the wheel.\<close>

definition set_sample :: "ps2_mouse \<Rightarrow> int \<Rightarrow> ps2_mouse" where
  "set_sample s val =
     (let s1 = s\<lparr>mouse_sample_rate := word_of_int val\<rparr>
      in if mouse_detect_state s = 1 then
           s1\<lparr>mouse_detect_state := (if val = 100 then 2 else if val = 200 then 3 else 0)\<rparr>
         else if mouse_detect_state s = 2 then
           s1\<lparr>mouse_type := (if val = 80 then 3 else mouse_type s), mouse_detect_state := 0\<rparr>
         else if mouse_detect_state s = 3 then
           s1\<lparr>mouse_type := (if val = 80 then 4 else mouse_type s), mouse_detect_state := 0\<rparr>
         else if val = 200 then s1\<lparr>mouse_detect_state := 1\<rparr>
         else s1)"

definition ps2_write_mouse :: "('c \<Rightarrow> int \<Rightarrow> 'c) \<Rightarrow> ps2_mouse \<times> 'c \<Rightarrow> int \<Rightarrow> ps2_mouse \<times> 'c" where
  "ps2_write_mouse upd sc val =
     (let (s, c) = sc
      in if write_cmd s = AUX_SET_SAMPLE then
           let (s1, c1) = ps2_queue upd (set_sample s val, c) AUX_ACK in (s1\<lparr>write_cmd := -1\<rparr>, c1)
         else if write_cmd s = AUX_SET_RES then
           let (s1, c1) = ps2_queue upd (s\<lparr>mouse_resolution := word_of_int val\<rparr>, c) AUX_ACK in (s1\<lparr>write_cmd := -1\<rparr>, c1)
         else if mouse_wrap s \<noteq> 0 \<and> val = AUX_RESET_WRAP then ps2_queue upd (s\<lparr>mouse_wrap := 0\<rparr>, c) AUX_ACK
         else if mouse_wrap s \<noteq> 0 \<and> val \<noteq> AUX_RESET then ps2_queue upd (s, c) val
         else aux_command upd (s, c) val)"

definition ps2_mouse_init :: ps2_mouse where
  "ps2_mouse_init = ps2_reset
     \<lparr>q_data = replicate PS2_QUEUE_SIZE 0, rptr = 0, wptr = 0, q_count = 0, write_cmd = 0, mouse_status = 0,
      mouse_resolution = 0, mouse_sample_rate = 0, mouse_wrap = 0, mouse_type = 0, mouse_detect_state = 0,
      mouse_dx = 0, mouse_dy = 0, mouse_dz = 0, mouse_buttons = 0\<rparr>"

end
