(* ===== verification/Ps2Spec.thy ===== *)
theory Ps2Spec
  imports Ps2
begin

text \<open>
  The byte queue of a PS/2 device is a bounded first-in-first-out queue, and the bytes of the mouse
  decode to the movement it was given.
\<close>

section \<open>Bounded queues\<close>

locale bounded_queue =
  fixes enq :: "'q \<Rightarrow> 'a \<Rightarrow> 'q" and deq :: "'q \<Rightarrow> 'a \<times> 'q" and entries :: "'q \<Rightarrow> 'a list" and inv :: "'q \<Rightarrow> bool" and cap :: nat
  assumes inv_enq: "inv q \<Longrightarrow> inv (enq q x)"
    and inv_deq: "inv q \<Longrightarrow> inv (snd (deq q))"
    and bounded: "inv q \<Longrightarrow> length (entries q) \<le> cap"
    and entries_enq: "inv q \<Longrightarrow> entries (enq q x) = take cap (entries q @ [x])"
    and entries_deq: "inv q \<Longrightarrow> entries q \<noteq> [] \<Longrightarrow> fst (deq q) = hd (entries q) \<and> entries (snd (deq q)) = tl (entries q)"
begin

lemma enq_all: "inv q \<Longrightarrow> inv (foldl enq q xs) \<and> entries (foldl enq q xs) = take cap (entries q @ xs)"
proof (induction xs arbitrary: q)
  case Nil
  then show ?case using bounded by simp
next
  case (Cons x xs)
  have "take cap (take cap (entries q @ [x]) @ xs) = take cap (entries q @ x # xs)"
    using bounded [OF Cons.prems] by (cases "length (entries q) = cap") simp_all
  then show ?case using Cons.IH [OF inv_enq [OF Cons.prems, of x]] entries_enq [OF Cons.prems, of x] by simp
qed

end

section \<open>The queue of a device\<close>

definition fifo :: "'z ps2_state_scheme \<Rightarrow> u8 list" where
  "fifo s = map (\<lambda>i. q_data s ! ((rptr s + i) mod PS2_QUEUE_SIZE)) [0..<q_count s]"

definition q_ok :: "'z ps2_state_scheme \<Rightarrow> bool" where
  "q_ok s \<longleftrightarrow> length (q_data s) = PS2_QUEUE_SIZE \<and> rptr s < PS2_QUEUE_SIZE \<and> wptr s < PS2_QUEUE_SIZE
     \<and> q_count s \<le> PS2_QUEUE_SIZE \<and> wptr s = (rptr s + q_count s) mod PS2_QUEUE_SIZE"

text \<open>The queue without the callback.\<close>

definition ps2_enq :: "'z ps2_state_scheme \<Rightarrow> u8 \<Rightarrow> 'z ps2_state_scheme" where
  "ps2_enq s b = fst (ps2_queue (\<lambda>c _. c) (s, ()) (uint b))"

definition ps2_deq :: "'z ps2_state_scheme \<Rightarrow> u8 \<times> 'z ps2_state_scheme" where
  "ps2_deq s = (let (v, s1, _) = ps2_read_data (\<lambda>c _. c) (s, ()) in (v, s1))"

lemma queue_enq: "fst (ps2_queue upd (s, c) b) = ps2_enq s (word_of_int b)"
  by (simp add: ps2_enq_def ps2_queue_def)

lemma queue_all_enq: "fst (ps2_queue_all upd (s, c) bs) = foldl ps2_enq s (map word_of_int bs)"
proof (induction bs arbitrary: s c)
  case (Cons b bs)
  then show ?case using queue_enq [of upd s c b] by (cases "ps2_queue upd (s, c) b") (simp add: ps2_queue_all_def)
qed (simp add: ps2_queue_all_def)

lemma read_deq: "(fst (ps2_read_data upd (s, c)), fst (snd (ps2_read_data upd (s, c)))) = ps2_deq s"
  by (simp add: ps2_deq_def ps2_read_data_def Let_def)

lemma length_fifo [simp]: "length (fifo s) = q_count s"
  by (simp add: fifo_def)

lemma slots_distinct:
  fixes r :: nat
  assumes "i < k" "k < n"
  shows "(r + i) mod n \<noteq> (r + k) mod n"
proof
  assume "(r + i) mod n = (r + k) mod n"
  then have "n dvd (r + k) - (r + i)" using assms mod_eq_dvd_iff_nat [of "r + i" "r + k" n] by simp
  then have "n dvd k - i" by simp
  then show False using assms by (auto dest!: dvd_imp_le)
qed

lemma next_ptr: "p < PS2_QUEUE_SIZE \<Longrightarrow> (if Suc p = PS2_QUEUE_SIZE then 0 else Suc p) = Suc p mod PS2_QUEUE_SIZE"
  by (simp add: mod_Suc)

interpretation fifo: bounded_queue ps2_enq ps2_deq fifo q_ok PS2_QUEUE_SIZE
proof unfold_locales
  fix q :: "'z ps2_state_scheme" and x :: u8
  assume ok: "q_ok q"
  show "length (fifo q) \<le> PS2_QUEUE_SIZE" using ok by (simp add: q_ok_def)
  show "q_ok (ps2_enq q x)"
    using ok by (auto simp: q_ok_def ps2_enq_def ps2_queue_def mod_Suc PS2_QUEUE_SIZE_def)
  show "q_ok (snd (ps2_deq q))"
  proof (cases "q_count q")
    case (Suc n)
    then have "wptr q = (Suc (rptr q) mod PS2_QUEUE_SIZE + n) mod PS2_QUEUE_SIZE" using ok by (simp add: q_ok_def mod_add_left_eq)
    moreover have "Suc (rptr q) mod PS2_QUEUE_SIZE < PS2_QUEUE_SIZE" by (simp add: PS2_QUEUE_SIZE_def)
    ultimately show ?thesis using ok Suc next_ptr [of "rptr q"] by (simp add: q_ok_def ps2_deq_def ps2_read_data_def Let_def)
  qed (use ok in \<open>simp add: ps2_deq_def ps2_read_data_def\<close>)
  show "fifo (ps2_enq q x) = take PS2_QUEUE_SIZE (fifo q @ [x])"
  proof (cases "q_count q < PS2_QUEUE_SIZE")
    case True
    have "fifo (ps2_enq q x) ! i = (fifo q @ [x]) ! i" if "i \<le> q_count q" for i
      using that True ok slots_distinct [of i "q_count q" PS2_QUEUE_SIZE "rptr q"]
      by (cases "i = q_count q") (simp_all add: fifo_def ps2_enq_def ps2_queue_def q_ok_def nth_append del: upt_Suc)
    then have "fifo (ps2_enq q x) = fifo q @ [x]"
      using True by (intro nth_equalityI) (simp_all add: ps2_enq_def ps2_queue_def)
    then show ?thesis using True by simp
  next
    case False
    then show ?thesis using ok by (simp add: ps2_enq_def ps2_queue_def q_ok_def)
  qed
  show "fst (ps2_deq q) = hd (fifo q) \<and> fifo (snd (ps2_deq q)) = tl (fifo q)" if "fifo q \<noteq> []"
  proof -
    have n: "q_count q \<noteq> 0" using that by (simp add: fifo_def)
    then have up: "[0..<q_count q] = 0 # map Suc [0..<q_count q - 1]" by (simp add: map_Suc_upt upt_conv_Cons)
    have "(Suc (rptr q) mod PS2_QUEUE_SIZE + i) mod PS2_QUEUE_SIZE = (rptr q + Suc i) mod PS2_QUEUE_SIZE" for i
      by (simp add: mod_add_left_eq)
    then show ?thesis
      using n ok next_ptr [of "rptr q"]
      by (simp add: fifo_def ps2_deq_def ps2_read_data_def q_ok_def Let_def up del: upt_Suc)
  qed
qed

section \<open>Mouse packets\<close>

text \<open>What a driver reads from a packet of a mouse of type \<open>ty\<close>: the movement and the buttons.\<close>

definition packet_movement :: "u8 \<Rightarrow> u8 list \<Rightarrow> int \<times> int \<times> int" where
  "packet_movement ty p =
     (uint (p ! 1) - (if bit (p ! 0) 4 then 256 else 0), uint (p ! 2) - (if bit (p ! 0) 5 then 256 else 0),
      if ty = 3 then sint (p ! 3) else if ty = 4 then signed_take_bit 3 (uint (p ! 3)) else 0)"

definition packet_buttons :: "u8 \<Rightarrow> u8 list \<Rightarrow> u8" where
  "packet_buttons ty p = (p ! 0 AND 7) OR (if ty = 4 then drop_bit 1 (p ! 3 AND 0x30) else 0)"

definition has_wheel :: "u8 \<Rightarrow> bool" where
  "has_wheel ty \<longleftrightarrow> ty = 3 \<or> ty = 4"

definition packet_bytes :: "ps2_mouse \<Rightarrow> u8 list" where
  "packet_bytes s = map word_of_int (packet s)"

lemma clamp_bounds: "0 \<le> lim \<Longrightarrow> - lim \<le> clamp lim x \<and> clamp lim x \<le> lim"
  by (auto simp: clamp_def)

lemma byte_of_int:
  assumes "-127 \<le> x" "x \<le> 127"
  shows "uint (word_of_int (x AND 0xff) :: u8) - (if x < 0 then 256 else 0) = x" "sint (word_of_int (x AND 0xff) :: u8) = x"
proof -
  have m: "x AND 0xff = take_bit 8 x" by (simp add: take_bit_eq_mask mask_eq_exp_minus_1)
  then have w: "(word_of_int (x AND 0xff) :: u8) = word_of_int x" by (simp add: word_of_int_eq_iff)
  have "take_bit 8 x = (if x < 0 then x + 256 else x)" 
  proof (cases "x < 0")
    case True
    have "x mod 256 = (x + 256) mod 256" by simp
    also have "\<dots> = x + 256" by (rule mod_pos_pos_trivial) (use assms True in simp_all)
    finally show ?thesis using True by (simp add: take_bit_eq_mod)
  next
    case False
    then show ?thesis using assms by (simp add: take_bit_eq_mod)
  qed
  then show "uint (word_of_int (x AND 0xff) :: u8) - (if x < 0 then 256 else 0) = x" by (simp add: w uint_word_of_int_eq)
  have "signed_take_bit 7 x = x" using assms by (intro signed_take_bit_int_eq_self) simp_all
  then show "sint (word_of_int (x AND 0xff) :: u8) = x" by (simp add: w sint_sbintrunc')
qed

lemma first_byte:
  fixes b :: u8 and neg_x neg_y :: bool
  defines "p \<equiv> (word_of_int (0x08 OR (if neg_x then 0x10 else 0) OR (if neg_y then 0x20 else 0) OR uint (b AND 0x07)) :: u8)"
  shows "bit p 4 = neg_x" "bit p 5 = neg_y" "p AND 7 = b AND 7"
proof -
  have m: "bit (7 :: u8) n \<longleftrightarrow> n < 3" "bit (7 :: int) n \<longleftrightarrow> n < 3" for n
    using bit_mask_iff [of 3 n, where 'a = u8] bit_mask_iff [of 3 n, where 'a = int] by (auto simp: mask_eq_exp_minus_1 exp_eq_0_imp_not_bit)
  have e: "bit (8 :: int) n \<longleftrightarrow> n = 3" "bit (16 :: int) n \<longleftrightarrow> n = 4" "bit (32 :: int) n \<longleftrightarrow> n = 5" for n
    using bit_exp_iff [of 3 n, where 'a = int] bit_exp_iff [of 4 n, where 'a = int] bit_exp_iff [of 5 n, where 'a = int] by auto
  have b: "bit p n \<longleftrightarrow> n < 8 \<and> (n = 3 \<or> n = 4 \<and> neg_x \<or> n = 5 \<and> neg_y \<or> n < 3 \<and> bit b n)" for n
    by (auto simp: p_def bit_word_of_int_iff bit_or_iff bit_and_iff bit_uint_iff m e)
  show "bit p 4 = neg_x" "bit p 5 = neg_y" by (simp_all add: b)
  show "p AND 7 = b AND 7" by (rule bit_word_eqI) (auto simp: bit_and_iff b m)
qed

lemma fourth_byte:
  fixes b :: u8
  assumes "-7 \<le> z" "z \<le> 7"
  defines "p \<equiv> (word_of_int ((z AND 0x0f) OR push_bit 1 (uint (b AND 0x18))) :: u8)"
  shows "signed_take_bit 3 (uint p) = z" "drop_bit 1 (p AND 0x30) = b AND 0x18"
proof -
  have m: "bit (15 :: int) n \<longleftrightarrow> n < 4" for n
    using bit_mask_iff [of 4 n, where 'a = int] by (auto simp: mask_eq_exp_minus_1)
  have e: "bit (0x18 :: u8) n \<longleftrightarrow> n = 3 \<or> n = 4" "bit (0x30 :: u8) n \<longleftrightarrow> n = 4 \<or> n = 5" for n
  proof -
    have "(0x18 :: u8) = 2 ^ 3 OR 2 ^ 4" "(0x30 :: u8) = 2 ^ 4 OR 2 ^ 5" by simp_all
    then show "bit (0x18 :: u8) n \<longleftrightarrow> n = 3 \<or> n = 4" "bit (0x30 :: u8) n \<longleftrightarrow> n = 4 \<or> n = 5"
      by (simp_all only: bit_or_iff bit_exp_iff) auto
  qed
  have b: "bit p n \<longleftrightarrow> n < 8 \<and> (n < 4 \<and> bit z n \<or> (n = 4 \<or> n = 5) \<and> bit b (n - 1))" for n
    unfolding p_def bit_word_of_int_iff bit_or_iff bit_and_iff bit_push_bit_iff_int bit_uint_iff m e by auto
  have "signed_take_bit 3 (uint p) = signed_take_bit 3 z"
    by (rule bit_eqI) (auto simp: bit_signed_take_bit_iff bit_uint_iff b min_def)
  also have "\<dots> = z" using assms(1,2) by (intro signed_take_bit_int_eq_self) simp_all
  finally show "signed_take_bit 3 (uint p) = z" .
  show "drop_bit 1 (p AND 0x30) = b AND 0x18"
  proof (rule bit_word_eqI)
    fix n
    have "bit (p AND 0x30) (Suc n) \<longleftrightarrow> bit p (Suc n) \<and> (n = 3 \<or> n = 4)" by (simp only: bit_and_iff e) auto
    then show "bit (drop_bit 1 (p AND 0x30)) n = bit (b AND 0x18) n"
      by (simp only: bit_drop_bit_eq o_apply plus_1_eq_Suc b bit_and_iff e) auto
  qed
qed

lemma packet_decodes:
  "packet_movement (mouse_type s) (packet_bytes s) =
    (clamp 127 (mouse_dx s), clamp 127 (mouse_dy s), if has_wheel (mouse_type s) then packet_dz s else 0)"
  "packet_buttons (mouse_type s) (packet_bytes s) = mouse_buttons s AND (if mouse_type s = 4 then 0x1f else 7)"
proof -
  let ?x = "clamp 127 (mouse_dx s)" and ?y = "clamp 127 (mouse_dy s)" and ?z = "packet_dz s" and ?b = "mouse_buttons s"
  have c: "-127 \<le> ?x" "?x \<le> 127" "-127 \<le> ?y" "?y \<le> 127" using clamp_bounds [of 127] by auto
  have z3: "mouse_type s = 3 \<Longrightarrow> -127 \<le> ?z \<and> ?z \<le> 127" and z4: "mouse_type s = 4 \<Longrightarrow> -7 \<le> ?z \<and> ?z \<le> 7"
    using clamp_bounds [of 127] clamp_bounds [of 7] by (auto simp: packet_dz_def)
  note f = first_byte [of "?x < 0" "?y < 0" ?b]
  show "packet_movement (mouse_type s) (packet_bytes s) = (?x, ?y, if has_wheel (mouse_type s) then ?z else 0)"
    using byte_of_int [OF c(1,2)] byte_of_int [OF c(3,4)] byte_of_int(2) [of ?z] z3 z4 fourth_byte(1) [of ?z ?b] f(1,2)
    by (auto simp: packet_movement_def packet_bytes_def packet_def Let_def has_wheel_def)
  have "(?b AND 7) OR (?b AND 0x18) = ?b AND 0x1f" by (simp flip: bit.conj_disj_distrib)
  then show "packet_buttons (mouse_type s) (packet_bytes s) = ?b AND (if mouse_type s = 4 then 0x1f else 7)"
    using z4 fourth_byte(2) [of ?z ?b] f(3) by (auto simp: packet_buttons_def packet_bytes_def packet_def Let_def)
qed

section \<open>Mouse events\<close>

lemma fifo_fields [simp]:
  "fifo (s\<lparr>mouse_dx := x, mouse_dy := y, mouse_dz := z\<rparr>) = fifo s" "q_ok (s\<lparr>mouse_dx := x, mouse_dy := y, mouse_dz := z\<rparr>) = q_ok s"
  "fifo (s\<lparr>mouse_buttons := b\<rparr>) = fifo s" "q_ok (s\<lparr>mouse_buttons := b\<rparr>) = q_ok s"
  by (simp_all add: fifo_def q_ok_def)

lemma send_packet_fifo:
  assumes "ps2_mouse_send_packet upd (s, c) = (s1, c1)" "q_ok s"
  shows "q_ok s1" "fifo s1 = take PS2_QUEUE_SIZE (fifo s @ packet_bytes s)"
proof -
  obtain s2 c2 where q: "ps2_queue_all upd (s, c) (packet s) = (s2, c2)" by fastforce
  then have s2: "s2 = foldl ps2_enq s (packet_bytes s)"
    using queue_all_enq [of upd s c "packet s"] by (simp add: packet_bytes_def)
  obtain x y z where "s1 = s2\<lparr>mouse_dx := x, mouse_dy := y, mouse_dz := z\<rparr>"
    using assms(1) q by (auto simp: ps2_mouse_send_packet_def)
  then show "q_ok s1" "fifo s1 = take PS2_QUEUE_SIZE (fifo s @ packet_bytes s)"
    using fifo.enq_all [OF assms(2), of "packet_bytes s"] by (simp_all add: s2)
qed

lemma take_take_append: "take n (take n xs @ ys) = take n (xs @ ys)"
  by (cases "length xs \<le> n") simp_all

text \<open>\<open>ps\<close> are packets of a mouse of type \<open>ty\<close> that add up to a movement.\<close>

definition reports :: "u8 \<Rightarrow> u8 list list \<Rightarrow> int \<Rightarrow> int \<Rightarrow> int \<Rightarrow> u8 \<Rightarrow> bool" where
  "reports ty ps dx dy dz buttons \<longleftrightarrow> ps \<noteq> []
     \<and> sum_list (map (\<lambda>p. fst (packet_movement ty p)) ps) = dx
     \<and> sum_list (map (\<lambda>p. fst (snd (packet_movement ty p))) ps) = dy
     \<and> (has_wheel ty \<longrightarrow> sum_list (map (\<lambda>p. snd (snd (packet_movement ty p))) ps) = dz)
     \<and> (\<forall>p \<in> set ps. length p = (if has_wheel ty then 4 else 3) \<and> packet_buttons ty p = buttons AND (if ty = 4 then 0x1f else 7))"

lemma length_packet_bytes: "length (packet_bytes s) = (if has_wheel (mouse_type s) then 4 else 3)"
  by (simp add: packet_bytes_def packet_def Let_def has_wheel_def)

lemma send_packets_spec:
  assumes "send_packets upd (s, c) = (s1, c1)" "q_ok s"
  shows "\<exists>ps. reports (mouse_type s) ps (mouse_dx s) (mouse_dy s) (mouse_dz s) (mouse_buttons s)
    \<and> fifo s1 = take PS2_QUEUE_SIZE (fifo s @ concat ps) \<and> q_ok s1 \<and> no_movement s1"
  using assms
proof (induction upd "(s, c)" arbitrary: s c rule: send_packets.induct)
  case (1 upd s c)
  obtain s2 c2 where s2: "ps2_mouse_send_packet upd (s, c) = (s2, c2)" by fastforce
  note m = send_packet_movement [OF s2] and f = send_packet_fifo [OF s2 "1.prems"(2)]
  show ?case
  proof (cases "no_movement s2")
    case True
    then have "s1 = s2" using "1.prems"(1) s2 by (subst (asm) send_packets.simps) (simp add: Let_def)
    moreover have "reports (mouse_type s) [packet_bytes s] (mouse_dx s) (mouse_dy s) (mouse_dz s) (mouse_buttons s)"
      using True m(1-3) packet_decodes [of s] length_packet_bytes [of s] by (simp add: reports_def no_movement_def)
    ultimately show ?thesis using f True by (intro exI [of _ "[packet_bytes s]"]) simp
  next
    case False
    then have "send_packets upd (s2, c2) = (s1, c1)" using "1.prems"(1) s2 by (subst (asm) send_packets.simps) (simp add: Let_def)
    then obtain ps where ps: "reports (mouse_type s2) ps (mouse_dx s2) (mouse_dy s2) (mouse_dz s2) (mouse_buttons s2)"
      "fifo s1 = take PS2_QUEUE_SIZE (fifo s2 @ concat ps)" "q_ok s1" "no_movement s1"
      using "1.hyps" [OF s2 [symmetric]] False f(1) by auto
    have "reports (mouse_type s) (packet_bytes s # ps) (mouse_dx s) (mouse_dy s) (mouse_dz s) (mouse_buttons s)"
      using ps(1) m packet_decodes [of s] length_packet_bytes [of s] by (simp add: reports_def)
    moreover have "fifo s1 = take PS2_QUEUE_SIZE (fifo s @ concat (packet_bytes s # ps))"
      unfolding ps(2) f(2) by (simp only: take_take_append append_assoc concat.simps)
    ultimately show ?thesis using ps(3,4) by blast
  qed
qed

text \<open>The mouse reports what it is given: an event for an enabled mouse in stream mode that moves it, or
  changes its buttons, appends packets to the queue that add up to the whole movement since the last
  packet, the wheel's too where the driver has enabled it, and carry the new buttons; nothing is left
  to report. The queue cuts off what does not fit into its 256 bytes, be it in the middle of a packet.
  The events of any size are handled in finitely many packets.
\<close>

theorem mouse_event_reported:
  assumes "q_ok s" "mouse_status s AND MOUSE_STATUS_ENABLED \<noteq> 0" "mouse_status s AND MOUSE_STATUS_REMOTE = 0"
    and "q_count s < PS2_QUEUE_SIZE - 16"
    and "X = wrap32 (mouse_dx s + dx)" "Y = wrap32 (mouse_dy s - dy)" "Z = wrap32 (mouse_dz s + dz)"
    and "X \<noteq> 0 \<or> Y \<noteq> 0 \<or> Z \<noteq> 0 \<or> uint (mouse_buttons s) \<noteq> buttons"
    and "ps2_mouse_event upd (s, c) dx dy dz buttons = (s1, c1)"
  shows "\<exists>ps. reports (mouse_type s) ps X Y Z (word_of_int buttons) \<and> fifo s1 = take PS2_QUEUE_SIZE (fifo s @ concat ps)
    \<and> q_ok s1 \<and> no_movement s1"
proof -
  let ?s = "s\<lparr>mouse_dx := X, mouse_dy := Y, mouse_dz := Z, mouse_buttons := word_of_int buttons\<rparr>"
  have "send_packets upd (?s, c) = (s1, c1)"
    using assms by (auto simp: ps2_mouse_event_def Let_def no_movement_def)
  then show ?thesis using send_packets_spec [of upd ?s c s1 c1] assms(1) by simp
qed

lemma mouse_event_reported_witness:
  "\<exists>s1 ps. fst (ps2_mouse_event (\<lambda>c _. c) (ps2_mouse_init\<lparr>mouse_status := 0x20\<rparr>, ()) 300 (-5) 0 1) = s1
    \<and> reports 0 ps 300 5 0 1 \<and> fifo s1 = take PS2_QUEUE_SIZE (concat ps) \<and> no_movement s1"
proof -
  let ?s = "ps2_mouse_init\<lparr>mouse_status := 0x20\<rparr>"
  obtain s1 c1 where e: "ps2_mouse_event (\<lambda>c _. c) (?s, ()) 300 (-5) 0 1 = (s1, c1)"
    by (cases "ps2_mouse_event (\<lambda>c _. c) (?s, ()) 300 (-5) 0 1")
  have w: "wrap32 300 = 300" "wrap32 5 = 5" "wrap32 0 = 0" by (simp_all add: wrap32_def signed_take_bit_int_eq_self)
  have q: "q_ok ?s" "fifo ?s = []" by (simp_all add: q_ok_def fifo_def ps2_mouse_init_def ps2_reset_def PS2_QUEUE_SIZE_def)
  have "\<exists>ps. reports (mouse_type ?s) ps 300 5 0 (word_of_int 1) \<and> fifo s1 = take PS2_QUEUE_SIZE (fifo ?s @ concat ps) \<and> q_ok s1 \<and> no_movement s1"
    by (rule mouse_event_reported [OF q(1) _ _ _ _ _ _ _ e])
      (simp_all add: w ps2_mouse_init_def ps2_reset_def PS2_QUEUE_SIZE_def)
  then show ?thesis using e q(2) by (auto simp: ps2_mouse_init_def ps2_reset_def)
qed

section \<open>The queue as a property of the code\<close>

text \<open>The byte queue of a device is a first-in-first-out queue of at most 256 bytes: bytes that are queued
  one after the other are appended as long as there is room, and the others are dropped; a read takes
  the oldest byte; the indices stay within the array.
\<close>

theorem ps2_queue_is_fifo:
  assumes "q_ok s" "fifo s = b # r"
  shows "q_ok (fst (ps2_queue_all upd (s, c) bs))
    \<and> fifo (fst (ps2_queue_all upd (s, c) bs)) = take PS2_QUEUE_SIZE (fifo s @ map word_of_int bs)
    \<and> (\<exists>s' c'. ps2_read_data upd (s, c) = (b, s', c') \<and> q_ok s' \<and> fifo s' = r) \<and> length (fifo s) \<le> 256
    \<and> wptr s < length (q_data s) \<and> rptr s < length (q_data s)"
proof -
  have "q_ok (foldl ps2_enq s (map word_of_int bs)) \<and> fifo (foldl ps2_enq s (map word_of_int bs)) = take PS2_QUEUE_SIZE (fifo s @ map word_of_int bs)"
    by (rule fifo.enq_all [OF assms(1)])
  moreover obtain v s' c' where r: "ps2_read_data upd (s, c) = (v, s', c')" by (cases "ps2_read_data upd (s, c)")
  have d: "ps2_deq s = (v, s')" using read_deq [of upd s c] r by simp
  have "v = b \<and> fifo s' = r" "q_ok s'"
    using fifo.entries_deq [OF assms(1)] fifo.inv_deq [OF assms(1)] assms(2) by (simp_all add: d)
  moreover have "length (fifo s) \<le> 256" using fifo.bounded [OF assms(1)] by (simp add: PS2_QUEUE_SIZE_def)
  ultimately show ?thesis using r assms(1) by (simp only: queue_all_enq) (simp add: q_ok_def)
qed

lemma ps2_queue_is_fifo_witness:
  "fifo (fst (ps2_queue_all (\<lambda>c _. c) (ps2_enq ps2_kbd_init 7, ()) [8, 9])) = [7, 8, 9]"
proof -
  let ?s = "ps2_enq ps2_kbd_init 7"
  have q: "q_ok ps2_kbd_init" "fifo ps2_kbd_init = []" by (simp_all add: q_ok_def fifo_def ps2_kbd_init_def ps2_reset_def PS2_QUEUE_SIZE_def)
  have "fifo ?s = 7 # []" using fifo.entries_enq [OF q(1), of 7] by (simp add: q(2) PS2_QUEUE_SIZE_def)
  from ps2_queue_is_fifo [OF fifo.inv_enq [OF q(1), of 7] this, of "\<lambda>c _. c" "()" "[8, 9]"]
  show ?thesis by (simp add: \<open>fifo ?s = 7 # []\<close> PS2_QUEUE_SIZE_def)
qed

end
