(* ===== verification/Pckbd.thy ===== *)
theory Pckbd
  imports Ps2 Iomem
begin

text \<open>
  \<open>pckbd.c\<close>: the i8042 keyboard controller over the PS/2 keyboard and mouse. The levels of its two
  interrupt lines are what the last calls of \<open>set_irq\<close> left. \<open>None\<close> is the end of the emulator, by
  the \<open>exit(1)\<close> of a reset request.
\<close>

abbreviation (input) KBD_CCMD_READ_MODE :: u32 where "KBD_CCMD_READ_MODE \<equiv> 0x20"
abbreviation (input) KBD_CCMD_WRITE_MODE :: u32 where "KBD_CCMD_WRITE_MODE \<equiv> 0x60"
abbreviation (input) KBD_CCMD_MOUSE_DISABLE :: u32 where "KBD_CCMD_MOUSE_DISABLE \<equiv> 0xA7"
abbreviation (input) KBD_CCMD_MOUSE_ENABLE :: u32 where "KBD_CCMD_MOUSE_ENABLE \<equiv> 0xA8"
abbreviation (input) KBD_CCMD_TEST_MOUSE :: u32 where "KBD_CCMD_TEST_MOUSE \<equiv> 0xA9"
abbreviation (input) KBD_CCMD_SELF_TEST :: u32 where "KBD_CCMD_SELF_TEST \<equiv> 0xAA"
abbreviation (input) KBD_CCMD_KBD_TEST :: u32 where "KBD_CCMD_KBD_TEST \<equiv> 0xAB"
abbreviation (input) KBD_CCMD_KBD_DISABLE :: u32 where "KBD_CCMD_KBD_DISABLE \<equiv> 0xAD"
abbreviation (input) KBD_CCMD_KBD_ENABLE :: u32 where "KBD_CCMD_KBD_ENABLE \<equiv> 0xAE"
abbreviation (input) KBD_CCMD_READ_INPORT :: u32 where "KBD_CCMD_READ_INPORT \<equiv> 0xC0"
abbreviation (input) KBD_CCMD_READ_OUTPORT :: u32 where "KBD_CCMD_READ_OUTPORT \<equiv> 0xD0"
abbreviation (input) KBD_CCMD_WRITE_OUTPORT :: u32 where "KBD_CCMD_WRITE_OUTPORT \<equiv> 0xD1"
abbreviation (input) KBD_CCMD_WRITE_OBUF :: u32 where "KBD_CCMD_WRITE_OBUF \<equiv> 0xD2"
abbreviation (input) KBD_CCMD_WRITE_AUX_OBUF :: u32 where "KBD_CCMD_WRITE_AUX_OBUF \<equiv> 0xD3"
abbreviation (input) KBD_CCMD_WRITE_MOUSE :: u32 where "KBD_CCMD_WRITE_MOUSE \<equiv> 0xD4"
abbreviation (input) KBD_CCMD_RESET :: u32 where "KBD_CCMD_RESET \<equiv> 0xFE"

abbreviation (input) KBD_STAT_OBF :: u8 where "KBD_STAT_OBF \<equiv> 0x01"
abbreviation (input) KBD_STAT_SELFTEST :: u8 where "KBD_STAT_SELFTEST \<equiv> 0x04"
abbreviation (input) KBD_STAT_CMD :: u8 where "KBD_STAT_CMD \<equiv> 0x08"
abbreviation (input) KBD_STAT_UNLOCKED :: u8 where "KBD_STAT_UNLOCKED \<equiv> 0x10"
abbreviation (input) KBD_STAT_MOUSE_OBF :: u8 where "KBD_STAT_MOUSE_OBF \<equiv> 0x20"

abbreviation (input) KBD_MODE_KBD_INT :: u8 where "KBD_MODE_KBD_INT \<equiv> 0x01"
abbreviation (input) KBD_MODE_MOUSE_INT :: u8 where "KBD_MODE_MOUSE_INT \<equiv> 0x02"
abbreviation (input) KBD_MODE_DISABLE_KBD :: u8 where "KBD_MODE_DISABLE_KBD \<equiv> 0x10"
abbreviation (input) KBD_MODE_DISABLE_MOUSE :: u8 where "KBD_MODE_DISABLE_MOUSE \<equiv> 0x20"
abbreviation (input) KBD_MODE_KCC :: u8 where "KBD_MODE_KCC \<equiv> 0x40"

abbreviation (input) KBD_PENDING_KBD :: u8 where "KBD_PENDING_KBD \<equiv> 1"
abbreviation (input) KBD_PENDING_AUX :: u8 where "KBD_PENDING_AUX \<equiv> 2"

section \<open>State\<close>

text \<open>\<open>KBDState\<close>: what the callbacks of the two devices change, and the devices.\<close>

record kbd_core =
  kc_write_cmd :: u8
  kc_status :: u8
  kc_mode :: u8
  kc_pending :: u8
  irq_kbd :: int
  irq_mouse :: int

record kbd_state =
  core :: kbd_core
  kbd :: ps2_kbd
  mouse :: ps2_mouse

section \<open>Interrupts\<close>

definition kbd_update_irq :: "kbd_core \<Rightarrow> kbd_core" where
  "kbd_update_irq c =
     (let st = kc_status c AND NOT (KBD_STAT_OBF OR KBD_STAT_MOUSE_OBF);
          (st1, kbd_level, mouse_level) =
            (if c_true (kc_pending c) then
               if kc_pending c = KBD_PENDING_AUX then
                 (st OR KBD_STAT_OBF OR KBD_STAT_MOUSE_OBF, 0 :: int, if c_true (kc_mode c AND KBD_MODE_MOUSE_INT) then 1 :: int else 0)
               else
                 (st OR KBD_STAT_OBF,
                  if c_true (kc_mode c AND KBD_MODE_KBD_INT) \<and> \<not> c_true (kc_mode c AND KBD_MODE_DISABLE_KBD) then 1 else 0, 0)
             else (st, 0, 0))
      in c\<lparr>kc_status := st1, irq_kbd := kbd_level, irq_mouse := mouse_level\<rparr>)"

definition kbd_update_kbd_irq :: "kbd_core \<Rightarrow> int \<Rightarrow> kbd_core" where
  "kbd_update_kbd_irq c level =
     kbd_update_irq (c\<lparr>kc_pending := (if level \<noteq> 0 then kc_pending c OR KBD_PENDING_KBD else kc_pending c AND NOT KBD_PENDING_KBD)\<rparr>)"

definition kbd_update_aux_irq :: "kbd_core \<Rightarrow> int \<Rightarrow> kbd_core" where
  "kbd_update_aux_irq c level =
     kbd_update_irq (c\<lparr>kc_pending := (if level \<noteq> 0 then kc_pending c OR KBD_PENDING_AUX else kc_pending c AND NOT KBD_PENDING_AUX)\<rparr>)"

text \<open>A call of a function of the keyboard or of the mouse.\<close>

definition on_kbd :: "((kbd_core \<Rightarrow> int \<Rightarrow> kbd_core) \<Rightarrow> ps2_kbd \<times> kbd_core \<Rightarrow> ps2_kbd \<times> kbd_core) \<Rightarrow> kbd_state \<Rightarrow> kbd_state" where
  "on_kbd f s = (let (k, c) = f kbd_update_kbd_irq (kbd s, core s) in s\<lparr>kbd := k, core := c\<rparr>)"

definition on_mouse :: "((kbd_core \<Rightarrow> int \<Rightarrow> kbd_core) \<Rightarrow> ps2_mouse \<times> kbd_core \<Rightarrow> ps2_mouse \<times> kbd_core) \<Rightarrow> kbd_state \<Rightarrow> kbd_state" where
  "on_mouse f s = (let (m, c) = f kbd_update_aux_irq (mouse s, core s) in s\<lparr>mouse := m, core := c\<rparr>)"

definition kbd_queue :: "kbd_state \<Rightarrow> int \<Rightarrow> bool \<Rightarrow> kbd_state" where
  "kbd_queue s b aux =
     (if aux then on_mouse (\<lambda>upd sc. ps2_queue upd sc b) s else on_kbd (\<lambda>upd sc. ps2_queue upd sc b) s)"

section \<open>Ports\<close>

definition kbd_read_status :: "kbd_state \<Rightarrow> u32" where
  "kbd_read_status s = ucast (kc_status (core s))"

definition upd_core :: "kbd_state \<Rightarrow> (kbd_core \<Rightarrow> kbd_core) \<Rightarrow> kbd_state" where
  "upd_core s f = s\<lparr>core := f (core s)\<rparr>"

text \<open>The value of the output port; the A20 gate is always open.\<close>

definition outport_value :: "kbd_core \<Rightarrow> int" where
  "outport_value c =
     0x01 OR push_bit 1 1 OR (if c_true (kc_status c AND KBD_STAT_OBF) then 0x10 else 0)
       OR (if c_true (kc_status c AND KBD_STAT_MOUSE_OBF) then 0x20 else 0)"

definition kbd_write_command :: "kbd_state \<Rightarrow> u32 \<Rightarrow> kbd_state option" where
  "kbd_write_command s val =
     (if val = KBD_CCMD_READ_MODE then Some (kbd_queue s (uint (kc_mode (core s))) True)
      else if val = KBD_CCMD_WRITE_MODE \<or> val = KBD_CCMD_WRITE_OBUF \<or> val = KBD_CCMD_WRITE_AUX_OBUF
          \<or> val = KBD_CCMD_WRITE_MOUSE \<or> val = KBD_CCMD_WRITE_OUTPORT then
        Some (upd_core s (\<lambda>c. c\<lparr>kc_write_cmd := ucast val\<rparr>))
      else if val = KBD_CCMD_MOUSE_DISABLE then Some (upd_core s (\<lambda>c. c\<lparr>kc_mode := kc_mode c OR KBD_MODE_DISABLE_MOUSE\<rparr>))
      else if val = KBD_CCMD_MOUSE_ENABLE then Some (upd_core s (\<lambda>c. c\<lparr>kc_mode := kc_mode c AND NOT KBD_MODE_DISABLE_MOUSE\<rparr>))
      else if val = KBD_CCMD_TEST_MOUSE \<or> val = KBD_CCMD_KBD_TEST \<or> val = KBD_CCMD_READ_INPORT then Some (kbd_queue s 0x00 False)
      else if val = KBD_CCMD_SELF_TEST then
        Some (kbd_queue (upd_core s (\<lambda>c. c\<lparr>kc_status := kc_status c OR KBD_STAT_SELFTEST\<rparr>)) 0x55 False)
      else if val = KBD_CCMD_KBD_DISABLE then
        Some (upd_core s (\<lambda>c. kbd_update_irq (c\<lparr>kc_mode := kc_mode c OR KBD_MODE_DISABLE_KBD\<rparr>)))
      else if val = KBD_CCMD_KBD_ENABLE then
        Some (upd_core s (\<lambda>c. kbd_update_irq (c\<lparr>kc_mode := kc_mode c AND NOT KBD_MODE_DISABLE_KBD\<rparr>)))
      else if val = KBD_CCMD_READ_OUTPORT then Some (kbd_queue s (outport_value (core s)) False)
      else if val = KBD_CCMD_RESET then None
      else Some s)"

definition kbd_read_data :: "kbd_state \<Rightarrow> u32 \<times> kbd_state" where
  "kbd_read_data s =
     (if kc_pending (core s) = KBD_PENDING_AUX then
        let (v, m, c) = ps2_read_data kbd_update_aux_irq (mouse s, core s) in (ucast v, s\<lparr>mouse := m, core := c\<rparr>)
      else
        let (v, k, c) = ps2_read_data kbd_update_kbd_irq (kbd s, core s) in (ucast v, s\<lparr>kbd := k, core := c\<rparr>))"

definition kbd_write_data_cmd :: "kbd_state \<Rightarrow> u32 \<Rightarrow> kbd_state option" where
  "kbd_write_data_cmd s val =
     (let cmd = kc_write_cmd (core s)
      in if cmd = 0 then Some (on_kbd (\<lambda>upd sc. ps2_write_keyboard upd sc (sint val)) s)
         else if cmd = ucast KBD_CCMD_WRITE_MODE then
           let s1 = upd_core s (\<lambda>c. c\<lparr>kc_mode := ucast val\<rparr>);
               s2 = s1\<lparr>kbd := ps2_keyboard_set_translation (kbd s1) (if c_true (kc_mode (core s1) AND KBD_MODE_KCC) then 1 else 0)\<rparr>
           in Some (upd_core s2 kbd_update_irq)
         else if cmd = ucast KBD_CCMD_WRITE_OBUF then Some (kbd_queue s (sint val) False)
         else if cmd = ucast KBD_CCMD_WRITE_AUX_OBUF then Some (kbd_queue s (sint val) True)
         else if cmd = ucast KBD_CCMD_WRITE_OUTPORT then (if \<not> c_true (val AND 1) then None else Some s)
         else if cmd = ucast KBD_CCMD_WRITE_MOUSE then Some (on_mouse (\<lambda>upd sc. ps2_write_mouse upd sc (sint val)) s)
         else Some s)"

definition kbd_write_data :: "kbd_state \<Rightarrow> u32 \<Rightarrow> kbd_state option" where
  "kbd_write_data s val =
     map_option (\<lambda>s1. upd_core s1 (\<lambda>c. c\<lparr>kc_write_cmd := 0\<rparr>)) (kbd_write_data_cmd s val)"

section \<open>Initialisation\<close>

definition kbd_reset :: "kbd_core \<Rightarrow> kbd_core" where
  "kbd_reset c = c\<lparr>kc_mode := KBD_MODE_KBD_INT OR KBD_MODE_MOUSE_INT, kc_status := KBD_STAT_CMD OR KBD_STAT_UNLOCKED\<rparr>"

text \<open>\<open>opaque\<close> is the name of the controller in the port map.\<close>

definition i8042_state :: kbd_state where
  "i8042_state =
     \<lparr>core = kbd_reset \<lparr>kc_write_cmd = 0, kc_status = 0, kc_mode = 0, kc_pending = 0, irq_kbd = 0, irq_mouse = 0\<rparr>,
      kbd = ps2_kbd_init, mouse = ps2_mouse_init\<rparr>"

definition i8042_init :: "phys_mem_map \<Rightarrow> u64 \<Rightarrow> nat \<Rightarrow> (kbd_state \<times> phys_mem_map) option" where
  "i8042_init port_map io_base opaque =
     (case cpu_register_device port_map io_base 1 opaque DEVIO_SIZE8 of
        None \<Rightarrow> None
      | Some (m1, _) \<Rightarrow>
          map_option (\<lambda>(m2, _). (i8042_state, m2)) (cpu_register_device m1 (io_base + 4) 1 opaque DEVIO_SIZE8))"

end
