(* ===== verification/PckbdSpec.thy ===== *)
theory PckbdSpec
  imports Pckbd Ps2Spec
begin

text \<open>
  The keyboard controller is consistent in every run: its status, its pending devices and its
  interrupt lines say which of the two queues hold bytes; and reading the data port until the
  controller is empty gives the bytes of the keyboard, then those of the mouse.
\<close>

section \<open>Devices and their callback\<close>

text \<open>
  \<open>P c b\<close> says that the owner's state \<open>c\<close> knows whether the queue holds bytes. A callback that keeps
  it is all that the devices need.
\<close>

definition irq_ok :: "('c \<Rightarrow> bool \<Rightarrow> bool) \<Rightarrow> 'z ps2_state_scheme \<times> 'c \<Rightarrow> bool" where
  "irq_ok P sc \<longleftrightarrow> q_ok (fst sc) \<and> P (snd sc) (q_count (fst sc) \<noteq> 0)"

locale irq_callback =
  fixes upd :: "'c \<Rightarrow> int \<Rightarrow> 'c" and P :: "'c \<Rightarrow> bool \<Rightarrow> bool"
  assumes raise: "P c b \<Longrightarrow> P (upd c 1) True" and lower: "P c b \<Longrightarrow> P (upd c 0) False"
begin

lemma queue_ok: "irq_ok P sc \<Longrightarrow> irq_ok P (ps2_queue upd sc b)"
proof -
  assume ok: "irq_ok P sc"
  obtain s c where sc: "sc = (s, c)" by fastforce
  have "q_ok (ps2_enq s (word_of_int b))" using ok by (simp add: irq_ok_def sc fifo.inv_enq)
  then have "q_ok (fst (ps2_queue upd (s, c) b))" by (simp only: queue_enq)
  moreover have "P (snd (ps2_queue upd (s, c) b)) (q_count (fst (ps2_queue upd (s, c) b)) \<noteq> 0)"
    using ok by (auto simp: irq_ok_def sc ps2_queue_def intro: raise)
  ultimately show ?thesis by (simp add: irq_ok_def sc)
qed

lemma queue_all_ok: "irq_ok P sc \<Longrightarrow> irq_ok P (ps2_queue_all upd sc bs)"
  by (induction bs arbitrary: sc) (simp_all add: ps2_queue_all_def queue_ok)

lemma read_ok:
  assumes "irq_ok P (s, c)" "ps2_read_data upd (s, c) = (v, s', c')"
  shows "irq_ok P (s', c')"
proof -
  have "s' = snd (ps2_deq s)" using read_deq [of upd s c] assms(2) by (metis fst_conv snd_conv)
  then have "q_ok s'" using assms(1) by (simp add: irq_ok_def fifo.inv_deq)
  moreover have "P c' (q_count s' \<noteq> 0)"
    using assms raise [OF lower, of c True] lower [OF lower, of c True]
    by (auto simp: irq_ok_def ps2_read_data_def Let_def split: if_splits)
  ultimately show ?thesis by (simp add: irq_ok_def)
qed

text \<open>Fields that are not part of the queue.\<close>

lemma put_keycode_ok: "irq_ok P sc \<Longrightarrow> irq_ok P (ps2_put_keycode upd sc pressed code)"
  by (simp add: ps2_put_keycode_def Let_def queue_ok)

lemma write_keyboard_ok:
  assumes "irq_ok P sc"
  shows "irq_ok P (ps2_write_keyboard upd sc val)"
proof -
  obtain s c where sc: "sc = (s, c)" by fastforce
  have f: "irq_ok P (s\<lparr>scan_enabled := e\<rparr>, c)" "irq_ok P (s\<lparr>write_cmd := w\<rparr>, c)" for e w
    using assms by (simp_all add: irq_ok_def q_ok_def sc)
  have w: "irq_ok P (t\<lparr>write_cmd := w\<rparr>, d)" if "irq_ok P (t, d)" for t :: ps2_kbd and d w
    using that by (simp add: irq_ok_def q_ok_def)
  show ?thesis
    using assms f by (auto simp: sc ps2_write_keyboard_def ps2_reset_keyboard_def intro!: queue_ok queue_all_ok w split: prod.split)
      (metis queue_ok w)+
qed

lemma send_packet_ok: "irq_ok P sc \<Longrightarrow> irq_ok P (ps2_mouse_send_packet upd sc)"
proof -
  assume ok: "irq_ok P sc"
  obtain s c where sc: "sc = (s, c)" by fastforce
  have "irq_ok P (t\<lparr>mouse_dx := x, mouse_dy := y, mouse_dz := z\<rparr>, d)" if "irq_ok P (t, d)" for t :: ps2_mouse and d x y z
    using that by (simp add: irq_ok_def)
  then show ?thesis using queue_all_ok [OF ok] by (simp add: ps2_mouse_send_packet_def sc split: prod.split) metis
qed

lemma send_packets_ok: "u = upd \<Longrightarrow> irq_ok P sc \<Longrightarrow> irq_ok P (send_packets u sc)"
proof (induction u sc rule: send_packets.induct)
  case (1 u sc)
  have "irq_ok P (ps2_mouse_send_packet u sc)" using 1 send_packet_ok by simp
  then show ?case using 1 by (subst send_packets.simps) (simp add: Let_def)
qed

lemma mouse_event_ok: "irq_ok P sc \<Longrightarrow> irq_ok P (ps2_mouse_event upd sc dx dy dz buttons)"
proof -
  assume ok: "irq_ok P sc"
  obtain s c where sc: "sc = (s, c)" by fastforce
  have f: "irq_ok P (s\<lparr>mouse_dx := x, mouse_dy := y, mouse_dz := z\<rparr>, c)"
    "irq_ok P (s\<lparr>mouse_dx := x, mouse_dy := y, mouse_dz := z, mouse_buttons := b\<rparr>, c)" for x y z b
    using ok by (simp_all add: irq_ok_def sc)
  show ?thesis using ok f send_packets_ok [OF refl] by (simp add: ps2_mouse_event_def sc Let_def)
qed

lemma same_queue_ok:
  "irq_ok P (s, c) \<Longrightarrow> q_data s' = q_data s \<Longrightarrow> rptr s' = rptr s \<Longrightarrow> wptr s' = wptr s \<Longrightarrow> q_count s' = q_count s \<Longrightarrow> irq_ok P (s', c)"
  by (simp add: irq_ok_def q_ok_def)

lemma aux_command_ok:
  assumes ok: "irq_ok P sc"
  shows "irq_ok P (aux_command upd sc val)"
proof -
  obtain s c where sc: "sc = (s, c)" by fastforce
  show ?thesis
    using ok unfolding sc aux_command_def Let_def prod.case
    by (intro if_split [where P = "irq_ok P", THEN iffD2] conjI impI)
      (simp_all add: queue_ok queue_all_ok send_packet_ok same_queue_ok [of s c])
qed

lemma set_sample_ok: "irq_ok P (s, c) \<Longrightarrow> irq_ok P (set_sample s val, c)"
  by (rule same_queue_ok [of s c]) (simp_all add: set_sample_def Let_def)

lemma write_mouse_ok:
  assumes ok: "irq_ok P sc"
  shows "irq_ok P (ps2_write_mouse upd sc val)"
proof -
  obtain s c where sc: "sc = (s, c)" by fastforce
  have w: "irq_ok P (case ps2_queue upd (t, c) AUX_ACK of (s1, c1) \<Rightarrow> (s1\<lparr>write_cmd := -1\<rparr>, c1))" if "irq_ok P (t, c)" for t :: ps2_mouse
  proof (cases "ps2_queue upd (t, c) AUX_ACK")
    case (Pair s1 c1)
    then show ?thesis using queue_ok [OF that, of AUX_ACK] same_queue_ok [of s1 c1 "s1\<lparr>write_cmd := -1\<rparr>"] by simp
  qed
  show ?thesis
    using ok unfolding sc ps2_write_mouse_def Let_def prod.case
    by (intro if_split [where P = "irq_ok P", THEN iffD2] conjI impI)
      (simp_all add: w queue_ok aux_command_ok set_sample_ok same_queue_ok [of s c])
qed

end

section \<open>The controller\<close>

definition has_bit :: "u8 \<Rightarrow> u8 \<Rightarrow> bool" where
  "has_bit w b \<longleftrightarrow> w AND b \<noteq> 0"

text \<open>What the registers and the lines say, when the keyboard and when the mouse have bytes.\<close>

definition core_ok :: "kbd_core \<Rightarrow> bool \<Rightarrow> bool \<Rightarrow> bool" where
  "core_ok c k m \<longleftrightarrow> kc_pending c = (if k then 1 else 0) OR (if m then 2 else 0)
     \<and> has_bit (kc_status c) KBD_STAT_OBF = (k \<or> m) \<and> has_bit (kc_status c) KBD_STAT_MOUSE_OBF = (m \<and> \<not> k)
     \<and> irq_kbd c = (if k \<and> has_bit (kc_mode c) KBD_MODE_KBD_INT \<and> \<not> has_bit (kc_mode c) KBD_MODE_DISABLE_KBD then 1 else 0)
     \<and> irq_mouse c = (if m \<and> \<not> k \<and> has_bit (kc_mode c) KBD_MODE_MOUSE_INT then 1 else 0)"

lemma update_irq_ok:
  assumes "kc_pending c = (if k then 1 else 0) OR (if m then 2 else 0)"
  shows "core_ok (kbd_update_irq c) k m"
proof -
  have b: "bit (1 :: u8) n \<longleftrightarrow> n = 0" "bit (0x20 :: u8) n \<longleftrightarrow> n = 5" for n
    using bit_exp_iff [of 0 n, where 'a = u8] bit_exp_iff [of 5 n, where 'a = u8] by (auto simp: bit_1_iff)
  have m: "w AND 1 \<noteq> 0 \<longleftrightarrow> bit w 0" "w AND 0x20 \<noteq> 0 \<longleftrightarrow> bit w 5" for w :: u8
    using bit_iff_and_push_bit_not_eq_0 [of w 0] bit_iff_and_push_bit_not_eq_0 [of w 5] by simp_all
  show ?thesis
    using assms by (auto simp: core_ok_def kbd_update_irq_def has_bit_def Let_def m bit_or_iff bit_and_iff bit_not_iff b split: if_splits)
qed

lemma pending_ok:
  assumes "core_ok c k m"
  shows "core_ok (kbd_update_kbd_irq c 1) True m" "core_ok (kbd_update_kbd_irq c 0) False m"
    "core_ok (kbd_update_aux_irq c 1) k True" "core_ok (kbd_update_aux_irq c 0) k False"
proof -
  have p: "kc_pending c = (if k then 1 else 0) OR (if m then 2 else 0)" using assms by (simp add: core_ok_def)
  show "core_ok (kbd_update_kbd_irq c 1) True m" "core_ok (kbd_update_kbd_irq c 0) False m"
    "core_ok (kbd_update_aux_irq c 1) k True" "core_ok (kbd_update_aux_irq c 0) k False"
    unfolding kbd_update_kbd_irq_def kbd_update_aux_irq_def by (rule update_irq_ok, simp add: p)+
qed

interpretation kcb: irq_callback kbd_update_kbd_irq "\<lambda>c k. core_ok c k m" for m
  by unfold_locales (rule pending_ok, assumption)+

interpretation mcb: irq_callback kbd_update_aux_irq "\<lambda>c m. core_ok c k m" for k
  by unfold_locales (rule pending_ok, assumption)+

definition kbd_ok :: "kbd_state \<Rightarrow> bool" where
  "kbd_ok s \<longleftrightarrow> q_ok (kbd s) \<and> q_ok (mouse s) \<and> core_ok (core s) (q_count (kbd s) \<noteq> 0) (q_count (mouse s) \<noteq> 0)"

lemma kbd_ok_parts:
  "kbd_ok s \<longleftrightarrow> irq_ok (\<lambda>c k. core_ok c k (q_count (mouse s) \<noteq> 0)) (kbd s, core s) \<and> q_ok (mouse s)"
  "kbd_ok s \<longleftrightarrow> irq_ok (\<lambda>c m. core_ok c (q_count (kbd s) \<noteq> 0) m) (mouse s, core s) \<and> q_ok (kbd s)"
  by (auto simp: kbd_ok_def irq_ok_def)

lemma on_kbd_ok:
  assumes "kbd_ok s" "\<And>m sc. irq_ok (\<lambda>c k. core_ok c k m) sc \<Longrightarrow> irq_ok (\<lambda>c k. core_ok c k m) (f kbd_update_kbd_irq sc)"
  shows "kbd_ok (on_kbd f s)"
proof -
  obtain k c where f: "f kbd_update_kbd_irq (kbd s, core s) = (k, c)" by fastforce
  have "irq_ok (\<lambda>c k. core_ok c k (q_count (mouse s) \<noteq> 0)) (k, c)" using assms(2) [of _ "(kbd s, core s)"] assms(1) f by (simp add: kbd_ok_parts(1))
  then show ?thesis using assms(1) f by (simp add: on_kbd_def kbd_ok_def irq_ok_def)
qed

lemma on_mouse_ok:
  assumes "kbd_ok s" "\<And>k sc. irq_ok (\<lambda>c m. core_ok c k m) sc \<Longrightarrow> irq_ok (\<lambda>c m. core_ok c k m) (f kbd_update_aux_irq sc)"
  shows "kbd_ok (on_mouse f s)"
proof -
  obtain m c where f: "f kbd_update_aux_irq (mouse s, core s) = (m, c)" by fastforce
  have "irq_ok (\<lambda>c m. core_ok c (q_count (kbd s) \<noteq> 0) m) (m, c)" using assms(2) [of _ "(mouse s, core s)"] assms(1) f by (simp add: kbd_ok_parts(2))
  then show ?thesis using assms(1) f by (simp add: on_mouse_def kbd_ok_def irq_ok_def)
qed

lemma kbd_queue_ok: "kbd_ok s \<Longrightarrow> kbd_ok (kbd_queue s b aux)"
  by (simp add: kbd_queue_def on_kbd_ok on_mouse_ok kcb.queue_ok mcb.queue_ok)

lemma mode_ok:
  assumes "kbd_ok s"
  shows "kbd_ok (upd_core s (\<lambda>c. kbd_update_irq (c\<lparr>kc_mode := f c\<rparr>)))"
  using assms update_irq_ok [of "(core s)\<lparr>kc_mode := f (core s)\<rparr>"] by (simp add: kbd_ok_def upd_core_def core_ok_def)

lemma has_bit_other:
  assumes "b AND v = 0"
  shows "has_bit (w OR v) b = has_bit w b" "has_bit (w AND NOT v) b = has_bit w b"
proof -
  have "bit b n \<Longrightarrow> \<not> bit v n" for n using assms bit_and_iff [of b v n] by simp
  then have "(w OR v) AND b = w AND b" "(w AND NOT v) AND b = w AND b"
    by (auto intro!: bit_word_eqI simp: bit_or_iff bit_and_iff bit_not_iff)
  then show "has_bit (w OR v) b = has_bit w b" "has_bit (w AND NOT v) b = has_bit w b" by (simp_all add: has_bit_def)
qed

lemma core_ok_fields:
  "core_ok (c\<lparr>kc_write_cmd := w\<rparr>) k m = core_ok c k m"
  "core_ok (c\<lparr>kc_status := kc_status c OR KBD_STAT_SELFTEST\<rparr>) k m = core_ok c k m"
  "core_ok (c\<lparr>kc_mode := kc_mode c OR KBD_MODE_DISABLE_MOUSE\<rparr>) k m = core_ok c k m"
  "core_ok (c\<lparr>kc_mode := kc_mode c AND NOT KBD_MODE_DISABLE_MOUSE\<rparr>) k m = core_ok c k m"
  using has_bit_other [of 1 4 "kc_status c"] has_bit_other [of "0x20" 4 "kc_status c"] has_bit_other [of 1 "0x20" "kc_mode c"]
    has_bit_other [of 2 "0x20" "kc_mode c"] has_bit_other [of "0x10" "0x20" "kc_mode c"]
  by (simp_all add: core_ok_def)

lemma core_field_ok:
  assumes "kbd_ok s" "\<And>k m. core_ok (f (core s)) k m = core_ok (core s) k m"
  shows "kbd_ok (upd_core s f)"
  using assms by (simp add: kbd_ok_def upd_core_def)

lemma field_ok:
  assumes "kbd_ok s"
  shows "kbd_ok (upd_core s (\<lambda>c. c\<lparr>kc_write_cmd := w\<rparr>))" "kbd_ok (upd_core s (\<lambda>c. c\<lparr>kc_status := kc_status c OR KBD_STAT_SELFTEST\<rparr>))"
    "kbd_ok (upd_core s (\<lambda>c. c\<lparr>kc_mode := kc_mode c OR KBD_MODE_DISABLE_MOUSE\<rparr>))"
    "kbd_ok (upd_core s (\<lambda>c. c\<lparr>kc_mode := kc_mode c AND NOT KBD_MODE_DISABLE_MOUSE\<rparr>))"
  by (rule core_field_ok [OF assms], rule core_ok_fields)+

lemma command_ok:
  assumes "kbd_ok s" "kbd_write_command s val = Some s'"
  shows "kbd_ok s'"
  using assms field_ok [OF assms(1)] kbd_queue_ok mode_ok
  unfolding kbd_write_command_def by (auto split: if_split_asm simp del: kbd_state.update_convs)

lemma write_data_ok:
  assumes "kbd_ok s" "kbd_write_data s val = Some s'"
  shows "kbd_ok s'"
proof -
  obtain s1 where c: "kbd_write_data_cmd s val = Some s1" and s': "s' = upd_core s1 (\<lambda>c. c\<lparr>kc_write_cmd := 0\<rparr>)"
    using assms(2) by (auto simp: kbd_write_data_def)
  have "kbd_ok (s\<lparr>kbd := ps2_keyboard_set_translation (kbd s) mode\<rparr>)" for mode
    using assms(1) by (simp add: kbd_ok_def ps2_keyboard_set_translation_def q_ok_def)
  then have "kbd_ok s1"
    using assms(1) c mode_ok [of "s\<lparr>kbd := ps2_keyboard_set_translation (kbd s) mode\<rparr>" "\<lambda>_. ucast val" for mode]
    by (auto simp: kbd_write_data_cmd_def Let_def kbd_queue_ok on_kbd_ok on_mouse_ok kcb.write_keyboard_ok mcb.write_mouse_ok upd_core_def
        split: if_split_asm)
  then show ?thesis unfolding s' by (rule field_ok)
qed

lemma read_data_ok:
  assumes "kbd_ok s" "kbd_read_data s = (v, s')"
  shows "kbd_ok s'"
proof (cases "kc_pending (core s) = KBD_PENDING_AUX")
  case True
  obtain w m c where r: "ps2_read_data kbd_update_aux_irq (mouse s, core s) = (w, m, c)" by (cases "ps2_read_data kbd_update_aux_irq (mouse s, core s)")
  have "s' = s\<lparr>mouse := m, core := c\<rparr>" using assms(2) True r by (simp add: kbd_read_data_def)
  then show ?thesis using mcb.read_ok [OF _ r, of "q_count (kbd s) \<noteq> 0"] assms(1) by (simp add: kbd_ok_parts(2))
next
  case False
  obtain w k c where r: "ps2_read_data kbd_update_kbd_irq (kbd s, core s) = (w, k, c)" by (cases "ps2_read_data kbd_update_kbd_irq (kbd s, core s)")
  have "s' = s\<lparr>kbd := k, core := c\<rparr>" using assms(2) False r by (simp add: kbd_read_data_def)
  then show ?thesis using kcb.read_ok [OF _ r, of "q_count (mouse s) \<noteq> 0"] assms(1) by (simp add: kbd_ok_parts(1))
qed

section \<open>Runs\<close>

text \<open>Accesses of the guest to the two ports, and events of the host.\<close>

inductive kbd_step :: "kbd_state \<Rightarrow> kbd_state \<Rightarrow> bool" where
  port_read: "kbd_read_data s = (v, s') \<Longrightarrow> kbd_step s s'"
| port_write: "kbd_write_data s val = Some s' \<Longrightarrow> kbd_step s s'"
| port_command: "kbd_write_command s val = Some s' \<Longrightarrow> kbd_step s s'"
| key: "kbd_step s (on_kbd (\<lambda>upd sc. ps2_put_keycode upd sc pressed code) s)"
| move: "kbd_step s (on_mouse (\<lambda>upd sc. ps2_mouse_event upd sc dx dy dz buttons) s)"

inductive_cases kbd_stepE: "kbd_step s s'"

inductive kbd_run :: "kbd_state \<Rightarrow> bool" where
  init: "i8042_init port_map io_base opaque = Some (s, m) \<Longrightarrow> kbd_run s"
| step: "kbd_run s \<Longrightarrow> kbd_step s s' \<Longrightarrow> kbd_run s'"

lemma init_kbd_ok: "kbd_ok i8042_state"
  by (simp add: i8042_state_def kbd_ok_def q_ok_def ps2_kbd_init_def ps2_mouse_init_def ps2_reset_def core_ok_def kbd_reset_def
      has_bit_def PS2_QUEUE_SIZE_def)

lemma step_kbd_ok:
  assumes "kbd_step s s'" "kbd_ok s"
  shows "kbd_ok s'"
  using assms(1)
proof (cases rule: kbd_step.cases)
  case (port_read v)
  then show ?thesis using read_data_ok assms(2) by blast
next
  case (port_write val)
  then show ?thesis using write_data_ok assms(2) by blast
next
  case (port_command val)
  then show ?thesis using command_ok assms(2) by blast
next
  case (key pressed code)
  show ?thesis unfolding key by (rule on_kbd_ok [OF assms(2)]) (rule kcb.put_keycode_ok)
next
  case (move dx dy dz buttons)
  show ?thesis unfolding move by (rule on_mouse_ok [OF assms(2)]) (rule mcb.mouse_event_ok)
qed

lemma controller_ok: "kbd_run s \<Longrightarrow> kbd_ok s"
proof (induction rule: kbd_run.induct)
  case (init port_map io_base opaque s m)
  then show ?case using init_kbd_ok by (auto simp: i8042_init_def split: option.split_asm)
next
  case (step s s')
  then show ?case using step_kbd_ok by blast
qed

text \<open>C25: In every run of the keyboard controller, whatever the guest writes to its ports and whatever keys
  and movements the host delivers, the queues of both devices stay within their 256 bytes and their
  pointers within the ring; the controller's pending bits tell exactly which queues hold bytes; the
  output-buffer bits of the status register follow from them, the keyboard first; and each interrupt
  line is high exactly while its device's bytes are the ones to be read and its interrupt is enabled.
\<close>

theorem controller_consistent:
  assumes "kbd_run s"
  shows "q_ok (kbd s) \<and> q_ok (mouse s) \<and> core_ok (core s) (fifo (kbd s) \<noteq> []) (fifo (mouse s) \<noteq> [])"
  using controller_ok [OF assms] by (simp add: kbd_ok_def fifo_def)

text \<open>A key and a movement on a new controller.\<close>

lemma controller_consistent_witness:
  "\<exists>s m. i8042_init [] 0x60 0 = Some (s, m)
    \<and> (let t = on_kbd (\<lambda>upd sc. ps2_put_keycode upd sc True 30) s in q_ok (kbd t) \<and> core_ok (core t) True False)"
proof -
  obtain s m where i: "i8042_init [] 0x60 0 = Some (s, m)"
    by (simp add: i8042_init_def cpu_register_device_def iomem_consts)
  let ?t = "on_kbd (\<lambda>upd sc. ps2_put_keycode upd sc True 30) s"
  have s: "s = i8042_state" using i by (auto simp: i8042_init_def split: option.split_asm)
  have "kbd_run ?t"
    by (rule kbd_run.step [OF kbd_run.init [OF i] kbd_step.key])
  moreover have "fifo (kbd ?t) \<noteq> []" "fifo (mouse ?t) = []"
    by (simp_all add: s i8042_state_def on_kbd_def ps2_put_keycode_def ps2_queue_def ps2_kbd_init_def ps2_mouse_init_def ps2_reset_def
        PS2_QUEUE_SIZE_def fifo_def)
  ultimately show ?thesis using controller_consistent [of ?t] i by (auto simp: Let_def)
qed

section \<open>Reading the data port\<close>

text \<open>Consecutive reads of the data port.\<close>

fun kbd_reads :: "nat \<Rightarrow> kbd_state \<Rightarrow> u32 list \<times> kbd_state" where
  "kbd_reads 0 s = ([], s)"
| "kbd_reads (Suc n) s = (let (v, s1) = kbd_read_data s; (vs, s2) = kbd_reads n s1 in (v # vs, s2))"

lemma pending_aux: "kbd_ok s \<Longrightarrow> kc_pending (core s) = KBD_PENDING_AUX \<longleftrightarrow> q_count (kbd s) = 0 \<and> q_count (mouse s) \<noteq> 0"
  by (simp add: kbd_ok_def core_ok_def)

lemma read_data_step:
  assumes ok: "kbd_ok s" and b: "fifo (kbd s) @ fifo (mouse s) = b # bs"
  shows "\<exists>s'. kbd_read_data s = (ucast b, s') \<and> kbd_ok s' \<and> fifo (kbd s') @ fifo (mouse s') = bs"
proof (cases "q_count (kbd s) = 0")
  case True
  then have k: "fifo (kbd s) = []" by (simp add: fifo_def)
  then have "fifo (mouse s) \<noteq> []" using b by simp
  then have "q_count (mouse s) \<noteq> 0" by (auto simp: fifo_def)
  then have p: "kc_pending (core s) = KBD_PENDING_AUX" using pending_aux [OF ok] True by simp
  obtain v m c where r: "ps2_read_data kbd_update_aux_irq (mouse s, core s) = (v, m, c)" by (cases "ps2_read_data kbd_update_aux_irq (mouse s, core s)")
  then have "ps2_deq (mouse s) = (v, m)" using read_deq [of kbd_update_aux_irq "mouse s" "core s"] by simp
  then have "v = b" "fifo m = bs" using fifo.entries_deq [of "mouse s"] ok b k by (auto simp: kbd_ok_def)
  moreover have "kbd_read_data s = (ucast v, s\<lparr>mouse := m, core := c\<rparr>)" using p r by (simp add: kbd_read_data_def)
  ultimately show ?thesis using read_data_ok [OF ok] k by auto
next
  case False
  then have p: "kc_pending (core s) \<noteq> KBD_PENDING_AUX" and ne: "fifo (kbd s) \<noteq> []" using pending_aux [OF ok] by (auto simp: fifo_def)
  obtain v k c where r: "ps2_read_data kbd_update_kbd_irq (kbd s, core s) = (v, k, c)" by (cases "ps2_read_data kbd_update_kbd_irq (kbd s, core s)")
  then have "ps2_deq (kbd s) = (v, k)" using read_deq [of kbd_update_kbd_irq "kbd s" "core s"] by simp
  then have "v = b" "fifo k @ fifo (mouse s) = bs" using fifo.entries_deq [of "kbd s"] ok b ne by (auto simp: kbd_ok_def neq_Nil_conv)
  moreover have "kbd_read_data s = (ucast v, s\<lparr>kbd := k, core := c\<rparr>)" using p r by (simp add: kbd_read_data_def)
  ultimately show ?thesis using read_data_ok [OF ok] by auto
qed

lemma reads_all:
  "kbd_ok s \<Longrightarrow> fifo (kbd s) @ fifo (mouse s) = bs \<Longrightarrow>
    \<exists>s'. kbd_reads (length bs) s = (map ucast bs, s') \<and> kbd_ok s' \<and> fifo (kbd s') @ fifo (mouse s') = []"
proof (induction bs arbitrary: s)
  case (Cons b bs)
  obtain s1 where s1: "kbd_read_data s = (ucast b, s1)" "kbd_ok s1" "fifo (kbd s1) @ fifo (mouse s1) = bs"
    using read_data_step [OF Cons.prems] by blast
  then show ?case using Cons.IH [OF s1(2,3)] by auto
qed auto

text \<open>C26: In every run, the guest that reads the data port as many times as there are bytes gets all the
  bytes of the keyboard, in the order in which they came, then all those of the mouse; then the
  output buffer is empty and both interrupt lines are low.
\<close>

theorem data_port_drains:
  assumes "kbd_run s"
  shows "\<exists>s'. kbd_reads (q_count (kbd s) + q_count (mouse s)) s = (map ucast (fifo (kbd s) @ fifo (mouse s)), s')
    \<and> fifo (kbd s') = [] \<and> fifo (mouse s') = [] \<and> \<not> has_bit (kc_status (core s')) KBD_STAT_OBF
    \<and> irq_kbd (core s') = 0 \<and> irq_mouse (core s') = 0"
proof -
  obtain s' where s': "kbd_reads (length (fifo (kbd s) @ fifo (mouse s))) s = (map ucast (fifo (kbd s) @ fifo (mouse s)), s')"
    "kbd_ok s'" "fifo (kbd s') @ fifo (mouse s') = []"
    using reads_all [OF controller_ok [OF assms] refl] by blast
  moreover have "q_count (kbd s') = 0" "q_count (mouse s') = 0" using s'(3) length_fifo [of "kbd s'"] length_fifo [of "mouse s'"] by auto
  ultimately show ?thesis by (auto simp: kbd_ok_def core_ok_def)
qed

lemma data_port_drains_witness:
  "\<exists>s m s'. i8042_init [] 0x60 0 = Some (s, m)
    \<and> kbd_reads 1 (on_kbd (\<lambda>upd sc. ps2_put_keycode upd sc True 30) s) = ([30], s')"
proof -
  obtain s m where i: "i8042_init [] 0x60 0 = Some (s, m)"
    by (simp add: i8042_init_def cpu_register_device_def iomem_consts)
  let ?t = "on_kbd (\<lambda>upd sc. ps2_put_keycode upd sc True 30) s"
  have s: "s = i8042_state" using i by (auto simp: i8042_init_def split: option.split_asm)
  have t: "q_count (kbd ?t) = 1" "q_count (mouse ?t) = 0" "fifo (kbd ?t) = [30]"
    by (simp_all add: s i8042_state_def on_kbd_def ps2_put_keycode_def ps2_queue_def ps2_kbd_init_def ps2_mouse_init_def ps2_reset_def
        PS2_QUEUE_SIZE_def fifo_def)
  have "kbd_run ?t" by (rule kbd_run.step [OF kbd_run.init [OF i] kbd_step.key])
  from data_port_drains [OF this] show ?thesis using i t by (auto simp: fifo_def)
qed

end
