(* ===== verification/Pci.thy ===== *)
theory Pci
  imports Cutils Iomem
begin

text \<open>
  \<open>pci.c\<close>: the PCI bus, the configuration space of its devices, and the i440FX host bridge, whose
  interrupt router is the only owner of a bus. The callbacks of the devices and the interrupt
  controller behind the bridge change a state \<open>'w\<close>, the rest of the machine.
\<close>

section \<open>State\<close>

abbreviation (input) PCI_ADDRESS_SPACE_IO :: u8 where "PCI_ADDRESS_SPACE_IO \<equiv> 0x01"
definition PCI_ROM_SLOT :: nat where "PCI_ROM_SLOT = 6"
definition PCI_NUM_REGIONS :: nat where "PCI_NUM_REGIONS = 7"
abbreviation (input) PCI_COMMAND :: u64 where "PCI_COMMAND \<equiv> 0x04"
abbreviation (input) PCI_COMMAND_IO :: u16 where "PCI_COMMAND_IO \<equiv> 1"
abbreviation (input) PCI_COMMAND_MEMORY :: u16 where "PCI_COMMAND_MEMORY \<equiv> 2"
abbreviation (input) PCI_STATUS :: u64 where "PCI_STATUS \<equiv> 0x06"
abbreviation (input) PCI_STATUS_CAP_LIST :: u8 where "PCI_STATUS_CAP_LIST \<equiv> 0x10"
abbreviation (input) PCI_SUBSYSTEM_VENDOR_ID :: u64 where "PCI_SUBSYSTEM_VENDOR_ID \<equiv> 0x2c"
abbreviation (input) PCI_SUBSYSTEM_ID :: u64 where "PCI_SUBSYSTEM_ID \<equiv> 0x2e"
abbreviation (input) PCI_CAPABILITY_LIST :: u64 where "PCI_CAPABILITY_LIST \<equiv> 0x34"
abbreviation (input) PCI_INTERRUPT_LINE :: u64 where "PCI_INTERRUPT_LINE \<equiv> 0x3c"
abbreviation (input) PCI_INTERRUPT_PIN :: u64 where "PCI_INTERRUPT_PIN \<equiv> 0x3d"

text \<open>\<open>PCIIORegion\<close>; \<open>r_bar_set\<close> is the callback with its \<open>opaque\<close>.\<close>

record 'w io_region =
  r_size :: u32
  r_type :: u8
  r_enabled :: bool
  r_bar_set :: "nat \<Rightarrow> u32 \<Rightarrow> bool \<Rightarrow> 'w \<Rightarrow> 'w"

text \<open>\<open>config\<close> has 256 bytes.\<close>

record 'w pci_device =
  devfn :: u8
  config :: "u64 \<Rightarrow> u8"
  next_cap_offset :: u8
  io_regions :: "'w io_region list"

record 'w pci_bus =
  bus_num :: int
  device :: "nat \<Rightarrow> 'w pci_device option"
  irq_state :: "nat \<Rightarrow> nat \<Rightarrow> u32"

section \<open>Devices\<close>

definition bus_map_irq :: "'w pci_device \<Rightarrow> int \<Rightarrow> int" where
  "bus_map_irq d pin = (pin + (int (unat (drop_bit 3 (devfn d))) - 1)) AND 3"

definition no_region :: "'w io_region" where
  "no_region = \<lparr>r_size = 0, r_type = 0, r_enabled = False, r_bar_set = (\<lambda>_ _ _ w. w)\<rparr>"

fun devfn_search :: "'w pci_bus \<Rightarrow> nat list \<Rightarrow> nat option" where
  "devfn_search b [] = None"
| "devfn_search b (k # ks) = (if device b k = None then Some k else devfn_search b ks)"

definition devfn_alloc :: "'w pci_bus \<Rightarrow> nat option" where
  "devfn_alloc b = devfn_search b (map (\<lambda>i. 8 * i) [0..<32])"

definition new_device :: "nat \<Rightarrow> u16 \<Rightarrow> u16 \<Rightarrow> u8 \<Rightarrow> u16 \<Rightarrow> 'w pci_device" where
  "new_device k vendor_id device_id revision class_id =
     (let c0 = (\<lambda>_. 0); c1 = put_le16 c0 0x00 vendor_id; c2 = put_le16 c1 0x02 device_id;
          c3 = put_le16 (c2(0x08 := revision)) 0x0a class_id
      in \<lparr>devfn = of_nat k, config = c3(0x0e := 0x00), next_cap_offset = 0x40, io_regions = replicate PCI_NUM_REGIONS no_region\<rparr>)"

text \<open>\<open>None\<close> is the null pointer, and a number that a bus has no device for.\<close>

definition pci_register_device ::
  "'w pci_bus \<Rightarrow> int \<Rightarrow> u16 \<Rightarrow> u16 \<Rightarrow> u8 \<Rightarrow> u16 \<Rightarrow> ('w pci_bus \<times> nat) option" where
  "pci_register_device b fn vendor_id device_id revision class_id =
     (case (if fn < 0 then devfn_alloc b else if fn < 256 then Some (nat fn) else None) of
        None \<Rightarrow> None
      | Some k \<Rightarrow>
          if device b k \<noteq> None then None
          else Some (b\<lparr>device := (device b)(k \<mapsto> new_device k vendor_id device_id revision class_id)\<rparr>, k))"

definition pci_device_config_read :: "'w pci_device \<Rightarrow> u64 \<Rightarrow> nat \<Rightarrow> u32" where
  "pci_device_config_read d addr size_log2 =
     (if size_log2 = 0 then ucast (config d addr)
      else if size_log2 = 1 then (if addr \<le> 0xfe then ucast (get_le16 (config d) addr) else ucast (config d addr))
      else get_le32 (config d) addr)"

definition bar_addr :: "nat \<Rightarrow> u64" where
  "bar_addr i = (if i = PCI_ROM_SLOT then 0x30 else 0x10 + 4 * of_nat i)"

text \<open>The assertions are \<open>None\<close>.\<close>

definition pci_register_bar ::
  "'w pci_device \<Rightarrow> nat \<Rightarrow> u32 \<Rightarrow> u8 \<Rightarrow> (nat \<Rightarrow> u32 \<Rightarrow> bool \<Rightarrow> 'w \<Rightarrow> 'w) \<Rightarrow> 'w pci_device option" where
  "pci_register_bar d bar sz ty f =
     (if bar < PCI_NUM_REGIONS \<and> sz AND (sz - 1) = 0 \<and> sz \<ge> 4 \<and> r_size (io_regions d ! bar) = 0 then
        Some (d\<lparr>io_regions := (io_regions d)[bar := \<lparr>r_size = sz, r_type = ty, r_enabled = False, r_bar_set = f\<rparr>],
                config := put_le32 (config d) (bar_addr bar) (if bar = PCI_ROM_SLOT then 0 else ucast ty)\<rparr>)
      else None)"

section \<open>Mappings\<close>

text \<open>Whether the configuration space asks for the region \<open>i\<close>.\<close>

definition bar_wanted :: "'w pci_device \<Rightarrow> nat \<Rightarrow> bool" where
  "bar_wanted d i =
     (let r = io_regions d ! i; cmd = get_le16 (config d) PCI_COMMAND; new_addr = get_le32 (config d) (bar_addr i)
      in r_size r \<noteq> 0 \<and>
         (if c_true (r_type r AND PCI_ADDRESS_SPACE_IO) \<and> c_true (cmd AND PCI_COMMAND_IO) then True
          else if c_true (cmd AND PCI_COMMAND_MEMORY) then (if i = PCI_ROM_SLOT then c_true (new_addr AND 1) else True)
          else False))"

definition bar_base :: "'w pci_device \<Rightarrow> nat \<Rightarrow> u32" where
  "bar_base d i = get_le32 (config d) (bar_addr i) AND NOT (r_size (io_regions d ! i) - 1)"

definition set_enabled :: "'w pci_device \<Rightarrow> nat \<Rightarrow> bool \<Rightarrow> 'w pci_device" where
  "set_enabled d i e = d\<lparr>io_regions := (io_regions d)[i := (io_regions d ! i)\<lparr>r_enabled := e\<rparr>]\<rparr>"

definition pci_update_mapping :: "'w pci_device \<times> 'w \<Rightarrow> nat \<Rightarrow> 'w pci_device \<times> 'w" where
  "pci_update_mapping dw i =
     (let (d, w) = dw; r = io_regions d ! i
      in if bar_wanted d i then (set_enabled d i True, r_bar_set r i (bar_base d i) True w)
         else if r_enabled r then (set_enabled d i False, r_bar_set r i 0 False w)
         else (d, w))"

definition pci_update_mappings :: "'w pci_device \<times> 'w \<Rightarrow> 'w pci_device \<times> 'w" where
  "pci_update_mappings dw = foldl pci_update_mapping dw [0..<PCI_NUM_REGIONS]"

text \<open>The value of a write to a base address register; \<open>None\<close> where the write is not handled.\<close>

definition pci_write_bar :: "'w pci_device \<times> 'w \<Rightarrow> u64 \<Rightarrow> u32 \<Rightarrow> ('w pci_device \<times> 'w) option" where
  "pci_write_bar dw addr val =
     (let (d, w) = dw; reg = (if addr = 0x30 then PCI_ROM_SLOT else unat (drop_bit 2 (addr - 0x10))); r = io_regions d ! reg
      in if r_size r = 0 then None
         else
           let v = (if reg = PCI_ROM_SLOT then val AND (NOT (r_size r - 1) OR 1) else (val AND NOT (r_size r - 1)) OR ucast (r_type r))
           in Some (pci_update_mappings (d\<lparr>config := put_le32 (config d) addr v\<rparr>, w)))"

section \<open>Writes to the configuration space\<close>

definition ro_common :: "u64 list" where
  "ro_common = [0x00, 0x01, 0x02, 0x03, 0x08, 0x09, 0x0a, 0x0b, 0x0e, 0x3d]"

text \<open>The bytes that a write cannot change, by the header type.\<close>

definition config_read_only :: "u8 \<Rightarrow> u64 \<Rightarrow> bool" where
  "config_read_only header addr \<longleftrightarrow> addr \<in> set ro_common
     \<or> (if header = 0x00 \<or> header = 0x80 then (0x10 \<le> addr \<and> addr \<le> 0x27) \<or> (0x30 \<le> addr \<and> addr \<le> 0x33)
        else 0x38 \<le> addr \<and> addr \<le> 0x3b)"

definition pci_device_config_write8 :: "'w pci_device \<Rightarrow> u64 \<Rightarrow> u8 \<Rightarrow> 'w pci_device" where
  "pci_device_config_write8 d addr data =
     (if addr = PCI_STATUS \<or> addr = PCI_STATUS + 1 then d\<lparr>config := (config d)(addr := config d addr AND NOT data)\<rparr>
      else if config_read_only (config d 0x0e) addr then d
      else d\<lparr>config := (config d)(addr := data)\<rparr>)"

definition config_write_byte :: "u64 \<Rightarrow> u32 \<Rightarrow> 'w pci_device \<Rightarrow> nat \<Rightarrow> 'w pci_device" where
  "config_write_byte addr data d i =
     (let addr1 = addr + of_nat i
      in if addr1 \<le> 0xff then pci_device_config_write8 d addr1 (ucast (drop_bit (i * 8) data)) else d)"

definition pci_device_config_write :: "'w pci_device \<times> 'w \<Rightarrow> u64 \<Rightarrow> u32 \<Rightarrow> nat \<Rightarrow> 'w pci_device \<times> 'w" where
  "pci_device_config_write dw addr data size_log2 =
     (case (if size_log2 = 2 \<and> (addr \<ge> 0x10 \<and> addr < 0x10 + 4 * 6 \<or> addr = 0x30) then pci_write_bar dw addr data else None) of
        Some dw1 \<Rightarrow> dw1
      | None \<Rightarrow>
          let size = 2 ^ size_log2; d1 = foldl (config_write_byte addr data) (fst dw) [0..<size]
          in if PCI_COMMAND \<ge> addr \<and> PCI_COMMAND < addr + of_nat size then pci_update_mappings (d1, snd dw)
             else (d1, snd dw))"

definition pci_device_set_config8 :: "'w pci_device \<Rightarrow> u8 \<Rightarrow> u8 \<Rightarrow> 'w pci_device" where
  "pci_device_set_config8 d addr val = d\<lparr>config := (config d)(ucast addr := val)\<rparr>"

definition pci_device_set_config16 :: "'w pci_device \<Rightarrow> u8 \<Rightarrow> u16 \<Rightarrow> 'w pci_device" where
  "pci_device_set_config16 d addr val = d\<lparr>config := put_le16 (config d) (ucast addr) val\<rparr>"

section \<open>Capabilities\<close>

definition copy_config :: "(u64 \<Rightarrow> u8) \<Rightarrow> u64 \<Rightarrow> u8 list \<Rightarrow> (u64 \<Rightarrow> u8)" where
  "copy_config c offset bytes = (\<lambda>a. if unat (a - offset) < length bytes then bytes ! unat (a - offset) else c a)"

text \<open>The offset of the next capability is a byte: it wraps around when the space is used up.\<close>

definition pci_add_capability :: "'w pci_device \<Rightarrow> u8 list \<Rightarrow> int \<times> 'w pci_device" where
  "pci_add_capability d bytes =
     (let offset = next_cap_offset d
      in if unat offset + length bytes > 256 then (-1, d)
         else
           let c1 = (config d)(PCI_STATUS := config d PCI_STATUS OR PCI_STATUS_CAP_LIST);
               c2 = copy_config c1 (ucast offset) bytes;
               c3 = c2(ucast offset + 1 := c2 PCI_CAPABILITY_LIST)
           in (int (unat offset),
               d\<lparr>next_cap_offset := offset + of_nat (length bytes), config := c3(PCI_CAPABILITY_LIST := offset)\<rparr>))"

section \<open>The bus\<close>

definition val_ones :: "nat \<Rightarrow> u32" where
  "val_ones size_log2 = (if size_log2 = 0 then 0xff else if size_log2 = 1 then 0xffff else 0xffffffff)"

definition addr_bus :: "u32 \<Rightarrow> int" where "addr_bus addr = int (unat (drop_bit 16 addr AND 0xff))"
definition addr_devfn :: "u32 \<Rightarrow> nat" where "addr_devfn addr = unat (drop_bit 8 addr AND 0xff)"
definition addr_config :: "u32 \<Rightarrow> u64" where "addr_config addr = ucast (addr AND 0xff)"

definition pci_data_write :: "'w pci_bus \<times> 'w \<Rightarrow> u32 \<Rightarrow> u32 \<Rightarrow> nat \<Rightarrow> 'w pci_bus \<times> 'w" where
  "pci_data_write bw addr data size_log2 =
     (let (b, w) = bw
      in if addr_bus addr \<noteq> bus_num b then (b, w)
         else
           case device b (addr_devfn addr) of
             None \<Rightarrow> (b, w)
           | Some d \<Rightarrow>
               let (d1, w1) = pci_device_config_write (d, w) (addr_config addr) data size_log2
               in (b\<lparr>device := (device b)(addr_devfn addr \<mapsto> d1)\<rparr>, w1))"

definition pci_data_read :: "'w pci_bus \<Rightarrow> u32 \<Rightarrow> nat \<Rightarrow> u32" where
  "pci_data_read b addr size_log2 =
     (if addr_bus addr \<noteq> bus_num b then val_ones size_log2
      else
        case device b (addr_devfn addr) of
          None \<Rightarrow> val_ones size_log2
        | Some d \<Rightarrow> pci_device_config_read d (addr_config addr) size_log2)"

section \<open>The i440FX host bridge\<close>

text \<open>\<open>I440FXState\<close> with its bus; \<open>pic_irqs\<close> is \<open>set_irq\<close> on the 16 lines of the interrupt controller.\<close>

record 'w i440fx =
  pci_bus :: "'w pci_bus"
  piix3_dev :: nat
  config_reg :: u32
  pic_irq_state :: "u8 list"
  pic_irqs :: "nat \<Rightarrow> int \<Rightarrow> 'w \<Rightarrow> 'w"
  world :: 'w

definition i440fx_write_addr :: "'w i440fx \<Rightarrow> u32 \<Rightarrow> 'w i440fx" where
  "i440fx_write_addr s data = s\<lparr>config_reg := data\<rparr>"

definition i440fx_read_addr :: "'w i440fx \<Rightarrow> u32" where
  "i440fx_read_addr s = config_reg s"

definition config_target :: "'w i440fx \<Rightarrow> u32 \<Rightarrow> nat \<Rightarrow> u32" where
  "config_target s offset size_log2 = (if size_log2 = 2 then config_reg s AND NOT 3 else config_reg s OR offset)"

definition i440fx_write_data :: "'w i440fx \<Rightarrow> u32 \<Rightarrow> u32 \<Rightarrow> nat \<Rightarrow> 'w i440fx" where
  "i440fx_write_data s offset data size_log2 =
     (if c_true (config_reg s AND 0x80000000) then
        let (b, w) = pci_data_write (pci_bus s, world s) (config_target s offset size_log2) data size_log2
        in s\<lparr>pci_bus := b, world := w\<rparr>
      else s)"

definition i440fx_read_data :: "'w i440fx \<Rightarrow> u32 \<Rightarrow> nat \<Rightarrow> u32" where
  "i440fx_read_data s offset size_log2 =
     (if \<not> c_true (config_reg s AND 0x80000000) then val_ones size_log2
      else pci_data_read (pci_bus s) (config_target s offset size_log2) size_log2)"

definition upd_config :: "'w pci_bus \<Rightarrow> nat \<Rightarrow> ((u64 \<Rightarrow> u8) \<Rightarrow> (u64 \<Rightarrow> u8)) \<Rightarrow> 'w pci_bus" where
  "upd_config b k f = b\<lparr>device := (device b)(k := map_option (\<lambda>d. d\<lparr>config := f (config d)\<rparr>) (device b k))\<rparr>"

definition piix3_config :: "'w i440fx \<Rightarrow> u64 \<Rightarrow> u8" where
  "piix3_config s a = (case device (pci_bus s) (piix3_dev s) of None \<Rightarrow> 0 | Some d \<Rightarrow> config d a)"

definition i440fx_set_irq :: "'w i440fx \<Rightarrow> nat \<Rightarrow> int \<Rightarrow> 'w i440fx" where
  "i440fx_set_irq s n level =
     (let a = 0x60 + of_nat n;
          s1 = s\<lparr>pci_bus := upd_config (pci_bus s) (piix3_dev s) (\<lambda>c. c(a := c a AND NOT 0x80))\<rparr>;
          pic_irq = unat (piix3_config s1 a)
      in if pic_irq < 16 then
           let st = (if level \<noteq> 0 then pic_irq_state s1 ! pic_irq OR push_bit n 1
                     else pic_irq_state s1 ! pic_irq AND NOT (push_bit n 1))
           in s1\<lparr>pic_irq_state := (pic_irq_state s1)[pic_irq := st],
                 world := pic_irqs s1 pic_irq (if st \<noteq> 0 then 1 else 0) (world s1)\<rparr>
         else s1)"

text \<open>The lines of the bus are those of the bridge.\<close>

definition pci_device_set_irq :: "'w i440fx \<Rightarrow> 'w pci_device \<Rightarrow> int \<Rightarrow> int \<Rightarrow> 'w i440fx" where
  "pci_device_set_irq s d pin level =
     (let n = nat (bus_map_irq d pin);
          mask = push_bit (unat (devfn d AND 0x1f)) (1 :: u32);
          k = unat (drop_bit 5 (devfn d));
          st = irq_state (pci_bus s);
          st1 = st(n := (st n)(k := (if level \<noteq> 0 then st n k OR mask else st n k AND NOT mask)));
          all = foldl (\<lambda>m i. m OR st1 n i) 0 [0..<8];
          s1 = s\<lparr>pci_bus := (pci_bus s)\<lparr>irq_state := st1\<rparr>\<rparr>
      in i440fx_set_irq s1 n (if all \<noteq> 0 then 1 else 0))"

text \<open>The bridge and the PIIX3, and the two ports; \<open>opaque\<close> names the bridge in the port map.\<close>

definition i440fx_init :: "phys_mem_map \<Rightarrow> nat \<Rightarrow> (nat \<Rightarrow> int \<Rightarrow> 'w \<Rightarrow> 'w) \<Rightarrow> 'w \<Rightarrow> ('w i440fx \<times> phys_mem_map) option" where
  "i440fx_init port_map opaque pics w =
     (case cpu_register_device port_map 0xcf8 1 opaque DEVIO_SIZE32 of
        None \<Rightarrow> None
      | Some (m1, _) \<Rightarrow>
          (case cpu_register_device m1 0xcfc 4 opaque (DEVIO_SIZE8 OR DEVIO_SIZE16 OR DEVIO_SIZE32) of
             None \<Rightarrow> None
           | Some (m2, _) \<Rightarrow>
               let b = \<lparr>bus_num = 0, device = (\<lambda>_. None), irq_state = (\<lambda>_ _. 0)\<rparr>
               in case pci_register_device b 0 0x8086 0x1237 0x02 0x0600 of
                    None \<Rightarrow> None
                  | Some (b1, k) \<Rightarrow>
                      let b2 = upd_config b1 k (\<lambda>c. put_le16 (put_le16 c PCI_SUBSYSTEM_VENDOR_ID 0x1af4) PCI_SUBSYSTEM_ID 0x1100)
                      in case pci_register_device b2 8 0x8086 0x7000 0x00 0x0601 of
                           None \<Rightarrow> None
                         | Some (b3, p) \<Rightarrow>
                             Some (\<lparr>pci_bus = upd_config b3 p (\<lambda>c. c(0x0e := 0x80)), piix3_dev = p, config_reg = 0,
                                     pic_irq_state = replicate 16 0, pic_irqs = pics, world = w\<rparr>, m2)))"

text \<open>The routing of the interrupts when there is no BIOS; \<open>elcr\<close> are the two bytes of the level register.\<close>

definition map_pirq :: "(u64 \<Rightarrow> u8) \<times> u8 list \<Rightarrow> nat \<times> u8 \<Rightarrow> (u64 \<Rightarrow> u8) \<times> u8 list" where
  "map_pirq ce iq =
     (let (c, elcr) = ce; (i, irq) = iq; k = unat (drop_bit 3 irq)
      in (c(0x60 + of_nat i := irq), elcr[k := elcr ! k OR push_bit (unat (irq AND 7)) 1]))"

definition line_of :: "(u64 \<Rightarrow> u8) \<Rightarrow> 'w pci_device \<Rightarrow> (u64 \<Rightarrow> u8)" where
  "line_of hd_config d =
     (let c = config d; pic_irq = hd_config (0x60 + of_nat (nat (bus_map_irq d 0)))
      in if c_true (c PCI_INTERRUPT_PIN) \<and> unat pic_irq < 16 then c(PCI_INTERRUPT_LINE := pic_irq) else c)"

definition i440fx_map_interrupts :: "'w i440fx \<Rightarrow> u8 list \<Rightarrow> 'w i440fx \<times> u8 list" where
  "i440fx_map_interrupts s pci_irqs =
     (let (c, elcr) = foldl map_pirq (piix3_config s, [0, 0]) (zip [0..<4] pci_irqs);
          b1 = upd_config (pci_bus s) (piix3_dev s) (\<lambda>_. c);
          b2 = b1\<lparr>device := (\<lambda>k. map_option (\<lambda>d. d\<lparr>config := line_of c d\<rparr>) (device b1 k))\<rparr>
      in (s\<lparr>pci_bus := b2\<rparr>, elcr))"

end
