(* ===== verification/PciSpec.thy ===== *)
theory PciSpec
  imports Pci
begin

text \<open>
  The configuration space of a PCI device: what a guest can change in it, the sizing of its base
  address registers, and the list of its capabilities.
\<close>

section \<open>What a write leaves as it is\<close>

lemma write8_frame:
  "config_read_only (config d 0x0e) x \<and> x \<noteq> PCI_STATUS \<and> x \<noteq> PCI_STATUS + 1 \<or> x \<noteq> a \<Longrightarrow> config (pci_device_config_write8 d a v) x = config d x"
  "io_regions (pci_device_config_write8 d a v) = io_regions d" "devfn (pci_device_config_write8 d a v) = devfn d"
  "next_cap_offset (pci_device_config_write8 d a v) = next_cap_offset d"
  by (auto simp: pci_device_config_write8_def)

lemma header_read_only: "config_read_only h 0x0e"
  by (simp add: config_read_only_def ro_common_def)

lemma byte_frame:
  "config_read_only (config d 0x0e) x \<and> x \<noteq> PCI_STATUS \<and> x \<noteq> PCI_STATUS + 1 \<or> x \<noteq> addr + of_nat i \<Longrightarrow> config (config_write_byte addr data d i) x = config d x"
  "io_regions (config_write_byte addr data d i) = io_regions d" "devfn (config_write_byte addr data d i) = devfn d"
  "next_cap_offset (config_write_byte addr data d i) = next_cap_offset d"
  by (auto simp: config_write_byte_def Let_def write8_frame)

lemma byte_header: "config (config_write_byte addr data d i) 0x0e = config d 0x0e"
  by (rule byte_frame(1)) (simp add: header_read_only)

lemma bytes_frame:
  "config_read_only (config d 0x0e) x \<and> x \<noteq> PCI_STATUS \<and> x \<noteq> PCI_STATUS + 1 \<or> (\<forall>i \<in> set is. x \<noteq> addr + of_nat i)
    \<Longrightarrow> config (foldl (config_write_byte addr data) d is) x = config d x"
  "io_regions (foldl (config_write_byte addr data) d is) = io_regions d" "devfn (foldl (config_write_byte addr data) d is) = devfn d"
  "next_cap_offset (foldl (config_write_byte addr data) d is) = next_cap_offset d"
proof (induction "is" arbitrary: d)
  case (Cons i "is")
  {
    case 1
    have "config (config_write_byte addr data d i) x = config d x" by (rule byte_frame(1)) (use 1 in auto)
    moreover have "config (foldl (config_write_byte addr data) (config_write_byte addr data d i) is) x = config (config_write_byte addr data d i) x"
      by (rule Cons.IH(1)) (use 1 in \<open>auto simp: byte_header\<close>)
    ultimately show ?case by simp
  next
    case 2
    show ?case using Cons.IH(2) byte_frame(2) by simp
  next
    case 3
    show ?case using Cons.IH(3) byte_frame(3) by simp
  next
    case 4
    show ?case using Cons.IH(4) byte_frame(4) by simp
  }
qed simp_all

lemma set_enabled_frame [simp]:
  "config (set_enabled d i e) = config d" "devfn (set_enabled d i e) = devfn d" "next_cap_offset (set_enabled d i e) = next_cap_offset d"
  "length (io_regions (set_enabled d i e)) = length (io_regions d)"
  "r_size (io_regions (set_enabled d i e) ! j) = r_size (io_regions d ! j)"
  "r_type (io_regions (set_enabled d i e) ! j) = r_type (io_regions d ! j)"
  "r_bar_set (io_regions (set_enabled d i e) ! j) = r_bar_set (io_regions d ! j)"
  by (cases "i < length (io_regions d)"; cases "i = j"; simp add: set_enabled_def list_update_beyond)+

definition same_layout :: "'w pci_device \<Rightarrow> 'w pci_device \<Rightarrow> bool" where
  "same_layout d d' \<longleftrightarrow> devfn d' = devfn d \<and> next_cap_offset d' = next_cap_offset d \<and> length (io_regions d') = length (io_regions d)
     \<and> (\<forall>j. r_size (io_regions d' ! j) = r_size (io_regions d ! j) \<and> r_type (io_regions d' ! j) = r_type (io_regions d ! j)
          \<and> r_bar_set (io_regions d' ! j) = r_bar_set (io_regions d ! j))"

lemma same_layout_refl [simp, intro]: "same_layout d d"
  by (simp add: same_layout_def)

lemma same_layout_trans [trans]: "same_layout d d' \<Longrightarrow> same_layout d' d'' \<Longrightarrow> same_layout d d''"
  by (simp add: same_layout_def)

lemma update_mapping_frame:
  "config (fst (pci_update_mapping dw i)) = config (fst dw)" "same_layout (fst dw) (fst (pci_update_mapping dw i))"
  by (auto simp: pci_update_mapping_def same_layout_def Let_def split: prod.split)

lemma update_mappings_frame:
  "config (fst (pci_update_mappings dw)) = config (fst dw)" "same_layout (fst dw) (fst (pci_update_mappings dw))"
proof -
  have "config (fst (foldl pci_update_mapping dw xs)) = config (fst dw) \<and> same_layout (fst dw) (fst (foldl pci_update_mapping dw xs))" for xs
  proof (induction xs arbitrary: dw)
    case (Cons x xs)
    then show ?case using update_mapping_frame [of dw x] same_layout_trans by (simp del: split_paired_All) blast
  qed simp
  then show "config (fst (pci_update_mappings dw)) = config (fst dw)" "same_layout (fst dw) (fst (pci_update_mappings dw))"
    by (simp_all add: pci_update_mappings_def)
qed

section \<open>Base address registers\<close>

text \<open>What a guest reads back after writing \<open>v\<close>.\<close>

definition bar_value :: "'w io_region \<Rightarrow> u32 \<Rightarrow> u32" where
  "bar_value r v = (v AND NOT (r_size r - 1)) OR ucast (r_type r)"

definition bar_size_of :: "u32 \<Rightarrow> u8 \<Rightarrow> u32" where
  "bar_size_of v ty = NOT (v AND NOT (ucast ty)) + 1"

lemma bar_size_ones:
  assumes "ucast (r_type r) AND (r_size r - 1) = ucast (r_type r)"
  shows "bar_size_of (bar_value r (-1)) (r_type r) = r_size r"
proof -
  have "bar_value r (-1) AND NOT (ucast (r_type r)) = NOT (r_size r - 1)"
  proof (rule bit_word_eqI)
    fix n assume "n < LENGTH(32)"
    then show "bit (bar_value r (-1) AND NOT (ucast (r_type r))) n \<longleftrightarrow> bit (NOT (r_size r - 1)) n"
      using arg_cong [OF assms, of "\<lambda>x. bit x n"] by (auto simp: bar_value_def bit_simps)
  qed
  then show ?thesis by (simp add: bar_size_of_def)
qed

lemma less_6_cases: "i < (6 :: nat) \<Longrightarrow> i = 0 \<or> i = 1 \<or> i = 2 \<or> i = 3 \<or> i = 4 \<or> i = 5"
  by presburger

lemma bar_addr_facts:
  assumes "i < 6"
  shows "bar_addr i \<ge> 0x10" "bar_addr i < 0x10 + 4 * 6" "bar_addr i \<noteq> 0x30" "unat (drop_bit 2 (bar_addr i - 0x10)) = i"
  using less_6_cases [OF assms] by (auto simp: bar_addr_def PCI_ROM_SLOT_def drop_bit_eq_div)

lemma write_bar_config:
  assumes "i < 6" and "r_size (io_regions d ! i) \<noteq> 0"
  shows "pci_device_config_write (d, w) (bar_addr i) v 2
    = pci_update_mappings (d\<lparr>config := put_le32 (config d) (bar_addr i) (bar_value (io_regions d ! i) v)\<rparr>, w)"
  using assms bar_addr_facts [OF assms(1)]
  by (simp add: pci_device_config_write_def pci_write_bar_def bar_value_def PCI_ROM_SLOT_def Let_def)

text \<open>The bridge with \<open>a\<close> in its address register gives access to the base address register \<open>i\<close> of \<open>d\<close>.\<close>

definition selects_bar :: "'w i440fx \<Rightarrow> u32 \<Rightarrow> nat \<Rightarrow> 'w pci_device \<Rightarrow> bool" where
  "selects_bar s a i d \<longleftrightarrow> c_true (a AND 0x80000000) \<and> addr_bus (a AND NOT 3) = bus_num (pci_bus s)
     \<and> device (pci_bus s) (addr_devfn (a AND NOT 3)) = Some d \<and> addr_config (a AND NOT 3) = bar_addr i"

lemma selected_write:
  fixes v
  assumes "selects_bar s a i d" and "i < 6" and "r_size (io_regions d ! i) \<noteq> 0"
  defines "s1 \<equiv> i440fx_write_data (i440fx_write_addr s a) 0 v 2"
  shows "\<exists>d1. selects_bar s1 a i d1 \<and> config d1 = put_le32 (config d) (bar_addr i) (bar_value (io_regions d ! i) v)"
    and "config_reg s1 = a"
proof -
  let ?d0 = "(d\<lparr>config := put_le32 (config d) (bar_addr i) (bar_value (io_regions d ! i) v)\<rparr>, world s)"
  note upd = write_bar_config [OF assms(2,3), of "world s" v]
  have s1: "s1 = s\<lparr>config_reg := a, world := snd (pci_update_mappings ?d0),
      pci_bus := (pci_bus s)\<lparr>device := (device (pci_bus s))(addr_devfn (a AND NOT 3) \<mapsto> fst (pci_update_mappings ?d0))\<rparr>\<rparr>"
    using assms(1) by (simp add: s1_def selects_bar_def i440fx_write_data_def i440fx_write_addr_def config_target_def
      pci_data_write_def upd Let_def split: prod.split)
  show "config_reg s1 = a" by (simp add: s1)
  have "selects_bar s1 a i (fst (pci_update_mappings ?d0))" using assms(1) by (simp add: s1 selects_bar_def)
  then show "\<exists>d1. selects_bar s1 a i d1 \<and> config d1 = put_le32 (config d) (bar_addr i) (bar_value (io_regions d ! i) v)"
    using update_mappings_frame(1) [of ?d0] by auto
qed

lemma selected_read:
  assumes "selects_bar s a i d" and "config_reg s = a"
  shows "i440fx_read_data s 0 2 = get_le32 (config d) (bar_addr i)"
  using assms by (simp add: selects_bar_def i440fx_read_data_def config_target_def pci_data_read_def pci_device_config_read_def)

text \<open>C24: what a guest reads back from a base address register that it has written through the host
  bridge is the value with the bits below the region's size cleared and with the type of the region;
  writing all ones so gives the size of the region, by the computation every PCI driver makes.\<close>

theorem bar_sizing:
  assumes "selects_bar s a i d" and "i < 6" and "r_size (io_regions d ! i) \<noteq> 0"
    and "ucast (r_type (io_regions d ! i)) AND (r_size (io_regions d ! i) - 1) = ucast (r_type (io_regions d ! i))"
  shows "i440fx_read_data (i440fx_write_data (i440fx_write_addr s a) 0 v 2) 0 2 = bar_value (io_regions d ! i) v
    \<and> bar_size_of (i440fx_read_data (i440fx_write_data (i440fx_write_addr s a) 0 (-1) 2) 0 2) (r_type (io_regions d ! i))
      = r_size (io_regions d ! i)"
proof -
  have r: "i440fx_read_data (i440fx_write_data (i440fx_write_addr s a) 0 u 2) 0 2 = bar_value (io_regions d ! i) u" for u
  proof -
    obtain d1 where "selects_bar (i440fx_write_data (i440fx_write_addr s a) 0 u 2) a i d1"
      and "config d1 = put_le32 (config d) (bar_addr i) (bar_value (io_regions d ! i) u)"
      using selected_write(1) [OF assms(1-3)] by blast
    then show ?thesis using selected_read [OF _ selected_write(2) [OF assms(1-3)]] by (simp add: get_put_le32)
  qed
  show ?thesis unfolding r using bar_size_ones [OF assms(4)] by simp
qed

section \<open>Capabilities\<close>

definition add_capabilities :: "'w pci_device \<Rightarrow> u8 list list \<Rightarrow> 'w pci_device" where
  "add_capabilities d caps = foldl (\<lambda>d c. snd (pci_add_capability d c)) d caps"

text \<open>The walk of a driver: the offsets of the list that starts at \<open>p\<close>, at most \<open>n\<close> of them.\<close>

fun cap_walk :: "nat \<Rightarrow> (u64 \<Rightarrow> u8) \<Rightarrow> u8 \<Rightarrow> nat list" where
  "cap_walk 0 c p = []"
| "cap_walk (Suc n) c p = (if p = 0 then [] else unat p # cap_walk n c (c (ucast p + 1)))"

text \<open>The offsets that the capabilities get, one after the other from \<open>k\<close>.\<close>

fun cap_offsets :: "nat \<Rightarrow> u8 list list \<Rightarrow> nat list" where
  "cap_offsets k [] = []"
| "cap_offsets k (c # cs) = k # cap_offsets (k + length c) cs"

text \<open>The capability's bytes are in the configuration space, the link (its second byte) apart.\<close>

definition cap_stored :: "(u64 \<Rightarrow> u8) \<Rightarrow> nat \<Rightarrow> u8 list \<Rightarrow> bool" where
  "cap_stored c k bytes \<longleftrightarrow> list_all (\<lambda>j. j = 1 \<or> c (of_nat (k + j)) = bytes ! j) [0..<length bytes]"

lemma cap_offsets_snoc: "cap_offsets k (cs @ [c]) = cap_offsets k cs @ [k + sum_list (map length cs)]"
  by (induction cs arbitrary: k) (simp_all add: add.assoc)

lemma cap_offsets_bounds:
  "list_all (\<lambda>c. 2 \<le> length c) cs \<Longrightarrow> q \<in> set (cap_offsets k cs) \<Longrightarrow> k \<le> q \<and> q + 2 \<le> k + sum_list (map length cs)"
proof (induction cs arbitrary: k)
  case (Cons c cs)
  show ?case
  proof (cases "q = k")
    case False
    then show ?thesis using Cons.IH [of "k + length c"] Cons.prems by auto
  qed (use Cons.prems in auto)
qed simp

lemma walk_cong:
  "(\<And>q. q \<in> set (cap_walk n c p) \<Longrightarrow> c' (of_nat q + 1) = c (of_nat q + 1)) \<Longrightarrow> cap_walk n c' p = cap_walk n c p"
proof (induction n arbitrary: p)
  case (Suc n)
  show ?case
  proof (cases "p = 0")
    case False
    then have "c' (ucast p + 1) = c (ucast p + 1)" using Suc.prems [of "unat p"] by (simp add: unsigned_ucast_eq)
    then show ?thesis using False Suc.IH Suc.prems by simp
  qed simp
qed simp

lemma unat_small: "x < 2 ^ 32 \<Longrightarrow> unat (of_nat x :: u64) = x"
  by (simp add: unsigned_of_nat take_bit_nat_eq_self)

lemma copy_at:
  assumes "k < 256" and "x < 256" and "length bs \<le> 256"
  shows "copy_config c (of_nat k) bs (of_nat x) = (if k \<le> x \<and> x < k + length bs then bs ! (x - k) else c (of_nat x))"
proof (cases "k \<le> x")
  case True
  then have "(of_nat x :: u64) - of_nat k = of_nat (x - k)" by simp
  moreover have "unat (of_nat (x - k) :: u64) = x - k" using assms by (simp add: unsigned_of_nat take_bit_nat_eq_self)
  ultimately show ?thesis using True by (auto simp: copy_config_def)
next
  case False
  then have "(of_nat x :: u64) - of_nat k = - of_nat (k - x)" by (simp add: of_nat_diff)
  moreover have "unat (- of_nat (k - x) :: u64) \<ge> 256"
  proof -
    have "False" if h: "unat (- of_nat (k - x) :: u64) < 256"
    proof -
      obtain z where z: "unat (- of_nat (k - x) :: u64) = z" "z < 256" using h by blast
      then have "(of_nat z :: u64) = - of_nat (k - x)" unfolding z(1) [symmetric] by simp
      then have "(of_nat (z + (k - x)) :: u64) = 0" by simp
      then have "unat (of_nat (z + (k - x)) :: u64) = 0" by (simp only: unsigned_0)
      then have "z + (k - x) = 0" using unat_small [of "z + (k - x)"] z assms by simp
      then show False using False by simp
    qed
    then show ?thesis by fastforce
  qed
  ultimately show ?thesis using False assms by (auto simp: copy_config_def)
qed

lemma of_nat_at:
  assumes "x < 256" shows "(of_nat x :: u64) = w \<longleftrightarrow> x = unat w"
proof -
  have "unat (of_nat x :: u64) = x" using assms by (simp add: unsigned_of_nat take_bit_nat_eq_self)
  then show ?thesis by auto
qed

text \<open>One capability at the offset \<open>k\<close>, above the header.\<close>

lemma add_capability_at:
  assumes "next_cap_offset d = of_nat k" and "64 \<le> k" and "k + length bs \<le> 256" and "2 \<le> length bs"
  defines "d' \<equiv> snd (pci_add_capability d bs)"
  shows "next_cap_offset d' = of_nat (k + length bs)"
    and "config d' 0x34 = of_nat k"
    and "config d' (of_nat k + 1) = config d 0x34"
    and "cap_stored (config d') k bs"
    and "64 \<le> x \<Longrightarrow> x < k \<Longrightarrow> config d' (of_nat x) = config d (of_nat x)"
proof -
  have k: "unat (next_cap_offset d) = k" using assms by (simp add: unsigned_of_nat take_bit_nat_eq_self)
  have uk: "(ucast (of_nat k :: u8) :: u64) = of_nat k"
    using assms by (simp add: unsigned_ucast_eq word_unat_eq_iff unsigned_of_nat take_bit_nat_eq_self)
  let ?c1 = "(config d)(PCI_STATUS := config d PCI_STATUS OR PCI_STATUS_CAP_LIST)"
  let ?c2 = "copy_config ?c1 (of_nat k) bs"
  have d': "d' = d\<lparr>next_cap_offset := of_nat k + of_nat (length bs),
      config := (?c2(of_nat k + 1 := ?c2 0x34))(0x34 := of_nat k)\<rparr>"
    using assms k by (simp add: d'_def pci_add_capability_def Let_def uk)
  have c34: "?c2 0x34 = config d 0x34"
    using copy_at [of k "0x34" bs ?c1] assms by simp
  have above: "config d' (of_nat x) = (if x = k + 1 then config d 0x34 else ?c2 (of_nat x))" if "64 \<le> x" "x < 256" for x
  proof -
    have "(of_nat x :: u64) \<noteq> 0x34" using that by (simp add: of_nat_at)
    moreover have "(of_nat x :: u64) = of_nat k + 1 \<longleftrightarrow> x = k + 1"
      using of_nat_at [of x "of_nat (k + 1)"] that assms unat_small [of "k + 1"] by (simp add: add.commute)
    ultimately show ?thesis by (simp add: d' c34)
  qed
  show "next_cap_offset d' = of_nat (k + length bs)" by (simp add: d')
  show "config d' 0x34 = of_nat k" by (simp add: d')
  show "config d' (of_nat k + 1) = config d 0x34" using above [of "k + 1"] assms by (simp add: add.commute)
  show "cap_stored (config d') k bs"
    unfolding cap_stored_def list_all_iff
  proof (intro ballI)
    fix j assume "j \<in> set [0..<length bs]"
    then show "j = 1 \<or> config d' (of_nat (k + j)) = bs ! j"
      using above [of "k + j"] copy_at [of k "k + j" bs ?c1] assms(2-4) by simp
  qed
  show "config d' (of_nat x) = config d (of_nat x)" if "64 \<le> x" "x < k"
    using that assms above [of x] copy_at [of k x bs ?c1] by (simp add: of_nat_at)
qed

lemma cap_stored_cong:
  "cap_stored c k bs \<Longrightarrow> (\<And>x. k \<le> x \<Longrightarrow> x < k + length bs \<Longrightarrow> c' (of_nat x) = c (of_nat x)) \<Longrightarrow> cap_stored c' k bs"
  by (fastforce simp: cap_stored_def list_all_iff simp del: of_nat_add)

text \<open>What holds after the capabilities \<open>cs\<close>, which end at \<open>K\<close>.\<close>

definition caps_inv :: "'w pci_device \<Rightarrow> u8 list list \<Rightarrow> nat \<Rightarrow> bool" where
  "caps_inv d cs K \<longleftrightarrow> next_cap_offset d = of_nat K
     \<and> (\<forall>n \<ge> length cs. cap_walk n (config d) (config d 0x34) = rev (cap_offsets 64 cs))
     \<and> list_all2 (\<lambda>k c. cap_stored (config d) k c \<and> 64 \<le> k \<and> k + length c \<le> K) (cap_offsets 64 cs) cs"

lemma caps_inv_step:
  assumes inv: "caps_inv d cs K" and K: "K = 64 + sum_list (map length cs)" "K + length bs \<le> 256"
    and len: "list_all (\<lambda>c. 2 \<le> length c) (cs @ [bs])"
  shows "caps_inv (snd (pci_add_capability d bs)) (cs @ [bs]) (K + length bs)"
proof -
  let ?d = "snd (pci_add_capability d bs)"
  have len2: "2 \<le> length bs" using len by simp
  note at = add_capability_at [of d K bs, OF _ _ K(2) len2]
  have nco: "next_cap_offset d = of_nat K" and K64: "64 \<le> K" using inv K by (simp_all add: caps_inv_def)
  note at = at [OF nco K64]
  have frame: "config ?d (of_nat q + 1) = config d (of_nat q + 1)" if h: "q \<in> set (cap_offsets 64 cs)" for q
    using cap_offsets_bounds [of cs q 64] len h K at(5) [of "q + 1"] by (simp add: add.commute)
  have w: "cap_walk n (config ?d) (config ?d 0x34) = rev (cap_offsets 64 (cs @ [bs]))" if h: "length (cs @ [bs]) \<le> n" for n
  proof -
    obtain m where m: "n = Suc m" "length cs \<le> m" using h by (cases n) auto
    have K0: "(of_nat K :: u8) \<noteq> 0" "unat (of_nat K :: u8) = K"
      using K(2) K64 len2 by (simp_all add: word_unat_eq_iff unsigned_of_nat take_bit_nat_eq_self)
    have old: "cap_walk m (config d) (config d 0x34) = rev (cap_offsets 64 cs)" using inv m by (simp add: caps_inv_def)
    have "cap_walk m (config ?d) (config d 0x34) = rev (cap_offsets 64 cs)"
      using walk_cong [of m "config d" "config d 0x34" "config ?d"] frame by (simp add: old)
    moreover have "(ucast (of_nat K :: u8) :: u64) = of_nat K"
      using K0(2) by (simp add: unsigned_ucast_eq word_unat_eq_iff unat_small K(2) unsigned_of_nat take_bit_nat_eq_self)
    ultimately show ?thesis using K0 at(2,3) K(1) by (simp add: m(1) cap_offsets_snoc)
  qed
  have s: "list_all2 (\<lambda>k c. cap_stored (config ?d) k c \<and> 64 \<le> k \<and> k + length c \<le> K + length bs) (cap_offsets 64 cs) cs"
  proof (rule list_all2_mono)
    show "list_all2 (\<lambda>k c. cap_stored (config d) k c \<and> 64 \<le> k \<and> k + length c \<le> K) (cap_offsets 64 cs) cs"
      using inv by (simp add: caps_inv_def)
    fix k c assume h: "cap_stored (config d) k c \<and> 64 \<le> k \<and> k + length c \<le> K"
    have "cap_stored (config ?d) k c"
    proof (rule cap_stored_cong)
      show "cap_stored (config d) k c" using h by simp
      show "config ?d (of_nat x) = config d (of_nat x)" if "k \<le> x" "x < k + length c" for x
        by (rule at(5)) (use that h in linarith)+
    qed
    then show "cap_stored (config ?d) k c \<and> 64 \<le> k \<and> k + length c \<le> K + length bs" using h by simp
  qed
  show ?thesis
    unfolding caps_inv_def using w s at(1,4) K K64 by (simp add: cap_offsets_snoc list_all2_appendI)
qed

lemma caps_inv_all:
  assumes "next_cap_offset d = 0x40" and "config d 0x34 = 0"
  shows "list_all (\<lambda>c. 2 \<le> length c) cs \<Longrightarrow> sum_list (map length cs) \<le> 192 \<Longrightarrow> caps_inv (add_capabilities d cs) cs (64 + sum_list (map length cs))"
proof (induction cs rule: rev_induct)
  case Nil
  have "cap_walk n c 0 = []" for n c by (cases n) simp_all
  then show ?case using assms by (simp add: caps_inv_def add_capabilities_def)
next
  case (snoc bs cs)
  then have "caps_inv (add_capabilities d cs) cs (64 + sum_list (map length cs))" by simp
  then show ?case using caps_inv_step [OF _ refl _ snoc.prems(1)] snoc.prems(2) by (simp add: add_capabilities_def add.assoc)
qed

text \<open>C23: the capabilities of a device form a list that a driver can walk: whatever capabilities (of at
  least two bytes each, 192 together) are added to a device that has none, the walk from the
  capabilities pointer through the links meets each of them once, the last added first, and their
  bytes, the links apart, are in the configuration space at the offsets the walk gives.\<close>

theorem capability_list:
  assumes "next_cap_offset d = 0x40" and "config d 0x34 = 0"
    and "list_all (\<lambda>c. 2 \<le> length c) caps" and "sum_list (map length caps) \<le> 192" and "length caps \<le> n"
  shows "cap_walk n (config (add_capabilities d caps)) (config (add_capabilities d caps) 0x34) = rev (cap_offsets 64 caps)
    \<and> list_all2 (cap_stored (config (add_capabilities d caps))) (cap_offsets 64 caps) caps"
proof -
  have "caps_inv (add_capabilities d caps) caps (64 + sum_list (map length caps))" by (rule caps_inv_all) (use assms in auto)
  then show ?thesis using assms(5) unfolding caps_inv_def by (auto elim: list_all2_mono)
qed

text \<open>The offset of the next capability is a byte, and a capability that ends exactly at the end of
  the configuration space makes it zero: the next capability is accepted, and written over the
  header, the vendor identifier first.\<close>

theorem capability_space_wraps:
  assumes "unat (next_cap_offset d) + length bs = 256" and "length bs \<noteq> 0" and "extra \<noteq> []" and "length extra \<le> 256"
  shows "fst (pci_add_capability (snd (pci_add_capability d bs)) extra) = 0
    \<and> config (snd (pci_add_capability (snd (pci_add_capability d bs)) extra)) 0 = extra ! 0"
proof -
  have "next_cap_offset d + of_nat (length bs) = of_nat (unat (next_cap_offset d) + length bs)" by simp
  then have n: "next_cap_offset (snd (pci_add_capability d bs)) = 0" using assms(1) by (simp add: pci_add_capability_def Let_def)
  then show ?thesis using assms by (simp add: pci_add_capability_def [of "snd (pci_add_capability d bs)"] Let_def copy_config_def)
qed

end
