(* ===== verification/VirtioPci.thy ===== *)
theory VirtioPci
  imports Pci Virtio
begin

text \<open>
  \<open>virtio_init\<close> of \<open>virtio.c\<close> on a PCI bus: the PCI device with its identification and its four
  capabilities, its disabled range in the memory map, and the base address register that moves it.
  \<open>flush\<close> and \<open>'o\<close> are the owner of the memory map, as in \<^theory_text>\<open>Iomem\<close>.
\<close>

type_synonym 'o machine_map = "phys_mem_map \<times> 'o"

definition virtio_pci_bar_set ::
  "(u64 \<Rightarrow> u64 \<Rightarrow> 'o \<Rightarrow> 'o) \<Rightarrow> nat \<Rightarrow> nat \<Rightarrow> u32 \<Rightarrow> bool \<Rightarrow> 'o machine_map \<Rightarrow> 'o machine_map" where
  "virtio_pci_bar_set flush k bar_num addr enabled mo = phys_mem_set_addr flush (fst mo) k (ucast addr) enabled (snd mo)"

definition put_bytes :: "u8 list \<Rightarrow> nat \<Rightarrow> u32 \<Rightarrow> u8 list" where
  "put_bytes c k v = c[k := ucast v, Suc k := ucast (drop_bit 8 v), k + 2 := ucast (drop_bit 16 v), k + 3 := ucast (drop_bit 24 v)]"

definition virtio_cap :: "u8 \<Rightarrow> u8 \<Rightarrow> u32 \<Rightarrow> u32 \<Rightarrow> u32 \<Rightarrow> u8 list" where
  "virtio_cap cfg_type bar offset len mult =
     (let cap_len = (if cfg_type = 2 then 20 else 16);
          c0 = (replicate cap_len 0)[0 := 0x09, 2 := of_nat cap_len, 3 := cfg_type, 4 := bar];
          c1 = put_bytes (put_bytes c0 8 offset) 12 len
      in if cfg_type = 2 then put_bytes c1 16 mult else c1)"

definition virtio_add_pci_capability :: "'w pci_device \<Rightarrow> u8 \<Rightarrow> u8 \<Rightarrow> u32 \<Rightarrow> u32 \<Rightarrow> u32 \<Rightarrow> 'w pci_device" where
  "virtio_add_pci_capability d cfg_type bar offset len mult = snd (pci_add_capability d (virtio_cap cfg_type bar offset len mult))"

text \<open>The device number and the class; \<open>abort()\<close> for another device.\<close>

definition virtio_pci_ids :: "u32 \<Rightarrow> (u16 \<times> u16) option" where
  "virtio_pci_ids dev =
     (if dev = 1 then Some (0x1000, 0x0200)
      else if dev = 2 then Some (0x1001, 0x0100)
      else if dev = 3 then Some (0x1003, 0x0780)
      else if dev = 9 then Some (0x1040 + ucast dev, 0x2)
      else if dev = 18 then Some (0x1040 + ucast dev, 0x0980)
      else None)"

definition virtio_pci_config :: "'w pci_device \<Rightarrow> u32 \<Rightarrow> 'w pci_device" where
  "virtio_pci_config d dev =
     (let d1 = pci_device_set_config16 d 0x2c 0x1af4;
          d2 = pci_device_set_config16 d1 0x2e (ucast dev);
          d3 = pci_device_set_config8 d2 (ucast PCI_INTERRUPT_PIN) 1;
          d4 = virtio_add_pci_capability d3 1 4 VIRTIO_PCI_CFG_OFFSET 0x1000 0;
          d5 = virtio_add_pci_capability d4 3 4 VIRTIO_PCI_ISR_OFFSET 0x1000 0;
          d6 = virtio_add_pci_capability d5 4 4 VIRTIO_PCI_CONFIG_OFFSET 0x1000 0
      in virtio_add_pci_capability d6 2 4 VIRTIO_PCI_NOTIFY_OFFSET 0x1000 0)"

definition virtio_pci_init ::
  "(u64 \<Rightarrow> u64 \<Rightarrow> 'o \<Rightarrow> 'o) \<Rightarrow> 'o machine_map pci_bus \<Rightarrow> 'o machine_map \<Rightarrow> u32 \<Rightarrow> nat \<Rightarrow> ('o machine_map pci_bus \<times> 'o machine_map) option" where
  "virtio_pci_init flush b mo dev name =
     (case virtio_pci_ids dev of
        None \<Rightarrow> None
      | Some (pci_id, class_id) \<Rightarrow>
          (case pci_register_device b (-1) 0x1af4 pci_id 0x00 class_id of
             None \<Rightarrow> None
           | Some (b1, fn) \<Rightarrow>
               (case cpu_register_device (fst mo) 0 0x4000 name (DEVIO_SIZE8 OR DEVIO_SIZE16 OR DEVIO_SIZE32 OR DEVIO_DISABLED) of
                  None \<Rightarrow> None
                | Some (m1, k) \<Rightarrow>
                    map_option (\<lambda>d. (b1\<lparr>device := (device b1)(fn \<mapsto> d)\<rparr>, (m1, snd mo)))
                      (pci_register_bar (virtio_pci_config (the (device b1 fn)) dev) 4 0x4000 0 (virtio_pci_bar_set flush k)))))"

end
