(* ===== verification/VirtioPciSpec.thy ===== *)
theory VirtioPciSpec
  imports PciSpec VirtioPci
begin

text \<open>
  The memory ranges of the VIRTIO devices follow the configuration space: in every run of device
  creations and of guest writes to the host bridge, a device's range is where its base address
  register says, and is there only while the command register enables it.
\<close>

section \<open>The range of a device\<close>

text \<open>\<open>PCI_COMMAND_MEMORY\<close> is in the low byte of the command register.\<close>

definition mem_enabled :: "'w pci_device \<Rightarrow> bool" where
  "mem_enabled d \<longleftrightarrow> c_true (get_le16 (config d) PCI_COMMAND AND PCI_COMMAND_MEMORY)"

lemma mem_enabled_byte: "mem_enabled d \<longleftrightarrow> bit (config d 4) 1"
proof -
  have "(get_le16 (config d) 4 AND 2 \<noteq> 0) \<longleftrightarrow> bit (get_le16 (config d) 4) 1"
    by (simp add: bit_iff_and_push_bit_not_eq_0)
  then show ?thesis by (simp add: mem_enabled_def get_le16_def bit_simps)
qed

definition range_follows :: "phys_mem_range \<Rightarrow> 'w pci_device \<Rightarrow> bool" where
  "range_follows pr d \<longleftrightarrow>
     (if mem_enabled d then pr_size pr = 0x4000 \<and> pr_addr pr = ucast (bar_base d 4) else pr_size pr = 0)"

text \<open>A device with the single region of \<open>virtio_init\<close>, whose range is the entry \<open>k\<close> of the map.\<close>

definition single_region :: "(u64 \<Rightarrow> u64 \<Rightarrow> 'o \<Rightarrow> 'o) \<Rightarrow> 'o machine_map pci_device \<Rightarrow> nat \<Rightarrow> bool" where
  "single_region flush d k \<longleftrightarrow> length (io_regions d) = PCI_NUM_REGIONS
     \<and> (\<forall>i < PCI_NUM_REGIONS. i \<noteq> 4 \<longrightarrow> r_size (io_regions d ! i) = 0 \<and> \<not> r_enabled (io_regions d ! i))
     \<and> r_size (io_regions d ! 4) = 0x4000 \<and> r_type (io_regions d ! 4) = 0
     \<and> r_bar_set (io_regions d ! 4) = virtio_pci_bar_set flush k
     \<and> (config d 0x0e = 0 \<or> config d 0x0e = 0x80)"

definition no_regions :: "'w pci_device \<Rightarrow> bool" where
  "no_regions d \<longleftrightarrow> length (io_regions d) = PCI_NUM_REGIONS
     \<and> (\<forall>i < PCI_NUM_REGIONS. r_size (io_regions d ! i) = 0 \<and> \<not> r_enabled (io_regions d ! i))"

definition device_ok ::
  "(u64 \<Rightarrow> u64 \<Rightarrow> 'o \<Rightarrow> 'o) \<Rightarrow> 'o machine_map pci_device \<Rightarrow> nat option \<Rightarrow> phys_mem_map \<Rightarrow> bool" where
  "device_ok flush d k m \<longleftrightarrow>
     (case k of
        None \<Rightarrow> no_regions d
      | Some k \<Rightarrow> single_region flush d k \<and> k < length m \<and> pr_org_size (m ! k) = 0x4000 \<and> \<not> pr_is_ram (m ! k)
          \<and> r_enabled (io_regions d ! 4) = mem_enabled d \<and> range_follows (m ! k) d)"

lemma regions_upt: "[0..<PCI_NUM_REGIONS] = [0, 1, 2, 3, 4, 5, 6]"
  by (simp add: PCI_NUM_REGIONS_def upt_rec)

lemma no_update: "r_size (io_regions d ! i) = 0 \<Longrightarrow> \<not> r_enabled (io_regions d ! i) \<Longrightarrow> pci_update_mapping (d, w) i = (d, w)"
  by (simp add: pci_update_mapping_def bar_wanted_def Let_def)

lemma no_regions_update: "no_regions d \<Longrightarrow> pci_update_mappings (d, w) = (d, w)"
  unfolding pci_update_mappings_def regions_upt by (simp add: no_regions_def PCI_NUM_REGIONS_def no_update)

lemma single_update:
  assumes "single_region flush d k"
  shows "pci_update_mappings (d, w) = pci_update_mapping (d, w) 4"
proof -
  have len: "length (io_regions d) = 7" using assms by (simp add: single_region_def PCI_NUM_REGIONS_def)
  have off: "r_size (io_regions d ! i) = 0" "\<not> r_enabled (io_regions d ! i)" if "i < 7" "i \<noteq> 4" for i
    using assms that by (simp_all add: single_region_def PCI_NUM_REGIONS_def)
  obtain d1 w1 where u: "pci_update_mapping (d, w) 4 = (d1, w1)" by (metis surj_pair)
  then have "io_regions d1 ! i = io_regions d ! i" if "i \<noteq> 4" for i
    using that by (auto simp: pci_update_mapping_def set_enabled_def Let_def split: if_splits)
  then show ?thesis unfolding pci_update_mappings_def regions_upt
    by (simp add: no_update off u)
qed

section \<open>Updates\<close>

definition ready :: "(u64 \<Rightarrow> u64 \<Rightarrow> 'o \<Rightarrow> 'o) \<Rightarrow> 'o machine_map pci_device \<Rightarrow> nat \<Rightarrow> phys_mem_map \<Rightarrow> bool" where
  "ready flush d k m \<longleftrightarrow> single_region flush d k \<and> k < length m \<and> pr_org_size (m ! k) = 0x4000 \<and> \<not> pr_is_ram (m ! k)
     \<and> (\<not> r_enabled (io_regions d ! 4) \<longrightarrow> pr_size (m ! k) = 0) \<and> (pr_size (m ! k) = 0 \<or> pr_size (m ! k) = 0x4000)"

lemma ready_of_ok: "device_ok flush d (Some k) m \<Longrightarrow> ready flush d k m"
  by (auto simp: device_ok_def ready_def range_follows_def)

definition only_at :: "nat option \<Rightarrow> phys_mem_map \<Rightarrow> phys_mem_map \<Rightarrow> bool" where
  "only_at k m m' \<longleftrightarrow> length m' = length m \<and> (\<forall>j. Some j \<noteq> k \<longrightarrow> m' ! j = m ! j)"

lemma wanted_single: "single_region flush d k \<Longrightarrow> bar_wanted d 4 \<longleftrightarrow> mem_enabled d"
  by (simp add: single_region_def bar_wanted_def mem_enabled_def PCI_ROM_SLOT_def Let_def)

lemma set_enabled_single:
  "single_region flush d k \<Longrightarrow> single_region flush (set_enabled d 4 e) k"
  "single_region flush d k \<Longrightarrow> r_enabled (io_regions (set_enabled d 4 e) ! 4) = e"
  by (auto simp: single_region_def set_enabled_def PCI_NUM_REGIONS_def nth_list_update)

lemma set_enabled_follows: "range_follows pr (set_enabled d i e) = range_follows pr d" "mem_enabled (set_enabled d i e) = mem_enabled d"
  by (simp_all add: range_follows_def mem_enabled_def bar_base_def)

lemma update_ready:
  assumes "ready flush d k m"
  shows "device_ok flush (fst (pci_update_mappings (d, m, st))) (Some k) (fst (snd (pci_update_mappings (d, m, st))))"
    and "only_at (Some k) m (fst (snd (pci_update_mappings (d, m, st))))"
proof -
  have sr: "single_region flush d k" and k: "k < length m" and org: "pr_org_size (m ! k) = 0x4000"
    and ram: "\<not> pr_is_ram (m ! k)" and off: "\<not> r_enabled (io_regions d ! 4) \<Longrightarrow> pr_size (m ! k) = 0"
    and sz: "pr_size (m ! k) = 0 \<or> pr_size (m ! k) = 0x4000"
    using assms by (auto simp: ready_def)
  have f: "r_bar_set (io_regions d ! 4) = virtio_pci_bar_set flush k" using sr by (simp add: single_region_def)
  note u = single_update [OF sr] pci_update_mapping_def wanted_single [OF sr] f virtio_pci_bar_set_def phys_mem_set_addr_def
    default_set_addr_def Let_def
  show "only_at (Some k) m (fst (snd (pci_update_mappings (d, m, st))))"
    by (simp add: u only_at_def split: prod.split)
  show "device_ok flush (fst (pci_update_mappings (d, m, st))) (Some k) (fst (snd (pci_update_mappings (d, m, st))))"
  proof (cases "mem_enabled d")
    case True
    then show ?thesis
      using k org ram sz by (auto simp: u device_ok_def set_enabled_single [OF sr] set_enabled_follows range_follows_def bar_base_def)
  next
    case False
    then show ?thesis
      using k org ram off sz sr by (auto simp: u device_ok_def set_enabled_single [OF sr] set_enabled_follows range_follows_def bar_base_def)
  qed
qed

section \<open>Guest writes\<close>

lemma put_le32_other: "x \<notin> {a, a + 1, a + 2, a + 3} \<Longrightarrow> put_le32 c a v x = c x"
  by (simp add: put_le32_def)

lemma written_range:
  fixes addr :: u64
  assumes "addr \<le> 0xff" and "lg \<le> 2" and "x = addr + of_nat i" and "i < 2 ^ lg"
  shows "addr \<le> x \<and> x < addr + of_nat (2 ^ lg)"
proof -
  have i: "i < 4" using assms(2,4) power_increasing [of lg 2 "2 :: nat"] by simp
  have p: "(2 :: nat) ^ lg \<le> 4" using assms(2) power_increasing [of lg 2 "2 :: nat"] by simp
  have u: "unat (addr + of_nat j) = unat addr + j" if "j \<le> 4" for j
    using that assms(1) unat_small [of j] by (subst unat_add_small) (auto simp: word_le_nat_alt)
  show ?thesis using u [of i] u [of "2 ^ lg"] i p assms(3,4) by (simp add: word_le_nat_alt word_less_nat_alt)
qed

lemma bar4_read_only: "h = 0 \<or> h = 0x80 \<Longrightarrow> x \<in> {0x20, 0x21, 0x22, 0x23} \<Longrightarrow> config_read_only h x"
  by (auto simp: config_read_only_def)

lemma bar_base_cong:
  "config d' 0x20 = config d 0x20 \<Longrightarrow> config d' 0x21 = config d 0x21 \<Longrightarrow> config d' 0x22 = config d 0x22
    \<Longrightarrow> config d' 0x23 = config d 0x23 \<Longrightarrow> r_size (io_regions d' ! 4) = r_size (io_regions d ! 4) \<Longrightarrow> bar_base d' 4 = bar_base d 4"
  by (simp add: bar_base_def get_le32_def bar_addr_def PCI_ROM_SLOT_def)

text \<open>The bytes of a write that is not one of a base address register.\<close>

lemma bytes_ok:
  fixes v
  assumes "device_ok flush d k m" and "addr \<le> 0xff" and "lg \<le> 2"
  defines "d1 \<equiv> foldl (config_write_byte addr v) d [0..<2 ^ lg]"
  shows "case k of None \<Rightarrow> no_regions d1 | Some k \<Rightarrow> ready flush d1 k m"
    and "\<not> (PCI_COMMAND \<ge> addr \<and> PCI_COMMAND < addr + of_nat (2 ^ lg)) \<Longrightarrow> device_ok flush d1 k m"
proof -
  have io: "io_regions d1 = io_regions d" by (simp add: d1_def bytes_frame)
  have hd: "config d1 0x0e = config d 0x0e" unfolding d1_def by (rule bytes_frame(1)) (simp add: header_read_only)
  have sr: "single_region flush d1 j = single_region flush d j" for j by (simp add: single_region_def io hd)
  have nr: "no_regions d1 = no_regions d" by (simp add: no_regions_def io)
  show "case k of None \<Rightarrow> no_regions d1 | Some k \<Rightarrow> ready flush d1 k m"
  proof (cases k)
    case (Some j)
    then show ?thesis using ready_of_ok [of flush d j m] assms(1) by (simp add: ready_def sr io)
  qed (use assms(1) nr in \<open>simp add: device_ok_def\<close>)
  assume h: "\<not> (PCI_COMMAND \<ge> addr \<and> PCI_COMMAND < addr + of_nat (2 ^ lg))"
  have "4 \<noteq> addr + of_nat i" if "i < 2 ^ lg" for i
    using h written_range [OF assms(2,3) refl that] by metis
  then have "config d1 4 = config d 4" unfolding d1_def
    by (intro bytes_frame(1)) simp
  then have me: "mem_enabled d1 = mem_enabled d" by (simp add: mem_enabled_byte)
  have bb: "bar_base d1 4 = bar_base d 4" if "single_region flush d j" for j
  proof -
    have "config d1 x = config d x" if x: "x \<in> {0x20, 0x21, 0x22, 0x23}" for x
    proof -
      have "config_read_only (config d 0x0e) x"
        using \<open>single_region flush d j\<close> bar4_read_only [OF _ x] by (simp add: single_region_def)
      then show ?thesis unfolding d1_def by (intro bytes_frame(1)) (use x in auto)
    qed
    then show ?thesis by (intro bar_base_cong) (simp_all add: io)
  qed
  show "device_ok flush d1 k m"
    using assms(1) by (auto simp: device_ok_def sr nr io me range_follows_def bb split: option.splits if_splits)
qed

lemma bar_write_ready:
  assumes "device_ok flush d k m" and "addr \<ge> 0x10 \<and> addr < 0x10 + 4 * 6 \<or> addr = 0x30"
    and "pci_write_bar (d, m, st) addr v = Some dw"
  shows "\<exists>j u. k = Some j \<and> ready flush (d\<lparr>config := u\<rparr>) j m \<and> dw = pci_update_mappings (d\<lparr>config := u\<rparr>, m, st)"
proof -
  let ?reg = "if addr = 0x30 then PCI_ROM_SLOT else unat (drop_bit 2 (addr - 0x10))"
  have r: "r_size (io_regions d ! ?reg) \<noteq> 0" and dw: "\<exists>v. dw = pci_update_mappings (d\<lparr>config := put_le32 (config d) addr v\<rparr>, m, st)"
    using assms(3) by (auto simp: pci_write_bar_def Let_def split: if_splits)
  have reg: "?reg < PCI_NUM_REGIONS"
  proof (cases "addr = 0x30")
    case False
    then have "addr - 0x10 < 0x18" using assms(2) by unat_arith
    then have "unat (drop_bit 2 (addr - 0x10)) < 6" by (simp add: unat_drop_bit_eq drop_bit_eq_div [where n = 2] word_less_nat_alt unat_div)
    then show ?thesis using False by (simp add: PCI_NUM_REGIONS_def)
  qed (simp add: PCI_NUM_REGIONS_def PCI_ROM_SLOT_def)
  show ?thesis
  proof (cases k)
    case None
    then show ?thesis using assms(1) reg r by (simp add: device_ok_def no_regions_def)
  next
    case (Some j)
    have "0x10 \<le> addr" using assms(2) by auto
    then have "(0x0e :: u64) \<notin> {addr, addr + 1, addr + 2, addr + 3}" using assms(2) by (auto simp: word_le_nat_alt)
    then have "put_le32 (config d) addr u 0x0e = config d 0x0e" for u by (rule put_le32_other)
    then have "ready flush (d\<lparr>config := put_le32 (config d) addr u\<rparr>) j m" for u
      using ready_of_ok [of flush d j m] assms(1) Some by (simp add: ready_def single_region_def)
    then show ?thesis using Some dw by auto
  qed
qed

lemma config_write_ok:
  assumes "device_ok flush d k m" and "addr \<le> 0xff" and "lg \<le> 2"
    and "pci_device_config_write (d, m, st) addr v lg = (d', m', st')"
  shows "device_ok flush d' k m' \<and> only_at k m m'"
proof (cases "if lg = 2 \<and> (addr \<ge> 0x10 \<and> addr < 0x10 + 4 * 6 \<or> addr = 0x30) then pci_write_bar (d, m, st) addr v else None")
  case (Some dw)
  then obtain j u where "k = Some j" and r: "ready flush (d\<lparr>config := u\<rparr>) j m" and "dw = pci_update_mappings (d\<lparr>config := u\<rparr>, m, st)"
    using bar_write_ready [OF assms(1), of addr st v dw] by (metis option.distinct(1))
  then show ?thesis using update_ready [OF r, of st] assms(4) Some by (simp add: pci_device_config_write_def)
next
  case None
  let ?d1 = "foldl (config_write_byte addr v) d [0..<2 ^ lg]"
  show ?thesis
  proof (cases "PCI_COMMAND \<ge> addr \<and> PCI_COMMAND < addr + of_nat (2 ^ lg)")
    case True
    then have e: "(d', m', st') = pci_update_mappings (?d1, m, st)" using assms(4) None by (simp add: pci_device_config_write_def Let_def)
    show ?thesis
    proof (cases k)
      case None
      then show ?thesis using bytes_ok(1) [OF assms(1-3), of v] e by (simp add: no_regions_update device_ok_def only_at_def)
    next
      case (Some j)
      then have r: "ready flush ?d1 j m" using bytes_ok(1) [OF assms(1-3), of v] by simp
      show ?thesis using update_ready [OF r, of st] e Some by (metis fst_conv snd_conv)
    qed
  next
    case False
    then have "(d', m', st') = (?d1, m, st)" using assms(4) None by (simp add: pci_device_config_write_def Let_def if_not_P)
    then show ?thesis using bytes_ok(2) [OF assms(1-3) False] by (simp add: only_at_def)
  qed
qed

section \<open>A new device\<close>

lemma add_capability_low:
  assumes "0x40 \<le> next_cap_offset d" and "x < 0x34" and "x \<noteq> 6"
  shows "config (snd (pci_add_capability d bs)) x = config d x"
proof -
  have x: "unat x < 0x34" "0x40 \<le> unat (next_cap_offset d)" using assms(1,2) by (simp_all add: word_less_nat_alt word_le_nat_alt)
  moreover have n: "unat (next_cap_offset d) < 256" using unsigned_less [of "next_cap_offset d"] by simp
  ultimately have "copy_config c (ucast (next_cap_offset d)) bs x = c x" if "unat (next_cap_offset d) + length bs \<le> 256" for c
    using copy_at [of "unat (next_cap_offset d)" "unat x" bs c] that by (simp add: unsigned_ucast_eq)
  moreover have "x \<noteq> ucast (next_cap_offset d) + 1"
  proof -
    have "unat (ucast (next_cap_offset d) + 1 :: u64) = unat (next_cap_offset d) + 1"
      using n by (subst unat_add_small) (simp_all add: unsigned_ucast_eq take_bit_nat_eq_self)
    then show ?thesis using x by auto
  qed
  moreover have "x \<noteq> 0x34" using assms(2) by auto
  ultimately show ?thesis using assms(3) by (auto simp: pci_add_capability_def Let_def)
qed

lemma virtio_cap_length: "length (virtio_cap ty bar a l m) = (if ty = 2 then 20 else 16)"
  by (simp add: virtio_cap_def put_bytes_def Let_def)

lemma pci_cap_offset:
  "next_cap_offset (snd (pci_add_capability d bs))
    = (if unat (next_cap_offset d) + length bs \<le> 256 then next_cap_offset d + of_nat (length bs) else next_cap_offset d)"
  "io_regions (snd (pci_add_capability d bs)) = io_regions d"
  by (simp_all add: pci_add_capability_def Let_def)

lemma virtio_config_facts:
  assumes "next_cap_offset d = 0x40"
  shows "config (virtio_pci_config d dev) 0x0e = config d 0x0e" "config (virtio_pci_config d dev) 4 = config d 4"
    and "io_regions (virtio_pci_config d dev) = io_regions d"
  using assms
  by (simp_all add: virtio_pci_config_def virtio_add_pci_capability_def Let_def add_capability_low pci_cap_offset virtio_cap_length
    pci_device_set_config16_def pci_device_set_config8_def put_le16_def)

lemma new_device_facts:
  "next_cap_offset (new_device k v dv r c) = 0x40" "config (new_device k v dv r c) 0x0e = 0" "config (new_device k v dv r c) 4 = 0"
  "io_regions (new_device k v dv r c) = replicate PCI_NUM_REGIONS no_region"
  by (simp_all add: new_device_def put_le16_def)

lemma new_device_no_regions: "no_regions (new_device k v dv r c)"
  by (simp add: no_regions_def new_device_facts no_region_def)

lemma devfn_alloc_free: "devfn_alloc b = Some k \<Longrightarrow> device b k = None"
proof -
  have "devfn_search b ks = Some k \<Longrightarrow> device b k = None" for ks
    by (induction ks) (auto split: if_splits)
  then show "devfn_alloc b = Some k \<Longrightarrow> device b k = None" by (simp add: devfn_alloc_def)
qed

lemma virtio_pci_init_ok:
  fixes flush :: "u64 \<Rightarrow> u64 \<Rightarrow> 'o \<Rightarrow> 'o"
  assumes "virtio_pci_init flush b (m, st) dev name = Some (b1, w1)"
  shows "\<exists>fn d m1. devfn_alloc b = Some fn \<and> b1 = b\<lparr>device := (device b)(fn \<mapsto> d)\<rparr> \<and> w1 = (m @ [m1], st)
    \<and> device_ok flush d (Some (length m)) (m @ [m1])"
proof -
  obtain pci_id class_id fn m2 k d where ids: "virtio_pci_ids dev = Some (pci_id, class_id)"
    and fn: "devfn_alloc b = Some fn"
    and reg: "cpu_register_device m 0 0x4000 name (DEVIO_SIZE8 OR DEVIO_SIZE16 OR DEVIO_SIZE32 OR DEVIO_DISABLED) = Some (m2, k)"
    and bar: "pci_register_bar (virtio_pci_config (new_device fn 0x1af4 pci_id 0x00 class_id) dev) 4 0x4000 0 (virtio_pci_bar_set flush k) = Some d"
    and b1: "b1 = b\<lparr>device := (device b)(fn \<mapsto> d)\<rparr>" "w1 = (m2, st)"
    using assms by (auto simp: virtio_pci_init_def pci_register_device_def split: option.splits if_splits)
  let ?v = "virtio_pci_config (new_device fn 0x1af4 pci_id 0x00 class_id) dev :: 'o machine_map pci_device"
  have v: "config ?v 0x0e = 0" "config ?v 4 = 0" "io_regions ?v = replicate PCI_NUM_REGIONS no_region"
    by (simp_all add: virtio_config_facts new_device_facts)
  obtain m1 where m1: "m2 = m @ [m1]" "k = length m" "pr_org_size m1 = 0x4000" "pr_size m1 = 0" "\<not> pr_is_ram m1"
    using reg by (auto simp: cpu_register_device_def DEVIO_SIZE8_def DEVIO_SIZE16_def DEVIO_SIZE32_def DEVIO_DISABLED_def split: if_splits)
  have d: "d = ?v\<lparr>io_regions := (io_regions ?v)[4 := \<lparr>r_size = 0x4000, r_type = 0, r_enabled = False, r_bar_set = virtio_pci_bar_set flush k\<rparr>],
      config := put_le32 (config ?v) 0x20 0\<rparr>"
    using bar by (auto simp: pci_register_bar_def bar_addr_def PCI_ROM_SLOT_def split: if_splits)
  have c: "config d 0x0e = 0" "config d 4 = 0" unfolding d using v by (simp_all add: put_le32_other)
  then have "\<not> mem_enabled d" by (simp add: mem_enabled_byte)
  moreover have "single_region flush d k"
    using c by (auto simp: single_region_def d v PCI_NUM_REGIONS_def no_region_def nth_list_update)
  moreover have "\<not> r_enabled (io_regions d ! 4)" by (simp add: d v PCI_NUM_REGIONS_def)
  ultimately have "device_ok flush d (Some (length m)) (m @ [m1])"
    using m1 by (simp add: device_ok_def range_follows_def)
  then show ?thesis using fn b1 m1 by auto
qed

section \<open>Runs\<close>

text \<open>The bridge of \<open>i440fx_init\<close>, then devices and configuration writes in any order; \<open>f\<close> is the entry
  of the memory map that each device number got.\<close>

inductive pci_run :: "(u64 \<Rightarrow> u64 \<Rightarrow> 'o \<Rightarrow> 'o) \<Rightarrow> 'o machine_map i440fx \<Rightarrow> (nat \<Rightarrow> nat option) \<Rightarrow> bool" for flush where
  bridge: "i440fx_init ports nm pics w = Some (s, ports1) \<Longrightarrow> pci_run flush s (\<lambda>_. None)"
| virtio_device: "pci_run flush s f \<Longrightarrow> virtio_pci_init flush (pci_bus s) (world s) dev name = Some (b, w)
    \<Longrightarrow> devfn_alloc (pci_bus s) = Some fn \<Longrightarrow> pci_run flush (s\<lparr>pci_bus := b, world := w\<rparr>) (f(fn \<mapsto> length (fst (world s))))"
| write_addr: "pci_run flush s f \<Longrightarrow> pci_run flush (i440fx_write_addr s v) f"
| write_data: "pci_run flush s f \<Longrightarrow> lg \<le> 2 \<Longrightarrow> offset < 4 \<Longrightarrow> pci_run flush (i440fx_write_data s offset v lg) f"

definition bus_ok :: "(u64 \<Rightarrow> u64 \<Rightarrow> 'o \<Rightarrow> 'o) \<Rightarrow> 'o machine_map i440fx \<Rightarrow> (nat \<Rightarrow> nat option) \<Rightarrow> bool" where
  "bus_ok flush s f \<longleftrightarrow> inj_on f (dom f) \<and> ran f \<subseteq> {..<length (fst (world s))}
     \<and> (\<forall>fn. device (pci_bus s) fn = None \<longrightarrow> f fn = None)
     \<and> (\<forall>fn d. device (pci_bus s) fn = Some d \<longrightarrow> device_ok flush d (f fn) (fst (world s)))"

lemma device_ok_cong:
  "device_ok flush d k m \<Longrightarrow> length m' \<ge> length m \<Longrightarrow> (\<And>j. k = Some j \<Longrightarrow> m' ! j = m ! j) \<Longrightarrow> device_ok flush d k m'"
  by (auto simp: device_ok_def split: option.splits)

lemma bridge_ok:
  assumes "i440fx_init ports nm pics w = Some (s, ports1)"
  shows "bus_ok flush s (\<lambda>_. None)"
proof -
  have up: "no_regions (d\<lparr>config := c\<rparr>) = no_regions d" for d :: "'o machine_map pci_device" and c by (simp add: no_regions_def)
  show ?thesis
    using assms by (auto simp: bus_ok_def device_ok_def i440fx_init_def pci_register_device_def upd_config_def up new_device_no_regions Let_def
      split: option.splits if_splits prod.splits)
qed

lemma addr_config_byte: "addr_config t \<le> 0xff"
proof -
  have "t AND 0xff \<le> 0xff" by (rule word_and_le1)
  then have "unat (t AND 0xff) \<le> 0xff" by (simp add: word_le_nat_alt)
  then show ?thesis by (simp add: addr_config_def word_le_nat_alt unsigned_ucast_eq take_bit_nat_eq_self)
qed

lemma pci_run_ok: "pci_run flush s f \<Longrightarrow> bus_ok flush s f"
proof (induction rule: pci_run.induct)
  case (bridge ports nm pics w s ports1)
  then show ?case by (rule bridge_ok)
next
  case (virtio_device s f dev name b w fn)
  obtain m st where w: "world s = (m, st)" by (metis surj_pair)
  obtain d m1 where n: "b = (pci_bus s)\<lparr>device := (device (pci_bus s))(fn \<mapsto> d)\<rparr>" "w = (m @ [m1], st)"
    "device_ok flush d (Some (length m)) (m @ [m1])"
    using virtio_pci_init_ok [of flush "pci_bus s" m st dev name b w] virtio_device.hyps(2,3) w by auto
  have fresh: "f fn = None" using virtio_device.IH devfn_alloc_free [OF virtio_device.hyps(3)] by (simp add: bus_ok_def)
  have r: "ran f \<subseteq> {..<length m}" using virtio_device.IH w by (simp add: bus_ok_def)
  have "device_ok flush e (f k) (m @ [m1])" if "device (pci_bus s) k = Some e" for k e
  proof (rule device_ok_cong)
    show "device_ok flush e (f k) m" using virtio_device.IH that w by (simp add: bus_ok_def)
    show "(m @ [m1]) ! j = m ! j" if "f k = Some j" for j using that r by (auto simp: nth_append ran_def)
  qed simp
  moreover have "f k = None" if "device (pci_bus s) k = None" for k
    using virtio_device.IH that by (simp add: bus_ok_def)
  moreover have "inj_on (f(fn \<mapsto> length m)) (dom (f(fn \<mapsto> length m)))"
    using virtio_device.IH r fresh by (auto simp: bus_ok_def inj_on_def ran_def dom_def) 
  moreover have "ran (f(fn \<mapsto> length m)) \<subseteq> {..<Suc (length m)}" using r fresh by (auto simp: ran_def)
  ultimately show ?case
    using n w unfolding bus_ok_def by (intro conjI allI) (simp_all, blast?)
next
  case (write_addr s f v)
  then show ?case by (simp add: bus_ok_def i440fx_write_addr_def)
next
  case (write_data s f lg offset v)
  obtain m st where w: "world s = (m, st)" by (metis surj_pair)
  let ?t = "config_target s offset lg"
  consider (none) "i440fx_write_data s offset v lg = s"
    | (some) d d1 m1 st1 where "device (pci_bus s) (addr_devfn ?t) = Some d"
      "pci_device_config_write (d, m, st) (addr_config ?t) v lg = (d1, m1, st1)"
      "i440fx_write_data s offset v lg
        = s\<lparr>pci_bus := (pci_bus s)\<lparr>device := (device (pci_bus s))(addr_devfn ?t \<mapsto> d1)\<rparr>, world := (m1, st1)\<rparr>"
  proof (cases "c_true (config_reg s AND 0x80000000) \<and> addr_bus ?t = bus_num (pci_bus s) \<and> device (pci_bus s) (addr_devfn ?t) \<noteq> None")
    case True
    then obtain d where d: "device (pci_bus s) (addr_devfn ?t) = Some d" by auto
    obtain d1 m1 st1 where r: "pci_device_config_write (d, m, st) (addr_config ?t) v lg = (d1, m1, st1)" by (metis surj_pair)
    show thesis by (rule some [OF d r]) (use True d r in \<open>simp add: i440fx_write_data_def pci_data_write_def w Let_def\<close>)
  next
    case False
    show thesis
      by (rule none) (use False in \<open>auto simp: i440fx_write_data_def pci_data_write_def Let_def\<close>)
  qed
  then show ?case
  proof cases
    case none
    then show ?thesis using write_data.IH by simp
  next
    case some
    let ?fn = "addr_devfn ?t"
    have ok: "device_ok flush d (f ?fn) m" using write_data.IH some(1) w by (simp add: bus_ok_def)
    have "addr_config ?t \<le> 0xff" by (rule addr_config_byte)
    note new = config_write_ok [OF ok this write_data.hyps(2) some(2)]
    have len: "length m1 = length m" using new by (simp add: only_at_def)
    have others: "device_ok flush e (f k) m1" if h: "device (pci_bus s) k = Some e" "k \<noteq> ?fn" for k e
    proof (rule device_ok_cong)
      show "device_ok flush e (f k) m" using write_data.IH h w by (simp add: bus_ok_def)
      show "m1 ! j = m ! j" if j: "f k = Some j" for j
      proof -
        have "f ?fn \<noteq> Some j"
          using write_data.IH j h(2) unfolding bus_ok_def by (metis domI inj_on_def)
        then show ?thesis using new by (simp add: only_at_def)
      qed
    qed (simp add: len)
    show ?thesis using write_data.IH some(1,3) new others len w by (simp add: bus_ok_def)
  qed
qed

text \<open>C11: the memory range of a VIRTIO device on the PCI bus follows its configuration space. In every
  run that creates devices and lets the guest write the address and data ports of the host bridge, in
  any order and at any size, a device's range has its 16 Kbytes at the address in its base address
  register exactly while the command register enables memory, and is disabled otherwise; and no two
  devices move the same range.\<close>

theorem virtio_bars_mapped:
  assumes "pci_run flush s f" and "device (pci_bus s) fn = Some d" and "f fn = Some k"
  shows "(if mem_enabled d then pr_size (fst (world s) ! k) = 0x4000 \<and> pr_addr (fst (world s) ! k) = ucast (bar_base d 4)
          else pr_size (fst (world s) ! k) = 0)
    \<and> \<not> (\<exists>fn'. fn' \<noteq> fn \<and> f fn' = Some k)"
proof -
  have ok: "bus_ok flush s f" by (rule pci_run_ok [OF assms(1)])
  then have "device_ok flush d (Some k) (fst (world s))" using assms(2,3) by (metis bus_ok_def)
  then have "range_follows (fst (world s) ! k) d" by (simp add: device_ok_def)
  moreover have "\<not> (\<exists>fn'. fn' \<noteq> fn \<and> f fn' = Some k)"
    using ok assms(3) unfolding bus_ok_def by (metis domI inj_on_def)
  ultimately show ?thesis by (simp add: range_follows_def)
qed

text \<open>A block device; the guest moves its region to \<open>0x40000000\<close> and enables it.\<close>

definition demo_bridge :: "unit machine_map i440fx" where
  "demo_bridge = fst (the (i440fx_init [] 7 (\<lambda>_ _ w. w) ([], ())))"

definition demo_block :: "unit machine_map i440fx" where
  "demo_block = (let (b, w) = the (virtio_pci_init (\<lambda>_ _ u. u) (pci_bus demo_bridge) (world demo_bridge) 2 9)
     in demo_bridge\<lparr>pci_bus := b, world := w\<rparr>)"

definition guest_config :: "u32 \<Rightarrow> u32 \<Rightarrow> 'w i440fx \<Rightarrow> 'w i440fx" where
  "guest_config a v s = i440fx_write_data (i440fx_write_addr s a) 0 v 2"

definition demo_mapped :: "unit machine_map i440fx" where
  "demo_mapped = guest_config 0x80001004 2 (guest_config 0x80001020 0x40000000 demo_block)"

lemma virtio_pci_init_total:
  assumes "virtio_pci_ids dev = Some (i, c)" and "devfn_alloc b = Some fn" and "length m < PHYS_MEM_RANGE_MAX"
  shows "\<exists>b1 w1. virtio_pci_init flush b (m, st) dev name = Some (b1, w1)"
  using assms devfn_alloc_free [OF assms(2)]
  by (simp add: virtio_pci_init_def pci_register_device_def cpu_register_device_def pci_register_bar_def virtio_config_facts
    new_device_facts PCI_NUM_REGIONS_def no_region_def)

lemma i440fx_init_world: "i440fx_init ports nm pics w = Some (s, ports1) \<Longrightarrow> world s = w"
  by (auto simp: i440fx_init_def Let_def split: option.splits prod.splits)

lemma demo_bridge_facts:
  "pci_run (\<lambda>_ _ u. u) demo_bridge (\<lambda>_. None)" "devfn_alloc (pci_bus demo_bridge) = Some 16" "world demo_bridge = ([], ())"
  "bus_num (pci_bus demo_bridge) = 0"
proof -
  have "\<not> Option.is_none (i440fx_init [] 7 (\<lambda>_ _ w. w) ([] :: phys_mem_map, ()))" by code_simp
  then obtain s p where i: "i440fx_init [] 7 (\<lambda>_ _ w. w) ([] :: phys_mem_map, ()) = Some (s, p)"
    by (auto simp: Option.is_none_def)
  show "pci_run (\<lambda>_ _ u. u) demo_bridge (\<lambda>_. None)"
    using pci_run.bridge [OF i] by (simp add: demo_bridge_def i)
  show "world demo_bridge = ([], ())" using i440fx_init_world [OF i] by (simp add: demo_bridge_def i)
qed code_simp+

lemma demo_block_facts:
  "pci_run (\<lambda>_ _ u. u) demo_block [16 \<mapsto> 0]" "bus_num (pci_bus demo_block) = 0"
  "\<exists>d. device (pci_bus demo_block) 16 = Some d \<and> single_region (\<lambda>_ _ u. u) d 0"
proof -
  have i: "virtio_pci_ids 2 = Some (0x1001, 0x0100)" by (simp add: virtio_pci_ids_def)
  obtain b w where v: "virtio_pci_init (\<lambda>_ _ u. u) (pci_bus demo_bridge) ([], ()) 2 9 = Some (b, w)"
    using virtio_pci_init_total [OF i demo_bridge_facts(2), of "[]" "\<lambda>_ _ u. u" "()" 9]
    by (auto simp: PHYS_MEM_RANGE_MAX_def simp del: split_paired_Ex)
  then have e: "demo_block = demo_bridge\<lparr>pci_bus := b, world := w\<rparr>" by (simp add: demo_block_def demo_bridge_facts)
  show "pci_run (\<lambda>_ _ u. u) demo_block [16 \<mapsto> 0]"
    using pci_run.virtio_device [OF demo_bridge_facts(1) _ demo_bridge_facts(2), of 2 9 b w] v e by (simp add: demo_bridge_facts)
  obtain d m1 where n: "b = (pci_bus demo_bridge)\<lparr>device := (device (pci_bus demo_bridge))(16 \<mapsto> d)\<rparr>"
    "device_ok (\<lambda>_ _ u. u) d (Some 0) [m1]"
    using virtio_pci_init_ok [OF v] by (auto simp: demo_bridge_facts)
  show "bus_num (pci_bus demo_block) = 0" using n by (simp add: e demo_bridge_facts)
  show "\<exists>d. device (pci_bus demo_block) 16 = Some d \<and> single_region (\<lambda>_ _ u. u) d 0"
    using n by (simp add: e device_ok_def)
qed

lemma demo_addresses:
  "addr_bus (0x80001020 AND NOT 3) = 0" "addr_devfn (0x80001020 AND NOT 3) = 16" "addr_config (0x80001020 AND NOT 3) = bar_addr 4"
  "c_true (0x80001020 AND 0x80000000 :: u32)"
  "addr_bus (0x80001004 AND NOT 3) = 0" "addr_devfn (0x80001004 AND NOT 3) = 16" "addr_config (0x80001004 AND NOT 3) = 4"
  "c_true (0x80001004 AND 0x80000000 :: u32)"
  by code_simp+

theorem bar_sizing_witness:
  "i440fx_read_data (guest_config 0x80001020 (-1) demo_block) 0 2 = 0xffffc000
   \<and> bar_size_of (i440fx_read_data (guest_config 0x80001020 (-1) demo_block) 0 2) 0 = 0x4000"
proof -
  obtain d where d: "device (pci_bus demo_block) 16 = Some d" "single_region (\<lambda>_ _ u. u) d 0" using demo_block_facts(3) by auto
  then have sel: "selects_bar demo_block 0x80001020 4 d"
    using demo_addresses(1-4) by (simp only: selects_bar_def demo_block_facts(2)) simp
  have r: "r_size (io_regions d ! 4) = 0x4000" "r_type (io_regions d ! 4) = 0" using d(2) by (simp_all add: single_region_def)
  have b: "i440fx_read_data (guest_config 0x80001020 (-1) demo_block) 0 2 = bar_value (io_regions d ! 4) (-1)
      \<and> bar_size_of (i440fx_read_data (guest_config 0x80001020 (-1) demo_block) 0 2) 0 = 0x4000"
    unfolding guest_config_def by (rule bar_sizing [OF sel, of "-1", unfolded r]) simp_all
  moreover have "bar_value (io_regions d ! 4) (-1) = 0xffffc000" by (simp add: bar_value_def r)
  ultimately show ?thesis by metis
qed

text \<open>The write of the command register.\<close>

lemma command_write:
  "config (fst (pci_device_config_write (d, w) 4 2 2)) 4 = 2"
  "x \<in> {0x20, 0x21, 0x22, 0x23} \<Longrightarrow> config (fst (pci_device_config_write (d, w) 4 2 2)) x = config d x"
  "same_layout d (fst (pci_device_config_write (d, w) 4 2 2))"
proof -
  let ?d1 = "foldl (config_write_byte 4 2) d [0, 1, 2, 3]"
  have u: "[0..<4] = [0, 1, 2, 3 :: nat]" by code_simp
  have e: "pci_device_config_write (d, w) 4 2 2 = pci_update_mappings (?d1, w)"
    by (simp add: pci_device_config_write_def Let_def u)
  have ro: "\<not> config_read_only h 4" "\<not> config_read_only h 5" for h by (auto simp: config_read_only_def ro_common_def)
  show "config (fst (pci_device_config_write (d, w) 4 2 2)) 4 = 2"
    by (simp add: e update_mappings_frame config_write_byte_def pci_device_config_write8_def ro)
  show "config (fst (pci_device_config_write (d, w) 4 2 2)) x = config d x" if "x \<in> {0x20, 0x21, 0x22, 0x23}"
    unfolding e update_mappings_frame(1) fst_conv by (rule bytes_frame(1)) (use that in auto)
  have "same_layout d ?d1" using bytes_frame(2-4) [of 4 2 d "[0, 1, 2, 3]"] unfolding same_layout_def by metis
  then show "same_layout d (fst (pci_device_config_write (d, w) 4 2 2))"
    using update_mappings_frame(2) [of "(?d1, w)"] by (simp add: e same_layout_trans)
qed

theorem virtio_bars_mapped_witness:
  "pr_size (fst (world demo_mapped) ! 0) = 0x4000 \<and> pr_addr (fst (world demo_mapped) ! 0) = 0x40000000"
proof -
  let ?s1 = "guest_config 0x80001020 0x40000000 demo_block"
  obtain d where d: "device (pci_bus demo_block) 16 = Some d" "single_region (\<lambda>_ _ u. u) d 0" using demo_block_facts(3) by auto
  then have sel: "selects_bar demo_block 0x80001020 4 d"
    using demo_addresses(1-4) by (simp only: selects_bar_def demo_block_facts(2)) simp
  have r: "r_size (io_regions d ! 4) = 0x4000" "r_type (io_regions d ! 4) = 0" using d(2) by (simp_all add: single_region_def)
  obtain d1 where d1: "selects_bar ?s1 0x80001020 4 d1" "config d1 = put_le32 (config d) (bar_addr 4) 0x40000000"
    using selected_write(1) [OF sel, of "0x40000000"] r by (auto simp: guest_config_def bar_value_def)
  have dev1: "device (pci_bus ?s1) 16 = Some d1" "bus_num (pci_bus ?s1) = 0"
    using d1(1) demo_addresses(1,2) by (simp_all only: selects_bar_def)
  have run1: "pci_run (\<lambda>_ _ u. u) ?s1 [16 \<mapsto> 0]"
    unfolding guest_config_def by (intro pci_run.write_data pci_run.write_addr demo_block_facts) simp_all
  have "device_ok (\<lambda>_ _ u. u) d1 (Some 0) (fst (world ?s1))" using pci_run_ok [OF run1] dev1(1) unfolding bus_ok_def by (metis fun_upd_same)
  then have r1: "r_size (io_regions d1 ! 4) = 0x4000" by (simp add: device_ok_def single_region_def)
  obtain d2 w2 where w: "pci_device_config_write (d1, world ?s1) 4 2 2 = (d2, w2)" by (metis surj_pair)
  have c2: "config d2 4 = 2" "\<And>x. x \<in> {0x20, 0x21, 0x22, 0x23} \<Longrightarrow> config d2 x = config d1 x" "same_layout d1 d2"
    using command_write [where d = d1 and w = "world ?s1"] by (simp_all add: w)
  have dev2: "device (pci_bus demo_mapped) 16 = Some d2"
    unfolding demo_mapped_def guest_config_def [of "0x80001004"]
    using demo_addresses(5-8) dev1 w
    by (simp only: i440fx_write_data_def config_target_def pci_data_write_def Let_def i440fx_write_addr_def) simp
  have run2: "pci_run (\<lambda>_ _ u. u) demo_mapped [16 \<mapsto> 0]"
    unfolding demo_mapped_def guest_config_def [of "0x80001004"] by (intro pci_run.write_data pci_run.write_addr run1) simp_all
  have "mem_enabled d2" using c2(1) by (simp add: mem_enabled_byte)
  moreover have "bar_base d2 4 = 0x40000000"
  proof -
    have "bar_base d2 4 = bar_base d1 4" using c2(2,3) by (intro bar_base_cong) (simp_all add: same_layout_def)
    also have "\<dots> = 0x40000000" using d1(2) r1 by (simp add: bar_base_def get_put_le32)
    finally show ?thesis .
  qed
  ultimately show ?thesis using virtio_bars_mapped [OF run2 dev2, of 0] by simp
qed

theorem capability_list_witness:
  "cap_walk 9 (config (virtio_pci_config (new_device 16 0x1af4 0x1001 0 0x100 :: unit pci_device) 2))
     (config (virtio_pci_config (new_device 16 0x1af4 0x1001 0 0x100 :: unit pci_device) 2) 0x34) = [112, 96, 80, 64]"
proof -
  let ?d = "pci_device_set_config8 (pci_device_set_config16 (pci_device_set_config16 (new_device 16 0x1af4 0x1001 0 0x100) 0x2c 0x1af4) 0x2e 2) (ucast PCI_INTERRUPT_PIN) 1
    :: unit pci_device"
  let ?caps = "[virtio_cap 1 4 VIRTIO_PCI_CFG_OFFSET 0x1000 0, virtio_cap 3 4 VIRTIO_PCI_ISR_OFFSET 0x1000 0,
    virtio_cap 4 4 VIRTIO_PCI_CONFIG_OFFSET 0x1000 0, virtio_cap 2 4 VIRTIO_PCI_NOTIFY_OFFSET 0x1000 0]"
  have d: "next_cap_offset ?d = 0x40" "config ?d 0x34 = 0"
    by (simp_all add: pci_device_set_config8_def pci_device_set_config16_def new_device_def put_le16_def)
  have "virtio_pci_config (new_device 16 0x1af4 0x1001 0 0x100) 2 = add_capabilities ?d ?caps"
    by (simp add: virtio_pci_config_def virtio_add_pci_capability_def add_capabilities_def Let_def)
  then show ?thesis
    using capability_list [of ?d ?caps 9, OF d] by (simp add: virtio_cap_length)
qed

theorem capability_space_wraps_witness:
  "config (snd (pci_add_capability (snd (pci_add_capability (new_device 16 0x1af4 0x1001 0 0x100 :: unit pci_device) (replicate 192 0))) [0x09])) 0 = 0x09"
  using capability_space_wraps [of "new_device 16 0x1af4 0x1001 0 0x100 :: unit pci_device" "replicate 192 0" "[0x09]"]
  by (simp add: new_device_facts)

end
