(* ===== verification/Ide.thy ===== *)
theory Ide
  imports VirtioDev Pci
begin

text \<open>
  \<open>ide.c\<close>: the IDE controller with its two drives on block devices: the registers, the commands, and the
  transfers of sectors through the data port. The functions of a \<open>BlockDevice\<close> are \<open>ops\<close>, as in
  \<^theory_text>\<open>VirtioDev\<close>; a request that the host ends later ends with \<open>ide_read_done\<close> or \<open>ide_write_done\<close>. \<open>None\<close>
  is an access out of the buffer of a drive.
\<close>

section \<open>State\<close>

abbreviation (input) ERR_STAT :: u8 where "ERR_STAT \<equiv> 0x01"
abbreviation (input) DRQ_STAT :: u8 where "DRQ_STAT \<equiv> 0x08"
abbreviation (input) SEEK_STAT :: u8 where "SEEK_STAT \<equiv> 0x10"
abbreviation (input) READY_STAT :: u8 where "READY_STAT \<equiv> 0x40"
abbreviation (input) BUSY_STAT :: u8 where "BUSY_STAT \<equiv> 0x80"
abbreviation (input) ABRT_ERR :: u8 where "ABRT_ERR \<equiv> 0x04"
abbreviation (input) IDE_CMD_RESET :: u8 where "IDE_CMD_RESET \<equiv> 0x04"
abbreviation (input) IDE_CMD_DISABLE_IRQ :: u8 where "IDE_CMD_DISABLE_IRQ \<equiv> 0x02"
abbreviation (input) WIN_RECAL :: u32 where "WIN_RECAL \<equiv> 0x10"
abbreviation (input) WIN_READ :: u32 where "WIN_READ \<equiv> 0x20"
abbreviation (input) WIN_READ_ONCE :: u32 where "WIN_READ_ONCE \<equiv> 0x21"
abbreviation (input) WIN_WRITE :: u32 where "WIN_WRITE \<equiv> 0x30"
abbreviation (input) WIN_WRITE_ONCE :: u32 where "WIN_WRITE_ONCE \<equiv> 0x31"
abbreviation (input) WIN_SPECIFY :: u32 where "WIN_SPECIFY \<equiv> 0x91"
abbreviation (input) WIN_MULTREAD :: u32 where "WIN_MULTREAD \<equiv> 0xC4"
abbreviation (input) WIN_MULTWRITE :: u32 where "WIN_MULTWRITE \<equiv> 0xC5"
abbreviation (input) WIN_SETMULT :: u32 where "WIN_SETMULT \<equiv> 0xC6"
abbreviation (input) WIN_IDENTIFY :: u32 where "WIN_IDENTIFY \<equiv> 0xEC"
abbreviation (input) WIN_READ_NATIVE_MAX :: u32 where "WIN_READ_NATIVE_MAX \<equiv> 0xF8"

definition MAX_MULT_SECTORS :: nat where "MAX_MULT_SECTORS = 128"
definition IO_BUFFER_SIZE :: nat where "IO_BUFFER_SIZE = 128 * 512 + 4"

text \<open>The functions that end a transfer.\<close>

datatype end_transfer = Transfer_Stop | Sector_Read | Sector_Read_Cb_End | Sector_Write_Cb1 | Identify_Cb

record 'd ide_state =
  ide_bs :: 'd
  cylinders :: int
  heads :: int
  sectors :: int
  mult_sectors :: int
  ide_nb_sectors :: int
  ide_feature :: u8
  ide_error :: u8
  nsector :: u16
  ide_sector :: u8
  lcyl :: u8
  hcyl :: u8
  ide_select :: u8
  ide_status :: u8
  io_nb_sectors :: int
  req_nb_sectors :: int
  end_transfer_func :: end_transfer
  data_index :: nat
  data_end :: nat
  io_buffer :: "u8 list"

text \<open>What the drives share: the control register and the level of the interrupt line.\<close>

record ide_line =
  ide_cmd :: u8
  ide_irq :: int

text \<open>\<open>cur_drive\<close> is the number of the drive that the pointer of the source is taken from.\<close>

record 'd ide_if =
  line :: ide_line
  cur_drive :: nat
  drives :: "nat \<Rightarrow> 'd ide_state option"

section \<open>Identification\<close>

definition stw :: "u8 list \<Rightarrow> nat \<times> int \<Rightarrow> u8 list" where
  "stw tab kv = (let (k, v) = kv in tab[2 * k := word_of_int v, 2 * k + 1 := word_of_int (v div 256)])"

text \<open>The buffer is at an even address.\<close>

definition padstr :: "u8 list \<Rightarrow> nat \<Rightarrow> u8 list \<Rightarrow> nat \<Rightarrow> u8 list" where
  "padstr tab start src len =
     foldl (\<lambda>b i. b[nat (int (start + i) XOR 1) := (if i < length src then src ! i else 0x20)]) tab [0..<len]"

definition identify_head :: "'d ide_state \<Rightarrow> (nat \<times> int) list" where
  "identify_head s = [(0, 0x0040), (1, cylinders s), (3, heads s), (4, 512 * sectors s), (5, 512), (6, sectors s), (20, 3), (21, 512), (22, 4)]"

definition identify_tail :: "'d ide_state \<Rightarrow> (nat \<times> int) list" where
  "identify_tail s =
     (let oldsize = uint (word_of_int (cylinders s * heads s * sectors s) :: u32)
      in [(47, 0x8000 OR int MAX_MULT_SECTORS), (48, 0), (49, 0x200), (51, 0x200), (52, 0x200), (54, cylinders s), (55, heads s),
          (56, sectors s), (57, oldsize), (58, drop_bit 16 oldsize)]
         @ (if mult_sectors s \<noteq> 0 then [(59, 0x100 OR mult_sectors s)] else [])
         @ [(60, ide_nb_sectors s), (61, drop_bit 16 (ide_nb_sectors s)), (80, 6), (82, 0x4000), (83, 0x4000), (84, 0x4000),
            (85, 0x4000), (86, 0), (87, 0x4000)])"

definition drive_name :: "u8 list" where
  "drive_name = map of_char ''RISCVEMU HARDDISK''"

definition ide_identify :: "'d ide_state \<Rightarrow> 'd ide_state" where
  "ide_identify s =
     (let b0 = replicate 1024 0 @ drop 1024 (io_buffer s);
          b1 = foldl stw b0 (identify_head s);
          b2 = padstr b1 54 drive_name 40
      in s\<lparr>io_buffer := foldl stw b2 (identify_tail s)\<rparr>)"

section \<open>Registers and transfers\<close>

definition ide_set_signature :: "'d ide_state \<Rightarrow> 'd ide_state" where
  "ide_set_signature s = s\<lparr>ide_select := ide_select s AND 0xf0, nsector := 1, ide_sector := 1, lcyl := 0, hcyl := 0\<rparr>"

definition ide_abort_command :: "'d ide_state \<Rightarrow> 'd ide_state" where
  "ide_abort_command s = s\<lparr>ide_status := READY_STAT OR ERR_STAT, ide_error := ABRT_ERR\<rparr>"

definition ide_set_irq :: "ide_line \<Rightarrow> ide_line" where
  "ide_set_irq l = (if \<not> c_true (ide_cmd l AND IDE_CMD_DISABLE_IRQ) then l\<lparr>ide_irq := 1\<rparr> else l)"

definition ide_transfer_start :: "'d ide_state \<Rightarrow> nat \<Rightarrow> end_transfer \<Rightarrow> 'd ide_state" where
  "ide_transfer_start s sz f = s\<lparr>end_transfer_func := f, data_index := 0, data_end := sz\<rparr>"

definition ide_transfer_stop :: "'d ide_state \<Rightarrow> 'd ide_state" where
  "ide_transfer_stop s = s\<lparr>end_transfer_func := Transfer_Stop, data_index := 0, data_end := 0\<rparr>"

definition lba_mode :: "'d ide_state \<Rightarrow> bool" where
  "lba_mode s \<longleftrightarrow> c_true (ide_select s AND 0x40)"

definition ide_get_sector :: "'d ide_state \<Rightarrow> int" where
  "ide_get_sector s =
     (if lba_mode s then
        push_bit 24 (uint (ide_select s AND 0x0f)) OR push_bit 16 (uint (hcyl s)) OR push_bit 8 (uint (lcyl s)) OR uint (ide_sector s)
      else (push_bit 8 (uint (hcyl s)) OR uint (lcyl s)) * heads s * sectors s
         + uint (ide_select s AND 0x0f) * sectors s + (uint (ide_sector s) - 1))"

definition ide_set_sector :: "'d ide_state \<Rightarrow> int \<Rightarrow> 'd ide_state" where
  "ide_set_sector s sector_num =
     (if lba_mode s then
        s\<lparr>ide_select := (ide_select s AND 0xf0) OR word_of_int (drop_bit 24 sector_num AND 0x0f),
          hcyl := word_of_int (drop_bit 16 sector_num), lcyl := word_of_int (drop_bit 8 sector_num), ide_sector := word_of_int sector_num\<rparr>
      else
        let cyl = word_of_int (sector_num sdiv (heads s * sectors s)) :: u32;
            r = word_of_int (sector_num smod (heads s * sectors s)) :: u32;
            secs = word_of_int (sectors s)
        in s\<lparr>hcyl := ucast (drop_bit 8 cyl), lcyl := ucast cyl,
             ide_select := (ide_select s AND 0xf0) OR ucast ((r div secs) AND 0x0f), ide_sector := ucast (r mod secs + 1)\<rparr>)"

definition chunk :: "'d ide_state \<Rightarrow> int" where
  "chunk s = (let n = (if nsector s = 0 then 256 else int (unat (nsector s))) in if n > req_nb_sectors s then req_nb_sectors s else n)"

definition sectors_done :: "'d ide_state \<Rightarrow> int \<Rightarrow> 'd ide_state" where
  "sectors_done s n =
     (let s1 = ide_set_sector s (ide_get_sector s + n) in s1\<lparr>nsector := (nsector s1 - word_of_int n) AND 0xff\<rparr>)"

section \<open>Reading and writing\<close>

definition ide_sector_read_cb :: "'d ide_state \<times> ide_line \<Rightarrow> 'd ide_state \<times> ide_line" where
  "ide_sector_read_cb sl =
     (let (s, l) = sl; n = io_nb_sectors s; s1 = sectors_done s n;
          s2 = ide_transfer_start s1 (nat (512 * n)) (if nsector s1 = 0 then Sector_Read_Cb_End else Sector_Read)
      in (s2\<lparr>ide_status := READY_STAT OR SEEK_STAT OR DRQ_STAT, ide_error := 0\<rparr>, ide_set_irq l))"

definition ide_sector_read :: "'d block_ops \<Rightarrow> 'd ide_state \<times> ide_line \<Rightarrow> ('d ide_state \<times> ide_line) option" where
  "ide_sector_read ops sl =
     (let (s, l) = sl; s1 = s\<lparr>io_nb_sectors := chunk s\<rparr>
      in case read_async ops (ide_bs s1) (word_of_int (ide_get_sector s)) (io_buffer s1) (chunk s) of
           None \<Rightarrow> None
         | Some (ret, data, d) \<Rightarrow>
             let s2 = s1\<lparr>ide_bs := d, io_buffer := data\<rparr>
             in if ret < 0 then Some (ide_abort_command s2, ide_set_irq l)
                else if ret = 0 then Some (ide_sector_read_cb (s2, l))
                else Some (s2\<lparr>ide_status := READY_STAT OR SEEK_STAT OR BUSY_STAT, ide_error := 0\<rparr>, l))"

definition ide_sector_read_cb_end :: "'d ide_state \<Rightarrow> 'd ide_state" where
  "ide_sector_read_cb_end s = ide_transfer_stop (s\<lparr>ide_status := READY_STAT OR SEEK_STAT, ide_error := 0\<rparr>)"

definition ide_sector_write_cb2 :: "'d ide_state \<times> ide_line \<Rightarrow> 'd ide_state \<times> ide_line" where
  "ide_sector_write_cb2 sl =
     (let (s, l) = sl; s1 = sectors_done s (io_nb_sectors s)
      in if nsector s1 = 0 then (s1\<lparr>ide_status := READY_STAT OR SEEK_STAT\<rparr>, ide_set_irq l)
         else
           let n = (if int (unat (nsector s1)) > req_nb_sectors s1 then req_nb_sectors s1 else int (unat (nsector s1)));
               s2 = ide_transfer_start (s1\<lparr>io_nb_sectors := n\<rparr>) (nat (512 * n)) Sector_Write_Cb1
           in (s2\<lparr>ide_status := READY_STAT OR SEEK_STAT OR DRQ_STAT\<rparr>, ide_set_irq l))"

text \<open>The device is handed the sectors at the front of the buffer.\<close>

definition ide_sector_write_cb1 :: "'d block_ops \<Rightarrow> 'd ide_state \<times> ide_line \<Rightarrow> ('d ide_state \<times> ide_line) option" where
  "ide_sector_write_cb1 ops sl =
     (let (s, l) = sl; s1 = ide_transfer_stop s
      in case write_async ops (ide_bs s1) (word_of_int (ide_get_sector s1)) (take (nat (512 * io_nb_sectors s1)) (io_buffer s1)) (io_nb_sectors s1) of
           None \<Rightarrow> None
         | Some (ret, d) \<Rightarrow>
             let s2 = s1\<lparr>ide_bs := d\<rparr>
             in if ret < 0 then Some (ide_abort_command s2, ide_set_irq l)
                else if ret = 0 then Some (ide_sector_write_cb2 (s2, l))
                else Some (s2\<lparr>ide_status := READY_STAT OR SEEK_STAT OR BUSY_STAT\<rparr>, l))"

definition ide_sector_write :: "'d ide_state \<Rightarrow> 'd ide_state" where
  "ide_sector_write s =
     (let s1 = ide_transfer_start (s\<lparr>io_nb_sectors := chunk s\<rparr>) (nat (512 * chunk s)) Sector_Write_Cb1
      in s1\<lparr>ide_status := READY_STAT OR SEEK_STAT OR DRQ_STAT\<rparr>)"

definition ide_identify_cb :: "'d ide_state \<Rightarrow> 'd ide_state" where
  "ide_identify_cb s = (ide_transfer_stop s)\<lparr>ide_status := READY_STAT\<rparr>"

definition run_end_transfer :: "'d block_ops \<Rightarrow> 'd ide_state \<times> ide_line \<Rightarrow> ('d ide_state \<times> ide_line) option" where
  "run_end_transfer ops sl =
     (let (s, l) = sl
      in case end_transfer_func s of
           Transfer_Stop \<Rightarrow> Some (ide_transfer_stop s, l)
         | Sector_Read \<Rightarrow> ide_sector_read ops (s, l)
         | Sector_Read_Cb_End \<Rightarrow> Some (ide_sector_read_cb_end s, l)
         | Sector_Write_Cb1 \<Rightarrow> ide_sector_write_cb1 ops (s, l)
         | Identify_Cb \<Rightarrow> Some (ide_identify_cb s, l))"

section \<open>Commands\<close>

definition ide_exec_cmd :: "'d block_ops \<Rightarrow> 'd ide_state \<times> ide_line \<Rightarrow> u32 \<Rightarrow> ('d ide_state \<times> ide_line) option" where
  "ide_exec_cmd ops sl val =
     (let (s, l) = sl
      in if val = WIN_IDENTIFY then
           Some (ide_transfer_start ((ide_identify s)\<lparr>ide_status := READY_STAT OR SEEK_STAT OR DRQ_STAT\<rparr>) 512 Identify_Cb, ide_set_irq l)
         else if val = WIN_SPECIFY \<or> val = WIN_RECAL then
           Some (s\<lparr>ide_error := 0, ide_status := READY_STAT OR SEEK_STAT\<rparr>, ide_set_irq l)
         else if val = WIN_SETMULT then
           Some (if nsector s > of_nat MAX_MULT_SECTORS \<or> nsector s AND (nsector s - 1) \<noteq> 0 then ide_abort_command s
                 else s\<lparr>mult_sectors := int (unat (nsector s)), ide_status := READY_STAT\<rparr>, ide_set_irq l)
         else if val = WIN_READ \<or> val = WIN_READ_ONCE then ide_sector_read ops (s\<lparr>req_nb_sectors := 1\<rparr>, l)
         else if val = WIN_WRITE \<or> val = WIN_WRITE_ONCE then Some (ide_sector_write (s\<lparr>req_nb_sectors := 1\<rparr>), l)
         else if val = WIN_MULTREAD then
           (if mult_sectors s = 0 then Some (ide_abort_command s, ide_set_irq l)
            else ide_sector_read ops (s\<lparr>req_nb_sectors := mult_sectors s\<rparr>, l))
         else if val = WIN_MULTWRITE then
           (if mult_sectors s = 0 then Some (ide_abort_command s, ide_set_irq l)
            else Some (ide_sector_write (s\<lparr>req_nb_sectors := mult_sectors s\<rparr>), l))
         else if val = WIN_READ_NATIVE_MAX then
           Some ((ide_set_sector s (ide_nb_sectors s - 1))\<lparr>ide_status := READY_STAT\<rparr>, ide_set_irq l)
         else Some (ide_abort_command s, ide_set_irq l))"

section \<open>Ports\<close>

definition set_drive :: "'d ide_if \<Rightarrow> nat \<Rightarrow> 'd ide_state \<times> ide_line \<Rightarrow> 'd ide_if" where
  "set_drive t k sl = t\<lparr>line := snd sl, drives := (drives t)(k \<mapsto> fst sl)\<rparr>"

definition upd_reg :: "'d ide_if \<Rightarrow> ('d ide_state \<Rightarrow> 'd ide_state) \<Rightarrow> 'd ide_if" where
  "upd_reg t f = t\<lparr>drives := (drives t)(cur_drive t := map_option f (drives t (cur_drive t)))\<rparr>"

definition ide_ioport_write :: "'d block_ops \<Rightarrow> 'd ide_if \<Rightarrow> u32 \<Rightarrow> u32 \<Rightarrow> 'd ide_if option" where
  "ide_ioport_write ops t offset val =
     (let addr = offset + 1
      in if addr = 0 then Some t
         else if addr = 1 then Some (upd_reg t (\<lambda>s. s\<lparr>ide_feature := ucast val\<rparr>))
         else if addr = 2 then Some (upd_reg t (\<lambda>s. s\<lparr>nsector := ucast val\<rparr>))
         else if addr = 3 then Some (upd_reg t (\<lambda>s. s\<lparr>ide_sector := ucast val\<rparr>))
         else if addr = 4 then Some (upd_reg t (\<lambda>s. s\<lparr>lcyl := ucast val\<rparr>))
         else if addr = 5 then Some (upd_reg t (\<lambda>s. s\<lparr>hcyl := ucast val\<rparr>))
         else if addr = 6 then Some (upd_reg (t\<lparr>cur_drive := unat (drop_bit 4 val AND 1)\<rparr>) (\<lambda>s. s\<lparr>ide_select := ucast val\<rparr>))
         else
           case drives t (cur_drive t) of
             None \<Rightarrow> Some t
           | Some s \<Rightarrow> map_option (set_drive t (cur_drive t)) (ide_exec_cmd ops (s, line t) val))"

definition ide_ioport_read :: "'d ide_if \<Rightarrow> u32 \<Rightarrow> u32 \<times> 'd ide_if" where
  "ide_ioport_read t offset =
     (let addr = offset + 1
      in case drives t (cur_drive t) of
           None \<Rightarrow> (0, t)
         | Some s \<Rightarrow>
             if addr = 0 then (0xff, t)
             else if addr = 1 then (ucast (ide_error s), t)
             else if addr = 2 then (ucast (nsector s), t)
             else if addr = 3 then (ucast (ide_sector s), t)
             else if addr = 4 then (ucast (lcyl s), t)
             else if addr = 5 then (ucast (hcyl s), t)
             else if addr = 6 then (ucast (ide_select s), t)
             else (ucast (ide_status s), t\<lparr>line := (line t)\<lparr>ide_irq := 0\<rparr>\<rparr>))"

definition ide_status_read :: "'d ide_if \<Rightarrow> u32" where
  "ide_status_read t = (case drives t (cur_drive t) of None \<Rightarrow> 0 | Some s \<Rightarrow> ucast (ide_status s))"

definition both_drives :: "('d ide_state \<Rightarrow> 'd ide_state) \<Rightarrow> 'd ide_if \<Rightarrow> 'd ide_if" where
  "both_drives f t = t\<lparr>drives := (drives t)(0 := map_option f (drives t 0), 1 := map_option f (drives t 1))\<rparr>"

definition ide_cmd_write :: "'d ide_if \<Rightarrow> u32 \<Rightarrow> 'd ide_if" where
  "ide_cmd_write t val =
     (let old = c_true (ide_cmd (line t) AND IDE_CMD_RESET); new = c_true (val AND 0x04);
          t1 = (if \<not> old \<and> new then both_drives (\<lambda>s. s\<lparr>ide_status := BUSY_STAT OR SEEK_STAT, ide_error := 0x01\<rparr>) t
                else if old \<and> \<not> new then both_drives (\<lambda>s. ide_set_signature (s\<lparr>ide_status := READY_STAT OR SEEK_STAT\<rparr>)) t
                else t)
      in t1\<lparr>line := (line t1)\<lparr>ide_cmd := ucast val\<rparr>\<rparr>)"

definition data_port_end :: "'d block_ops \<Rightarrow> 'd ide_if \<Rightarrow> 'd ide_state \<Rightarrow> 'd ide_if option" where
  "data_port_end ops t s =
     (let s1 = s\<lparr>data_index := data_index s + 2\<rparr>
      in if data_index s1 \<ge> data_end s1 then map_option (set_drive t (cur_drive t)) (run_end_transfer ops (s1, line t))
         else Some (set_drive t (cur_drive t) (s1, line t)))"

definition ide_data_writew :: "'d block_ops \<Rightarrow> 'd ide_if \<Rightarrow> u32 \<Rightarrow> 'd ide_if option" where
  "ide_data_writew ops t val =
     (case drives t (cur_drive t) of
        None \<Rightarrow> Some t
      | Some s \<Rightarrow>
          let p = data_index s
          in if p + 1 \<ge> length (io_buffer s) then None
             else data_port_end ops t (s\<lparr>io_buffer := (io_buffer s)[p := ucast val, p + 1 := ucast (drop_bit 8 val)]\<rparr>))"

definition ide_data_readw :: "'d block_ops \<Rightarrow> 'd ide_if \<Rightarrow> (u32 \<times> 'd ide_if) option" where
  "ide_data_readw ops t =
     (case drives t (cur_drive t) of
        None \<Rightarrow> Some (0, t)
      | Some s \<Rightarrow>
          let p = data_index s
          in if p + 1 \<ge> length (io_buffer s) then None
             else map_option (\<lambda>t1. (ucast (io_buffer s ! p) OR push_bit 8 (ucast (io_buffer s ! (p + 1))), t1)) (data_port_end ops t s))"

text \<open>The end of a request that the host has deferred, for the drive \<open>k\<close>; \<open>data\<close> is what it left in the
  buffer. The result of the request is ignored.\<close>

definition ide_read_done :: "'d ide_if \<Rightarrow> nat \<Rightarrow> u8 list \<Rightarrow> int \<Rightarrow> 'd ide_if" where
  "ide_read_done t k data ret =
     (case drives t k of
        None \<Rightarrow> t
      | Some s \<Rightarrow> set_drive t k (ide_sector_read_cb (s\<lparr>io_buffer := data\<rparr>, line t)))"

definition ide_write_done :: "'d ide_if \<Rightarrow> nat \<Rightarrow> int \<Rightarrow> 'd ide_if" where
  "ide_write_done t k ret =
     (case drives t k of
        None \<Rightarrow> t
      | Some s \<Rightarrow> set_drive t k (ide_sector_write_cb2 (s, line t)))"

section \<open>Initialisation\<close>

definition ide_drive_init :: "'d block_ops \<Rightarrow> 'd \<Rightarrow> 'd ide_state" where
  "ide_drive_init ops d =
     (let n = get_sector_count ops d; c = ucast (n div (16 * 63)) :: u32;
          cyl = (if c > 16383 then 16383 else if c < 2 then 2 else c)
      in \<lparr>ide_bs = d, cylinders = sint cyl, heads = 16, sectors = 63, mult_sectors = int MAX_MULT_SECTORS, ide_nb_sectors = sint n,
          ide_feature = 0, ide_error = 0, nsector = 0, ide_sector = 0, lcyl = 0, hcyl = 0, ide_select = 0xa0,
          ide_status = READY_STAT OR SEEK_STAT, io_nb_sectors = 0, req_nb_sectors = 0, end_transfer_func = Transfer_Stop,
          data_index = 0, data_end = 0, io_buffer = replicate IO_BUFFER_SIZE 0\<rparr>)"

definition ide_ports :: "phys_mem_map \<Rightarrow> u32 \<Rightarrow> u32 \<Rightarrow> nat \<Rightarrow> phys_mem_map option" where
  "ide_ports m addr addr2 name =
     (case cpu_register_device m (ucast addr) 1 name DEVIO_SIZE16 of
        None \<Rightarrow> None
      | Some (m1, _) \<Rightarrow>
          (case cpu_register_device m1 (ucast (addr + 1)) 7 name DEVIO_SIZE8 of
             None \<Rightarrow> None
           | Some (m2, _) \<Rightarrow>
               if addr2 = 0 then Some m2 else map_option fst (cpu_register_device m2 (ucast addr2) 1 name DEVIO_SIZE8)))"

definition ide_init :: "'d block_ops \<Rightarrow> phys_mem_map \<Rightarrow> u32 \<Rightarrow> u32 \<Rightarrow> nat \<Rightarrow> 'd option \<Rightarrow> 'd option \<Rightarrow> ('d ide_if \<times> phys_mem_map) option" where
  "ide_init ops port_map addr addr2 name b0 b1 =
     map_option (\<lambda>m. (\<lparr>line = \<lparr>ide_cmd = 0, ide_irq = 0\<rparr>, cur_drive = 0,
         drives = (\<lambda>_. None)(0 := map_option (ide_drive_init ops) b0, 1 := map_option (ide_drive_init ops) b1)\<rparr>, m))
       (ide_ports port_map addr addr2 name)"

text \<open>The dummy PCI device; \<open>None\<close> also where the bus has no room.\<close>

definition piix3_ide_init :: "'w pci_bus \<Rightarrow> int \<Rightarrow> ('w pci_bus \<times> nat) option" where
  "piix3_ide_init b fn =
     map_option (\<lambda>(b1, k). (b1\<lparr>device := (device b1)(k := map_option (\<lambda>d. pci_device_set_config8 d 0x09 0x00) (device b1 k))\<rparr>, k))
       (pci_register_device b fn 0x8086 0x7010 0x00 0x0101)"

end
