(* ===== verification/IdeSpec.thy ===== *)
theory IdeSpec
  imports Ide BlockSpec
begin

text \<open>
  The IDE controller as a disk: what a guest reads from the data port after a read command are the
  sectors of the block device, what it writes there after a write command reaches them; and no access
  of the data port leaves the buffer, as long as the block device ends its reads at once and without
  an error.
\<close>

section \<open>Sector numbers\<close>

text \<open>The selection of LBA is kept, and the registers hold the 28 low bits of the number.\<close>

lemma lba_mode_bit: "lba_mode s \<longleftrightarrow> bit (ide_select s) 6"
proof -
  have "(ide_select s AND 0x40 \<noteq> 0) = bit (ide_select s) 6" by (simp add: bit_iff_and_push_bit_not_eq_0)
  then show ?thesis by (simp add: lba_mode_def)
qed

lemma low_nibble: "bit (0x0f :: int) n \<longleftrightarrow> n < 4" "bit (0x0f :: u8) n \<longleftrightarrow> n < 4"
proof -
  have "(0x0f :: int) = mask 4" "(0x0f :: u8) = mask 4" by (simp_all add: mask_eq_exp_minus_1)
  then show "bit (0x0f :: int) n \<longleftrightarrow> n < 4" "bit (0x0f :: u8) n \<longleftrightarrow> n < 4" by (simp_all only: bit_mask_iff) auto
qed

lemma get_sector_bit:
  assumes "lba_mode s"
  shows "bit (ide_get_sector s) n \<longleftrightarrow> (if n < 8 then bit (ide_sector s) n else if n < 16 then bit (lcyl s) (n - 8)
    else if n < 24 then bit (hcyl s) (n - 16) else n < 28 \<and> bit (ide_select s) (n - 24))"
  using assms by (auto simp: ide_get_sector_def bit_simps low_nibble dest: bit_imp_le_length)

lemma set_sector_lba:
  assumes "lba_mode s"
  shows "lba_mode (ide_set_sector s v)" "ide_get_sector (ide_set_sector s v) = take_bit 28 v"
proof -
  let ?s = "ide_set_sector s v"
  have n: "\<not> bit ((0xf0 :: u8)) n" if "n < 4" for n
  proof -
    have "n = 0 \<or> n = 1 \<or> n = 2 \<or> n = 3" using that by presburger
    then show ?thesis by auto
  qed
  then have n4: "bit ((0xf0 :: u8)) n \<Longrightarrow> 4 \<le> n" for n by (meson not_less)
  have e: "ide_select ?s = (ide_select s AND 0xf0) OR word_of_int (drop_bit 24 v AND 0x0f)" "hcyl ?s = word_of_int (drop_bit 16 v)"
    "lcyl ?s = word_of_int (drop_bit 8 v)" "ide_sector ?s = word_of_int v"
    using assms by (simp_all add: ide_set_sector_def)
  show m: "lba_mode ?s" using assms unfolding lba_mode_bit e by (simp add: bit_simps)
  show "ide_get_sector ?s = take_bit 28 v"
  proof (rule bit_eqI)
    fix i
    show "bit (ide_get_sector ?s) i \<longleftrightarrow> bit (take_bit 28 v) i"
      using n4 [of "i - 24"] by (auto simp: get_sector_bit [OF m] e bit_simps low_nibble n add.commute)
  qed
qed

text \<open>The sectors that are left: a count of 0 stands for 256.\<close>

definition left :: "'d ide_state \<Rightarrow> nat" where
  "left s = (if nsector s = 0 then 256 else unat (nsector s))"

lemma chunk_left: "0 \<le> req_nb_sectors s \<Longrightarrow> chunk s = int (min (left s) (nat (req_nb_sectors s)))"
proof -
  assume h: "0 \<le> req_nb_sectors s"
  have "chunk s = min (int (left s)) (req_nb_sectors s)" by (simp add: chunk_def left_def min_def)
  then show ?thesis using h by simp
qed

lemma left_after:
  assumes "left s \<le> 256" and "n \<le> left s" and "0 < n"
  defines "w \<equiv> (nsector s - word_of_int (int n)) AND 0xff"
  shows "w = 0 \<longleftrightarrow> n = left s" "n < left s \<Longrightarrow> unat w = left s - n"
proof -
  have m: "w AND 0xff = take_bit 8 w" for w :: u16 using and_mask_take_bit [of w 8] by (simp add: mask_eq_exp_minus_1)
  have u: "unat w = (unat (nsector s) + (2 ^ 16 - n)) mod 256"
  proof -
    have "nsector s - word_of_int (int n) = of_nat (unat (nsector s)) + of_nat (2 ^ 16 - n)"
      using assms(1,2) by (simp add: of_nat_diff)
    also have "\<dots> = of_nat (unat (nsector s) + (2 ^ 16 - n))" by simp
    finally have "unat w = unat (take_bit 8 (of_nat (unat (nsector s) + (2 ^ 16 - n)) :: u16))" by (simp only: w_def m)
    also have "\<dots> = (unat (nsector s) + (2 ^ 16 - n)) mod 256"
      by (simp only: unsigned_take_bit_eq unsigned_of_nat take_bit_take_bit) (simp add: take_bit_eq_mod mod_mod_cancel)
    finally show ?thesis .
  qed
  have l: "unat w = (left s - n) mod 256"
  proof (cases "nsector s = 0")
    case True
    then have "2 ^ 16 - n = (left s - n) + 255 * 256" using assms(1,2) by (simp add: left_def)
    then show ?thesis using True u mod_mult_self1 [of "left s - n" 255 256] by simp
  next
    case False
    then have "unat (nsector s) + (2 ^ 16 - n) = (left s - n) + 256 * 256" using assms(1,2) by (simp add: left_def)
    then show ?thesis using u mod_mult_self1 [of "left s - n" 256 256] by simp
  qed
  show "n < left s \<Longrightarrow> unat w = left s - n" using l assms(1,3) by simp
  show "w = 0 \<longleftrightarrow> n = left s"
  proof
    assume "w = 0"
    then have "(left s - n) mod 256 = 0" using l by simp
    then show "n = left s" using assms(1-3) by simp
  qed (use l in \<open>simp add: unat_eq_0\<close>)
qed

section \<open>Words through the data port\<close>

definition word_bytes :: "u32 \<Rightarrow> u8 list" where
  "word_bytes v = [ucast v, ucast (drop_bit 8 v)]"

fun read_words :: "'d block_ops \<Rightarrow> nat \<Rightarrow> 'd ide_if \<Rightarrow> (u8 list \<times> 'd ide_if) option" where
  "read_words ops 0 t = Some ([], t)"
| "read_words ops (Suc n) t =
     (case ide_data_readw ops t of
        None \<Rightarrow> None
      | Some (v, t1) \<Rightarrow> map_option (\<lambda>(b, t2). (word_bytes v @ b, t2)) (read_words ops n t1))"

fun write_words :: "'d block_ops \<Rightarrow> u32 list \<Rightarrow> 'd ide_if \<Rightarrow> 'd ide_if option" where
  "write_words ops [] t = Some t"
| "write_words ops (v # vs) t = Option.bind (ide_data_writew ops t v) (write_words ops vs)"

lemma read_words_append:
  "read_words ops (m + n) t =
     Option.bind (read_words ops m t) (\<lambda>(b, t1). map_option (\<lambda>(b', t2). (b @ b', t2)) (read_words ops n t1))"
proof (induction m arbitrary: t)
  case 0
  show ?case by (cases "read_words ops n t") simp_all
next
  case (Suc m)
  show ?case
  proof (cases "ide_data_readw ops t")
    case (Some vt)
    show ?thesis
      using Suc [of "snd vt"] by (cases vt; cases "read_words ops m (snd vt)") (auto simp: Some option.map_comp o_def split_def)
  qed simp
qed

lemma write_words_append: "write_words ops (vs @ ws) t = Option.bind (write_words ops vs t) (write_words ops ws)"
  by (induction vs arbitrary: t) (simp_all split: Option.bind_split)

lemma write_words_nil: "write_words ops [] = Some"
  by (intro ext) simp

lemma data_word_join: "word_bytes (ucast (a :: u8) OR push_bit 8 (ucast (b :: u8))) = [a, b]"
proof -
  have "(ucast (ucast a OR push_bit 8 (ucast b) :: u32) :: u8) = a"
    by (rule bit_word_eqI) (auto simp: bit_simps)
  moreover have "(ucast (drop_bit 8 (ucast a OR push_bit 8 (ucast b)) :: u32) :: u8) = b"
    by (rule bit_word_eqI) (auto simp: bit_simps dest: bit_imp_le_length)
  ultimately show ?thesis by (simp add: word_bytes_def)
qed

text \<open>The drive \<open>k\<close> is the current one; its transfer goes on, or ends with the last word.\<close>

definition at_drive :: "'d ide_if \<Rightarrow> 'd ide_state \<times> ide_line \<Rightarrow> 'd ide_if" where
  "at_drive t sl = set_drive t (cur_drive t) sl"

lemma at_drive_simps [simp]:
  "drives (at_drive t sl) (cur_drive t) = Some (fst sl)" "cur_drive (at_drive t sl) = cur_drive t"
  "line (at_drive t sl) = snd sl" "at_drive (at_drive t sl) sl' = at_drive t sl'"
  by (simp_all add: at_drive_def set_drive_def)

lemma set_at_drive: "set_drive (at_drive t sl) (cur_drive t) = at_drive t"
  by (intro ext) (simp add: at_drive_def set_drive_def)

lemma at_drive_other: "j \<noteq> cur_drive t \<Longrightarrow> drives (at_drive t sl) j = drives t j"
  by (simp add: at_drive_def set_drive_def)

lemma read_step:
  assumes "data_index s + 1 < length (io_buffer s)"
  shows "ide_data_readw ops (at_drive t (s, l)) =
    (if data_index s + 2 < data_end s then
       Some (ucast (io_buffer s ! data_index s) OR push_bit 8 (ucast (io_buffer s ! Suc (data_index s))), at_drive t (s\<lparr>data_index := data_index s + 2\<rparr>, l))
     else
       map_option (\<lambda>sl. (ucast (io_buffer s ! data_index s) OR push_bit 8 (ucast (io_buffer s ! Suc (data_index s))), at_drive t sl))
         (run_end_transfer ops (s\<lparr>data_index := data_index s + 2\<rparr>, l)))"
  using assms at_drive_simps(4) [of t "(s, l)"]
  by (simp add: ide_data_readw_def data_port_end_def Let_def option.map_comp o_def flip: at_drive_def)
    (simp add: at_drive_def set_drive_def)

lemma take_two: "p + 1 < length b \<Longrightarrow> take (Suc (Suc m)) (drop p b) = b ! p # b ! Suc p # take m (drop (p + 2) b)"
  by (simp add: Cons_nth_drop_Suc [symmetric])

lemma read_part:
  assumes "data_index s + 2 * n < data_end s" and "data_end s \<le> length (io_buffer s)"
  shows "read_words ops n (at_drive t (s, l)) =
    Some (take (2 * n) (drop (data_index s) (io_buffer s)), at_drive t (s\<lparr>data_index := data_index s + 2 * n\<rparr>, l))"
  using assms
proof (induction n arbitrary: s)
  case (Suc n)
  let ?s = "s\<lparr>data_index := data_index s + 2\<rparr>"
  have p: "data_index s + 1 < length (io_buffer s)" "data_index s + 2 < data_end s" using Suc.prems by simp_all
  have "read_words ops n (at_drive t (?s, l)) = Some (take (2 * n) (drop (data_index s + 2) (io_buffer s)), at_drive t (s\<lparr>data_index := data_index s + (2 + 2 * n)\<rparr>, l))"
    using Suc.IH [of ?s] Suc.prems by (simp add: add.assoc)
  then show ?case
    using p by (simp add: read_step data_word_join take_two)
qed simp

lemma read_transfer:
  assumes "data_index s = 0" and "data_end s = 2 * Suc n" and "data_end s \<le> length (io_buffer s)"
  shows "read_words ops (Suc n) (at_drive t (s, l)) =
    map_option (\<lambda>sl. (take (2 * Suc n) (io_buffer s), at_drive t sl)) (run_end_transfer ops (s\<lparr>data_index := data_end s\<rparr>, l))"
proof -
  let ?s = "s\<lparr>data_index := 2 * n\<rparr>" and ?e = "s\<lparr>data_index := 2 * n + 2\<rparr>"
  have a: "read_words ops n (at_drive t (s, l)) = Some (take (2 * n) (io_buffer s), at_drive t (?s, l))"
    using read_part [of s n ops t l] assms by simp
  have b: "read_words ops 1 (at_drive t (?s, l)) = map_option (\<lambda>sl. ([io_buffer s ! (2 * n), io_buffer s ! Suc (2 * n)], at_drive t sl)) (run_end_transfer ops (?e, l))"
    using assms by (simp add: read_step data_word_join split: option.split)
  have t: "take (2 * Suc n) (io_buffer s) = take (2 * n) (io_buffer s) @ [io_buffer s ! (2 * n), io_buffer s ! Suc (2 * n)]"
    using assms by (simp add: take_Suc_conv_app_nth)
  show ?thesis
    unfolding t using read_words_append [of ops n 1 "at_drive t (s, l)"] assms
    by (simp add: a b [unfolded One_nat_def] option.map_comp o_def del: read_words.simps)
qed

definition bytes_of :: "u32 list \<Rightarrow> u8 list" where
  "bytes_of vs = concat (map word_bytes vs)"

lemma word_bytes_simps [simp]: "bytes_of [] = []" "bytes_of (v # vs) = word_bytes v @ bytes_of vs" "bytes_of (vs @ ws) = bytes_of vs @ bytes_of ws"
  "length (word_bytes v) = 2"
  by (simp_all add: bytes_of_def word_bytes_def)

lemma length_data_bytes [simp]: "length (bytes_of vs) = 2 * length vs"
  by (induction vs) simp_all

lemma write_step:
  fixes v
  assumes "data_index s + 1 < length (io_buffer s)"
  defines "s1 \<equiv> s\<lparr>io_buffer := write_bytes (io_buffer s) (data_index s) (word_bytes v), data_index := data_index s + 2\<rparr>"
  shows "ide_data_writew ops (at_drive t (s, l)) v =
    (if data_index s + 2 < data_end s then Some (at_drive t (s1, l)) else map_option (at_drive t) (run_end_transfer ops (s1, l)))"
proof -
  have b: "(io_buffer s)[data_index s := ucast v, Suc (data_index s) := ucast (drop_bit 8 v)] = write_bytes (io_buffer s) (data_index s) (word_bytes v)"
    using assms by (simp add: write_bytes_def word_bytes_def upd_conv_take_nth_drop nth_append Cons_nth_drop_Suc take_Suc_conv_app_nth list_update_append)
  show ?thesis
    using assms(1) by (simp add: ide_data_writew_def data_port_end_def Let_def b s1_def set_at_drive)
qed

lemma write_part:
  assumes "data_index s + 2 * length vs < data_end s" and "data_end s \<le> length (io_buffer s)"
  shows "write_words ops vs (at_drive t (s, l)) = Some (at_drive t
    (s\<lparr>io_buffer := write_bytes (io_buffer s) (data_index s) (bytes_of vs), data_index := data_index s + 2 * length vs\<rparr>, l))"
  using assms
proof (induction vs arbitrary: s)
  case (Cons v vs)
  let ?s = "s\<lparr>io_buffer := write_bytes (io_buffer s) (data_index s) (word_bytes v), data_index := data_index s + 2\<rparr>"
  have p: "data_index s + 1 < length (io_buffer s)" "data_index s + 2 < data_end s" using Cons.prems by simp_all
  have len: "length (write_bytes (io_buffer s) (data_index s) (word_bytes v)) = length (io_buffer s)" using p by (simp add: write_bytes_def)
  have "write_words ops vs (at_drive t (?s, l)) = Some (at_drive t
      (?s\<lparr>io_buffer := write_bytes (io_buffer ?s) (data_index ?s) (bytes_of vs), data_index := data_index ?s + 2 * length vs\<rparr>, l))"
    by (rule Cons.IH) (use Cons.prems len in simp_all)
  moreover have "write_bytes (write_bytes (io_buffer s) (data_index s) (word_bytes v)) (data_index s + 2) (bytes_of vs)
      = write_bytes (io_buffer s) (data_index s) (word_bytes v @ bytes_of vs)"
    using write_bytes_twice [of "data_index s" "word_bytes v" "bytes_of vs" "io_buffer s"] Cons.prems by simp
  ultimately show ?case using p by (simp add: write_step)
qed (simp add: write_bytes_def)

lemma write_transfer:
  assumes "data_index s = 0" and "data_end s = 2 * length vs" and "vs \<noteq> []" and "data_end s \<le> length (io_buffer s)"
  shows "write_words ops vs (at_drive t (s, l)) =
    map_option (at_drive t) (run_end_transfer ops (s\<lparr>io_buffer := write_bytes (io_buffer s) 0 (bytes_of vs), data_index := data_end s\<rparr>, l))"
proof -
  obtain us u where v: "vs = us @ [u]" using assms(3) by (cases vs rule: rev_cases) auto
  let ?s = "s\<lparr>io_buffer := write_bytes (io_buffer s) 0 (bytes_of us), data_index := 2 * length us\<rparr>"
  have a: "write_words ops us (at_drive t (s, l)) = Some (at_drive t (?s, l))"
    using write_part [of s us ops t l] assms by (simp add: v)
  have len: "length (write_bytes (io_buffer s) 0 (bytes_of us)) = length (io_buffer s)" using assms by (simp add: v write_bytes_def)
  have b: "write_bytes (write_bytes (io_buffer s) 0 (bytes_of us)) (2 * length us) (word_bytes u) = write_bytes (io_buffer s) 0 (bytes_of us @ word_bytes u)"
    using write_bytes_twice [of 0 "bytes_of us" "word_bytes u" "io_buffer s"] assms by (simp add: v)
  show ?thesis
    unfolding v write_words_append a using assms len by (simp add: v write_step b write_words_nil)
qed

section \<open>Reading sectors\<close>

text \<open>A drive that waits for its sectors from \<open>i\<close> on, \<open>m\<close> of them, in LBA mode.\<close>

definition drive_at :: "'d ide_state \<Rightarrow> nat \<Rightarrow> nat \<Rightarrow> bool" where
  "drive_at s i m \<longleftrightarrow> lba_mode s \<and> ide_get_sector s = int i \<and> left s = m \<and> 0 < m \<and> m \<le> 256 \<and> i + m \<le> 2 ^ 28
     \<and> 1 \<le> req_nb_sectors s \<and> req_nb_sectors s \<le> int MAX_MULT_SECTORS \<and> length (io_buffer s) = IO_BUFFER_SIZE"

definition chunk_size :: "'d ide_state \<Rightarrow> nat" where
  "chunk_size s = min (left s) (nat (req_nb_sectors s))"

lemma chunk_facts:
  assumes "drive_at s i m"
  shows "chunk s = int (chunk_size s)" "0 < chunk_size s" "chunk_size s \<le> m" "chunk_size s \<le> 128" "512 * chunk_size s + 4 \<le> length (io_buffer s)"
  using assms chunk_left [of s] by (auto simp: drive_at_def chunk_size_def MAX_MULT_SECTORS_def IO_BUFFER_SIZE_def)

lemma set_sector_frame [simp]:
  "ide_bs (ide_set_sector s v) = ide_bs s" "io_buffer (ide_set_sector s v) = io_buffer s" "req_nb_sectors (ide_set_sector s v) = req_nb_sectors s"
  "nsector (ide_set_sector s v) = nsector s" "io_nb_sectors (ide_set_sector s v) = io_nb_sectors s" "mult_sectors (ide_set_sector s v) = mult_sectors s"
  "data_index (ide_set_sector s v) = data_index s" "data_end (ide_set_sector s v) = data_end s" "end_transfer_func (ide_set_sector s v) = end_transfer_func s"
  by (simp_all add: ide_set_sector_def Let_def)

lemma sectors_done_frame [simp]:
  "ide_bs (sectors_done s n) = ide_bs s" "io_buffer (sectors_done s n) = io_buffer s" "req_nb_sectors (sectors_done s n) = req_nb_sectors s"
  "io_nb_sectors (sectors_done s n) = io_nb_sectors s" "mult_sectors (sectors_done s n) = mult_sectors s"
  "data_index (sectors_done s n) = data_index s" "data_end (sectors_done s n) = data_end s" "end_transfer_func (sectors_done s n) = end_transfer_func s"
  by (simp_all add: sectors_done_def Let_def)

lemma done_at:
  assumes "drive_at s i m" and "0 < n" and "n \<le> m"
  shows "nsector (sectors_done s (int n)) = 0 \<longleftrightarrow> n = m" and "n < m \<Longrightarrow> drive_at (sectors_done s (int n)) (i + n) (m - n)"
proof -
  have a: "lba_mode s" "ide_get_sector s = int i" "left s = m" "m \<le> 256" "i + m \<le> 2 ^ 28"
    using assms(1) by (simp_all add: drive_at_def)
  let ?s = "sectors_done s (int n)"
  have ns: "nsector ?s = (nsector s - word_of_int (int n)) AND 0xff" by (simp add: sectors_done_def Let_def)
  note l = left_after [of s n, folded ns]
  show "nsector ?s = 0 \<longleftrightarrow> n = m" using l(1) a assms by simp
  show "drive_at ?s (i + n) (m - n)" if "n < m"
  proof -
    have g: "lba_mode ?s" "ide_get_sector ?s = take_bit 28 (int i + int n)"
      using set_sector_lba [OF a(1), of "ide_get_sector s + int n"] a(2) by (simp_all add: sectors_done_def Let_def lba_mode_def ide_get_sector_def)
    moreover have "take_bit 28 (int i + int n) = int (i + n)"
      using that a(5) by (simp add: take_bit_eq_mod)
    moreover have "left ?s = m - n"
      using l a that assms(2) by (simp add: left_def [of ?s])
    ultimately show ?thesis using that assms a by (simp add: drive_at_def)
  qed
qed

lemma at_cong:
  "drive_at (s\<lparr>io_nb_sectors := a\<rparr>) i m = drive_at s i m" "drive_at (s\<lparr>data_index := b\<rparr>) i m = drive_at s i m"
  "drive_at (s\<lparr>data_end := b\<rparr>) i m = drive_at s i m" "drive_at (s\<lparr>end_transfer_func := f\<rparr>) i m = drive_at s i m"
  "drive_at (s\<lparr>ide_status := st\<rparr>) i m = drive_at s i m" "drive_at (s\<lparr>ide_error := st\<rparr>) i m = drive_at s i m"
  "drive_at (s\<lparr>ide_bs := d\<rparr>) i m = drive_at s i m"
  "length bytes = length (io_buffer s) \<Longrightarrow> drive_at (s\<lparr>io_buffer := bytes\<rparr>) i m = drive_at s i m"
  by (simp_all add: drive_at_def lba_mode_def ide_get_sector_def left_def)

definition idle_status :: u8 where "idle_status = READY_STAT OR SEEK_STAT"

lemma length_io: "512 * n + 4 \<le> length b \<Longrightarrow> length xs = 512 * n \<Longrightarrow> length (write_bytes b 0 xs) = length b"
  by (simp add: write_bytes_def)

context block_backend
begin

text \<open>The drive's device, and the contents of the disk it has.\<close>

definition holds :: "'d ide_state \<Rightarrow> bool \<Rightarrow> u8 list \<Rightarrow> bool" where
  "holds s w c \<longleftrightarrow> inv (ide_bs s) \<and> rw (ide_bs s) = w \<and> contents (ide_bs s) = c"

lemma sector_read_sync:
  assumes at: "drive_at s i m" and h: "holds s w c" and fit: "512 * (i + m) \<le> length c"
  shows "\<exists>s'. ide_sector_read ops (s, l) = Some (s', ide_set_irq l) \<and> holds s' w c \<and> data_index s' = 0
    \<and> data_end s' = 512 * chunk_size s \<and> length (io_buffer s') = IO_BUFFER_SIZE
    \<and> take (512 * chunk_size s) (io_buffer s') = take (512 * chunk_size s) (drop (512 * i) c)
    \<and> end_transfer_func s' = (if chunk_size s = m then Sector_Read_Cb_End else Sector_Read)
    \<and> (chunk_size s < m \<longrightarrow> drive_at s' (i + chunk_size s) (m - chunk_size s)) \<and> req_nb_sectors s' = req_nb_sectors s
    \<and> mult_sectors s' = mult_sectors s"
proof -
  let ?n = "chunk_size s" and ?part = "take (512 * chunk_size s) (drop (512 * i) c)"
  note n = chunk_facts [OF at]
  have lp: "length ?part = 512 * ?n" using fit n(3) by simp
  obtain d' where r: "read_async ops (ide_bs s) (of_nat i) (io_buffer s) (int ?n) = Some (0, write_bytes (io_buffer s) 0 ?part, d')"
    "inv d'" "contents d' = c" "rw d' = w"
    using read_ok [of "ide_bs s" i ?n "io_buffer s"] h fit n by (auto simp: holds_def)
  define s1 where "s1 = s\<lparr>io_nb_sectors := int ?n, ide_bs := d', io_buffer := write_bytes (io_buffer s) 0 ?part\<rparr>"
  have at1: "drive_at s1 i m" unfolding s1_def using at length_io [OF n(5) lp] by (simp add: at_cong)
  have e: "ide_sector_read ops (s, l) = Some (ide_sector_read_cb (s1, l))"
    using r(1) n(1) at by (simp add: ide_sector_read_def Let_def s1_def drive_at_def)
  have io: "io_nb_sectors s1 = int ?n" "io_buffer s1 = write_bytes (io_buffer s) 0 ?part" "ide_bs s1 = d'" "req_nb_sectors s1 = req_nb_sectors s"
    "mult_sectors s1 = mult_sectors s"
    by (simp_all add: s1_def)
  note d = done_at [OF at1 n(2,3)]
  have t: "take (512 * ?n) (write_bytes (io_buffer s) 0 ?part) = ?part" using lp by (simp add: write_bytes_def)
  have len: "length (write_bytes (io_buffer s) 0 ?part) = IO_BUFFER_SIZE" using length_io [OF n(5) lp] at by (simp add: drive_at_def)
  show ?thesis
    using d r n(3) t len
    by (intro exI [of _ "fst (ide_sector_read_cb (s1, l))"])
      (auto simp: e ide_sector_read_cb_def Let_def ide_transfer_start_def io holds_def at_cong nat_mult_distrib)
qed

lemma read_all:
  assumes "drive_at s i m" and "holds s w c" and "512 * (i + m) \<le> length c" and "ide_sector_read ops (s, l) = Some sl"
  shows "\<exists>s' l'. read_words ops (256 * m) (at_drive t sl) = Some (take (512 * m) (drop (512 * i) c), at_drive t (s', l'))
    \<and> holds s' w c \<and> ide_status s' = idle_status \<and> data_end s' = 0"
  using assms
proof (induction m arbitrary: s i l sl t rule: less_induct)
  case (less m)
  let ?n = "chunk_size s"
  note n = chunk_facts [OF less.prems(1)]
  obtain s1 where s1: "sl = (s1, ide_set_irq l)" "holds s1 w c" "data_index s1 = 0" "data_end s1 = 512 * ?n" "length (io_buffer s1) = IO_BUFFER_SIZE"
    "take (512 * ?n) (io_buffer s1) = take (512 * ?n) (drop (512 * i) c)"
    "end_transfer_func s1 = (if ?n = m then Sector_Read_Cb_End else Sector_Read)"
    "?n < m \<Longrightarrow> drive_at s1 (i + ?n) (m - ?n)"
    using sector_read_sync [OF less.prems(1-3), of l] less.prems(4) by auto
  obtain k where k: "256 * ?n = Suc k" using n(2) by (cases "256 * ?n") auto
  have k2: "2 * Suc k = 512 * ?n" using k by simp
  let ?s2 = "s1\<lparr>data_index := data_end s1\<rparr>"
  have words: "read_words ops (256 * ?n) (at_drive t sl) =
      map_option (\<lambda>sl. (take (512 * ?n) (drop (512 * i) c), at_drive t sl)) (run_end_transfer ops (?s2, ide_set_irq l))"
    unfolding k using read_transfer [of s1 k ops t "ide_set_irq l", unfolded k2] s1 n(4)
    by (simp add: IO_BUFFER_SIZE_def del: read_words.simps)
  show ?case
  proof (cases "?n = m")
    case True
    then show ?thesis
      using words s1 by (auto simp: run_end_transfer_def ide_sector_read_cb_end_def ide_transfer_stop_def holds_def idle_status_def)
  next
    case False
    then have lt: "?n < m" using n(3) by simp
    have at2: "drive_at ?s2 (i + ?n) (m - ?n)" using s1(8) [OF lt] by (simp add: at_cong)
    have h2: "holds ?s2 w c" using s1(2) by (simp add: holds_def)
    have fit2: "512 * (i + ?n + (m - ?n)) \<le> length c" using less.prems(3) lt by simp
    obtain sl2 where sl2: "ide_sector_read ops (?s2, ide_set_irq l) = Some sl2" using sector_read_sync [OF at2 h2 fit2] by blast
    obtain s' l' where rest: "read_words ops (256 * (m - ?n)) (at_drive t sl2) = Some (take (512 * (m - ?n)) (drop (512 * (i + ?n)) c), at_drive t (s', l'))"
      "holds s' w c" "ide_status s' = idle_status" "data_end s' = 0"
      using less.IH [OF _ at2 h2 fit2 sl2, of t] n(2) lt by auto
    have "take (512 * m) (drop (512 * i) c) = take (512 * ?n) (drop (512 * i) c) @ take (512 * (m - ?n)) (drop (512 * (i + ?n)) c)"
    proof -
      have "512 * m = 512 * ?n + 512 * (m - ?n)" using lt by simp
      then show ?thesis by (simp add: take_add add_mult_distrib2 drop_drop add.commute)
    qed
    moreover have "256 * m = 256 * ?n + 256 * (m - ?n)" using lt by simp
    ultimately show ?thesis
      using rest words sl2 s1(7) False read_words_append [of ops "256 * ?n" "256 * (m - ?n)" "at_drive t sl"]
      by (auto simp: run_end_transfer_def)
  qed
qed

text \<open>A drive that waits for the bytes of its next chunk of sectors.\<close>

definition writing :: "'d ide_state \<Rightarrow> nat \<Rightarrow> nat \<Rightarrow> bool" where
  "writing s i m \<longleftrightarrow> drive_at s i m \<and> data_index s = 0 \<and> data_end s = 512 * chunk_size s \<and> end_transfer_func s = Sector_Write_Cb1
     \<and> io_nb_sectors s = int (chunk_size s)"

lemma write_chunk:
  assumes at: "writing s i m" and h: "holds s True c" and fit: "512 * (i + m) \<le> length c" and len: "length data = 512 * chunk_size s"
    and s1: "s1 = s\<lparr>io_buffer := write_bytes (io_buffer s) 0 data, data_index := data_end s\<rparr>"
  shows "\<exists>s' l'. run_end_transfer ops (s1, l) = Some (s', l') \<and> holds s' True (write_bytes c (512 * i) data)
    \<and> (if chunk_size s = m then ide_status s' = idle_status \<and> data_end s' = 0 else writing s' (i + chunk_size s) (m - chunk_size s))"
proof -
  let ?n = "chunk_size s"
  have at': "drive_at s i m" using at by (simp add: writing_def)
  note n = chunk_facts [OF at']
  obtain d' where w: "write_async ops (ide_bs s) (of_nat i) data (int ?n) = Some (0, d')" "inv d'" "contents d' = write_bytes c (512 * i) data" "rw d'"
    using write_ok [of "ide_bs s" i data ?n] h fit len n(3) by (auto simp: holds_def)
  have buf: "take (512 * ?n) (write_bytes (io_buffer s) 0 data) = data" using len by (simp add: write_bytes_def)
  define s2 where "s2 = (ide_transfer_stop s1)\<lparr>ide_bs := d'\<rparr>"
  have at1: "drive_at (ide_transfer_stop s1) i m"
    unfolding s1 ide_transfer_stop_def using at' length_io [OF n(5) len] by (simp add: at_cong)
  then have at2: "drive_at s2 i m" by (simp add: s2_def at_cong)
  have st: "ide_get_sector (ide_transfer_stop s1) = int i" "io_nb_sectors (ide_transfer_stop s1) = int ?n"
    "ide_bs (ide_transfer_stop s1) = ide_bs s" "take (512 * ?n) (io_buffer (ide_transfer_stop s1)) = data" "end_transfer_func s1 = Sector_Write_Cb1"
    using at at1 buf by (simp_all add: drive_at_def writing_def) (simp_all add: s1 ide_transfer_stop_def)
  have nn: "nat (512 * int ?n) = 512 * ?n" by simp
  have e: "run_end_transfer ops (s1, l) = Some (ide_sector_write_cb2 (s2, l))"
    using w(1) by (simp add: run_end_transfer_def ide_sector_write_cb1_def Let_def st nn s2_def)
  have io: "io_nb_sectors s2 = int ?n" "ide_bs s2 = d'" "data_end s2 = 0" "data_index s2 = 0"
    using at by (simp_all add: s2_def s1 ide_transfer_stop_def writing_def)
  let ?s3 = "sectors_done s2 (int ?n)"
  note d = done_at [OF at2 n(2,3)]
  show ?thesis
  proof (cases "?n = m")
    case True
    then show ?thesis using e d(1) w io by (auto simp: ide_sector_write_cb2_def Let_def holds_def idle_status_def)
  next
    case False
    then have lt: "?n < m" using n(3) by simp
    note at3 = d(2) [OF lt]
    have c3: "(if int (unat (nsector ?s3)) > req_nb_sectors ?s3 then req_nb_sectors ?s3 else int (unat (nsector ?s3))) = int (chunk_size ?s3)"
      using chunk_facts(1) [OF at3] d(1) False by (simp add: chunk_def Let_def split: if_splits)
    let ?s4 = "(ide_transfer_start (?s3\<lparr>io_nb_sectors := int (chunk_size ?s3)\<rparr>) (512 * chunk_size ?s3) Sector_Write_Cb1)
        \<lparr>ide_status := READY_STAT OR SEEK_STAT OR DRQ_STAT\<rparr>"
    have "ide_sector_write_cb2 (s2, l) = (?s4, ide_set_irq l)"
      using d(1) False unfolding ide_sector_write_cb2_def io Let_def prod.case c3 by (simp add: nat_mult_distrib)
    moreover have "chunk_size ?s4 = chunk_size ?s3" by (simp add: chunk_size_def left_def ide_transfer_start_def)
    then have "writing ?s4 (i + ?n) (m - ?n)"
      using at3 unfolding writing_def ide_transfer_start_def by (simp add: at_cong)
    moreover have "holds ?s4 True (write_bytes c (512 * i) data)" using w io by (simp add: holds_def ide_transfer_start_def)
    ultimately show ?thesis using e False by auto
  qed
qed

lemma write_all:
  assumes "writing s i m" and "holds s True c" and "512 * (i + m) \<le> length c" and "length vs = 256 * m"
  shows "\<exists>s' l'. write_words ops vs (at_drive t (s, l)) = Some (at_drive t (s', l'))
    \<and> holds s' True (write_bytes c (512 * i) (bytes_of vs)) \<and> ide_status s' = idle_status \<and> data_end s' = 0"
  using assms
proof (induction m arbitrary: s i l c vs rule: less_induct)
  case (less m)
  let ?n = "chunk_size s"
  have at: "drive_at s i m" using less.prems(1) by (simp add: writing_def)
  note n = chunk_facts [OF at]
  define us where "us = take (256 * ?n) vs"
  define ws where "ws = drop (256 * ?n) vs"
  have v: "vs = us @ ws" "length us = 256 * ?n" "length ws = 256 * (m - ?n)" using less.prems(4) n(3) by (simp_all add: us_def ws_def diff_mult_distrib2)
  let ?s1 = "s\<lparr>io_buffer := write_bytes (io_buffer s) 0 (bytes_of us), data_index := data_end s\<rparr>"
  have ul: "length (bytes_of us) = 512 * ?n" using v(2) by simp
  obtain s' l' where s': "run_end_transfer ops (?s1, l) = Some (s', l')" "holds s' True (write_bytes c (512 * i) (bytes_of us))"
    "if ?n = m then ide_status s' = idle_status \<and> data_end s' = 0 else writing s' (i + ?n) (m - ?n)"
    using write_chunk [OF less.prems(1-3) ul refl, of l] by blast
  have "us \<noteq> []" using v(2) n(2) by auto
  then have a: "write_words ops us (at_drive t (s, l)) = Some (at_drive t (s', l'))"
    using write_transfer [of s us ops t l] less.prems(1) v(2) n(5) s'(1) by (simp add: writing_def)
  show ?case
  proof (cases "?n = m")
    case True
    then show ?thesis using a s' v by (auto simp: write_words_append)
  next
    case False
    then have lt: "?n < m" using n(3) by simp
    have l: "length (write_bytes c (512 * i) (bytes_of us)) = length c"
      using less.prems(3) v(2) lt by (intro length_write_bytes) simp
    have "\<exists>s'' l''. write_words ops ws (at_drive t (s', l')) = Some (at_drive t (s'', l''))
      \<and> holds s'' True (write_bytes (write_bytes c (512 * i) (bytes_of us)) (512 * (i + ?n)) (bytes_of ws)) \<and> ide_status s'' = idle_status \<and> data_end s'' = 0"
      by (rule less.IH [of "m - ?n"]) (use s' False n(2) lt less.prems(3) l v(3) in auto)
    moreover have "write_bytes (write_bytes c (512 * i) (bytes_of us)) (512 * (i + ?n)) (bytes_of ws) = write_bytes c (512 * i) (bytes_of us @ bytes_of ws)"
      using write_bytes_twice [of "512 * i" "bytes_of us" "bytes_of ws" c] v less.prems(3) lt by (simp add: add_mult_distrib2)
    ultimately show ?thesis using a v(1) by (auto simp: write_words_append)
  qed
qed

end

section \<open>Requests of the guest\<close>

fun port_writes :: "'d block_ops \<Rightarrow> (u32 \<times> u32) list \<Rightarrow> 'd ide_if \<Rightarrow> 'd ide_if option" where
  "port_writes ops [] t = Some t"
| "port_writes ops (w # ws) t = Option.bind (ide_ioport_write ops t (fst w) (snd w)) (port_writes ops ws)"

text \<open>What a driver writes to the registers for \<open>n\<close> sectors from \<open>i\<close> of the drive \<open>k\<close>: drive and LBA
  bits, count, number, command.\<close>

definition request_regs :: "nat \<Rightarrow> nat \<Rightarrow> nat \<Rightarrow> (u32 \<times> u32) list" where
  "request_regs k i n =
     [(5, 0xe0 OR push_bit 4 (of_nat k) OR word_of_int (drop_bit 24 (int i))), (1, of_nat (n mod 256)), (2, word_of_int (int i) AND 0xff),
      (3, word_of_int (drop_bit 8 (int i)) AND 0xff), (4, word_of_int (drop_bit 16 (int i)) AND 0xff)]"

definition request :: "nat \<Rightarrow> nat \<Rightarrow> nat \<Rightarrow> u32 \<Rightarrow> (u32 \<times> u32) list" where
  "request k i n cmd = request_regs k i n @ [(6, cmd)]"

lemma port_writes_append: "port_writes ops (vs @ ws) t = Option.bind (port_writes ops vs t) (port_writes ops ws)"
  by (induction vs arbitrary: t) (simp_all split: Option.bind_split)

lemma ucast_low_byte: "ucast (w AND (0xff :: u32)) = (ucast w :: u8)"
proof -
  have "(0xff :: u32) = mask 8" by (simp add: mask_eq_exp_minus_1)
  then have "bit (0xff :: u32) n \<longleftrightarrow> n < 8" for n by (simp only: bit_mask_iff) auto
  then show ?thesis by (intro bit_word_eqI) (auto simp: bit_simps)
qed

lemma select_value:
  assumes "k < 2" and "i < 2 ^ 28"
  shows "(ucast (0xe0 OR push_bit 4 (of_nat k) OR word_of_int (drop_bit 24 (int i)) :: u32) :: u8)
      = ((0xe0 OR push_bit 4 (of_nat k)) AND 0xf0) OR word_of_int (drop_bit 24 (int i) AND 0x0f)"
    and "unat (drop_bit 4 (0xe0 OR push_bit 4 (of_nat k) OR word_of_int (drop_bit 24 (int i)) :: u32) AND 1) = k"
proof -
  define j where "j = i div 2 ^ 24"
  have d: "drop_bit 24 (int i) = int j" by (simp add: j_def drop_bit_eq_div zdiv_int)
  have "j < 16" using assms(2) by (simp add: j_def less_mult_imp_div_less)
  then have "j = 0 \<or> j = 1 \<or> j = 2 \<or> j = 3 \<or> j = 4 \<or> j = 5 \<or> j = 6 \<or> j = 7 \<or> j = 8 \<or> j = 9 \<or> j = 10 \<or> j = 11
    \<or> j = 12 \<or> j = 13 \<or> j = 14 \<or> j = 15" by presburger
  moreover have "k = 0 \<or> k = 1" using assms(1) by auto
  ultimately show "(ucast (0xe0 OR push_bit 4 (of_nat k) OR word_of_int (drop_bit 24 (int i)) :: u32) :: u8)
      = ((0xe0 OR push_bit 4 (of_nat k)) AND 0xf0) OR word_of_int (drop_bit 24 (int i) AND 0x0f)"
    and "unat (drop_bit 4 (0xe0 OR push_bit 4 (of_nat k) OR word_of_int (drop_bit 24 (int i)) :: u32) AND 1) = k"
    unfolding d by auto
qed

text \<open>The drive after the registers are written.\<close>

definition requested :: "'d ide_state \<Rightarrow> nat \<Rightarrow> nat \<Rightarrow> nat \<Rightarrow> 'd ide_state" where
  "requested s k i n = ide_set_sector (s\<lparr>ide_select := 0xe0 OR push_bit 4 (of_nat k), nsector := of_nat (n mod 256)\<rparr>) (int i)"

lemma registers_written:
  assumes "k < 2" and "i < 2 ^ 28" and "drives t k = Some s"
  shows "port_writes ops (request_regs k i n) t = Some (at_drive (t\<lparr>cur_drive := k\<rparr>) (requested s k i n, line t))"
proof -
  have lba: "lba_mode (s\<lparr>ide_select := 0xe0 OR push_bit 4 (of_nat k), nsector := of_nat (n mod 256)\<rparr>)"
    using assms(1) by (auto simp: lba_mode_def less_2_cases_iff)
  have low: "ucast (word_of_int x :: u32) = (word_of_int x :: u8)" for x by (rule bit_word_eqI) (simp add: bit_simps)
  have n: "ucast (of_nat (n mod 256) :: u32) = (of_nat (n mod 256) :: u16)" by (rule bit_word_eqI) (simp add: bit_simps)
  have nat: "ucast (of_nat i :: u32) = (of_nat i :: u8)" by (rule bit_word_eqI) (simp add: bit_simps)
  have e: "requested s k i n = s\<lparr>ide_select := ucast (0xe0 OR push_bit 4 (of_nat k) OR word_of_int (drop_bit 24 (int i)) :: u32),
      nsector := of_nat (n mod 256), ide_sector := of_nat i, lcyl := word_of_int (drop_bit 8 (int i)), hcyl := word_of_int (drop_bit 16 (int i))\<rparr>"
    unfolding requested_def ide_set_sector_def using lba select_value(1) [OF assms(1,2)] by simp
  show ?thesis
    using assms(3) select_value(2) [OF assms(1,2)]
    by (simp add: request_regs_def ide_ioport_write_def Let_def upd_reg_def e at_drive_def set_drive_def ucast_low_byte low n nat)
qed

lemma requested_at:
  assumes "k < 2" and "0 < n" and "n \<le> 256" and "i + n \<le> 2 ^ 28" and "0 < q" and "q \<le> int MAX_MULT_SECTORS" and "length (io_buffer s) = IO_BUFFER_SIZE"
  shows "drive_at ((requested s k i n)\<lparr>req_nb_sectors := q\<rparr>) i n"
proof -
  let ?s0 = "s\<lparr>ide_select := 0xe0 OR push_bit 4 (of_nat k), nsector := of_nat (n mod 256)\<rparr>"
  have lba: "lba_mode ?s0" using assms(1) by (auto simp: lba_mode_def less_2_cases_iff)
  have "take_bit 28 (int i) = int i" using assms(2,4) by (intro take_bit_int_eq_self) simp_all
  then have g: "lba_mode (requested s k i n)" "ide_get_sector (requested s k i n) = int i"
    using set_sector_lba [OF lba, of "int i"] by (simp_all add: requested_def)
  have l: "left (requested s k i n) = n"
  proof (cases "n = 256")
    case False
    then have "n < 256" using assms(3) by simp
    then have "unat (of_nat (n mod 256) :: u16) = n" by (simp add: unsigned_of_nat take_bit_nat_eq_self)
    moreover from this have "(of_nat (n mod 256) :: u16) \<noteq> 0" using assms(2) by auto
    ultimately show ?thesis by (simp add: left_def requested_def)
  qed (simp add: left_def requested_def)
  have same: "lba_mode (x\<lparr>req_nb_sectors := q\<rparr>) = lba_mode x" "ide_get_sector (x\<lparr>req_nb_sectors := q\<rparr>) = ide_get_sector x"
    "left (x\<lparr>req_nb_sectors := q\<rparr>) = left x" for x :: "'a ide_state"
    by (simp_all add: lba_mode_def ide_get_sector_def left_def)
  have "io_buffer (requested s k i n) = io_buffer s" by (simp add: requested_def)
  then show ?thesis using assms g(1) unfolding drive_at_def same g(2) l by simp
qed

text \<open>The sectors per interrupt of a command.\<close>

definition per_irq :: "'d ide_state \<Rightarrow> bool \<Rightarrow> int" where
  "per_irq s multiple = (if multiple then mult_sectors s else 1)"

definition drive_ready :: "'d ide_state \<Rightarrow> bool" where
  "drive_ready s \<longleftrightarrow> length (io_buffer s) = IO_BUFFER_SIZE \<and> 0 < mult_sectors s \<and> mult_sectors s \<le> int MAX_MULT_SECTORS"

lemma command_read:
  "mult_sectors s \<noteq> 0 \<Longrightarrow> ide_exec_cmd ops (s, l) (if multiple then WIN_MULTREAD else WIN_READ)
    = ide_sector_read ops (s\<lparr>req_nb_sectors := per_irq s multiple\<rparr>, l)"
  by (simp add: ide_exec_cmd_def per_irq_def)

lemma port_command_write:
  "mult_sectors s \<noteq> 0 \<Longrightarrow> ide_exec_cmd ops (s, l) (if multiple then WIN_MULTWRITE else WIN_WRITE)
    = Some (ide_sector_write (s\<lparr>req_nb_sectors := per_irq s multiple\<rparr>), l)"
  by (simp add: ide_exec_cmd_def per_irq_def)

lemma command_port:
  "ide_ioport_write ops (at_drive t (s, l)) 6 v = map_option (at_drive t) (ide_exec_cmd ops (s, l) v)"
  by (simp add: ide_ioport_write_def Let_def set_at_drive)

lemma requested_frame [simp]:
  "ide_bs (requested s k i n) = ide_bs s" "mult_sectors (requested s k i n) = mult_sectors s" "io_buffer (requested s k i n) = io_buffer s"
  by (simp_all add: requested_def)

lemma per_irq_req: "per_irq (requested s k i n) multiple = per_irq s multiple"
  by (simp add: per_irq_def)

context block_backend
begin

lemma holds_req: "holds (s\<lparr>req_nb_sectors := q\<rparr>) w c = holds s w c" "holds (requested s k i n) w c = holds s w c"
  by (simp_all add: holds_def)

lemma request_reads:
  assumes k: "k < 2" "drives t k = Some s" and r: "drive_ready s" and h: "holds s w c"
    and n: "0 < n" "n \<le> 256" "i + n \<le> 2 ^ 28" "512 * (i + n) \<le> length c"
  shows "\<exists>s' l'. Option.bind (port_writes ops (request k i n (if multiple then WIN_MULTREAD else WIN_READ)) t) (read_words ops (256 * n))
      = Some (take (512 * n) (drop (512 * i) c), at_drive (t\<lparr>cur_drive := k\<rparr>) (s', l'))
    \<and> holds s' w c \<and> ide_status s' = idle_status"
proof -
  let ?r = "requested s k i n" and ?t = "t\<lparr>cur_drive := k\<rparr>"
  let ?q = "per_irq s multiple"
  have q: "0 < ?q" "?q \<le> int MAX_MULT_SECTORS" using r by (auto simp: per_irq_def drive_ready_def MAX_MULT_SECTORS_def)
  have at: "drive_at (?r\<lparr>req_nb_sectors := ?q\<rparr>) i n" using requested_at [OF k(1) n(1,2,3) q, of s] r by (simp add: drive_ready_def)
  have h2: "holds (?r\<lparr>req_nb_sectors := ?q\<rparr>) w c" using h by (simp add: holds_req)
  obtain sl where sl: "ide_sector_read ops (?r\<lparr>req_nb_sectors := ?q\<rparr>, line t) = Some sl" using sector_read_sync [OF at h2 n(4)] by blast
  have c: "ide_exec_cmd ops (?r, line t) (if multiple then WIN_MULTREAD else WIN_READ) = Some sl"
    using sl command_read [of ?r ops "line t" multiple] r by (simp add: drive_ready_def per_irq_req)
  have "port_writes ops (request k i n (if multiple then WIN_MULTREAD else WIN_READ)) t = Some (at_drive ?t sl)"
    using registers_written [OF k(1) _ k(2), of i ops n] n(1,3) c unfolding request_def port_writes_append by (simp add: command_port)
  then show ?thesis using read_all [OF at h2 n(4) sl, of ?t] by auto
qed

lemma request_writes:
  assumes k: "k < 2" "drives t k = Some s" and r: "drive_ready s" and h: "holds s True c"
    and n: "0 < n" "n \<le> 256" "i + n \<le> 2 ^ 28" "512 * (i + n) \<le> length c" and vs: "length vs = 256 * n"
  shows "\<exists>s' l'. Option.bind (port_writes ops (request k i n (if multiple then WIN_MULTWRITE else WIN_WRITE)) t) (write_words ops vs)
      = Some (at_drive (t\<lparr>cur_drive := k\<rparr>) (s', l'))
    \<and> holds s' True (write_bytes c (512 * i) (bytes_of vs)) \<and> ide_status s' = idle_status"
proof -
  let ?r = "requested s k i n" and ?t = "t\<lparr>cur_drive := k\<rparr>"
  let ?q = "per_irq s multiple"
  let ?s = "?r\<lparr>req_nb_sectors := ?q\<rparr>"
  have q: "0 < ?q" "?q \<le> int MAX_MULT_SECTORS" using r by (auto simp: per_irq_def drive_ready_def MAX_MULT_SECTORS_def)
  have at: "drive_at ?s i n" using requested_at [OF k(1) n(1,2,3) q, of s] r by (simp add: drive_ready_def)
  have h2: "holds ?s True c" using h by (simp add: holds_req)
  have ch: "chunk ?s = int (chunk_size ?s)" by (rule chunk_facts(1) [OF at])
  define s1 where "s1 = ide_sector_write ?s"
  have s1: "s1 = ?s\<lparr>io_nb_sectors := int (chunk_size ?s), end_transfer_func := Sector_Write_Cb1, data_index := 0,
      data_end := 512 * chunk_size ?s, ide_status := READY_STAT OR SEEK_STAT OR DRQ_STAT\<rparr>"
    by (simp add: s1_def ide_sector_write_def Let_def ide_transfer_start_def ch nat_mult_distrib)
  have "chunk_size s1 = chunk_size ?s" by (simp add: s1 chunk_size_def left_def)
  moreover have "drive_at s1 i n" using at unfolding s1 by (simp only: at_cong)
  ultimately have w: "writing s1 i n" by (simp add: writing_def s1)
  have hs: "holds s1 True c" using h2 by (simp add: s1 holds_def)
  have c: "ide_exec_cmd ops (?r, line t) (if multiple then WIN_MULTWRITE else WIN_WRITE) = Some (s1, line t)"
    using port_command_write [of ?r ops "line t" multiple] r by (simp add: drive_ready_def per_irq_req s1_def)
  have "port_writes ops (request k i n (if multiple then WIN_MULTWRITE else WIN_WRITE)) t = Some (at_drive ?t (s1, line t))"
    using registers_written [OF k(1) _ k(2), of i ops n] n(1,3) c unfolding request_def port_writes_append by (simp add: command_port)
  then show ?thesis using write_all [OF w hs n(4) vs, of ?t "line t"] by auto
qed

end

lemma at_drive_frame: "drives (at_drive (t\<lparr>cur_drive := k\<rparr>) (s', l')) k = Some s'" "j \<noteq> k \<Longrightarrow> drives (at_drive (t\<lparr>cur_drive := k\<rparr>) (s', l')) j = drives t j"
  by (simp_all add: at_drive_def set_drive_def)

text \<open>C28: a guest that writes a sector number, a count and a read command (single or multiple) to the
  registers of a drive, and then reads the data port 256 times for each sector, reads exactly the bytes
  of those sectors of the disk image; the disk and the other drive are as before, and the drive is idle.\<close>

theorem ide_reads_disk:
  assumes "k < 2" and "drives t k = Some s" and "drive_ready s" and "bf_ok (ide_bs s)"
    and "0 < n" and "n \<le> 256" and "i + n \<le> 2 ^ 28" and "512 * (i + n) \<le> length (disk (ide_bs s))"
  shows "\<exists>t' s'. Option.bind (port_writes bf_ops (request k i n (if multiple then WIN_MULTREAD else WIN_READ)) t) (read_words bf_ops (256 * n))
      = Some (take (512 * n) (drop (512 * i) (disk (ide_bs s))), t')
    \<and> drives t' k = Some s' \<and> disk (ide_bs s') = disk (ide_bs s) \<and> ide_status s' = idle_status \<and> (\<forall>j. j \<noteq> k \<longrightarrow> drives t' j = drives t j)"
proof -
  have h: "images.holds s (bf_mode (ide_bs s) \<noteq> BF_MODE_RO) (disk (ide_bs s))" using assms(4) by (simp add: images.holds_def)
  obtain s' l' where r: "Option.bind (port_writes bf_ops (request k i n (if multiple then WIN_MULTREAD else WIN_READ)) t) (read_words bf_ops (256 * n))
      = Some (take (512 * n) (drop (512 * i) (disk (ide_bs s))), at_drive (t\<lparr>cur_drive := k\<rparr>) (s', l'))"
    "images.holds s' (bf_mode (ide_bs s) \<noteq> BF_MODE_RO) (disk (ide_bs s))" "ide_status s' = idle_status"
    using images.request_reads [OF assms(1-3) h assms(5-8), of multiple] by blast
  then have "disk (ide_bs s') = disk (ide_bs s)" by (simp add: images.holds_def)
  then show ?thesis using r(1,3) at_drive_frame by blast
qed

text \<open>C29: a guest that writes a sector number, a count and a write command (single or multiple) to the
  registers of a drive whose image can be written, and then writes the data port 256 times for each
  sector, leaves exactly those bytes in those sectors of the disk and changes nothing else of it.\<close>

theorem ide_writes_disk:
  assumes "k < 2" and "drives t k = Some s" and "drive_ready s" and "bf_ok (ide_bs s)" and "bf_mode (ide_bs s) \<noteq> BF_MODE_RO"
    and "0 < n" and "n \<le> 256" and "i + n \<le> 2 ^ 28" and "512 * (i + n) \<le> length (disk (ide_bs s))" and "length vs = 256 * n"
  shows "\<exists>t' s'. Option.bind (port_writes bf_ops (request k i n (if multiple then WIN_MULTWRITE else WIN_WRITE)) t) (write_words bf_ops vs) = Some t'
    \<and> drives t' k = Some s' \<and> disk (ide_bs s') = write_bytes (disk (ide_bs s)) (512 * i) (bytes_of vs) \<and> ide_status s' = idle_status
    \<and> (\<forall>j. j \<noteq> k \<longrightarrow> drives t' j = drives t j)"
proof -
  have h: "images.holds s True (disk (ide_bs s))" using assms(4,5) by (simp add: images.holds_def)
  obtain s' l' where r: "Option.bind (port_writes bf_ops (request k i n (if multiple then WIN_MULTWRITE else WIN_WRITE)) t) (write_words bf_ops vs)
      = Some (at_drive (t\<lparr>cur_drive := k\<rparr>) (s', l'))"
    "images.holds s' True (write_bytes (disk (ide_bs s)) (512 * i) (bytes_of vs))" "ide_status s' = idle_status"
    using images.request_writes [OF assms(1-3) h assms(6-10), of multiple] by blast
  then have "disk (ide_bs s') = write_bytes (disk (ide_bs s)) (512 * i) (bytes_of vs)" by (simp add: images.holds_def)
  then show ?thesis using r(1,3) at_drive_frame by blast
qed

end
