(* ===== verification/IdeSafe.thy ===== *)
theory IdeSafe
  imports IdeSpec
begin

text \<open>
  Well-formed drives: what every operation of the controller keeps, as long as the block device ends
  its reads at once and without an error, and that the data port then never leaves the buffer of a
  drive. With a device that defers its reads it does.
\<close>

section \<open>Block devices that read at once\<close>

locale sync_reads =
  fixes ops :: "'d block_ops" and inv :: "'d \<Rightarrow> bool"
  assumes reads: "inv d \<Longrightarrow> 0 \<le> n \<Longrightarrow> 512 * nat n \<le> length data \<Longrightarrow> read_async ops d sec data n = Some (ret, data', d')
      \<Longrightarrow> ret = 0 \<and> length data' = length data \<and> inv d'"
    and writes: "inv d \<Longrightarrow> 0 \<le> n \<Longrightarrow> length data = 512 * nat n \<Longrightarrow> write_async ops d sec data n = Some (ret, d') \<Longrightarrow> inv d'"
begin

definition drive_wf :: "'d ide_state \<Rightarrow> bool" where
  "drive_wf s \<longleftrightarrow> inv (ide_bs s) \<and> length (io_buffer s) = IO_BUFFER_SIZE \<and> data_end s \<le> 512 * MAX_MULT_SECTORS
     \<and> (data_index s < data_end s \<or> data_index s = 0)
     \<and> 0 \<le> mult_sectors s \<and> mult_sectors s \<le> int MAX_MULT_SECTORS \<and> 0 \<le> req_nb_sectors s \<and> req_nb_sectors s \<le> int MAX_MULT_SECTORS
     \<and> 0 \<le> io_nb_sectors s \<and> io_nb_sectors s \<le> int MAX_MULT_SECTORS"

text \<open>The same before the function that ends a transfer: the index is beyond its end.\<close>

definition drive_ended :: "'d ide_state \<Rightarrow> bool" where
  "drive_ended s \<longleftrightarrow> drive_wf (s\<lparr>data_index := 0\<rparr>)"

lemma ended_of_wf: "drive_wf s \<Longrightarrow> drive_ended s"
  by (auto simp: drive_wf_def drive_ended_def)

lemma chunk_bounds: "drive_ended s \<Longrightarrow> 0 \<le> chunk s \<and> chunk s \<le> int MAX_MULT_SECTORS \<and> 512 * nat (chunk s) \<le> IO_BUFFER_SIZE"
proof -
  assume "drive_ended s"
  then have "0 \<le> chunk s \<and> chunk s \<le> 128" by (auto simp: drive_ended_def drive_wf_def chunk_def Let_def MAX_MULT_SECTORS_def)
  then show ?thesis by (auto simp: MAX_MULT_SECTORS_def IO_BUFFER_SIZE_def)
qed

lemma read_cb_wf: "drive_ended s \<Longrightarrow> drive_wf (fst (ide_sector_read_cb (s, l)))"
  by (auto simp: drive_ended_def drive_wf_def ide_sector_read_cb_def ide_transfer_start_def Let_def MAX_MULT_SECTORS_def)

lemma sector_read_wf:
  assumes "drive_ended s" and "ide_sector_read ops (s, l) = Some sl"
  shows "drive_wf (fst sl)"
proof -
  obtain ret data d where r: "read_async ops (ide_bs s) (word_of_int (ide_get_sector s)) (io_buffer s) (chunk s) = Some (ret, data, d)"
    using assms(2) by (auto simp: ide_sector_read_def Let_def split: option.splits)
  have c: "0 \<le> chunk s" "chunk s \<le> int MAX_MULT_SECTORS" "512 * nat (chunk s) \<le> IO_BUFFER_SIZE" using chunk_bounds [OF assms(1)] by auto
  have "ret = 0 \<and> length data = length (io_buffer s) \<and> inv d"
    by (rule reads [OF _ c(1) _ r]) (use assms(1) c(3) in \<open>auto simp: drive_ended_def drive_wf_def\<close>)
  then have "drive_ended (s\<lparr>io_nb_sectors := chunk s, ide_bs := d, io_buffer := data\<rparr>)" "ret = 0"
    using assms(1) c by (auto simp: drive_ended_def drive_wf_def)
  then show ?thesis using read_cb_wf [of _ l] assms(2) r by (auto simp: ide_sector_read_def Let_def)
qed

lemma stop_wf: "drive_ended s \<Longrightarrow> drive_wf (ide_transfer_stop s)"
  by (auto simp: drive_ended_def drive_wf_def ide_transfer_stop_def)

lemma status_wf [simp]:
  "drive_wf (s\<lparr>ide_status := x\<rparr>) = drive_wf s" "drive_wf (s\<lparr>ide_error := y\<rparr>) = drive_wf s" "drive_wf (s\<lparr>ide_feature := y\<rparr>) = drive_wf s"
  "drive_wf (s\<lparr>nsector := w\<rparr>) = drive_wf s" "drive_wf (s\<lparr>ide_sector := y\<rparr>) = drive_wf s" "drive_wf (s\<lparr>lcyl := y\<rparr>) = drive_wf s"
  "drive_wf (s\<lparr>hcyl := y\<rparr>) = drive_wf s" "drive_wf (s\<lparr>ide_select := y\<rparr>) = drive_wf s" "drive_wf (ide_set_sector s v) = drive_wf s"
  "drive_wf (ide_abort_command s) = drive_wf s" "drive_wf (ide_set_signature s) = drive_wf s" "drive_wf (sectors_done s v) = drive_wf s"
  by (simp_all add: drive_wf_def ide_abort_command_def ide_set_signature_def)

lemma write_cb2_wf: "drive_wf s \<Longrightarrow> drive_wf (fst (ide_sector_write_cb2 (s, l)))"
  by (auto simp: ide_sector_write_cb2_def ide_transfer_start_def Let_def) (auto simp: drive_wf_def MAX_MULT_SECTORS_def)

lemma write_cb1_wf:
  assumes "drive_ended s" and "ide_sector_write_cb1 ops (s, l) = Some sl"
  shows "drive_wf (fst sl)"
proof -
  let ?s = "ide_transfer_stop s"
  have wf: "drive_wf ?s" by (rule stop_wf [OF assms(1)])
  obtain ret d where w: "write_async ops (ide_bs ?s) (word_of_int (ide_get_sector ?s)) (take (nat (512 * io_nb_sectors ?s)) (io_buffer ?s)) (io_nb_sectors ?s)
      = Some (ret, d)"
    using assms(2) by (auto simp: ide_sector_write_cb1_def Let_def split: option.splits)
  have "inv d"
    by (rule writes [OF _ _ _ w]) (use wf in \<open>auto simp: drive_wf_def MAX_MULT_SECTORS_def IO_BUFFER_SIZE_def nat_mult_distrib\<close>)
  then have "drive_wf (?s\<lparr>ide_bs := d\<rparr>)" using wf by (simp add: drive_wf_def)
  then show ?thesis using write_cb2_wf [of _ l] assms(2) w by (auto simp: ide_sector_write_cb1_def Let_def split: if_splits)
qed

lemma run_end_wf:
  assumes "drive_ended s" and "run_end_transfer ops (s, l) = Some sl"
  shows "drive_wf (fst sl)"
proof -
  have "drive_ended (s\<lparr>ide_status := x, ide_error := y\<rparr>)" for x y using assms(1) by (simp add: drive_ended_def drive_wf_def)
  then show ?thesis
    using assms stop_wf sector_read_wf write_cb1_wf
    by (auto simp: run_end_transfer_def ide_sector_read_cb_end_def ide_identify_cb_def split: end_transfer.splits)
qed

lemma length_foldl_stw: "length (foldl stw b kvs) = length b"
  by (induction kvs arbitrary: b) (auto simp: stw_def split: prod.split)

lemma length_padstr: "length (padstr b start src n) = length b"
proof -
  have "length (foldl (\<lambda>b i. b[f i := g i]) b xs) = length b" for f :: "nat \<Rightarrow> nat" and g xs
    by (induction xs arbitrary: b) auto
  then show ?thesis by (simp add: padstr_def)
qed

lemma identify_wf: "drive_wf s \<Longrightarrow> drive_wf (ide_identify s)"
  by (simp add: drive_wf_def ide_identify_def Let_def length_foldl_stw length_padstr IO_BUFFER_SIZE_def)

lemma sector_write_wf: "drive_wf s \<Longrightarrow> drive_wf (ide_sector_write s)"
  using chunk_bounds [OF ended_of_wf, of s]
  by (auto simp: ide_sector_write_def ide_transfer_start_def Let_def drive_wf_def MAX_MULT_SECTORS_def)

lemma exec_cmd_wf:
  assumes "drive_wf s" and "ide_exec_cmd ops (s, l) v = Some sl"
  shows "drive_wf (fst sl)"
proof -
  have req: "drive_wf (s\<lparr>req_nb_sectors := 1\<rparr>)" "drive_wf (s\<lparr>req_nb_sectors := mult_sectors s\<rparr>)"
    using assms(1) by (auto simp: drive_wf_def MAX_MULT_SECTORS_def)
  have mult: "drive_wf (s\<lparr>mult_sectors := int (unat (nsector s))\<rparr>)" if "\<not> nsector s > of_nat MAX_MULT_SECTORS"
  proof -
    have "unat (nsector s) \<le> 128" using that by (simp add: MAX_MULT_SECTORS_def word_le_nat_alt not_less)
    then have "int (unat (nsector s)) \<le> int 128" by (simp only: of_nat_le_iff)
    then show ?thesis using assms(1) by (simp add: drive_wf_def MAX_MULT_SECTORS_def)
  qed
  have ident: "drive_wf (ide_transfer_start (ide_identify s\<lparr>ide_status := x\<rparr>) 512 Identify_Cb)" for x
    using identify_wf [OF assms(1)] by (auto simp: drive_wf_def ide_transfer_start_def MAX_MULT_SECTORS_def)
  show ?thesis
    using assms(2) unfolding ide_exec_cmd_def Let_def prod.case
    by (auto simp: assms(1) ident mult [simplified] sector_write_wf [OF req(1)] sector_write_wf [OF req(2)] split: if_splits
        dest: sector_read_wf [OF ended_of_wf [OF req(1)]] sector_read_wf [OF ended_of_wf [OF req(2)]])
qed

section \<open>Ports\<close>

definition if_wf :: "'d ide_if \<Rightarrow> bool" where
  "if_wf t \<longleftrightarrow> (\<forall>k s. drives t k = Some s \<longrightarrow> drive_wf s)"

lemma set_drive_wf: "if_wf t \<Longrightarrow> drive_wf (fst sl) \<Longrightarrow> if_wf (set_drive t k sl)"
  by (simp add: if_wf_def set_drive_def)

lemma upd_reg_wf: "if_wf t \<Longrightarrow> (\<And>s. drive_wf s \<Longrightarrow> drive_wf (f s)) \<Longrightarrow> if_wf (upd_reg t f)"
  by (auto simp: if_wf_def upd_reg_def)

lemma line_wf [simp]: "if_wf (t\<lparr>line := l\<rparr>) = if_wf t" "if_wf (t\<lparr>cur_drive := k\<rparr>) = if_wf t"
  by (simp_all add: if_wf_def)

lemma port_write_wf:
  assumes "if_wf t" and "ide_ioport_write ops t offset v = Some t'"
  shows "if_wf t'"
proof (cases "drives t (cur_drive t)")
  case None
  then show ?thesis using assms by (auto simp: ide_ioport_write_def Let_def intro!: upd_reg_wf split: if_splits)
next
  case (Some s)
  then have "drive_wf s" using assms(1) by (simp add: if_wf_def)
  then show ?thesis
    using assms Some exec_cmd_wf by (auto simp: ide_ioport_write_def Let_def intro!: upd_reg_wf set_drive_wf split: if_splits)
qed

lemma data_end_wf:
  assumes "if_wf t" and "drive_wf s" and "data_port_end ops t s = Some t'"
  shows "if_wf t'"
proof (cases "data_index s + 2 \<ge> data_end s")
  case True
  have "drive_ended (s\<lparr>data_index := data_index s + 2\<rparr>)" using assms(2) by (auto simp: drive_ended_def drive_wf_def)
  then show ?thesis using True assms(1,3) run_end_wf by (auto simp: data_port_end_def Let_def intro!: set_drive_wf)
next
  case False
  then have "drive_wf (s\<lparr>data_index := data_index s + 2\<rparr>)" using assms(2) by (auto simp: drive_wf_def)
  then show ?thesis using False assms(1,3) by (auto simp: data_port_end_def Let_def intro!: set_drive_wf)
qed

lemma data_wf:
  "if_wf t \<Longrightarrow> ide_data_readw ops t = Some (v, t') \<Longrightarrow> if_wf t'"
  "if_wf t \<Longrightarrow> ide_data_writew ops t w = Some t' \<Longrightarrow> if_wf t'"
proof -
  assume wf: "if_wf t"
  then have dw: "drives t k = Some s \<Longrightarrow> drive_wf s" for k s by (simp add: if_wf_def)
  have buf: "drive_wf (s\<lparr>io_buffer := (io_buffer s)[i := x, j := y]\<rparr>)" if "drive_wf s" for s i x j y using that by (simp add: drive_wf_def)
  show "ide_data_readw ops t = Some (v, t') \<Longrightarrow> if_wf t'"
    using wf by (auto simp: ide_data_readw_def Let_def split: option.splits if_splits intro: data_end_wf [OF wf] dw)
  show "ide_data_writew ops t w = Some t' \<Longrightarrow> if_wf t'"
    using wf by (auto simp: ide_data_writew_def Let_def split: option.splits if_splits intro: data_end_wf [OF wf] buf dw)
qed

lemma cmd_write_wf: "if_wf t \<Longrightarrow> if_wf (ide_cmd_write t v)"
  by (auto simp: ide_cmd_write_def both_drives_def if_wf_def Let_def)

lemma read_wf: "if_wf t \<Longrightarrow> if_wf (snd (ide_ioport_read t offset))"
  by (auto simp: ide_ioport_read_def Let_def split: option.split)

lemma write_done_wf: "if_wf t \<Longrightarrow> if_wf (ide_write_done t k ret)"
  using write_cb2_wf by (auto simp: ide_write_done_def if_wf_def set_drive_def split: option.splits)

lemma drive_init_wf: "inv d \<Longrightarrow> drive_wf (ide_drive_init ops d)"
  by (simp add: drive_wf_def ide_drive_init_def Let_def MAX_MULT_SECTORS_def IO_BUFFER_SIZE_def)

lemma init_wf:
  assumes "ide_init ops m a a2 name b0 b1 = Some (t, m')" and "\<And>d. b0 = Some d \<or> b1 = Some d \<Longrightarrow> inv d"
  shows "if_wf t"
proof -
  have d: "drive_wf (ide_drive_init ops d)" if "b0 = Some d \<or> b1 = Some d" for d by (rule drive_init_wf [OF assms(2) [OF that]])
  show ?thesis using assms(1) d by (auto simp: ide_init_def if_wf_def split: if_splits)
qed

end

section \<open>Runs\<close>

text \<open>The guest's accesses to the ports, in any order, and the ends of deferred writes.\<close>

inductive ide_run :: "'d block_ops \<Rightarrow> 'd option \<Rightarrow> 'd option \<Rightarrow> 'd ide_if \<Rightarrow> bool" for ops b0 b1 where
  start: "ide_init ops m a a2 name b0 b1 = Some (t, m') \<Longrightarrow> ide_run ops b0 b1 t"
| data_read: "ide_run ops b0 b1 t \<Longrightarrow> ide_data_readw ops t = Some (v, t') \<Longrightarrow> ide_run ops b0 b1 t'"
| data_write: "ide_run ops b0 b1 t \<Longrightarrow> ide_data_writew ops t w = Some t' \<Longrightarrow> ide_run ops b0 b1 t'"
| port_write: "ide_run ops b0 b1 t \<Longrightarrow> ide_ioport_write ops t offset w = Some t' \<Longrightarrow> ide_run ops b0 b1 t'"
| port_read: "ide_run ops b0 b1 t \<Longrightarrow> ide_run ops b0 b1 (snd (ide_ioport_read t offset))"
| cmd_write: "ide_run ops b0 b1 t \<Longrightarrow> ide_run ops b0 b1 (ide_cmd_write t w)"
| write_done: "ide_run ops b0 b1 t \<Longrightarrow> ide_run ops b0 b1 (ide_write_done t k ret)"

context sync_reads
begin

lemma run_wf:
  assumes "ide_run ops b0 b1 t" and "\<And>d. b0 = Some d \<or> b1 = Some d \<Longrightarrow> inv d"
  shows "if_wf t"
  using assms by (induction rule: ide_run.induct) (blast intro: init_wf data_wf port_write_wf read_wf cmd_write_wf write_done_wf)+

end

section \<open>Disk images\<close>

definition table_ok :: "block_file \<Rightarrow> bool" where
  "table_ok bf \<longleftrightarrow> (\<forall>sec. Some sec \<in> set (sector_table bf) \<longrightarrow> length sec = 512)"

lemma table_ok_file: "table_ok (bf\<lparr>bf_f := f\<rparr>) = table_ok bf"
  by (simp add: table_ok_def)

lemma read_snapshot_keeps:
  "table_ok bf \<Longrightarrow> pos + 512 * n \<le> length data \<Longrightarrow> bf_read_snapshot bf sec data pos n = Some (data', bf')
    \<Longrightarrow> length data' = length data \<and> table_ok bf'"
proof (induction bf sec data pos n rule: bf_read_snapshot.induct)
  case (2 bf sec data pos n)
  show ?case
  proof (cases "unat sec \<ge> length (sector_table bf)")
    case False
    show ?thesis
    proof (cases "sector_table bf ! unat sec")
      case None
      obtain data1 f1 where f: "fread (fseek_set (bf_f bf) (sector_offset sec)) data pos 512 = (data1, f1)" by fastforce
      then have l: "length data1 = length data" using 2(4) by (auto simp: fread_def Let_def write_bytes_def)
      have st: "bf_read_snapshot (bf\<lparr>bf_f := f1\<rparr>) (sec + 1) data1 (pos + 512) n = Some (data', bf')"
        using 2(5) False None f by simp
      show ?thesis
        using 2(1) [OF False None refl f [symmetric] _ _ st] 2(3,4) l by (simp add: table_ok_file)
    next
      case (Some s)
      then have "length s = 512" using 2(3) False by (auto simp: table_ok_def) (metis nth_mem not_le)
      then have "length (write_bytes data pos s) = length data" using 2(4) by (simp add: write_bytes_def)
      moreover have "bf_read_snapshot bf (sec + 1) (write_bytes data pos s) (pos + 512) n = Some (data', bf')"
        using 2(5) False Some by simp
      ultimately show ?thesis using 2(2) [OF False Some 2(3)] 2(4) by simp
    qed
  qed (use 2(5) in simp)
qed simp

lemma write_snapshot_keeps:
  "table_ok bf \<Longrightarrow> 512 * n \<le> length data \<Longrightarrow> bf_write_snapshot bf sec data n = Some bf' \<Longrightarrow> table_ok bf'"
proof (induction bf sec data n rule: bf_write_snapshot.induct)
  case (2 bf sec data n)
  have "table_ok (bf\<lparr>sector_table := (sector_table bf)[unat sec := Some (take 512 data)]\<rparr>)"
    using 2(2,3) by (auto simp: table_ok_def dest: set_update_subset_insert [THEN subsetD])
  then show ?case using 2 by (auto split: if_splits)
qed simp

interpretation image_reads: sync_reads bf_ops table_ok
proof unfold_locales
  fix d :: block_file and n ret :: int and data data' sec d'
  assume t: "table_ok d" and n: "0 \<le> n"
  show "ret = 0 \<and> length data' = length data \<and> table_ok d'"
    if l: "512 * nat n \<le> length data" and r: "read_async bf_ops d sec data n = Some (ret, data', d')"
  proof (cases "bf_mode d = BF_MODE_SNAPSHOT")
    case True
    then show ?thesis using r read_snapshot_keeps [OF t, of 0 "nat n" data sec] l by (auto simp: bf_ops_def bf_read_async_def)
  next
    case False
    then show ?thesis using r l n t
      by (auto simp: bf_ops_def bf_read_async_def fread_def Let_def write_bytes_def SECTOR_SIZE_def table_ok_def nat_mult_distrib mult.commute)
  qed
  show "table_ok d'" if l: "length data = 512 * nat n" and w: "write_async bf_ops d sec data n = Some (ret, d')"
  proof (cases "bf_mode d")
    case BF_MODE_SNAPSHOT
    then have "d' = d \<or> bf_write_snapshot d sec data (nat n) = Some d'"
      using w by (auto simp: bf_ops_def bf_write_async_def split: if_splits)
    moreover have "512 * nat n \<le> length data" using l by simp
    ultimately show ?thesis using write_snapshot_keeps [OF t] t by blast
  qed (use w t in \<open>auto simp: bf_ops_def bf_write_async_def table_ok_file split: if_splits\<close>)
qed

text \<open>C30: in every run of the IDE controller on disk images, whatever the guest does with the ports, the
  state of each drive is well formed: its buffer has its size, its sector counts are at most 128, and
  its next access through the data port is in the buffer.\<close>

theorem ide_drives_well_formed:
  assumes "ide_run bf_ops b0 b1 t" and "\<And>d. b0 = Some d \<or> b1 = Some d \<Longrightarrow> table_ok d" and "drives t k = Some s"
  shows "length (io_buffer s) = IO_BUFFER_SIZE \<and> data_index s + 1 < IO_BUFFER_SIZE \<and> data_end s < IO_BUFFER_SIZE
    \<and> {mult_sectors s, req_nb_sectors s, io_nb_sectors s} \<subseteq> {0..128}"
proof -
  have "image_reads.if_wf t" by (rule image_reads.run_wf [OF assms(1,2)])
  then have "image_reads.drive_wf s" using assms(3) by (simp add: image_reads.if_wf_def)
  then show ?thesis by (auto simp: image_reads.drive_wf_def MAX_MULT_SECTORS_def IO_BUFFER_SIZE_def)
qed

section \<open>Deferred reads\<close>

text \<open>A block device that defers every read, as the one over the network does for a block it has to fetch.\<close>

definition defers :: "'d block_ops \<Rightarrow> bool" where
  "defers ops \<longleftrightarrow> read_async ops = (\<lambda>d sec data n. Some (1, data, d))"

definition mid_read :: "'d ide_state \<Rightarrow> bool" where
  "mid_read s \<longleftrightarrow> end_transfer_func s = Sector_Read \<and> length (io_buffer s) = IO_BUFFER_SIZE \<and> data_index s \<le> IO_BUFFER_SIZE"

lemma deferred_step:
  assumes "defers ops" and "mid_read s" and "data_index s + 1 < IO_BUFFER_SIZE"
  shows "\<exists>s' l'. ide_data_writew ops (at_drive t (s, l)) v = Some (at_drive t (s', l')) \<and> mid_read s' \<and> data_index s' = data_index s + 2"
proof -
  let ?s = "s\<lparr>io_buffer := write_bytes (io_buffer s) (data_index s) (word_bytes v), data_index := data_index s + 2\<rparr>"
  have p: "data_index s + 1 < length (io_buffer s)" using assms by (simp add: mid_read_def)
  have m: "mid_read ?s" using assms by (simp add: mid_read_def write_bytes_def)
  have "ide_sector_read ops (?s, l) = Some (?s\<lparr>io_nb_sectors := chunk ?s, ide_status := READY_STAT OR SEEK_STAT OR BUSY_STAT, ide_error := 0\<rparr>, l)"
    using assms(1) by (simp add: ide_sector_read_def defers_def Let_def)
  then have r: "run_end_transfer ops (?s, l) = Some (?s\<lparr>io_nb_sectors := chunk ?s, ide_status := READY_STAT OR SEEK_STAT OR BUSY_STAT, ide_error := 0\<rparr>, l)"
    using m by (simp add: run_end_transfer_def mid_read_def)
  show ?thesis
  proof (cases "data_index s + 2 < data_end s")
    case True
    then show ?thesis using write_step [OF p] m by (intro exI [of _ ?s]) auto
  next
    case False
    then show ?thesis using write_step [OF p] m r
      by (intro exI [of _ "?s\<lparr>io_nb_sectors := chunk ?s, ide_status := READY_STAT OR SEEK_STAT OR BUSY_STAT, ide_error := 0\<rparr>"]) (auto simp: mid_read_def)
  qed
qed

lemma deferred_overflow:
  assumes "defers ops"
  shows "mid_read s \<Longrightarrow> IO_BUFFER_SIZE < data_index s + 2 * length vs \<Longrightarrow> write_words ops vs (at_drive t (s, l)) = None"
proof (induction vs arbitrary: s l)
  case Nil
  then show ?case by (simp add: mid_read_def)
next
  case (Cons v vs)
  show ?case
  proof (cases "data_index s + 1 < IO_BUFFER_SIZE")
    case True
    then show ?thesis using deferred_step [OF assms Cons.prems(1) True, of t l v] Cons by auto
  next
    case False
    then show ?thesis using Cons.prems(1) by (simp add: ide_data_writew_def mid_read_def)
  qed
qed

text \<open>C31: with a block device that defers its reads the controller does not stop the transfer of the
  sector before while it waits: a guest that asks for two sectors, gets the first one and then keeps
  writing to the data port writes its words one after the other into the buffer and past its end.\<close>

theorem deferred_read_overflows:
  assumes "defers ops" and "k < 2" and "drives t k = Some s" and "drive_ready s" and "i + 2 \<le> 2 ^ 28"
    and "length data = IO_BUFFER_SIZE" and "IO_BUFFER_SIZE < 2 * length vs"
  shows "\<exists>t1. port_writes ops (request k i 2 WIN_READ) t = Some t1 \<and> write_words ops vs (ide_read_done t1 k data 0) = None"
proof -
  let ?r = "requested s k i 2" and ?t = "t\<lparr>cur_drive := k\<rparr>"
  let ?s = "?r\<lparr>req_nb_sectors := 1\<rparr>"
  let ?s1 = "?s\<lparr>io_nb_sectors := 1, ide_status := READY_STAT OR SEEK_STAT OR BUSY_STAT, ide_error := 0\<rparr>"
  have at: "drive_at ?s i 2" using requested_at [OF assms(2) _ _ assms(5), of 1 s] assms(4) by (simp add: drive_ready_def MAX_MULT_SECTORS_def)
  have "chunk_size ?s = 1" using at by (simp add: chunk_size_def drive_at_def)
  then have ch: "chunk ?s = 1" using chunk_facts(1) [OF at] by simp
  have "ide_sector_read ops (?s, line t) = Some (?s1, line t)"
    using assms(1) by (simp add: ide_sector_read_def defers_def Let_def ch)
  then have "ide_exec_cmd ops (?r, line t) WIN_READ = Some (?s1, line t)" by (simp add: ide_exec_cmd_def)
  then have p: "port_writes ops (request k i 2 WIN_READ) t = Some (at_drive ?t (?s1, line t))"
    using registers_written [OF assms(2) _ assms(3), of i ops 2] assms(5) unfolding request_def port_writes_append by (simp add: command_port)
  let ?s2 = "?s1\<lparr>io_buffer := data\<rparr>"
  have "drive_at ?s2 i 2" using at assms(4,6) by (simp add: at_cong drive_ready_def)
  then have "nsector (sectors_done ?s2 (int 1)) \<noteq> 0" using done_at(1) [of ?s2 i 2 1] by simp
  then have "mid_read (fst (ide_sector_read_cb (?s2, line t)))" "data_index (fst (ide_sector_read_cb (?s2, line t))) = 0"
    using assms(6) by (simp_all add: ide_sector_read_cb_def Let_def mid_read_def ide_transfer_start_def)
  then have "write_words ops vs (at_drive ?t (ide_sector_read_cb (?s2, line t))) = None"
    using deferred_overflow [OF assms(1), of "fst (ide_sector_read_cb (?s2, line t))" vs ?t "snd (ide_sector_read_cb (?s2, line t))"] assms(7) by simp
  moreover have "ide_read_done (at_drive ?t (?s1, line t)) k data 0 = at_drive ?t (ide_sector_read_cb (?s2, line t))"
    using at_drive_simps(4) [of ?t "(?s1, line t)"] by (simp add: ide_read_done_def at_drive_def set_drive_def)
  ultimately show ?thesis using p by auto
qed

section \<open>A controller with one drive\<close>

definition demo_img :: block_file where
  "demo_img = block_device_init (replicate 1024 7) BF_MODE_SNAPSHOT"

definition demo_ide :: "block_file ide_if" where
  "demo_ide = fst (the (ide_init bf_ops [] 0x1f0 0x3f6 7 (Some demo_img) None))"

lemma ide_init_some:
  "\<exists>m. ide_init ops [] a a2 name b0 b1 = Some (\<lparr>line = \<lparr>ide_cmd = 0, ide_irq = 0\<rparr>, cur_drive = 0,
         drives = (\<lambda>_. None)(0 := map_option (ide_drive_init ops) b0, 1 := map_option (ide_drive_init ops) b1)\<rparr>, m)"
  by (simp add: ide_init_def ide_ports_def cpu_register_device_def PHYS_MEM_RANGE_MAX_def)

lemma demo_ide_facts:
  "drives demo_ide 0 = Some (ide_drive_init bf_ops demo_img)" "ide_run bf_ops (Some demo_img) None demo_ide"
  "drive_ready (ide_drive_init ops d)" "ide_bs (ide_drive_init ops d) = d" "bf_ok demo_img" "length (disk demo_img) = 1024" "table_ok demo_img"
proof -
  obtain m where i: "ide_init bf_ops [] 0x1f0 0x3f6 7 (Some demo_img) None = Some (\<lparr>line = \<lparr>ide_cmd = 0, ide_irq = 0\<rparr>, cur_drive = 0,
         drives = (\<lambda>_. None)(0 := map_option (ide_drive_init bf_ops) (Some demo_img), 1 := map_option (ide_drive_init bf_ops) None)\<rparr>, m)"
    using ide_init_some by blast
  then show "drives demo_ide 0 = Some (ide_drive_init bf_ops demo_img)" "ide_run bf_ops (Some demo_img) None demo_ide"
    using ide_run.start [OF i] by (simp_all add: demo_ide_def)
  show "drive_ready (ide_drive_init ops d)" "ide_bs (ide_drive_init ops d) = d"
    by (simp_all add: drive_ready_def ide_drive_init_def Let_def MAX_MULT_SECTORS_def)
  show ok: "bf_ok demo_img" unfolding demo_img_def by (rule init_ok) simp
  show "length (disk demo_img) = 1024" using length_disk [OF ok] by (simp add: demo_img_def block_device_init_def)
  show "table_ok demo_img" by (simp add: table_ok_def demo_img_def block_device_init_def)
qed

theorem ide_reads_disk_witness:
  "map_option fst (Option.bind (port_writes bf_ops (request 0 0 2 WIN_READ) demo_ide) (read_words bf_ops 512)) = Some (disk demo_img)"
  using ide_reads_disk [of 0 demo_ide "ide_drive_init bf_ops demo_img" 2 0 False] by (auto simp: demo_ide_facts)

theorem ide_writes_disk_witness:
  "\<exists>t' s'. Option.bind (port_writes bf_ops (request 0 1 1 WIN_MULTWRITE) demo_ide) (write_words bf_ops (replicate 256 0x0102)) = Some t'
    \<and> drives t' 0 = Some s' \<and> disk (ide_bs s') = write_bytes (disk demo_img) 512 (bytes_of (replicate 256 0x0102))"
proof -
  have m: "bf_mode demo_img \<noteq> BF_MODE_RO" by (simp add: demo_img_def block_device_init_def)
  show ?thesis
    using ide_writes_disk [of 0 demo_ide "ide_drive_init bf_ops demo_img" 1 1 "replicate 256 0x0102" True] m by (auto simp: demo_ide_facts)
qed

theorem ide_drives_well_formed_witness:
  "\<exists>s. drives (ide_cmd_write demo_ide 4) 0 = Some s \<and> length (io_buffer s) = IO_BUFFER_SIZE \<and> data_index s + 1 < IO_BUFFER_SIZE"
proof -
  have r: "ide_run bf_ops (Some demo_img) None (ide_cmd_write demo_ide 4)" by (rule ide_run.cmd_write [OF demo_ide_facts(2)])
  have "drives (ide_cmd_write demo_ide 4) 0 \<noteq> None"
    by (simp add: ide_cmd_write_def both_drives_def Let_def demo_ide_facts)
  then obtain s where s: "drives (ide_cmd_write demo_ide 4) 0 = Some s" by auto
  show ?thesis using ide_drives_well_formed [OF r _ s] demo_ide_facts(7) s by auto
qed

definition net_like_ops :: "unit block_ops" where
  "net_like_ops = \<lparr>get_sector_count = (\<lambda>_. 8), read_async = (\<lambda>d sec data n. Some (1, data, d)), write_async = (\<lambda>d sec data n. Some (1, d))\<rparr>"

theorem deferred_read_overflows_witness:
  "\<exists>t t1. ide_init net_like_ops [] 0x1f0 0x3f6 7 (Some ()) None = Some t \<and> port_writes net_like_ops (request 0 0 2 WIN_READ) (fst t) = Some t1
    \<and> write_words net_like_ops (replicate 32771 0) (ide_read_done t1 0 (replicate IO_BUFFER_SIZE 0) 0) = None"
proof -
  obtain m where i: "ide_init net_like_ops [] 0x1f0 0x3f6 7 (Some ()) None = Some (\<lparr>line = \<lparr>ide_cmd = 0, ide_irq = 0\<rparr>, cur_drive = 0,
         drives = (\<lambda>_. None)(0 := map_option (ide_drive_init net_like_ops) (Some ()), 1 := map_option (ide_drive_init net_like_ops) None)\<rparr>, m)"
    (is "_ = Some (?t, m)")
    using ide_init_some by blast
  have d: "drives ?t 0 = Some (ide_drive_init net_like_ops ())" by simp
  have "defers net_like_ops" by (simp add: defers_def net_like_ops_def)
  then show ?thesis
    using deferred_read_overflows [OF _ _ d demo_ide_facts(3), where i = 0 and data = "replicate IO_BUFFER_SIZE 0" and vs = "replicate 32771 0"] i
    by (auto simp: IO_BUFFER_SIZE_def)
qed

end
