(* ===== verification/Pic.thy ===== *)
theory Pic
  imports Iomem
begin

text \<open>
  \<open>x86_machine.c\<close>: the two chained 8259 interrupt controllers of the PC (\<open>PICState\<close>, \<open>PIC2State\<close>).
  \<open>cpu_irq\<close> is the level that \<open>cpu_set_irq\<close> was last called with.
\<close>

section \<open>State\<close>

record pic =
  last_irr :: u8
  irr :: u8
  imr :: u8
  isr :: u8
  priority_add :: u8
  irq_base :: u8
  read_reg_select :: u8
  special_mask :: u8
  init_state :: u8
  auto_eoi :: u8
  rotate_on_autoeoi :: u8
  init4 :: u8
  elcr :: u8
  elcr_mask :: u8

record pic2 =
  pics0 :: pic
  pics1 :: pic
  cpu_irq :: int

section \<open>One controller\<close>

definition pic_reset :: "pic \<Rightarrow> pic" where
  "pic_reset s = s\<lparr>last_irr := 0, irr := 0, imr := 0, isr := 0, priority_add := 0, irq_base := 0, read_reg_select := 0,
     special_mask := 0, init_state := 0, auto_eoi := 0, rotate_on_autoeoi := 0, init4 := 0\<rparr>"

definition pic_init :: "u8 \<Rightarrow> pic" where
  "pic_init m = pic_reset \<lparr>last_irr = 0, irr = 0, imr = 0, isr = 0, priority_add = 0, irq_base = 0, read_reg_select = 0,
     special_mask = 0, init_state = 0, auto_eoi = 0, rotate_on_autoeoi = 0, init4 = 0, elcr = 0, elcr_mask = m\<rparr>"

abbreviation irq_bit :: "nat \<Rightarrow> u8" where "irq_bit n \<equiv> push_bit n 1"

definition pic_set_irq1 :: "pic \<Rightarrow> nat \<Rightarrow> int \<Rightarrow> pic" where
  "pic_set_irq1 s irq level =
     (let m = irq_bit irq
      in if c_true (elcr s AND m) then
           if level \<noteq> 0 then s\<lparr>irr := irr s OR m, last_irr := last_irr s OR m\<rparr>
           else s\<lparr>irr := irr s AND NOT m, last_irr := last_irr s AND NOT m\<rparr>
         else
           if level \<noteq> 0 then
             s\<lparr>irr := (if last_irr s AND m = 0 then irr s OR m else irr s), last_irr := last_irr s OR m\<rparr>
           else s\<lparr>last_irr := last_irr s AND NOT m\<rparr>)"

text \<open>The line of a priority.\<close>

definition line_of_priority :: "pic \<Rightarrow> nat \<Rightarrow> nat" where
  "line_of_priority s p = (p + unat (priority_add s)) mod 8"

text \<open>The eight priorities name the eight lines, so for a mask other than 0 the loop ends at 0 at the latest.\<close>

fun priority_loop :: "pic \<Rightarrow> u8 \<Rightarrow> nat \<Rightarrow> nat" where
  "priority_loop s m 0 = 0"
| "priority_loop s m (Suc p) = (if m AND irq_bit (line_of_priority s (Suc p)) = 0 then priority_loop s m p else Suc p)"

definition pic_get_priority :: "pic \<Rightarrow> u8 \<Rightarrow> int" where
  "pic_get_priority s m = (if m = 0 then -1 else int (priority_loop s m 7))"

definition pic_get_irq :: "pic \<Rightarrow> int" where
  "pic_get_irq s =
     (let m = irr s AND NOT (imr s); priority = pic_get_priority s m
      in if priority < 0 then -1
         else if priority > pic_get_priority s (isr s) then priority else -1)"

definition pic_intack :: "pic \<Rightarrow> nat \<Rightarrow> pic" where
  "pic_intack s irq =
     (let s1 = (if c_true (auto_eoi s) then if c_true (rotate_on_autoeoi s) then s\<lparr>priority_add := of_nat (irq + 1) AND 7\<rparr> else s
                else s\<lparr>isr := isr s OR irq_bit irq\<rparr>)
      in if \<not> c_true (elcr s1 AND irq_bit irq) then s1\<lparr>irr := irr s1 AND NOT (irq_bit irq)\<rparr> else s1)"

definition end_of_interrupt :: "pic \<Rightarrow> u32 \<Rightarrow> pic" where
  "end_of_interrupt s val =
     (let priority = pic_get_priority s (isr s);
          s1 = (if priority \<ge> 0 then s\<lparr>isr := isr s AND NOT (irq_bit (line_of_priority s (nat priority)))\<rparr> else s)
      in if val = 0xa0 then s1\<lparr>priority_add := (priority_add s1 + 1) AND 7\<rparr> else s1)"

text \<open>The switch on the operation command words of the first kind, by ranges of their values.\<close>

definition pic_ocw2 :: "pic \<Rightarrow> u32 \<Rightarrow> pic" where
  "pic_ocw2 s val =
     (let n = unat (val AND 7)
      in if val = 0x00 \<or> val = 0x80 then s\<lparr>rotate_on_autoeoi := ucast (drop_bit 7 val)\<rparr>
         else if val = 0x20 \<or> val = 0xa0 then end_of_interrupt s val
         else if 0x60 \<le> val \<and> val \<le> 0x67 then s\<lparr>isr := isr s AND NOT (irq_bit n)\<rparr>
         else if 0xc0 \<le> val \<and> val \<le> 0xc7 then s\<lparr>priority_add := ucast (val + 1) AND 7\<rparr>
         else if 0xe0 \<le> val \<and> val \<le> 0xe7 then s\<lparr>isr := isr s AND NOT (irq_bit n), priority_add := of_nat (n + 1) AND 7\<rparr>
         else s)"

text \<open>\<open>abort()\<close> on the modes that are not supported.\<close>

definition pic_command :: "pic \<Rightarrow> u32 \<Rightarrow> pic option" where
  "pic_command s val =
     (if c_true (val AND 0x10) then
        if c_true (val AND 0x02) \<or> c_true (val AND 0x08) then None
        else Some ((pic_reset s)\<lparr>init_state := 1, init4 := ucast (val AND 1)\<rparr>)
      else if c_true (val AND 0x08) then
        let s1 = (if c_true (val AND 0x02) then s\<lparr>read_reg_select := ucast (val AND 1)\<rparr> else s)
        in Some (if c_true (val AND 0x40) then s1\<lparr>special_mask := ucast (drop_bit 5 val AND 1)\<rparr> else s1)
      else Some (pic_ocw2 s val))"

text \<open>The second port; the flag says that \<open>update_irq\<close> is called.\<close>

definition pic_data :: "pic \<Rightarrow> u32 \<Rightarrow> pic \<times> bool" where
  "pic_data s val =
     (if init_state s = 0 then (s\<lparr>imr := ucast val\<rparr>, True)
      else if init_state s = 1 then (s\<lparr>irq_base := ucast (val AND 0xf8), init_state := 2\<rparr>, False)
      else if init_state s = 2 then (s\<lparr>init_state := (if c_true (init4 s) then 3 else 0)\<rparr>, False)
      else if init_state s = 3 then (s\<lparr>auto_eoi := ucast (drop_bit 1 val AND 1), init_state := 0\<rparr>, False)
      else (s, False))"

definition pic_write :: "pic \<Rightarrow> u32 \<Rightarrow> u32 \<Rightarrow> (pic \<times> bool) option" where
  "pic_write s offset val =
     (if offset AND 1 = 0 then map_option (\<lambda>s1. (s1, False)) (pic_command s val) else Some (pic_data s val))"

definition pic_read :: "pic \<Rightarrow> u32 \<Rightarrow> u32" where
  "pic_read s offset =
     (if offset AND 1 = 0 then (if c_true (read_reg_select s) then ucast (isr s) else ucast (irr s)) else ucast (imr s))"

definition pic_elcr_write :: "pic \<Rightarrow> u32 \<Rightarrow> pic" where
  "pic_elcr_write s val = s\<lparr>elcr := ucast val AND elcr_mask s\<rparr>"

definition pic_elcr_read :: "pic \<Rightarrow> u32" where
  "pic_elcr_read s = ucast (elcr s)"

section \<open>The chain\<close>

definition pic2_update_irq :: "pic2 \<Rightarrow> pic2" where
  "pic2_update_irq s =
     (let p = (if pic_get_irq (pics1 s) \<ge> 0 then pic_set_irq1 (pic_set_irq1 (pics0 s) 2 1) 2 0 else pics0 s)
      in s\<lparr>pics0 := p, cpu_irq := (if pic_get_irq p \<ge> 0 then 1 else 0)\<rparr>)"

definition upd_pic :: "pic2 \<Rightarrow> nat \<Rightarrow> (pic \<Rightarrow> pic) \<Rightarrow> pic2" where
  "upd_pic s k f = (if k = 0 then s\<lparr>pics0 := f (pics0 s)\<rparr> else s\<lparr>pics1 := f (pics1 s)\<rparr>)"

definition pic_of :: "pic2 \<Rightarrow> nat \<Rightarrow> pic" where
  "pic_of s k = (if k = 0 then pics0 s else pics1 s)"

definition pic2_set_irq :: "pic2 \<Rightarrow> nat \<Rightarrow> int \<Rightarrow> pic2" where
  "pic2_set_irq s irq level = pic2_update_irq (upd_pic s (irq div 8) (\<lambda>p. pic_set_irq1 p (irq mod 8) level))"

definition pic2_get_hard_intno :: "pic2 \<Rightarrow> int \<times> pic2" where
  "pic2_get_hard_intno s =
     (let irq = pic_get_irq (pics0 s)
      in if irq \<ge> 0 then
           let s1 = s\<lparr>pics0 := pic_intack (pics0 s) (nat irq)\<rparr>
           in if irq = 2 then
                let irq2 = pic_get_irq (pics1 s1)
                in if irq2 \<ge> 0 then
                     let s2 = s1\<lparr>pics1 := pic_intack (pics1 s1) (nat irq2)\<rparr>
                     in (int (unat (irq_base (pics1 s2))) + irq2, pic2_update_irq s2)
                   else (int (unat (irq_base (pics1 s1))) + 7, pic2_update_irq s1)
              else (int (unat (irq_base (pics0 s1))) + irq, pic2_update_irq s1)
         else (int (unat (irq_base (pics0 s))) + 7, pic2_update_irq s))"

definition pic2_write :: "pic2 \<Rightarrow> nat \<Rightarrow> u32 \<Rightarrow> u32 \<Rightarrow> pic2 option" where
  "pic2_write s k offset val =
     (case pic_write (pic_of s k) offset val of
        None \<Rightarrow> None
      | Some (p, upd) \<Rightarrow> let s1 = upd_pic s k (\<lambda>_. p) in Some (if upd then pic2_update_irq s1 else s1))"

definition pic2_set_elcr :: "pic2 \<Rightarrow> u8 list \<Rightarrow> pic2" where
  "pic2_set_elcr s e = s\<lparr>pics0 := (pics0 s)\<lparr>elcr := e ! 0 AND elcr_mask (pics0 s)\<rparr>, pics1 := (pics1 s)\<lparr>elcr := e ! 1 AND elcr_mask (pics1 s)\<rparr>\<rparr>"

definition pic_ports :: "phys_mem_map \<Rightarrow> u64 \<Rightarrow> u64 \<Rightarrow> nat \<Rightarrow> nat \<Rightarrow> phys_mem_map option" where
  "pic_ports m port elcr_port name elcr_name =
     (case cpu_register_device m port 2 name DEVIO_SIZE8 of
        None \<Rightarrow> None
      | Some (m1, _) \<Rightarrow> map_option fst (cpu_register_device m1 elcr_port 1 elcr_name DEVIO_SIZE8))"

definition pic2_init :: "phys_mem_map \<Rightarrow> u32 \<Rightarrow> u32 \<Rightarrow> u32 \<Rightarrow> u32 \<Rightarrow> nat \<Rightarrow> (pic2 \<times> phys_mem_map) option" where
  "pic2_init m addr0 addr1 elcr_addr0 elcr_addr1 name =
     (case pic_ports m (ucast addr0) (ucast elcr_addr0) name (name + 1) of
        None \<Rightarrow> None
      | Some m1 \<Rightarrow>
          map_option (\<lambda>m2. (\<lparr>pics0 = pic_init 0xf8, pics1 = pic_init 0xde, cpu_irq = 0\<rparr>, m2))
            (pic_ports m1 (ucast addr1) (ucast elcr_addr1) (name + 2) (name + 3)))"

end
