(* ===== verification/PicSpec.thy ===== *)
theory PicSpec
  imports Pic
begin

text \<open>
  The interrupt controllers: which line a controller asks for, the life of an interrupt from the line of a device to the
  end-of-interrupt commands, and what a rotated priority does.
\<close>

section \<open>One line of a register\<close>

lemma bit_irq_bit [simp]: "bit (2 ^ n :: u8) k \<longleftrightarrow> k = n \<and> n < 8"
  by (auto simp: bit_exp_iff)

lemma c_true_irq_bit [simp]: "n < 8 \<Longrightarrow> c_true (m AND 2 ^ n) \<longleftrightarrow> bit m n" for m :: u8
  using and_exp_eq_0_iff_not_bit [of m n] by simp

lemma and_irq_bit [simp]: "n < 8 \<Longrightarrow> m AND 2 ^ n = 0 \<longleftrightarrow> \<not> bit m n" for m :: u8
  by (rule and_exp_eq_0_iff_not_bit)

lemma line_of_priority_lt [simp]: "line_of_priority s p < 8"
  by (simp add: line_of_priority_def)

lemma u8_zero_iff: "m = 0 \<longleftrightarrow> (\<forall>k < 8. \<not> bit m k)" for m :: u8
  by (auto simp: bit_eq_iff)

section \<open>The wanted interrupt\<close>

lemma priority_loop_only:
  assumes "\<And>q. q < 8 \<Longrightarrow> bit m (line_of_priority s q) \<longleftrightarrow> q = p" "p \<le> k" "k < 8"
  shows "priority_loop s m k = p"
  using assms(2,3) by (induction k) (use assms(1) in \<open>auto simp: le_Suc_eq\<close>)

lemma get_priority_only:
  assumes "\<And>q. q < 8 \<Longrightarrow> bit m (line_of_priority s q) \<longleftrightarrow> q = p" "p < 8"
  shows "pic_get_priority s m = int p"
proof -
  have "bit m (line_of_priority s p)" using assms by simp
  then have "m \<noteq> 0" by auto
  with assms show ?thesis by (simp add: pic_get_priority_def priority_loop_only)
qed

lemma get_priority_none [simp]: "pic_get_priority s 0 = -1"
  by (simp add: pic_get_priority_def)

lemma get_irq_none: "irr s AND NOT (imr s) = 0 \<Longrightarrow> pic_get_irq s = -1"
  by (simp add: pic_get_irq_def)

text \<open>The priority at which the loop meets a line.\<close>

definition priority_of :: "pic \<Rightarrow> nat \<Rightarrow> nat" where
  "priority_of s i = (i + 8 - unat (priority_add s) mod 8) mod 8"

lemma priority_of_lt [simp]: "priority_of s i < 8"
  by (simp add: priority_of_def)

lemma line_of_priority_iff:
  assumes "q < 8" "i < 8"
  shows "line_of_priority s q = i \<longleftrightarrow> q = priority_of s i"
proof -
  obtain a where a: "a = unat (priority_add s) mod 8" "a < 8" by simp
  have q: "line_of_priority s q = (if q + a < 8 then q + a else q + a - 8)"
  proof -
    have "line_of_priority s q = (q + a) mod 8"
      unfolding line_of_priority_def a(1) by (rule mod_add_right_eq [symmetric])
    also have "\<dots> = (if q + a < 8 then q + a else q + a - 8)"
      by (cases "q + a < 8") (use assms(1) a(2) in \<open>simp_all add: le_mod_geq\<close>)
    finally show ?thesis .
  qed
  have p: "priority_of s i = (if i < a then i + 8 - a else i - a)"
  proof -
    have "priority_of s i = (i + 8 - a) mod 8" by (simp only: priority_of_def a(1))
    also have "\<dots> = (if i < a then i + 8 - a else i - a)"
      by (cases "i < a") (use assms(2) a(2) in \<open>simp_all add: le_mod_geq\<close>)
    finally show ?thesis .
  qed
  show ?thesis using assms a(2) by (auto simp: q p)
qed

lemma priority_of_plain [simp]: "priority_add s = 0 \<Longrightarrow> i < 8 \<Longrightarrow> priority_of s i = i"
  by (simp add: priority_of_def)

lemma get_priority_single:
  assumes "\<And>k. k < 8 \<Longrightarrow> bit m k \<longleftrightarrow> k = i" "i < 8"
  shows "pic_get_priority s m = int (priority_of s i)"
  by (rule get_priority_only) (use assms in \<open>simp_all add: line_of_priority_iff\<close>)

lemma get_irq_single:
  assumes "\<And>k. k < 8 \<Longrightarrow> bit (irr s AND NOT (imr s)) k \<longleftrightarrow> k = i" "i < 8" "isr s = 0"
  shows "pic_get_irq s = int (priority_of s i)"
  using assms get_priority_single [of "irr s AND NOT (imr s)" i s]
  by (simp add: pic_get_irq_def Let_def)

section \<open>Raising, acknowledging and ending one interrupt\<close>

text \<open>Nothing is in service and nothing that is not masked is pending.\<close>

definition quiet :: "pic \<Rightarrow> bool" where
  "quiet p \<longleftrightarrow> isr p = 0 \<and> irr p AND NOT (imr p) = 0 \<and> auto_eoi p = 0"

text \<open>A rise of the line is seen: the line is not masked, and was low unless it is level-triggered.\<close>

definition can_raise :: "pic \<Rightarrow> nat \<Rightarrow> bool" where
  "can_raise p i \<longleftrightarrow> i < 8 \<and> \<not> bit (imr p) i \<and> (bit (elcr p) i \<or> \<not> bit (last_irr p) i)"

lemma quietD: "quiet p \<Longrightarrow> isr p = 0 \<and> auto_eoi p = 0 \<and> (\<forall>k < 8. bit (irr p) k \<longrightarrow> bit (imr p) k)"
  by (auto simp: quiet_def u8_zero_iff bit_and_iff bit_not_iff)

lemma quiet_get_irq [simp]: "quiet p \<Longrightarrow> pic_get_irq p = -1"
  by (simp add: quiet_def get_irq_none)

lemma set_irq1_same [simp]:
  "isr (pic_set_irq1 p i v) = isr p" "imr (pic_set_irq1 p i v) = imr p" "elcr (pic_set_irq1 p i v) = elcr p"
  "priority_add (pic_set_irq1 p i v) = priority_add p" "irq_base (pic_set_irq1 p i v) = irq_base p"
  "auto_eoi (pic_set_irq1 p i v) = auto_eoi p" "rotate_on_autoeoi (pic_set_irq1 p i v) = rotate_on_autoeoi p"
  by (auto simp: pic_set_irq1_def Let_def)

lemma set_irq1_irr:
  "can_raise p i \<Longrightarrow> v \<noteq> 0 \<Longrightarrow> irr (pic_set_irq1 p i v) = irr p OR 2 ^ i"
  by (auto simp: pic_set_irq1_def can_raise_def Let_def)

lemma pending_after_raise:
  assumes "quiet p" "can_raise p i" "v \<noteq> 0" "k < 8"
  shows "bit (irr (pic_set_irq1 p i v) AND NOT (imr p)) k \<longleftrightarrow> k = i"
  using assms quietD [of p] by (auto simp: set_irq1_irr bit_and_iff bit_not_iff bit_or_iff can_raise_def)

lemma raised_get_irq:
  assumes "quiet p" "can_raise p i" "v \<noteq> 0"
  shows "pic_get_irq (pic_set_irq1 p i v) = int (priority_of p i)"
  using assms get_irq_single [of "pic_set_irq1 p i v" i] pending_after_raise [OF assms] quietD [of p]
  by (simp add: can_raise_def priority_of_def)

text \<open>A line that is pending and in service.\<close>

definition serving :: "pic \<Rightarrow> nat \<Rightarrow> bool" where
  "serving p i \<longleftrightarrow> i < 8 \<and> isr p = 2 ^ i \<and> (\<forall>k < 8. bit (irr p) k \<longrightarrow> bit (imr p) k \<or> k = i \<and> bit (elcr p) i) \<and> auto_eoi p = 0 \<and> priority_add p = 0"

lemma serving_get_irq [simp]:
  assumes "serving p i" shows "pic_get_irq p = -1"
proof (cases "irr p AND NOT (imr p) = 0")
  case True
  then show ?thesis by (rule get_irq_none)
next
  case False
  have i: "i < 8" and sv: "isr p = 2 ^ i" using assms by (auto simp: serving_def)
  from False assms have "bit (irr p AND NOT (imr p)) k \<longleftrightarrow> k = i" if "k < 8" for k
    using that by (auto simp: serving_def u8_zero_iff bit_and_iff bit_not_iff)
  then have "pic_get_priority p (irr p AND NOT (imr p)) = int (priority_of p i)" using i by (rule get_priority_single)
  moreover have "pic_get_priority p (isr p) = int (priority_of p i)" by (rule get_priority_single) (simp_all add: sv i)
  ultimately show ?thesis by (simp add: pic_get_irq_def)
qed

lemma intack_serving:
  assumes "quiet p" "can_raise p i" "v \<noteq> 0" "priority_add p = 0"
  shows "serving (pic_intack (pic_set_irq1 p i v) i) i"
  using assms quietD [of p]
  by (auto simp: serving_def pic_intack_def set_irq1_irr can_raise_def Let_def bit_and_iff bit_or_iff bit_not_iff)

lemma end_of_interrupt_serving:
  assumes "serving p i" shows "isr (end_of_interrupt p 0x20) = 0"
proof -
  have i: "i < 8" and sv: "isr p = 2 ^ i" and a: "priority_add p = 0" using assms by (auto simp: serving_def)
  have "pic_get_priority p (isr p) = int (priority_of p i)" by (rule get_priority_single) (simp_all add: sv i)
  then show ?thesis
    by (simp add: end_of_interrupt_def line_of_priority_def a i sv)
qed

lemma end_of_interrupt_same [simp]:
  "irr (end_of_interrupt p v) = irr p" "imr (end_of_interrupt p v) = imr p" "elcr (end_of_interrupt p v) = elcr p"
  "auto_eoi (end_of_interrupt p v) = auto_eoi p"
  by (auto simp: end_of_interrupt_def Let_def)

lemma end_of_interrupt_quiet:
  assumes "serving p i" "\<not> bit (elcr p) i"
  shows "quiet (end_of_interrupt p 0x20)"
  using assms end_of_interrupt_serving [OF assms(1)]
  by (auto simp: quiet_def u8_zero_iff [of "irr p AND NOT (imr p)"] bit_and_iff bit_not_iff serving_def)

lemma eoi_command: "pic_write p 0 0x20 = Some (end_of_interrupt p 0x20, False)"
  by (simp add: pic_write_def pic_command_def pic_ocw2_def)

section \<open>The chain\<close>

lemma last_irr_irrelevant [simp]:
  "pic_get_irq (p\<lparr>last_irr := x\<rparr>) = pic_get_irq p" "pic_intack (p\<lparr>last_irr := x\<rparr>) i = (pic_intack p i)\<lparr>last_irr := x\<rparr>"
  "serving (p\<lparr>last_irr := x\<rparr>) i = serving p i"
proof -
  have l: "priority_loop (p\<lparr>last_irr := x\<rparr>) m k = priority_loop p m k" for m k
    by (induction k) (simp_all add: line_of_priority_def)
  show "pic_get_irq (p\<lparr>last_irr := x\<rparr>) = pic_get_irq p" by (simp add: pic_get_irq_def pic_get_priority_def l Let_def)
  show "pic_intack (p\<lparr>last_irr := x\<rparr>) i = (pic_intack p i)\<lparr>last_irr := x\<rparr>" by (simp add: pic_intack_def Let_def)
  show "serving (p\<lparr>last_irr := x\<rparr>) i = serving p i" by (simp add: serving_def)
qed

lemma intack_same [simp]: "irq_base (pic_intack p i) = irq_base p" "elcr (pic_intack p i) = elcr p"
  by (simp_all add: pic_intack_def Let_def)

text \<open>The slave signals the master with a pulse of line 2.\<close>

definition pulse :: "pic \<Rightarrow> pic" where
  "pulse p = pic_set_irq1 (pic_set_irq1 p 2 1) 2 0"

lemma pulse_eq:
  assumes "\<not> bit (elcr p) 2"
  shows "pulse p = (pic_set_irq1 p 2 1)\<lparr>last_irr := last_irr (pic_set_irq1 p 2 1) AND NOT 4\<rparr>"
  using assms c_true_irq_bit [of 2 "elcr p"] by (simp add: pulse_def pic_set_irq1_def [of "pic_set_irq1 p 2 1"])

lemma pulse_get_irq:
  "quiet p \<Longrightarrow> can_raise p 2 \<Longrightarrow> \<not> bit (elcr p) 2 \<Longrightarrow> priority_add p = 0 \<Longrightarrow> pic_get_irq (pulse p) = 2"
  using raised_get_irq [of p 2 1] by (simp add: pulse_eq)

lemma pulse_intack:
  "quiet p \<Longrightarrow> can_raise p 2 \<Longrightarrow> \<not> bit (elcr p) 2 \<Longrightarrow> priority_add p = 0 \<Longrightarrow> serving (pic_intack (pulse p) 2) 2"
  using intack_serving [of p 2 1] by (simp add: pulse_eq)

lemma update_irq_idle:
  "pic_get_irq (pics1 s) = -1 \<Longrightarrow> pic2_update_irq s = s\<lparr>cpu_irq := (if pic_get_irq (pics0 s) \<ge> 0 then 1 else 0)\<rparr>"
  by (simp add: pic2_update_irq_def)

lemma update_irq_slave:
  "pic_get_irq (pics1 s) \<ge> 0 \<Longrightarrow>
   pic2_update_irq s = s\<lparr>pics0 := pulse (pics0 s), cpu_irq := (if pic_get_irq (pulse (pics0 s)) \<ge> 0 then 1 else 0)\<rparr>"
  by (simp add: pic2_update_irq_def pulse_def)

lemma pic2_eoi:
  "pic2_write s 0 0 0x20 = Some (s\<lparr>pics0 := end_of_interrupt (pics0 s) 0x20\<rparr>)"
  "pic2_write s 1 0 0x20 = Some (s\<lparr>pics1 := end_of_interrupt (pics1 s) 0x20\<rparr>)"
  by (simp_all add: pic2_write_def eoi_command pic_of_def upd_pic_def)

text \<open>Nothing goes on in either controller, and the priorities are not rotated.\<close>

definition chain_quiet :: "pic2 \<Rightarrow> bool" where
  "chain_quiet s \<longleftrightarrow> quiet (pics0 s) \<and> quiet (pics1 s) \<and> priority_add (pics0 s) = 0 \<and> priority_add (pics1 s) = 0"

text \<open>Line \<open>i\<close> of the 16 can be raised; the lines of the slave come through line 2 of the master.\<close>

definition line_open :: "pic2 \<Rightarrow> nat \<Rightarrow> bool" where
  "line_open s i \<longleftrightarrow> i < 16 \<and> i \<noteq> 2 \<and> can_raise (pic_of s (i div 8)) (i mod 8)
     \<and> (8 \<le> i \<longrightarrow> can_raise (pics0 s) 2 \<and> \<not> bit (elcr (pics0 s)) 2)"

text \<open>The end-of-interrupt commands of a driver.\<close>

definition driver_eoi :: "pic2 \<Rightarrow> nat \<Rightarrow> pic2 option" where
  "driver_eoi s i =
     (if i < 8 then pic2_write s 0 0 0x20 else Option.bind (pic2_write s 1 0 0x20) (\<lambda>s1. pic2_write s1 0 0 0x20))"

lemma master_line:
  assumes "chain_quiet s" "line_open s i" "v \<noteq> 0" "i < 8"
  shows "pic2_set_irq s i v = s\<lparr>pics0 := pic_set_irq1 (pics0 s) i v, cpu_irq := 1\<rparr>"
    and "pic2_get_hard_intno (pic2_set_irq s i v) =
         (int (unat (irq_base (pics0 s))) + int i, s\<lparr>pics0 := pic_intack (pic_set_irq1 (pics0 s) i v) i, cpu_irq := 0\<rparr>)"
proof -
  have q: "quiet (pics0 s)" "quiet (pics1 s)" "priority_add (pics0 s) = 0" and c: "can_raise (pics0 s) i" and n: "i \<noteq> 2"
    using assms by (auto simp: chain_quiet_def line_open_def pic_of_def)
  have g: "pic_get_irq (pic_set_irq1 (pics0 s) i v) = int i"
    using raised_get_irq [OF q(1) c assms(3)] q(3) assms(4) by simp
  show s1: "pic2_set_irq s i v = s\<lparr>pics0 := pic_set_irq1 (pics0 s) i v, cpu_irq := 1\<rparr>"
    using assms(4) q(2) g by (simp add: pic2_set_irq_def upd_pic_def update_irq_idle)
  have "serving (pic_intack (pic_set_irq1 (pics0 s) i v) i) i" by (rule intack_serving [OF q(1) c assms(3) q(3)])
  then have "pic_get_irq (pic_intack (pic_set_irq1 (pics0 s) i v) i) = -1" by simp
  then show "pic2_get_hard_intno (pic2_set_irq s i v) =
      (int (unat (irq_base (pics0 s))) + int i, s\<lparr>pics0 := pic_intack (pic_set_irq1 (pics0 s) i v) i, cpu_irq := 0\<rparr>)"
    using n g q(2) by (simp add: pic2_get_hard_intno_def s1 update_irq_idle)
qed

lemma slave_line:
  assumes "chain_quiet s" "line_open s (j + 8)" "v \<noteq> 0"
  shows "pic2_set_irq s (j + 8) v = s\<lparr>pics0 := pulse (pics0 s), pics1 := pic_set_irq1 (pics1 s) j v, cpu_irq := 1\<rparr>"
    and "pic2_get_hard_intno (pic2_set_irq s (j + 8) v) =
         (int (unat (irq_base (pics1 s))) + int j,
          s\<lparr>pics0 := pic_intack (pulse (pics0 s)) 2, pics1 := pic_intack (pic_set_irq1 (pics1 s) j v) j, cpu_irq := 0\<rparr>)"
proof -
  have "j < 8" using assms(2) by (simp add: line_open_def)
  then have j: "j < 8" "(j + 8) div 8 = 1" "(j + 8) mod 8 = j" by simp_all
  then have q: "quiet (pics0 s)" "quiet (pics1 s)" "priority_add (pics0 s) = 0" "priority_add (pics1 s) = 0"
    and c: "can_raise (pics1 s) j" "can_raise (pics0 s) 2" "\<not> bit (elcr (pics0 s)) 2"
    using assms by (auto simp: chain_quiet_def line_open_def pic_of_def)
  have g1: "pic_get_irq (pic_set_irq1 (pics1 s) j v) = int j"
    using raised_get_irq [OF q(2) c(1) assms(3)] q(4) j(1) by simp
  have g0: "pic_get_irq (pulse (pics0 s)) = 2" by (rule pulse_get_irq [OF q(1) c(2,3) q(3)])
  show s1: "pic2_set_irq s (j + 8) v = s\<lparr>pics0 := pulse (pics0 s), pics1 := pic_set_irq1 (pics1 s) j v, cpu_irq := 1\<rparr>"
    using j g1 g0 by (simp add: pic2_set_irq_def upd_pic_def update_irq_slave)
  have "serving (pic_intack (pic_set_irq1 (pics1 s) j v) j) j" by (rule intack_serving [OF q(2) c(1) assms(3) q(4)])
  then have s1': "pic_get_irq (pic_intack (pic_set_irq1 (pics1 s) j v) j) = -1" by simp
  have "serving (pic_intack (pulse (pics0 s)) 2) 2" by (rule pulse_intack [OF q(1) c(2,3) q(3)])
  then have s0': "pic_get_irq (pic_intack (pulse (pics0 s)) 2) = -1" by simp
  show "pic2_get_hard_intno (pic2_set_irq s (j + 8) v) =
      (int (unat (irq_base (pics1 s))) + int j,
       s\<lparr>pics0 := pic_intack (pulse (pics0 s)) 2, pics1 := pic_intack (pic_set_irq1 (pics1 s) j v) j, cpu_irq := 0\<rparr>)"
    by (simp add: pic2_get_hard_intno_def s1 g1 g0 s1' s0' update_irq_idle)
qed

section \<open>Properties\<close>

text \<open>C32: an interrupt is delivered once and to the right handler. When nothing is pending or in service and the
priorities are not rotated, raising one of the fifteen lines raises the interrupt of the CPU; the number that the CPU is
then given is the line within its controller, after the base that the guest programmed for that controller; the
interrupt of the CPU is lowered and stays low while the line is in service; and after the end-of-interrupt commands
(to the slave first for a line of the slave) nothing is in service, and, for an edge-triggered line, nothing is pending.\<close>

theorem interrupt_delivered:
  assumes "chain_quiet s" "line_open s i" "level \<noteq> 0"
  shows "cpu_irq (pic2_set_irq s i level) = 1 \<and>
    (\<exists>s2 s3. pic2_get_hard_intno (pic2_set_irq s i level) = (int (unat (irq_base (pic_of s (i div 8)))) + int (i mod 8), s2) \<and>
       cpu_irq s2 = 0 \<and> cpu_irq (pic2_update_irq s2) = 0 \<and> isr (pic_of s2 (i div 8)) = 2 ^ (i mod 8) \<and>
       driver_eoi s2 i = Some s3 \<and> isr (pics0 s3) = 0 \<and> isr (pics1 s3) = 0 \<and>
       (\<not> bit (elcr (pic_of s (i div 8))) (i mod 8) \<longrightarrow> quiet (pics0 s3) \<and> quiet (pics1 s3)))"
proof (cases "i < 8")
  case True
  note m = master_line [OF assms True]
  have q: "quiet (pics0 s)" "quiet (pics1 s)" "priority_add (pics0 s) = 0" and c: "can_raise (pics0 s) i"
    using assms True by (auto simp: chain_quiet_def line_open_def pic_of_def)
  let ?p = "pic_intack (pic_set_irq1 (pics0 s) i level) i"
  have sv: "serving ?p i" by (rule intack_serving [OF q(1) c assms(3) q(3)])
  moreover have "isr ?p = 2 ^ i" using sv by (simp add: serving_def)
  ultimately show ?thesis
    using True q(2) quietD [OF q(2)] end_of_interrupt_serving [OF sv] end_of_interrupt_quiet [OF sv]
    by (simp add: m(1) m(2) [unfolded m(1)] pic_of_def update_irq_idle driver_eoi_def pic2_eoi)
next
  case False
  define j where "j = i - 8"
  have i: "i = j + 8" using False by (simp add: j_def)
  have "j < 8" using assms(2) by (simp add: line_open_def i)
  then have j: "(j + 8) div 8 = 1" "(j + 8) mod 8 = j" "j mod 8 = j" by simp_all
  note m = slave_line [OF assms(1) assms(2) [unfolded i] assms(3)]
  have q: "quiet (pics0 s)" "quiet (pics1 s)" "priority_add (pics0 s) = 0" "priority_add (pics1 s) = 0"
    and c: "can_raise (pics1 s) j" "can_raise (pics0 s) 2" "\<not> bit (elcr (pics0 s)) 2"
    using assms j by (auto simp: chain_quiet_def line_open_def pic_of_def i)
  let ?p = "pic_intack (pulse (pics0 s)) 2" and ?q = "pic_intack (pic_set_irq1 (pics1 s) j level) j"
  have sv: "serving ?p 2" by (rule pulse_intack [OF q(1) c(2,3) q(3)])
  have sv1: "serving ?q j" by (rule intack_serving [OF q(2) c(1) assms(3) q(4)])
  have "elcr ?p = elcr (pics0 s)" using c(3) by (simp add: pulse_eq)
  moreover have "isr ?q = 2 ^ j" using sv1 by (simp add: serving_def)
  ultimately show ?thesis
    using c(3) sv sv1 end_of_interrupt_serving [OF sv] end_of_interrupt_quiet [OF sv]
      end_of_interrupt_serving [OF sv1] end_of_interrupt_quiet [OF sv1]
    by (simp add: i j m(1) m(2) [unfolded m(1)] pic_of_def update_irq_idle driver_eoi_def pic2_eoi pic2_eoi [simplified])
qed

text \<open>The PC's controllers after a driver has programmed the bases 0x20 and 0x28 and masked nothing.\<close>

definition programmed_chain :: pic2 where
  "programmed_chain = \<lparr>pics0 = (pic_init 0xf8)\<lparr>irq_base := 0x20\<rparr>, pics1 = (pic_init 0xde)\<lparr>irq_base := 0x28\<rparr>, cpu_irq = 0\<rparr>"

lemma programmed_quiet: "chain_quiet programmed_chain" "quiet (pics0 programmed_chain)" "quiet (pics1 programmed_chain)"
  by (simp_all add: chain_quiet_def programmed_chain_def quiet_def pic_init_def pic_reset_def)

lemma programmed_open: "line_open programmed_chain 12"
  by (simp add: line_open_def programmed_chain_def can_raise_def pic_init_def pic_reset_def pic_of_def)

lemma interrupt_delivered_witness:
  "\<exists>s2. pic2_get_hard_intno (pic2_set_irq programmed_chain 12 1) = (0x2c, s2) \<and> isr (pics1 s2) = 0x10"
  using interrupt_delivered [OF programmed_quiet(1) programmed_open, of 1]
  by (auto simp: pic_of_def) (auto simp: programmed_chain_def pic_init_def pic_reset_def)

text \<open>C33: a rotated priority makes the controller acknowledge another line than the one that was raised:
\<open>pic_get_irq\<close> returns the priority at which it found the line, not the line. When the guest has rotated the
priorities of the master and line \<open>i\<close> is raised, the CPU is given the number of the line \<open>priority_of\<close> names, that line
goes into service, and the request of line \<open>i\<close> stays pending.\<close>

theorem rotated_priority_wrong_line:
  assumes "quiet (pics0 s)" "quiet (pics1 s)" "can_raise (pics0 s) i" "level \<noteq> 0"
    "priority_of (pics0 s) i \<noteq> i" "priority_of (pics0 s) i \<noteq> 2"
  shows "\<exists>s2. pic2_get_hard_intno (pic2_set_irq s i level)
      = (int (unat (irq_base (pics0 s))) + int (priority_of (pics0 s) i), s2) \<and>
    isr (pics0 s2) = 2 ^ priority_of (pics0 s) i \<and> bit (irr (pics0 s2)) i"
proof -
  let ?p = "pic_set_irq1 (pics0 s) i level" and ?k = "priority_of (pics0 s) i"
  have i: "i < 8" using assms(3) by (simp add: can_raise_def)
  have g: "pic_get_irq ?p = int ?k" by (rule raised_get_irq [OF assms(1,3,4)])
  have s1: "pic2_set_irq s i level = s\<lparr>pics0 := ?p, cpu_irq := 1\<rparr>"
    using i assms(2) g by (simp add: pic2_set_irq_def upd_pic_def update_irq_idle)
  have isr: "isr (pic_intack ?p ?k) = 2 ^ ?k" using quietD [OF assms(1)] by (simp add: pic_intack_def Let_def)
  have irr: "bit (irr (pic_intack ?p ?k)) i"
    using assms(5) i by (auto simp: pic_intack_def Let_def set_irq1_irr [OF assms(3,4)] bit_and_iff bit_or_iff bit_not_iff)
  have "snd (pic2_get_hard_intno (s\<lparr>pics0 := ?p, cpu_irq := 1\<rparr>))
      = pic2_update_irq (s\<lparr>cpu_irq := 1, pics0 := pic_intack ?p ?k\<rparr>)"
    and "fst (pic2_get_hard_intno (s\<lparr>pics0 := ?p, cpu_irq := 1\<rparr>)) = int (unat (irq_base (pics0 s))) + int ?k"
    using g assms(6) by (simp_all add: pic2_get_hard_intno_def Let_def)
  then show ?thesis
    using isr irr assms(2) by (simp add: s1 prod_eq_iff update_irq_idle)
qed

lemma rotated_priority_wrong_line_witness:
  "\<exists>s1 s2. pic2_write programmed_chain 0 0 0xc0 = Some s1 \<and>
    pic2_get_hard_intno (pic2_set_irq s1 4 1) = (0x23, s2) \<and> isr (pics0 s2) = 8 \<and> bit (irr (pics0 s2)) 4"
proof -
  let ?s = "programmed_chain\<lparr>pics0 := (pics0 programmed_chain)\<lparr>priority_add := 1\<rparr>\<rparr>"
  have w: "pic2_write programmed_chain 0 0 0xc0 = Some ?s"
    by (simp add: pic2_write_def pic_write_def pic_command_def pic_ocw2_def pic_of_def upd_pic_def)
  have p: "priority_of ((pics0 programmed_chain)\<lparr>priority_add := 1\<rparr>) 4 = 3" by (simp add: priority_of_def)
  have q: "quiet (pics0 ?s)" "quiet (pics1 ?s)" "can_raise (pics0 ?s) 4" "irq_base (pics0 programmed_chain) = 0x20"
    by (simp_all add: quiet_def can_raise_def programmed_chain_def pic_init_def pic_reset_def)
  show ?thesis
    using rotated_priority_wrong_line [OF q(1-3), of 1] w by (simp add: p q(4))
qed

end
