(* ===== verification/Pit.thy ===== *)
theory Pit
  imports Iomem "HOL-Library.Signed_Division"
begin

text \<open>
  \<open>x86_machine.c\<close>: the 8253 interval timer of the PC. The ticks that \<open>get_ticks\<close> returns are the argument \<open>now\<close>; the
  levels that a step drives on the interrupt line are its last result.
\<close>

section \<open>State\<close>

definition PIT_FREQ :: int where "PIT_FREQ = 1193182"

abbreviation (input) RW_STATE_LSB :: u8 where "RW_STATE_LSB \<equiv> 0"
abbreviation (input) RW_STATE_MSB :: u8 where "RW_STATE_MSB \<equiv> 1"
abbreviation (input) RW_STATE_WORD0 :: u8 where "RW_STATE_WORD0 \<equiv> 2"
abbreviation (input) RW_STATE_WORD1 :: u8 where "RW_STATE_WORD1 \<equiv> 3"
abbreviation (input) RW_STATE_LATCHED_WORD0 :: u8 where "RW_STATE_LATCHED_WORD0 \<equiv> 4"

record pit_channel =
  pc_count :: u32
  pc_latched_count :: u32
  pc_rw_state :: u8
  pc_mode :: u8
  pc_bcd :: u8
  pc_gate :: u8
  pc_count_load_time :: int
  pc_last_irq_time :: int

record pit =
  pit_channels :: "pit_channel list"
  speaker_data_on :: u8

section \<open>One channel\<close>

definition pit_load_count :: "int \<Rightarrow> pit_channel \<Rightarrow> u32 \<Rightarrow> pit_channel" where
  "pit_load_count now s val = s\<lparr>pc_count_load_time := now, pc_last_irq_time := 0, pc_count := (if val = 0 then 0x10000 else val)\<rparr>"

definition pit_get_count :: "int \<Rightarrow> pit_channel \<Rightarrow> u32" where
  "pit_get_count now pc =
     (let d = word_of_int (now - pc_count_load_time pc) :: u64
      in if pc_mode pc \<in> {0, 1, 4, 5} then ucast ((ucast (pc_count pc) - d) AND 0xffff)
         else ucast (ucast (pc_count pc) - d mod ucast (pc_count pc) :: u64))"

definition pit_get_out :: "int \<Rightarrow> pit_channel \<Rightarrow> u8" where
  "pit_get_out now pc =
     (let d = now - pc_count_load_time pc; n = uint (pc_count pc)
      in c_bool
           (if pc_mode pc = 1 then d < n
            else if pc_mode pc = 2 then d smod n = 0 \<and> d \<noteq> 0
            else if pc_mode pc = 3 then d smod n < n div 2
            else if pc_mode pc = 4 \<or> pc_mode pc = 5 then d = n
            else d \<ge> n))"

section \<open>Ports\<close>

definition upd_channel :: "pit \<Rightarrow> nat \<Rightarrow> (pit_channel \<Rightarrow> pit_channel) \<Rightarrow> pit" where
  "upd_channel p k f = p\<lparr>pit_channels := (pit_channels p)[k := f (pit_channels p ! k)]\<rparr>"

definition write_control :: "int \<Rightarrow> u32 \<Rightarrow> pit_channel \<Rightarrow> pit_channel" where
  "write_control now val s =
     (let access = drop_bit 4 val AND 3
      in if access = 0 then s\<lparr>pc_latched_count := pit_get_count now s, pc_rw_state := RW_STATE_LATCHED_WORD0\<rparr>
         else s\<lparr>pc_mode := ucast (drop_bit 1 val AND 7), pc_bcd := ucast (val AND 1), pc_rw_state := ucast (access - 1) + RW_STATE_LSB\<rparr>)"

definition write_counter :: "int \<Rightarrow> u32 \<Rightarrow> pit_channel \<Rightarrow> pit_channel" where
  "write_counter now val s =
     (if pc_rw_state s = RW_STATE_LSB then pit_load_count now s val
      else if pc_rw_state s = RW_STATE_MSB then pit_load_count now s (push_bit 8 val)
      else if pc_rw_state s = RW_STATE_WORD0 then s\<lparr>pc_latched_count := val, pc_rw_state := RW_STATE_WORD1\<rparr>
      else if pc_rw_state s = RW_STATE_WORD1 then
        (pit_load_count now s ((pc_latched_count s AND 0xff) OR push_bit 8 val))\<lparr>pc_rw_state := RW_STATE_WORD0\<rparr>
      else s)"

text \<open>The port is 8 bits wide: a channel above 3 does not occur.\<close>

definition pit_write :: "int \<Rightarrow> pit \<Rightarrow> u32 \<Rightarrow> u32 \<Rightarrow> pit" where
  "pit_write now p offset val =
     (let addr = offset AND 3
      in if addr = 3 then
           (let channel = unat (drop_bit 6 val) in if channel \<ge> 3 then p else upd_channel p channel (write_control now val))
         else upd_channel p (unat addr) (write_counter now val))"

definition read_counter :: "int \<Rightarrow> pit_channel \<Rightarrow> u32 \<times> pit_channel" where
  "read_counter now s =
     (if pc_rw_state s \<le> 3 then
        (let count = pit_get_count now s
         in (if c_true (pc_rw_state s AND 1) then drop_bit 8 count AND 0xff else count AND 0xff,
             if c_true (pc_rw_state s AND 2) then s\<lparr>pc_rw_state := pc_rw_state s XOR 1\<rparr> else s))
      else
        (if c_true (pc_rw_state s AND 1) then drop_bit 8 (pc_latched_count s) else pc_latched_count s AND 0xff,
         s\<lparr>pc_rw_state := pc_rw_state s XOR 1\<rparr>))"

definition pit_read :: "int \<Rightarrow> pit \<Rightarrow> u32 \<Rightarrow> u32 \<times> pit" where
  "pit_read now p offset =
     (let addr = offset AND 3
      in if addr = 3 then (0xff, p)
         else (let (ret, s) = read_counter now (pit_channels p ! unat addr) in (ret, upd_channel p (unat addr) (\<lambda>_. s))))"

definition speaker_write :: "pit \<Rightarrow> u32 \<Rightarrow> pit" where
  "speaker_write p val =
     upd_channel (p\<lparr>speaker_data_on := ucast (drop_bit 1 val AND 1)\<rparr>) 2 (\<lambda>s. s\<lparr>pc_gate := ucast (val AND 1)\<rparr>)"

definition speaker_read :: "int \<Rightarrow> pit \<Rightarrow> u32" where
  "speaker_read now p =
     (let s = pit_channels p ! 2
      in push_bit 1 (ucast (speaker_data_on p)) OR ucast (pc_gate s) OR push_bit 5 (ucast (pit_get_out now s)))"

section \<open>The interrupt\<close>

text \<open>The delay in milliseconds, the channel, and the levels.\<close>

definition channel_irq :: "int \<Rightarrow> pit_channel \<Rightarrow> int \<times> pit_channel \<times> int list" where
  "channel_irq now s =
     (let d = now - pc_count_load_time s
      in if pc_mode s = 2 \<or> pc_mode s = 3 then
           (let delay = pc_last_irq_time s + uint (pc_count s) - d
            in if delay \<le> 0 then (delay, s\<lparr>pc_last_irq_time := pc_last_irq_time s + uint (pc_count s)\<rparr>, [1, 0]) else (delay, s, []))
         else if pc_last_irq_time s = 0 then
           (let delay = uint (pc_count s) - d
            in if delay \<le> 0 then (delay, s\<lparr>pc_last_irq_time := d\<rparr>, [1, 0]) else (delay, s, []))
         else (PIT_FREQ, s, []))"

definition pit_update_irq :: "int \<Rightarrow> pit \<Rightarrow> int \<times> pit \<times> int list" where
  "pit_update_irq now p =
     (let (delay, s, levels) = channel_irq now (pit_channels p ! 0)
      in (if delay \<le> 0 then 0 else delay sdiv (PIT_FREQ sdiv 1000), upd_channel p 0 (\<lambda>_. s), levels))"

definition new_channel :: "int \<Rightarrow> nat \<Rightarrow> pit_channel" where
  "new_channel now i = pit_load_count now
     \<lparr>pc_count = 0, pc_latched_count = 0, pc_rw_state = 0, pc_mode = 3, pc_bcd = 0, pc_gate = c_bool (i \<noteq> 2),
      pc_count_load_time = 0, pc_last_irq_time = 0\<rparr> 0"

definition pit_init :: "int \<Rightarrow> phys_mem_map \<Rightarrow> u64 \<Rightarrow> u64 \<Rightarrow> nat \<Rightarrow> (pit \<times> phys_mem_map) option" where
  "pit_init now m addr0 addr1 name =
     (case cpu_register_device m addr0 4 name DEVIO_SIZE8 of
        None \<Rightarrow> None
      | Some (m1, _) \<Rightarrow>
          map_option (\<lambda>(m2, _). (\<lparr>pit_channels = map (new_channel now) [0..<3], speaker_data_on = 0\<rparr>, m2))
            (cpu_register_device m1 addr1 1 (name + 1) DEVIO_SIZE8))"

end
