(* ===== verification/PitSpec.thy ===== *)
theory PitSpec
  imports Pit
begin

text \<open>
  The interval timer: in its periodic modes no tick comes early and none is lost, and the command that latches a counter.
\<close>

section \<open>Polling the timer\<close>

text \<open>The machine calls \<open>pit_update_irq\<close> at the times \<open>ts\<close>; the pulses on the interrupt line are counted.\<close>

fun run_polls :: "int list \<Rightarrow> pit \<Rightarrow> nat \<times> pit" where
  "run_polls [] p = (0, p)"
| "run_polls (t # ts) p =
     (let (_, p1, levels) = pit_update_irq t p; (k, p2) = run_polls ts p1
      in (k + (if levels = [1, 0] then 1 else 0), p2))"

text \<open>Channel 0 counts in a periodic mode since \<open>t0\<close>, with period \<open>n\<close>, and has ticked \<open>k\<close> times.\<close>

definition ticked :: "int \<Rightarrow> int \<Rightarrow> int \<Rightarrow> pit \<Rightarrow> bool" where
  "ticked t0 n k p \<longleftrightarrow>
     pit_channels p \<noteq> [] \<and> pc_mode (pit_channels p ! 0) \<in> {2, 3} \<and> 0 < n \<and> uint (pc_count (pit_channels p ! 0)) = n \<and>
     pc_count_load_time (pit_channels p ! 0) = t0 \<and> pc_last_irq_time (pit_channels p ! 0) = k * n"

lemma poll_tick:
  assumes "ticked t0 n k p"
  shows "\<exists>r p1 levels. pit_update_irq t p = (r, p1, levels) \<and>
    (if (k + 1) * n \<le> t - t0 then levels = [1, 0] \<and> ticked t0 n (k + 1) p1 else levels = [] \<and> ticked t0 n k p1)"
  using assms
  by (auto simp: ticked_def pit_update_irq_def channel_irq_def upd_channel_def Let_def algebra_simps)

text \<open>Two polls are at most a period apart.\<close>

definition polled :: "int \<Rightarrow> int \<Rightarrow> int list \<Rightarrow> bool" where
  "polled t0 n ts \<longleftrightarrow> successively (\<lambda>a b. a \<le> b \<and> b \<le> a + n) (t0 # ts)"

lemma div_step:
  fixes n :: int
  assumes "0 < n" "a \<le> b" "b \<le> a + n"
  shows "b div n = a div n + (if (a div n + 1) * n \<le> b then 1 else 0)"
proof -
  have "a div n \<le> b div n" using assms by (intro zdiv_mono1)
  moreover have "b div n \<le> a div n + 1"
  proof -
    have "b div n \<le> (a + n) div n" using assms by (intro zdiv_mono1)
    also have "\<dots> = a div n + 1" using assms(1) by (simp only: div_add_self2)
    finally show ?thesis .
  qed
  moreover have "(a div n + 1) * n \<le> b \<longleftrightarrow> a div n + 1 \<le> b div n"
  proof
    assume "(a div n + 1) * n \<le> b"
    then have "((a div n + 1) * n) div n \<le> b div n" using assms(1) by (intro zdiv_mono1)
    then show "a div n + 1 \<le> b div n" using assms(1) by simp
  next
    assume "a div n + 1 \<le> b div n"
    then have "(a div n + 1) * n \<le> b div n * n" using assms(1) by (simp only: mult_right_mono)
    also have "\<dots> \<le> b" using assms(1) pos_mod_sign [of n b] div_mult_mod_eq [of b n] by linarith
    finally show "(a div n + 1) * n \<le> b" .
  qed
  ultimately show ?thesis by auto
qed

lemma run_polls_ticks:
  assumes "ticked t0 n (a div n) p" "successively (\<lambda>a b. a \<le> b \<and> b \<le> a + n) ((t0 + a) # ts)"
  shows "int (fst (run_polls ts p)) = (last ((t0 + a) # ts) - t0) div n - a div n"
  using assms
proof (induction ts arbitrary: a p)
  case (Cons t ts)
  define b where "b = t - t0"
  have n: "0 < n" using Cons.prems(1) by (simp add: ticked_def)
  have ab: "a \<le> b" "b \<le> a + n" and s: "successively (\<lambda>a b. a \<le> b \<and> b \<le> a + n) ((t0 + b) # ts)"
    using Cons.prems(2) by (auto simp: b_def)
  obtain r p1 levels where u: "pit_update_irq t p = (r, p1, levels)"
    and c: "if (a div n + 1) * n \<le> b then levels = [1, 0] \<and> ticked t0 n (a div n + 1) p1 else levels = [] \<and> ticked t0 n (a div n) p1"
    using poll_tick [OF Cons.prems(1), of t] unfolding b_def by blast
  have d: "b div n = a div n + (if (a div n + 1) * n \<le> b then 1 else 0)" by (rule div_step [OF n ab])
  have "ticked t0 n (b div n) p1" using c d by (auto split: if_splits)
  then have "int (fst (run_polls ts p1)) = (last ((t0 + b) # ts) - t0) div n - b div n" by (rule Cons.IH [OF _ s])
  then show ?case
    using u c d by (auto simp: b_def split_beta split: if_splits)
qed simp

text \<open>C34: the interval timer neither loses a tick nor sends one early. When channel 0 counts in a periodic mode (2 or 3), has
been loaded at \<open>t0\<close> with a period of \<open>n\<close> ticks, and the machine polls it from then on at least once in every period, the
number of interrupts it has raised by the time of any poll is exactly the number of whole periods since it was loaded.\<close>

theorem pit_ticks_exact:
  assumes "ticked t0 n 0 p" "polled t0 n (ts @ [t])"
  shows "int (fst (run_polls (ts @ [t]) p)) = (t - t0) div n"
proof -
  have "ticked t0 n (0 div n) p" using assms(1) by simp
  then show ?thesis
    using run_polls_ticks [of t0 n 0 p "ts @ [t]"] assms(2) by (simp add: polled_def)
qed

lemma pit_ticks_exact_witness:
  "fst (run_polls [105, 109, 113, 121] (pit_write 100 (pit_write 100 \<lparr>pit_channels = map (new_channel 0) [0..<3], speaker_data_on = 0\<rparr> 3 0x14) 0 10)) = 2"
proof -
  let ?p = "pit_write 100 (pit_write 100 \<lparr>pit_channels = map (new_channel 0) [0..<3], speaker_data_on = 0\<rparr> 3 0x14) 0 10"
  have t: "ticked 100 10 0 ?p"
    by (simp add: ticked_def pit_write_def upd_channel_def write_control_def write_counter_def pit_load_count_def
        new_channel_def upt_rec)
  have "polled 100 10 ([105, 109, 113] @ [121])" by (simp add: polled_def)
  from pit_ticks_exact [OF t this] show ?thesis by simp
qed

text \<open>A counter that has been latched stays latched: reading it any number of times leaves the channel in one of the latched
states, where a write of a new count has no effect. Only a new control word ends it.\<close>

definition latched :: "pit_channel \<Rightarrow> bool" where
  "latched s \<longleftrightarrow> pc_rw_state s \<in> {4, 5}"

theorem latch_is_sticky:
  "latched (write_control now (val AND 0xcf) s)" "latched s \<Longrightarrow> latched (snd (read_counter now s))" "latched s \<Longrightarrow> write_counter now v s = s"
proof -
  have "drop_bit 4 (val AND 0xcf) AND 3 = 0" by (simp add: drop_bit_and and.assoc)
  then show "latched (write_control now (val AND 0xcf) s)" by (simp add: write_control_def latched_def)
  show "latched s \<Longrightarrow> latched (snd (read_counter now s))"
    by (auto simp: latched_def read_counter_def)
  show "latched s \<Longrightarrow> write_counter now v s = s"
    by (auto simp: latched_def write_counter_def)
qed

end
