(* ===== verification/Serial.thy ===== *)
theory Serial
  imports Iomem
begin

text \<open>
  \<open>x86_machine.c\<close>: the serial port of the PC. The level of the interrupt line is part of the state; the bytes that
  \<open>write_func\<close> is called with are a result. The parts of the source under \<open>#if 0\<close> (the FIFOs and the reception of
  characters) are not compiled and not modelled.
\<close>

section \<open>State\<close>

abbreviation (input) UART_LCR_DLAB :: u8 where "UART_LCR_DLAB \<equiv> 0x80"
abbreviation (input) UART_IER_THRI :: u8 where "UART_IER_THRI \<equiv> 0x02"
abbreviation (input) UART_IER_RDI :: u8 where "UART_IER_RDI \<equiv> 0x01"
abbreviation (input) UART_IIR_NO_INT :: u8 where "UART_IIR_NO_INT \<equiv> 0x01"
abbreviation (input) UART_IIR_THRI :: u8 where "UART_IIR_THRI \<equiv> 0x02"
abbreviation (input) UART_IIR_RDI :: u8 where "UART_IIR_RDI \<equiv> 0x04"
abbreviation (input) UART_IIR_FE :: u8 where "UART_IIR_FE \<equiv> 0xC0"
abbreviation (input) UART_LSR_TEMT :: u8 where "UART_LSR_TEMT \<equiv> 0x40"
abbreviation (input) UART_LSR_THRE :: u8 where "UART_LSR_THRE \<equiv> 0x20"
abbreviation (input) UART_LSR_BI :: u8 where "UART_LSR_BI \<equiv> 0x10"
abbreviation (input) UART_LSR_DR :: u8 where "UART_LSR_DR \<equiv> 0x01"
abbreviation (input) UART_FCR_FE :: u8 where "UART_FCR_FE \<equiv> 0x01"

record serial =
  divider :: u8
  rbr :: u8
  ier :: u8
  iir :: u8
  lcr :: u8
  mcr :: u8
  lsr :: u8
  msr :: u8
  scr :: u8
  fcr :: u8
  serial_irq :: int

section \<open>Operations\<close>

definition serial_update_irq :: "serial \<Rightarrow> serial" where
  "serial_update_irq s =
     (let i = (if c_true (lsr s AND UART_LSR_DR) \<and> c_true (ier s AND UART_IER_RDI) then UART_IIR_RDI
               else if c_true (lsr s AND UART_LSR_THRE) \<and> c_true (ier s AND UART_IER_THRI) then UART_IIR_THRI
               else UART_IIR_NO_INT)
      in s\<lparr>iir := i, serial_irq := (if i \<noteq> UART_IIR_NO_INT then 1 else 0)\<rparr>)"

text \<open>The interrupt is updated before and after the byte is handed on.\<close>

definition transmit :: "serial \<Rightarrow> u32 \<Rightarrow> serial \<times> u8 list" where
  "transmit s val =
     (let s1 = serial_update_irq (s\<lparr>lsr := lsr s AND NOT UART_LSR_THRE\<rparr>)
      in (serial_update_irq (s1\<lparr>lsr := lsr s1 OR UART_LSR_THRE OR UART_LSR_TEMT\<rparr>), [ucast val]))"

definition serial_write :: "serial \<Rightarrow> u32 \<Rightarrow> u32 \<Rightarrow> serial \<times> u8 list" where
  "serial_write s offset val =
     (let addr = offset AND 7
      in if addr = 0 then
           (if c_true (lcr s AND UART_LCR_DLAB) then (s\<lparr>divider := ucast ((ucast (divider s) AND 0xff00) OR val)\<rparr>, []) else transmit s val)
         else if addr = 1 then
           (if c_true (lcr s AND UART_LCR_DLAB) then (s\<lparr>divider := ucast ((ucast (divider s) AND 0x00ff) OR push_bit 8 val)\<rparr>, [])
            else (serial_update_irq (s\<lparr>ier := ucast val\<rparr>), []))
         else if addr = 3 then (s\<lparr>lcr := ucast val\<rparr>, [])
         else if addr = 4 then (s\<lparr>mcr := ucast val\<rparr>, [])
         else if addr = 6 then (s\<lparr>msr := ucast val\<rparr>, [])
         else if addr = 7 then (s\<lparr>scr := ucast val\<rparr>, [])
         else (s, []))"

definition serial_read :: "serial \<Rightarrow> u32 \<Rightarrow> u32 \<times> serial" where
  "serial_read s offset =
     (let addr = offset AND 7
      in if addr = 0 then
           (if c_true (lcr s AND UART_LCR_DLAB) then (ucast (divider s) AND 0xff, s)
            else (ucast (rbr s), serial_update_irq (s\<lparr>lsr := lsr s AND NOT (UART_LSR_DR OR UART_LSR_BI)\<rparr>)))
         else if addr = 1 then
           (if c_true (lcr s AND UART_LCR_DLAB) then (drop_bit 8 (ucast (divider s)) AND 0xff, s) else (ucast (ier s), s))
         else if addr = 2 then (ucast (iir s) OR (if c_true (fcr s AND UART_FCR_FE) then ucast UART_IIR_FE else 0), s)
         else if addr = 3 then (ucast (lcr s), s)
         else if addr = 4 then (ucast (mcr s), s)
         else if addr = 5 then (ucast (lsr s), s)
         else if addr = 6 then (ucast (msr s), s)
         else (ucast (scr s), s))"

definition serial_send_break :: "serial \<Rightarrow> serial" where
  "serial_send_break s = serial_update_irq (s\<lparr>rbr := 0, lsr := lsr s OR UART_LSR_BI OR UART_LSR_DR\<rparr>)"

definition serial_init :: "phys_mem_map \<Rightarrow> u64 \<Rightarrow> nat \<Rightarrow> (serial \<times> phys_mem_map) option" where
  "serial_init m addr name =
     map_option
       (\<lambda>(m1, _). (\<lparr>divider = 0, rbr = 0, ier = 0, iir = UART_IIR_NO_INT, lcr = 0, mcr = 0, lsr = UART_LSR_TEMT OR UART_LSR_THRE,
          msr = 0, scr = 0, fcr = 0, serial_irq = 0\<rparr>, m1))
       (cpu_register_device m addr 8 name DEVIO_SIZE8)"

end
