(* ===== verification/Cmos.thy ===== *)
theory Cmos
  imports Iomem
begin

text \<open>
  \<open>x86_machine.c\<close>: the CMOS memory of the PC with its clock. What the host supplies are arguments: the broken-down time
  (\<open>tm\<close>, already local or UTC as \<open>use_local_time\<close> says), the microseconds of \<open>gettimeofday\<close> and, as the result of
  \<open>cmos_get_timer\<close>, the monotonic clock in seconds and nanoseconds.
\<close>

section \<open>State\<close>

abbreviation (input) RTC_SECONDS :: nat where "RTC_SECONDS \<equiv> 0"
abbreviation (input) RTC_MINUTES :: nat where "RTC_MINUTES \<equiv> 2"
abbreviation (input) RTC_HOURS :: nat where "RTC_HOURS \<equiv> 4"
abbreviation (input) RTC_DAY_OF_WEEK :: nat where "RTC_DAY_OF_WEEK \<equiv> 6"
abbreviation (input) RTC_DAY_OF_MONTH :: nat where "RTC_DAY_OF_MONTH \<equiv> 7"
abbreviation (input) RTC_MONTH :: nat where "RTC_MONTH \<equiv> 8"
abbreviation (input) RTC_YEAR :: nat where "RTC_YEAR \<equiv> 9"
abbreviation (input) RTC_REG_A :: nat where "RTC_REG_A \<equiv> 10"
abbreviation (input) RTC_REG_B :: nat where "RTC_REG_B \<equiv> 11"
abbreviation (input) RTC_REG_C :: nat where "RTC_REG_C \<equiv> 12"
abbreviation (input) RTC_REG_D :: nat where "RTC_REG_D \<equiv> 13"
abbreviation (input) REG_A_UIP :: u8 where "REG_A_UIP \<equiv> 0x80"
abbreviation (input) REG_B_PIE :: u8 where "REG_B_PIE \<equiv> 0x40"

record cmos =
  cmos_index :: u8
  cmos_data :: "u8 list"
  cmos_irq :: int
  irq_timeout :: u32
  irq_period :: u32

record tm =
  tm_sec :: nat
  tm_min :: nat
  tm_hour :: nat
  tm_wday :: nat
  tm_mday :: nat
  tm_mon :: nat
  tm_year :: nat

section \<open>The time\<close>

definition set_reg8 :: "cmos \<Rightarrow> nat \<Rightarrow> u8 \<Rightarrow> cmos" where
  "set_reg8 s i v = s\<lparr>cmos_data := (cmos_data s)[i := v]\<rparr>"

definition to_bcd :: "cmos \<Rightarrow> nat \<Rightarrow> u8" where
  "to_bcd s a = (if c_true (cmos_data s ! RTC_REG_B AND 0x04) then of_nat a else of_nat (push_bit 4 (a div 10) OR a mod 10))"

definition hour_reg :: "cmos \<Rightarrow> nat \<Rightarrow> u8" where
  "hour_reg s h =
     (if c_true (cmos_data s ! RTC_REG_B AND 0x02) then to_bcd s h
      else if h \<ge> 12 then to_bcd s (h mod 12) OR 0x80 else to_bcd s (h mod 12))"

definition cmos_update_time :: "tm \<Rightarrow> nat \<Rightarrow> cmos \<Rightarrow> bool \<Rightarrow> cmos" where
  "cmos_update_time t usec s set_century =
     (let s1 = foldl (\<lambda>s (i, v). set_reg8 s i v) s
            [(RTC_SECONDS, to_bcd s (tm_sec t)), (RTC_MINUTES, to_bcd s (tm_min t)), (RTC_HOURS, hour_reg s (tm_hour t)),
             (RTC_DAY_OF_WEEK, to_bcd s (tm_wday t)), (RTC_DAY_OF_MONTH, to_bcd s (tm_mday t)), (RTC_MONTH, to_bcd s (tm_mon t + 1)),
             (RTC_YEAR, to_bcd s (tm_year t mod 100))];
          century = to_bcd s (tm_year t div 100 + 19);
          s2 = (if set_century then set_reg8 (set_reg8 s1 0x32 century) 0x37 century else s1);
          a = cmos_data s2 ! RTC_REG_A
      in set_reg8 s2 RTC_REG_A (if usec < 244 then a OR REG_A_UIP else a AND NOT REG_A_UIP))"

section \<open>The periodic interrupt\<close>

definition cmos_get_timer :: "u64 \<Rightarrow> u64 \<Rightarrow> u32" where
  "cmos_get_timer tv_sec tv_nsec = ucast tv_sec * 32768 + ucast (tv_nsec * 32768 div 1000000000)"

definition cmos_update_timer :: "u32 \<Rightarrow> cmos \<Rightarrow> cmos" where
  "cmos_update_timer timer s =
     (let code = unat (cmos_data s ! RTC_REG_A AND 0x0f)
      in if c_true (cmos_data s ! RTC_REG_B AND REG_B_PIE) \<and> code \<noteq> 0 then
           (let code1 = (if code \<le> 2 then code + 7 else code); period = push_bit (code1 - 1) 1
            in s\<lparr>irq_period := period, irq_timeout := (timer + period) AND NOT (period - 1)\<rparr>)
         else s)"

definition cmos_update_irq :: "u32 \<Rightarrow> cmos \<Rightarrow> cmos" where
  "cmos_update_irq timer s =
     (if c_true (cmos_data s ! RTC_REG_B AND REG_B_PIE) \<and> 0 \<le> sint (timer - irq_timeout s) then
        (set_reg8 s RTC_REG_C (cmos_data s ! RTC_REG_C OR 0xc0))\<lparr>cmos_irq := 1, irq_timeout := irq_timeout s + irq_period s\<rparr>
      else s)"

section \<open>Ports\<close>

definition cmos_write :: "u32 \<Rightarrow> cmos \<Rightarrow> u32 \<Rightarrow> u32 \<Rightarrow> cmos" where
  "cmos_write timer s offset data =
     (if offset = 0 then s\<lparr>cmos_index := ucast (data AND 0x7f)\<rparr>
      else
        let i = unat (cmos_index s)
        in if i = RTC_REG_A then
             cmos_update_timer timer (set_reg8 s i ((ucast data AND NOT REG_A_UIP) OR (cmos_data s ! RTC_REG_A AND REG_A_UIP)))
           else if i = RTC_REG_B then cmos_update_timer timer (set_reg8 s i (ucast data))
           else set_reg8 s i (ucast data))"

definition cmos_read :: "tm \<Rightarrow> nat \<Rightarrow> cmos \<Rightarrow> u32 \<Rightarrow> u32 \<times> cmos" where
  "cmos_read t usec s offset =
     (if offset = 0 then (0xff, s)
      else
        let i = unat (cmos_index s)
        in if i \<in> {RTC_SECONDS, RTC_MINUTES, RTC_HOURS, RTC_DAY_OF_WEEK, RTC_DAY_OF_MONTH, RTC_MONTH, RTC_YEAR, RTC_REG_A} then
             (let s1 = cmos_update_time t usec s False in (ucast (cmos_data s1 ! i), s1))
           else if i = RTC_REG_C then (ucast (cmos_data s ! i), (set_reg8 s RTC_REG_C 0)\<lparr>cmos_irq := 0\<rparr>)
           else (ucast (cmos_data s ! i), s))"

definition cmos_init :: "tm \<Rightarrow> nat \<Rightarrow> phys_mem_map \<Rightarrow> u64 \<Rightarrow> nat \<Rightarrow> (cmos \<times> phys_mem_map) option" where
  "cmos_init t usec m addr name =
     (let s0 = \<lparr>cmos_index = 0, cmos_data = (replicate 128 0)[RTC_REG_A := 0x26, RTC_REG_B := 0x02, RTC_REG_C := 0, RTC_REG_D := 0x80],
                cmos_irq = 0, irq_timeout = 0, irq_period = 0\<rparr>
      in map_option (\<lambda>(m1, _). (cmos_update_time t usec s0 True, m1)) (cpu_register_device m addr 2 name DEVIO_SIZE8))"

end
