(* ===== verification/SerialSpec.thy ===== *)
theory SerialSpec
  imports Serial Cmos
begin

text \<open>
  The serial port and the clock of the PC: the registers of the serial port agree with its interrupt line in every run,
  and every byte that the guest sends reaches the host; the clock registers hold the time of the host.
\<close>

section \<open>Runs of the serial port\<close>

datatype serial_op = Write_Reg u32 u32 | Read_Reg u32 | Break

definition serial_step :: "serial \<Rightarrow> serial_op \<Rightarrow> serial \<times> u8 list" where
  "serial_step s ev =
     (case ev of Write_Reg offset val \<Rightarrow> serial_write s offset val | Read_Reg offset \<Rightarrow> (snd (serial_read s offset), [])
      | Break \<Rightarrow> (serial_send_break s, []))"

fun serial_run :: "serial \<Rightarrow> serial_op list \<Rightarrow> serial \<times> u8 list" where
  "serial_run s [] = (s, [])"
| "serial_run s (ev # evs) = (let (s1, out) = serial_step s ev; (s2, outs) = serial_run s1 evs in (s2, out @ outs))"

text \<open>What the interrupt registers say: the identification is that of the pending cause, and the transmitter is ready.\<close>

definition serial_ok :: "serial \<Rightarrow> bool" where
  "serial_ok s \<longleftrightarrow> serial_update_irq s = s \<and> bit (lsr s) 5"

lemma update_irq_idem [simp]: "serial_update_irq (serial_update_irq s) = serial_update_irq s"
  by (simp add: serial_update_irq_def Let_def)

lemma update_irq_same [simp]: "lsr (serial_update_irq s) = lsr s" "ier (serial_update_irq s) = ier s" "lcr (serial_update_irq s) = lcr s"
  by (simp_all add: serial_update_irq_def Let_def)

lemma update_irq_commutes [simp]:
  "serial_update_irq (s\<lparr>divider := x\<rparr>) = (serial_update_irq s)\<lparr>divider := x\<rparr>"
  "serial_update_irq (s\<lparr>lcr := x\<rparr>) = (serial_update_irq s)\<lparr>lcr := x\<rparr>"
  "serial_update_irq (s\<lparr>mcr := x\<rparr>) = (serial_update_irq s)\<lparr>mcr := x\<rparr>"
  "serial_update_irq (s\<lparr>msr := x\<rparr>) = (serial_update_irq s)\<lparr>msr := x\<rparr>"
  "serial_update_irq (s\<lparr>scr := x\<rparr>) = (serial_update_irq s)\<lparr>scr := x\<rparr>"
  by (simp_all add: serial_update_irq_def Let_def)

lemma keeps_thre:
  fixes l :: u8
  shows "bit (l OR 0x20 OR 0x40) 5" "bit l 5 \<Longrightarrow> bit (l AND NOT (0x01 OR 0x10)) 5" "bit l 5 \<Longrightarrow> bit (l OR 0x10 OR 0x01) 5"
  by (simp_all add: bit_or_iff bit_and_iff bit_not_iff)

lemma serial_step_ok: "serial_ok s \<Longrightarrow> serial_ok (fst (serial_step s ev))"
  by (cases ev)
    (auto simp: serial_step_def serial_write_def serial_read_def serial_send_break_def transmit_def serial_ok_def keeps_thre Let_def
      bit_or_iff bit_and_iff bit_not_iff)

text \<open>The bytes written to the data register while the divisor latch is not selected.\<close>

fun sent :: "serial \<Rightarrow> serial_op list \<Rightarrow> u8 list" where
  "sent s [] = []"
| "sent s (ev # evs) =
     (case ev of Write_Reg offset val \<Rightarrow> (if offset AND 7 = 0 \<and> \<not> bit (lcr s) 7 then [ucast val] else []) | _ \<Rightarrow> [])
     @ sent (fst (serial_step s ev)) evs"

theorem serial_port_consistent:
  assumes "serial_ok s"
  shows "serial_ok (fst (serial_run s evs)) \<and> snd (serial_run s evs) = sent s evs"
  using assms
proof (induction evs arbitrary: s)
  case (Cons ev evs)
  have "snd (serial_step s ev) = (case ev of Write_Reg offset val \<Rightarrow> (if offset AND 7 = 0 \<and> \<not> bit (lcr s) 7 then [ucast val] else []) | _ \<Rightarrow> [])"
    using and_exp_eq_0_iff_not_bit [of "lcr s" 7]
    by (auto simp: serial_step_def serial_write_def transmit_def Let_def split: serial_op.split)
  then show ?case
    using Cons.IH [OF serial_step_ok [OF Cons.prems, of ev]] by (simp add: split_beta)
qed simp

section \<open>The clock\<close>

definition bcd_decode :: "bool \<Rightarrow> u8 \<Rightarrow> nat" where
  "bcd_decode binary v = (if binary then unat v else unat v div 16 * 10 + unat v mod 16)"

definition binary_mode :: "cmos \<Rightarrow> bool" where
  "binary_mode s \<longleftrightarrow> c_true (cmos_data s ! RTC_REG_B AND 0x04)"

lemma unat_u8: "n < 256 \<Longrightarrow> unat (of_nat n :: u8) = n"
  by (simp add: unat_of_nat take_bit_nat_eq_self)

lemma bcd_digits: "push_bit 4 (a div 10) OR a mod 10 = a div 10 * 16 + a mod 10" for a :: nat
proof -
  have "push_bit 4 (a div 10) OR a mod 10 = a div 10 * 2 ^ 4 + a mod 10" by (rule nat_or_add) simp
  then show ?thesis by simp
qed

lemma bcd_decode_encode: "a < 100 \<Longrightarrow> bcd_decode (binary_mode s) (to_bcd s a) = a"
proof -
  assume a: "a < 100"
  have "a div 10 \<le> 9" using a by simp
  moreover have m: "a mod 10 < 10" by simp
  ultimately have "a div 10 * 16 + a mod 10 < 256" by linarith
  then have "unat (of_nat (a div 10 * 16 + a mod 10) :: u8) = a div 10 * 16 + a mod 10" by (rule unat_u8)
  moreover have "unat (of_nat a :: u8) = a" using a by (intro unat_u8) simp
  moreover have "(a div 10 * 16 + a mod 10) div 16 * 10 + (a div 10 * 16 + a mod 10) mod 16 = a"
  proof -
    have "(a div 10 * 16 + a mod 10) div 16 = a div 10" "(a div 10 * 16 + a mod 10) mod 16 = a mod 10"
      using m by simp_all
    then show ?thesis by simp
  qed
  ultimately show ?thesis
    by (simp only: bcd_decode_def to_bcd_def binary_mode_def bcd_digits if_True if_False split: if_split) simp
qed

text \<open>The hour: with bit 1 of register B clear, bit 7 says that it is past noon, and the rest counts from 0.\<close>

lemma to_bcd_small: "h < 12 \<Longrightarrow> to_bcd s h < 0x20"
proof -
  assume h: "h < 12"
  have "h div 10 \<le> 1" using h by simp
  moreover have "h mod 10 < 10" by simp
  ultimately have b: "h div 10 * 16 + h mod 10 < 32" by linarith
  then have "unat (of_nat (h div 10 * 16 + h mod 10) :: u8) < 32" by (subst unat_u8) simp_all
  moreover have "unat (of_nat h :: u8) < 32" using h by (subst unat_u8) simp_all
  ultimately have "unat (to_bcd s h) < unat (0x20 :: u8)" by (simp only: to_bcd_def bcd_digits split: if_split) simp
  then show ?thesis by (simp only: word_less_nat_alt)
qed

lemma low_bits:
  fixes x :: u8
  assumes "x < 0x20"
  shows "(x OR 0x80) AND 0x7f = x" "x AND 0x7f = x" "bit (x OR 0x80) 7" "\<not> bit x 7"
proof -
  have "unat x < 2 ^ 5" using assms by (simp add: word_less_nat_alt)
  then have x: "take_bit 5 x = x" by (simp add: word_unat_eq_iff unsigned_take_bit_eq take_bit_nat_eq_self)
  have b: "\<not> bit x k" if "5 \<le> k" for k
  proof -
    have "\<not> bit (take_bit 5 x) k" using that by (simp add: bit_take_bit_iff)
    then show ?thesis unfolding x .
  qed
  have b': "k < 5" if "bit x k" for k using b that not_less by blast
  show "\<not> bit x 7" using b by simp
  show "bit (x OR 0x80) 7" by (simp add: bit_or_iff)
  have m: "(0x7f :: u8) = mask 7" "(0x80 :: u8) = 2 ^ 7" by (simp_all add: mask_eq_exp_minus_1)
  show "x AND 0x7f = x" unfolding m
    by (rule bit_word_eqI) (use b' in \<open>fastforce simp: bit_and_iff bit_mask_iff\<close>)
  show "(x OR 0x80) AND 0x7f = x"
  proof -
    have "(x OR 0x80) AND 0x7f = x AND 0x7f" by (simp add: bit.conj_disj_distrib2)
    also have "\<dots> = x" by fact
    finally show ?thesis .
  qed
qed

text \<open>Reading a register: its index is written to the first port, its value read from the second.\<close>

definition read_reg :: "tm \<Rightarrow> nat \<Rightarrow> u32 \<Rightarrow> cmos \<Rightarrow> u32 \<Rightarrow> u8" where
  "read_reg t usec timer s i = ucast (fst (cmos_read t usec (cmos_write timer s 0 i) 1))"

definition valid_tm :: "tm \<Rightarrow> bool" where
  "valid_tm t \<longleftrightarrow> tm_sec t < 60 \<and> tm_min t < 60 \<and> tm_hour t < 24 \<and> tm_wday t < 7 \<and> tm_mday t < 32 \<and> tm_mon t < 12"

lemma byte_through_u32 [simp]: "(ucast (ucast v :: u32) :: u8) = v" for v :: u8
  by (rule bit_word_eqI) (simp add: bit_ucast_iff)

lemma read_time_reg:
  assumes "i \<in> {0, 2, 4, 6, 7, 8, 9}"
  shows "read_reg t usec timer s i = cmos_data (cmos_update_time t usec (s\<lparr>cmos_index := ucast (i AND 0x7f)\<rparr>) False) ! unat i"
  using assms by (auto simp: read_reg_def cmos_read_def cmos_write_def Let_def split_beta)

lemma update_time_regs:
  assumes "length (cmos_data s) = 128"
  shows "cmos_data (cmos_update_time t usec s False) ! 0 = to_bcd s (tm_sec t)"
    "cmos_data (cmos_update_time t usec s False) ! 2 = to_bcd s (tm_min t)"
    "cmos_data (cmos_update_time t usec s False) ! 4 = hour_reg s (tm_hour t)"
    "cmos_data (cmos_update_time t usec s False) ! 6 = to_bcd s (tm_wday t)"
    "cmos_data (cmos_update_time t usec s False) ! 7 = to_bcd s (tm_mday t)"
    "cmos_data (cmos_update_time t usec s False) ! 8 = to_bcd s (tm_mon t + 1)"
    "cmos_data (cmos_update_time t usec s False) ! 9 = to_bcd s (tm_year t mod 100)"
  using assms by (simp_all add: cmos_update_time_def set_reg8_def Let_def)

lemma index_irrelevant [simp]:
  "to_bcd (s\<lparr>cmos_index := x\<rparr>) h = to_bcd s h" "hour_reg (s\<lparr>cmos_index := x\<rparr>) h = hour_reg s h"
  by (simp_all add: to_bcd_def hour_reg_def)

text \<open>The clock registers hold the time of the host, in the format that register B selects (binary or BCD, 12 or 24 hours),
whatever the rest of the memory is.\<close>

theorem clock_reads_host_time:
  assumes "valid_tm t" "length (cmos_data s) = 128"
  shows "bcd_decode (binary_mode s) (read_reg t usec timer s 0) = tm_sec t"
    "bcd_decode (binary_mode s) (read_reg t usec timer s 2) = tm_min t"
    "bcd_decode (binary_mode s) (read_reg t usec timer s 6) = tm_wday t"
    "bcd_decode (binary_mode s) (read_reg t usec timer s 7) = tm_mday t"
    "bcd_decode (binary_mode s) (read_reg t usec timer s 8) = tm_mon t + 1"
    "bcd_decode (binary_mode s) (read_reg t usec timer s 9) = tm_year t mod 100"
    "bit (cmos_data s ! RTC_REG_B) 1 \<Longrightarrow> bcd_decode (binary_mode s) (read_reg t usec timer s 4) = tm_hour t"
    "\<not> bit (cmos_data s ! RTC_REG_B) 1 \<Longrightarrow>
       bcd_decode (binary_mode s) (read_reg t usec timer s 4 AND 0x7f) = tm_hour t mod 12 \<and>
       (bit (read_reg t usec timer s 4) 7 \<longleftrightarrow> 12 \<le> tm_hour t)"
proof -
  have b: "c_true (cmos_data s ! RTC_REG_B AND 0x02) \<longleftrightarrow> bit (cmos_data s ! RTC_REG_B) 1"
    using and_exp_eq_0_iff_not_bit [of "cmos_data s ! RTC_REG_B" 1] by simp
  note rd = read_time_reg update_time_regs assms(2) bcd_decode_encode
  have v: "tm_sec t < 60" "tm_min t < 60" "tm_hour t < 24" "tm_wday t < 7" "tm_mday t < 32" "tm_mon t < 12"
    using assms(1) by (simp_all add: valid_tm_def)
  show "bcd_decode (binary_mode s) (read_reg t usec timer s 0) = tm_sec t" using v by (simp add: rd)
  show "bcd_decode (binary_mode s) (read_reg t usec timer s 2) = tm_min t" using v by (simp add: rd)
  show "bcd_decode (binary_mode s) (read_reg t usec timer s 6) = tm_wday t" using v by (simp add: rd)
  show "bcd_decode (binary_mode s) (read_reg t usec timer s 7) = tm_mday t" using v by (simp add: rd)
  show "bcd_decode (binary_mode s) (read_reg t usec timer s 8) = tm_mon t + 1" using v by (simp add: rd)
  show "bcd_decode (binary_mode s) (read_reg t usec timer s 9) = tm_year t mod 100" by (simp add: rd)
  show "bit (cmos_data s ! RTC_REG_B) 1 \<Longrightarrow> bcd_decode (binary_mode s) (read_reg t usec timer s 4) = tm_hour t"
    using v b by (simp add: rd hour_reg_def)
  have h: "tm_hour t mod 12 < 12" by simp
  define k where "k = tm_hour t mod 12"
  have k: "k < 12" by (simp add: k_def)
  note lo = low_bits [OF to_bcd_small [OF k, of s]]
  show "\<not> bit (cmos_data s ! RTC_REG_B) 1 \<Longrightarrow>
       bcd_decode (binary_mode s) (read_reg t usec timer s 4 AND 0x7f) = tm_hour t mod 12 \<and>
       (bit (read_reg t usec timer s 4) 7 \<longleftrightarrow> 12 \<le> tm_hour t)"
    using b k by (simp add: rd hour_reg_def lo flip: k_def del: mod_less)
qed

end
