(* ===== verification/Json.thy ===== *)
theory Json
  imports Prelude
begin

text \<open>
  \<open>json.c\<close>: the values and the parser of the configuration language. A C string is the list of its bytes before the
  terminating 0; a pointer into one is the rest of the list, at whose end \<open>*p\<close> is 0. The parser calls itself for the
  values inside a value: the definitions take fuel, and \<open>None\<close> says that it is used up.
\<close>

section \<open>Values\<close>

text \<open>An object keeps its properties in the order of their first assignment. The capacities that only say when the arrays
are reallocated are left out.\<close>

datatype json =
    JSON_STR "u8 list"
  | JSON_INT u32
  | JSON_OBJ "(u8 list \<times> json) list"
  | JSON_ARRAY "json list"
  | JSON_BOOL bool
  | JSON_NULL
  | JSON_UNDEFINED
  | JSON_EXCEPTION "u8 list"

definition chars :: "string \<Rightarrow> u8 list" where
  "chars s = map of_char s"

definition json_string_new :: "u8 list \<Rightarrow> json" where
  "json_string_new str = JSON_STR (takeWhile (\<lambda>c. c \<noteq> 0) str)"

text \<open>The message is formatted into 256 bytes.\<close>

definition json_error_new :: "u8 list \<Rightarrow> json" where
  "json_error_new msg = JSON_EXCEPTION (take 255 msg)"

definition json_is_error :: "json \<Rightarrow> bool" where
  "json_is_error v \<longleftrightarrow> (case v of JSON_EXCEPTION _ \<Rightarrow> True | _ \<Rightarrow> False)"

definition json_is_undefined :: "json \<Rightarrow> bool" where
  "json_is_undefined v \<longleftrightarrow> v = JSON_UNDEFINED"

definition json_get_str :: "json \<Rightarrow> u8 list option" where
  "json_get_str v = (case v of JSON_STR s \<Rightarrow> Some s | _ \<Rightarrow> None)"

definition json_get_error :: "json \<Rightarrow> u8 list option" where
  "json_get_error v = (case v of JSON_EXCEPTION s \<Rightarrow> Some s | _ \<Rightarrow> None)"

fun json_object_get2 :: "(u8 list \<times> json) list \<Rightarrow> u8 list \<Rightarrow> json option" where
  "json_object_get2 [] name = None"
| "json_object_get2 (f # fs) name = (if fst f = name then Some (snd f) else json_object_get2 fs name)"

definition json_object_get :: "json \<Rightarrow> u8 list \<Rightarrow> json" where
  "json_object_get v name =
     (case v of
        JSON_OBJ props \<Rightarrow> (case json_object_get2 props name of None \<Rightarrow> JSON_UNDEFINED | Some f \<Rightarrow> f)
      | _ \<Rightarrow> JSON_UNDEFINED)"

text \<open>The first property of the name is assigned, a new one is put at the end.\<close>

fun assign_prop :: "(u8 list \<times> json) list \<Rightarrow> u8 list \<Rightarrow> json \<Rightarrow> (u8 list \<times> json) list" where
  "assign_prop [] name v = [(name, v)]"
| "assign_prop (f # fs) name v = (if fst f = name then (name, v) # fs else f # assign_prop fs name v)"

definition json_object_set :: "json \<Rightarrow> u8 list \<Rightarrow> json \<Rightarrow> json \<times> int" where
  "json_object_set v name prop_val =
     (case v of JSON_OBJ props \<Rightarrow> (JSON_OBJ (assign_prop props name prop_val), 0) | _ \<Rightarrow> (v, -1))"

definition json_array_get :: "json \<Rightarrow> nat \<Rightarrow> json" where
  "json_array_get v idx =
     (case v of JSON_ARRAY tab \<Rightarrow> (if idx < length tab then tab ! idx else JSON_UNDEFINED) | _ \<Rightarrow> JSON_UNDEFINED)"

definition json_array_set :: "json \<Rightarrow> nat \<Rightarrow> json \<Rightarrow> json \<times> int" where
  "json_array_set v idx prop_val =
     (case v of
        JSON_ARRAY tab \<Rightarrow>
          if idx < length tab then (JSON_ARRAY (tab[idx := prop_val]), 0)
          else if idx = length tab then (JSON_ARRAY (tab @ [prop_val]), 0)
          else (v, -1)
      | _ \<Rightarrow> (v, -1))"

section \<open>Characters and numbers\<close>

abbreviation (input) NL :: u8 where "NL \<equiv> 10"
abbreviation (input) DQUOTE :: u8 where "DQUOTE \<equiv> 34"
abbreviation (input) SQUOTE :: u8 where "SQUOTE \<equiv> 39"
abbreviation (input) STAR :: u8 where "STAR \<equiv> 42"
abbreviation (input) COMMA :: u8 where "COMMA \<equiv> 44"
abbreviation (input) SLASH :: u8 where "SLASH \<equiv> 47"
abbreviation (input) COLON :: u8 where "COLON \<equiv> 58"
abbreviation (input) LBRACKET :: u8 where "LBRACKET \<equiv> 91"
abbreviation (input) BSLASH :: u8 where "BSLASH \<equiv> 92"
abbreviation (input) RBRACKET :: u8 where "RBRACKET \<equiv> 93"
abbreviation (input) LBRACE :: u8 where "LBRACE \<equiv> 123"
abbreviation (input) RBRACE :: u8 where "RBRACE \<equiv> 125"

text \<open>The character classes of the C library in the C locale.\<close>

definition isspace :: "u8 \<Rightarrow> bool" where
  "isspace c \<longleftrightarrow> c = 32 \<or> 9 \<le> c \<and> c \<le> 13"

definition isdigit :: "u8 \<Rightarrow> bool" where
  "isdigit c \<longleftrightarrow> 48 \<le> c \<and> c \<le> 57"

definition is_ident_first :: "u8 \<Rightarrow> bool" where
  "is_ident_first c \<longleftrightarrow> 97 \<le> c \<and> c \<le> 122 \<or> 65 \<le> c \<and> c \<le> 90 \<or> c = 95 \<or> c = 36"

definition from_hex :: "u8 \<Rightarrow> int" where
  "from_hex c =
     (if 48 \<le> c \<and> c \<le> 57 then uint c - 48
      else if 65 \<le> c \<and> c \<le> 70 then uint c - 65 + 10
      else if 97 \<le> c \<and> c \<le> 102 then uint c - 97 + 10
      else -1)"

text \<open>\<open>strtol\<close> of the C library with base 0, at a digit: a prefix \<open>0x\<close> in front of a hexadecimal digit selects
base 16, another leading 0 base 8; the value is cut at \<open>LONG_MAX\<close>.\<close>

definition digit_in :: "int \<Rightarrow> u8 \<Rightarrow> bool" where
  "digit_in base c \<longleftrightarrow> 0 \<le> from_hex c \<and> from_hex c < base"

definition digits_value :: "int \<Rightarrow> u8 list \<Rightarrow> int" where
  "digits_value base ds = foldl (\<lambda>a c. a * base + from_hex c) 0 ds"

definition strtol_in :: "int \<Rightarrow> u8 list \<Rightarrow> int \<times> u8 list" where
  "strtol_in base p = (min (digits_value base (takeWhile (digit_in base) p)) (2 ^ 63 - 1), dropWhile (digit_in base) p)"

definition strtol :: "u8 list \<Rightarrow> int \<times> u8 list" where
  "strtol p =
     (if length p \<ge> 3 \<and> p ! 0 = 48 \<and> (p ! 1 = 120 \<or> p ! 1 = 88) \<and> digit_in 16 (p ! 2) then strtol_in 16 (drop 2 p)
      else if p \<noteq> [] \<and> p ! 0 = 48 then strtol_in 8 p
      else strtol_in 10 p)"

section \<open>Tokens\<close>

text \<open>\<open>Inl\<close> is the message of an error. The buffer has 4096 bytes.\<close>

fun parse_string_loop :: "u8 list \<Rightarrow> u8 list \<Rightarrow> u8 list + u8 list \<times> u8 list" where
  "parse_string_loop buf [] = Inl (chars ''unterminated string'')"
| "parse_string_loop buf (c # p) =
     (if c = NL then Inl (chars ''unterminated string'')
      else if c = DQUOTE then Inr (buf, p)
      else if c = BSLASH then
        (case p of
           [] \<Rightarrow> Inl (chars ''unknown escape code'')
         | e # p1 \<Rightarrow>
             if e = SQUOTE \<or> e = DQUOTE \<or> e = BSLASH \<or> e = 110 \<or> e = 114 \<or> e = 116 then
               (if length buf \<ge> 4095 then Inl (chars ''string too long'')
                else parse_string_loop (buf @ [if e = 110 then 10 else if e = 114 then 13 else if e = 116 then 9 else e]) p1)
             else if e = 120 then
               (case p1 of
                  h1 # h2 # p2 \<Rightarrow>
                    if from_hex h1 < 0 \<or> from_hex h2 < 0 then Inl (chars ''invalig hex digit'')
                    else if length buf \<ge> 4095 then Inl (chars ''string too long'')
                    else parse_string_loop (buf @ [word_of_int (push_bit 4 (from_hex h1) OR from_hex h2)]) p2
                | _ \<Rightarrow> Inl (chars ''invalig hex digit''))
             else Inl (chars ''unknown escape code''))
      else if length buf \<ge> 4095 then Inl (chars ''string too long'')
      else parse_string_loop (buf @ [c]) p)"

text \<open>Called at the opening quote.\<close>

definition parse_string :: "u8 list \<Rightarrow> u8 list + u8 list \<times> u8 list" where
  "parse_string p =
     (case parse_string_loop [] (tl p) of Inl msg \<Rightarrow> Inl msg | Inr (buf, p1) \<Rightarrow> Inr (takeWhile (\<lambda>c. c \<noteq> 0) buf, p1))"

fun skip_comment :: "u8 list \<Rightarrow> u8 list" where
  "skip_comment (a # b # p) = (if a = STAR \<and> b = SLASH then p else skip_comment (b # p))"
| "skip_comment [a] = []"
| "skip_comment [] = []"

lemma skip_comment_length: "length (skip_comment p) \<le> length p"
  by (induction p rule: skip_comment.induct) auto

lemma skip_shorter [termination_simp]:
  "length (dropWhile P (tl p)) < Suc (length p)" "length (skip_comment (tl p)) < Suc (length p)"
  using length_dropWhile_le [of P "tl p"] skip_comment_length [of "tl p"] by simp_all

fun skip_spaces :: "u8 list \<Rightarrow> u8 list" where
  "skip_spaces [] = []"
| "skip_spaces (c # p) =
     (if isspace c then skip_spaces p
      else if c = SLASH \<and> p \<noteq> [] \<and> hd p = SLASH then skip_spaces (dropWhile (\<lambda>a. a \<noteq> NL) (tl p))
      else if c = SLASH \<and> p \<noteq> [] \<and> hd p = STAR then skip_spaces (skip_comment (tl p))
      else c # p)"

text \<open>At most 127 characters; the first one is not tested.\<close>

definition ident_char :: "u8 \<Rightarrow> bool" where
  "ident_char c \<longleftrightarrow> is_ident_first c \<or> isdigit c"

definition parse_ident :: "u8 list \<Rightarrow> (u8 list \<times> u8 list) option" where
  "parse_ident p =
     (let w = takeWhile ident_char (tl p)
      in if length w > 126 then None else Some (hd p # w, dropWhile ident_char (tl p)))"

text \<open>The name of a property. An empty name is an invalid one.\<close>

definition parse_prop_name :: "u8 list \<Rightarrow> u8 list + u8 list \<times> u8 list" where
  "parse_prop_name p =
     (let invalid = Inl (chars ''Invalid property name'')
      in case p of
           [] \<Rightarrow> invalid
         | c # q \<Rightarrow>
             (case (if c = DQUOTE then parse_string p
                    else if is_ident_first c then
                      (case parse_ident p of None \<Rightarrow> invalid | Some t \<Rightarrow> Inr t)
                    else invalid) of
                Inl msg \<Rightarrow> Inl msg
              | Inr (tag, p1) \<Rightarrow> if tag = [] then invalid else Inr (tag, p1)))"

text \<open>An identifier as a value. When it does not fit into its buffer of 128 bytes, the message of the source is formatted
from the unterminated buffer: the model has the characters that were read into it.\<close>

definition ident_value :: "u8 list \<Rightarrow> json \<times> u8 list option" where
  "ident_value p =
     (case parse_ident p of
        None \<Rightarrow> (json_error_new (chars ''unknown identifier: '' @ [SQUOTE] @ take 127 p @ [SQUOTE]), None)
      | Some (w, p1) \<Rightarrow>
          if w = chars ''null'' then (JSON_NULL, Some p1)
          else if w = chars ''true'' then (JSON_BOOL True, Some p1)
          else if w = chars ''false'' then (JSON_BOOL False, Some p1)
          else (json_error_new (chars ''unknown identifier: '' @ [SQUOTE] @ w @ [SQUOTE]), None))"

section \<open>The parser\<close>

definition starts :: "u8 \<Rightarrow> u8 list \<Rightarrow> bool" where
  "starts c p \<longleftrightarrow> p \<noteq> [] \<and> hd p = c"

text \<open>\<open>json_parse_value2\<close> returns the value and the pointer it leaves in \<open>*pp\<close>; most errors leave the pointer where it was.
The loops over the members of an object and the elements of an array end with the list or with a message.\<close>

fun json_parse_value2 :: "nat \<Rightarrow> u8 list \<Rightarrow> (json \<times> u8 list) option"
  and parse_members :: "nat \<Rightarrow> (u8 list \<times> json) list \<Rightarrow> u8 list \<Rightarrow> (u8 list + (u8 list \<times> json) list \<times> u8 list) option"
  and parse_elements :: "nat \<Rightarrow> json list \<Rightarrow> u8 list \<Rightarrow> (u8 list + json list \<times> u8 list) option"
where
  "json_parse_value2 0 p0 = None"
| "json_parse_value2 (Suc n) p0 =
     (let p = skip_spaces p0
      in case p of
           [] \<Rightarrow> Some (json_error_new (chars ''unexpected end of file''), p0)
         | c # q \<Rightarrow>
             if isdigit c then (let (v, p1) = strtol p in Some (JSON_INT (word_of_int v), p1))
             else if c = DQUOTE then
               (case parse_string p of Inl msg \<Rightarrow> Some (json_error_new msg, p) | Inr (s, p1) \<Rightarrow> Some (JSON_STR s, p1))
             else if c = LBRACE then
               (case parse_members n [] q of
                  None \<Rightarrow> None
                | Some (Inl msg) \<Rightarrow> Some (json_error_new msg, p0)
                | Some (Inr (props, p1)) \<Rightarrow> Some (JSON_OBJ props, p1))
             else if c = LBRACKET then
               (case parse_elements n [] q of
                  None \<Rightarrow> None
                | Some (Inl msg) \<Rightarrow> Some (json_error_new msg, p0)
                | Some (Inr (tab, p1)) \<Rightarrow> Some (JSON_ARRAY tab, p1))
             else if is_ident_first c then
               (case ident_value p of (v, None) \<Rightarrow> Some (v, p0) | (v, Some p1) \<Rightarrow> Some (v, p1))
             else Some (json_error_new (chars ''unexpected character''), p0))"
| "parse_members 0 props p0 = None"
| "parse_members (Suc n) props p0 =
     (let p = skip_spaces p0
      in if starts RBRACE p then Some (Inr (props, tl p))
         else
           case parse_prop_name p of
             Inl msg \<Rightarrow> Some (Inl msg)
           | Inr (tag, p1) \<Rightarrow>
               let p2 = skip_spaces p1
               in if \<not> starts COLON p2 then Some (Inl ([SQUOTE, COLON, SQUOTE] @ chars '' expected''))
                  else
                    case json_parse_value2 n (tl p2) of
                      None \<Rightarrow> None
                    | Some (val1, p3) \<Rightarrow>
                        let props' = assign_prop props tag val1; p4 = skip_spaces p3
                        in if starts COMMA p4 then parse_members n props' (tl p4)
                           else if starts RBRACE p4 then parse_members n props' p4
                           else Some (Inl (chars ''expecting ',' or '}'' @ [SQUOTE])))"
| "parse_elements 0 tab p0 = None"
| "parse_elements (Suc n) tab p0 =
     (let p = skip_spaces p0
      in if starts RBRACKET p then Some (Inr (tab, tl p))
         else
           case json_parse_value2 n p of
             None \<Rightarrow> None
           | Some (val1, p1) \<Rightarrow>
               let p2 = skip_spaces p1
               in if starts COMMA p2 then parse_elements n (tab @ [val1]) (tl p2)
                  else if starts RBRACKET p2 then parse_elements n (tab @ [val1]) p2
                  else Some (Inl (chars ''expecting ',' or ']'' @ [SQUOTE])))"

text \<open>Fuel for a text of \<open>n\<close> bytes.\<close>

definition json_fuel :: "nat \<Rightarrow> nat" where
  "json_fuel n = 2 * n + 1"

definition json_parse_value :: "u8 list \<Rightarrow> json option" where
  "json_parse_value p =
     (case json_parse_value2 (json_fuel (length p)) p of
        None \<Rightarrow> None
      | Some (v, p1) \<Rightarrow>
          Some (if json_is_error v then v
                else if skip_spaces p1 \<noteq> [] then json_error_new (chars ''unexpected characters at the end'')
                else v))"

text \<open>The bytes are copied and terminated: a 0 among them ends the text.\<close>

definition json_parse_value_len :: "u8 list \<Rightarrow> json option" where
  "json_parse_value_len bytes = json_parse_value (takeWhile (\<lambda>c. c \<noteq> 0) bytes)"

end
