(* ===== verification/JsonSpec.thy ===== *)
theory JsonSpec
  imports Json
begin

text \<open>
  The parser of the configuration language: it returns on every text, and it reads every value back from the texts that
  a printer with arbitrary layout writes for it.
\<close>

section \<open>The parser returns\<close>

lemma skip_spaces_length: "length (skip_spaces p) \<le> length p"
proof (induction p rule: skip_spaces.induct)
  case (2 c p)
  have "length (dropWhile (\<lambda>a. a \<noteq> NL) (tl p)) \<le> length p" "length (skip_comment (tl p)) \<le> length p"
    using length_dropWhile_le [of "\<lambda>a. a \<noteq> NL" "tl p"] skip_comment_length [of "tl p"] by simp_all
  with 2 show ?case by auto
qed simp

lemma parse_string_loop_length:
  "parse_string_loop buf p = Inr (s, p1) \<Longrightarrow> length p1 < length p"
proof (induction buf p rule: parse_string_loop.induct)
  case (2 buf c p)
  show ?case
    using "2.prems" "2.IH" by (auto split: if_splits list.splits simp: less_Suc_eq_le intro: order.trans less_imp_le)
      (fastforce intro: order.trans less_imp_le)
qed simp

lemma parse_string_length: "parse_string p = Inr (s, p1) \<Longrightarrow> length p1 \<le> length p"
  using parse_string_loop_length [of "[]" "tl p"] by (auto simp: parse_string_def split: sum.splits)

lemma strtol_length: "length (snd (strtol p)) \<le> length p"
  by (auto simp: strtol_def strtol_in_def intro: order.trans [OF length_dropWhile_le])

lemma parse_ident_length: "parse_ident p = Some (w, p1) \<Longrightarrow> length p1 \<le> length p"
  using length_dropWhile_le [of ident_char "tl p"] by (auto simp: parse_ident_def Let_def split: if_splits)

lemma parse_prop_name_length: "parse_prop_name p = Inr (tag, p1) \<Longrightarrow> length p1 \<le> length p"
  by (auto simp: parse_prop_name_def Let_def dest: parse_string_length parse_ident_length
      split: list.splits if_splits sum.splits option.splits)

lemma ident_value_length: "ident_value p = (v, Some p1) \<Longrightarrow> length p1 \<le> length p"
  by (auto simp: ident_value_def dest: parse_ident_length split: option.splits if_splits)

lemma starts_length: "starts c p \<Longrightarrow> length (tl p) < length p"
  by (cases p) (auto simp: starts_def)

text \<open>No part of the parser moves the pointer back.\<close>

lemma parse_length:
  "(json_parse_value2 n p = Some (v, p1) \<longrightarrow> length p1 \<le> length p) \<and>
   (parse_members n props p = Some (Inr (props', p1)) \<longrightarrow> length p1 \<le> length p) \<and>
   (parse_elements n tab p = Some (Inr (tab', p1)) \<longrightarrow> length p1 \<le> length p)"
proof (induction n arbitrary: p v p1 props props' tab tab')
  case (Suc n)
  note v = Suc [THEN conjunct1, rule_format] and m = Suc [THEN conjunct2, THEN conjunct1, rule_format]
    and e = Suc [THEN conjunct2, THEN conjunct2, rule_format]
  note sk = skip_spaces_length [of p]
  have "length p1 \<le> length p" if "json_parse_value2 (Suc n) p = Some (v, p1)"
    using that sk
    by (auto simp: Let_def split: list.splits if_splits sum.splits option.splits prod.splits
        dest!: m e parse_string_length ident_value_length)
      (metis (no_types, lifting) snd_conv strtol_length length_Cons order.trans)+
  moreover have "length p1 \<le> length p" if parse: "parse_members (Suc n) props p = Some (Inr (props', p1))"
  proof (cases "starts RBRACE (skip_spaces p)")
    case True
    with parse sk show ?thesis by (auto simp: Let_def)
  next
    case False
    with parse obtain tag p2 val p3 props1 where t: "parse_prop_name (skip_spaces p) = Inr (tag, p2)"
      and v1: "json_parse_value2 n (tl (skip_spaces p2)) = Some (val, p3)"
      and r: "parse_members n props1 (tl (skip_spaces p3)) = Some (Inr (props', p1)) \<or>
              parse_members n props1 (skip_spaces p3) = Some (Inr (props', p1))"
      by (auto simp: Let_def split: sum.splits if_splits option.splits; blast)
    have "length p1 \<le> length (skip_spaces p3)"
      using r by (auto dest!: m)
    also have "\<dots> \<le> length p3" by (rule skip_spaces_length)
    also have "\<dots> \<le> length (tl (skip_spaces p2))" by (rule v [OF v1])
    also have "\<dots> \<le> length p2" using skip_spaces_length [of p2] by simp
    also have "\<dots> \<le> length (skip_spaces p)" by (rule parse_prop_name_length [OF t])
    finally show ?thesis using sk by simp
  qed
  moreover have "length p1 \<le> length p" if parse: "parse_elements (Suc n) tab p = Some (Inr (tab', p1))"
  proof (cases "starts RBRACKET (skip_spaces p)")
    case True
    with parse sk show ?thesis by (auto simp: Let_def)
  next
    case False
    with parse obtain val p3 tab1 where v1: "json_parse_value2 n (skip_spaces p) = Some (val, p3)"
      and r: "parse_elements n tab1 (tl (skip_spaces p3)) = Some (Inr (tab', p1)) \<or>
              parse_elements n tab1 (skip_spaces p3) = Some (Inr (tab', p1))"
      by (auto simp: Let_def split: sum.splits if_splits option.splits; blast)
    have "length p1 \<le> length (skip_spaces p3)"
      using r by (auto dest!: e)
    also have "\<dots> \<le> length p3" by (rule skip_spaces_length)
    also have "\<dots> \<le> length (skip_spaces p)" by (rule v [OF v1])
    finally show ?thesis using sk by simp
  qed
  ultimately show ?case by blast
qed simp

lemmas value_length = parse_length [THEN conjunct1, rule_format]

lemma skip_spaces_starts: "starts c p \<Longrightarrow> \<not> isspace c \<Longrightarrow> c \<noteq> SLASH \<Longrightarrow> skip_spaces p = p"
  by (cases p) (auto simp: starts_def)

lemma parse_ends [simp]:
  "starts RBRACE p \<Longrightarrow> 0 < n \<Longrightarrow> parse_members n props p = Some (Inr (props, tl p))"
  "starts RBRACKET p \<Longrightarrow> 0 < n \<Longrightarrow> parse_elements n tab p = Some (Inr (tab, tl p))"
  by (cases n; simp add: skip_spaces_starts isspace_def)+

text \<open>Two units of fuel for each byte are enough.\<close>

lemma parse_returns:
  "(2 * length p < n \<longrightarrow> json_parse_value2 n p \<noteq> None) \<and>
   (2 * length p + 1 < n \<longrightarrow> parse_members n props p \<noteq> None) \<and>
   (2 * length p + 1 < n \<longrightarrow> parse_elements n tab p \<noteq> None)"
proof (induction n arbitrary: p props tab)
  case (Suc n)
  note v = Suc [THEN conjunct1, rule_format] and m = Suc [THEN conjunct2, THEN conjunct1, rule_format]
    and e = Suc [THEN conjunct2, THEN conjunct2, rule_format]
  note sk = skip_spaces_length [of p]
  have "json_parse_value2 (Suc n) p \<noteq> None" if n: "2 * length p < Suc n"
  proof (cases "skip_spaces p")
    case (Cons c q)
    with sk n have "2 * length q + 1 < n" by simp
    then obtain mr er where r: "parse_members n [] q = Some mr" "parse_elements n [] q = Some er"
      using m [of q "[]"] e [of q "[]"] by auto
    show ?thesis
      by (cases mr; cases er; simp add: Cons r Let_def split: sum.split option.split prod.split)
  qed simp
  moreover have "parse_members (Suc n) props p \<noteq> None" if n: "2 * length p + 1 < Suc n"
  proof -
    have "parse_members (Suc n) props p \<noteq> None"
      if t: "parse_prop_name (skip_spaces p) = Inr (tag, p2)" and c: "starts COLON (skip_spaces p2)" for tag p2
    proof -
      have l: "length p2 \<le> length p" using parse_prop_name_length [OF t] sk by simp
      note sk2 = skip_spaces_length [of p2] starts_length [OF c]
      obtain val p3 where v1: "json_parse_value2 n (tl (skip_spaces p2)) = Some (val, p3)"
        using v [of "tl (skip_spaces p2)"] n l sk2 by auto
      have l3: "length (skip_spaces p3) < length p"
        using value_length [OF v1] skip_spaces_length [of p3] l sk2 by simp
      then have "2 * length (tl (skip_spaces p3)) + 1 < n" "0 < n" using n by auto
      then show ?thesis
        using m [of "tl (skip_spaces p3)"] t c v1 by (auto simp: Let_def)
    qed
    then show ?thesis by (auto simp: Let_def split: sum.splits)
  qed
  moreover have "parse_elements (Suc n) tab p \<noteq> None" if n: "2 * length p + 1 < Suc n"
  proof -
    obtain val p3 where v1: "json_parse_value2 n (skip_spaces p) = Some (val, p3)"
      using v [of "skip_spaces p"] n sk by auto
    have l3: "length (skip_spaces p3) \<le> length p"
      using value_length [OF v1] skip_spaces_length [of p3] sk by simp
    show ?thesis
    proof (cases "starts COMMA (skip_spaces p3)")
      case True
      then have "2 * length (tl (skip_spaces p3)) + 1 < n" using starts_length [OF True] l3 n by simp
      then show ?thesis using e [of "tl (skip_spaces p3)"] True v1 by (auto simp: Let_def)
    next
      case False
      then show ?thesis using v1 n by (auto simp: Let_def)
    qed
  qed
  ultimately show ?case by blast
qed simp

text \<open>C36: the parser returns a value for every text. The fuel that \<open>json_parse_value\<close> starts with is enough for every list
of bytes, whatever they are; and a value that the parser was still looking for at the end of the text is an error.\<close>

theorem json_parse_returns:
  "\<exists>v. json_parse_value_len bytes = Some v \<and> (skip_spaces (takeWhile (\<lambda>c. c \<noteq> 0) bytes) = [] \<longrightarrow> json_is_error v)"
proof -
  let ?p = "takeWhile (\<lambda>c. c \<noteq> 0) bytes"
  obtain v p1 where v: "json_parse_value2 (json_fuel (length ?p)) ?p = Some (v, p1)"
    using parse_returns [of ?p "json_fuel (length ?p)", THEN conjunct1] by (auto simp: json_fuel_def)
  moreover have "json_is_error v" if "skip_spaces ?p = []"
    using that v by (auto simp: json_fuel_def json_error_new_def json_is_error_def)
  ultimately show ?thesis
    by (auto simp: json_parse_value_len_def json_parse_value_def json_error_new_def json_is_error_def)
qed

lemma json_parse_returns_witness:
  "\<exists>v. json_parse_value_len [0x20, 0x0a, 0, 0x41] = Some v \<and> json_is_error v"
proof -
  have "skip_spaces (takeWhile (\<lambda>c. c \<noteq> 0) [0x20, 0x0a, 0, 0x41 :: u8]) = []" by code_simp
  then show ?thesis using json_parse_returns [of "[0x20, 0x0a, 0, 0x41]"] by blast
qed

section \<open>The texts of a value\<close>

text \<open>What may stand between two tokens: white space and the two kinds of comments.\<close>

inductive gap :: "u8 list \<Rightarrow> bool" where
  gap_empty: "gap []"
| gap_space: "isspace c \<Longrightarrow> gap g \<Longrightarrow> gap (c # g)"
| gap_line: "NL \<notin> set w \<Longrightarrow> gap g \<Longrightarrow> gap ([SLASH, SLASH] @ w @ [NL] @ g)"
| gap_block: "successively (\<lambda>a b. \<not> (a = STAR \<and> b = SLASH)) w \<Longrightarrow> gap g \<Longrightarrow> gap ([SLASH, STAR] @ w @ [STAR, SLASH] @ g)"

text \<open>The spellings of a character in a string.\<close>

definition spells :: "u8 \<Rightarrow> u8 list \<Rightarrow> bool" where
  "spells c e \<longleftrightarrow>
     e = [c] \<and> c \<notin> {NL, DQUOTE, BSLASH} \<or> e = [BSLASH, c] \<and> c \<in> {SQUOTE, DQUOTE, BSLASH} \<or>
     e = [BSLASH, 110] \<and> c = 10 \<or> e = [BSLASH, 114] \<and> c = 13 \<or> e = [BSLASH, 116] \<and> c = 9 \<or>
     (\<exists>h l. e = [BSLASH, 120, h, l] \<and> 0 \<le> from_hex h \<and> 0 \<le> from_hex l \<and> uint c = 16 * from_hex h + from_hex l)"

definition string_text :: "u8 list \<Rightarrow> u8 list \<Rightarrow> bool" where
  "string_text s t \<longleftrightarrow> 0 \<notin> set s \<and> length s \<le> 4095 \<and> (\<exists>es. list_all2 spells s es \<and> t = [DQUOTE] @ concat es @ [DQUOTE])"

definition ident_text :: "u8 list \<Rightarrow> bool" where
  "ident_text s \<longleftrightarrow> s \<noteq> [] \<and> is_ident_first (hd s) \<and> list_all ident_char s \<and> length s \<le> 127"

text \<open>A decimal number that an \<open>int\<close> holds.\<close>

definition number_text :: "u8 list \<Rightarrow> bool" where
  "number_text t \<longleftrightarrow> t \<noteq> [] \<and> list_all isdigit t \<and> (hd t = 48 \<longrightarrow> t = [48]) \<and> digits_value 10 t < 2 ^ 31"

text \<open>The texts of a value, of the elements of an array up to its bracket, and of the members of an object up to its
brace. A comma after the last element or member is allowed.\<close>

inductive value_text :: "json \<Rightarrow> u8 list \<Rightarrow> bool"
  and elements_text :: "json list \<Rightarrow> u8 list \<Rightarrow> bool"
  and members_text :: "(u8 list \<times> json) list \<Rightarrow> u8 list \<Rightarrow> bool"
where
  text_null: "gap g \<Longrightarrow> value_text JSON_NULL (g @ chars ''null'')"
| text_true: "gap g \<Longrightarrow> value_text (JSON_BOOL True) (g @ chars ''true'')"
| text_false: "gap g \<Longrightarrow> value_text (JSON_BOOL False) (g @ chars ''false'')"
| text_int: "gap g \<Longrightarrow> number_text t \<Longrightarrow> value_text (JSON_INT (word_of_int (digits_value 10 t))) (g @ t)"
| text_string: "gap g \<Longrightarrow> string_text s t \<Longrightarrow> value_text (JSON_STR s) (g @ t)"
| text_array: "gap g \<Longrightarrow> elements_text vs t \<Longrightarrow> value_text (JSON_ARRAY vs) (g @ [LBRACKET] @ t @ [RBRACKET])"
| text_object: "gap g \<Longrightarrow> members_text ps t \<Longrightarrow> distinct (map fst ps) \<Longrightarrow> value_text (JSON_OBJ ps) (g @ [LBRACE] @ t @ [RBRACE])"
| no_elements: "gap g \<Longrightarrow> elements_text [] g"
| last_element: "value_text v t \<Longrightarrow> gap g \<Longrightarrow> elements_text [v] (t @ g)"
| more_elements: "value_text v t \<Longrightarrow> gap g \<Longrightarrow> elements_text vs u \<Longrightarrow> elements_text (v # vs) (t @ g @ [COMMA] @ u)"
| no_members: "gap g \<Longrightarrow> members_text [] g"
| last_member: "gap g1 \<Longrightarrow> ident_text k \<and> kt = k \<or> string_text k kt \<and> k \<noteq> [] \<Longrightarrow> gap g2 \<Longrightarrow> value_text v t \<Longrightarrow> gap g3
    \<Longrightarrow> members_text [(k, v)] (g1 @ kt @ g2 @ [COLON] @ t @ g3)"
| more_members: "gap g1 \<Longrightarrow> ident_text k \<and> kt = k \<or> string_text k kt \<and> k \<noteq> [] \<Longrightarrow> gap g2 \<Longrightarrow> value_text v t \<Longrightarrow> gap g3
    \<Longrightarrow> members_text ps u \<Longrightarrow> members_text ((k, v) # ps) (g1 @ kt @ g2 @ [COLON] @ t @ g3 @ [COMMA] @ u)"

section \<open>Reading the tokens\<close>

definition stops :: "u8 list \<Rightarrow> bool" where
  "stops x \<longleftrightarrow> x = [] \<or> \<not> ident_char (hd x)"

lemma skip_comment_block:
  "successively (\<lambda>a b. \<not> (a = STAR \<and> b = SLASH)) w \<Longrightarrow> skip_comment (w @ STAR # SLASH # g) = g"
proof (induction w)
  case (Cons a w)
  then show ?case by (cases w) auto
qed simp

lemma skip_gap: "gap g \<Longrightarrow> skip_spaces (g @ x) = skip_spaces x"
proof (induction rule: gap.induct)
  case (gap_line w g)
  have "dropWhile (\<lambda>a. a \<noteq> NL) (w @ NL # g @ x) = NL # g @ x"
    using gap_line(1) by (induction w) auto
  then show ?case using gap_line by (simp add: isspace_def)
next
  case (gap_block w g)
  then show ?case by (simp add: isspace_def skip_comment_block)
qed simp_all

lemma gap_stops: "gap g \<Longrightarrow> stops x \<Longrightarrow> stops (g @ x)"
  by (erule gap.cases) (auto simp: stops_def isspace_def ident_char_def is_ident_first_def isdigit_def word_le_nat_alt)

lemma skip_token: "\<not> isspace c \<Longrightarrow> c \<noteq> SLASH \<Longrightarrow> skip_spaces (c # x) = c # x"
  by simp

lemma from_hex_range: "from_hex h < 16"
  by (auto simp: from_hex_def word_le_def)

lemma hex_pair: "0 \<le> h \<Longrightarrow> 0 \<le> l \<Longrightarrow> l < 16 \<Longrightarrow> push_bit 4 h OR l = 16 * h + l" for h l :: int
proof -
  assume a: "0 \<le> h" "0 \<le> l" "l < 16"
  have "push_bit 4 (nat h) OR nat l = nat h * 2 ^ 4 + nat l" by (rule nat_or_add) (use a in simp)
  then have "int (push_bit 4 (nat h) OR nat l) = 16 * h + l" using a by simp
  then show ?thesis using a by (simp add: of_nat_or_eq of_nat_push_bit)
qed

lemma parse_spelling:
  assumes "spells c e" "length buf < 4095"
  shows "parse_string_loop buf (e @ x) = parse_string_loop (buf @ [c]) x"
proof -
  note l = assms(2) [unfolded not_le [symmetric]]
  consider "e = [c]" "c \<noteq> NL" "c \<noteq> DQUOTE" "c \<noteq> BSLASH" | "e = [BSLASH, c]" "c = SQUOTE \<or> c = DQUOTE \<or> c = BSLASH"
    | "e = [BSLASH, 110]" "c = 10" | "e = [BSLASH, 114]" "c = 13" | "e = [BSLASH, 116]" "c = 9"
    | h k where "e = [BSLASH, 120, h, k]" "0 \<le> from_hex h" "0 \<le> from_hex k" "uint c = 16 * from_hex h + from_hex k"
    using assms(1) by (auto simp: spells_def)
  then show ?thesis
  proof cases
    case 6
    have "push_bit 4 (from_hex h) OR from_hex k = uint c"
      using 6(4) hex_pair [OF 6(2,3) from_hex_range] by simp
    then have "word_of_int (push_bit 4 (from_hex h) OR from_hex k) = c" by simp
    then show ?thesis using 6(1-3) l by (simp add: not_less del: push_bit_of_0)
  next
    case 2
    then show ?thesis using l by (elim disjE) simp_all
  qed (use l in simp_all)
qed

lemma parse_spellings:
  "list_all2 spells s es \<Longrightarrow> length buf + length s \<le> 4095 \<Longrightarrow>
   parse_string_loop buf (concat es @ DQUOTE # x) = Inr (buf @ s, x)"
proof (induction s es arbitrary: buf rule: list_all2_induct)
  case (Cons c s e es)
  then show ?case using parse_spelling [of c e buf "concat es @ DQUOTE # x"] by simp
qed simp

lemma parse_string_text: "string_text s t \<Longrightarrow> parse_string (t @ x) = Inr (s, x)"
  using parse_spellings [of s _ "[]" x]
  by (auto simp: string_text_def parse_string_def takeWhile_eq_all_conv)

lemma string_text_starts: "string_text s t \<Longrightarrow> \<exists>q. t = DQUOTE # q"
  by (auto simp: string_text_def)

lemma take_class: "list_all P n \<Longrightarrow> (x = [] \<or> \<not> P (hd x)) \<Longrightarrow> takeWhile P (n @ x) = n \<and> dropWhile P (n @ x) = x"
  by (cases x) (auto simp: list_all_iff takeWhile_append2 dropWhile_append2)

lemma parse_ident_text: "ident_text n \<Longrightarrow> stops x \<Longrightarrow> parse_ident (n @ x) = Some (n, x)"
  using take_class [of ident_char "tl n" x]
  by (cases n) (auto simp: ident_text_def parse_ident_def stops_def)

lemma digit_ident: "digit_in b c \<Longrightarrow> ident_char c"
  by (auto simp: digit_in_def ident_char_def isdigit_def is_ident_first_def from_hex_def word_le_nat_alt split: if_splits)

lemma isdigit_digit_in: "isdigit c \<Longrightarrow> digit_in 10 c"
  by (auto simp: digit_in_def isdigit_def from_hex_def word_le_def)

lemma strtol_number:
  assumes "number_text t" "stops x"
  shows "strtol (t @ x) = (digits_value 10 t, x)"
proof (cases "hd t = 48")
  case True
  then have t: "t = [48]" using assms(1) by (simp add: number_text_def)
  have x: "x = [] \<or> \<not> ident_char (hd x)" using assms(2) by (simp add: stops_def)
  then have "x = [] \<or> hd x \<noteq> 120 \<and> hd x \<noteq> 88" by (auto simp: ident_char_def is_ident_first_def)
  moreover have "takeWhile (digit_in 8) ([48] @ x) = [48] \<and> dropWhile (digit_in 8) ([48] @ x) = x"
  proof (rule take_class)
    show "list_all (digit_in 8) [48]" by (simp add: digit_in_def from_hex_def)
    show "x = [] \<or> \<not> digit_in 8 (hd x)" using x digit_ident by blast
  qed
  ultimately show ?thesis
    by (cases x) (auto simp: t strtol_def strtol_in_def digits_value_def from_hex_def)
next
  case False
  have "takeWhile (digit_in 10) (t @ x) = t \<and> dropWhile (digit_in 10) (t @ x) = x"
    by (rule take_class) (use assms digit_ident isdigit_digit_in in \<open>auto simp: number_text_def stops_def list_all_iff\<close>)
  moreover have "t \<noteq> []" "digits_value 10 t < 2 ^ 31" using assms(1) by (auto simp: number_text_def)
  ultimately show ?thesis
    using False by (cases t) (auto simp: strtol_def strtol_in_def)
qed

section \<open>Reading the values\<close>

text \<open>The theorem is proved for every fuel with which the parser returns.\<close>

definition reads_value :: "json \<Rightarrow> u8 list \<Rightarrow> bool" where
  "reads_value v t \<longleftrightarrow> (\<forall>n x. stops x \<longrightarrow> json_parse_value2 n (t @ x) \<noteq> None \<longrightarrow> json_parse_value2 n (t @ x) = Some (v, x))"

definition reads_elements :: "json list \<Rightarrow> u8 list \<Rightarrow> bool" where
  "reads_elements vs t \<longleftrightarrow> (\<forall>n tab x. parse_elements n tab (t @ RBRACKET # x) \<noteq> None
     \<longrightarrow> parse_elements n tab (t @ RBRACKET # x) = Some (Inr (tab @ vs, x)))"

definition reads_members :: "(u8 list \<times> json) list \<Rightarrow> u8 list \<Rightarrow> bool" where
  "reads_members ps t \<longleftrightarrow> (\<forall>n props x. distinct (map fst (props @ ps)) \<longrightarrow> parse_members n props (t @ RBRACE # x) \<noteq> None
     \<longrightarrow> parse_members n props (t @ RBRACE # x) = Some (Inr (props @ ps, x)))"

lemma value_at:
  "skip_spaces p = LBRACKET # q \<Longrightarrow> json_parse_value2 (Suc m) p =
     (case parse_elements m [] q of None \<Rightarrow> None | Some (Inl msg) \<Rightarrow> Some (json_error_new msg, p) | Some (Inr (tab, p1)) \<Rightarrow> Some (JSON_ARRAY tab, p1))"
  "skip_spaces p = LBRACE # q \<Longrightarrow> json_parse_value2 (Suc m) p =
     (case parse_members m [] q of None \<Rightarrow> None | Some (Inl msg) \<Rightarrow> Some (json_error_new msg, p) | Some (Inr (props, p1)) \<Rightarrow> Some (JSON_OBJ props, p1))"
  by (simp_all add: isdigit_def)

lemma reads_word:
  assumes "gap g" "ident_text w" "\<And>x. stops x \<Longrightarrow> ident_value (w @ x) = (v, Some x)"
  shows "reads_value v (g @ w)"
  unfolding reads_value_def
proof (intro allI impI)
  fix n x assume x: "stops x" and r: "json_parse_value2 n ((g @ w) @ x) \<noteq> None"
  from r obtain m where n: "n = Suc m" by (cases n) auto
  obtain c w' where w: "w = c # w'" using assms(2) by (cases w) (auto simp: ident_text_def)
  have c: "is_ident_first c" using assms(2) by (simp add: ident_text_def w)
  then have c': "\<not> isspace c" "c \<noteq> SLASH" "\<not> isdigit c" "c \<noteq> DQUOTE" "c \<noteq> LBRACE" "c \<noteq> LBRACKET"
    by (auto simp: is_ident_first_def isspace_def isdigit_def word_le_nat_alt)
  show "json_parse_value2 n ((g @ w) @ x) = Some (v, x)"
    using assms(3) [OF x] c c' by (simp add: n skip_gap [OF assms(1)] w Let_def)
qed

lemma reads_null: "gap g \<Longrightarrow> reads_value JSON_NULL (g @ chars ''null'')"
  and reads_true: "gap g \<Longrightarrow> reads_value (JSON_BOOL True) (g @ chars ''true'')"
  and reads_false: "gap g \<Longrightarrow> reads_value (JSON_BOOL False) (g @ chars ''false'')"
proof -
  have i: "ident_text (chars ''null'')" "ident_text (chars ''true'')" "ident_text (chars ''false'')"
    by (simp_all add: ident_text_def chars_def ident_char_def is_ident_first_def)
  have ne: "chars ''true'' \<noteq> chars ''null''" "chars ''false'' \<noteq> chars ''null''" "chars ''false'' \<noteq> chars ''true''"
    by (simp_all add: chars_def)
  show "gap g \<Longrightarrow> reads_value JSON_NULL (g @ chars ''null'')"
    by (erule reads_word [OF _ i(1)]) (simp add: ident_value_def parse_ident_text [OF i(1)])
  show "gap g \<Longrightarrow> reads_value (JSON_BOOL True) (g @ chars ''true'')"
    by (erule reads_word [OF _ i(2)]) (simp add: ident_value_def parse_ident_text [OF i(2)] ne)
  show "gap g \<Longrightarrow> reads_value (JSON_BOOL False) (g @ chars ''false'')"
    by (erule reads_word [OF _ i(3)]) (simp add: ident_value_def parse_ident_text [OF i(3)] ne)
qed

lemma reads_int:
  assumes "gap g" "number_text t"
  shows "reads_value (JSON_INT (word_of_int (digits_value 10 t))) (g @ t)"
  unfolding reads_value_def
proof (intro allI impI)
  fix n x assume x: "stops x" and r: "json_parse_value2 n ((g @ t) @ x) \<noteq> None"
  from r obtain m where n: "n = Suc m" by (cases n) auto
  obtain c t' where t: "t = c # t'" using assms(2) by (cases t) (auto simp: number_text_def)
  have c: "isdigit c" using assms(2) by (simp add: number_text_def t)
  then have c': "\<not> isspace c" "c \<noteq> SLASH" by (auto simp: isspace_def isdigit_def word_le_nat_alt)
  have "skip_spaces ((g @ t) @ x) = t @ x" using c' by (simp add: skip_gap [OF assms(1)] t)
  then show "json_parse_value2 n ((g @ t) @ x) = Some (JSON_INT (word_of_int (digits_value 10 t)), x)"
    using c strtol_number [OF assms(2) x] by (simp add: n t Let_def)
qed

lemma reads_string:
  assumes "gap g" "string_text s t"
  shows "reads_value (JSON_STR s) (g @ t)"
  unfolding reads_value_def
proof (intro allI impI)
  fix n x assume r: "json_parse_value2 n ((g @ t) @ x) \<noteq> None"
  from r obtain m where n: "n = Suc m" by (cases n) auto
  obtain q where t: "t = DQUOTE # q" using string_text_starts [OF assms(2)] by blast
  have "skip_spaces ((g @ t) @ x) = t @ x" by (simp add: skip_gap [OF assms(1)] t isspace_def)
  then show "json_parse_value2 n ((g @ t) @ x) = Some (JSON_STR s, x)"
    using parse_string_text [OF assms(2), of x] by (simp add: n t Let_def isdigit_def)
qed

lemma reads_array:
  assumes "gap g" "reads_elements vs t"
  shows "reads_value (JSON_ARRAY vs) (g @ [LBRACKET] @ t @ [RBRACKET])"
  unfolding reads_value_def
proof (intro allI impI)
  fix n x assume r: "json_parse_value2 n ((g @ [LBRACKET] @ t @ [RBRACKET]) @ x) \<noteq> None"
  from r obtain m where n: "n = Suc m" by (cases n) auto
  have s: "skip_spaces ((g @ [LBRACKET] @ t @ [RBRACKET]) @ x) = LBRACKET # t @ RBRACKET # x"
    by (simp add: skip_gap [OF assms(1)] isspace_def)
  have "parse_elements m [] (t @ RBRACKET # x) \<noteq> None"
    using r unfolding n value_at(1) [OF s] by (auto split: option.splits)
  then have "parse_elements m [] (t @ RBRACKET # x) = Some (Inr (vs, x))"
    using assms(2) [unfolded reads_elements_def, rule_format, of m "[]" x] by simp
  then show "json_parse_value2 n ((g @ [LBRACKET] @ t @ [RBRACKET]) @ x) = Some (JSON_ARRAY vs, x)"
    unfolding n value_at(1) [OF s] by simp
qed

lemma reads_object:
  assumes "gap g" "reads_members ps t" "distinct (map fst ps)"
  shows "reads_value (JSON_OBJ ps) (g @ [LBRACE] @ t @ [RBRACE])"
  unfolding reads_value_def
proof (intro allI impI)
  fix n x assume r: "json_parse_value2 n ((g @ [LBRACE] @ t @ [RBRACE]) @ x) \<noteq> None"
  from r obtain m where n: "n = Suc m" by (cases n) auto
  have s: "skip_spaces ((g @ [LBRACE] @ t @ [RBRACE]) @ x) = LBRACE # t @ RBRACE # x"
    by (simp add: skip_gap [OF assms(1)] isspace_def)
  have "parse_members m [] (t @ RBRACE # x) \<noteq> None"
    using r unfolding n value_at(2) [OF s] by (auto split: option.splits)
  then have "parse_members m [] (t @ RBRACE # x) = Some (Inr (ps, x))"
    using assms(2) [unfolded reads_members_def, rule_format, of "[]" m x] assms(3) by simp
  then show "json_parse_value2 n ((g @ [LBRACE] @ t @ [RBRACE]) @ x) = Some (JSON_OBJ ps, x)"
    unfolding n value_at(2) [OF s] by simp
qed

text \<open>The first byte of a token.\<close>

definition token :: "u8 list \<Rightarrow> bool" where
  "token q \<longleftrightarrow> q \<noteq> [] \<and> \<not> isspace (hd q) \<and> hd q \<notin> {SLASH, COMMA, COLON, RBRACKET, RBRACE}"

lemma skip_token_text: "token q \<Longrightarrow> skip_spaces (q @ x) = q @ x"
  by (cases q) (auto simp: token_def)

lemma token_ident: "ident_text w \<Longrightarrow> token w"
  by (cases w) (auto simp: ident_text_def token_def is_ident_first_def isspace_def word_le_nat_alt)

lemma token_number: "number_text t \<Longrightarrow> token t"
  by (cases t) (auto simp: number_text_def token_def isdigit_def isspace_def word_le_nat_alt)

lemma token_string: "string_text s t \<Longrightarrow> token t"
  by (auto simp: string_text_def token_def isspace_def)

text \<open>A text is read with and without the gap in front of it.\<close>

definition reads :: "json \<Rightarrow> u8 list \<Rightarrow> bool" where
  "reads v t \<longleftrightarrow> reads_value v t \<and> (\<exists>g q. t = g @ q \<and> gap g \<and> token q \<and> reads_value v q)"

lemma readsI: "gap g \<Longrightarrow> token q \<Longrightarrow> (\<And>g. gap g \<Longrightarrow> reads_value v (g @ q)) \<Longrightarrow> reads v (g @ q)"
  unfolding reads_def by (metis append_Nil gap_empty)

lemma stops_sep: "gap g \<Longrightarrow> c \<in> {COMMA, COLON, RBRACKET, RBRACE} \<Longrightarrow> stops (g @ c # x)"
  by (rule gap_stops) (auto simp: stops_def ident_char_def is_ident_first_def isdigit_def)

lemma skip_sep: "gap g \<Longrightarrow> c \<in> {COMMA, COLON, RBRACKET, RBRACE} \<Longrightarrow> skip_spaces (g @ c # x) = c # x"
  by (auto simp: skip_gap isspace_def)

lemma reads_value_at:
  assumes "reads v t" "stops x"
  shows "\<exists>q. token q \<and> skip_spaces (t @ x) = q @ x \<and> (\<forall>n. json_parse_value2 n (q @ x) \<noteq> None \<longrightarrow> json_parse_value2 n (q @ x) = Some (v, x))"
  using assms by (auto simp: reads_def reads_value_def skip_gap skip_token_text)

lemma starts_token: "token q \<Longrightarrow> c \<in> {COMMA, COLON, RBRACKET, RBRACE} \<Longrightarrow> \<not> starts c (q @ x)"
  by (cases q) (auto simp: token_def starts_def)

lemma starts_Cons [simp]: "starts c (d # x) \<longleftrightarrow> c = d"
  by (auto simp: starts_def)

text \<open>One step of each loop.\<close>

lemma reads_no_elements: "gap g \<Longrightarrow> reads_elements [] g"
  unfolding reads_elements_def
proof (intro allI impI)
  fix n tab x assume g: "gap g" and r: "parse_elements n tab (g @ RBRACKET # x) \<noteq> None"
  from r obtain m where n: "n = Suc m" by (cases n) auto
  show "parse_elements n tab (g @ RBRACKET # x) = Some (Inr (tab @ [], x))" by (simp add: n skip_sep [OF g])
qed

lemma reads_last_element:
  assumes "reads v t" "gap g"
  shows "reads_elements [v] (t @ g)"
  unfolding reads_elements_def
proof (intro allI impI)
  fix n tab x assume r: "parse_elements n tab ((t @ g) @ RBRACKET # x) \<noteq> None"
  from r obtain m where n: "n = Suc m" by (cases n) auto
  have st: "stops (g @ RBRACKET # x)" by (rule stops_sep [OF assms(2)]) simp
  obtain q where q: "token q" "skip_spaces (t @ g @ RBRACKET # x) = q @ g @ RBRACKET # x"
    and v: "\<forall>n. json_parse_value2 n (q @ g @ RBRACKET # x) \<noteq> None \<longrightarrow> json_parse_value2 n (q @ g @ RBRACKET # x) = Some (v, g @ RBRACKET # x)"
    using reads_value_at [OF assms(1) st] by blast
  have ns: "\<not> starts RBRACKET (q @ g @ RBRACKET # x)" using q(1) by (rule starts_token) simp
  have "json_parse_value2 m (q @ g @ RBRACKET # x) \<noteq> None" using r ns by (auto simp: n q(2) split: option.splits)
  then have v1: "json_parse_value2 m (q @ g @ RBRACKET # x) = Some (v, g @ RBRACKET # x)" using v by blast
  have m: "0 < m" using v1 by (cases m) auto
  show "parse_elements n tab ((t @ g) @ RBRACKET # x) = Some (Inr (tab @ [v], x))"
    using ns m by (simp add: n q(2) v1 skip_sep [OF assms(2)])
qed

lemma reads_more_elements:
  assumes "reads v t" "gap g" "reads_elements vs u"
  shows "reads_elements (v # vs) (t @ g @ [COMMA] @ u)"
  unfolding reads_elements_def
proof (intro allI impI)
  fix n tab x assume r: "parse_elements n tab ((t @ g @ [COMMA] @ u) @ RBRACKET # x) \<noteq> None"
  from r obtain m where n: "n = Suc m" by (cases n) auto
  let ?y = "u @ RBRACKET # x"
  have st: "stops (g @ COMMA # ?y)" by (rule stops_sep [OF assms(2)]) simp
  obtain q where q: "token q" "skip_spaces (t @ g @ COMMA # ?y) = q @ g @ COMMA # ?y"
    and v: "\<forall>n. json_parse_value2 n (q @ g @ COMMA # ?y) \<noteq> None \<longrightarrow> json_parse_value2 n (q @ g @ COMMA # ?y) = Some (v, g @ COMMA # ?y)"
    using reads_value_at [OF assms(1) st] by blast
  have ns: "\<not> starts RBRACKET (q @ g @ COMMA # ?y)" using q(1) by (rule starts_token) simp
  have "json_parse_value2 m (q @ g @ COMMA # ?y) \<noteq> None" using r ns by (auto simp: n q(2) split: option.splits)
  then have v1: "json_parse_value2 m (q @ g @ COMMA # ?y) = Some (v, g @ COMMA # ?y)" using v by blast
  have step: "parse_elements n tab ((t @ g @ [COMMA] @ u) @ RBRACKET # x) = parse_elements m (tab @ [v]) ?y"
    using ns by (simp add: n q(2) v1 skip_sep [OF assms(2)])
  have "parse_elements m (tab @ [v]) ?y = Some (Inr ((tab @ [v]) @ vs, x))"
    by (rule assms(3) [unfolded reads_elements_def, rule_format]) (rule r [unfolded step])
  then show "parse_elements n tab ((t @ g @ [COMMA] @ u) @ RBRACKET # x) = Some (Inr (tab @ v # vs, x))"
    unfolding step by simp
qed

text \<open>The name of a property.\<close>

definition name_text :: "u8 list \<Rightarrow> u8 list \<Rightarrow> bool" where
  "name_text k kt \<longleftrightarrow> ident_text k \<and> kt = k \<or> string_text k kt \<and> k \<noteq> []"

lemma parse_name:
  assumes "name_text k kt" "stops x"
  shows "parse_prop_name (kt @ x) = Inr (k, x) \<and> token kt"
proof (cases "string_text k kt \<and> k \<noteq> []")
  case True
  then obtain q where "kt = DQUOTE # q" using string_text_starts by blast
  then show ?thesis using True parse_string_text [of k kt x] token_string [of k kt] by (auto simp: parse_prop_name_def)
next
  case False
  then have i: "ident_text k" and kt: "kt = k" using assms(1) by (auto simp: name_text_def)
  then obtain c k' where "k = c # k'" "is_ident_first c" by (cases k) (auto simp: ident_text_def)
  moreover have "\<not> is_ident_first DQUOTE" by (simp add: is_ident_first_def)
  ultimately have k: "k = c # k'" "is_ident_first c" "c \<noteq> DQUOTE" by auto
  then show ?thesis
    using i parse_ident_text [OF i assms(2)] token_ident [OF i] by (simp add: parse_prop_name_def kt Let_def)
qed

lemma assign_new: "k \<notin> set (map fst props) \<Longrightarrow> assign_prop props k v = props @ [(k, v)]"
  by (induction props) auto

text \<open>A member up to the gap behind its value, in front of \<open>y\<close>.\<close>

lemma member_step:
  assumes "gap g1" "name_text k kt" "gap g2" "reads v t" "stops y"
    and "parse_members (Suc m) props (g1 @ kt @ g2 @ COLON # t @ y) \<noteq> None" "k \<notin> set (map fst props)"
  shows "0 < m \<and> parse_members (Suc m) props (g1 @ kt @ g2 @ COLON # t @ y) =
    (let p4 = skip_spaces y
     in if starts COMMA p4 then parse_members m (props @ [(k, v)]) (tl p4)
        else if starts RBRACE p4 then parse_members m (props @ [(k, v)]) p4
        else Some (Inl (chars ''expecting ',' or '}'' @ [SQUOTE])))"
proof -
  have "stops (g2 @ COLON # t @ y)" by (rule stops_sep [OF assms(3)]) simp
  then have k: "parse_prop_name (kt @ g2 @ COLON # t @ y) = Inr (k, g2 @ COLON # t @ y)" and tk: "token kt"
    using parse_name [OF assms(2)] by blast+
  have sk: "skip_spaces (g1 @ kt @ g2 @ COLON # t @ y) = kt @ g2 @ COLON # t @ y"
    by (simp add: skip_gap [OF assms(1)] skip_token_text [OF tk])
  have ns: "\<not> starts RBRACE (kt @ g2 @ COLON # t @ y)" using tk by (rule starts_token) simp
  have sc: "skip_spaces (g2 @ COLON # t @ y) = COLON # t @ y" by (rule skip_sep [OF assms(3)]) simp
  have "json_parse_value2 m (t @ y) \<noteq> None" using assms(6) ns by (auto simp: sk k sc split: option.splits)
  then have v: "json_parse_value2 m (t @ y) = Some (v, y)"
    using assms(4,5) by (auto simp: reads_def reads_value_def)
  then have "0 < m" by (cases m) auto
  then show ?thesis using ns by (simp add: sk k sc v assign_new [OF assms(7)] Let_def)
qed

lemma reads_no_members: "gap g \<Longrightarrow> reads_members [] g"
  unfolding reads_members_def
proof (intro allI impI)
  fix n props x assume g: "gap g" and r: "parse_members n props (g @ RBRACE # x) \<noteq> None"
  from r obtain m where n: "n = Suc m" by (cases n) auto
  show "parse_members n props (g @ RBRACE # x) = Some (Inr (props @ [], x))" by (simp add: n skip_sep [OF g])
qed

lemma reads_last_member:
  assumes "gap g1" "name_text k kt" "gap g2" "reads v t" "gap g3"
  shows "reads_members [(k, v)] (g1 @ kt @ g2 @ [COLON] @ t @ g3)"
  unfolding reads_members_def
proof (intro allI impI)
  fix n props x
  assume d: "distinct (map fst (props @ [(k, v)]))" and r: "parse_members n props ((g1 @ kt @ g2 @ [COLON] @ t @ g3) @ RBRACE # x) \<noteq> None"
  from r obtain m where n: "n = Suc m" by (cases n) auto
  have st: "stops (g3 @ RBRACE # x)" by (rule stops_sep [OF assms(5)]) simp
  show "parse_members n props ((g1 @ kt @ g2 @ [COLON] @ t @ g3) @ RBRACE # x) = Some (Inr (props @ [(k, v)], x))"
    using member_step [OF assms(1-4) st, of m props] d r by (simp add: n skip_sep [OF assms(5)] del: parse_members.simps)
qed

lemma reads_more_members:
  assumes "gap g1" "name_text k kt" "gap g2" "reads v t" "gap g3" "reads_members ps u"
  shows "reads_members ((k, v) # ps) (g1 @ kt @ g2 @ [COLON] @ t @ g3 @ [COMMA] @ u)"
  unfolding reads_members_def
proof (intro allI impI)
  fix n props x
  assume d: "distinct (map fst (props @ (k, v) # ps))"
    and r: "parse_members n props ((g1 @ kt @ g2 @ [COLON] @ t @ g3 @ [COMMA] @ u) @ RBRACE # x) \<noteq> None"
  from r obtain m where n: "n = Suc m" by (cases n) auto
  have st: "stops (g3 @ COMMA # u @ RBRACE # x)" by (rule stops_sep [OF assms(5)]) simp
  have step: "parse_members n props ((g1 @ kt @ g2 @ [COLON] @ t @ g3 @ [COMMA] @ u) @ RBRACE # x)
      = parse_members m (props @ [(k, v)]) (u @ RBRACE # x)"
    using member_step [OF assms(1-4) st, of m props] d r by (simp add: n skip_sep [OF assms(5)] del: parse_members.simps)
  have "parse_members m (props @ [(k, v)]) (u @ RBRACE # x) = Some (Inr ((props @ [(k, v)]) @ ps, x))"
    by (rule assms(6) [unfolded reads_members_def, rule_format]) (use d in simp, rule r [unfolded step])
  then show "parse_members n props ((g1 @ kt @ g2 @ [COLON] @ t @ g3 @ [COMMA] @ u) @ RBRACE # x) = Some (Inr (props @ (k, v) # ps, x))"
    unfolding step by simp
qed

lemma texts_read:
  "(value_text v t \<longrightarrow> reads v t) \<and> (elements_text vs t \<longrightarrow> reads_elements vs t) \<and> (members_text ps t \<longrightarrow> reads_members ps t)"
proof (induction rule: value_text_elements_text_members_text.induct)
  case (text_null g)
  then show ?case by (intro readsI reads_null) (auto simp: token_def chars_def isspace_def)
next
  case (text_true g)
  then show ?case by (intro readsI reads_true) (auto simp: token_def chars_def isspace_def)
next
  case (text_false g)
  then show ?case by (intro readsI reads_false) (auto simp: token_def chars_def isspace_def)
next
  case (text_int g t)
  then show ?case by (intro readsI) (auto intro: reads_int token_number)
next
  case (text_string g s t)
  then show ?case by (intro readsI) (auto intro: reads_string token_string)
next
  case (text_array g vs t)
  then show ?case by (intro readsI reads_array) (auto simp: token_def isspace_def)
next
  case (text_object g ps t)
  then show ?case by (intro readsI reads_object) (auto simp: token_def isspace_def)
qed (auto intro: reads_no_elements reads_last_element reads_more_elements reads_no_members reads_last_member reads_more_members simp: name_text_def
    simp del: append.simps append_assoc)

lemma json_parse_text:
  assumes "value_text v t" "gap g"
  shows "json_parse_value (t @ g) = Some v"
proof -
  have st: "stops g" using gap_stops [OF assms(2), of "[]"] by (simp add: stops_def)
  have "json_parse_value2 (json_fuel (length (t @ g))) (t @ g) \<noteq> None"
    using parse_returns [of "t @ g" "json_fuel (length (t @ g))", THEN conjunct1] by (simp add: json_fuel_def)
  then have "json_parse_value2 (json_fuel (length (t @ g))) (t @ g) = Some (v, g)"
    using texts_read assms(1) st unfolding reads_def reads_value_def by blast
  moreover have "skip_spaces g = []" using skip_gap [OF assms(2), of "[]"] by simp
  moreover have "\<not> json_is_error v" using assms(1) by cases (simp_all add: json_is_error_def)
  ultimately show ?thesis
    unfolding json_parse_value_def by (simp del: length_append)
qed

text \<open>C35: every text of the configuration language is read as the value it stands for, whatever its layout: white space
and comments between any two tokens, any spelling of the characters of a string, quoted or plain property names, a comma
after the last element or member. The texts are those of the grammar \<open>value_text\<close>, followed by a gap: the values \<open>null\<close>,
\<open>true\<close> and \<open>false\<close>, decimal numbers that an \<open>int\<close> holds, strings of at most 4095 bytes, and arrays and objects of these,
nested to any depth.\<close>

theorem json_texts_read_back:
  assumes "value_text v t" "gap g" "0 \<notin> set (t @ g)"
  shows "json_parse_value_len (t @ g @ [0] @ junk) = Some v"
proof -
  have "takeWhile (\<lambda>c. c \<noteq> 0) (t @ g @ [0] @ junk) = t @ g"
    using assms(3) by (simp add: takeWhile_append)
  then show ?thesis by (simp only: json_parse_value_len_def json_parse_text [OF assms(1,2)])
qed

lemma json_texts_read_back_witness:
  "json_parse_value_len (chars ''/**/{a:[1,],b:null}'' @ [NL] @ [0] @ [7])
     = Some (JSON_OBJ [(chars ''a'', JSON_ARRAY [JSON_INT 1]), (chars ''b'', JSON_NULL)])"
proof -
  have e: "gap []" by (rule gap_empty)
  have one: "number_text [49]" "digits_value 10 [49] = 1"
    by (simp_all add: number_text_def digits_value_def from_hex_def isdigit_def)
  have v1: "value_text (JSON_INT 1) ([] @ [49])" using text_int [OF e one(1)] by (simp add: one(2))
  have arr: "value_text (JSON_ARRAY [JSON_INT 1]) ([] @ [LBRACKET] @ (([] @ [49]) @ [] @ [COMMA] @ []) @ [RBRACKET])"
    by (rule text_array [OF e more_elements [OF v1 e no_elements [OF e]]])
  have k: "ident_text (chars ''a'')" "ident_text (chars ''b'')"
    by (simp_all add: ident_text_def chars_def is_ident_first_def ident_char_def)
  note m2 = last_member [OF e disjI1 e text_null [OF e] e, of "chars ''b''", OF conjI [OF k(2) refl]]
  note m1 = more_members [OF e disjI1 e arr e m2, of "chars ''a''", OF conjI [OF k(1) refl]]
  have g: "gap ([SLASH, STAR] @ [] @ [STAR, SLASH] @ [])" by (rule gap_block [OF _ e]) simp
  have "value_text (JSON_OBJ [(chars ''a'', JSON_ARRAY [JSON_INT 1]), (chars ''b'', JSON_NULL)]) (chars ''/**/{a:[1,],b:null}'')"
    using text_object [OF g m1] by (simp add: chars_def)
  moreover have "gap [NL]" by (rule gap_space [OF _ e]) (simp add: isspace_def)
  moreover have "0 \<notin> set (chars ''/**/{a:[1,],b:null}'' @ [NL])" by (simp add: chars_def)
  ultimately show ?thesis by (rule json_texts_read_back)
qed

text \<open>C37: a value that is missing is accepted: the parser stores the error value of the missing value in the object and
goes on, since the error leaves the pointer at the brace, so that \<open>{k:}\<close> is read as an object and not as an error.\<close>

theorem missing_value_accepted:
  assumes "ident_text k"
  shows "json_parse_value_len ([LBRACE] @ k @ [COLON, RBRACE]) = Some (JSON_OBJ [(k, JSON_EXCEPTION (chars ''unexpected character''))])"
proof -
  let ?y = "[COLON, RBRACE]"
  have t: "parse_prop_name (k @ ?y) = Inr (k, ?y) \<and> token k"
    by (rule parse_name) (simp_all add: name_text_def assms stops_def ident_char_def is_ident_first_def isdigit_def)
  have sk: "skip_spaces (k @ ?y) = k @ ?y" using t by (simp add: skip_token_text)
  have ns: "\<not> starts RBRACE (k @ ?y)" using t by (intro starts_token) simp_all
  have v: "json_parse_value2 (Suc m) [RBRACE] = Some (JSON_EXCEPTION (chars ''unexpected character''), [RBRACE])" for m
    by (simp add: isspace_def isdigit_def is_ident_first_def json_error_new_def chars_def)
  have m: "parse_members (Suc (Suc m)) [] (k @ ?y) = Some (Inr ([(k, JSON_EXCEPTION (chars ''unexpected character''))], []))" for m
    using t ns by (simp add: sk v isspace_def del: json_parse_value2.simps)
  have o: "json_parse_value2 (Suc (Suc (Suc m))) (LBRACE # k @ ?y)
      = Some (JSON_OBJ [(k, JSON_EXCEPTION (chars ''unexpected character''))], [])" for m
    using value_at(2) [of "LBRACE # k @ ?y" "k @ ?y"] m by (simp add: isspace_def)
  have "0 \<notin> set k"
  proof
    assume "0 \<in> set k"
    then have "ident_char 0" using assms by (auto simp: ident_text_def list_all_iff)
    then show False by (simp add: ident_char_def is_ident_first_def isdigit_def)
  qed
  then have tw: "takeWhile (\<lambda>c. c \<noteq> 0) ([LBRACE] @ k @ ?y) = LBRACE # k @ ?y" by (simp add: takeWhile_append)
  have f: "json_fuel (length (LBRACE # k @ ?y)) = Suc (Suc (Suc (2 * length k + 4)))" by (simp add: json_fuel_def)
  show ?thesis
    unfolding json_parse_value_len_def tw json_parse_value_def f o by (simp add: json_is_error_def)
qed

lemma missing_value_accepted_witness:
  "json_parse_value_len (chars ''{bios:}'') = Some (JSON_OBJ [(chars ''bios'', JSON_EXCEPTION (chars ''unexpected character''))])"
proof -
  have "ident_text (chars ''bios'')" by (simp add: ident_text_def chars_def is_ident_first_def ident_char_def)
  from missing_value_accepted [OF this] show ?thesis by (simp add: chars_def)
qed

end
