(* ===== verification/Config.thy ===== *)
theory Config
  imports Json "HOL-Library.Signed_Division"
begin

text \<open>
  \<open>machine.c\<close>: the configuration of a virtual machine, read from a text in the language of \<open>json.c\<close>, and the files that
  it names. \<open>None\<close> is an error, after which the emulator exits. What the host supplies are parameters: the contents of
  its files (\<open>read_file\<close>) and the offset of its time zone from UTC in seconds (\<open>gmtoff\<close>). Downloads
  (\<open>CONFIG_FS_NET\<close>) are not part of the model.
\<close>

section \<open>Parameters of a machine\<close>

abbreviation (input) VM_CONFIG_VERSION :: u32 where "VM_CONFIG_VERSION \<equiv> 1"
abbreviation (input) VM_FILE_BIOS :: nat where "VM_FILE_BIOS \<equiv> 0"
abbreviation (input) VM_FILE_VGA_BIOS :: nat where "VM_FILE_VGA_BIOS \<equiv> 1"
abbreviation (input) VM_FILE_KERNEL :: nat where "VM_FILE_KERNEL \<equiv> 2"
abbreviation (input) VM_FILE_COUNT :: nat where "VM_FILE_COUNT \<equiv> 3"

definition MAX_DRIVE_DEVICE :: nat where "MAX_DRIVE_DEVICE = 4"
definition MAX_FS_DEVICE :: nat where "MAX_FS_DEVICE = 4"
definition MAX_ETH_DEVICE :: nat where "MAX_ETH_DEVICE = 1"

text \<open>The two machine classes of the source.\<close>

datatype vm_class = Riscv_Machine | Pc_Machine

record vm_file =
  vf_filename :: "u8 list option"
  vf_buf :: "u8 list"

record vm_drive =
  vd_device :: "u8 list option"
  vd_filename :: "u8 list"

record vm_fs =
  vs_tag :: "u8 list"
  vs_filename :: "u8 list"

record vm_eth =
  ve_driver :: "u8 list"
  ve_ifname :: "u8 list option"

text \<open>The lists hold the entries in use of the arrays; the counts of the source are their lengths.\<close>

record vm_params =
  cfg_filename :: "u8 list option"
  vmc :: "vm_class option"
  machine_name :: "u8 list option"
  vm_ram_size :: u64
  rtc_local_time :: bool
  display_device :: "u8 list option"
  vm_width :: u32
  vm_height :: u32
  tab_drive :: "vm_drive list"
  tab_fs :: "vm_fs list"
  tab_eth :: "vm_eth list"
  vm_cmdline :: "u8 list option"
  accel_enable :: bool
  input_device :: "u8 list option"
  vm_files :: "vm_file list"

definition virt_machine_set_defaults :: vm_params where
  "virt_machine_set_defaults =
     \<lparr>cfg_filename = None, vmc = None, machine_name = None, vm_ram_size = 0, rtc_local_time = False, display_device = None,
      vm_width = 0, vm_height = 0, tab_drive = [], tab_fs = [], tab_eth = [], vm_cmdline = None, accel_enable = False,
      input_device = None, vm_files = replicate VM_FILE_COUNT \<lparr>vf_filename = None, vf_buf = []\<rparr>\<rparr>"

section \<open>Properties of an object\<close>

definition vm_get_int :: "json \<Rightarrow> u8 list \<Rightarrow> u32 option" where
  "vm_get_int obj name = (case json_object_get obj name of JSON_INT v \<Rightarrow> Some v | _ \<Rightarrow> None)"

definition vm_get_int_opt :: "json \<Rightarrow> u8 list \<Rightarrow> u32 \<Rightarrow> u32 option" where
  "vm_get_int_opt obj name def_val =
     (case json_object_get obj name of JSON_UNDEFINED \<Rightarrow> Some def_val | JSON_INT v \<Rightarrow> Some v | _ \<Rightarrow> None)"

text \<open>The inner option is the pointer.\<close>

definition vm_get_str2 :: "json \<Rightarrow> u8 list \<Rightarrow> bool \<Rightarrow> u8 list option option" where
  "vm_get_str2 obj name is_opt =
     (case json_object_get obj name of
        JSON_UNDEFINED \<Rightarrow> if is_opt then Some None else None
      | JSON_STR s \<Rightarrow> Some (Some s)
      | _ \<Rightarrow> None)"

definition vm_get_str :: "json \<Rightarrow> u8 list \<Rightarrow> u8 list option" where
  "vm_get_str obj name = Option.bind (vm_get_str2 obj name False) id"

definition vm_get_str_opt :: "json \<Rightarrow> u8 list \<Rightarrow> u8 list option option" where
  "vm_get_str_opt obj name = vm_get_str2 obj name True"

section \<open>Texts\<close>

text \<open>\<open>%d\<close> and \<open>%02d\<close> of a number that is not negative.\<close>

fun dec_chars :: "nat \<Rightarrow> u8 list" where
  "dec_chars n = (if n < 10 then [48 + of_nat n] else dec_chars (n div 10) @ [48 + of_nat (n mod 10)])"

declare dec_chars.simps [simp del]

definition dec2_chars :: "nat \<Rightarrow> u8 list" where
  "dec2_chars n = (if n < 10 then 48 # dec_chars n else dec_chars n)"

definition tz_chars :: "int \<Rightarrow> u8 list" where
  "tz_chars gmtoff =
     (let n = gmtoff sdiv 60; m = nat \<bar>n\<bar>
      in take 31 (chars ''UTC'' @ [if n < 0 then 43 else 45] @ dec2_chars (m div 60) @ [58] @ dec2_chars (m mod 60)))"

lemma rest_shorter [termination_simp]: "length (dropWhile P (tl p)) - Suc 0 < Suc (length p)"
  using length_dropWhile_le [of P "tl p"] by simp

fun cmdline_subst :: "int \<Rightarrow> u8 list \<Rightarrow> u8 list" where
  "cmdline_subst gmtoff [] = []"
| "cmdline_subst gmtoff (c # p) =
     (if c = 36 \<and> p \<noteq> [] \<and> hd p = LBRACE then
        (let var_name = take 31 (takeWhile (\<lambda>a. a \<noteq> RBRACE) (tl p)); rest = tl (dropWhile (\<lambda>a. a \<noteq> RBRACE) (tl p))
         in (if var_name = chars ''TZ'' then tz_chars gmtoff else []) @ cmdline_subst gmtoff rest)
      else c # cmdline_subst gmtoff p)"

function find_name :: "u8 list \<Rightarrow> u8 list \<Rightarrow> bool" where
  "find_name name p =
     (if COMMA \<notin> set p then name = p
      else if takeWhile (\<lambda>a. a \<noteq> COMMA) p = name then True
      else find_name name (tl (dropWhile (\<lambda>a. a \<noteq> COMMA) p)))"
  by auto
termination
proof (relation "measure (\<lambda>(name, p). length p)")
  fix p :: "u8 list" and name :: "u8 list"
  assume "\<not> COMMA \<notin> set p"
  then have "p \<noteq> []" by auto
  then show "((name, tl (dropWhile (\<lambda>a. a \<noteq> COMMA) p)), name, p) \<in> measure (\<lambda>(name, p). length p)"
    using length_dropWhile_le [of "\<lambda>a. a \<noteq> COMMA" p] by (cases p) auto
qed simp

declare find_name.simps [simp del]

definition machine_names :: "vm_class \<Rightarrow> u8 list" where
  "machine_names c = (case c of Riscv_Machine \<Rightarrow> chars ''riscv32,riscv64,riscv128'' | Pc_Machine \<Rightarrow> chars ''pc'')"

definition virt_machine_find_class :: "u8 list \<Rightarrow> vm_class option" where
  "virt_machine_find_class name = List.find (\<lambda>c. find_name name (machine_names c)) [Riscv_Machine, Pc_Machine]"

text \<open>\<open>virt_machine_set_defaults\<close> of a class.\<close>

definition class_set_defaults :: "vm_class \<Rightarrow> vm_params \<Rightarrow> vm_params" where
  "class_set_defaults c p = (case c of Riscv_Machine \<Rightarrow> p | Pc_Machine \<Rightarrow> p\<lparr>accel_enable := True\<rparr>)"

section \<open>Reading the configuration\<close>

definition set_file :: "vm_params \<Rightarrow> nat \<Rightarrow> u8 list option \<Rightarrow> vm_params" where
  "set_file p i str = (case str of None \<Rightarrow> p | Some f \<Rightarrow> p\<lparr>vm_files := (vm_files p)[i := (vm_files p ! i)\<lparr>vf_filename := Some f\<rparr>]\<rparr>)"

function parse_drives :: "json \<Rightarrow> vm_drive list \<Rightarrow> vm_drive list option" where
  "parse_drives cfg ds =
     (let obj = json_object_get cfg (chars ''drive'' @ dec_chars (length ds))
      in if json_is_undefined obj then Some ds
         else if length ds \<ge> MAX_DRIVE_DEVICE then None
         else
           case vm_get_str obj (chars ''file'') of
             None \<Rightarrow> None
           | Some f \<Rightarrow>
               (case vm_get_str_opt obj (chars ''device'') of
                  None \<Rightarrow> None
                | Some dev \<Rightarrow> parse_drives cfg (ds @ [\<lparr>vd_device = dev, vd_filename = f\<rparr>])))"
  by auto
termination by (relation "measure (\<lambda>(cfg, ds). MAX_DRIVE_DEVICE - length ds)") auto

text \<open>The source compares the number of file systems with the limit of the drives, which is the same.\<close>

function parse_fs :: "json \<Rightarrow> vm_fs list \<Rightarrow> vm_fs list option" where
  "parse_fs cfg fs =
     (let obj = json_object_get cfg (chars ''fs'' @ dec_chars (length fs))
      in if json_is_undefined obj then Some fs
         else if length fs \<ge> MAX_DRIVE_DEVICE then None
         else
           case vm_get_str obj (chars ''file'') of
             None \<Rightarrow> None
           | Some f \<Rightarrow>
               (case vm_get_str_opt obj (chars ''tag'') of
                  None \<Rightarrow> None
                | Some tag \<Rightarrow>
                    let t = (case tag of
                               Some s \<Rightarrow> s
                             | None \<Rightarrow> chars ''/dev/root'' @ (if fs = [] then [] else dec_chars (length fs)))
                    in parse_fs cfg (fs @ [\<lparr>vs_tag = t, vs_filename = f\<rparr>])))"
  by auto
termination by (relation "measure (\<lambda>(cfg, fs). MAX_DRIVE_DEVICE - length fs)") auto

function parse_eth :: "json \<Rightarrow> vm_eth list \<Rightarrow> vm_eth list option" where
  "parse_eth cfg es =
     (let obj = json_object_get cfg (chars ''eth'' @ dec_chars (length es))
      in if json_is_undefined obj then Some es
         else if length es \<ge> MAX_ETH_DEVICE then None
         else
           case vm_get_str obj (chars ''driver'') of
             None \<Rightarrow> None
           | Some d \<Rightarrow>
               if d = chars ''tap'' then
                 (case vm_get_str obj (chars ''ifname'') of
                    None \<Rightarrow> None
                  | Some i \<Rightarrow> parse_eth cfg (es @ [\<lparr>ve_driver = d, ve_ifname = Some i\<rparr>]))
               else parse_eth cfg (es @ [\<lparr>ve_driver = d, ve_ifname = None\<rparr>]))"
  by auto
termination by (relation "measure (\<lambda>(cfg, es). MAX_ETH_DEVICE - length es)") auto

declare parse_drives.simps [simp del] parse_fs.simps [simp del] parse_eth.simps [simp del]

definition parse_display :: "json \<Rightarrow> vm_params \<Rightarrow> vm_params option" where
  "parse_display cfg p =
     (let obj = json_object_get cfg (chars ''display0'')
      in if json_is_undefined obj then Some (p\<lparr>display_device := None\<rparr>)
         else
           case (vm_get_str obj (chars ''device''), vm_get_int obj (chars ''width''), vm_get_int obj (chars ''height''),
                 vm_get_str_opt obj (chars ''vga_bios'')) of
             (Some d, Some w, Some h, Some vga) \<Rightarrow>
               Some (set_file (p\<lparr>display_device := Some d, vm_width := w, vm_height := h\<rparr>) VM_FILE_VGA_BIOS vga)
           | _ \<Rightarrow> None)"

definition parse_accel :: "json \<Rightarrow> vm_params \<Rightarrow> vm_params option" where
  "parse_accel cfg p =
     (case vm_get_str_opt cfg (chars ''accel'') of
        None \<Rightarrow> None
      | Some None \<Rightarrow> Some p
      | Some (Some s) \<Rightarrow>
          if s = chars ''none'' then Some (p\<lparr>accel_enable := False\<rparr>)
          else if s = chars ''auto'' then Some (p\<lparr>accel_enable := True\<rparr>)
          else None)"

definition parse_rtc :: "json \<Rightarrow> vm_params \<Rightarrow> vm_params option" where
  "parse_rtc cfg p =
     (case json_object_get cfg (chars ''rtc_local_time'') of
        JSON_UNDEFINED \<Rightarrow> Some p
      | JSON_BOOL b \<Rightarrow> Some (p\<lparr>rtc_local_time := b\<rparr>)
      | _ \<Rightarrow> None)"

text \<open>The size of the memory in MB is shifted as an \<open>int\<close>.\<close>

definition parse_memory :: "json \<Rightarrow> vm_params \<Rightarrow> vm_params option" where
  "parse_memory cfg p = map_option (\<lambda>v. p\<lparr>vm_ram_size := scast (push_bit 20 v)\<rparr>) (vm_get_int cfg (chars ''memory_size''))"

definition parse_machine :: "json \<Rightarrow> vm_params \<Rightarrow> vm_params option" where
  "parse_machine cfg p =
     (case vm_get_str cfg (chars ''machine'') of
        None \<Rightarrow> None
      | Some s \<Rightarrow>
          map_option (\<lambda>c. class_set_defaults c (p\<lparr>machine_name := Some s, vmc := Some c\<rparr>)) (virt_machine_find_class s))"

definition parse_boot_files :: "int \<Rightarrow> json \<Rightarrow> vm_params \<Rightarrow> vm_params option" where
  "parse_boot_files gmtoff cfg p =
     (case (vm_get_str_opt cfg (chars ''bios''), vm_get_str_opt cfg (chars ''kernel''), vm_get_str_opt cfg (chars ''cmdline'')) of
        (Some b, Some k, Some c) \<Rightarrow>
          let p1 = set_file (set_file p VM_FILE_BIOS b) VM_FILE_KERNEL k
          in Some (case c of None \<Rightarrow> p1 | Some s \<Rightarrow> p1\<lparr>vm_cmdline := Some (cmdline_subst gmtoff s)\<rparr>)
      | _ \<Rightarrow> None)"

definition parse_devices :: "json \<Rightarrow> vm_params \<Rightarrow> vm_params option" where
  "parse_devices cfg p =
     (case parse_drives cfg (tab_drive p) of
        None \<Rightarrow> None
      | Some ds \<Rightarrow>
          (case parse_fs cfg (tab_fs p) of
             None \<Rightarrow> None
           | Some fs \<Rightarrow> map_option (\<lambda>es. p\<lparr>tab_drive := ds, tab_fs := fs, tab_eth := es\<rparr>) (parse_eth cfg (tab_eth p))))"

definition parse_input :: "json \<Rightarrow> vm_params \<Rightarrow> vm_params option" where
  "parse_input cfg p = map_option (\<lambda>s. p\<lparr>input_device := s\<rparr>) (vm_get_str_opt cfg (chars ''input_device''))"

definition virt_machine_parse_config :: "int \<Rightarrow> vm_params \<Rightarrow> u8 list \<Rightarrow> vm_params option" where
  "virt_machine_parse_config gmtoff p config_file_str =
     (case json_parse_value_len config_file_str of
        None \<Rightarrow> None
      | Some cfg \<Rightarrow>
          if json_is_error cfg \<or> vm_get_int cfg (chars ''version'') \<noteq> Some VM_CONFIG_VERSION then None
          else
            Option.bind (parse_machine cfg p) (\<lambda>p1.
            Option.bind (parse_memory cfg p1) (\<lambda>p2.
            Option.bind (parse_boot_files gmtoff cfg p2) (\<lambda>p3.
            Option.bind (parse_devices cfg p3) (\<lambda>p4.
            Option.bind (parse_display cfg p4) (\<lambda>p5.
            Option.bind (parse_input cfg p5) (\<lambda>p6.
            Option.bind (parse_accel cfg p6) (parse_rtc cfg))))))))"

section \<open>Files\<close>

definition get_file_path :: "u8 list option \<Rightarrow> u8 list \<Rightarrow> u8 list" where
  "get_file_path base_filename filename =
     (case base_filename of
        None \<Rightarrow> filename
      | Some b \<Rightarrow>
          if COLON \<in> set filename \<or> starts SLASH filename \<or> SLASH \<notin> set b then filename
          else rev (dropWhile (\<lambda>c. c \<noteq> SLASH) (rev b)) @ filename)"

text \<open>\<open>config_additional_file_load\<close> and its callback, from file \<open>i\<close> on.\<close>

function load_files :: "(u8 list \<Rightarrow> u8 list option) \<Rightarrow> vm_params \<Rightarrow> nat \<Rightarrow> vm_params option" where
  "load_files read_file p i =
     (if i \<ge> VM_FILE_COUNT then Some p
      else
        case vf_filename (vm_files p ! i) of
          None \<Rightarrow> load_files read_file p (i + 1)
        | Some f \<Rightarrow>
            (case read_file (get_file_path (cfg_filename p) f) of
               None \<Rightarrow> None
             | Some buf \<Rightarrow> load_files read_file (p\<lparr>vm_files := (vm_files p)[i := (vm_files p ! i)\<lparr>vf_buf := buf\<rparr>]\<rparr>) (i + 1)))"
  by auto
termination by (relation "measure (\<lambda>(r, p, i). VM_FILE_COUNT - i)") auto

declare load_files.simps [simp del]

definition virt_machine_load_config_file :: "int \<Rightarrow> (u8 list \<Rightarrow> u8 list option) \<Rightarrow> vm_params \<Rightarrow> u8 list \<Rightarrow> vm_params option" where
  "virt_machine_load_config_file gmtoff read_file p filename =
     Option.bind (read_file filename) (\<lambda>buf.
     Option.bind (virt_machine_parse_config gmtoff (p\<lparr>cfg_filename := Some filename\<rparr>) buf) (\<lambda>p1. load_files read_file p1 0))"

definition vm_add_cmdline :: "vm_params \<Rightarrow> u8 list \<Rightarrow> vm_params" where
  "vm_add_cmdline p cmdline =
     (if starts 33 cmdline then p\<lparr>vm_cmdline := Some (tl cmdline)\<rparr>
      else p\<lparr>vm_cmdline := Some ((case vm_cmdline p of None \<Rightarrow> [] | Some c \<Rightarrow> c) @ [32] @ cmdline)\<rparr>)"

end
