(* ===== verification/ConfigSpec.thy ===== *)
theory ConfigSpec
  imports JsonSpec Config
begin

text \<open>
  The configuration reader: every description of a machine is read back from its texts, and which sizes of the memory
  are read as they are written.
\<close>

section \<open>The object of a machine\<close>

definition opt_str :: "string \<Rightarrow> u8 list option \<Rightarrow> (u8 list \<times> json) list" where
  "opt_str k v = (case v of None \<Rightarrow> [] | Some s \<Rightarrow> [(chars k, JSON_STR s)])"

definition indexed :: "string \<Rightarrow> ('a \<Rightarrow> json) \<Rightarrow> 'a list \<Rightarrow> (u8 list \<times> json) list" where
  "indexed k f xs = map (\<lambda>(i, x). (chars k @ dec_chars i, f x)) (enumerate 0 xs)"

definition drive_json :: "vm_drive \<Rightarrow> json" where
  "drive_json d = JSON_OBJ ((chars ''file'', JSON_STR (vd_filename d)) # opt_str ''device'' (vd_device d))"

definition fs_json :: "vm_fs \<Rightarrow> json" where
  "fs_json f = JSON_OBJ [(chars ''file'', JSON_STR (vs_filename f)), (chars ''tag'', JSON_STR (vs_tag f))]"

definition eth_json :: "vm_eth \<Rightarrow> json" where
  "eth_json e = JSON_OBJ ((chars ''driver'', JSON_STR (ve_driver e)) # opt_str ''ifname'' (ve_ifname e))"

definition filename_of :: "vm_params \<Rightarrow> nat \<Rightarrow> u8 list option" where
  "filename_of p i = vf_filename (vm_files p ! i)"

definition display_json :: "vm_params \<Rightarrow> (u8 list \<times> json) list" where
  "display_json p =
     (case display_device p of
        None \<Rightarrow> []
      | Some d \<Rightarrow>
          [(chars ''display0'',
            JSON_OBJ ([(chars ''device'', JSON_STR d), (chars ''width'', JSON_INT (vm_width p)), (chars ''height'', JSON_INT (vm_height p))]
              @ opt_str ''vga_bios'' (filename_of p VM_FILE_VGA_BIOS)))])"

definition config_json :: "nat \<Rightarrow> u8 list \<Rightarrow> vm_params \<Rightarrow> json" where
  "config_json mb name p = JSON_OBJ
     ([(chars ''version'', JSON_INT 1), (chars ''machine'', JSON_STR name), (chars ''memory_size'', JSON_INT (of_nat mb)),
       (chars ''accel'', JSON_STR (if accel_enable p then chars ''auto'' else chars ''none'')),
       (chars ''rtc_local_time'', JSON_BOOL (rtc_local_time p))]
      @ opt_str ''bios'' (filename_of p VM_FILE_BIOS) @ opt_str ''kernel'' (filename_of p VM_FILE_KERNEL)
      @ opt_str ''cmdline'' (vm_cmdline p) @ opt_str ''input_device'' (input_device p)
      @ display_json p
      @ indexed ''drive'' drive_json (tab_drive p) @ indexed ''fs'' fs_json (tab_fs p) @ indexed ''eth'' eth_json (tab_eth p))"

text \<open>What a configuration can say: at most four drives and file systems and one network interface, a known machine, less
than 2 GB of memory, a command line without substitutions, a network interface name exactly for a \<open>tap\<close> driver.\<close>

definition describable :: "nat \<Rightarrow> u8 list \<Rightarrow> vm_params \<Rightarrow> bool" where
  "describable mb name p \<longleftrightarrow>
     mb < 2048 \<and> vm_ram_size p = of_nat (mb * 2 ^ 20) \<and>
     machine_name p = Some name \<and> vmc p = virt_machine_find_class name \<and> vmc p \<noteq> None \<and>
     length (tab_drive p) \<le> 4 \<and> length (tab_fs p) \<le> 4 \<and> length (tab_eth p) \<le> 1 \<and>
     (\<forall>e \<in> set (tab_eth p). ve_ifname e \<noteq> None \<longleftrightarrow> ve_driver e = chars ''tap'') \<and>
     (\<forall>s. vm_cmdline p = Some s \<longrightarrow> successively (\<lambda>a b. \<not> (a = 36 \<and> b = LBRACE)) s) \<and>
     length (vm_files p) = 3 \<and> (\<forall>f \<in> set (vm_files p). vf_buf f = []) \<and>
     (display_device p = None \<longrightarrow> vm_width p = 0 \<and> vm_height p = 0 \<and> filename_of p VM_FILE_VGA_BIOS = None)"

section \<open>Looking up the properties\<close>

lemma get2_append: "json_object_get2 (xs @ ys) n = (case json_object_get2 xs n of None \<Rightarrow> json_object_get2 ys n | Some v \<Rightarrow> Some v)"
  by (induction xs) auto

lemma get2_opt_str: "json_object_get2 (opt_str k v) n = (if n = chars k then map_option JSON_STR v else None)"
  by (auto simp: opt_str_def split: option.split)

lemma chars_eq [simp]: "chars s = chars t \<longleftrightarrow> s = t"
proof -
  have u: "unat (of_char c :: u8) = of_char c" for c
    by (simp add: of_char_def unat_of_nat)
  have "inj (of_char :: char \<Rightarrow> u8)"
    by (rule injI) (metis u of_char_eq_iff)
  then show ?thesis by (simp add: chars_def inj_map_eq_map)
qed

lemma chars_take: "take n (chars s) = chars (take n s)"
  by (simp add: chars_def take_map)

lemma chars_indexed_ne [simp]:
  assumes "take (length t) s \<noteq> t"
  shows "chars s \<noteq> chars t @ x" "chars t @ x \<noteq> chars s"
proof -
  have "chars s \<noteq> chars t @ x"
  proof
    assume "chars s = chars t @ x"
    then have "take (length t) (chars s) = chars t" by (simp add: chars_def)
    then show False using assms by (simp add: chars_take)
  qed
  then show "chars s \<noteq> chars t @ x" "chars t @ x \<noteq> chars s" by auto
qed

lemma dec_digit: "i < 10 \<Longrightarrow> dec_chars i = [48 + of_nat i]"
  by (subst dec_chars.simps) simp

lemma digit_inj: "a < 10 \<Longrightarrow> b < 10 \<Longrightarrow> (of_nat a :: u8) = of_nat b \<longleftrightarrow> a = b"
  by (simp add: word_of_nat_eq_iff take_bit_nat_eq_self)

lemma get2_indexed_none:
  assumes "length xs \<le> 9" "\<forall>i < 10. n \<noteq> chars k @ [48 + of_nat i]"
  shows "json_object_get2 (indexed k f xs) n = None"
proof -
  have "json_object_get2 (map (\<lambda>(i, x). (chars k @ dec_chars i, f x)) (enumerate m xs)) n = None" if "m + length xs \<le> 9" for m
    using that
  proof (induction xs arbitrary: m)
    case (Cons x xs)
    then have "n \<noteq> chars k @ dec_chars m" using assms(2) by (simp add: dec_digit)
    with Cons show ?case by simp
  qed simp
  from this [of 0] show ?thesis using assms(1) by (simp add: indexed_def)
qed

lemma get2_indexed:
  assumes "length xs \<le> 9" "i < 10"
  shows "json_object_get2 (indexed k f xs) (chars k @ [48 + of_nat i]) = (if i < length xs then Some (f (xs ! i)) else None)"
proof -
  have "json_object_get2 (map (\<lambda>(i, x). (chars k @ dec_chars i, f x)) (enumerate m xs)) (chars k @ [48 + of_nat i])
      = (if m \<le> i \<and> i < m + length xs then Some (f (xs ! (i - m))) else None)" if "m + length xs \<le> 9" for m
    using that assms(2)
    by (induction xs arbitrary: m) (auto simp: dec_digit digit_inj nth_Cons')
  from this [of 0] show ?thesis using assms(1) by (simp add: indexed_def)
qed

lemma get2_display: "json_object_get2 (display_json p) n = (if n = chars ''display0'' then map_option (snd \<circ> hd) (if display_device p = None then None else Some (display_json p)) else None)"
  by (auto simp: display_json_def split: option.split)

lemmas config_lookups = config_json_def json_object_get_def get2_append get2_opt_str get2_display get2_indexed_none

lemma config_get:
  assumes "describable mb name p"
  shows "json_object_get (config_json mb name p) (chars ''version'') = JSON_INT 1"
    "json_object_get (config_json mb name p) (chars ''machine'') = JSON_STR name"
    "json_object_get (config_json mb name p) (chars ''memory_size'') = JSON_INT (of_nat mb)"
    "json_object_get (config_json mb name p) (chars ''accel'') = JSON_STR (if accel_enable p then chars ''auto'' else chars ''none'')"
    "json_object_get (config_json mb name p) (chars ''rtc_local_time'') = JSON_BOOL (rtc_local_time p)"
    "vm_get_str_opt (config_json mb name p) (chars ''bios'') = Some (filename_of p VM_FILE_BIOS)"
    "vm_get_str_opt (config_json mb name p) (chars ''kernel'') = Some (filename_of p VM_FILE_KERNEL)"
    "vm_get_str_opt (config_json mb name p) (chars ''cmdline'') = Some (vm_cmdline p)"
    "vm_get_str_opt (config_json mb name p) (chars ''input_device'') = Some (input_device p)"
proof -
  have l: "length (tab_drive p) \<le> 9" "length (tab_fs p) \<le> 9" "length (tab_eth p) \<le> 9"
    using assms by (auto simp: describable_def)
  note lk = config_lookups l vm_get_str_opt_def vm_get_str2_def
  show "json_object_get (config_json mb name p) (chars ''version'') = JSON_INT 1" by (simp add: lk)
  show "json_object_get (config_json mb name p) (chars ''machine'') = JSON_STR name" by (simp add: lk)
  show "json_object_get (config_json mb name p) (chars ''memory_size'') = JSON_INT (of_nat mb)" by (simp add: lk)
  show "json_object_get (config_json mb name p) (chars ''accel'') = JSON_STR (if accel_enable p then chars ''auto'' else chars ''none'')"
    by (simp add: lk)
  show "json_object_get (config_json mb name p) (chars ''rtc_local_time'') = JSON_BOOL (rtc_local_time p)" by (simp add: lk)
  show "vm_get_str_opt (config_json mb name p) (chars ''bios'') = Some (filename_of p VM_FILE_BIOS)"
    by (simp add: lk split: option.split)
  show "vm_get_str_opt (config_json mb name p) (chars ''kernel'') = Some (filename_of p VM_FILE_KERNEL)"
    by (simp add: lk split: option.split)
  show "vm_get_str_opt (config_json mb name p) (chars ''cmdline'') = Some (vm_cmdline p)"
    by (simp add: lk split: option.split)
  show "vm_get_str_opt (config_json mb name p) (chars ''input_device'') = Some (input_device p)"
    by (simp add: lk split: option.split)
qed

lemma config_get_indexed:
  assumes "describable mb name p" "i < 10"
  shows "json_object_get (config_json mb name p) (chars ''drive'' @ [48 + of_nat i])
      = (if i < length (tab_drive p) then drive_json (tab_drive p ! i) else JSON_UNDEFINED)"
    "json_object_get (config_json mb name p) (chars ''fs'' @ [48 + of_nat i])
      = (if i < length (tab_fs p) then fs_json (tab_fs p ! i) else JSON_UNDEFINED)"
    "json_object_get (config_json mb name p) (chars ''eth'' @ [48 + of_nat i])
      = (if i < length (tab_eth p) then eth_json (tab_eth p ! i) else JSON_UNDEFINED)"
proof -
  have l: "length (tab_drive p) \<le> 9" "length (tab_fs p) \<le> 9" "length (tab_eth p) \<le> 9"
    using assms by (auto simp: describable_def)
  note lk = config_lookups l get2_indexed [OF l(1) assms(2)] get2_indexed [OF l(2) assms(2)] get2_indexed [OF l(3) assms(2)]
  show "json_object_get (config_json mb name p) (chars ''drive'' @ [48 + of_nat i])
      = (if i < length (tab_drive p) then drive_json (tab_drive p ! i) else JSON_UNDEFINED)"
    by (simp add: lk)
  show "json_object_get (config_json mb name p) (chars ''fs'' @ [48 + of_nat i])
      = (if i < length (tab_fs p) then fs_json (tab_fs p ! i) else JSON_UNDEFINED)"
    by (simp add: lk)
  show "json_object_get (config_json mb name p) (chars ''eth'' @ [48 + of_nat i])
      = (if i < length (tab_eth p) then eth_json (tab_eth p ! i) else JSON_UNDEFINED)"
    by (simp add: lk)
qed

section \<open>Reading the lists\<close>

lemma take_Suc_eq: "k < length xs \<Longrightarrow> take k xs @ [xs ! k] = take (Suc k) xs"
  by (simp add: take_Suc_conv_app_nth)

lemmas json_field = json_object_get_def get2_append get2_opt_str vm_get_str_def vm_get_str_opt_def vm_get_str2_def vm_get_int_def

lemma drive_fields:
  "vm_get_str (drive_json d) (chars ''file'') = Some (vd_filename d)"
  "vm_get_str_opt (drive_json d) (chars ''device'') = Some (vd_device d)"
  "\<not> json_is_undefined (drive_json d)"
  by (simp_all add: drive_json_def json_field json_is_undefined_def split: option.split)

lemma fs_fields:
  "vm_get_str (fs_json f) (chars ''file'') = Some (vs_filename f)"
  "vm_get_str_opt (fs_json f) (chars ''tag'') = Some (Some (vs_tag f))"
  "\<not> json_is_undefined (fs_json f)"
  by (simp_all add: fs_json_def json_field json_is_undefined_def)

lemma eth_fields:
  "vm_get_str (eth_json e) (chars ''driver'') = Some (ve_driver e)"
  "ve_ifname e = Some i \<Longrightarrow> vm_get_str (eth_json e) (chars ''ifname'') = Some i"
  "\<not> json_is_undefined (eth_json e)"
  by (simp_all add: eth_json_def json_field json_is_undefined_def)

lemma entry_eta [simp]:
  "\<lparr>vd_device = vd_device d, vd_filename = vd_filename d\<rparr> = d" "\<lparr>vs_tag = vs_tag f, vs_filename = vs_filename f\<rparr> = f"
  by simp_all

lemma parse_drives_reads:
  assumes d: "describable mb name p" and "k \<le> length (tab_drive p)"
  shows "parse_drives (config_json mb name p) (take k (tab_drive p)) = Some (tab_drive p)"
  using assms(2)
proof (induction k rule: inc_induct)
  case base
  have "length (tab_drive p) \<le> 4" using d by (simp add: describable_def)
  then show ?case
    by (subst parse_drives.simps) (simp add: dec_digit config_get_indexed [OF d] json_is_undefined_def)
next
  case (step k)
  have "k < 4" using d step(2) by (simp add: describable_def)
  then show ?case
    using step
    by (subst parse_drives.simps)
      (simp add: dec_digit config_get_indexed [OF d] drive_fields MAX_DRIVE_DEVICE_def min_def take_Suc_eq)
qed

lemma parse_fs_reads:
  assumes d: "describable mb name p" and "k \<le> length (tab_fs p)"
  shows "parse_fs (config_json mb name p) (take k (tab_fs p)) = Some (tab_fs p)"
  using assms(2)
proof (induction k rule: inc_induct)
  case base
  have "length (tab_fs p) \<le> 4" using d by (simp add: describable_def)
  then show ?case
    by (subst parse_fs.simps) (simp add: dec_digit config_get_indexed [OF d] json_is_undefined_def)
next
  case (step k)
  have "k < 4" using d step(2) by (simp add: describable_def)
  then show ?case
    using step
    by (subst parse_fs.simps)
      (simp add: dec_digit config_get_indexed [OF d] fs_fields MAX_DRIVE_DEVICE_def min_def take_Suc_eq)
qed

lemma parse_eth_reads:
  assumes d: "describable mb name p" and "k \<le> length (tab_eth p)"
  shows "parse_eth (config_json mb name p) (take k (tab_eth p)) = Some (tab_eth p)"
  using assms(2)
proof (induction k rule: inc_induct)
  case base
  have "length (tab_eth p) \<le> 1" using d by (simp add: describable_def)
  then show ?case
    by (subst parse_eth.simps) (simp add: dec_digit config_get_indexed [OF d] json_is_undefined_def)
next
  case (step k)
  have k: "k = 0" using d step(2) by (simp add: describable_def)
  note get = config_get_indexed(3) [OF d, of 0, simplified]
  let ?e = "tab_eth p ! 0"
  have "?e \<in> set (tab_eth p)" using step(2) k by simp
  then have i: "ve_ifname ?e \<noteq> None \<longleftrightarrow> ve_driver ?e = chars ''tap''" using d by (simp add: describable_def)
  have later: "parse_eth (config_json mb name p) [?e] = Some (tab_eth p)"
    using step take_Suc_eq [of 0 "tab_eth p"] by (simp add: k)
  show ?case
  proof (cases "ve_ifname ?e")
    case None
    then have e: "[\<lparr>ve_driver = ve_driver ?e, ve_ifname = None\<rparr>] = [?e]" by simp
    show ?thesis
      using step(2) None i later
      by (subst parse_eth.simps) (simp add: k dec_digit get eth_fields MAX_ETH_DEVICE_def e)
  next
    case (Some n)
    then have "\<lparr>ve_driver = ve_driver ?e, ve_ifname = Some n\<rparr> = ?e" by simp
    moreover have "ve_driver ?e = chars ''tap''" using i Some by simp
    ultimately show ?thesis
      using step(2) later
      by (subst parse_eth.simps) (simp add: k dec_digit get eth_fields(1,3) eth_fields(2) [OF Some] MAX_ETH_DEVICE_def)
  qed
qed

lemma cmdline_subst_plain:
  "successively (\<lambda>a b. \<not> (a = 36 \<and> b = LBRACE)) s \<Longrightarrow> cmdline_subst gmtoff s = s"
proof (induction s)
  case (Cons c s)
  then show ?case by (cases s) auto
qed simp

section \<open>Reading the whole\<close>

definition initial_params :: "u8 list option \<Rightarrow> vm_params" where
  "initial_params f = virt_machine_set_defaults\<lparr>cfg_filename := f\<rparr>"

lemma initial_fields [simp]:
  "vm_width (initial_params f) = 0" "vm_height (initial_params f) = 0" "tab_drive (initial_params f) = []"
  "tab_fs (initial_params f) = []" "tab_eth (initial_params f) = []" "vm_cmdline (initial_params f) = None"
  "vm_files (initial_params f) = [\<lparr>vf_filename = None, vf_buf = []\<rparr>, \<lparr>vf_filename = None, vf_buf = []\<rparr>, \<lparr>vf_filename = None, vf_buf = []\<rparr>]"
  by (simp_all add: initial_params_def virt_machine_set_defaults_def numeral_3_eq_3)

lemma vm_files_three:
  assumes "length fs = 3" "\<forall>f \<in> set fs. vf_buf f = []"
  shows "fs = [\<lparr>vf_filename = vf_filename (fs ! 0), vf_buf = []\<rparr>, \<lparr>vf_filename = vf_filename (fs ! 1), vf_buf = []\<rparr>, \<lparr>vf_filename = vf_filename (fs ! 2), vf_buf = []\<rparr>]"
proof -
  obtain a b c where "fs = [a, b, c]"
    using assms(1) by (auto simp: numeral_3_eq_3 length_Suc_conv)
  then show ?thesis using assms(2) by simp
qed

lemma display_fields:
  assumes "display_device p = Some d"
  shows "vm_get_str (snd (hd (display_json p))) (chars ''device'') = Some d"
    "vm_get_int (snd (hd (display_json p))) (chars ''width'') = Some (vm_width p)"
    "vm_get_int (snd (hd (display_json p))) (chars ''height'') = Some (vm_height p)"
    "vm_get_str_opt (snd (hd (display_json p))) (chars ''vga_bios'') = Some (filename_of p VM_FILE_VGA_BIOS)"
    "\<not> json_is_undefined (snd (hd (display_json p)))"
  using assms by (simp_all add: display_json_def json_field json_is_undefined_def split: option.split)

lemma config_get_display:
  assumes "describable mb name p"
  shows "json_object_get (config_json mb name p) (chars ''display0'')
    = (if display_device p = None then JSON_UNDEFINED else snd (hd (display_json p)))"
proof -
  have l: "length (tab_drive p) \<le> 9" "length (tab_fs p) \<le> 9" "length (tab_eth p) \<le> 9"
    using assms by (auto simp: describable_def)
  show ?thesis by (simp add: config_lookups l)
qed

text \<open>The memory size.\<close>

lemma memory_sint:
  fixes v :: u32
  assumes "unat v < 2048"
  shows "sint (push_bit 20 v) = int (unat v * 2 ^ 20)"
proof -
  have "unat (push_bit 20 v) = unat v * 2 ^ 20" by (rule unat_push_bit_small) (use assms in simp)
  then have u: "uint (push_bit 20 v) = int (unat v * 2 ^ 20)" by (simp only: uint_nat)
  have "int (unat v) < int 2048" using assms by (simp only: of_nat_less_iff)
  then have "uint v < 2048" by simp
  then have b1: "uint (push_bit 20 v) < 2 ^ 31" using u by simp
  have b0: "- (2 ^ 31) \<le> uint (push_bit 20 v)"
    by (rule order.trans [OF _ uint_ge_0]) simp
  have "sint (push_bit 20 v) = signed_take_bit 31 (uint (push_bit 20 v))" by (simp add: sint_uint)
  also have "\<dots> = uint (push_bit 20 v)" by (rule signed_take_bit_int_eq_self [OF b0 b1])
  finally show ?thesis using u by simp
qed

lemma memory_word: "mb < 2048 \<Longrightarrow> (scast (push_bit 20 (of_nat mb :: u32)) :: u64) = of_nat (mb * 2 ^ 20)"
proof -
  assume "mb < 2048"
  then have "unat (of_nat mb :: u32) = mb" by (simp add: unat_of_nat take_bit_nat_eq_self)
  then have "sint (push_bit 20 (of_nat mb :: u32)) = int (mb * 2 ^ 20)" using memory_sint [of "of_nat mb"] \<open>mb < 2048\<close> by simp
  then show ?thesis by (simp only: scast_eq of_int_of_nat_eq)
qed

lemma parse_machine_reads:
  assumes d: "describable mb name p"
  shows "\<exists>a. parse_machine (config_json mb name p) (initial_params f) =
    Some ((initial_params f)\<lparr>machine_name := Some name, vmc := vmc p, accel_enable := a\<rparr>)"
proof -
  have "vmc p = virt_machine_find_class name \<and> vmc p \<noteq> None"
    using d unfolding describable_def by blast
  then obtain c where c: "vmc p = Some c" "virt_machine_find_class name = Some c" by (metis not_None_eq)
  show ?thesis
    by (cases c)
      (auto simp: parse_machine_def vm_get_str_def vm_get_str2_def config_get [OF d] c class_set_defaults_def
        initial_params_def virt_machine_set_defaults_def intro: exI [of _ True] exI [of _ False])
qed

lemma set_file_eq:
  "set_file q i f = q\<lparr>vm_files := (case f of None \<Rightarrow> vm_files q | Some g \<Rightarrow> (vm_files q)[i := (vm_files q ! i)\<lparr>vf_filename := Some g\<rparr>])\<rparr>"
  by (cases f) (simp_all add: set_file_def)

lemma config_read:
  assumes d: "describable mb name p" and v: "json_parse_value_len text = Some (config_json mb name p)"
  shows "virt_machine_parse_config gmtoff (initial_params (cfg_filename p)) text = Some p"
proof -
  let ?c = "config_json mb name p" and ?i = "initial_params (cfg_filename p)"
  obtain a where m: "parse_machine ?c ?i = Some (?i\<lparr>machine_name := Some name, vmc := vmc p, accel_enable := a\<rparr>)"
    using parse_machine_reads [OF d] by blast
  have ram: "parse_memory ?c q = Some (q\<lparr>vm_ram_size := vm_ram_size p\<rparr>)" for q
    using d by (simp add: parse_memory_def vm_get_int_def config_get [OF d] memory_word describable_def del: of_nat_mult)
  have cmd: "vm_cmdline p = Some s \<Longrightarrow> cmdline_subst gmtoff s = s" for s
    using d by (simp add: describable_def cmdline_subst_plain)
  have files: "vm_files p = [\<lparr>vf_filename = filename_of p 0, vf_buf = []\<rparr>, \<lparr>vf_filename = filename_of p 1, vf_buf = []\<rparr>,
      \<lparr>vf_filename = filename_of p 2, vf_buf = []\<rparr>]"
    unfolding filename_of_def by (rule vm_files_three) (use d in \<open>simp_all add: describable_def\<close>)
  have boot: "parse_boot_files gmtoff ?c q = Some ((set_file (set_file q 0 (filename_of p 0)) 2 (filename_of p 2))\<lparr>vm_cmdline := vm_cmdline p\<rparr>)"
    if "vm_cmdline q = None" for q
    using that cmd
    by (auto simp: parse_boot_files_def config_get [OF d] set_file_def Let_def split: option.split)
  have dev: "parse_devices ?c q = Some (q\<lparr>tab_drive := tab_drive p, tab_fs := tab_fs p, tab_eth := tab_eth p\<rparr>)"
    if "tab_drive q = []" "tab_fs q = []" "tab_eth q = []" for q
    using that parse_drives_reads [OF d, of 0] parse_fs_reads [OF d, of 0] parse_eth_reads [OF d, of 0]
    by (simp add: parse_devices_def)
  have disp: "parse_display ?c q = Some (set_file (q\<lparr>display_device := display_device p, vm_width := vm_width p, vm_height := vm_height p\<rparr>) 1 (filename_of p 1))"
    if "vm_width q = 0" "vm_height q = 0" for q
  proof (cases "display_device p")
    case None
    then have "vm_width p = 0" "vm_height p = 0" "filename_of p 1 = None" using d by (auto simp: describable_def)
    with None that show ?thesis
      by (simp add: parse_display_def config_get_display [OF d] json_is_undefined_def set_file_def)
  next
    case (Some dd)
    then show ?thesis
      using display_fields [OF Some] by (simp add: parse_display_def config_get_display [OF d])
  qed
  have inp: "parse_input ?c q = Some (q\<lparr>input_device := input_device p\<rparr>)" for q
    by (simp add: parse_input_def config_get [OF d])
  have acc: "parse_accel ?c q = Some (q\<lparr>accel_enable := accel_enable p\<rparr>)" for q
    by (simp add: parse_accel_def vm_get_str_opt_def vm_get_str2_def config_get [OF d])
  have rtc: "parse_rtc ?c q = Some (q\<lparr>rtc_local_time := rtc_local_time p\<rparr>)" for q
    by (simp add: parse_rtc_def config_get [OF d])
  have ver: "\<not> json_is_error ?c" "vm_get_int ?c (chars ''version'') = Some 1"
    by (simp_all add: vm_get_int_def config_get [OF d]) (simp add: json_is_error_def config_json_def)
  have name: "machine_name p = Some name" using d by (simp add: describable_def)
  have "virt_machine_parse_config gmtoff ?i text = Some (?i\<lparr>machine_name := Some name, vmc := vmc p,
      vm_ram_size := vm_ram_size p, vm_files := vm_files p, vm_cmdline := vm_cmdline p, tab_drive := tab_drive p, tab_fs := tab_fs p,
      tab_eth := tab_eth p, display_device := display_device p, vm_width := vm_width p, vm_height := vm_height p,
      input_device := input_device p, accel_enable := accel_enable p, rtc_local_time := rtc_local_time p\<rparr>)"
    by (simp add: virt_machine_parse_config_def v ver m ram boot dev disp inp acc rtc set_file_eq files
        numeral_2_eq_2 split: option.split)
  also have "\<dots> = Some p"
    using name by (cases p) (simp add: initial_params_def virt_machine_set_defaults_def)
  finally show ?thesis .
qed

section \<open>Properties\<close>

text \<open>C38: a configuration text is read as the machine it describes. For every machine that the language can describe
(\<open>describable\<close>), reading any of the texts of its object (any layout and spelling, followed by a gap and by whatever lies
behind the 0 that ends the text) into cleared parameters returns exactly that machine.\<close>

theorem config_reads_back:
  assumes "describable mb name p" "value_text (config_json mb name p) t" "gap g" "0 \<notin> set (t @ g)"
  shows "virt_machine_parse_config gmtoff (initial_params (cfg_filename p)) (t @ g @ [0] @ junk) = Some p"
proof -
  have "takeWhile (\<lambda>c. c \<noteq> 0) (t @ g @ [0] @ junk) = t @ g"
    using assms(4) by (simp add: takeWhile_append)
  then have "json_parse_value_len (t @ g @ [0] @ junk) = Some (config_json mb name p)"
    by (simp only: json_parse_value_len_def json_parse_text [OF assms(2,3)])
  then show ?thesis by (rule config_read [OF assms(1)])
qed

text \<open>A machine with no devices, and its text.\<close>

definition small_machine :: vm_params where
  "small_machine = (initial_params None)\<lparr>machine_name := Some (chars ''riscv64''), vmc := Some Riscv_Machine, vm_ram_size := 128 * 2 ^ 20\<rparr>"

definition small_text :: "u8 list" where
  "small_text = chars ''{version:1,machine:'' @ [DQUOTE] @ chars ''riscv64'' @ [DQUOTE] @ chars '',memory_size:128,accel:''
     @ [DQUOTE] @ chars ''none'' @ [DQUOTE] @ chars '',rtc_local_time:false}''"

lemma find_riscv64: "virt_machine_find_class (chars ''riscv64'') = Some Riscv_Machine"
proof -
  have "find_name (chars ''riscv64'') (chars ''riscv32,riscv64,riscv128'')"
    by (subst find_name.simps, simp add: chars_def) (subst find_name.simps, simp)
  then show ?thesis by (simp add: virt_machine_find_class_def machine_names_def)
qed

lemma small_describable: "describable 128 (chars ''riscv64'') small_machine"
  by (simp add: describable_def small_machine_def find_riscv64 initial_params_def virt_machine_set_defaults_def filename_of_def
      numeral_3_eq_3)

lemma small_json: "config_json 128 (chars ''riscv64'') small_machine = JSON_OBJ
   [(chars ''version'', JSON_INT 1), (chars ''machine'', JSON_STR (chars ''riscv64'')), (chars ''memory_size'', JSON_INT 128),
    (chars ''accel'', JSON_STR (chars ''none'')), (chars ''rtc_local_time'', JSON_BOOL False)]"
  by (simp add: config_json_def small_machine_def initial_params_def virt_machine_set_defaults_def filename_of_def opt_str_def
      display_json_def indexed_def)

lemma plain_string_text:
  assumes "list_all (\<lambda>c. c \<notin> {0, NL, DQUOTE, BSLASH}) s" "length s \<le> 4095"
  shows "string_text s ([DQUOTE] @ s @ [DQUOTE])"
proof -
  have "list_all2 spells s (map (\<lambda>c. [c]) s)"
    using assms(1) by (induction s) (auto simp: spells_def)
  moreover have "concat (map (\<lambda>c. [c]) s) = s" by (induction s) auto
  ultimately show ?thesis using assms by (fastforce simp: string_text_def list_all_iff)
qed

lemma small_value_text: "value_text (config_json 128 (chars ''riscv64'') small_machine) small_text"
proof -
  have e: "gap []" by (rule gap_empty)
  have n: "number_text [49]" "digits_value 10 [49] = 1" "number_text [49, 50, 56]" "digits_value 10 [49, 50, 56] = 128"
    by (simp_all add: number_text_def digits_value_def from_hex_def isdigit_def)
  have i: "ident_text (chars ''version'')" "ident_text (chars ''machine'')" "ident_text (chars ''memory_size'')"
      "ident_text (chars ''accel'')" "ident_text (chars ''rtc_local_time'')"
    by (simp_all add: ident_text_def chars_def is_ident_first_def ident_char_def)
  have v1: "value_text (JSON_INT 1) ([] @ [49])" using text_int [OF e n(1)] by (simp add: n(2))
  have v2: "value_text (JSON_STR (chars ''riscv64'')) ([] @ [DQUOTE] @ chars ''riscv64'' @ [DQUOTE])"
    by (rule text_string [OF e plain_string_text]) (simp_all add: chars_def)
  have v3: "value_text (JSON_INT 128) ([] @ [49, 50, 56])" using text_int [OF e n(3)] by (simp add: n(4))
  have v4: "value_text (JSON_STR (chars ''none'')) ([] @ [DQUOTE] @ chars ''none'' @ [DQUOTE])"
    by (rule text_string [OF e plain_string_text]) (simp_all add: chars_def)
  note m5 = last_member [OF e disjI1 e text_false [OF e] e, of "chars ''rtc_local_time''", OF conjI [OF i(5) refl]]
  note m4 = more_members [OF e disjI1 e v4 e m5, of "chars ''accel''", OF conjI [OF i(4) refl]]
  note m3 = more_members [OF e disjI1 e v3 e m4, of "chars ''memory_size''", OF conjI [OF i(3) refl]]
  note m2 = more_members [OF e disjI1 e v2 e m3, of "chars ''machine''", OF conjI [OF i(2) refl]]
  note m1 = more_members [OF e disjI1 e v1 e m2, of "chars ''version''", OF conjI [OF i(1) refl]]
  show ?thesis
    unfolding small_json using text_object [OF e m1] by (simp add: small_text_def chars_def)
qed

lemma config_reads_back_witness:
  "virt_machine_parse_config 0 (initial_params None) (small_text @ [NL] @ [0] @ []) = Some small_machine"
proof -
  have g: "gap [NL]" by (rule gap_space [OF _ gap_empty]) (simp add: isspace_def)
  have z: "0 \<notin> set (small_text @ [NL])" by (simp add: small_text_def chars_def)
  have c: "cfg_filename small_machine = None" by (simp add: small_machine_def initial_params_def virt_machine_set_defaults_def)
  show ?thesis using config_reads_back [OF small_describable small_value_text g z] by (simp only: c)
qed

text \<open>C39: which sizes of the memory are read as they are written. The number of megabytes is shifted by 20 as an \<open>int\<close> and
then widened to 64 bits: the RAM has the size that the configuration gives exactly for less than 2048 MB, and for no larger
number.\<close>

theorem memory_size_limit:
  assumes "vm_get_int cfg (chars ''memory_size'') = Some v"
  shows "\<exists>p1. parse_memory cfg p = Some p1 \<and> (unat (vm_ram_size p1) = unat v * 2 ^ 20 \<longleftrightarrow> unat v < 2048)"
proof -
  let ?w = "push_bit 20 v" and ?r = "scast (push_bit 20 v) :: u64"
  have "uint ?r = sint ?w mod 2 ^ LENGTH(64)" by (simp only: scast_eq uint_word_of_int)
  then have r: "uint ?r = sint ?w mod 2 ^ 64" by (simp only: len_num1 len_bit0 len_num0 mult_numeral_1_right) simp
  have b: "- (2 ^ 31) \<le> sint ?w" "sint ?w < 2 ^ 31" using sint_range_size [of ?w] by (simp_all add: word_size)
  have "unat v < 2048" if eq: "unat ?r = unat v * 2 ^ 20"
  proof (rule ccontr)
    assume "\<not> unat v < 2048"
    then have "int 2048 \<le> int (unat v)" by (simp only: of_nat_le_iff not_less)
    then have l: "2 ^ 31 \<le> int (unat v) * 2 ^ 20" by simp
    have "uint v < 2 ^ 32" using uint_lt2p [of v] by simp
    then have u: "int (unat v) * 2 ^ 20 < 2 ^ 52" by simp
    have "int (unat ?r) = int (unat v) * 2 ^ 20" using eq by simp
    then have m: "sint ?w mod 2 ^ 64 = int (unat v) * 2 ^ 20" using r by simp
    show False
    proof (cases "0 \<le> sint ?w")
      case True
      then have "sint ?w mod 2 ^ 64 = sint ?w" using b by (intro mod_pos_pos_trivial) simp_all
      with m l b show False by linarith
    next
      case False
      have "sint ?w mod 2 ^ 64 = (sint ?w + 2 ^ 64) mod 2 ^ 64" by (rule mod_add_self2 [symmetric])
      also have "\<dots> = sint ?w + 2 ^ 64" using b False by (intro mod_pos_pos_trivial) simp_all
      finally have "sint ?w mod 2 ^ 64 = sint ?w + 2 ^ 64" .
      then have "sint ?w + 2 ^ 64 < 2 ^ 52" using m u by (simp only:)
      then show False using b(1) by simp
    qed
  qed
  moreover have "unat ?r = unat v * 2 ^ 20" if "unat v < 2048"
  proof -
    have "int (unat v) < int 2048" using that by (simp only: of_nat_less_iff)
    then have "uint ?r = int (unat v * 2 ^ 20)"
      using memory_sint [OF that] by (simp only: r) (intro mod_pos_pos_trivial, simp_all)
    then show ?thesis by (simp only: uint_nat of_nat_eq_iff)
  qed
  ultimately show ?thesis using assms by (auto simp: parse_memory_def)
qed

lemma memory_size_limit_witness:
  "\<exists>p1. parse_memory (JSON_OBJ [(chars ''memory_size'', JSON_INT 4096)]) (initial_params None) = Some p1 \<and> vm_ram_size p1 \<noteq> 4096 * 2 ^ 20"
proof -
  have "vm_get_int (JSON_OBJ [(chars ''memory_size'', JSON_INT 4096)]) (chars ''memory_size'') = Some 4096"
    by (simp add: vm_get_int_def json_object_get_def)
  from memory_size_limit [OF this, of "initial_params None"] show ?thesis by auto
qed

end
