(* ===== verification/Spec2Isabelle.thy ===== *)
theory Spec2Isabelle
  imports Prelude Cutils Host Iomem CpuState Mmu Csr Trap Decode Alu ExecInt ExecC ExecSys
    SoftFP ExecFp Interp Invariant Machine MachineInv Privilege TrapReturn CsrSpec BaseWidth
    PhysMem Translation RamAccess DirtyPages Fdt FdtSpec DeviceTree Boot BootSpec
    Virtio VirtioDev GuestMem VirtioMem VirtioSafe VirtioConfined VirtioChain VirtioWrite VirtioQueue
    VirtioServe BlockFile BlockSpec BlockQueue BlockImage VirtioDemo
    Ps2 Ps2Spec Pckbd PckbdSpec Pci PciSpec VirtioPci VirtioPciSpec Ide IdeSpec IdeSafe Pic PicSpec Pit PitSpec Serial Cmos SerialSpec
    Json JsonSpec Config ConfigSpec
begin

text \<open>
  TinyEMU's system emulator (\<open>src/source_c\<close>): a model of the C code and proofs about it.

  \<^bold>\<open>The program.\<close> \<open>riscv_machine.c\<close> builds a machine: RAM and devices in the physical memory map of
  \<open>iomem.c\<close>, images, boot code and a device tree in RAM. \<open>riscv_machine_interp\<close> then runs the CPU of
  \<open>riscv_cpu.c\<close> for a number of cycles at a time. The CPU fetches, decodes and executes
  (\<open>riscv_cpu_template.h\<close>, \<open>riscv_cpu_fp_template.h\<close> over \<open>softfp.c\<close>), translates addresses and caches
  translations in three TLBs, and takes traps and interrupts. Its loads and stores reach RAM through
  the memory map, where they set dirty bits, or the devices: HTIF, CLINT and PLIC in
  \<open>riscv_machine.c\<close>, the VIRTIO devices of \<open>virtio.c\<close> behind MMIO or PCI, which read and write the guest's
  RAM themselves and raise interrupts. The PC machine adds the PCI bus with its host bridge (\<open>pci.c\<close>) and
  the keyboard controller (\<open>pckbd.c\<close>) over the PS/2 devices (\<open>ps2.c\<close>). A disk is an image file
  (\<open>temu.c\<close>) behind the block interface of \<open>virtio.h\<close>.

  \<^bold>\<open>Conventions.\<close> A C integer is a word of its width (\<^theory_text>\<open>Prelude\<close>: \<open>u8\<close>, \<open>u16\<close>, \<open>u32\<close>, \<open>u64\<close>), an \<open>int\<close> that
  cannot overflow is an \<open>int\<close> or a \<open>nat\<close>; C casts are \<open>ucast\<close> and \<open>scast\<close>. A struct is a record whose
  fields have the source's names where HOL allows it, an operation a definition with the source's name
  that takes and returns the state. \<open>None\<close> stands for \<open>abort()\<close>, a failed assertion or \<open>exit\<close> in the
  builders and for undefined behaviour where a definition says so; an error return is a value. Host
  pointers are addresses in the byte memory of \<^theory_text>\<open>Host\<close>; what \<open>malloc\<close> returned is a parameter.

  \<^bold>\<open>Theories and code.\<close>

  \<^item> \<^theory_text>\<open>Cutils\<close> (\<open>cutils.c\<close>, \<open>cutils.h\<close>): byte order, strings, \<open>DynBuf\<close>. \<^theory_text>\<open>Iomem\<close> (\<open>iomem.c\<close>): ranges, lookup,
    registration, moving and disabling ranges, dirty bitmaps, IRQ signals.
  \<^item> The CPU: \<^theory_text>\<open>CpuState\<close> (\<open>riscv_cpu_priv.h\<close>), \<^theory_text>\<open>Mmu\<close>, \<^theory_text>\<open>Csr\<close>, \<^theory_text>\<open>Trap\<close> (\<open>riscv_cpu.c\<close>), \<^theory_text>\<open>Decode\<close>, \<^theory_text>\<open>Alu\<close>, \<^theory_text>\<open>ExecInt\<close>,
    \<^theory_text>\<open>ExecC\<close>, \<^theory_text>\<open>ExecSys\<close> (\<open>riscv_cpu_template.h\<close>, with the width 32 or 64 an argument), \<^theory_text>\<open>SoftFP\<close> (\<open>softfp.c\<close>,
    \<open>softfp_template.h\<close>, \<open>softfp_template_icvt.h\<close>), \<^theory_text>\<open>ExecFp\<close> (\<open>riscv_cpu_fp_template.h\<close>), \<^theory_text>\<open>Interp\<close> (the loops).
  \<^item> The machine: \<^theory_text>\<open>Machine\<close>, \<^theory_text>\<open>Fdt\<close>, \<^theory_text>\<open>Boot\<close> (\<open>riscv_machine.c\<close>).
  \<^item> The VIRTIO devices: \<^theory_text>\<open>Virtio\<close> (registers of both transports, configuration space, queues), \<^theory_text>\<open>VirtioDev\<close>
    (block, network, console, input), \<^theory_text>\<open>VirtioPci\<close> (the PCI branch of \<open>virtio_init\<close>); \<^theory_text>\<open>BlockFile\<close> (\<open>temu.c\<close>).
  \<^item> The PC devices: \<^theory_text>\<open>Ps2\<close>, \<^theory_text>\<open>Pckbd\<close>, \<^theory_text>\<open>Pci\<close>, each its C file.

  \<^bold>\<open>What is proved.\<close>

  \<^item> \<^theory_text>\<open>Invariant\<close> has the locales \<open>insn_invariant\<close> and \<open>cpu_invariant\<close>: what every primitive of the instructions
    keeps, the interpreter keeps. They are interpreted for the zero register and the legal values of the
    privileged state (\<^theory_text>\<open>MachineInv\<close>), for what code below M mode cannot change (\<^theory_text>\<open>Privilege\<close>) and for the base
    width (\<^theory_text>\<open>BaseWidth\<close>). \<^theory_text>\<open>Interp\<close> has the cycle accounts of the loops, \<^theory_text>\<open>TrapReturn\<close> the traps against
    \<open>mret\<close> and \<open>sret\<close>, \<^theory_text>\<open>CsrSpec\<close> the values of the registers after a write, \<^theory_text>\<open>Alu\<close> the arithmetic against
    integers.
  \<^item> \<^theory_text>\<open>PhysMem\<close> specifies physical memory; \<^theory_text>\<open>Translation\<close> is the page walk as an inductive specification that
    \<open>get_phys_addr\<close> refines; \<^theory_text>\<open>RamAccess\<close> shows that loads and stores read and write bytes through TLBs that
    stay consistent; \<^theory_text>\<open>DirtyPages\<close> that no store escapes the dirty log.
  \<^item> \<^theory_text>\<open>FdtSpec\<close> and \<^theory_text>\<open>DeviceTree\<close> read back the image of the tree builder; \<^theory_text>\<open>BootSpec\<close> is about the machine that
    is built and its boot code.
  \<^item> \<^theory_text>\<open>GuestMem\<close> and \<^theory_text>\<open>VirtioMem\<close> specify the devices' accesses to the guest's RAM. \<^theory_text>\<open>VirtioSafe\<close> has the contract of
    a \<open>device_recv\<close> callback as a locale and \<^theory_text>\<open>VirtioConfined\<close> its interpretations on the four devices.
    \<^theory_text>\<open>VirtioChain\<close>, \<^theory_text>\<open>VirtioWrite\<close>, \<^theory_text>\<open>VirtioQueue\<close> and \<^theory_text>\<open>VirtioServe\<close> treat descriptor chains, rings and the order of
    service. \<^theory_text>\<open>BlockSpec\<close> specifies a disk and, in a locale, the contract of \<open>BlockDevice\<close>, which the images of
    \<open>temu.c\<close> keep; \<^theory_text>\<open>BlockQueue\<close> composes it all for a queue of requests; \<^theory_text>\<open>BlockImage\<close> is about files that are
    not opened for writing. \<^theory_text>\<open>VirtioDemo\<close> is a concrete machine for the witnesses.
  \<^item> \<^theory_text>\<open>Ps2Spec\<close> shows that the ring buffer is a bounded queue (a locale) and that mouse packets add up to the
    movement; \<^theory_text>\<open>PckbdSpec\<close> the consistency of the controller in every run and what reading it out gives.
    \<^theory_text>\<open>PciSpec\<close> is about base address registers and capabilities, \<^theory_text>\<open>VirtioPciSpec\<close> about the mapping of the VIRTIO
    ranges in every run.

  \<^bold>\<open>Bounds and fuel.\<close> The interpreter loops are total functions with their measures (the cycle counter
  decreases; a block of code is at most 2050 cycles). The loops over descriptor chains can be made
  endless by the guest: they are \<open>partial_function (option)\<close>, where \<open>None\<close> is not returning, and
  \<^theory_text>\<open>VirtioServe\<close> proves both that they return on well-formed chains and that they do not on a cyclic one.
  The walk of the capability list has the number of capabilities as its bound.

  \<^bold>\<open>Not modelled.\<close> The 9P device of \<open>virtio.c\<close> and the file systems and downloads under it (\<open>fs*.c\<close>,
  \<open>block_net.c\<close>), which are host I/O; the printf family; \<open>RISCVCPUState\<close> at 128 bits (not built); the IDE
  controller, the legacy devices of \<open>x86_machine.c\<close> and the stub CPU of \<open>x86_cpu.c\<close>; \<open>json.c\<close> and the
  configuration loader; frame buffers and displays; the front ends; the third-party cryptography; the
  port of some files to D (\<open>src/source_d\<close>). The host enters through parameters: the clock, the console, the
  packets of the network, the backend of a block device, the memory \<open>malloc\<close> returns.
\<close>

end
